(* ===== verification/Prelude.thy ===== *)
theory Prelude
  imports Complex_Main "HOL-Library.Word" "HOL-Library.List_Lexorder"
begin

text \<open>
  Shared ground of the development: the \<open>Result\<close> plumbing of the Rust sources
  (\<open>?\<close>, \<open>ok_or\<close>, \<open>collect::<Result<Vec<_>, _>>\<close>), saturating machine integers,
  and the ordered collections of the standard library.  A \<open>BTreeMap\<close> is an association
  list sorted strictly by key and a \<open>BTreeSet\<close> a strictly sorted list, so that the
  iteration order the sources rely on (first role in id order, first finding, first
  ceremony with something to deliver) is the order of the list.
\<close>

named_theorems result_simps
named_theorems btree_simps
named_theorems step_defs

section \<open>Results\<close>

text \<open>The \<open>?\<close> operator: stop at the first error, otherwise continue with the value.\<close>

definition and_then :: "'e + 'a \<Rightarrow> ('a \<Rightarrow> 'e + 'b) \<Rightarrow> 'e + 'b" where
  "and_then r f = (case r of Inl e \<Rightarrow> Inl e | Inr x \<Rightarrow> f x)"

definition ok_or :: "'a option \<Rightarrow> 'e \<Rightarrow> 'e + 'a" where
  "ok_or opt e = (case opt of None \<Rightarrow> Inl e | Some x \<Rightarrow> Inr x)"

definition map_ok :: "('a \<Rightarrow> 'b) \<Rightarrow> 'e + 'a \<Rightarrow> 'e + 'b" where
  "map_ok f r = (case r of Inl e \<Rightarrow> Inl e | Inr x \<Rightarrow> Inr (f x))"

definition is_ok :: "'e + 'a \<Rightarrow> bool" where
  "is_ok r = (case r of Inl _ \<Rightarrow> False | Inr _ \<Rightarrow> True)"

text \<open>An early \<open>return Err(..)\<close> when a condition fails.\<close>

definition ensure :: "bool \<Rightarrow> 'e \<Rightarrow> 'e + unit" where
  "ensure b e = (if b then Inr () else Inl e)"

text \<open>\<open>iter().map(f).collect::<Result<Vec<_>, _>>()\<close>: the first error wins.\<close>

fun try_map :: "('a \<Rightarrow> 'e + 'b) \<Rightarrow> 'a list \<Rightarrow> 'e + 'b list" where
  "try_map f [] = Inr []"
| "try_map f (x # xs) = and_then (f x) (\<lambda>y. map_ok (\<lambda>ys. y # ys) (try_map f xs))"

lemma and_then_Inl [simp]: "and_then (Inl e) f = Inl e"
  and and_then_Inr [simp]: "and_then (Inr x) f = f x"
  by (simp_all add: and_then_def)

lemma ok_or_simps [simp]: "ok_or None e = Inl e" "ok_or (Some x) e = Inr x"
  by (simp_all add: ok_or_def)

lemma map_ok_simps [simp]: "map_ok f (Inl e) = Inl e" "map_ok f (Inr x) = Inr (f x)"
  by (simp_all add: map_ok_def)

lemma is_ok_simps [simp]: "\<not> is_ok (Inl e)" "is_ok (Inr x)"
  by (simp_all add: is_ok_def)

lemma ensure_simps [simp]: "ensure True e = Inr ()" "ensure False e = Inl e"
  by (simp_all add: ensure_def)

lemma and_then_eq_Inr [result_simps]:
  "and_then r f = Inr y \<longleftrightarrow> (\<exists>x. r = Inr x \<and> f x = Inr y)"
  by (cases r) auto

lemma and_then_eq_Inl [result_simps]:
  "and_then r f = Inl e \<longleftrightarrow> r = Inl e \<or> (\<exists>x. r = Inr x \<and> f x = Inl e)"
  by (cases r) auto

lemma ok_or_eq_Inr [result_simps]: "ok_or opt e = Inr x \<longleftrightarrow> opt = Some x"
  by (cases opt) auto

lemma ok_or_eq_Inl [result_simps]: "ok_or opt e = Inl e' \<longleftrightarrow> opt = None \<and> e = e'"
  by (cases opt) auto

lemma map_ok_eq_Inr [result_simps]: "map_ok f r = Inr y \<longleftrightarrow> (\<exists>x. r = Inr x \<and> y = f x)"
  by (cases r) auto

lemma map_ok_eq_Inl [result_simps]: "map_ok f r = Inl e \<longleftrightarrow> r = Inl e"
  by (cases r) auto

lemma ensure_eq_Inr [result_simps]: "ensure b e = Inr u \<longleftrightarrow> b"
  by (auto simp: ensure_def)

lemma ensure_eq_Inl [result_simps]: "ensure b e = Inl e' \<longleftrightarrow> \<not> b \<and> e = e'"
  by (auto simp: ensure_def)

lemma is_ok_iff [result_simps]: "is_ok r \<longleftrightarrow> (\<exists>x. r = Inr x)"
  by (cases r) auto

lemma not_ok_iff: "\<not> is_ok r \<longleftrightarrow> (\<exists>e. r = Inl e)"
  by (cases r) auto

lemma try_map_eq_Inr [result_simps]:
  "try_map f xs = Inr ys \<longleftrightarrow> list_all2 (\<lambda>x y. f x = Inr y) xs ys"
  by (induction xs arbitrary: ys) (auto simp: result_simps list_all2_Cons1)

lemma try_map_members: "try_map f xs = Inr ys \<Longrightarrow> y \<in> set ys \<longleftrightarrow> (\<exists>x \<in> set xs. f x = Inr y)"
  unfolding try_map_eq_Inr by (induction xs ys rule: list_all2_induct) auto

lemma try_map_image: "try_map f xs = Inr ys \<Longrightarrow> x \<in> set xs \<Longrightarrow> \<exists>y \<in> set ys. f x = Inr y"
  unfolding try_map_eq_Inr by (induction xs ys rule: list_all2_induct) auto

lemma try_map_total: "\<forall>x \<in> set xs. \<exists>y. f x = Inr y \<Longrightarrow> \<exists>ys. try_map f xs = Inr ys"
  by (induction xs) (auto simp: result_simps)

section \<open>Saturating machine integers\<close>

text \<open>\<open>saturating_add(1)\<close> on an unsigned integer of any width.\<close>

definition sat_succ :: "'a::len word \<Rightarrow> 'a word" where
  "sat_succ w = (if w = - 1 then w else w + 1)"

text \<open>\<open>saturating_add\<close> on unsigned integers.\<close>

definition sat_add :: "'a::len word \<Rightarrow> 'a word \<Rightarrow> 'a word" where
  "sat_add v w = (if unat v + unat w < 2 ^ LENGTH('a) then v + w else - 1)"

lemma unat_minus_1: "unat (- 1 :: 'a::len word) = 2 ^ LENGTH('a) - 1"
  by (simp add: unsigned_minus_1_eq_mask mask_eq_exp_minus_1)

lemma one_less_two_power_len: "(1::nat) < 2 ^ LENGTH('a::len)"
  by (rule one_less_power) simp_all

text \<open>\<open>saturating_mul\<close>.\<close>

definition sat_mul :: "'a::len word \<Rightarrow> 'a word \<Rightarrow> 'a word" where
  "sat_mul v w = (if unat v * unat w < 2 ^ LENGTH('a) then v * w else - 1)"

lemma unat_sat_succ: "unat (sat_succ w) = min (Suc (unat w)) (2 ^ LENGTH('a) - 1)"
  for w :: "'a::len word"
proof (cases "w = - 1")
  case True
  then show ?thesis by (simp add: sat_succ_def unat_minus_1)
next
  case False
  have lt: "unat w < 2 ^ LENGTH('a)" by (rule unsigned_less)
  have ne: "unat w \<noteq> 2 ^ LENGTH('a) - 1"
    using False unat_minus_1 word_unat_eq_iff by metis
  have lt': "Suc (unat w) < 2 ^ LENGTH('a)" using lt ne by linarith
  then have "unat (w + 1) = Suc (unat w)"
    by (simp add: unat_word_ariths)
  then show ?thesis using False lt' by (simp add: sat_succ_def)
qed

lemma sat_succ_max [simp]: "sat_succ (- 1) = - 1"
  by (simp add: sat_succ_def)

lemma sat_succ_ne_zero [simp]: "sat_succ w \<noteq> 0" for w :: "'a::len word"
proof
  assume z: "sat_succ w = 0"
  have "unat (sat_succ w) = min (Suc (unat w)) (2 ^ LENGTH('a) - 1)"
    by (rule unat_sat_succ)
  then show False using z one_less_two_power_len [where 'a = 'a] by simp
qed

lemma sat_succ_ge: "w \<le> sat_succ w" for w :: "'a::len word"
proof -
  have "unat w < 2 ^ LENGTH('a)" by (rule unsigned_less)
  then have "unat w \<le> 2 ^ LENGTH('a) - 1" by linarith
  then show ?thesis by (simp add: word_le_nat_alt unat_sat_succ)
qed

lemma sat_succ_gt: "w \<noteq> - 1 \<Longrightarrow> w < sat_succ w" for w :: "'a::len word"
  using sat_succ_ge [of w] by (auto simp: sat_succ_def order_less_le)

lemma unat_sat_succ_less:
  "w \<noteq> - 1 \<Longrightarrow> unat (sat_succ w) = Suc (unat w)" for w :: "'a::len word"
  using sat_succ_gt [of w] unsigned_less [of w] unat_sat_succ [of w]
  by (simp add: word_less_nat_alt)

lemma unat_sat_add: "unat (sat_add v w) = min (unat v + unat w) (2 ^ LENGTH('a) - 1)"
  for v w :: "'a::len word"
  by (auto simp: sat_add_def unat_word_ariths unat_minus_1)

section \<open>Ordered maps\<close>

type_synonym ('k, 'v) btree_map = "('k \<times> 'v) list"

abbreviation bt_get :: "('k, 'v) btree_map \<Rightarrow> 'k \<Rightarrow> 'v option" where
  "bt_get \<equiv> map_of"

abbreviation bt_keys :: "('k, 'v) btree_map \<Rightarrow> 'k list" where
  "bt_keys m \<equiv> map fst m"

abbreviation bt_values :: "('k, 'v) btree_map \<Rightarrow> 'v list" where
  "bt_values m \<equiv> map snd m"

text \<open>The invariant of a \<open>BTreeMap\<close>: keys strictly increasing.\<close>

definition bt_wf :: "('k::linorder, 'v) btree_map \<Rightarrow> bool" where
  "bt_wf m = sorted_wrt (<) (bt_keys m)"

text \<open>\<open>BTreeMap::insert\<close>, which also overwrites.\<close>

fun bt_insert :: "'k::linorder \<Rightarrow> 'v \<Rightarrow> ('k, 'v) btree_map \<Rightarrow> ('k, 'v) btree_map" where
  "bt_insert k v [] = [(k, v)]"
| "bt_insert k v ((l, w) # m) =
     (if k < l then (k, v) # (l, w) # m
      else if k = l then (k, v) # m
      else (l, w) # bt_insert k v m)"

definition bt_contains_key :: "('k, 'v) btree_map \<Rightarrow> 'k \<Rightarrow> bool" where
  "bt_contains_key m k = (bt_get m k \<noteq> None)"

lemma bt_wf_Nil [simp]: "bt_wf []"
  by (simp add: bt_wf_def)

lemma bt_wf_Cons [simp]: "bt_wf ((k, v) # m) \<longleftrightarrow> (\<forall>l \<in> set (bt_keys m). k < l) \<and> bt_wf m"
  by (simp add: bt_wf_def)

lemma bt_get_insert [simp]: "bt_get (bt_insert k v m) = (bt_get m)(k \<mapsto> v)"
  by (induction k v m rule: bt_insert.induct) (auto simp: fun_eq_iff)

lemma set_bt_keys_insert [simp]:
  "fst ` set (bt_insert k v m) = insert k (fst ` set m)"
  by (induction k v m rule: bt_insert.induct) auto

lemma bt_wf_insert [simp]: "bt_wf m \<Longrightarrow> bt_wf (bt_insert k v m)"
  by (induction k v m rule: bt_insert.induct) fastforce+

lemma bt_wf_distinct: "bt_wf m \<Longrightarrow> distinct (bt_keys m)"
  by (simp add: bt_wf_def strict_sorted_iff)

lemma bt_get_iff: "bt_wf m \<Longrightarrow> bt_get m k = Some v \<longleftrightarrow> (k, v) \<in> set m"
  by (simp add: bt_wf_distinct)

lemma bt_contains_iff [btree_simps]: "bt_contains_key m k \<longleftrightarrow> k \<in> fst ` set m"
  by (simp add: bt_contains_key_def map_of_eq_None_iff)

lemma bt_get_Some_key: "bt_get m k = Some v \<Longrightarrow> k \<in> fst ` set m"
  by (metis map_of_eq_None_iff option.discI)

lemma bt_keys_insert_existing:
  "bt_wf m \<Longrightarrow> k \<in> fst ` set m \<Longrightarrow> bt_keys (bt_insert k v m) = bt_keys m"
  by (induction k v m rule: bt_insert.induct) force+

lemma set_bt_insert:
  "bt_wf m \<Longrightarrow> set (bt_insert k v m) = insert (k, v) {p \<in> set m. fst p \<noteq> k}"
  by (induction k v m rule: bt_insert.induct) force+

lemma bt_wf_eqI:
  assumes "bt_wf m" and "bt_wf n" and "bt_get m = bt_get n"
  shows "m = n"
proof -
  have "set m = set n"
    using assms by (metis bt_get_iff subrelI subset_antisym)
  then have keys: "bt_keys m = bt_keys n"
    using assms(1,2) by (intro sorted_distinct_set_unique)
      (auto simp: bt_wf_def strict_sorted_iff)
  show ?thesis
  proof (rule nth_equalityI)
    show "length m = length n" using keys by (metis length_map)
  next
    fix i assume i: "i < length m"
    then have i': "i < length n" using keys by (metis length_map)
    have "fst (m ! i) = fst (n ! i)" using keys i i' by (metis nth_map)
    moreover have "bt_get m (fst (m ! i)) = Some (snd (m ! i))"
      using i assms(1) by (simp add: bt_get_iff)
    moreover have "bt_get n (fst (n ! i)) = Some (snd (n ! i))"
      using i' assms(2) by (simp add: bt_get_iff)
    ultimately show "m ! i = n ! i"
      using assms(3) by (metis option.inject prod.collapse)
  qed
qed

text \<open>\<open>BTreeMap::remove\<close>.\<close>

definition bt_remove :: "'k \<Rightarrow> ('k, 'v) btree_map \<Rightarrow> ('k, 'v) btree_map" where
  "bt_remove k m = filter (\<lambda>p. fst p \<noteq> k) m"

lemma bt_get_remove [simp]: "bt_get (bt_remove k m) = (bt_get m)(k := None)"
  by (induction m) (auto simp: bt_remove_def fun_eq_iff)

lemma bt_wf_remove [simp]: "bt_wf m \<Longrightarrow> bt_wf (bt_remove k m)"
  by (induction m) (auto simp: bt_remove_def)

section \<open>Ordered sets\<close>

type_synonym 'a btree_set = "'a list"

definition bset_insert :: "'a::linorder \<Rightarrow> 'a btree_set \<Rightarrow> 'a btree_set" where
  "bset_insert x s = (if x \<in> set s then s else insort x s)"

text \<open>\<open>into_iter().collect::<BTreeSet<_>>()\<close>.\<close>

definition bset_of :: "'a::linorder list \<Rightarrow> 'a btree_set" where
  "bset_of xs = fold bset_insert xs []"

definition bset_wf :: "'a::linorder btree_set \<Rightarrow> bool" where
  "bset_wf s = sorted_wrt (<) s"

lemma set_bset_insert [simp]: "set (bset_insert x s) = insert x (set s)"
  by (auto simp: bset_insert_def set_insort_key)

lemma bset_wf_insert [simp]: "bset_wf s \<Longrightarrow> bset_wf (bset_insert x s)"
  by (auto simp: bset_insert_def bset_wf_def strict_sorted_iff sorted_insort distinct_insort)

lemma bset_fold_insert:
  "set (fold bset_insert xs s) = set xs \<union> set s \<and> (bset_wf s \<longrightarrow> bset_wf (fold bset_insert xs s))"
  by (induction xs arbitrary: s) auto

lemma set_bset_of [simp]: "set (bset_of xs) = set xs"
  by (simp add: bset_of_def bset_fold_insert)

lemma bset_wf_of [simp]: "bset_wf (bset_of xs)" for xs :: "'a::linorder list"
proof -
  have "bset_wf ([] :: 'a list)" by (simp add: bset_wf_def)
  then show ?thesis using bset_fold_insert [of xs "[]"] by (simp add: bset_of_def)
qed

lemma bset_of_eq_Nil [simp]: "bset_of xs = [] \<longleftrightarrow> xs = []"
  using set_bset_of [of xs] by (metis set_empty)

lemma bset_wf_distinct: "bset_wf s \<Longrightarrow> distinct s"
  by (simp add: bset_wf_def strict_sorted_iff)

lemma bset_of_eq_iff: "bset_of xs = bset_of ys \<longleftrightarrow> set xs = set ys"
proof
  assume "bset_of xs = bset_of ys"
  then show "set xs = set ys" by (metis set_bset_of)
next
  assume "set xs = set ys"
  then have "set (bset_of xs) = set (bset_of ys)" by simp
  moreover have "sorted_wrt (<) (bset_of xs)" "sorted_wrt (<) (bset_of ys)"
    using bset_wf_of by (auto simp: bset_wf_def)
  ultimately show "bset_of xs = bset_of ys"
    by (intro sorted_distinct_set_unique) (auto simp: strict_sorted_iff)
qed

section \<open>Searching and updating in lists\<close>

text \<open>\<open>iter_mut().find(p)\<close> followed by a write through the found reference.\<close>

fun update_first :: "('a \<Rightarrow> bool) \<Rightarrow> 'a \<Rightarrow> 'a list \<Rightarrow> 'a list" where
  "update_first p y [] = []"
| "update_first p y (x # xs) = (if p x then y # xs else x # update_first p y xs)"

lemma length_update_first [simp]: "length (update_first p y xs) = length xs"
  by (induction xs) auto

lemma find_Some_set: "find p xs = Some x \<Longrightarrow> x \<in> set xs \<and> p x"
  by (induction xs) (auto split: if_splits)

lemma find_None_iff': "find p xs = None \<longleftrightarrow> (\<forall>x \<in> set xs. \<not> p x)"
  by (auto simp: find_None_iff)

lemma update_first_split:
  assumes "find p xs = Some x"
  obtains us vs where "xs = us @ x # vs" and "\<forall>u \<in> set us. \<not> p u" and "p x"
    and "\<And>y. update_first p y xs = us @ y # vs"
  using assms
proof (induction xs arbitrary: thesis)
  case Nil
  then show ?case by simp
next
  case (Cons a xs)
  show ?case
  proof (cases "p a")
    case True
    with Cons.prems(2) have "x = a" by simp
    with True Cons.prems(1) [of "[]" xs] show ?thesis by simp
  next
    case False
    with Cons.prems(2) have "find p xs = Some x" by simp
    then obtain us vs where split: "xs = us @ x # vs" "\<forall>u \<in> set us. \<not> p u" "p x"
      "\<And>y. update_first p y xs = us @ y # vs"
      using Cons.IH by blast
    show ?thesis
      by (rule Cons.prems(1) [of "a # us" vs]) (use split False in auto)
  qed
qed

end
