(* ===== verification/Rust_Text.thy ===== *)
theory Rust_Text
  imports Prelude
begin

text \<open>
  Text, floating-point numbers and errors of the domain.  A Rust \<open>String\<close> is the list of
  its code points; \<open>len\<close> counts the bytes of its UTF-8 form, \<open>trim\<close>, \<open>is_control\<close> and
  \<open>is_whitespace\<close> follow the Unicode tables of the standard library, and the order of
  strings is the order of code-point lists, which is the order of their UTF-8 bytes.
  On top of it stand the validated text newtypes of the domain
  (\<open>crates/choreo-core/src/value_objects\<close>): each wraps a private \<open>String\<close>
  that domain code builds through its checking constructor, so here a newtype is the string
  itself and the constructor is the definition.  (The derived \<open>Deserialize\<close> skips that
  check; values read back from storage are outside this model.)  All of them follow one contract, the locale
  \<open>text_newtype\<close>.
\<close>

section \<open>Strings\<close>

type_synonym rstr = "nat list"

text \<open>An ASCII literal of the source.\<close>

definition lit :: "string \<Rightarrow> rstr" where
  "lit s = map of_char s"

text \<open>\<open>char::is_whitespace\<close>: the Unicode property White\_Space.\<close>

definition is_whitespace :: "nat \<Rightarrow> bool" where
  "is_whitespace c =
     ((9 \<le> c \<and> c \<le> 13) \<or> c = 32 \<or> c = 133 \<or> c = 160 \<or> c = 5760 \<or>
      (8192 \<le> c \<and> c \<le> 8202) \<or> c = 8232 \<or> c = 8233 \<or> c = 8239 \<or> c = 8287 \<or> c = 12288)"

text \<open>\<open>char::is_control\<close>: the Unicode general category Cc.\<close>

definition is_control :: "nat \<Rightarrow> bool" where
  "is_control c = (c < 32 \<or> (127 \<le> c \<and> c < 160))"

definition is_ascii_lowercase :: "nat \<Rightarrow> bool" where
  "is_ascii_lowercase c = (97 \<le> c \<and> c \<le> 122)"

definition is_ascii_digit :: "nat \<Rightarrow> bool" where
  "is_ascii_digit c = (48 \<le> c \<and> c \<le> 57)"

definition is_ascii_alphanumeric :: "nat \<Rightarrow> bool" where
  "is_ascii_alphanumeric c = (is_ascii_lowercase c \<or> (65 \<le> c \<and> c \<le> 90) \<or> is_ascii_digit c)"

definition trim :: "rstr \<Rightarrow> rstr" where
  "trim s = rev (dropWhile is_whitespace (rev (dropWhile is_whitespace s)))"

definition utf8_width :: "nat \<Rightarrow> nat" where
  "utf8_width c = (if c < 128 then 1 else if c < 2048 then 2 else if c < 65536 then 3 else 4)"

text \<open>\<open>str::len\<close>, in bytes.\<close>

definition str_len :: "rstr \<Rightarrow> nat" where
  "str_len s = sum_list (map utf8_width s)"

text \<open>\<open>str::split_once\<close> and \<open>str::splitn\<close> at a character.\<close>

definition split_once :: "nat \<Rightarrow> rstr \<Rightarrow> (rstr \<times> rstr) option" where
  "split_once c s =
     (if c \<in> set s then Some (takeWhile (\<lambda>d. d \<noteq> c) s, tl (dropWhile (\<lambda>d. d \<noteq> c) s)) else None)"

fun splitn :: "nat \<Rightarrow> nat \<Rightarrow> rstr \<Rightarrow> rstr list" where
  "splitn 0 c s = []"
| "splitn (Suc 0) c s = [s]"
| "splitn (Suc (Suc n)) c s = (case split_once c s of None \<Rightarrow> [s] | Some (a, b) \<Rightarrow> a # splitn (Suc n) c b)"

lemma str_len_append [simp]: "str_len (s @ t) = str_len s + str_len t"
  by (simp add: str_len_def)

lemma str_len_ge_length: "length s \<le> str_len s"
  by (induction s) (auto simp: str_len_def utf8_width_def)

lemma str_len_ascii: "\<forall>c \<in> set s. c < 128 \<Longrightarrow> str_len s = length s"
  by (induction s) (auto simp: str_len_def utf8_width_def)

lemma trim_eq_Nil_iff: "trim s = [] \<longleftrightarrow> (\<forall>c \<in> set s. is_whitespace c)"
proof -
  let ?t = "dropWhile is_whitespace s"
  have *: "?t = []" if "\<forall>c \<in> set ?t. is_whitespace c"
  proof (rule ccontr)
    assume ne: "?t \<noteq> []"
    have "is_whitespace (hd ?t)" using that list.set_sel(1) [OF ne] by (rule bspec)
    then show False using hd_dropWhile [OF ne] by contradiction
  qed
  have "trim s = [] \<longleftrightarrow> (\<forall>c \<in> set ?t. is_whitespace c)"
    by (simp add: trim_def)
  also have "\<dots> \<longleftrightarrow> ?t = []"
  proof
    assume "?t = []"
    then show "\<forall>c \<in> set ?t. is_whitespace c" by (simp only: list.set ball_empty)
  qed (rule *)
  finally show ?thesis by simp
qed

lemma trim_hd: "trim s \<noteq> [] \<Longrightarrow> \<not> is_whitespace (hd (trim s))"
proof -
  assume ne: "trim s \<noteq> []"
  let ?t = "dropWhile is_whitespace s"
  obtain us where us: "rev ?t = us @ dropWhile is_whitespace (rev ?t)"
    by (metis takeWhile_dropWhile_id)
  have "?t = trim s @ rev us"
    using arg_cong [OF us, of rev] by (simp add: trim_def)
  then have "hd ?t = hd (trim s)" and "?t \<noteq> []" using ne by auto
  then show ?thesis using hd_dropWhile [of is_whitespace s] by simp
qed

lemma trim_last: "trim s \<noteq> [] \<Longrightarrow> \<not> is_whitespace (last (trim s))"
  using hd_dropWhile [of is_whitespace "rev (dropWhile is_whitespace s)"]
  by (simp add: trim_def last_rev)

lemma trim_id: "s = [] \<or> \<not> is_whitespace (hd s) \<and> \<not> is_whitespace (last s) \<Longrightarrow> trim s = s"
proof (cases "s = []")
  case True
  then show ?thesis by (simp add: trim_def)
next
  case False
  assume "s = [] \<or> \<not> is_whitespace (hd s) \<and> \<not> is_whitespace (last s)"
  with False have ends: "\<not> is_whitespace (hd s)" "\<not> is_whitespace (hd (rev s))"
    by (auto simp: hd_rev)
  have "dropWhile is_whitespace s = s" using False ends(1) by (cases s) auto
  moreover have "dropWhile is_whitespace (rev s) = rev s"
    using False ends(2) by (cases "rev s") auto
  ultimately show ?thesis by (simp add: trim_def)
qed

lemma trim_trim [simp]: "trim (trim s) = trim s"
  by (rule trim_id) (use trim_hd trim_last in blast)

lemma set_trim: "set (trim s) \<subseteq> set s"
  by (auto simp: trim_def dest!: set_dropWhileD)

section \<open>Floating-point numbers\<close>

text \<open>
  A binary64 value: every finite one is a rational; the two zeros are kept apart because
  the sources compare bit patterns in one place and numbers in another.
\<close>

datatype f64 = F64_NaN | F64_Inf bool | F64_NegZero | F64 rat

text \<open>\<open>as f64\<close> on an unsigned integer: exact up to 53 bits, then nearest-even.\<close>

fun bit_len :: "nat \<Rightarrow> nat" where
  "bit_len n = (if n = 0 then 0 else Suc (bit_len (n div 2)))"

declare bit_len.simps [simp del]

definition u64_as_f64 :: "nat \<Rightarrow> f64" where
  "u64_as_f64 n =
     (if n < 2 ^ 53 then F64 (of_nat n)
      else let e = bit_len n - 53; q = n div 2 ^ e; r = n mod 2 ^ e in
        F64 (of_nat ((if 2 * r < 2 ^ e \<or> (2 * r = 2 ^ e \<and> even q) then q else q + 1) * 2 ^ e)))"

section \<open>Domain errors\<close>

datatype domain_error =
    EmptyField string
  | FieldTooLong string nat nat
  | InvalidCharacters string
  | OutOfRange string f64 f64 f64
  | MustBeNonZero string
  | EmptyCollection string
  | InvalidTransition string string
  | InvariantViolated string
  | NotFound string
  | AlreadyExists string
  | Conflict string
  | NoValidProposal rstr

type_synonym 'a outcome = "domain_error + 'a"

section \<open>Decimal display\<close>

text \<open>\<open>Display\<close> of an unsigned integer.\<close>

fun display_nat :: "nat \<Rightarrow> rstr" where
  "display_nat n = (if n < 10 then [48 + n] else display_nat (n div 10) @ [48 + n mod 10])"

declare display_nat.simps [simp del]

lemma display_nat_digits: "\<forall>c \<in> set (display_nat n). is_ascii_digit c"
  by (induction n rule: display_nat.induct)
    (subst display_nat.simps, auto simp: is_ascii_digit_def)

lemma display_nat_nonempty [simp]: "display_nat n \<noteq> []"
  by (subst display_nat.simps) simp

lemma display_nat_length: "n < 10 ^ Suc k \<Longrightarrow> length (display_nat n) \<le> Suc k"
proof (induction k arbitrary: n)
  case 0
  then show ?case by (subst display_nat.simps) simp
next
  case (Suc k)
  then have "n div 10 < 10 ^ Suc k" by (simp add: less_mult_imp_div_less mult.commute)
  with Suc.IH show ?case by (subst display_nat.simps) simp
qed

text \<open>The number can be read off its decimal form.\<close>

definition decimal_value :: "rstr \<Rightarrow> nat" where
  "decimal_value s = foldl (\<lambda>v c. 10 * v + (c - 48)) 0 s"

lemma decimal_value_display [simp]: "decimal_value (display_nat n) = n"
  by (induction n rule: display_nat.induct)
    (subst display_nat.simps, simp add: decimal_value_def)

lemma display_nat_inject [simp]: "display_nat m = display_nat n \<longleftrightarrow> m = n"
  by (metis decimal_value_display)

end
