(* ===== verification/Text_Newtypes.thy ===== *)
theory Text_Newtypes
  imports Rust_Text
begin

text \<open>
  The validated text newtypes of the domain (\<open>crates/choreo-core/src/value_objects\<close>).
  Each wraps a private \<open>String\<close> that domain code builds through its constructor, so a
  newtype is the string itself and the constructor is the definition (deserialisation, which
  skips the check, is not modelled).  The constructors check the
  same things in the same order - not blank, not too long, no forbidden character - and
  differ in the field name, the limit and the forbidden characters; the locale
  \<open>text_newtype\<close> states what all of them promise and is interpreted on each.
\<close>

section \<open>Constructors\<close>

text \<open>
  The body the constructors share, written out once: trim, refuse the empty text, refuse
  more than \<open>limit\<close> bytes, refuse a text with a forbidden character.
\<close>

definition checked_text ::
    "string \<Rightarrow> nat option \<Rightarrow> (nat \<Rightarrow> bool) \<Rightarrow> rstr \<Rightarrow> rstr outcome" where
  "checked_text field limit bad raw =
     (let trimmed = trim raw in
      if trimmed = [] then Inl (EmptyField field)
      else case limit of
        Some maximum \<Rightarrow>
          if maximum < str_len trimmed then Inl (FieldTooLong field (str_len trimmed) maximum)
          else if list_ex bad trimmed then Inl (InvalidCharacters field)
          else Inr trimmed
      | None \<Rightarrow>
          if list_ex bad trimmed then Inl (InvalidCharacters field) else Inr trimmed)"

definition not_identifier_char :: "nat \<Rightarrow> bool" where
  "not_identifier_char c = (\<not> (is_ascii_lowercase c \<or> is_ascii_digit c \<or> c = 95))"

definition not_handler_kind_char :: "nat \<Rightarrow> bool" where
  "not_handler_kind_char c =
     (\<not> (is_ascii_lowercase c \<or> is_ascii_digit c \<or> c = 95 \<or> c = 45 \<or> c = 46))"

definition not_version_char :: "nat \<Rightarrow> bool" where
  "not_version_char c = (\<not> (is_ascii_alphanumeric c \<or> c = 46 \<or> c = 45 \<or> c = 95))"

definition no_char :: "nat \<Rightarrow> bool" where
  "no_char c = False"

text \<open>Control characters other than newline, carriage return and tab.\<close>

definition is_control_not_layout :: "nat \<Rightarrow> bool" where
  "is_control_not_layout c = (is_control c \<and> \<not> (c = 10 \<or> c = 13 \<or> c = 9))"

definition StepId_new :: "rstr \<Rightarrow> rstr outcome" where
  "StepId_new raw = checked_text ''step_id'' None not_identifier_char raw"

definition StateId_new :: "rstr \<Rightarrow> rstr outcome" where
  "StateId_new raw = checked_text ''state_id'' None is_control raw"

definition RoleId_new :: "rstr \<Rightarrow> rstr outcome" where
  "RoleId_new raw = checked_text ''role_id'' None is_control raw"

definition GuardName_new :: "rstr \<Rightarrow> rstr outcome" where
  "GuardName_new raw = checked_text ''guard_name'' None not_identifier_char raw"

definition TransitionTrigger_new :: "rstr \<Rightarrow> rstr outcome" where
  "TransitionTrigger_new raw = checked_text ''transition_trigger'' None is_control raw"

definition InputName_new :: "rstr \<Rightarrow> rstr outcome" where
  "InputName_new raw = checked_text ''input_name'' None is_control raw"

definition OutputName_new :: "rstr \<Rightarrow> rstr outcome" where
  "OutputName_new raw = checked_text ''output_name'' None is_control raw"

definition IdempotencyKey_new :: "rstr \<Rightarrow> rstr outcome" where
  "IdempotencyKey_new raw = checked_text ''idempotency_key'' None is_control raw"

definition LeaseOwnerId_new :: "rstr \<Rightarrow> rstr outcome" where
  "LeaseOwnerId_new raw = checked_text ''lease_owner_id'' None is_control raw"

definition StepErrorMessage_new :: "rstr \<Rightarrow> rstr outcome" where
  "StepErrorMessage_new raw = checked_text ''step_error_message'' (Some 2048) is_control raw"

definition StepHandlerKind_new :: "rstr \<Rightarrow> rstr outcome" where
  "StepHandlerKind_new raw = checked_text ''step_handler_kind'' (Some 128) not_handler_kind_char raw"

definition CeremonyId_new :: "rstr \<Rightarrow> rstr outcome" where
  "CeremonyId_new raw = checked_text ''ceremony_id'' (Some 256) is_control raw"

definition CeremonyName_new :: "rstr \<Rightarrow> rstr outcome" where
  "CeremonyName_new raw = checked_text ''ceremony_name'' (Some 128) not_identifier_char raw"

definition CeremonyVersion_new :: "rstr \<Rightarrow> rstr outcome" where
  "CeremonyVersion_new raw = checked_text ''ceremony_version'' (Some 64) not_version_char raw"

definition CeremonyDescription_new :: "rstr \<Rightarrow> rstr outcome" where
  "CeremonyDescription_new raw = checked_text ''ceremony_description'' (Some 4096) is_control raw"

definition CeremonyEvidenceSourceId_new :: "rstr \<Rightarrow> rstr outcome" where
  "CeremonyEvidenceSourceId_new raw = checked_text ''ceremony_evidence_source_id'' (Some 128) is_control raw"

definition CeremonyInterventionId_new :: "rstr \<Rightarrow> rstr outcome" where
  "CeremonyInterventionId_new raw = checked_text ''ceremony_intervention_id'' (Some 256) is_control raw"

definition Specialty_new :: "rstr \<Rightarrow> rstr outcome" where
  "Specialty_new raw = checked_text ''specialty'' (Some 128) is_control raw"

definition AgentKind_new :: "rstr \<Rightarrow> rstr outcome" where
  "AgentKind_new raw = checked_text ''agent.kind'' (Some 64) is_control raw"

definition OutboxSubject_new :: "rstr \<Rightarrow> rstr outcome" where
  "OutboxSubject_new raw = checked_text ''outbox_subject'' (Some 256) is_whitespace raw"

definition OutboxQuarantineReason_new :: "rstr \<Rightarrow> rstr outcome" where
  "OutboxQuarantineReason_new raw = checked_text ''outbox_quarantine_reason'' (Some 512) no_char raw"

text \<open>The version of a definition whose author did not choose one.\<close>

definition CeremonyVersion_v1 :: rstr where
  "CeremonyVersion_v1 = lit ''1.0''"

subsection \<open>Identifiers made by the \<open>id_newtype!\<close> macro\<close>

definition validate_id :: "string \<Rightarrow> rstr \<Rightarrow> rstr outcome" where
  "validate_id field raw = checked_text field (Some 256) is_control raw"

definition AgentId_new :: "rstr \<Rightarrow> rstr outcome" where
  "AgentId_new raw = validate_id ''agent_id'' raw"

definition TaskId_new :: "rstr \<Rightarrow> rstr outcome" where
  "TaskId_new raw = validate_id ''task_id'' raw"

definition ProposalId_new :: "rstr \<Rightarrow> rstr outcome" where
  "ProposalId_new raw = validate_id ''proposal_id'' raw"

definition CouncilId_new :: "rstr \<Rightarrow> rstr outcome" where
  "CouncilId_new raw = validate_id ''council_id'' raw"

definition EventId_new :: "rstr \<Rightarrow> rstr outcome" where
  "EventId_new raw = validate_id ''event_id'' raw"

section \<open>What every constructor promises\<close>

text \<open>The texts a constructor accepts unchanged.\<close>

definition canonical_text :: "nat option \<Rightarrow> (nat \<Rightarrow> bool) \<Rightarrow> rstr \<Rightarrow> bool" where
  "canonical_text limit bad s =
     (s \<noteq> [] \<and> trim s = s \<and> (\<forall>m. limit = Some m \<longrightarrow> str_len s \<le> m) \<and>
      (\<forall>c \<in> set s. \<not> bad c))"

lemma checked_text_eq_Inr:
  "checked_text field limit bad raw = Inr s \<longleftrightarrow>
     s = trim raw \<and> canonical_text limit bad (trim raw)"
  by (auto simp: checked_text_def canonical_text_def Let_def list_ex_iff
      split: option.splits if_splits)

locale text_newtype =
  fixes make :: "rstr \<Rightarrow> rstr outcome"
    and field :: string
    and limit :: "nat option"
    and bad :: "nat \<Rightarrow> bool"
  assumes make_eq: "make raw = checked_text field limit bad raw"
begin

lemma make_ok_iff: "make raw = Inr s \<longleftrightarrow> s = trim raw \<and> canonical_text limit bad s"
  by (auto simp: make_eq checked_text_eq_Inr)

lemma make_canonical: "make raw = Inr s \<Longrightarrow> canonical_text limit bad s"
  by (auto simp: make_ok_iff)

text \<open>Reading back a value that was once accepted gives the value itself.\<close>

lemma make_roundtrip: "make raw = Inr s \<Longrightarrow> make s = Inr s"
  by (auto simp: make_ok_iff canonical_text_def)

lemma make_fixed_iff: "make s = Inr s \<longleftrightarrow> canonical_text limit bad s"
  by (auto simp: make_ok_iff canonical_text_def)

lemma make_nonempty: "make raw = Inr s \<Longrightarrow> s \<noteq> []"
  by (auto simp: make_ok_iff canonical_text_def)

lemma make_bounded: "make raw = Inr s \<Longrightarrow> limit = Some m \<Longrightarrow> str_len s \<le> m"
  by (auto simp: make_ok_iff canonical_text_def)

lemma make_blank: "\<forall>c \<in> set raw. is_whitespace c \<Longrightarrow> make raw = Inl (EmptyField field)"
  by (simp add: make_eq checked_text_def trim_eq_Nil_iff Let_def)

end

interpretation StepId: text_newtype StepId_new "''step_id''" None not_identifier_char
  by unfold_locales (simp add: StepId_new_def)

interpretation StateId: text_newtype StateId_new "''state_id''" None is_control
  by unfold_locales (simp add: StateId_new_def)

interpretation RoleId: text_newtype RoleId_new "''role_id''" None is_control
  by unfold_locales (simp add: RoleId_new_def)

interpretation GuardName: text_newtype GuardName_new "''guard_name''" None not_identifier_char
  by unfold_locales (simp add: GuardName_new_def)

interpretation TransitionTrigger: text_newtype TransitionTrigger_new "''transition_trigger''" None is_control
  by unfold_locales (simp add: TransitionTrigger_new_def)

interpretation InputName: text_newtype InputName_new "''input_name''" None is_control
  by unfold_locales (simp add: InputName_new_def)

interpretation OutputName: text_newtype OutputName_new "''output_name''" None is_control
  by unfold_locales (simp add: OutputName_new_def)

interpretation IdempotencyKey: text_newtype IdempotencyKey_new "''idempotency_key''" None is_control
  by unfold_locales (simp add: IdempotencyKey_new_def)

interpretation LeaseOwnerId: text_newtype LeaseOwnerId_new "''lease_owner_id''" None is_control
  by unfold_locales (simp add: LeaseOwnerId_new_def)

interpretation StepErrorMessage: text_newtype StepErrorMessage_new "''step_error_message''" "Some 2048" is_control
  by unfold_locales (simp add: StepErrorMessage_new_def)

interpretation StepHandlerKind: text_newtype StepHandlerKind_new "''step_handler_kind''" "Some 128" not_handler_kind_char
  by unfold_locales (simp add: StepHandlerKind_new_def)

interpretation CeremonyId: text_newtype CeremonyId_new "''ceremony_id''" "Some 256" is_control
  by unfold_locales (simp add: CeremonyId_new_def)

interpretation CeremonyName: text_newtype CeremonyName_new "''ceremony_name''" "Some 128" not_identifier_char
  by unfold_locales (simp add: CeremonyName_new_def)

interpretation CeremonyVersion: text_newtype CeremonyVersion_new "''ceremony_version''" "Some 64" not_version_char
  by unfold_locales (simp add: CeremonyVersion_new_def)

interpretation CeremonyDescription: text_newtype CeremonyDescription_new "''ceremony_description''" "Some 4096" is_control
  by unfold_locales (simp add: CeremonyDescription_new_def)

interpretation CeremonyEvidenceSourceId: text_newtype CeremonyEvidenceSourceId_new "''ceremony_evidence_source_id''" "Some 128" is_control
  by unfold_locales (simp add: CeremonyEvidenceSourceId_new_def)

interpretation CeremonyInterventionId: text_newtype CeremonyInterventionId_new "''ceremony_intervention_id''" "Some 256" is_control
  by unfold_locales (simp add: CeremonyInterventionId_new_def)

interpretation Specialty: text_newtype Specialty_new "''specialty''" "Some 128" is_control
  by unfold_locales (simp add: Specialty_new_def)

interpretation AgentKind: text_newtype AgentKind_new "''agent.kind''" "Some 64" is_control
  by unfold_locales (simp add: AgentKind_new_def)

interpretation OutboxSubject: text_newtype OutboxSubject_new "''outbox_subject''" "Some 256" is_whitespace
  by unfold_locales (simp add: OutboxSubject_new_def)

interpretation OutboxQuarantineReason: text_newtype OutboxQuarantineReason_new "''outbox_quarantine_reason''" "Some 512" no_char
  by unfold_locales (simp add: OutboxQuarantineReason_new_def)

interpretation AgentId: text_newtype AgentId_new "''agent_id''" "Some 256" is_control
  by unfold_locales (simp add: AgentId_new_def validate_id_def)

interpretation TaskId: text_newtype TaskId_new "''task_id''" "Some 256" is_control
  by unfold_locales (simp add: TaskId_new_def validate_id_def)

interpretation ProposalId: text_newtype ProposalId_new "''proposal_id''" "Some 256" is_control
  by unfold_locales (simp add: ProposalId_new_def validate_id_def)

interpretation CouncilId: text_newtype CouncilId_new "''council_id''" "Some 256" is_control
  by unfold_locales (simp add: CouncilId_new_def validate_id_def)

interpretation EventId: text_newtype EventId_new "''event_id''" "Some 256" is_control
  by unfold_locales (simp add: EventId_new_def validate_id_def)

text \<open>
  The identifiers survive storage and transport: whatever text an identifier was built
  from, rebuilding it from its own text gives the same identifier, for a step, a state, a
  role, a guard, a trigger, a ceremony, a version and an event.
\<close>

theorem identifiers_roundtrip:
  "(StepId_new raw = Inr s \<longrightarrow> StepId_new s = Inr s) \<and>
   (StateId_new raw = Inr s \<longrightarrow> StateId_new s = Inr s) \<and>
   (RoleId_new raw = Inr s \<longrightarrow> RoleId_new s = Inr s) \<and>
   (GuardName_new raw = Inr s \<longrightarrow> GuardName_new s = Inr s) \<and>
   (TransitionTrigger_new raw = Inr s \<longrightarrow> TransitionTrigger_new s = Inr s) \<and>
   (CeremonyId_new raw = Inr s \<longrightarrow> CeremonyId_new s = Inr s) \<and>
   (CeremonyVersion_new raw = Inr s \<longrightarrow> CeremonyVersion_new s = Inr s) \<and>
   (EventId_new raw = Inr s \<longrightarrow> EventId_new s = Inr s)"
  by (intro conjI impI StepId.make_roundtrip StateId.make_roundtrip RoleId.make_roundtrip
      GuardName.make_roundtrip TransitionTrigger.make_roundtrip CeremonyId.make_roundtrip
      CeremonyVersion.make_roundtrip EventId.make_roundtrip)

lemmas text_defs = checked_text_def lit_def trim_def is_whitespace_def is_control_def
  is_ascii_lowercase_def is_ascii_digit_def is_ascii_alphanumeric_def str_len_def utf8_width_def
  not_identifier_char_def not_handler_kind_char_def not_version_char_def

theorem identifiers_roundtrip_witness:
  "StepId_new (lit '' plan '') = Inr (lit ''plan'') \<and> StepId_new (lit ''plan'') = Inr (lit ''plan'')"
proof -
  have "StepId_new (lit '' plan '') = Inr (lit ''plan'')"
    by (simp add: StepId_new_def text_defs)
  with identifiers_roundtrip [of "lit '' plan ''" "lit ''plan''"] show ?thesis by blast
qed

end
