(* ===== verification/Step_Records.thy ===== *)
theory Step_Records
  imports Text_Newtypes
begin

text \<open>
  What a ceremony knows about one of its steps: durations, attempts, retry policies,
  leases, results and the execution record
  (\<open>crates/choreo-core/src/value_objects/ceremony/step_*.rs\<close>, \<open>retry_policy.rs\<close>,
  \<open>value_objects/attributes.rs\<close>, \<open>value_objects/duration.rs\<close>).  An instant is its
  number of nanoseconds since the Unix epoch; calendar addition belongs to the \<open>time\<close>
  crate and is a parameter of \<open>StepLease_acquire\<close>.  The lemmas say when a step may be
  started, what a start and a result leave behind, and that a record never loses the
  agreement between its status, its lease and its error message.
\<close>

section \<open>Instants, durations, attributes\<close>

type_synonym timestamp = int
type_synonym duration_ms = "64 word"

definition DurationMs_ZERO :: duration_ms where
  "DurationMs_ZERO = 0"

definition DurationMs_saturating_add :: "duration_ms \<Rightarrow> duration_ms \<Rightarrow> duration_ms" where
  "DurationMs_saturating_add a b = sat_add a b"

text \<open>The public enum of \<open>serde_json\<close>, with its three kinds of number.\<close>

datatype json_number = PosInt "64 word" | NegInt int | Float f64

datatype json =
    JNull
  | JBool bool
  | JNumber json_number
  | JString rstr
  | JArray "json list"
  | JObject "(rstr \<times> json) list"

definition json_as_bool :: "json \<Rightarrow> bool option" where
  "json_as_bool v = (case v of JBool b \<Rightarrow> Some b | _ \<Rightarrow> None)"

type_synonym attributes = "(rstr, json) btree_map"

definition MAX_ATTRIBUTES_KEYS :: nat where
  "MAX_ATTRIBUTES_KEYS = 1024"

definition Attributes_new :: "(rstr, json) btree_map \<Rightarrow> attributes outcome" where
  "Attributes_new entries =
     (if MAX_ATTRIBUTES_KEYS < length entries
      then Inl (OutOfRange ''attributes.keys'' (u64_as_f64 (length entries)) (F64 0)
                 (u64_as_f64 MAX_ATTRIBUTES_KEYS))
      else if list_ex (\<lambda>key. trim key = []) (bt_keys entries)
      then Inl (EmptyField ''attributes.key'')
      else Inr entries)"

lemma Attributes_new_eq_Inr:
  "Attributes_new es = Inr as \<longleftrightarrow>
     as = es \<and> length es \<le> MAX_ATTRIBUTES_KEYS \<and> (\<forall>key \<in> fst ` set es. trim key \<noteq> [])"
  by (auto simp: Attributes_new_def list_ex_iff)

section \<open>Step status and attempts\<close>

datatype step_status =
  Pending | InProgress | Completed | Failed | WaitingForHuman | Cancelled

definition StepStatus_is_executable :: "step_status \<Rightarrow> bool" where
  "StepStatus_is_executable s = (s = Pending \<or> s = Failed \<or> s = WaitingForHuman)"

definition StepStatus_is_terminal :: "step_status \<Rightarrow> bool" where
  "StepStatus_is_terminal s = (s = Completed \<or> s = Failed \<or> s = Cancelled)"

definition StepStatus_is_success :: "step_status \<Rightarrow> bool" where
  "StepStatus_is_success s = (s = Completed)"

fun StepStatus_as_label :: "step_status \<Rightarrow> string" where
  "StepStatus_as_label Pending = ''pending''"
| "StepStatus_as_label InProgress = ''in_progress''"
| "StepStatus_as_label Completed = ''completed''"
| "StepStatus_as_label Failed = ''failed''"
| "StepStatus_as_label WaitingForHuman = ''waiting_for_human''"
| "StepStatus_as_label Cancelled = ''cancelled''"

definition StepStatus_try_from :: "rstr \<Rightarrow> step_status outcome" where
  "StepStatus_try_from s =
     (if s = lit ''PENDING'' then Inr Pending
      else if s = lit ''IN_PROGRESS'' then Inr InProgress
      else if s = lit ''COMPLETED'' then Inr Completed
      else if s = lit ''FAILED'' then Inr Failed
      else if s = lit ''WAITING_FOR_HUMAN'' then Inr WaitingForHuman
      else if s = lit ''CANCELLED'' then Inr Cancelled
      else Inl (InvariantViolated ''unknown ceremony step status''))"

type_synonym step_attempt = "32 word"

definition StepAttempt_FIRST :: step_attempt where
  "StepAttempt_FIRST = 1"

definition StepAttempt_new :: "32 word \<Rightarrow> step_attempt outcome" where
  "StepAttempt_new n = (if n = 0 then Inl (MustBeNonZero ''step_attempt'') else Inr n)"

definition StepAttempt_next :: "step_attempt \<Rightarrow> step_attempt outcome" where
  "StepAttempt_next a = StepAttempt_new (sat_succ a)"

lemma StepAttempt_next_Inr: "StepAttempt_next a = Inr (sat_succ a)"
  by (simp add: StepAttempt_next_def StepAttempt_new_def)

record retry_policy =
  max_attempts :: step_attempt
  backoff :: duration_ms

definition RetryPolicy_single_attempt :: retry_policy where
  "RetryPolicy_single_attempt = \<lparr>max_attempts = StepAttempt_FIRST, backoff = DurationMs_ZERO\<rparr>"

definition RetryPolicy_allows_attempt :: "retry_policy \<Rightarrow> step_attempt \<Rightarrow> bool" where
  "RetryPolicy_allows_attempt p a = (a \<le> max_attempts p)"

definition StepTimeout_new :: "duration_ms \<Rightarrow> duration_ms outcome" where
  "StepTimeout_new d =
     (if d = DurationMs_ZERO then Inl (MustBeNonZero ''step_timeout'') else Inr d)"

section \<open>Leases\<close>

record step_lease =
  lease_owner_id :: rstr
  lease_idempotency_key :: rstr
  lease_acquired_at :: timestamp
  lease_expires_at :: timestamp

definition StepLease_new ::
    "rstr \<Rightarrow> rstr \<Rightarrow> timestamp \<Rightarrow> timestamp \<Rightarrow> step_lease outcome" where
  "StepLease_new owner key acquired_at expires_at =
     (if expires_at \<le> acquired_at
      then Inl (InvariantViolated ''step lease must expire after it is acquired'')
      else Inr \<lparr>lease_owner_id = owner, lease_idempotency_key = key,
                lease_acquired_at = acquired_at, lease_expires_at = expires_at\<rparr>)"

text \<open>
  \<open>checked_add t ms\<close> is \<open>OffsetDateTime::checked_add\<close> of the \<open>time\<close> crate with a
  duration of \<open>ms\<close> milliseconds; \<open>None\<close> when the result leaves the calendar.
\<close>

definition StepLease_acquire ::
    "(timestamp \<Rightarrow> nat \<Rightarrow> timestamp option) \<Rightarrow> rstr \<Rightarrow> rstr \<Rightarrow> timestamp \<Rightarrow> duration_ms
      \<Rightarrow> step_lease outcome" where
  "StepLease_acquire checked_add owner key acquired_at ttl =
     (if 2 ^ 63 - 1 < unat ttl
      then Inl (OutOfRange ''step_lease.ttl_ms'' (u64_as_f64 (unat ttl)) (F64 0)
                 (u64_as_f64 (2 ^ 63 - 1)))
      else and_then
        (ok_or (checked_add acquired_at (unat ttl))
          (OutOfRange ''step_lease.expires_at'' (u64_as_f64 (unat ttl)) (F64 0)
             (u64_as_f64 (2 ^ 63 - 1))))
        (\<lambda>expires_at. StepLease_new owner key acquired_at expires_at))"

definition StepLease_is_expired_at :: "step_lease \<Rightarrow> timestamp \<Rightarrow> bool" where
  "StepLease_is_expired_at l now = (lease_expires_at l \<le> now)"

section \<open>Results and execution records\<close>

type_synonym step_output = attributes

record step_result =
  result_status :: step_status
  result_output :: step_output
  result_error_message :: "rstr option"

definition StepResult_new ::
    "step_status \<Rightarrow> step_output \<Rightarrow> rstr option \<Rightarrow> step_result outcome" where
  "StepResult_new status output err =
     (if status = Pending \<or> status = InProgress
      then Inl (InvariantViolated ''step result status must be observable'')
      else if status = Failed \<and> err = None
      then Inl (EmptyField ''step_result.error_message'')
      else if status \<noteq> Failed \<and> err \<noteq> None
      then Inl (InvariantViolated ''only failed step results may carry an error message'')
      else Inr \<lparr>result_status = status, result_output = output, result_error_message = err\<rparr>)"

definition StepResult_completed :: "step_output \<Rightarrow> step_result outcome" where
  "StepResult_completed output = StepResult_new Completed output None"

definition StepResult_waiting_for_human :: "step_output \<Rightarrow> step_result outcome" where
  "StepResult_waiting_for_human output = StepResult_new WaitingForHuman output None"

definition StepResult_failed :: "rstr \<Rightarrow> step_result outcome" where
  "StepResult_failed err = StepResult_new Failed [] (Some err)"

definition StepResult_is_success :: "step_result \<Rightarrow> bool" where
  "StepResult_is_success r = StepStatus_is_success (result_status r)"

record step_execution_record =
  rec_status :: step_status
  rec_attempt :: step_attempt
  rec_lease :: "step_lease option"
  rec_output :: step_output
  rec_error_message :: "rstr option"

definition StepExecutionRecord_pending :: step_execution_record where
  "StepExecutionRecord_pending =
     \<lparr>rec_status = Pending, rec_attempt = StepAttempt_FIRST, rec_lease = None,
      rec_output = [], rec_error_message = None\<rparr>"

definition StepExecutionRecord_can_be_started_at ::
    "step_execution_record \<Rightarrow> timestamp \<Rightarrow> bool" where
  "StepExecutionRecord_can_be_started_at r now =
     (if StepStatus_is_executable (rec_status r) then True
      else rec_status r = InProgress \<and>
        (case rec_lease r of None \<Rightarrow> False | Some lease \<Rightarrow> StepLease_is_expired_at lease now))"

definition StepExecutionRecord_with_started ::
    "step_execution_record \<Rightarrow> step_lease \<Rightarrow> step_attempt \<Rightarrow> step_execution_record" where
  "StepExecutionRecord_with_started r lease attempt =
     \<lparr>rec_status = InProgress, rec_attempt = attempt, rec_lease = Some lease,
      rec_output = rec_output r, rec_error_message = None\<rparr>"

definition StepExecutionRecord_with_result ::
    "step_execution_record \<Rightarrow> step_result \<Rightarrow> step_execution_record" where
  "StepExecutionRecord_with_result r result =
     \<lparr>rec_status = result_status result, rec_attempt = rec_attempt r, rec_lease = None,
      rec_output = result_output result, rec_error_message = result_error_message result\<rparr>"

lemmas [step_defs] =
  StepExecutionRecord_pending_def StepExecutionRecord_can_be_started_at_def
  StepExecutionRecord_with_started_def StepExecutionRecord_with_result_def
  StepStatus_is_executable_def StepStatus_is_success_def StepLease_is_expired_at_def
  RetryPolicy_allows_attempt_def

subsection \<open>Well-formed results and records\<close>

text \<open>What the constructor of a result guarantees.\<close>

definition result_wf :: "step_result \<Rightarrow> bool" where
  "result_wf r =
     (result_status r \<noteq> Pending \<and> result_status r \<noteq> InProgress \<and>
      (result_status r = Failed \<longleftrightarrow> result_error_message r \<noteq> None))"

text \<open>
  The agreement a record keeps: a lease exactly while somebody is working, an error
  message exactly after a failure, an attempt number that is at least one.
\<close>

definition record_wf :: "step_execution_record \<Rightarrow> bool" where
  "record_wf r =
     ((rec_status r = InProgress \<longleftrightarrow> rec_lease r \<noteq> None) \<and>
      (rec_status r = Failed \<longleftrightarrow> rec_error_message r \<noteq> None) \<and>
      rec_attempt r \<noteq> 0)"

lemma StepResult_new_wf: "StepResult_new s out err = Inr r \<Longrightarrow> result_wf r"
  by (auto simp: StepResult_new_def result_wf_def split: if_splits)

lemma StepResult_new_complete:
  "result_wf r \<Longrightarrow> StepResult_new (result_status r) (result_output r) (result_error_message r) = Inr r"
  by (cases r) (auto simp: StepResult_new_def result_wf_def)

lemma record_wf_pending [simp]: "record_wf StepExecutionRecord_pending"
  by (simp add: record_wf_def step_defs StepAttempt_FIRST_def)

lemma record_wf_started [simp]:
  "a \<noteq> 0 \<Longrightarrow> record_wf (StepExecutionRecord_with_started r l a)"
  by (simp add: record_wf_def step_defs)

lemma record_wf_result [simp]:
  "record_wf r \<Longrightarrow> result_wf res \<Longrightarrow> record_wf (StepExecutionRecord_with_result r res)"
  by (auto simp: record_wf_def result_wf_def step_defs)

lemma StepLease_new_lifetime:
  "StepLease_new ow key t u = Inr l \<Longrightarrow> lease_acquired_at l < lease_expires_at l"
  by (auto simp: StepLease_new_def split: if_splits)

text \<open>
  A lease acquired for a lifetime is honoured exactly: it starts at the given instant,
  expires precisely \<open>ttl\<close> milliseconds later, is not expired at any earlier instant and is
  expired from then on; a lifetime of zero is refused.  The hypothesis on \<open>checked_add\<close> is
  what the \<open>time\<close> crate documents: a sum it returns is the exact sum.
\<close>

theorem lease_acquire_exact:
  assumes sum: "\<And>t ms u. checked_add t ms = Some u \<Longrightarrow> u = t + int ms * 1000000"
    and acq: "StepLease_acquire checked_add owner key t ttl = Inr l"
  shows "lease_acquired_at l = t \<and>
    lease_expires_at l = t + int (unat ttl) * 1000000 \<and>
    ttl \<noteq> 0 \<and>
    (StepLease_is_expired_at l now \<longleftrightarrow> t + int (unat ttl) * 1000000 \<le> now) \<and>
    lease_owner_id l = owner \<and> lease_idempotency_key l = key"
proof -
  from acq obtain u where u: "checked_add t (unat ttl) = Some u"
    and new: "StepLease_new owner key t u = Inr l"
    by (auto simp: StepLease_acquire_def result_simps split: if_splits)
  have exact: "u = t + int (unat ttl) * 1000000" using sum [OF u] .
  from new have l: "\<not> u \<le> t" "l = \<lparr>lease_owner_id = owner, lease_idempotency_key = key,
      lease_acquired_at = t, lease_expires_at = u\<rparr>"
    by (auto simp: StepLease_new_def split: if_splits)
  from l(1) exact have "ttl \<noteq> 0" by auto
  with l(2) exact show ?thesis by (simp add: StepLease_is_expired_at_def)
qed

theorem lease_acquire_exact_witness:
  "\<exists>l. StepLease_acquire (\<lambda>t ms. Some (t + int ms * 1000000)) [119] [107] 5 30 = Inr l \<and>
       lease_expires_at l = 30000005"
proof -
  let ?add = "\<lambda>t ms. Some (t + int ms * 1000000) :: timestamp option"
  obtain l where l: "StepLease_acquire ?add [119] [107] 5 30 = Inr l"
    by (simp add: StepLease_acquire_def StepLease_new_def)
  have "lease_expires_at l = 5 + int (unat (30 :: duration_ms)) * 1000000"
    using lease_acquire_exact [OF _ l] by simp
  with l show ?thesis by simp
qed

end
