(* ===== verification/Ceremony_Parts.thy ===== *)
theory Ceremony_Parts
  imports Step_Records
begin

text \<open>
  The parts a ceremony is declared with and the records it keeps
  (\<open>crates/choreo-core/src/value_objects/ceremony\<close>, \<open>value_objects/audit/audit_actor*.rs\<close>):
  states, steps, guards, roles and transitions of a definition; approvals, deferrals,
  bindings and transition records of an instance; the vocabulary of reasons.
  \<open>RoleAction\<close> derives \<open>Ord\<close> in the source because a role keeps its actions in a
  \<open>BTreeSet\<close>; the same order is the \<open>linorder\<close> instance here.
\<close>

section \<open>Roles and their actions\<close>

datatype role_action =
    Act_Step rstr
  | Act_Transition rstr
  | Act_RequestIntervention
  | Act_RespondToIntervention

text \<open>The derived order: by variant, then by content.\<close>

fun role_action_key :: "role_action \<Rightarrow> nat list" where
  "role_action_key (Act_Step s) = 0 # s"
| "role_action_key (Act_Transition t) = 1 # t"
| "role_action_key Act_RequestIntervention = [2]"
| "role_action_key Act_RespondToIntervention = [3]"

lemma role_action_key_inj: "role_action_key a = role_action_key b \<Longrightarrow> a = b"
  by (cases a; cases b) simp_all

instantiation role_action :: linorder
begin

definition less_eq_role_action :: "role_action \<Rightarrow> role_action \<Rightarrow> bool" where
  "less_eq_role_action a b = (role_action_key a \<le> role_action_key b)"

definition less_role_action :: "role_action \<Rightarrow> role_action \<Rightarrow> bool" where
  "less_role_action a b = (role_action_key a < role_action_key b)"

instance
  by intro_classes (auto simp: less_eq_role_action_def less_role_action_def intro: role_action_key_inj)

end

definition RoleAction_from_capability_label :: "rstr \<Rightarrow> role_action option" where
  "RoleAction_from_capability_label label =
     (if label = lit ''request_intervention'' then Some Act_RequestIntervention
      else if label = lit ''respond_to_intervention'' then Some Act_RespondToIntervention
      else None)"

fun RoleAction_step_id :: "role_action \<Rightarrow> rstr option" where
  "RoleAction_step_id (Act_Step step_id) = Some step_id"
| "RoleAction_step_id _ = None"

fun RoleAction_transition_trigger :: "role_action \<Rightarrow> rstr option" where
  "RoleAction_transition_trigger (Act_Transition trigger) = Some trigger"
| "RoleAction_transition_trigger _ = None"

record ceremony_role =
  role_id :: rstr
  role_allowed_actions :: "role_action btree_set"

definition CeremonyRole_new :: "rstr \<Rightarrow> role_action list \<Rightarrow> ceremony_role outcome" where
  "CeremonyRole_new rid allowed_actions =
     (let actions = bset_of allowed_actions in
      if actions = [] then Inl (EmptyCollection ''ceremony_role.allowed_actions'')
      else Inr \<lparr>role_id = rid, role_allowed_actions = actions\<rparr>)"

definition CeremonyRole_allows :: "ceremony_role \<Rightarrow> role_action \<Rightarrow> bool" where
  "CeremonyRole_allows role action = (action \<in> set (role_allowed_actions role))"

section \<open>States, steps, inputs and outputs\<close>

datatype ceremony_state_kind = Initial | Intermediate | Terminal

record ceremony_state =
  state_id :: rstr
  state_kind :: ceremony_state_kind

definition CeremonyState_is_initial :: "ceremony_state \<Rightarrow> bool" where
  "CeremonyState_is_initial s = (state_kind s = Initial)"

definition CeremonyState_is_terminal :: "ceremony_state \<Rightarrow> bool" where
  "CeremonyState_is_terminal s = (state_kind s = Terminal)"

record ceremony_step =
  step_id :: rstr
  step_state_id :: rstr
  step_handler_kind :: rstr
  step_handler_config :: attributes
  step_retry_policy :: retry_policy
  step_timeout :: "duration_ms option"

datatype input_requirement = Required | Optional

definition InputRequirement_is_required :: "input_requirement \<Rightarrow> bool" where
  "InputRequirement_is_required r = (r = Required)"

record ceremony_input_definition =
  input_name :: rstr
  input_requirement :: input_requirement

record ceremony_output_definition =
  output_name :: rstr

section \<open>Context and guards\<close>

type_synonym ceremony_context = attributes

definition CeremonyContext_with_guard_approval ::
    "ceremony_context \<Rightarrow> rstr \<Rightarrow> ceremony_context outcome" where
  "CeremonyContext_with_guard_approval ctx name = Attributes_new (bt_insert name (JBool True) ctx)"

definition CeremonyContext_is_guard_approved :: "ceremony_context \<Rightarrow> rstr \<Rightarrow> bool" where
  "CeremonyContext_is_guard_approved ctx name =
     (case bt_get ctx name of
        None \<Rightarrow> False
      | Some v \<Rightarrow> (case json_as_bool v of None \<Rightarrow> False | Some b \<Rightarrow> b))"

datatype guard_condition =
    Always
  | AllStepsCompleted
  | StepStatus rstr step_status
  | HumanApproval

fun GuardCondition_referenced_step_id :: "guard_condition \<Rightarrow> rstr option" where
  "GuardCondition_referenced_step_id (StepStatus sid status) = Some sid"
| "GuardCondition_referenced_step_id _ = None"

record ceremony_guard =
  guard_name :: rstr
  guard_condition :: guard_condition

type_synonym step_records = "(rstr, step_execution_record) btree_map"

fun CeremonyGuard_is_satisfied ::
    "ceremony_guard \<Rightarrow> step_records \<Rightarrow> ceremony_context \<Rightarrow> bool" where
  "CeremonyGuard_is_satisfied g records ctx =
     (case guard_condition g of
        Always \<Rightarrow> True
      | AllStepsCompleted \<Rightarrow>
          records \<noteq> [] \<and> list_all (\<lambda>r. StepStatus_is_success (rec_status r)) (bt_values records)
      | StepStatus sid status \<Rightarrow>
          (case bt_get records sid of None \<Rightarrow> False | Some r \<Rightarrow> rec_status r = status)
      | HumanApproval \<Rightarrow> CeremonyContext_is_guard_approved ctx (guard_name g))"

declare CeremonyGuard_is_satisfied.simps [simp del]

section \<open>Transitions\<close>

record ceremony_transition =
  trans_from :: rstr
  trans_to :: rstr
  trans_trigger :: rstr
  trans_required_guards :: "rstr btree_set"

definition CeremonyTransition_new ::
    "rstr \<Rightarrow> rstr \<Rightarrow> rstr \<Rightarrow> rstr list \<Rightarrow> ceremony_transition outcome" where
  "CeremonyTransition_new src dst trigger required_guards =
     Inr \<lparr>trans_from = src, trans_to = dst, trans_trigger = trigger,
          trans_required_guards = bset_of required_guards\<rparr>"

record ceremony_transition_record =
  trec_trigger :: rstr
  trec_from_state :: rstr
  trec_to_state :: rstr
  trec_applied_by :: "rstr option"
  trec_applied_at :: timestamp

section \<open>Decisions on guards, seats at the table\<close>

datatype audit_actor_kind = Human | Agent | Service | Engine

fun AuditActorKind_as_str :: "audit_actor_kind \<Rightarrow> string" where
  "AuditActorKind_as_str Human = ''human''"
| "AuditActorKind_as_str Agent = ''agent''"
| "AuditActorKind_as_str Service = ''service''"
| "AuditActorKind_as_str Engine = ''engine''"

definition AuditActorKind_is_human :: "audit_actor_kind \<Rightarrow> bool" where
  "AuditActorKind_is_human k = (k = Human)"

record audit_actor =
  actor_id :: rstr
  actor_kind :: audit_actor_kind
  actor_role_id :: "rstr option"

definition AuditActor_new ::
    "rstr \<Rightarrow> audit_actor_kind \<Rightarrow> rstr option \<Rightarrow> audit_actor outcome" where
  "AuditActor_new aid k rid =
     map_ok (\<lambda>trimmed. \<lparr>actor_id = trimmed, actor_kind = k, actor_role_id = rid\<rparr>)
       (checked_text ''audit_actor.actor_id'' (Some 256) no_char aid)"

definition AuditActor_engine :: "rstr \<Rightarrow> audit_actor outcome" where
  "AuditActor_engine aid = AuditActor_new aid Engine None"

record ceremony_guard_approval =
  approval_guard_name :: rstr
  approval_approved_by :: rstr
  approval_approved_by_kind :: audit_actor_kind
  approval_approved_at :: timestamp

record ceremony_guard_deferral_content =
  deferral_statement :: rstr
  deferral_reason :: rstr
  deferral_reconsider_when :: "rstr list"

definition deferral_validated_text :: "rstr \<Rightarrow> string \<Rightarrow> nat \<Rightarrow> rstr outcome" where
  "deferral_validated_text v field max_len = checked_text field (Some max_len) is_control_not_layout v"

definition CeremonyGuardDeferralContent_new ::
    "rstr \<Rightarrow> rstr \<Rightarrow> rstr list \<Rightarrow> ceremony_guard_deferral_content outcome" where
  "CeremonyGuardDeferralContent_new statement reason reconsider_when =
     (if reconsider_when = []
      then Inl (EmptyCollection ''ceremony_guard_deferral.reconsider_when'')
      else
        and_then (deferral_validated_text statement ''ceremony_guard_deferral.statement'' 4096) (\<lambda>st.
        and_then (deferral_validated_text reason ''ceremony_guard_deferral.reason'' 4096) (\<lambda>re.
        and_then (try_map (\<lambda>c. deferral_validated_text c ''ceremony_guard_deferral.reconsider_when'' 1024)
                    reconsider_when) (\<lambda>rw.
        Inr \<lparr>deferral_statement = st, deferral_reason = re, deferral_reconsider_when = rw\<rparr>))))"

record ceremony_guard_deferral =
  deferral_guard_name :: rstr
  deferral_deferred_by :: rstr
  deferral_deferred_by_kind :: audit_actor_kind
  deferral_content :: ceremony_guard_deferral_content
  deferral_deferred_at :: timestamp

record ceremony_participant_binding =
  binding_role_id :: rstr
  binding_specialty :: rstr
  binding_bound_at :: timestamp

section \<open>Reasons\<close>

datatype ceremony_record_ref =
    Ref_Step rstr
  | Ref_AgendaItem rstr
  | Ref_Contribution rstr "32 word"
  | Ref_GuardDecision rstr
  | Ref_Transition "32 word"

datatype reason_asserter = TheEngine | ItsAuthor | AnySeat

datatype ceremony_reason_kind =
    Answers | ChosenBecause | Authorizes | AchievedBy | FollowsFrom
  | SatisfiesConstraint | ViolatesConstraint | Supersedes | Contradicts

fun CeremonyReasonKind_as_label :: "ceremony_reason_kind \<Rightarrow> string" where
  "CeremonyReasonKind_as_label Answers = ''answers''"
| "CeremonyReasonKind_as_label Authorizes = ''authorizes''"
| "CeremonyReasonKind_as_label ChosenBecause = ''chosen_because''"
| "CeremonyReasonKind_as_label AchievedBy = ''achieved_by''"
| "CeremonyReasonKind_as_label FollowsFrom = ''follows_from''"
| "CeremonyReasonKind_as_label SatisfiesConstraint = ''satisfies_constraint''"
| "CeremonyReasonKind_as_label ViolatesConstraint = ''violates_constraint''"
| "CeremonyReasonKind_as_label Supersedes = ''supersedes''"
| "CeremonyReasonKind_as_label Contradicts = ''contradicts''"

fun CeremonyReasonKind_asserter :: "ceremony_reason_kind \<Rightarrow> reason_asserter" where
  "CeremonyReasonKind_asserter Answers = TheEngine"
| "CeremonyReasonKind_asserter Authorizes = ItsAuthor"
| "CeremonyReasonKind_asserter ChosenBecause = ItsAuthor"
| "CeremonyReasonKind_asserter AchievedBy = ItsAuthor"
| "CeremonyReasonKind_asserter FollowsFrom = AnySeat"
| "CeremonyReasonKind_asserter SatisfiesConstraint = AnySeat"
| "CeremonyReasonKind_asserter ViolatesConstraint = AnySeat"
| "CeremonyReasonKind_asserter Supersedes = AnySeat"
| "CeremonyReasonKind_asserter Contradicts = AnySeat"

datatype memory_confidence = High | Medium | Low

record ceremony_reason =
  reason_from :: ceremony_record_ref
  reason_to :: ceremony_record_ref
  reason_kind :: ceremony_reason_kind
  reason_why :: rstr
  reason_confidence :: memory_confidence
  reason_asserted_by :: "rstr option"
  reason_asserted_at :: timestamp

text \<open>The length of \<open>why\<close> is counted in characters, not in bytes.\<close>

definition CeremonyReason_new ::
    "ceremony_record_ref \<Rightarrow> ceremony_record_ref \<Rightarrow> ceremony_reason_kind \<Rightarrow> rstr
      \<Rightarrow> memory_confidence \<Rightarrow> rstr option \<Rightarrow> timestamp \<Rightarrow> ceremony_reason outcome" where
  "CeremonyReason_new src dst k why confidence asserted_by asserted_at =
     (if src = dst then Inl (InvariantViolated ''nothing in a session explains itself'')
      else let trimmed = trim why in
        if trimmed = [] then Inl (EmptyField ''ceremony_reason.why'')
        else if 512 < length trimmed
        then Inl (FieldTooLong ''ceremony_reason.why'' (length trimmed) 512)
        else Inr \<lparr>reason_from = src, reason_to = dst, reason_kind = k, reason_why = trimmed,
                  reason_confidence = confidence, reason_asserted_by = asserted_by,
                  reason_asserted_at = asserted_at\<rparr>)"

section \<open>Lemmas on guards and context\<close>

lemma context_approval [simp]:
  "CeremonyContext_is_guard_approved (bt_insert n (JBool True) ctx) m =
     (m = n \<or> CeremonyContext_is_guard_approved ctx m)"
  by (simp add: CeremonyContext_is_guard_approved_def json_as_bool_def)

lemma with_guard_approval_Inr:
  "CeremonyContext_with_guard_approval ctx n = Inr ctx' \<Longrightarrow> ctx' = bt_insert n (JBool True) ctx"
  by (simp add: CeremonyContext_with_guard_approval_def Attributes_new_eq_Inr)

text \<open>
  Approving a guard that was accepted in a well-formed context never fails unless the
  context is already full.
\<close>

lemma with_guard_approval_ok:
  assumes "canonical_text None not_identifier_char n"
    and "\<forall>key \<in> fst ` set ctx. trim key \<noteq> []" and "length ctx < MAX_ATTRIBUTES_KEYS"
  shows "CeremonyContext_with_guard_approval ctx n = Inr (bt_insert n (JBool True) ctx)"
proof -
  have "length (bt_insert n v ctx) \<le> Suc (length ctx)" for v
    by (induction n v ctx rule: bt_insert.induct) auto
  then have "length (bt_insert n (JBool True) ctx) \<le> MAX_ATTRIBUTES_KEYS"
    using assms(3) by (meson Suc_leI le_trans)
  moreover have "trim n \<noteq> []" using assms(1) by (simp add: canonical_text_def)
  ultimately show ?thesis using assms(2)
    by (auto simp: CeremonyContext_with_guard_approval_def Attributes_new_eq_Inr)
qed

lemma human_guard_satisfied_iff:
  "guard_condition g = HumanApproval \<Longrightarrow>
     CeremonyGuard_is_satisfied g records ctx = CeremonyContext_is_guard_approved ctx (guard_name g)"
  by (simp add: CeremonyGuard_is_satisfied.simps)

lemma CeremonyReason_new_Inr:
  "CeremonyReason_new f t k w c b asserted_at = Inr r \<Longrightarrow>
     reason_from r = f \<and> reason_to r = t \<and> f \<noteq> t \<and> reason_kind r = k \<and>
     reason_asserted_by r = b \<and> reason_asserted_at r = asserted_at"
  by (auto simp: CeremonyReason_new_def Let_def split: if_splits)

end
