(* ===== verification/Interventions.thy ===== *)
theory Interventions
  imports Ceremony_Parts
begin

text \<open>
  Agenda items and the evidence that answers them
  (\<open>entities/external_context.rs\<close>, \<open>entities/ceremony_evidence_pack.rs\<close>,
  \<open>entities/ceremony_intervention.rs\<close>, \<open>ports/ceremony_evidence_request.rs\<close> and the
  intervention value objects).  Turning an evidence pack into JSON is \<open>serde_json::to_value\<close>
  on a derived serializer: it is the parameter \<open>to_value\<close>.  The lemmas give the life cycle of
  an agenda item: open, at most one answer per role and only from roles it targets, closed
  once and by whoever asked.
\<close>

section \<open>External context\<close>

definition validate_text :: "rstr \<Rightarrow> string \<Rightarrow> nat \<Rightarrow> rstr outcome" where
  "validate_text v field max_len = checked_text field (Some max_len) no_char v"

definition validate_collection_len :: "string \<Rightarrow> nat \<Rightarrow> nat \<Rightarrow> unit outcome" where
  "validate_collection_len field actual maximum =
     (if maximum < actual
      then Inl (OutOfRange field (u64_as_f64 actual) (F64 0) (u64_as_f64 maximum))
      else Inr ())"

definition normalize_optional :: "rstr option \<Rightarrow> rstr option" where
  "normalize_optional v =
     (case v of None \<Rightarrow> None | Some t \<Rightarrow> if trim t = [] then None else Some (trim t))"

record context_summary =
  summary_text :: rstr
  summary_attributes :: attributes

definition ContextSummary_new :: "rstr \<Rightarrow> attributes \<Rightarrow> context_summary outcome" where
  "ContextSummary_new t attrs =
     map_ok (\<lambda>t'. \<lparr>summary_text = t', summary_attributes = attrs\<rparr>)
       (validate_text t ''external_context.summary.text'' 256)"

record context_item =
  item_id :: rstr
  item_kind :: rstr
  item_title :: rstr
  item_narrative :: "rstr option"
  item_attributes :: attributes
  item_reference_ids :: "rstr list"

definition ContextItem_new ::
    "rstr \<Rightarrow> rstr \<Rightarrow> rstr \<Rightarrow> rstr option \<Rightarrow> attributes \<Rightarrow> rstr list \<Rightarrow> context_item outcome" where
  "ContextItem_new iid k title narrative attrs reference_ids =
     and_then (try_map (\<lambda>r. validate_text r ''external_context.item.reference_id'' 128) reference_ids)
       (\<lambda>refs.
     and_then (validate_text iid ''external_context.item_id'' 128) (\<lambda>iid'.
     and_then (validate_text k ''external_context.item.kind'' 64) (\<lambda>k'.
     and_then (validate_text title ''external_context.item.title'' 256) (\<lambda>title'.
     Inr \<lparr>item_id = iid', item_kind = k', item_title = title',
          item_narrative = normalize_optional narrative, item_attributes = attrs,
          item_reference_ids = refs\<rparr>))))"

record context_reference =
  reference_id :: rstr
  reference_uri :: rstr
  reference_title :: "rstr option"
  reference_media_type :: "rstr option"
  reference_attributes :: attributes

definition ContextReference_new ::
    "rstr \<Rightarrow> rstr \<Rightarrow> rstr option \<Rightarrow> rstr option \<Rightarrow> attributes \<Rightarrow> context_reference outcome" where
  "ContextReference_new rid uri title media_type attrs =
     and_then (validate_text rid ''external_context.reference_id'' 128) (\<lambda>rid'.
     and_then (validate_text uri ''external_context.reference.uri'' 2048) (\<lambda>uri'.
     Inr \<lparr>reference_id = rid', reference_uri = uri',
          reference_title = normalize_optional title,
          reference_media_type = normalize_optional media_type,
          reference_attributes = attrs\<rparr>))"

record external_context_bundle =
  bundle_id :: rstr
  bundle_schema_version :: rstr
  bundle_summary :: "context_summary option"
  bundle_items :: "context_item list"
  bundle_references :: "context_reference list"
  bundle_metadata :: attributes

definition ExternalContextBundle_new ::
    "rstr \<Rightarrow> rstr \<Rightarrow> context_summary option \<Rightarrow> context_item list \<Rightarrow> context_reference list
      \<Rightarrow> attributes \<Rightarrow> external_context_bundle outcome" where
  "ExternalContextBundle_new bid schema_version summary items references metadata =
     and_then (validate_text bid ''external_context.bundle_id'' 128) (\<lambda>bid'.
     and_then (validate_text schema_version ''external_context.schema_version'' 64) (\<lambda>sv'.
     and_then (validate_collection_len ''external_context.items'' (length items) 256) (\<lambda>_.
     and_then (validate_collection_len ''external_context.references'' (length references) 512) (\<lambda>_.
     Inr \<lparr>bundle_id = bid', bundle_schema_version = sv', bundle_summary = summary,
          bundle_items = items, bundle_references = references, bundle_metadata = metadata\<rparr>))))"

section \<open>Messages and evidence packs\<close>

record ceremony_intervention_content =
  content_message :: rstr
  content_details :: attributes

definition CeremonyInterventionContent_new ::
    "rstr \<Rightarrow> attributes \<Rightarrow> ceremony_intervention_content outcome" where
  "CeremonyInterventionContent_new message details =
     map_ok (\<lambda>trimmed. \<lparr>content_message = trimmed, content_details = details\<rparr>)
       (checked_text ''ceremony_intervention.message'' (Some 16384) is_control_not_layout message)"

record ceremony_evidence_pack =
  pack_source_id :: rstr
  pack_bundle :: external_context_bundle
  pack_collected_at :: timestamp

definition CeremonyEvidencePack_new ::
    "rstr \<Rightarrow> external_context_bundle \<Rightarrow> timestamp \<Rightarrow> ceremony_evidence_pack outcome" where
  "CeremonyEvidencePack_new sid bundle collected_at =
     (if bundle_summary bundle = None then Inl (EmptyField ''ceremony_evidence_pack.summary'')
      else if bundle_items bundle = [] \<and> bundle_references bundle = []
      then Inl (EmptyCollection ''ceremony_evidence_pack.evidence'')
      else Inr \<lparr>pack_source_id = sid, pack_bundle = bundle, pack_collected_at = collected_at\<rparr>)"

definition CeremonyEvidencePack_intervention_content ::
    "(ceremony_evidence_pack \<Rightarrow> json option) \<Rightarrow> ceremony_evidence_pack
      \<Rightarrow> ceremony_intervention_content outcome" where
  "CeremonyEvidencePack_intervention_content to_value pack =
     and_then (ok_or (bundle_summary (pack_bundle pack))
         (InvariantViolated ''ceremony evidence pack must retain its summary'')) (\<lambda>summary.
     and_then (ok_or (to_value pack)
         (InvariantViolated ''ceremony evidence pack could not be represented as attributes''))
       (\<lambda>serialized.
     and_then (Attributes_new [(lit ''evidence_pack'', serialized)]) (\<lambda>details.
     CeremonyInterventionContent_new (summary_text summary) details)))"

record ceremony_evidence_request =
  ereq_instance_id :: rstr
  ereq_intervention_id :: rstr
  ereq_role_id :: rstr
  ereq_source_id :: rstr
  ereq_query :: ceremony_intervention_content
  ereq_context :: ceremony_context

definition CeremonyEvidenceRequest_ensure_matches ::
    "ceremony_evidence_request \<Rightarrow> ceremony_evidence_pack \<Rightarrow> unit outcome" where
  "CeremonyEvidenceRequest_ensure_matches req pack =
     (if pack_source_id pack = ereq_source_id req then Inr ()
      else Inl (InvariantViolated ''ceremony evidence source returned a pack for another source''))"

section \<open>Agenda items\<close>

datatype ceremony_intervention_kind = Opinion | Investigation | Action

fun CeremonyInterventionKind_as_label :: "ceremony_intervention_kind \<Rightarrow> string" where
  "CeremonyInterventionKind_as_label Opinion = ''opinion''"
| "CeremonyInterventionKind_as_label Investigation = ''investigation''"
| "CeremonyInterventionKind_as_label Action = ''action''"

datatype ceremony_intervention_status = Open | Closed

definition CeremonyInterventionStatus_is_open :: "ceremony_intervention_status \<Rightarrow> bool" where
  "CeremonyInterventionStatus_is_open s = (s = Open)"

datatype ceremony_intervention_target = Table | Roles "rstr btree_set"

definition CeremonyInterventionTarget_roles ::
    "rstr list \<Rightarrow> ceremony_intervention_target outcome" where
  "CeremonyInterventionTarget_roles role_ids =
     (let s = bset_of role_ids in
      if s = [] then Inl (EmptyField ''ceremony_intervention.target_role_ids'') else Inr (Roles s))"

fun CeremonyInterventionTarget_accepts :: "ceremony_intervention_target \<Rightarrow> rstr \<Rightarrow> bool" where
  "CeremonyInterventionTarget_accepts Table rid = True"
| "CeremonyInterventionTarget_accepts (Roles rids) rid = (rid \<in> set rids)"

fun CeremonyInterventionTarget_role_ids ::
    "ceremony_intervention_target \<Rightarrow> rstr btree_set option" where
  "CeremonyInterventionTarget_role_ids Table = None"
| "CeremonyInterventionTarget_role_ids (Roles rids) = Some rids"

record ceremony_intervention_provenance =
  prov_source_intervention :: rstr
  prov_source_response_role :: rstr
  prov_selected_role :: rstr

record ceremony_intervention_response =
  resp_role_id :: rstr
  resp_content :: ceremony_intervention_content
  resp_evidence_pack :: "ceremony_evidence_pack option"
  resp_responded_at :: timestamp

definition CeremonyInterventionResponse_new ::
    "rstr \<Rightarrow> ceremony_intervention_content \<Rightarrow> timestamp \<Rightarrow> ceremony_intervention_response" where
  "CeremonyInterventionResponse_new rid content responded_at =
     \<lparr>resp_role_id = rid, resp_content = content, resp_evidence_pack = None,
      resp_responded_at = responded_at\<rparr>"

definition CeremonyInterventionResponse_from_evidence ::
    "(ceremony_evidence_pack \<Rightarrow> json option) \<Rightarrow> rstr \<Rightarrow> ceremony_evidence_pack \<Rightarrow> timestamp
      \<Rightarrow> ceremony_intervention_response outcome" where
  "CeremonyInterventionResponse_from_evidence to_value rid pack responded_at =
     map_ok (\<lambda>content. \<lparr>resp_role_id = rid, resp_content = content,
         resp_evidence_pack = Some pack, resp_responded_at = responded_at\<rparr>)
       (CeremonyEvidencePack_intervention_content to_value pack)"

record ceremony_intervention =
  int_id :: rstr
  int_kind :: ceremony_intervention_kind
  int_requested_by :: rstr
  int_target :: ceremony_intervention_target
  int_request :: ceremony_intervention_content
  int_provenance :: "ceremony_intervention_provenance option"
  int_responses :: "ceremony_intervention_response list"
  int_status :: ceremony_intervention_status
  int_created_at :: timestamp
  int_updated_at :: timestamp
  int_closed_at :: "timestamp option"

definition CeremonyIntervention_open_with_provenance ::
    "rstr \<Rightarrow> ceremony_intervention_kind \<Rightarrow> rstr \<Rightarrow> ceremony_intervention_target
      \<Rightarrow> ceremony_intervention_content \<Rightarrow> ceremony_intervention_provenance option \<Rightarrow> timestamp
      \<Rightarrow> ceremony_intervention" where
  "CeremonyIntervention_open_with_provenance iid k requested_by target request provenance now =
     \<lparr>int_id = iid, int_kind = k, int_requested_by = requested_by, int_target = target,
      int_request = request, int_provenance = provenance, int_responses = [], int_status = Open,
      int_created_at = now, int_updated_at = now, int_closed_at = None\<rparr>"

definition CeremonyIntervention_ensure_can_respond ::
    "ceremony_intervention \<Rightarrow> rstr \<Rightarrow> unit outcome" where
  "CeremonyIntervention_ensure_can_respond i rid =
     (if \<not> CeremonyInterventionStatus_is_open (int_status i)
      then Inl (InvariantViolated ''closed ceremony interventions cannot receive responses'')
      else if \<not> CeremonyInterventionTarget_accepts (int_target i) rid
      then Inl (InvariantViolated ''ceremony intervention does not target responding role'')
      else if list_ex (\<lambda>r. resp_role_id r = rid) (int_responses i)
      then Inl (AlreadyExists ''ceremony_intervention.response_role'')
      else Inr ())"

definition CeremonyIntervention_respond ::
    "ceremony_intervention \<Rightarrow> rstr \<Rightarrow> ceremony_intervention_content \<Rightarrow> timestamp
      \<Rightarrow> ceremony_intervention outcome" where
  "CeremonyIntervention_respond i rid content now =
     and_then (CeremonyIntervention_ensure_can_respond i rid) (\<lambda>_.
     Inr (i\<lparr>int_responses := int_responses i @ [CeremonyInterventionResponse_new rid content now],
            int_updated_at := now\<rparr>))"

definition CeremonyIntervention_respond_with_evidence ::
    "(ceremony_evidence_pack \<Rightarrow> json option) \<Rightarrow> ceremony_intervention \<Rightarrow> rstr
      \<Rightarrow> ceremony_evidence_pack \<Rightarrow> timestamp \<Rightarrow> ceremony_intervention outcome" where
  "CeremonyIntervention_respond_with_evidence to_value i rid pack now =
     and_then (CeremonyIntervention_ensure_can_respond i rid) (\<lambda>_.
     and_then (CeremonyInterventionResponse_from_evidence to_value rid pack now) (\<lambda>response.
     Inr (i\<lparr>int_responses := int_responses i @ [response], int_updated_at := now\<rparr>)))"

definition CeremonyIntervention_close ::
    "ceremony_intervention \<Rightarrow> rstr \<Rightarrow> timestamp \<Rightarrow> ceremony_intervention outcome" where
  "CeremonyIntervention_close i rid now =
     (if \<not> CeremonyInterventionStatus_is_open (int_status i)
      then Inl (InvariantViolated ''ceremony intervention is already closed'')
      else if rid \<noteq> int_requested_by i
      then Inl (InvariantViolated ''only the requesting role can close a ceremony intervention'')
      else Inr (i\<lparr>int_status := Closed, int_updated_at := now, int_closed_at := Some now\<rparr>))"

section \<open>Life cycle of an agenda item\<close>

definition intervention_wf :: "ceremony_intervention \<Rightarrow> bool" where
  "intervention_wf i =
     ((int_status i = Closed \<longleftrightarrow> int_closed_at i \<noteq> None) \<and>
      distinct (map resp_role_id (int_responses i)) \<and>
      (\<forall>r \<in> set (int_responses i). CeremonyInterventionTarget_accepts (int_target i) (resp_role_id r)))"

text \<open>
  What an operation on an agenda item leaves alone: its identity, what was asked, of whom
  and by whom, and every answer already given.
\<close>

definition intervention_extends :: "ceremony_intervention \<Rightarrow> ceremony_intervention \<Rightarrow> bool" where
  "intervention_extends i j =
     (int_id j = int_id i \<and> int_kind j = int_kind i \<and> int_requested_by j = int_requested_by i \<and>
      int_target j = int_target i \<and> int_request j = int_request i \<and>
      int_provenance j = int_provenance i \<and> int_created_at j = int_created_at i \<and>
      (\<exists>rs. int_responses j = int_responses i @ rs) \<and>
      (int_status i = Closed \<longrightarrow> j = i))"

text \<open>The contract the operations on an open agenda item share.\<close>

locale agenda_operation =
  fixes op :: "ceremony_intervention \<Rightarrow> ceremony_intervention outcome"
  assumes op_wf: "intervention_wf i \<Longrightarrow> op i = Inr j \<Longrightarrow> intervention_wf j"
    and op_extends: "op i = Inr j \<Longrightarrow> intervention_extends i j"
    and op_open: "op i = Inr j \<Longrightarrow> int_status i = Open"
begin

lemma closed_refuses: "int_status i = Closed \<Longrightarrow> \<exists>e. op i = Inl e"
  using op_open [of i] by (cases "op i") auto

lemma op_id: "op i = Inr j \<Longrightarrow> int_id j = int_id i"
  using op_extends by (simp add: intervention_extends_def)

end

lemma ensure_can_respond_iff [result_simps]:
  "CeremonyIntervention_ensure_can_respond i rid = Inr u \<longleftrightarrow>
     int_status i = Open \<and> CeremonyInterventionTarget_accepts (int_target i) rid \<and>
     rid \<notin> resp_role_id ` set (int_responses i)"
  by (auto simp: CeremonyIntervention_ensure_can_respond_def CeremonyInterventionStatus_is_open_def
      list_ex_iff)

lemma from_evidence_role:
  "CeremonyInterventionResponse_from_evidence tv rid pack now = Inr r \<Longrightarrow>
     resp_role_id r = rid \<and> resp_evidence_pack r = Some pack \<and> resp_responded_at r = now"
  by (auto simp: CeremonyInterventionResponse_from_evidence_def result_simps)

lemma respond_Inr:
  "CeremonyIntervention_respond i rid content now = Inr j \<Longrightarrow>
     int_status i = Open \<and> CeremonyInterventionTarget_accepts (int_target i) rid \<and>
     rid \<notin> resp_role_id ` set (int_responses i) \<and>
     j = i\<lparr>int_responses := int_responses i @ [CeremonyInterventionResponse_new rid content now],
           int_updated_at := now\<rparr>"
  by (auto simp: CeremonyIntervention_respond_def result_simps)

lemma respond_with_evidence_Inr:
  "CeremonyIntervention_respond_with_evidence tv i rid pack now = Inr j \<Longrightarrow>
     int_status i = Open \<and> CeremonyInterventionTarget_accepts (int_target i) rid \<and>
     rid \<notin> resp_role_id ` set (int_responses i) \<and>
     (\<exists>r. resp_role_id r = rid \<and> resp_evidence_pack r = Some pack \<and>
          j = i\<lparr>int_responses := int_responses i @ [r], int_updated_at := now\<rparr>)"
  by (auto simp: CeremonyIntervention_respond_with_evidence_def result_simps dest: from_evidence_role)

lemma close_Inr:
  "CeremonyIntervention_close i rid now = Inr j \<Longrightarrow>
     int_status i = Open \<and> rid = int_requested_by i \<and>
     j = i\<lparr>int_status := Closed, int_updated_at := now, int_closed_at := Some now\<rparr>"
  by (auto simp: CeremonyIntervention_close_def CeremonyInterventionStatus_is_open_def
      split: if_splits)

interpretation respond: agenda_operation "\<lambda>i. CeremonyIntervention_respond i rid content now"
  for rid content now
  by unfold_locales
    (auto dest!: respond_Inr
      simp: intervention_wf_def intervention_extends_def CeremonyInterventionResponse_new_def)

interpretation respond_with_evidence:
  agenda_operation "\<lambda>i. CeremonyIntervention_respond_with_evidence tv i rid pack now"
  for tv rid pack now
  by unfold_locales
    (auto dest!: respond_with_evidence_Inr simp: intervention_wf_def intervention_extends_def)

interpretation close: agenda_operation "\<lambda>i. CeremonyIntervention_close i rid now"
  for rid now
  by unfold_locales
    (auto dest!: close_Inr simp: intervention_wf_def intervention_extends_def)

lemma open_wf [simp]:
  "intervention_wf (CeremonyIntervention_open_with_provenance iid k rb tgt req prov now)"
  by (simp add: intervention_wf_def CeremonyIntervention_open_with_provenance_def)

lemma open_fields [simp]:
  "int_id (CeremonyIntervention_open_with_provenance iid k rb tgt req prov now) = iid"
  "int_responses (CeremonyIntervention_open_with_provenance iid k rb tgt req prov now) = []"
  by (simp_all add: CeremonyIntervention_open_with_provenance_def)

text \<open>Reading the summary of a pack as a message fails only on a control character in it.\<close>

lemma evidence_content_message:
  assumes "CeremonyEvidencePack_intervention_content tv pack = Inr c"
  obtains s where "bundle_summary (pack_bundle pack) = Some s"
    and "content_message c = trim (summary_text s)"
  using assms
  by (auto simp: CeremonyEvidencePack_intervention_content_def CeremonyInterventionContent_new_def
      result_simps checked_text_eq_Inr)

end
