(* ===== verification/Ceremony_Analysis.thy ===== *)
theory Ceremony_Analysis
  imports Ceremony_Parts
begin

text \<open>
  The structural analysis of a ceremony definition
  (\<open>entities/ceremony_definition_analysis.rs\<close> and the \<open>ceremony_validation_*\<close> value
  objects).  One pass collects every finding in a fixed order; errors forbid the
  definition, warnings do not.  Two loops of the source are recursive functions with a
  termination proof: the worklist of \<open>states_reachable_from\<close> and the fixpoint of
  \<open>states_that_reach_a_terminal\<close>.  Both are proved to compute exactly the graph notion they
  are named after, and the absence of blocking findings is proved to be exactly the
  well-formedness predicate \<open>parts_wf\<close>.
\<close>

section \<open>Findings and reports\<close>

datatype ceremony_validation_severity = Error | Warning

datatype ceremony_validation_locus =
    Locus_Definition
  | Locus_Input rstr
  | Locus_Output rstr
  | Locus_State rstr
  | Locus_Transition rstr rstr
  | Locus_Step rstr
  | Locus_Guard rstr
  | Locus_Role rstr

record ceremony_validation_finding =
  finding_severity :: ceremony_validation_severity
  finding_locus :: ceremony_validation_locus
  finding_defect :: domain_error

definition CeremonyValidationFinding_error ::
    "ceremony_validation_locus \<Rightarrow> domain_error \<Rightarrow> ceremony_validation_finding" where
  "CeremonyValidationFinding_error locus defect =
     \<lparr>finding_severity = Error, finding_locus = locus, finding_defect = defect\<rparr>"

definition CeremonyValidationFinding_warning ::
    "ceremony_validation_locus \<Rightarrow> domain_error \<Rightarrow> ceremony_validation_finding" where
  "CeremonyValidationFinding_warning locus defect =
     \<lparr>finding_severity = Warning, finding_locus = locus, finding_defect = defect\<rparr>"

definition CeremonyValidationFinding_is_blocking :: "ceremony_validation_finding \<Rightarrow> bool" where
  "CeremonyValidationFinding_is_blocking f = (finding_severity f = Error)"

type_synonym ceremony_validation_report = "ceremony_validation_finding list"

definition CeremonyValidationReport_errors ::
    "ceremony_validation_report \<Rightarrow> ceremony_validation_finding list" where
  "CeremonyValidationReport_errors r = filter CeremonyValidationFinding_is_blocking r"

definition CeremonyValidationReport_warnings ::
    "ceremony_validation_report \<Rightarrow> ceremony_validation_finding list" where
  "CeremonyValidationReport_warnings r = filter (\<lambda>f. \<not> CeremonyValidationFinding_is_blocking f) r"

definition CeremonyValidationReport_first_error ::
    "ceremony_validation_report \<Rightarrow> ceremony_validation_finding option" where
  "CeremonyValidationReport_first_error r = find CeremonyValidationFinding_is_blocking r"

definition CeremonyValidationReport_is_valid :: "ceremony_validation_report \<Rightarrow> bool" where
  "CeremonyValidationReport_is_valid r = (CeremonyValidationReport_first_error r = None)"

section \<open>Collecting the findings\<close>

record ceremony_definition_parts =
  parts_states :: "(rstr, ceremony_state) btree_map"
  parts_transitions :: "ceremony_transition list"
  parts_steps :: "(rstr, ceremony_step) btree_map"
  parts_guards :: "(rstr, ceremony_guard) btree_map"
  parts_roles :: "(rstr, ceremony_role) btree_map"

definition collect_initial_state_findings ::
    "ceremony_definition_parts \<Rightarrow> ceremony_validation_finding list" where
  "collect_initial_state_findings p =
     (if parts_states p = []
      then [CeremonyValidationFinding_error Locus_Definition
              (EmptyCollection ''ceremony_definition.states'')]
      else if length (filter CeremonyState_is_initial (bt_values (parts_states p))) \<noteq> 1
      then [CeremonyValidationFinding_error Locus_Definition
              (InvariantViolated ''ceremony definition must have exactly one initial state'')]
      else [])"

text \<open>
  The loop over the transitions; \<open>seen\<close> holds the pairs of state and trigger inserted so
  far and is only ever asked for membership.
\<close>

fun transition_graph_findings ::
    "ceremony_definition_parts \<Rightarrow> (rstr \<times> rstr) list \<Rightarrow> ceremony_transition list
      \<Rightarrow> ceremony_validation_finding list" where
  "transition_graph_findings p seen [] = []"
| "transition_graph_findings p seen (t # ts) =
     (let locus = Locus_Transition (trans_from t) (trans_trigger t) in
      case bt_get (parts_states p) (trans_from t) of
        None \<Rightarrow>
          CeremonyValidationFinding_error locus (NotFound ''ceremony_transition.from_state'')
          # transition_graph_findings p seen ts
      | Some source \<Rightarrow>
          if \<not> bt_contains_key (parts_states p) (trans_to t) then
            CeremonyValidationFinding_error locus (NotFound ''ceremony_transition.to_state'')
            # transition_graph_findings p seen ts
          else if CeremonyState_is_terminal source then
            CeremonyValidationFinding_error locus
              (InvariantViolated ''terminal ceremony states cannot have outgoing transitions'')
            # transition_graph_findings p seen ts
          else if (trans_from t, trans_trigger t) \<in> set seen then
            CeremonyValidationFinding_error locus
              (AlreadyExists ''ceremony_transition.state_trigger'')
            # transition_graph_findings p seen ts
          else
            map (\<lambda>_. CeremonyValidationFinding_error locus (NotFound ''ceremony_transition.guard''))
              (filter (\<lambda>g. \<not> bt_contains_key (parts_guards p) g) (trans_required_guards t))
            @ transition_graph_findings p ((trans_from t, trans_trigger t) # seen) ts)"

definition collect_transition_graph_findings ::
    "ceremony_definition_parts \<Rightarrow> ceremony_validation_finding list" where
  "collect_transition_graph_findings p = transition_graph_findings p [] (parts_transitions p)"

definition collect_step_findings ::
    "ceremony_definition_parts \<Rightarrow> ceremony_validation_finding list" where
  "collect_step_findings p =
     concat (map (\<lambda>(sid, step).
       case bt_get (parts_states p) (step_state_id step) of
         None \<Rightarrow> [CeremonyValidationFinding_error (Locus_Step sid) (NotFound ''ceremony_step.state'')]
       | Some s \<Rightarrow>
           if CeremonyState_is_terminal s
           then [CeremonyValidationFinding_error (Locus_Step sid)
                   (InvariantViolated ''terminal ceremony states cannot own executable steps'')]
           else []) (parts_steps p))"

definition collect_guard_findings ::
    "ceremony_definition_parts \<Rightarrow> ceremony_validation_finding list" where
  "collect_guard_findings p =
     concat (map (\<lambda>(gname, guard).
       case GuardCondition_referenced_step_id (guard_condition guard) of
         None \<Rightarrow> []
       | Some sid \<Rightarrow>
           if \<not> bt_contains_key (parts_steps p) sid
           then [CeremonyValidationFinding_error (Locus_Guard gname) (NotFound ''ceremony_guard.step'')]
           else []) (parts_guards p))"

definition collect_role_findings ::
    "ceremony_definition_parts \<Rightarrow> ceremony_validation_finding list" where
  "collect_role_findings p =
     (let transition_triggers = bset_of (map trans_trigger (parts_transitions p)) in
      concat (map (\<lambda>(rid, role).
        concat (map (\<lambda>action.
          (case RoleAction_step_id action of
             None \<Rightarrow> []
           | Some sid \<Rightarrow>
               if \<not> bt_contains_key (parts_steps p) sid
               then [CeremonyValidationFinding_error (Locus_Role rid)
                       (NotFound ''ceremony_role.step_action'')]
               else []) @
          (case RoleAction_transition_trigger action of
             None \<Rightarrow> []
           | Some trigger \<Rightarrow>
               if trigger \<notin> set transition_triggers
               then [CeremonyValidationFinding_error (Locus_Role rid)
                       (NotFound ''ceremony_role.transition_action'')]
               else []))
          (role_allowed_actions role))) (parts_roles p)))"

section \<open>Reachability\<close>

text \<open>The transition graph: an edge for every declared transition.\<close>

definition transition_edges :: "ceremony_transition list \<Rightarrow> (rstr \<times> rstr) set" where
  "transition_edges ts = (\<lambda>t. (trans_from t, trans_to t)) ` set ts"

text \<open>
  The worklist of \<open>states_reachable_from\<close>: \<open>pending\<close> is a stack with its top first, so the
  successors, pushed in order, come out in reverse.
\<close>

function reachable_loop ::
    "ceremony_transition list \<Rightarrow> rstr btree_set \<Rightarrow> rstr list \<Rightarrow> rstr btree_set" where
  "reachable_loop ts reached [] = reached"
| "reachable_loop ts reached (current # pending) =
     (if current \<in> set reached then reachable_loop ts reached pending
      else reachable_loop ts (bset_insert current reached)
        (rev (map trans_to (filter (\<lambda>t. trans_from t = current) ts)) @ pending))"
  by pat_completeness auto

termination
proof (relation "inv_image (less_than <*lex*> less_than)
    (\<lambda>(ts, reached, pending).
      (card ((set pending \<union> trans_to ` set ts) - set reached), length pending))")
  show "wf (inv_image (less_than <*lex*> less_than)
    (\<lambda>(ts :: ceremony_transition list, reached :: rstr list, pending :: rstr list).
      (card ((set pending \<union> trans_to ` set ts) - set reached), length pending)))"
    by auto
next
  fix ts :: "ceremony_transition list" and reached :: "rstr list" and current :: rstr and pending
  assume "current \<in> set reached"
  then have "(set (current # pending) \<union> trans_to ` set ts) - set reached
      = (set pending \<union> trans_to ` set ts) - set reached" by auto
  then show "((ts, reached, pending), (ts, reached, current # pending))
      \<in> inv_image (less_than <*lex*> less_than)
          (\<lambda>(ts, reached, pending).
            (card ((set pending \<union> trans_to ` set ts) - set reached), length pending))"
    by simp
next
  fix ts :: "ceremony_transition list" and reached :: "rstr list" and current :: rstr and pending
  assume new: "current \<notin> set reached"
  let ?push = "rev (map trans_to (filter (\<lambda>t. trans_from t = current) ts)) @ pending"
  have "set ?push \<subseteq> trans_to ` set ts \<union> set pending"
    by (simp only: set_append set_rev set_map set_filter) blast
  with new have "(set ?push \<union> trans_to ` set ts) - set (bset_insert current reached)
      \<subset> (set (current # pending) \<union> trans_to ` set ts) - set reached"
    unfolding set_bset_insert list.set by blast
  then have "card ((set ?push \<union> trans_to ` set ts) - set (bset_insert current reached))
      < card ((set (current # pending) \<union> trans_to ` set ts) - set reached)"
    by (rule psubset_card_mono [rotated]) simp
  then show "((ts, bset_insert current reached, ?push), (ts, reached, current # pending))
      \<in> inv_image (less_than <*lex*> less_than)
          (\<lambda>(ts, reached, pending).
            (card ((set pending \<union> trans_to ` set ts) - set reached), length pending))"
    by simp
qed

definition states_reachable_from :: "ceremony_transition list \<Rightarrow> rstr \<Rightarrow> rstr btree_set" where
  "states_reachable_from ts initial = reachable_loop ts [] [initial]"

text \<open>One sweep over the transitions: the grown set and whether it grew.\<close>

fun grow_sweep :: "ceremony_transition list \<Rightarrow> rstr btree_set \<Rightarrow> rstr btree_set \<times> bool" where
  "grow_sweep [] can_finish = (can_finish, False)"
| "grow_sweep (t # ts) can_finish =
     (if trans_to t \<in> set can_finish \<and> trans_from t \<notin> set can_finish
      then (fst (grow_sweep ts (bset_insert (trans_from t) can_finish)), True)
      else grow_sweep ts can_finish)"

lemma grow_sweep_facts:
  "set cf \<subseteq> set (fst (grow_sweep ts cf)) \<and>
   set (fst (grow_sweep ts cf)) \<subseteq> set cf \<union> trans_from ` set ts \<and>
   (snd (grow_sweep ts cf) \<longrightarrow> set cf \<noteq> set (fst (grow_sweep ts cf))) \<and>
   (\<not> snd (grow_sweep ts cf) \<longrightarrow> fst (grow_sweep ts cf) = cf \<and>
      (\<forall>t \<in> set ts. trans_to t \<in> set cf \<longrightarrow> trans_from t \<in> set cf))"
proof (induction ts arbitrary: cf)
  case Nil
  then show ?case by simp
next
  case (Cons t ts)
  show ?case
  proof (cases "trans_to t \<in> set cf \<and> trans_from t \<notin> set cf")
    case True
    then show ?thesis using Cons.IH [of "bset_insert (trans_from t) cf"] by auto
  next
    case False
    then show ?thesis using Cons.IH [of cf] by auto
  qed
qed

function can_finish_loop :: "ceremony_transition list \<Rightarrow> rstr btree_set \<Rightarrow> rstr btree_set" where
  "can_finish_loop ts can_finish =
     (let (grown, grew) = grow_sweep ts can_finish in
      if grew then can_finish_loop ts grown else grown)"
  by pat_completeness auto

termination
proof (relation "measure (\<lambda>(ts, cf). card (trans_from ` set ts - set cf))")
  show "wf (measure (\<lambda>(ts :: ceremony_transition list, cf :: rstr list).
      card (trans_from ` set ts - set cf)))" by simp
next
  fix ts :: "ceremony_transition list" and cf grown :: "rstr list" and grew x
  assume x: "x = grow_sweep ts cf" "(grown, grew) = x" and grew: "grew"
  have "set cf \<subset> set grown" "set grown \<subseteq> set cf \<union> trans_from ` set ts"
    using grow_sweep_facts [of cf ts] grew x
    by (metis fst_conv psubsetI snd_conv, metis fst_conv)
  then have "trans_from ` set ts - set grown \<subset> trans_from ` set ts - set cf" by auto
  then show "((ts, grown), (ts, cf))
      \<in> measure (\<lambda>(ts, cf). card (trans_from ` set ts - set cf))"
    by (simp add: psubset_card_mono)
qed

declare can_finish_loop.simps [simp del]

definition states_that_reach_a_terminal :: "ceremony_definition_parts \<Rightarrow> rstr btree_set" where
  "states_that_reach_a_terminal p =
     can_finish_loop (parts_transitions p)
       (bset_of (map fst (filter (\<lambda>(_, s). CeremonyState_is_terminal s) (parts_states p))))"

definition sole_initial_state_id :: "ceremony_definition_parts \<Rightarrow> rstr option" where
  "sole_initial_state_id p =
     (case filter (\<lambda>(_, s). CeremonyState_is_initial s) (parts_states p) of
        [] \<Rightarrow> None
      | [(sid, _)] \<Rightarrow> Some sid
      | _ \<Rightarrow> None)"

definition transition_endpoints_resolve :: "ceremony_definition_parts \<Rightarrow> bool" where
  "transition_endpoints_resolve p =
     list_all (\<lambda>t. bt_contains_key (parts_states p) (trans_from t) \<and>
                   bt_contains_key (parts_states p) (trans_to t)) (parts_transitions p)"

definition collect_reachability_findings ::
    "ceremony_definition_parts \<Rightarrow> ceremony_validation_finding list" where
  "collect_reachability_findings p =
     (case sole_initial_state_id p of
        None \<Rightarrow> []
      | Some initial \<Rightarrow>
          if \<not> transition_endpoints_resolve p then []
          else if \<not> list_ex CeremonyState_is_terminal (bt_values (parts_states p)) then
            [CeremonyValidationFinding_warning Locus_Definition
               (InvariantViolated ''ceremony definition has no terminal state'')]
          else
            let reachable = states_reachable_from (parts_transitions p) initial;
                can_finish = states_that_reach_a_terminal p
            in concat (map (\<lambda>sid.
                 if sid \<notin> set reachable then
                   [CeremonyValidationFinding_warning (Locus_State sid)
                      (InvariantViolated ''ceremony state is unreachable from the initial state'')]
                 else if sid \<notin> set can_finish then
                   [CeremonyValidationFinding_warning (Locus_State sid)
                      (InvariantViolated ''no terminal state is reachable from this ceremony state'')]
                 else []) (bt_keys (parts_states p))))"

definition collect_findings :: "ceremony_definition_parts \<Rightarrow> ceremony_validation_finding list" where
  "collect_findings p =
     collect_initial_state_findings p @
     collect_transition_graph_findings p @
     collect_step_findings p @
     collect_guard_findings p @
     collect_role_findings p @
     collect_reachability_findings p"

section \<open>The loops compute reachability\<close>

lemma transition_edges_iff:
  "(a, b) \<in> transition_edges ts \<longleftrightarrow> (\<exists>t \<in> set ts. trans_from t = a \<and> trans_to t = b)"
  by (auto simp: transition_edges_def)

lemma reachable_loop_sound:
  "set (reachable_loop ts R P) \<subseteq> set R \<union> (transition_edges ts)\<^sup>* `` set P"
proof (induction ts R P rule: reachable_loop.induct)
  case (1 ts R)
  then show ?case by simp
next
  case (2 ts R c P)
  show ?case
  proof (cases "c \<in> set R")
    case True
    then show ?thesis using 2(1) [OF True] by auto
  next
    case False
    let ?push = "rev (map trans_to (filter (\<lambda>t. trans_from t = c) ts)) @ P"
    have push: "\<exists>q \<in> set (c # P). (q, x) \<in> (transition_edges ts)\<^sup>*" if "x \<in> set ?push" for x
    proof (cases "x \<in> set P")
      case True
      then show ?thesis by auto
    next
      case x: False
      then have "(c, x) \<in> transition_edges ts" using that by (auto simp: transition_edges_iff)
      then show ?thesis by auto
    qed
    have "(transition_edges ts)\<^sup>* `` set ?push \<subseteq> (transition_edges ts)\<^sup>* `` set (c # P)"
      using push by (meson ImageE ImageI rtrancl_trans subsetI)
    moreover have "c \<in> (transition_edges ts)\<^sup>* `` set (c # P)" by auto
    moreover have "set (reachable_loop ts R (c # P)) \<subseteq>
        insert c (set R) \<union> (transition_edges ts)\<^sup>* `` set ?push"
      using 2(2) [OF False] False by simp
    ultimately show ?thesis by blast
  qed
qed

lemma reachable_loop_complete:
  assumes "\<forall>a \<in> set R. \<forall>b. (a, b) \<in> transition_edges ts \<longrightarrow> b \<in> set R \<union> set P"
  shows "set R \<union> set P \<subseteq> set (reachable_loop ts R P) \<and>
    (\<forall>a \<in> set (reachable_loop ts R P). \<forall>b.
       (a, b) \<in> transition_edges ts \<longrightarrow> b \<in> set (reachable_loop ts R P))"
  using assms
proof (induction ts R P rule: reachable_loop.induct)
  case (1 ts R)
  then show ?case by simp
next
  case (2 ts R c P)
  show ?case
  proof (cases "c \<in> set R")
    case True
    then have "\<forall>a \<in> set R. \<forall>b. (a, b) \<in> transition_edges ts \<longrightarrow> b \<in> set R \<union> set P"
      using 2(3) by auto
    then show ?thesis using 2(1) [OF True] True by auto
  next
    case False
    let ?R = "bset_insert c R" and ?P = "rev (map trans_to (filter (\<lambda>t. trans_from t = c) ts)) @ P"
    have "\<forall>a \<in> set ?R. \<forall>b. (a, b) \<in> transition_edges ts \<longrightarrow> b \<in> set ?R \<union> set ?P"
      using 2(3) by (auto simp: transition_edges_iff)
    then show ?thesis using 2(2) [OF False] False by auto
  qed
qed

lemma closed_rtrancl:
  "\<lbrakk>(a, b) \<in> E\<^sup>*; a \<in> S; \<forall>x \<in> S. \<forall>y. (x, y) \<in> E \<longrightarrow> y \<in> S\<rbrakk> \<Longrightarrow> b \<in> S"
  by (induction rule: rtrancl_induct) auto

lemma set_reachable_from:
  "set (states_reachable_from ts i) = {s. (i, s) \<in> (transition_edges ts)\<^sup>*}"
proof (rule subset_antisym)
  show "set (states_reachable_from ts i) \<subseteq> {s. (i, s) \<in> (transition_edges ts)\<^sup>*}"
    using reachable_loop_sound [of ts "[]" "[i]"] by (auto simp: states_reachable_from_def)
next
  show "{s. (i, s) \<in> (transition_edges ts)\<^sup>*} \<subseteq> set (states_reachable_from ts i)"
  proof
    fix s assume "s \<in> {s. (i, s) \<in> (transition_edges ts)\<^sup>*}"
    then have "(i, s) \<in> (transition_edges ts)\<^sup>*" by simp
    then show "s \<in> set (states_reachable_from ts i)"
      using reachable_loop_complete [of "[]" ts "[i]"]
      by (rule_tac closed_rtrancl) (auto simp: states_reachable_from_def)
  qed
qed

lemma grow_sweep_sound:
  "set (fst (grow_sweep ts cf)) \<subseteq> {s. \<exists>t \<in> set cf. (s, t) \<in> (transition_edges us)\<^sup>*}"
  if "set ts \<subseteq> set us"
  using that
proof (induction ts arbitrary: cf)
  case Nil
  then show ?case by auto
next
  case (Cons t ts)
  have edge: "(trans_from t, trans_to t) \<in> transition_edges us"
    using Cons.prems by (auto simp: transition_edges_iff)
  have sub: "set ts \<subseteq> set us" using Cons.prems by simp
  have step: "\<exists>u \<in> set cf. (s, u) \<in> (transition_edges us)\<^sup>*"
    if "trans_to t \<in> set cf" and "(s, trans_from t) \<in> (transition_edges us)\<^sup>*" for s
    using that edge by (meson rtrancl.rtrancl_into_rtrancl)
  show ?case
    using Cons.IH [OF sub, of "bset_insert (trans_from t) cf"] Cons.IH [OF sub, of cf] step
    by auto
qed

lemma can_finish_loop_facts:
  "set cf \<subseteq> set (can_finish_loop ts cf) \<and>
   set (can_finish_loop ts cf) \<subseteq> {s. \<exists>t \<in> set cf. (s, t) \<in> (transition_edges ts)\<^sup>*} \<and>
   (\<forall>t \<in> set ts. trans_to t \<in> set (can_finish_loop ts cf)
      \<longrightarrow> trans_from t \<in> set (can_finish_loop ts cf))"
proof (induction ts cf rule: can_finish_loop.induct)
  case (1 ts cf)
  obtain grown grew where g: "grow_sweep ts cf = (grown, grew)" by (cases "grow_sweep ts cf")
  note facts = grow_sweep_facts [of cf ts, unfolded g fst_conv snd_conv]
  note sound = grow_sweep_sound [of ts ts cf, unfolded g fst_conv, OF order_refl]
  show ?case
  proof (cases grew)
    case True
    then have step: "can_finish_loop ts cf = can_finish_loop ts grown"
      by (subst can_finish_loop.simps) (simp add: g)
    note IH = 1 [OF g [symmetric] refl True]
    have "{s. \<exists>t \<in> set grown. (s, t) \<in> (transition_edges ts)\<^sup>*}
        \<subseteq> {s. \<exists>t \<in> set cf. (s, t) \<in> (transition_edges ts)\<^sup>*}"
      using sound by (blast intro: rtrancl_trans)
    then show ?thesis unfolding step using IH facts by blast
  next
    case False
    then have step: "can_finish_loop ts cf = cf" using facts
      by (subst can_finish_loop.simps) (simp add: g)
    show ?thesis unfolding step using facts False by auto
  qed
qed

lemma set_reach_a_terminal:
  "set (states_that_reach_a_terminal p) =
     {s. \<exists>t z. (t, z) \<in> set (parts_states p) \<and> CeremonyState_is_terminal z \<and>
        (s, t) \<in> (transition_edges (parts_transitions p))\<^sup>*}" (is "?L = ?R")
proof -
  let ?ts = "parts_transitions p"
  let ?cf = "bset_of (map fst (filter (\<lambda>(_, s). CeremonyState_is_terminal s) (parts_states p)))"
  note facts = can_finish_loop_facts [of ?cf ?ts]
  have L: "?L = set (can_finish_loop ?ts ?cf)" by (simp add: states_that_reach_a_terminal_def)
  have cf: "t \<in> set ?cf \<longleftrightarrow> (\<exists>z. (t, z) \<in> set (parts_states p) \<and> CeremonyState_is_terminal z)"
    for t by force
  have backwards: "s \<in> set (can_finish_loop ?ts ?cf)"
    if "(s, t) \<in> (transition_edges ?ts)\<^sup>*" and "t \<in> set ?cf" for s t
    using that
  proof (induction rule: converse_rtrancl_induct)
    case base
    then show ?case using facts by blast
  next
    case (step y z)
    then show ?case using facts by (auto simp: transition_edges_iff)
  qed
  show ?thesis
  proof (rule subset_antisym)
    show "?L \<subseteq> ?R"
    proof
      fix s assume "s \<in> ?L"
      then obtain t where "t \<in> set ?cf" and st: "(s, t) \<in> (transition_edges ?ts)\<^sup>*"
        using facts unfolding L by blast
      then show "s \<in> ?R" using cf [of t] by blast
    qed
    show "?R \<subseteq> ?L"
    proof
      fix s assume "s \<in> ?R"
      then obtain t where "t \<in> set ?cf" and "(s, t) \<in> (transition_edges ?ts)\<^sup>*"
        unfolding cf by blast
      then show "s \<in> ?L" unfolding L using backwards by blast
    qed
  qed
qed

section \<open>No blocking finding means well-formed\<close>

definition parts_wf :: "ceremony_definition_parts \<Rightarrow> bool" where
  "parts_wf p =
     (length (filter CeremonyState_is_initial (bt_values (parts_states p))) = 1 \<and>
      (\<forall>t \<in> set (parts_transitions p).
         (\<exists>s. bt_get (parts_states p) (trans_from t) = Some s \<and> \<not> CeremonyState_is_terminal s) \<and>
         bt_contains_key (parts_states p) (trans_to t) \<and>
         (\<forall>g \<in> set (trans_required_guards t). bt_contains_key (parts_guards p) g)) \<and>
      distinct (map (\<lambda>t. (trans_from t, trans_trigger t)) (parts_transitions p)) \<and>
      (\<forall>step \<in> snd ` set (parts_steps p).
         \<exists>s. bt_get (parts_states p) (step_state_id step) = Some s \<and> \<not> CeremonyState_is_terminal s) \<and>
      (\<forall>guard \<in> snd ` set (parts_guards p).
         \<forall>sid. GuardCondition_referenced_step_id (guard_condition guard) = Some sid
           \<longrightarrow> bt_contains_key (parts_steps p) sid) \<and>
      (\<forall>role \<in> snd ` set (parts_roles p). \<forall>a \<in> set (role_allowed_actions role).
         (\<forall>sid. RoleAction_step_id a = Some sid \<longrightarrow> bt_contains_key (parts_steps p) sid) \<and>
         (\<forall>tr. RoleAction_transition_trigger a = Some tr
            \<longrightarrow> tr \<in> trans_trigger ` set (parts_transitions p))))"

lemma blocking_simps [simp]:
  "CeremonyValidationFinding_is_blocking (CeremonyValidationFinding_error l d)"
  "\<not> CeremonyValidationFinding_is_blocking (CeremonyValidationFinding_warning l d)"
  by (simp_all add: CeremonyValidationFinding_is_blocking_def CeremonyValidationFinding_error_def
      CeremonyValidationFinding_warning_def)

lemma is_valid_iff:
  "CeremonyValidationReport_is_valid r \<longleftrightarrow> (\<forall>f \<in> set r. \<not> CeremonyValidationFinding_is_blocking f)"
  by (simp add: CeremonyValidationReport_is_valid_def CeremonyValidationReport_first_error_def
      find_None_iff')

lemma is_valid_append [simp]:
  "CeremonyValidationReport_is_valid (r @ s) \<longleftrightarrow>
     CeremonyValidationReport_is_valid r \<and> CeremonyValidationReport_is_valid s"
  by (auto simp: is_valid_iff)

lemma valid_initial_iff:
  "CeremonyValidationReport_is_valid (collect_initial_state_findings p) \<longleftrightarrow>
     length (filter CeremonyState_is_initial (bt_values (parts_states p))) = 1"
  by (auto simp: is_valid_iff collect_initial_state_findings_def)

lemma valid_transitions_iff:
  "CeremonyValidationReport_is_valid (transition_graph_findings p seen ts) \<longleftrightarrow>
     (\<forall>t \<in> set ts.
         (\<exists>s. bt_get (parts_states p) (trans_from t) = Some s \<and> \<not> CeremonyState_is_terminal s) \<and>
         bt_contains_key (parts_states p) (trans_to t) \<and>
         (\<forall>g \<in> set (trans_required_guards t). bt_contains_key (parts_guards p) g)) \<and>
     distinct (map (\<lambda>t. (trans_from t, trans_trigger t)) ts) \<and>
     (\<lambda>t. (trans_from t, trans_trigger t)) ` set ts \<inter> set seen = {}"
proof (induction ts arbitrary: seen)
  case Nil
  then show ?case by (simp add: is_valid_iff)
next
  case (Cons t ts)
  have err: "\<not> CeremonyValidationReport_is_valid (CeremonyValidationFinding_error l d # r)" for l d r
    by (simp add: is_valid_iff)
  have guards: "CeremonyValidationReport_is_valid
      (map (\<lambda>_. CeremonyValidationFinding_error l d) (filter (\<lambda>g. \<not> P g) gs)) \<longleftrightarrow> (\<forall>g \<in> set gs. P g)"
    for l d P and gs :: "rstr list"
    by (auto simp: is_valid_iff)
  show ?case
  proof (cases "bt_get (parts_states p) (trans_from t)")
    case None
    then show ?thesis by (simp add: err)
  next
    case (Some s)
    then show ?thesis using Cons.IH by (auto simp: err guards Let_def)
  qed
qed

lemma valid_concat_map:
  "CeremonyValidationReport_is_valid (concat (map f xs)) \<longleftrightarrow>
     (\<forall>x \<in> set xs. CeremonyValidationReport_is_valid (f x))"
  by (auto simp: is_valid_iff)

lemma valid_singleton [simp]:
  "\<not> CeremonyValidationReport_is_valid [CeremonyValidationFinding_error l d]"
  "CeremonyValidationReport_is_valid []"
  by (simp_all add: is_valid_iff)

lemma valid_steps_iff:
  "CeremonyValidationReport_is_valid (collect_step_findings p) \<longleftrightarrow>
     (\<forall>step \<in> snd ` set (parts_steps p).
         \<exists>s. bt_get (parts_states p) (step_state_id step) = Some s \<and> \<not> CeremonyState_is_terminal s)"
  by (fastforce simp: collect_step_findings_def valid_concat_map split: option.splits if_splits)

lemma valid_guards_iff:
  "CeremonyValidationReport_is_valid (collect_guard_findings p) \<longleftrightarrow>
     (\<forall>guard \<in> snd ` set (parts_guards p).
         \<forall>sid. GuardCondition_referenced_step_id (guard_condition guard) = Some sid
           \<longrightarrow> bt_contains_key (parts_steps p) sid)"
  by (fastforce simp: collect_guard_findings_def valid_concat_map split: option.splits if_splits)

lemma valid_roles_iff:
  "CeremonyValidationReport_is_valid (collect_role_findings p) \<longleftrightarrow>
     (\<forall>role \<in> snd ` set (parts_roles p). \<forall>a \<in> set (role_allowed_actions role).
         (\<forall>sid. RoleAction_step_id a = Some sid \<longrightarrow> bt_contains_key (parts_steps p) sid) \<and>
         (\<forall>tr. RoleAction_transition_trigger a = Some tr
            \<longrightarrow> tr \<in> trans_trigger ` set (parts_transitions p)))"
proof -
  have act: "CeremonyValidationReport_is_valid
      (case x of None \<Rightarrow> [] | Some v \<Rightarrow> if \<not> P v then [CeremonyValidationFinding_error l d] else []) \<longleftrightarrow>
      (\<forall>v. x = Some v \<longrightarrow> P v)" for x :: "rstr option" and P l d
    by (auto split: option.splits)
  show ?thesis
    by (simp add: collect_role_findings_def Let_def valid_concat_map act case_prod_beta)
qed

lemma valid_reachability:
  "CeremonyValidationReport_is_valid (collect_reachability_findings p)"
  by (auto simp: is_valid_iff collect_reachability_findings_def Let_def
      split: option.splits if_splits)

lemma collect_findings_valid_iff:
  "CeremonyValidationReport_is_valid (collect_findings p) \<longleftrightarrow> parts_wf p"
  by (simp add: collect_findings_def collect_transition_graph_findings_def parts_wf_def
      valid_initial_iff valid_transitions_iff valid_steps_iff valid_guards_iff valid_roles_iff
      valid_reachability conj_assoc)

section \<open>Properties\<close>

text \<open>
  C33. The two graph loops of the analysis terminate with the right answer: the worklist
  returns exactly the states some sequence of declared transitions leads to, and the
  growing set is exactly the states from which some sequence leads to a terminal state.
\<close>

theorem reachability_exact:
  "set (states_reachable_from ts initial) = {s. (initial, s) \<in> (transition_edges ts)\<^sup>*} \<and>
   set (states_that_reach_a_terminal p) =
     {s. \<exists>t z. (t, z) \<in> set (parts_states p) \<and> CeremonyState_is_terminal z \<and>
        (s, t) \<in> (transition_edges (parts_transitions p))\<^sup>*}"
  using set_reachable_from set_reach_a_terminal by blast

text \<open>
  A report has no error exactly when the parts are well-formed: one initial state, every
  transition between declared states and out of a non-terminal one, a state and a trigger
  determine the transition, every guard, step and trigger that is named is declared, and
  no step belongs to a terminal state.
\<close>

theorem analysis_valid_iff_wf:
  "CeremonyValidationReport_is_valid (collect_findings p) \<longleftrightarrow> parts_wf p"
  by (rule collect_findings_valid_iff)

lemma wf_sole_initial:
  assumes "parts_wf p" and "bt_wf (parts_states p)"
  obtains i where "sole_initial_state_id p = Some i" and "transition_endpoints_resolve p"
    and "\<exists>s. (i, s) \<in> set (parts_states p) \<and> CeremonyState_is_initial s"
proof -
  let ?f = "filter (\<lambda>(_, s). CeremonyState_is_initial s) (parts_states p)"
  have "length ?f = length (filter CeremonyState_is_initial (bt_values (parts_states p)))"
    by (simp add: filter_map case_prod_unfold comp_def)
  then have "length ?f = 1" using assms(1) by (simp add: parts_wf_def)
  then obtain i s where f: "?f = [(i, s)]"
    by (metis One_nat_def Suc_length_conv length_0_conv surj_pair)
  then have "(i, s) \<in> set ?f" by simp
  then have "(i, s) \<in> set (parts_states p) \<and> CeremonyState_is_initial s" by simp
  moreover have "transition_endpoints_resolve p"
    using assms(1) by (fastforce simp: transition_endpoints_resolve_def parts_wf_def list_all_iff
        bt_contains_key_def)
  moreover have "sole_initial_state_id p = Some i" by (simp add: sole_initial_state_id_def f)
  ultimately show thesis using that by blast
qed

lemma warnings_are_reachability:
  "parts_wf p \<Longrightarrow>
     CeremonyValidationReport_warnings (collect_findings p) = collect_reachability_findings p"
proof -
  assume "parts_wf p"
  then have no_err: "f \<in> set (collect_findings p) \<Longrightarrow> \<not> CeremonyValidationFinding_is_blocking f" for f
    by (simp add: is_valid_iff flip: collect_findings_valid_iff)
  have errs: "CeremonyValidationFinding_is_blocking f"
    if "f \<in> set (collect_initial_state_findings p @ collect_transition_graph_findings p @
        collect_step_findings p @ collect_guard_findings p @ collect_role_findings p)" for f
  proof -
    have tr: "f \<in> set (transition_graph_findings p seen ts) \<Longrightarrow>
        CeremonyValidationFinding_is_blocking f" for seen ts
      by (induction ts arbitrary: seen) (auto simp: Let_def split: option.splits if_splits)
    show ?thesis using that tr
      by (auto simp: collect_initial_state_findings_def collect_transition_graph_findings_def
          collect_step_findings_def collect_guard_findings_def collect_role_findings_def Let_def
          split: option.splits if_splits)
  qed
  have "collect_findings p = collect_reachability_findings p"
    using errs no_err unfolding collect_findings_def
    by (metis (no_types, lifting) Un_iff append_is_Nil_conv append_Nil last_in_set set_append)
  then show ?thesis
    using no_err by (simp add: CeremonyValidationReport_warnings_def)
qed

text \<open>
  On a well-formed definition that declares a terminal state, the warnings are exact: a
  state is reported unreachable precisely when no sequence of transitions leads to it from
  the initial state, and reported as a dead end precisely when it can be reached but no
  terminal state can be reached from it.
\<close>

theorem warnings_exact:
  assumes "parts_wf p" and "bt_wf (parts_states p)"
    and "\<exists>(k, z) \<in> set (parts_states p). CeremonyState_is_terminal z"
    and "(initial, s) \<in> set (parts_states p)" and "CeremonyState_is_initial s"
    and "sid \<in> fst ` set (parts_states p)"
  shows "(CeremonyValidationFinding_warning (Locus_State sid)
            (InvariantViolated ''ceremony state is unreachable from the initial state'')
          \<in> set (CeremonyValidationReport_warnings (collect_findings p)) \<longleftrightarrow>
          (initial, sid) \<notin> (transition_edges (parts_transitions p))\<^sup>*) \<and>
    (CeremonyValidationFinding_warning (Locus_State sid)
            (InvariantViolated ''no terminal state is reachable from this ceremony state'')
          \<in> set (CeremonyValidationReport_warnings (collect_findings p)) \<longleftrightarrow>
          (initial, sid) \<in> (transition_edges (parts_transitions p))\<^sup>* \<and>
          (\<forall>(k, z) \<in> set (parts_states p). CeremonyState_is_terminal z \<longrightarrow>
             (sid, k) \<notin> (transition_edges (parts_transitions p))\<^sup>*))"
proof -
  obtain i s' where i: "sole_initial_state_id p = Some i" "transition_endpoints_resolve p"
    and s': "(i, s') \<in> set (parts_states p)" "CeremonyState_is_initial s'"
    using wf_sole_initial [OF assms(1,2)] by blast
  have "i = initial"
  proof -
    have "(initial, s) \<in> set (filter (\<lambda>(_, s). CeremonyState_is_initial s) (parts_states p))"
      using assms(4,5) by simp
    then show ?thesis using i(1)
      by (auto simp: sole_initial_state_id_def simp del: set_filter split: list.splits)
  qed
  moreover have "list_ex CeremonyState_is_terminal (bt_values (parts_states p))"
    using assms(3) by (force simp: list_ex_iff)
  ultimately have findings: "collect_reachability_findings p =
      concat (map (\<lambda>sid.
        if sid \<notin> set (states_reachable_from (parts_transitions p) initial) then
          [CeremonyValidationFinding_warning (Locus_State sid)
             (InvariantViolated ''ceremony state is unreachable from the initial state'')]
        else if sid \<notin> set (states_that_reach_a_terminal p) then
          [CeremonyValidationFinding_warning (Locus_State sid)
             (InvariantViolated ''no terminal state is reachable from this ceremony state'')]
        else []) (bt_keys (parts_states p)))"
    using i by (simp add: collect_reachability_findings_def Let_def)
  show ?thesis
    unfolding warnings_are_reachability [OF assms(1)] findings set_reachable_from
      set_reach_a_terminal
    using assms(6)
    by (auto simp: CeremonyValidationFinding_warning_def split: if_splits)
qed

definition three_states :: ceremony_definition_parts where
  "three_states =
     \<lparr>parts_states = [(lit ''a'', \<lparr>state_id = lit ''a'', state_kind = Initial\<rparr>),
                      (lit ''b'', \<lparr>state_id = lit ''b'', state_kind = Terminal\<rparr>),
                      (lit ''c'', \<lparr>state_id = lit ''c'', state_kind = Intermediate\<rparr>)],
      parts_transitions = [\<lparr>trans_from = lit ''a'', trans_to = lit ''b'', trans_trigger = lit ''go'',
                            trans_required_guards = []\<rparr>],
      parts_steps = [], parts_guards = [], parts_roles = []\<rparr>"

lemma three_states_wf: "parts_wf three_states \<and> bt_wf (parts_states three_states)"
  by (simp add: three_states_def parts_wf_def CeremonyState_is_initial_def
      CeremonyState_is_terminal_def bt_contains_key_def lit_def)

theorem warnings_exact_witness:
  "CeremonyValidationFinding_warning (Locus_State (lit ''c''))
     (InvariantViolated ''ceremony state is unreachable from the initial state'')
   \<in> set (CeremonyValidationReport_warnings (collect_findings three_states))"
proof -
  have "lit ''c'' \<notin> set (states_reachable_from (parts_transitions three_states) (lit ''a''))"
    by (simp add: three_states_def states_reachable_from_def bset_insert_def lit_def)
  then have no: "(lit ''a'', lit ''c'') \<notin> (transition_edges (parts_transitions three_states))\<^sup>*"
    by (simp add: set_reachable_from)
  have ex: "\<exists>(k, z) \<in> set (parts_states three_states). CeremonyState_is_terminal z"
    by (simp add: three_states_def CeremonyState_is_terminal_def)
  have init: "(lit ''a'', \<lparr>state_id = lit ''a'', state_kind = Initial\<rparr>) \<in> set (parts_states three_states)"
    "CeremonyState_is_initial \<lparr>state_id = lit ''a'', state_kind = Initial\<rparr>"
    by (simp_all add: three_states_def CeremonyState_is_initial_def)
  have c: "lit ''c'' \<in> fst ` set (parts_states three_states)"
    by (simp add: three_states_def)
  show ?thesis
    using warnings_exact [OF three_states_wf [THEN conjunct1] three_states_wf [THEN conjunct2] ex init c] no
    by blast
qed

end
