(* ===== verification/Ceremony_Definition.thy ===== *)
theory Ceremony_Definition
  imports Ceremony_Analysis
begin

text \<open>
  The aggregate a session runs (\<open>entities/ceremony_definition.rs\<close>) and the draft it is
  published from (\<open>entities/ceremony_definition_draft.rs\<close>).  The constructor indexes the six
  collections, refusing duplicates, and then runs the analysis of
  \<open>Ceremony_Analysis\<close>; the draft reports everything wrong at once.  Shown here: a definition
  that exists is well-formed, so the two \<open>expect\<close> calls of the source (no initial state, a
  step order naming no step) cannot fire; publishing a draft fails exactly when its report
  has an error, with the first error of the report.
\<close>

section \<open>The aggregate\<close>

record ceremony_definition =
  def_name :: rstr
  def_version :: rstr
  def_description :: "rstr option"
  def_inputs :: "(rstr, ceremony_input_definition) btree_map"
  def_outputs :: "(rstr, ceremony_output_definition) btree_map"
  def_states :: "(rstr, ceremony_state) btree_map"
  def_transitions :: "ceremony_transition list"
  def_steps :: "(rstr, ceremony_step) btree_map"
  def_step_order :: "rstr list"
  def_guards :: "(rstr, ceremony_guard) btree_map"
  def_roles :: "(rstr, ceremony_role) btree_map"

definition CeremonyDefinition_parts :: "ceremony_definition \<Rightarrow> ceremony_definition_parts" where
  "CeremonyDefinition_parts d =
     \<lparr>parts_states = def_states d, parts_transitions = def_transitions d,
      parts_steps = def_steps d, parts_guards = def_guards d, parts_roles = def_roles d\<rparr>"

definition CeremonyDefinition_analyze :: "ceremony_definition \<Rightarrow> ceremony_validation_report" where
  "CeremonyDefinition_analyze d = collect_findings (CeremonyDefinition_parts d)"

definition CeremonyDefinition_validate :: "ceremony_definition \<Rightarrow> unit outcome" where
  "CeremonyDefinition_validate d =
     (case CeremonyValidationReport_first_error (CeremonyDefinition_analyze d) of
        Some finding \<Rightarrow> Inl (finding_defect finding)
      | None \<Rightarrow> Inr ())"

text \<open>
  The loop the five \<open>collect_*\<close> functions share: insert under the item's own key, stop at
  the first key that was there already.
\<close>

fun collect_keyed ::
    "string \<Rightarrow> ('a \<Rightarrow> 'k::linorder) \<Rightarrow> ('k, 'a) btree_map \<Rightarrow> 'a list \<Rightarrow> ('k, 'a) btree_map outcome" where
  "collect_keyed what key m [] = Inr m"
| "collect_keyed what key m (x # xs) =
     (if bt_contains_key m (key x) then Inl (AlreadyExists what)
      else collect_keyed what key (bt_insert (key x) x m) xs)"

definition collect_inputs ::
    "ceremony_input_definition list \<Rightarrow> (rstr, ceremony_input_definition) btree_map outcome" where
  "collect_inputs inputs = collect_keyed ''ceremony_input'' input_name [] inputs"

definition collect_outputs ::
    "ceremony_output_definition list \<Rightarrow> (rstr, ceremony_output_definition) btree_map outcome" where
  "collect_outputs outputs = collect_keyed ''ceremony_output'' output_name [] outputs"

definition collect_states ::
    "ceremony_state list \<Rightarrow> (rstr, ceremony_state) btree_map outcome" where
  "collect_states states = collect_keyed ''ceremony_state'' state_id [] states"

fun collect_steps_loop ::
    "(rstr, ceremony_step) btree_map \<Rightarrow> rstr list \<Rightarrow> ceremony_step list
      \<Rightarrow> ((rstr, ceremony_step) btree_map \<times> rstr list) outcome" where
  "collect_steps_loop m order [] = Inr (m, order)"
| "collect_steps_loop m order (step # steps) =
     (if bt_contains_key m (step_id step) then Inl (AlreadyExists ''ceremony_step'')
      else collect_steps_loop (bt_insert (step_id step) step m) (order @ [step_id step]) steps)"

definition collect_steps ::
    "ceremony_step list \<Rightarrow> ((rstr, ceremony_step) btree_map \<times> rstr list) outcome" where
  "collect_steps steps = collect_steps_loop [] [] steps"

definition collect_guards ::
    "ceremony_guard list \<Rightarrow> (rstr, ceremony_guard) btree_map outcome" where
  "collect_guards guards = collect_keyed ''ceremony_guard'' guard_name [] guards"

definition collect_roles ::
    "ceremony_role list \<Rightarrow> (rstr, ceremony_role) btree_map outcome" where
  "collect_roles roles = collect_keyed ''ceremony_role'' role_id [] roles"

definition CeremonyDefinition_new ::
    "rstr \<Rightarrow> rstr \<Rightarrow> rstr option \<Rightarrow> ceremony_input_definition list \<Rightarrow> ceremony_output_definition list
      \<Rightarrow> ceremony_state list \<Rightarrow> ceremony_transition list \<Rightarrow> ceremony_step list
      \<Rightarrow> ceremony_guard list \<Rightarrow> ceremony_role list \<Rightarrow> ceremony_definition outcome" where
  "CeremonyDefinition_new name version description inputs outputs states transitions steps guards roles =
     and_then (collect_inputs inputs) (\<lambda>ins.
     and_then (collect_outputs outputs) (\<lambda>outs.
     and_then (collect_states states) (\<lambda>sts.
     and_then (collect_steps steps) (\<lambda>(stps, order).
     and_then (collect_guards guards) (\<lambda>gds.
     and_then (collect_roles roles) (\<lambda>rls.
     let d = \<lparr>def_name = name, def_version = version, def_description = description,
              def_inputs = ins, def_outputs = outs, def_states = sts,
              def_transitions = transitions, def_steps = stps, def_step_order = order,
              def_guards = gds, def_roles = rls\<rparr>
     in and_then (CeremonyDefinition_validate d) (\<lambda>_. Inr d)))))))"

section \<open>Queries\<close>

text \<open>\<open>None\<close> is the panic of the \<open>expect\<close>.\<close>

definition CeremonyDefinition_steps_in_declaration_order ::
    "ceremony_definition \<Rightarrow> ceremony_step list option" where
  "CeremonyDefinition_steps_in_declaration_order d = those (map (bt_get (def_steps d)) (def_step_order d))"

definition CeremonyDefinition_initial_state_id :: "ceremony_definition \<Rightarrow> rstr option" where
  "CeremonyDefinition_initial_state_id d =
     map_option state_id (find CeremonyState_is_initial (bt_values (def_states d)))"

definition CeremonyDefinition_steps_for_state ::
    "ceremony_definition \<Rightarrow> rstr \<Rightarrow> ceremony_step list option" where
  "CeremonyDefinition_steps_for_state d sid =
     map_option (filter (\<lambda>step. step_state_id step = sid))
       (CeremonyDefinition_steps_in_declaration_order d)"

definition CeremonyDefinition_is_terminal_state :: "ceremony_definition \<Rightarrow> rstr \<Rightarrow> bool" where
  "CeremonyDefinition_is_terminal_state d sid =
     (case bt_get (def_states d) sid of None \<Rightarrow> False | Some s \<Rightarrow> CeremonyState_is_terminal s)"

definition CeremonyDefinition_transition_for_trigger ::
    "ceremony_definition \<Rightarrow> rstr \<Rightarrow> rstr \<Rightarrow> ceremony_transition option" where
  "CeremonyDefinition_transition_for_trigger d sid trigger =
     find (\<lambda>t. trans_from t = sid \<and> trans_trigger t = trigger) (def_transitions d)"

definition CeremonyDefinition_available_transitions ::
    "ceremony_definition \<Rightarrow> rstr \<Rightarrow> ceremony_transition list" where
  "CeremonyDefinition_available_transitions d sid =
     filter (\<lambda>t. trans_from t = sid) (def_transitions d)"

definition CeremonyDefinition_role_allows ::
    "ceremony_definition \<Rightarrow> rstr \<Rightarrow> role_action \<Rightarrow> bool" where
  "CeremonyDefinition_role_allows d rid action =
     (case bt_get (def_roles d) rid of None \<Rightarrow> False | Some role \<Rightarrow> CeremonyRole_allows role action)"

definition CeremonyDefinition_guards_are_satisfied ::
    "ceremony_definition \<Rightarrow> ceremony_transition \<Rightarrow> step_records \<Rightarrow> ceremony_context \<Rightarrow> bool" where
  "CeremonyDefinition_guards_are_satisfied d t records ctx =
     list_all (\<lambda>g. case bt_get (def_guards d) g of
                     None \<Rightarrow> False
                   | Some guard \<Rightarrow> CeremonyGuard_is_satisfied guard records ctx)
       (trans_required_guards t)"

definition CeremonyDefinition_role_for_action ::
    "ceremony_definition \<Rightarrow> role_action \<Rightarrow> ceremony_role option" where
  "CeremonyDefinition_role_for_action d action =
     find (\<lambda>role. CeremonyRole_allows role action) (bt_values (def_roles d))"

definition CeremonyDefinition_role_id_for_step ::
    "ceremony_definition \<Rightarrow> rstr \<Rightarrow> rstr outcome" where
  "CeremonyDefinition_role_id_for_step d sid =
     ok_or (map_option role_id (CeremonyDefinition_role_for_action d (Act_Step sid)))
       (InvariantViolated ''no ceremony role can execute step'')"

definition CeremonyDefinition_role_id_for_transition ::
    "ceremony_definition \<Rightarrow> rstr \<Rightarrow> rstr outcome" where
  "CeremonyDefinition_role_id_for_transition d trigger =
     ok_or (map_option role_id (CeremonyDefinition_role_for_action d (Act_Transition trigger)))
       (InvariantViolated ''no ceremony role can apply transition'')"

definition CeremonyDefinition_next_satisfied_transition ::
    "ceremony_definition \<Rightarrow> rstr \<Rightarrow> step_records \<Rightarrow> ceremony_context \<Rightarrow> ceremony_transition option" where
  "CeremonyDefinition_next_satisfied_transition d sid records ctx =
     find (\<lambda>t. CeremonyDefinition_guards_are_satisfied d t records ctx)
       (CeremonyDefinition_available_transitions d sid)"

section \<open>Drafts\<close>

record ceremony_definition_draft =
  draft_name :: rstr
  draft_version :: rstr
  draft_description :: "rstr option"
  draft_inputs :: "ceremony_input_definition list"
  draft_outputs :: "ceremony_output_definition list"
  draft_states :: "ceremony_state list"
  draft_transitions :: "ceremony_transition list"
  draft_steps :: "ceremony_step list"
  draft_guards :: "ceremony_guard list"
  draft_roles :: "ceremony_role list"

fun index_loop ::
    "('a \<Rightarrow> 'k::linorder) \<Rightarrow> ('k, 'a) btree_map \<Rightarrow> 'k list \<Rightarrow> 'a list \<Rightarrow> ('k, 'a) btree_map \<times> 'k list" where
  "index_loop key indexed duplicates [] = (indexed, duplicates)"
| "index_loop key indexed duplicates (x # xs) =
     (if bt_contains_key indexed (key x)
      then index_loop key indexed (duplicates @ [key x]) xs
      else index_loop key (bt_insert (key x) x indexed) duplicates xs)"

definition draft_index ::
    "'a list \<Rightarrow> ('a \<Rightarrow> 'k::linorder) \<Rightarrow> ('k, 'a) btree_map \<times> 'k list" where
  "draft_index items key = index_loop key [] [] items"

definition push_duplicates ::
    "'k list \<Rightarrow> string \<Rightarrow> ('k \<Rightarrow> ceremony_validation_locus) \<Rightarrow> ceremony_validation_finding list" where
  "push_duplicates duplicates what locus =
     map (\<lambda>key. CeremonyValidationFinding_error (locus key) (AlreadyExists what)) duplicates"

definition CeremonyDefinitionDraft_analyze ::
    "ceremony_definition_draft \<Rightarrow> ceremony_validation_report" where
  "CeremonyDefinitionDraft_analyze dr =
     (let (_, duplicate_inputs) = draft_index (draft_inputs dr) input_name;
          (_, duplicate_outputs) = draft_index (draft_outputs dr) output_name;
          (states, duplicate_states) = draft_index (draft_states dr) state_id;
          (steps, duplicate_steps) = draft_index (draft_steps dr) step_id;
          (guards, duplicate_guards) = draft_index (draft_guards dr) guard_name;
          (roles, duplicate_roles) = draft_index (draft_roles dr) role_id
      in push_duplicates duplicate_inputs ''ceremony_input'' Locus_Input @
         push_duplicates duplicate_outputs ''ceremony_output'' Locus_Output @
         push_duplicates duplicate_states ''ceremony_state'' Locus_State @
         push_duplicates duplicate_steps ''ceremony_step'' Locus_Step @
         push_duplicates duplicate_guards ''ceremony_guard'' Locus_Guard @
         push_duplicates duplicate_roles ''ceremony_role'' Locus_Role @
         collect_findings \<lparr>parts_states = states, parts_transitions = draft_transitions dr,
           parts_steps = steps, parts_guards = guards, parts_roles = roles\<rparr>)"

definition CeremonyDefinitionDraft_publish ::
    "ceremony_definition_draft \<Rightarrow> ceremony_definition outcome" where
  "CeremonyDefinitionDraft_publish dr =
     CeremonyDefinition_new (draft_name dr) (draft_version dr) (draft_description dr)
       (draft_inputs dr) (draft_outputs dr) (draft_states dr) (draft_transitions dr)
       (draft_steps dr) (draft_guards dr) (draft_roles dr)"

section \<open>Collecting by key\<close>

lemma index_loop_duplicates:
  "snd (index_loop key m ds xs) = ds @ snd (index_loop key m [] xs) \<and>
   fst (index_loop key m ds xs) = fst (index_loop key m [] xs)"
proof (induction xs arbitrary: m ds)
  case Nil
  show ?case by simp
next
  case (Cons x xs)
  show ?case
    using Cons.IH [of m "ds @ [key x]"] Cons.IH [of m "[key x]"]
      Cons.IH [of "bt_insert (key x) x m" ds] by simp
qed

lemma collect_keyed_index:
  "collect_keyed what key m xs =
     (if snd (index_loop key m [] xs) = [] then Inr (fst (index_loop key m [] xs))
      else Inl (AlreadyExists what))"
proof (induction xs arbitrary: m)
  case Nil
  show ?case by simp
next
  case (Cons x xs)
  have "snd (index_loop key m [key x] xs) \<noteq> []"
    using index_loop_duplicates [of key m "[key x]" xs] by simp
  then show ?case using Cons.IH by simp
qed

lemma collect_keyed_facts:
  assumes "bt_wf m" and "collect_keyed what key m xs = Inr n"
  shows "bt_wf n \<and> set n = set m \<union> (\<lambda>x. (key x, x)) ` set xs \<and>
    distinct (map key xs) \<and> fst ` set m \<inter> key ` set xs = {}"
  using assms
proof (induction xs arbitrary: m)
  case Nil
  then show ?case by simp
next
  case (Cons x xs)
  from Cons.prems have new: "key x \<notin> fst ` set m"
    and rest: "collect_keyed what key (bt_insert (key x) x m) xs = Inr n"
    by (auto simp: bt_contains_iff split: if_splits)
  have "set (bt_insert (key x) x m) = insert (key x, x) (set m)"
    using new Cons.prems(1) by (force simp: set_bt_insert)
  then show ?case using Cons.IH [OF _ rest] Cons.prems(1) new by auto
qed

lemma collect_keyed_empty:
  "collect_keyed what key [] xs = Inr m \<Longrightarrow>
     bt_wf m \<and> set m = (\<lambda>x. (key x, x)) ` set xs \<and> distinct (map key xs)"
  "collect_keyed what key [] xs =
     (if snd (draft_index xs key) = [] then Inr (fst (draft_index xs key))
      else Inl (AlreadyExists what))"
   apply (drule collect_keyed_facts [OF bt_wf_Nil], simp)
  apply (simp add: collect_keyed_index draft_index_def)
  done

definition keyed_by :: "('a \<Rightarrow> 'k) \<Rightarrow> ('k, 'a) btree_map \<Rightarrow> bool" where
  "keyed_by key m = (\<forall>(k, x) \<in> set m. key x = k)"

text \<open>What a client relies on: an index of everything, or the duplicate error.\<close>

locale keyed_collector =
  fixes collect :: "'a list \<Rightarrow> ('k::linorder, 'a) btree_map outcome"
    and key :: "'a \<Rightarrow> 'k"
    and what :: string
  assumes collect_indexes:
    "collect xs = Inr m \<Longrightarrow> bt_wf m \<and> set m = (\<lambda>x. (key x, x)) ` set xs \<and> distinct (map key xs)"
    and collect_index: "collect xs =
      (if snd (draft_index xs key) = [] then Inr (fst (draft_index xs key))
       else Inl (AlreadyExists what))"
begin

lemma collected_get: "collect xs = Inr m \<Longrightarrow> bt_get m k = Some x \<longleftrightarrow> x \<in> set xs \<and> key x = k"
  using collect_indexes [of xs m] by (auto simp: bt_get_iff)

lemma collected_wf: "collect xs = Inr m \<Longrightarrow> bt_wf m"
  using collect_indexes by blast

lemma collected_keyed: "collect xs = Inr m \<Longrightarrow> keyed_by key m"
  by (drule collect_indexes) (auto simp: keyed_by_def)

end

interpretation inputs: keyed_collector collect_inputs input_name "''ceremony_input''"
  by (unfold_locales, unfold collect_inputs_def) (rule collect_keyed_empty, assumption, rule collect_keyed_empty)

interpretation outputs: keyed_collector collect_outputs output_name "''ceremony_output''"
  by (unfold_locales, unfold collect_outputs_def) (rule collect_keyed_empty, assumption, rule collect_keyed_empty)

interpretation states: keyed_collector collect_states state_id "''ceremony_state''"
  by (unfold_locales, unfold collect_states_def) (rule collect_keyed_empty, assumption, rule collect_keyed_empty)

interpretation guards: keyed_collector collect_guards guard_name "''ceremony_guard''"
  by (unfold_locales, unfold collect_guards_def) (rule collect_keyed_empty, assumption, rule collect_keyed_empty)

interpretation roles: keyed_collector collect_roles role_id "''ceremony_role''"
  by (unfold_locales, unfold collect_roles_def) (rule collect_keyed_empty, assumption, rule collect_keyed_empty)

text \<open>The steps are collected the same way, with their declaration order on the side.\<close>

lemma collect_steps_loop_keyed:
  "collect_steps_loop m ord steps =
     map_ok (\<lambda>n. (n, ord @ map step_id steps)) (collect_keyed ''ceremony_step'' step_id m steps)"
  by (induction steps arbitrary: m ord) auto

lemma collect_steps_keyed:
  "collect_steps steps =
     map_ok (\<lambda>n. (n, map step_id steps)) (collect_keyed ''ceremony_step'' step_id [] steps)"
  by (simp add: collect_steps_def collect_steps_loop_keyed)

interpretation steps: keyed_collector "\<lambda>xs. map_ok fst (collect_steps xs)" step_id "''ceremony_step''"
proof unfold_locales
  have "map_ok fst (map_ok (\<lambda>n. (n, ord)) r) = r" for ord :: "rstr list" and r :: "(rstr, ceremony_step) btree_map outcome"
    by (cases r) simp_all
  then have eq: "map_ok fst (collect_steps xs) = collect_keyed ''ceremony_step'' step_id [] xs" for xs
    by (simp add: collect_steps_keyed)
  show "map_ok fst (collect_steps xs) = Inr m \<Longrightarrow>
      bt_wf m \<and> set m = (\<lambda>x. (step_id x, x)) ` set xs \<and> distinct (map step_id xs)" for xs m
    unfolding eq by (rule collect_keyed_empty)
  show "map_ok fst (collect_steps xs) =
      (if snd (draft_index xs step_id) = [] then Inr (fst (draft_index xs step_id))
       else Inl (AlreadyExists ''ceremony_step''))" for xs
    unfolding eq by (rule collect_keyed_empty)
qed

section \<open>A definition that exists is well-formed\<close>

definition definition_wf :: "ceremony_definition \<Rightarrow> bool" where
  "definition_wf d =
     (parts_wf (CeremonyDefinition_parts d) \<and>
      bt_wf (def_inputs d) \<and> bt_wf (def_outputs d) \<and> bt_wf (def_states d) \<and>
      bt_wf (def_steps d) \<and> bt_wf (def_guards d) \<and> bt_wf (def_roles d) \<and>
      keyed_by input_name (def_inputs d) \<and> keyed_by output_name (def_outputs d) \<and>
      keyed_by state_id (def_states d) \<and> keyed_by step_id (def_steps d) \<and>
      keyed_by guard_name (def_guards d) \<and> keyed_by role_id (def_roles d) \<and>
      distinct (def_step_order d) \<and> set (def_step_order d) = fst ` set (def_steps d))"

lemma keyed_by_get: "keyed_by key m \<Longrightarrow> bt_get m k = Some x \<Longrightarrow> key x = k"
  by (auto simp: keyed_by_def dest: map_of_SomeD)

lemma validate_ok_iff:
  "CeremonyDefinition_validate d = Inr u \<longleftrightarrow> parts_wf (CeremonyDefinition_parts d)"
  by (auto simp: CeremonyDefinition_validate_def CeremonyDefinition_analyze_def
      CeremonyValidationReport_is_valid_def simp flip: collect_findings_valid_iff
      split: option.splits)

lemma collect_steps_Inr:
  assumes "collect_steps stps = Inr (m, order)"
  shows "map_ok fst (collect_steps stps) = Inr m \<and> order = map step_id stps"
  using assms by (auto simp: collect_steps_keyed result_simps)

lemma CeremonyDefinition_new_wf:
  assumes "CeremonyDefinition_new n v de ins outs sts trs stps gds rls = Inr d"
  shows "definition_wf d"
    and "def_step_order d = map step_id stps"
    and "map_ok fst (collect_steps stps) = Inr (def_steps d)"
    and "collect_states sts = Inr (def_states d)"
proof -
  from assms obtain m order where
    i: "collect_inputs ins = Inr (def_inputs d)" and o': "collect_outputs outs = Inr (def_outputs d)"
    and s: "collect_states sts = Inr (def_states d)" and st: "collect_steps stps = Inr (m, order)"
    and m: "m = def_steps d" "order = def_step_order d"
    and g: "collect_guards gds = Inr (def_guards d)" and r: "collect_roles rls = Inr (def_roles d)"
    and wf: "CeremonyDefinition_validate d = Inr ()"
    by (auto simp: CeremonyDefinition_new_def Let_def result_simps)
  note st' = collect_steps_Inr [OF st, unfolded m]
  show order: "def_step_order d = map step_id stps" using st' by simp
  show steps: "map_ok fst (collect_steps stps) = Inr (def_steps d)" using st' by simp
  show "collect_states sts = Inr (def_states d)" by (rule s)
  have idx: "distinct (map step_id stps)" "set (def_steps d) = (\<lambda>x. (step_id x, x)) ` set stps"
    using steps.collect_indexes [OF steps] by auto
  have "distinct (def_step_order d)" unfolding order by (rule idx(1))
  moreover have "set (def_step_order d) = fst ` set (def_steps d)"
    by (simp only: order idx(2) image_image fst_conv set_map)
  moreover have "parts_wf (CeremonyDefinition_parts d)" using wf validate_ok_iff by blast
  ultimately show "definition_wf d"
    unfolding definition_wf_def
    using inputs.collected_wf [OF i] outputs.collected_wf [OF o'] states.collected_wf [OF s]
      steps.collected_wf [OF steps] guards.collected_wf [OF g] roles.collected_wf [OF r]
      inputs.collected_keyed [OF i] outputs.collected_keyed [OF o'] states.collected_keyed [OF s]
      steps.collected_keyed [OF steps] guards.collected_keyed [OF g] roles.collected_keyed [OF r]
    by (intro conjI)
qed

section \<open>What well-formedness gives the queries\<close>

lemma filter_length_one:
  "length (filter p xs) = 1 \<Longrightarrow> \<exists>x. filter p xs = [x] \<and> find p xs = Some x"
proof -
  assume "length (filter p xs) = 1"
  then obtain x where x: "filter p xs = [x]" by (metis One_nat_def length_0_conv length_Suc_conv)
  have "find p xs = (if filter p xs = [] then None else Some (hd (filter p xs)))"
    by (induction xs) auto
  with x show ?thesis by simp
qed

lemma wf_initial_state:
  assumes "definition_wf d"
  obtains sid s where "CeremonyDefinition_initial_state_id d = Some sid"
    and "bt_get (def_states d) sid = Some s" and "CeremonyState_is_initial s"
    and "\<forall>k z. bt_get (def_states d) k = Some z \<and> CeremonyState_is_initial z \<longrightarrow> k = sid"
proof -
  from assms have "length (filter CeremonyState_is_initial (bt_values (def_states d))) = 1"
    by (simp add: definition_wf_def parts_wf_def CeremonyDefinition_parts_def)
  then obtain s where s: "filter CeremonyState_is_initial (bt_values (def_states d)) = [s]"
    and f: "find CeremonyState_is_initial (bt_values (def_states d)) = Some s"
    using filter_length_one by blast
  have wf: "bt_wf (def_states d)" "keyed_by state_id (def_states d)"
    using assms by (simp_all add: definition_wf_def)
  from find_Some_set [OF f] obtain k where ks: "(k, s) \<in> set (def_states d)"
    and init: "CeremonyState_is_initial s" by auto
  have key: "state_id s = k" using ks wf(2) by (auto simp: keyed_by_def)
  have sole: "k' = k" if "bt_get (def_states d) k' = Some z" and "CeremonyState_is_initial z" for k' z
  proof -
    have "z \<in> set (filter CeremonyState_is_initial (bt_values (def_states d)))"
      using that map_of_SomeD [OF that(1)] by force
    then have "z = s" unfolding s by simp
    then show ?thesis using keyed_by_get [OF wf(2) that(1)] key by simp
  qed
  show thesis
  proof (rule that [of k s])
    show "CeremonyDefinition_initial_state_id d = Some k"
      by (simp add: CeremonyDefinition_initial_state_id_def f key)
    show "bt_get (def_states d) k = Some s" using ks wf(1) by (simp add: bt_get_iff)
  qed (use init sole in auto)
qed

lemma those_map_get:
  "(\<And>x. x \<in> set xs \<Longrightarrow> bt_get m (key x) = Some x) \<Longrightarrow> those (map (bt_get m) (map key xs)) = Some xs"
  by (induction xs) auto

lemma wf_transition_for_trigger:
  assumes "definition_wf d" and "CeremonyDefinition_transition_for_trigger d sid tr = Some t"
  shows "t \<in> set (def_transitions d) \<and> trans_from t = sid \<and> trans_trigger t = tr \<and>
    \<not> CeremonyDefinition_is_terminal_state d sid \<and> bt_contains_key (def_states d) (trans_to t)"
proof -
  have t: "t \<in> set (def_transitions d)" "trans_from t = sid" "trans_trigger t = tr"
    using find_Some_set [OF assms(2) [unfolded CeremonyDefinition_transition_for_trigger_def]] by auto
  then show ?thesis using assms(1)
    by (fastforce simp: definition_wf_def parts_wf_def CeremonyDefinition_parts_def
        CeremonyDefinition_is_terminal_state_def split: option.splits)
qed

lemma find_distinct_key:
  "\<lbrakk>distinct (map f xs); x \<in> set xs; \<And>y. P y \<longleftrightarrow> f y = f x\<rbrakk> \<Longrightarrow> find P xs = Some x"
  by (induction xs) (simp, metis (no_types, lifting) distinct.simps(2) find.simps(2) image_eqI
      list.set_map list.simps(9) set_ConsD)

lemma wf_declared_transition_found:
  assumes "definition_wf d" and "t \<in> set (def_transitions d)"
  shows "CeremonyDefinition_transition_for_trigger d (trans_from t) (trans_trigger t) = Some t"
  unfolding CeremonyDefinition_transition_for_trigger_def
  by (rule find_distinct_key [where f = "\<lambda>t. (trans_from t, trans_trigger t)"])
    (use assms in \<open>auto simp: definition_wf_def parts_wf_def CeremonyDefinition_parts_def\<close>)

lemma next_satisfied_facts:
  assumes "definition_wf d"
    and "CeremonyDefinition_next_satisfied_transition d sid records ctx = Some t"
  shows "CeremonyDefinition_transition_for_trigger d sid (trans_trigger t) = Some t \<and>
    CeremonyDefinition_guards_are_satisfied d t records ctx"
proof -
  have "t \<in> set (def_transitions d)" "trans_from t = sid"
    "CeremonyDefinition_guards_are_satisfied d t records ctx"
    using find_Some_set [OF assms(2) [unfolded CeremonyDefinition_next_satisfied_transition_def]]
    by (auto simp: CeremonyDefinition_available_transitions_def)
  then show ?thesis using wf_declared_transition_found [OF assms(1)] by auto
qed

lemma role_for_action_allows:
  assumes "definition_wf d" and "CeremonyDefinition_role_for_action d a = Some role"
  shows "CeremonyDefinition_role_allows d (role_id role) a"
proof -
  from find_Some_set [OF assms(2) [unfolded CeremonyDefinition_role_for_action_def]]
  obtain k where "(k, role) \<in> set (def_roles d)" "CeremonyRole_allows role a" by auto
  moreover have "bt_wf (def_roles d)" "keyed_by role_id (def_roles d)"
    using assms(1) by (simp_all add: definition_wf_def)
  ultimately show ?thesis
    by (fastforce simp: CeremonyDefinition_role_allows_def keyed_by_def dest: bt_get_iff [THEN iffD2])
qed

subsection \<open>A small ceremony for the examples\<close>

text \<open>One working state with one step, a transition behind a human guard, one role.\<close>

definition demo_step :: ceremony_step where
  "demo_step = \<lparr>step_id = lit ''plan'', step_state_id = lit ''open'', step_handler_kind = lit ''echo'',
     step_handler_config = [], step_retry_policy = \<lparr>max_attempts = 2, backoff = 0\<rparr>,
     step_timeout = None\<rparr>"

definition demo_transition :: ceremony_transition where
  "demo_transition = \<lparr>trans_from = lit ''open'', trans_to = lit ''shut'', trans_trigger = lit ''finish'',
     trans_required_guards = [lit ''ok'']\<rparr>"

definition demo_role :: ceremony_role where
  "demo_role = \<lparr>role_id = lit ''host'', role_allowed_actions =
     [Act_Step (lit ''plan''), Act_Transition (lit ''finish''), Act_RequestIntervention,
      Act_RespondToIntervention]\<rparr>"

definition demo_states :: "ceremony_state list" where
  "demo_states = [\<lparr>state_id = lit ''open'', state_kind = Initial\<rparr>,
     \<lparr>state_id = lit ''shut'', state_kind = Terminal\<rparr>]"

definition demo_guard :: ceremony_guard where
  "demo_guard = \<lparr>guard_name = lit ''ok'', guard_condition = HumanApproval\<rparr>"

definition demo_definition :: ceremony_definition where
  "demo_definition =
     \<lparr>def_name = lit ''demo'', def_version = CeremonyVersion_v1, def_description = None,
      def_inputs = [], def_outputs = [],
      def_states = map (\<lambda>s. (state_id s, s)) demo_states,
      def_transitions = [demo_transition],
      def_steps = [(lit ''plan'', demo_step)], def_step_order = [lit ''plan''],
      def_guards = [(lit ''ok'', demo_guard)], def_roles = [(lit ''host'', demo_role)]\<rparr>"

lemmas demo_defs = demo_definition_def demo_step_def demo_transition_def demo_role_def
  demo_states_def demo_guard_def

lemma demo_parts_wf: "parts_wf (CeremonyDefinition_parts demo_definition)"
  by (simp add: parts_wf_def CeremonyDefinition_parts_def demo_defs CeremonyState_is_initial_def
      CeremonyState_is_terminal_def bt_contains_key_def lit_def)

lemma demo_new:
  "CeremonyDefinition_new (lit ''demo'') CeremonyVersion_v1 None [] [] demo_states [demo_transition]
     [demo_step] [demo_guard] [demo_role] = Inr demo_definition"
proof -
  have "CeremonyDefinition_validate demo_definition = Inr ()"
    using demo_parts_wf validate_ok_iff by blast
  moreover have "collect_states demo_states = Inr (def_states demo_definition)"
    by (simp add: collect_states_def demo_defs bt_contains_key_def lit_def)
  moreover have "collect_steps [demo_step] = Inr (def_steps demo_definition, def_step_order demo_definition)"
    by (simp add: collect_steps_def demo_defs bt_contains_key_def)
  ultimately show ?thesis
    by (simp add: CeremonyDefinition_new_def collect_inputs_def collect_outputs_def collect_guards_def
        collect_roles_def bt_contains_key_def Let_def) (simp add: demo_defs)
qed

lemma demo_wf: "definition_wf demo_definition"
  using CeremonyDefinition_new_wf(1) [OF demo_new] .

section \<open>Properties\<close>

text \<open>
  C38. A definition that was constructed is usable: it is well-formed, asking for its
  initial state or for its steps never panics, the initial state is the only one, and the
  steps come back exactly as the author declared them, in that order.
\<close>

theorem definition_new_usable:
  assumes "CeremonyDefinition_new n v de ins outs sts trs stps gds rls = Inr d"
  shows "definition_wf d \<and>
    CeremonyDefinition_steps_in_declaration_order d = Some stps \<and>
    (\<exists>sid. CeremonyDefinition_initial_state_id d = Some sid \<and>
       (\<forall>k z. bt_get (def_states d) k = Some z \<longrightarrow> (CeremonyState_is_initial z \<longleftrightarrow> k = sid)))"
proof -
  note new = CeremonyDefinition_new_wf [OF assms]
  obtain sid s where i: "CeremonyDefinition_initial_state_id d = Some sid"
    "bt_get (def_states d) sid = Some s" "CeremonyState_is_initial s"
    and sole: "\<forall>k z. bt_get (def_states d) k = Some z \<and> CeremonyState_is_initial z \<longrightarrow> k = sid"
    using wf_initial_state [OF new(1)] by blast
  have "CeremonyDefinition_steps_in_declaration_order d = Some stps"
    unfolding CeremonyDefinition_steps_in_declaration_order_def new(2)
    by (rule those_map_get) (use steps.collected_get [OF new(3)] in blast)
  moreover have "CeremonyState_is_initial z \<longleftrightarrow> k = sid" if "bt_get (def_states d) k = Some z" for k z
    using that i(2,3) sole by (metis option.inject)
  ultimately show ?thesis using new(1) i(1) by blast
qed

theorem definition_new_usable_witness:
  "CeremonyDefinition_steps_in_declaration_order demo_definition = Some [demo_step] \<and>
   definition_wf demo_definition"
  using definition_new_usable [OF demo_new] by blast

lemma first_error_simps:
  "CeremonyValidationReport_first_error (push_duplicates ds what locus @ r) =
     (case ds of [] \<Rightarrow> CeremonyValidationReport_first_error r
      | k # _ \<Rightarrow> Some (CeremonyValidationFinding_error (locus k) (AlreadyExists what)))"
  by (cases ds) (simp_all add: push_duplicates_def CeremonyValidationReport_first_error_def)

lemma error_defect [simp]: "finding_defect (CeremonyValidationFinding_error l e) = e"
  by (simp add: CeremonyValidationFinding_error_def)

lemma collect_steps_index:
  "collect_steps xs =
     (if snd (draft_index xs step_id) = []
      then Inr (fst (draft_index xs step_id), map step_id xs)
      else Inl (AlreadyExists ''ceremony_step''))"
  by (simp add: collect_steps_keyed collect_keyed_empty(2))

text \<open>
  C32. Publishing a draft agrees with the report its author saw.  With an error in the
  report, publishing fails with the defect of the first error; with none it succeeds, and
  the definition carries the draft's name, version and transitions and analyses to the
  same report.
\<close>

theorem draft_publish_first_error:
  "case CeremonyValidationReport_first_error (CeremonyDefinitionDraft_analyze dr) of
     Some f \<Rightarrow> CeremonyDefinitionDraft_publish dr = Inl (finding_defect f)
   | None \<Rightarrow> (\<exists>d. CeremonyDefinitionDraft_publish dr = Inr d \<and>
       CeremonyDefinition_analyze d = CeremonyDefinitionDraft_analyze dr \<and>
       def_name d = draft_name dr \<and> def_version d = draft_version dr \<and>
       def_transitions d = draft_transitions dr)"
proof -
  let ?d = "\<lparr>def_name = draft_name dr, def_version = draft_version dr,
      def_description = draft_description dr,
      def_inputs = fst (draft_index (draft_inputs dr) input_name),
      def_outputs = fst (draft_index (draft_outputs dr) output_name),
      def_states = fst (draft_index (draft_states dr) state_id),
      def_transitions = draft_transitions dr,
      def_steps = fst (draft_index (draft_steps dr) step_id),
      def_step_order = map step_id (draft_steps dr),
      def_guards = fst (draft_index (draft_guards dr) guard_name),
      def_roles = fst (draft_index (draft_roles dr) role_id)\<rparr>"
  let ?dups = "[snd (draft_index (draft_inputs dr) input_name),
      snd (draft_index (draft_outputs dr) output_name),
      snd (draft_index (draft_states dr) state_id), snd (draft_index (draft_steps dr) step_id),
      snd (draft_index (draft_guards dr) guard_name), snd (draft_index (draft_roles dr) role_id)]"
  note collectors = inputs.collect_index outputs.collect_index states.collect_index
    guards.collect_index roles.collect_index collect_steps_index
  have report: "CeremonyDefinitionDraft_analyze dr =
      push_duplicates (?dups ! 0) ''ceremony_input'' Locus_Input @
      push_duplicates (?dups ! 1) ''ceremony_output'' Locus_Output @
      push_duplicates (?dups ! 2) ''ceremony_state'' Locus_State @
      push_duplicates (?dups ! 3) ''ceremony_step'' Locus_Step @
      push_duplicates (?dups ! 4) ''ceremony_guard'' Locus_Guard @
      push_duplicates (?dups ! 5) ''ceremony_role'' Locus_Role @
      CeremonyDefinition_analyze ?d"
    by (simp add: CeremonyDefinitionDraft_analyze_def CeremonyDefinition_analyze_def
        CeremonyDefinition_parts_def case_prod_beta Let_def)
  show ?thesis
    unfolding report CeremonyDefinitionDraft_publish_def CeremonyDefinition_new_def collectors
      first_error_simps
    by (auto simp: push_duplicates_def CeremonyDefinition_validate_def Let_def
        split: list.splits option.splits)
qed

end
