(* ===== verification/Ceremony_Instance.thy ===== *)
theory Ceremony_Instance
  imports Interventions Ceremony_Definition Digests
begin

text \<open>
  One running ceremony (\<open>entities/ceremony_instance.rs\<close>, with
  \<open>entities/published_ceremony_definition.rs\<close>).  Every mutating method of the aggregate is a
  function from the instance to an \<open>outcome\<close> holding the new instance; on an error the source
  leaves the instance untouched and the model returns only the error.  \<open>None\<close> in
  \<open>CeremonyInstance_open\<close> is the panic of \<open>initial_state_id\<close> on a definition that has none.
\<close>

section \<open>Published definitions\<close>

record published_ceremony_definition =
  pub_definition :: ceremony_definition
  pub_digest :: digest

text \<open>
  \<open>to_vec\<close> is the derived JSON serializer, \<open>sha256\<close> the \<open>sha2\<close> crate; the digest covers the
  scheme label and the rendering.
\<close>

definition of_canonical_form :: "(bytes \<Rightarrow> digest) \<Rightarrow> bytes \<Rightarrow> digest" where
  "of_canonical_form sha256 canonical =
     sha256 (ascii_bytes ''underpass.choreo.ceremony-definition.v1'' @ canonical)"

definition CeremonyDefinition_digest ::
    "(bytes \<Rightarrow> digest) \<Rightarrow> (ceremony_definition \<Rightarrow> bytes option) \<Rightarrow> ceremony_definition
      \<Rightarrow> digest outcome" where
  "CeremonyDefinition_digest sha256 to_vec d =
     and_then (ok_or (to_vec d)
       (InvariantViolated ''ceremony definition cannot be rendered canonically''))
     (\<lambda>canonical. Inr (of_canonical_form sha256 canonical))"

definition PublishedCeremonyDefinition_seal ::
    "(bytes \<Rightarrow> digest) \<Rightarrow> (ceremony_definition \<Rightarrow> bytes option) \<Rightarrow> ceremony_definition
      \<Rightarrow> published_ceremony_definition outcome" where
  "PublishedCeremonyDefinition_seal sha256 to_vec d =
     map_ok (\<lambda>dig. \<lparr>pub_definition = d, pub_digest = dig\<rparr>)
       (CeremonyDefinition_digest sha256 to_vec d)"

section \<open>The instance\<close>

record ceremony_instance =
  inst_id :: rstr
  inst_definition_name :: rstr
  inst_definition_version :: rstr
  inst_current_state :: rstr
  inst_step_records :: step_records
  inst_interventions :: "ceremony_intervention list"
  inst_guard_deferrals :: "ceremony_guard_deferral list"
  inst_guard_approvals :: "ceremony_guard_approval list"
  inst_transitions :: "ceremony_transition_record list"
  inst_reasons :: "ceremony_reason list"
  inst_participant_bindings :: "(rstr, ceremony_participant_binding) btree_map"
  inst_context :: ceremony_context
  inst_idempotency_keys :: "rstr btree_set"
  inst_created_at :: timestamp
  inst_updated_at :: timestamp
  inst_completed_at :: "timestamp option"
  inst_bound_definition :: "digest option"

definition CeremonyInstance_open ::
    "rstr \<Rightarrow> ceremony_definition \<Rightarrow> ceremony_context \<Rightarrow> timestamp \<Rightarrow> digest option
      \<Rightarrow> ceremony_instance option" where
  "CeremonyInstance_open iid d ctx now bound =
     (case CeremonyDefinition_initial_state_id d of
        None \<Rightarrow> None
      | Some initial \<Rightarrow> Some
          \<lparr>inst_id = iid, inst_definition_name = def_name d, inst_definition_version = def_version d,
           inst_current_state = initial,
           inst_step_records = map (\<lambda>sid. (sid, StepExecutionRecord_pending)) (bt_keys (def_steps d)),
           inst_interventions = [], inst_guard_deferrals = [], inst_guard_approvals = [],
           inst_transitions = [], inst_reasons = [], inst_participant_bindings = [],
           inst_context = ctx, inst_idempotency_keys = [], inst_created_at = now,
           inst_updated_at = now, inst_completed_at = None, inst_bound_definition = bound\<rparr>)"

definition CeremonyInstance_start ::
    "rstr \<Rightarrow> ceremony_definition \<Rightarrow> ceremony_context \<Rightarrow> timestamp \<Rightarrow> ceremony_instance option" where
  "CeremonyInstance_start iid d ctx now = CeremonyInstance_open iid d ctx now None"

definition CeremonyInstance_start_bound ::
    "rstr \<Rightarrow> published_ceremony_definition \<Rightarrow> ceremony_context \<Rightarrow> timestamp \<Rightarrow> ceremony_instance option" where
  "CeremonyInstance_start_bound iid published ctx now =
     CeremonyInstance_open iid (pub_definition published) ctx now (Some (pub_digest published))"

definition CeremonyInstance_intervention ::
    "ceremony_instance \<Rightarrow> rstr \<Rightarrow> ceremony_intervention option" where
  "CeremonyInstance_intervention i intervention_id =
     find (\<lambda>x. int_id x = intervention_id) (inst_interventions i)"

definition CeremonyInstance_matches_definition ::
    "ceremony_instance \<Rightarrow> ceremony_definition \<Rightarrow> bool" where
  "CeremonyInstance_matches_definition i d =
     (inst_definition_name i = def_name d \<and> inst_definition_version i = def_version d)"

definition CeremonyInstance_is_terminal :: "ceremony_instance \<Rightarrow> ceremony_definition \<Rightarrow> bool" where
  "CeremonyInstance_is_terminal i d =
     (CeremonyInstance_matches_definition i d \<and>
      CeremonyDefinition_is_terminal_state d (inst_current_state i))"

definition CeremonyInstance_is_completed :: "ceremony_instance \<Rightarrow> ceremony_definition \<Rightarrow> bool" where
  "CeremonyInstance_is_completed i d =
     (CeremonyInstance_is_terminal i d \<and> inst_completed_at i \<noteq> None)"

definition CeremonyInstance_bound_specialty :: "ceremony_instance \<Rightarrow> rstr \<Rightarrow> rstr option" where
  "CeremonyInstance_bound_specialty i rid =
     map_option binding_specialty (bt_get (inst_participant_bindings i) rid)"

section \<open>Requirements shared by the operations\<close>

definition require_definition :: "ceremony_instance \<Rightarrow> ceremony_definition \<Rightarrow> unit outcome" where
  "require_definition i d =
     ensure (CeremonyInstance_matches_definition i d)
       (InvariantViolated ''ceremony instance definition mismatch'')"

definition require_active ::
    "ceremony_instance \<Rightarrow> ceremony_definition \<Rightarrow> string \<Rightarrow> unit outcome" where
  "require_active i d terminal_reason =
     and_then (require_definition i d) (\<lambda>_.
     if CeremonyInstance_is_terminal i d then Inl (InvariantViolated terminal_reason) else Inr ())"

fun require_target_roles :: "ceremony_definition \<Rightarrow> rstr list \<Rightarrow> unit outcome" where
  "require_target_roles d [] = Inr ()"
| "require_target_roles d (rid # rids) =
     (if bt_get (def_roles d) rid = None
      then Inl (NotFound ''ceremony_intervention.target_role'')
      else if \<not> CeremonyDefinition_role_allows d rid Act_RespondToIntervention
      then Inl (InvariantViolated ''target role cannot respond to ceremony interventions'')
      else require_target_roles d rids)"

definition require_intervention_target ::
    "ceremony_definition \<Rightarrow> ceremony_intervention_target \<Rightarrow> unit outcome" where
  "require_intervention_target d target =
     (case CeremonyInterventionTarget_role_ids target of
        None \<Rightarrow> Inr ()
      | Some rids \<Rightarrow> require_target_roles d rids)"

definition require_intervention_provenance ::
    "ceremony_instance \<Rightarrow> ceremony_definition \<Rightarrow> rstr \<Rightarrow> ceremony_intervention_target
      \<Rightarrow> ceremony_intervention_provenance \<Rightarrow> unit outcome" where
  "require_intervention_provenance i d requested_by target prov =
     and_then (ok_or (CeremonyInstance_intervention i (prov_source_intervention prov))
       (NotFound ''ceremony_intervention.provenance_source'')) (\<lambda>source.
     if int_requested_by source \<noteq> requested_by
     then Inl (InvariantViolated ''only the source requester can select an intervention response'')
     else if \<not> list_ex (\<lambda>r. resp_role_id r = prov_source_response_role prov) (int_responses source)
     then Inl (NotFound ''ceremony_intervention.provenance_response'')
     else if bt_get (def_roles d) (prov_selected_role prov) = None
     then Inl (NotFound ''ceremony_intervention.provenance_selected_role'')
     else if \<not> CeremonyDefinition_role_allows d (prov_selected_role prov) Act_RespondToIntervention
     then Inl (InvariantViolated ''selected intervention role cannot respond'')
     else if \<not> CeremonyInterventionTarget_accepts target (prov_selected_role prov)
     then Inl (InvariantViolated ''intervention target does not include the selected role'')
     else Inr ())"

definition require_declared_role ::
    "ceremony_instance \<Rightarrow> ceremony_definition \<Rightarrow> rstr \<Rightarrow> unit outcome" where
  "require_declared_role i d rid =
     and_then (require_definition i d) (\<lambda>_.
     if bt_get (def_roles d) rid \<noteq> None then Inr () else Inl (NotFound ''ceremony_role''))"

definition require_role ::
    "ceremony_instance \<Rightarrow> ceremony_definition \<Rightarrow> rstr \<Rightarrow> role_action \<Rightarrow> unit outcome" where
  "require_role i d rid action =
     and_then (require_definition i d) (\<lambda>_.
     if CeremonyDefinition_role_allows d rid action then Inr ()
     else Inl (InvariantViolated ''ceremony role is not allowed to perform action''))"

section \<open>Steps\<close>

definition next_attempt_for_start :: "step_execution_record \<Rightarrow> step_attempt outcome" where
  "next_attempt_for_start r =
     (if rec_status r = Failed \<or> rec_status r = InProgress
      then StepAttempt_next (rec_attempt r) else Inr (rec_attempt r))"

definition CeremonyInstance_start_step ::
    "ceremony_instance \<Rightarrow> ceremony_definition \<Rightarrow> rstr \<Rightarrow> step_lease \<Rightarrow> timestamp
      \<Rightarrow> (ceremony_instance \<times> step_attempt) outcome" where
  "CeremonyInstance_start_step i d sid lease now =
     and_then (require_definition i d) (\<lambda>_.
     if CeremonyInstance_is_terminal i d
     then Inl (InvariantViolated ''terminal ceremony instances cannot start steps'')
     else
     and_then (ok_or (bt_get (def_steps d) sid) (NotFound ''ceremony_instance.step'')) (\<lambda>step.
     if step_state_id step \<noteq> inst_current_state i
     then Inl (InvalidTransition ''ceremony_instance.current_state'' ''ceremony_step.state'')
     else
     and_then (ok_or (bt_get (inst_step_records i) sid)
       (NotFound ''ceremony_instance.step_record'')) (\<lambda>r.
     if \<not> StepExecutionRecord_can_be_started_at r now
     then Inl (InvariantViolated ''step lease is still active'')
     else
     and_then (next_attempt_for_start r) (\<lambda>next_attempt.
     if \<not> RetryPolicy_allows_attempt (step_retry_policy step) next_attempt
     then Inl (InvariantViolated ''step retry policy exhausted'')
     else if lease_idempotency_key lease \<in> set (inst_idempotency_keys i)
     then Inl (AlreadyExists ''ceremony_instance.idempotency_key'')
     else Inr
       (i\<lparr>inst_idempotency_keys := bset_insert (lease_idempotency_key lease) (inst_idempotency_keys i),
          inst_step_records :=
            bt_insert sid (StepExecutionRecord_with_started r lease next_attempt) (inst_step_records i),
          inst_updated_at := now\<rparr>, next_attempt)))))"

definition CeremonyInstance_start_step_as ::
    "ceremony_instance \<Rightarrow> ceremony_definition \<Rightarrow> rstr \<Rightarrow> rstr \<Rightarrow> step_lease \<Rightarrow> timestamp
      \<Rightarrow> (ceremony_instance \<times> step_attempt) outcome" where
  "CeremonyInstance_start_step_as i d rid sid lease now =
     and_then (require_role i d rid (Act_Step sid)) (\<lambda>_.
     CeremonyInstance_start_step i d sid lease now)"

definition CeremonyInstance_apply_step_result ::
    "ceremony_instance \<Rightarrow> ceremony_definition \<Rightarrow> rstr \<Rightarrow> step_result \<Rightarrow> timestamp
      \<Rightarrow> ceremony_instance outcome" where
  "CeremonyInstance_apply_step_result i d sid result now =
     and_then (require_definition i d) (\<lambda>_.
     and_then (ok_or (bt_get (def_steps d) sid) (NotFound ''ceremony_instance.step'')) (\<lambda>step.
     if step_state_id step \<noteq> inst_current_state i
     then Inl (InvalidTransition ''ceremony_instance.current_state'' ''ceremony_step.state'')
     else
     and_then (ok_or (bt_get (inst_step_records i) sid)
       (NotFound ''ceremony_instance.step_record'')) (\<lambda>r.
     if rec_status r \<noteq> InProgress
     then Inl (InvariantViolated ''step result requires an in-progress step'')
     else Inr
       (i\<lparr>inst_step_records :=
            bt_insert sid (StepExecutionRecord_with_result r result) (inst_step_records i),
          inst_updated_at := now\<rparr>))))"

section \<open>Guards and seats\<close>

definition CeremonyInstance_approve_guard ::
    "ceremony_instance \<Rightarrow> ceremony_definition \<Rightarrow> rstr \<Rightarrow> rstr \<Rightarrow> audit_actor_kind \<Rightarrow> timestamp
      \<Rightarrow> ceremony_instance outcome" where
  "CeremonyInstance_approve_guard i d name approved_by approved_by_kind now =
     and_then (require_active i d ''terminal ceremony instances cannot approve guards'') (\<lambda>_.
     and_then (ok_or (bt_get (def_guards d) name) (NotFound ''ceremony_guard'')) (\<lambda>guard.
     if guard_condition guard \<noteq> HumanApproval
     then Inl (InvariantViolated ''only human approval guards can be approved'')
     else
     and_then (require_declared_role i d approved_by) (\<lambda>_.
     and_then (CeremonyContext_with_guard_approval (inst_context i) name) (\<lambda>ctx.
     Inr (i\<lparr>inst_context := ctx,
            inst_guard_approvals := inst_guard_approvals i @
              [\<lparr>approval_guard_name = name, approval_approved_by = approved_by,
                approval_approved_by_kind = approved_by_kind, approval_approved_at = now\<rparr>],
            inst_updated_at := now\<rparr>)))))"

definition CeremonyInstance_bind_participant ::
    "ceremony_instance \<Rightarrow> ceremony_definition \<Rightarrow> rstr \<Rightarrow> rstr \<Rightarrow> timestamp \<Rightarrow> ceremony_instance outcome" where
  "CeremonyInstance_bind_participant i d rid specialty now =
     and_then (require_active i d ''terminal ceremony instances cannot be re-seated'') (\<lambda>_.
     if bt_get (def_roles d) rid = None then Inl (NotFound ''ceremony_role'')
     else Inr (i\<lparr>inst_participant_bindings :=
                   bt_insert rid \<lparr>binding_role_id = rid, binding_specialty = specialty,
                                  binding_bound_at = now\<rparr> (inst_participant_bindings i),
                 inst_updated_at := now\<rparr>))"

definition CeremonyInstance_defer_guard ::
    "ceremony_instance \<Rightarrow> ceremony_definition \<Rightarrow> rstr \<Rightarrow> ceremony_guard_deferral_content \<Rightarrow> rstr
      \<Rightarrow> audit_actor_kind \<Rightarrow> timestamp \<Rightarrow> ceremony_instance outcome" where
  "CeremonyInstance_defer_guard i d name content deferred_by deferred_by_kind now =
     and_then (require_active i d ''terminal ceremony instances cannot defer guard decisions'') (\<lambda>_.
     and_then (ok_or (bt_get (def_guards d) name) (NotFound ''ceremony_guard'')) (\<lambda>guard.
     if guard_condition guard \<noteq> HumanApproval
     then Inl (InvariantViolated ''only human approval guards can be deferred'')
     else if CeremonyContext_is_guard_approved (inst_context i) name
     then Inl (InvariantViolated ''approved human guards cannot be deferred'')
     else if \<not> list_ex (\<lambda>t. name \<in> set (trans_required_guards t))
                 (CeremonyDefinition_available_transitions d (inst_current_state i))
     then Inl (InvariantViolated ''human guard is not required from the current state'')
     else
     and_then (require_declared_role i d deferred_by) (\<lambda>_.
     Inr (i\<lparr>inst_guard_deferrals := inst_guard_deferrals i @
              [\<lparr>deferral_guard_name = name, deferral_deferred_by = deferred_by,
                deferral_deferred_by_kind = deferred_by_kind, deferral_content = content,
                deferral_deferred_at = now\<rparr>],
            inst_updated_at := now\<rparr>))))"

section \<open>Agenda items\<close>

definition CeremonyInstance_request_intervention_with_provenance_as ::
    "ceremony_instance \<Rightarrow> ceremony_definition \<Rightarrow> rstr \<Rightarrow> rstr \<Rightarrow> ceremony_intervention_kind
      \<Rightarrow> ceremony_intervention_target \<Rightarrow> ceremony_intervention_content
      \<Rightarrow> ceremony_intervention_provenance option \<Rightarrow> timestamp \<Rightarrow> ceremony_instance outcome" where
  "CeremonyInstance_request_intervention_with_provenance_as i d iid rid k target content provenance now =
     and_then (require_active i d ''terminal ceremony instances cannot accept interventions'') (\<lambda>_.
     and_then (require_role i d rid Act_RequestIntervention) (\<lambda>_.
     and_then (require_intervention_target d target) (\<lambda>_.
     and_then (case provenance of
                 None \<Rightarrow> Inr ()
               | Some prov \<Rightarrow> require_intervention_provenance i d rid target prov) (\<lambda>_.
     if list_ex (\<lambda>x. int_id x = iid) (inst_interventions i)
     then Inl (AlreadyExists ''ceremony_intervention'')
     else Inr (i\<lparr>inst_interventions := inst_interventions i @
                   [CeremonyIntervention_open_with_provenance iid k rid target content provenance now],
                 inst_updated_at := now\<rparr>)))))"

definition CeremonyInstance_request_intervention_as ::
    "ceremony_instance \<Rightarrow> ceremony_definition \<Rightarrow> rstr \<Rightarrow> rstr \<Rightarrow> ceremony_intervention_kind
      \<Rightarrow> ceremony_intervention_target \<Rightarrow> ceremony_intervention_content \<Rightarrow> timestamp
      \<Rightarrow> ceremony_instance outcome" where
  "CeremonyInstance_request_intervention_as i d iid rid k target content now =
     CeremonyInstance_request_intervention_with_provenance_as i d iid rid k target content None now"

text \<open>
  \<open>iter_mut().find(..).ok_or(..)?\<close> followed by an operation on the agenda item that was found.
\<close>

definition update_intervention ::
    "ceremony_instance \<Rightarrow> rstr \<Rightarrow> (ceremony_intervention \<Rightarrow> ceremony_intervention outcome)
      \<Rightarrow> ceremony_instance outcome" where
  "update_intervention i iid f =
     and_then (ok_or (CeremonyInstance_intervention i iid) (NotFound ''ceremony_intervention'')) (\<lambda>x.
     and_then (f x) (\<lambda>y.
     Inr (i\<lparr>inst_interventions := update_first (\<lambda>z. int_id z = iid) y (inst_interventions i)\<rparr>)))"

definition record_that_it_answers ::
    "ceremony_instance \<Rightarrow> rstr \<Rightarrow> timestamp \<Rightarrow> ceremony_instance" where
  "record_that_it_answers i agenda_item now =
     (case CeremonyInstance_intervention i agenda_item of
        None \<Rightarrow> i
      | Some item \<Rightarrow>
          let n = length (int_responses item) in
          if n = 0 \<or> 2 ^ 32 \<le> n - 1 then i
          else case CeremonyReason_new (Ref_Contribution agenda_item (word_of_nat (n - 1)))
              (Ref_AgendaItem agenda_item) Answers
              (lit ''a contribution made against this agenda item'') High None now of
            Inl _ \<Rightarrow> i
          | Inr reason \<Rightarrow> i\<lparr>inst_reasons := inst_reasons i @ [reason]\<rparr>)"

definition CeremonyInstance_respond_to_intervention_as ::
    "ceremony_instance \<Rightarrow> ceremony_definition \<Rightarrow> rstr \<Rightarrow> rstr \<Rightarrow> ceremony_intervention_content
      \<Rightarrow> timestamp \<Rightarrow> ceremony_instance outcome" where
  "CeremonyInstance_respond_to_intervention_as i d iid rid content now =
     and_then (require_active i d
       ''terminal ceremony instances cannot receive intervention responses'') (\<lambda>_.
     and_then (require_role i d rid Act_RespondToIntervention) (\<lambda>_.
     and_then (update_intervention i iid (\<lambda>x. CeremonyIntervention_respond x rid content now)) (\<lambda>j.
     Inr ((record_that_it_answers j iid now)\<lparr>inst_updated_at := now\<rparr>))))"

definition CeremonyInstance_prepare_evidence_request_as ::
    "ceremony_instance \<Rightarrow> ceremony_definition \<Rightarrow> rstr \<Rightarrow> rstr \<Rightarrow> rstr
      \<Rightarrow> ceremony_intervention_content \<Rightarrow> ceremony_evidence_request outcome" where
  "CeremonyInstance_prepare_evidence_request_as i d iid rid source_id query =
     and_then (require_active i d
       ''terminal ceremony instances cannot collect intervention evidence'') (\<lambda>_.
     and_then (require_role i d rid Act_RespondToIntervention) (\<lambda>_.
     and_then (ok_or (CeremonyInstance_intervention i iid) (NotFound ''ceremony_intervention'')) (\<lambda>x.
     and_then (CeremonyIntervention_ensure_can_respond x rid) (\<lambda>_.
     Inr \<lparr>ereq_instance_id = inst_id i, ereq_intervention_id = iid, ereq_role_id = rid,
          ereq_source_id = source_id, ereq_query = query, ereq_context = inst_context i\<rparr>))))"

definition CeremonyInstance_respond_to_intervention_with_evidence_as ::
    "(ceremony_evidence_pack \<Rightarrow> json option) \<Rightarrow> ceremony_instance \<Rightarrow> ceremony_definition \<Rightarrow> rstr
      \<Rightarrow> rstr \<Rightarrow> ceremony_evidence_pack \<Rightarrow> timestamp \<Rightarrow> ceremony_instance outcome" where
  "CeremonyInstance_respond_to_intervention_with_evidence_as to_value i d iid rid pack now =
     and_then (require_active i d
       ''terminal ceremony instances cannot receive intervention evidence'') (\<lambda>_.
     and_then (require_role i d rid Act_RespondToIntervention) (\<lambda>_.
     and_then (update_intervention i iid
       (\<lambda>x. CeremonyIntervention_respond_with_evidence to_value x rid pack now)) (\<lambda>j.
     Inr ((record_that_it_answers j iid now)\<lparr>inst_updated_at := now\<rparr>))))"

definition CeremonyInstance_close_intervention_as ::
    "ceremony_instance \<Rightarrow> ceremony_definition \<Rightarrow> rstr \<Rightarrow> rstr \<Rightarrow> timestamp \<Rightarrow> ceremony_instance outcome" where
  "CeremonyInstance_close_intervention_as i d iid rid now =
     and_then (require_active i d ''terminal ceremony instances cannot close interventions'') (\<lambda>_.
     and_then (require_role i d rid Act_RequestIntervention) (\<lambda>_.
     and_then (update_intervention i iid (\<lambda>x. CeremonyIntervention_close x rid now)) (\<lambda>j.
     Inr (j\<lparr>inst_updated_at := now\<rparr>))))"

section \<open>Reasons\<close>

definition author_of :: "ceremony_instance \<Rightarrow> ceremony_record_ref \<Rightarrow> rstr option" where
  "author_of i r =
     (case r of
        Ref_Step _ \<Rightarrow> None
      | Ref_AgendaItem item \<Rightarrow> map_option int_requested_by (CeremonyInstance_intervention i item)
      | Ref_Contribution item ordinal \<Rightarrow>
          (case CeremonyInstance_intervention i item of
             None \<Rightarrow> None
           | Some x \<Rightarrow>
               if unat ordinal < length (int_responses x)
               then Some (resp_role_id (int_responses x ! unat ordinal)) else None)
      | Ref_GuardDecision name \<Rightarrow>
          (case find (\<lambda>a. approval_guard_name a = name) (inst_guard_approvals i) of
             Some a \<Rightarrow> Some (approval_approved_by a)
           | None \<Rightarrow> map_option deferral_deferred_by
               (find (\<lambda>x. deferral_guard_name x = name) (inst_guard_deferrals i)))
      | Ref_Transition ordinal \<Rightarrow>
          (if unat ordinal - 1 < length (inst_transitions i)
           then trec_applied_by (inst_transitions i ! (unat ordinal - 1)) else None))"

definition record_exists :: "ceremony_instance \<Rightarrow> ceremony_record_ref \<Rightarrow> bool" where
  "record_exists i r =
     (case r of
        Ref_Step sid \<Rightarrow> bt_contains_key (inst_step_records i) sid
      | Ref_AgendaItem item \<Rightarrow> CeremonyInstance_intervention i item \<noteq> None
      | Ref_Contribution item ordinal \<Rightarrow>
          (case CeremonyInstance_intervention i item of
             None \<Rightarrow> False
           | Some x \<Rightarrow> unat ordinal < length (int_responses x))
      | Ref_GuardDecision name \<Rightarrow>
          list_ex (\<lambda>a. approval_guard_name a = name) (inst_guard_approvals i) \<or>
          list_ex (\<lambda>x. deferral_guard_name x = name) (inst_guard_deferrals i)
      | Ref_Transition ordinal \<Rightarrow> 1 \<le> ordinal \<and> unat ordinal \<le> length (inst_transitions i))"

definition require_record :: "ceremony_instance \<Rightarrow> ceremony_record_ref \<Rightarrow> unit outcome" where
  "require_record i r = ensure (record_exists i r) (NotFound ''ceremony_record'')"

definition CeremonyInstance_assert_reason_as ::
    "ceremony_instance \<Rightarrow> ceremony_definition \<Rightarrow> rstr \<Rightarrow> ceremony_record_ref \<Rightarrow> ceremony_record_ref
      \<Rightarrow> ceremony_reason_kind \<Rightarrow> rstr \<Rightarrow> memory_confidence \<Rightarrow> timestamp \<Rightarrow> ceremony_instance outcome" where
  "CeremonyInstance_assert_reason_as i d rid src dst k why confidence now =
     and_then (require_declared_role i d rid) (\<lambda>_.
     and_then (require_record i src) (\<lambda>_.
     and_then (require_record i dst) (\<lambda>_.
     and_then (case CeremonyReasonKind_asserter k of
         TheEngine \<Rightarrow> Inl (InvariantViolated
           ''this kind of reason states the shape of the session, not a judgement, and only the engine may assert it'')
       | ItsAuthor \<Rightarrow>
           if author_of i src \<noteq> Some rid
           then Inl (InvariantViolated
             ''only whoever produced something may say why they decided it or how they did it'')
           else Inr ()
       | AnySeat \<Rightarrow> Inr ()) (\<lambda>_.
     and_then (CeremonyReason_new src dst k why confidence (Some rid) now) (\<lambda>reason.
     Inr (i\<lparr>inst_reasons := inst_reasons i @ [reason], inst_updated_at := now\<rparr>))))))"

section \<open>Transitions\<close>

definition CeremonyInstance_move_on ::
    "ceremony_instance \<Rightarrow> ceremony_definition \<Rightarrow> rstr \<Rightarrow> rstr option \<Rightarrow> timestamp
      \<Rightarrow> (ceremony_instance \<times> rstr) outcome" where
  "CeremonyInstance_move_on i d trigger applied_by now =
     and_then (require_definition i d) (\<lambda>_.
     if CeremonyInstance_is_terminal i d
     then Inl (InvariantViolated ''terminal ceremony instances cannot transition'')
     else
     and_then (ok_or (CeremonyDefinition_transition_for_trigger d (inst_current_state i) trigger)
       (InvalidTransition ''ceremony_instance.current_state'' ''transition_trigger'')) (\<lambda>t.
     if \<not> CeremonyDefinition_guards_are_satisfied d t (inst_step_records i) (inst_context i)
     then Inl (InvariantViolated ''ceremony transition guards are not satisfied'')
     else Inr
       (i\<lparr>inst_current_state := trans_to t,
          inst_transitions := inst_transitions i @
            [\<lparr>trec_trigger = trigger, trec_from_state = inst_current_state i,
              trec_to_state = trans_to t, trec_applied_by = applied_by, trec_applied_at = now\<rparr>],
          inst_updated_at := now,
          inst_completed_at := if CeremonyDefinition_is_terminal_state d (trans_to t)
            then Some now else inst_completed_at i\<rparr>, trans_to t)))"

definition CeremonyInstance_apply_transition_as ::
    "ceremony_instance \<Rightarrow> ceremony_definition \<Rightarrow> rstr \<Rightarrow> rstr \<Rightarrow> timestamp
      \<Rightarrow> (ceremony_instance \<times> rstr) outcome" where
  "CeremonyInstance_apply_transition_as i d rid trigger now =
     and_then (require_role i d rid (Act_Transition trigger)) (\<lambda>_.
     CeremonyInstance_move_on i d trigger (Some rid) now)"

definition CeremonyInstance_apply_transition ::
    "ceremony_instance \<Rightarrow> ceremony_definition \<Rightarrow> rstr \<Rightarrow> timestamp \<Rightarrow> (ceremony_instance \<times> rstr) outcome" where
  "CeremonyInstance_apply_transition i d trigger now = CeremonyInstance_move_on i d trigger None now"

end
