(* ===== verification/Audit_Chain.thy ===== *)
theory Audit_Chain
  imports Ceremony_Parts Digests
begin

text \<open>
  The audit trail (\<open>entities/audit_record.rs\<close>, \<open>entities/audit_chain.rs\<close>,
  \<open>value_objects/audit\<close>).  A record is sealed by hashing a canonical byte form that includes the
  hash of the record before it.  SHA-256 and the RFC 3339 rendering of an instant are
  parameters \<open>sha256\<close> and \<open>rfc3339\<close>.  Shown here: the canonical form determines every
  sealed field, the verdict of \<open>AuditChain::verify\<close> is exactly the declarative notion of an
  intact chain, extending an intact chain keeps it intact, and altering any part of a
  journal without changing the hash of its last record takes a collision of SHA-256.
\<close>

section \<open>Records\<close>

datatype audit_event_type =
    CeremonyDefinitionValidated | CeremonyDefinitionPublished | CeremonyInstanceStarted
  | StepStarted | StepCompleted | StepFailed | TransitionApplied | InterventionRequested
  | InterventionResponded | InterventionClosed | EvidenceCollected | ParticipantsBound
  | ReasonAsserted | HumanApprovalRecorded | HumanDeferralRecorded | CeremonyCompleted
  | CeremonyFailed

fun AuditEventType_as_str :: "audit_event_type \<Rightarrow> string" where
  "AuditEventType_as_str CeremonyDefinitionValidated = ''ceremony_definition_validated''"
| "AuditEventType_as_str CeremonyDefinitionPublished = ''ceremony_definition_published''"
| "AuditEventType_as_str CeremonyInstanceStarted = ''ceremony_instance_started''"
| "AuditEventType_as_str StepStarted = ''step_started''"
| "AuditEventType_as_str StepCompleted = ''step_completed''"
| "AuditEventType_as_str StepFailed = ''step_failed''"
| "AuditEventType_as_str TransitionApplied = ''transition_applied''"
| "AuditEventType_as_str InterventionRequested = ''intervention_requested''"
| "AuditEventType_as_str InterventionResponded = ''intervention_responded''"
| "AuditEventType_as_str InterventionClosed = ''intervention_closed''"
| "AuditEventType_as_str EvidenceCollected = ''evidence_collected''"
| "AuditEventType_as_str ParticipantsBound = ''participants_bound''"
| "AuditEventType_as_str ReasonAsserted = ''reason_asserted''"
| "AuditEventType_as_str HumanApprovalRecorded = ''human_approval_recorded''"
| "AuditEventType_as_str HumanDeferralRecorded = ''human_deferral_recorded''"
| "AuditEventType_as_str CeremonyCompleted = ''ceremony_completed''"
| "AuditEventType_as_str CeremonyFailed = ''ceremony_failed''"

definition AuditEventType_is_terminal :: "audit_event_type \<Rightarrow> bool" where
  "AuditEventType_is_terminal e = (e = CeremonyCompleted \<or> e = CeremonyFailed)"

definition AuditEventType_records_human_authority :: "audit_event_type \<Rightarrow> bool" where
  "AuditEventType_records_human_authority e = (e = HumanApprovalRecorded \<or> e = HumanDeferralRecorded)"

type_synonym audit_sequence = "64 word"

definition AuditSequence_FIRST :: audit_sequence where
  "AuditSequence_FIRST = 1"

definition AuditSequence_new :: "64 word \<Rightarrow> audit_sequence outcome" where
  "AuditSequence_new v = (if v = 0 then Inl (MustBeNonZero ''audit_sequence'') else Inr v)"

definition AuditSequence_next :: "audit_sequence \<Rightarrow> audit_sequence" where
  "AuditSequence_next s = sat_succ s"

definition AuditSequence_follows :: "audit_sequence \<Rightarrow> audit_sequence \<Rightarrow> bool" where
  "AuditSequence_follows s previous = (s = sat_succ previous)"

definition AuditSequence_is_first :: "audit_sequence \<Rightarrow> bool" where
  "AuditSequence_is_first s = (s = AuditSequence_FIRST)"

record trace_context =
  trace_id :: rstr
  trace_span_id :: rstr
  trace_flags :: rstr

record audit_fact =
  fact_event_id :: rstr
  fact_event_type :: audit_event_type
  fact_ceremony_id :: rstr
  fact_definition_name :: rstr
  fact_definition_version :: rstr
  fact_occurred_at :: timestamp
  fact_actor :: audit_actor
  fact_correlation_id :: "rstr option"
  fact_causation_id :: "rstr option"
  fact_trace :: "trace_context option"

record audit_record =
  arec_event_id :: rstr
  arec_event_type :: audit_event_type
  arec_schema_version :: "32 word"
  arec_ceremony_id :: rstr
  arec_definition_name :: rstr
  arec_definition_version :: rstr
  arec_sequence :: audit_sequence
  arec_occurred_at :: timestamp
  arec_actor :: audit_actor
  arec_correlation_id :: "rstr option"
  arec_causation_id :: "rstr option"
  arec_trace_id :: "rstr option"
  arec_previous_record_hash :: "digest option"
  arec_record_hash :: digest

definition write_field :: "bytes \<Rightarrow> bytes" where
  "write_field v = be_bytes 8 (length v) @ v"

definition write_optional :: "bytes option \<Rightarrow> bytes" where
  "write_optional v = (case v of None \<Rightarrow> [0] | Some v \<Rightarrow> 1 # write_field v)"

text \<open>The buffer that \<open>compute_hash\<close> builds.\<close>

definition canonical_form ::
    "(timestamp \<Rightarrow> rstr option) \<Rightarrow> audit_record \<Rightarrow> bytes outcome" where
  "canonical_form rfc3339 r =
     and_then (ok_or (rfc3339 (arec_occurred_at r))
       (InvariantViolated ''audit record timestamp cannot be rendered canonically'')) (\<lambda>occurred_at.
     Inr (ascii_bytes ''underpass.choreo.audit-record.v1'' @
          be_bytes 4 (unat (arec_schema_version r)) @
          write_field (as_bytes (arec_event_id r)) @
          write_field (ascii_bytes (AuditEventType_as_str (arec_event_type r))) @
          write_field (as_bytes (arec_ceremony_id r)) @
          write_field (as_bytes (arec_definition_name r)) @
          write_field (as_bytes (arec_definition_version r)) @
          be_bytes 8 (unat (arec_sequence r)) @
          write_field (as_bytes occurred_at) @
          write_field (as_bytes (actor_id (arec_actor r))) @
          write_field (ascii_bytes (AuditActorKind_as_str (actor_kind (arec_actor r)))) @
          write_optional (map_option as_bytes (actor_role_id (arec_actor r))) @
          write_optional (map_option as_bytes (arec_correlation_id r)) @
          write_optional (map_option as_bytes (arec_causation_id r)) @
          write_optional (map_option as_bytes (arec_trace_id r)) @
          write_optional (arec_previous_record_hash r)))"

definition compute_hash ::
    "(bytes \<Rightarrow> digest) \<Rightarrow> (timestamp \<Rightarrow> rstr option) \<Rightarrow> audit_record \<Rightarrow> digest outcome" where
  "compute_hash sha256 rfc3339 r = map_ok sha256 (canonical_form rfc3339 r)"

definition AuditRecord_seal ::
    "(bytes \<Rightarrow> digest) \<Rightarrow> (timestamp \<Rightarrow> rstr option) \<Rightarrow> audit_fact \<Rightarrow> audit_sequence
      \<Rightarrow> digest option \<Rightarrow> audit_record outcome" where
  "AuditRecord_seal sha256 rfc3339 f sequence previous_record_hash =
     (let r = \<lparr>arec_event_id = fact_event_id f, arec_event_type = fact_event_type f,
               arec_schema_version = 1, arec_ceremony_id = fact_ceremony_id f,
               arec_definition_name = fact_definition_name f,
               arec_definition_version = fact_definition_version f, arec_sequence = sequence,
               arec_occurred_at = fact_occurred_at f, arec_actor = fact_actor f,
               arec_correlation_id = fact_correlation_id f,
               arec_causation_id = fact_causation_id f,
               arec_trace_id = map_option trace_id (fact_trace f),
               arec_previous_record_hash = previous_record_hash,
               arec_record_hash = replicate 32 0\<rparr>
      in map_ok (\<lambda>h. r\<lparr>arec_record_hash := h\<rparr>) (compute_hash sha256 rfc3339 r))"

definition AuditRecord_first ::
    "(bytes \<Rightarrow> digest) \<Rightarrow> (timestamp \<Rightarrow> rstr option) \<Rightarrow> audit_fact \<Rightarrow> audit_record outcome" where
  "AuditRecord_first sha256 rfc3339 f = AuditRecord_seal sha256 rfc3339 f AuditSequence_FIRST None"

definition AuditRecord_following ::
    "(bytes \<Rightarrow> digest) \<Rightarrow> (timestamp \<Rightarrow> rstr option) \<Rightarrow> audit_fact \<Rightarrow> audit_record
      \<Rightarrow> audit_record outcome" where
  "AuditRecord_following sha256 rfc3339 f previous =
     (if fact_ceremony_id f \<noteq> arec_ceremony_id previous
      then Inl (InvariantViolated ''an audit record must belong to the same ceremony as its predecessor'')
      else AuditRecord_seal sha256 rfc3339 f (AuditSequence_next (arec_sequence previous))
        (Some (arec_record_hash previous)))"

definition AuditRecord_digest_is_intact ::
    "(bytes \<Rightarrow> digest) \<Rightarrow> (timestamp \<Rightarrow> rstr option) \<Rightarrow> audit_record \<Rightarrow> bool outcome" where
  "AuditRecord_digest_is_intact sha256 rfc3339 r =
     map_ok (\<lambda>h. h = arec_record_hash r) (compute_hash sha256 rfc3339 r)"

definition AuditRecord_continues :: "audit_record \<Rightarrow> audit_record \<Rightarrow> bool" where
  "AuditRecord_continues r previous =
     (arec_ceremony_id r = arec_ceremony_id previous \<and>
      AuditSequence_follows (arec_sequence r) (arec_sequence previous) \<and>
      arec_previous_record_hash r = Some (arec_record_hash previous))"

section \<open>The chain\<close>

datatype audit_chain_defect =
    DoesNotStartAtTheBeginning audit_sequence
  | DigestAltered audit_sequence
  | UnexpectedRoot audit_sequence
  | SequenceBroken audit_sequence audit_sequence
  | LinkBroken audit_sequence
  | ForeignCeremony audit_sequence

fun AuditChainDefect_at :: "audit_chain_defect \<Rightarrow> audit_sequence" where
  "AuditChainDefect_at (DoesNotStartAtTheBeginning found) = found"
| "AuditChainDefect_at (SequenceBroken expected found) = found"
| "AuditChainDefect_at (DigestAltered s) = s"
| "AuditChainDefect_at (UnexpectedRoot s) = s"
| "AuditChainDefect_at (LinkBroken s) = s"
| "AuditChainDefect_at (ForeignCeremony s) = s"

datatype audit_chain_verdict = Intact | Broken audit_chain_defect

definition AuditChainVerdict_is_intact :: "audit_chain_verdict \<Rightarrow> bool" where
  "AuditChainVerdict_is_intact v = (v = Intact)"

definition digest_defect ::
    "(bytes \<Rightarrow> digest) \<Rightarrow> (timestamp \<Rightarrow> rstr option) \<Rightarrow> audit_record \<Rightarrow> audit_chain_verdict option" where
  "digest_defect sha256 rfc3339 r =
     (case AuditRecord_digest_is_intact sha256 rfc3339 r of
        Inr True \<Rightarrow> None
      | _ \<Rightarrow> Some (Broken (DigestAltered (arec_sequence r))))"

text \<open>The loop of \<open>verify\<close> over the records after the first.\<close>

fun verify_rest ::
    "(bytes \<Rightarrow> digest) \<Rightarrow> (timestamp \<Rightarrow> rstr option) \<Rightarrow> audit_record \<Rightarrow> audit_record list
      \<Rightarrow> audit_chain_verdict" where
  "verify_rest sha256 rfc3339 previous [] = Intact"
| "verify_rest sha256 rfc3339 previous (r # rest) =
     (if arec_ceremony_id r \<noteq> arec_ceremony_id previous
      then Broken (ForeignCeremony (arec_sequence r))
      else if \<not> AuditSequence_follows (arec_sequence r) (arec_sequence previous)
      then Broken (SequenceBroken (AuditSequence_next (arec_sequence previous)) (arec_sequence r))
      else case arec_previous_record_hash r of
        None \<Rightarrow> Broken (UnexpectedRoot (arec_sequence r))
      | Some h \<Rightarrow>
          if h \<noteq> arec_record_hash previous then Broken (LinkBroken (arec_sequence r))
          else case digest_defect sha256 rfc3339 r of
            Some verdict \<Rightarrow> verdict
          | None \<Rightarrow> verify_rest sha256 rfc3339 r rest)"

definition AuditChain_verify ::
    "(bytes \<Rightarrow> digest) \<Rightarrow> (timestamp \<Rightarrow> rstr option) \<Rightarrow> audit_record list \<Rightarrow> audit_chain_verdict" where
  "AuditChain_verify sha256 rfc3339 records =
     (case records of
        [] \<Rightarrow> Intact
      | first # rest \<Rightarrow>
          if \<not> AuditSequence_is_first (arec_sequence first)
          then Broken (DoesNotStartAtTheBeginning (arec_sequence first))
          else if arec_previous_record_hash first \<noteq> None
          then Broken (UnexpectedRoot (arec_sequence first))
          else case digest_defect sha256 rfc3339 first of
            Some verdict \<Rightarrow> verdict
          | None \<Rightarrow> verify_rest sha256 rfc3339 first rest)"

definition AuditChain_next_sequence :: "audit_record list \<Rightarrow> audit_sequence" where
  "AuditChain_next_sequence records =
     (case records of [] \<Rightarrow> AuditSequence_FIRST | _ \<Rightarrow> AuditSequence_next (arec_sequence (last records)))"

section \<open>The canonical form determines the record\<close>

text \<open>What every Rust string satisfies: scalar values, and a length that fits a \<open>u64\<close>.\<close>

definition text_ok :: "rstr \<Rightarrow> bool" where
  "text_ok s = (list_all scalar s \<and> length (as_bytes s) < 2 ^ 64)"

definition record_text_ok :: "(timestamp \<Rightarrow> rstr option) \<Rightarrow> audit_record \<Rightarrow> bool" where
  "record_text_ok rfc3339 r =
     (text_ok (arec_event_id r) \<and> text_ok (arec_ceremony_id r) \<and> text_ok (arec_definition_name r) \<and>
      text_ok (arec_definition_version r) \<and> text_ok (actor_id (arec_actor r)) \<and>
      pred_option text_ok (actor_role_id (arec_actor r)) \<and>
      pred_option text_ok (arec_correlation_id r) \<and> pred_option text_ok (arec_causation_id r) \<and>
      pred_option text_ok (arec_trace_id r) \<and> pred_option text_ok (rfc3339 (arec_occurred_at r)) \<and>
      pred_option (\<lambda>h. length h < 2 ^ 64) (arec_previous_record_hash r))"

text \<open>Two records that agree on everything that is sealed; instants agree as rendered.\<close>

definition same_content :: "(timestamp \<Rightarrow> rstr option) \<Rightarrow> audit_record \<Rightarrow> audit_record \<Rightarrow> bool" where
  "same_content rfc3339 r s =
     (arec_event_id r = arec_event_id s \<and> arec_event_type r = arec_event_type s \<and>
      arec_schema_version r = arec_schema_version s \<and> arec_ceremony_id r = arec_ceremony_id s \<and>
      arec_definition_name r = arec_definition_name s \<and>
      arec_definition_version r = arec_definition_version s \<and>
      arec_sequence r = arec_sequence s \<and>
      rfc3339 (arec_occurred_at r) = rfc3339 (arec_occurred_at s) \<and>
      arec_actor r = arec_actor s \<and> arec_correlation_id r = arec_correlation_id s \<and>
      arec_causation_id r = arec_causation_id s \<and> arec_trace_id r = arec_trace_id s \<and>
      arec_previous_record_hash r = arec_previous_record_hash s)"

lemma write_field_inj:
  assumes "write_field v @ s = write_field w @ t" and "length v < 2 ^ 64" and "length w < 2 ^ 64"
  shows "v = w \<and> s = t"
proof -
  have be: "be_bytes 8 (length v) @ (v @ s) = be_bytes 8 (length w) @ (w @ t)"
    using assms(1) by (simp add: write_field_def)
  then have "be_bytes 8 (length v) = be_bytes 8 (length w)" and rest: "v @ s = w @ t"
    by (simp_all add: append_eq_append_conv)
  then have "length v = length w" using assms(2,3) by (intro be_bytes_inj [of 8]) simp_all
  with rest show ?thesis by (simp add: append_eq_append_conv)
qed

lemma write_optional_inj:
  assumes "write_optional v @ s = write_optional w @ t"
    and "pred_option (\<lambda>x. length x < 2 ^ 64) v" and "pred_option (\<lambda>x. length x < 2 ^ 64) w"
  shows "v = w \<and> s = t"
  using assms by (cases v; cases w) (auto simp: write_optional_def dest: write_field_inj)

text \<open>The buffer as a list of frames: fixed-width integers, length-prefixed fields, optional fields.\<close>

datatype frame = Fixed nat nat | Field bytes | Opt "bytes option"

fun frame_bytes :: "frame \<Rightarrow> bytes" where
  "frame_bytes (Fixed k n) = be_bytes k n"
| "frame_bytes (Field v) = write_field v"
| "frame_bytes (Opt v) = write_optional v"

fun frame_ok :: "frame \<Rightarrow> bool" where
  "frame_ok (Fixed k n) = (n < 256 ^ k)"
| "frame_ok (Field v) = (length v < 2 ^ 64)"
| "frame_ok (Opt v) = pred_option (\<lambda>x. length x < 2 ^ 64) v"

fun same_frame :: "frame \<Rightarrow> frame \<Rightarrow> bool" where
  "same_frame (Fixed k _) (Fixed l _) = (k = l)"
| "same_frame (Field _) (Field _) = True"
| "same_frame (Opt _) (Opt _) = True"
| "same_frame _ _ = False"

lemma frame_inj:
  assumes "frame_bytes f @ s = frame_bytes g @ t" and "same_frame f g" and "frame_ok f" and "frame_ok g"
  shows "f = g \<and> s = t"
proof (cases f)
  case (Fixed k n)
  with assms(2) obtain m where g: "g = Fixed k m" by (cases g) auto
  have "be_bytes k n = be_bytes k m" "s = t"
    using assms(1) Fixed g by (simp_all add: append_eq_append_conv)
  then show ?thesis using be_bytes_inj [of k n m] assms(3,4) Fixed g by simp
next
  case (Field v)
  with assms obtain w where "g = Field w" by (cases g) auto
  then show ?thesis using assms Field write_field_inj [of v s w t] by simp
next
  case (Opt v)
  with assms obtain w where "g = Opt w" by (cases g) auto
  then show ?thesis using assms Opt write_optional_inj [of v s w t] by simp
qed

lemma frames_inj:
  "\<lbrakk>list_all2 same_frame fs gs; concat (map frame_bytes fs) = concat (map frame_bytes gs);
    list_all frame_ok fs; list_all frame_ok gs\<rbrakk> \<Longrightarrow> fs = gs"
  by (induction rule: list_all2_induct) (auto dest: frame_inj)

lemma ascii_bytes_inj: "ascii_bytes s = ascii_bytes t \<Longrightarrow> s = t"
proof -
  have "inj (\<lambda>c. word_of_nat (of_char c) :: byte)"
  proof (rule injI)
    fix c d :: char
    assume "(word_of_nat (of_char c) :: byte) = word_of_nat (of_char d)"
    then have "(of_char c :: nat) = of_char d"
      using inj_onD [OF word_of_nat_inj_on, of "of_char c" "of_char d"] by simp
    then show "c = d" by simp
  qed
  then show "ascii_bytes s = ascii_bytes t \<Longrightarrow> s = t" by (simp add: ascii_bytes_def inj_map_eq_map)
qed

lemma event_type_str_inj: "AuditEventType_as_str a = AuditEventType_as_str b \<Longrightarrow> a = b"
  by (cases a; cases b) simp_all

lemma actor_kind_str_inj: "AuditActorKind_as_str a = AuditActorKind_as_str b \<Longrightarrow> a = b"
  by (cases a; cases b) simp_all

lemma event_type_str_short: "length (AuditEventType_as_str e) < 2 ^ 64"
  by (cases e) simp_all

lemma actor_kind_str_short: "length (AuditActorKind_as_str e) < 2 ^ 64"
  by (cases e) simp_all

definition record_frames :: "rstr \<Rightarrow> audit_record \<Rightarrow> frame list" where
  "record_frames occurred_at r =
     [Fixed 4 (unat (arec_schema_version r)), Field (as_bytes (arec_event_id r)),
      Field (ascii_bytes (AuditEventType_as_str (arec_event_type r))),
      Field (as_bytes (arec_ceremony_id r)), Field (as_bytes (arec_definition_name r)),
      Field (as_bytes (arec_definition_version r)), Fixed 8 (unat (arec_sequence r)),
      Field (as_bytes occurred_at), Field (as_bytes (actor_id (arec_actor r))),
      Field (ascii_bytes (AuditActorKind_as_str (actor_kind (arec_actor r)))),
      Opt (map_option as_bytes (actor_role_id (arec_actor r))),
      Opt (map_option as_bytes (arec_correlation_id r)),
      Opt (map_option as_bytes (arec_causation_id r)), Opt (map_option as_bytes (arec_trace_id r)),
      Opt (arec_previous_record_hash r)]"

lemma canonical_form_frames:
  "canonical_form rfc r = Inr c \<longleftrightarrow>
     (\<exists>t. rfc (arec_occurred_at r) = Some t \<and>
        c = ascii_bytes ''underpass.choreo.audit-record.v1'' @ concat (map frame_bytes (record_frames t r)))"
  by (auto simp: canonical_form_def record_frames_def result_simps)

lemma record_frames_ok:
  assumes "record_text_ok rfc r" and "rfc (arec_occurred_at r) = Some t"
  shows "list_all frame_ok (record_frames t r)"
proof -
  have "unat (arec_schema_version r) < 256 ^ 4" "unat (arec_sequence r) < 256 ^ 8"
    using unsigned_less [of "arec_schema_version r", where ?'a = nat]
      unsigned_less [of "arec_sequence r", where ?'a = nat] by simp_all
  moreover have "length (ascii_bytes x) = length x" for x by (simp add: ascii_bytes_def)
  ultimately show ?thesis
    using assms event_type_str_short actor_kind_str_short
    by (auto simp: record_frames_def record_text_ok_def text_ok_def option.pred_set)
qed

lemma opt_text_inj:
  "map_option as_bytes s = map_option as_bytes t \<Longrightarrow> pred_option text_ok s \<Longrightarrow> pred_option text_ok t
     \<Longrightarrow> s = t"
  by (cases s; cases t) (auto simp: text_ok_def dest: as_bytes_inj)

lemma text_inj: "as_bytes s = as_bytes t \<Longrightarrow> text_ok s \<Longrightarrow> text_ok t \<Longrightarrow> s = t"
  by (auto simp: text_ok_def dest: as_bytes_inj)

lemma canonical_form_determines:
  assumes "canonical_form rfc r = Inr c" and "canonical_form rfc s = Inr c"
    and ok: "record_text_ok rfc r" "record_text_ok rfc s"
  shows "same_content rfc r s"
proof -
  from assms(1,2) obtain t u where t: "rfc (arec_occurred_at r) = Some t"
    and u: "rfc (arec_occurred_at s) = Some u"
    and "concat (map frame_bytes (record_frames t r)) = concat (map frame_bytes (record_frames u s))"
    by (auto simp: canonical_form_frames)
  moreover have "list_all2 same_frame (record_frames t r) (record_frames u s)"
    by (simp add: record_frames_def)
  ultimately have eq: "record_frames t r = record_frames u s"
    using record_frames_ok [OF ok(1) t] record_frames_ok [OF ok(2) u] frames_inj by blast
  have "arec_event_type r = arec_event_type s" "actor_kind (arec_actor r) = actor_kind (arec_actor s)"
    using eq by (auto simp: record_frames_def dest!: ascii_bytes_inj event_type_str_inj actor_kind_str_inj)
  moreover have "arec_schema_version r = arec_schema_version s" "arec_sequence r = arec_sequence s"
    using eq by (simp_all add: record_frames_def word_unat_eq_iff)
  ultimately show ?thesis
    using eq ok text_inj opt_text_inj
    by (auto simp: same_content_def record_frames_def record_text_ok_def t u
        intro!: audit_actor.equality)
qed

section \<open>Intact chains\<close>

definition sealed_ok :: "(bytes \<Rightarrow> digest) \<Rightarrow> (timestamp \<Rightarrow> rstr option) \<Rightarrow> audit_record \<Rightarrow> bool" where
  "sealed_ok sha rfc r = (\<exists>c. canonical_form rfc r = Inr c \<and> arec_record_hash r = sha c)"

lemma digest_defect_None: "digest_defect sha rfc r = None \<longleftrightarrow> sealed_ok sha rfc r"
  by (auto simp: digest_defect_def AuditRecord_digest_is_intact_def compute_hash_def sealed_ok_def
      map_ok_def split: sum.splits bool.splits)

lemma digest_defect_Broken: "digest_defect sha rfc r = Some v \<Longrightarrow> v \<noteq> Intact"
  by (auto simp: digest_defect_def split: sum.splits bool.splits)

lemma verify_rest_Cons:
  "verify_rest sha rfc p (r # rs) = Intact \<longleftrightarrow>
     AuditRecord_continues r p \<and> sealed_ok sha rfc r \<and> verify_rest sha rfc r rs = Intact"
  by (auto simp: AuditRecord_continues_def digest_defect_None [symmetric] split: option.splits
      dest: digest_defect_Broken)

lemma verify_rest_snoc:
  "verify_rest sha rfc p (rs @ [r]) = Intact \<longleftrightarrow>
     verify_rest sha rfc p rs = Intact \<and> AuditRecord_continues r (last (p # rs)) \<and> sealed_ok sha rfc r"
proof (induction rs arbitrary: p)
  case Nil
  show ?case using verify_rest_Cons [of sha rfc p r "[]"] by simp
next
  case (Cons x rs)
  show ?case unfolding append_Cons verify_rest_Cons Cons.IH by auto
qed

lemma verify_Cons:
  "AuditChain_verify sha rfc (r # rs) = Intact \<longleftrightarrow>
     arec_sequence r = 1 \<and> arec_previous_record_hash r = None \<and> sealed_ok sha rfc r \<and>
     verify_rest sha rfc r rs = Intact"
  by (auto simp: AuditChain_verify_def AuditSequence_is_first_def AuditSequence_FIRST_def
      digest_defect_None [symmetric] split: option.splits dest: digest_defect_Broken)

lemma verify_Nil [simp]: "AuditChain_verify sha rfc [] = Intact"
  by (simp add: AuditChain_verify_def)

lemma verify_snoc:
  assumes "rs \<noteq> []"
  shows "AuditChain_verify sha rfc (rs @ [r]) = Intact \<longleftrightarrow>
     AuditChain_verify sha rfc rs = Intact \<and> AuditRecord_continues r (last rs) \<and> sealed_ok sha rfc r"
  using assms by (cases rs) (auto simp: verify_Cons verify_rest_snoc simp del: verify_rest.simps)

text \<open>The record says what the fact said.\<close>

definition records_fact :: "audit_fact \<Rightarrow> audit_record \<Rightarrow> bool" where
  "records_fact f r =
     (arec_ceremony_id r = fact_ceremony_id f \<and> arec_event_id r = fact_event_id f \<and>
      arec_event_type r = fact_event_type f \<and> arec_actor r = fact_actor f \<and>
      arec_occurred_at r = fact_occurred_at f \<and>
      arec_definition_name r = fact_definition_name f \<and>
      arec_definition_version r = fact_definition_version f \<and>
      arec_correlation_id r = fact_correlation_id f \<and> arec_causation_id r = fact_causation_id f \<and>
      arec_trace_id r = map_option trace_id (fact_trace f))"

lemma records_fact_ceremony: "records_fact f r \<Longrightarrow> arec_ceremony_id r = fact_ceremony_id f"
  by (simp add: records_fact_def)

lemma seal_Inr:
  assumes "AuditRecord_seal sha rfc f q h = Inr r"
  shows "sealed_ok sha rfc r \<and> arec_sequence r = q \<and> arec_previous_record_hash r = h \<and>
    records_fact f r \<and> arec_ceremony_id r = fact_ceremony_id f"
proof -
  have irrelevant: "canonical_form rfc (x\<lparr>arec_record_hash := y\<rparr>) = canonical_form rfc x" for x y
    by (simp add: canonical_form_def)
  define x where "x = \<lparr>arec_event_id = fact_event_id f, arec_event_type = fact_event_type f,
    arec_schema_version = 1, arec_ceremony_id = fact_ceremony_id f,
    arec_definition_name = fact_definition_name f, arec_definition_version = fact_definition_version f,
    arec_sequence = q, arec_occurred_at = fact_occurred_at f, arec_actor = fact_actor f,
    arec_correlation_id = fact_correlation_id f, arec_causation_id = fact_causation_id f,
    arec_trace_id = map_option trace_id (fact_trace f), arec_previous_record_hash = h,
    arec_record_hash = replicate 32 0\<rparr>"
  from assms obtain c where c: "canonical_form rfc x = Inr c" and r: "r = x\<lparr>arec_record_hash := sha c\<rparr>"
    unfolding AuditRecord_seal_def Let_def x_def [symmetric] compute_hash_def
    by (auto simp: result_simps)
  then have "sealed_ok sha rfc r" by (simp add: sealed_ok_def irrelevant)
  then show ?thesis by (simp add: r x_def records_fact_def)
qed

subsection \<open>A journal of two records for the examples\<close>

definition demo_fact :: audit_fact where
  "demo_fact = \<lparr>fact_event_id = lit ''e'', fact_event_type = StepStarted, fact_ceremony_id = lit ''c'',
     fact_definition_name = lit ''demo'', fact_definition_version = lit ''1.0'', fact_occurred_at = 0,
     fact_actor = \<lparr>actor_id = lit ''w'', actor_kind = Agent, actor_role_id = None\<rparr>,
     fact_correlation_id = None, fact_causation_id = None, fact_trace = None\<rparr>"

definition demo_sha :: "bytes \<Rightarrow> digest" where
  "demo_sha bs = [word_of_nat (length bs)]"

definition demo_rfc :: "timestamp \<Rightarrow> rstr option" where
  "demo_rfc t = Some (lit ''t'')"

definition demo_first :: audit_record where
  "demo_first = projr (AuditRecord_first demo_sha demo_rfc demo_fact)"

definition demo_second :: audit_record where
  "demo_second = projr (AuditRecord_following demo_sha demo_rfc demo_fact demo_first)"

lemma demo_seal_ok:
  "AuditRecord_seal sha demo_rfc f q h = Inr (projr (AuditRecord_seal sha demo_rfc f q h))"
  by (simp add: AuditRecord_seal_def Let_def compute_hash_def canonical_form_def demo_rfc_def)

lemma demo_first_eq: "AuditRecord_first demo_sha demo_rfc demo_fact = Inr demo_first"
  unfolding demo_first_def AuditRecord_first_def by (rule demo_seal_ok)

lemma demo_second_eq: "AuditRecord_following demo_sha demo_rfc demo_fact demo_first = Inr demo_second"
proof -
  have "fact_ceremony_id demo_fact = arec_ceremony_id demo_first"
    using demo_first_eq seal_Inr by (fastforce simp: AuditRecord_first_def)
  then show ?thesis
    unfolding demo_second_def AuditRecord_following_def by (simp add: demo_seal_ok [symmetric])
qed

lemma demo_records_text:
  assumes "AuditRecord_seal demo_sha demo_rfc demo_fact q h = Inr r" and "pred_option (\<lambda>h. length h < 2 ^ 64) h"
  shows "record_text_ok demo_rfc r"
  using assms
  by (auto simp: AuditRecord_seal_def Let_def compute_hash_def result_simps record_text_ok_def text_ok_def
      demo_fact_def demo_rfc_def lit_def as_bytes_def utf8_char_def scalar_def)

text \<open>
  What \<open>verify\<close> means: a journal is found intact exactly when it is empty or it starts
  at sequence one without a predecessor, every record carries the hash of its own canonical
  form, and each following record belongs to the same ceremony, has the next sequence number
  and names the hash of the record before it.
\<close>

theorem verify_intact_iff:
  "AuditChain_verify sha256 rfc3339 records = Intact \<longleftrightarrow>
     (\<forall>k < length records. sealed_ok sha256 rfc3339 (records ! k)) \<and>
     (records \<noteq> [] \<longrightarrow> arec_sequence (records ! 0) = 1 \<and>
        arec_previous_record_hash (records ! 0) = None) \<and>
     (\<forall>k. Suc k < length records \<longrightarrow> AuditRecord_continues (records ! Suc k) (records ! k))"
proof (induction records rule: rev_induct)
  case Nil
  show ?case by simp
next
  case (snoc r rs)
  show ?case
  proof (cases "rs = []")
    case True
    then show ?thesis by (auto simp: verify_Cons)
  next
    case False
    then have "last rs = rs ! (length rs - 1)" by (rule last_conv_nth)
    moreover obtain n where n: "length rs = Suc n" using False by (cases rs) auto
    ultimately have cont: "(\<forall>k. Suc k < length (rs @ [r]) \<longrightarrow>
          AuditRecord_continues ((rs @ [r]) ! Suc k) ((rs @ [r]) ! k)) \<longleftrightarrow>
        (\<forall>k. Suc k < length rs \<longrightarrow> AuditRecord_continues (rs ! Suc k) (rs ! k)) \<and>
        AuditRecord_continues r (last rs)"
      by (auto simp: nth_append less_Suc_eq)
    have seals: "(\<forall>k < length (rs @ [r]). sealed_ok sha256 rfc3339 ((rs @ [r]) ! k)) \<longleftrightarrow>
        (\<forall>k < length rs. sealed_ok sha256 rfc3339 (rs ! k)) \<and> sealed_ok sha256 rfc3339 r"
      by (auto simp: nth_append less_Suc_eq)
    show ?thesis
      unfolding verify_snoc [OF False] snoc.IH cont seals using False by (auto simp: nth_append)
  qed
qed

theorem verify_intact_iff_witness:
  "AuditChain_verify demo_sha demo_rfc [demo_first] = Intact \<and> arec_sequence demo_first = 1"
proof -
  have "sealed_ok demo_sha demo_rfc demo_first" "arec_sequence demo_first = 1"
    "arec_previous_record_hash demo_first = None"
    using demo_first_eq seal_Inr by (auto simp: AuditRecord_first_def AuditSequence_FIRST_def)
  then show ?thesis using verify_intact_iff [of demo_sha demo_rfc "[demo_first]"] by simp
qed

text \<open>
  A journal grows intact: the first record sealed for a ceremony is an intact journal,
  and sealing a fact of the same ceremony onto the last record of an intact journal gives an
  intact journal again; a fact of another ceremony is refused.
\<close>

theorem journal_grows_intact:
  "(AuditRecord_first sha256 rfc3339 f = Inr r \<longrightarrow> AuditChain_verify sha256 rfc3339 [r] = Intact) \<and>
   (records \<noteq> [] \<and> AuditChain_verify sha256 rfc3339 records = Intact \<and>
    AuditRecord_following sha256 rfc3339 f (last records) = Inr r \<longrightarrow>
      AuditChain_verify sha256 rfc3339 (records @ [r]) = Intact) \<and>
   (fact_ceremony_id f \<noteq> arec_ceremony_id previous \<longrightarrow>
      (\<exists>e. AuditRecord_following sha256 rfc3339 f previous = Inl e))"
proof (intro conjI impI)
  assume "AuditRecord_first sha256 rfc3339 f = Inr r"
  then show "AuditChain_verify sha256 rfc3339 [r] = Intact"
    by (auto simp: AuditRecord_first_def AuditSequence_FIRST_def verify_Cons dest: seal_Inr)
next
  assume a: "records \<noteq> [] \<and> AuditChain_verify sha256 rfc3339 records = Intact \<and>
    AuditRecord_following sha256 rfc3339 f (last records) = Inr r"
  then have "fact_ceremony_id f = arec_ceremony_id (last records)"
    "AuditRecord_seal sha256 rfc3339 f (AuditSequence_next (arec_sequence (last records)))
        (Some (arec_record_hash (last records))) = Inr r"
    by (auto simp: AuditRecord_following_def split: if_splits)
  with seal_Inr have "AuditRecord_continues r (last records)" "sealed_ok sha256 rfc3339 r"
    by (fastforce simp: AuditRecord_continues_def AuditSequence_follows_def AuditSequence_next_def)+
  then show "AuditChain_verify sha256 rfc3339 (records @ [r]) = Intact" using a verify_snoc by blast
qed (simp add: AuditRecord_following_def)

theorem journal_grows_intact_witness:
  "AuditChain_verify demo_sha demo_rfc [demo_first, demo_second] = Intact"
proof -
  have "AuditChain_verify demo_sha demo_rfc [demo_first] = Intact"
    using journal_grows_intact [of demo_sha demo_rfc demo_fact demo_first] demo_first_eq by blast
  then show ?thesis
    using journal_grows_intact [of demo_sha demo_rfc demo_fact demo_second "[demo_first]"] demo_second_eq
    by simp
qed

section \<open>Tamper evidence\<close>

text \<open>
  A collision in hand: the bytes sealed for these two records differ and hash alike.  (That
  some collision exists says nothing, since there are more byte strings than digests.)
\<close>

definition forms_collide ::
    "(bytes \<Rightarrow> digest) \<Rightarrow> (timestamp \<Rightarrow> rstr option) \<Rightarrow> audit_record \<Rightarrow> audit_record \<Rightarrow> bool" where
  "forms_collide sha256 rfc3339 r s =
     (case (canonical_form rfc3339 r, canonical_form rfc3339 s) of
        (Inr c, Inr d) \<Rightarrow> c \<noteq> d \<and> sha256 c = sha256 d
      | _ \<Rightarrow> False)"

lemma sealed_same_or_collision:
  assumes "sealed_ok sha rfc r" and "sealed_ok sha rfc s" and "arec_record_hash r = arec_record_hash s"
    and "record_text_ok rfc r" and "record_text_ok rfc s"
  shows "same_content rfc r s \<or> forms_collide sha rfc r s"
proof -
  from assms(1,2) obtain c d where c: "canonical_form rfc r = Inr c" "arec_record_hash r = sha c"
    and d: "canonical_form rfc s = Inr d" "arec_record_hash s = sha d"
    by (auto simp: sealed_ok_def)
  show ?thesis
  proof (cases "c = d")
    case True
    then show ?thesis using canonical_form_determines c(1) d(1) assms(4,5) by blast
  next
    case False
    then show ?thesis using c d assms(3) by (simp add: forms_collide_def)
  qed
qed

text \<open>
  C3. Tampering shows: take two journals that both verify and end in a record with the same
  hash.  Either they are the same record for record - every sealed field, with times as
  rendered, and every hash - or some record of the one and some record of the other were
  sealed over different bytes with the same digest, a collision of the hash function found
  in the journals themselves.  The texts are only required to be what Rust strings always are.
\<close>

theorem journal_tamper_evident:
  assumes "AuditChain_verify sha256 rfc3339 rs = Intact"
    and "AuditChain_verify sha256 rfc3339 ss = Intact"
    and "rs \<noteq> []" and "ss \<noteq> []"
    and "arec_record_hash (last rs) = arec_record_hash (last ss)"
    and "list_all (record_text_ok rfc3339) rs" and "list_all (record_text_ok rfc3339) ss"
  shows "list_all2 (\<lambda>r s. same_content rfc3339 r s \<and> arec_record_hash r = arec_record_hash s) rs ss \<or>
    (\<exists>r \<in> set rs. \<exists>s \<in> set ss. forms_collide sha256 rfc3339 r s)"
  using assms
proof (induction rs arbitrary: ss rule: rev_induct)
  case Nil
  then show ?case by simp
next
  case (snoc r rs)
  obtain s ss' where ss: "ss = ss' @ [s]" using snoc.prems(4) by (metis append_butlast_last_id)
  have last: "sealed_ok sha256 rfc3339 r" "sealed_ok sha256 rfc3339 s"
    using snoc.prems(1,2) verify_snoc verify_Cons unfolding ss by (metis append_Nil)+
  have hash: "arec_record_hash r = arec_record_hash s" using snoc.prems(5) ss by simp
  have ok: "record_text_ok rfc3339 r" "record_text_ok rfc3339 s" using snoc.prems(6,7) ss by simp_all
  show ?case
  proof (cases "\<exists>r \<in> set (rs @ [r]). \<exists>s \<in> set ss. forms_collide sha256 rfc3339 r s")
    case False
    then have same: "same_content rfc3339 r s"
      using sealed_same_or_collision [OF last hash ok] unfolding ss by auto
    then have prev: "arec_previous_record_hash r = arec_previous_record_hash s"
      by (simp add: same_content_def)
    have root: "rs = [] \<longleftrightarrow> arec_previous_record_hash r = None" "ss' = [] \<longleftrightarrow> arec_previous_record_hash s = None"
      using snoc.prems(1,2) verify_snoc verify_Cons unfolding ss AuditRecord_continues_def
      by (metis append_Nil option.discI)+
    show ?thesis
    proof (cases "rs = []")
      case True
      then show ?thesis using root prev same hash ss by simp
    next
      case rs: False
      then have ss': "ss' \<noteq> []" using root prev by simp
      have "arec_record_hash (last rs) = arec_record_hash (last ss')"
        using snoc.prems(1,2) verify_snoc [OF rs] verify_snoc [OF ss'] prev unfolding ss AuditRecord_continues_def
        by simp
      then have "list_all2 (\<lambda>r s. same_content rfc3339 r s \<and> arec_record_hash r = arec_record_hash s) rs ss'"
        using snoc.IH [of ss'] snoc.prems ss rs ss' verify_snoc [OF rs] verify_snoc [OF ss'] False by auto
      then show ?thesis using same hash ss by (simp add: list_all2_appendI)
    qed
  qed simp
qed

theorem journal_tamper_evident_witness:
  "list_all2 (\<lambda>r s. same_content demo_rfc r s \<and> arec_record_hash r = arec_record_hash s)
     [demo_first] [demo_first] \<or>
   (\<exists>r \<in> set [demo_first]. \<exists>s \<in> set [demo_first]. forms_collide demo_sha demo_rfc r s)"
proof (rule journal_tamper_evident)
  have "sealed_ok demo_sha demo_rfc demo_first" "arec_sequence demo_first = 1"
    "arec_previous_record_hash demo_first = None"
    using demo_first_eq seal_Inr by (auto simp: AuditRecord_first_def AuditSequence_FIRST_def)
  then show "AuditChain_verify demo_sha demo_rfc [demo_first] = Intact" by (simp add: verify_Cons)
  then show "AuditChain_verify demo_sha demo_rfc [demo_first] = Intact" .
  show "list_all (record_text_ok demo_rfc) [demo_first]"
    using demo_records_text demo_first_eq by (simp add: AuditRecord_first_def)
  then show "list_all (record_text_ok demo_rfc) [demo_first]" .
qed simp_all

end
