(* ===== verification/Ceremony_Store.thy ===== *)
theory Ceremony_Store
  imports Ceremony_Instance Audit_Chain
begin

text \<open>
  The store behind the sessions (\<open>choreo-adapters/src/memory/ceremony_store.rs\<close> with
  \<open>entities/ceremony_commit.rs\<close>, the revisions and the outbox value objects).  Every port
  call takes the write lock for its whole duration, so a call is one atomic step on the map
  of ceremonies and concurrent callers are an arbitrary sequence of such steps.  A call
  returns the store it leaves behind together with its result, because some failing calls
  leave an empty entry.  \<open>None\<close> from \<open>claim\<close> is the panic of adding the lease to an instant
  outside the calendar.
\<close>

section \<open>Commits and revisions\<close>

type_synonym ceremony_revision = "64 word"

definition CeremonyRevision_INITIAL :: ceremony_revision where
  "CeremonyRevision_INITIAL = 1"

definition CeremonyRevision_new :: "64 word \<Rightarrow> ceremony_revision outcome" where
  "CeremonyRevision_new v = (if v = 0 then Inl (MustBeNonZero ''ceremony_revision'') else Inr v)"

definition CeremonyRevision_next :: "ceremony_revision \<Rightarrow> ceremony_revision" where
  "CeremonyRevision_next r = sat_succ r"

datatype expected_revision = New | Exactly ceremony_revision

fun ExpectedRevision_matches :: "expected_revision \<Rightarrow> ceremony_revision option \<Rightarrow> bool" where
  "ExpectedRevision_matches New None = True"
| "ExpectedRevision_matches (Exactly expected) (Some stored) = (expected = stored)"
| "ExpectedRevision_matches _ _ = False"

fun ExpectedRevision_resulting_revision :: "expected_revision \<Rightarrow> ceremony_revision" where
  "ExpectedRevision_resulting_revision New = CeremonyRevision_INITIAL"
| "ExpectedRevision_resulting_revision (Exactly stored) = CeremonyRevision_next stored"

type_synonym outbox_attempt = "32 word"

definition OutboxAttempt_NONE :: outbox_attempt where
  "OutboxAttempt_NONE = 0"

definition OutboxAttempt_next :: "outbox_attempt \<Rightarrow> outbox_attempt" where
  "OutboxAttempt_next a = sat_succ a"

definition OutboxAttempt_is_exhausted :: "outbox_attempt \<Rightarrow> 32 word \<Rightarrow> bool" where
  "OutboxAttempt_is_exhausted a limit = (limit \<le> a)"

record outbox_message =
  om_event_id :: rstr
  om_subject :: rstr
  om_payload :: json
  om_enqueued_at :: timestamp

definition OutboxMessage_new ::
    "rstr \<Rightarrow> rstr \<Rightarrow> json \<Rightarrow> timestamp \<Rightarrow> outbox_message outcome" where
  "OutboxMessage_new event_id subject payload enqueued_at =
     (if payload = JNull then Inl (EmptyField ''outbox_message.payload'')
      else Inr \<lparr>om_event_id = event_id, om_subject = subject, om_payload = payload,
                om_enqueued_at = enqueued_at\<rparr>)"

record claimed_outbox_message =
  claimed_message :: outbox_message
  claimed_attempt :: outbox_attempt

record ceremony_commit =
  commit_instance :: ceremony_instance
  commit_expected_revision :: expected_revision
  commit_facts :: "audit_fact list"
  commit_messages :: "outbox_message list"

definition CeremonyCommit_new ::
    "ceremony_instance \<Rightarrow> expected_revision \<Rightarrow> audit_fact list \<Rightarrow> outbox_message list
      \<Rightarrow> ceremony_commit outcome" where
  "CeremonyCommit_new i expected facts messages =
     (if list_ex (\<lambda>f. fact_ceremony_id f \<noteq> inst_id i) facts
      then Inl (InvariantViolated ''a commit cannot carry audit facts from another ceremony'')
      else Inr \<lparr>commit_instance = i, commit_expected_revision = expected, commit_facts = facts,
                commit_messages = messages\<rparr>)"

datatype commit_outcome =
    Committed ceremony_revision "audit_record list"
  | CommitConflict expected_revision "ceremony_revision option"

section \<open>The store\<close>

record stored_outbox_message =
  so_message :: outbox_message
  so_attempt :: outbox_attempt
  so_claimed_until :: "timestamp option"
  so_delivered :: bool
  so_quarantine :: "rstr option"

definition StoredOutboxMessage_new :: "outbox_message \<Rightarrow> stored_outbox_message" where
  "StoredOutboxMessage_new message =
     \<lparr>so_message = message, so_attempt = OutboxAttempt_NONE, so_claimed_until = None,
      so_delivered = False, so_quarantine = None\<rparr>"

definition StoredOutboxMessage_is_claimable :: "stored_outbox_message \<Rightarrow> timestamp \<Rightarrow> bool" where
  "StoredOutboxMessage_is_claimable entry now =
     (\<not> so_delivered entry \<and> so_quarantine entry = None \<and>
      (case so_claimed_until entry of None \<Rightarrow> True | Some until \<Rightarrow> until \<le> now))"

record stored_ceremony =
  st_revision :: "ceremony_revision option"
  st_instance :: "ceremony_instance option"
  st_journal :: "audit_record list"
  st_outbox :: "stored_outbox_message list"

definition StoredCeremony_default :: stored_ceremony where
  "StoredCeremony_default = \<lparr>st_revision = None, st_instance = None, st_journal = [], st_outbox = []\<rparr>"

type_synonym ceremony_store = "(rstr, stored_ceremony) btree_map"

text \<open>\<open>entry(id).or_default()\<close>: what is read.\<close>

definition entry_or_default :: "ceremony_store \<Rightarrow> rstr \<Rightarrow> stored_ceremony" where
  "entry_or_default s cid = (case bt_get s cid of Some st \<Rightarrow> st | None \<Rightarrow> StoredCeremony_default)"

definition store_instance :: "ceremony_store \<Rightarrow> rstr \<Rightarrow> ceremony_instance option" where
  "store_instance s cid = (case bt_get s cid of None \<Rightarrow> None | Some st \<Rightarrow> st_instance st)"

definition store_outbox :: "ceremony_store \<Rightarrow> rstr \<Rightarrow> outbox_message list" where
  "store_outbox s cid =
     (case bt_get s cid of
        None \<Rightarrow> []
      | Some st \<Rightarrow> map so_message (filter (\<lambda>e. \<not> so_delivered e) (st_outbox st)))"

subsection \<open>Unit of work\<close>

definition seal_next ::
    "(bytes \<Rightarrow> digest) \<Rightarrow> (timestamp \<Rightarrow> rstr option) \<Rightarrow> audit_record list \<Rightarrow> audit_fact
      \<Rightarrow> audit_record outcome" where
  "seal_next sha256 rfc3339 journal f =
     (if journal = [] then AuditRecord_first sha256 rfc3339 f
      else AuditRecord_following sha256 rfc3339 f (last journal))"

text \<open>The sealing loop of \<open>commit\<close>: the extended journal and what was sealed.\<close>

fun seal_facts ::
    "(bytes \<Rightarrow> digest) \<Rightarrow> (timestamp \<Rightarrow> rstr option) \<Rightarrow> audit_record list \<Rightarrow> audit_fact list
      \<Rightarrow> (audit_record list \<times> audit_record list) outcome" where
  "seal_facts sha256 rfc3339 journal [] = Inr (journal, [])"
| "seal_facts sha256 rfc3339 journal (f # fs) =
     and_then (seal_next sha256 rfc3339 journal f) (\<lambda>r.
     map_ok (\<lambda>(j, sealed). (j, r # sealed)) (seal_facts sha256 rfc3339 (journal @ [r]) fs))"

definition store_commit ::
    "(bytes \<Rightarrow> digest) \<Rightarrow> (timestamp \<Rightarrow> rstr option) \<Rightarrow> ceremony_commit \<Rightarrow> ceremony_store
      \<Rightarrow> ceremony_store \<times> commit_outcome outcome" where
  "store_commit sha256 rfc3339 c s =
     (let cid = inst_id (commit_instance c);
          stored = entry_or_default s cid;
          touched = bt_insert cid stored s;
          expected = commit_expected_revision c
      in if \<not> ExpectedRevision_matches expected (st_revision stored)
         then (touched, Inr (CommitConflict expected (st_revision stored)))
         else case seal_facts sha256 rfc3339 (st_journal stored) (commit_facts c) of
           Inl e \<Rightarrow> (touched, Inl e)
         | Inr (journal, sealed) \<Rightarrow>
             let revision = ExpectedRevision_resulting_revision expected in
             (bt_insert cid (stored\<lparr>st_revision := Some revision,
                                    st_instance := Some (commit_instance c),
                                    st_journal := journal,
                                    st_outbox := st_outbox stored @
                                      map StoredOutboxMessage_new (commit_messages c)\<rparr>) s,
              Inr (Committed revision sealed)))"

definition store_revision :: "ceremony_store \<Rightarrow> rstr \<Rightarrow> ceremony_revision option" where
  "store_revision s cid = (case bt_get s cid of None \<Rightarrow> None | Some st \<Rightarrow> st_revision st)"

subsection \<open>Audit journal\<close>

definition store_append ::
    "(bytes \<Rightarrow> digest) \<Rightarrow> (timestamp \<Rightarrow> rstr option) \<Rightarrow> audit_fact \<Rightarrow> ceremony_store
      \<Rightarrow> ceremony_store \<times> audit_record outcome" where
  "store_append sha256 rfc3339 f s =
     (let cid = fact_ceremony_id f; stored = entry_or_default s cid in
      case seal_next sha256 rfc3339 (st_journal stored) f of
        Inl e \<Rightarrow> (bt_insert cid stored s, Inl e)
      | Inr r \<Rightarrow> (bt_insert cid (stored\<lparr>st_journal := st_journal stored @ [r]\<rparr>) s, Inr r))"

definition store_head :: "ceremony_store \<Rightarrow> rstr \<Rightarrow> audit_record option" where
  "store_head s cid =
     (case bt_get s cid of
        None \<Rightarrow> None
      | Some st \<Rightarrow> if st_journal st = [] then None else Some (last (st_journal st)))"

definition store_records :: "ceremony_store \<Rightarrow> rstr \<Rightarrow> audit_record list" where
  "store_records s cid = (case bt_get s cid of None \<Rightarrow> [] | Some st \<Rightarrow> st_journal st)"

subsection \<open>Outbox\<close>

text \<open>Claim the first undelivered message of one ceremony, if it is free.\<close>

definition claim_head ::
    "timestamp \<Rightarrow> timestamp \<Rightarrow> stored_outbox_message list
      \<Rightarrow> (stored_outbox_message list \<times> claimed_outbox_message) option" where
  "claim_head now lease_until outbox =
     (case find (\<lambda>e. \<not> so_delivered e) outbox of
        None \<Rightarrow> None
      | Some head \<Rightarrow>
          if \<not> StoredOutboxMessage_is_claimable head now then None
          else Some (update_first (\<lambda>e. \<not> so_delivered e) (head\<lparr>so_claimed_until := Some lease_until\<rparr>) outbox,
                     \<lparr>claimed_message = so_message head, claimed_attempt = so_attempt head\<rparr>))"

fun claim_loop ::
    "nat \<Rightarrow> timestamp \<Rightarrow> timestamp \<Rightarrow> nat \<Rightarrow> ceremony_store
      \<Rightarrow> ceremony_store \<times> claimed_outbox_message list" where
  "claim_loop limit now lease_until n [] = ([], [])"
| "claim_loop limit now lease_until n ((cid, st) # s) =
     (if limit \<le> n then ((cid, st) # s, [])
      else case claim_head now lease_until (st_outbox st) of
        None \<Rightarrow>
          let (s', claimed) = claim_loop limit now lease_until n s in ((cid, st) # s', claimed)
      | Some (outbox, message) \<Rightarrow>
          let (s', claimed) = claim_loop limit now lease_until (Suc n) s in
          ((cid, st\<lparr>st_outbox := outbox\<rparr>) # s', message # claimed))"

definition store_claim ::
    "(timestamp \<Rightarrow> nat \<Rightarrow> timestamp option) \<Rightarrow> nat \<Rightarrow> timestamp \<Rightarrow> duration_ms \<Rightarrow> ceremony_store
      \<Rightarrow> (ceremony_store \<times> claimed_outbox_message list) option" where
  "store_claim checked_add limit now lease s =
     (case checked_add now (unat lease) of
        None \<Rightarrow> None
      | Some lease_until \<Rightarrow> Some (claim_loop limit now lease_until 0 s))"

text \<open>\<open>values_mut().flat_map(outbox.iter_mut())\<close>: rewrite every outbox entry of the store.\<close>

definition map_outbox ::
    "(stored_outbox_message \<Rightarrow> stored_outbox_message) \<Rightarrow> ceremony_store \<Rightarrow> ceremony_store" where
  "map_outbox f s = map (\<lambda>(cid, st). (cid, st\<lparr>st_outbox := map f (st_outbox st)\<rparr>)) s"

definition store_mark_delivered :: "rstr list \<Rightarrow> ceremony_store \<Rightarrow> ceremony_store" where
  "store_mark_delivered event_ids s =
     map_outbox (\<lambda>e. if om_event_id (so_message e) \<in> set event_ids
       then e\<lparr>so_delivered := True, so_claimed_until := None\<rparr> else e) s"

definition store_mark_failed :: "rstr \<Rightarrow> ceremony_store \<Rightarrow> ceremony_store" where
  "store_mark_failed event_id s =
     map_outbox (\<lambda>e. if om_event_id (so_message e) = event_id
       then e\<lparr>so_attempt := OutboxAttempt_next (so_attempt e), so_claimed_until := None\<rparr> else e) s"

definition store_quarantine :: "rstr \<Rightarrow> rstr \<Rightarrow> ceremony_store \<Rightarrow> ceremony_store" where
  "store_quarantine event_id reason s =
     map_outbox (\<lambda>e. if om_event_id (so_message e) = event_id
       then e\<lparr>so_quarantine := Some reason, so_claimed_until := None\<rparr> else e) s"

definition store_quarantined :: "ceremony_store \<Rightarrow> claimed_outbox_message list" where
  "store_quarantined s =
     map (\<lambda>e. \<lparr>claimed_message = so_message e, claimed_attempt = so_attempt e\<rparr>)
       (filter (\<lambda>e. so_quarantine e \<noteq> None) (concat (map st_outbox (bt_values s))))"

subsection \<open>Instance repository\<close>

definition store_save :: "ceremony_instance \<Rightarrow> ceremony_store \<Rightarrow> ceremony_store" where
  "store_save i s =
     (let stored = entry_or_default s (inst_id i) in
      bt_insert (inst_id i)
        (stored\<lparr>st_revision := Some (case st_revision stored of
                   None \<Rightarrow> CeremonyRevision_INITIAL | Some r \<Rightarrow> CeremonyRevision_next r),
                st_instance := Some i\<rparr>) s)"

definition store_get :: "ceremony_store \<Rightarrow> rstr \<Rightarrow> ceremony_instance outcome" where
  "store_get s cid = ok_or (store_instance s cid) (NotFound ''ceremony_instance'')"

definition store_list :: "ceremony_store \<Rightarrow> ceremony_instance list" where
  "store_list s = List.map_filter st_instance (bt_values s)"

definition store_exists :: "ceremony_store \<Rightarrow> rstr \<Rightarrow> bool" where
  "store_exists s cid = (store_instance s cid \<noteq> None)"

section \<open>Sealing facts\<close>

lemma seal_next_records: "seal_next sha rfc j f = Inr r \<Longrightarrow> records_fact f r"
  by (auto simp: seal_next_def AuditRecord_first_def AuditRecord_following_def dest: seal_Inr
      split: if_splits)

lemma seal_next_intact:
  assumes "AuditChain_verify sha rfc j = Intact" and "seal_next sha rfc j f = Inr r"
  shows "AuditChain_verify sha rfc (j @ [r]) = Intact"
proof (cases "j = []")
  case True
  then show ?thesis using assms(2) seal_Inr
    by (fastforce simp: seal_next_def AuditRecord_first_def AuditSequence_FIRST_def verify_Cons)
next
  case False
  then have "fact_ceremony_id f = arec_ceremony_id (last j)"
    and seal: "AuditRecord_seal sha rfc f (AuditSequence_next (arec_sequence (last j)))
        (Some (arec_record_hash (last j))) = Inr r"
    using assms(2) by (auto simp: seal_next_def AuditRecord_following_def split: if_splits)
  then have "AuditRecord_continues r (last j)" "sealed_ok sha rfc r"
    using seal_Inr [OF seal]
    by (auto simp: AuditRecord_continues_def AuditSequence_follows_def AuditSequence_next_def)
  then show ?thesis using verify_snoc [OF False] assms(1) by simp
qed

lemma list_all2_right: "list_all2 P xs ys \<Longrightarrow> \<forall>y \<in> set ys. \<exists>x \<in> set xs. P x y"
  by (induction rule: list_all2_induct) auto

lemma seal_facts_records:
  "seal_facts sha rfc j fs = Inr (k, sealed) \<Longrightarrow> k = j @ sealed \<and> list_all2 records_fact fs sealed"
  by (induction fs arbitrary: j sealed) (fastforce simp: result_simps dest: seal_next_records)+

lemma seal_facts_intact:
  assumes "AuditChain_verify sha rfc j = Intact" and "seal_facts sha rfc j fs = Inr (k, sealed)"
  shows "AuditChain_verify sha rfc k = Intact"
  using assms
proof (induction fs arbitrary: j sealed)
  case Nil
  then show ?case by simp
next
  case (Cons f fs)
  from Cons.prems(2) obtain r rest where r: "seal_next sha rfc j f = Inr r"
    and rest: "seal_facts sha rfc (j @ [r]) fs = Inr (k, rest)" "sealed = r # rest"
    by (auto simp: result_simps)
  show ?case by (rule Cons.IH [OF seal_next_intact [OF Cons.prems(1) r] rest(1)])
qed

end
