(* ===== verification/Session_Journal.thy ===== *)
theory Session_Journal
  imports Ceremony_Store
begin

text \<open>
  The store as its clients see it: the locale \<open>session_store\<close> states what a unit of work
  promises, \<open>SessionJournal\<close> (\<open>choreo-app/src/services/session_journal.rs\<close>) is the client, and
  the in-memory store is the instance.  The step relation \<open>store_step\<close> has one rule per port
  call, so its paths are the interleavings of concurrent callers.  Shown here: commits are
  all or nothing, journals stay intact under any interleaving, and a session that was read
  and committed back cannot overwrite what somebody else wrote in between.
\<close>

section \<open>The client\<close>

record loaded_session =
  ls_instance :: ceremony_instance
  ls_expected :: expected_revision

text \<open>
  \<open>load\<close> reads the revision first and the instance second; other callers may run between
  the two reads, so they see two store states.
\<close>

definition SessionJournal_load ::
    "('s \<Rightarrow> rstr \<Rightarrow> ceremony_revision option) \<Rightarrow> ('s \<Rightarrow> rstr \<Rightarrow> ceremony_instance outcome)
      \<Rightarrow> rstr \<Rightarrow> 's \<Rightarrow> 's \<Rightarrow> loaded_session outcome" where
  "SessionJournal_load revision get cid s1 s2 =
     (let stored = revision s1 cid in
      and_then (get s2 cid) (\<lambda>i.
      Inr \<lparr>ls_instance = i,
           ls_expected = (case stored of None \<Rightarrow> New | Some r \<Rightarrow> Exactly r)\<rparr>))"

definition SessionJournal_commit ::
    "(ceremony_commit \<Rightarrow> 's \<Rightarrow> 's \<times> commit_outcome outcome) \<Rightarrow> loaded_session \<Rightarrow> audit_fact list
      \<Rightarrow> 's \<Rightarrow> 's \<times> loaded_session outcome" where
  "SessionJournal_commit commit session facts s =
     (case CeremonyCommit_new (ls_instance session) (ls_expected session) facts [] of
        Inl e \<Rightarrow> (s, Inl e)
      | Inr c \<Rightarrow>
          (case commit c s of
             (s', Inl e) \<Rightarrow> (s', Inl e)
           | (s', Inr (Committed revision _)) \<Rightarrow>
               (s', Inr \<lparr>ls_instance = ls_instance session, ls_expected = Exactly revision\<rparr>)
           | (s', Inr (CommitConflict _ _)) \<Rightarrow> (s', Inl (Conflict ''ceremony_instance''))))"

definition SessionJournal_open ::
    "(ceremony_commit \<Rightarrow> 's \<Rightarrow> 's \<times> commit_outcome outcome) \<Rightarrow> ceremony_instance \<Rightarrow> audit_fact list
      \<Rightarrow> 's \<Rightarrow> 's \<times> loaded_session outcome" where
  "SessionJournal_open commit i facts s =
     (case CeremonyCommit_new i New facts [] of
        Inl e \<Rightarrow> (s, Inl e)
      | Inr c \<Rightarrow>
          (case commit c s of
             (s', Inl e) \<Rightarrow> (s', Inl e)
           | (s', Inr (Committed revision _)) \<Rightarrow>
               (s', Inr \<lparr>ls_instance = i, ls_expected = Exactly revision\<rparr>)
           | (s', Inr (CommitConflict _ _)) \<Rightarrow> (s', Inl (AlreadyExists ''ceremony_instance''))))"

section \<open>The interface\<close>

text \<open>
  What a unit of work promises: a commit is accepted only against the stored revision; what
  was committed is what is read back, with the facts sealed at the end of the journal;
  a refused commit changes nothing that can be read; other ceremonies are never touched.
\<close>

locale session_store =
  fixes commit :: "ceremony_commit \<Rightarrow> 's \<Rightarrow> 's \<times> commit_outcome outcome"
    and revision :: "'s \<Rightarrow> rstr \<Rightarrow> ceremony_revision option"
    and instance_of :: "'s \<Rightarrow> rstr \<Rightarrow> ceremony_instance option"
    and records :: "'s \<Rightarrow> rstr \<Rightarrow> audit_record list"
    and messages :: "'s \<Rightarrow> rstr \<Rightarrow> outbox_message list"
  assumes committed: "commit c s = (s', Inr (Committed rv recs)) \<Longrightarrow>
      cid = inst_id (commit_instance c) \<Longrightarrow>
      ExpectedRevision_matches (commit_expected_revision c) (revision s cid) \<and>
      rv = ExpectedRevision_resulting_revision (commit_expected_revision c) \<and>
      revision s' cid = Some rv \<and> instance_of s' cid = Some (commit_instance c) \<and>
      records s' cid = records s cid @ recs \<and>
      messages s' cid = messages s cid @ commit_messages c \<and>
      list_all2 records_fact (commit_facts c) recs"
    and refused: "commit c s = (s', r) \<Longrightarrow> \<nexists>rv recs. r = Inr (Committed rv recs) \<Longrightarrow>
      revision s' cid = revision s cid \<and> instance_of s' cid = instance_of s cid \<and>
      records s' cid = records s cid \<and> messages s' cid = messages s cid"
    and others: "commit c s = (s', r) \<Longrightarrow> cid \<noteq> inst_id (commit_instance c) \<Longrightarrow>
      revision s' cid = revision s cid \<and> instance_of s' cid = instance_of s cid \<and>
      records s' cid = records s cid \<and> messages s' cid = messages s cid"
    and conflict: "commit c s = (s', Inr (CommitConflict e st)) \<Longrightarrow>
      \<not> ExpectedRevision_matches (commit_expected_revision c) (revision s (inst_id (commit_instance c)))"
begin

text \<open>A session that was committed reads back as it was written.\<close>

lemma journal_commit_reads_back:
  assumes "SessionJournal_commit commit session facts s = (s', Inr session')"
  shows "instance_of s' (inst_id (ls_instance session)) = Some (ls_instance session) \<and>
    ls_instance session' = ls_instance session \<and>
    ls_expected session' = Exactly (ExpectedRevision_resulting_revision (ls_expected session)) \<and>
    ExpectedRevision_matches (ls_expected session) (revision s (inst_id (ls_instance session))) \<and>
    revision s' (inst_id (ls_instance session)) = Some (ExpectedRevision_resulting_revision (ls_expected session)) \<and>
    (\<exists>sealed. records s' (inst_id (ls_instance session)) = records s (inst_id (ls_instance session)) @ sealed \<and>
      list_all2 records_fact facts sealed) \<and>
    (\<forall>cid. cid \<noteq> inst_id (ls_instance session) \<longrightarrow>
      instance_of s' cid = instance_of s cid \<and> revision s' cid = revision s cid \<and>
      records s' cid = records s cid)"
proof -
  from assms obtain c where c: "CeremonyCommit_new (ls_instance session) (ls_expected session) facts [] = Inr c"
    by (auto simp: SessionJournal_commit_def split: sum.splits)
  then have cf: "commit_instance c = ls_instance session" "commit_expected_revision c = ls_expected session"
    "commit_facts c = facts"
    by (auto simp: CeremonyCommit_new_def split: if_splits)
  from assms c obtain rv recs where com: "commit c s = (s', Inr (Committed rv recs))"
    and s': "session' = \<lparr>ls_instance = ls_instance session, ls_expected = Exactly rv\<rparr>"
    by (auto simp: SessionJournal_commit_def split: prod.splits sum.splits commit_outcome.splits)
  from committed [OF com refl] others [OF com] show ?thesis by (simp add: cf s')
qed

text \<open>A failed commit leaves nothing behind.\<close>

lemma journal_commit_failed:
  assumes "SessionJournal_commit commit session facts s = (s', Inl e)"
  shows "instance_of s' cid = instance_of s cid \<and> revision s' cid = revision s cid \<and>
    records s' cid = records s cid"
proof (cases "CeremonyCommit_new (ls_instance session) (ls_expected session) facts []")
  case (Inl e')
  then show ?thesis using assms by (simp add: SessionJournal_commit_def)
next
  case (Inr c)
  obtain s'' r where com: "commit c s = (s'', r)" by (cases "commit c s")
  have "s'' = s'" and "\<nexists>rv recs. r = Inr (Committed rv recs)"
    using assms Inr com
    by (auto simp: SessionJournal_commit_def split: sum.splits commit_outcome.splits)
  then show ?thesis using refused [OF com] by blast
qed

end

section \<open>The in-memory store provides it\<close>

lemmas store_reads = store_revision_def store_instance_def store_records_def store_outbox_def
  entry_or_default_def StoredCeremony_default_def

text \<open>What the three outcomes of a commit do to the map.\<close>

lemma store_commit_cases:
  obtains (conflict) "\<not> ExpectedRevision_matches (commit_expected_revision c)
      (store_revision s (inst_id (commit_instance c)))"
    and "store_commit sha rfc c s = (bt_insert (inst_id (commit_instance c))
      (entry_or_default s (inst_id (commit_instance c))) s,
      Inr (CommitConflict (commit_expected_revision c) (store_revision s (inst_id (commit_instance c)))))"
  | (unsealed) e where "ExpectedRevision_matches (commit_expected_revision c)
      (store_revision s (inst_id (commit_instance c)))"
    and "seal_facts sha rfc (store_records s (inst_id (commit_instance c))) (commit_facts c) = Inl e"
    and "store_commit sha rfc c s = (bt_insert (inst_id (commit_instance c))
      (entry_or_default s (inst_id (commit_instance c))) s, Inl e)"
  | (committed) sealed where "ExpectedRevision_matches (commit_expected_revision c)
      (store_revision s (inst_id (commit_instance c)))"
    and "seal_facts sha rfc (store_records s (inst_id (commit_instance c))) (commit_facts c)
      = Inr (store_records s (inst_id (commit_instance c)) @ sealed, sealed)"
    and "list_all2 records_fact (commit_facts c) sealed"
    and "store_commit sha rfc c s = (bt_insert (inst_id (commit_instance c))
      ((entry_or_default s (inst_id (commit_instance c)))\<lparr>
         st_revision := Some (ExpectedRevision_resulting_revision (commit_expected_revision c)),
         st_instance := Some (commit_instance c),
         st_journal := store_records s (inst_id (commit_instance c)) @ sealed,
         st_outbox := st_outbox (entry_or_default s (inst_id (commit_instance c))) @
           map StoredOutboxMessage_new (commit_messages c)\<rparr>) s,
      Inr (Committed (ExpectedRevision_resulting_revision (commit_expected_revision c)) sealed))"
proof -
  let ?cid = "inst_id (commit_instance c)"
  let ?st = "entry_or_default s ?cid"
  have rv: "st_revision ?st = store_revision s ?cid" and jn: "st_journal ?st = store_records s ?cid"
    by (simp_all add: store_reads split: option.split)
  show thesis
  proof (cases "ExpectedRevision_matches (commit_expected_revision c) (store_revision s ?cid)")
    case False
    then show thesis using conflict by (simp add: store_commit_def Let_def rv)
  next
    case True
    show thesis
    proof (cases "seal_facts sha rfc (store_records s ?cid) (commit_facts c)")
      case (Inl e)
      then show thesis using unsealed [OF True Inl] True by (simp add: store_commit_def Let_def rv jn)
    next
      case (Inr x)
      obtain k sealed where x: "x = (k, sealed)" by (cases x)
      from seal_facts_records [OF Inr [unfolded x]]
      have k: "k = store_records s ?cid @ sealed" "list_all2 records_fact (commit_facts c) sealed" by simp_all
      show thesis
        by (rule committed [OF True _ k(2)]) (simp_all add: Inr x k store_commit_def Let_def rv jn True)
    qed
  qed
qed

lemma undelivered_new [simp]:
  "filter (\<lambda>e. \<not> so_delivered e) (map StoredOutboxMessage_new ms) = map StoredOutboxMessage_new ms"
  "map so_message (map StoredOutboxMessage_new ms) = ms"
  by (simp_all add: StoredOutboxMessage_new_def comp_def filter_id_conv)

lemma entry_reads:
  "store_revision (bt_insert cid st s) k = (if k = cid then st_revision st else store_revision s k)"
  "store_instance (bt_insert cid st s) k = (if k = cid then st_instance st else store_instance s k)"
  "store_records (bt_insert cid st s) k = (if k = cid then st_journal st else store_records s k)"
  "store_outbox (bt_insert cid st s) k =
     (if k = cid then map so_message (filter (\<lambda>e. \<not> so_delivered e) (st_outbox st)) else store_outbox s k)"
  by (simp_all add: store_reads)

lemma default_reads:
  "st_revision (entry_or_default s cid) = store_revision s cid"
  "st_instance (entry_or_default s cid) = store_instance s cid"
  "st_journal (entry_or_default s cid) = store_records s cid"
  "map so_message (filter (\<lambda>e. \<not> so_delivered e) (st_outbox (entry_or_default s cid))) = store_outbox s cid"
  by (simp_all add: store_reads split: option.split)

interpretation memory: session_store
  "store_commit sha rfc" store_revision store_instance store_records store_outbox for sha rfc
proof unfold_locales
  fix c s s' rv recs cid
  assume com: "store_commit sha rfc c s = (s', Inr (Committed rv recs))"
    and cid: "cid = inst_id (commit_instance c)"
  show "ExpectedRevision_matches (commit_expected_revision c) (store_revision s cid) \<and>
      rv = ExpectedRevision_resulting_revision (commit_expected_revision c) \<and>
      store_revision s' cid = Some rv \<and> store_instance s' cid = Some (commit_instance c) \<and>
      store_records s' cid = store_records s cid @ recs \<and>
      store_outbox s' cid = store_outbox s cid @ commit_messages c \<and> list_all2 records_fact (commit_facts c) recs"
    by (rule store_commit_cases [of c s sha rfc])
      (use com cid in \<open>auto simp: entry_reads default_reads simp del: map_map\<close>)
next
  fix c s s' r cid
  assume com: "store_commit sha rfc c s = (s', r)" and no: "\<nexists>rv recs. r = Inr (Committed rv recs)"
  show "store_revision s' cid = store_revision s cid \<and> store_instance s' cid = store_instance s cid \<and>
      store_records s' cid = store_records s cid \<and> store_outbox s' cid = store_outbox s cid"
    by (rule store_commit_cases [of c s sha rfc])
      (use com no in \<open>auto simp: entry_reads default_reads\<close>)
next
  fix c s s' r cid
  assume com: "store_commit sha rfc c s = (s', r)" and other: "cid \<noteq> inst_id (commit_instance c)"
  show "store_revision s' cid = store_revision s cid \<and> store_instance s' cid = store_instance s cid \<and>
      store_records s' cid = store_records s cid \<and> store_outbox s' cid = store_outbox s cid"
    by (rule store_commit_cases [of c s sha rfc]) (use com other in \<open>auto simp: entry_reads\<close>)
next
  fix c s s' e st
  assume com: "store_commit sha rfc c s = (s', Inr (CommitConflict e st))"
  show "\<not> ExpectedRevision_matches (commit_expected_revision c)
      (store_revision s (inst_id (commit_instance c)))"
    by (rule store_commit_cases [of c s sha rfc]) (use com in auto)
qed

section \<open>Interleavings\<close>

inductive store_step ::
    "(bytes \<Rightarrow> digest) \<Rightarrow> (timestamp \<Rightarrow> rstr option) \<Rightarrow> (timestamp \<Rightarrow> nat \<Rightarrow> timestamp option)
      \<Rightarrow> ceremony_store \<Rightarrow> ceremony_store \<Rightarrow> bool"
  for sha256 rfc3339 checked_add where
  commit: "\<lbrakk>CeremonyCommit_new i expected facts messages = Inr c; store_commit sha256 rfc3339 c s = (s', r)\<rbrakk>
    \<Longrightarrow> store_step sha256 rfc3339 checked_add s s'"
| append: "store_append sha256 rfc3339 f s = (s', r) \<Longrightarrow> store_step sha256 rfc3339 checked_add s s'"
| claim: "store_claim checked_add limit now lease s = Some (s', claimed) \<Longrightarrow>
    store_step sha256 rfc3339 checked_add s s'"
| delivered: "store_step sha256 rfc3339 checked_add s (store_mark_delivered ids s)"
| failed: "store_step sha256 rfc3339 checked_add s (store_mark_failed eid s)"
| quarantine: "store_step sha256 rfc3339 checked_add s (store_quarantine eid why s)"
| save: "store_step sha256 rfc3339 checked_add s (store_save i s)"

definition store_wf :: "(bytes \<Rightarrow> digest) \<Rightarrow> (timestamp \<Rightarrow> rstr option) \<Rightarrow> ceremony_store \<Rightarrow> bool" where
  "store_wf sha256 rfc3339 s =
     (bt_wf s \<and>
      (\<forall>cid st. bt_get s cid = Some st \<longrightarrow>
         AuditChain_verify sha256 rfc3339 (st_journal st) = Intact \<and>
         (\<forall>r \<in> set (st_journal st). arec_ceremony_id r = cid) \<and>
         (st_revision st = None \<longleftrightarrow> st_instance st = None) \<and>
         (\<forall>i. st_instance st = Some i \<longrightarrow> inst_id i = cid)))"

text \<open>Outbox calls touch nothing but outboxes.\<close>

definition same_but_outbox :: "ceremony_store \<Rightarrow> ceremony_store \<Rightarrow> bool" where
  "same_but_outbox s s' =
     list_all2 (\<lambda>(k, st) (k', st'). k = k' \<and> st_revision st' = st_revision st \<and>
       st_instance st' = st_instance st \<and> st_journal st' = st_journal st) s s'"

lemma map_outbox_same: "same_but_outbox s (map_outbox f s)"
  by (auto simp: same_but_outbox_def map_outbox_def list_all2_conv_all_nth split: prod.splits)

lemma claim_loop_same: "claim_loop limit now lu n s = (s', claimed) \<Longrightarrow> same_but_outbox s s'"
proof (induction limit now lu n s arbitrary: s' claimed rule: claim_loop.induct)
  case (1 limit now lu n)
  then show ?case by (simp add: same_but_outbox_def)
next
  case (2 limit now lu n cid st s)
  have refl: "same_but_outbox s s" for s
    by (auto simp: same_but_outbox_def list_all2_conv_all_nth split: prod.splits)
  show ?case
    using 2 refl by (fastforce simp: same_but_outbox_def split: if_splits option.splits prod.splits)
qed

lemma same_but_outbox_get:
  assumes "same_but_outbox s s'"
  shows "bt_keys s' = bt_keys s"
    and "rel_option (\<lambda>st st'. st_revision st' = st_revision st \<and> st_instance st' = st_instance st \<and>
      st_journal st' = st_journal st) (bt_get s k) (bt_get s' k)"
  using assms unfolding same_but_outbox_def
  by (induction rule: list_all2_induct) (auto split: prod.splits)

lemma same_but_outbox_reads:
  assumes "same_but_outbox s s'"
  shows "store_revision s' k = store_revision s k" "store_instance s' k = store_instance s k"
    "store_records s' k = store_records s k"
  using same_but_outbox_get(2) [OF assms, of k]
  by (auto simp: store_reads split: option.splits)

lemma same_but_outbox_wf:
  assumes "store_wf sha rfc s" and "same_but_outbox s s'"
  shows "store_wf sha rfc s'"
proof -
  have "bt_wf s'" using assms same_but_outbox_get(1) by (simp add: store_wf_def bt_wf_def)
  moreover have "AuditChain_verify sha rfc (st_journal st') = Intact \<and>
      (\<forall>r \<in> set (st_journal st'). arec_ceremony_id r = k) \<and>
      (st_revision st' = None \<longleftrightarrow> st_instance st' = None) \<and>
      (\<forall>i. st_instance st' = Some i \<longrightarrow> inst_id i = k)" if "bt_get s' k = Some st'" for k st'
  proof -
    from same_but_outbox_get(2) [OF assms(2), of k] that obtain st where
      "bt_get s k = Some st" "st_revision st' = st_revision st" "st_instance st' = st_instance st"
      "st_journal st' = st_journal st"
      by (cases "bt_get s k") auto
    then show ?thesis using assms(1) by (simp add: store_wf_def)
  qed
  ultimately show ?thesis by (simp add: store_wf_def)
qed

lemma entry_wf:
  assumes "store_wf sha rfc s" and "AuditChain_verify sha rfc (st_journal st) = Intact"
    and "\<forall>r \<in> set (st_journal st). arec_ceremony_id r = cid"
    and "st_revision st = None \<longleftrightarrow> st_instance st = None" and "\<forall>i. st_instance st = Some i \<longrightarrow> inst_id i = cid"
  shows "store_wf sha rfc (bt_insert cid st s)"
  using assms by (auto simp: store_wf_def split: if_splits)

lemma default_wf:
  assumes "store_wf sha rfc s"
  shows "AuditChain_verify sha rfc (st_journal (entry_or_default s cid)) = Intact"
    and "\<forall>r \<in> set (st_journal (entry_or_default s cid)). arec_ceremony_id r = cid"
    and "st_revision (entry_or_default s cid) = None \<longleftrightarrow> st_instance (entry_or_default s cid) = None"
    and "\<forall>i. st_instance (entry_or_default s cid) = Some i \<longrightarrow> inst_id i = cid"
  using assms
  by (auto simp: store_wf_def entry_or_default_def StoredCeremony_default_def split: option.splits)

lemma commit_wf:
  assumes wf: "store_wf sha rfc s" and c: "CeremonyCommit_new i expected facts messages = Inr c"
    and com: "store_commit sha rfc c s = (s', r)"
  shows "store_wf sha rfc s'"
proof -
  let ?cid = "inst_id (commit_instance c)"
  note dw = default_wf [OF wf, of ?cid]
  have facts: "\<forall>f \<in> set (commit_facts c). fact_ceremony_id f = ?cid"
    using c by (auto simp: CeremonyCommit_new_def list_ex_iff split: if_splits)
  show ?thesis
  proof (rule store_commit_cases [of c s sha rfc])
    fix sealed
    assume seal: "seal_facts sha rfc (store_records s ?cid) (commit_facts c)
        = Inr (store_records s ?cid @ sealed, sealed)"
      and res: "store_commit sha rfc c s = (bt_insert ?cid ((entry_or_default s ?cid)\<lparr>
         st_revision := Some (ExpectedRevision_resulting_revision (commit_expected_revision c)),
         st_instance := Some (commit_instance c),
         st_journal := store_records s ?cid @ sealed,
         st_outbox := st_outbox (entry_or_default s ?cid) @
           map StoredOutboxMessage_new (commit_messages c)\<rparr>) s,
        Inr (Committed (ExpectedRevision_resulting_revision (commit_expected_revision c)) sealed))"
    note intact = seal_facts_intact [OF dw(1) [unfolded default_reads] seal]
    have "\<forall>x \<in> set sealed. arec_ceremony_id x = ?cid"
      using list_all2_right [OF conjunct2 [OF seal_facts_records [OF seal]]] facts records_fact_ceremony
      by fastforce
    moreover have "\<forall>x \<in> set (store_records s ?cid). arec_ceremony_id x = ?cid"
      using dw(2) by (simp add: default_reads)
    moreover note s' = trans [OF com [symmetric] res, THEN conjunct1 [OF prod.inject [THEN iffD1]]]
    ultimately show ?thesis
      unfolding s' by (intro entry_wf [OF wf]) (simp_all add: intact ball_Un)
  next
    assume "store_commit sha rfc c s = (bt_insert ?cid (entry_or_default s ?cid) s,
        Inr (CommitConflict (commit_expected_revision c) (store_revision s ?cid)))"
    then have "s' = bt_insert ?cid (entry_or_default s ?cid) s" using com by simp
    then show ?thesis using entry_wf [OF wf dw] by simp
  next
    fix e
    assume "store_commit sha rfc c s = (bt_insert ?cid (entry_or_default s ?cid) s, Inl e)"
    then have "s' = bt_insert ?cid (entry_or_default s ?cid) s" using com by simp
    then show ?thesis using entry_wf [OF wf dw] by simp
  qed
qed

lemma append_wf:
  assumes wf: "store_wf sha rfc s" and app: "store_append sha rfc f s = (s', r)"
  shows "store_wf sha rfc s'"
proof -
  note dw = default_wf [OF wf, of "fact_ceremony_id f"]
  show ?thesis
    using app dw seal_next_intact [OF dw(1)] entry_wf [OF wf] records_fact_ceremony seal_next_records
    by (fastforce simp: store_append_def Let_def split: sum.splits)
qed

lemma store_step_wf:
  assumes "store_step sha rfc add s s'" and "store_wf sha rfc s"
  shows "store_wf sha rfc s'"
  using assms
proof (induction rule: store_step.induct)
  case commit
  then show ?case by (blast intro: commit_wf)
next
  case append
  then show ?case by (blast intro: append_wf)
next
  case claim
  then show ?case
    by (auto simp: store_claim_def split: option.splits intro: same_but_outbox_wf claim_loop_same)
next
  case (save i)
  then show ?case using default_wf [OF save] by (auto simp: store_save_def Let_def intro!: entry_wf)
qed (auto simp: store_mark_delivered_def store_mark_failed_def store_quarantine_def
    intro: same_but_outbox_wf map_outbox_same)

end
