(* ===== verification/Session_Operations.thy ===== *)
theory Session_Operations
  imports Session_Invariant
begin

text \<open>
  The contract of the mutating methods of \<open>CeremonyInstance\<close> and its interpretation on each of
  them.  For every method one lemma reads its success as the conjunction of its guards and
  the exact change it makes; the interpretations follow from those.
\<close>

section \<open>What success means\<close>

lemma start_step_Inr:
  "CeremonyInstance_start_step i d sid lease now = Inr (j, a) \<Longrightarrow>
     CeremonyInstance_matches_definition i d \<and>
     \<not> CeremonyDefinition_is_terminal_state d (inst_current_state i) \<and>
     (\<exists>step r. bt_get (def_steps d) sid = Some step \<and> step_state_id step = inst_current_state i \<and>
        bt_get (inst_step_records i) sid = Some r \<and>
        StepExecutionRecord_can_be_started_at r now \<and>
        a = (if rec_status r = Failed \<or> rec_status r = InProgress
             then sat_succ (rec_attempt r) else rec_attempt r) \<and>
        RetryPolicy_allows_attempt (step_retry_policy step) a \<and>
        lease_idempotency_key lease \<notin> set (inst_idempotency_keys i) \<and>
        j = i\<lparr>inst_idempotency_keys :=
                bset_insert (lease_idempotency_key lease) (inst_idempotency_keys i),
              inst_step_records := bt_insert sid (StepExecutionRecord_with_started r lease a)
                (inst_step_records i),
              inst_updated_at := now\<rparr>)"
  by (auto simp: CeremonyInstance_start_step_def CeremonyInstance_is_terminal_def
      next_attempt_for_start_def StepAttempt_next_Inr result_simps split: if_splits)

lemma start_step_as_Inr:
  "CeremonyInstance_start_step_as i d rid sid lease now = Inr x \<longleftrightarrow>
     CeremonyInstance_matches_definition i d \<and> CeremonyDefinition_role_allows d rid (Act_Step sid) \<and>
     CeremonyInstance_start_step i d sid lease now = Inr x"
  by (auto simp: CeremonyInstance_start_step_as_def result_simps)

lemma apply_step_result_Inr:
  "CeremonyInstance_apply_step_result i d sid res now = Inr j \<Longrightarrow>
     CeremonyInstance_matches_definition i d \<and>
     (\<exists>step r. bt_get (def_steps d) sid = Some step \<and> step_state_id step = inst_current_state i \<and>
        bt_get (inst_step_records i) sid = Some r \<and> rec_status r = InProgress \<and>
        j = i\<lparr>inst_step_records := bt_insert sid (StepExecutionRecord_with_result r res)
                (inst_step_records i),
              inst_updated_at := now\<rparr>)"
  by (auto simp: CeremonyInstance_apply_step_result_def result_simps split: if_splits)

lemma approve_guard_Inr:
  "CeremonyInstance_approve_guard i d n rid k now = Inr j \<Longrightarrow>
     CeremonyInstance_matches_definition i d \<and>
     \<not> CeremonyDefinition_is_terminal_state d (inst_current_state i) \<and>
     human_guard d n \<and> bt_contains_key (def_roles d) rid \<and>
     j = i\<lparr>inst_context := bt_insert n (JBool True) (inst_context i),
           inst_guard_approvals := inst_guard_approvals i @
             [\<lparr>approval_guard_name = n, approval_approved_by = rid,
               approval_approved_by_kind = k, approval_approved_at = now\<rparr>],
           inst_updated_at := now\<rparr>"
  by (auto simp: CeremonyInstance_approve_guard_def human_guard_def result_simps
      dest!: with_guard_approval_Inr split: if_splits)

lemma bind_participant_Inr:
  "CeremonyInstance_bind_participant i d rid sp now = Inr j \<Longrightarrow>
     CeremonyInstance_matches_definition i d \<and>
     \<not> CeremonyDefinition_is_terminal_state d (inst_current_state i) \<and>
     bt_contains_key (def_roles d) rid \<and>
     j = i\<lparr>inst_participant_bindings :=
             bt_insert rid \<lparr>binding_role_id = rid, binding_specialty = sp, binding_bound_at = now\<rparr>
               (inst_participant_bindings i),
           inst_updated_at := now\<rparr>"
  by (auto simp: CeremonyInstance_bind_participant_def bt_contains_key_def result_simps
      split: if_splits)

lemma defer_guard_Inr:
  "CeremonyInstance_defer_guard i d n content rid k now = Inr j \<Longrightarrow>
     CeremonyInstance_matches_definition i d \<and>
     \<not> CeremonyDefinition_is_terminal_state d (inst_current_state i) \<and>
     human_guard d n \<and> bt_contains_key (def_roles d) rid \<and>
     \<not> CeremonyContext_is_guard_approved (inst_context i) n \<and>
     j = i\<lparr>inst_guard_deferrals := inst_guard_deferrals i @
             [\<lparr>deferral_guard_name = n, deferral_deferred_by = rid, deferral_deferred_by_kind = k,
               deferral_content = content, deferral_deferred_at = now\<rparr>],
           inst_updated_at := now\<rparr>"
  by (auto simp: CeremonyInstance_defer_guard_def human_guard_def result_simps split: if_splits)

lemma request_intervention_Inr:
  "CeremonyInstance_request_intervention_with_provenance_as i d iid rid k target content prov now = Inr j \<Longrightarrow>
     CeremonyInstance_matches_definition i d \<and>
     \<not> CeremonyDefinition_is_terminal_state d (inst_current_state i) \<and>
     iid \<notin> int_id ` set (inst_interventions i) \<and>
     j = i\<lparr>inst_interventions := inst_interventions i @
             [CeremonyIntervention_open_with_provenance iid k rid target content prov now],
           inst_updated_at := now\<rparr>"
  by (auto simp: CeremonyInstance_request_intervention_with_provenance_as_def result_simps
      list_ex_iff split: if_splits)

lemma update_intervention_Inr:
  "update_intervention i iid f = Inr j \<longleftrightarrow>
     (\<exists>x y. CeremonyInstance_intervention i iid = Some x \<and> f x = Inr y \<and>
        j = i\<lparr>inst_interventions := update_first (\<lambda>z. int_id z = iid) y (inst_interventions i)\<rparr>)"
  by (auto simp: update_intervention_def result_simps)

lemma close_intervention_Inr:
  "CeremonyInstance_close_intervention_as i d iid rid now = Inr j \<Longrightarrow>
     CeremonyInstance_matches_definition i d \<and>
     \<not> CeremonyDefinition_is_terminal_state d (inst_current_state i) \<and>
     (\<exists>h. update_intervention i iid (\<lambda>x. CeremonyIntervention_close x rid now) = Inr h \<and>
        j = h\<lparr>inst_updated_at := now\<rparr>)"
  by (auto simp: CeremonyInstance_close_intervention_as_def result_simps)

lemma respond_to_intervention_Inr:
  "CeremonyInstance_respond_to_intervention_as i d iid rid content now = Inr j \<Longrightarrow>
     CeremonyInstance_matches_definition i d \<and>
     \<not> CeremonyDefinition_is_terminal_state d (inst_current_state i) \<and>
     (\<exists>h. update_intervention i iid (\<lambda>x. CeremonyIntervention_respond x rid content now) = Inr h \<and>
        j = (record_that_it_answers h iid now)\<lparr>inst_updated_at := now\<rparr>)"
  by (auto simp: CeremonyInstance_respond_to_intervention_as_def result_simps)

lemma respond_with_evidence_to_intervention_Inr:
  "CeremonyInstance_respond_to_intervention_with_evidence_as tv i d iid rid pack now = Inr j \<Longrightarrow>
     CeremonyInstance_matches_definition i d \<and>
     \<not> CeremonyDefinition_is_terminal_state d (inst_current_state i) \<and>
     (\<exists>h. update_intervention i iid
            (\<lambda>x. CeremonyIntervention_respond_with_evidence tv x rid pack now) = Inr h \<and>
        j = (record_that_it_answers h iid now)\<lparr>inst_updated_at := now\<rparr>)"
  by (auto simp: CeremonyInstance_respond_to_intervention_with_evidence_as_def result_simps)

lemma assert_reason_Inr:
  "CeremonyInstance_assert_reason_as i d rid src dst k why c now = Inr j \<Longrightarrow>
     CeremonyInstance_matches_definition i d \<and> bt_contains_key (def_roles d) rid \<and>
     record_exists i src \<and> record_exists i dst \<and>
     CeremonyReasonKind_asserter k \<noteq> TheEngine \<and>
     (CeremonyReasonKind_asserter k = ItsAuthor \<longrightarrow> author_of i src = Some rid) \<and>
     (\<exists>r. CeremonyReason_new src dst k why c (Some rid) now = Inr r \<and>
        j = i\<lparr>inst_reasons := inst_reasons i @ [r], inst_updated_at := now\<rparr>)"
  by (auto simp: CeremonyInstance_assert_reason_as_def result_simps split: reason_asserter.splits if_splits)

lemma move_on_Inr:
  "CeremonyInstance_move_on i d trigger by_role now = Inr (j, s) \<Longrightarrow>
     CeremonyInstance_matches_definition i d \<and>
     \<not> CeremonyDefinition_is_terminal_state d (inst_current_state i) \<and>
     (\<exists>t. CeremonyDefinition_transition_for_trigger d (inst_current_state i) trigger = Some t \<and>
        CeremonyDefinition_guards_are_satisfied d t (inst_step_records i) (inst_context i) \<and>
        s = trans_to t \<and>
        j = i\<lparr>inst_current_state := trans_to t,
              inst_transitions := inst_transitions i @
                [\<lparr>trec_trigger = trigger, trec_from_state = inst_current_state i,
                  trec_to_state = trans_to t, trec_applied_by = by_role, trec_applied_at = now\<rparr>],
              inst_updated_at := now,
              inst_completed_at := if CeremonyDefinition_is_terminal_state d (trans_to t)
                then Some now else inst_completed_at i\<rparr>)"
  by (auto simp: CeremonyInstance_move_on_def CeremonyInstance_is_terminal_def result_simps
      split: if_splits)

section \<open>The contract\<close>

locale session_operation =
  fixes op :: "ceremony_definition \<Rightarrow> ceremony_instance \<Rightarrow> ceremony_instance outcome"
  assumes op_matches: "op d i = Inr j \<Longrightarrow> CeremonyInstance_matches_definition i d"
    and op_extends: "op d i = Inr j \<Longrightarrow> inst_extends i j"
    and op_wf: "\<lbrakk>definition_wf d; inst_wf d ctx0 i; op d i = Inr j\<rbrakk> \<Longrightarrow> inst_wf d ctx0 j"
begin

lemma other_definition_refused:
  "\<not> CeremonyInstance_matches_definition i d \<Longrightarrow> \<exists>e. op d i = Inl e"
  using op_matches [of d i] by (cases "op d i") auto

lemma op_identity: "op d i = Inr j \<Longrightarrow> inst_identity j = inst_identity i"
  using op_extends by (simp add: inst_extends_def)

end

locale active_session_operation = session_operation +
  assumes op_active: "\<lbrakk>definition_wf d; op d i = Inr j\<rbrakk>
    \<Longrightarrow> \<not> CeremonyDefinition_is_terminal_state d (inst_current_state i)"
begin

lemma terminal_refused:
  "\<lbrakk>definition_wf d; CeremonyDefinition_is_terminal_state d (inst_current_state i)\<rbrakk>
    \<Longrightarrow> \<exists>e. op d i = Inl e"
  using op_active [of d i] by (cases "op d i") auto

end

section \<open>Steps\<close>

lemma inst_wf_steps:
  assumes wf: "inst_wf d ctx0 i"
    and recs: "steps_wf d keys recs"
    and ext: "inst_extends i (i\<lparr>inst_idempotency_keys := keys, inst_step_records := recs,
      inst_updated_at := now\<rparr>)" (is "inst_extends i ?j")
  shows "inst_wf d ctx0 ?j"
proof -
  have "reasons_wf ?j" using wf by (intro reasons_wf_mono [OF ext]) (simp_all add: inst_wf_def)
  with wf recs show ?thesis
    by (simp add: inst_wf_def CeremonyInstance_matches_definition_def)
qed

lemma steps_wf_insert:
  assumes "definition_wf d" and "steps_wf d keys recs" and "bt_get recs sid = Some r"
    and "set keys \<subseteq> set keys'" and "bset_wf keys'" and "record_ok d keys' sid r'"
  shows "steps_wf d keys' (bt_insert sid r' recs)"
proof -
  have keys: "bt_keys recs = bt_keys (def_steps d)" using assms(2) by (simp add: steps_wf_def)
  then have "bt_wf recs" using assms(1) by (simp add: bt_wf_def definition_wf_def)
  then have "bt_keys (bt_insert sid r' recs) = bt_keys recs"
    using bt_get_Some_key [OF assms(3)] by (rule bt_keys_insert_existing)
  moreover have "record_ok d keys' s x" if "bt_get recs s = Some x" for s x
    using assms(2,4) that by (fastforce simp: steps_wf_def record_ok_def)
  ultimately show ?thesis using assms(5,6) keys by (simp add: steps_wf_def)
qed

lemma inst_extends_steps:
  "bt_get (inst_step_records i) sid = Some r \<Longrightarrow> set (inst_idempotency_keys i) \<subseteq> set keys \<Longrightarrow>
     inst_extends i (i\<lparr>inst_idempotency_keys := keys,
       inst_step_records := bt_insert sid r' (inst_step_records i), inst_updated_at := now\<rparr>)"
  using bt_get_Some_key [of "inst_step_records i" sid r]
  by (auto simp: inst_extends_def inst_identity_def insert_absorb)

lemma started_ok:
  assumes "record_ok d keys sid r" and "bt_get (def_steps d) sid = Some step"
    and "RetryPolicy_allows_attempt (step_retry_policy step) a" and "a \<noteq> 0"
  shows "record_ok d (bset_insert (lease_idempotency_key l) keys) sid
    (StepExecutionRecord_with_started r l a)"
  using assms by (simp add: record_ok_def StepExecutionRecord_with_started_def record_wf_def)

lemma start_step_contract:
  assumes "CeremonyInstance_start_step i d sid lease now = Inr (j, a)"
  shows "inst_extends i j" and "definition_wf d \<Longrightarrow> inst_wf d ctx0 i \<Longrightarrow> inst_wf d ctx0 j"
proof -
  from start_step_Inr [OF assms] obtain step r where
    step: "bt_get (def_steps d) sid = Some step" and r: "bt_get (inst_step_records i) sid = Some r"
    and a: "a = (if rec_status r = Failed \<or> rec_status r = InProgress
             then sat_succ (rec_attempt r) else rec_attempt r)"
    and allows: "RetryPolicy_allows_attempt (step_retry_policy step) a"
    and j: "j = i\<lparr>inst_idempotency_keys :=
                bset_insert (lease_idempotency_key lease) (inst_idempotency_keys i),
              inst_step_records := bt_insert sid (StepExecutionRecord_with_started r lease a)
                (inst_step_records i),
              inst_updated_at := now\<rparr>" by blast
  show ext: "inst_extends i j" unfolding j by (rule inst_extends_steps [OF r]) auto
  assume d: "definition_wf d" and i: "inst_wf d ctx0 i"
  have sw: "steps_wf d (inst_idempotency_keys i) (inst_step_records i)" using i by (simp add: inst_wf_def)
  have ok: "record_ok d (inst_idempotency_keys i) sid r" using sw r by (simp add: steps_wf_def)
  have "a \<noteq> 0" using ok a by (simp add: record_ok_def record_wf_def)
  from started_ok [OF ok step allows this, of lease] sw
  have "steps_wf d (bset_insert (lease_idempotency_key lease) (inst_idempotency_keys i))
      (bt_insert sid (StepExecutionRecord_with_started r lease a) (inst_step_records i))"
    by (intro steps_wf_insert [OF d sw r]) (auto simp: steps_wf_def)
  then show "inst_wf d ctx0 j" unfolding j by (rule inst_wf_steps [OF i _ ext [unfolded j]])
qed

interpretation start_step:
  active_session_operation "\<lambda>d i. map_ok fst (CeremonyInstance_start_step i d sid lease now)"
  for sid lease now
  by unfold_locales (auto simp: result_simps dest: start_step_Inr start_step_contract)

interpretation start_step_as:
  active_session_operation "\<lambda>d i. map_ok fst (CeremonyInstance_start_step_as i d rid sid lease now)"
  for rid sid lease now
  by unfold_locales
    (auto simp: result_simps start_step_as_Inr dest: start_step_Inr start_step_contract)

lemma apply_step_result_contract:
  assumes "CeremonyInstance_apply_step_result i d sid res now = Inr j"
  shows "inst_extends i j"
    and "definition_wf d \<Longrightarrow> inst_wf d ctx0 i \<Longrightarrow> result_wf res \<Longrightarrow> inst_wf d ctx0 j"
    and "definition_wf d \<Longrightarrow> \<not> CeremonyDefinition_is_terminal_state d (inst_current_state i)"
proof -
  from apply_step_result_Inr [OF assms] obtain step r where
    step: "bt_get (def_steps d) sid = Some step" "step_state_id step = inst_current_state i"
    and r: "bt_get (inst_step_records i) sid = Some r" "rec_status r = InProgress"
    and j: "j = i\<lparr>inst_step_records := bt_insert sid (StepExecutionRecord_with_result r res)
                (inst_step_records i), inst_updated_at := now\<rparr>" by blast
  have j': "j = i\<lparr>inst_idempotency_keys := inst_idempotency_keys i,
      inst_step_records := bt_insert sid (StepExecutionRecord_with_result r res) (inst_step_records i),
      inst_updated_at := now\<rparr>" unfolding j by simp
  show ext: "inst_extends i j" unfolding j' by (rule inst_extends_steps [OF r(1)]) auto
  show "\<not> CeremonyDefinition_is_terminal_state d (inst_current_state i)" if "definition_wf d"
    using that step map_of_SomeD [OF step(1)]
    by (force simp: definition_wf_def parts_wf_def CeremonyDefinition_parts_def
        CeremonyDefinition_is_terminal_state_def)
  assume d: "definition_wf d" and i: "inst_wf d ctx0 i" and res: "result_wf res"
  have sw: "steps_wf d (inst_idempotency_keys i) (inst_step_records i)" using i by (simp add: inst_wf_def)
  then have "record_ok d (inst_idempotency_keys i) sid r" using r by (simp add: steps_wf_def)
  then have "record_ok d (inst_idempotency_keys i) sid (StepExecutionRecord_with_result r res)"
    using r(2) res by (auto simp: record_ok_def) (auto simp: StepExecutionRecord_with_result_def)
  then have "steps_wf d (inst_idempotency_keys i)
      (bt_insert sid (StepExecutionRecord_with_result r res) (inst_step_records i))"
    using sw by (intro steps_wf_insert [OF d sw r(1)]) (auto simp: steps_wf_def)
  then show "inst_wf d ctx0 j" unfolding j' by (rule inst_wf_steps [OF i _ ext [unfolded j']])
qed

text \<open>A result reaches the instance through its constructor.\<close>

interpretation apply_step_result:
  active_session_operation "\<lambda>d i. and_then (StepResult_new status out err)
    (\<lambda>res. CeremonyInstance_apply_step_result i d sid res now)"
  for status out err sid now
  by unfold_locales
    (auto simp: result_simps dest: apply_step_result_Inr apply_step_result_contract StepResult_new_wf)

section \<open>Guards, seats and reasons\<close>

lemma approve_guard_contract:
  assumes "CeremonyInstance_approve_guard i d n rid k now = Inr j"
  shows "inst_extends i j" and "inst_wf d ctx0 i \<Longrightarrow> inst_wf d ctx0 j"
proof -
  note facts = approve_guard_Inr [OF assms]
  show ext: "inst_extends i j" using facts by (auto simp: inst_extends_def inst_identity_def)
  assume i: "inst_wf d ctx0 i"
  have "reasons_wf j" using i facts by (intro reasons_wf_mono [OF ext]) (auto simp: inst_wf_def)
  moreover have "decisions_wf d ctx0 (inst_guard_approvals j) (inst_guard_deferrals j) (inst_context j)"
    using i facts by (auto simp: inst_wf_def decisions_wf_def)
  ultimately show "inst_wf d ctx0 j"
    using i facts by (auto simp: inst_wf_def CeremonyInstance_matches_definition_def)
qed

interpretation approve_guard:
  active_session_operation "\<lambda>d i. CeremonyInstance_approve_guard i d n rid k now"
  for n rid k now
  by unfold_locales (auto dest: approve_guard_Inr approve_guard_contract)

lemma bind_participant_contract:
  assumes "CeremonyInstance_bind_participant i d rid sp now = Inr j"
  shows "inst_extends i j" and "inst_wf d ctx0 i \<Longrightarrow> inst_wf d ctx0 j"
proof -
  note facts = bind_participant_Inr [OF assms]
  show ext: "inst_extends i j" using facts by (auto simp: inst_extends_def inst_identity_def)
  assume i: "inst_wf d ctx0 i"
  have "reasons_wf j" using i facts by (intro reasons_wf_mono [OF ext]) (auto simp: inst_wf_def)
  moreover have "seats_wf d (inst_participant_bindings j)"
    using i facts by (auto simp: inst_wf_def seats_wf_def split: if_splits)
  ultimately show "inst_wf d ctx0 j"
    using i facts by (auto simp: inst_wf_def CeremonyInstance_matches_definition_def)
qed

interpretation bind_participant:
  active_session_operation "\<lambda>d i. CeremonyInstance_bind_participant i d rid sp now"
  for rid sp now
  by unfold_locales (auto dest: bind_participant_Inr bind_participant_contract)

lemma defer_guard_contract:
  assumes "CeremonyInstance_defer_guard i d n content rid k now = Inr j"
  shows "inst_extends i j" and "inst_wf d ctx0 i \<Longrightarrow> inst_wf d ctx0 j"
proof -
  note facts = defer_guard_Inr [OF assms]
  show ext: "inst_extends i j" using facts by (auto simp: inst_extends_def inst_identity_def)
  assume i: "inst_wf d ctx0 i"
  have "reasons_wf j" using i facts by (intro reasons_wf_mono [OF ext]) (auto simp: inst_wf_def)
  moreover have "decisions_wf d ctx0 (inst_guard_approvals j) (inst_guard_deferrals j) (inst_context j)"
    using i facts by (auto simp: inst_wf_def decisions_wf_def)
  ultimately show "inst_wf d ctx0 j"
    using i facts by (auto simp: inst_wf_def CeremonyInstance_matches_definition_def)
qed

interpretation defer_guard:
  active_session_operation "\<lambda>d i. CeremonyInstance_defer_guard i d n content rid k now"
  for n content rid k now
  by unfold_locales (auto dest: defer_guard_Inr defer_guard_contract)

lemma assert_reason_contract:
  assumes "CeremonyInstance_assert_reason_as i d rid src dst k why c now = Inr j"
  shows "inst_extends i j" and "inst_wf d ctx0 i \<Longrightarrow> inst_wf d ctx0 j"
proof -
  from assert_reason_Inr [OF assms] obtain r where
    facts: "record_exists i src" "record_exists i dst" "CeremonyReasonKind_asserter k \<noteq> TheEngine"
    and r: "CeremonyReason_new src dst k why c (Some rid) now = Inr r"
    and j: "j = i\<lparr>inst_reasons := inst_reasons i @ [r], inst_updated_at := now\<rparr>" by blast
  show ext: "inst_extends i j" unfolding j by (simp add: inst_extends_def inst_identity_def)
  assume i: "inst_wf d ctx0 i"
  note new = CeremonyReason_new_Inr [OF r]
  have "reasons_wf j"
    using i facts new record_exists_mono [OF ext]
    by (intro reasons_wf_snoc [OF ext]) (auto simp: inst_wf_def j)
  with i show "inst_wf d ctx0 j"
    by (simp add: inst_wf_def CeremonyInstance_matches_definition_def j)
qed

interpretation assert_reason:
  session_operation "\<lambda>d i. CeremonyInstance_assert_reason_as i d rid src dst k why c now"
  for rid src dst k why c now
  by unfold_locales (auto dest: assert_reason_Inr assert_reason_contract)

section \<open>Transitions\<close>

lemma move_on_contract:
  assumes "CeremonyInstance_move_on i d trigger by_role now = Inr (j, s)"
  shows "inst_extends i j" and "definition_wf d \<Longrightarrow> inst_wf d ctx0 i \<Longrightarrow> inst_wf d ctx0 j"
proof -
  from move_on_Inr [OF assms] obtain t where
    active: "\<not> CeremonyDefinition_is_terminal_state d (inst_current_state i)"
    and t: "CeremonyDefinition_transition_for_trigger d (inst_current_state i) trigger = Some t"
    and j: "j = i\<lparr>inst_current_state := trans_to t,
              inst_transitions := inst_transitions i @
                [\<lparr>trec_trigger = trigger, trec_from_state = inst_current_state i,
                  trec_to_state = trans_to t, trec_applied_by = by_role, trec_applied_at = now\<rparr>],
              inst_updated_at := now,
              inst_completed_at := if CeremonyDefinition_is_terminal_state d (trans_to t)
                then Some now else inst_completed_at i\<rparr>" by blast
  show ext: "inst_extends i j" unfolding j by (simp add: inst_extends_def inst_identity_def)
  assume d: "definition_wf d" and i: "inst_wf d ctx0 i"
  have "reasons_wf j" using i by (intro reasons_wf_mono [OF ext]) (auto simp: inst_wf_def j)
  moreover have "path_wf d (inst_transitions j) (inst_current_state j) (inst_completed_at j)"
    using i active t by (auto simp: inst_wf_def path_wf_def log_path_snoc j)
  ultimately show "inst_wf d ctx0 j"
    using i by (simp add: inst_wf_def CeremonyInstance_matches_definition_def j)
qed

interpretation apply_transition:
  active_session_operation "\<lambda>d i. map_ok fst (CeremonyInstance_apply_transition i d trigger now)"
  for trigger now
  by unfold_locales
    (auto simp: result_simps CeremonyInstance_apply_transition_def dest: move_on_Inr move_on_contract)

interpretation apply_transition_as:
  active_session_operation "\<lambda>d i. map_ok fst (CeremonyInstance_apply_transition_as i d rid trigger now)"
  for rid trigger now
  by unfold_locales
    (auto simp: result_simps CeremonyInstance_apply_transition_as_def
      dest: move_on_Inr move_on_contract)

section \<open>Agenda items\<close>

lemma request_intervention_contract:
  assumes "CeremonyInstance_request_intervention_with_provenance_as i d iid rid k tgt content prov now = Inr j"
  shows "inst_extends i j" and "inst_wf d ctx0 i \<Longrightarrow> inst_wf d ctx0 j"
proof -
  note facts = request_intervention_Inr [OF assms]
  show ext: "inst_extends i j" using facts by (auto simp: inst_extends_def inst_identity_def)
  assume i: "inst_wf d ctx0 i"
  have "reasons_wf j" using i facts by (intro reasons_wf_mono [OF ext]) (auto simp: inst_wf_def)
  moreover have "agenda_wf (inst_interventions j)"
    using i facts by (auto simp: inst_wf_def agenda_wf_def)
  ultimately show "inst_wf d ctx0 j"
    using i facts by (auto simp: inst_wf_def CeremonyInstance_matches_definition_def)
qed

interpretation request_intervention:
  active_session_operation "\<lambda>d i. CeremonyInstance_request_intervention_with_provenance_as i d iid rid k tgt content prov now"
  for iid rid k tgt content prov now
  by unfold_locales (auto dest: request_intervention_Inr request_intervention_contract)

text \<open>Any operation that honours the contract of an agenda item may be applied in place.\<close>

context agenda_operation
begin

lemma update_extends:
  assumes "update_intervention i iid op = Inr j"
  shows "inst_extends i j" and "agenda_wf (inst_interventions i) \<Longrightarrow> agenda_wf (inst_interventions j)"
    and "inst_reasons j = inst_reasons i"
proof -
  from assms obtain x y where
    x: "find (\<lambda>z. int_id z = iid) (inst_interventions i) = Some x" and y: "op x = Inr y"
    and j: "j = i\<lparr>inst_interventions := update_first (\<lambda>z. int_id z = iid) y (inst_interventions i)\<rparr>"
    by (auto simp: update_intervention_Inr CeremonyInstance_intervention_def)
  from update_first_split [OF x] obtain us vs where
    split: "inst_interventions i = us @ x # vs"
    and upd: "\<And>y. update_first (\<lambda>z. int_id z = iid) y (inst_interventions i) = us @ y # vs"
    by metis
  have j': "inst_interventions j = us @ y # vs" unfolding j upd by simp
  have "list_all2 intervention_extends (us @ x # vs) (us @ y # vs)"
    using op_extends [OF y] by (simp add: list_all2_append list.rel_refl)
  then have "agenda_extends (inst_interventions i) (inst_interventions j)"
    unfolding agenda_extends_def split j' by (metis append_Nil2)
  then show "inst_extends i j" by (simp add: inst_extends_def inst_identity_def j)
  show "agenda_wf (inst_interventions j)" if "agenda_wf (inst_interventions i)"
    using that op_id [OF y] op_wf [OF _ y] unfolding j' split agenda_wf_def by simp
  show "inst_reasons j = inst_reasons i" by (simp add: j)
qed

lemma update_wf:
  assumes "update_intervention i iid op = Inr j" and "inst_wf d ctx0 i"
  shows "inst_wf d ctx0 j"
proof -
  note upd = update_extends [OF assms(1)]
  have "reasons_wf j"
    using assms(2) upd(3) by (intro reasons_wf_mono [OF upd(1)]) (simp_all add: inst_wf_def)
  moreover have "agenda_wf (inst_interventions j)" using upd(2) assms(2) by (simp add: inst_wf_def)
  ultimately show ?thesis using assms
    by (auto simp: inst_wf_def update_intervention_Inr CeremonyInstance_matches_definition_def)
qed

end

lemma answers_extends: "inst_extends i (record_that_it_answers i iid now)"
  by (auto simp: record_that_it_answers_def Let_def inst_extends_def inst_identity_def
      split: option.splits sum.splits)

lemma touch_extends: "inst_extends i j \<Longrightarrow> inst_extends i (j\<lparr>inst_updated_at := now\<rparr>)"
  by (simp add: inst_extends_def inst_identity_def)

lemma touch_wf: "inst_wf d ctx0 i \<Longrightarrow> inst_wf d ctx0 (i\<lparr>inst_updated_at := now\<rparr>)"
proof -
  assume i: "inst_wf d ctx0 i"
  have "reasons_wf (i\<lparr>inst_updated_at := now\<rparr>)"
    using i by (intro reasons_wf_mono [OF touch_extends [OF inst_extends_refl]]) (simp_all add: inst_wf_def)
  with i show ?thesis by (simp add: inst_wf_def CeremonyInstance_matches_definition_def)
qed

lemma answers_wf:
  assumes i: "inst_wf d ctx0 i"
  shows "inst_wf d ctx0 (record_that_it_answers i iid now)" (is "inst_wf d ctx0 ?j")
proof (cases "?j = i")
  case True
  then show ?thesis using i by simp
next
  case False
  then obtain item r where
    item: "CeremonyInstance_intervention i iid = Some item" and n: "int_responses item \<noteq> []"
    and small: "length (int_responses item) - 1 < 2 ^ 32"
    and r: "CeremonyReason_new (Ref_Contribution iid (word_of_nat (length (int_responses item) - 1)))
              (Ref_AgendaItem iid) Answers
              (lit ''a contribution made against this agenda item'') High None now = Inr r"
    and j: "?j = i\<lparr>inst_reasons := inst_reasons i @ [r]\<rparr>"
    by (auto simp: record_that_it_answers_def Let_def not_le split: option.splits sum.splits if_splits)
  note new = CeremonyReason_new_Inr [OF r]
  define w where "w = (word_of_nat (length (int_responses item) - 1) :: 32 word)"
  have "unat w = length (int_responses item) - 1"
    unfolding w_def unat_of_nat using small by simp
  then have "unat w < length (int_responses item)" using n by (cases "int_responses item") auto
  moreover have "reason_from r = Ref_Contribution iid w" "reason_to r = Ref_AgendaItem iid"
    using new unfolding w_def by blast+
  ultimately have cites: "record_exists i (reason_from r)" "record_exists i (reason_to r)"
    using item by (simp_all add: record_exists_def)
  note ext = answers_extends [of i iid now]
  have "reasons_wf ?j"
    by (rule reasons_wf_snoc [OF ext, of r])
      (use i new cites [THEN record_exists_mono [OF ext]] in \<open>auto simp: inst_wf_def j\<close>)
  with i show ?thesis by (simp add: inst_wf_def CeremonyInstance_matches_definition_def j)
qed

interpretation close_intervention:
  active_session_operation "\<lambda>d i. CeremonyInstance_close_intervention_as i d iid rid now"
  for iid rid now
  by unfold_locales
    (auto dest!: close_intervention_Inr intro: touch_extends touch_wf close.update_extends close.update_wf)

interpretation respond_to_intervention:
  active_session_operation "\<lambda>d i. CeremonyInstance_respond_to_intervention_as i d iid rid content now"
  for iid rid content now
  by unfold_locales
    (auto dest!: respond_to_intervention_Inr
      intro: touch_extends touch_wf answers_wf respond.update_wf
        inst_extends_trans [OF respond.update_extends(1) answers_extends])

interpretation respond_to_intervention_with_evidence:
  active_session_operation
    "\<lambda>d i. CeremonyInstance_respond_to_intervention_with_evidence_as tv i d iid rid pack now"
  for tv iid rid pack now
  by unfold_locales
    (auto dest!: respond_with_evidence_to_intervention_Inr
      intro: touch_extends touch_wf answers_wf respond_with_evidence.update_wf
        inst_extends_trans [OF respond_with_evidence.update_extends(1) answers_extends])

end
