(* ===== verification/Ceremony_Sessions.thy ===== *)
theory Ceremony_Sessions
  imports Session_Operations
begin

text \<open>
  Whole sessions: the step relation \<open>session_step\<close> has one rule per mutating method of
  \<open>CeremonyInstance\<close>, and \<open>session_reachable\<close> is what can be reached from a freshly opened
  instance in any order of calls.  The properties say what holds of every session: the
  invariant, an append-only history, a log that is a path, no work after the end, one
  holder per lease, idempotency keys used once, human guards passed only with an approval.
\<close>

section \<open>Steps of a session\<close>

inductive session_step ::
    "(ceremony_evidence_pack \<Rightarrow> json option) \<Rightarrow> ceremony_definition \<Rightarrow> ceremony_instance
      \<Rightarrow> ceremony_instance \<Rightarrow> bool"
  for to_value d where
  start: "CeremonyInstance_start_step i d sid lease now = Inr (j, a) \<Longrightarrow> session_step to_value d i j"
| start_as: "CeremonyInstance_start_step_as i d rid sid lease now = Inr (j, a) \<Longrightarrow>
    session_step to_value d i j"
| result: "\<lbrakk>StepResult_new status out err = Inr res;
    CeremonyInstance_apply_step_result i d sid res now = Inr j\<rbrakk> \<Longrightarrow> session_step to_value d i j"
| approve: "CeremonyInstance_approve_guard i d n rid k now = Inr j \<Longrightarrow> session_step to_value d i j"
| bind: "CeremonyInstance_bind_participant i d rid sp now = Inr j \<Longrightarrow> session_step to_value d i j"
| postpone: "CeremonyInstance_defer_guard i d n content rid k now = Inr j \<Longrightarrow> session_step to_value d i j"
| request: "CeremonyInstance_request_intervention_with_provenance_as i d iid rid kd tgt c prov now = Inr j
    \<Longrightarrow> session_step to_value d i j"
| respond: "CeremonyInstance_respond_to_intervention_as i d iid rid c now = Inr j \<Longrightarrow>
    session_step to_value d i j"
| evidence: "CeremonyInstance_respond_to_intervention_with_evidence_as to_value i d iid rid pack now = Inr j
    \<Longrightarrow> session_step to_value d i j"
| close: "CeremonyInstance_close_intervention_as i d iid rid now = Inr j \<Longrightarrow> session_step to_value d i j"
| reason: "CeremonyInstance_assert_reason_as i d rid src dst rk why conf now = Inr j \<Longrightarrow>
    session_step to_value d i j"
| transition: "CeremonyInstance_apply_transition i d trigger now = Inr (j, s) \<Longrightarrow>
    session_step to_value d i j"
| transition_as: "CeremonyInstance_apply_transition_as i d rid trigger now = Inr (j, s) \<Longrightarrow>
    session_step to_value d i j"

inductive session_reachable ::
    "(ceremony_evidence_pack \<Rightarrow> json option) \<Rightarrow> ceremony_definition \<Rightarrow> ceremony_context
      \<Rightarrow> ceremony_instance \<Rightarrow> bool"
  for to_value d ctx0 where
  opened: "CeremonyInstance_open iid d ctx0 now bound = Some i \<Longrightarrow> session_reachable to_value d ctx0 i"
| stepped: "\<lbrakk>session_reachable to_value d ctx0 i; session_step to_value d i j\<rbrakk> \<Longrightarrow>
    session_reachable to_value d ctx0 j"

lemma map_ok_fst: "r = Inr (x, y) \<Longrightarrow> map_ok fst r = Inr x"
  by simp

lemma session_step_extends: "session_step tv d i j \<Longrightarrow> inst_extends i j"
proof (induction rule: session_step.induct)
  case start
  then show ?case by (rule start_step.op_extends [OF map_ok_fst])
next
  case start_as
  then show ?case by (rule start_step_as.op_extends [OF map_ok_fst])
next
  case result
  then show ?case by (auto intro: apply_step_result_contract)
next
  case approve
  then show ?case by (rule approve_guard.op_extends)
next
  case bind
  then show ?case by (rule bind_participant.op_extends)
next
  case postpone
  then show ?case by (rule defer_guard.op_extends)
next
  case request
  then show ?case by (rule request_intervention.op_extends)
next
  case respond
  then show ?case by (rule respond_to_intervention.op_extends)
next
  case evidence
  then show ?case by (rule respond_to_intervention_with_evidence.op_extends)
next
  case close
  then show ?case by (rule close_intervention.op_extends)
next
  case reason
  then show ?case by (rule assert_reason.op_extends)
next
  case transition
  then show ?case by (rule apply_transition.op_extends [OF map_ok_fst])
next
  case transition_as
  then show ?case by (rule apply_transition_as.op_extends [OF map_ok_fst])
qed

lemma session_step_wf:
  assumes "session_step tv d i j" and d: "definition_wf d" and i: "inst_wf d ctx0 i"
  shows "inst_wf d ctx0 j"
  using assms(1) i
proof (induction rule: session_step.induct)
  case start
  then show ?case by (metis start_step.op_wf [OF d _ map_ok_fst])
next
  case start_as
  then show ?case by (metis start_step_as.op_wf [OF d _ map_ok_fst])
next
  case result
  then show ?case by (metis apply_step_result_contract(2) d StepResult_new_wf)
next
  case approve
  then show ?case by (metis approve_guard.op_wf d)
next
  case bind
  then show ?case by (metis bind_participant.op_wf d)
next
  case postpone
  then show ?case by (metis defer_guard.op_wf d)
next
  case request
  then show ?case by (metis request_intervention.op_wf d)
next
  case respond
  then show ?case by (metis respond_to_intervention.op_wf d)
next
  case evidence
  then show ?case by (metis respond_to_intervention_with_evidence.op_wf d)
next
  case close
  then show ?case by (metis close_intervention.op_wf d)
next
  case reason
  then show ?case by (metis assert_reason.op_wf d)
next
  case transition
  then show ?case by (metis apply_transition.op_wf [OF d _ map_ok_fst])
next
  case transition_as
  then show ?case by (metis apply_transition_as.op_wf [OF d _ map_ok_fst])
qed

lemma open_inst_wf:
  assumes d: "definition_wf d" and i: "CeremonyInstance_open iid d ctx now bound = Some i"
  shows "inst_wf d ctx i"
proof -
  obtain sid s where init: "CeremonyDefinition_initial_state_id d = Some sid"
    and s: "bt_get (def_states d) sid = Some s" "CeremonyState_is_initial s"
    by (rule wf_initial_state [OF d])
  have "\<not> CeremonyDefinition_is_terminal_state d sid"
    using s by (simp add: CeremonyDefinition_is_terminal_state_def CeremonyState_is_terminal_def
        CeremonyState_is_initial_def)
  moreover have "record_ok d keys k StepExecutionRecord_pending" for keys k
    by (simp add: record_ok_def) (simp add: StepExecutionRecord_pending_def)
  ultimately have parts: "path_wf d [] sid None"
      "steps_wf d [] (map (\<lambda>k. (k, StepExecutionRecord_pending)) (bt_keys (def_steps d)))"
    using init by (auto simp: path_wf_def steps_wf_def bset_wf_def dest!: map_of_SomeD)
  have "agenda_wf []" "seats_wf d []" "decisions_wf d ctx [] [] ctx"
    by (simp_all add: agenda_wf_def seats_wf_def decisions_wf_def)
  moreover have "reasons_wf i" using i init by (auto simp: CeremonyInstance_open_def reasons_wf_def)
  ultimately show ?thesis
    using i init parts
    by (auto simp: CeremonyInstance_open_def inst_wf_def CeremonyInstance_matches_definition_def)
qed

lemma reachable_wf:
  assumes "session_reachable tv d ctx0 i" and "definition_wf d"
  shows "inst_wf d ctx0 i"
  using assms by (induction rule: session_reachable.induct) (auto intro: open_inst_wf session_step_wf)

lemma session_steps_extend: "(session_step tv d)\<^sup>*\<^sup>* i j \<Longrightarrow> inst_extends i j"
  by (induction rule: rtranclp_induct)
    (auto intro: inst_extends_refl inst_extends_trans dest: session_step_extends)

lemma move_on_current:
  "CeremonyInstance_move_on i d trigger by_role now = Inr (j, s) \<Longrightarrow> inst_current_state j = s"
  by (auto dest!: move_on_Inr)

section \<open>A session of the example ceremony\<close>

definition demo_opened :: ceremony_instance where
  "demo_opened = the (CeremonyInstance_open (lit ''c1'') demo_definition [] 0 None)"

definition demo_lease :: step_lease where
  "demo_lease = \<lparr>lease_owner_id = lit ''w'', lease_idempotency_key = lit ''k1'',
     lease_acquired_at = 5, lease_expires_at = 9\<rparr>"

definition demo_started :: ceremony_instance where
  "demo_started = fst (projr (CeremonyInstance_start_step demo_opened demo_definition (lit ''plan'') demo_lease 5))"

definition demo_approved :: ceremony_instance where
  "demo_approved = projr (CeremonyInstance_approve_guard demo_started demo_definition (lit ''ok'') (lit ''host'') Human 6)"

definition demo_shut :: ceremony_instance where
  "demo_shut = fst (projr (CeremonyInstance_apply_transition_as demo_approved demo_definition (lit ''host'') (lit ''finish'') 7))"

lemma demo_open_eq: "CeremonyInstance_open (lit ''c1'') demo_definition [] 0 None = Some demo_opened"
  by (simp add: demo_opened_def CeremonyInstance_open_def CeremonyDefinition_initial_state_id_def
      demo_defs CeremonyState_is_initial_def)

lemma demo_opened_fields [simp]:
  "inst_definition_name demo_opened = lit ''demo''" "inst_definition_version demo_opened = CeremonyVersion_v1"
  "inst_current_state demo_opened = lit ''open''"
  "inst_step_records demo_opened = [(lit ''plan'', StepExecutionRecord_pending)]"
  "inst_idempotency_keys demo_opened = []" "inst_context demo_opened = []"
  "inst_guard_approvals demo_opened = []" "inst_transitions demo_opened = []"
  "inst_completed_at demo_opened = None"
  by (simp_all add: demo_opened_def CeremonyInstance_open_def CeremonyDefinition_initial_state_id_def
      demo_defs CeremonyState_is_initial_def)

lemma demo_matches:
  "inst_definition_name i = lit ''demo'' \<Longrightarrow> inst_definition_version i = CeremonyVersion_v1 \<Longrightarrow>
     CeremonyInstance_matches_definition i demo_definition"
  by (simp add: CeremonyInstance_matches_definition_def demo_definition_def)

lemma demo_not_terminal [simp]: "\<not> CeremonyDefinition_is_terminal_state demo_definition (lit ''open'')"
  and demo_terminal [simp]: "CeremonyDefinition_is_terminal_state demo_definition (lit ''shut'')"
  by (simp_all add: CeremonyDefinition_is_terminal_state_def demo_defs CeremonyState_is_terminal_def lit_def)

lemma demo_start_eq:
  "CeremonyInstance_start_step demo_opened demo_definition (lit ''plan'') demo_lease 5 = Inr (demo_started, 1)"
proof -
  have "\<exists>j. CeremonyInstance_start_step demo_opened demo_definition (lit ''plan'') demo_lease 5 = Inr (j, 1)"
    by (simp add: CeremonyInstance_start_step_def require_definition_def demo_matches
        CeremonyInstance_is_terminal_def)
      (simp add: demo_defs step_defs next_attempt_for_start_def StepAttempt_FIRST_def)
  then show ?thesis by (auto simp: demo_started_def)
qed

lemma demo_started_eq:
  "demo_started = demo_opened\<lparr>inst_idempotency_keys := [lit ''k1''],
     inst_step_records := [(lit ''plan'',
       StepExecutionRecord_with_started StepExecutionRecord_pending demo_lease 1)],
     inst_updated_at := 5\<rparr>"
proof -
  from start_step_Inr [OF demo_start_eq] obtain r where
    r: "bt_get (inst_step_records demo_opened) (lit ''plan'') = Some r"
    and eq: "demo_started = demo_opened\<lparr>inst_idempotency_keys :=
        bset_insert (lease_idempotency_key demo_lease) (inst_idempotency_keys demo_opened),
      inst_step_records := bt_insert (lit ''plan'') (StepExecutionRecord_with_started r demo_lease 1)
        (inst_step_records demo_opened), inst_updated_at := 5\<rparr>" by blast
  from r have "r = StepExecutionRecord_pending" by simp
  with eq show ?thesis by (simp add: bset_insert_def demo_lease_def)
qed

lemma demo_started_fields [simp]:
  "inst_definition_name demo_started = lit ''demo''" "inst_definition_version demo_started = CeremonyVersion_v1"
  "inst_current_state demo_started = lit ''open''"
  "inst_step_records demo_started =
     [(lit ''plan'', StepExecutionRecord_with_started StepExecutionRecord_pending demo_lease 1)]"
  "inst_idempotency_keys demo_started = [lit ''k1'']" "inst_context demo_started = []"
  "inst_guard_approvals demo_started = []"
  by (simp_all add: demo_started_eq)

lemma demo_role_declared: "bt_contains_key (def_roles demo_definition) (lit ''host'')"
  by (simp add: demo_definition_def bt_contains_key_def)

lemma demo_approve_eq:
  "CeremonyInstance_approve_guard demo_started demo_definition (lit ''ok'') (lit ''host'') Human 6 = Inr demo_approved"
proof -
  have "trim (lit ''ok'') = lit ''ok''" by (rule trim_id) (simp add: lit_def is_whitespace_def)
  then have ctx: "CeremonyContext_with_guard_approval [] (lit ''ok'') = Inr [(lit ''ok'', JBool True)]"
    by (simp add: CeremonyContext_with_guard_approval_def Attributes_new_def MAX_ATTRIBUTES_KEYS_def)
      (simp add: lit_def)
  have "require_active demo_started demo_definition r = Inr ()" for r
    by (simp add: require_active_iff demo_matches)
  moreover have "require_declared_role demo_started demo_definition (lit ''host'') = Inr ()"
    by (simp add: require_declared_role_iff demo_matches demo_role_declared)
  moreover have "bt_get (def_guards demo_definition) (lit ''ok'') = Some demo_guard"
    by (simp add: demo_definition_def)
  ultimately show ?thesis
    unfolding demo_approved_def CeremonyInstance_approve_guard_def by (simp add: ctx demo_guard_def)
qed

lemma demo_approved_eq:
  "demo_approved = demo_started\<lparr>inst_context := bt_insert (lit ''ok'') (JBool True) (inst_context demo_started),
     inst_guard_approvals := inst_guard_approvals demo_started @
       [\<lparr>approval_guard_name = lit ''ok'', approval_approved_by = lit ''host'',
         approval_approved_by_kind = Human, approval_approved_at = 6\<rparr>],
     inst_updated_at := 6\<rparr>"
  using approve_guard_Inr [OF demo_approve_eq] by blast

lemma demo_approved_fields [simp]:
  "inst_definition_name demo_approved = lit ''demo''" "inst_definition_version demo_approved = CeremonyVersion_v1"
  "inst_current_state demo_approved = lit ''open''"
  "inst_step_records demo_approved = inst_step_records demo_started"
  "inst_context demo_approved = [(lit ''ok'', JBool True)]"
  "inst_idempotency_keys demo_approved = [lit ''k1'']"
  by (simp_all add: demo_approved_eq)

lemma demo_finish_eq:
  "CeremonyInstance_apply_transition_as demo_approved demo_definition (lit ''host'') (lit ''finish'') 7
     = Inr (demo_shut, lit ''shut'')"
proof -
  have "CeremonyDefinition_role_allows demo_definition (lit ''host'') (Act_Transition (lit ''finish''))"
    by (simp add: CeremonyDefinition_role_allows_def CeremonyRole_allows_def demo_defs)
  then have "require_role demo_approved demo_definition (lit ''host'') (Act_Transition (lit ''finish'')) = Inr ()"
    by (simp add: require_role_iff demo_matches)
  moreover have "CeremonyDefinition_transition_for_trigger demo_definition (lit ''open'') (lit ''finish'')
      = Some demo_transition"
    by (simp add: CeremonyDefinition_transition_for_trigger_def demo_defs)
  moreover have "CeremonyDefinition_guards_are_satisfied demo_definition demo_transition recs
      [(lit ''ok'', JBool True)]" for recs
    by (simp add: CeremonyDefinition_guards_are_satisfied_def demo_defs CeremonyGuard_is_satisfied.simps
        CeremonyContext_is_guard_approved_def json_as_bool_def)
  ultimately show ?thesis
    by (simp add: demo_shut_def CeremonyInstance_apply_transition_as_def CeremonyInstance_move_on_def
        require_definition_def demo_matches CeremonyInstance_is_terminal_def)
      (simp add: demo_transition_def)
qed

lemma demo_shut_current [simp]: "inst_current_state demo_shut = lit ''shut''"
proof -
  have "CeremonyInstance_move_on demo_approved demo_definition (lit ''finish'') (Some (lit ''host'')) 7
      = Inr (demo_shut, lit ''shut'')"
    using demo_finish_eq by (simp add: CeremonyInstance_apply_transition_as_def result_simps)
  then show ?thesis using move_on_current by blast
qed

lemma demo_reachable:
  "session_reachable tv demo_definition [] demo_opened"
  "session_reachable tv demo_definition [] demo_started"
  "session_reachable tv demo_definition [] demo_approved"
  "session_reachable tv demo_definition [] demo_shut"
proof -
  show 1: "session_reachable tv demo_definition [] demo_opened"
    by (rule opened [OF demo_open_eq])
  show 2: "session_reachable tv demo_definition [] demo_started"
    by (rule stepped [OF 1 start [OF demo_start_eq]])
  show 3: "session_reachable tv demo_definition [] demo_approved"
    by (rule stepped [OF 2 approve [OF demo_approve_eq]])
  show "session_reachable tv demo_definition [] demo_shut"
    by (rule stepped [OF 3 transition_as [OF demo_finish_eq]])
qed

section \<open>Properties of every session\<close>

text \<open>
  C1. The invariant of a session: whatever sequence of calls led to an instance, its
  step records follow the definition and their retry policies, its agenda is consistent,
  its log is a path to its current state, it has a completion time exactly in a terminal
  state, its reasons cite records that exist, its approvals agree with its context, and
  its seats belong to declared roles.
\<close>

theorem session_invariant:
  assumes "definition_wf d" and "session_reachable to_value d ctx0 i"
  shows "inst_wf d ctx0 i"
  using assms by (rule reachable_wf [rotated])

theorem session_invariant_witness:
  "inst_wf demo_definition [] demo_shut \<and> inst_current_state demo_shut = lit ''shut''"
  using session_invariant [OF demo_wf demo_reachable(4)] by simp

text \<open>
  C8. History is append-only: along any run of a session its identity never changes, and
  transitions, reasons, approvals, deferrals, agenda items, answers and used idempotency
  keys are only ever added, never altered or removed.
\<close>

theorem session_history_append_only:
  assumes "(session_step to_value d)\<^sup>*\<^sup>* i j"
  shows "inst_extends i j"
  using assms by (rule session_steps_extend)

theorem session_history_append_only_witness:
  "inst_extends demo_started demo_shut"
proof (rule session_history_append_only)
  show "(session_step (\<lambda>_. None) demo_definition)\<^sup>*\<^sup>* demo_started demo_shut"
    using approve [OF demo_approve_eq] transition_as [OF demo_finish_eq]
    by (meson converse_rtranclp_into_rtranclp rtranclp.rtrancl_refl)
qed

lemma log_path_edges:
  "log_path d s ts e \<Longrightarrow> (s, e) \<in> (transition_edges (def_transitions d))\<^sup>*"
proof (induction ts arbitrary: s)
  case Nil
  then show ?case by simp
next
  case (Cons t ts)
  then obtain tr where tr: "CeremonyDefinition_transition_for_trigger d s (trec_trigger t) = Some tr"
    "trans_to tr = trec_to_state t" by auto
  from find_Some_set [OF tr(1) [unfolded CeremonyDefinition_transition_for_trigger_def]] tr(2)
  have "(s, trec_to_state t) \<in> transition_edges (def_transitions d)"
    by (auto simp: transition_edges_iff)
  moreover have "(trec_to_state t, e) \<in> (transition_edges (def_transitions d))\<^sup>*"
    using Cons by auto
  ultimately show ?case by (rule converse_rtrancl_into_rtrancl)
qed

text \<open>
  C12. The analysis speaks about real sessions: the state a session is in is always one the
  analysis of its definition calls reachable, the recorded transitions lead there from the
  initial state one declared transition at a time, and the session counts as completed
  exactly when that state is terminal.
\<close>

theorem session_follows_definition:
  assumes "definition_wf d" and "session_reachable to_value d ctx0 i"
    and "CeremonyDefinition_initial_state_id d = Some initial"
  shows "log_path d initial (inst_transitions i) (inst_current_state i) \<and>
    inst_current_state i \<in> set (states_reachable_from (def_transitions d) initial) \<and>
    (CeremonyInstance_is_completed i d \<longleftrightarrow>
       CeremonyDefinition_is_terminal_state d (inst_current_state i))"
proof -
  have wf: "inst_wf d ctx0 i" using reachable_wf assms(1,2) by blast
  then have path: "log_path d initial (inst_transitions i) (inst_current_state i)"
    using assms(3) by (auto simp: inst_wf_def path_wf_def)
  moreover have "inst_current_state i \<in> set (states_reachable_from (def_transitions d) initial)"
    using log_path_edges [OF path] by (simp add: set_reachable_from)
  moreover have "CeremonyInstance_is_completed i d \<longleftrightarrow>
       CeremonyDefinition_is_terminal_state d (inst_current_state i)"
    using wf by (auto simp: inst_wf_def path_wf_def CeremonyInstance_is_completed_def
        CeremonyInstance_is_terminal_def)
  ultimately show ?thesis by blast
qed

theorem session_follows_definition_witness:
  "CeremonyInstance_is_completed demo_shut demo_definition"
proof -
  have "CeremonyDefinition_initial_state_id demo_definition = Some (lit ''open'')"
    by (simp add: CeremonyDefinition_initial_state_id_def demo_defs CeremonyState_is_initial_def)
  from session_follows_definition [OF demo_wf demo_reachable(4) this] show ?thesis by simp
qed

text \<open>
  C11. Nothing happens after the end but explanation: once a session is in a terminal state,
  the only change any call can make is to append one reason.
\<close>

theorem terminal_session_only_explains:
  assumes "definition_wf d" and "CeremonyDefinition_is_terminal_state d (inst_current_state i)"
    and "session_step to_value d i j"
  shows "\<exists>r now. j = i\<lparr>inst_reasons := inst_reasons i @ [r], inst_updated_at := now\<rparr> \<and>
    record_exists i (reason_from r) \<and> record_exists i (reason_to r)"
  using assms(3)
proof cases
  case (reason rid src dst rk why conf now)
  from assert_reason_Inr [OF this] show ?thesis by (auto dest!: CeremonyReason_new_Inr)
next
  case start
  then show ?thesis using assms(2) start_step_Inr by blast
next
  case start_as
  then show ?thesis using assms(2) start_step_Inr start_step_as_Inr by blast
next
  case result
  then show ?thesis using apply_step_result_contract(3) assms(1,2) by blast
next
  case approve
  then show ?thesis using assms(2) approve_guard_Inr by blast
next
  case bind
  then show ?thesis using assms(2) bind_participant_Inr by blast
next
  case postpone
  then show ?thesis using assms(2) defer_guard_Inr by blast
next
  case request
  then show ?thesis using assms(2) request_intervention_Inr by blast
next
  case respond
  then show ?thesis using assms(2) respond_to_intervention_Inr by blast
next
  case evidence
  then show ?thesis using assms(2) respond_with_evidence_to_intervention_Inr by blast
next
  case close
  then show ?thesis using assms(2) close_intervention_Inr by blast
next
  case (transition trigger now s)
  then show ?thesis using assms(2) move_on_Inr [of i d trigger None now j s]
    by (simp add: CeremonyInstance_apply_transition_def)
next
  case (transition_as rid trigger now s)
  then show ?thesis using assms(2) move_on_Inr [of i d trigger "Some rid" now j s]
    by (simp add: CeremonyInstance_apply_transition_as_def result_simps)
qed

lemma move_on_fields:
  "CeremonyInstance_move_on i d trigger by_role now = Inr (j, s) \<Longrightarrow>
     inst_definition_name j = inst_definition_name i \<and> inst_definition_version j = inst_definition_version i \<and>
     inst_step_records j = inst_step_records i \<and> length (inst_transitions j) = Suc (length (inst_transitions i))"
  by (auto dest!: move_on_Inr)

lemma demo_shut_fields:
  "inst_definition_name demo_shut = lit ''demo''" "inst_definition_version demo_shut = CeremonyVersion_v1"
  "inst_step_records demo_shut = inst_step_records demo_started" "1 \<le> length (inst_transitions demo_shut)"
proof -
  have "CeremonyInstance_move_on demo_approved demo_definition (lit ''finish'') (Some (lit ''host'')) 7
      = Inr (demo_shut, lit ''shut'')"
    using demo_finish_eq by (simp add: CeremonyInstance_apply_transition_as_def result_simps)
  note facts = move_on_fields [OF this]
  show "inst_definition_name demo_shut = lit ''demo''" "inst_definition_version demo_shut = CeremonyVersion_v1"
    "inst_step_records demo_shut = inst_step_records demo_started" "1 \<le> length (inst_transitions demo_shut)"
    using facts by simp_all
qed

lemma demo_explain:
  "\<exists>j. CeremonyInstance_assert_reason_as demo_shut demo_definition (lit ''host'') (Ref_Transition 1)
     (Ref_Step (lit ''plan'')) FollowsFrom (lit ''x'') High 8 = Inr j"
proof -
  have "CeremonyInstance_matches_definition demo_shut demo_definition"
    by (rule demo_matches) (simp_all add: demo_shut_fields)
  moreover have "record_exists demo_shut (Ref_Transition 1)" "record_exists demo_shut (Ref_Step (lit ''plan''))"
    using demo_shut_fields(3,4) by (simp_all add: record_exists_def bt_contains_key_def)
  moreover have "trim (lit ''x'') = lit ''x''" by (rule trim_id) (simp add: lit_def is_whitespace_def)
  ultimately show ?thesis
    by (simp add: CeremonyInstance_assert_reason_as_def require_declared_role_def require_definition_def
        require_record_def CeremonyReason_new_def Let_def)
      (simp add: demo_definition_def lit_def)
qed

theorem terminal_session_only_explains_witness:
  "\<exists>j r now. session_step (\<lambda>_. None) demo_definition demo_shut j \<and>
     j = demo_shut\<lparr>inst_reasons := inst_reasons demo_shut @ [r], inst_updated_at := now\<rparr>"
proof -
  obtain j where "CeremonyInstance_assert_reason_as demo_shut demo_definition (lit ''host'')
      (Ref_Transition 1) (Ref_Step (lit ''plan'')) FollowsFrom (lit ''x'') High 8 = Inr j"
    using demo_explain by blast
  then have step: "session_step (\<lambda>_. None) demo_definition demo_shut j" by (rule reason)
  have "CeremonyDefinition_is_terminal_state demo_definition (inst_current_state demo_shut)" by simp
  from terminal_session_only_explains [OF demo_wf this step] step show ?thesis by blast
qed

section \<open>Leases and idempotency\<close>

lemma answers_records [simp]: "inst_step_records (record_that_it_answers i iid now) = inst_step_records i"
  by (simp add: record_that_it_answers_def Let_def split: option.split sum.split)

lemma update_intervention_records:
  "update_intervention i iid f = Inr j \<Longrightarrow> inst_step_records j = inst_step_records i"
  by (auto simp: update_intervention_Inr)

lemma record_unchanged_or_written:
  assumes "session_step tv d i j" and "bt_get (inst_step_records i) sid = Some r"
  shows "bt_get (inst_step_records j) sid = Some r \<or>
    (\<exists>res. result_wf res \<and> rec_status r = InProgress \<and>
       bt_get (inst_step_records j) sid = Some (StepExecutionRecord_with_result r res)) \<or>
    (\<exists>l a. StepExecutionRecord_can_be_started_at r (inst_updated_at j) \<and>
       a = (if rec_status r = Failed \<or> rec_status r = InProgress
            then sat_succ (rec_attempt r) else rec_attempt r) \<and>
       lease_idempotency_key l \<notin> set (inst_idempotency_keys i) \<and>
       bt_get (inst_step_records j) sid = Some (StepExecutionRecord_with_started r l a))"
  using assms(1)
proof cases
  case (start s l now a)
  then show ?thesis using assms(2) by (cases "s = sid") (auto dest!: start_step_Inr)
next
  case (start_as rid s l now a)
  then show ?thesis using assms(2) by (cases "s = sid") (auto simp: start_step_as_Inr dest!: start_step_Inr)
next
  case (result status out err res s now)
  have "result_wf res" using StepResult_new_wf [OF result(1)] .
  with result(2) assms(2) show ?thesis by (cases "s = sid") (auto dest!: apply_step_result_Inr)
next
  case approve
  then show ?thesis using assms(2) by (auto dest!: approve_guard_Inr)
next
  case bind
  then show ?thesis using assms(2) by (auto dest!: bind_participant_Inr)
next
  case postpone
  then show ?thesis using assms(2) by (auto dest!: defer_guard_Inr)
next
  case request
  then show ?thesis using assms(2) by (auto dest!: request_intervention_Inr)
next
  case respond
  then show ?thesis using assms(2)
    by (auto dest!: respond_to_intervention_Inr update_intervention_records)
next
  case evidence
  then show ?thesis using assms(2)
    by (auto dest!: respond_with_evidence_to_intervention_Inr update_intervention_records)
next
  case close
  then show ?thesis using assms(2) by (auto dest!: close_intervention_Inr update_intervention_records)
next
  case reason
  then show ?thesis using assms(2) by (auto dest!: assert_reason_Inr)
next
  case (transition trigger now s)
  then show ?thesis using assms(2)
    by (auto simp: CeremonyInstance_apply_transition_def dest!: move_on_Inr)
next
  case (transition_as rid trigger now s)
  then show ?thesis using assms(2)
    by (auto simp: CeremonyInstance_apply_transition_as_def result_simps dest!: move_on_Inr)
qed

text \<open>
  C9. A lease is exclusive: while a step runs under a lease, one call changes its record in
  only three ways - not at all, by recording a result, which gives the lease up, or by a
  new start, which is possible only once the old lease has expired, counts a further
  attempt and brings an idempotency key the session has never seen.
\<close>

theorem lease_handover:
  assumes "definition_wf d" and "session_reachable to_value d ctx0 i"
    and "session_step to_value d i j"
    and "bt_get (inst_step_records i) sid = Some r" and "rec_lease r = Some lease"
  shows "\<exists>r'. bt_get (inst_step_records j) sid = Some r' \<and>
    (r' = r \<or>
     (rec_lease r' = None \<and> rec_status r' \<noteq> InProgress \<and> rec_attempt r' = rec_attempt r) \<or>
     (\<exists>lease'. rec_lease r' = Some lease' \<and> rec_status r' = InProgress \<and>
        lease_expires_at lease \<le> inst_updated_at j \<and>
        rec_attempt r' = sat_succ (rec_attempt r) \<and>
        lease_idempotency_key lease' \<notin> set (inst_idempotency_keys i)))"
proof -
  have "record_wf r"
    using reachable_wf [OF assms(2,1)] assms(4) by (auto simp: inst_wf_def steps_wf_def record_ok_def)
  then have "rec_status r = InProgress" using assms(5) by (auto simp: record_wf_def)
  then show ?thesis
    using record_unchanged_or_written [OF assms(3,4)] assms(5)
    by (auto simp: step_defs result_wf_def)
qed

theorem lease_handover_witness:
  "\<exists>r'. bt_get (inst_step_records demo_approved) (lit ''plan'') = Some r' \<and>
     rec_lease r' = Some demo_lease"
proof -
  have r: "bt_get (inst_step_records demo_started) (lit ''plan'')
      = Some (StepExecutionRecord_with_started StepExecutionRecord_pending demo_lease 1)" by simp
  have l: "rec_lease (StepExecutionRecord_with_started StepExecutionRecord_pending demo_lease 1)
      = Some demo_lease" by (simp add: step_defs)
  from lease_handover [OF demo_wf demo_reachable(2) approve [OF demo_approve_eq] r l]
  show ?thesis using l by auto
qed

text \<open>
  C10. An idempotency key starts work at most once: after a start that used a key, no start of
  any step under that key succeeds in any later state of the session.
\<close>

theorem idempotency_key_used_once:
  assumes "CeremonyInstance_start_step i d sid lease now = Inr (j, a)"
    and "(session_step to_value d)\<^sup>*\<^sup>* j k"
    and "lease_idempotency_key lease' = lease_idempotency_key lease"
  shows "\<exists>e. CeremonyInstance_start_step k d sid' lease' now' = Inl e"
proof (cases "CeremonyInstance_start_step k d sid' lease' now'")
  case (Inr x)
  obtain k' a' where x: "x = (k', a')" by (cases x)
  have "lease_idempotency_key lease \<in> set (inst_idempotency_keys j)"
    using start_step_Inr [OF assms(1)] by auto
  then have "lease_idempotency_key lease \<in> set (inst_idempotency_keys k)"
    using session_steps_extend [OF assms(2)] by (auto simp: inst_extends_def)
  then show ?thesis using start_step_Inr [OF Inr [unfolded x]] assms(3) by simp
qed simp

theorem idempotency_key_used_once_witness:
  "\<exists>e. CeremonyInstance_start_step demo_approved demo_definition (lit ''plan'') demo_lease 100 = Inl e"
  by (rule idempotency_key_used_once [OF demo_start_eq, where to_value = "\<lambda>_. None"])
    (use approve [OF demo_approve_eq] in auto)

section \<open>Guards and moving on\<close>

text \<open>
  C7. A human guard is passed only by a recorded decision: if a transition that requires a
  human guard is applied, and the context the session was started with did not already
  hold that approval, then the session's record names who approved it, in a declared role.
\<close>

theorem human_guard_needs_approval:
  assumes "definition_wf d" and "session_reachable to_value d ctx0 i"
    and "CeremonyInstance_move_on i d trigger by_role now = Inr (j, s)"
    and "CeremonyDefinition_transition_for_trigger d (inst_current_state i) trigger = Some t"
    and "n \<in> set (trans_required_guards t)" and "human_guard d n"
    and "\<not> CeremonyContext_is_guard_approved ctx0 n"
  shows "\<exists>a \<in> set (inst_guard_approvals j). approval_guard_name a = n \<and>
    bt_contains_key (def_roles d) (approval_approved_by a)"
proof -
  from move_on_Inr [OF assms(3)] assms(4)
  have sat: "CeremonyDefinition_guards_are_satisfied d t (inst_step_records i) (inst_context i)"
    and j: "inst_guard_approvals j = inst_guard_approvals i" by auto
  from assms(6) obtain g where g: "bt_get (def_guards d) n = Some g" "guard_condition g = HumanApproval"
    by (auto simp: human_guard_def)
  have "guard_name g = n"
    using keyed_by_get [of guard_name "def_guards d"] g(1) assms(1) by (simp add: definition_wf_def)
  then have "CeremonyContext_is_guard_approved (inst_context i) n"
    using sat g assms(5)
    by (auto simp: CeremonyDefinition_guards_are_satisfied_def list_all_iff human_guard_satisfied_iff
        dest: bspec)
  moreover have "decisions_wf d ctx0 (inst_guard_approvals i) (inst_guard_deferrals i) (inst_context i)"
    using reachable_wf [OF assms(2,1)] by (simp add: inst_wf_def)
  ultimately show ?thesis using assms(7) j by (auto simp: decisions_wf_def)
qed

theorem human_guard_needs_approval_witness:
  "\<exists>a \<in> set (inst_guard_approvals demo_shut). approval_guard_name a = lit ''ok'' \<and>
     bt_contains_key (def_roles demo_definition) (approval_approved_by a)"
proof -
  have "CeremonyInstance_move_on demo_approved demo_definition (lit ''finish'') (Some (lit ''host'')) 7
      = Inr (demo_shut, lit ''shut'')"
    using demo_finish_eq by (simp add: CeremonyInstance_apply_transition_as_def result_simps)
  moreover have "CeremonyDefinition_transition_for_trigger demo_definition
      (inst_current_state demo_approved) (lit ''finish'') = Some demo_transition"
    by (simp add: CeremonyDefinition_transition_for_trigger_def demo_defs)
  moreover have "lit ''ok'' \<in> set (trans_required_guards demo_transition)"
    "human_guard demo_definition (lit ''ok'')"
    by (simp_all add: human_guard_def demo_defs)
  moreover have "\<not> CeremonyContext_is_guard_approved [] (lit ''ok'')"
    by (simp add: CeremonyContext_is_guard_approved_def)
  ultimately show ?thesis by (rule human_guard_needs_approval [OF demo_wf demo_reachable(3)])
qed

text \<open>
  A session that can move on does: when the definition names a next transition whose
  guards hold and a role that may apply it, applying it in that role succeeds, leads to
  the transition's target, and is the first such transition in declaration order.
\<close>

theorem next_transition_applies:
  assumes "definition_wf d" and "CeremonyInstance_matches_definition i d"
    and "CeremonyDefinition_next_satisfied_transition d (inst_current_state i)
      (inst_step_records i) (inst_context i) = Some t"
    and "CeremonyDefinition_role_id_for_transition d (trans_trigger t) = Inr rid"
  shows "(\<exists>j. CeremonyInstance_apply_transition_as i d rid (trans_trigger t) now = Inr (j, trans_to t) \<and>
      inst_current_state j = trans_to t) \<and>
    (\<exists>us vs. CeremonyDefinition_available_transitions d (inst_current_state i) = us @ t # vs \<and>
      (\<forall>u \<in> set us. \<not> CeremonyDefinition_guards_are_satisfied d u (inst_step_records i) (inst_context i)))"
proof -
  have first: "\<exists>us vs. CeremonyDefinition_available_transitions d (inst_current_state i) = us @ t # vs \<and>
      (\<forall>u \<in> set us. \<not> CeremonyDefinition_guards_are_satisfied d u (inst_step_records i) (inst_context i))"
    by (rule update_first_split [OF assms(3) [unfolded CeremonyDefinition_next_satisfied_transition_def]])
      blast
  note t = next_satisfied_facts [OF assms(1,3)]
  note tf = wf_transition_for_trigger [OF assms(1) t [THEN conjunct1]]
  from assms(4) obtain role where "CeremonyDefinition_role_for_action d (Act_Transition (trans_trigger t)) = Some role"
    and "role_id role = rid"
    by (auto simp: CeremonyDefinition_role_id_for_transition_def result_simps)
  then have "CeremonyDefinition_role_allows d rid (Act_Transition (trans_trigger t))"
    using role_for_action_allows [OF assms(1)] by blast
  then have "\<exists>j. CeremonyInstance_apply_transition_as i d rid (trans_trigger t) now = Inr (j, trans_to t)"
    using t tf assms(2)
    by (simp add: CeremonyInstance_apply_transition_as_def require_role_def require_definition_def
        CeremonyInstance_move_on_def CeremonyInstance_is_terminal_def)
  then have "\<exists>j. CeremonyInstance_apply_transition_as i d rid (trans_trigger t) now = Inr (j, trans_to t) \<and>
      inst_current_state j = trans_to t"
    using move_on_current by (fastforce simp: CeremonyInstance_apply_transition_as_def result_simps)
  with first show ?thesis by blast
qed

theorem next_transition_applies_witness:
  "\<exists>j. CeremonyInstance_apply_transition_as demo_approved demo_definition (lit ''host'') (lit ''finish'') 50
     = Inr (j, lit ''shut'')"
proof -
  have "CeremonyDefinition_next_satisfied_transition demo_definition (inst_current_state demo_approved)
      (inst_step_records demo_approved) (inst_context demo_approved) = Some demo_transition"
    by (simp add: CeremonyDefinition_next_satisfied_transition_def CeremonyDefinition_available_transitions_def
        CeremonyDefinition_guards_are_satisfied_def demo_defs CeremonyGuard_is_satisfied.simps
        CeremonyContext_is_guard_approved_def json_as_bool_def)
  moreover have "CeremonyDefinition_role_id_for_transition demo_definition (trans_trigger demo_transition)
      = Inr (lit ''host'')"
    by (simp add: CeremonyDefinition_role_id_for_transition_def CeremonyDefinition_role_for_action_def
        CeremonyRole_allows_def demo_defs)
  ultimately have "\<exists>j. CeremonyInstance_apply_transition_as demo_approved demo_definition (lit ''host'')
      (trans_trigger demo_transition) 50 = Inr (j, trans_to demo_transition)"
    using next_transition_applies [OF demo_wf demo_matches, of demo_approved demo_transition "lit ''host''" 50]
    by (simp del: demo_approved_fields(3-6)) blast
  then show ?thesis by (auto simp: demo_transition_def)
qed

text \<open>
  Exactly when a step may be started: the session runs this definition and is not over,
  the step belongs to the current state, nobody holds a live lease on it and it is not
  finished, the retry policy allows the attempt, and the idempotency key is new.
\<close>

theorem start_step_permitted_iff:
  "is_ok (CeremonyInstance_start_step i d sid lease now) \<longleftrightarrow>
     CeremonyInstance_matches_definition i d \<and>
     \<not> CeremonyDefinition_is_terminal_state d (inst_current_state i) \<and>
     lease_idempotency_key lease \<notin> set (inst_idempotency_keys i) \<and>
     (\<exists>step r. bt_get (def_steps d) sid = Some step \<and> step_state_id step = inst_current_state i \<and>
        bt_get (inst_step_records i) sid = Some r \<and>
        ((rec_status r = Pending \<or> rec_status r = WaitingForHuman) \<and>
           rec_attempt r \<le> max_attempts (step_retry_policy step) \<or>
         rec_status r = Failed \<and>
           sat_succ (rec_attempt r) \<le> max_attempts (step_retry_policy step) \<or>
         rec_status r = InProgress \<and>
           sat_succ (rec_attempt r) \<le> max_attempts (step_retry_policy step) \<and>
           (\<exists>l. rec_lease r = Some l \<and> lease_expires_at l \<le> now)))"
  (is "?ok \<longleftrightarrow> ?M \<and> ?T \<and> ?K \<and> (\<exists>step r. ?R step r)")
proof
  assume ?ok
  then obtain j a where "CeremonyInstance_start_step i d sid lease now = Inr (j, a)"
    by (auto simp: is_ok_iff)
  from start_step_Inr [OF this] obtain step r where
    "?M" "?T" "?K" and sr: "bt_get (def_steps d) sid = Some step" "step_state_id step = inst_current_state i"
      "bt_get (inst_step_records i) sid = Some r"
    and can: "StepExecutionRecord_can_be_started_at r now"
    and pol: "RetryPolicy_allows_attempt (step_retry_policy step) a"
    and a: "a = (if rec_status r = Failed \<or> rec_status r = InProgress
             then sat_succ (rec_attempt r) else rec_attempt r)" by blast
  moreover have "?R step r" using sr can pol a
    by (cases "rec_status r") (auto simp: step_defs split: option.splits)
  ultimately show "?M \<and> ?T \<and> ?K \<and> (\<exists>step r. ?R step r)" by blast
next
  assume "?M \<and> ?T \<and> ?K \<and> (\<exists>step r. ?R step r)"
  then show ?ok
    by (auto simp: CeremonyInstance_start_step_def require_definition_def
        CeremonyInstance_is_terminal_def step_defs next_attempt_for_start_def StepAttempt_next_Inr)
qed

text \<open>
  Who may say why: a reason is accepted exactly when a declared role of this definition
  cites two different records that exist, with a text of one to 512 characters, in a kind
  that is not reserved to the engine, and for kinds only the author may use, about
  something that role produced.
\<close>

theorem assert_reason_permitted_iff:
  "is_ok (CeremonyInstance_assert_reason_as i d rid src dst k why c now) \<longleftrightarrow>
     CeremonyInstance_matches_definition i d \<and> bt_contains_key (def_roles d) rid \<and>
     record_exists i src \<and> record_exists i dst \<and> src \<noteq> dst \<and>
     trim why \<noteq> [] \<and> length (trim why) \<le> 512 \<and>
     k \<noteq> Answers \<and>
     (k = Authorizes \<or> k = ChosenBecause \<or> k = AchievedBy \<longrightarrow> author_of i src = Some rid)"
  by (cases k)
    (auto simp: CeremonyInstance_assert_reason_as_def CeremonyReason_new_def Let_def
      require_declared_role_def require_definition_def require_record_def bt_contains_key_def
      is_ok_def ensure_def and_then_def split: if_splits sum.splits)

lemma demo_approved_decision:
  "record_exists demo_approved (Ref_GuardDecision (lit ''ok''))"
  "author_of demo_approved (Ref_GuardDecision (lit ''ok'')) = Some (lit ''host'')"
  "record_exists demo_approved (Ref_Step (lit ''plan''))"
  by (simp_all add: record_exists_def author_of_def demo_approved_eq bt_contains_key_def)

text \<open>The approver may explain the approval, and nobody may answer in the engine's place.\<close>

theorem assert_reason_permitted_iff_witness:
  "is_ok (CeremonyInstance_assert_reason_as demo_approved demo_definition (lit ''host'')
     (Ref_GuardDecision (lit ''ok'')) (Ref_Step (lit ''plan'')) ChosenBecause (lit ''sound'') High 8) \<and>
   \<not> is_ok (CeremonyInstance_assert_reason_as demo_approved demo_definition (lit ''host'')
     (Ref_GuardDecision (lit ''ok'')) (Ref_Step (lit ''plan'')) Answers (lit ''sound'') High 8)"
proof -
  have "trim (lit ''sound'') = lit ''sound''" by (rule trim_id) (simp add: lit_def is_whitespace_def)
  then show ?thesis
    unfolding assert_reason_permitted_iff
    by (simp add: demo_approved_decision demo_matches demo_role_declared) (simp add: lit_def)
qed

end
