(* ===== verification/Store_Interleavings.thy ===== *)
theory Store_Interleavings
  imports Session_Journal Ceremony_Sessions
begin

text \<open>
  What the store and the session journal guarantee when callers interleave: commits are all or
  nothing, journals stay intact, revisions only grow, and a session that was read and written
  back never overwrites something its writer had not seen.
\<close>

section \<open>Revisions only grow\<close>

definition revision_number :: "ceremony_revision option \<Rightarrow> nat" where
  "revision_number r = (case r of None \<Rightarrow> 0 | Some w \<Rightarrow> Suc (unat w))"

definition next_revision :: "ceremony_revision option \<Rightarrow> ceremony_revision" where
  "next_revision r = (case r of None \<Rightarrow> CeremonyRevision_INITIAL | Some w \<Rightarrow> CeremonyRevision_next w)"

lemma matches_next_revision:
  "ExpectedRevision_matches e r \<Longrightarrow> ExpectedRevision_resulting_revision e = next_revision r"
  by (cases e; cases r) (auto simp: next_revision_def)

lemma matches_iff: "ExpectedRevision_matches e r \<longleftrightarrow> (e = (case r of None \<Rightarrow> New | Some w \<Rightarrow> Exactly w))"
  by (cases e; cases r) auto

lemma revision_number_next:
  "r \<noteq> Some (- 1) \<Longrightarrow> revision_number r < revision_number (Some (next_revision r))"
  "next_revision (Some (- 1)) = - 1"
  by (cases r) (simp_all add: revision_number_def next_revision_def CeremonyRevision_next_def
      unat_sat_succ_less)

lemma revision_number_inject: "revision_number r = revision_number q \<longleftrightarrow> r = q"
  by (auto simp: revision_number_def word_unat_eq_iff split: option.splits)

text \<open>A port call leaves a ceremony's instance alone or moves its revision on.\<close>

lemma store_step_revision:
  assumes "store_step sha rfc add s s'"
  shows "(store_revision s' cid = store_revision s cid \<and> store_instance s' cid = store_instance s cid) \<or>
    store_revision s' cid = Some (next_revision (store_revision s cid))"
  using assms
proof (induction rule: store_step.induct)
  case (commit i expected facts messages c s s' r)
  show ?case
  proof (cases "(\<exists>rv recs. r = Inr (Committed rv recs)) \<and> cid = inst_id (commit_instance c)")
    case True
    then obtain rv recs where r: "r = Inr (Committed rv recs)" and cid: "cid = inst_id (commit_instance c)"
      by blast
    from memory.committed [OF commit(2) [unfolded r] cid] matches_next_revision show ?thesis by auto
  next
    case False
    then consider "\<nexists>rv recs. r = Inr (Committed rv recs)" | "cid \<noteq> inst_id (commit_instance c)" by blast
    then show ?thesis
    proof cases
      case 1
      then show ?thesis using memory.refused [OF commit(2) 1, of cid] by simp
    next
      case 2
      then show ?thesis using memory.others [OF commit(2) 2] by simp
    qed
  qed
next
  case append
  then show ?case by (auto simp: store_append_def Let_def entry_reads default_reads split: sum.splits)
next
  case claim
  then show ?case
    by (auto simp: store_claim_def split: option.splits dest!: claim_loop_same dest: same_but_outbox_reads)
next
  case (save i s)
  then show ?case
    by (auto simp: store_save_def Let_def entry_reads default_reads next_revision_def split: option.splits)
qed (auto simp: store_mark_delivered_def store_mark_failed_def store_quarantine_def
    same_but_outbox_reads [OF map_outbox_same])

lemma store_path_revision:
  assumes "(store_step sha rfc add)\<^sup>*\<^sup>* s s'"
  shows "revision_number (store_revision s cid) \<le> revision_number (store_revision s' cid)"
    and "store_revision s' cid = store_revision s cid \<Longrightarrow> store_revision s cid \<noteq> Some (- 1) \<Longrightarrow>
      store_instance s' cid = store_instance s cid"
  using assms
proof (induction rule: rtranclp_induct)
  case (step t u)
  { case 1
    show ?case using step(3) store_step_revision [OF step(2), of cid] revision_number_next
      by (metis le_trans less_imp_le_nat order_refl) }
  { case 2
    have "store_revision u cid \<noteq> Some (next_revision (store_revision t cid))"
      using 2 step(3) revision_number_next by (metis leD)
    then have "store_revision u cid = store_revision t cid" "store_instance u cid = store_instance t cid"
      using store_step_revision [OF step(2), of cid] by auto
    then show ?case using step(4) 2 by simp }
qed simp_all

lemma store_path_wf:
  assumes "(store_step sha rfc add)\<^sup>*\<^sup>* s s'" and "store_wf sha rfc s"
  shows "store_wf sha rfc s'"
  using assms by (induction rule: rtranclp_induct) (auto intro: store_step_wf)

lemma store_wf_empty: "store_wf sha rfc []"
  by (simp add: store_wf_def)

lemma store_wf_instance:
  assumes "store_wf sha rfc s" and "store_instance s cid = Some i"
  shows "inst_id i = cid" and "store_revision s cid \<noteq> None"
proof -
  from assms(2) obtain st where st: "bt_get s cid = Some st" "st_instance st = Some i"
    by (auto simp: store_instance_def split: option.splits)
  then have "(st_revision st = None \<longleftrightarrow> st_instance st = None) \<and> (\<forall>i. st_instance st = Some i \<longrightarrow> inst_id i = cid)"
    using assms(1) by (simp add: store_wf_def)
  then show "inst_id i = cid" "store_revision s cid \<noteq> None" using st by (simp_all add: store_revision_def)
qed

section \<open>A store for the examples\<close>

definition demo_session_fact :: audit_fact where
  "demo_session_fact = demo_fact\<lparr>fact_ceremony_id := lit ''c1''\<rparr>"

definition demo_store :: ceremony_store where
  "demo_store = fst (SessionJournal_open (store_commit demo_sha demo_rfc) demo_opened [demo_session_fact] [])"

definition demo_session :: loaded_session where
  "demo_session = \<lparr>ls_instance = demo_opened, ls_expected = Exactly 1\<rparr>"

definition demo_saved_store :: ceremony_store where
  "demo_saved_store = fst (SessionJournal_commit (store_commit demo_sha demo_rfc)
     (demo_session\<lparr>ls_instance := demo_started\<rparr>) [] demo_store)"

lemma demo_ids [simp]: "inst_id demo_opened = lit ''c1''" "inst_id demo_started = lit ''c1''"
  "fact_ceremony_id demo_session_fact = lit ''c1''"
  by (simp_all add: demo_started_eq demo_session_fact_def demo_opened_def CeremonyInstance_open_def
      CeremonyDefinition_initial_state_id_def demo_defs CeremonyState_is_initial_def)

lemma demo_store_open:
  "\<exists>c r. CeremonyCommit_new demo_opened New [demo_session_fact] [] = Inr c \<and>
     store_commit demo_sha demo_rfc c [] = (demo_store, r)"
  "SessionJournal_open (store_commit demo_sha demo_rfc) demo_opened [demo_session_fact] []
     = (demo_store, Inr demo_session)"
  "store_instance demo_store (lit ''c1'') = Some demo_opened"
  "store_revision demo_store (lit ''c1'') = Some 1"
  "length (store_records demo_store (lit ''c1'')) = 1"
proof -
  obtain r where r: "seal_next demo_sha demo_rfc [] demo_session_fact = Inr r"
    by (simp add: seal_next_def AuditRecord_first_def) (metis demo_seal_ok)
  define c where "c = \<lparr>commit_instance = demo_opened, commit_expected_revision = New,
    commit_facts = [demo_session_fact], commit_messages = []\<rparr>"
  have c: "CeremonyCommit_new demo_opened New [demo_session_fact] [] = Inr c"
    by (simp add: CeremonyCommit_new_def c_def)
  have com: "store_commit demo_sha demo_rfc c [] =
      ([(lit ''c1'', \<lparr>st_revision = Some 1, st_instance = Some demo_opened, st_journal = [r], st_outbox = []\<rparr>)],
       Inr (Committed 1 [r]))"
    by (simp add: store_commit_def c_def entry_or_default_def StoredCeremony_default_def r
        CeremonyRevision_INITIAL_def)
  have op: "SessionJournal_open (store_commit demo_sha demo_rfc) demo_opened [demo_session_fact] []
     = (fst (store_commit demo_sha demo_rfc c []), Inr demo_session)"
    by (simp add: SessionJournal_open_def c com demo_session_def)
  then have store: "demo_store = fst (store_commit demo_sha demo_rfc c [])"
    by (simp add: demo_store_def)
  show "\<exists>c r. CeremonyCommit_new demo_opened New [demo_session_fact] [] = Inr c \<and>
     store_commit demo_sha demo_rfc c [] = (demo_store, r)"
    using c com store by auto
  show "SessionJournal_open (store_commit demo_sha demo_rfc) demo_opened [demo_session_fact] []
     = (demo_store, Inr demo_session)" using op store by simp
  show "store_instance demo_store (lit ''c1'') = Some demo_opened"
    "store_revision demo_store (lit ''c1'') = Some 1"
    "length (store_records demo_store (lit ''c1'')) = 1"
    by (simp_all add: store com store_instance_def store_revision_def store_records_def)
qed

lemma demo_store_path: "(store_step demo_sha demo_rfc add)\<^sup>*\<^sup>* [] demo_store"
  using demo_store_open(1) store_step.commit [of demo_opened New "[demo_session_fact]" "[]"]
  by blast

lemma demo_store_load:
  "SessionJournal_load store_revision store_get (lit ''c1'') demo_store demo_store = Inr demo_session"
  by (simp add: SessionJournal_load_def store_get_def demo_store_open demo_session_def)

lemma demo_store_save:
  "SessionJournal_commit (store_commit demo_sha demo_rfc)
     (demo_session\<lparr>ls_instance := demo_started\<rparr>) [] demo_store
   = (demo_saved_store, Inr (demo_session\<lparr>ls_instance := demo_started, ls_expected := Exactly 2\<rparr>))"
proof -
  have "st_revision (entry_or_default demo_store (lit ''c1'')) = Some 1"
    by (simp add: default_reads demo_store_open)
  then have "snd (store_commit demo_sha demo_rfc \<lparr>commit_instance = demo_started,
      commit_expected_revision = Exactly 1, commit_facts = [], commit_messages = []\<rparr> demo_store)
    = Inr (Committed 2 [])"
    by (simp add: store_commit_def CeremonyRevision_next_def sat_succ_def Let_def)
  then show ?thesis
    by (auto simp: demo_saved_store_def SessionJournal_commit_def CeremonyCommit_new_def demo_session_def
        split: prod.splits)
qed

section \<open>Properties\<close>

text \<open>
  C4. Journals survive any interleaving: in every state the store can reach from empty,
  through any sequence of commits, appends, outbox calls and saves by any callers, each
  ceremony's journal verifies as intact and holds records of that ceremony only, and an
  instance is stored under its own id together with a revision.
\<close>

theorem store_journals_always_intact:
  assumes "(store_step sha256 rfc3339 checked_add)\<^sup>*\<^sup>* [] s"
  shows "store_wf sha256 rfc3339 s \<and> AuditChain_verify sha256 rfc3339 (store_records s cid) = Intact"
proof -
  have wf: "store_wf sha256 rfc3339 s" by (rule store_path_wf [OF assms store_wf_empty])
  then show ?thesis using default_wf(1) [OF wf, of cid] by (simp add: default_reads)
qed

theorem store_journals_always_intact_witness:
  "AuditChain_verify demo_sha demo_rfc (store_records demo_store (lit ''c1'')) = Intact \<and>
   length (store_records demo_store (lit ''c1'')) = 1"
  using store_journals_always_intact [OF demo_store_path, of "lit ''c1''"] demo_store_open(5) by blast

text \<open>
  C29. A commit through the session journal is all or nothing: when it succeeds the instance
  is stored, the revision has moved to the one the caller gets back, and every fact is a
  record at the end of the journal, in order; when it fails, with a conflict or any other
  error, no instance, revision or journal has changed; other ceremonies never change.
\<close>

theorem commit_all_or_nothing:
  "case SessionJournal_commit (store_commit sha256 rfc3339) session facts s of
     (s', Inl e) \<Rightarrow>
       (\<forall>cid. store_instance s' cid = store_instance s cid \<and> store_revision s' cid = store_revision s cid \<and>
         store_records s' cid = store_records s cid)
   | (s', Inr session') \<Rightarrow>
       (let cid = inst_id (ls_instance session);
            revision = ExpectedRevision_resulting_revision (ls_expected session)
        in ExpectedRevision_matches (ls_expected session) (store_revision s cid) \<and>
           session' = session\<lparr>ls_expected := Exactly revision\<rparr> \<and>
           store_instance s' cid = Some (ls_instance session) \<and> store_revision s' cid = Some revision \<and>
           (\<exists>sealed. store_records s' cid = store_records s cid @ sealed \<and> list_all2 records_fact facts sealed) \<and>
           (\<forall>other. other = cid \<or>
              store_instance s' other = store_instance s other \<and>
              store_revision s' other = store_revision s other \<and>
              store_records s' other = store_records s other))"
proof (cases "SessionJournal_commit (store_commit sha256 rfc3339) session facts s")
  case (Pair s' r)
  show ?thesis
  proof (cases r)
    case (Inl e)
    from memory.journal_commit_failed [OF Pair [unfolded Inl]] show ?thesis by (simp add: Pair Inl)
  next
    case (Inr session')
    from memory.journal_commit_reads_back [OF Pair [unfolded Inr]] show ?thesis
      by (simp add: Pair Inr Let_def) blast
  qed
qed

text \<open>
  C2. No lost updates: let a session be loaded (its revision read in one store state, its
  instance in a later one) and, after any calls by anybody, written back successfully.
  Then what is replaced is exactly the instance that was loaded, the new instance is what
  is stored now, and whoever else loaded the ceremony at the same revision can no longer
  commit, at once or later.  Revisions are 64-bit and saturate; the claim is for revisions
  below the maximum.
\<close>

theorem no_lost_update:
  assumes "(store_step sha256 rfc3339 checked_add)\<^sup>*\<^sup>* [] s1"
    and "(store_step sha256 rfc3339 checked_add)\<^sup>*\<^sup>* s1 s2"
    and "(store_step sha256 rfc3339 checked_add)\<^sup>*\<^sup>* s2 s3"
    and "SessionJournal_load store_revision store_get cid s1 s2 = Inr session"
    and "inst_id i = cid"
    and "SessionJournal_commit (store_commit sha256 rfc3339) (session\<lparr>ls_instance := i\<rparr>) facts s3
      = (s4, Inr session')"
    and "store_revision s3 cid \<noteq> Some (- 1)"
    and "(store_step sha256 rfc3339 checked_add)\<^sup>*\<^sup>* s4 s5"
    and "inst_id (ls_instance rival) = cid" and "ls_expected rival = ls_expected session"
  shows "store_instance s3 cid = Some (ls_instance session) \<and> store_instance s4 cid = Some i \<and>
    \<not> is_ok (snd (SessionJournal_commit (store_commit sha256 rfc3339) rival rival_facts s5))"
proof -
  have inst: "store_instance s2 cid = Some (ls_instance session)"
    and exp: "ls_expected session = (case store_revision s1 cid of None \<Rightarrow> New | Some r \<Rightarrow> Exactly r)"
    using assms(4) by (auto simp: SessionJournal_load_def store_get_def result_simps)
  note com = memory.journal_commit_reads_back [OF assms(6), simplified, unfolded assms(5)]
  have same: "store_revision s3 cid = store_revision s1 cid"
    using com unfolding exp matches_iff by (auto split: option.splits)
  have "revision_number (store_revision s2 cid) = revision_number (store_revision s1 cid)"
    using store_path_revision(1) [OF assms(2), of cid] store_path_revision(1) [OF assms(3), of cid] same
    by simp
  then have "store_revision s3 cid = store_revision s2 cid" using same by (simp add: revision_number_inject)
  then have kept: "store_instance s3 cid = store_instance s2 cid"
    using store_path_revision(2) [OF assms(3)] assms(7) by simp
  have "store_revision s4 cid = Some (next_revision (store_revision s3 cid))"
    using com matches_next_revision by auto
  then have grown: "revision_number (store_revision s3 cid) < revision_number (store_revision s5 cid)"
    using store_path_revision(1) [OF assms(8), of cid] revision_number_next(1) [OF assms(7)] by simp
  have "\<not> is_ok (snd (SessionJournal_commit (store_commit sha256 rfc3339) rival rival_facts s5))"
  proof
    assume "is_ok (snd (SessionJournal_commit (store_commit sha256 rfc3339) rival rival_facts s5))"
    then obtain s6 x where "SessionJournal_commit (store_commit sha256 rfc3339) rival rival_facts s5 = (s6, Inr x)"
      by (cases "SessionJournal_commit (store_commit sha256 rfc3339) rival rival_facts s5")
        (auto simp: is_ok_def split: sum.splits)
    from memory.journal_commit_reads_back [OF this]
    have "ExpectedRevision_matches (ls_expected session) (store_revision s5 cid)" using assms(9,10) by simp
    then have "store_revision s5 cid = store_revision s1 cid"
      unfolding exp matches_iff by (auto split: option.splits)
    then show False using grown same by simp
  qed
  then show ?thesis using inst kept com by simp
qed

theorem no_lost_update_witness:
  "store_instance demo_saved_store (lit ''c1'') = Some demo_started \<and>
   \<not> is_ok (snd (SessionJournal_commit (store_commit demo_sha demo_rfc) demo_session [] demo_saved_store))"
  using no_lost_update [OF demo_store_path rtranclp.rtrancl_refl rtranclp.rtrancl_refl demo_store_load
      _ demo_store_save _ rtranclp.rtrancl_refl, of demo_session "[]"] demo_store_open
  by (simp add: demo_session_def)

end
