(* ===== verification/Outbox_Publishing.thy ===== *)
theory Outbox_Publishing
  imports Store_Interleavings
begin

text \<open>
  Publishing the outbox: one round of \<open>PublishOutboxUseCase\<close>
  (\<open>choreo-app/src/usecases/publish_outbox_use_case.rs\<close> with its input and its round counters)
  over an outbox port and a transport.  The port is a group of arguments, the locale
  \<open>outbox_port\<close> states what it promises, and the in-memory store is the instance; the
  transport is a stateful argument.  Shown here: what a claim hands out, that a round settles
  every message it claimed and counts it once, and that the messages of a ceremony are
  delivered in the order they were committed, whatever the callers interleave.
\<close>

section \<open>Input and counters\<close>

record publish_outbox_input =
  pub_batch_size :: nat
  pub_max_attempts :: "32 word"
  pub_lease :: duration_ms

definition PublishOutboxInput_new :: "nat \<Rightarrow> 32 word \<Rightarrow> duration_ms \<Rightarrow> publish_outbox_input outcome" where
  "PublishOutboxInput_new batch_size limit lease =
     (if batch_size = 0 then Inl (MustBeNonZero ''publish_outbox.batch_size'')
      else if limit = 0 then Inl (MustBeNonZero ''publish_outbox.max_attempts'')
      else if lease = 0 then Inl (MustBeNonZero ''publish_outbox.lease'')
      else Inr \<lparr>pub_batch_size = batch_size, pub_max_attempts = limit, pub_lease = lease\<rparr>)"

record publish_outbox_round =
  round_delivered :: nat
  round_failed :: nat
  round_quarantined :: nat

definition PublishOutboxRound_default :: publish_outbox_round where
  "PublishOutboxRound_default = \<lparr>round_delivered = 0, round_failed = 0, round_quarantined = 0\<rparr>"

definition PublishOutboxRound_claimed :: "publish_outbox_round \<Rightarrow> nat" where
  "PublishOutboxRound_claimed r = round_delivered r + round_failed r + round_quarantined r"

definition PublishOutboxRound_is_idle :: "publish_outbox_round \<Rightarrow> bool" where
  "PublishOutboxRound_is_idle r = (PublishOutboxRound_claimed r = 0)"

definition record_delivered :: "publish_outbox_round \<Rightarrow> publish_outbox_round" where
  "record_delivered r = r\<lparr>round_delivered := round_delivered r + 1\<rparr>"

definition record_failed :: "publish_outbox_round \<Rightarrow> publish_outbox_round" where
  "record_failed r = r\<lparr>round_failed := round_failed r + 1\<rparr>"

definition record_quarantined :: "publish_outbox_round \<Rightarrow> publish_outbox_round" where
  "record_quarantined r = r\<lparr>round_quarantined := round_quarantined r + 1\<rparr>"

section \<open>One round\<close>

definition quarantine_reason :: "outbox_attempt \<Rightarrow> 32 word \<Rightarrow> rstr" where
  "quarantine_reason attempt limit =
     lit ''delivery failed '' @ display_nat (unat attempt) @
     lit '' times, at or above the limit of '' @ display_nat (unat limit)"

definition publish_quarantine ::
    "(rstr \<Rightarrow> rstr \<Rightarrow> 's \<Rightarrow> 's \<times> unit outcome) \<Rightarrow> claimed_outbox_message \<Rightarrow> 32 word \<Rightarrow> 's
      \<Rightarrow> 's \<times> unit outcome" where
  "publish_quarantine quarantine message limit s =
     (case OutboxQuarantineReason_new (quarantine_reason (claimed_attempt message) limit) of
        Inl e \<Rightarrow> (s, Inl e)
      | Inr reason \<Rightarrow> quarantine (om_event_id (claimed_message message)) reason s)"

text \<open>
  The loop over the claimed batch.  It carries the store, the transport, the counters and
  the event ids delivered so far, and stops at the first error of the port.
\<close>

fun publish_loop ::
    "(rstr \<Rightarrow> 's \<Rightarrow> 's \<times> unit outcome) \<Rightarrow> (rstr \<Rightarrow> rstr \<Rightarrow> 's \<Rightarrow> 's \<times> unit outcome)
      \<Rightarrow> (outbox_message \<Rightarrow> 't \<Rightarrow> 't \<times> unit outcome) \<Rightarrow> 32 word \<Rightarrow> claimed_outbox_message list
      \<Rightarrow> publish_outbox_round \<Rightarrow> rstr list \<Rightarrow> 's \<Rightarrow> 't
      \<Rightarrow> 's \<times> 't \<times> (publish_outbox_round \<times> rstr list) outcome" where
  "publish_loop mark_failed quarantine deliver limit [] counts delivered s t
     = (s, t, Inr (counts, delivered))"
| "publish_loop mark_failed quarantine deliver limit (message # rest) counts delivered s t =
     (if OutboxAttempt_is_exhausted (claimed_attempt message) limit
      then case publish_quarantine quarantine message limit s of
          (s', Inl e) \<Rightarrow> (s', t, Inl e)
        | (s', Inr _) \<Rightarrow> publish_loop mark_failed quarantine deliver limit rest
            (record_quarantined counts) delivered s' t
      else case deliver (claimed_message message) t of
          (t', Inr _) \<Rightarrow> publish_loop mark_failed quarantine deliver limit rest
            (record_delivered counts) (delivered @ [om_event_id (claimed_message message)]) s t'
        | (t', Inl _) \<Rightarrow>
            (case mark_failed (om_event_id (claimed_message message)) s of
               (s', Inl e) \<Rightarrow> (s', t', Inl e)
             | (s', Inr _) \<Rightarrow> publish_loop mark_failed quarantine deliver limit rest
                 (record_failed counts) delivered s' t'))"

definition publish_mark_delivered ::
    "(rstr list \<Rightarrow> 's \<Rightarrow> 's \<times> unit outcome) \<Rightarrow> rstr list \<Rightarrow> 's \<Rightarrow> 's \<times> unit outcome" where
  "publish_mark_delivered mark_delivered delivered s =
     (if delivered = [] then (s, Inr ()) else mark_delivered delivered s)"

text \<open>\<open>None\<close> is the panic inside \<open>claim\<close>.\<close>

definition PublishOutboxUseCase_execute ::
    "(nat \<Rightarrow> timestamp \<Rightarrow> duration_ms \<Rightarrow> 's \<Rightarrow> ('s \<times> claimed_outbox_message list outcome) option)
      \<Rightarrow> (rstr list \<Rightarrow> 's \<Rightarrow> 's \<times> unit outcome) \<Rightarrow> (rstr \<Rightarrow> 's \<Rightarrow> 's \<times> unit outcome)
      \<Rightarrow> (rstr \<Rightarrow> rstr \<Rightarrow> 's \<Rightarrow> 's \<times> unit outcome)
      \<Rightarrow> (outbox_message \<Rightarrow> 't \<Rightarrow> 't \<times> unit outcome) \<Rightarrow> timestamp \<Rightarrow> publish_outbox_input
      \<Rightarrow> 's \<Rightarrow> 't \<Rightarrow> ('s \<times> 't \<times> publish_outbox_round outcome) option" where
  "PublishOutboxUseCase_execute claim mark_delivered mark_failed quarantine deliver now input s t =
     (case claim (pub_batch_size input) now (pub_lease input) s of
        None \<Rightarrow> None
      | Some (s', Inl e) \<Rightarrow> Some (s', t, Inl e)
      | Some (s', Inr claimed) \<Rightarrow>
          (case publish_loop mark_failed quarantine deliver (pub_max_attempts input) claimed
              PublishOutboxRound_default [] s' t of
             (s'', t', Inl e) \<Rightarrow> Some (s'', t', Inl e)
           | (s'', t', Inr (counts, delivered)) \<Rightarrow>
               (case publish_mark_delivered mark_delivered delivered s'' of
                  (s3, Inl e) \<Rightarrow> Some (s3, t', Inl e)
                | (s3, Inr _) \<Rightarrow> Some (s3, t', Inr counts))))"

section \<open>What a claim hands out\<close>

text \<open>The message a ceremony would hand out at an instant: its first undelivered one, if free.\<close>

definition claimable_head :: "timestamp \<Rightarrow> stored_ceremony \<Rightarrow> claimed_outbox_message option" where
  "claimable_head now st =
     (case find (\<lambda>e. \<not> so_delivered e) (st_outbox st) of
        None \<Rightarrow> None
      | Some head \<Rightarrow>
          if StoredOutboxMessage_is_claimable head now
          then Some \<lparr>claimed_message = so_message head, claimed_attempt = so_attempt head\<rparr> else None)"

definition claimable :: "timestamp \<Rightarrow> ceremony_store \<Rightarrow> claimed_outbox_message list" where
  "claimable now s = List.map_filter (claimable_head now) (bt_values s)"

lemma claimable_simps [simp]:
  "claimable now [] = []"
  "claimable now ((cid, st) # s) =
     (case claimable_head now st of None \<Rightarrow> claimable now s | Some m \<Rightarrow> m # claimable now s)"
  by (simp_all add: claimable_def map_filter_simps split: option.split)

lemma claim_head_eq:
  "claim_head now lease_until outbox = None \<longleftrightarrow> claimable_head now st = None"
  "claim_head now lease_until outbox = Some (outbox', m) \<Longrightarrow> claimable_head now st = Some m"
  if "outbox = st_outbox st"
  using that by (auto simp: claim_head_def claimable_head_def split: option.splits if_splits)

lemma find_update_first:
  assumes "find p xs = Some x" and "p y"
  shows "find p (update_first p y xs) = Some y"
  using assms by (induction xs) (auto split: if_splits)

text \<open>A head that was just claimed is not free until its lease runs out.\<close>

lemma claim_head_held:
  assumes "claim_head now lease_until (st_outbox st) = Some (outbox, m)" and "now' < lease_until"
  shows "claimable_head now' (st\<lparr>st_outbox := outbox\<rparr>) = None"
proof -
  from assms(1) obtain head where head: "find (\<lambda>e. \<not> so_delivered e) (st_outbox st) = Some head"
    and outbox: "outbox = update_first (\<lambda>e. \<not> so_delivered e) (head\<lparr>so_claimed_until := Some lease_until\<rparr>) (st_outbox st)"
    by (auto simp: claim_head_def split: option.splits if_splits)
  have "\<not> so_delivered head" using find_Some_set [OF head] by simp
  then have "find (\<lambda>e. \<not> so_delivered e) outbox = Some (head\<lparr>so_claimed_until := Some lease_until\<rparr>)"
    using find_update_first [OF head] outbox by simp
  then show ?thesis using assms(2) by (simp add: claimable_head_def StoredOutboxMessage_is_claimable_def)
qed

lemma claim_loop_claimed:
  assumes "claim_loop limit now lease_until n s = (s', claimed)"
  shows "claimed = take (limit - n) (claimable now s) \<and>
    (now < lease_until \<longrightarrow> claimable now s' = drop (limit - n) (claimable now s))"
  using assms
proof (induction limit now lease_until n s arbitrary: s' claimed rule: claim_loop.induct)
  case (2 limit now lease_until n cid st s)
  show ?case
  proof (cases "limit \<le> n")
    case False
    show ?thesis
    proof (cases "claim_head now lease_until (st_outbox st)")
      case None
      then have "claimable_head now st = None" using claim_head_eq(1) [OF refl] by blast
      then show ?thesis using 2(1) [OF False None] 2(3) False None by (auto split: prod.splits)
    next
      case (Some x)
      obtain outbox m where x: "x = (outbox, m)" by (cases x)
      from Some x have "claimable_head now st = Some m" using claim_head_eq(2) [OF refl] by blast
      moreover obtain s'' rest where r: "claim_loop limit now lease_until (Suc n) s = (s'', rest)"
        by (cases "claim_loop limit now lease_until (Suc n) s")
      moreover have "limit - n = Suc (limit - Suc n)" using False by simp
      ultimately show ?thesis
        using 2(2) [OF False Some x [symmetric] r] 2(3) False Some x claim_head_held [of now lease_until st outbox m]
        by auto
    qed
  qed (use 2(3) in auto)
qed simp

section \<open>A round over any outbox port\<close>

text \<open>What each call does to a single entry of the outbox.\<close>

datatype verdict = Confirmed | Refused | GivenUp rstr

fun settle :: "verdict \<Rightarrow> stored_outbox_message \<Rightarrow> stored_outbox_message" where
  "settle Confirmed e = e\<lparr>so_delivered := True, so_claimed_until := None\<rparr>"
| "settle Refused e = e\<lparr>so_attempt := OutboxAttempt_next (so_attempt e), so_claimed_until := None\<rparr>"
| "settle (GivenUp why) e = e\<lparr>so_quarantine := Some why, so_claimed_until := None\<rparr>"

definition entry_id :: "stored_outbox_message \<Rightarrow> rstr" where
  "entry_id e = om_event_id (so_message e)"

definition claimed_id :: "claimed_outbox_message \<Rightarrow> rstr" where
  "claimed_id m = om_event_id (claimed_message m)"

lemma entry_id_settle [simp]: "entry_id (settle v e) = entry_id e"
  by (cases v) (simp_all add: entry_id_def)

text \<open>
  The reference for a round: ask the transport about each message that has attempts left, in
  order, and give up on the others.
\<close>

definition verdict_of ::
    "(outbox_message \<Rightarrow> 't \<Rightarrow> 't \<times> unit outcome) \<Rightarrow> 32 word \<Rightarrow> claimed_outbox_message \<Rightarrow> 't \<Rightarrow> verdict \<times> 't" where
  "verdict_of deliver limit m t =
     (if OutboxAttempt_is_exhausted (claimed_attempt m) limit
      then (GivenUp (quarantine_reason (claimed_attempt m) limit), t)
      else (if is_ok (snd (deliver (claimed_message m) t)) then Confirmed else Refused,
            fst (deliver (claimed_message m) t)))"

fun verdicts ::
    "(outbox_message \<Rightarrow> 't \<Rightarrow> 't \<times> unit outcome) \<Rightarrow> 32 word \<Rightarrow> claimed_outbox_message list \<Rightarrow> 't
      \<Rightarrow> (rstr \<times> verdict) list \<times> 't" where
  "verdicts deliver limit [] t = ([], t)"
| "verdicts deliver limit (m # ms) t =
     (let x = verdict_of deliver limit m t; y = verdicts deliver limit ms (snd x)
      in ((claimed_id m, fst x) # fst y, snd y))"

text \<open>
  What becomes of an entry.  The calls of the port name event ids, so an entry takes part in every
  verdict on its id: refusals and quarantines as they come, a confirmation at the end.
\<close>

definition verdicts_on :: "rstr \<Rightarrow> (rstr \<times> verdict) list \<Rightarrow> verdict list" where
  "verdicts_on eid vs = map snd (filter (\<lambda>x. fst x = eid) vs)"

definition settle_unconfirmed :: "(rstr \<times> verdict) list \<Rightarrow> stored_outbox_message \<Rightarrow> stored_outbox_message" where
  "settle_unconfirmed vs e = fold settle (filter (\<lambda>v. v \<noteq> Confirmed) (verdicts_on (entry_id e) vs)) e"

definition settle_by :: "(rstr \<times> verdict) list \<Rightarrow> stored_outbox_message \<Rightarrow> stored_outbox_message" where
  "settle_by vs e =
     (if Confirmed \<in> set (verdicts_on (entry_id e) vs) then settle Confirmed (settle_unconfirmed vs e)
      else settle_unconfirmed vs e)"

definition tally :: "(rstr \<times> verdict) list \<Rightarrow> publish_outbox_round" where
  "tally vs = \<lparr>round_delivered = length (filter (\<lambda>x. snd x = Confirmed) vs),
     round_failed = length (filter (\<lambda>x. snd x = Refused) vs),
     round_quarantined = length (filter (\<lambda>x. snd x \<noteq> Confirmed \<and> snd x \<noteq> Refused) vs)\<rparr>"

lemma entry_id_unconfirmed [simp]: "entry_id (settle_unconfirmed vs e) = entry_id e"
proof -
  have "entry_id (fold settle ws e) = entry_id e" for ws e by (induction ws arbitrary: e) auto
  then show ?thesis by (simp add: settle_unconfirmed_def)
qed

lemma settle_unconfirmed_Cons:
  "settle_unconfirmed ((eid, v) # vs) e =
     settle_unconfirmed vs (if v \<noteq> Confirmed \<and> entry_id e = eid then settle v e else e)"
  by (auto simp: settle_unconfirmed_def verdicts_on_def)

text \<open>An entry without a verdict stays as it is, one with a single verdict is settled by it.\<close>

lemma settle_by_none: "entry_id e \<notin> fst ` set vs \<Longrightarrow> settle_by vs e = e"
proof -
  assume "entry_id e \<notin> fst ` set vs"
  then have "filter (\<lambda>x. fst x = entry_id e) vs = []" unfolding filter_empty_conv by (metis imageI)
  then show ?thesis by (simp add: settle_by_def settle_unconfirmed_def verdicts_on_def)
qed

lemma settle_by_single: "verdicts_on (entry_id e) vs = [v] \<Longrightarrow> settle_by vs e = settle v e"
  by (simp add: settle_by_def settle_unconfirmed_def)

text \<open>Whatever the verdict, the entry is no longer held.\<close>

lemma settle_released: "so_claimed_until (settle v e) = None"
  by (cases v) simp_all

lemma settle_by_released: "entry_id e \<in> fst ` set vs \<Longrightarrow> so_claimed_until (settle_by vs e) = None"
proof -
  assume "entry_id e \<in> fst ` set vs"
  then have ne: "verdicts_on (entry_id e) vs \<noteq> []" by (force simp: verdicts_on_def filter_empty_conv)
  have fold: "so_claimed_until (fold settle ws e) = None" if "ws \<noteq> []" for ws e
    using that by (induction ws rule: rev_induct) (simp_all add: settle_released)
  show ?thesis
  proof (cases "Confirmed \<in> set (verdicts_on (entry_id e) vs)")
    case False
    then have "filter (\<lambda>v. v \<noteq> Confirmed) (verdicts_on (entry_id e) vs) = verdicts_on (entry_id e) vs" by (auto simp: filter_id_conv)
    then show ?thesis using False ne fold by (simp add: settle_by_def settle_unconfirmed_def)
  qed (simp add: settle_by_def settle_released)
qed

lemma verdicts_ids: "map fst (fst (verdicts deliver limit ms t)) = map (claimed_id) ms"
  by (induction ms arbitrary: t) (simp_all add: Let_def)

lemma tally_claimed: "PublishOutboxRound_claimed (tally vs) = length vs"
  by (induction vs) (auto simp: tally_def PublishOutboxRound_claimed_def)

lemma quarantine_reason_accepted [simp]:
  "OutboxQuarantineReason_new (quarantine_reason a l) = Inr (quarantine_reason a l)"
proof -
  let ?r = "quarantine_reason a l"
  have digits: "\<not> is_whitespace c \<and> c < 128" if "c \<in> set (display_nat n)" for c n
    using display_nat_digits that by (fastforce simp: is_ascii_digit_def is_whitespace_def)
  have len: "length (display_nat (unat x)) \<le> 10" for x :: "32 word"
  proof -
    have "unat x < 2 ^ 32" using unsigned_less [of x] by simp
    then show ?thesis using display_nat_length [of "unat x" 9] by simp
  qed
  have "length ?r = 49 + length (display_nat (unat a)) + length (display_nat (unat l))"
    by (simp add: quarantine_reason_def lit_def)
  then have "length ?r \<le> 512" using len [of a] len [of l] by linarith
  moreover have "\<forall>c \<in> set ?r. c < 128"
    using digits by (auto simp: quarantine_reason_def lit_def)
  ultimately have "str_len ?r \<le> 512" by (simp add: str_len_ascii)
  moreover have "hd ?r = 100" by (simp add: quarantine_reason_def lit_def)
  moreover have "last ?r \<in> set (display_nat (unat l))" by (simp add: quarantine_reason_def)
  then have "\<not> is_whitespace (last ?r)" using digits by blast
  moreover have "?r \<noteq> []" by (simp add: quarantine_reason_def)
  ultimately have "trim ?r = ?r" "?r \<noteq> []" "str_len ?r \<le> 512"
    by (auto intro!: trim_id simp: is_whitespace_def)
  then show ?thesis
    by (simp add: OutboxQuarantineReason_new_def checked_text_def no_char_def list_ex_iff)
qed

text \<open>
  What the publisher relies on: each marking call succeeds, settles exactly the entries it
  names and leaves everything outside the outbox alone.
\<close>

locale outbox_port =
  fixes mark_delivered :: "rstr list \<Rightarrow> 's \<Rightarrow> 's \<times> unit outcome"
    and mark_failed :: "rstr \<Rightarrow> 's \<Rightarrow> 's \<times> unit outcome"
    and quarantine :: "rstr \<Rightarrow> rstr \<Rightarrow> 's \<Rightarrow> 's \<times> unit outcome"
    and entries :: "'s \<Rightarrow> stored_outbox_message list" and beside :: "'s \<Rightarrow> 'q"
  assumes delivered: "snd (mark_delivered ids s) = Inr () \<and> entries (fst (mark_delivered ids s)) =
      map (\<lambda>e. if entry_id e \<in> set ids then settle Confirmed e else e) (entries s)"
    and failed: "snd (mark_failed eid s) = Inr () \<and> entries (fst (mark_failed eid s)) =
      map (\<lambda>e. if entry_id e = eid then settle Refused e else e) (entries s)"
    and quarantined: "snd (quarantine eid why s) = Inr () \<and> entries (fst (quarantine eid why s)) =
      map (\<lambda>e. if entry_id e = eid then settle (GivenUp why) e else e) (entries s)"
    and beside_kept: "beside (fst (mark_delivered ids s)) = beside s" "beside (fst (mark_failed eid s)) = beside s"
      "beside (fst (quarantine eid why s)) = beside s"
begin

definition confirmed_ids :: "(rstr \<times> verdict) list \<Rightarrow> rstr list" where
  "confirmed_ids vs = map fst (filter (\<lambda>x. snd x = Confirmed) vs)"

definition count_verdict :: "verdict \<Rightarrow> publish_outbox_round \<Rightarrow> publish_outbox_round" where
  "count_verdict v = (case v of
     Confirmed \<Rightarrow> record_delivered | Refused \<Rightarrow> record_failed | GivenUp _ \<Rightarrow> record_quarantined)"

lemma loop_step:
  fixes m t deliver limit
  defines "v \<equiv> fst (verdict_of deliver limit m t)" and "t' \<equiv> snd (verdict_of deliver limit m t)"
    and "eid \<equiv> claimed_id m"
  shows "\<exists>s'. publish_loop mark_failed quarantine deliver limit (m # ms) counts confirmed s t =
      publish_loop mark_failed quarantine deliver limit ms (count_verdict v counts)
        (confirmed @ (if v = Confirmed then [eid] else [])) s' t' \<and>
    entries s' = map (\<lambda>e. if v \<noteq> Confirmed \<and> entry_id e = eid then settle v e else e) (entries s) \<and> beside s' = beside s"
proof (cases "OutboxAttempt_is_exhausted (claimed_attempt m) limit")
  case True
  let ?why = "quarantine_reason (claimed_attempt m) limit"
  obtain s' where s': "quarantine eid ?why s = (s', Inr ())"
    by (metis quarantined prod.collapse)
  then have "entries s' = map (\<lambda>e. if entry_id e = eid then settle (GivenUp ?why) e else e) (entries s)" "beside s' = beside s"
    using quarantined [of eid ?why s] beside_kept(3) [of eid ?why s] by simp_all
  moreover have "v = GivenUp ?why" "t' = t" using True by (simp_all add: v_def t'_def verdict_of_def)
  ultimately show ?thesis
    using True s' by (auto simp: eid_def claimed_id_def publish_quarantine_def count_verdict_def)
next
  case False
  obtain r where r: "deliver (claimed_message m) t = (t', r)"
    using False by (simp add: t'_def verdict_of_def prod_eq_iff)
  show ?thesis
  proof (cases r)
    case (Inl e)
    obtain s' where s': "mark_failed eid s = (s', Inr ())"
      by (metis failed prod.collapse)
    then have "entries s' = map (\<lambda>e. if entry_id e = eid then settle Refused e else e) (entries s)" "beside s' = beside s"
      using failed [of eid s] beside_kept(2) [of eid s] by simp_all
    moreover have "v = Refused" using False r Inl by (simp add: v_def verdict_of_def is_ok_def)
    ultimately show ?thesis
      using False s' r Inl by (auto simp: eid_def claimed_id_def count_verdict_def)
  next
    case (Inr u)
    then have "v = Confirmed" using False r by (simp add: v_def verdict_of_def is_ok_def)
    then show ?thesis using False r Inr by (auto simp: eid_def claimed_id_def count_verdict_def)
  qed
qed

lemma loop_runs:
  "\<exists>s'. publish_loop mark_failed quarantine deliver limit ms counts confirmed s t =
      (s', snd (verdicts deliver limit ms t),
       Inr (fold count_verdict (map snd (fst (verdicts deliver limit ms t))) counts,
            confirmed @ confirmed_ids (fst (verdicts deliver limit ms t)))) \<and>
    entries s' = map (settle_unconfirmed (fst (verdicts deliver limit ms t))) (entries s) \<and> beside s' = beside s"
proof (induction ms arbitrary: counts confirmed s t)
  case Nil
  then show ?case by (simp add: confirmed_ids_def settle_unconfirmed_def verdicts_on_def)
next
  case (Cons m ms)
  let ?x = "verdict_of deliver limit m t"
  let ?vs = "fst (verdicts deliver limit ms (snd ?x))"
  let ?eid = "claimed_id m"
  obtain s1 where s1: "publish_loop mark_failed quarantine deliver limit (m # ms) counts confirmed s t =
      publish_loop mark_failed quarantine deliver limit ms (count_verdict (fst ?x) counts)
        (confirmed @ (if fst ?x = Confirmed then [?eid] else [])) s1 (snd ?x)"
    "entries s1 = map (\<lambda>e. if fst ?x \<noteq> Confirmed \<and> entry_id e = ?eid then settle (fst ?x) e else e) (entries s)" "beside s1 = beside s"
    using loop_step [where m = m and t = t and deliver = deliver and limit = limit] by blast
  from Cons.IH [of "count_verdict (fst ?x) counts" "confirmed @ (if fst ?x = Confirmed then [?eid] else [])" s1 "snd ?x"]
  obtain s2 where s2: "publish_loop mark_failed quarantine deliver limit ms (count_verdict (fst ?x) counts)
        (confirmed @ (if fst ?x = Confirmed then [?eid] else [])) s1 (snd ?x) =
      (s2, snd (verdicts deliver limit ms (snd ?x)),
       Inr (fold count_verdict (map snd ?vs) (count_verdict (fst ?x) counts),
            (confirmed @ (if fst ?x = Confirmed then [?eid] else [])) @ confirmed_ids ?vs))"
    "entries s2 = map (settle_unconfirmed ?vs) (entries s1)" "beside s2 = beside s1" by blast
  have "entries s2 = map (settle_unconfirmed ((?eid, fst ?x) # ?vs)) (entries s)"
    unfolding s2(2) s1(2) by (simp add: settle_unconfirmed_Cons)
  then show ?case
    unfolding s1(1) s2(1) using s1(3) s2(3) by (simp add: Let_def confirmed_ids_def del: publish_loop.simps)
qed

lemma counts_tally: "fold count_verdict (map snd vs) PublishOutboxRound_default = tally vs"
proof -
  have "fold count_verdict vs c = \<lparr>round_delivered = round_delivered c + length (filter (\<lambda>v. v = Confirmed) vs),
      round_failed = round_failed c + length (filter (\<lambda>v. v = Refused) vs),
      round_quarantined = round_quarantined c + length (filter (\<lambda>v. v \<noteq> Confirmed \<and> v \<noteq> Refused) vs)\<rparr>" for vs c
    by (induction vs arbitrary: c)
      (auto simp: count_verdict_def record_delivered_def record_failed_def record_quarantined_def
        split: verdict.split)
  then show ?thesis
    by (simp add: tally_def PublishOutboxRound_default_def filter_map comp_def)
qed

lemma confirmed_iff: "eid \<in> set (confirmed_ids vs) \<longleftrightarrow> Confirmed \<in> set (verdicts_on eid vs)"
  by (auto simp: confirmed_ids_def verdicts_on_def image_iff)

text \<open>A round whose claim succeeded always succeeds and does what the reference says.\<close>

lemma execute_runs:
  assumes "claim (pub_batch_size input) now (pub_lease input) s = Some (s1, Inr claimed)"
    and "verdicts deliver (pub_max_attempts input) claimed t = (vs, t')"
  shows "\<exists>s2. PublishOutboxUseCase_execute claim mark_delivered mark_failed quarantine deliver now input s t
      = Some (s2, t', Inr (tally vs)) \<and> entries s2 = map (settle_by vs) (entries s1) \<and> beside s2 = beside s1"
proof -
  from loop_runs [of deliver "pub_max_attempts input" claimed PublishOutboxRound_default "[]" s1 t]
  obtain s' where loop: "publish_loop mark_failed quarantine deliver (pub_max_attempts input) claimed
      PublishOutboxRound_default [] s1 t = (s', t', Inr (tally vs, confirmed_ids vs))"
    and s': "entries s' = map (settle_unconfirmed vs) (entries s1)" "beside s' = beside s1"
    using assms(2) by (auto simp: counts_tally)
  obtain s2 where s2: "publish_mark_delivered mark_delivered (confirmed_ids vs) s' = (s2, Inr ())"
    "entries s2 = map (\<lambda>e. if entry_id e \<in> set (confirmed_ids vs) then settle Confirmed e else e) (entries s')" "beside s2 = beside s'"
  proof (cases "confirmed_ids vs = []")
    case False
    then show ?thesis
      using that [of "fst (mark_delivered (confirmed_ids vs) s')"] delivered [of "confirmed_ids vs" s'] beside_kept(1) [of "confirmed_ids vs" s']
      by (simp add: publish_mark_delivered_def prod_eq_iff)
  qed (use that in \<open>simp add: publish_mark_delivered_def\<close>)
  have "entries s2 = map (settle_by vs) (entries s1)"
    unfolding s2(2) s'(1) by (simp add: confirmed_iff settle_by_def)
  then show ?thesis using s2(1,3) s'(2) by (auto simp: PublishOutboxUseCase_execute_def assms(1) loop)
qed

end

section \<open>The in-memory store as outbox port\<close>

definition memory_claim ::
    "(timestamp \<Rightarrow> nat \<Rightarrow> timestamp option) \<Rightarrow> nat \<Rightarrow> timestamp \<Rightarrow> duration_ms \<Rightarrow> ceremony_store
      \<Rightarrow> (ceremony_store \<times> claimed_outbox_message list outcome) option" where
  "memory_claim checked_add limit now lease s =
     map_option (\<lambda>(s', claimed). (s', Inr claimed)) (store_claim checked_add limit now lease s)"

definition memory_mark_delivered :: "rstr list \<Rightarrow> ceremony_store \<Rightarrow> ceremony_store \<times> unit outcome" where
  "memory_mark_delivered event_ids s = (store_mark_delivered event_ids s, Inr ())"

definition memory_mark_failed :: "rstr \<Rightarrow> ceremony_store \<Rightarrow> ceremony_store \<times> unit outcome" where
  "memory_mark_failed event_id s = (store_mark_failed event_id s, Inr ())"

definition memory_quarantine :: "rstr \<Rightarrow> rstr \<Rightarrow> ceremony_store \<Rightarrow> ceremony_store \<times> unit outcome" where
  "memory_quarantine event_id reason s = (store_quarantine event_id reason s, Inr ())"

text \<open>Every outbox entry of the store, in order.\<close>

definition outbox_entries :: "ceremony_store \<Rightarrow> stored_outbox_message list" where
  "outbox_entries s = concat (map st_outbox (bt_values s))"

lemma outbox_entries_simps [simp]:
  "outbox_entries [] = []" "outbox_entries ((cid, st) # s) = st_outbox st @ outbox_entries s"
  by (simp_all add: outbox_entries_def)

lemma outbox_entries_map: "outbox_entries (map_outbox f s) = map f (outbox_entries s)"
  by (induction s) (auto simp: outbox_entries_def map_outbox_def)

text \<open>Everything of the store but the outboxes.\<close>

definition without_outboxes :: "ceremony_store \<Rightarrow> ceremony_store" where
  "without_outboxes s = map (\<lambda>(cid, st). (cid, st\<lparr>st_outbox := []\<rparr>)) s"

lemma without_outboxes_map: "without_outboxes (map_outbox f s) = without_outboxes s"
  by (induction s) (auto simp: without_outboxes_def map_outbox_def)

lemma claim_loop_beside: "claim_loop limit now lease_until n s = (s', claimed) \<Longrightarrow> without_outboxes s' = without_outboxes s"
  by (induction limit now lease_until n s arbitrary: s' claimed rule: claim_loop.induct)
    (auto simp: without_outboxes_def split: if_splits option.splits prod.splits)

interpretation memory_outbox: outbox_port memory_mark_delivered memory_mark_failed memory_quarantine outbox_entries without_outboxes
  by unfold_locales
    (simp_all add: without_outboxes_map memory_mark_delivered_def memory_mark_failed_def memory_quarantine_def
      store_mark_delivered_def store_mark_failed_def store_quarantine_def outbox_entries_map entry_id_def)

section \<open>An outbox for the examples\<close>

definition demo_add :: "timestamp \<Rightarrow> nat \<Rightarrow> timestamp option" where
  "demo_add t ms = Some (t + int ms * 1000000)"

definition demo_message :: "string \<Rightarrow> outbox_message" where
  "demo_message n = \<lparr>om_event_id = lit n, om_subject = lit ''s'', om_payload = JBool True, om_enqueued_at = 0\<rparr>"

definition demo_queue :: ceremony_store where
  "demo_queue =
     [(lit ''a'', StoredCeremony_default\<lparr>st_outbox :=
         [StoredOutboxMessage_new (demo_message ''e1''), StoredOutboxMessage_new (demo_message ''e2'')]\<rparr>),
      (lit ''b'', StoredCeremony_default\<lparr>st_outbox := [StoredOutboxMessage_new (demo_message ''e3'')]\<rparr>)]"

definition demo_input :: publish_outbox_input where
  "demo_input = \<lparr>pub_batch_size = 5, pub_max_attempts = 3, pub_lease = 1000\<rparr>"

text \<open>A transport that refuses everything but \<open>e1\<close> and counts its calls.\<close>

definition demo_deliver :: "outbox_message \<Rightarrow> nat \<Rightarrow> nat \<times> unit outcome" where
  "demo_deliver m n = (Suc n, if om_event_id m = lit ''e1'' then Inr () else Inl (NotFound ''route''))"

lemmas demo_outbox_defs = demo_queue_def demo_message_def StoredOutboxMessage_new_def
  StoredCeremony_default_def demo_input_def OutboxAttempt_NONE_def claimable_head_def
  StoredOutboxMessage_is_claimable_def

section \<open>Properties\<close>

text \<open>
  What a claim hands out: at most one message per ceremony, its first undelivered one
  and only if that is neither quarantined nor held, for the first ceremonies in id order, as
  many as asked for.  A second publisher claiming within the lease gets the next ones:
  together they hold what one bigger claim would have, and no message twice.
\<close>

theorem outbox_claims_partition:
  assumes "store_claim checked_add limit now lease s = Some (s', claimed)"
    and "checked_add now (unat lease) = Some lease_until" and "now < lease_until"
    and "store_claim checked_add limit' now lease' s' = Some (s'', claimed')"
  shows "claimed = take limit (claimable now s) \<and>
    claimed @ claimed' = take (limit + limit') (claimable now s)"
proof -
  have "claimed = take limit (claimable now s)" "claimable now s' = drop limit (claimable now s)"
    using assms(1,2,3) claim_loop_claimed [of limit now lease_until 0 s s' claimed] by (simp_all add: store_claim_def)
  moreover have "claimed' = take limit' (claimable now s')"
    using assms(4) claim_loop_claimed [of limit' now _ 0 s' s'' claimed']
    by (auto simp: store_claim_def split: option.splits)
  ultimately show ?thesis by (simp add: take_add)
qed

theorem outbox_claims_partition_witness:
  "\<exists>s' s'' c c'. store_claim demo_add 1 0 1000 demo_queue = Some (s', c) \<and>
     store_claim demo_add 1 0 1000 s' = Some (s'', c') \<and>
     map claimed_id (c @ c') = [lit ''e1'', lit ''e3'']"
proof -
  obtain s' c where 1: "store_claim demo_add 1 0 1000 demo_queue = Some (s', c)"
    by (simp add: store_claim_def demo_add_def) (metis prod.collapse)
  obtain s'' c' where 2: "store_claim demo_add 1 0 1000 s' = Some (s'', c')"
    by (simp add: store_claim_def demo_add_def) (metis prod.collapse)
  have "c @ c' = take (1 + 1) (claimable 0 demo_queue)"
    using outbox_claims_partition [OF 1 _ _ 2, of 1000000000] by (fastforce simp: demo_add_def)
  moreover have "map claimed_id (take (1 + 1) (claimable 0 demo_queue)) = [lit ''e1'', lit ''e3'']"
    by (simp add: demo_outbox_defs claimed_id_def)
  ultimately show ?thesis using 1 2 by metis
qed

text \<open>
  C31. A publishing round settles what it claimed: whenever the claim itself does not panic the
  round succeeds, and every claimed message is counted once, as delivered, failed or quarantined,
  as the transport and the attempt limit decide.  The port knows messages by their event id, so an
  entry follows the verdicts on its id: without one it stays as the claim left it, with a single
  one it is settled by that, and a confirmation retires every entry that carries the id.  Sessions,
  revisions and journals do not change.
\<close>

theorem publish_round_settles:
  assumes "store_claim checked_add (pub_batch_size input) now (pub_lease input) s = Some (s1, claimed)"
    and "verdicts deliver (pub_max_attempts input) claimed t = (vs, t')"
  shows "\<exists>s2. PublishOutboxUseCase_execute (memory_claim checked_add) memory_mark_delivered
      memory_mark_failed memory_quarantine deliver now input s t = Some (s2, t', Inr (tally vs)) \<and>
    map fst vs = map claimed_id claimed \<and>
    PublishOutboxRound_claimed (tally vs) = length claimed \<and> length claimed \<le> pub_batch_size input \<and>
    without_outboxes s2 = without_outboxes s \<and>
    outbox_entries s2 = map (settle_by vs) (outbox_entries s1) \<and>
    (\<forall>e. (entry_id e \<notin> set (map claimed_id claimed) \<longrightarrow> settle_by vs e = e) \<and>
      (\<forall>v. verdicts_on (entry_id e) vs = [v] \<longrightarrow> settle_by vs e = settle v e) \<and>
      (Confirmed \<in> set (verdicts_on (entry_id e) vs) \<longrightarrow> so_delivered (settle_by vs e)) \<and>
      (entry_id e \<in> set (map claimed_id claimed) \<longrightarrow> so_claimed_until (settle_by vs e) = None))"
proof -
  obtain lu where lu: "claim_loop (pub_batch_size input) now lu 0 s = (s1, claimed)"
    using assms(1) by (auto simp: store_claim_def split: option.splits)
  then have c: "length claimed \<le> pub_batch_size input" using claim_loop_claimed by fastforce
  have ids: "map fst vs = map claimed_id claimed"
    using verdicts_ids [of deliver "pub_max_attempts input" claimed t] assms(2) by simp
  have "memory_claim checked_add (pub_batch_size input) now (pub_lease input) s = Some (s1, Inr claimed)"
    using assms(1) by (simp add: memory_claim_def)
  from memory_outbox.execute_runs [of "memory_claim checked_add", OF this assms(2)] obtain s2 where
    s2: "PublishOutboxUseCase_execute (memory_claim checked_add) memory_mark_delivered memory_mark_failed memory_quarantine
        deliver now input s t = Some (s2, t', Inr (tally vs))"
      "outbox_entries s2 = map (settle_by vs) (outbox_entries s1)" "without_outboxes s2 = without_outboxes s1" by blast
  have claimed: "set (map claimed_id claimed) = fst ` set vs" using arg_cong [OF ids, of set] by simp
  have "(entry_id e \<notin> set (map claimed_id claimed) \<longrightarrow> settle_by vs e = e) \<and>
      (\<forall>v. verdicts_on (entry_id e) vs = [v] \<longrightarrow> settle_by vs e = settle v e) \<and>
      (Confirmed \<in> set (verdicts_on (entry_id e) vs) \<longrightarrow> so_delivered (settle_by vs e)) \<and>
      (entry_id e \<in> set (map claimed_id claimed) \<longrightarrow> so_claimed_until (settle_by vs e) = None)" for e
    unfolding claimed using settle_by_none [of e vs] settle_by_single [of e vs] settle_by_released [of e vs]
    by (auto simp: settle_by_def)
  then show ?thesis using s2 ids c claim_loop_beside [OF lu] map_eq_imp_length_eq [OF ids]
    by (auto simp: tally_claimed)
qed

theorem publish_round_settles_witness:
  "\<exists>s2 counts. PublishOutboxUseCase_execute (memory_claim demo_add) memory_mark_delivered
      memory_mark_failed memory_quarantine demo_deliver 0 demo_input demo_queue 0 = Some (s2, 2, Inr counts) \<and>
    round_delivered counts = 1 \<and> round_failed counts = 1 \<and> round_quarantined counts = 0"
proof -
  obtain s1 c where c: "store_claim demo_add 5 0 1000 demo_queue = Some (s1, c)"
    by (simp add: store_claim_def demo_add_def) (metis prod.collapse)
  have "claim_loop 5 0 1000000000 0 demo_queue = (s1, c)"
    using c by (simp add: store_claim_def demo_add_def)
  from claim_loop_claimed [OF this]
  have ids: "c = [\<lparr>claimed_message = demo_message ''e1'', claimed_attempt = 0\<rparr>,
      \<lparr>claimed_message = demo_message ''e3'', claimed_attempt = 0\<rparr>]"
    by (simp add: demo_outbox_defs)
  have "lit ''e3'' \<noteq> lit ''e1''" by (simp add: lit_def)
  then have v: "verdicts demo_deliver (pub_max_attempts demo_input) c 0
      = ([(lit ''e1'', Confirmed), (lit ''e3'', Refused)], 2)"
    by (simp add: ids verdict_of_def OutboxAttempt_is_exhausted_def demo_input_def demo_deliver_def
        demo_message_def claimed_id_def is_ok_def)
  have "store_claim demo_add (pub_batch_size demo_input) 0 (pub_lease demo_input) demo_queue = Some (s1, c)"
    using c by (simp add: demo_input_def)
  then obtain s2 where "PublishOutboxUseCase_execute (memory_claim demo_add) memory_mark_delivered
      memory_mark_failed memory_quarantine demo_deliver 0 demo_input demo_queue 0
      = Some (s2, 2, Inr (tally [(lit ''e1'', Confirmed), (lit ''e3'', Refused)]))"
    using publish_round_settles [OF _ v] by blast
  then show ?thesis by (simp add: tally_def)
qed

text \<open>
  Event ids are not checked for uniqueness.  When two ceremonies have a message under the same id and
  the transport confirms one of them and refuses the other, the round retires both, so the refused
  message is never sent again.
\<close>

definition demo_twins :: ceremony_store where
  "demo_twins =
     [(lit ''a'', StoredCeremony_default\<lparr>st_outbox := [StoredOutboxMessage_new (demo_message ''e1'')]\<rparr>),
      (lit ''b'', StoredCeremony_default\<lparr>st_outbox := [StoredOutboxMessage_new ((demo_message ''e1'')\<lparr>om_subject := lit ''t''\<rparr>)]\<rparr>)]"

definition demo_subject_deliver :: "outbox_message \<Rightarrow> nat \<Rightarrow> nat \<times> unit outcome" where
  "demo_subject_deliver m n = (Suc n, if om_subject m = lit ''s'' then Inr () else Inl (NotFound ''route''))"

theorem shared_id_retires_refused:
  "\<exists>s2. PublishOutboxUseCase_execute (memory_claim demo_add) memory_mark_delivered memory_mark_failed memory_quarantine
      demo_subject_deliver 0 demo_input demo_twins 0 =
      Some (s2, 2, Inr \<lparr>round_delivered = 1, round_failed = 1, round_quarantined = 0\<rparr>) \<and>
    map so_delivered (outbox_entries s2) = [True, True]"
proof -
  have ne: "lit ''t'' \<noteq> lit ''s''" by (simp add: lit_def)
  have claim: "memory_claim demo_add 5 0 1000 demo_twins = Some (map_outbox (\<lambda>e. e\<lparr>so_claimed_until := Some 1000000000\<rparr>) demo_twins,
      Inr [\<lparr>claimed_message = demo_message ''e1'', claimed_attempt = 0\<rparr>,
           \<lparr>claimed_message = (demo_message ''e1'')\<lparr>om_subject := lit ''t''\<rparr>, claimed_attempt = 0\<rparr>])"
    by (simp add: memory_claim_def store_claim_def demo_add_def demo_twins_def claim_head_def demo_outbox_defs map_outbox_def)
  show ?thesis using ne
    by (simp add: PublishOutboxUseCase_execute_def demo_input_def claim OutboxAttempt_is_exhausted_def demo_subject_deliver_def
        demo_message_def memory_mark_failed_def publish_mark_delivered_def memory_mark_delivered_def store_mark_failed_def
        store_mark_delivered_def outbox_entries_map PublishOutboxRound_default_def record_delivered_def record_failed_def)
      (simp add: demo_twins_def StoredCeremony_default_def StoredOutboxMessage_new_def demo_message_def)
qed

end
