(* ===== verification/Outbox_Order.thy ===== *)
theory Outbox_Order
  imports Outbox_Publishing
begin

text \<open>
  Delivery order.  The step relation \<open>outbox_step\<close> runs the store together with the set of
  event ids that some publisher has claimed so far: publishers may die, overlap and come back
  after their lease, but they only ever settle what they claimed.  Commits bring any messages,
  also under event ids that are in use.  The invariant \<open>order_inv\<close> gives that the messages of a
  ceremony are delivered in the order they were committed, as far as their ids tell them apart.
\<close>

section \<open>The protocol\<close>

definition outbox_of :: "ceremony_store \<Rightarrow> rstr \<Rightarrow> stored_outbox_message list" where
  "outbox_of s cid = (case bt_get s cid of None \<Rightarrow> [] | Some st \<Rightarrow> st_outbox st)"

inductive outbox_step ::
    "(bytes \<Rightarrow> digest) \<Rightarrow> (timestamp \<Rightarrow> rstr option) \<Rightarrow> (timestamp \<Rightarrow> nat \<Rightarrow> timestamp option)
      \<Rightarrow> ceremony_store \<times> rstr set \<Rightarrow> ceremony_store \<times> rstr set \<Rightarrow> bool"
  for sha256 rfc3339 checked_add where
  o_commit: "\<lbrakk>CeremonyCommit_new i expected facts messages = Inr c;
     store_commit sha256 rfc3339 c s = (s', r)\<rbrakk>
    \<Longrightarrow> outbox_step sha256 rfc3339 checked_add (s, held) (s', held)"
| o_append: "store_append sha256 rfc3339 f s = (s', r) \<Longrightarrow>
    outbox_step sha256 rfc3339 checked_add (s, held) (s', held)"
| o_save: "outbox_step sha256 rfc3339 checked_add (s, held) (store_save i s, held)"
| o_claim: "store_claim checked_add limit now lease s = Some (s', claimed) \<Longrightarrow>
    outbox_step sha256 rfc3339 checked_add (s, held) (s', held \<union> set (map claimed_id claimed))"
| o_delivered: "set ids \<subseteq> held \<Longrightarrow>
    outbox_step sha256 rfc3339 checked_add (s, held) (store_mark_delivered ids s, held)"
| o_failed: "eid \<in> held \<Longrightarrow>
    outbox_step sha256 rfc3339 checked_add (s, held) (store_mark_failed eid s, held)"
| o_quarantine: "eid \<in> held \<Longrightarrow>
    outbox_step sha256 rfc3339 checked_add (s, held) (store_quarantine eid why s, held)"

text \<open>The entry at a position carries an id that no other entry carries.\<close>

definition sole :: "(rstr \<Rightarrow> stored_outbox_message list) \<Rightarrow> rstr \<Rightarrow> nat \<Rightarrow> bool" where
  "sole ob cid j =
     (\<forall>cid' k. k < length (ob cid') \<and> entry_id (ob cid' ! k) = entry_id (ob cid ! j) \<longrightarrow> cid' = cid \<and> k = j)"

text \<open>
  What was claimed is in some outbox, what is delivered was claimed, and an entry that was claimed
  under an id of its own has only delivered entries before it.
\<close>

definition ordered :: "rstr set \<Rightarrow> (rstr \<Rightarrow> stored_outbox_message list) \<Rightarrow> bool" where
  "ordered held ob =
     (held \<subseteq> (\<Union>cid. entry_id ` set (ob cid)) \<and>
      (\<forall>cid j. j < length (ob cid) \<longrightarrow>
        (so_delivered (ob cid ! j) \<longrightarrow> entry_id (ob cid ! j) \<in> held) \<and>
        (entry_id (ob cid ! j) \<in> held \<and> sole ob cid j \<longrightarrow> (\<forall>i < j. so_delivered (ob cid ! i)))))"

definition order_inv :: "ceremony_store \<times> rstr set \<Rightarrow> bool" where
  "order_inv x = (case x of (s, held) \<Rightarrow> bt_wf s \<and> ordered held (outbox_of s))"

section \<open>Outboxes\<close>

lemma ids_nth:
  assumes "map entry_id xs = map entry_id ys" and "j < length ys"
  shows "j < length xs" and "entry_id (xs ! j) = entry_id (ys ! j)"
  using assms map_eq_imp_length_eq [OF assms(1)] by (simp, metis nth_map)

lemma sole_cong:
  assumes "\<And>cid. map entry_id (ob' cid) = map entry_id (ob cid)" and "j < length (ob cid)"
  shows "sole ob' cid j \<longleftrightarrow> sole ob cid j"
proof -
  have len: "length (ob' k) = length (ob k)" for k using map_eq_imp_length_eq [OF assms(1)] .
  have nth: "i < length (ob k) \<Longrightarrow> entry_id (ob' k ! i) = entry_id (ob k ! i)" for i k using ids_nth(2) [OF assms(1)] .
  show ?thesis unfolding sole_def len using nth assms(2) by (metis (no_types, lifting))
qed

text \<open>New messages go to the end, where they are neither delivered nor claimed under an id of their own.\<close>

lemma ordered_extend:
  assumes "ordered held ob" and "\<forall>e \<in> set new. \<not> so_delivered e"
  shows "ordered held (ob(cid := ob cid @ new))" (is "ordered held ?ob")
  unfolding ordered_def
proof (intro conjI allI impI)
  have "entry_id ` set (ob k) \<subseteq> entry_id ` set (?ob k)" for k by auto
  then have "(\<Union>k. entry_id ` set (ob k)) \<subseteq> (\<Union>k. entry_id ` set (?ob k))" by (rule UN_mono [OF subset_refl])
  with assms(1) show "held \<subseteq> (\<Union>k. entry_id ` set (?ob k))" unfolding ordered_def by (meson order_trans)
next
  fix k j assume j: "j < length (?ob k)" and d: "so_delivered (?ob k ! j)"
  have old: "j < length (ob k)"
  proof (rule ccontr)
    assume "\<not> j < length (ob k)"
    then have "?ob k ! j \<in> set new" using j by (cases "k = cid") (simp_all add: nth_append)
    with d assms(2) show False by blast
  qed
  then have "?ob k ! j = ob k ! j" by (auto simp: nth_append)
  with old assms(1) d show "entry_id (?ob k ! j) \<in> held" unfolding ordered_def by metis
next
  fix k j i assume j: "j < length (?ob k)" and held: "entry_id (?ob k ! j) \<in> held \<and> sole ?ob k j" and i: "i < j"
  have old: "j < length (ob k)"
  proof (rule ccontr)
    assume "\<not> j < length (ob k)"
    have "entry_id (?ob k ! j) \<in> (\<Union>k'. entry_id ` set (ob k'))" using held assms(1) unfolding ordered_def by (meson subsetD)
    then obtain k' where "entry_id (?ob k ! j) \<in> entry_id ` set (ob k')" by (rule UN_E)
    then obtain e where e: "entry_id (?ob k ! j) = entry_id e" "e \<in> set (ob k')" by (rule imageE)
    from e(2) obtain i' where i': "i' < length (ob k')" "e = ob k' ! i'" unfolding in_set_conv_nth by blast
    then have "i' < length (?ob k')" "?ob k' ! i' = e" by (auto simp: nth_append)
    with held e(1) have "k' = k \<and> i' = j" unfolding sole_def by metis
    with i' \<open>\<not> j < length (ob k)\<close> show False by simp
  qed
  have nth: "?ob k' ! i' = ob k' ! i'" "i' < length (?ob k')" if "i' < length (ob k')" for k' i'
    using that by (auto simp: nth_append)
  have "sole ob k j" using held nth old unfolding sole_def by metis
  then have "so_delivered (ob k ! i)" using assms(1) old held i nth(1) [OF old] unfolding ordered_def by metis
  then show "so_delivered (?ob k ! i)" using nth(1) [of i k] old i by simp
qed

text \<open>Settling what was claimed, and claiming first undelivered messages, keep the order.\<close>

lemma ordered_update:
  assumes inv: "ordered held ob" and ids: "\<And>cid. map entry_id (ob' cid) = map entry_id (ob cid)"
    and grows: "\<And>cid j. j < length (ob cid) \<Longrightarrow> so_delivered (ob cid ! j) \<Longrightarrow> so_delivered (ob' cid ! j)"
    and settled: "\<And>cid j. j < length (ob cid) \<Longrightarrow> so_delivered (ob' cid ! j) \<Longrightarrow> so_delivered (ob cid ! j) \<or> entry_id (ob cid ! j) \<in> held"
    and new: "\<And>x. x \<in> new \<Longrightarrow> \<exists>cid h. find (\<lambda>e. \<not> so_delivered e) (ob cid) = Some h \<and> x = entry_id h"
  shows "ordered (held \<union> new) ob'"
  unfolding ordered_def
proof (intro conjI allI impI)
  have sets: "entry_id ` set (ob' cid) = entry_id ` set (ob cid)" for cid using arg_cong [OF ids, of set] by simp
  have "new \<subseteq> (\<Union>cid. entry_id ` set (ob cid))" using new find_Some_set by fastforce
  then show "held \<union> new \<subseteq> (\<Union>cid. entry_id ` set (ob' cid))" using inv unfolding ordered_def sets by blast
next
  fix cid j assume "j < length (ob' cid)" and d: "so_delivered (ob' cid ! j)"
  then have j: "j < length (ob cid)" using ids_nth(1) [OF ids [symmetric]] by blast
  from settled [OF j d] inv j have "entry_id (ob cid ! j) \<in> held" unfolding ordered_def by blast
  then show "entry_id (ob' cid ! j) \<in> held \<union> new" using ids_nth(2) [OF ids j] by simp
next
  fix cid j i assume "j < length (ob' cid)" and held: "entry_id (ob' cid ! j) \<in> held \<union> new \<and> sole ob' cid j" and i: "i < j"
  then have j: "j < length (ob cid)" using ids_nth(1) [OF ids [symmetric]] by blast
  have id: "entry_id (ob' cid ! j) = entry_id (ob cid ! j)" using ids_nth(2) [OF ids j] .
  have sole: "sole ob cid j" using held sole_cong [where ob' = ob' and ob = ob, OF ids j] by blast
  have "so_delivered (ob cid ! i)"
  proof (cases "entry_id (ob cid ! j) \<in> held")
    case True
    then show ?thesis using inv j sole i unfolding ordered_def by blast
  next
    case False
    then have "entry_id (ob cid ! j) \<in> new" using held id by simp
    from new [OF this] obtain k h where h: "find (\<lambda>e. \<not> so_delivered e) (ob k) = Some h" "entry_id (ob cid ! j) = entry_id h"
      by blast
    then obtain n where n: "n < length (ob k)" "h = ob k ! n" "\<forall>m < n. so_delivered (ob k ! m)"
      by (auto simp: find_Some_iff)
    with sole h(2) have "k = cid \<and> n = j" unfolding sole_def by metis
    with n(3) i show ?thesis by simp
  qed
  then show "so_delivered (ob' cid ! i)" using grows [of i cid] i j by simp
qed

section \<open>The whole store\<close>

lemma outbox_of_insert [simp]:
  "outbox_of (bt_insert cid st s) k = (if k = cid then st_outbox st else outbox_of s k)"
  by (simp add: outbox_of_def)

lemma outbox_of_default [simp]: "st_outbox (entry_or_default s cid) = outbox_of s cid"
  by (simp add: outbox_of_def entry_or_default_def StoredCeremony_default_def split: option.split)

lemma outbox_of_map: "outbox_of (map_outbox f s) cid = map f (outbox_of s cid)"
  by (induction s) (auto simp: outbox_of_def map_outbox_def)

lemma map_outbox_wf: "bt_wf s \<Longrightarrow> bt_wf (map_outbox f s)"
  by (simp add: bt_wf_def map_outbox_def comp_def case_prod_beta)

text \<open>A call that leaves the outboxes alone.\<close>

lemma order_inv_same:
  assumes "order_inv (s, held)" and "bt_wf s'" and "\<And>cid. outbox_of s' cid = outbox_of s cid"
  shows "order_inv (s', held)"
proof -
  have "outbox_of s' = outbox_of s" using assms(3) by (rule ext)
  then show ?thesis using assms(1,2) by (simp add: order_inv_def)
qed

text \<open>A call that settles what was claimed.\<close>

lemma order_inv_map:
  assumes "order_inv (s, held)"
    and "\<And>e. entry_id (f e) = entry_id e" and "\<And>e. so_delivered e \<Longrightarrow> so_delivered (f e)"
    and "\<And>e. entry_id e \<notin> held \<Longrightarrow> so_delivered (f e) = so_delivered e"
  shows "order_inv (map_outbox f s, held)"
proof -
  have "ordered (held \<union> {}) (outbox_of (map_outbox f s))"
    by (rule ordered_update [where ob = "outbox_of s"]) (use assms in \<open>auto simp: order_inv_def outbox_of_map\<close>)
  then show ?thesis using assms(1) by (simp add: order_inv_def map_outbox_wf)
qed

lemma order_inv_extend:
  assumes "order_inv (s, held)" and "st_outbox st = outbox_of s cid @ map StoredOutboxMessage_new ms"
  shows "order_inv (bt_insert cid st s, held)"
proof -
  have "outbox_of (bt_insert cid st s) = (outbox_of s)(cid := outbox_of s cid @ map StoredOutboxMessage_new ms)"
    by (rule ext) (simp add: assms(2))
  then show ?thesis
    using assms(1) ordered_extend [of held "outbox_of s" "map StoredOutboxMessage_new ms" cid]
    by (simp add: order_inv_def StoredOutboxMessage_new_def)
qed

lemma claim_loop_outboxes:
  assumes "claim_loop limit now lease_until n s = (s', claimed)" and "bt_wf s"
  shows "bt_keys s' = bt_keys s \<and>
    (\<forall>cid. map so_message (outbox_of s' cid) = map so_message (outbox_of s cid) \<and>
      map so_delivered (outbox_of s' cid) = map so_delivered (outbox_of s cid)) \<and>
    (\<forall>m \<in> set claimed. \<exists>cid h. find (\<lambda>e. \<not> so_delivered e) (outbox_of s cid) = Some h \<and> claimed_id m = entry_id h)"
  using assms
proof (induction limit now lease_until n s arbitrary: s' claimed rule: claim_loop.induct)
  case (2 limit now lease_until n cid st s)
  have lift: "\<exists>k h. find (\<lambda>e. \<not> so_delivered e) (outbox_of ((cid, st) # s) k) = Some h \<and> x = entry_id h"
    if "\<exists>k h. find (\<lambda>e. \<not> so_delivered e) (outbox_of s k) = Some h \<and> x = entry_id h" for x
  proof -
    from that obtain k h where k: "find (\<lambda>e. \<not> so_delivered e) (outbox_of s k) = Some h" "x = entry_id h" by blast
    then have "bt_get s k \<noteq> None" by (auto simp: outbox_of_def split: option.splits)
    then have "k \<noteq> cid" using 2(4) by (auto simp: map_of_eq_None_iff)
    then show ?thesis using k by (intro exI [of _ k]) (simp add: outbox_of_def)
  qed
  have wf: "bt_wf s" using 2(4) by simp
  show ?case
  proof (cases "limit \<le> n")
    case False
    show ?thesis
    proof (cases "claim_head now lease_until (st_outbox st)")
      case None
      obtain s1 where s1: "claim_loop limit now lease_until n s = (s1, claimed)" "s' = (cid, st) # s1"
        using 2(3) False None by (auto split: prod.splits)
      from 2(1) [OF False None s1(1) wf] lift show ?thesis
        by (simp add: s1(2) outbox_of_def)
    next
      case (Some x)
      obtain outbox m where x: "x = (outbox, m)" by (cases x)
      obtain s1 rest where s1: "claim_loop limit now lease_until (Suc n) s = (s1, rest)"
        "s' = (cid, st\<lparr>st_outbox := outbox\<rparr>) # s1" "claimed = m # rest"
        using 2(3) False Some x by (auto split: prod.splits)
      from Some x obtain h where h: "find (\<lambda>e. \<not> so_delivered e) (st_outbox st) = Some h"
        and ob: "outbox = update_first (\<lambda>e. \<not> so_delivered e) (h\<lparr>so_claimed_until := Some lease_until\<rparr>) (st_outbox st)"
        and m: "claimed_id m = entry_id h"
        by (auto simp: claim_head_def claimed_id_def entry_id_def split: option.splits if_splits)
      obtain us vs where sp: "st_outbox st = us @ h # vs" "outbox = us @ h\<lparr>so_claimed_until := Some lease_until\<rparr> # vs"
        using update_first_split [OF h] ob by metis
      have same: "map so_message outbox = map so_message (st_outbox st)"
        "map so_delivered outbox = map so_delivered (st_outbox st)"
        by (simp_all add: sp)
      have "find (\<lambda>e. \<not> so_delivered e) (outbox_of ((cid, st) # s) cid) = Some h" using h by (simp add: outbox_of_def)
      with 2(2) [OF False Some x [symmetric] s1(1) wf] lift m same show ?thesis
        by (auto simp: s1(2,3) outbox_of_def)
    qed
  qed (use 2(3) in auto)
qed simp

lemma map_entry_id: "map so_message xs = map so_message ys \<Longrightarrow> map entry_id xs = map entry_id ys"
proof -
  have "map entry_id zs = map om_event_id (map so_message zs)" for zs by (simp add: entry_id_def)
  then show "map so_message xs = map so_message ys \<Longrightarrow> map entry_id xs = map entry_id ys" by metis
qed

lemma order_inv_claim:
  assumes "order_inv (s, held)" and "claim_loop limit now lease_until n s = (s', claimed)"
  shows "order_inv (s', held \<union> set (map claimed_id claimed))"
proof -
  have inv: "bt_wf s" "ordered held (outbox_of s)" using assms(1) by (simp_all add: order_inv_def)
  note c = claim_loop_outboxes [OF assms(2) inv(1)]
  have ids: "map entry_id (outbox_of s' cid) = map entry_id (outbox_of s cid)" for cid using c map_entry_id by blast
  have same: "so_delivered (outbox_of s' cid ! j) = so_delivered (outbox_of s cid ! j)" if "j < length (outbox_of s cid)" for cid j
  proof -
    have "map so_delivered (outbox_of s' cid) = map so_delivered (outbox_of s cid)" using c by blast
    then show ?thesis using that by (metis length_map nth_map)
  qed
  have "ordered (held \<union> set (map claimed_id claimed)) (outbox_of s')"
    by (rule ordered_update [OF inv(2) ids]) (use same c in auto)
  moreover have "bt_wf s'" using c inv(1) by (simp add: bt_wf_def)
  ultimately show ?thesis by (simp add: order_inv_def)
qed

lemma outbox_step_inv:
  assumes "outbox_step sha rfc add x y" and "order_inv x"
  shows "order_inv y"
  using assms
proof (induction rule: outbox_step.induct)
  case (o_commit i expected facts messages c s s' r held)
  have wf: "bt_wf s" using o_commit(3) by (simp add: order_inv_def)
  show ?case
  proof (rule store_commit_cases [of c s sha rfc])
    fix sealed
    assume "store_commit sha rfc c s = (bt_insert (inst_id (commit_instance c))
      ((entry_or_default s (inst_id (commit_instance c)))\<lparr>
         st_revision := Some (ExpectedRevision_resulting_revision (commit_expected_revision c)),
         st_instance := Some (commit_instance c),
         st_journal := store_records s (inst_id (commit_instance c)) @ sealed,
         st_outbox := st_outbox (entry_or_default s (inst_id (commit_instance c))) @
           map StoredOutboxMessage_new (commit_messages c)\<rparr>) s,
      Inr (Committed (ExpectedRevision_resulting_revision (commit_expected_revision c)) sealed))"
    then show ?thesis
      using o_commit(2) order_inv_extend [OF o_commit(3)] by auto
  qed (use o_commit(2) wf order_inv_same [OF o_commit(3)] in auto)
next
  case (o_append f s s' r held)
  then have "bt_wf s" by (simp add: order_inv_def)
  then show ?case
    using o_append by (auto simp: store_append_def Let_def split: sum.splits intro!: order_inv_same [OF o_append(2)])
next
  case (o_save s held i)
  then have "bt_wf s" by (simp add: order_inv_def)
  then show ?case
    by (auto simp: store_save_def Let_def intro!: order_inv_same [OF o_save])
next
  case (o_claim limit now lease s s' claimed held)
  then show ?case
    by (auto simp: store_claim_def simp del: set_map split: option.splits intro!: order_inv_claim)
next
  case (o_delivered ids held s)
  then show ?case
    unfolding store_mark_delivered_def by (intro order_inv_map) (auto simp: entry_id_def)
next
  case (o_failed eid held s)
  then show ?case unfolding store_mark_failed_def by (intro order_inv_map) (auto simp: entry_id_def)
next
  case (o_quarantine eid held s why)
  then show ?case unfolding store_quarantine_def by (intro order_inv_map) (auto simp: entry_id_def)
qed

section \<open>Publishing rounds follow the protocol\<close>

lemma memory_calls:
  "memory_quarantine eid why s = (store_quarantine eid why s, Inr ())"
  "memory_mark_failed eid s = (store_mark_failed eid s, Inr ())"
  by (simp_all add: memory_quarantine_def memory_mark_failed_def)

lemma publish_loop_steps:
  assumes "publish_loop memory_mark_failed memory_quarantine deliver limit ms counts confirmed s t = (s', t', r)"
    and "set (map claimed_id ms) \<subseteq> held" and "set confirmed \<subseteq> held"
  shows "(outbox_step sha rfc add)\<^sup>*\<^sup>* (s, held) (s', held) \<and>
    (\<exists>counts' confirmed'. r = Inr (counts', confirmed') \<and> set confirmed' \<subseteq> held)"
  using assms
proof (induction ms arbitrary: counts confirmed s t)
  case (Cons m ms)
  have m: "om_event_id (claimed_message m) \<in> held" and ms: "set (map claimed_id ms) \<subseteq> held"
    using Cons.prems(2) by (simp_all add: claimed_id_def)
  show ?case
  proof (cases "OutboxAttempt_is_exhausted (claimed_attempt m) limit")
    case True
    let ?s = "store_quarantine (om_event_id (claimed_message m)) (quarantine_reason (claimed_attempt m) limit) s"
    have "publish_quarantine memory_quarantine m limit s = (?s, Inr ())"
      by (simp add: publish_quarantine_def memory_calls)
    then have "publish_loop memory_mark_failed memory_quarantine deliver limit ms (record_quarantined counts) confirmed ?s t
        = (s', t', r)"
      using Cons.prems(1) True by simp
    from Cons.IH [OF this ms Cons.prems(3)] o_quarantine [OF m] show ?thesis
      by (metis converse_rtranclp_into_rtranclp)
  next
    case False
    obtain t1 res where d: "deliver (claimed_message m) t = (t1, res)" by (cases "deliver (claimed_message m) t")
    show ?thesis
    proof (cases res)
      case (Inl e)
      let ?s = "store_mark_failed (om_event_id (claimed_message m)) s"
      have "publish_loop memory_mark_failed memory_quarantine deliver limit ms (record_failed counts) confirmed ?s t1
          = (s', t', r)"
        using Cons.prems(1) False d Inl memory_calls(2) [of "om_event_id (claimed_message m)" s] by simp
      from Cons.IH [OF this ms Cons.prems(3)] o_failed [OF m] show ?thesis
        by (metis converse_rtranclp_into_rtranclp)
    next
      case (Inr u)
      then show ?thesis
        using Cons.IH [OF _ ms, of "record_delivered counts" "confirmed @ [om_event_id (claimed_message m)]" s t1]
          Cons.prems(1,3) False d m by simp
    qed
  qed
qed auto

section \<open>Properties\<close>

lemma filter_takeWhile:
  "(\<And>i j. i < j \<Longrightarrow> j < length xs \<Longrightarrow> P (xs ! j) \<Longrightarrow> P (xs ! i)) \<Longrightarrow> filter P xs = takeWhile P xs"
proof (induction xs)
  case (Cons x xs)
  have tail: "filter P xs = takeWhile P xs"
  proof (rule Cons.IH)
    show "P (xs ! i)" if "i < j" "j < length xs" "P (xs ! j)" for i j
      using Cons.prems [of "Suc i" "Suc j"] that by simp
  qed
  show ?case
  proof (cases "P x")
    case False
    have "\<not> P y" if "y \<in> set xs" for y
    proof -
      from that obtain j where "j < length xs" "y = xs ! j" by (auto simp: in_set_conv_nth)
      then show ?thesis using Cons.prems [of 0 "Suc j"] False by auto
    qed
    then show ?thesis using False by (simp add: filter_empty_conv)
  qed (simp add: tail)
qed simp

text \<open>
  C30. Messages of a ceremony are delivered in order, as far as their event ids tell them apart:
  whatever commits, claims, publishing rounds, crashes and late publishers interleave, a message that
  is delivered under an id no other message carries has only delivered messages of its ceremony before
  it; and where that holds of every message of a ceremony, the delivered ones are an initial segment.
  Publishers settle only what they claimed, as the publishing round does.
\<close>

theorem outbox_delivered_in_order:
  assumes "(outbox_step sha256 rfc3339 checked_add)\<^sup>*\<^sup>* ([], {}) (s, held)"
  shows "(\<forall>i j. i < j \<and> j < length (outbox_of s cid) \<and> so_delivered (outbox_of s cid ! j) \<and> sole (outbox_of s) cid j
      \<longrightarrow> so_delivered (outbox_of s cid ! i)) \<and>
    ((\<forall>j < length (outbox_of s cid). sole (outbox_of s) cid j)
      \<longrightarrow> filter so_delivered (outbox_of s cid) = takeWhile so_delivered (outbox_of s cid))"
proof -
  have "order_inv ([], {})"
    by (simp add: order_inv_def ordered_def outbox_of_def)
  with assms have "order_inv (s, held)"
    by (induction rule: rtranclp_induct) (blast intro: outbox_step_inv)+
  then have inv: "ordered held (outbox_of s)" by (simp add: order_inv_def)
  have before: "so_delivered (outbox_of s cid ! i)"
    if "i < j" "j < length (outbox_of s cid)" "so_delivered (outbox_of s cid ! j)" "sole (outbox_of s) cid j" for i j
    using inv that unfolding ordered_def by blast
  then show ?thesis using filter_takeWhile [of "outbox_of s cid" so_delivered] by blast
qed

definition demo_posted :: "bool \<Rightarrow> timestamp option \<Rightarrow> ceremony_store" where
  "demo_posted delivered until =
     [(lit ''c1'', \<lparr>st_revision = Some 1, st_instance = Some demo_opened, st_journal = [],
        st_outbox = [(StoredOutboxMessage_new (demo_message ''e1''))
            \<lparr>so_delivered := delivered, so_claimed_until := until\<rparr>,
          StoredOutboxMessage_new (demo_message ''e2'')]\<rparr>)]"

lemma demo_posted_run:
  "(outbox_step demo_sha demo_rfc demo_add)\<^sup>*\<^sup>* ([], {}) (demo_posted True None, {lit ''e1''})"
proof -
  let ?ms = "[demo_message ''e1'', demo_message ''e2'']"
  let ?c = "\<lparr>commit_instance = demo_opened, commit_expected_revision = New, commit_facts = [], commit_messages = ?ms\<rparr>"
  have "CeremonyCommit_new demo_opened New [] ?ms = Inr ?c" by (simp add: CeremonyCommit_new_def)
  moreover have "store_commit demo_sha demo_rfc ?c [] = (demo_posted False None, Inr (Committed 1 []))"
    by (simp add: store_commit_def entry_or_default_def StoredCeremony_default_def demo_posted_def
        CeremonyRevision_INITIAL_def StoredOutboxMessage_new_def Let_def)
  ultimately have 1: "outbox_step demo_sha demo_rfc demo_add ([], {}) (demo_posted False None, {})"
    by (rule o_commit)
  have "store_claim demo_add 1 0 1000 (demo_posted False None) = Some (demo_posted False (Some 1000000000),
      [\<lparr>claimed_message = demo_message ''e1'', claimed_attempt = 0\<rparr>])"
    by (simp add: store_claim_def demo_add_def demo_posted_def claim_head_def StoredOutboxMessage_new_def
        StoredOutboxMessage_is_claimable_def OutboxAttempt_NONE_def)
  from o_claim [OF this, of demo_sha demo_rfc "{}"]
  have 2: "outbox_step demo_sha demo_rfc demo_add (demo_posted False None, {})
      (demo_posted False (Some 1000000000), {lit ''e1''})"
    by (simp add: claimed_id_def demo_message_def)
  have "lit ''e2'' \<noteq> lit ''e1''" by (simp add: lit_def)
  then have "store_mark_delivered [lit ''e1''] (demo_posted False (Some 1000000000)) = demo_posted True None"
    by (simp add: store_mark_delivered_def map_outbox_def demo_posted_def StoredOutboxMessage_new_def demo_message_def)
  with o_delivered [of "[lit ''e1'']" "{lit ''e1''}" demo_sha demo_rfc demo_add "demo_posted False (Some 1000000000)"]
  have 3: "outbox_step demo_sha demo_rfc demo_add (demo_posted False (Some 1000000000), {lit ''e1''})
      (demo_posted True None, {lit ''e1''})" by simp
  from 1 2 3 show ?thesis by (meson converse_rtranclp_into_rtranclp rtranclp.rtrancl_refl)
qed

lemma demo_posted_outbox:
  "outbox_of (demo_posted delivered until) cid = (if cid = lit ''c1''
     then [(StoredOutboxMessage_new (demo_message ''e1''))\<lparr>so_delivered := delivered, so_claimed_until := until\<rparr>,
       StoredOutboxMessage_new (demo_message ''e2'')] else [])"
  by (simp add: outbox_of_def demo_posted_def)

theorem outbox_delivered_in_order_witness:
  "filter so_delivered (outbox_of (demo_posted True None) (lit ''c1''))
     = takeWhile so_delivered (outbox_of (demo_posted True None) (lit ''c1'')) \<and>
   map so_delivered (outbox_of (demo_posted True None) (lit ''c1'')) = [True, False]"
proof -
  have "lit ''e2'' \<noteq> lit ''e1''" by (simp add: lit_def)
  then have "\<forall>j < length (outbox_of (demo_posted True None) (lit ''c1'')). sole (outbox_of (demo_posted True None)) (lit ''c1'') j"
    by (auto simp: sole_def demo_posted_outbox entry_id_def StoredOutboxMessage_new_def demo_message_def less_Suc_eq split: if_splits)
  with outbox_delivered_in_order [OF demo_posted_run, of "lit ''c1''"] show ?thesis
    by (simp add: demo_posted_outbox StoredOutboxMessage_new_def)
qed

text \<open>
  A publishing round over the in-memory store is a run of that protocol: it claims once,
  settles only messages it claimed, and either panics in the claim or returns its counters.
\<close>

theorem publish_round_follows_protocol:
  assumes "PublishOutboxUseCase_execute (memory_claim checked_add) memory_mark_delivered
      memory_mark_failed memory_quarantine deliver now input s t = Some (s', t', r)"
  shows "is_ok r \<and> (\<exists>claimed s1. store_claim checked_add (pub_batch_size input) now (pub_lease input) s
        = Some (s1, claimed) \<and>
      (outbox_step sha256 rfc3339 checked_add)\<^sup>*\<^sup>* (s, held) (s', held \<union> set (map claimed_id claimed)))"
proof -
  from assms obtain s1 claimed where c: "store_claim checked_add (pub_batch_size input) now (pub_lease input) s
      = Some (s1, claimed)"
    by (auto simp: PublishOutboxUseCase_execute_def memory_claim_def split: option.splits prod.splits)
  obtain s2 t2 x where l: "publish_loop memory_mark_failed memory_quarantine deliver (pub_max_attempts input)
      claimed PublishOutboxRound_default [] s1 t = (s2, t2, x)"
    by (metis prod_cases3)
  let ?held = "held \<union> set (map claimed_id claimed)"
  have "set (map claimed_id claimed) \<subseteq> ?held" by blast
  from publish_loop_steps [OF l this, of sha256 rfc3339 checked_add] obtain counts confirmed where
    steps: "(outbox_step sha256 rfc3339 checked_add)\<^sup>*\<^sup>* (s1, ?held) (s2, ?held)"
    and x: "x = Inr (counts, confirmed)" "set confirmed \<subseteq> ?held" by auto
  have first: "outbox_step sha256 rfc3339 checked_add (s, held) (s1, ?held)" by (rule o_claim [OF c])
  have last: "(s', r) = ((if confirmed = [] then s2 else store_mark_delivered confirmed s2), Inr counts)"
    using assms c l x(1)
    by (simp add: PublishOutboxUseCase_execute_def memory_claim_def publish_mark_delivered_def
        memory_mark_delivered_def split: if_splits)
  have "(outbox_step sha256 rfc3339 checked_add)\<^sup>*\<^sup>* (s2, ?held) (s', ?held)"
    using last o_delivered [OF x(2)] by auto
  with steps first have "(outbox_step sha256 rfc3339 checked_add)\<^sup>*\<^sup>* (s, held) (s', ?held)"
    by (meson converse_rtranclp_into_rtranclp rtranclp_trans)
  then show ?thesis using c last by (simp add: is_ok_def del: set_map)
qed

theorem publish_round_follows_protocol_witness:
  "\<exists>s' r claimed. is_ok r \<and>
     PublishOutboxUseCase_execute (memory_claim demo_add) memory_mark_delivered memory_mark_failed
       memory_quarantine demo_deliver 0 demo_input [] 7 = Some (s', 7, r) \<and>
     (outbox_step demo_sha demo_rfc demo_add)\<^sup>*\<^sup>* ([], {}) (s', set claimed)"
proof -
  have run: "PublishOutboxUseCase_execute (memory_claim demo_add) memory_mark_delivered memory_mark_failed
      memory_quarantine demo_deliver 0 demo_input [] 7 = Some ([], 7, Inr PublishOutboxRound_default)"
    by (simp add: PublishOutboxUseCase_execute_def memory_claim_def store_claim_def demo_add_def
        publish_mark_delivered_def)
  from publish_round_follows_protocol [OF this, of demo_sha demo_rfc "{}"] run show ?thesis by (metis Un_empty_left)
qed

end
