(* ===== verification/Session_Facts.thy ===== *)
theory Session_Facts
  imports Ceremony_Sessions Audit_Chain
begin

text \<open>
  What a session did, in the journal's terms
  (\<open>choreo-app/src/services/session_facts.rs\<close>): one function per thing that can happen, each
  building the fact that is sealed together with the session.  An event id is derived from the
  session, the kind of event and what it is about.  Shown here: exactly which facts can be
  built (the derived id has to fit into an \<open>EventId\<close>), that the ids of the facts about a step
  tell event, step and attempt apart, and that a move is recorded as an ending exactly when it
  completed the session.
\<close>

section \<open>Facts\<close>

definition session_actor :: "rstr \<Rightarrow> audit_actor_kind \<Rightarrow> audit_actor outcome" where
  "session_actor rid k = AuditActor_new rid k (Some rid)"

text \<open>The text of a derived event id: \<open>format!("{}:{}:{about}", ..)\<close>.\<close>

definition derived_event_id :: "rstr \<Rightarrow> audit_event_type \<Rightarrow> rstr \<Rightarrow> rstr" where
  "derived_event_id cid event_type about =
     cid @ lit '':'' @ lit (AuditEventType_as_str event_type) @ lit '':'' @ about"

definition session_fact ::
    "ceremony_instance \<Rightarrow> audit_event_type \<Rightarrow> rstr \<Rightarrow> audit_actor \<Rightarrow> timestamp \<Rightarrow> audit_fact outcome" where
  "session_fact i event_type about who occurred_at =
     and_then (EventId_new (derived_event_id (inst_id i) event_type about)) (\<lambda>event_id.
     Inr \<lparr>fact_event_id = event_id, fact_event_type = event_type, fact_ceremony_id = inst_id i,
          fact_definition_name = inst_definition_name i,
          fact_definition_version = inst_definition_version i,
          fact_occurred_at = occurred_at, fact_actor = who,
          fact_correlation_id = None, fact_causation_id = None, fact_trace = None\<rparr>)"

text \<open>
  \<open>fact(instance, event, &format!(..), actor(role, kind)?, at)\<close>: the actor is an argument, so
  its error comes before the one of the event id.
\<close>

definition seat_fact ::
    "ceremony_instance \<Rightarrow> audit_event_type \<Rightarrow> rstr \<Rightarrow> rstr \<Rightarrow> audit_actor_kind \<Rightarrow> timestamp
      \<Rightarrow> audit_fact outcome" where
  "seat_fact i event_type about rid k occurred_at =
     and_then (session_actor rid k) (\<lambda>who. session_fact i event_type about who occurred_at)"

definition guard_approved ::
    "ceremony_instance \<Rightarrow> rstr \<Rightarrow> rstr \<Rightarrow> audit_actor_kind \<Rightarrow> timestamp \<Rightarrow> audit_fact outcome" where
  "guard_approved i name approved_by k occurred_at =
     seat_fact i HumanApprovalRecorded (lit ''guard:'' @ name) approved_by k occurred_at"

definition guard_deferred ::
    "ceremony_instance \<Rightarrow> rstr \<Rightarrow> rstr \<Rightarrow> audit_actor_kind \<Rightarrow> timestamp \<Rightarrow> audit_fact outcome" where
  "guard_deferred i name deferred_by k occurred_at =
     seat_fact i HumanDeferralRecorded (lit ''guard:'' @ name) deferred_by k occurred_at"

definition transition_applied ::
    "ceremony_instance \<Rightarrow> ceremony_definition \<Rightarrow> rstr \<Rightarrow> audit_actor_kind \<Rightarrow> timestamp
      \<Rightarrow> audit_fact list outcome" where
  "transition_applied i d applied_by k occurred_at =
     and_then (session_actor applied_by k) (\<lambda>who.
     let about = lit ''transition:'' @ display_nat (length (inst_transitions i)) in
     and_then (session_fact i TransitionApplied about who occurred_at) (\<lambda>moved.
     if CeremonyInstance_is_terminal i d
     then and_then (session_fact i CeremonyCompleted about who occurred_at) (\<lambda>ended. Inr [moved, ended])
     else Inr [moved]))"

definition intervention_requested ::
    "ceremony_instance \<Rightarrow> rstr \<Rightarrow> rstr \<Rightarrow> audit_actor_kind \<Rightarrow> timestamp \<Rightarrow> audit_fact outcome" where
  "intervention_requested i iid requested_by k occurred_at =
     seat_fact i InterventionRequested (lit ''intervention:'' @ iid) requested_by k occurred_at"

definition intervention_responded ::
    "ceremony_instance \<Rightarrow> rstr \<Rightarrow> rstr \<Rightarrow> audit_actor_kind \<Rightarrow> timestamp \<Rightarrow> audit_fact outcome" where
  "intervention_responded i iid responded_by k occurred_at =
     seat_fact i InterventionResponded (lit ''intervention:'' @ iid @ lit '':'' @ responded_by)
       responded_by k occurred_at"

definition intervention_closed ::
    "ceremony_instance \<Rightarrow> rstr \<Rightarrow> rstr \<Rightarrow> audit_actor_kind \<Rightarrow> timestamp \<Rightarrow> audit_fact outcome" where
  "intervention_closed i iid closed_by k occurred_at =
     seat_fact i InterventionClosed (lit ''intervention:'' @ iid) closed_by k occurred_at"

definition evidence_collected ::
    "ceremony_instance \<Rightarrow> rstr \<Rightarrow> rstr \<Rightarrow> rstr \<Rightarrow> audit_actor_kind \<Rightarrow> timestamp
      \<Rightarrow> audit_fact list outcome" where
  "evidence_collected i iid source_id collected_by k occurred_at =
     and_then (seat_fact i EvidenceCollected
         (lit ''intervention:'' @ iid @ lit '':source:'' @ source_id) collected_by k occurred_at) (\<lambda>fetched.
     and_then (intervention_responded i iid collected_by k occurred_at) (\<lambda>answered.
     Inr [fetched, answered]))"

definition reason_asserted ::
    "ceremony_instance \<Rightarrow> rstr \<Rightarrow> audit_actor_kind \<Rightarrow> timestamp \<Rightarrow> audit_fact outcome" where
  "reason_asserted i asserted_by k occurred_at =
     seat_fact i ReasonAsserted (lit ''reason:'' @ display_nat (length (inst_reasons i)))
       asserted_by k occurred_at"

definition about_attempt :: "rstr \<Rightarrow> step_attempt \<Rightarrow> rstr" where
  "about_attempt sid attempt = lit ''step:'' @ sid @ lit '':attempt:'' @ display_nat (unat attempt)"

definition step_fact ::
    "ceremony_instance \<Rightarrow> audit_event_type \<Rightarrow> rstr \<Rightarrow> step_attempt \<Rightarrow> rstr \<Rightarrow> audit_actor_kind
      \<Rightarrow> timestamp \<Rightarrow> audit_fact outcome" where
  "step_fact i event_type sid attempt rid k occurred_at =
     seat_fact i event_type (about_attempt sid attempt) rid k occurred_at"

definition step_started ::
    "ceremony_instance \<Rightarrow> rstr \<Rightarrow> step_attempt \<Rightarrow> rstr \<Rightarrow> audit_actor_kind \<Rightarrow> timestamp
      \<Rightarrow> audit_fact outcome" where
  "step_started i sid attempt started_by k occurred_at =
     step_fact i StepStarted sid attempt started_by k occurred_at"

definition step_finished ::
    "ceremony_instance \<Rightarrow> rstr \<Rightarrow> step_attempt \<Rightarrow> step_result \<Rightarrow> rstr \<Rightarrow> audit_actor_kind
      \<Rightarrow> timestamp \<Rightarrow> audit_fact outcome" where
  "step_finished i sid attempt result finished_by k occurred_at =
     (let event_type = if StepResult_is_success result then StepCompleted else StepFailed in
      step_fact i event_type sid attempt finished_by k occurred_at)"

definition ceremony_started ::
    "ceremony_instance \<Rightarrow> rstr \<Rightarrow> audit_actor_kind \<Rightarrow> timestamp \<Rightarrow> audit_fact outcome" where
  "ceremony_started i started_by k occurred_at =
     and_then (AuditActor_new started_by k None) (\<lambda>who.
     session_fact i CeremonyInstanceStarted (lit ''session'') who occurred_at)"

text \<open>\<open>collect::<Vec<_>>().join(",")\<close>.\<close>

fun join_comma :: "rstr list \<Rightarrow> rstr" where
  "join_comma [] = []"
| "join_comma [s] = s"
| "join_comma (s # t # ts) = s @ lit '','' @ join_comma (t # ts)"

definition participants_bound ::
    "ceremony_instance \<Rightarrow> (rstr, rstr) btree_map \<Rightarrow> rstr \<Rightarrow> audit_actor_kind \<Rightarrow> timestamp
      \<Rightarrow> audit_fact outcome" where
  "participants_bound i seating seated_by k occurred_at =
     (let seated = join_comma (map (\<lambda>(rid, specialty). rid @ lit ''='' @ specialty) seating) in
      and_then (AuditActor_new seated_by k None) (\<lambda>who.
      session_fact i ParticipantsBound (lit ''seating:'' @ seated) who occurred_at))"

section \<open>What a fact says\<close>

lemma session_fact_Inr:
  assumes "session_fact i et about who t = Inr f"
  shows "fact_event_type f = et" "fact_ceremony_id f = inst_id i"
    "fact_definition_name f = inst_definition_name i"
    "fact_definition_version f = inst_definition_version i"
    "fact_occurred_at f = t" "fact_actor f = who"
    "fact_event_id f = trim (derived_event_id (inst_id i) et about)"
  using assms by (auto simp: session_fact_def result_simps EventId_new_def validate_id_def checked_text_eq_Inr)

lemma session_actor_Inr:
  "session_actor rid k = Inr who \<Longrightarrow> actor_kind who = k \<and> actor_role_id who = Some rid"
  by (auto simp: session_actor_def AuditActor_new_def result_simps)

lemma seat_fact_Inr:
  assumes "seat_fact i et about rid k t = Inr f"
  shows "fact_event_type f = et" "fact_ceremony_id f = inst_id i" "fact_occurred_at f = t"
    "actor_kind (fact_actor f) = k" "actor_role_id (fact_actor f) = Some rid"
    "fact_event_id f = trim (derived_event_id (inst_id i) et about)"
  using assms session_fact_Inr session_actor_Inr by (auto simp: seat_fact_def result_simps)

lemmas single_fact_defs = guard_approved_def guard_deferred_def intervention_requested_def
  intervention_responded_def intervention_closed_def reason_asserted_def step_fact_def
  step_started_def step_finished_def Let_def

text \<open>Every fact of a session carries the id of the session.\<close>

lemma fact_of_session:
  "guard_approved i g r k t = Inr f \<Longrightarrow> fact_ceremony_id f = inst_id i"
  "guard_deferred i g r k t = Inr f \<Longrightarrow> fact_ceremony_id f = inst_id i"
  "intervention_requested i v r k t = Inr f \<Longrightarrow> fact_ceremony_id f = inst_id i"
  "intervention_responded i v r k t = Inr f \<Longrightarrow> fact_ceremony_id f = inst_id i"
  "intervention_closed i v r k t = Inr f \<Longrightarrow> fact_ceremony_id f = inst_id i"
  "reason_asserted i r k t = Inr f \<Longrightarrow> fact_ceremony_id f = inst_id i"
  "step_started i sid a r k t = Inr f \<Longrightarrow> fact_ceremony_id f = inst_id i"
  "step_finished i sid a res r k t = Inr f \<Longrightarrow> fact_ceremony_id f = inst_id i"
  "ceremony_started i who k t = Inr f \<Longrightarrow> fact_ceremony_id f = inst_id i"
  "participants_bound i seating who k t = Inr f \<Longrightarrow> fact_ceremony_id f = inst_id i"
  by (auto simp: single_fact_defs ceremony_started_def participants_bound_def result_simps
      dest: seat_fact_Inr session_fact_Inr)

lemma facts_of_session:
  "transition_applied i d r k t = Inr fs \<Longrightarrow> \<forall>f \<in> set fs. fact_ceremony_id f = inst_id i"
  "evidence_collected i v src r k t = Inr fs \<Longrightarrow> \<forall>f \<in> set fs. fact_ceremony_id f = inst_id i"
  by (auto simp: transition_applied_def evidence_collected_def result_simps Let_def
      dest: seat_fact_Inr session_fact_Inr fact_of_session split: if_splits)

section \<open>Which facts can be built\<close>

lemma lit_append [simp]: "lit (s @ t) = lit s @ lit t"
  by (simp add: lit_def)

lemma lit_Nil [simp]: "lit [] = []"
  by (simp add: lit_def)

lemma of_char_256: "(of_char c :: nat) < 256"
  using of_char_mod_256 [where 'a = nat, of c] by (metis mod_less_divisor zero_less_numeral)

lemma event_type_ascii:
  "\<forall>c \<in> set (lit (AuditEventType_as_str et)). c < 128 \<and> \<not> is_control c \<and> c \<noteq> 58"
  by (cases et) (simp_all add: lit_def is_control_def)

lemma event_type_width: "str_len (lit (AuditEventType_as_str et)) = length (AuditEventType_as_str et)"
  using event_type_ascii [of et] str_len_ascii [of "lit (AuditEventType_as_str et)"]
  by (simp add: lit_def)

lemma event_type_inject: "AuditEventType_as_str e = AuditEventType_as_str e' \<Longrightarrow> e = e'"
  by (cases e; cases e') simp_all

lemma lit_inject [simp]: "lit s = lit t \<longleftrightarrow> s = t"
  by (simp add: lit_def inj_map_eq_map [OF inj_of_char])

text \<open>A text both of whose ends are kept by \<open>trim\<close>.\<close>

definition tight :: "rstr \<Rightarrow> bool" where
  "tight s = (s \<noteq> [] \<and> \<not> is_whitespace (hd s) \<and> \<not> is_whitespace (last s))"

lemma tight_trim: "tight s \<Longrightarrow> trim s = s"
  by (rule trim_id) (auto simp: tight_def)

lemma tight_canonical: "canonical_text limit bad s \<Longrightarrow> tight s"
  using trim_hd [of s] trim_last [of s] by (auto simp: canonical_text_def tight_def)

lemma derived_event_id_tight:
  "tight cid \<Longrightarrow> tight about \<Longrightarrow> tight (derived_event_id cid et about)"
  by (auto simp: tight_def derived_event_id_def)

lemma str_len_colon [simp]: "str_len (lit '':'') = 1"
  by (simp add: lit_def str_len_def utf8_width_def)

lemma derived_event_id_len:
  "str_len (derived_event_id cid et about) =
     str_len cid + length (AuditEventType_as_str et) + str_len about + 2"
  by (simp add: derived_event_id_def event_type_width)

lemma derived_event_id_control:
  "(\<exists>c \<in> set (derived_event_id cid et about). is_control c) \<longleftrightarrow>
     (\<exists>c \<in> set cid. is_control c) \<or> (\<exists>c \<in> set about. is_control c)"
proof -
  have "\<not> is_control c" if "c \<in> set (lit '':'')" for c
    using that by (simp add: lit_def is_control_def)
  then show ?thesis using event_type_ascii [of et] by (auto simp: derived_event_id_def ball_Un)
qed

text \<open>
  For a valid session id and a subject without control characters, a fact is built exactly
  when the derived id fits into 256 bytes.
\<close>

lemma session_fact_fits_iff:
  assumes cid: "canonical_text (Some 256) is_control (inst_id i)"
    and about: "canonical_text None is_control about"
  shows "is_ok (session_fact i et about who t) \<longleftrightarrow>
      str_len (inst_id i) + length (AuditEventType_as_str et) + str_len about + 2 \<le> 256"
    and "\<not> is_ok (session_fact i et about who t) \<Longrightarrow>
      session_fact i et about who t = Inl (FieldTooLong ''event_id''
        (str_len (inst_id i) + length (AuditEventType_as_str et) + str_len about + 2) 256)"
proof -
  let ?id = "derived_event_id (inst_id i) et about"
  have t: "trim ?id = ?id"
    using cid about by (intro tight_trim derived_event_id_tight) (auto intro: tight_canonical)
  have ne: "?id \<noteq> []" by (simp add: derived_event_id_def lit_def)
  have "\<not> list_ex is_control ?id"
    using cid about by (simp add: list_ex_iff derived_event_id_control canonical_text_def)
  with t ne have ev: "EventId_new ?id = (if 256 < str_len ?id then Inl (FieldTooLong ''event_id'' (str_len ?id) 256)
      else Inr ?id)"
    by (simp add: EventId_new_def validate_id_def checked_text_def Let_def)
  show "is_ok (session_fact i et about who t) \<longleftrightarrow>
      str_len (inst_id i) + length (AuditEventType_as_str et) + str_len about + 2 \<le> 256"
    by (simp add: session_fact_def ev derived_event_id_len)
  show "\<not> is_ok (session_fact i et about who t) \<Longrightarrow>
      session_fact i et about who t = Inl (FieldTooLong ''event_id''
        (str_len (inst_id i) + length (AuditEventType_as_str et) + str_len about + 2) 256)"
    by (simp add: session_fact_def ev derived_event_id_len split: if_splits)
qed

section \<open>Event ids tell facts apart\<close>

text \<open>A text in front of a mark that does not occur in it can be read off.\<close>

lemma split_at_mark:
  assumes "s @ c # x = t @ c # y" and "c \<notin> set s" "c \<notin> set t"
  shows "s = t \<and> x = (y :: nat list)"
  using assms
proof (induction s arbitrary: t)
  case Nil
  then show ?case by (cases t) auto
next
  case (Cons a s)
  then show ?case by (cases t) auto
qed

lemma lit_colon: "lit '':'' = [58]"
  by (simp add: lit_def)

lemma derived_event_id_inject:
  "derived_event_id cid et about = derived_event_id cid et' about' \<longleftrightarrow> et = et' \<and> about = about'"
proof
  assume "derived_event_id cid et about = derived_event_id cid et' about'"
  then have "lit (AuditEventType_as_str et) @ 58 # about = lit (AuditEventType_as_str et') @ 58 # about'"
    by (simp add: derived_event_id_def lit_colon)
  from split_at_mark [OF this] event_type_ascii
  have "lit (AuditEventType_as_str et) = lit (AuditEventType_as_str et')" "about = about'" by blast+
  then show "et = et' \<and> about = about'" using event_type_inject by simp
qed simp

lemma display_nat_no_colon: "58 \<notin> set (display_nat n)"
  using display_nat_digits [of n] by (auto simp: is_ascii_digit_def)

lemma about_attempt_inject:
  "about_attempt sid a = about_attempt sid' a' \<longleftrightarrow> sid = sid' \<and> a = a'"
proof
  assume eq: "about_attempt sid a = about_attempt sid' a'"
  let ?w = "rev (lit ''attempt'')"
  have att: "lit '':attempt:'' = 58 # lit ''attempt'' @ [58]" by (simp add: lit_def)
  have "rev (about_attempt sid a) = rev (display_nat (unat a)) @ 58 # ?w @ 58 # rev sid @ rev (lit ''step:'')"
    for sid a by (simp add: about_attempt_def att)
  with eq have "rev (display_nat (unat a)) @ 58 # ?w @ 58 # rev sid @ rev (lit ''step:'')
      = rev (display_nat (unat a')) @ 58 # ?w @ 58 # rev sid' @ rev (lit ''step:'')" by metis
  from split_at_mark [OF this] display_nat_no_colon
  have "rev (display_nat (unat a)) = rev (display_nat (unat a'))" "rev sid = rev sid'" by auto
  then show "sid = sid' \<and> a = a'" by (simp add: word_unat_eq_iff)
qed simp

lemma about_attempt_tight: "tight (about_attempt sid a)"
proof -
  have "last (display_nat (unat a)) \<in> set (display_nat (unat a))" by simp
  then have "is_ascii_digit (last (display_nat (unat a)))" using display_nat_digits by blast
  then have "\<not> is_whitespace (last (display_nat (unat a)))"
    by (auto simp: is_ascii_digit_def is_whitespace_def)
  then show ?thesis by (simp add: tight_def about_attempt_def) (simp add: lit_def is_whitespace_def)
qed

section \<open>Building facts on the example session\<close>

lemma demo_opened_id: "inst_id demo_opened = lit ''c1''"
  by (simp add: demo_opened_def CeremonyInstance_open_def CeremonyDefinition_initial_state_id_def
      demo_defs CeremonyState_is_initial_def)

lemma demo_trim: "trim (lit ''c1'') = lit ''c1''" "trim (lit ''host'') = lit ''host''"
  by (rule trim_id, simp add: lit_def is_whitespace_def)+

lemma demo_canonical: "canonical_text (Some 256) is_control (lit ''c1'')"
  unfolding canonical_text_def demo_trim
  by (simp add: lit_def is_control_def str_len_def utf8_width_def)

lemma demo_plan_chars: "\<forall>c \<in> set (lit ''plan''). \<not> is_control c"
  by (simp add: lit_def is_control_def)

lemma demo_lens: "str_len (lit ''c1'') = 2" "str_len (lit ''plan'') = 4"
  by (simp_all add: lit_def str_len_def utf8_width_def)

lemma demo_host_actor:
  "session_actor (lit ''host'') k = Inr \<lparr>actor_id = lit ''host'', actor_kind = k, actor_role_id = Some (lit ''host'')\<rparr>"
  by (simp add: session_actor_def AuditActor_new_def checked_text_def demo_trim Let_def)
    (simp add: lit_def str_len_def utf8_width_def no_char_def)

lemma about_attempt_canonical:
  assumes "\<forall>c \<in> set sid. \<not> is_control c"
  shows "canonical_text None is_control (about_attempt sid a)"
proof -
  have "\<not> is_control c" if "c \<in> set (display_nat n)" for c n
    using that display_nat_digits [of n] by (auto simp: is_ascii_digit_def is_control_def)
  moreover have "\<not> is_control c" if "c \<in> set (lit ''step:'') \<union> set (lit '':attempt:'')" for c
    using that by (auto simp: lit_def is_control_def)
  ultimately show ?thesis
    using assms tight_trim [OF about_attempt_tight, of sid a] about_attempt_tight [of sid a]
    by (auto simp: canonical_text_def tight_def) (auto simp: about_attempt_def)
qed

lemma about_attempt_len: "unat a < 10 \<Longrightarrow> str_len (about_attempt sid a) = 15 + str_len sid"
  by (simp add: about_attempt_def display_nat.simps [of "unat a"])
    (simp add: lit_def str_len_def utf8_width_def)

text \<open>
  The event ids of the facts about steps identify them: within one session (whose id
  passed its constructor) two such facts have the same event id exactly when they record the
  same kind of event about the same attempt at the same step, whoever reported them and when.
  A retried step is therefore never folded into an earlier attempt.
\<close>

theorem step_fact_identity:
  assumes "canonical_text (Some 256) is_control (inst_id i)" and "inst_id j = inst_id i"
    and "step_fact i et sid a rid k t = Inr f" and "step_fact j et' sid' a' rid' k' t' = Inr f'"
  shows "fact_event_id f = fact_event_id f' \<longleftrightarrow> et = et' \<and> sid = sid' \<and> a = a'"
proof -
  have id: "trim (derived_event_id (inst_id i) et (about_attempt sid a)) =
      derived_event_id (inst_id i) et (about_attempt sid a)" for et sid a
    using assms(1) by (intro tight_trim derived_event_id_tight tight_canonical about_attempt_tight)
  from seat_fact_Inr(6) [OF assms(3) [unfolded step_fact_def]]
    seat_fact_Inr(6) [OF assms(4) [unfolded step_fact_def]]
  show ?thesis by (simp add: assms(2) id derived_event_id_inject about_attempt_inject)
qed

theorem step_fact_identity_witness:
  "\<exists>f f'. step_started demo_opened (lit ''plan'') 1 (lit ''host'') Human 5 = Inr f \<and>
     step_started demo_opened (lit ''plan'') 2 (lit ''host'') Human 9 = Inr f' \<and>
     fact_event_id f \<noteq> fact_event_id f'"
proof -
  have cid: "canonical_text (Some 256) is_control (inst_id demo_opened)"
    unfolding demo_opened_id by (rule demo_canonical)
  have "is_ok (step_started demo_opened (lit ''plan'') a (lit ''host'') Human t)" if "unat a < 10" for a t
    using session_fact_fits_iff(1) [OF cid about_attempt_canonical [OF demo_plan_chars], of StepStarted]
    by (simp add: step_started_def step_fact_def seat_fact_def demo_host_actor demo_opened_id
        about_attempt_len [OF that] demo_lens)
  from this [of 1 5] this [of 2 9] obtain f f' where
    f: "step_started demo_opened (lit ''plan'') 1 (lit ''host'') Human 5 = Inr f"
    and f': "step_started demo_opened (lit ''plan'') 2 (lit ''host'') Human 9 = Inr f'"
    by (auto simp: is_ok_iff)
  with step_fact_identity [OF cid refl f [unfolded step_started_def] f' [unfolded step_started_def]]
  show ?thesis by auto
qed

text \<open>
  C39. When a session can be opened: the fact that it started is built exactly when the id of
  the session is at most 222 bytes long (and the caller's identity is a valid actor id),
  although a session id of up to 256 bytes is valid; a longer one is refused with the length of
  the derived event id.
\<close>

theorem session_start_fact_fits:
  assumes "CeremonyId_new raw = Inr (inst_id i)" and "AuditActor_new caller k None = Inr who"
  shows "if str_len (inst_id i) \<le> 222 then is_ok (ceremony_started i caller k t)
    else ceremony_started i caller k t = Inl (FieldTooLong ''event_id'' (str_len (inst_id i) + 34) 256)"
proof -
  have cid: "canonical_text (Some 256) is_control (inst_id i)"
    using assms(1) by (auto simp: CeremonyId_new_def checked_text_eq_Inr)
  have trim: "trim (lit ''session'') = lit ''session''"
    by (rule trim_id) (simp add: lit_def is_whitespace_def)
  have about: "canonical_text None is_control (lit ''session'')"
    unfolding canonical_text_def trim by (simp add: lit_def is_control_def)
  have len: "str_len (lit ''session'') = 7" by (simp add: lit_def str_len_def utf8_width_def)
  have "ceremony_started i caller k t = session_fact i CeremonyInstanceStarted (lit ''session'') who t"
    by (simp add: ceremony_started_def assms(2))
  with session_fact_fits_iff [OF cid about, of CeremonyInstanceStarted who t]
  show ?thesis by (simp add: len)
qed

theorem session_start_fact_fits_witness:
  "is_ok (ceremony_started demo_opened (lit ''host'') Service 0)"
proof -
  have id: "CeremonyId_new (lit ''c1'') = Inr (inst_id demo_opened)"
    unfolding demo_opened_id using demo_canonical
    by (simp add: CeremonyId_new_def checked_text_eq_Inr demo_trim)
  have who: "AuditActor_new (lit ''host'') Service None =
      Inr \<lparr>actor_id = lit ''host'', actor_kind = Service, actor_role_id = None\<rparr>"
    by (simp add: AuditActor_new_def checked_text_def demo_trim Let_def)
      (simp add: lit_def str_len_def utf8_width_def no_char_def)
  from session_start_fact_fits [OF id who, of 0] show ?thesis
    by (simp add: demo_opened_id demo_lens)
qed

text \<open>
  Seatings and the texts they are identified by: two seats held by two specialties, and one
  seat held by a specialty whose name contains the separators, derive the same event id.
\<close>

lemma seatings_share_event_id:
  "participants_bound i [(lit ''a'', lit ''x''), (lit ''b'', lit ''y'')] who k t =
   participants_bound i [(lit ''a'', lit ''x,b=y'')] who k t"
  by (simp add: participants_bound_def Let_def) (simp add: lit_def)

text \<open>
  A move that was applied is recorded as an ending exactly when it completed the session: the
  facts of a move end with a completion if and only if the session it produced is completed.
\<close>

lemma transition_facts_end_iff_completed:
  assumes "CeremonyInstance_move_on i d trigger rid now = Inr (j, s)"
    and "transition_applied j d who k t = Inr fs"
  shows "fact_event_type (last fs) = CeremonyCompleted \<longleftrightarrow> CeremonyInstance_is_completed j d"
proof -
  have "CeremonyInstance_is_terminal j d \<Longrightarrow> inst_completed_at j \<noteq> None"
    using assms(1) by (auto simp: CeremonyInstance_is_terminal_def dest!: move_on_Inr)
  then have comp: "CeremonyInstance_is_completed j d \<longleftrightarrow> CeremonyInstance_is_terminal j d"
    by (auto simp: CeremonyInstance_is_completed_def)
  show ?thesis
    using assms(2) unfolding comp
    by (auto simp: transition_applied_def Let_def result_simps session_fact_Inr(1) split: if_splits)
qed

end
