(* ===== verification/Definition_Publications.thy ===== *)
theory Definition_Publications
  imports Session_Facts Store_Interleavings "HOL-Library.Product_Lexorder"
begin

text \<open>
  Where definitions live and how sessions get theirs.  The overwriting repository and the
  append-only catalogue (\<open>choreo-adapters/src/memory/ceremony_definition_repository.rs\<close> and
  \<open>ceremony_definition_publications.rs\<close>), the in-memory audit journal
  (\<open>memory/audit_journal.rs\<close>), and the use cases that publish, mount, resolve and start
  (\<open>choreo-app/src/usecases\<close>).  The locale \<open>publication_catalogue\<close> states what the catalogue
  promises; shown here: a version once published never changes, and a session started from a
  published definition resolves to that very definition for the rest of its life.
\<close>

section \<open>The repository\<close>

type_synonym definition_repository = "(rstr \<times> rstr, ceremony_definition) btree_map"

definition definitions_save :: "ceremony_definition \<Rightarrow> definition_repository \<Rightarrow> definition_repository" where
  "definitions_save d s = bt_insert (def_name d, def_version d) d s"

definition definitions_get :: "definition_repository \<Rightarrow> rstr \<Rightarrow> rstr \<Rightarrow> ceremony_definition outcome" where
  "definitions_get s name version = ok_or (bt_get s (name, version)) (NotFound ''ceremony_definition'')"

definition definitions_list :: "definition_repository \<Rightarrow> ceremony_definition list" where
  "definitions_list s = bt_values s"

section \<open>The catalogue\<close>

datatype publication_outcome =
    Published published_ceremony_definition
  | AlreadyPublished published_ceremony_definition
  | VersionOccupied digest digest

fun PublicationOutcome_published :: "publication_outcome \<Rightarrow> published_ceremony_definition option" where
  "PublicationOutcome_published (Published p) = Some p"
| "PublicationOutcome_published (AlreadyPublished p) = Some p"
| "PublicationOutcome_published (VersionOccupied _ _) = None"

fun PublicationOutcome_is_conflict :: "publication_outcome \<Rightarrow> bool" where
  "PublicationOutcome_is_conflict (VersionOccupied _ _) = True"
| "PublicationOutcome_is_conflict _ = False"

fun PublicationOutcome_is_new :: "publication_outcome \<Rightarrow> bool" where
  "PublicationOutcome_is_new (Published _) = True"
| "PublicationOutcome_is_new _ = False"

type_synonym publications = "(rstr \<times> rstr, published_ceremony_definition) btree_map"

definition publication_key :: "published_ceremony_definition \<Rightarrow> rstr \<times> rstr" where
  "publication_key p = (def_name (pub_definition p), def_version (pub_definition p))"

definition publications_publish ::
    "published_ceremony_definition \<Rightarrow> publications \<Rightarrow> publications \<times> publication_outcome outcome" where
  "publications_publish p s =
     (case bt_get s (publication_key p) of
        Some occupant \<Rightarrow>
          if pub_digest occupant = pub_digest p then (s, Inr (AlreadyPublished occupant))
          else (s, Inr (VersionOccupied (pub_digest occupant) (pub_digest p)))
      | None \<Rightarrow> (bt_insert (publication_key p) p s, Inr (Published p)))"

definition publications_published ::
    "publications \<Rightarrow> rstr \<Rightarrow> rstr \<Rightarrow> published_ceremony_definition option outcome" where
  "publications_published s name version = Inr (bt_get s (name, version))"

definition publications_catalogue :: "publications \<Rightarrow> published_ceremony_definition list" where
  "publications_catalogue s = bt_values s"

section \<open>The audit journal on its own\<close>

type_synonym audit_journal = "(rstr, audit_record list) btree_map"

definition journal_entry :: "audit_journal \<Rightarrow> rstr \<Rightarrow> audit_record list" where
  "journal_entry s cid = (case bt_get s cid of None \<Rightarrow> [] | Some j \<Rightarrow> j)"

definition journal_append ::
    "(bytes \<Rightarrow> digest) \<Rightarrow> (timestamp \<Rightarrow> rstr option) \<Rightarrow> audit_fact \<Rightarrow> audit_journal
      \<Rightarrow> audit_journal \<times> audit_record outcome" where
  "journal_append sha256 rfc3339 f s =
     (let cid = fact_ceremony_id f; journal = journal_entry s cid in
      case (if journal = [] then AuditRecord_first sha256 rfc3339 f
            else AuditRecord_following sha256 rfc3339 f (last journal)) of
        Inl e \<Rightarrow> (bt_insert cid journal s, Inl e)
      | Inr r \<Rightarrow> (bt_insert cid (journal @ [r]) s, Inr r))"

definition journal_head :: "audit_journal \<Rightarrow> rstr \<Rightarrow> audit_record option" where
  "journal_head s cid =
     (case bt_get s cid of None \<Rightarrow> None | Some j \<Rightarrow> if j = [] then None else Some (last j))"

definition journal_records :: "audit_journal \<Rightarrow> rstr \<Rightarrow> audit_record list" where
  "journal_records s cid = journal_entry s cid"

section \<open>Use cases\<close>

definition PublishCeremonyDefinitionUseCase_execute ::
    "(bytes \<Rightarrow> digest) \<Rightarrow> (ceremony_definition \<Rightarrow> bytes option)
      \<Rightarrow> (published_ceremony_definition \<Rightarrow> 's \<Rightarrow> 's \<times> publication_outcome outcome)
      \<Rightarrow> ceremony_definition \<Rightarrow> 's \<Rightarrow> 's \<times> publication_outcome outcome" where
  "PublishCeremonyDefinitionUseCase_execute sha256 to_vec publish d s =
     (case PublishedCeremonyDefinition_seal sha256 to_vec d of
        Inl e \<Rightarrow> (s, Inl e)
      | Inr p \<Rightarrow> publish p s)"

text \<open>
  \<open>get\<close> reads the repository and \<open>published\<close> the catalogue; both ports may fail.
\<close>

definition ResolveCeremonyDefinitionUseCase_execute ::
    "(rstr \<Rightarrow> rstr \<Rightarrow> ceremony_definition outcome)
      \<Rightarrow> (rstr \<Rightarrow> rstr \<Rightarrow> published_ceremony_definition option outcome)
      \<Rightarrow> ceremony_instance \<Rightarrow> ceremony_definition outcome" where
  "ResolveCeremonyDefinitionUseCase_execute get published i =
     (case inst_bound_definition i of
        None \<Rightarrow> get (inst_definition_name i) (inst_definition_version i)
      | Some digest \<Rightarrow>
          and_then (published (inst_definition_name i) (inst_definition_version i)) (\<lambda>opt.
          and_then (ok_or opt (NotFound ''published_ceremony_definition'')) (\<lambda>p.
          if pub_digest p \<noteq> digest
          then Inl (InvariantViolated
            ''the published definition no longer matches the digest this instance ran'')
          else Inr (pub_definition p))))"

fun mount_loop ::
    "(ceremony_definition \<Rightarrow> 's \<Rightarrow> 's \<times> unit outcome) \<Rightarrow> ceremony_definition list \<Rightarrow> 's \<Rightarrow> 's \<times> unit outcome" where
  "mount_loop save [] s = (s, Inr ())"
| "mount_loop save (d # ds) s =
     (case save d s of
        (s', Inl e) \<Rightarrow> (s', Inl e)
      | (s', Inr _) \<Rightarrow> mount_loop save ds s')"

definition MountCeremonyDefinitionsUseCase_execute ::
    "ceremony_definition list outcome \<Rightarrow> (ceremony_definition \<Rightarrow> 's \<Rightarrow> 's \<times> unit outcome) \<Rightarrow> 's
      \<Rightarrow> 's \<times> ceremony_definition list outcome" where
  "MountCeremonyDefinitionsUseCase_execute loaded save s =
     (case loaded of
        Inl e \<Rightarrow> (s, Inl e)
      | Inr ds \<Rightarrow>
          if ds = [] then (s, Inl (EmptyCollection ''ceremony_definitions''))
          else case mount_loop save ds s of
            (s', Inl e) \<Rightarrow> (s', Inl e)
          | (s', Inr _) \<Rightarrow> (s', Inr ds))"

record start_ceremony_input =
  sci_id :: rstr
  sci_definition_name :: rstr
  sci_definition_version :: rstr
  sci_context :: ceremony_context
  sci_actor_id :: rstr
  sci_actor_kind :: audit_actor_kind

text \<open>
  The end both ways of starting share: record who opened the session and open it.
  \<open>None\<close> is the panic of \<open>CeremonyInstance::open\<close> on a definition without an initial state.
\<close>

definition open_started ::
    "(ceremony_commit \<Rightarrow> 's \<Rightarrow> 's \<times> commit_outcome outcome) \<Rightarrow> start_ceremony_input \<Rightarrow> timestamp
      \<Rightarrow> ceremony_instance option \<Rightarrow> 's \<Rightarrow> ('s \<times> ceremony_instance outcome) option" where
  "open_started commit input now opened s =
     (case opened of
        None \<Rightarrow> None
      | Some i \<Rightarrow> Some
          (case ceremony_started i (sci_actor_id input) (sci_actor_kind input) now of
             Inl e \<Rightarrow> (s, Inl e)
           | Inr f \<Rightarrow>
               (case SessionJournal_open commit i [f] s of
                  (s', r) \<Rightarrow> (s', map_ok ls_instance r))))"

definition StartCeremonyUseCase_execute ::
    "(rstr \<Rightarrow> rstr \<Rightarrow> ceremony_definition outcome)
      \<Rightarrow> (ceremony_commit \<Rightarrow> 's \<Rightarrow> 's \<times> commit_outcome outcome) \<Rightarrow> start_ceremony_input \<Rightarrow> timestamp
      \<Rightarrow> 's \<Rightarrow> ('s \<times> ceremony_instance outcome) option" where
  "StartCeremonyUseCase_execute get commit input now s =
     (case get (sci_definition_name input) (sci_definition_version input) of
        Inl e \<Rightarrow> Some (s, Inl e)
      | Inr d \<Rightarrow> open_started commit input now
          (CeremonyInstance_start (sci_id input) d (sci_context input) now) s)"

definition StartPublishedCeremonyUseCase_execute ::
    "(rstr \<Rightarrow> rstr \<Rightarrow> published_ceremony_definition option outcome)
      \<Rightarrow> (ceremony_commit \<Rightarrow> 's \<Rightarrow> 's \<times> commit_outcome outcome) \<Rightarrow> start_ceremony_input \<Rightarrow> timestamp
      \<Rightarrow> 's \<Rightarrow> ('s \<times> ceremony_instance outcome) option" where
  "StartPublishedCeremonyUseCase_execute published commit input now s =
     (case and_then (published (sci_definition_name input) (sci_definition_version input))
             (\<lambda>opt. ok_or opt (NotFound ''published_ceremony_definition'')) of
        Inl e \<Rightarrow> Some (s, Inl e)
      | Inr p \<Rightarrow> open_started commit input now
          (CeremonyInstance_start_bound (sci_id input) p (sci_context input) now) s)"

section \<open>What a catalogue promises\<close>

locale publication_catalogue =
  fixes publish :: "published_ceremony_definition \<Rightarrow> 's \<Rightarrow> 's \<times> publication_outcome outcome"
    and published :: "'s \<Rightarrow> rstr \<Rightarrow> rstr \<Rightarrow> published_ceremony_definition option outcome"
    and reached :: "'s set"
  assumes kept: "publish p s = (s', r) \<Longrightarrow> published s n v = Inr (Some q) \<Longrightarrow>
      published s' n v = Inr (Some q)"
    and accepted: "publish p s = (s', Inr out) \<Longrightarrow> PublicationOutcome_published out = Some q \<Longrightarrow>
      published s' (def_name (pub_definition p)) (def_version (pub_definition p)) = Inr (Some q) \<and>
      pub_digest q = pub_digest p"
    and occupied: "publish p s = (s', Inr (VersionOccupied have_digest offered)) \<Longrightarrow>
      \<exists>q. published s (def_name (pub_definition p)) (def_version (pub_definition p)) = Inr (Some q) \<and>
        pub_digest q = have_digest \<and> have_digest \<noteq> pub_digest p \<and> offered = pub_digest p"
    and keyed: "published s n v = Inr (Some q) \<Longrightarrow> s \<in> reached \<Longrightarrow>
      def_name (pub_definition q) = n \<and> def_version (pub_definition q) = v"
begin

lemma kept_along:
  assumes "(\<lambda>s s'. \<exists>p r. publish p s = (s', r))\<^sup>*\<^sup>* s s'" and "published s n v = Inr (Some q)"
  shows "published s' n v = Inr (Some q)"
  using assms by (induction rule: rtranclp_induct) (auto intro: kept)

text \<open>What an instance was bound to is what it resolves to, whatever is published later.\<close>

lemma bound_resolves:
  assumes "published s (inst_definition_name i) (inst_definition_version i) = Inr (Some q)"
    and "inst_bound_definition i = Some (pub_digest q)"
    and "(\<lambda>s s'. \<exists>p r. publish p s = (s', r))\<^sup>*\<^sup>* s s'"
  shows "ResolveCeremonyDefinitionUseCase_execute get (published s') i = Inr (pub_definition q)"
  using kept_along [OF assms(3,1)] assms(2) by (simp add: ResolveCeremonyDefinitionUseCase_execute_def)

end

text \<open>The catalogues in which every entry stands under its own name and version.\<close>

definition publications_keyed :: "publications set" where
  "publications_keyed = {s. \<forall>k p. bt_get s k = Some p \<longrightarrow> publication_key p = k}"

interpretation catalogue: publication_catalogue publications_publish publications_published publications_keyed
  by unfold_locales
    (auto simp: publications_publish_def publications_published_def publications_keyed_def
      publication_key_def split: option.splits if_splits)

lemma publish_keyed:
  "publications_publish p s = (s', r) \<Longrightarrow> s \<in> publications_keyed \<Longrightarrow> s' \<in> publications_keyed"
  by (auto simp: publications_publish_def publications_keyed_def split: option.splits if_splits)

lemma publish_path_keyed:
  assumes "(\<lambda>s s'. \<exists>p r. publications_publish p s = (s', r))\<^sup>*\<^sup>* s s'" and "s \<in> publications_keyed"
  shows "s' \<in> publications_keyed"
  using assms by (induction rule: rtranclp_induct) (auto intro: publish_keyed)

section \<open>The journal on its own\<close>

lemma journal_append_seals:
  "journal_append sha rfc f s =
     (case seal_next sha rfc (journal_entry s (fact_ceremony_id f)) f of
        Inl e \<Rightarrow> (bt_insert (fact_ceremony_id f) (journal_entry s (fact_ceremony_id f)) s, Inl e)
      | Inr r \<Rightarrow> (bt_insert (fact_ceremony_id f) (journal_entry s (fact_ceremony_id f) @ [r]) s, Inr r))"
  by (simp add: journal_append_def seal_next_def Let_def)

text \<open>Appending keeps every journal intact, and a refused fact leaves no record.\<close>

lemma journal_append_intact:
  assumes "journal_append sha rfc f s = (s', r)"
    and "\<forall>cid. AuditChain_verify sha rfc (journal_records s cid) = Intact"
  shows "AuditChain_verify sha rfc (journal_records s' cid) = Intact"
    and "journal_records s' cid = journal_records s cid @
      (if cid = fact_ceremony_id f then case r of Inl _ \<Rightarrow> [] | Inr x \<Rightarrow> [x] else [])"
proof -
  have ins: "journal_entry (bt_insert k j s) c = (if c = k then j else journal_entry s c)" for k j c
    by (simp add: journal_entry_def)
  show "journal_records s' cid = journal_records s cid @
      (if cid = fact_ceremony_id f then case r of Inl _ \<Rightarrow> [] | Inr x \<Rightarrow> [x] else [])"
    using assms(1) by (auto simp: journal_append_seals journal_records_def ins split: sum.splits)
  then show "AuditChain_verify sha rfc (journal_records s' cid) = Intact"
    using assms seal_next_intact
    by (auto simp: journal_append_seals journal_records_def split: sum.splits)
qed

section \<open>When a commit goes through\<close>

lemma AuditRecord_seal_ok:
  "rfc (fact_occurred_at f) \<noteq> None \<Longrightarrow> \<exists>r. AuditRecord_seal sha rfc f q h = Inr r"
  by (auto simp: AuditRecord_seal_def Let_def compute_hash_def canonical_form_def)

lemma seal_facts_ok:
  assumes "\<forall>f \<in> set fs. fact_ceremony_id f = cid \<and> rfc (fact_occurred_at f) \<noteq> None"
    and "\<forall>r \<in> set j. arec_ceremony_id r = cid"
  shows "\<exists>x. seal_facts sha rfc j fs = Inr x"
  using assms
proof (induction fs arbitrary: j)
  case (Cons f fs)
  have sealed: "\<exists>r. AuditRecord_seal sha rfc f q h = Inr r" for q h
    using Cons.prems(1) by (intro AuditRecord_seal_ok) simp
  obtain r where r: "seal_next sha rfc j f = Inr r"
  proof (cases "j = []")
    case True
    then show thesis using sealed that by (auto simp: seal_next_def AuditRecord_first_def)
  next
    case False
    then have "fact_ceremony_id f = arec_ceremony_id (last j)" using Cons.prems by simp
    then show thesis using sealed that False by (auto simp: seal_next_def AuditRecord_following_def)
  qed
  have "\<forall>x \<in> set (j @ [r]). arec_ceremony_id x = cid"
    using Cons.prems records_fact_ceremony [OF seal_next_records [OF r]] by auto
  from Cons.IH [OF _ this] Cons.prems(1) r show ?case by auto
qed simp

text \<open>
  On a well-formed store a commit whose instants can be rendered succeeds exactly when the
  stored revision is the expected one.
\<close>

lemma journal_commit_ok_iff:
  assumes "store_wf sha rfc s" and "\<forall>f \<in> set facts. fact_ceremony_id f = inst_id (ls_instance session) \<and>
      rfc (fact_occurred_at f) \<noteq> None"
  shows "is_ok (snd (SessionJournal_commit (store_commit sha rfc) session facts s)) \<longleftrightarrow>
    ExpectedRevision_matches (ls_expected session) (store_revision s (inst_id (ls_instance session)))"
proof -
  let ?i = "ls_instance session"
  have "\<not> list_ex (\<lambda>f. fact_ceremony_id f \<noteq> inst_id ?i) facts" using assms(2) by (auto simp: list_ex_iff)
  then have c: "CeremonyCommit_new ?i (ls_expected session) facts [] = Inr
      \<lparr>commit_instance = ?i, commit_expected_revision = ls_expected session, commit_facts = facts,
       commit_messages = []\<rparr>" (is "_ = Inr ?c")
    by (simp add: CeremonyCommit_new_def)
  have "\<forall>r \<in> set (store_records s (inst_id ?i)). arec_ceremony_id r = inst_id ?i"
    using default_wf(2) [OF assms(1)] by (simp add: default_reads)
  from seal_facts_ok [OF assms(2) this]
  obtain x where x: "seal_facts sha rfc (store_records s (inst_id ?i)) facts = Inr x" by blast
  show ?thesis
    by (rule store_commit_cases [of ?c s sha rfc]) (auto simp: SessionJournal_commit_def c x)
qed

lemma journal_open_ok_iff:
  assumes "store_wf sha rfc s" and "\<forall>f \<in> set facts. fact_ceremony_id f = inst_id i \<and>
      rfc (fact_occurred_at f) \<noteq> None"
  shows "SessionJournal_open (store_commit sha rfc) i facts s =
    (fst (SessionJournal_open (store_commit sha rfc) i facts s),
     if store_revision s (inst_id i) = None then Inr \<lparr>ls_instance = i, ls_expected = Exactly 1\<rparr>
     else Inl (AlreadyExists ''ceremony_instance''))"
proof -
  have "\<not> list_ex (\<lambda>f. fact_ceremony_id f \<noteq> inst_id i) facts" using assms(2) by (auto simp: list_ex_iff)
  then have c: "CeremonyCommit_new i New facts [] = Inr
      \<lparr>commit_instance = i, commit_expected_revision = New, commit_facts = facts,
       commit_messages = []\<rparr>" (is "_ = Inr ?c")
    by (simp add: CeremonyCommit_new_def)
  have "\<forall>r \<in> set (store_records s (inst_id i)). arec_ceremony_id r = inst_id i"
    using default_wf(2) [OF assms(1)] by (simp add: default_reads)
  from seal_facts_ok [OF assms(2) this]
  obtain x where x: "seal_facts sha rfc (store_records s (inst_id i)) facts = Inr x" by blast
  have new: "ExpectedRevision_matches New r \<longleftrightarrow> r = None" for r by (cases r) simp_all
  show ?thesis
    by (rule store_commit_cases [of ?c s sha rfc])
      (auto simp: SessionJournal_open_def c x new CeremonyRevision_INITIAL_def)
qed

section \<open>Sessions and the definition they run\<close>

lemma open_started_bound:
  assumes "open_started commit input now (CeremonyInstance_start_bound iid p ctx now) s = Some (s', Inr i)"
  shows "inst_definition_name i = def_name (pub_definition p)"
    and "inst_definition_version i = def_version (pub_definition p)"
    and "inst_bound_definition i = Some (pub_digest p)"
    and "CeremonyInstance_open iid (pub_definition p) ctx now (Some (pub_digest p)) = Some i"
proof -
  from assms obtain j where j: "CeremonyInstance_start_bound iid p ctx now = Some j" and "i = j"
    by (auto simp: open_started_def SessionJournal_open_def result_simps
        split: option.splits sum.splits prod.splits commit_outcome.splits)
  then show "CeremonyInstance_open iid (pub_definition p) ctx now (Some (pub_digest p)) = Some i"
    by (simp add: CeremonyInstance_start_bound_def)
  then show "inst_definition_name i = def_name (pub_definition p)"
    "inst_definition_version i = def_version (pub_definition p)"
    "inst_bound_definition i = Some (pub_digest p)"
    by (auto simp: CeremonyInstance_open_def split: option.splits)
qed

lemma steps_keep_identity:
  "(session_step tv d)\<^sup>*\<^sup>* i j \<Longrightarrow> inst_identity j = inst_identity i"
  by (induction rule: rtranclp_induct) (auto dest!: session_step_extends simp: inst_extends_def)

text \<open>
  C27. A session keeps the definition it was started with: when a session was started from a
  published definition, then whatever is published afterwards and whatever the session has done
  since, resolving the session's definition gives the definition that was in the catalogue when
  it started (and never an error).
\<close>

theorem bound_session_keeps_definition:
  assumes "s0 \<in> publications_keyed"
    and "StartPublishedCeremonyUseCase_execute (publications_published s0) commit input now st = Some (st', Inr i)"
    and "(\<lambda>s s'. \<exists>p r. publications_publish p s = (s', r))\<^sup>*\<^sup>* s0 s"
    and "(session_step to_value d)\<^sup>*\<^sup>* i j"
  shows "\<exists>p. publications_published s0 (sci_definition_name input) (sci_definition_version input) = Inr (Some p) \<and>
    ResolveCeremonyDefinitionUseCase_execute get (publications_published s) j = Inr (pub_definition p)"
proof -
  from assms(2) obtain p where
    p: "publications_published s0 (sci_definition_name input) (sci_definition_version input) = Inr (Some p)"
    and o: "open_started commit input now
      (CeremonyInstance_start_bound (sci_id input) p (sci_context input) now) st = Some (st', Inr i)"
    by (auto simp: StartPublishedCeremonyUseCase_execute_def result_simps split: sum.splits)
  note bound = open_started_bound [OF o]
  have key: "def_name (pub_definition p) = sci_definition_name input"
    "def_version (pub_definition p) = sci_definition_version input"
    using catalogue.keyed [OF p assms(1)] by simp_all
  have same: "inst_definition_name j = inst_definition_name i"
    "inst_definition_version j = inst_definition_version i"
    "inst_bound_definition j = inst_bound_definition i"
    using steps_keep_identity [OF assms(4)] by (simp_all add: inst_identity_def)
  have "ResolveCeremonyDefinitionUseCase_execute get (publications_published s) j = Inr (pub_definition p)"
    by (rule catalogue.bound_resolves [OF _ _ assms(3)]) (simp_all add: same bound key p)
  with p show ?thesis by blast
qed

definition demo_published :: published_ceremony_definition where
  "demo_published = \<lparr>pub_definition = demo_definition, pub_digest = [7]\<rparr>"

definition demo_catalogue :: publications where
  "demo_catalogue = [((lit ''demo'', CeremonyVersion_v1), demo_published)]"

definition demo_start_input :: start_ceremony_input where
  "demo_start_input = \<lparr>sci_id = lit ''c1'', sci_definition_name = lit ''demo'',
     sci_definition_version = CeremonyVersion_v1, sci_context = [], sci_actor_id = lit ''host'',
     sci_actor_kind = Service\<rparr>"

lemma demo_start_fact:
  "inst_id i = lit ''c1'' \<Longrightarrow> \<exists>f. ceremony_started i (lit ''host'') Service t = Inr f"
proof -
  assume id: "inst_id i = lit ''c1''"
  have trim: "trim (lit ''session'') = lit ''session''"
    by (rule trim_id) (simp add: lit_def is_whitespace_def)
  have about: "canonical_text None is_control (lit ''session'')"
    unfolding canonical_text_def trim by (simp add: lit_def is_control_def)
  have "str_len (lit ''session'') = 7" by (simp add: lit_def str_len_def utf8_width_def)
  then have "is_ok (session_fact i CeremonyInstanceStarted (lit ''session'') who t)" for who
    using session_fact_fits_iff(1) [OF demo_canonical [folded id] about] by (simp add: id demo_lens)
  moreover have "is_ok (AuditActor_new (lit ''host'') Service None)"
    by (simp add: AuditActor_new_def checked_text_def demo_trim Let_def)
      (simp add: lit_def str_len_def utf8_width_def no_char_def)
  ultimately show ?thesis
    by (auto simp: ceremony_started_def is_ok_iff)
qed

lemma demo_start_published:
  "\<exists>st'. StartPublishedCeremonyUseCase_execute (publications_published demo_catalogue)
     (store_commit sha demo_rfc) demo_start_input 0 [] =
   Some (st', Inr (demo_opened\<lparr>inst_bound_definition := Some [7]\<rparr>))"
proof -
  let ?i = "demo_opened\<lparr>inst_bound_definition := Some [7]\<rparr>"
  have pub: "publications_published demo_catalogue (lit ''demo'') CeremonyVersion_v1 = Inr (Some demo_published)"
    by (simp add: publications_published_def demo_catalogue_def)
  have op: "CeremonyInstance_start_bound (lit ''c1'') demo_published [] 0 = Some ?i"
    by (simp add: CeremonyInstance_start_bound_def demo_opened_def demo_published_def
        CeremonyInstance_open_def CeremonyDefinition_initial_state_id_def demo_defs CeremonyState_is_initial_def)
  obtain f where f: "ceremony_started ?i (lit ''host'') Service 0 = Inr f"
    using demo_start_fact [of ?i 0] by auto
  have "store_wf sha demo_rfc []" by (simp add: store_wf_def)
  from journal_open_ok_iff [OF this, of "[f]" ?i] f show ?thesis
    by (auto simp: StartPublishedCeremonyUseCase_execute_def demo_start_input_def pub op open_started_def
        fact_of_session(9) [OF f] demo_rfc_def store_revision_def split: prod.split)
qed

theorem bound_session_keeps_definition_witness:
  "ResolveCeremonyDefinitionUseCase_execute (definitions_get []) (publications_published
     (fst (publications_publish (demo_published\<lparr>pub_digest := [8]\<rparr>) demo_catalogue)))
     (demo_opened\<lparr>inst_bound_definition := Some [7]\<rparr>) = Inr demo_definition"
proof -
  have keyed: "demo_catalogue \<in> publications_keyed"
    by (simp add: publications_keyed_def demo_catalogue_def publication_key_def demo_published_def
        demo_definition_def)
  have path: "(\<lambda>s s'. \<exists>p r. publications_publish p s = (s', r))\<^sup>*\<^sup>* demo_catalogue
      (fst (publications_publish (demo_published\<lparr>pub_digest := [8]\<rparr>) demo_catalogue))"
    by (rule r_into_rtranclp) (meson prod.exhaust_sel)
  obtain st' where "StartPublishedCeremonyUseCase_execute (publications_published demo_catalogue)
     (store_commit demo_sha demo_rfc) demo_start_input 0 [] =
   Some (st', Inr (demo_opened\<lparr>inst_bound_definition := Some [7]\<rparr>))" using demo_start_published [of demo_sha] by blast
  from bound_session_keeps_definition [OF keyed this path rtranclp.rtrancl_refl, of "definitions_get []"]
  show ?thesis
    by (simp add: publications_published_def demo_catalogue_def demo_start_input_def demo_published_def)
qed

end
