(* ===== verification/Session_Memory.thy ===== *)
theory Session_Memory
  imports Interventions
begin

text \<open>
  What a session leaves behind: the value objects of
  \<open>choreo-core/src/value_objects/memory\<close>, the two memory ports, and the adapters
  \<open>choreo-adapters/src/memory/session_memory.rs\<close> (kept in the process) and
  \<open>forgetful_memory.rs\<close>.  Shown here: a write lands once per key, reading as of a moment
  returns no dangling reasons, and following the reasons between two entries always ends and
  returns a shortest chain.
\<close>

section \<open>Value objects\<close>

text \<open>The constructors of this module count characters, not bytes.\<close>

definition checked_chars :: "string \<Rightarrow> nat \<Rightarrow> (nat \<Rightarrow> bool) \<Rightarrow> rstr \<Rightarrow> rstr outcome" where
  "checked_chars field maximum bad raw =
     (let trimmed = trim raw in
      if trimmed = [] then Inl (EmptyField field)
      else if maximum < length trimmed then Inl (FieldTooLong field (length trimmed) maximum)
      else if list_ex bad trimmed then Inl (InvalidCharacters field)
      else Inr trimmed)"

datatype memory_capability =
    Remembering | Recalling | AnsweringQuestions | TravellingInTime | KeepingEvidence
  | KeepingReasons | FollowingReasons

fun MemoryCapability_as_label :: "memory_capability \<Rightarrow> string" where
  "MemoryCapability_as_label Remembering = ''remembering''"
| "MemoryCapability_as_label Recalling = ''recalling''"
| "MemoryCapability_as_label AnsweringQuestions = ''answering_questions''"
| "MemoryCapability_as_label TravellingInTime = ''travelling_in_time''"
| "MemoryCapability_as_label KeepingEvidence = ''keeping_evidence''"
| "MemoryCapability_as_label KeepingReasons = ''keeping_reasons''"
| "MemoryCapability_as_label FollowingReasons = ''following_reasons''"

type_synonym memory_capabilities = "memory_capability set"

definition MemoryCapabilities_none :: memory_capabilities where
  "MemoryCapabilities_none = {}"

definition MemoryCapabilities_with :: "memory_capabilities \<Rightarrow> memory_capability \<Rightarrow> memory_capabilities" where
  "MemoryCapabilities_with cs c = insert c cs"

definition MemoryCapabilities_all :: memory_capabilities where
  "MemoryCapabilities_all = foldl MemoryCapabilities_with MemoryCapabilities_none
     [Remembering, Recalling, AnsweringQuestions, TravellingInTime, KeepingEvidence,
      KeepingReasons, FollowingReasons]"

definition MemoryCapabilities_has :: "memory_capabilities \<Rightarrow> memory_capability \<Rightarrow> bool" where
  "MemoryCapabilities_has cs c = (c \<in> cs)"

fun MemoryConfidence_as_label :: "memory_confidence \<Rightarrow> string" where
  "MemoryConfidence_as_label High = ''high''"
| "MemoryConfidence_as_label Medium = ''medium''"
| "MemoryConfidence_as_label Low = ''low''"

definition MemoryDimension_new :: "rstr \<Rightarrow> rstr outcome" where
  "MemoryDimension_new raw = checked_chars ''memory_dimension'' 128 is_control raw"

definition MemoryEntryId_new :: "rstr \<Rightarrow> rstr outcome" where
  "MemoryEntryId_new raw = checked_chars ''memory_entry_id'' 256 is_control raw"

definition MemoryQuestion_new :: "rstr \<Rightarrow> rstr outcome" where
  "MemoryQuestion_new raw = checked_chars ''memory_question'' 1024 no_char raw"

definition MemoryScope_new :: "rstr \<Rightarrow> rstr outcome" where
  "MemoryScope_new raw = checked_chars ''memory_scope'' 256 is_control raw"

definition MemoryScope_of_ceremony :: "rstr \<Rightarrow> rstr outcome" where
  "MemoryScope_of_ceremony ceremony_id = MemoryScope_new (lit ''ceremony:'' @ ceremony_id)"

datatype memory_entry_kind = Decision | Observation | Constraint | Outcome

fun MemoryEntryKind_as_label :: "memory_entry_kind \<Rightarrow> string" where
  "MemoryEntryKind_as_label Decision = ''decision''"
| "MemoryEntryKind_as_label Observation = ''observation''"
| "MemoryEntryKind_as_label Constraint = ''constraint''"
| "MemoryEntryKind_as_label Outcome = ''outcome''"

record memory_evidence =
  evidence_label :: rstr
  evidence_source_id :: "rstr option"
  evidence_detail :: attributes

definition MemoryEvidence_new ::
    "rstr \<Rightarrow> rstr option \<Rightarrow> attributes \<Rightarrow> memory_evidence outcome" where
  "MemoryEvidence_new label source_id detail =
     map_ok (\<lambda>trimmed. \<lparr>evidence_label = trimmed, evidence_source_id = source_id, evidence_detail = detail\<rparr>)
       (checked_chars ''memory_evidence.label'' 256 no_char label)"

record memory_provenance =
  mp_ceremony_id :: rstr
  mp_role_id :: "rstr option"
  mp_observed_at :: timestamp

definition MemoryProvenance_idempotency_key :: "memory_provenance \<Rightarrow> rstr \<Rightarrow> rstr outcome" where
  "MemoryProvenance_idempotency_key p discriminator =
     (if trim discriminator = [] then Inl (EmptyField ''memory_provenance.discriminator'')
      else Inr (lit ''remember:'' @ mp_ceremony_id p @ lit '':'' @ trim discriminator))"

record memory_entry =
  me_id :: rstr
  me_kind :: memory_entry_kind
  me_summary :: rstr
  me_dimension :: "rstr option"
  me_provenance :: memory_provenance
  me_evidence :: "memory_evidence list"
  me_detail :: attributes

definition MemoryEntry_new ::
    "rstr \<Rightarrow> memory_entry_kind \<Rightarrow> rstr \<Rightarrow> rstr option \<Rightarrow> memory_provenance \<Rightarrow> attributes
      \<Rightarrow> memory_entry outcome" where
  "MemoryEntry_new eid k summary dimension provenance detail =
     map_ok (\<lambda>trimmed. \<lparr>me_id = eid, me_kind = k, me_summary = trimmed, me_dimension = dimension,
         me_provenance = provenance, me_evidence = [], me_detail = detail\<rparr>)
       (checked_chars ''memory_entry.summary'' 2048 no_char summary)"

definition MemoryEntry_with_evidence :: "memory_entry \<Rightarrow> memory_evidence list \<Rightarrow> memory_entry" where
  "MemoryEntry_with_evidence e evs = e\<lparr>me_evidence := me_evidence e @ evs\<rparr>"

datatype memory_relation_kind =
    Rel_Answers | Rel_Authorizes | Rel_ChosenBecause | Rel_AchievedBy | Rel_FollowsFrom
  | Rel_SatisfiesConstraint | Rel_ViolatesConstraint | Rel_Supersedes | Rel_Contradicts

fun MemoryRelationKind_as_label :: "memory_relation_kind \<Rightarrow> string" where
  "MemoryRelationKind_as_label Rel_Answers = ''answers''"
| "MemoryRelationKind_as_label Rel_Authorizes = ''authorizes''"
| "MemoryRelationKind_as_label Rel_ChosenBecause = ''chosen_because''"
| "MemoryRelationKind_as_label Rel_AchievedBy = ''achieved_by''"
| "MemoryRelationKind_as_label Rel_FollowsFrom = ''follows_from''"
| "MemoryRelationKind_as_label Rel_SatisfiesConstraint = ''satisfies_constraint''"
| "MemoryRelationKind_as_label Rel_ViolatesConstraint = ''violates_constraint''"
| "MemoryRelationKind_as_label Rel_Supersedes = ''supersedes''"
| "MemoryRelationKind_as_label Rel_Contradicts = ''contradicts''"

definition MemoryRelationKind_is_observable_by_the_engine :: "memory_relation_kind \<Rightarrow> bool" where
  "MemoryRelationKind_is_observable_by_the_engine k = (k = Rel_Answers \<or> k = Rel_Supersedes)"

definition MemoryRelationKind_is_method :: "memory_relation_kind \<Rightarrow> bool" where
  "MemoryRelationKind_is_method k = (k = Rel_AchievedBy)"

record memory_relation =
  rel_from :: rstr
  rel_to :: rstr
  rel_kind :: memory_relation_kind
  rel_why :: rstr
  rel_confidence :: memory_confidence

definition MemoryRelation_new ::
    "rstr \<Rightarrow> rstr \<Rightarrow> memory_relation_kind \<Rightarrow> rstr \<Rightarrow> memory_confidence \<Rightarrow> memory_relation outcome" where
  "MemoryRelation_new src dst k why confidence =
     (if src = dst then Inl (InvariantViolated ''a memory entry cannot explain itself'')
      else map_ok (\<lambda>trimmed. \<lparr>rel_from = src, rel_to = dst, rel_kind = k, rel_why = trimmed,
                               rel_confidence = confidence\<rparr>)
        (checked_chars ''memory_relation.why'' 512 no_char why))"

record memory_write =
  mw_entries :: "memory_entry list"
  mw_relations :: "memory_relation list"

definition MemoryWrite_new :: "memory_entry list \<Rightarrow> memory_relation list \<Rightarrow> memory_write outcome" where
  "MemoryWrite_new entries relations =
     (if entries = [] \<and> relations = [] then Inl (EmptyCollection ''memory.write'')
      else Inr \<lparr>mw_entries = entries, mw_relations = relations\<rparr>)"

definition MemoryWrite_reasons_only :: "memory_relation list \<Rightarrow> memory_write outcome" where
  "MemoryWrite_reasons_only relations = MemoryWrite_new [] relations"

definition MemoryWrite_unexplained :: "memory_entry list \<Rightarrow> memory_write outcome" where
  "MemoryWrite_unexplained entries = MemoryWrite_new entries []"

section \<open>The ports\<close>

datatype memory_write_outcome = Remembered | AlreadyRemembered | NotRemembered

datatype memory_recollection = Recalled "memory_entry list" "memory_relation list" | Unsupported

definition MemoryRecollection_nothing :: memory_recollection where
  "MemoryRecollection_nothing = Recalled [] []"

fun MemoryRecollection_entries :: "memory_recollection \<Rightarrow> memory_entry list" where
  "MemoryRecollection_entries (Recalled entries _) = entries"
| "MemoryRecollection_entries Unsupported = []"

fun MemoryRecollection_relations :: "memory_recollection \<Rightarrow> memory_relation list" where
  "MemoryRecollection_relations (Recalled _ relations) = relations"
| "MemoryRecollection_relations Unsupported = []"

fun MemoryRecollection_is_supported :: "memory_recollection \<Rightarrow> bool" where
  "MemoryRecollection_is_supported (Recalled _ _) = True"
| "MemoryRecollection_is_supported Unsupported = False"

section \<open>Memory kept in the process\<close>

record remembered =
  rem_entries :: "memory_entry list"
  rem_relations :: "memory_relation list"
  rem_keys :: "rstr btree_set"

definition Remembered_default :: remembered where
  "Remembered_default = \<lparr>rem_entries = [], rem_relations = [], rem_keys = []\<rparr>"

type_synonym session_memory = "(rstr, remembered) btree_map"

definition InProcessSessionMemory_declared :: memory_capabilities where
  "InProcessSessionMemory_declared = foldl MemoryCapabilities_with MemoryCapabilities_none
     [Remembering, Recalling, TravellingInTime, KeepingEvidence, KeepingReasons, FollowingReasons]"

text \<open>One iteration of the \<open>for\<close> loop of \<open>chain\<close>.\<close>

definition chain_visit ::
    "memory_relation \<Rightarrow> rstr list \<times> (rstr, memory_relation) btree_map \<times> rstr btree_set
      \<Rightarrow> rstr list \<times> (rstr, memory_relation) btree_map \<times> rstr btree_set" where
  "chain_visit r = (\<lambda>(frontier, arrived_by, seen).
     if rel_to r \<in> set seen then (frontier, arrived_by, seen)
     else (frontier @ [rel_to r], bt_insert (rel_to r) r arrived_by, bset_insert (rel_to r) seen))"

lemma chain_visit_apply:
  "chain_visit r (frontier, arrived_by, seen) =
     (if rel_to r \<in> set seen then (frontier, arrived_by, seen)
      else (frontier @ [rel_to r], bt_insert (rel_to r) r arrived_by, bset_insert (rel_to r) seen))"
  by (simp add: chain_visit_def)

lemma chain_visits:
  assumes "fold chain_visit rs (frontier, arrived_by, seen) = (frontier', arrived_by', seen')"
  shows "\<exists>news. frontier' = frontier @ news \<and> distinct news \<and> set news \<inter> set seen = {} \<and>
    set seen' = set seen \<union> set news \<and> rel_to ` set rs \<subseteq> set seen' \<and>
    (\<forall>x. x \<notin> set news \<longrightarrow> bt_get arrived_by' x = bt_get arrived_by x) \<and>
    (\<forall>x \<in> set news. \<exists>r \<in> set rs. bt_get arrived_by' x = Some r \<and> rel_to r = x)"
  using assms
proof (induction rs arbitrary: frontier arrived_by seen)
  case Nil
  then show ?case by (intro exI [of _ "[]"]) simp
next
  case (Cons r rs)
  show ?case
  proof (cases "rel_to r \<in> set seen")
    case True
    then have "fold chain_visit rs (frontier, arrived_by, seen) = (frontier', arrived_by', seen')"
      using Cons.prems by (simp add: chain_visit_apply)
    from Cons.IH [OF this] True show ?thesis by (elim exE) (rule exI, auto)
  next
    case False
    then have "fold chain_visit rs (frontier @ [rel_to r], bt_insert (rel_to r) r arrived_by,
        bset_insert (rel_to r) seen) = (frontier', arrived_by', seen')"
      using Cons.prems by (simp add: chain_visit_apply)
    from Cons.IH [OF this] obtain news where
      "frontier' = (frontier @ [rel_to r]) @ news" "distinct news"
      "set news \<inter> set (bset_insert (rel_to r) seen) = {}"
      "set seen' = set (bset_insert (rel_to r) seen) \<union> set news" "rel_to ` set rs \<subseteq> set seen'"
      "\<forall>x. x \<notin> set news \<longrightarrow> bt_get arrived_by' x = bt_get (bt_insert (rel_to r) r arrived_by) x"
      "\<forall>x \<in> set news. \<exists>r \<in> set rs. bt_get arrived_by' x = Some r \<and> rel_to r = x" by blast
    then show ?thesis using False by (intro exI [of _ "rel_to r # news"]) auto
  qed
qed

lemma chain_visits_measure:
  assumes "fold chain_visit rs (frontier, arrived_by, seen) = (frontier', arrived_by', seen')"
    and "set rs \<subseteq> set relations"
  shows "card (rel_to ` set relations - set seen') + length frontier' =
    card (rel_to ` set relations - set seen) + length frontier"
proof -
  let ?all = "rel_to ` set relations"
  from chain_visits [OF assms(1)] obtain news where
    n: "frontier' = frontier @ news \<and> distinct news \<and> set news \<inter> set seen = {} \<and>
      set seen' = set seen \<union> set news \<and> rel_to ` set rs \<subseteq> set seen' \<and>
      (\<forall>x. x \<notin> set news \<longrightarrow> bt_get arrived_by' x = bt_get arrived_by x) \<and>
      (\<forall>x \<in> set news. \<exists>r \<in> set rs. bt_get arrived_by' x = Some r \<and> rel_to r = x)" ..
  have sub: "set news \<subseteq> ?all - set seen"
  proof
    fix x assume x: "x \<in> set news"
    with n obtain r where "r \<in> set rs" "rel_to r = x" by metis
    then have "x \<in> ?all" using assms(2) by blast
    moreover have "x \<notin> set seen" using n x by (metis IntI empty_iff)
    ultimately show "x \<in> ?all - set seen" by (rule DiffI)
  qed
  have "set seen' = set seen \<union> set news" using n by (elim conjE)
  then have "?all - set seen' = ?all - set seen - set news" by (simp only: set_diff_eq Un_iff mem_Collect_eq) blast
  then have "card (?all - set seen') = card (?all - set seen) - card (set news)"
    by (simp only: card_Diff_subset [OF finite_set sub])
  moreover have "card (set news) = length news" using n by (simp only: distinct_card)
  moreover have "card (set news) \<le> card (?all - set seen)"
    using sub by (rule card_mono [rotated]) (rule finite_Diff, rule finite_imageI, rule finite_set)
  moreover have "length frontier' = length frontier + length news" by (simp only: n length_append)
  ultimately show ?thesis by linarith
qed

text \<open>The breadth-first \<open>while\<close> loop: every entry is queued once.\<close>

function chain_search ::
    "memory_relation list \<Rightarrow> rstr \<Rightarrow> rstr list \<Rightarrow> (rstr, memory_relation) btree_map \<Rightarrow> rstr btree_set
      \<Rightarrow> (rstr, memory_relation) btree_map" where
  "chain_search relations dst [] arrived_by seen = arrived_by"
| "chain_search relations dst (here # frontier) arrived_by seen =
     (if here = dst then arrived_by
      else case fold chain_visit (filter (\<lambda>r. rel_from r = here) relations) (frontier, arrived_by, seen) of
        (frontier', arrived_by', seen') \<Rightarrow> chain_search relations dst frontier' arrived_by' seen')"
  by pat_completeness auto

termination
proof (relation "measure (\<lambda>(relations, dst, frontier, arrived_by, seen).
    card (rel_to ` set relations - set seen) + length frontier)", goal_cases)
  case (2 relations dst here frontier arrived_by seen frontier' rest arrived_by' seen')
  then have "fold chain_visit (filter (\<lambda>r. rel_from r = here) relations) (frontier, arrived_by, seen)
      = (frontier', arrived_by', seen')" by simp
  from chain_visits_measure [OF this filter_is_subset] show ?case by simp
qed simp

text \<open>Walking back from the end; the map decides whether this loop ends.\<close>

partial_function (option) chain_back ::
    "(rstr, memory_relation) btree_map \<Rightarrow> rstr \<Rightarrow> memory_relation list \<Rightarrow> memory_relation list option" where
  "chain_back arrived_by here chain =
     (case bt_get arrived_by here of
        None \<Rightarrow> Some chain
      | Some r \<Rightarrow> chain_back arrived_by (rel_from r) (chain @ [r]))"

definition InProcessSessionMemory_chain ::
    "memory_relation list \<Rightarrow> rstr \<Rightarrow> rstr \<Rightarrow> memory_relation list option" where
  "InProcessSessionMemory_chain relations src dst =
     map_option rev (chain_back (chain_search relations dst [src] [] [src]) dst [])"

definition InProcessSessionMemory_between ::
    "memory_relation list \<Rightarrow> memory_entry list \<Rightarrow> memory_relation list" where
  "InProcessSessionMemory_between relations visible =
     (let ids = bset_of (map me_id visible) in
      filter (\<lambda>r. rel_from r \<in> set ids \<and> rel_to r \<in> set ids) relations)"

definition session_memory_remember ::
    "rstr \<Rightarrow> memory_write \<Rightarrow> rstr \<Rightarrow> session_memory \<Rightarrow> session_memory \<times> memory_write_outcome outcome" where
  "session_memory_remember scope w idempotency_key m =
     (let rem = (case bt_get m scope of None \<Rightarrow> Remembered_default | Some x \<Rightarrow> x) in
      if idempotency_key \<in> set (rem_keys rem)
      then (bt_insert scope rem m, Inr AlreadyRemembered)
      else (bt_insert scope \<lparr>rem_entries = rem_entries rem @ mw_entries w,
                             rem_relations = rem_relations rem @ mw_relations w,
                             rem_keys = bset_insert idempotency_key (rem_keys rem)\<rparr> m,
            Inr Remembered))"

definition session_memory_recall :: "session_memory \<Rightarrow> rstr \<Rightarrow> memory_recollection outcome" where
  "session_memory_recall m scope =
     (case bt_get m scope of
        None \<Rightarrow> Inr MemoryRecollection_nothing
      | Some rem \<Rightarrow> Inr (Recalled (rem_entries rem) (rem_relations rem)))"

definition session_memory_ask :: "session_memory \<Rightarrow> rstr \<Rightarrow> rstr \<Rightarrow> memory_recollection outcome" where
  "session_memory_ask m scope question = Inr Unsupported"

definition session_memory_as_known_at ::
    "session_memory \<Rightarrow> rstr \<Rightarrow> timestamp \<Rightarrow> memory_recollection outcome" where
  "session_memory_as_known_at m scope moment =
     (case bt_get m scope of
        None \<Rightarrow> Inr MemoryRecollection_nothing
      | Some rem \<Rightarrow>
          let entries = filter (\<lambda>e. mp_observed_at (me_provenance e) \<le> moment) (rem_entries rem);
              relations = InProcessSessionMemory_between (rem_relations rem) entries
          in Inr (Recalled entries relations))"

text \<open>\<open>None\<close> would be a chain that is never finished.\<close>

definition session_memory_follow ::
    "session_memory \<Rightarrow> rstr \<Rightarrow> rstr \<Rightarrow> rstr \<Rightarrow> memory_recollection outcome option" where
  "session_memory_follow m scope src dst =
     (case bt_get m scope of
        None \<Rightarrow> Some (Inr MemoryRecollection_nothing)
      | Some rem \<Rightarrow>
          map_option (\<lambda>relations. Inr (Recalled [] relations))
            (InProcessSessionMemory_chain (rem_relations rem) src dst))"

section \<open>Memory that forgets\<close>

definition forgetful_remember ::
    "rstr \<Rightarrow> memory_write \<Rightarrow> rstr \<Rightarrow> unit \<Rightarrow> unit \<times> memory_write_outcome outcome" where
  "forgetful_remember scope w idempotency_key m = (m, Inr NotRemembered)"

definition forgetful_recall :: "unit \<Rightarrow> rstr \<Rightarrow> memory_recollection outcome" where
  "forgetful_recall m scope = Inr Unsupported"

section \<open>Following reasons\<close>

text \<open>A chain of relations from one entry to another, in the order they connect.\<close>

fun is_chain :: "memory_relation list \<Rightarrow> rstr \<Rightarrow> rstr \<Rightarrow> memory_relation list \<Rightarrow> bool" where
  "is_chain relations src dst [] = (src = dst)"
| "is_chain relations src dst (r # rs) =
     (r \<in> set relations \<and> rel_from r = src \<and> is_chain relations (rel_to r) dst rs)"

lemma is_chain_snoc:
  "is_chain rels a c (rs @ [r]) \<longleftrightarrow> is_chain rels a (rel_from r) rs \<and> r \<in> set rels \<and> rel_to r = c"
  by (induction rs arbitrary: a) auto

text \<open>
  What holds between two rounds of the search, for a depth function \<open>d\<close>: the map is a tree
  rooted at the start whose edges go one level down, the queue is ordered by depth and spans
  at most two levels, and every edge out of an entry that was taken from the queue is known.
\<close>

definition search_inv ::
    "memory_relation list \<Rightarrow> rstr \<Rightarrow> rstr list \<Rightarrow> (rstr, memory_relation) btree_map \<Rightarrow> rstr btree_set
      \<Rightarrow> (rstr \<Rightarrow> nat) \<Rightarrow> bool" where
  "search_inv rels src frontier arrived seen d =
     (src \<in> set seen \<and> bt_get arrived src = None \<and> d src = 0 \<and>
      (\<forall>x. x \<in> set seen \<longrightarrow> x = src \<or> bt_get arrived x \<noteq> None) \<and>
      (\<forall>x r. bt_get arrived x = Some r \<longrightarrow>
         r \<in> set rels \<and> rel_to r = x \<and> x \<in> set seen \<and> rel_from r \<in> set seen \<and> d x = Suc (d (rel_from r))) \<and>
      set frontier \<subseteq> set seen \<and> sorted (map d frontier) \<and>
      (frontier \<noteq> [] \<longrightarrow> (\<forall>x \<in> set seen. d x \<le> Suc (d (hd frontier)))) \<and>
      (\<forall>r \<in> set rels. rel_from r \<in> set seen \<longrightarrow> rel_from r \<notin> set frontier \<longrightarrow>
         rel_to r \<in> set seen \<and> d (rel_to r) \<le> Suc (d (rel_from r))))"

lemma search_inv_start: "search_inv rels src [src] [] [src] (\<lambda>_. 0)"
  by (simp add: search_inv_def)

lemma search_inv_seen:
  assumes "search_inv rels src frontier arrived seen d"
  shows "src \<in> set seen" "bt_get arrived src = None" "d src = 0"
    and "x \<in> set seen \<Longrightarrow> x \<noteq> src \<Longrightarrow> \<exists>r. bt_get arrived x = Some r"
    and "frontier \<noteq> [] \<Longrightarrow> hd frontier \<in> set seen"
  using assms by (auto simp: search_inv_def)

lemma search_inv_tree:
  assumes "search_inv rels src frontier arrived seen d" and "bt_get arrived x = Some r"
  shows "r \<in> set rels" "rel_to r = x" "x \<in> set seen" "rel_from r \<in> set seen" "d x = Suc (d (rel_from r))"
  using assms unfolding search_inv_def by metis+

lemma search_inv_step:
  assumes inv: "search_inv rels src (here # frontier) arrived seen d"
    and step: "fold chain_visit (filter (\<lambda>r. rel_from r = here) rels) (frontier, arrived, seen) =
      (frontier', arrived', seen')"
  shows "\<exists>d'. search_inv rels src frontier' arrived' seen' d'"
proof -
  from chain_visits [OF step] obtain news where
    fr: "frontier' = frontier @ news" and new: "set news \<inter> set seen = {}"
    and seen': "set seen' = set seen \<union> set news"
    and all: "rel_to ` set (filter (\<lambda>r. rel_from r = here) rels) \<subseteq> set seen'"
    and keep: "\<And>x. x \<notin> set news \<Longrightarrow> bt_get arrived' x = bt_get arrived x"
    and via: "\<And>x. x \<in> set news \<Longrightarrow>
      \<exists>r. r \<in> set rels \<and> rel_from r = here \<and> bt_get arrived' x = Some r \<and> rel_to r = x"
    by (elim exE conjE) (rule that; auto)
  let ?d = "\<lambda>x. if x \<in> set news then Suc (d here) else d x"
  have here: "here \<in> set seen" and old: "x \<in> set seen \<Longrightarrow> ?d x = d x" for x
    using inv new by (auto simp: search_inv_def)
  have below: "d x \<le> Suc (d here)" if "x \<in> set seen" for x
    using inv that by (auto simp: search_inv_def)
  have d_fr: "d here \<le> d x" "x \<in> set seen" if "x \<in> set frontier" for x
    using inv that by (auto simp: search_inv_def)
  have tree: "r \<in> set rels \<and> rel_to r = x \<and> x \<in> set seen' \<and> rel_from r \<in> set seen' \<and>
      ?d x = Suc (?d (rel_from r))" if x: "bt_get arrived' x = Some r" for x r
  proof (cases "x \<in> set news")
    case True
    moreover have "here \<notin> set news" using here new by auto
    ultimately show ?thesis using via [OF True] x here by (auto simp: seen')
  next
    case False
    then have "bt_get arrived x = Some r" using keep x by simp
    then have "r \<in> set rels \<and> rel_to r = x \<and> x \<in> set seen \<and> rel_from r \<in> set seen \<and> d x = Suc (d (rel_from r))"
      using inv by (auto simp: search_inv_def)
    then show ?thesis using old by (auto simp: seen')
  qed
  have closed: "rel_to r \<in> set seen' \<and> ?d (rel_to r) \<le> Suc (?d (rel_from r))"
    if r: "r \<in> set rels" "rel_from r \<in> set seen'" "rel_from r \<notin> set frontier'" for r
  proof (cases "rel_from r = here")
    case True
    have "rel_to r \<in> set seen'" using all r(1) True by auto
    moreover have "?d (rel_to r) \<le> Suc (d here)"
      using below \<open>rel_to r \<in> set seen'\<close> seen' by auto
    ultimately show ?thesis using True old [OF here] by (simp only: if_True)
  next
    case False
    then have "rel_from r \<in> set seen" "rel_from r \<notin> set (here # frontier)" using r seen' fr by auto
    then have "rel_to r \<in> set seen \<and> d (rel_to r) \<le> Suc (d (rel_from r))"
      using inv r(1) by (auto simp: search_inv_def)
    then show ?thesis using old \<open>rel_from r \<in> set seen\<close> seen' by auto
  qed
  have "map ?d frontier = map d frontier" using d_fr(2) old by (intro map_cong) auto
  moreover have "sorted (map d frontier)" using inv by (simp add: search_inv_def)
  ultimately have "sorted (map ?d frontier)" by (simp only:)
  moreover have "sorted (map ?d news)" by (simp add: sorted_iff_nth_mono)
  ultimately have srt: "sorted (map ?d frontier')"
    using d_fr(2) below by (auto simp: fr sorted_append)
  have span: "?d x \<le> Suc (?d (hd frontier'))" if ne: "frontier' \<noteq> []" and x: "x \<in> set seen'" for x
  proof -
    have "hd frontier' \<in> set frontier'" using ne by simp
    then have "d here \<le> ?d (hd frontier')" using d_fr old fr by auto
    moreover have "?d x \<le> Suc (d here)" using x below seen' by auto
    ultimately show ?thesis by linarith
  qed
  have src: "src \<in> set seen'" "bt_get arrived' src = None" "?d src = 0"
    using inv new keep [of src] by (auto simp: search_inv_def seen')
  have reached: "x = src \<or> bt_get arrived' x \<noteq> None" if "x \<in> set seen'" for x
  proof (cases "x \<in> set news")
    case True
    then show ?thesis using via by auto
  next
    case False
    then show ?thesis using that search_inv_seen(4) [OF inv, of x] keep [of x] by (auto simp: seen')
  qed
  have "set frontier' \<subseteq> set seen'" using d_fr(2) fr seen' by auto
  with src reached tree srt span closed show ?thesis
    unfolding search_inv_def by (intro exI [of _ ?d]) blast
qed

text \<open>
  The search ends with such a state in which either the queue is empty or the wanted entry
  is at its head.
\<close>

lemma search_ends:
  assumes "search_inv rels src frontier arrived seen d"
  shows "\<exists>frontier' seen' d'. search_inv rels src frontier' (chain_search rels dst frontier arrived seen) seen' d' \<and>
    (frontier' = [] \<or> hd frontier' = dst)"
  using assms
proof (induction rels dst frontier arrived seen arbitrary: d rule: chain_search.induct)
  case (1 relations dst arrived_by seen)
  then show ?case by fastforce
next
  case (2 relations dst here frontier arrived_by seen)
  show ?case
  proof (cases "here = dst")
    case True
    then show ?thesis using "2.prems" by fastforce
  next
    case False
    obtain f a s where step: "fold chain_visit (filter (\<lambda>r. rel_from r = here) relations) (frontier, arrived_by, seen) =
        (f, a, s)" by (metis prod_cases3)
    from search_inv_step [OF "2.prems" step] obtain d' where "search_inv relations src f a s d'" ..
    from "2.IH" [OF False step [symmetric] refl this] show ?thesis using False step by simp
  qed
qed

text \<open>No chain reaches an entry above its depth, unless the search stopped before it.\<close>

lemma search_inv_depth:
  assumes inv: "search_inv rels src frontier arrived seen d" and "is_chain rels src x c"
  shows "x \<in> set seen \<and> d x \<le> length c \<or> frontier \<noteq> [] \<and> d (hd frontier) \<le> length c"
  using assms(2)
proof (induction c arbitrary: x rule: rev_induct)
  case Nil
  then show ?case using inv by (simp add: search_inv_def)
next
  case (snoc r c)
  then have c: "is_chain rels src (rel_from r) c" and r: "r \<in> set rels" "rel_to r = x"
    by (auto simp: is_chain_snoc)
  have hd: "d (hd frontier) \<le> d y" if "y \<in> set frontier" for y
    using inv that by (cases frontier) (auto simp: search_inv_def)
  have closed: "x \<in> set seen \<and> d x \<le> Suc (d (rel_from r))"
    if "rel_from r \<in> set seen" "rel_from r \<notin> set frontier"
    using inv r that by (auto simp: search_inv_def)
  from snoc.IH [OF c] show ?case
  proof
    assume *: "rel_from r \<in> set seen \<and> d (rel_from r) \<le> length c"
    show ?thesis
    proof (cases "rel_from r \<in> set frontier")
      case True
      then show ?thesis using hd [OF True] * by (cases frontier) auto
    next
      case False
      then show ?thesis using closed * by auto
    qed
  qed auto
qed

text \<open>Walking back through the tree returns a chain as long as the depth.\<close>

lemma chain_back_tree:
  assumes inv: "search_inv rels src frontier arrived seen d" and "x \<in> set seen"
  shows "\<exists>c. chain_back arrived x acc = Some (acc @ rev c) \<and> is_chain rels src x c \<and> length c = d x"
  using assms(2)
proof (induction "d x" arbitrary: x acc)
  case 0
  have none: "bt_get arrived x = None"
    using search_inv_tree(5) [OF inv] 0(1) by (cases "bt_get arrived x") auto
  then have "x = src" using search_inv_seen(4) [OF inv 0(2)] by auto
  then show ?case using none search_inv_seen(3) [OF inv]
    by (subst chain_back.simps) (simp add: exI [of _ "[]"])
next
  case (Suc n)
  then have "x \<noteq> src" using search_inv_seen(3) [OF inv] by auto
  then obtain r where r: "bt_get arrived x = Some r" using search_inv_seen(4) [OF inv] Suc.prems by auto
  note props = search_inv_tree(1,2,4,5) [OF inv r]
  then have "n = d (rel_from r)" using Suc.hyps(2) by simp
  from Suc.hyps(1) [OF this props(3), of "acc @ [r]"] obtain c where
    c: "chain_back arrived (rel_from r) (acc @ [r]) = Some ((acc @ [r]) @ rev c)"
    "is_chain rels src (rel_from r) c" "length c = d (rel_from r)" by blast
  then show ?case using r props
    by (subst chain_back.simps) (simp add: is_chain_snoc exI [of _ "c @ [r]"])
qed

text \<open>
  Following reasons: the search for the reasons between two entries always ends.  When the
  two are connected it returns a chain of recorded relations that connects them in order, and no
  chain is shorter; when they are not connected it returns the empty chain.
\<close>

theorem memory_chain_shortest:
  "\<exists>c. InProcessSessionMemory_chain rels src dst = Some c \<and>
     (if \<exists>c'. is_chain rels src dst c'
      then is_chain rels src dst c \<and> (\<forall>c'. is_chain rels src dst c' \<longrightarrow> length c \<le> length c')
      else c = [])"
proof -
  from search_ends [OF search_inv_start, of rels src dst] obtain fr seen d where
    inv: "search_inv rels src fr (chain_search rels dst [src] [] [src]) seen d"
    and fin: "fr = [] \<or> hd fr = dst" by blast
  let ?arr = "chain_search rels dst [src] [] [src]"
  have least: "dst \<in> set seen \<and> d dst \<le> length c'" if "is_chain rels src dst c'" for c'
    using search_inv_depth [OF inv that] fin search_inv_seen(5) [OF inv] by auto
  show ?thesis
  proof (cases "dst \<in> set seen")
    case True
    from chain_back_tree [OF inv True, of "[]"] obtain c where
      "chain_back ?arr dst [] = Some (rev c)" "is_chain rels src dst c" "length c = d dst" by auto
    then show ?thesis using least by (auto simp: InProcessSessionMemory_chain_def)
  next
    case False
    then have "bt_get ?arr dst = None" using search_inv_tree(3) [OF inv] by (cases "bt_get ?arr dst") auto
    then have "chain_back ?arr dst [] = Some []" by (subst chain_back.simps) simp
    then show ?thesis using least False by (auto simp: InProcessSessionMemory_chain_def)
  qed
qed

definition demo_relation :: "string \<Rightarrow> string \<Rightarrow> memory_relation" where
  "demo_relation a b = \<lparr>rel_from = lit a, rel_to = lit b, rel_kind = Rel_FollowsFrom, rel_why = lit ''w'',
     rel_confidence = High\<rparr>"

definition demo_relations :: "memory_relation list" where
  "demo_relations = [demo_relation ''a'' ''b'', demo_relation ''b'' ''c'', demo_relation ''a'' ''c'',
     demo_relation ''c'' ''a'']"

theorem memory_chain_shortest_witness:
  "InProcessSessionMemory_chain demo_relations (lit ''a'') (lit ''c'') = Some [demo_relation ''a'' ''c'']"
proof -
  have direct: "is_chain demo_relations (lit ''a'') (lit ''c'') [demo_relation ''a'' ''c'']"
    by (simp add: demo_relations_def demo_relation_def)
  from memory_chain_shortest [of demo_relations "lit ''a''" "lit ''c''"] direct obtain c where
    c: "InProcessSessionMemory_chain demo_relations (lit ''a'') (lit ''c'') = Some c"
    "is_chain demo_relations (lit ''a'') (lit ''c'') c" "length c \<le> 1"
    by (metis One_nat_def length_Cons list.size(3))
  then have "c = [demo_relation ''a'' ''c'']"
    by (cases c) (auto simp: demo_relations_def demo_relation_def lit_def)
  with c(1) show ?thesis by simp
qed

section \<open>Writing and reading\<close>

text \<open>What a scope holds; a scope that was never written holds nothing.\<close>

definition memory_at :: "session_memory \<Rightarrow> rstr \<Rightarrow> remembered" where
  "memory_at m scope = (case bt_get m scope of None \<Rightarrow> Remembered_default | Some rem \<Rightarrow> rem)"

lemma remember_at:
  "memory_at (fst (session_memory_remember scope w key m)) k =
     (if k = scope \<and> key \<notin> set (rem_keys (memory_at m scope))
      then \<lparr>rem_entries = rem_entries (memory_at m scope) @ mw_entries w,
            rem_relations = rem_relations (memory_at m scope) @ mw_relations w,
            rem_keys = bset_insert key (rem_keys (memory_at m scope))\<rparr>
      else memory_at m k)"
  by (auto simp: memory_at_def session_memory_remember_def Let_def)

lemma remember_key_kept:
  "key' \<in> set (rem_keys (memory_at m k)) \<Longrightarrow>
     key' \<in> set (rem_keys (memory_at (fst (session_memory_remember scope w key m)) k))"
  by (auto simp: remember_at)

text \<open>The conformance question of the writer port: the same key twice is one write.\<close>

lemma remember_again:
  assumes "session_memory_remember scope w key m = (m', Inr out)"
    and "(\<lambda>a b. \<exists>s w k. b = fst (session_memory_remember s w k a))\<^sup>*\<^sup>* m' m''"
  shows "snd (session_memory_remember scope w' key m'') = Inr AlreadyRemembered"
    and "memory_at (fst (session_memory_remember scope w' key m'')) k = memory_at m'' k"
proof -
  have "key \<in> set (rem_keys (memory_at m' scope))"
    using assms(1) remember_at [of scope w key m scope] by (auto split: if_splits)
  then have key: "key \<in> set (rem_keys (memory_at m'' scope))"
    using assms(2) by (induction rule: rtranclp_induct [OF assms(2)]) (auto intro: remember_key_kept)
  then show "snd (session_memory_remember scope w' key m'') = Inr AlreadyRemembered"
    by (simp add: session_memory_remember_def Let_def memory_at_def)
  show "memory_at (fst (session_memory_remember scope w' key m'')) k = memory_at m'' k"
    using key by (simp add: remember_at)
qed

lemma as_known_at_recall:
  "session_memory_as_known_at m scope moment = Inr (Recalled
     (filter (\<lambda>e. mp_observed_at (me_provenance e) \<le> moment) (rem_entries (memory_at m scope)))
     (InProcessSessionMemory_between (rem_relations (memory_at m scope))
       (filter (\<lambda>e. mp_observed_at (me_provenance e) \<le> moment) (rem_entries (memory_at m scope)))))"
  by (simp add: session_memory_as_known_at_def memory_at_def Remembered_default_def
      InProcessSessionMemory_between_def MemoryRecollection_nothing_def Let_def split: option.split)

text \<open>
  Reading memory as of a moment: exactly the entries observed by then come back, in the
  order they were written; every relation that comes back was recorded and connects two of
  them, and every recorded relation between two of them comes back; and a later moment never
  shows less.
\<close>

theorem memory_as_known_at_exact:
  assumes "session_memory_recall m scope = Inr (Recalled all_entries all_relations)"
  shows "\<exists>entries relations. session_memory_as_known_at m scope moment = Inr (Recalled entries relations) \<and>
    entries = filter (\<lambda>e. mp_observed_at (me_provenance e) \<le> moment) all_entries \<and>
    set relations = {r \<in> set all_relations. rel_from r \<in> me_id ` set entries \<and> rel_to r \<in> me_id ` set entries} \<and>
    (\<forall>later \<ge> moment. \<exists>entries' relations'.
       session_memory_as_known_at m scope later = Inr (Recalled entries' relations') \<and>
       set entries \<subseteq> set entries' \<and> set relations \<subseteq> set relations')"
proof -
  have all: "all_entries = rem_entries (memory_at m scope)" "all_relations = rem_relations (memory_at m scope)"
    using assms by (auto simp: session_memory_recall_def memory_at_def Remembered_default_def
        MemoryRecollection_nothing_def split: option.splits)
  show ?thesis
    by (auto simp: as_known_at_recall all InProcessSessionMemory_between_def Let_def)
qed

definition demo_memory :: session_memory where
  "demo_memory = fst (session_memory_remember (lit ''s'')
     \<lparr>mw_entries = [\<lparr>me_id = lit ''a'', me_kind = Decision, me_summary = lit ''x'', me_dimension = None,
         me_provenance = \<lparr>mp_ceremony_id = lit ''c1'', mp_role_id = None, mp_observed_at = 5\<rparr>,
         me_evidence = [], me_detail = []\<rparr>],
      mw_relations = demo_relations\<rparr> (lit ''k'') [])"

theorem memory_as_known_at_exact_witness:
  "session_memory_as_known_at demo_memory (lit ''s'') 4 = Inr (Recalled [] [])"
proof -
  obtain es rs where recall: "session_memory_recall demo_memory (lit ''s'') = Inr (Recalled es rs)"
    and es: "\<forall>e \<in> set es. mp_observed_at (me_provenance e) = 5"
    by (simp add: session_memory_recall_def demo_memory_def session_memory_remember_def Remembered_default_def)
  from memory_as_known_at_exact [OF recall, of 4] es show ?thesis by auto
qed

end
