(* ===== verification/Memory_Projection.thy ===== *)
theory Memory_Projection
  imports Session_Memory Session_Facts
begin

text \<open>
  From session records to memory: the projection
  (\<open>choreo-app/src/services/session_memory_projection.rs\<close>) and the recorder that decides when to
  write (\<open>session_memory_recorder.rs\<close>).  The memory port is a parameter \<open>remember\<close>; a write that
  cannot be projected or is refused leaves the memory as it was, as in the source, where it is only
  logged.  Shown here: the keys under which records are written tell them apart, and what that
  means for a guard that was deferred before it was approved.
\<close>

section \<open>Projection\<close>

fun record_text :: "ceremony_record_ref \<Rightarrow> rstr" where
  "record_text (Ref_Step sid) = lit ''step:'' @ sid"
| "record_text (Ref_AgendaItem agenda_item) = lit ''agenda:'' @ agenda_item"
| "record_text (Ref_Contribution agenda_item ordinal) =
     lit ''agenda:'' @ agenda_item @ lit '':contribution:'' @ display_nat (unat ordinal)"
| "record_text (Ref_GuardDecision name) = lit ''guard:'' @ name"
| "record_text (Ref_Transition ordinal) = lit ''transition:'' @ display_nat (unat ordinal)"

definition memory_entry_id :: "ceremony_record_ref \<Rightarrow> rstr outcome" where
  "memory_entry_id r = MemoryEntryId_new (record_text r)"

fun relation_kind :: "ceremony_reason_kind \<Rightarrow> memory_relation_kind" where
  "relation_kind Answers = Rel_Answers"
| "relation_kind Authorizes = Rel_Authorizes"
| "relation_kind ChosenBecause = Rel_ChosenBecause"
| "relation_kind AchievedBy = Rel_AchievedBy"
| "relation_kind FollowsFrom = Rel_FollowsFrom"
| "relation_kind SatisfiesConstraint = Rel_SatisfiesConstraint"
| "relation_kind ViolatesConstraint = Rel_ViolatesConstraint"
| "relation_kind Supersedes = Rel_Supersedes"
| "relation_kind Contradicts = Rel_Contradicts"

definition provenance :: "ceremony_instance \<Rightarrow> rstr option \<Rightarrow> timestamp \<Rightarrow> memory_provenance" where
  "provenance i rid observed_at =
     \<lparr>mp_ceremony_id = inst_id i, mp_role_id = rid, mp_observed_at = observed_at\<rparr>"

definition evidence_references ::
    "ceremony_intervention_response \<Rightarrow> memory_evidence list outcome" where
  "evidence_references response =
     (case resp_evidence_pack response of
        None \<Rightarrow> Inr []
      | Some pack \<Rightarrow>
          try_map (\<lambda>item.
            and_then (Attributes_new [(lit ''item_id'', JString (item_id item)),
                                      (lit ''kind'', JString (item_kind item))]) (\<lambda>detail.
            MemoryEvidence_new (item_title item) (Some (pack_source_id pack)) detail))
          (bundle_items (pack_bundle pack)))"

definition contribution_entry ::
    "ceremony_instance \<Rightarrow> ceremony_record_ref \<Rightarrow> memory_entry option outcome" where
  "contribution_entry i r =
     (case r of
        Ref_Contribution agenda_item ordinal \<Rightarrow>
          (case CeremonyInstance_intervention i agenda_item of
             None \<Rightarrow> Inr None
           | Some item \<Rightarrow>
               if \<not> unat ordinal < length (int_responses item) then Inr None
               else
                 let response = int_responses item ! unat ordinal;
                     k = (case int_kind item of Investigation \<Rightarrow> Observation | _ \<Rightarrow> Decision) in
                 and_then (memory_entry_id r) (\<lambda>eid.
                 and_then (MemoryDimension_new (lit ''agenda:'' @ agenda_item)) (\<lambda>dimension.
                 and_then (MemoryEntry_new eid k (content_message (resp_content response)) (Some dimension)
                   (provenance i (Some (resp_role_id response)) (resp_responded_at response)) []) (\<lambda>entry.
                 and_then (evidence_references response) (\<lambda>evidence.
                 Inr (Some (MemoryEntry_with_evidence entry evidence)))))))
      | _ \<Rightarrow> Inr None)"

definition approval_entry ::
    "ceremony_instance \<Rightarrow> ceremony_record_ref \<Rightarrow> ceremony_guard_approval \<Rightarrow> memory_entry outcome" where
  "approval_entry i r approval =
     and_then (memory_entry_id r) (\<lambda>eid.
     MemoryEntry_new eid Decision (lit ''`'' @ approval_guard_name approval @ lit ''` was approved'') None
       (provenance i (Some (approval_approved_by approval)) (approval_approved_at approval)) [])"

text \<open>\<open>join("; ")\<close>; the dash of the summary is U+2014.\<close>

fun join_semicolon :: "rstr list \<Rightarrow> rstr" where
  "join_semicolon [] = []"
| "join_semicolon [s] = s"
| "join_semicolon (s # t # ts) = s @ lit ''; '' @ join_semicolon (t # ts)"

definition deferral_entry ::
    "ceremony_instance \<Rightarrow> ceremony_record_ref \<Rightarrow> ceremony_guard_deferral \<Rightarrow> memory_entry outcome" where
  "deferral_entry i r deferral =
     (let summary = lit ''`'' @ deferral_guard_name deferral @ lit ''` was not decided: '' @
            deferral_reason (deferral_content deferral) @ lit '' '' @ [8212] @
            lit '' worth revisiting when '' @
            join_semicolon (deferral_reconsider_when (deferral_content deferral)) in
      and_then (memory_entry_id r) (\<lambda>eid.
      MemoryEntry_new eid Constraint summary None
        (provenance i (Some (deferral_deferred_by deferral)) (deferral_deferred_at deferral)) []))"

definition guard_entry ::
    "ceremony_instance \<Rightarrow> ceremony_record_ref \<Rightarrow> memory_entry option outcome" where
  "guard_entry i r =
     (case r of
        Ref_GuardDecision name \<Rightarrow>
          (case find (\<lambda>a. approval_guard_name a = name) (inst_guard_approvals i) of
             Some approval \<Rightarrow> map_ok Some (approval_entry i r approval)
           | None \<Rightarrow>
               (case find (\<lambda>x. deferral_guard_name x = name) (inst_guard_deferrals i) of
                  Some deferral \<Rightarrow> map_ok Some (deferral_entry i r deferral)
                | None \<Rightarrow> Inr None))
      | _ \<Rightarrow> Inr None)"

definition ending_entry ::
    "ceremony_instance \<Rightarrow> ceremony_definition \<Rightarrow> (ceremony_record_ref \<times> memory_entry) option outcome" where
  "ending_entry i d =
     (let n = length (inst_transitions i) in
      if \<not> CeremonyInstance_is_terminal i d then Inr None
      else if \<not> (0 < n \<and> n < 2 ^ 32) then Inr None
      else
        let ending = last (inst_transitions i);
            summary = lit ''the session finished in `'' @ trec_to_state ending @ lit ''`'';
            r = Ref_Transition (word_of_nat n) in
        and_then (memory_entry_id r) (\<lambda>eid.
        and_then (MemoryEntry_new eid Outcome summary None
          (provenance i (trec_applied_by ending) (trec_applied_at ending)) []) (\<lambda>entry.
        Inr (Some (r, entry)))))"

definition memory_relation_of ::
    "ceremony_reason \<Rightarrow> (ceremony_record_ref \<Rightarrow> bool) \<Rightarrow> memory_relation option outcome" where
  "memory_relation_of reason is_remembered =
     (if \<not> is_remembered (reason_from reason) \<or> \<not> is_remembered (reason_to reason) then Inr None
      else
        and_then (memory_entry_id (reason_from reason)) (\<lambda>src.
        and_then (memory_entry_id (reason_to reason)) (\<lambda>dst.
        map_ok Some (MemoryRelation_new src dst (relation_kind (reason_kind reason)) (reason_why reason)
          (reason_confidence reason)))))"

section \<open>Recorder\<close>

type_synonym 'm memory_writer = "rstr \<Rightarrow> memory_write \<Rightarrow> rstr \<Rightarrow> 'm \<Rightarrow> 'm \<times> memory_write_outcome outcome"

definition write_with_key ::
    "'m memory_writer \<Rightarrow> ceremony_instance \<Rightarrow> memory_write outcome \<Rightarrow> rstr \<Rightarrow> 'm \<Rightarrow> 'm" where
  "write_with_key remember i w discriminator m =
     (case and_then w (\<lambda>w'.
           and_then (MemoryScope_of_ceremony (inst_id i)) (\<lambda>scope.
           and_then (MemoryProvenance_idempotency_key (provenance i None (inst_updated_at i)) discriminator)
             (\<lambda>key. Inr (scope, w', key)))) of
        Inl _ \<Rightarrow> m
      | Inr (scope, w', key) \<Rightarrow> fst (remember scope w' key m))"

definition write_record ::
    "'m memory_writer \<Rightarrow> ceremony_instance \<Rightarrow> memory_write outcome \<Rightarrow> ceremony_record_ref \<Rightarrow> 'm \<Rightarrow> 'm" where
  "write_record remember i w r m =
     (case memory_entry_id r of
        Inl _ \<Rightarrow> m
      | Inr eid \<Rightarrow> write_with_key remember i w eid m)"

definition remember_contribution ::
    "'m memory_writer \<Rightarrow> ceremony_instance \<Rightarrow> rstr \<Rightarrow> 'm \<Rightarrow> 'm" where
  "remember_contribution remember i agenda_item m =
     (case CeremonyInstance_intervention i agenda_item of
        None \<Rightarrow> m
      | Some item \<Rightarrow>
          let n = length (int_responses item) in
          if n = 0 \<or> 2 ^ 32 \<le> n - 1 then m
          else
            let r = Ref_Contribution agenda_item (word_of_nat (n - 1)) in
            (case contribution_entry i r of
               Inr (Some entry) \<Rightarrow> write_record remember i (MemoryWrite_unexplained [entry]) r m
             | _ \<Rightarrow> m))"

definition remember_guard_decision ::
    "'m memory_writer \<Rightarrow> ceremony_instance \<Rightarrow> ceremony_record_ref \<Rightarrow> 'm \<Rightarrow> 'm" where
  "remember_guard_decision remember i r m =
     (case guard_entry i r of
        Inr (Some entry) \<Rightarrow> write_record remember i (MemoryWrite_unexplained [entry]) r m
      | _ \<Rightarrow> m)"

definition remember_ending ::
    "'m memory_writer \<Rightarrow> ceremony_instance \<Rightarrow> ceremony_definition \<Rightarrow> 'm \<Rightarrow> 'm" where
  "remember_ending remember i d m =
     (case ending_entry i d of
        Inr (Some (r, entry)) \<Rightarrow> write_record remember i (MemoryWrite_unexplained [entry]) r m
      | _ \<Rightarrow> m)"

definition is_remembered :: "ceremony_instance \<Rightarrow> ceremony_record_ref \<Rightarrow> bool" where
  "is_remembered i r =
     (case r of
        Ref_Contribution _ _ \<Rightarrow> (case contribution_entry i r of Inr (Some _) \<Rightarrow> True | _ \<Rightarrow> False)
      | Ref_GuardDecision _ \<Rightarrow> (case guard_entry i r of Inr (Some _) \<Rightarrow> True | _ \<Rightarrow> False)
      | Ref_Transition ordinal \<Rightarrow>
          unat ordinal = length (inst_transitions i) \<and> inst_completed_at i \<noteq> None
      | Ref_Step _ \<Rightarrow> False
      | Ref_AgendaItem _ \<Rightarrow> False)"

definition remember_reason ::
    "'m memory_writer \<Rightarrow> ceremony_instance \<Rightarrow> nat \<Rightarrow> 'm \<Rightarrow> 'm" where
  "remember_reason remember i ordinal m =
     (if \<not> ordinal < length (inst_reasons i) then m
      else
        (case memory_relation_of (inst_reasons i ! ordinal) (is_remembered i) of
           Inr (Some relation) \<Rightarrow>
             write_with_key remember i (MemoryWrite_reasons_only [relation])
               (lit ''reason:'' @ display_nat ordinal) m
         | _ \<Rightarrow> m))"

section \<open>Keys\<close>

lemma checked_chars_eq_Inr:
  "checked_chars field n bad raw = Inr s \<longleftrightarrow>
     s = trim raw \<and> s \<noteq> [] \<and> length s \<le> n \<and> (\<forall>c \<in> set s. \<not> bad c)"
  by (auto simp: checked_chars_def Let_def list_ex_iff)

text \<open>The records that become entries, with the names their constructors accept.\<close>

fun memorable :: "ceremony_record_ref \<Rightarrow> bool" where
  "memorable (Ref_Contribution agenda_item _) = tight agenda_item"
| "memorable (Ref_GuardDecision name) = tight name"
| "memorable (Ref_Transition _) = True"
| "memorable _ = False"

lemma display_nat_tight: "tight (display_nat n)"
proof -
  have "hd (display_nat n) \<in> set (display_nat n)" "last (display_nat n) \<in> set (display_nat n)" by simp_all
  then have "is_ascii_digit (hd (display_nat n))" "is_ascii_digit (last (display_nat n))"
    using display_nat_digits by blast+
  then show ?thesis by (auto simp: tight_def is_ascii_digit_def is_whitespace_def)
qed

lemma memorable_tight: "memorable r \<Longrightarrow> tight (record_text r)"
  using display_nat_tight
  by (cases r rule: memorable.cases) (auto simp: tight_def lit_def is_whitespace_def)

lemma contribution_text_inject:
  assumes "a @ lit '':contribution:'' @ display_nat m = b @ lit '':contribution:'' @ display_nat n"
  shows "a = b \<and> m = n"
proof -
  have l: "lit '':contribution:'' = 58 # lit ''contribution'' @ [58]" by (simp add: lit_def)
  have "rev (display_nat m) @ 58 # rev (lit ''contribution'') @ 58 # rev a =
      rev (display_nat n) @ 58 # rev (lit ''contribution'') @ 58 # rev b"
    using arg_cong [OF assms, of rev] by (simp add: l)
  from split_at_mark [OF this] display_nat_no_colon
  have "rev (display_nat m) = rev (display_nat n)" "rev a = rev b" by auto
  then show ?thesis by simp
qed

lemma record_text_inject:
  assumes "record_text r = record_text r'" and "memorable r" and "memorable r'"
  shows "r = r'"
proof (cases r rule: memorable.cases)
  case (1 a m)
  with assms obtain b n where r': "r' = Ref_Contribution b n"
    by (cases r' rule: memorable.cases) (auto simp: lit_def)
  have "a = b \<and> unat m = unat n"
    by (rule contribution_text_inject) (use assms(1) in \<open>simp add: 1 r'\<close>)
  then show ?thesis by (simp add: 1 r' word_unat_eq_iff)
next
  case (2 a)
  with assms obtain b where "r' = Ref_GuardDecision b"
    by (cases r' rule: memorable.cases) (auto simp: lit_def)
  then show ?thesis using assms(1) 2 by simp
next
  case (3 m)
  with assms obtain n where "r' = Ref_Transition n"
    by (cases r' rule: memorable.cases) (auto simp: lit_def)
  then show ?thesis using assms(1) 3 by (simp add: word_unat_eq_iff)
qed (use assms in auto)

lemma memory_entry_id_inject:
  assumes "memory_entry_id r = Inr e" and "memory_entry_id r' = Inr e" and "memorable r" and "memorable r'"
  shows "r = r'"
  using assms record_text_inject tight_trim [OF memorable_tight]
  by (simp add: memory_entry_id_def MemoryEntryId_new_def checked_chars_eq_Inr)

section \<open>What reaches the memory in the process\<close>

text \<open>The key of a write depends on the session's id and the record only.\<close>

definition record_key :: "rstr \<Rightarrow> rstr \<Rightarrow> rstr" where
  "record_key cid eid = lit ''remember:'' @ cid @ lit '':'' @ trim eid"

lemma write_record_eq:
  assumes "memory_entry_id r = Inr eid" and "MemoryScope_of_ceremony (inst_id i) = Inr scope"
  shows "write_record remember i (Inr w) r m = fst (remember scope w (record_key (inst_id i) eid) m)"
proof -
  have "trim eid = eid" "eid \<noteq> []"
    using assms(1) by (auto simp: memory_entry_id_def MemoryEntryId_new_def checked_chars_eq_Inr)
  then show ?thesis
    by (simp add: write_record_def assms write_with_key_def MemoryProvenance_idempotency_key_def
        provenance_def record_key_def)
qed

lemma unexplained_one [simp]: "MemoryWrite_unexplained [e] = Inr \<lparr>mw_entries = [e], mw_relations = []\<rparr>"
  by (simp add: MemoryWrite_unexplained_def MemoryWrite_new_def)

lemma guard_entry_id:
  "guard_entry i r = Inr (Some e) \<Longrightarrow> \<exists>eid. memory_entry_id r = Inr eid \<and> me_id e = eid"
  by (auto simp: guard_entry_def approval_entry_def deferral_entry_def MemoryEntry_new_def result_simps Let_def
      split: ceremony_record_ref.splits option.splits)

lemma remember_guard_decision_eq:
  assumes "guard_entry i r = Inr (Some e)" and "MemoryScope_of_ceremony (inst_id i) = Inr scope"
  shows "remember_guard_decision remember i r m =
    fst (remember scope \<lparr>mw_entries = [e], mw_relations = []\<rparr> (record_key (inst_id i) (me_id e)) m)"
  using guard_entry_id [OF assms(1)] write_record_eq [OF _ assms(2)]
  by (auto simp: remember_guard_decision_def assms(1))

text \<open>
  What memory keeps of a guard: the first decision on a guard that a session remembers is
  the only one.  Once a decision on the guard has been written, a later decision of the same
  session on the same guard (in particular the approval that follows a deferral) changes
  nothing in the memory, whatever else was remembered in between.
\<close>

theorem first_guard_decision_remembered:
  assumes "guard_entry i (Ref_GuardDecision name) = Inr (Some e)"
    and "MemoryScope_of_ceremony (inst_id i) = Inr scope" and "inst_id j = inst_id i"
    and "(\<lambda>a b. \<exists>s w k. b = fst (session_memory_remember s w k a))\<^sup>*\<^sup>*
      (remember_guard_decision session_memory_remember i (Ref_GuardDecision name) m) m'"
  shows "memory_at (remember_guard_decision session_memory_remember j (Ref_GuardDecision name) m') s =
    memory_at m' s"
proof (cases "\<exists>e'. guard_entry j (Ref_GuardDecision name) = Inr (Some e')")
  case False
  then show ?thesis by (auto simp: remember_guard_decision_def split: sum.splits option.splits)
next
  case True
  then obtain e' where e': "guard_entry j (Ref_GuardDecision name) = Inr (Some e')" ..
  have same: "me_id e' = me_id e" using guard_entry_id [OF assms(1)] guard_entry_id [OF e'] by auto
  let ?w = "\<lparr>mw_entries = [e], mw_relations = []\<rparr>" and ?key = "record_key (inst_id i) (me_id e)"
  have "\<exists>m1 out. session_memory_remember scope ?w ?key m = (m1, Inr out)"
    by (simp add: session_memory_remember_def Let_def)
  then obtain m1 out where first: "session_memory_remember scope ?w ?key m = (m1, Inr out)" by blast
  have "remember_guard_decision session_memory_remember i (Ref_GuardDecision name) m = m1"
    by (simp add: remember_guard_decision_eq [OF assms(1,2)] first)
  with assms(4) have path: "(\<lambda>a b. \<exists>s w k. b = fst (session_memory_remember s w k a))\<^sup>*\<^sup>* m1 m'" by simp
  have scope: "MemoryScope_of_ceremony (inst_id j) = Inr scope" using assms(2,3) by simp
  show ?thesis
    by (simp add: remember_guard_decision_eq [OF e' scope] same assms(3) remember_again(2) [OF first path])
qed

definition demo_deferral :: ceremony_guard_deferral where
  "demo_deferral = \<lparr>deferral_guard_name = lit ''ok'', deferral_deferred_by = lit ''host'',
     deferral_deferred_by_kind = Human,
     deferral_content = \<lparr>deferral_statement = lit ''no'', deferral_reason = lit ''r'',
       deferral_reconsider_when = [lit ''x'']\<rparr>, deferral_deferred_at = 5\<rparr>"

definition demo_deferred :: ceremony_instance where
  "demo_deferred = demo_opened\<lparr>inst_guard_deferrals := [demo_deferral]\<rparr>"

definition demo_approved_later :: ceremony_instance where
  "demo_approved_later = demo_deferred\<lparr>inst_guard_approvals := [\<lparr>approval_guard_name = lit ''ok'',
     approval_approved_by = lit ''host'', approval_approved_by_kind = Human, approval_approved_at = 6\<rparr>]\<rparr>"

lemma checked_chars_ok:
  "tight s \<Longrightarrow> length s \<le> n \<Longrightarrow> \<forall>c \<in> set s. \<not> bad c \<Longrightarrow> checked_chars field n bad s = Inr s"
  by (simp add: checked_chars_eq_Inr tight_trim) (simp add: tight_def)

lemma demo_guard_entry: "\<exists>e. guard_entry demo_deferred (Ref_GuardDecision (lit ''ok'')) = Inr (Some e)"
proof -
  have eid: "memory_entry_id (Ref_GuardDecision (lit ''ok'')) = Inr (lit ''guard:ok'')"
    unfolding memory_entry_id_def MemoryEntryId_new_def record_text.simps lit_append [symmetric]
    by (simp, rule checked_chars_ok) (simp_all add: tight_def lit_def is_whitespace_def is_control_def)
  have summary: "checked_chars ''memory_entry.summary'' 2048 no_char
      (lit ''`'' @ lit ''ok'' @ lit ''` was not decided: '' @ lit ''r'' @ lit '' '' @ 8212 #
        lit '' worth revisiting when '' @ lit ''x'') =
      Inr (lit ''`'' @ lit ''ok'' @ lit ''` was not decided: '' @ lit ''r'' @ lit '' '' @ 8212 #
        lit '' worth revisiting when '' @ lit ''x'')"
    by (rule checked_chars_ok) (simp_all add: tight_def lit_def is_whitespace_def no_char_def)
  show ?thesis
    by (simp add: guard_entry_def demo_deferred_def demo_deferral_def deferral_entry_def eid
        MemoryEntry_new_def Let_def summary)
qed

theorem first_guard_decision_remembered_witness:
  "memory_at (remember_guard_decision session_memory_remember demo_approved_later (Ref_GuardDecision (lit ''ok''))
     (remember_guard_decision session_memory_remember demo_deferred (Ref_GuardDecision (lit ''ok'')) [])) =
   memory_at (remember_guard_decision session_memory_remember demo_deferred (Ref_GuardDecision (lit ''ok'')) [])"
proof
  fix s
  obtain e where e: "guard_entry demo_deferred (Ref_GuardDecision (lit ''ok'')) = Inr (Some e)"
    using demo_guard_entry ..
  have scope: "MemoryScope_of_ceremony (inst_id demo_deferred) = Inr (lit ''ceremony:c1'')"
    unfolding MemoryScope_of_ceremony_def MemoryScope_new_def demo_deferred_def
    by (simp add: demo_opened_id flip: lit_append, rule checked_chars_ok)
      (simp_all add: tight_def lit_def is_whitespace_def is_control_def)
  from first_guard_decision_remembered [OF e scope _ rtranclp.rtrancl_refl, of demo_approved_later "[]" s]
  show "memory_at (remember_guard_decision session_memory_remember demo_approved_later (Ref_GuardDecision (lit ''ok''))
     (remember_guard_decision session_memory_remember demo_deferred (Ref_GuardDecision (lit ''ok'')) [])) s =
   memory_at (remember_guard_decision session_memory_remember demo_deferred (Ref_GuardDecision (lit ''ok'')) []) s"
    by (simp add: demo_approved_later_def)
qed

end
