(* ===== verification/Session_Use_Cases.thy ===== *)
theory Session_Use_Cases
  imports Definition_Publications Memory_Projection
begin

text \<open>
  The use cases that change a session (\<open>choreo-app/src/usecases\<close>).  A use case is an
  \<open>effect\<close>: it runs in a world of type \<open>'w\<close> that the ports read and change, and stops at the
  first error.  Other callers may run between two port calls; they are part of what a port may
  do to the world.  Each use case is the composition of a pure part (its \<open>_change\<close>: the new
  instance and the facts that record it, from the definition, the instance and the clock) and
  the port calls around it.  The locale \<open>recorded_change\<close> is the contract of the pure parts:
  a change is a path of session steps, keeps the session's id, and never goes unrecorded.
\<close>

section \<open>Effects\<close>

type_synonym ('w, 'a) effect = "'w \<Rightarrow> 'a outcome \<times> 'w"

definition eff_bind :: "('w, 'a) effect \<Rightarrow> ('a \<Rightarrow> ('w, 'b) effect) \<Rightarrow> ('w, 'b) effect" where
  "eff_bind m f w = (case m w of (Inl e, w') \<Rightarrow> (Inl e, w') | (Inr x, w') \<Rightarrow> f x w')"

definition eff_lift :: "'a outcome \<Rightarrow> ('w, 'a) effect" where
  "eff_lift r w = (r, w)"

definition eff_do :: "('w \<Rightarrow> 'w) \<Rightarrow> ('w, unit) effect" where
  "eff_do f w = (Inr (), f w)"

definition eff_get :: "('w \<Rightarrow> 'a) \<Rightarrow> ('w, 'a) effect" where
  "eff_get f w = (Inr (f w), w)"

lemma eff_bind_Inr:
  "eff_bind m f w = (Inr y, w'') \<longleftrightarrow> (\<exists>x w'. m w = (Inr x, w') \<and> f x w' = (Inr y, w''))"
  by (auto simp: eff_bind_def split: prod.splits sum.splits)

lemma eff_simps [simp]:
  "eff_lift r w = (r', w') \<longleftrightarrow> r' = r \<and> w' = w"
  "eff_do f w = (u, w') \<longleftrightarrow> u = Inr () \<and> w' = f w"
  "eff_get g w = (x, w') \<longleftrightarrow> x = Inr (g w) \<and> w' = w"
  by (auto simp: eff_lift_def eff_do_def eff_get_def)

section \<open>Ports\<close>

record 'w session_ports =
  p_load :: "rstr \<Rightarrow> ('w, loaded_session) effect"
  p_resolve :: "ceremony_instance \<Rightarrow> ('w, ceremony_definition) effect"
  p_now :: "'w \<Rightarrow> timestamp"
  p_commit :: "loaded_session \<Rightarrow> audit_fact list \<Rightarrow> ('w, loaded_session) effect"
  p_remember :: "'w memory_writer"
  p_collect :: "ceremony_evidence_request \<Rightarrow> ('w, ceremony_evidence_pack) effect"

text \<open>
  The shape the use cases share: load the session, resolve its definition, read the clock,
  change the instance, commit it with its facts, and tell the memory afterwards.
\<close>

definition session_use_case ::
    "'w session_ports \<Rightarrow> rstr
      \<Rightarrow> (ceremony_definition \<Rightarrow> ceremony_instance \<Rightarrow> timestamp
            \<Rightarrow> (ceremony_instance \<times> audit_fact list \<times> 'x) outcome)
      \<Rightarrow> (ceremony_definition \<Rightarrow> ceremony_instance \<Rightarrow> 'w \<Rightarrow> 'w)
      \<Rightarrow> ('w, ceremony_instance \<times> 'x) effect" where
  "session_use_case ports cid change afterwards =
     eff_bind (p_load ports cid) (\<lambda>session.
     eff_bind (p_resolve ports (ls_instance session)) (\<lambda>d.
     eff_bind (eff_get (p_now ports)) (\<lambda>now.
     eff_bind (eff_lift (change d (ls_instance session) now)) (\<lambda>(j, facts, x).
     eff_bind (p_commit ports (session\<lparr>ls_instance := j\<rparr>) facts) (\<lambda>committed.
     eff_bind (eff_do (afterwards d (ls_instance committed))) (\<lambda>_.
     eff_lift (Inr (ls_instance committed, x))))))))"

definition nothing_afterwards :: "ceremony_definition \<Rightarrow> ceremony_instance \<Rightarrow> 'w \<Rightarrow> 'w" where
  "nothing_afterwards d i w = w"

section \<open>Steps\<close>

record start_ceremony_step_input =
  ssi_instance_id :: rstr
  ssi_role_id :: rstr
  ssi_role_kind :: audit_actor_kind
  ssi_step_id :: rstr
  ssi_lease_owner_id :: rstr
  ssi_idempotency_key :: rstr
  ssi_lease_ttl :: duration_ms

definition StartCeremonyStep_change ::
    "(timestamp \<Rightarrow> nat \<Rightarrow> timestamp option) \<Rightarrow> start_ceremony_step_input \<Rightarrow> ceremony_definition
      \<Rightarrow> ceremony_instance \<Rightarrow> timestamp \<Rightarrow> (ceremony_instance \<times> audit_fact list \<times> step_attempt) outcome" where
  "StartCeremonyStep_change checked_add input d i now =
     and_then (StepLease_acquire checked_add (ssi_lease_owner_id input) (ssi_idempotency_key input) now
       (ssi_lease_ttl input)) (\<lambda>lease.
     and_then (CeremonyInstance_start_step_as i d (ssi_role_id input) (ssi_step_id input) lease now)
       (\<lambda>(j, attempt).
     and_then (step_started j (ssi_step_id input) attempt (ssi_role_id input) (ssi_role_kind input) now)
       (\<lambda>f. Inr (j, [f], attempt))))"

definition StartCeremonyStepUseCase_execute ::
    "(timestamp \<Rightarrow> nat \<Rightarrow> timestamp option) \<Rightarrow> 'w session_ports \<Rightarrow> start_ceremony_step_input
      \<Rightarrow> ('w, step_attempt) effect" where
  "StartCeremonyStepUseCase_execute checked_add ports input =
     eff_bind (session_use_case ports (ssi_instance_id input) (StartCeremonyStep_change checked_add input)
       nothing_afterwards) (\<lambda>(_, attempt). eff_lift (Inr attempt))"

record complete_ceremony_step_input =
  csi_instance_id :: rstr
  csi_step_id :: rstr
  csi_result :: step_result
  csi_actor_kind :: audit_actor_kind

definition CompleteCeremonyStep_change ::
    "complete_ceremony_step_input \<Rightarrow> ceremony_definition \<Rightarrow> ceremony_instance \<Rightarrow> timestamp
      \<Rightarrow> (ceremony_instance \<times> audit_fact list \<times> unit) outcome" where
  "CompleteCeremonyStep_change input d i now =
     and_then (CeremonyDefinition_role_id_for_step d (csi_step_id input)) (\<lambda>finished_by.
     and_then (CeremonyInstance_apply_step_result i d (csi_step_id input) (csi_result input) now) (\<lambda>j.
     and_then (ok_or (bt_get (inst_step_records j) (csi_step_id input)) (NotFound ''ceremony_step'')) (\<lambda>r.
     and_then (step_finished j (csi_step_id input) (rec_attempt r) (csi_result input) finished_by
       (csi_actor_kind input) now) (\<lambda>f. Inr (j, [f], ())))))"

definition CompleteCeremonyStepUseCase_execute ::
    "'w session_ports \<Rightarrow> complete_ceremony_step_input \<Rightarrow> ('w, ceremony_instance) effect" where
  "CompleteCeremonyStepUseCase_execute ports input =
     eff_bind (session_use_case ports (csi_instance_id input) (CompleteCeremonyStep_change input)
       nothing_afterwards) (\<lambda>(j, _). eff_lift (Inr j))"

section \<open>Transitions and guards\<close>

record apply_ceremony_transition_input =
  ati_instance_id :: rstr
  ati_role_id :: rstr
  ati_role_kind :: audit_actor_kind
  ati_trigger :: rstr

definition ApplyCeremonyTransition_change ::
    "apply_ceremony_transition_input \<Rightarrow> ceremony_definition \<Rightarrow> ceremony_instance \<Rightarrow> timestamp
      \<Rightarrow> (ceremony_instance \<times> audit_fact list \<times> unit) outcome" where
  "ApplyCeremonyTransition_change input d i now =
     and_then (CeremonyInstance_apply_transition_as i d (ati_role_id input) (ati_trigger input) now) (\<lambda>(j, _).
     and_then (transition_applied j d (ati_role_id input) (ati_role_kind input) now) (\<lambda>facts.
     Inr (j, facts, ())))"

definition ApplyCeremonyTransitionUseCase_execute ::
    "'w session_ports \<Rightarrow> apply_ceremony_transition_input \<Rightarrow> ('w, ceremony_instance) effect" where
  "ApplyCeremonyTransitionUseCase_execute ports input =
     eff_bind (session_use_case ports (ati_instance_id input) (ApplyCeremonyTransition_change input)
       (\<lambda>d i. remember_ending (p_remember ports) i d)) (\<lambda>(j, _). eff_lift (Inr j))"

record approve_ceremony_guard_input =
  agi_instance_id :: rstr
  agi_guard_name :: rstr
  agi_role_id :: rstr
  agi_role_kind :: audit_actor_kind

definition ApproveCeremonyGuard_change ::
    "approve_ceremony_guard_input \<Rightarrow> ceremony_definition \<Rightarrow> ceremony_instance \<Rightarrow> timestamp
      \<Rightarrow> (ceremony_instance \<times> audit_fact list \<times> unit) outcome" where
  "ApproveCeremonyGuard_change input d i now =
     and_then (CeremonyInstance_approve_guard i d (agi_guard_name input) (agi_role_id input)
       (agi_role_kind input) now) (\<lambda>j.
     and_then (guard_approved j (agi_guard_name input) (agi_role_id input) (agi_role_kind input) now)
       (\<lambda>f. Inr (j, [f], ())))"

definition ApproveCeremonyGuardUseCase_execute ::
    "'w session_ports \<Rightarrow> approve_ceremony_guard_input \<Rightarrow> ('w, ceremony_instance) effect" where
  "ApproveCeremonyGuardUseCase_execute ports input =
     eff_bind (session_use_case ports (agi_instance_id input) (ApproveCeremonyGuard_change input)
       (\<lambda>_ i. remember_guard_decision (p_remember ports) i (Ref_GuardDecision (agi_guard_name input))))
     (\<lambda>(j, _). eff_lift (Inr j))"

record defer_ceremony_guard_input =
  dgi_instance_id :: rstr
  dgi_guard_name :: rstr
  dgi_content :: ceremony_guard_deferral_content
  dgi_role_id :: rstr
  dgi_role_kind :: audit_actor_kind

definition DeferCeremonyGuard_change ::
    "defer_ceremony_guard_input \<Rightarrow> ceremony_definition \<Rightarrow> ceremony_instance \<Rightarrow> timestamp
      \<Rightarrow> (ceremony_instance \<times> audit_fact list \<times> unit) outcome" where
  "DeferCeremonyGuard_change input d i now =
     and_then (CeremonyInstance_defer_guard i d (dgi_guard_name input) (dgi_content input)
       (dgi_role_id input) (dgi_role_kind input) now) (\<lambda>j.
     and_then (guard_deferred j (dgi_guard_name input) (dgi_role_id input) (dgi_role_kind input) now)
       (\<lambda>f. Inr (j, [f], ())))"

definition DeferCeremonyGuardUseCase_execute ::
    "'w session_ports \<Rightarrow> defer_ceremony_guard_input \<Rightarrow> ('w, ceremony_instance) effect" where
  "DeferCeremonyGuardUseCase_execute ports input =
     eff_bind (session_use_case ports (dgi_instance_id input) (DeferCeremonyGuard_change input)
       (\<lambda>_ i. remember_guard_decision (p_remember ports) i (Ref_GuardDecision (dgi_guard_name input))))
     (\<lambda>(j, _). eff_lift (Inr j))"

section \<open>Seats\<close>

record bind_ceremony_participants_input =
  bpi_instance_id :: rstr
  bpi_seating :: "(rstr, rstr) btree_map"
  bpi_actor_id :: rstr
  bpi_actor_kind :: audit_actor_kind

text \<open>\<open>into_iter().collect::<BTreeMap<_, _>>()\<close>: the last specialty offered for a role wins.\<close>

definition BindCeremonyParticipantsInput_new ::
    "rstr \<Rightarrow> (rstr \<times> rstr) list \<Rightarrow> rstr \<Rightarrow> audit_actor_kind \<Rightarrow> bind_ceremony_participants_input outcome" where
  "BindCeremonyParticipantsInput_new cid offered aid k =
     (let seating = fold (\<lambda>(rid, sp). bt_insert rid sp) offered [] in
      if seating = [] then Inl (EmptyCollection ''ceremony_participant_binding.seating'')
      else Inr \<lparr>bpi_instance_id = cid, bpi_seating = seating, bpi_actor_id = aid, bpi_actor_kind = k\<rparr>)"

fun bind_seating ::
    "ceremony_definition \<Rightarrow> timestamp \<Rightarrow> (rstr, rstr) btree_map \<Rightarrow> ceremony_instance \<Rightarrow> ceremony_instance outcome" where
  "bind_seating d now [] i = Inr i"
| "bind_seating d now ((rid, sp) # seating) i =
     and_then (CeremonyInstance_bind_participant i d rid sp now) (\<lambda>j. bind_seating d now seating j)"

definition BindCeremonyParticipants_change ::
    "bind_ceremony_participants_input \<Rightarrow> ceremony_definition \<Rightarrow> ceremony_instance \<Rightarrow> timestamp
      \<Rightarrow> (ceremony_instance \<times> audit_fact list \<times> unit) outcome" where
  "BindCeremonyParticipants_change input d i now =
     and_then (bind_seating d now (bpi_seating input) i) (\<lambda>j.
     and_then (participants_bound j (bpi_seating input) (bpi_actor_id input) (bpi_actor_kind input) now)
       (\<lambda>f. Inr (j, [f], ())))"

definition BindCeremonyParticipantsUseCase_execute ::
    "'w session_ports \<Rightarrow> bind_ceremony_participants_input \<Rightarrow> ('w, ceremony_instance) effect" where
  "BindCeremonyParticipantsUseCase_execute ports input =
     eff_bind (session_use_case ports (bpi_instance_id input) (BindCeremonyParticipants_change input)
       nothing_afterwards) (\<lambda>(j, _). eff_lift (Inr j))"

section \<open>Agenda items\<close>

record request_ceremony_intervention_input =
  rqi_instance_id :: rstr
  rqi_intervention_id :: rstr
  rqi_role_id :: rstr
  rqi_role_kind :: audit_actor_kind
  rqi_kind :: ceremony_intervention_kind
  rqi_target :: ceremony_intervention_target
  rqi_content :: ceremony_intervention_content
  rqi_provenance :: "ceremony_intervention_provenance option"

definition RequestCeremonyIntervention_change ::
    "request_ceremony_intervention_input \<Rightarrow> ceremony_definition \<Rightarrow> ceremony_instance \<Rightarrow> timestamp
      \<Rightarrow> (ceremony_instance \<times> audit_fact list \<times> unit) outcome" where
  "RequestCeremonyIntervention_change input d i now =
     and_then (CeremonyInstance_request_intervention_with_provenance_as i d (rqi_intervention_id input)
       (rqi_role_id input) (rqi_kind input) (rqi_target input) (rqi_content input) (rqi_provenance input) now) (\<lambda>j.
     and_then (intervention_requested j (rqi_intervention_id input) (rqi_role_id input) (rqi_role_kind input) now)
       (\<lambda>f. Inr (j, [f], ())))"

definition RequestCeremonyInterventionUseCase_execute ::
    "'w session_ports \<Rightarrow> request_ceremony_intervention_input \<Rightarrow> ('w, ceremony_instance) effect" where
  "RequestCeremonyInterventionUseCase_execute ports input =
     eff_bind (session_use_case ports (rqi_instance_id input) (RequestCeremonyIntervention_change input)
       nothing_afterwards) (\<lambda>(j, _). eff_lift (Inr j))"

record respond_to_ceremony_intervention_input =
  rsi_instance_id :: rstr
  rsi_intervention_id :: rstr
  rsi_role_id :: rstr
  rsi_role_kind :: audit_actor_kind
  rsi_content :: ceremony_intervention_content

definition RespondToCeremonyIntervention_change ::
    "respond_to_ceremony_intervention_input \<Rightarrow> ceremony_definition \<Rightarrow> ceremony_instance \<Rightarrow> timestamp
      \<Rightarrow> (ceremony_instance \<times> audit_fact list \<times> unit) outcome" where
  "RespondToCeremonyIntervention_change input d i now =
     and_then (CeremonyInstance_respond_to_intervention_as i d (rsi_intervention_id input)
       (rsi_role_id input) (rsi_content input) now) (\<lambda>j.
     and_then (intervention_responded j (rsi_intervention_id input) (rsi_role_id input) (rsi_role_kind input) now)
       (\<lambda>f. Inr (j, [f], ())))"

definition RespondToCeremonyInterventionUseCase_execute ::
    "'w session_ports \<Rightarrow> respond_to_ceremony_intervention_input \<Rightarrow> ('w, ceremony_instance) effect" where
  "RespondToCeremonyInterventionUseCase_execute ports input =
     eff_bind (session_use_case ports (rsi_instance_id input) (RespondToCeremonyIntervention_change input)
       (\<lambda>_ i. remember_contribution (p_remember ports) i (rsi_intervention_id input)))
     (\<lambda>(j, _). eff_lift (Inr j))"

record close_ceremony_intervention_input =
  cli_instance_id :: rstr
  cli_intervention_id :: rstr
  cli_role_id :: rstr
  cli_role_kind :: audit_actor_kind

definition CloseCeremonyIntervention_change ::
    "close_ceremony_intervention_input \<Rightarrow> ceremony_definition \<Rightarrow> ceremony_instance \<Rightarrow> timestamp
      \<Rightarrow> (ceremony_instance \<times> audit_fact list \<times> unit) outcome" where
  "CloseCeremonyIntervention_change input d i now =
     and_then (CeremonyInstance_close_intervention_as i d (cli_intervention_id input) (cli_role_id input) now) (\<lambda>j.
     and_then (intervention_closed j (cli_intervention_id input) (cli_role_id input) (cli_role_kind input) now)
       (\<lambda>f. Inr (j, [f], ())))"

definition CloseCeremonyInterventionUseCase_execute ::
    "'w session_ports \<Rightarrow> close_ceremony_intervention_input \<Rightarrow> ('w, ceremony_instance) effect" where
  "CloseCeremonyInterventionUseCase_execute ports input =
     eff_bind (session_use_case ports (cli_instance_id input) (CloseCeremonyIntervention_change input)
       nothing_afterwards) (\<lambda>(j, _). eff_lift (Inr j))"

record collect_ceremony_evidence_input =
  cei_instance_id :: rstr
  cei_intervention_id :: rstr
  cei_role_id :: rstr
  cei_role_kind :: audit_actor_kind
  cei_source_id :: rstr
  cei_query :: ceremony_intervention_content

definition CollectCeremonyEvidence_change ::
    "(ceremony_evidence_pack \<Rightarrow> json option) \<Rightarrow> collect_ceremony_evidence_input \<Rightarrow> ceremony_evidence_request
      \<Rightarrow> ceremony_evidence_pack \<Rightarrow> ceremony_definition \<Rightarrow> ceremony_instance \<Rightarrow> timestamp
      \<Rightarrow> (ceremony_instance \<times> audit_fact list \<times> unit) outcome" where
  "CollectCeremonyEvidence_change to_value input req pack d i now =
     and_then (CeremonyInstance_respond_to_intervention_with_evidence_as to_value i d
       (ereq_intervention_id req) (ereq_role_id req) pack now) (\<lambda>j.
     and_then (evidence_collected j (ereq_intervention_id req) (cei_source_id input) (ereq_role_id req)
       (cei_role_kind input) now) (\<lambda>facts. Inr (j, facts, ())))"

definition CollectCeremonyEvidenceUseCase_execute ::
    "(ceremony_evidence_pack \<Rightarrow> json option) \<Rightarrow> 'w session_ports \<Rightarrow> collect_ceremony_evidence_input
      \<Rightarrow> ('w, ceremony_instance) effect" where
  "CollectCeremonyEvidenceUseCase_execute to_value ports input =
     eff_bind (p_load ports (cei_instance_id input)) (\<lambda>session.
     eff_bind (p_resolve ports (ls_instance session)) (\<lambda>d.
     eff_bind (eff_lift (CeremonyInstance_prepare_evidence_request_as (ls_instance session) d
       (cei_intervention_id input) (cei_role_id input) (cei_source_id input) (cei_query input))) (\<lambda>req.
     eff_bind (p_collect ports req) (\<lambda>pack.
     eff_bind (eff_lift (CeremonyEvidenceRequest_ensure_matches req pack)) (\<lambda>_.
     eff_bind (eff_get (p_now ports)) (\<lambda>now.
     eff_bind (eff_lift (CollectCeremonyEvidence_change to_value input req pack d (ls_instance session) now))
       (\<lambda>(j, facts, _).
     eff_bind (p_commit ports (session\<lparr>ls_instance := j\<rparr>) facts) (\<lambda>committed.
     eff_bind (eff_do (remember_contribution (p_remember ports) (ls_instance committed)
       (ereq_intervention_id req))) (\<lambda>_.
     eff_lift (Inr (ls_instance committed)))))))))))"

section \<open>Reasons\<close>

record assert_ceremony_reason_input =
  ari_instance_id :: rstr
  ari_role_id :: rstr
  ari_role_kind :: audit_actor_kind
  ari_from :: ceremony_record_ref
  ari_to :: ceremony_record_ref
  ari_kind :: ceremony_reason_kind
  ari_why :: rstr
  ari_confidence :: memory_confidence

definition AssertCeremonyReason_change ::
    "assert_ceremony_reason_input \<Rightarrow> ceremony_definition \<Rightarrow> ceremony_instance \<Rightarrow> timestamp
      \<Rightarrow> (ceremony_instance \<times> audit_fact list \<times> unit) outcome" where
  "AssertCeremonyReason_change input d i now =
     and_then (CeremonyInstance_assert_reason_as i d (ari_role_id input) (ari_from input) (ari_to input)
       (ari_kind input) (ari_why input) (ari_confidence input) now) (\<lambda>j.
     and_then (reason_asserted j (ari_role_id input) (ari_role_kind input) now)
       (\<lambda>f. Inr (j, [f], ())))"

definition AssertCeremonyReasonUseCase_execute ::
    "'w session_ports \<Rightarrow> assert_ceremony_reason_input \<Rightarrow> ('w, ceremony_instance) effect" where
  "AssertCeremonyReasonUseCase_execute ports input =
     eff_bind (session_use_case ports (ari_instance_id input) (AssertCeremonyReason_change input)
       (\<lambda>_ i. remember_reason (p_remember ports) i (length (inst_reasons i) - 1)))
     (\<lambda>(j, _). eff_lift (Inr j))"

section \<open>The contract of a change\<close>

locale recorded_change =
  fixes to_value :: "ceremony_evidence_pack \<Rightarrow> json option"
    and change :: "ceremony_definition \<Rightarrow> ceremony_instance \<Rightarrow> timestamp
      \<Rightarrow> (ceremony_instance \<times> audit_fact list \<times> 'x) outcome"
    and acceptable :: bool
  assumes steps: "acceptable \<Longrightarrow> change d i now = Inr (j, facts, x) \<Longrightarrow> (session_step to_value d)\<^sup>*\<^sup>* i j"
    and recorded: "change d i now = Inr (j, facts, x) \<Longrightarrow>
      facts \<noteq> [] \<and> (\<forall>f \<in> set facts. fact_ceremony_id f = inst_id j \<and> fact_occurred_at f = now)"
begin

lemma keeps_identity:
  "acceptable \<Longrightarrow> change d i now = Inr (j, facts, x) \<Longrightarrow> inst_identity j = inst_identity i"
  by (rule steps_keep_identity) (rule steps)

lemma reachable:
  assumes "acceptable" and "session_reachable to_value d ctx0 i" and "change d i now = Inr (j, facts, x)"
  shows "session_reachable to_value d ctx0 j"
proof -
  from steps [OF assms(1,3)] have "(session_step to_value d)\<^sup>*\<^sup>* i j" .
  then show ?thesis
    by (induction rule: rtranclp_induct) (auto intro: assms(2) session_reachable.stepped)
qed

end

lemma fact_instant:
  "seat_fact i et about rid k t = Inr f \<Longrightarrow> fact_ceremony_id f = inst_id i \<and> fact_occurred_at f = t"
  "session_fact i et about who t = Inr f \<Longrightarrow> fact_ceremony_id f = inst_id i \<and> fact_occurred_at f = t"
  using seat_fact_Inr session_fact_Inr by auto

lemma transition_facts:
  "transition_applied i d rid k t = Inr fs \<Longrightarrow>
     fs \<noteq> [] \<and> (\<forall>f \<in> set fs. fact_ceremony_id f = inst_id i \<and> fact_occurred_at f = t)"
  by (auto simp: transition_applied_def Let_def result_simps dest: fact_instant split: if_splits)

lemma evidence_facts:
  "evidence_collected i v src rid k t = Inr fs \<Longrightarrow>
     fs \<noteq> [] \<and> (\<forall>f \<in> set fs. fact_ceremony_id f = inst_id i \<and> fact_occurred_at f = t)"
  by (auto simp: evidence_collected_def intervention_responded_def result_simps dest: fact_instant)

lemma seating_fact:
  "participants_bound i seating who k t = Inr f \<Longrightarrow> fact_ceremony_id f = inst_id i \<and> fact_occurred_at f = t"
  by (auto simp: participants_bound_def Let_def result_simps dest: fact_instant)

lemma bind_seating_steps:
  "bind_seating d now seating i = Inr j \<Longrightarrow> (session_step tv d)\<^sup>*\<^sup>* i j"
  by (induction d now seating i rule: bind_seating.induct)
    (auto simp: result_simps intro: converse_rtranclp_into_rtranclp session_step.bind)

interpretation start_ceremony_step: recorded_change tv "StartCeremonyStep_change checked_add input" True
  for tv checked_add input
  by unfold_locales
    (auto simp: StartCeremonyStep_change_def result_simps single_fact_defs intro!: r_into_rtranclp
      dest: fact_instant intro: session_step.start_as split: prod.splits)

text \<open>A step is completed with a result that passed its constructor.\<close>

interpretation complete_ceremony_step: recorded_change tv "CompleteCeremonyStep_change input"
    "\<exists>status out err. StepResult_new status out err = Inr (csi_result input)" for tv input
  by unfold_locales
    (auto simp: CompleteCeremonyStep_change_def result_simps single_fact_defs intro!: r_into_rtranclp
      dest: fact_instant intro: session_step.result split: prod.splits)

interpretation apply_ceremony_transition: recorded_change tv "ApplyCeremonyTransition_change input" True
  for tv input
  by unfold_locales
    (auto simp: ApplyCeremonyTransition_change_def result_simps intro!: r_into_rtranclp
      dest: transition_facts intro: session_step.transition_as split: prod.splits)

interpretation approve_ceremony_guard: recorded_change tv "ApproveCeremonyGuard_change input" True
  for tv input
  by unfold_locales
    (auto simp: ApproveCeremonyGuard_change_def result_simps single_fact_defs intro!: r_into_rtranclp
      dest: fact_instant intro: session_step.approve)

interpretation defer_ceremony_guard: recorded_change tv "DeferCeremonyGuard_change input" True
  for tv input
  by unfold_locales
    (auto simp: DeferCeremonyGuard_change_def result_simps single_fact_defs intro!: r_into_rtranclp
      dest: fact_instant intro: session_step.postpone)

interpretation bind_ceremony_participants: recorded_change tv "BindCeremonyParticipants_change input" True
  for tv input
  by unfold_locales
    (auto simp: BindCeremonyParticipants_change_def result_simps dest: seating_fact intro: bind_seating_steps)

interpretation request_ceremony_intervention: recorded_change tv "RequestCeremonyIntervention_change input" True
  for tv input
  by unfold_locales
    (auto simp: RequestCeremonyIntervention_change_def result_simps single_fact_defs intro!: r_into_rtranclp
      dest: fact_instant intro: session_step.request)

interpretation respond_to_ceremony_intervention: recorded_change tv "RespondToCeremonyIntervention_change input" True
  for tv input
  by unfold_locales
    (auto simp: RespondToCeremonyIntervention_change_def result_simps single_fact_defs intro!: r_into_rtranclp
      dest: fact_instant intro: session_step.respond)

interpretation close_ceremony_intervention: recorded_change tv "CloseCeremonyIntervention_change input" True
  for tv input
  by unfold_locales
    (auto simp: CloseCeremonyIntervention_change_def result_simps single_fact_defs intro!: r_into_rtranclp
      dest: fact_instant intro: session_step.close)

interpretation collect_ceremony_evidence: recorded_change tv "CollectCeremonyEvidence_change tv input req pack" True
  for tv input req pack
  by unfold_locales
    (auto simp: CollectCeremonyEvidence_change_def result_simps intro!: r_into_rtranclp
      dest: evidence_facts intro: session_step.evidence)

interpretation assert_ceremony_reason: recorded_change tv "AssertCeremonyReason_change input" True
  for tv input
  by unfold_locales
    (auto simp: AssertCeremonyReason_change_def result_simps single_fact_defs intro!: r_into_rtranclp
      dest: fact_instant intro: session_step.reason)

end
