(* ===== verification/Ceremony_System.thy ===== *)
theory Ceremony_System
  imports Session_Use_Cases
begin

text \<open>
  The use cases running together on the in-memory store and the in-memory catalogue.  A
  system state holds the store, the catalogue and what the callers in flight have read so far:
  the revisions they have seen and the sessions they have loaded.  One rule of \<open>system_step\<close> is
  one port call of one caller, so the paths of the relation are all interleavings of any number
  of concurrent use cases.  Shown here: every stored session that was started from a published
  definition is one that the definition allows, and no stored session changes without records
  being sealed in the same step.
\<close>

section \<open>Changes\<close>

text \<open>A change that some use case makes to a loaded session.\<close>

inductive session_change ::
    "(ceremony_evidence_pack \<Rightarrow> json option) \<Rightarrow> (timestamp \<Rightarrow> nat \<Rightarrow> timestamp option) \<Rightarrow> ceremony_definition
      \<Rightarrow> ceremony_instance \<Rightarrow> timestamp \<Rightarrow> ceremony_instance \<Rightarrow> audit_fact list \<Rightarrow> bool"
  for to_value checked_add d i now where
  start_step: "StartCeremonyStep_change checked_add input1 d i now = Inr (j, facts, a) \<Longrightarrow>
    session_change to_value checked_add d i now j facts"
| complete_step: "\<lbrakk>StepResult_new status out err = Inr (csi_result input2);
    CompleteCeremonyStep_change input2 d i now = Inr (j, facts, u)\<rbrakk> \<Longrightarrow>
    session_change to_value checked_add d i now j facts"
| apply_transition: "ApplyCeremonyTransition_change input3 d i now = Inr (j, facts, u) \<Longrightarrow>
    session_change to_value checked_add d i now j facts"
| approve_guard: "ApproveCeremonyGuard_change input4 d i now = Inr (j, facts, u) \<Longrightarrow>
    session_change to_value checked_add d i now j facts"
| defer_guard: "DeferCeremonyGuard_change input5 d i now = Inr (j, facts, u) \<Longrightarrow>
    session_change to_value checked_add d i now j facts"
| bind_participants: "BindCeremonyParticipants_change input6 d i now = Inr (j, facts, u) \<Longrightarrow>
    session_change to_value checked_add d i now j facts"
| request_intervention: "RequestCeremonyIntervention_change input7 d i now = Inr (j, facts, u) \<Longrightarrow>
    session_change to_value checked_add d i now j facts"
| respond: "RespondToCeremonyIntervention_change input8 d i now = Inr (j, facts, u) \<Longrightarrow>
    session_change to_value checked_add d i now j facts"
| close_intervention: "CloseCeremonyIntervention_change input9 d i now = Inr (j, facts, u) \<Longrightarrow>
    session_change to_value checked_add d i now j facts"
| collect_evidence: "CollectCeremonyEvidence_change to_value input10 req pack d i now = Inr (j, facts, u) \<Longrightarrow>
    session_change to_value checked_add d i now j facts"
| assert_reason: "AssertCeremonyReason_change input11 d i now = Inr (j, facts, u) \<Longrightarrow>
    session_change to_value checked_add d i now j facts"

lemma session_change_steps:
  "session_change tv add d i now j facts \<Longrightarrow> (session_step tv d)\<^sup>*\<^sup>* i j"
  by (induction rule: session_change.induct)
    (blast intro: start_ceremony_step.steps complete_ceremony_step.steps apply_ceremony_transition.steps
      approve_ceremony_guard.steps defer_ceremony_guard.steps bind_ceremony_participants.steps
      request_ceremony_intervention.steps respond_to_ceremony_intervention.steps
      close_ceremony_intervention.steps collect_ceremony_evidence.steps assert_ceremony_reason.steps)+

lemma session_change_recorded:
  "session_change tv add d i now j facts \<Longrightarrow>
     facts \<noteq> [] \<and> (\<forall>f \<in> set facts. fact_ceremony_id f = inst_id j \<and> fact_occurred_at f = now)"
  by (induction rule: session_change.induct)
    (blast dest: start_ceremony_step.recorded complete_ceremony_step.recorded apply_ceremony_transition.recorded
      approve_ceremony_guard.recorded defer_ceremony_guard.recorded bind_ceremony_participants.recorded
      request_ceremony_intervention.recorded respond_to_ceremony_intervention.recorded
      close_ceremony_intervention.recorded collect_ceremony_evidence.recorded assert_ceremony_reason.recorded)+

section \<open>The system\<close>

record system =
  sys_store :: ceremony_store
  sys_catalogue :: publications
  sys_readings :: "(rstr \<times> ceremony_revision option) set"
  sys_loaded :: "loaded_session set"

definition system_start :: system where
  "system_start = \<lparr>sys_store = [], sys_catalogue = [], sys_readings = {}, sys_loaded = {}\<rparr>"

definition expected_of :: "ceremony_revision option \<Rightarrow> expected_revision" where
  "expected_of stored = (case stored of None \<Rightarrow> New | Some r \<Rightarrow> Exactly r)"

text \<open>
  Besides the use cases on sessions: publishing, starting with and without a published
  definition, the outbox calls and free journal entries.  The repository of unpublished
  definitions may answer anything (\<open>get\<close>), because it can be overwritten at any time.
\<close>

inductive system_step ::
    "(bytes \<Rightarrow> digest) \<Rightarrow> (timestamp \<Rightarrow> rstr option) \<Rightarrow> (ceremony_definition \<Rightarrow> bytes option)
      \<Rightarrow> (ceremony_evidence_pack \<Rightarrow> json option) \<Rightarrow> (timestamp \<Rightarrow> nat \<Rightarrow> timestamp option) \<Rightarrow> system \<Rightarrow> system \<Rightarrow> bool"
  for sha256 rfc3339 to_vec to_value checked_add where
  publish: "\<lbrakk>definition_wf d;
    PublishCeremonyDefinitionUseCase_execute sha256 to_vec publications_publish d (sys_catalogue w) = (c, r)\<rbrakk>
    \<Longrightarrow> system_step sha256 rfc3339 to_vec to_value checked_add w (w\<lparr>sys_catalogue := c\<rparr>)"
| start_published: "StartPublishedCeremonyUseCase_execute (publications_published (sys_catalogue w))
      (store_commit sha256 rfc3339) input now (sys_store w) = Some (s, r)
    \<Longrightarrow> system_step sha256 rfc3339 to_vec to_value checked_add w (w\<lparr>sys_store := s\<rparr>)"
| start_unpublished: "StartCeremonyUseCase_execute get (store_commit sha256 rfc3339) input now (sys_store w) = Some (s, r)
    \<Longrightarrow> system_step sha256 rfc3339 to_vec to_value checked_add w (w\<lparr>sys_store := s\<rparr>)"
| read_revision: "system_step sha256 rfc3339 to_vec to_value checked_add w
    (w\<lparr>sys_readings := insert (cid, store_revision (sys_store w) cid) (sys_readings w)\<rparr>)"
| read_instance: "\<lbrakk>(cid, rv) \<in> sys_readings w; store_get (sys_store w) cid = Inr i\<rbrakk>
    \<Longrightarrow> system_step sha256 rfc3339 to_vec to_value checked_add w
    (w\<lparr>sys_loaded := insert \<lparr>ls_instance = i, ls_expected = expected_of rv\<rparr> (sys_loaded w)\<rparr>)"
| change: "\<lbrakk>session \<in> sys_loaded w;
    ResolveCeremonyDefinitionUseCase_execute get (publications_published (sys_catalogue w))
      (ls_instance session) = Inr d;
    session_change to_value checked_add d (ls_instance session) now j facts;
    SessionJournal_commit (store_commit sha256 rfc3339) (session\<lparr>ls_instance := j\<rparr>) facts (sys_store w) = (s, r)\<rbrakk>
    \<Longrightarrow> system_step sha256 rfc3339 to_vec to_value checked_add w
    (w\<lparr>sys_store := s, sys_loaded := sys_loaded w \<union> (case r of Inl _ \<Rightarrow> {} | Inr committed \<Rightarrow> {committed})\<rparr>)"
| append: "store_append sha256 rfc3339 f (sys_store w) = (s, r)
    \<Longrightarrow> system_step sha256 rfc3339 to_vec to_value checked_add w (w\<lparr>sys_store := s\<rparr>)"
| claim: "store_claim checked_add limit now lease (sys_store w) = Some (s, claimed)
    \<Longrightarrow> system_step sha256 rfc3339 to_vec to_value checked_add w (w\<lparr>sys_store := s\<rparr>)"
| delivered: "system_step sha256 rfc3339 to_vec to_value checked_add w
    (w\<lparr>sys_store := store_mark_delivered ids (sys_store w)\<rparr>)"
| failed: "system_step sha256 rfc3339 to_vec to_value checked_add w
    (w\<lparr>sys_store := store_mark_failed eid (sys_store w)\<rparr>)"
| quarantine: "system_step sha256 rfc3339 to_vec to_value checked_add w
    (w\<lparr>sys_store := store_quarantine eid why (sys_store w)\<rparr>)"

text \<open>What the commits of the use cases do to the store.\<close>

lemma journal_commit_effect:
  assumes "SessionJournal_commit (store_commit sha rfc) session facts s = (s', r)"
  obtains (carried) committed sealed where "r = Inr committed"
      "ls_instance committed = ls_instance session"
      "store_instance s' = (store_instance s)(inst_id (ls_instance session) := Some (ls_instance session))"
      "store_records s' = (store_records s)(inst_id (ls_instance session) :=
         store_records s (inst_id (ls_instance session)) @ sealed)"
      "list_all2 records_fact facts sealed"
  | (refused) e where "r = Inl e" "store_instance s' = store_instance s" "store_records s' = store_records s"
proof (cases r)
  case (Inl e)
  then show thesis
    using memory.journal_commit_failed [OF assms [unfolded Inl]] by (intro refused) auto
next
  case (Inr committed)
  note reads = memory.journal_commit_reads_back [OF assms [unfolded Inr]]
  from reads obtain sealed where "store_records s' (inst_id (ls_instance session)) =
      store_records s (inst_id (ls_instance session)) @ sealed" "list_all2 records_fact facts sealed" by blast
  then show thesis using reads Inr by (intro carried [of committed sealed]) (auto simp: fun_eq_iff)
qed

lemma journal_open_effect:
  assumes "SessionJournal_open (store_commit sha rfc) i facts s = (s', r)"
  obtains (carried) committed sealed where "r = Inr committed" "ls_instance committed = i"
      "store_instance s' = (store_instance s)(inst_id i := Some i)"
      "store_records s' = (store_records s)(inst_id i := store_records s (inst_id i) @ sealed)"
      "list_all2 records_fact facts sealed"
  | (refused) e where "r = Inl e" "store_instance s' = store_instance s" "store_records s' = store_records s"
proof -
  let ?session = "\<lparr>ls_instance = i, ls_expected = New\<rparr>"
  obtain r' where c: "SessionJournal_commit (store_commit sha rfc) ?session facts s = (s', r')"
    and eq: "case r of Inr x \<Rightarrow> r' = Inr x | Inl _ \<Rightarrow> \<exists>e. r' = Inl e"
    using assms by (auto simp: SessionJournal_open_def SessionJournal_commit_def
        split: sum.splits prod.splits commit_outcome.splits)
  show thesis
    by (rule journal_commit_effect [OF c]) (use carried refused eq in \<open>auto split: sum.splits\<close>)
qed

lemma open_started_effect:
  assumes "open_started (store_commit sha rfc) input now opened s = Some (s', r)"
  obtains (carried) i f sealed where "opened = Some i" "r = Inr i"
      "store_instance s' = (store_instance s)(inst_id i := Some i)"
      "store_records s' = (store_records s)(inst_id i := store_records s (inst_id i) @ sealed)"
      "list_all2 records_fact [f] sealed"
  | (refused) e where "r = Inl e" "store_instance s' = store_instance s" "store_records s' = store_records s"
proof -
  from assms obtain i where i: "opened = Some i" by (auto simp: open_started_def split: option.splits)
  show thesis
  proof (cases "ceremony_started i (sci_actor_id input) (sci_actor_kind input) now")
    case (Inl e)
    then show thesis using assms i refused by (auto simp: open_started_def)
  next
    case (Inr f)
    then obtain r' where o: "SessionJournal_open (store_commit sha rfc) i [f] s = (s', r')"
      and r: "r = map_ok ls_instance r'"
      using assms i by (auto simp: open_started_def split: prod.splits)
    show thesis by (rule journal_open_effect [OF o]) (use carried refused i r in auto)
  qed
qed

section \<open>Stored sessions follow their published definitions\<close>

text \<open>A bound session is one its published definition allows.\<close>

definition bound_session_ok ::
    "(ceremony_evidence_pack \<Rightarrow> json option) \<Rightarrow> publications \<Rightarrow> ceremony_instance \<Rightarrow> bool" where
  "bound_session_ok to_value c i =
     (inst_bound_definition i \<noteq> None \<longrightarrow>
      (\<exists>p ctx0. publications_published c (inst_definition_name i) (inst_definition_version i) = Inr (Some p) \<and>
         inst_bound_definition i = Some (pub_digest p) \<and> definition_wf (pub_definition p) \<and>
         session_reachable to_value (pub_definition p) ctx0 i))"

definition system_inv :: "(ceremony_evidence_pack \<Rightarrow> json option) \<Rightarrow> system \<Rightarrow> bool" where
  "system_inv to_value w =
     (sys_catalogue w \<in> publications_keyed \<and>
      (\<forall>k p. bt_get (sys_catalogue w) k = Some p \<longrightarrow> definition_wf (pub_definition p)) \<and>
      (\<forall>cid i. store_instance (sys_store w) cid = Some i \<longrightarrow> bound_session_ok to_value (sys_catalogue w) i) \<and>
      (\<forall>session \<in> sys_loaded w. bound_session_ok to_value (sys_catalogue w) (ls_instance session)))"

lemma bound_session_ok_kept:
  assumes "bound_session_ok tv c i" and "publications_publish p c = (c', r)"
  shows "bound_session_ok tv c' i"
  using assms(1) catalogue.kept [OF assms(2)] unfolding bound_session_ok_def by blast

lemma publish_step_ok:
  assumes "system_inv tv w" and "definition_wf d"
    and "PublishCeremonyDefinitionUseCase_execute sha tv' publications_publish d (sys_catalogue w) = (c, r)"
  shows "system_inv tv (w\<lparr>sys_catalogue := c\<rparr>)"
proof (cases "PublishedCeremonyDefinition_seal sha tv' d")
  case (Inl e)
  then have "c = sys_catalogue w" using assms(3) by (simp add: PublishCeremonyDefinitionUseCase_execute_def)
  then show ?thesis using assms(1) by simp
next
  case (Inr p)
  then have pub: "publications_publish p (sys_catalogue w) = (c, r)" and d: "pub_definition p = d"
    using assms(3) by (auto simp: PublishCeremonyDefinitionUseCase_execute_def
        PublishedCeremonyDefinition_seal_def result_simps)
  have "definition_wf (pub_definition q)" if "bt_get c k = Some q" for k q
    using pub that assms(1,2) d
    by (cases k) (auto simp: system_inv_def publications_publish_def split: option.splits if_splits)
  then show ?thesis
    using assms(1) publish_keyed [OF pub] bound_session_ok_kept [OF _ pub] by (simp add: system_inv_def)
qed

lemma start_published_ok:
  assumes inv: "system_inv tv w"
    and start: "StartPublishedCeremonyUseCase_execute (publications_published (sys_catalogue w))
      (store_commit sha rfc) input now (sys_store w) = Some (s, r)"
  shows "system_inv tv (w\<lparr>sys_store := s\<rparr>)"
proof (cases "\<exists>p. publications_published (sys_catalogue w) (sci_definition_name input)
    (sci_definition_version input) = Inr (Some p)")
  case False
  then have "s = sys_store w"
    using start by (auto simp: StartPublishedCeremonyUseCase_execute_def publications_published_def
        split: sum.splits option.splits)
  then show ?thesis using inv by simp
next
  case True
  then obtain p where p: "publications_published (sys_catalogue w) (sci_definition_name input)
    (sci_definition_version input) = Inr (Some p)" ..
  then have o: "open_started (store_commit sha rfc) input now
      (CeremonyInstance_start_bound (sci_id input) p (sci_context input) now) (sys_store w) = Some (s, r)"
    using start by (simp add: StartPublishedCeremonyUseCase_execute_def)
  have wf: "definition_wf (pub_definition p)"
    using inv p by (auto simp: system_inv_def publications_published_def)
  have key: "def_name (pub_definition p) = sci_definition_name input"
    "def_version (pub_definition p) = sci_definition_version input"
    using catalogue.keyed [OF p] inv by (auto simp: system_inv_def)
  show ?thesis
  proof (rule open_started_effect [OF o])
    fix i f sealed
    assume "CeremonyInstance_start_bound (sci_id input) p (sci_context input) now = Some i" and r: "r = Inr i"
      and st: "store_instance s = (store_instance (sys_store w))(inst_id i := Some i)"
    note b = open_started_bound [OF o [unfolded r]]
    have "session_reachable tv (pub_definition p) (sci_context input) i"
      by (rule session_reachable.opened [OF b(4)])
    then have "bound_session_ok tv (sys_catalogue w) i"
      using b key p wf by (auto simp: bound_session_ok_def)
    then show ?thesis using inv st by (auto simp: system_inv_def split: if_splits)
  next
    assume "store_instance s = store_instance (sys_store w)"
    then show ?thesis using inv by (simp add: system_inv_def)
  qed
qed

lemma start_unpublished_ok:
  assumes inv: "system_inv tv w"
    and start: "StartCeremonyUseCase_execute get (store_commit sha rfc) input now (sys_store w) = Some (s, r)"
  shows "system_inv tv (w\<lparr>sys_store := s\<rparr>)"
proof (cases "get (sci_definition_name input) (sci_definition_version input)")
  case (Inl e)
  then have "s = sys_store w" using start by (simp add: StartCeremonyUseCase_execute_def)
  then show ?thesis using inv by simp
next
  case (Inr d)
  then have o: "open_started (store_commit sha rfc) input now
      (CeremonyInstance_start (sci_id input) d (sci_context input) now) (sys_store w) = Some (s, r)"
    using start by (simp add: StartCeremonyUseCase_execute_def)
  show ?thesis
  proof (rule open_started_effect [OF o])
    fix i f sealed
    assume "CeremonyInstance_start (sci_id input) d (sci_context input) now = Some i"
      and st: "store_instance s = (store_instance (sys_store w))(inst_id i := Some i)"
    then have "bound_session_ok tv (sys_catalogue w) i"
      by (auto simp: CeremonyInstance_start_def CeremonyInstance_open_def bound_session_ok_def split: option.splits)
    then show ?thesis using inv st by (auto simp: system_inv_def split: if_splits)
  next
    assume "store_instance s = store_instance (sys_store w)"
    then show ?thesis using inv by (simp add: system_inv_def)
  qed
qed

lemma change_session_ok:
  assumes ok: "bound_session_ok tv c i"
    and res: "ResolveCeremonyDefinitionUseCase_execute get (publications_published c) i = Inr d"
    and ch: "session_change tv add d i now j facts"
  shows "bound_session_ok tv c j"
proof -
  have same: "inst_definition_name j = inst_definition_name i"
    "inst_definition_version j = inst_definition_version i"
    "inst_bound_definition j = inst_bound_definition i"
    using steps_keep_identity [OF session_change_steps [OF ch]] by (simp_all add: inst_identity_def)
  show ?thesis
  proof (cases "inst_bound_definition i")
    case None
    then show ?thesis using same by (simp add: bound_session_ok_def)
  next
    case (Some dig)
    then obtain p ctx0 where
      p: "publications_published c (inst_definition_name i) (inst_definition_version i) = Inr (Some p)"
      "dig = pub_digest p" "definition_wf (pub_definition p)" "session_reachable tv (pub_definition p) ctx0 i"
      using ok by (auto simp: bound_session_ok_def)
    then have d: "d = pub_definition p"
      using res Some by (simp add: ResolveCeremonyDefinitionUseCase_execute_def)
    have "(session_step tv d)\<^sup>*\<^sup>* i j" by (rule session_change_steps [OF ch])
    then have "session_reachable tv d ctx0 j"
      by (induction rule: rtranclp_induct) (use p(4) d in \<open>auto intro: session_reachable.stepped\<close>)
    then show ?thesis using p d same Some by (auto simp: bound_session_ok_def)
  qed
qed

lemma change_ok:
  assumes inv: "system_inv tv w" and session: "session \<in> sys_loaded w"
    and res: "ResolveCeremonyDefinitionUseCase_execute get (publications_published (sys_catalogue w))
      (ls_instance session) = Inr d"
    and ch: "session_change tv add d (ls_instance session) now j facts"
    and com: "SessionJournal_commit (store_commit sha rfc) (session\<lparr>ls_instance := j\<rparr>) facts (sys_store w) = (s, r)"
  shows "system_inv tv (w\<lparr>sys_store := s,
    sys_loaded := sys_loaded w \<union> (case r of Inl _ \<Rightarrow> {} | Inr committed \<Rightarrow> {committed})\<rparr>)"
proof -
  have "bound_session_ok tv (sys_catalogue w) (ls_instance session)" using inv session by (simp add: system_inv_def)
  note ok = change_session_ok [OF this res ch]
  show ?thesis
  proof (rule journal_commit_effect [OF com])
    fix committed sealed
    assume "r = Inr committed" "ls_instance committed = ls_instance (session\<lparr>ls_instance := j\<rparr>)"
      "store_instance s = (store_instance (sys_store w))(inst_id (ls_instance (session\<lparr>ls_instance := j\<rparr>)) :=
         Some (ls_instance (session\<lparr>ls_instance := j\<rparr>)))"
    then show ?thesis using inv ok by (auto simp: system_inv_def split: if_splits)
  next
    fix e assume "r = Inl e" "store_instance s = store_instance (sys_store w)"
    then show ?thesis using inv by (simp add: system_inv_def)
  qed
qed

lemma outbox_keeps_instances:
  "store_append sha rfc f s = (s', r) \<Longrightarrow> store_instance s' = store_instance s"
  "store_claim add limit now lease s = Some (s', claimed) \<Longrightarrow> store_instance s' = store_instance s"
  "store_instance (store_mark_delivered ids s) = store_instance s"
  "store_instance (store_mark_failed eid s) = store_instance s"
  "store_instance (store_quarantine eid why s) = store_instance s"
proof -
  show "store_append sha rfc f s = (s', r) \<Longrightarrow> store_instance s' = store_instance s"
    by (auto simp: store_append_def Let_def fun_eq_iff entry_reads default_reads split: sum.splits)
  show "store_claim add limit now lease s = Some (s', claimed) \<Longrightarrow> store_instance s' = store_instance s"
    using same_but_outbox_reads(2) [OF claim_loop_same] by (fastforce simp: store_claim_def split: option.splits)
  show "store_instance (store_mark_delivered ids s) = store_instance s"
    "store_instance (store_mark_failed eid s) = store_instance s"
    "store_instance (store_quarantine eid why s) = store_instance s"
    using same_but_outbox_reads(2) [OF map_outbox_same]
    by (auto simp: store_mark_delivered_def store_mark_failed_def store_quarantine_def)
qed

lemma system_step_inv:
  assumes "system_step sha rfc vec tv add w w'" and "system_inv tv w"
  shows "system_inv tv w'"
  using assms
proof (induction rule: system_step.induct)
  case publish
  then show ?case by (blast intro: publish_step_ok)
next
  case start_published
  then show ?case by (blast intro: start_published_ok)
next
  case start_unpublished
  then show ?case by (blast intro: start_unpublished_ok)
next
  case (read_instance cid rv w i)
  then show ?case
    by (auto simp: system_inv_def store_get_def result_simps)
next
  case change
  then show ?case by (blast intro: change_ok)
qed (auto simp: system_inv_def outbox_keeps_instances)

lemma system_path_inv:
  assumes "(system_step sha rfc vec tv add)\<^sup>*\<^sup>* system_start w"
  shows "system_inv tv w"
  using assms
proof (induction rule: rtranclp_induct)
  case base
  show ?case by (simp add: system_inv_def system_start_def publications_keyed_def store_instance_def)
next
  case (step y z)
  then show ?case by (blast intro: system_step_inv)
qed

section \<open>The use cases on this store are paths of the system\<close>

text \<open>The world of a caller: the system, the memory in the process and the clock.\<close>

record world =
  w_system :: system
  w_memory :: session_memory
  w_clock :: timestamp

definition store_load :: "rstr \<Rightarrow> (world, loaded_session) effect" where
  "store_load cid w =
     (let sy = w_system w; s = sys_store sy;
          read = sy\<lparr>sys_readings := insert (cid, store_revision s cid) (sys_readings sy)\<rparr> in
      case SessionJournal_load store_revision store_get cid s s of
        Inl e \<Rightarrow> (Inl e, w\<lparr>w_system := read\<rparr>)
      | Inr session \<Rightarrow> (Inr session, w\<lparr>w_system := read\<lparr>sys_loaded := insert session (sys_loaded sy)\<rparr>\<rparr>))"

definition store_commit_session ::
    "(bytes \<Rightarrow> digest) \<Rightarrow> (timestamp \<Rightarrow> rstr option) \<Rightarrow> loaded_session \<Rightarrow> audit_fact list
      \<Rightarrow> (world, loaded_session) effect" where
  "store_commit_session sha256 rfc3339 session facts w =
     (let sy = w_system w in
      case SessionJournal_commit (store_commit sha256 rfc3339) session facts (sys_store sy) of
        (s, r) \<Rightarrow> (r, w\<lparr>w_system := sy\<lparr>sys_store := s,
          sys_loaded := sys_loaded sy \<union> (case r of Inl _ \<Rightarrow> {} | Inr committed \<Rightarrow> {committed})\<rparr>\<rparr>))"

definition store_ports ::
    "(bytes \<Rightarrow> digest) \<Rightarrow> (timestamp \<Rightarrow> rstr option) \<Rightarrow> (rstr \<Rightarrow> rstr \<Rightarrow> ceremony_definition outcome)
      \<Rightarrow> (ceremony_evidence_request \<Rightarrow> ceremony_evidence_pack outcome) \<Rightarrow> world session_ports" where
  "store_ports sha256 rfc3339 get collect =
     \<lparr>p_load = store_load,
      p_resolve = (\<lambda>i w. (ResolveCeremonyDefinitionUseCase_execute get
        (publications_published (sys_catalogue (w_system w))) i, w)),
      p_now = w_clock,
      p_commit = store_commit_session sha256 rfc3339,
      p_remember = (\<lambda>scope wr key w.
        case session_memory_remember scope wr key (w_memory w) of (m, r) \<Rightarrow> (w\<lparr>w_memory := m\<rparr>, r)),
      p_collect = (\<lambda>req w. (collect req, w))\<rparr>"

text \<open>The requests a session can receive.\<close>

datatype session_command =
    StartStep start_ceremony_step_input
  | CompleteStep complete_ceremony_step_input
  | ApplyTransition apply_ceremony_transition_input
  | ApproveGuard approve_ceremony_guard_input
  | DeferGuard defer_ceremony_guard_input
  | BindParticipants bind_ceremony_participants_input
  | RequestIntervention request_ceremony_intervention_input
  | RespondToIntervention respond_to_ceremony_intervention_input
  | CloseIntervention close_ceremony_intervention_input
  | CollectEvidence collect_ceremony_evidence_input
  | AssertReason assert_ceremony_reason_input

definition ignore_result :: "('w, 'a) effect \<Rightarrow> ('w, unit) effect" where
  "ignore_result m = eff_bind m (\<lambda>_. eff_lift (Inr ()))"

fun run_command ::
    "(timestamp \<Rightarrow> nat \<Rightarrow> timestamp option) \<Rightarrow> (ceremony_evidence_pack \<Rightarrow> json option) \<Rightarrow> 'w session_ports
      \<Rightarrow> session_command \<Rightarrow> ('w, unit) effect" where
  "run_command add tv ports (StartStep x) = ignore_result (StartCeremonyStepUseCase_execute add ports x)"
| "run_command add tv ports (CompleteStep x) = ignore_result (CompleteCeremonyStepUseCase_execute ports x)"
| "run_command add tv ports (ApplyTransition x) = ignore_result (ApplyCeremonyTransitionUseCase_execute ports x)"
| "run_command add tv ports (ApproveGuard x) = ignore_result (ApproveCeremonyGuardUseCase_execute ports x)"
| "run_command add tv ports (DeferGuard x) = ignore_result (DeferCeremonyGuardUseCase_execute ports x)"
| "run_command add tv ports (BindParticipants x) = ignore_result (BindCeremonyParticipantsUseCase_execute ports x)"
| "run_command add tv ports (RequestIntervention x) =
     ignore_result (RequestCeremonyInterventionUseCase_execute ports x)"
| "run_command add tv ports (RespondToIntervention x) =
     ignore_result (RespondToCeremonyInterventionUseCase_execute ports x)"
| "run_command add tv ports (CloseIntervention x) = ignore_result (CloseCeremonyInterventionUseCase_execute ports x)"
| "run_command add tv ports (CollectEvidence x) =
     ignore_result (CollectCeremonyEvidenceUseCase_execute tv ports x)"
| "run_command add tv ports (AssertReason x) = ignore_result (AssertCeremonyReasonUseCase_execute ports x)"

text \<open>The inputs a command can carry: the result of a step passed its constructor.\<close>

fun command_ok :: "session_command \<Rightarrow> bool" where
  "command_ok (CompleteStep x) = (\<exists>status out err. StepResult_new status out err = Inr (csi_result x))"
| "command_ok _ = True"

lemma eff_bind_split:
  "eff_bind m f w = (r, w'') \<longleftrightarrow>
     (\<exists>e. m w = (Inl e, w'') \<and> r = Inl e) \<or> (\<exists>x w'. m w = (Inr x, w') \<and> f x w' = (r, w''))"
  by (auto simp: eff_bind_def split: prod.splits sum.splits)

lemma ignore_result_split:
  "ignore_result m w = (r, w') \<longleftrightarrow> (\<exists>r'. m w = (r', w') \<and> r = map_ok (\<lambda>_. ()) r')"
  by (auto simp: ignore_result_def eff_bind_def split: prod.splits sum.splits)

text \<open>What may happen to the world: the system takes steps, or only the memory changes.\<close>

lemma store_load_path:
  assumes "store_load cid w = (r, w')"
  shows "(system_step sha rfc vec tv add)\<^sup>*\<^sup>* (w_system w) (w_system w')"
    and "w_memory w' = w_memory w" and "sys_store (w_system w') = sys_store (w_system w)"
    and "sys_catalogue (w_system w') = sys_catalogue (w_system w)"
    and "r = Inr session \<Longrightarrow> session \<in> sys_loaded (w_system w')"
proof -
  let ?sy = "w_system w" let ?s = "sys_store ?sy"
  let ?read = "?sy\<lparr>sys_readings := insert (cid, store_revision ?s cid) (sys_readings ?sy)\<rparr>"
  have read: "system_step sha rfc vec tv add ?sy ?read" by (rule system_step.read_revision)
  show "w_memory w' = w_memory w" "sys_store (w_system w') = sys_store (w_system w)"
    "sys_catalogue (w_system w') = sys_catalogue (w_system w)"
    "r = Inr session \<Longrightarrow> session \<in> sys_loaded (w_system w')"
    using assms by (auto simp: store_load_def Let_def split: sum.splits)
  show "(system_step sha rfc vec tv add)\<^sup>*\<^sup>* ?sy (w_system w')"
  proof (cases "store_get ?s cid")
    case (Inl e)
    then have "w_system w' = ?read" using assms by (auto simp: store_load_def SessionJournal_load_def Let_def)
    then show ?thesis using read by auto
  next
    case (Inr i)
    then have w': "w_system w' = ?read\<lparr>sys_loaded := insert \<lparr>ls_instance = i,
        ls_expected = expected_of (store_revision ?s cid)\<rparr> (sys_loaded ?read)\<rparr>"
      using assms by (auto simp: store_load_def SessionJournal_load_def Let_def expected_of_def)
    have "system_step sha rfc vec tv add ?read (w_system w')"
      unfolding w' by (rule system_step.read_instance [of cid]) (simp_all add: Inr)
    with read show ?thesis by (meson converse_rtranclp_into_rtranclp r_into_rtranclp)
  qed
qed

lemma store_commit_path:
  assumes "store_commit_session sha rfc (session\<lparr>ls_instance := j\<rparr>) facts w = (r, w')"
    and "session \<in> sys_loaded (w_system w)"
    and "ResolveCeremonyDefinitionUseCase_execute get (publications_published (sys_catalogue (w_system w)))
      (ls_instance session) = Inr d"
    and "session_change tv add d (ls_instance session) now j facts"
  shows "system_step sha rfc vec tv add (w_system w) (w_system w')" and "w_memory w' = w_memory w"
  using assms system_step.change [OF assms(2,3,4)]
  by (auto simp: store_commit_session_def Let_def split: prod.splits)

lemma store_commit_refused:
  assumes "store_commit_session sha rfc session facts w = (Inl e, w')"
  shows "store_instance (sys_store (w_system w')) = store_instance (sys_store (w_system w))"
    and "store_records (sys_store (w_system w')) = store_records (sys_store (w_system w))"
    and "w_memory w' = w_memory w"
proof -
  from assms have c: "SessionJournal_commit (store_commit sha rfc) session facts (sys_store (w_system w)) =
      (sys_store (w_system w'), Inl e)"
    by (auto simp: store_commit_session_def Let_def split: prod.splits)
  show "store_instance (sys_store (w_system w')) = store_instance (sys_store (w_system w))"
    "store_records (sys_store (w_system w')) = store_records (sys_store (w_system w))"
    by (rule journal_commit_effect [OF c]; simp)+
  show "w_memory w' = w_memory w"
    using assms by (auto simp: store_commit_session_def Let_def split: prod.splits)
qed

text \<open>Telling the memory changes nothing else.\<close>

lemma remembering_keeps_system:
  assumes "\<And>scope wr key w. w_system (fst (remember scope wr key w)) = w_system w"
  shows "w_system (remember_contribution remember i item w) = w_system w"
    and "w_system (remember_guard_decision remember i r w) = w_system w"
    and "w_system (remember_ending remember i d w) = w_system w"
    and "w_system (remember_reason remember i n w) = w_system w"
proof -
  have key: "w_system (write_with_key remember i wr k w) = w_system w" for wr k
    using assms by (auto simp: write_with_key_def split: sum.splits prod.splits)
  then have rec: "w_system (write_record remember i wr r w) = w_system w" for wr r
    by (simp add: write_record_def split: sum.splits)
  show "w_system (remember_contribution remember i item w) = w_system w"
    by (simp add: remember_contribution_def Let_def rec split: option.splits sum.splits)
  show "w_system (remember_guard_decision remember i r w) = w_system w"
    by (simp add: remember_guard_decision_def rec split: option.splits sum.splits)
  show "w_system (remember_ending remember i d w) = w_system w"
    by (simp add: remember_ending_def rec split: option.splits sum.splits prod.splits)
  show "w_system (remember_reason remember i n w) = w_system w"
    by (simp add: remember_reason_def key split: option.splits sum.splits)
qed

lemma store_remember_system:
  "w_system (fst (p_remember (store_ports sha rfc get collect) scope wr key w)) = w_system w"
  by (simp add: store_ports_def split: prod.split)

lemmas store_remembering = remembering_keeps_system
  [where remember = "p_remember (store_ports sha rfc get collect)" for sha rfc get collect, OF store_remember_system]

definition unchanged :: "world \<Rightarrow> world \<Rightarrow> bool" where
  "unchanged w w' =
     (store_instance (sys_store (w_system w')) = store_instance (sys_store (w_system w)) \<and>
      store_records (sys_store (w_system w')) = store_records (sys_store (w_system w)) \<and>
      w_memory w' = w_memory w)"

text \<open>
  The tail the use cases share, from a loaded session on: a path of the system, and nothing
  to be seen when it fails.
\<close>

lemma commit_tail:
  assumes run: "eff_bind (p_commit (store_ports sha rfc get collect) (session\<lparr>ls_instance := j\<rparr>) facts) (\<lambda>committed.
      eff_bind (eff_do (afterwards (ls_instance committed))) (\<lambda>_. eff_lift (Inr (result committed)))) w = (r, w')"
    and session: "session \<in> sys_loaded (w_system w)"
    and res: "ResolveCeremonyDefinitionUseCase_execute get (publications_published (sys_catalogue (w_system w)))
      (ls_instance session) = Inr d"
    and ch: "session_change tv add d (ls_instance session) now j facts"
    and af: "\<And>i w. w_system (afterwards i w) = w_system w"
  shows "(system_step sha rfc vec tv add)\<^sup>*\<^sup>* (w_system w) (w_system w') \<and> (\<not> is_ok r \<longrightarrow> unchanged w w')"
proof -
  obtain rc w1 where c: "p_commit (store_ports sha rfc get collect) (session\<lparr>ls_instance := j\<rparr>) facts w = (rc, w1)" by fastforce
  then have c': "store_commit_session sha rfc (session\<lparr>ls_instance := j\<rparr>) facts w = (rc, w1)"
    by (simp add: store_ports_def)
  note path = store_commit_path(1) [OF c' session res ch, where vec = vec] store_commit_path(2) [OF c' session res ch]
  show ?thesis
  proof (cases rc)
    case (Inl e)
    then have "r = Inl e" "w' = w1" using run c by (auto simp: eff_bind_def)
    then show ?thesis using path store_commit_refused [OF c' [unfolded Inl]] by (auto simp: unchanged_def)
  next
    case (Inr committed)
    then have "is_ok r" "w' = afterwards (ls_instance committed) w1"
      using run c by (auto simp: eff_bind_def eff_do_def eff_lift_def)
    then show ?thesis using path af by auto
  qed
qed

lemma store_resolve:
  "p_resolve (store_ports sha rfc get collect) i w = (ResolveCeremonyDefinitionUseCase_execute get
     (publications_published (sys_catalogue (w_system w))) i, w)"
  "p_load (store_ports sha rfc get collect) = store_load"
  "p_collect (store_ports sha rfc get collect) req w = (collect req, w)"
  by (simp_all add: store_ports_def)

lemma store_binds:
  "eff_bind (eff_lift x) f w = (case x of Inl e \<Rightarrow> (Inl e, w) | Inr y \<Rightarrow> f y w)"
  "eff_bind (eff_get g) f' w = f' (g w) w"
  "eff_bind (p_load (store_ports sha rfc get collect) cid) f1 w =
     (case store_load cid w of (Inl e, w1) \<Rightarrow> (Inl e, w1) | (Inr session, w1) \<Rightarrow> f1 session w1)"
  "eff_bind (p_resolve (store_ports sha rfc get collect) i) f2 w =
     (case ResolveCeremonyDefinitionUseCase_execute get (publications_published (sys_catalogue (w_system w))) i of
        Inl e \<Rightarrow> (Inl e, w) | Inr d \<Rightarrow> f2 d w)"
  "eff_bind (p_collect (store_ports sha rfc get collect) req) f3 w =
     (case collect req of Inl e \<Rightarrow> (Inl e, w) | Inr pack \<Rightarrow> f3 pack w)"
  by (simp_all add: eff_bind_def eff_lift_def eff_get_def store_resolve split: sum.split)

lemma session_use_case_path:
  assumes run: "session_use_case (store_ports sha rfc get collect) cid change afterwards w = (r, w')"
    and ch: "\<And>d i now j facts x. change d i now = Inr (j, facts, x) \<Longrightarrow> session_change tv add d i now j facts"
    and af: "\<And>d i w. w_system (afterwards d i w) = w_system w"
  shows "(system_step sha rfc vec tv add)\<^sup>*\<^sup>* (w_system w) (w_system w') \<and> (\<not> is_ok r \<longrightarrow> unchanged w w')"
proof -
  obtain rl w1 where l: "store_load cid w = (rl, w1)" by fastforce
  note load = store_load_path [OF l]
  have un: "unchanged w w1" using load by (simp add: unchanged_def)
  show ?thesis
  proof (cases rl)
    case (Inl e)
    then have "w' = w1" using run l by (simp add: session_use_case_def store_binds)
    then show ?thesis using load(1) un by auto
  next
    case (Inr session)
    let ?i = "ls_instance session"
    have loaded: "session \<in> sys_loaded (w_system w1)" by (rule load(5) [OF Inr])
    show ?thesis
    proof (cases "ResolveCeremonyDefinitionUseCase_execute get
        (publications_published (sys_catalogue (w_system w1))) ?i")
      case (Inl e)
      then have "w' = w1" using run l \<open>rl = Inr session\<close> by (simp add: session_use_case_def store_binds)
      then show ?thesis using load(1) un by auto
    next
      case res: (Inr d)
      show ?thesis
      proof (cases "change d ?i (p_now (store_ports sha rfc get collect) w1)")
        case (Inl e)
        then have "w' = w1"
          using run l \<open>rl = Inr session\<close> res by (simp add: session_use_case_def store_binds)
        then show ?thesis using load(1) un by auto
      next
        case (Inr x)
        then obtain j facts y where x: "change d ?i (p_now (store_ports sha rfc get collect) w1) = Inr (j, facts, y)"
          by (cases x) auto
        have tail: "eff_bind (p_commit (store_ports sha rfc get collect) (session\<lparr>ls_instance := j\<rparr>) facts) (\<lambda>committed.
            eff_bind (eff_do (afterwards d (ls_instance committed))) (\<lambda>_.
            eff_lift (Inr (ls_instance committed, y)))) w1 = (r, w')"
          using run l \<open>rl = Inr session\<close> res x by (simp add: session_use_case_def store_binds)
        from commit_tail [OF tail loaded res ch [OF x] af]
        have "(system_step sha rfc vec tv add)\<^sup>*\<^sup>* (w_system w1) (w_system w')" "\<not> is_ok r \<longrightarrow> unchanged w1 w'"
          by blast+
        then show ?thesis using rtranclp_trans [OF load(1)] un by (simp add: unchanged_def)
      qed
    qed
  qed
qed

lemma collect_evidence_path:
  assumes run: "CollectCeremonyEvidenceUseCase_execute tv (store_ports sha rfc get collect) input w = (r, w')"
  shows "(system_step sha rfc vec tv add)\<^sup>*\<^sup>* (w_system w) (w_system w') \<and> (\<not> is_ok r \<longrightarrow> unchanged w w')"
proof -
  obtain rl w1 where l: "store_load (cei_instance_id input) w = (rl, w1)" by fastforce
  note load = store_load_path [OF l]
  have un: "unchanged w w1" using load by (simp add: unchanged_def)
  let ?now = "p_now (store_ports sha rfc get collect) w1"
  have stop: ?thesis if "w' = w1" using that load(1) un by auto
  consider (stopped) "w' = w1"
    | (went) session d req pack j facts u where "rl = Inr session"
      "ResolveCeremonyDefinitionUseCase_execute get (publications_published (sys_catalogue (w_system w1)))
        (ls_instance session) = Inr d"
      "CollectCeremonyEvidence_change tv input req pack d (ls_instance session) ?now = Inr (j, facts, u)"
      "eff_bind (p_commit (store_ports sha rfc get collect) (session\<lparr>ls_instance := j\<rparr>) facts) (\<lambda>committed.
        eff_bind (eff_do (remember_contribution (p_remember (store_ports sha rfc get collect)) (ls_instance committed)
          (ereq_intervention_id req))) (\<lambda>_. eff_lift (Inr (ls_instance committed)))) w1 = (r, w')"
    using run l unfolding CollectCeremonyEvidenceUseCase_execute_def
    by (simp add: store_binds split: sum.splits prod.splits)
  then show ?thesis
  proof cases
    case stopped
    then show ?thesis by (rule stop)
  next
    case went
    have "(system_step sha rfc vec tv add)\<^sup>*\<^sup>* (w_system w1) (w_system w') \<and> (\<not> is_ok r \<longrightarrow> unchanged w1 w')"
      by (rule commit_tail [OF went(4) load(5) [OF went(1)] went(2) session_change.collect_evidence [OF went(3)]])
        (rule store_remembering(1))
    then show ?thesis using rtranclp_trans [OF load(1)] un by (simp add: unchanged_def)
  qed
qed

lemma use_case_result:
  assumes "eff_bind m (\<lambda>(j, x). eff_lift (Inr (f j x))) w = (r, w')"
  shows "\<exists>r'. m w = (r', w') \<and> (is_ok r \<longleftrightarrow> is_ok r')"
  using assms by (auto simp: eff_bind_def eff_lift_def split: prod.splits sum.splits)

lemma nothing_afterwards_system: "w_system (nothing_afterwards d i w) = w_system w"
  by (simp add: nothing_afterwards_def)

lemma command_path:
  assumes run: "ignore_result (eff_bind (session_use_case (store_ports sha rfc get collect) cid change afterwards)
      (\<lambda>(j, x). eff_lift (Inr (f j x)))) w = (r, w')"
    and ch: "\<And>d i now j facts x. change d i now = Inr (j, facts, x) \<Longrightarrow> session_change tv add d i now j facts"
    and af: "\<And>d i w. w_system (afterwards d i w) = w_system w"
  shows "(system_step sha rfc vec tv add)\<^sup>*\<^sup>* (w_system w) (w_system w') \<and> (\<not> is_ok r \<longrightarrow> unchanged w w')"
proof -
  from run obtain r1 where r1: "eff_bind (session_use_case (store_ports sha rfc get collect) cid change afterwards)
      (\<lambda>(j, x). eff_lift (Inr (f j x))) w = (r1, w')" and "is_ok r \<longleftrightarrow> is_ok r1"
    unfolding ignore_result_split by (auto simp: is_ok_iff map_ok_eq_Inr)
  with use_case_result [OF r1] obtain r2 where
    r2: "session_use_case (store_ports sha rfc get collect) cid change afterwards w = (r2, w')"
    and "is_ok r \<longleftrightarrow> is_ok r2" by blast
  moreover have "(system_step sha rfc vec tv add)\<^sup>*\<^sup>* (w_system w) (w_system w') \<and> (\<not> is_ok r2 \<longrightarrow> unchanged w w')"
    by (rule session_use_case_path [OF r2]) (auto intro: ch simp: af)
  ultimately show ?thesis by simp
qed

lemma run_command_path:
  assumes "command_ok c" and "run_command add tv (store_ports sha rfc get collect) c w = (r, w')"
  shows "(system_step sha rfc vec tv add)\<^sup>*\<^sup>* (w_system w) (w_system w') \<and> (\<not> is_ok r \<longrightarrow> unchanged w w')"
proof (cases c)
  case (StartStep x)
  show ?thesis
    by (rule command_path [OF assms(2) [unfolded StartStep run_command.simps StartCeremonyStepUseCase_execute_def]])
      (auto simp: nothing_afterwards_system intro: session_change.start_step)
next
  case (CompleteStep x)
  show ?thesis
    by (rule command_path [OF assms(2) [unfolded CompleteStep run_command.simps CompleteCeremonyStepUseCase_execute_def]])
      (use assms(1) in \<open>auto simp: CompleteStep nothing_afterwards_system intro: session_change.complete_step\<close>)
next
  case (ApplyTransition x)
  show ?thesis
    by (rule command_path [OF assms(2) [unfolded ApplyTransition run_command.simps ApplyCeremonyTransitionUseCase_execute_def]])
      (auto simp: store_remembering intro: session_change.apply_transition)
next
  case (ApproveGuard x)
  show ?thesis
    by (rule command_path [OF assms(2) [unfolded ApproveGuard run_command.simps ApproveCeremonyGuardUseCase_execute_def]])
      (auto simp: store_remembering intro: session_change.approve_guard)
next
  case (DeferGuard x)
  show ?thesis
    by (rule command_path [OF assms(2) [unfolded DeferGuard run_command.simps DeferCeremonyGuardUseCase_execute_def]])
      (auto simp: store_remembering intro: session_change.defer_guard)
next
  case (BindParticipants x)
  show ?thesis
    by (rule command_path [OF assms(2) [unfolded BindParticipants run_command.simps BindCeremonyParticipantsUseCase_execute_def]])
      (auto simp: nothing_afterwards_system intro: session_change.bind_participants)
next
  case (RequestIntervention x)
  show ?thesis
    by (rule command_path [OF assms(2) [unfolded RequestIntervention run_command.simps RequestCeremonyInterventionUseCase_execute_def]])
      (auto simp: nothing_afterwards_system intro: session_change.request_intervention)
next
  case (RespondToIntervention x)
  show ?thesis
    by (rule command_path [OF assms(2) [unfolded RespondToIntervention run_command.simps RespondToCeremonyInterventionUseCase_execute_def]])
      (auto simp: store_remembering intro: session_change.respond)
next
  case (CloseIntervention x)
  show ?thesis
    by (rule command_path [OF assms(2) [unfolded CloseIntervention run_command.simps CloseCeremonyInterventionUseCase_execute_def]])
      (auto simp: nothing_afterwards_system intro: session_change.close_intervention)
next
  case (CollectEvidence x)
  then obtain r1 where r1: "CollectCeremonyEvidenceUseCase_execute tv (store_ports sha rfc get collect) x w = (r1, w')"
    and "is_ok r \<longleftrightarrow> is_ok r1"
    using assms(2) by (auto simp: ignore_result_split is_ok_iff map_ok_eq_Inr)
  then show ?thesis using collect_evidence_path [OF r1] by blast
next
  case (AssertReason x)
  show ?thesis
    by (rule command_path [OF assms(2) [unfolded AssertReason run_command.simps AssertCeremonyReasonUseCase_execute_def]])
      (auto simp: store_remembering intro: session_change.assert_reason)
qed

section \<open>Properties of the system\<close>

text \<open>
  C5. Sessions in the store always follow their definitions: however many callers publish,
  start, change and read concurrently, every stored session that was started from a published
  definition has that definition in the catalogue under its name, version and digest, was
  reached from its opening by operations of that definition alone, and satisfies the session
  invariant.
\<close>

theorem stored_sessions_follow_definition:
  assumes "(system_step sha256 rfc3339 to_vec to_value checked_add)\<^sup>*\<^sup>* system_start w"
    and "store_instance (sys_store w) cid = Some i" and "inst_bound_definition i = Some digest"
  shows "\<exists>p ctx0. bt_get (sys_catalogue w) (inst_definition_name i, inst_definition_version i) = Some p \<and>
    pub_digest p = digest \<and> session_reachable to_value (pub_definition p) ctx0 i \<and>
    inst_wf (pub_definition p) ctx0 i"
proof -
  from system_path_inv [OF assms(1)] assms(2)
  have "bound_session_ok to_value (sys_catalogue w) i" by (auto simp: system_inv_def)
  with assms(3) obtain p ctx0 where
    "bt_get (sys_catalogue w) (inst_definition_name i, inst_definition_version i) = Some p"
    "pub_digest p = digest" "definition_wf (pub_definition p)" and
    r: "session_reachable to_value (pub_definition p) ctx0 i"
    by (auto simp: bound_session_ok_def publications_published_def)
  with reachable_wf [OF r] show ?thesis by blast
qed

definition demo_system :: system where
  "demo_system = system_start\<lparr>sys_catalogue := demo_catalogue\<rparr>"

definition demo_system_started :: system where
  "demo_system_started = demo_system\<lparr>sys_store := fst (the (StartPublishedCeremonyUseCase_execute
     (publications_published demo_catalogue) (store_commit (\<lambda>_. [7]) demo_rfc) demo_start_input 0 []))\<rparr>"

lemma demo_publish_step:
  "system_step (\<lambda>_. [7]) demo_rfc (\<lambda>_. Some []) tv add system_start demo_system"
proof -
  have "PublishedCeremonyDefinition_seal (\<lambda>_. [7]) (\<lambda>_. Some []) demo_definition = Inr demo_published"
    by (simp add: PublishedCeremonyDefinition_seal_def CeremonyDefinition_digest_def of_canonical_form_def
        demo_published_def)
  then have "PublishCeremonyDefinitionUseCase_execute (\<lambda>_. [7]) (\<lambda>_. Some []) publications_publish demo_definition
      (sys_catalogue system_start) = (demo_catalogue, Inr (Published demo_published))"
    by (simp add: PublishCeremonyDefinitionUseCase_execute_def system_start_def publications_publish_def
        publication_key_def demo_catalogue_def) (simp add: demo_published_def demo_definition_def)
  from system_step.publish [OF demo_wf this] show ?thesis by (simp add: demo_system_def)
qed

lemma demo_start_step:
  "system_step (\<lambda>_. [7]) demo_rfc (\<lambda>_. Some []) tv add demo_system demo_system_started"
  "store_instance (sys_store demo_system_started) (lit ''c1'') =
     Some (demo_opened\<lparr>inst_bound_definition := Some [7]\<rparr>)"
proof -
  obtain st where st: "StartPublishedCeremonyUseCase_execute (publications_published demo_catalogue)
      (store_commit (\<lambda>_. [7]) demo_rfc) demo_start_input 0 [] =
    Some (st, Inr (demo_opened\<lparr>inst_bound_definition := Some [7]\<rparr>))"
    using demo_start_published [of "\<lambda>_. [7]"] by blast
  have sys: "sys_catalogue demo_system = demo_catalogue" "sys_store demo_system = []"
    by (simp_all add: demo_system_def system_start_def)
  show "system_step (\<lambda>_. [7]) demo_rfc (\<lambda>_. Some []) tv add demo_system demo_system_started"
    using system_step.start_published [of demo_system "\<lambda>_. [7]" demo_rfc demo_start_input 0] st
    by (simp add: sys demo_system_started_def)
  from st obtain opened where "open_started (store_commit (\<lambda>_. [7]) demo_rfc) demo_start_input 0 opened [] =
      Some (st, Inr (demo_opened\<lparr>inst_bound_definition := Some [7]\<rparr>))"
    by (auto simp: StartPublishedCeremonyUseCase_execute_def split: sum.splits)
  then have "store_instance st (lit ''c1'') = Some (demo_opened\<lparr>inst_bound_definition := Some [7]\<rparr>)"
    by (rule open_started_effect) auto
  then show "store_instance (sys_store demo_system_started) (lit ''c1'') =
     Some (demo_opened\<lparr>inst_bound_definition := Some [7]\<rparr>)"
    by (simp add: demo_system_started_def st)
qed

theorem stored_sessions_follow_definition_witness:
  "\<exists>p ctx0. bt_get (sys_catalogue demo_system_started) (lit ''demo'', CeremonyVersion_v1) = Some p \<and>
     session_reachable (\<lambda>_. None) (pub_definition p) ctx0 (demo_opened\<lparr>inst_bound_definition := Some [7]\<rparr>)"
proof -
  have path: "(system_step (\<lambda>_. [7]) demo_rfc (\<lambda>_. Some []) (\<lambda>_. None) (\<lambda>_ _. None))\<^sup>*\<^sup>* system_start demo_system_started"
    using demo_publish_step demo_start_step(1) by (meson converse_rtranclp_into_rtranclp r_into_rtranclp)
  from stored_sessions_follow_definition [OF path demo_start_step(2)] show ?thesis by auto
qed

text \<open>
  C6. Nothing changes unrecorded: whenever a step of the system changes what is stored of a
  session, at least one audit record of that session is sealed at the end of its journal in
  the same step, and the records that were there stay as they were.
\<close>

theorem no_unrecorded_change:
  assumes "system_step sha256 rfc3339 to_vec to_value checked_add w w'"
    and "store_instance (sys_store w') cid \<noteq> store_instance (sys_store w) cid"
  shows "\<exists>sealed. sealed \<noteq> [] \<and>
    store_records (sys_store w') cid = store_records (sys_store w) cid @ sealed"
  using assms
proof (induction rule: system_step.induct)
  case (start_published w input now s r)
  then obtain opened where "open_started (store_commit sha256 rfc3339) input now opened (sys_store w) = Some (s, r)"
    by (auto simp: StartPublishedCeremonyUseCase_execute_def split: sum.splits)
  then show ?case by (rule open_started_effect) (use start_published.prems in \<open>auto split: if_splits\<close>)
next
  case (start_unpublished get input now w s r)
  then obtain opened where "open_started (store_commit sha256 rfc3339) input now opened (sys_store w) = Some (s, r)"
    by (auto simp: StartCeremonyUseCase_execute_def split: sum.splits)
  then show ?case by (rule open_started_effect) (use start_unpublished.prems in \<open>auto split: if_splits\<close>)
next
  case (change session w get d now j facts s r)
  show ?case
    by (rule journal_commit_effect [OF change.hyps(4)])
      (use change.prems session_change_recorded [OF change.hyps(3)] in \<open>auto split: if_splits\<close>)
qed (auto simp: outbox_keeps_instances)

theorem no_unrecorded_change_witness:
  "\<exists>sealed. sealed \<noteq> [] \<and> store_records (sys_store demo_system_started) (lit ''c1'') = sealed"
proof -
  have before: "store_instance (sys_store demo_system) (lit ''c1'') = None"
    "store_records (sys_store demo_system) (lit ''c1'') = []"
    by (simp_all add: demo_system_def system_start_def store_reads)
  from no_unrecorded_change [OF demo_start_step(1) [of "\<lambda>_. None" "\<lambda>_ _. None"], of "lit ''c1''"]
  show ?thesis by (simp add: before demo_start_step(2))
qed

text \<open>
  C15. The use cases on the in-memory store implement the system: executing any request that
  changes a session (steps, transitions, guards, seats, agenda items, evidence, reasons) moves
  the system along its steps, so the two properties above hold for every mix of requests.
\<close>

theorem use_cases_refine_system:
  assumes "command_ok c"
    and "run_command checked_add to_value (store_ports sha256 rfc3339 get collect) c w = (r, w')"
  shows "(system_step sha256 rfc3339 to_vec to_value checked_add)\<^sup>*\<^sup>* (w_system w) (w_system w')"
  using run_command_path [OF assms] by blast

definition demo_world :: world where
  "demo_world = \<lparr>w_system = demo_system_started, w_memory = [], w_clock = 6\<rparr>"

definition demo_approval :: session_command where
  "demo_approval = ApproveGuard \<lparr>agi_instance_id = lit ''c1'', agi_guard_name = lit ''ok'',
     agi_role_id = lit ''host'', agi_role_kind = Human\<rparr>"

theorem use_cases_refine_system_witness:
  "(system_step (\<lambda>_. [7]) demo_rfc (\<lambda>_. Some []) (\<lambda>_. None) (\<lambda>_ _. None))\<^sup>*\<^sup>* demo_system_started
     (w_system (snd (run_command (\<lambda>_ _. None) (\<lambda>_. None)
       (store_ports (\<lambda>_. [7]) demo_rfc (definitions_get []) (\<lambda>_. Inl (NotFound ''source'')))
       demo_approval demo_world)))"
proof -
  have "command_ok demo_approval" by (simp add: demo_approval_def)
  moreover obtain r w' where run: "run_command (\<lambda>_ _. None) (\<lambda>_. None)
      (store_ports (\<lambda>_. [7]) demo_rfc (definitions_get []) (\<lambda>_. Inl (NotFound ''source'')))
      demo_approval demo_world = (r, w')" by fastforce
  ultimately have "(system_step (\<lambda>_. [7]) demo_rfc (\<lambda>_. Some []) (\<lambda>_. None) (\<lambda>_ _. None))\<^sup>*\<^sup>*
      (w_system demo_world) (w_system w')" by (rule use_cases_refine_system)
  then show ?thesis unfolding run by (simp add: demo_world_def)
qed

text \<open>
  C17. A request that fails leaves no trace: whatever the error and wherever it happened, every
  stored session, every journal and the memory are as they were before the request.
\<close>

theorem failed_use_case_changes_nothing:
  assumes "command_ok c"
    and "run_command checked_add to_value (store_ports sha256 rfc3339 get collect) c w = (Inl e, w')"
  shows "store_instance (sys_store (w_system w')) = store_instance (sys_store (w_system w)) \<and>
    store_records (sys_store (w_system w')) = store_records (sys_store (w_system w)) \<and>
    w_memory w' = w_memory w"
  using run_command_path [OF assms] by (simp add: unchanged_def)

theorem failed_use_case_changes_nothing_witness:
  "store_instance (sys_store (w_system (snd (run_command (\<lambda>_ _. None) (\<lambda>_. None)
     (store_ports (\<lambda>_. [7]) demo_rfc (definitions_get []) (\<lambda>_. Inl (NotFound ''source'')))
     demo_approval (demo_world\<lparr>w_system := system_start\<rparr>))))) = store_instance []"
proof -
  let ?run = "run_command (\<lambda>_ _. None) (\<lambda>_. None)
     (store_ports (\<lambda>_. [7]) demo_rfc (definitions_get []) (\<lambda>_. Inl (NotFound ''source'')))
     demo_approval (demo_world\<lparr>w_system := system_start\<rparr>)"
  obtain w1 where "store_load (lit ''c1'') (demo_world\<lparr>w_system := system_start\<rparr>) =
      (Inl (NotFound ''ceremony_instance''), w1)"
    by (simp add: store_load_def SessionJournal_load_def system_start_def Let_def store_get_def store_instance_def)
  then have "fst ?run = Inl (NotFound ''ceremony_instance'')"
    by (simp add: demo_approval_def ApproveCeremonyGuardUseCase_execute_def session_use_case_def
        ignore_result_def eff_bind_def store_resolve)
  then have err: "?run = (Inl (NotFound ''ceremony_instance''), snd ?run)" by (metis prod.collapse)
  have "command_ok demo_approval" by (simp add: demo_approval_def)
  from failed_use_case_changes_nothing [OF this err] show ?thesis by (simp add: system_start_def)
qed

end
