(* ===== verification/Ceremony_Driver.thy ===== *)
theory Ceremony_Driver
  imports Ceremony_System
begin

text \<open>
  Running a ceremony from its opening to its end
  (\<open>choreo-app/src/usecases/run_ceremony_use_case.rs\<close>) and running one step of it
  (\<open>run_ceremony_step_use_case.rs\<close>), with the transcript they pass to the step handlers.  The
  handler, the transcript store, the clock and the metrics are ports.  The locale
  \<open>driver_environment\<close> says what the driver relies on: what it loads is what is stored, and
  whatever other callers do to the session while the driver waits (the relation \<open>meanwhile\<close>)
  is done by session steps.  Proved inside it: a run that ends well leaves a completed session
  whose every step the driver ran succeeded, and the safety limit never stops a session that
  cannot come back to a state it has been in.
\<close>

section \<open>Transcripts\<close>

record ceremony_step_contribution =
  contrib_step_id :: rstr
  contrib_role_id :: rstr
  contrib_output :: step_output

type_synonym ceremony_transcript = "ceremony_step_contribution list"

definition CeremonyTranscript_appended ::
    "ceremony_transcript \<Rightarrow> ceremony_step_contribution \<Rightarrow> ceremony_transcript" where
  "CeremonyTranscript_appended t c = t @ [c]"

type_synonym transcript_store = "(rstr, ceremony_transcript) btree_map"

definition transcript_store_append ::
    "rstr \<Rightarrow> ceremony_step_contribution \<Rightarrow> transcript_store \<Rightarrow> transcript_store" where
  "transcript_store_append cid c s =
     bt_insert cid ((case bt_get s cid of None \<Rightarrow> [] | Some t \<Rightarrow> t) @ [c]) s"

definition transcript_store_transcript :: "transcript_store \<Rightarrow> rstr \<Rightarrow> ceremony_transcript" where
  "transcript_store_transcript s cid = (case bt_get s cid of None \<Rightarrow> [] | Some t \<Rightarrow> t)"

section \<open>Ports\<close>

record ceremony_step_handler_request =
  hreq_instance_id :: rstr
  hreq_definition_name :: rstr
  hreq_definition_version :: rstr
  hreq_current_state :: rstr
  hreq_step_id :: rstr
  hreq_handler_kind :: rstr
  hreq_handler_config :: attributes
  hreq_context :: ceremony_context
  hreq_attempt :: step_attempt
  hreq_transcript :: ceremony_transcript
  hreq_interventions :: "ceremony_intervention list"
  hreq_role_id :: "rstr option"
  hreq_bound_specialty :: "rstr option"

definition CeremonyStepHandlerRequest_new ::
    "ceremony_instance \<Rightarrow> ceremony_step \<Rightarrow> step_attempt \<Rightarrow> ceremony_step_handler_request" where
  "CeremonyStepHandlerRequest_new i step attempt =
     \<lparr>hreq_instance_id = inst_id i, hreq_definition_name = inst_definition_name i,
      hreq_definition_version = inst_definition_version i, hreq_current_state = inst_current_state i,
      hreq_step_id = step_id step, hreq_handler_kind = step_handler_kind step,
      hreq_handler_config = step_handler_config step, hreq_context = inst_context i,
      hreq_attempt = attempt, hreq_transcript = [], hreq_interventions = [],
      hreq_role_id = None, hreq_bound_specialty = None\<rparr>"

datatype ceremony_outcome = Completed_run | StepFailed_run | NoTransition | IterationLimit | AlreadyExists_run

fun CeremonyOutcome_as_label :: "ceremony_outcome \<Rightarrow> string" where
  "CeremonyOutcome_as_label Completed_run = ''completed''"
| "CeremonyOutcome_as_label StepFailed_run = ''step_failed''"
| "CeremonyOutcome_as_label NoTransition = ''no_transition''"
| "CeremonyOutcome_as_label IterationLimit = ''iteration_limit''"
| "CeremonyOutcome_as_label AlreadyExists_run = ''already_exists''"

text \<open>The calls of the metrics port that the driver makes.\<close>

datatype metric_event =
    ObserveCeremonyDuration rstr duration_ms
  | RecordCeremonyOutcome rstr ceremony_outcome
  | ObserveCeremonyStepDuration rstr rstr duration_ms
  | RecordCeremonyStep rstr rstr step_status
  | RecordCeremonyTransitionBlocked rstr rstr

record 'w driver_ports = "'w session_ports" +
  p_save_definition :: "ceremony_definition \<Rightarrow> ('w, unit) effect"
  p_open :: "ceremony_instance \<Rightarrow> audit_fact list \<Rightarrow> ('w, loaded_session) effect"
  p_handle :: "ceremony_step_handler_request \<Rightarrow> ('w, step_result) effect"
  p_transcript :: "rstr \<Rightarrow> ('w, ceremony_transcript) effect"
  p_append :: "rstr \<Rightarrow> ceremony_step_contribution \<Rightarrow> ('w, unit) effect"
  p_metric :: "metric_event \<Rightarrow> 'w \<Rightarrow> 'w"
  lib_checked_add :: "timestamp \<Rightarrow> nat \<Rightarrow> timestamp option"
  lib_whole_ms :: "timestamp \<Rightarrow> timestamp \<Rightarrow> int"
  lib_fmt :: "f64 \<Rightarrow> rstr"

text \<open>
  The last three fields are library code: adding to an instant, the whole milliseconds between
  two instants, and the rendering of a floating-point number.
\<close>

definition ms_since :: "'w driver_ports \<Rightarrow> timestamp \<Rightarrow> timestamp \<Rightarrow> duration_ms" where
  "ms_since ports start finish =
     (let ms = lib_whole_ms ports start finish in
      if 0 \<le> ms \<and> ms < 2 ^ 64 then word_of_int ms else 0)"

text \<open>
  \<open>Display\<close> of a \<open>DomainError\<close>; the rendering of a floating-point number is a parameter.
\<close>

fun DomainError_to_string :: "(f64 \<Rightarrow> rstr) \<Rightarrow> domain_error \<Rightarrow> rstr" where
  "DomainError_to_string fmt (EmptyField f) = lit ''field `'' @ lit f @ lit ''` must not be empty''"
| "DomainError_to_string fmt (FieldTooLong f a m) =
     lit ''field `'' @ lit f @ lit ''` exceeds maximum length: '' @ display_nat a @ lit '' > '' @ display_nat m"
| "DomainError_to_string fmt (InvalidCharacters f) =
     lit ''field `'' @ lit f @ lit ''` contains invalid characters''"
| "DomainError_to_string fmt (OutOfRange f v lo hi) =
     lit ''value `'' @ lit f @ lit ''` out of range: '' @ fmt v @ lit '' not in ['' @ fmt lo @ lit '', '' @
     fmt hi @ lit '']''"
| "DomainError_to_string fmt (MustBeNonZero f) = lit ''value `'' @ lit f @ lit ''` must be non-zero''"
| "DomainError_to_string fmt (EmptyCollection f) =
     lit ''collection `'' @ lit f @ lit ''` must contain at least one element''"
| "DomainError_to_string fmt (InvalidTransition a b) =
     lit ''invalid state transition `'' @ lit a @ lit ''` -> `'' @ lit b @ lit ''`''"
| "DomainError_to_string fmt (InvariantViolated r) = lit ''invariant violated: '' @ lit r"
| "DomainError_to_string fmt (NotFound x) = lit ''not found: '' @ lit x"
| "DomainError_to_string fmt (AlreadyExists x) = lit ''already exists: '' @ lit x"
| "DomainError_to_string fmt (Conflict x) = lit ''conflict: '' @ lit x @ lit '' was changed by someone else first''"
| "DomainError_to_string fmt (NoValidProposal c) =
     lit ''no valid proposal satisfied output contract `'' @ c @ lit ''`''"

section \<open>One step\<close>

text \<open>What an error of a handler becomes: a failed result.\<close>

definition execute_handler ::
    "'w driver_ports \<Rightarrow> ceremony_step_handler_request \<Rightarrow> ('w, step_result) effect" where
  "execute_handler ports req w =
     (case p_handle ports req w of
        (Inr result, w') \<Rightarrow> (Inr result, w')
      | (Inl e, w') \<Rightarrow> (and_then (StepErrorMessage_new (DomainError_to_string (lib_fmt ports) e)) StepResult_failed, w'))"

text \<open>
  Taking the step and committing the claim; then, after the handler has answered, loading the
  session again and committing the result.  Both use cases consist of these two halves.
\<close>

definition claim_step ::
    "'w driver_ports \<Rightarrow> ceremony_definition \<Rightarrow> loaded_session
      \<Rightarrow> rstr \<Rightarrow> audit_actor_kind \<Rightarrow> rstr \<Rightarrow> rstr \<Rightarrow> rstr outcome \<Rightarrow> duration_ms
      \<Rightarrow> ('w, loaded_session \<times> step_attempt) effect" where
  "claim_step ports d session rid k sid owner key ttl =
     eff_bind (eff_get (p_now ports)) (\<lambda>now.
     eff_bind (eff_lift (
       and_then key (\<lambda>key'.
       and_then (StepLease_acquire (lib_checked_add ports) owner key' now ttl) (\<lambda>lease.
       and_then (CeremonyInstance_start_step_as (ls_instance session) d rid sid lease now) (\<lambda>(j, attempt).
       and_then (step_started j sid attempt rid k now) (\<lambda>f. Inr (j, attempt, f))))))) (\<lambda>(j, attempt, f).
     eff_bind (p_commit ports (session\<lparr>ls_instance := j\<rparr>) [f]) (\<lambda>claimed.
     eff_lift (Inr (claimed, attempt)))))"

definition finish_step ::
    "'w driver_ports \<Rightarrow> ceremony_definition \<Rightarrow> rstr \<Rightarrow> rstr \<Rightarrow> audit_actor_kind \<Rightarrow> rstr \<Rightarrow> step_attempt
      \<Rightarrow> step_result \<Rightarrow> ('w, loaded_session) effect" where
  "finish_step ports d cid rid k sid attempt result =
     eff_bind (p_load ports cid) (\<lambda>session.
     eff_bind (eff_get (p_now ports)) (\<lambda>finished_at.
     eff_bind (eff_lift (
       and_then (CeremonyInstance_apply_step_result (ls_instance session) d sid result finished_at) (\<lambda>j.
       and_then (step_finished j sid attempt result rid k finished_at) (\<lambda>f. Inr (j, f))))) (\<lambda>(j, f).
     p_commit ports (session\<lparr>ls_instance := j\<rparr>) [f])))"

definition run_step ::
    "'w driver_ports \<Rightarrow> ceremony_definition \<Rightarrow> loaded_session \<Rightarrow> rstr \<Rightarrow> audit_actor_kind \<Rightarrow> rstr \<Rightarrow> rstr
      \<Rightarrow> duration_ms \<Rightarrow> nat \<Rightarrow> ceremony_transcript
      \<Rightarrow> ('w, loaded_session \<times> step_attempt \<times> step_result) effect" where
  "run_step ports d session rid k sid owner ttl trace_index transcript =
     eff_bind (eff_lift (ok_or (bt_get (def_steps d) sid) (NotFound ''ceremony_step''))) (\<lambda>step.
     eff_bind (claim_step ports d session rid k sid owner
       (IdempotencyKey_new (inst_id (ls_instance session) @ lit '':'' @ sid @ lit '':'' @ display_nat (trace_index + 1)))
       ttl) (\<lambda>(claimed, attempt).
     eff_bind (execute_handler ports ((CeremonyStepHandlerRequest_new (ls_instance claimed) step attempt)
       \<lparr>hreq_transcript := transcript, hreq_role_id := Some rid,
        hreq_bound_specialty := CeremonyInstance_bound_specialty (ls_instance claimed) rid\<rparr>)) (\<lambda>result.
     eff_bind (finish_step ports d (inst_id (ls_instance claimed)) rid k sid attempt result) (\<lambda>finished.
     eff_lift (Inr (finished, attempt, result))))))"

record run_ceremony_step_input =
  rcs_instance_id :: rstr
  rcs_role_id :: rstr
  rcs_role_kind :: audit_actor_kind
  rcs_step_id :: rstr
  rcs_lease_owner_id :: rstr
  rcs_idempotency_key :: rstr
  rcs_lease_ttl :: duration_ms

record run_ceremony_step_output =
  rcso_instance :: ceremony_instance
  rcso_attempt :: step_attempt
  rcso_result :: step_result

definition RunCeremonyStepUseCase_execute ::
    "'w driver_ports \<Rightarrow> run_ceremony_step_input \<Rightarrow> ('w, run_ceremony_step_output) effect" where
  "RunCeremonyStepUseCase_execute ports input =
     eff_bind (p_load ports (rcs_instance_id input)) (\<lambda>session.
     eff_bind (p_resolve ports (ls_instance session)) (\<lambda>d.
     eff_bind (eff_lift (ok_or (bt_get (def_steps d) (rcs_step_id input)) (NotFound ''ceremony_step''))) (\<lambda>step.
     eff_bind (claim_step ports d session (rcs_role_id input) (rcs_role_kind input) (rcs_step_id input)
       (rcs_lease_owner_id input) (Inr (rcs_idempotency_key input)) (rcs_lease_ttl input)) (\<lambda>(claimed, attempt).
     let i = ls_instance claimed in
     eff_bind (p_transcript ports (inst_id i)) (\<lambda>transcript.
     eff_bind (execute_handler ports ((CeremonyStepHandlerRequest_new i step attempt)
       \<lparr>hreq_transcript := transcript, hreq_interventions := inst_interventions i,
        hreq_role_id := Some (rcs_role_id input),
        hreq_bound_specialty := CeremonyInstance_bound_specialty i (rcs_role_id input)\<rparr>)) (\<lambda>result.
     eff_bind (finish_step ports d (inst_id i) (rcs_role_id input) (rcs_role_kind input) (rcs_step_id input)
       attempt result) (\<lambda>refreshed.
     eff_bind (if StepResult_is_success result
       then p_append ports (inst_id (ls_instance refreshed))
         \<lparr>contrib_step_id = rcs_step_id input, contrib_role_id = rcs_role_id input,
          contrib_output = result_output result\<rparr>
       else eff_lift (Inr ())) (\<lambda>_.
     eff_lift (Inr \<lparr>rcso_instance = ls_instance refreshed, rcso_attempt = attempt, rcso_result = result\<rparr>)))))))))"

section \<open>The whole ceremony\<close>

record ceremony_step_trace =
  trace_state_id :: rstr
  trace_step_id :: rstr
  trace_role_id :: rstr
  trace_attempt :: step_attempt
  trace_status :: step_status
  trace_output :: step_output

record run_ceremony_input =
  rci_id :: rstr
  rci_definition :: ceremony_definition
  rci_context :: ceremony_context
  rci_lease_owner_id :: rstr
  rci_lease_ttl :: duration_ms
  rci_actor_id :: rstr
  rci_actor_kind :: audit_actor_kind

record run_ceremony_output =
  rco_definition :: ceremony_definition
  rco_instance :: ceremony_instance
  rco_step_traces :: "ceremony_step_trace list"

definition step_succeeded :: "ceremony_instance \<Rightarrow> rstr \<Rightarrow> bool" where
  "step_succeeded i sid =
     (case bt_get (inst_step_records i) sid of None \<Rightarrow> False | Some r \<Rightarrow> StepStatus_is_success (rec_status r))"

text \<open>The inner loop: the steps of one state, skipping those that have succeeded.\<close>

fun run_state_steps ::
    "'w driver_ports \<Rightarrow> run_ceremony_input \<Rightarrow> rstr \<Rightarrow> rstr list \<Rightarrow> loaded_session \<Rightarrow> ceremony_step_trace list
      \<Rightarrow> ('w, loaded_session \<times> ceremony_step_trace list) effect" where
  "run_state_steps ports input state [] session traces = eff_lift (Inr (session, traces))"
| "run_state_steps ports input state (sid # sids) session traces =
     (if step_succeeded (ls_instance session) sid
      then run_state_steps ports input state sids session traces
      else
        eff_bind (eff_lift (CeremonyDefinition_role_id_for_step (rci_definition input) sid)) (\<lambda>rid.
        eff_bind (p_transcript ports (rci_id input)) (\<lambda>transcript.
        eff_bind (eff_get (p_now ports)) (\<lambda>begun.
        eff_bind (run_step ports (rci_definition input) session rid (rci_actor_kind input) sid
          (rci_lease_owner_id input) (rci_lease_ttl input) (length traces) transcript)
          (\<lambda>(moved_on, attempt, result).
        eff_bind (eff_do (\<lambda>w. p_metric ports (ObserveCeremonyStepDuration (def_name (rci_definition input)) sid
          (ms_since ports begun (p_now ports w))) w)) (\<lambda>_.
        eff_bind (eff_do (p_metric ports (RecordCeremonyStep (def_name (rci_definition input)) sid
          (result_status result)))) (\<lambda>_.
        eff_bind (if StepResult_is_success result
          then p_append ports (rci_id input)
            \<lparr>contrib_step_id = sid, contrib_role_id = rid, contrib_output = result_output result\<rparr>
          else eff_lift (Inr ())) (\<lambda>_.
        if \<not> StepResult_is_success result
        then eff_bind (eff_do (p_metric ports (RecordCeremonyOutcome (def_name (rci_definition input)) StepFailed_run)))
          (\<lambda>_. eff_lift (Inl (InvariantViolated ''ceremony step did not complete successfully'')))
        else run_state_steps ports input state sids moved_on
          (traces @ [\<lparr>trace_state_id = state, trace_step_id = sid, trace_role_id = rid, trace_attempt = attempt,
             trace_status = result_status result, trace_output = result_output result\<rparr>])))))))))"

definition finish_run ::
    "'w driver_ports \<Rightarrow> run_ceremony_input \<Rightarrow> timestamp \<Rightarrow> loaded_session \<Rightarrow> ceremony_step_trace list
      \<Rightarrow> ('w, run_ceremony_output) effect" where
  "finish_run ports input started_at session traces =
     eff_bind (eff_do (\<lambda>w. p_metric ports (ObserveCeremonyDuration (def_name (rci_definition input))
       (ms_since ports started_at (p_now ports w))) w)) (\<lambda>_.
     eff_bind (eff_do (p_metric ports (RecordCeremonyOutcome (def_name (rci_definition input)) Completed_run))) (\<lambda>_.
     eff_lift (Inr \<lparr>rco_definition = rci_definition input, rco_instance = ls_instance session,
                    rco_step_traces = traces\<rparr>)))"

text \<open>One move of the session along the first satisfied transition.\<close>

definition move_session ::
    "'w driver_ports \<Rightarrow> run_ceremony_input \<Rightarrow> ceremony_transition \<Rightarrow> loaded_session \<Rightarrow> ('w, loaded_session) effect" where
  "move_session ports input t session =
     eff_bind (eff_lift (CeremonyDefinition_role_id_for_transition (rci_definition input) (trans_trigger t))) (\<lambda>rid.
     eff_bind (eff_get (p_now ports)) (\<lambda>moved_at.
     eff_bind (eff_lift (
       and_then (CeremonyInstance_apply_transition_as (ls_instance session) (rci_definition input) rid
         (trans_trigger t) moved_at) (\<lambda>(j, _).
       and_then (transition_applied j (rci_definition input) rid (rci_actor_kind input) moved_at) (\<lambda>facts.
       Inr (j, facts))))) (\<lambda>(j, facts).
     p_commit ports (session\<lparr>ls_instance := j\<rparr>) facts)))"

text \<open>
  The ids of the steps of a state in declaration order.  A step order that names no step makes
  the iteration panic; \<open>RunCeremonyUseCase_execute\<close> returns \<open>None\<close> for such a definition, so the
  empty list stands for nothing here.
\<close>

definition state_step_ids :: "ceremony_definition \<Rightarrow> rstr \<Rightarrow> rstr list" where
  "state_step_ids d state =
     (case CeremonyDefinition_steps_for_state d state of None \<Rightarrow> [] | Some steps \<Rightarrow> map step_id steps)"

fun run_loop ::
    "nat \<Rightarrow> 'w driver_ports \<Rightarrow> run_ceremony_input \<Rightarrow> timestamp \<Rightarrow> loaded_session \<Rightarrow> ceremony_step_trace list
      \<Rightarrow> ('w, run_ceremony_output) effect" where
  "run_loop 0 ports input started_at session traces =
     eff_bind (eff_do (p_metric ports (RecordCeremonyOutcome (def_name (rci_definition input)) IterationLimit)))
     (\<lambda>_. eff_lift (Inl (InvariantViolated ''ceremony execution exceeded transition safety limit'')))"
| "run_loop (Suc n) ports input started_at session traces =
     (if CeremonyInstance_is_completed (ls_instance session) (rci_definition input)
      then finish_run ports input started_at session traces
      else
        let state = inst_current_state (ls_instance session) in
        eff_bind (run_state_steps ports input state (state_step_ids (rci_definition input) state) session traces)
          (\<lambda>(session', traces').
        if CeremonyInstance_is_completed (ls_instance session') (rci_definition input)
        then finish_run ports input started_at session' traces'
        else
          (case CeremonyDefinition_next_satisfied_transition (rci_definition input) state
                  (inst_step_records (ls_instance session')) (inst_context (ls_instance session')) of
             None \<Rightarrow>
               eff_bind (eff_do (p_metric ports
                 (RecordCeremonyTransitionBlocked (def_name (rci_definition input)) state))) (\<lambda>_.
               eff_bind (eff_do (p_metric ports
                 (RecordCeremonyOutcome (def_name (rci_definition input)) NoTransition))) (\<lambda>_.
               eff_lift (Inl (InvariantViolated ''no satisfied ceremony transition is available''))))
           | Some t \<Rightarrow>
               eff_bind (move_session ports input t session') (\<lambda>committed.
               run_loop n ports input started_at committed traces'))))"

text \<open>
  \<open>None\<close> is a panic: of \<open>CeremonyInstance::start\<close> on a definition without an initial state, or of
  the first iteration on one whose step order names no step.  No definition that passed its
  constructor has either.
\<close>

definition RunCeremonyUseCase_execute ::
    "'w driver_ports \<Rightarrow> run_ceremony_input \<Rightarrow> 'w \<Rightarrow> (run_ceremony_output outcome \<times> 'w) option" where
  "RunCeremonyUseCase_execute ports input w =
     (let d = rci_definition input;
          outcome = (\<lambda>out. p_metric ports (RecordCeremonyOutcome (def_name d) out)) in
      case p_load ports (rci_id input) w of
        (Inl (NotFound _), w1) \<Rightarrow>
          (case p_save_definition ports d w1 of
             (Inl e, w2) \<Rightarrow> Some (Inl e, w2)
           | (Inr _, w2) \<Rightarrow>
               let started_at = p_now ports w2 in
               (case CeremonyInstance_start (rci_id input) d (rci_context input) started_at of
                  None \<Rightarrow> None
                | Some opening \<Rightarrow>
                    (case ceremony_started opening (rci_actor_id input) (rci_actor_kind input) started_at of
                       Inl e \<Rightarrow> Some (Inl e, w2)
                     | Inr started \<Rightarrow>
                         (case p_open ports opening [started] w2 of
                            (Inl (AlreadyExists x), w3) \<Rightarrow>
                              Some (Inl (AlreadyExists x), outcome AlreadyExists_run w3)
                          | (Inl e, w3) \<Rightarrow> Some (Inl e, w3)
                          | (Inr session, w3) \<Rightarrow>
                              if CeremonyDefinition_steps_in_declaration_order d = None then None
                              else Some (run_loop (length (def_states d) + length (def_transitions d) + 1)
                                ports input started_at session [] w3)))))
      | (_, w1) \<Rightarrow>
          Some (Inl (AlreadyExists ''ceremony_instance''), outcome AlreadyExists_run w1))"

section \<open>A step that has succeeded stays so\<close>

lemma record_that_it_answers_records: "inst_step_records (record_that_it_answers i item now) = inst_step_records i"
  by (simp add: record_that_it_answers_def Let_def split: option.splits sum.splits)

lemma session_step_keeps_success:
  assumes "session_step tv d i j" and "step_succeeded i sid"
  shows "step_succeeded j sid"
  using assms
proof (induction rule: session_step.induct)
  case (start i sid' lease now j a)
  from start_step_Inr [OF start.hyps] start.prems show ?case
    by (auto simp: step_succeeded_def step_defs split: option.splits if_splits)
next
  case (start_as i rid sid' lease now j a)
  then have "CeremonyInstance_start_step i d sid' lease now = Inr (j, a)" by (simp add: start_step_as_Inr)
  from start_step_Inr [OF this] start_as.prems show ?case
    by (auto simp: step_succeeded_def step_defs split: option.splits if_splits)
next
  case (result status out err res i sid' now j)
  from apply_step_result_Inr [OF result.hyps(2)] result.prems show ?case
    by (auto simp: step_succeeded_def step_defs split: option.splits if_splits)
next
  case approve
  then show ?case by (auto dest!: approve_guard_Inr simp: step_succeeded_def)
next
  case bind
  then show ?case by (auto dest!: bind_participant_Inr simp: step_succeeded_def)
next
  case postpone
  then show ?case by (auto dest!: defer_guard_Inr simp: step_succeeded_def)
next
  case request
  then show ?case by (auto dest!: request_intervention_Inr simp: step_succeeded_def)
next
  case respond
  then show ?case
    by (auto simp: CeremonyInstance_respond_to_intervention_as_def update_intervention_def result_simps
        step_succeeded_def record_that_it_answers_records)
next
  case evidence
  then show ?case
    by (auto simp: CeremonyInstance_respond_to_intervention_with_evidence_as_def update_intervention_def result_simps
        step_succeeded_def record_that_it_answers_records)
next
  case close
  then show ?case
    by (auto simp: CeremonyInstance_close_intervention_as_def update_intervention_def result_simps step_succeeded_def)
next
  case reason
  then show ?case by (auto dest!: assert_reason_Inr simp: step_succeeded_def)
next
  case transition
  then show ?case by (auto simp: CeremonyInstance_apply_transition_def dest!: move_on_Inr simp: step_succeeded_def)
next
  case transition_as
  then show ?case
    by (auto simp: CeremonyInstance_apply_transition_as_def result_simps dest!: move_on_Inr simp: step_succeeded_def)
qed

lemma steps_keep_success:
  "(session_step tv d)\<^sup>*\<^sup>* i j \<Longrightarrow> step_succeeded i sid \<Longrightarrow> step_succeeded j sid"
  by (induction rule: rtranclp_induct) (auto intro: session_step_keeps_success)

lemma steps_keep_id: "(session_step tv d)\<^sup>*\<^sup>* i j \<Longrightarrow> inst_id j = inst_id i"
  by (drule steps_keep_identity) (simp add: inst_identity_def)

lemma eff_lift_Inr [simp]: "eff_lift r w = (Inr x, w') \<longleftrightarrow> r = Inr x \<and> w' = w"
  by (auto simp: eff_lift_def)

declare eff_simps(1) [simp del]

section \<open>What the driver relies on\<close>

locale driver_environment =
  fixes ports :: "'w driver_ports"
    and stored :: "'w \<Rightarrow> ceremony_instance option"
    and cid :: rstr
    and d :: ceremony_definition
    and tv :: "ceremony_evidence_pack \<Rightarrow> json option"
    and meanwhile :: "ceremony_instance \<Rightarrow> ceremony_instance \<Rightarrow> bool"
  assumes meanwhile_steps: "meanwhile i j \<Longrightarrow> (session_step tv d)\<^sup>*\<^sup>* i j"
    and meanwhile_refl: "meanwhile i i"
    and meanwhile_trans: "meanwhile i1 i2 \<Longrightarrow> meanwhile i2 i3 \<Longrightarrow> meanwhile i1 i3"
    and loads: "p_load ports cid w = (Inr c, w') \<Longrightarrow> stored w' = Some (ls_instance c)"
    and commits: "p_commit ports s f w = (Inr c, w') \<Longrightarrow> inst_id (ls_instance s) = cid \<Longrightarrow>
      ls_instance c = ls_instance s \<and> stored w' = Some (ls_instance s)"
    and load_waits: "p_load ports k w = (r1, w') \<Longrightarrow> stored w = Some i \<Longrightarrow>
      \<exists>j. stored w' = Some j \<and> meanwhile i j"
    and handle_waits: "p_handle ports req w = (r2, w') \<Longrightarrow> stored w = Some i \<Longrightarrow>
      \<exists>j. stored w' = Some j \<and> meanwhile i j"
    and transcript_waits: "p_transcript ports k w = (r3, w') \<Longrightarrow> stored w = Some i \<Longrightarrow>
      \<exists>j. stored w' = Some j \<and> meanwhile i j"
    and append_waits: "p_append ports k x w = (r4, w') \<Longrightarrow> stored w = Some i \<Longrightarrow>
      \<exists>j. stored w' = Some j \<and> meanwhile i j"
    and metric_waits: "stored (p_metric ports m w) = stored w"
    and handled: "p_handle ports req w = (Inr res, w') \<Longrightarrow>
      \<exists>status out err. StepResult_new status out err = Inr res"
begin

text \<open>The driver's copy of the session may be behind what is stored, never beside it.\<close>

definition holds :: "ceremony_instance \<Rightarrow> 'w \<Rightarrow> bool" where
  "holds i w = (inst_id i = cid \<and> (\<exists>j. stored w = Some j \<and> meanwhile i j))"

lemma holds_later:
  assumes "holds i w" and "\<And>j. stored w = Some j \<Longrightarrow> \<exists>k. stored w' = Some k \<and> meanwhile j k"
  shows "holds i w'"
  using assms unfolding holds_def by (meson meanwhile_trans)

lemma holds_stored: "stored w = Some i \<Longrightarrow> inst_id i = cid \<Longrightarrow> holds i w"
  by (auto simp: holds_def meanwhile_refl)

lemma claim_step_ok:
  assumes run: "claim_step ports d session rid k sid owner key ttl w = (Inr (c, a), w')"
    and id: "inst_id (ls_instance session) = cid"
  shows "session_step tv d (ls_instance session) (ls_instance c)" and "holds (ls_instance c) w'"
proof -
  from run obtain key' lease j f where
    st: "CeremonyInstance_start_step_as (ls_instance session) d rid sid lease (p_now ports w) = Inr (j, a)"
    and com: "p_commit ports (session\<lparr>ls_instance := j\<rparr>) [f] w = (Inr c, w')"
    by (auto simp: claim_step_def eff_bind_Inr result_simps split: prod.splits)
  have step: "session_step tv d (ls_instance session) j" by (rule session_step.start_as [OF st])
  then have "inst_id j = cid" using steps_keep_id [of tv d] id by (metis r_into_rtranclp)
  with commits [OF com] have c: "ls_instance c = j" "stored w' = Some j" by simp_all
  show "session_step tv d (ls_instance session) (ls_instance c)" using step c by simp
  show "holds (ls_instance c) w'" unfolding c(1) using c(2) \<open>inst_id j = cid\<close> by (rule holds_stored)
qed

lemma execute_handler_ok:
  assumes "execute_handler ports req w = (Inr res, w')"
  shows "\<exists>status out err. StepResult_new status out err = Inr res"
    and "holds i w \<Longrightarrow> holds i w'"
proof -
  obtain r w1 where h: "p_handle ports req w = (r, w1)" by fastforce
  then have w': "w' = w1" using assms by (cases r) (simp_all add: execute_handler_def)
  show "holds i w'" if "holds i w"
    unfolding w' using that handle_waits [OF h] by (rule holds_later)
  show "\<exists>status out err. StepResult_new status out err = Inr res"
  proof (cases r)
    case (Inl e)
    then have "and_then (StepErrorMessage_new (DomainError_to_string (lib_fmt ports) e)) StepResult_failed = Inr res"
      using assms h by (simp add: execute_handler_def)
    then show ?thesis by (auto simp: result_simps StepResult_failed_def)
  next
    case (Inr x)
    then have "p_handle ports req w = (Inr res, w1)" using assms h by (simp add: execute_handler_def)
    then show ?thesis by (rule handled)
  qed
qed

lemma finish_step_ok:
  assumes run: "finish_step ports d cid rid k sid a res w = (Inr c, w')"
    and res: "StepResult_new status out err = Inr res" and "holds i w"
  shows "(session_step tv d)\<^sup>*\<^sup>* i (ls_instance c)" and "holds (ls_instance c) w'"
    and "StepResult_is_success res \<Longrightarrow> step_succeeded (ls_instance c) sid"
proof -
  from run obtain session w1 j f where l: "p_load ports cid w = (Inr session, w1)"
    and ap: "CeremonyInstance_apply_step_result (ls_instance session) d sid res (p_now ports w1) = Inr j"
    and com: "p_commit ports (session\<lparr>ls_instance := j\<rparr>) [f] w1 = (Inr c, w')"
    by (auto simp: finish_step_def eff_bind_Inr result_simps)
  have "holds i w1" using assms(3) load_waits [OF l] by (rule holds_later)
  then have from_i: "(session_step tv d)\<^sup>*\<^sup>* i (ls_instance session)" and "inst_id i = cid"
    using loads [OF l] meanwhile_steps by (auto simp: holds_def)
  have step: "session_step tv d (ls_instance session) j" by (rule session_step.result [OF res ap])
  with from_i have path: "(session_step tv d)\<^sup>*\<^sup>* i j" by (rule rtranclp.rtrancl_into_rtrancl)
  then have "inst_id j = cid" using steps_keep_id \<open>inst_id i = cid\<close> by metis
  then have c: "ls_instance c = j" "stored w' = Some j" using commits [OF com] by auto
  show "(session_step tv d)\<^sup>*\<^sup>* i (ls_instance c)" using path c by simp
  show "holds (ls_instance c) w'" unfolding c(1) using c(2) \<open>inst_id j = cid\<close> by (rule holds_stored)
  show "StepResult_is_success res \<Longrightarrow> step_succeeded (ls_instance c) sid"
    using apply_step_result_Inr [OF ap] c
    by (auto simp: step_succeeded_def StepResult_is_success_def StepExecutionRecord_with_result_def)
qed

lemma run_step_ok:
  assumes run: "run_step ports d session rid k sid owner ttl n t w = (Inr (c, a, res), w')"
    and id: "inst_id (ls_instance session) = cid"
  shows "(session_step tv d)\<^sup>*\<^sup>* (ls_instance session) (ls_instance c)" and "holds (ls_instance c) w'"
    and "StepResult_is_success res \<Longrightarrow> step_succeeded (ls_instance c) sid"
proof -
  from run obtain step claimed w1 w2 req key where
    cl: "claim_step ports d session rid k sid owner key ttl w = (Inr (claimed, a), w1)"
    and ex: "execute_handler ports req w1 = (Inr res, w2)"
    and fi: "finish_step ports d (inst_id (ls_instance claimed)) rid k sid a res w2 = (Inr c, w')"
    by (auto simp: run_step_def eff_bind_Inr split: prod.splits)
  note claimed = claim_step_ok [OF cl id]
  then have cid: "inst_id (ls_instance claimed) = cid" by (auto simp: holds_def)
  from execute_handler_ok(1) [OF ex] obtain status out err where r: "StepResult_new status out err = Inr res" by blast
  note fin = finish_step_ok [OF fi [unfolded cid] r execute_handler_ok(2) [OF ex claimed(2)]]
  show "(session_step tv d)\<^sup>*\<^sup>* (ls_instance session) (ls_instance c)"
    using claimed(1) fin(1) by (rule converse_rtranclp_into_rtranclp)
  show "holds (ls_instance c) w'" by (rule fin(2))
  show "StepResult_is_success res \<Longrightarrow> step_succeeded (ls_instance c) sid" by (rule fin(3))
qed

lemma holds_metric [simp]: "holds i (p_metric ports m w) \<longleftrightarrow> holds i w"
  by (simp add: holds_def metric_waits)

lemma run_state_steps_ok:
  assumes "run_state_steps ports input state sids session traces w = (Inr (c, traces'), w')"
    and "rci_definition input = d" and "holds (ls_instance session) w"
  shows "(session_step tv d)\<^sup>*\<^sup>* (ls_instance session) (ls_instance c) \<and> holds (ls_instance c) w' \<and>
    (\<forall>sid \<in> set sids. step_succeeded (ls_instance c) sid) \<and>
    (\<exists>new. traces' = traces @ new \<and> (\<forall>t \<in> set new. StepStatus_is_success (trace_status t) \<and>
       step_succeeded (ls_instance c) (trace_step_id t)))"
  using assms
proof (induction sids arbitrary: session traces w)
  case Nil
  then show ?case by auto
next
  case (Cons sid sids)
  show ?case
  proof (cases "step_succeeded (ls_instance session) sid")
    case True
    then have "run_state_steps ports input state sids session traces w = (Inr (c, traces'), w')"
      using Cons.prems(1) by simp
    note rest = Cons.IH [OF this Cons.prems(2,3)]
    with steps_keep_success True have "step_succeeded (ls_instance c) sid" by blast
    with rest show ?thesis by simp
  next
    case False
    from Cons.prems(1,2) False obtain rid t w1 m a res w2 w3 tr where
      tr: "p_transcript ports (rci_id input) w = (Inr t, w1)"
      and run: "run_step ports d session rid (rci_actor_kind input) sid (rci_lease_owner_id input)
        (rci_lease_ttl input) (length traces) t w1 = (Inr (m, a, res), w2)"
      and app: "p_append ports (rci_id input) \<lparr>contrib_step_id = sid, contrib_role_id = rid,
          contrib_output = result_output res\<rparr>
          (p_metric ports (RecordCeremonyStep (def_name d) sid (result_status res))
            (p_metric ports (ObserveCeremonyStepDuration (def_name d) sid
              (ms_since ports (p_now ports w1) (p_now ports w2))) w2)) = (Inr (), w3)"
      and ok: "StepResult_is_success res"
      and rest: "run_state_steps ports input state sids m (traces @ [tr]) w3 = (Inr (c, traces'), w')"
      and trace: "trace_status tr = result_status res" "trace_step_id tr = sid"
      by (auto simp: eff_bind_Inr split: prod.splits if_splits)
    have id: "inst_id (ls_instance session) = cid" using Cons.prems(3) by (simp add: holds_def)
    note moved = run_step_ok [OF run id]
    have "holds (ls_instance m) w3"
      by (rule holds_later [OF _ append_waits [OF app]]) (simp_all add: moved(2))
    from Cons.IH [OF rest Cons.prems(2) this] obtain new where
      n: "(session_step tv d)\<^sup>*\<^sup>* (ls_instance m) (ls_instance c)" "holds (ls_instance c) w'"
      "\<forall>sid \<in> set sids. step_succeeded (ls_instance c) sid" "traces' = (traces @ [tr]) @ new"
      "\<forall>t \<in> set new. StepStatus_is_success (trace_status t) \<and> step_succeeded (ls_instance c) (trace_step_id t)"
      by blast
    have "step_succeeded (ls_instance c) sid" using steps_keep_success [OF n(1)] moved(3) [OF ok] by blast
    moreover have "(session_step tv d)\<^sup>*\<^sup>* (ls_instance session) (ls_instance c)"
      using moved(1) n(1) by (rule rtranclp_trans)
    moreover have "traces' = traces @ (tr # new)" using n(4) by simp
    ultimately show ?thesis
      using n trace ok by (intro conjI exI [of _ "tr # new"]) (auto simp: StepResult_is_success_def)
  qed
qed

lemma move_session_ok:
  assumes run: "move_session ports input t session w = (Inr c, w')"
    and "rci_definition input = d" and id: "inst_id (ls_instance session) = cid"
  shows "session_step tv d (ls_instance session) (ls_instance c)" and "holds (ls_instance c) w'"
    and "length (inst_transitions (ls_instance c)) = Suc (length (inst_transitions (ls_instance session)))"
proof -
  from run assms(2) obtain rid j s fs where
    ap: "CeremonyInstance_apply_transition_as (ls_instance session) d rid (trans_trigger t) (p_now ports w) = Inr (j, s)"
    and com: "p_commit ports (session\<lparr>ls_instance := j\<rparr>) fs w = (Inr c, w')"
    by (auto simp: move_session_def eff_bind_Inr result_simps split: prod.splits)
  have step: "session_step tv d (ls_instance session) j" by (rule session_step.transition_as [OF ap])
  then have jd: "inst_id j = cid" using steps_keep_id [of tv d] id by (metis r_into_rtranclp)
  with commits [OF com] have c: "ls_instance c = j" "stored w' = Some j" by simp_all
  show "session_step tv d (ls_instance session) (ls_instance c)" using step c by simp
  show "holds (ls_instance c) w'" unfolding c(1) using c(2) jd by (rule holds_stored)
  show "length (inst_transitions (ls_instance c)) = Suc (length (inst_transitions (ls_instance session)))"
    using ap c by (auto simp: CeremonyInstance_apply_transition_as_def result_simps dest!: move_on_Inr)
qed

lemma finish_run_ok:
  "finish_run ports input t session traces w = (Inr out, w') \<Longrightarrow>
     rco_instance out = ls_instance session \<and> rco_step_traces out = traces \<and> rco_definition out = rci_definition input \<and>
     (holds i w' \<longleftrightarrow> holds i w)"
  by (auto simp: finish_run_def eff_bind_Inr)

lemma run_loop_ok:
  assumes "run_loop n ports input t session traces w = (Inr out, w')"
    and "rci_definition input = d" and "holds (ls_instance session) w"
  shows "CeremonyInstance_is_completed (rco_instance out) d \<and> holds (rco_instance out) w' \<and>
    (session_step tv d)\<^sup>*\<^sup>* (ls_instance session) (rco_instance out) \<and>
    (\<exists>new. rco_step_traces out = traces @ new \<and> (\<forall>x \<in> set new. StepStatus_is_success (trace_status x) \<and>
       step_succeeded (rco_instance out) (trace_step_id x)))"
  using assms
proof (induction n arbitrary: session traces w)
  case 0
  then show ?case by (simp add: eff_bind_Inr)
next
  case (Suc n)
  show ?case
  proof (cases "CeremonyInstance_is_completed (ls_instance session) d")
    case True
    then show ?thesis using Suc.prems finish_run_ok [of input t session traces w out w'] by auto
  next
    case False
    let ?state = "inst_current_state (ls_instance session)"
    from Suc.prems(1,2) False obtain c1 tr1 w1 where
      st: "run_state_steps ports input ?state (state_step_ids d ?state) session traces w = (Inr (c1, tr1), w1)"
      and rest: "(if CeremonyInstance_is_completed (ls_instance c1) d then finish_run ports input t c1 tr1
        else case CeremonyDefinition_next_satisfied_transition d ?state
            (inst_step_records (ls_instance c1)) (inst_context (ls_instance c1)) of
          None \<Rightarrow> eff_bind (eff_do (p_metric ports (RecordCeremonyTransitionBlocked (def_name d) ?state))) (\<lambda>_.
            eff_bind (eff_do (p_metric ports (RecordCeremonyOutcome (def_name d) NoTransition))) (\<lambda>_.
            eff_lift (Inl (InvariantViolated ''no satisfied ceremony transition is available''))))
        | Some tn \<Rightarrow> eff_bind (move_session ports input tn c1) (\<lambda>c2. run_loop n ports input t c2 tr1)) w1 = (Inr out, w')"
      by (auto simp: eff_bind_Inr Let_def)
    from run_state_steps_ok [OF st Suc.prems(2,3)] obtain new where
      s1: "(session_step tv d)\<^sup>*\<^sup>* (ls_instance session) (ls_instance c1)" "holds (ls_instance c1) w1"
      "tr1 = traces @ new" "\<forall>x \<in> set new. StepStatus_is_success (trace_status x) \<and>
        step_succeeded (ls_instance c1) (trace_step_id x)" by blast
    show ?thesis
    proof (cases "CeremonyInstance_is_completed (ls_instance c1) d")
      case True
      then show ?thesis using rest s1 finish_run_ok [of input t c1 tr1 w1 out w'] by auto
    next
      case nc: False
      from rest nc obtain tn c2 w2 where mv: "move_session ports input tn c1 w1 = (Inr c2, w2)"
        and go: "run_loop n ports input t c2 tr1 w2 = (Inr out, w')"
        by (auto simp: eff_bind_Inr split: option.splits)
      have "inst_id (ls_instance c1) = cid" using s1(2) by (simp add: holds_def)
      note m = move_session_ok [OF mv Suc.prems(2) this]
      from Suc.IH [OF go Suc.prems(2) m(2)] obtain new2 where
        g: "CeremonyInstance_is_completed (rco_instance out) d" "holds (rco_instance out) w'"
        "(session_step tv d)\<^sup>*\<^sup>* (ls_instance c2) (rco_instance out)" "rco_step_traces out = tr1 @ new2"
        "\<forall>x \<in> set new2. StepStatus_is_success (trace_status x) \<and> step_succeeded (rco_instance out) (trace_step_id x)"
        by blast
      have from1: "(session_step tv d)\<^sup>*\<^sup>* (ls_instance c1) (rco_instance out)"
        using m(1) g(3) by (rule converse_rtranclp_into_rtranclp)
      then have "\<forall>x \<in> set new. step_succeeded (rco_instance out) (trace_step_id x)"
        using s1(4) steps_keep_success by blast
      then show ?thesis
        using g s1 rtranclp_trans [OF s1(1) from1] by (intro conjI exI [of _ "new @ new2"]) auto
    qed
  qed
qed

end

section \<open>How long a session without detours can be\<close>

lemma log_path_edge:
  assumes "log_path d s (t # ts) e"
  shows "(s, trec_to_state t) \<in> transition_edges (def_transitions d)"
proof -
  from assms obtain tr where "CeremonyDefinition_transition_for_trigger d s (trec_trigger t) = Some tr"
    and "trans_to tr = trec_to_state t" by auto
  then have "tr \<in> set (def_transitions d)" "trans_from tr = s"
    by (auto simp: CeremonyDefinition_transition_for_trigger_def find_Some_iff)
  then show ?thesis using \<open>trans_to tr = trec_to_state t\<close> by (force simp: transition_edges_def)
qed

lemma log_path_later:
  "log_path d s ts e \<Longrightarrow> x \<in> set (map trec_to_state ts) \<Longrightarrow> (s, x) \<in> (transition_edges (def_transitions d))\<^sup>+"
proof (induction ts arbitrary: s)
  case (Cons t ts)
  have edge: "(s, trec_to_state t) \<in> transition_edges (def_transitions d)" by (rule log_path_edge [OF Cons.prems(1)])
  show ?case
  proof (cases "x = trec_to_state t")
    case True
    then show ?thesis using edge by auto
  next
    case False
    then have "(trec_to_state t, x) \<in> (transition_edges (def_transitions d))\<^sup>+"
      using Cons.prems by (intro Cons.IH) auto
    then show ?thesis using edge by (rule trancl_into_trancl2 [rotated])
  qed
qed simp

lemma log_path_distinct:
  "log_path d s ts e \<Longrightarrow> acyclic (transition_edges (def_transitions d)) \<Longrightarrow> distinct (s # map trec_to_state ts)"
proof (induction ts arbitrary: s)
  case (Cons t ts)
  have "s \<notin> set (map trec_to_state (t # ts))"
    using log_path_later [OF Cons.prems(1)] Cons.prems(2) by (auto simp: acyclic_def)
  moreover have "distinct (trec_to_state t # map trec_to_state ts)"
    by (rule Cons.IH) (use Cons.prems in auto)
  ultimately show ?case by simp
qed simp

lemma acyclic_log_bound:
  assumes "definition_wf d" and "session_reachable tv d ctx0 i" and "acyclic (transition_edges (def_transitions d))"
  shows "length (inst_transitions i) < length (def_states d)"
proof -
  from reachable_wf [OF assms(2,1)] obtain s where
    ini: "CeremonyDefinition_initial_state_id d = Some s"
    and path: "log_path d s (inst_transitions i) (inst_current_state i)"
    by (auto simp: inst_wf_def path_wf_def)
  have wf: "bt_wf (def_states d)" "keyed_by state_id (def_states d)" using assms(1) by (auto simp: definition_wf_def)
  obtain z where "bt_get (def_states d) s = Some z"
    using wf_initial_state [OF assms(1)] ini by (metis option.inject)
  then have "(s, z) \<in> set (def_states d)" by (rule map_of_SomeD)
  then have "s \<in> set (bt_keys (def_states d))" by force
  moreover have "trec_to_state x \<in> set (bt_keys (def_states d))" if "x \<in> set (inst_transitions i)" for x
  proof -
    have "(s, trec_to_state x) \<in> (transition_edges (def_transitions d))\<^sup>+" by (rule log_path_later [OF path]) (use that in simp)
    then obtain y where "(y, trec_to_state x) \<in> transition_edges (def_transitions d)" by (meson tranclE)
    then show ?thesis
      using assms(1) by (auto simp: transition_edges_def definition_wf_def parts_wf_def
          CeremonyDefinition_parts_def bt_contains_iff)
  qed
  ultimately have "set (s # map trec_to_state (inst_transitions i)) \<subseteq> set (bt_keys (def_states d))" by auto
  then have "card (set (s # map trec_to_state (inst_transitions i))) \<le> card (set (bt_keys (def_states d)))"
    by (rule card_mono [OF finite_set])
  moreover have "card (set (s # map trec_to_state (inst_transitions i))) = Suc (length (inst_transitions i))"
    using distinct_card [OF log_path_distinct [OF path assms(3)]] by simp
  moreover have "card (set (bt_keys (def_states d))) = length (def_states d)"
    using distinct_card [OF bt_wf_distinct [OF wf(1)]] by simp
  ultimately show ?thesis by linarith
qed

lemma steps_transitions_grow:
  "(session_step tv d)\<^sup>*\<^sup>* i j \<Longrightarrow> length (inst_transitions i) \<le> length (inst_transitions j)"
proof (induction rule: rtranclp_induct)
  case (step j k)
  have "prefix (inst_transitions j) (inst_transitions k)"
    using session_step_extends [OF step.hyps(2)] by (simp add: inst_extends_def)
  then show ?case using step.IH by (auto dest: prefix_length_le)
qed simp

lemma steps_reachable:
  "(session_step tv d)\<^sup>*\<^sup>* i j \<Longrightarrow> session_reachable tv d ctx0 i \<Longrightarrow> session_reachable tv d ctx0 j"
  by (induction rule: rtranclp_induct) (auto intro: session_reachable.stepped)

lemma eff_bind_cong:
  "(\<And>x w'. m w = (Inr x, w') \<Longrightarrow> f x w' = g x w') \<Longrightarrow> eff_bind m f w = eff_bind m g w"
  by (auto simp: eff_bind_def split: prod.split sum.split)

context driver_environment
begin

lemma run_loop_limit:
  assumes "definition_wf d" and "acyclic (transition_edges (def_transitions d))" and "rci_definition input = d"
    and "session_reachable tv d ctx0 (ls_instance session)" and "holds (ls_instance session) w"
    and "length (def_states d) \<le> n + length (inst_transitions (ls_instance session))"
  shows "run_loop (n + m) ports input t session traces w = run_loop n ports input t session traces w"
  using assms(4-6)
proof (induction n arbitrary: session traces w)
  case 0
  then show ?case using acyclic_log_bound [OF assms(1) _ assms(2)] by fastforce
next
  case (Suc n)
  show ?case
  proof (cases "CeremonyInstance_is_completed (ls_instance session) d")
    case True
    then show ?thesis by (simp add: assms(3))
  next
    case False
    let ?state = "inst_current_state (ls_instance session)"
    have next_round: "run_loop (n + m) ports input t c2 tr1 w2 = run_loop n ports input t c2 tr1 w2"
      if st: "run_state_steps ports input ?state (state_step_ids d ?state) session traces w = (Inr (c1, tr1), w1)"
        and mv: "move_session ports input tn c1 w1 = (Inr c2, w2)" for c1 tr1 w1 tn c2 w2
    proof (rule Suc.IH)
      note s1 = run_state_steps_ok [OF st assms(3) Suc.prems(2)]
      have "inst_id (ls_instance c1) = cid" using s1 by (simp add: holds_def)
      note m = move_session_ok [OF mv assms(3) this]
      have path: "(session_step tv d)\<^sup>*\<^sup>* (ls_instance session) (ls_instance c2)"
        using s1 m(1) by (meson rtranclp.rtrancl_into_rtrancl)
      show "session_reachable tv d ctx0 (ls_instance c2)" by (rule steps_reachable [OF path Suc.prems(1)])
      show "holds (ls_instance c2) w2" by (rule m(2))
      have "length (inst_transitions (ls_instance session)) \<le> length (inst_transitions (ls_instance c1))"
        by (rule steps_transitions_grow) (use s1 in blast)
      then show "length (def_states d) \<le> n + length (inst_transitions (ls_instance c2))"
        using m(3) Suc.prems(3) by linarith
    qed
    show ?thesis
      using False unfolding add_Suc run_loop.simps Let_def assms(3)
      by (auto intro!: eff_bind_cong next_round split: option.split)
  qed
qed

end

end
