(* ===== verification/Driver_Runs.thy ===== *)
theory Driver_Runs
  imports Ceremony_Driver
begin

text \<open>
  The driver on the in-memory store: the interpretation of \<open>driver_environment\<close> on the store,
  the repository of definitions, the transcripts and the memory that one process holds, an
  example run, and the properties of the driver.
\<close>

section \<open>The driver on the in-memory store\<close>

text \<open>
  The world of a run in one process: the store, the catalogue, the memory and the clock, the
  repository of unpublished definitions, the transcripts and the metrics.  The handler is given
  by what it answers, before the constructor of a result has seen it; the clock moves on by
  \<open>tick\<close> while it works.
\<close>

record driver_world =
  dw_world :: world
  dw_definitions :: definition_repository
  dw_transcripts :: transcript_store
  dw_metrics :: "metric_event list"

definition on_world :: "(world, 'a) effect \<Rightarrow> (driver_world, 'a) effect" where
  "on_world m w = (case m (dw_world w) of (r, w') \<Rightarrow> (r, w\<lparr>dw_world := w'\<rparr>))"

definition store_open_session ::
    "(bytes \<Rightarrow> digest) \<Rightarrow> (timestamp \<Rightarrow> rstr option) \<Rightarrow> ceremony_instance \<Rightarrow> audit_fact list
      \<Rightarrow> (world, loaded_session) effect" where
  "store_open_session sha256 rfc3339 i facts w =
     (let sy = w_system w in
      case SessionJournal_open (store_commit sha256 rfc3339) i facts (sys_store sy) of
        (s, r) \<Rightarrow> (r, w\<lparr>w_system := sy\<lparr>sys_store := s,
          sys_loaded := sys_loaded sy \<union> (case r of Inl _ \<Rightarrow> {} | Inr opened \<Rightarrow> {opened})\<rparr>\<rparr>))"

definition memory_driver_ports ::
    "(bytes \<Rightarrow> digest) \<Rightarrow> (timestamp \<Rightarrow> rstr option) \<Rightarrow> (ceremony_evidence_request \<Rightarrow> ceremony_evidence_pack outcome)
      \<Rightarrow> (ceremony_step_handler_request \<Rightarrow> (step_status \<times> step_output \<times> rstr option) outcome)
      \<Rightarrow> (timestamp \<Rightarrow> timestamp) \<Rightarrow> (timestamp \<Rightarrow> nat \<Rightarrow> timestamp option) \<Rightarrow> (timestamp \<Rightarrow> timestamp \<Rightarrow> int)
      \<Rightarrow> (f64 \<Rightarrow> rstr) \<Rightarrow> driver_world driver_ports" where
  "memory_driver_ports sha256 rfc3339 collect handle tick checked_add whole_ms fmt =
     \<lparr>p_load = (\<lambda>cid. on_world (store_load cid)),
      p_resolve = (\<lambda>i w. (ResolveCeremonyDefinitionUseCase_execute (definitions_get (dw_definitions w))
        (publications_published (sys_catalogue (w_system (dw_world w)))) i, w)),
      p_now = (\<lambda>w. w_clock (dw_world w)),
      p_commit = (\<lambda>session facts. on_world (store_commit_session sha256 rfc3339 session facts)),
      p_remember = (\<lambda>scope wr key w.
        case session_memory_remember scope wr key (w_memory (dw_world w)) of
          (m, r) \<Rightarrow> (w\<lparr>dw_world := (dw_world w)\<lparr>w_memory := m\<rparr>\<rparr>, r)),
      p_collect = (\<lambda>req w. (collect req, w)),
      p_save_definition = (\<lambda>d w. (Inr (), w\<lparr>dw_definitions := definitions_save d (dw_definitions w)\<rparr>)),
      p_open = (\<lambda>i facts. on_world (store_open_session sha256 rfc3339 i facts)),
      p_handle = (\<lambda>req w. (and_then (handle req) (\<lambda>(status, out, err). StepResult_new status out err),
        w\<lparr>dw_world := (dw_world w)\<lparr>w_clock := tick (w_clock (dw_world w))\<rparr>\<rparr>)),
      p_transcript = (\<lambda>cid w. (Inr (transcript_store_transcript (dw_transcripts w) cid), w)),
      p_append = (\<lambda>cid c w. (Inr (), w\<lparr>dw_transcripts := transcript_store_append cid c (dw_transcripts w)\<rparr>)),
      p_metric = (\<lambda>m w. w\<lparr>dw_metrics := dw_metrics w @ [m]\<rparr>),
      lib_checked_add = checked_add, lib_whole_ms = whole_ms, lib_fmt = fmt\<rparr>"

abbreviation driver_stored :: "rstr \<Rightarrow> driver_world \<Rightarrow> ceremony_instance option" where
  "driver_stored cid w \<equiv> store_instance (sys_store (w_system (dw_world w))) cid"

lemma store_load_effect:
  assumes "store_load cid w = (r, w')"
  shows "sys_store (w_system w') = sys_store (w_system w)"
    and "r = Inr session \<Longrightarrow> store_instance (sys_store (w_system w)) cid = Some (ls_instance session)"
  using assms
  by (auto simp: store_load_def Let_def SessionJournal_load_def result_simps store_get_def
      split: sum.splits option.splits)

lemma store_commit_session_effect:
  assumes "store_commit_session sha rfc s f w = (Inr c, w')"
  shows "ls_instance c = ls_instance s"
    and "store_instance (sys_store (w_system w')) (inst_id (ls_instance s)) = Some (ls_instance s)"
proof -
  from assms have com: "SessionJournal_commit (store_commit sha rfc) s f (sys_store (w_system w)) =
      (sys_store (w_system w'), Inr c)"
    by (auto simp: store_commit_session_def Let_def split: prod.splits)
  show "ls_instance c = ls_instance s"
    "store_instance (sys_store (w_system w')) (inst_id (ls_instance s)) = Some (ls_instance s)"
    by (rule journal_commit_effect [OF com]; simp)+
qed

interpretation memory_driver: driver_environment
  "memory_driver_ports sha rfc collect handle tick add ms fmt" "driver_stored cid" cid d tv "(=)"
proof unfold_locales
  fix w c w'
  assume "p_load (memory_driver_ports sha rfc collect handle tick add ms fmt) cid w = (Inr c, w')"
  then have "store_load cid (dw_world w) = (Inr c, dw_world w')"
    by (auto simp: memory_driver_ports_def on_world_def split: prod.splits)
  from store_load_effect [OF this] show "driver_stored cid w' = Some (ls_instance c)" by simp
next
  fix s f w c w'
  assume "p_commit (memory_driver_ports sha rfc collect handle tick add ms fmt) s f w = (Inr c, w')"
    and id: "inst_id (ls_instance s) = cid"
  then have "store_commit_session sha rfc s f (dw_world w) = (Inr c, dw_world w')"
    by (auto simp: memory_driver_ports_def on_world_def split: prod.splits)
  from store_commit_session_effect [OF this] id
  show "ls_instance c = ls_instance s \<and> driver_stored cid w' = Some (ls_instance s)" by simp
next
  fix k w r1 w' i
  assume "p_load (memory_driver_ports sha rfc collect handle tick add ms fmt) k w = (r1, w')"
    and st: "driver_stored cid w = Some i"
  then have "store_load k (dw_world w) = (r1, dw_world w')"
    by (auto simp: memory_driver_ports_def on_world_def split: prod.splits)
  from store_load_effect(1) [OF this] st show "\<exists>j. driver_stored cid w' = Some j \<and> i = j" by simp
next
  fix req w res w'
  assume "p_handle (memory_driver_ports sha rfc collect handle tick add ms fmt) req w = (Inr res, w')"
  then show "\<exists>status out err. StepResult_new status out err = Inr res"
    by (auto simp: memory_driver_ports_def result_simps)
qed (auto simp: memory_driver_ports_def)

lemma store_open_session_effect:
  assumes "store_open_session sha rfc i f w = (Inr c, w')"
  shows "ls_instance c = i" and "store_instance (sys_store (w_system w')) (inst_id i) = Some i"
proof -
  from assms have op: "SessionJournal_open (store_commit sha rfc) i f (sys_store (w_system w)) =
      (sys_store (w_system w'), Inr c)"
    by (auto simp: store_open_session_def Let_def split: prod.splits)
  show "ls_instance c = i" "store_instance (sys_store (w_system w')) (inst_id i) = Some i"
    by (rule journal_open_effect [OF op]; simp)+
qed

lemma started_id: "CeremonyInstance_start iid d ctx t = Some i \<Longrightarrow> inst_id i = iid"
  by (auto simp: CeremonyInstance_start_def CeremonyInstance_open_def split: option.splits)

text \<open>A run that returns an output opened a session and drove it through the loop.\<close>

lemma run_ceremony_opens:
  assumes "RunCeremonyUseCase_execute (memory_driver_ports sha rfc collect handle tick add ms fmt) input w =
      Some (Inr out, w')"
  obtains t i session w1 where "CeremonyInstance_start (rci_id input) (rci_definition input) (rci_context input) t = Some i"
    and "ls_instance session = i" and "driver_stored (rci_id input) w1 = Some i"
    and "run_loop (length (def_states (rci_definition input)) + length (def_transitions (rci_definition input)) + 1)
      (memory_driver_ports sha rfc collect handle tick add ms fmt) input t session [] w1 = (Inr out, w')"
proof -
  let ?ports = "memory_driver_ports sha rfc collect handle tick add ms fmt"
  from assms obtain t i facts session w1 w2 where
    i: "CeremonyInstance_start (rci_id input) (rci_definition input) (rci_context input) t = Some i"
    and op: "p_open ?ports i facts w1 = (Inr session, w2)"
    and loop: "run_loop (length (def_states (rci_definition input)) + length (def_transitions (rci_definition input)) + 1)
      ?ports input t session [] w2 = (Inr out, w')"
    unfolding RunCeremonyUseCase_execute_def Let_def
    by (auto split: prod.splits sum.splits domain_error.splits option.splits if_splits)
  from op have "store_open_session sha rfc i facts (dw_world w1) = (Inr session, dw_world w2)"
    by (auto simp: memory_driver_ports_def on_world_def split: prod.splits)
  note effect = store_open_session_effect [OF this]
  have "inst_id i = rci_id input" by (rule started_id [OF i])
  then show thesis using that [OF i effect(1) _ loop] effect(2) by simp
qed

section \<open>A short run\<close>

text \<open>A short ceremony for the examples: one transition behind a guard that the context satisfies.\<close>

definition demo_quick :: ceremony_definition where
  "demo_quick = demo_definition\<lparr>def_steps := [], def_step_order := []\<rparr>"

definition demo_run_input :: run_ceremony_input where
  "demo_run_input = \<lparr>rci_id = lit ''c1'', rci_definition = demo_quick,
     rci_context = [(lit ''ok'', JBool True)], rci_lease_owner_id = lit ''w'', rci_lease_ttl = 9,
     rci_actor_id = lit ''host'', rci_actor_kind = Service\<rparr>"

definition demo_driver_world :: driver_world where
  "demo_driver_world = \<lparr>dw_world = \<lparr>w_system = system_start, w_memory = [], w_clock = 0\<rparr>,
     dw_definitions = [], dw_transcripts = [], dw_metrics = []\<rparr>"

abbreviation demo_driver_ports :: "driver_world driver_ports" where
  "demo_driver_ports \<equiv> memory_driver_ports (\<lambda>_. [7]) demo_rfc (\<lambda>_. Inl (NotFound ''source''))
     (\<lambda>_. Inr (Completed, [], None)) (\<lambda>t. t + 1) (\<lambda>t n. Some (t + int n)) (\<lambda>a b. b - a) (\<lambda>_. [])"

lemma demo_quick_start:
  obtains i where "CeremonyInstance_start (lit ''c1'') demo_quick [(lit ''ok'', JBool True)] 0 = Some i"
    and "inst_id i = lit ''c1''" "inst_current_state i = lit ''open''" "inst_context i = [(lit ''ok'', JBool True)]"
    and "inst_definition_name i = lit ''demo''" "inst_definition_version i = CeremonyVersion_v1"
    and "inst_transitions i = []"
  by (simp add: CeremonyInstance_start_def CeremonyInstance_open_def CeremonyDefinition_initial_state_id_def
      demo_quick_def demo_defs CeremonyState_is_initial_def)

lemma demo_quick_move:
  assumes "inst_current_state i = lit ''open''" "inst_context i = [(lit ''ok'', JBool True)]"
    and "inst_definition_name i = lit ''demo''" "inst_definition_version i = CeremonyVersion_v1"
  obtains j where "CeremonyInstance_apply_transition_as i demo_quick (lit ''host'') (lit ''finish'') 0 =
      Inr (j, lit ''shut'')" "inst_id j = inst_id i" "CeremonyInstance_is_completed j demo_quick"
      "length (inst_transitions j) = Suc (length (inst_transitions i))"
proof -
  have m: "CeremonyInstance_matches_definition i demo_quick"
    using assms by (simp add: CeremonyInstance_matches_definition_def demo_quick_def demo_definition_def)
  have "CeremonyDefinition_role_allows demo_quick (lit ''host'') (Act_Transition (lit ''finish''))"
    by (simp add: CeremonyDefinition_role_allows_def CeremonyRole_allows_def demo_quick_def demo_defs)
  then have "require_role i demo_quick (lit ''host'') (Act_Transition (lit ''finish'')) = Inr ()"
    by (simp add: require_role_iff m)
  moreover have "CeremonyDefinition_transition_for_trigger demo_quick (lit ''open'') (lit ''finish'')
      = Some demo_transition"
    by (simp add: CeremonyDefinition_transition_for_trigger_def demo_quick_def demo_defs)
  moreover have "CeremonyDefinition_guards_are_satisfied demo_quick demo_transition recs
      [(lit ''ok'', JBool True)]" for recs
    by (simp add: CeremonyDefinition_guards_are_satisfied_def demo_quick_def demo_defs CeremonyGuard_is_satisfied.simps
        CeremonyContext_is_guard_approved_def json_as_bool_def)
  moreover have t: "\<not> CeremonyDefinition_is_terminal_state demo_quick (lit ''open'')"
    "CeremonyDefinition_is_terminal_state demo_quick (lit ''shut'')"
    by (simp_all add: CeremonyDefinition_is_terminal_state_def demo_quick_def demo_defs CeremonyState_is_terminal_def lit_def)
  ultimately obtain j where j: "CeremonyInstance_apply_transition_as i demo_quick (lit ''host'') (lit ''finish'') 0 =
      Inr (j, lit ''shut'')"
    by (simp add: CeremonyInstance_apply_transition_as_def CeremonyInstance_move_on_def
        require_definition_def m CeremonyInstance_is_terminal_def assms)
      (simp add: demo_transition_def)
  then show thesis
    using t that by (auto simp: CeremonyInstance_apply_transition_as_def result_simps
      CeremonyInstance_is_completed_def CeremonyInstance_is_terminal_def
      CeremonyInstance_matches_definition_def dest!: move_on_Inr)
qed

lemma demo_quick_facts:
  assumes "inst_id j = lit ''c1''" "length (inst_transitions j) = 1"
  obtains fs where "transition_applied j demo_quick (lit ''host'') Service 0 = Inr fs"
    and "\<forall>f \<in> set fs. fact_ceremony_id f = lit ''c1''"
proof -
  let ?about = "lit ''transition:1''"
  have one: "lit ''transition:'' @ display_nat (length (inst_transitions j)) = ?about"
    unfolding assms(2) by (subst display_nat.simps) (simp add: lit_def)
  have trim: "trim ?about = ?about" by (rule trim_id) (simp_all add: lit_def is_whitespace_def)
  have about: "canonical_text None is_control ?about"
    unfolding canonical_text_def trim by (simp add: lit_def is_control_def)
  have cid: "canonical_text (Some 256) is_control (inst_id j)" unfolding assms(1) by (rule demo_canonical)
  have "str_len ?about = 12" by (simp add: lit_def str_len_def utf8_width_def)
  then have ok: "is_ok (session_fact j et ?about who 0)"
    if "et \<in> {TransitionApplied, CeremonyCompleted}" for et who
    using that session_fact_fits_iff(1) [OF cid about, of et] assms by (auto simp: demo_lens)
  obtain m where m: "session_fact j TransitionApplied ?about
      \<lparr>actor_id = lit ''host'', actor_kind = Service, actor_role_id = Some (lit ''host'')\<rparr> 0 = Inr m"
    using ok [of TransitionApplied] by (auto simp: is_ok_iff)
  obtain e where e: "session_fact j CeremonyCompleted ?about
      \<lparr>actor_id = lit ''host'', actor_kind = Service, actor_role_id = Some (lit ''host'')\<rparr> 0 = Inr e"
    using ok [of CeremonyCompleted] by (auto simp: is_ok_iff)
  have "fact_ceremony_id m = lit ''c1''" "fact_ceremony_id e = lit ''c1''"
    using session_fact_Inr [OF m] session_fact_Inr [OF e] assms(1) by simp_all
  then show thesis
    using m e that by (cases "CeremonyInstance_is_terminal j demo_quick")
      (auto simp: transition_applied_def demo_host_actor one)
qed

lemma demo_quick_next:
  "CeremonyDefinition_next_satisfied_transition demo_quick (lit ''open'') recs [(lit ''ok'', JBool True)] =
     Some demo_transition"
  "CeremonyDefinition_role_id_for_transition demo_quick (lit ''finish'') = Inr (lit ''host'')"
  "CeremonyDefinition_steps_in_declaration_order demo_quick \<noteq> None" "state_step_ids demo_quick s = []"
  "\<not> CeremonyDefinition_is_terminal_state demo_quick (lit ''open'')"
  by (simp_all add: CeremonyDefinition_next_satisfied_transition_def CeremonyDefinition_available_transitions_def
      CeremonyDefinition_guards_are_satisfied_def demo_quick_def demo_defs CeremonyGuard_is_satisfied.simps
      CeremonyContext_is_guard_approved_def json_as_bool_def CeremonyDefinition_role_id_for_transition_def
      CeremonyDefinition_role_for_action_def CeremonyRole_allows_def state_step_ids_def
      CeremonyDefinition_steps_for_state_def CeremonyDefinition_steps_in_declaration_order_def
      CeremonyDefinition_is_terminal_state_def CeremonyState_is_terminal_def lit_def)

lemma demo_open_port:
  assumes "w_system (dw_world w) = system_start\<lparr>sys_readings := rs\<rparr>"
    and "\<forall>f \<in> set fs. fact_ceremony_id f = inst_id i"
  obtains w' where "p_open demo_driver_ports i fs w = (Inr \<lparr>ls_instance = i, ls_expected = Exactly 1\<rparr>, w')"
    and "store_wf (\<lambda>_. [7]) demo_rfc (sys_store (w_system (dw_world w')))"
    and "store_revision (sys_store (w_system (dw_world w'))) (inst_id i) = Some 1"
    and "w_clock (dw_world w') = w_clock (dw_world w)"
proof -
  have wf0: "store_wf (\<lambda>_. [7]) demo_rfc []" by (rule store_wf_empty)
  obtain s where s: "SessionJournal_open (store_commit (\<lambda>_. [7]) demo_rfc) i fs [] =
      (s, Inr \<lparr>ls_instance = i, ls_expected = Exactly 1\<rparr>)"
    using journal_open_ok_iff [OF wf0, of fs i] assms(2) by (auto simp: demo_rfc_def store_revision_def)
  then obtain c recs where c: "CeremonyCommit_new i New fs [] = Inr c"
    and com: "store_commit (\<lambda>_. [7]) demo_rfc c [] = (s, Inr (Committed 1 recs))"
    by (auto simp: SessionJournal_open_def split: sum.splits prod.splits commit_outcome.splits)
  have wf: "store_wf (\<lambda>_. [7]) demo_rfc s" by (rule commit_wf [OF wf0 c com])
  have "commit_instance c = i" using c by (auto simp: CeremonyCommit_new_def split: if_splits)
  then have rv: "store_revision s (inst_id i) = Some 1"
    using memory.committed [OF com refl] by simp
  have op: "p_open demo_driver_ports i fs w = (Inr \<lparr>ls_instance = i, ls_expected = Exactly 1\<rparr>,
      w\<lparr>dw_world := (dw_world w)\<lparr>w_system := (w_system (dw_world w))\<lparr>sys_store := s,
        sys_loaded := {\<lparr>ls_instance = i, ls_expected = Exactly 1\<rparr>}\<rparr>\<rparr>\<rparr>)"
    using s by (simp add: memory_driver_ports_def on_world_def store_open_session_def assms system_start_def)
  show thesis by (rule that [OF op]) (simp_all add: wf rv)
qed

lemma demo_commit_port:
  assumes "store_wf (\<lambda>_. [7]) demo_rfc (sys_store (w_system (dw_world w)))"
    and "store_revision (sys_store (w_system (dw_world w))) (inst_id i) = Some 1"
    and "\<forall>f \<in> set fs. fact_ceremony_id f = inst_id i"
  obtains c w' where "p_commit demo_driver_ports \<lparr>ls_instance = i, ls_expected = Exactly 1\<rparr> fs w = (Inr c, w')"
    and "ls_instance c = i"
proof -
  let ?s = "\<lparr>ls_instance = i, ls_expected = Exactly 1\<rparr>"
  obtain s c where s: "SessionJournal_commit (store_commit (\<lambda>_. [7]) demo_rfc) ?s fs
      (sys_store (w_system (dw_world w))) = (s, Inr c)"
    using journal_commit_ok_iff [OF assms(1), of fs ?s] assms(2,3)
    by (cases "SessionJournal_commit (store_commit (\<lambda>_. [7]) demo_rfc) ?s fs (sys_store (w_system (dw_world w)))")
      (auto simp: demo_rfc_def is_ok_iff)
  have "ls_instance c = i" using memory.journal_commit_reads_back [OF s] by simp
  with s show thesis
    by (intro that) (auto simp: memory_driver_ports_def on_world_def store_commit_session_def Let_def)
qed

lemma demo_run_ends:
  "\<exists>out w'. RunCeremonyUseCase_execute demo_driver_ports demo_run_input demo_driver_world = Some (Inr out, w')"
proof -
  obtain i where i: "CeremonyInstance_start (lit ''c1'') demo_quick [(lit ''ok'', JBool True)] 0 = Some i"
    and id: "inst_id i = lit ''c1''" and i_fields: "inst_current_state i = lit ''open''"
      "inst_context i = [(lit ''ok'', JBool True)]"
      "inst_definition_name i = lit ''demo''" "inst_definition_version i = CeremonyVersion_v1"
    and none: "inst_transitions i = []" by (rule demo_quick_start)
  obtain j where j: "CeremonyInstance_apply_transition_as i demo_quick (lit ''host'') (lit ''finish'') 0 =
      Inr (j, lit ''shut'')" and jid: "inst_id j = lit ''c1''" and completed: "CeremonyInstance_is_completed j demo_quick"
    and len: "length (inst_transitions j) = 1"
    using demo_quick_move [OF i_fields] id none by auto
  obtain fs where fs: "transition_applied j demo_quick (lit ''host'') Service 0 = Inr fs"
    and fid: "\<forall>f \<in> set fs. fact_ceremony_id f = inst_id j" using demo_quick_facts [OF jid len] jid by metis
  obtain f where f: "ceremony_started i (lit ''host'') Service 0 = Inr f" using demo_start_fact [OF id] by blast
  define w1 where "w1 = demo_driver_world\<lparr>dw_world := (dw_world demo_driver_world)\<lparr>w_system :=
    system_start\<lparr>sys_readings := {(lit ''c1'', None)}\<rparr>\<rparr>, dw_definitions := definitions_save demo_quick []\<rparr>"
  have w1: "w_system (dw_world w1) = system_start\<lparr>sys_readings := {(lit ''c1'', None)}\<rparr>" "w_clock (dw_world w1) = 0"
    by (simp_all add: w1_def demo_driver_world_def)
  have "\<forall>g \<in> set [f]. fact_ceremony_id g = inst_id i" using fact_of_session(9) [OF f] by simp
  then obtain w2 where
    op: "p_open demo_driver_ports i [f] w1 = (Inr \<lparr>ls_instance = i, ls_expected = Exactly 1\<rparr>, w2)"
    and w2: "store_wf (\<lambda>_. [7]) demo_rfc (sys_store (w_system (dw_world w2)))"
      "store_revision (sys_store (w_system (dw_world w2))) (inst_id j) = Some 1" "w_clock (dw_world w2) = 0"
    by (rule demo_open_port [OF w1(1)]) (simp only: id jid w1(2))
  obtain c w3 where
    com: "p_commit demo_driver_ports \<lparr>ls_instance = j, ls_expected = Exactly 1\<rparr> fs w2 = (Inr c, w3)"
    and c: "ls_instance c = j" by (rule demo_commit_port [OF w2(1,2) fid])
  have now: "p_now demo_driver_ports w = w_clock (dw_world w)" for w by (simp add: memory_driver_ports_def)
  have ld: "p_load demo_driver_ports (lit ''c1'') demo_driver_world = (Inl (NotFound ''ceremony_instance''),
      demo_driver_world\<lparr>dw_world := (dw_world demo_driver_world)\<lparr>w_system :=
        system_start\<lparr>sys_readings := {(lit ''c1'', None)}\<rparr>\<rparr>\<rparr>)"
    by (simp add: memory_driver_ports_def on_world_def store_load_def SessionJournal_load_def demo_driver_world_def
      system_start_def store_get_def store_instance_def store_revision_def)
  have sv: "p_save_definition demo_driver_ports demo_quick (demo_driver_world\<lparr>dw_world := (dw_world demo_driver_world)\<lparr>w_system :=
        system_start\<lparr>sys_readings := {(lit ''c1'', None)}\<rparr>\<rparr>\<rparr>) = (Inr (), w1)"
    by (simp add: memory_driver_ports_def w1_def demo_driver_world_def)
  have mv: "move_session demo_driver_ports demo_run_input demo_transition \<lparr>ls_instance = i, ls_expected = Exactly 1\<rparr> w2 = (Inr c, w3)"
    using j fs com by (simp add: move_session_def eff_bind_def eff_lift_def eff_get_def demo_run_input_def demo_quick_next now w2
      demo_transition_def)
  have def_in: "rci_definition demo_run_input = demo_quick" by (simp add: demo_run_input_def)
  have "\<not> CeremonyInstance_is_completed i demo_quick"
    using i_fields demo_quick_next(5) by (simp add: CeremonyInstance_is_completed_def CeremonyInstance_is_terminal_def)
  moreover obtain n where "length (def_states demo_quick) + length (def_transitions demo_quick) + 1 = Suc (Suc n)"
    by (simp add: demo_quick_def demo_defs)
  ultimately have "\<exists>out w'. run_loop (length (def_states demo_quick) + length (def_transitions demo_quick) + 1)
      demo_driver_ports demo_run_input 0 \<lparr>ls_instance = i, ls_expected = Exactly 1\<rparr> [] w2 = (Inr out, w')"
    using mv c completed i_fields
    by (simp add: def_in demo_quick_next eff_bind_def eff_lift_def eff_do_def finish_run_def Let_def)
  then show ?thesis
    using ld sv i f op demo_quick_next(3)
    by (simp add: RunCeremonyUseCase_execute_def demo_run_input_def now w1(2))
qed

section \<open>Properties of the driver\<close>

text \<open>
  C14. A run that ends well has run the ceremony: when the driver returns an output, the
  session it returns is the one stored, is completed, was reached from its opening by
  operations its definition allows, and every step in the returned trace succeeded and still
  counts as successful in the session.
\<close>

theorem run_ceremony_completes:
  assumes "RunCeremonyUseCase_execute (memory_driver_ports sha256 rfc3339 collect handle tick checked_add whole_ms fmt)
      input w = Some (Inr out, w')"
  shows "driver_stored (rci_id input) w' = Some (rco_instance out) \<and>
    CeremonyInstance_is_completed (rco_instance out) (rci_definition input) \<and>
    session_reachable to_value (rci_definition input) (rci_context input) (rco_instance out) \<and>
    (\<forall>x \<in> set (rco_step_traces out). StepStatus_is_success (trace_status x) \<and>
       step_succeeded (rco_instance out) (trace_step_id x))"
proof -
  from run_ceremony_opens [OF assms] obtain t i session w1 where
    i: "CeremonyInstance_start (rci_id input) (rci_definition input) (rci_context input) t = Some i"
    and s: "ls_instance session = i" and st: "driver_stored (rci_id input) w1 = Some i"
    and loop: "run_loop (length (def_states (rci_definition input)) + length (def_transitions (rci_definition input)) + 1)
      (memory_driver_ports sha256 rfc3339 collect handle tick checked_add whole_ms fmt) input t session [] w1 =
      (Inr out, w')" by blast
  have "inst_id i = rci_id input" and opened: "session_reachable to_value (rci_definition input) (rci_context input) i"
    using i by (auto simp: CeremonyInstance_start_def CeremonyInstance_open_def split: option.splits
        intro: session_reachable.opened)
  have "memory_driver.holds (rci_id input) (ls_instance session) w1"
    using st s \<open>inst_id i = rci_id input\<close> by (simp add: memory_driver.holds_def)
  from memory_driver.run_loop_ok [OF loop refl this, of to_value] show ?thesis
    using steps_reachable [OF _ opened] s by (auto simp: memory_driver.holds_def)
qed

theorem run_ceremony_completes_witness:
  "\<exists>out w'. RunCeremonyUseCase_execute demo_driver_ports demo_run_input demo_driver_world = Some (Inr out, w') \<and>
     driver_stored (lit ''c1'') w' = Some (rco_instance out) \<and>
     CeremonyInstance_is_completed (rco_instance out) demo_quick"
proof -
  from demo_run_ends obtain out w' where
    run: "RunCeremonyUseCase_execute demo_driver_ports demo_run_input demo_driver_world = Some (Inr out, w')" by blast
  have input: "rci_id demo_run_input = lit ''c1''" "rci_definition demo_run_input = demo_quick"
    by (simp_all add: demo_run_input_def)
  from run run_ceremony_completes [OF run, of "\<lambda>_. None", unfolded input] show ?thesis by blast
qed

text \<open>
  C28. The safety limit of the driver never stops a ceremony without detours: when no state of
  the definition can be reached again from itself, any higher limit than the driver's own
  (states plus transitions plus one) gives the same run, to the last effect.
\<close>

theorem run_limit_never_stops_acyclic:
  assumes "definition_wf d" and "acyclic (transition_edges (def_transitions d))" and "rci_definition input = d"
    and "CeremonyInstance_start (rci_id input) d (rci_context input) opened_at = Some (ls_instance session)"
    and "driver_stored (rci_id input) w = Some (ls_instance session)"
  shows "run_loop (length (def_states d) + length (def_transitions d) + 1 + extra)
      (memory_driver_ports sha256 rfc3339 collect handle tick checked_add whole_ms fmt)
      input started_at session [] w =
    run_loop (length (def_states d) + length (def_transitions d) + 1)
      (memory_driver_ports sha256 rfc3339 collect handle tick checked_add whole_ms fmt)
      input started_at session [] w"
proof (rule memory_driver.run_loop_limit [OF assms(1,2,3)])
  show "session_reachable tv d (rci_context input) (ls_instance session)" for tv
    using assms(4) unfolding CeremonyInstance_start_def by (rule session_reachable.opened)
  have "inst_id (ls_instance session) = rci_id input"
    by (rule started_id [OF assms(4)])
  then show "memory_driver.holds (rci_id input) (ls_instance session) w"
    using assms(5) by (simp add: memory_driver.holds_def)
qed simp

lemma demo_acyclic: "acyclic (transition_edges (def_transitions demo_definition))"
proof -
  have "transition_edges (def_transitions demo_definition) = {(lit ''open'', lit ''shut'')}"
    by (simp add: transition_edges_def demo_defs)
  moreover have "lit ''open'' \<noteq> lit ''shut''" by (simp add: lit_def)
  ultimately show ?thesis by (simp add: acyclic_insert) (simp add: acyclic_def)
qed

theorem run_limit_never_stops_acyclic_witness:
  "run_loop 9 demo_driver_ports (demo_run_input\<lparr>rci_definition := demo_definition, rci_context := []\<rparr>) 0
     \<lparr>ls_instance = demo_opened, ls_expected = Exactly 1\<rparr> []
     (demo_driver_world\<lparr>dw_world := (dw_world demo_driver_world)\<lparr>w_system :=
        system_start\<lparr>sys_store := store_save demo_opened []\<rparr>\<rparr>\<rparr>) =
   run_loop 4 demo_driver_ports (demo_run_input\<lparr>rci_definition := demo_definition, rci_context := []\<rparr>) 0
     \<lparr>ls_instance = demo_opened, ls_expected = Exactly 1\<rparr> []
     (demo_driver_world\<lparr>dw_world := (dw_world demo_driver_world)\<lparr>w_system :=
        system_start\<lparr>sys_store := store_save demo_opened []\<rparr>\<rparr>\<rparr>)"
  (is "run_loop 9 ?p ?in 0 ?s [] ?w = _")
proof -
  have "rci_definition ?in = demo_definition"
    and "CeremonyInstance_start (rci_id ?in) demo_definition (rci_context ?in) 0 = Some (ls_instance ?s)"
    by (simp_all add: demo_run_input_def CeremonyInstance_start_def demo_open_eq)
  moreover have "driver_stored (rci_id ?in) ?w = Some (ls_instance ?s)"
    by (simp add: demo_run_input_def demo_driver_world_def store_save_def Let_def store_reads demo_opened_id)
  moreover have "length (def_states demo_definition) = 2" "length (def_transitions demo_definition) = 1"
    by (simp_all add: demo_defs)
  ultimately show ?thesis
    using run_limit_never_stops_acyclic [OF demo_wf demo_acyclic, of ?in 0 ?s ?w 5] by simp
qed

end
