(* ===== verification/Definition_Diff.thy ===== *)
theory Definition_Diff
  imports Definition_Publications
begin

text \<open>
  Comparing two definitions of a ceremony (\<open>value_objects/ceremony/ceremony_definition_diff.rs\<close> and
  \<open>usecases/diff_ceremony_definitions_use_case.rs\<close>): a list of changes, each with the element it
  is about and a verdict, whether a running session could go on under the later definition.
  Shown here: which definitions have no differences, what a diff without stranding changes
  guarantees to a running session, and the one case in which that verdict is wrong.
\<close>

section \<open>Changes\<close>

datatype ceremony_change_kind = Added | Removed | Altered

fun CeremonyChangeKind_as_label :: "ceremony_change_kind \<Rightarrow> string" where
  "CeremonyChangeKind_as_label Added = ''added''"
| "CeremonyChangeKind_as_label Removed = ''removed''"
| "CeremonyChangeKind_as_label Altered = ''altered''"

datatype ceremony_change_impact = Carries | Strands

fun CeremonyChangeImpact_as_label :: "ceremony_change_impact \<Rightarrow> string" where
  "CeremonyChangeImpact_as_label Carries = ''carries''"
| "CeremonyChangeImpact_as_label Strands = ''strands''"

definition CeremonyChangeImpact_strands :: "ceremony_change_impact \<Rightarrow> bool" where
  "CeremonyChangeImpact_strands impact = (impact = Strands)"

record ceremony_definition_change =
  ch_kind :: ceremony_change_kind
  ch_locus :: ceremony_validation_locus
  ch_impact :: ceremony_change_impact
  ch_detail :: string

type_synonym ceremony_definition_diff = "ceremony_definition_change list"

definition record_change ::
    "ceremony_change_kind \<Rightarrow> ceremony_validation_locus \<Rightarrow> ceremony_change_impact \<Rightarrow> string
      \<Rightarrow> ceremony_definition_change" where
  "record_change kind locus impact detail =
     \<lparr>ch_kind = kind, ch_locus = locus, ch_impact = impact, ch_detail = detail\<rparr>"

section \<open>Element by element\<close>

definition diff_state :: "ceremony_definition \<Rightarrow> rstr \<Rightarrow> ceremony_state \<Rightarrow> ceremony_definition_change list" where
  "diff_state after sid state =
     (case bt_get (def_states after) sid of
        None \<Rightarrow> [record_change Removed (Locus_State sid) Strands ''a session in this state would have nowhere to be'']
      | Some now \<Rightarrow>
          if state_kind now \<noteq> state_kind state
          then [record_change Altered (Locus_State sid) Strands ''whether the session may start or finish here'']
          else [])"

definition diff_states :: "ceremony_definition \<Rightarrow> ceremony_definition \<Rightarrow> ceremony_definition_change list" where
  "diff_states before after =
     concat (map (\<lambda>(sid, state). diff_state after sid state) (def_states before)) @
     map (\<lambda>sid. record_change Added (Locus_State sid) Carries ''a state no running session is in yet'')
       (filter (\<lambda>sid. \<not> bt_contains_key (def_states before) sid) (bt_keys (def_states after)))"

definition transition_key :: "ceremony_transition \<Rightarrow> rstr \<times> rstr" where
  "transition_key t = (trans_from t, trans_trigger t)"

definition diff_transition :: "ceremony_definition \<Rightarrow> ceremony_transition \<Rightarrow> ceremony_definition_change list" where
  "diff_transition after old =
     (let locus = Locus_Transition (trans_from old) (trans_trigger old) in
      case find (\<lambda>t. transition_key t = transition_key old) (def_transitions after) of
        None \<Rightarrow> [record_change Removed locus Strands ''a way out of the state it leaves'']
      | Some now \<Rightarrow>
          if trans_to now \<noteq> trans_to old then [record_change Altered locus Strands ''where it leads'']
          else if trans_required_guards now \<noteq> trans_required_guards old
          then [record_change Altered locus
            (if set (trans_required_guards old) \<subseteq> set (trans_required_guards now) then Strands else Carries)
            ''what has to hold before it can fire'']
          else [])"

definition diff_transitions :: "ceremony_definition \<Rightarrow> ceremony_definition \<Rightarrow> ceremony_definition_change list" where
  "diff_transitions before after =
     concat (map (diff_transition after) (def_transitions before)) @
     map (\<lambda>now. record_change Added (Locus_Transition (trans_from now) (trans_trigger now)) Carries
         ''another way out of a state'')
       (filter (\<lambda>now. \<not> list_ex (\<lambda>t. transition_key t = transition_key now) (def_transitions before))
         (def_transitions after))"

definition diff_step :: "ceremony_definition \<Rightarrow> rstr \<Rightarrow> ceremony_step \<Rightarrow> ceremony_definition_change list" where
  "diff_step after sid old =
     (case bt_get (def_steps after) sid of
        None \<Rightarrow> [record_change Removed (Locus_Step sid) Strands ''work a session may not have done yet'']
      | Some now \<Rightarrow>
          (if step_state_id now \<noteq> step_state_id old
           then [record_change Altered (Locus_Step sid) Strands ''the state it belongs to''] else []) @
          (if step_handler_kind now \<noteq> step_handler_kind old
           then [record_change Altered (Locus_Step sid) Carries ''who does the work''] else []) @
          (if step_handler_config now \<noteq> step_handler_config old
           then [record_change Altered (Locus_Step sid) Carries ''how the work is asked for''] else []) @
          (if step_retry_policy now \<noteq> step_retry_policy old \<or> step_timeout now \<noteq> step_timeout old
           then [record_change Altered (Locus_Step sid) Carries
             ''how long it may take and how often it may be retried''] else []))"

definition diff_steps :: "ceremony_definition \<Rightarrow> ceremony_definition \<Rightarrow> ceremony_definition_change list" where
  "diff_steps before after =
     concat (map (\<lambda>(sid, old). diff_step after sid old) (def_steps before)) @
     map (\<lambda>sid. record_change Added (Locus_Step sid) Strands ''work a session may already have moved past'')
       (filter (\<lambda>sid. \<not> bt_contains_key (def_steps before) sid) (bt_keys (def_steps after)))"

definition diff_guard :: "ceremony_definition \<Rightarrow> rstr \<Rightarrow> ceremony_guard \<Rightarrow> ceremony_definition_change list" where
  "diff_guard after name old =
     (case bt_get (def_guards after) name of
        None \<Rightarrow> [record_change Removed (Locus_Guard name) Carries ''a condition no longer asked for'']
      | Some now \<Rightarrow>
          if guard_condition now \<noteq> guard_condition old
          then [record_change Altered (Locus_Guard name) Strands ''what satisfies it''] else [])"

definition diff_guards :: "ceremony_definition \<Rightarrow> ceremony_definition \<Rightarrow> ceremony_definition_change list" where
  "diff_guards before after =
     concat (map (\<lambda>(name, old). diff_guard after name old) (def_guards before)) @
     map (\<lambda>name. record_change Added (Locus_Guard name) Carries
         ''a condition that only matters where a transition asks for it'')
       (filter (\<lambda>name. \<not> bt_contains_key (def_guards before) name) (bt_keys (def_guards after)))"

definition diff_role :: "ceremony_definition \<Rightarrow> rstr \<Rightarrow> ceremony_role \<Rightarrow> ceremony_definition_change list" where
  "diff_role after rid old =
     (case bt_get (def_roles after) rid of
        None \<Rightarrow> [record_change Removed (Locus_Role rid) Strands ''whoever was acting as this role can no longer act'']
      | Some now \<Rightarrow>
          if role_allowed_actions now \<noteq> role_allowed_actions old
          then [record_change Altered (Locus_Role rid)
            (if set (role_allowed_actions old) \<subseteq> set (role_allowed_actions now) then Carries else Strands)
            ''what this role is allowed to do''] else [])"

definition diff_roles :: "ceremony_definition \<Rightarrow> ceremony_definition \<Rightarrow> ceremony_definition_change list" where
  "diff_roles before after =
     concat (map (\<lambda>(rid, old). diff_role after rid old) (def_roles before)) @
     map (\<lambda>rid. record_change Added (Locus_Role rid) Carries ''another role at the table'')
       (filter (\<lambda>rid. \<not> bt_contains_key (def_roles before) rid) (bt_keys (def_roles after)))"

definition is_required :: "ceremony_input_definition \<Rightarrow> bool" where
  "is_required input = (input_requirement input = Required)"

definition diff_input :: "ceremony_definition \<Rightarrow> rstr \<Rightarrow> ceremony_input_definition \<Rightarrow> ceremony_definition_change list" where
  "diff_input before name now =
     (let impact = (if is_required now then Strands else Carries) in
      case bt_get (def_inputs before) name of
        None \<Rightarrow> [record_change Added (Locus_Input name) impact ''an input the ceremony now asks for'']
      | Some was \<Rightarrow>
          if is_required was \<noteq> is_required now
          then [record_change Altered (Locus_Input name) impact ''whether it has to be supplied''] else [])"

definition diff_shape :: "ceremony_definition \<Rightarrow> ceremony_definition \<Rightarrow> ceremony_definition_change list" where
  "diff_shape before after =
     map (\<lambda>name. record_change Removed (Locus_Input name) Carries ''an input no longer asked for'')
       (filter (\<lambda>name. \<not> bt_contains_key (def_inputs after) name) (bt_keys (def_inputs before))) @
     concat (map (\<lambda>(name, now). diff_input before name now) (def_inputs after)) @
     map (\<lambda>name. record_change Removed (Locus_Output name) Carries ''an output no longer produced'')
       (filter (\<lambda>name. \<not> bt_contains_key (def_outputs after) name) (bt_keys (def_outputs before))) @
     map (\<lambda>name. record_change Added (Locus_Output name) Carries ''an output not produced before'')
       (filter (\<lambda>name. \<not> bt_contains_key (def_outputs before) name) (bt_keys (def_outputs after))) @
     (if def_description before \<noteq> def_description after
      then [record_change Altered Locus_Definition Carries ''what the ceremony says it is for''] else [])"

section \<open>The diff\<close>

definition CeremonyDefinitionDiff_between ::
    "ceremony_definition \<Rightarrow> ceremony_definition \<Rightarrow> ceremony_definition_diff" where
  "CeremonyDefinitionDiff_between before after =
     diff_states before after @ diff_transitions before after @ diff_steps before after @
     diff_guards before after @ diff_roles before after @ diff_shape before after"

definition CeremonyDefinitionDiff_is_identical :: "ceremony_definition_diff \<Rightarrow> bool" where
  "CeremonyDefinitionDiff_is_identical diff = (diff = [])"

definition CeremonyDefinitionDiff_strands_running_sessions :: "ceremony_definition_diff \<Rightarrow> bool" where
  "CeremonyDefinitionDiff_strands_running_sessions diff =
     list_ex (\<lambda>change. CeremonyChangeImpact_strands (ch_impact change)) diff"

definition CeremonyDefinitionDiff_strand_count :: "ceremony_definition_diff \<Rightarrow> nat" where
  "CeremonyDefinitionDiff_strand_count diff =
     length (filter (\<lambda>change. CeremonyChangeImpact_strands (ch_impact change)) diff)"

datatype ceremony_definition_source = Source_Published rstr rstr | Source_Supplied ceremony_definition

definition resolve_source ::
    "(rstr \<Rightarrow> rstr \<Rightarrow> published_ceremony_definition option outcome) \<Rightarrow> ceremony_definition_source
      \<Rightarrow> ceremony_definition outcome" where
  "resolve_source published src =
     (case src of
        Source_Supplied d \<Rightarrow> Inr d
      | Source_Published name version \<Rightarrow>
          and_then (published name version) (\<lambda>opt.
          ok_or (map_option pub_definition opt) (NotFound ''published_ceremony_definition'')))"

definition DiffCeremonyDefinitionsUseCase_execute ::
    "(rstr \<Rightarrow> rstr \<Rightarrow> published_ceremony_definition option outcome) \<Rightarrow> ceremony_definition_source
      \<Rightarrow> ceremony_definition_source \<Rightarrow> ceremony_definition_diff outcome" where
  "DiffCeremonyDefinitionsUseCase_execute published before after =
     and_then (resolve_source published before) (\<lambda>b.
     and_then (resolve_source published after) (\<lambda>a.
     Inr (CeremonyDefinitionDiff_between b a)))"

section \<open>No differences\<close>

lemma maps_agree:
  assumes "bt_wf m" and "bt_wf n" and "\<forall>(k, x) \<in> set m. bt_get n k = Some x" and "fst ` set n \<subseteq> fst ` set m"
  shows "m = n"
proof (rule bt_wf_eqI [OF assms(1,2)])
  show "bt_get m = bt_get n"
  proof
    fix k
    show "bt_get m k = bt_get n k"
    proof (cases "bt_get m k")
      case None
      then have "bt_get n k = None" using assms(4) by (auto simp: map_of_eq_None_iff)
      then show ?thesis using None by simp
    next
      case (Some x)
      then have "(k, x) \<in> set m" using assms(1) by (simp add: bt_get_iff)
      then show ?thesis using Some assms(3) by auto
    qed
  qed
qed

text \<open>The pattern of four collectors: compare the old entries, then list the new ones.\<close>

lemma diff_map_Nil:
  "concat (map (\<lambda>(k, x). f k x) m) @ map g (filter (\<lambda>k. \<not> bt_contains_key m k) (bt_keys n)) = [] \<longleftrightarrow>
     (\<forall>(k, x) \<in> set m. f k x = []) \<and> fst ` set n \<subseteq> fst ` set m"
  by (auto simp: filter_empty_conv bt_contains_iff)

lemma diff_map_identical:
  assumes "bt_wf m" and "bt_wf n" and same: "\<And>k x. (k, x) \<in> set m \<Longrightarrow> f k x = [] \<longleftrightarrow> bt_get n k = Some x"
  shows "concat (map (\<lambda>(k, x). f k x) m) @ map g (filter (\<lambda>k. \<not> bt_contains_key m k) (bt_keys n)) = [] \<longleftrightarrow> m = n"
proof -
  have "(\<forall>(k, x) \<in> set m. f k x = []) \<longleftrightarrow> (\<forall>(k, x) \<in> set m. bt_get n k = Some x)" using same by auto
  then show ?thesis
    unfolding diff_map_Nil using maps_agree [OF assms(1,2)] assms(1) by (auto simp: bt_get_iff)
qed

lemma wf_maps:
  assumes "definition_wf d"
  shows "bt_wf (def_states d)" "bt_wf (def_steps d)" "bt_wf (def_guards d)" "bt_wf (def_roles d)"
    "bt_wf (def_inputs d)" "bt_wf (def_outputs d)"
    "bt_get (def_states d) k = Some s \<Longrightarrow> state_id s = k" "bt_get (def_steps d) k = Some st \<Longrightarrow> step_id st = k"
    "bt_get (def_guards d) k = Some g \<Longrightarrow> guard_name g = k" "bt_get (def_roles d) k = Some r \<Longrightarrow> role_id r = k"
    "bt_get (def_inputs d) k = Some inp \<Longrightarrow> input_name inp = k" "bt_get (def_outputs d) k = Some out \<Longrightarrow> output_name out = k"
    "distinct (map transition_key (def_transitions d))"
  using assms by (auto simp: definition_wf_def parts_wf_def CeremonyDefinition_parts_def transition_key_def [abs_def]
      intro: keyed_by_get)

lemma diff_element_Nil:
  assumes "definition_wf a"
  shows "state_id s = k \<Longrightarrow> diff_state a k s = [] \<longleftrightarrow> bt_get (def_states a) k = Some s"
    and "step_id st = k \<Longrightarrow> diff_step a k st = [] \<longleftrightarrow> bt_get (def_steps a) k = Some st"
    and "guard_name g = k \<Longrightarrow> diff_guard a k g = [] \<longleftrightarrow> bt_get (def_guards a) k = Some g"
    and "role_id r = k \<Longrightarrow> diff_role a k r = [] \<longleftrightarrow> bt_get (def_roles a) k = Some r"
proof -
  show "state_id s = k \<Longrightarrow> diff_state a k s = [] \<longleftrightarrow> bt_get (def_states a) k = Some s"
    using wf_maps(7) [OF assms, of k]
    by (auto simp: diff_state_def split: option.splits intro: ceremony_state.equality)
  show "step_id st = k \<Longrightarrow> diff_step a k st = [] \<longleftrightarrow> bt_get (def_steps a) k = Some st"
    using wf_maps(8) [OF assms, of k]
    by (auto simp: diff_step_def split: option.splits intro: ceremony_step.equality)
  show "guard_name g = k \<Longrightarrow> diff_guard a k g = [] \<longleftrightarrow> bt_get (def_guards a) k = Some g"
    using wf_maps(9) [OF assms, of k]
    by (auto simp: diff_guard_def split: option.splits intro: ceremony_guard.equality)
  show "role_id r = k \<Longrightarrow> diff_role a k r = [] \<longleftrightarrow> bt_get (def_roles a) k = Some r"
    using wf_maps(10) [OF assms, of k]
    by (auto simp: diff_role_def split: option.splits intro: ceremony_role.equality)
qed

lemma diff_collectors_Nil:
  assumes "definition_wf b" and "definition_wf a"
  shows "diff_states b a = [] \<longleftrightarrow> def_states b = def_states a"
    and "diff_steps b a = [] \<longleftrightarrow> def_steps b = def_steps a"
    and "diff_guards b a = [] \<longleftrightarrow> def_guards b = def_guards a"
    and "diff_roles b a = [] \<longleftrightarrow> def_roles b = def_roles a"
proof -
  note b = wf_maps [OF assms(1)] and a = wf_maps [OF assms(2)]
  show "diff_states b a = [] \<longleftrightarrow> def_states b = def_states a" unfolding diff_states_def
    by (rule diff_map_identical [OF b(1) a(1) diff_element_Nil(1) [OF assms(2) b(7)]]) (simp add: bt_get_iff [OF b(1)])
  show "diff_steps b a = [] \<longleftrightarrow> def_steps b = def_steps a" unfolding diff_steps_def
    by (rule diff_map_identical [OF b(2) a(2) diff_element_Nil(2) [OF assms(2) b(8)]]) (simp add: bt_get_iff [OF b(2)])
  show "diff_guards b a = [] \<longleftrightarrow> def_guards b = def_guards a" unfolding diff_guards_def
    by (rule diff_map_identical [OF b(3) a(3) diff_element_Nil(3) [OF assms(2) b(9)]]) (simp add: bt_get_iff [OF b(3)])
  show "diff_roles b a = [] \<longleftrightarrow> def_roles b = def_roles a" unfolding diff_roles_def
    by (rule diff_map_identical [OF b(4) a(4) diff_element_Nil(4) [OF assms(2) b(10)]]) (simp add: bt_get_iff [OF b(4)])
qed

lemma find_key:
  assumes "distinct (map key xs)"
  shows "find (\<lambda>y. key y = key x) xs = Some z \<longleftrightarrow> z \<in> set xs \<and> key z = key x"
  using assms by (induction xs) (auto simp: image_iff)

lemma diff_transition_Nil:
  assumes "definition_wf a"
  shows "diff_transition a t = [] \<longleftrightarrow> t \<in> set (def_transitions a)"
proof -
  note f = find_key [OF wf_maps(13) [OF assms], of t]
  show ?thesis
  proof (cases "find (\<lambda>u. transition_key u = transition_key t) (def_transitions a)")
    case None
    then have "t \<notin> set (def_transitions a)" by (auto simp: find_None_iff)
    with None show ?thesis by (simp add: diff_transition_def Let_def)
  next
    case (Some u)
    then have "u \<in> set (def_transitions a)" "transition_key u = transition_key t" using f by simp_all
    moreover have "t \<in> set (def_transitions a) \<longleftrightarrow> u = t" using f Some by auto
    ultimately show ?thesis
      using Some by (auto simp: diff_transition_def Let_def transition_key_def intro: ceremony_transition.equality)
  qed
qed

lemma diff_transitions_Nil:
  assumes "definition_wf b" and "definition_wf a"
  shows "diff_transitions b a = [] \<longleftrightarrow> set (def_transitions b) = set (def_transitions a)"
proof -
  let ?B = "set (def_transitions b)" and ?A = "set (def_transitions a)"
  have inj: "t = now" if "t \<in> ?A" "now \<in> ?A" "transition_key t = transition_key now" for t now
    using that wf_maps(13) [OF assms(2)] by (simp add: distinct_map inj_on_def)
  have "(\<forall>t \<in> ?B. t \<in> ?A) \<and> (\<forall>now \<in> ?A. \<exists>t \<in> ?B. transition_key t = transition_key now) \<longleftrightarrow> ?B = ?A"
  proof
    assume both: "(\<forall>t \<in> ?B. t \<in> ?A) \<and> (\<forall>now \<in> ?A. \<exists>t \<in> ?B. transition_key t = transition_key now)"
    have "now \<in> ?B" if "now \<in> ?A" for now
    proof -
      from both that obtain t where "t \<in> ?B" "transition_key t = transition_key now" by blast
      moreover from this(1) both have "t \<in> ?A" by blast
      ultimately show ?thesis using inj that by blast
    qed
    with both show "?B = ?A" by blast
  qed auto
  then show ?thesis
    by (simp add: diff_transitions_def diff_transition_Nil [OF assms(2)] filter_empty_conv list_ex_iff)
qed

lemma diff_shape_Nil:
  assumes "definition_wf b" and "definition_wf a"
  shows "diff_shape b a = [] \<longleftrightarrow>
    def_inputs b = def_inputs a \<and> def_outputs b = def_outputs a \<and> def_description b = def_description a"
proof -
  note b = wf_maps [OF assms(1)] and a = wf_maps [OF assms(2)]
  have required: "input_requirement x = input_requirement y \<longleftrightarrow> is_required x = is_required y" for x y
    by (cases "input_requirement x"; cases "input_requirement y") (auto simp: is_required_def)
  have input: "diff_input b k x = [] \<longleftrightarrow> bt_get (def_inputs b) k = Some x" if "(k, x) \<in> set (def_inputs a)" for k x
  proof (cases "bt_get (def_inputs b) k")
    case (Some y)
    have "input_name x = k" using a(11) [of k x] that by (simp add: bt_get_iff [OF a(5)])
    then have "y = x \<longleftrightarrow> is_required y = is_required x"
      using b(11) [OF Some] by (metis ceremony_input_definition.equality old.unit.exhaust required)
    with Some show ?thesis by (simp add: diff_input_def Let_def)
  qed (simp add: diff_input_def Let_def)
  have produced: "bt_get (def_outputs a) k = Some x" if "(k, x) \<in> set (def_outputs b)" "k \<in> fst ` set (def_outputs a)" for k x
  proof -
    from that(2) a(6) obtain y where y: "bt_get (def_outputs a) k = Some y" by (auto simp: bt_get_iff)
    with that(1) b(6) a(12) [OF y] b(12) [of k x] have "x = y" by (intro ceremony_output_definition.equality) (simp_all add: bt_get_iff)
    with y show ?thesis by simp
  qed
  have "(fst ` set (def_inputs b) \<subseteq> fst ` set (def_inputs a) \<and> (\<forall>(k, x) \<in> set (def_inputs a). diff_input b k x = [])) \<longleftrightarrow>
      def_inputs b = def_inputs a"
  proof -
    have "(\<forall>(k, x) \<in> set (def_inputs a). diff_input b k x = []) \<longleftrightarrow> (\<forall>(k, x) \<in> set (def_inputs a). bt_get (def_inputs b) k = Some x)"
      using input by auto
    then show ?thesis using maps_agree [OF a(5) b(5)] a(5) by (auto simp: bt_get_iff [OF b(5)])
  qed
  moreover have "(fst ` set (def_outputs b) \<subseteq> fst ` set (def_outputs a) \<and> fst ` set (def_outputs a) \<subseteq> fst ` set (def_outputs b)) \<longleftrightarrow>
      def_outputs b = def_outputs a"
  proof
    assume keys: "fst ` set (def_outputs b) \<subseteq> fst ` set (def_outputs a) \<and> fst ` set (def_outputs a) \<subseteq> fst ` set (def_outputs b)"
    have "k \<in> fst ` set (def_outputs a)" if "(k, x) \<in> set (def_outputs b)" for k x using keys that by force
    then have "\<forall>(k, x) \<in> set (def_outputs b). bt_get (def_outputs a) k = Some x" using produced by blast
    then show "def_outputs b = def_outputs a" by (rule maps_agree [OF b(6) a(6)]) (simp add: keys)
  qed simp
  ultimately show ?thesis
    by (auto simp: diff_shape_def filter_empty_conv bt_contains_iff)
qed

section \<open>What carries\<close>

definition carrying :: "ceremony_definition_change list \<Rightarrow> bool" where
  "carrying diff = (\<forall>c \<in> set diff. ch_impact c = Carries)"

lemma carrying_simps [simp]:
  "carrying []" "carrying (c # diff) \<longleftrightarrow> ch_impact c = Carries \<and> carrying diff"
  "carrying (xs @ ys) \<longleftrightarrow> carrying xs \<and> carrying ys" "carrying (concat xss) \<longleftrightarrow> (\<forall>xs \<in> set xss. carrying xs)"
  "carrying (map f ks) \<longleftrightarrow> (\<forall>k \<in> set ks. ch_impact (f k) = Carries)" "ch_impact (record_change k l i d) = i"
  by (auto simp: carrying_def record_change_def)

lemma not_strands_iff: "\<not> CeremonyDefinitionDiff_strands_running_sessions diff \<longleftrightarrow> carrying diff"
  by (auto simp: CeremonyDefinitionDiff_strands_running_sessions_def CeremonyChangeImpact_strands_def carrying_def
      list_ex_iff) (metis ceremony_change_impact.exhaust)

lemma carries_states:
  assumes "carrying (CeremonyDefinitionDiff_between b a)" and "bt_get (def_states b) k = Some s"
  shows "\<exists>s'. bt_get (def_states a) k = Some s' \<and> state_kind s' = state_kind s"
proof -
  have "carrying (diff_state a k s)"
    using assms(1) map_of_SomeD [OF assms(2)] by (auto simp: CeremonyDefinitionDiff_between_def diff_states_def)
  then show ?thesis by (auto simp: diff_state_def split: option.splits if_splits)
qed

lemma carries_steps:
  assumes "carrying (CeremonyDefinitionDiff_between b a)"
  shows "bt_get (def_steps b) k = Some st \<Longrightarrow> \<exists>st'. bt_get (def_steps a) k = Some st' \<and> step_state_id st' = step_state_id st"
    and "fst ` set (def_steps a) \<subseteq> fst ` set (def_steps b)"
proof -
  have all: "carrying (diff_step a k st)" if "(k, st) \<in> set (def_steps b)" for k st
    using assms that by (auto simp: CeremonyDefinitionDiff_between_def diff_steps_def)
  show "bt_get (def_steps b) k = Some st \<Longrightarrow> \<exists>st'. bt_get (def_steps a) k = Some st' \<and> step_state_id st' = step_state_id st"
    using all [OF map_of_SomeD] by (fastforce simp: diff_step_def split: option.splits if_splits)
  show "fst ` set (def_steps a) \<subseteq> fst ` set (def_steps b)"
    using assms by (auto simp: CeremonyDefinitionDiff_between_def diff_steps_def bt_contains_iff)
qed

lemma carries_guards:
  assumes "carrying (CeremonyDefinitionDiff_between b a)" and "bt_get (def_guards b) k = Some g"
    and "bt_get (def_guards a) k = Some g'"
  shows "guard_condition g' = guard_condition g"
proof -
  have "carrying (diff_guard a k g)"
    using assms(1) map_of_SomeD [OF assms(2)] by (auto simp: CeremonyDefinitionDiff_between_def diff_guards_def)
  then show ?thesis using assms(3) by (auto simp: diff_guard_def split: if_splits)
qed

lemma carries_roles:
  assumes "carrying (CeremonyDefinitionDiff_between b a)" and "CeremonyDefinition_role_allows b rid action"
  shows "CeremonyDefinition_role_allows a rid action"
proof -
  from assms(2) obtain r where r: "bt_get (def_roles b) rid = Some r" "CeremonyRole_allows r action"
    by (auto simp: CeremonyDefinition_role_allows_def split: option.splits)
  have "carrying (diff_role a rid r)"
    using assms(1) map_of_SomeD [OF r(1)] by (auto simp: CeremonyDefinitionDiff_between_def diff_roles_def)
  then show ?thesis
    using r(2) by (auto simp: diff_role_def CeremonyDefinition_role_allows_def CeremonyRole_allows_def
        split: option.splits if_splits)
qed

lemma carries_inputs:
  assumes "carrying (CeremonyDefinitionDiff_between b a)" and "bt_get (def_inputs a) k = Some x" and "is_required x"
  shows "\<exists>y. bt_get (def_inputs b) k = Some y \<and> is_required y"
proof -
  have "carrying (diff_input b k x)"
    using assms(1) map_of_SomeD [OF assms(2)] by (auto simp: CeremonyDefinitionDiff_between_def diff_shape_def)
  then show ?thesis using assms(3) by (auto simp: diff_input_def Let_def split: option.splits if_splits)
qed

text \<open>A transition stays, leads where it led, and gains a guard only by losing another one.\<close>

lemma carries_transitions:
  assumes "carrying (CeremonyDefinitionDiff_between b a)"
    and "CeremonyDefinition_transition_for_trigger b sid trigger = Some t"
  obtains t' where "CeremonyDefinition_transition_for_trigger a sid trigger = Some t'" and "trans_to t' = trans_to t"
    and "trans_required_guards t' = trans_required_guards t \<or> \<not> set (trans_required_guards t) \<subseteq> set (trans_required_guards t')"
proof -
  from assms(2) have t: "t \<in> set (def_transitions b)" "trans_from t = sid" "trans_trigger t = trigger"
    by (auto simp: CeremonyDefinition_transition_for_trigger_def dest!: find_Some_set)
  have "(\<lambda>u. transition_key u = transition_key t) = (\<lambda>u. trans_from u = sid \<and> trans_trigger u = trigger)"
    using t(2,3) by (auto simp: transition_key_def)
  then have key: "find (\<lambda>u. transition_key u = transition_key t) (def_transitions a) =
      CeremonyDefinition_transition_for_trigger a sid trigger"
    by (simp add: CeremonyDefinition_transition_for_trigger_def)
  have "carrying (diff_transition a t)"
    using assms(1) t(1) by (auto simp: CeremonyDefinitionDiff_between_def diff_transitions_def)
  then show thesis
    by (intro that [of "the (CeremonyDefinition_transition_for_trigger a sid trigger)"])
      (auto simp: diff_transition_def Let_def key split: option.splits if_splits)
qed

section \<open>Properties\<close>

text \<open>The session pointed at another definition.\<close>

definition adopt :: "ceremony_instance \<Rightarrow> ceremony_definition \<Rightarrow> ceremony_instance" where
  "adopt i d = i\<lparr>inst_definition_name := def_name d, inst_definition_version := def_version d\<rparr>"

definition guard_holds :: "ceremony_definition \<Rightarrow> rstr \<Rightarrow> ceremony_instance \<Rightarrow> bool" where
  "guard_holds d g i = (\<exists>guard. bt_get (def_guards d) g = Some guard \<and>
     CeremonyGuard_is_satisfied guard (inst_step_records i) (inst_context i))"

lemma guards_satisfied_iff:
  "CeremonyDefinition_guards_are_satisfied d t (inst_step_records i) (inst_context i) \<longleftrightarrow>
     (\<forall>g \<in> set (trans_required_guards t). guard_holds d g i)"
  by (auto simp: CeremonyDefinition_guards_are_satisfied_def guard_holds_def list_all_iff split: option.splits)

lemma carries_guard_holds:
  assumes "carrying (CeremonyDefinitionDiff_between b a)" and "guard_holds b g i" and "bt_contains_key (def_guards a) g"
    and "definition_wf b" and "definition_wf a"
  shows "guard_holds a g i"
proof -
  from assms(2,3) obtain old now where g: "bt_get (def_guards b) g = Some old" "bt_get (def_guards a) g = Some now"
      "CeremonyGuard_is_satisfied old (inst_step_records i) (inst_context i)"
    by (auto simp: guard_holds_def bt_contains_key_def)
  have "now = old"
    using wf_maps(9) [OF assms(4) g(1)] wf_maps(9) [OF assms(5) g(2)] carries_guards [OF assms(1) g(1,2)]
    by (intro ceremony_guard.equality) simp_all
  with g show ?thesis by (auto simp: guard_holds_def)
qed

text \<open>
  A diff without changes means that the two definitions agree in everything but their names
  and versions, the order of their transitions and the order of their steps.
\<close>

theorem diff_identical_iff:
  assumes "definition_wf b" and "definition_wf a"
  shows "CeremonyDefinitionDiff_is_identical (CeremonyDefinitionDiff_between b a) \<longleftrightarrow>
    def_states b = def_states a \<and> set (def_transitions b) = set (def_transitions a) \<and> def_steps b = def_steps a \<and>
    def_guards b = def_guards a \<and> def_roles b = def_roles a \<and> def_inputs b = def_inputs a \<and>
    def_outputs b = def_outputs a \<and> def_description b = def_description a"
  by (simp add: CeremonyDefinitionDiff_is_identical_def CeremonyDefinitionDiff_between_def
      diff_collectors_Nil [OF assms] diff_transitions_Nil [OF assms] diff_shape_Nil [OF assms])

theorem diff_identical_iff_witness:
  "CeremonyDefinitionDiff_is_identical
     (CeremonyDefinitionDiff_between demo_definition (demo_definition\<lparr>def_version := lit ''2''\<rparr>))"
proof -
  have wf: "definition_wf (demo_definition\<lparr>def_version := lit ''2''\<rparr>)"
    using demo_wf by (simp add: definition_wf_def CeremonyDefinition_parts_def)
  show ?thesis using diff_identical_iff [OF demo_wf wf] by simp
qed

lemma adopt_fields [simp]:
  "inst_current_state (adopt i d) = inst_current_state i" "inst_step_records (adopt i d) = inst_step_records i"
  "inst_context (adopt i d) = inst_context i" "CeremonyInstance_matches_definition (adopt i d) d"
  "guard_holds e g (adopt i d) = guard_holds e g i"
  by (simp_all add: adopt_def CeremonyInstance_matches_definition_def guard_holds_def)

lemma carries_move:
  assumes wf: "definition_wf b" "definition_wf a" and carry: "carrying (CeremonyDefinitionDiff_between b a)"
    and run: "CeremonyInstance_apply_transition_as i b rid trigger now = Inr (j, dst)"
  obtains t t' where "CeremonyDefinition_transition_for_trigger b (inst_current_state i) trigger = Some t"
    and "CeremonyDefinition_transition_for_trigger a (inst_current_state i) trigger = Some t'"
    and "trans_required_guards t' = trans_required_guards t \<or> \<not> set (trans_required_guards t) \<subseteq> set (trans_required_guards t')"
    and "CeremonyInstance_apply_transition_as (adopt i a) a rid trigger now =
      (if \<forall>g \<in> set (trans_required_guards t') - set (trans_required_guards t). guard_holds a g i then Inr (adopt j a, dst)
       else Inl (InvariantViolated ''ceremony transition guards are not satisfied''))"
proof -
  from run have role: "CeremonyDefinition_role_allows b rid (Act_Transition trigger)"
    and move: "CeremonyInstance_move_on i b trigger (Some rid) now = Inr (j, dst)"
    by (auto simp: CeremonyInstance_apply_transition_as_def require_role_def result_simps split: if_splits)
  note facts = move_on_Inr [OF move]
  then obtain t where t: "CeremonyDefinition_transition_for_trigger b (inst_current_state i) trigger = Some t"
    and sat: "CeremonyDefinition_guards_are_satisfied b t (inst_step_records i) (inst_context i)"
    and dst: "dst = trans_to t" and j: "j = i\<lparr>inst_current_state := trans_to t,
          inst_transitions := inst_transitions i @
            [\<lparr>trec_trigger = trigger, trec_from_state = inst_current_state i,
              trec_to_state = trans_to t, trec_applied_by = Some rid, trec_applied_at = now\<rparr>],
          inst_updated_at := now,
          inst_completed_at := if CeremonyDefinition_is_terminal_state b (trans_to t)
            then Some now else inst_completed_at i\<rparr>"
    by (elim conjE exE)
  from facts have m: "CeremonyInstance_matches_definition i b"
    and live: "\<not> CeremonyDefinition_is_terminal_state b (inst_current_state i)" by simp_all
  from sat have old: "\<forall>g \<in> set (trans_required_guards t). guard_holds b g i" by (simp add: guards_satisfied_iff)
  obtain t' where t': "CeremonyDefinition_transition_for_trigger a (inst_current_state i) trigger = Some t'"
      "trans_to t' = trans_to t"
      "trans_required_guards t' = trans_required_guards t \<or> \<not> set (trans_required_guards t) \<subseteq> set (trans_required_guards t')"
    by (rule carries_transitions [OF carry t])
  have tb: "t \<in> set (def_transitions b)" "trans_from t = inst_current_state i"
    and ta: "t' \<in> set (def_transitions a)"
    using t t'(1) by (auto simp: CeremonyDefinition_transition_for_trigger_def dest!: find_Some_set)
  have kept: "CeremonyDefinition_is_terminal_state a s = CeremonyDefinition_is_terminal_state b s"
    if "bt_contains_key (def_states b) s" for s
    using that carries_states [OF carry, of s]
    by (fastforce simp: bt_contains_key_def CeremonyDefinition_is_terminal_state_def CeremonyState_is_terminal_def
        split: option.splits)
  have "bt_contains_key (def_states b) (trans_to t)" "bt_contains_key (def_states b) (inst_current_state i)"
    using wf(1) tb by (auto simp: definition_wf_def parts_wf_def CeremonyDefinition_parts_def bt_contains_key_def)
  with kept live m have ends: "CeremonyDefinition_is_terminal_state a (trans_to t) = CeremonyDefinition_is_terminal_state b (trans_to t)"
    "\<not> CeremonyInstance_is_terminal (adopt i a) a"
    by (simp_all add: CeremonyInstance_is_terminal_def)
  have known: "\<forall>g \<in> set (trans_required_guards t'). bt_contains_key (def_guards a) g"
    using wf(2) ta by (auto simp: definition_wf_def parts_wf_def CeremonyDefinition_parts_def)
  then have "(\<forall>g \<in> set (trans_required_guards t'). guard_holds a g i) \<longleftrightarrow>
      (\<forall>g \<in> set (trans_required_guards t') - set (trans_required_guards t). guard_holds a g i)"
    using old carries_guard_holds [OF carry _ _ wf] by blast
  moreover have "CeremonyDefinition_guards_are_satisfied a t' (inst_step_records i) (inst_context i) \<longleftrightarrow>
      (\<forall>g \<in> set (trans_required_guards t'). guard_holds a g i)" by (rule guards_satisfied_iff)
  moreover have "(adopt i a)\<lparr>inst_current_state := trans_to t,
        inst_transitions := inst_transitions (adopt i a) @
          [\<lparr>trec_trigger = trigger, trec_from_state = inst_current_state i,
            trec_to_state = trans_to t, trec_applied_by = Some rid, trec_applied_at = now\<rparr>],
        inst_updated_at := now,
        inst_completed_at := if CeremonyDefinition_is_terminal_state b (trans_to t)
          then Some now else inst_completed_at (adopt i a)\<rparr> = adopt j a"
    by (cases i) (simp add: adopt_def j)
  moreover have "require_role (adopt i a) a rid (Act_Transition trigger) = Inr ()"
    using carries_roles [OF carry role] by (simp add: require_role_def require_definition_def)
  ultimately have "CeremonyInstance_apply_transition_as (adopt i a) a rid trigger now =
      (if \<forall>g \<in> set (trans_required_guards t') - set (trans_required_guards t). guard_holds a g i then Inr (adopt j a, dst)
       else Inl (InvariantViolated ''ceremony transition guards are not satisfied''))"
    using t' ends
    by (simp add: CeremonyInstance_apply_transition_as_def CeremonyInstance_move_on_def require_definition_def dst)
  with t t' show thesis using that by blast
qed

text \<open>
  C37. A later definition against which the diff reports nothing that strands keeps running
  sessions alive: every state keeps its kind, every step stays in its state and none is new, no
  input becomes required, and whatever transition a role could apply to a session under the
  earlier definition it can apply under the later one, with the same effect, if the guards the
  transition gained hold.  Gained guards are reported as stranding only when none was dropped
  from the same transition, so this last condition is needed.
\<close>

theorem carrying_diff_keeps_sessions:
  assumes "definition_wf b" and "definition_wf a"
    and "\<not> CeremonyDefinitionDiff_strands_running_sessions (CeremonyDefinitionDiff_between b a)"
  shows "(\<forall>k s. bt_get (def_states b) k = Some s \<longrightarrow>
      (\<exists>s'. bt_get (def_states a) k = Some s' \<and> state_kind s' = state_kind s)) \<and>
    (\<forall>k st. bt_get (def_steps b) k = Some st \<longrightarrow>
      (\<exists>st'. bt_get (def_steps a) k = Some st' \<and> step_state_id st' = step_state_id st)) \<and>
    fst ` set (def_steps a) \<subseteq> fst ` set (def_steps b) \<and>
    (\<forall>k x. bt_get (def_inputs a) k = Some x \<and> is_required x \<longrightarrow>
      (\<exists>y. bt_get (def_inputs b) k = Some y \<and> is_required y)) \<and>
    (\<forall>i rid trigger now j dst. CeremonyInstance_apply_transition_as i b rid trigger now = Inr (j, dst) \<longrightarrow>
      (\<exists>t t'. CeremonyDefinition_transition_for_trigger b (inst_current_state i) trigger = Some t \<and>
        CeremonyDefinition_transition_for_trigger a (inst_current_state i) trigger = Some t' \<and>
        CeremonyInstance_apply_transition_as (adopt i a) a rid trigger now =
          (if \<forall>g \<in> set (trans_required_guards t') - set (trans_required_guards t). guard_holds a g i
           then Inr (adopt j a, dst)
           else Inl (InvariantViolated ''ceremony transition guards are not satisfied''))))"
proof -
  have carry: "carrying (CeremonyDefinitionDiff_between b a)" using assms(3) by (simp add: not_strands_iff)
  have moves: "\<exists>t t'. CeremonyDefinition_transition_for_trigger b (inst_current_state i) trigger = Some t \<and>
        CeremonyDefinition_transition_for_trigger a (inst_current_state i) trigger = Some t' \<and>
        CeremonyInstance_apply_transition_as (adopt i a) a rid trigger now =
          (if \<forall>g \<in> set (trans_required_guards t') - set (trans_required_guards t). guard_holds a g i
           then Inr (adopt j a, dst)
           else Inl (InvariantViolated ''ceremony transition guards are not satisfied''))"
    if "CeremonyInstance_apply_transition_as i b rid trigger now = Inr (j, dst)" for i rid trigger now j dst
    by (rule carries_move [OF assms(1,2) carry that]) (intro exI conjI)
  show ?thesis
    by (intro conjI allI impI moves carries_states [OF carry] carries_steps [OF carry])
      (auto dest: carries_inputs [OF carry])
qed

text \<open>Two successors of the example: one drops the guard of its transition, one replaces it.\<close>

definition demo_relaxed :: ceremony_definition where
  "demo_relaxed = demo_definition\<lparr>def_version := lit ''2'', def_transitions := [demo_transition\<lparr>trans_required_guards := []\<rparr>]\<rparr>"

definition demo_swapped :: ceremony_definition where
  "demo_swapped = demo_definition\<lparr>def_version := lit ''2'',
     def_transitions := [demo_transition\<lparr>trans_required_guards := [lit ''more'']\<rparr>],
     def_guards := [(lit ''more'', \<lparr>guard_name = lit ''more'', guard_condition = HumanApproval\<rparr>), (lit ''ok'', demo_guard)]\<rparr>"

lemma demo_successors_wf: "definition_wf demo_relaxed" "definition_wf demo_swapped"
  using demo_wf
  by (simp_all add: definition_wf_def demo_relaxed_def demo_swapped_def parts_wf_def CeremonyDefinition_parts_def keyed_by_def
      demo_defs bt_contains_key_def) (simp_all add: lit_def)

lemma demo_successors_carry:
  "\<not> CeremonyDefinitionDiff_strands_running_sessions (CeremonyDefinitionDiff_between demo_definition demo_relaxed)"
  "\<not> CeremonyDefinitionDiff_strands_running_sessions (CeremonyDefinitionDiff_between demo_definition demo_swapped)"
  by (simp_all add: not_strands_iff CeremonyDefinitionDiff_between_def diff_states_def diff_state_def diff_transitions_def
      diff_transition_def diff_steps_def diff_step_def diff_guards_def diff_guard_def diff_roles_def diff_role_def
      diff_shape_def demo_relaxed_def demo_swapped_def demo_defs transition_key_def bt_contains_key_def Let_def)

theorem carrying_diff_keeps_sessions_witness:
  "CeremonyInstance_apply_transition_as (adopt demo_approved demo_relaxed) demo_relaxed (lit ''host'') (lit ''finish'') 7 =
     Inr (adopt demo_shut demo_relaxed, lit ''shut'')"
proof -
  have "\<exists>t t'. CeremonyDefinition_transition_for_trigger demo_definition (inst_current_state demo_approved) (lit ''finish'') = Some t \<and>
      CeremonyDefinition_transition_for_trigger demo_relaxed (inst_current_state demo_approved) (lit ''finish'') = Some t' \<and>
      CeremonyInstance_apply_transition_as (adopt demo_approved demo_relaxed) demo_relaxed (lit ''host'') (lit ''finish'') 7 =
        (if \<forall>g \<in> set (trans_required_guards t') - set (trans_required_guards t). guard_holds demo_relaxed g demo_approved
         then Inr (adopt demo_shut demo_relaxed, lit ''shut'')
         else Inl (InvariantViolated ''ceremony transition guards are not satisfied''))"
    using carrying_diff_keeps_sessions [OF demo_wf demo_successors_wf(1) demo_successors_carry(1)] demo_finish_eq by blast
  moreover have "trans_required_guards t' = []"
    if "CeremonyDefinition_transition_for_trigger demo_relaxed s k = Some t'" for s k t'
    using that by (auto simp: CeremonyDefinition_transition_for_trigger_def demo_relaxed_def split: if_splits)
  ultimately show ?thesis by auto
qed

text \<open>
  The verdict is wrong when a guard is replaced: nothing strands, says the diff, but a session
  that was about to finish is stopped by a guard that was not there.
\<close>

lemma replaced_guard_stops_session:
  "CeremonyInstance_apply_transition_as demo_approved demo_definition (lit ''host'') (lit ''finish'') 7 = Inr (demo_shut, lit ''shut'')"
  "\<not> CeremonyDefinitionDiff_strands_running_sessions (CeremonyDefinitionDiff_between demo_definition demo_swapped)"
  "\<not> is_ok (CeremonyInstance_apply_transition_as (adopt demo_approved demo_swapped) demo_swapped (lit ''host'') (lit ''finish'') 7)"
proof -
  show "\<not> is_ok (CeremonyInstance_apply_transition_as (adopt demo_approved demo_swapped) demo_swapped (lit ''host'') (lit ''finish'') 7)"
  proof (rule carries_move [OF demo_wf demo_successors_wf(2) _ demo_finish_eq])
    show "carrying (CeremonyDefinitionDiff_between demo_definition demo_swapped)"
      using demo_successors_carry(2) by (simp add: not_strands_iff)
    fix t t'
    assume "CeremonyDefinition_transition_for_trigger demo_definition (inst_current_state demo_approved) (lit ''finish'') = Some t"
      "CeremonyDefinition_transition_for_trigger demo_swapped (inst_current_state demo_approved) (lit ''finish'') = Some t'"
    then have g: "lit ''more'' \<in> set (trans_required_guards t') - set (trans_required_guards t)"
      by (auto simp: CeremonyDefinition_transition_for_trigger_def demo_swapped_def demo_defs split: if_splits)
    have "\<not> guard_holds demo_swapped (lit ''more'') demo_approved"
      by (simp add: guard_holds_def demo_swapped_def CeremonyGuard_is_satisfied.simps CeremonyContext_is_guard_approved_def)
    moreover assume "CeremonyInstance_apply_transition_as (adopt demo_approved demo_swapped) demo_swapped (lit ''host'') (lit ''finish'') 7 =
      (if \<forall>g \<in> set (trans_required_guards t') - set (trans_required_guards t). guard_holds demo_swapped g demo_approved
       then Inr (adopt demo_shut demo_swapped, lit ''shut'')
       else Inl (InvariantViolated ''ceremony transition guards are not satisfied''))"
    ultimately show ?thesis using g by (auto split: if_splits)
  qed
qed (fact demo_finish_eq demo_successors_carry(2))+

end
