(* ===== verification/Output_Contracts.thy ===== *)
theory Output_Contracts
  imports Interventions
begin

text \<open>
  What a council's answer must look like (\<open>value_objects/output_contract.rs\<close>): required fields,
  closed sets of values, an embedded JSON Schema, and claims that cite known evidence.  Every
  constructor trims, checks lengths and counts, and stops at the first error.
\<close>

section \<open>Texts\<close>

definition contract_text :: "rstr \<Rightarrow> string \<Rightarrow> nat \<Rightarrow> rstr outcome" where
  "contract_text value field max_len =
     (let trimmed = trim value in
      if trimmed = [] then Inl (EmptyField field)
      else if max_len < str_len trimmed then Inl (FieldTooLong field (str_len trimmed) max_len)
      else Inr trimmed)"

definition normalize_optional_schema :: "rstr \<Rightarrow> rstr outcome" where
  "normalize_optional_schema raw =
     (let trimmed = trim raw in
      if trimmed = [] then Inr []
      else if 262144 < str_len trimmed
      then Inl (FieldTooLong ''output_contract.json_schema'' (str_len trimmed) 262144)
      else Inr trimmed)"

section \<open>Rules\<close>

datatype output_format = JsonObjectFormat

fun OutputFormat_as_str :: "output_format \<Rightarrow> string" where
  "OutputFormat_as_str JsonObjectFormat = ''json_object''"

record output_field_rule =
  ofr_required :: bool
  ofr_allowed_string_values :: "rstr btree_set"

definition OutputFieldRule_new :: "bool \<Rightarrow> rstr list \<Rightarrow> output_field_rule outcome" where
  "OutputFieldRule_new required allowed =
     and_then (map_ok bset_of
       (try_map (\<lambda>v. contract_text v ''output_contract.field.allowed_value'' 256) allowed)) (\<lambda>values.
     if 128 < length values
     then Inl (OutOfRange ''output_contract.field.allowed_values'' (u64_as_f64 (length values)) (F64 0) (F64 128))
     else Inr \<lparr>ofr_required = required, ofr_allowed_string_values = values\<rparr>)"

record semantic_support_rule =
  ssr_min_confidence :: "8 word"
  ssr_bodies :: "(rstr, rstr) btree_map"

definition SemanticSupportRule_new :: "8 word \<Rightarrow> (rstr \<times> rstr) list \<Rightarrow> semantic_support_rule outcome" where
  "SemanticSupportRule_new min_confidence bodies =
     (if 100 < unat min_confidence
      then Inl (OutOfRange ''output_contract.evidence.semantic_support.min_confidence''
        (u64_as_f64 (unat min_confidence)) (F64 0) (F64 100))
      else
      and_then (map_ok (\<lambda>ps. fold (\<lambda>(k, v). bt_insert k v) ps []) (try_map (\<lambda>(reference, body).
        and_then (contract_text reference ''output_contract.evidence.semantic_support.body_ref'' 256) (\<lambda>r.
        and_then (contract_text body ''output_contract.evidence.semantic_support.body'' 16384) (\<lambda>b.
        Inr (r, b)))) bodies)) (\<lambda>collected.
      if collected = [] then Inl (EmptyField ''output_contract.evidence.semantic_support.bodies'')
      else if 1024 < length collected
      then Inl (OutOfRange ''output_contract.evidence.semantic_support.bodies''
        (u64_as_f64 (length collected)) (F64 1) (F64 1024))
      else Inr \<lparr>ssr_min_confidence = min_confidence, ssr_bodies = collected\<rparr>))"

record evidence_grounding_rule =
  egr_claims_field :: rstr
  egr_refs_field :: rstr
  egr_allowed_refs :: "rstr btree_set"
  egr_semantic_support :: "semantic_support_rule option"

definition EvidenceGroundingRule_new ::
    "rstr \<Rightarrow> rstr \<Rightarrow> rstr list \<Rightarrow> evidence_grounding_rule outcome" where
  "EvidenceGroundingRule_new claims_field refs_field allowed_refs =
     and_then (contract_text claims_field ''output_contract.evidence.claims_field'' 128) (\<lambda>claims.
     and_then (contract_text refs_field ''output_contract.evidence.refs_field'' 128) (\<lambda>refs.
     and_then (map_ok bset_of
       (try_map (\<lambda>r. contract_text r ''output_contract.evidence.allowed_ref'' 256) allowed_refs)) (\<lambda>allowed.
     if allowed = [] then Inl (EmptyField ''output_contract.evidence.allowed_refs'')
     else if 1024 < length allowed
     then Inl (OutOfRange ''output_contract.evidence.allowed_refs''
       (u64_as_f64 (length allowed)) (F64 1) (F64 1024))
     else Inr \<lparr>egr_claims_field = claims, egr_refs_field = refs, egr_allowed_refs = allowed,
               egr_semantic_support = None\<rparr>)))"

definition EvidenceGroundingRule_with_semantic_support ::
    "evidence_grounding_rule \<Rightarrow> semantic_support_rule \<Rightarrow> evidence_grounding_rule outcome" where
  "EvidenceGroundingRule_with_semantic_support g rule =
     (if list_ex (\<lambda>r. \<not> bt_contains_key (ssr_bodies rule) r) (egr_allowed_refs g)
      then Inl (EmptyField ''output_contract.evidence.semantic_support.bodies'')
      else Inr (g\<lparr>egr_semantic_support := Some rule\<rparr>))"

section \<open>Contracts\<close>

record output_contract =
  oc_contract_id :: rstr
  oc_format :: output_format
  oc_fields :: "(rstr, output_field_rule) btree_map"
  oc_json_schema :: rstr
  oc_evidence_grounding :: "evidence_grounding_rule option"

text \<open>The loop that rebuilds the field map under trimmed names; a later name overwrites.\<close>

fun normalize_fields ::
    "(rstr \<times> output_field_rule) list \<Rightarrow> (rstr, output_field_rule) btree_map
      \<Rightarrow> (rstr, output_field_rule) btree_map outcome" where
  "normalize_fields [] normalized = Inr normalized"
| "normalize_fields ((name, rule) # rest) normalized =
     and_then (contract_text name ''output_contract.field.name'' 128) (\<lambda>field_name.
     normalize_fields rest (bt_insert field_name rule normalized))"

definition OutputContract_new_with_schema ::
    "rstr \<Rightarrow> output_format \<Rightarrow> (rstr, output_field_rule) btree_map \<Rightarrow> rstr \<Rightarrow> output_contract outcome" where
  "OutputContract_new_with_schema contract_id format rules json_schema =
     and_then (contract_text contract_id ''output_contract.contract_id'' 128) (\<lambda>cid.
     if 128 < length rules
     then Inl (OutOfRange ''output_contract.fields'' (u64_as_f64 (length rules)) (F64 0) (F64 128))
     else
     and_then (normalize_fields rules []) (\<lambda>normalized.
     and_then (normalize_optional_schema json_schema) (\<lambda>schema.
     Inr \<lparr>oc_contract_id = cid, oc_format = format, oc_fields = normalized, oc_json_schema = schema,
          oc_evidence_grounding = None\<rparr>)))"

definition OutputContract_new ::
    "rstr \<Rightarrow> output_format \<Rightarrow> (rstr, output_field_rule) btree_map \<Rightarrow> output_contract outcome" where
  "OutputContract_new contract_id format rules = OutputContract_new_with_schema contract_id format rules []"

definition OutputContract_json_object ::
    "rstr \<Rightarrow> (rstr, output_field_rule) btree_map \<Rightarrow> output_contract outcome" where
  "OutputContract_json_object contract_id rules = OutputContract_new contract_id JsonObjectFormat rules"

definition OutputContract_with_evidence_grounding ::
    "output_contract \<Rightarrow> evidence_grounding_rule \<Rightarrow> output_contract" where
  "OutputContract_with_evidence_grounding c rule = c\<lparr>oc_evidence_grounding := Some rule\<rparr>"

section \<open>What a constructed contract satisfies\<close>

lemma contract_text_Inr [result_simps]:
  "contract_text v f m = Inr s \<longleftrightarrow> s = trim v \<and> s \<noteq> [] \<and> str_len s \<le> m"
  by (auto simp: contract_text_def Let_def)

lemma normalize_fields_wf:
  "normalize_fields fs m = Inr m' \<Longrightarrow> bt_wf m \<Longrightarrow> bt_wf m'"
  by (induction fs arbitrary: m) (auto simp: result_simps)

lemma normalize_fields_get:
  "normalize_fields fs m = Inr m' \<Longrightarrow> bt_get m' k = Some r \<Longrightarrow>
     bt_get m k = Some r \<or> (\<exists>name. (name, r) \<in> set fs \<and> k = trim name)"
proof (induction fs arbitrary: m)
  case (Cons f fs)
  obtain name rule where f: "f = (name, rule)" by fastforce
  from Cons.prems(1) have "normalize_fields fs (bt_insert (trim name) rule m) = Inr m'"
    by (auto simp: f result_simps)
  from Cons.IH [OF this Cons.prems(2)] show ?case by (auto simp: f split: if_splits)
qed simp

lemma OutputContract_new_fields:
  assumes "OutputContract_new_with_schema cid fmt rules schema = Inr c"
  shows "bt_wf (oc_fields c)" and "\<forall>k r. bt_get (oc_fields c) k = Some r \<longrightarrow> (\<exists>name. (name, r) \<in> set rules \<and> k = trim name)"
proof -
  from assms obtain m where m: "normalize_fields rules [] = Inr m" "oc_fields c = m"
    by (auto simp: OutputContract_new_with_schema_def result_simps split: if_splits)
  show "bt_wf (oc_fields c)" using normalize_fields_wf [OF m(1)] m(2) by simp
  show "\<forall>k r. bt_get (oc_fields c) k = Some r \<longrightarrow> (\<exists>name. (name, r) \<in> set rules \<and> k = trim name)"
    using normalize_fields_get [OF m(1)] m(2) by auto
qed

end
