(* ===== verification/Council_Values.thy ===== *)
theory Council_Values
  imports Output_Contracts
begin

text \<open>
  The values of the council engine: scores, rounds, tasks with their constraints, proposals,
  validator reports, councils and statistics (\<open>choreo-core/src/value_objects\<close> and
  \<open>choreo-core/src/entities\<close>), and the events about tasks (\<open>choreo-core/src/events\<close>).
\<close>

section \<open>Floating-point comparison\<close>

text \<open>The number a finite value stands for; the infinite one with \<open>True\<close> is the negative one.\<close>

fun f64_value :: "f64 \<Rightarrow> rat" where
  "f64_value (F64 q) = q"
| "f64_value _ = 0"

fun f64_is_finite :: "f64 \<Rightarrow> bool" where
  "f64_is_finite F64_NaN = False"
| "f64_is_finite (F64_Inf _) = False"
| "f64_is_finite _ = True"

text \<open>\<open><=\<close> and \<open><\<close> of \<open>f64\<close>: false as soon as a NaN is involved.\<close>

definition f64_le :: "f64 \<Rightarrow> f64 \<Rightarrow> bool" where
  "f64_le a b =
     (a \<noteq> F64_NaN \<and> b \<noteq> F64_NaN \<and>
      (a = F64_Inf True \<or> b = F64_Inf False \<or>
       f64_is_finite a \<and> f64_is_finite b \<and> f64_value a \<le> f64_value b))"

definition f64_lt :: "f64 \<Rightarrow> f64 \<Rightarrow> bool" where
  "f64_lt a b = (f64_le a b \<and> \<not> f64_le b a)"

definition f64_clamp :: "f64 \<Rightarrow> f64 \<Rightarrow> f64 \<Rightarrow> f64" where
  "f64_clamp v lo hi =
     (let v1 = if f64_lt v lo then lo else v in if f64_lt hi v1 then hi else v1)"

text \<open>
  The quotient of two counts below \<open>2 ^ 53\<close> (which convert exactly), rounded to the nearest
  value with a 53-bit significand, ties to even; the divisor is at least the dividend.
\<close>

definition count_ratio :: "nat \<Rightarrow> nat \<Rightarrow> f64" where
  "count_ratio p t =
     (if p = 0 then F64 0
      else let k0 = 53 + bit_len t - bit_len p;
               k = if p * 2 ^ k0 div t < 2 ^ 53 then k0 else k0 - 1;
               q = p * 2 ^ k div t; r = p * 2 ^ k mod t in
        F64 (of_nat (if 2 * r < t \<or> (2 * r = t \<and> even q) then q else q + 1) / 2 ^ k))"

fun json_as_f64 :: "json \<Rightarrow> f64 option" where
  "json_as_f64 (JNumber (PosInt n)) = Some (u64_as_f64 (unat n))"
| "json_as_f64 (JNumber (NegInt i)) = Some (F64 (- f64_value (u64_as_f64 (nat (- i)))))"
| "json_as_f64 (JNumber (Float f)) = Some f"
| "json_as_f64 _ = None"

section \<open>Scores, rounds, sizes\<close>

type_synonym score = f64

definition Score_MIN :: score where
  "Score_MIN = F64 0"

definition Score_MAX :: score where
  "Score_MAX = F64 1"

definition Score_new :: "f64 \<Rightarrow> score outcome" where
  "Score_new v =
     (if \<not> f64_is_finite v \<or> \<not> (f64_le (F64 0) v \<and> f64_le v (F64 1))
      then Inl (OutOfRange ''score'' v (F64 0) (F64 1))
      else Inr v)"

text \<open>
  \<open>Eq\<close> of scores compares bits (the equality of this type), \<open>Ord\<close> compares numbers.  The order
  is only used on values that passed \<open>Score_new\<close>.
\<close>

definition Score_le :: "score \<Rightarrow> score \<Rightarrow> bool" where
  "Score_le a b = (f64_value a \<le> f64_value b)"

definition Rounds_new :: "32 word \<Rightarrow> 32 word outcome" where
  "Rounds_new v =
     (if 16 < unat v then Inl (OutOfRange ''rounds'' (u64_as_f64 (unat v)) (F64 0) (F64 16)) else Inr v)"

definition Rounds_default :: "32 word" where
  "Rounds_default = 1"

definition NumAgents_new :: "32 word \<Rightarrow> 32 word outcome" where
  "NumAgents_new v =
     (if 64 < unat v then Inl (OutOfRange ''num_agents'' (u64_as_f64 (unat v)) (F64 1) (F64 64))
      else if v = 0 then Inl (MustBeNonZero ''num_agents'')
      else Inr v)"

type_synonym rubric = "(rstr, json) btree_map"

definition Rubric_new :: "(rstr, json) btree_map \<Rightarrow> rubric outcome" where
  "Rubric_new entries =
     (if 256 < length entries
      then Inl (OutOfRange ''rubric.keys'' (u64_as_f64 (length entries)) (F64 0) (F64 256))
      else if list_ex (\<lambda>key. trim key = []) (bt_keys entries) then Inl (EmptyField ''rubric.key'')
      else Inr entries)"

definition TaskDescription_new :: "rstr \<Rightarrow> rstr outcome" where
  "TaskDescription_new raw =
     (if trim raw = [] then Inl (EmptyField ''task_description'')
      else if 65536 < str_len raw then Inl (FieldTooLong ''task_description'' (str_len raw) 65536)
      else Inr raw)"

datatype scoring_mode = JudgeVerdict | UniformFallback

fun ScoringMode_as_label :: "scoring_mode \<Rightarrow> string" where
  "ScoringMode_as_label JudgeVerdict = ''judge_verdict''"
| "ScoringMode_as_label UniformFallback = ''uniform_fallback''"

datatype validation_mode = Strict | Warn

datatype discrimination = Reranked | Agreed | Tie

fun Discrimination_as_label :: "discrimination \<Rightarrow> string" where
  "Discrimination_as_label Reranked = ''reranked''"
| "Discrimination_as_label Agreed = ''agreed''"
| "Discrimination_as_label Tie = ''tie''"

datatype deliberation_outcome = Deliberation_Success | Deliberation_NoValidProposal

fun DeliberationOutcome_as_label :: "deliberation_outcome \<Rightarrow> string" where
  "DeliberationOutcome_as_label Deliberation_Success = ''success''"
| "DeliberationOutcome_as_label Deliberation_NoValidProposal = ''no_valid_proposal''"

datatype council_selector = ById rstr | BySpecialty rstr

section \<open>Proposals and verdicts\<close>

record proposal =
  prop_id :: rstr
  prop_author :: rstr
  prop_specialty :: rstr
  prop_content :: rstr
  prop_attributes :: attributes
  prop_created_at :: timestamp
  prop_updated_at :: timestamp
  prop_revision_count :: "32 word"

definition Proposal_new ::
    "rstr \<Rightarrow> rstr \<Rightarrow> rstr \<Rightarrow> rstr \<Rightarrow> attributes \<Rightarrow> timestamp \<Rightarrow> proposal outcome" where
  "Proposal_new pid author specialty content attrs now =
     (if trim content = [] then Inl (EmptyField ''proposal.content'')
      else Inr \<lparr>prop_id = pid, prop_author = author, prop_specialty = specialty, prop_content = content,
                prop_attributes = attrs, prop_created_at = now, prop_updated_at = now,
                prop_revision_count = 0\<rparr>)"

definition Proposal_revise :: "proposal \<Rightarrow> rstr \<Rightarrow> timestamp \<Rightarrow> proposal outcome" where
  "Proposal_revise p content now =
     (if trim content = [] then Inl (EmptyField ''proposal.content'')
      else Inr (p\<lparr>prop_content := content, prop_updated_at := now,
                  prop_revision_count := sat_succ (prop_revision_count p)\<rparr>))"

record validator_report =
  vr_kind :: rstr
  vr_passed :: bool
  vr_summary :: rstr
  vr_details :: attributes

definition ValidatorReport_new :: "rstr \<Rightarrow> bool \<Rightarrow> rstr \<Rightarrow> attributes \<Rightarrow> validator_report outcome" where
  "ValidatorReport_new kind passed summary details =
     (if trim kind = [] then Inl (EmptyField ''validator_report.kind'')
      else Inr \<lparr>vr_kind = kind, vr_passed = passed, vr_summary = summary, vr_details = details\<rparr>)"

record validation_outcome =
  vo_score :: score
  vo_reports :: "validator_report list"

definition ValidationOutcome_all_passed :: "validation_outcome \<Rightarrow> bool" where
  "ValidationOutcome_all_passed v = list_all vr_passed (vo_reports v)"

definition ValidationOutcome_failures :: "validation_outcome \<Rightarrow> nat" where
  "ValidationOutcome_failures v = length (filter (\<lambda>r. \<not> vr_passed r) (vo_reports v))"

lemma all_passed_iff_no_failures: "ValidationOutcome_all_passed v \<longleftrightarrow> ValidationOutcome_failures v = 0"
  by (auto simp: ValidationOutcome_all_passed_def ValidationOutcome_failures_def list_all_iff filter_empty_conv)

section \<open>Councils\<close>

record council =
  council_id :: rstr
  council_specialty :: rstr
  council_agents :: "rstr btree_set"
  council_created_at :: timestamp

definition Council_new :: "rstr \<Rightarrow> rstr \<Rightarrow> rstr list \<Rightarrow> timestamp \<Rightarrow> council outcome" where
  "Council_new cid specialty agents now =
     (let members = bset_of agents in
      if members = [] then Inl (EmptyCollection ''council.agents'')
      else Inr \<lparr>council_id = cid, council_specialty = specialty, council_agents = members,
                council_created_at = now\<rparr>)"

definition Council_add_agent :: "council \<Rightarrow> rstr \<Rightarrow> council" where
  "Council_add_agent c agent = c\<lparr>council_agents := bset_insert agent (council_agents c)\<rparr>"

definition Council_remove_agent :: "council \<Rightarrow> rstr \<Rightarrow> council outcome" where
  "Council_remove_agent c agent =
     (if length (council_agents c) \<le> 1 \<and> agent \<in> set (council_agents c)
      then Inl (InvariantViolated ''council must retain at least one agent'')
      else if agent \<notin> set (council_agents c) then Inl (NotFound ''council.agent'')
      else Inr (c\<lparr>council_agents := filter (\<lambda>a. a \<noteq> agent) (council_agents c)\<rparr>))"

text \<open>A council has at least one member and lists each once, in order.\<close>

definition council_wf :: "council \<Rightarrow> bool" where
  "council_wf c = (council_agents c \<noteq> [] \<and> bset_wf (council_agents c))"

lemma Council_new_wf: "Council_new cid sp as now = Inr c \<Longrightarrow> council_wf c \<and> set (council_agents c) = set as"
  by (auto simp: Council_new_def council_wf_def Let_def split: if_splits)

lemma Council_add_agent_wf: "council_wf c \<Longrightarrow> council_wf (Council_add_agent c a)"
  by (simp add: council_wf_def Council_add_agent_def) (metis set_bset_insert set_empty insert_not_empty)

lemma Council_remove_agent_wf:
  assumes "council_wf c" and "Council_remove_agent c a = Inr c'"
  shows "council_wf c'" and "set (council_agents c') = set (council_agents c) - {a}"
proof -
  from assms(2) have a: "a \<in> set (council_agents c)" "1 < length (council_agents c)"
    and c': "c' = c\<lparr>council_agents := filter (\<lambda>x. x \<noteq> a) (council_agents c)\<rparr>"
    by (auto simp: Council_remove_agent_def split: if_splits)
  show set: "set (council_agents c') = set (council_agents c) - {a}" using c' by auto
  have "distinct (council_agents c)" using assms(1) by (simp add: council_wf_def bset_wf_distinct)
  then have "card (set (council_agents c)) = length (council_agents c)" by (rule distinct_card)
  then have "card (set (council_agents c')) \<noteq> 0" using a by (simp add: set)
  then have "council_agents c' \<noteq> []" by auto
  moreover have "bset_wf (council_agents c')"
    using assms(1) c' by (simp add: council_wf_def bset_wf_def sorted_wrt_filter)
  ultimately show "council_wf c'" by (simp add: council_wf_def)
qed

section \<open>Statistics\<close>

record statistics =
  stat_total_deliberations :: "64 word"
  stat_total_orchestrations :: "64 word"
  stat_total_duration :: duration_ms
  stat_per_specialty :: "(rstr, 64 word) btree_map"

definition Statistics_new :: statistics where
  "Statistics_new = \<lparr>stat_total_deliberations = 0, stat_total_orchestrations = 0, stat_total_duration = 0,
     stat_per_specialty = []\<rparr>"

definition Statistics_record_deliberation :: "statistics \<Rightarrow> rstr \<Rightarrow> duration_ms \<Rightarrow> statistics" where
  "Statistics_record_deliberation s specialty duration =
     s\<lparr>stat_total_deliberations := sat_succ (stat_total_deliberations s),
       stat_total_duration := sat_add (stat_total_duration s) duration,
       stat_per_specialty := bt_insert specialty
         (sat_succ (case bt_get (stat_per_specialty s) specialty of None \<Rightarrow> 0 | Some n \<Rightarrow> n))
         (stat_per_specialty s)\<rparr>"

definition Statistics_record_orchestration :: "statistics \<Rightarrow> duration_ms \<Rightarrow> statistics" where
  "Statistics_record_orchestration s duration =
     s\<lparr>stat_total_orchestrations := sat_succ (stat_total_orchestrations s),
       stat_total_duration := sat_add (stat_total_duration s) duration\<rparr>"

definition Statistics_reset :: "statistics \<Rightarrow> statistics" where
  "Statistics_reset s = Statistics_new"

section \<open>Tasks\<close>

record task_constraints =
  tc_rubric :: rubric
  tc_rounds :: "32 word"
  tc_num_agents :: "32 word option"
  tc_deadline :: "duration_ms option"
  tc_output_contract :: "output_contract option"

definition TaskConstraints_default :: task_constraints where
  "TaskConstraints_default = \<lparr>tc_rubric = [], tc_rounds = Rounds_default, tc_num_agents = None,
     tc_deadline = None, tc_output_contract = None\<rparr>"

definition TaskConstraints_with_output_contract :: "task_constraints \<Rightarrow> output_contract \<Rightarrow> task_constraints" where
  "TaskConstraints_with_output_contract c contract = c\<lparr>tc_output_contract := Some contract\<rparr>"

record event_envelope =
  env_event_id :: rstr
  env_emitted_at :: timestamp
  env_source :: rstr
  env_correlation_id :: "rstr option"
  env_causation_id :: "rstr option"

definition EventEnvelope_new_with_causation ::
    "rstr \<Rightarrow> timestamp \<Rightarrow> rstr \<Rightarrow> rstr option \<Rightarrow> rstr option \<Rightarrow> event_envelope outcome" where
  "EventEnvelope_new_with_causation event_id emitted_at src correlation causation =
     (let trimmed = trim src in
      if trimmed = [] then Inl (EmptyField ''event.source'')
      else if 256 < str_len trimmed then Inl (FieldTooLong ''event.source'' (str_len trimmed) 256)
      else Inr \<lparr>env_event_id = event_id, env_emitted_at = emitted_at, env_source = trimmed,
                env_correlation_id = correlation, env_causation_id = causation\<rparr>)"

definition EventEnvelope_new :: "rstr \<Rightarrow> timestamp \<Rightarrow> rstr \<Rightarrow> rstr option \<Rightarrow> event_envelope outcome" where
  "EventEnvelope_new event_id emitted_at src correlation =
     EventEnvelope_new_with_causation event_id emitted_at src correlation None"

record task_metadata =
  tm_source_event_id :: "rstr option"
  tm_causation_id :: "rstr option"
  tm_correlation_id :: "rstr option"
  tm_council_contract_id :: "rstr option"
  tm_output_contract_id :: "rstr option"
  tm_execution_profile :: attributes

definition validate_optional_text :: "rstr option \<Rightarrow> string \<Rightarrow> rstr option outcome" where
  "validate_optional_text value field =
     (case value of
        None \<Rightarrow> Inr None
      | Some v \<Rightarrow>
          let trimmed = trim v in
          if trimmed = [] then Inr None
          else if 128 < str_len trimmed then Inl (FieldTooLong field (str_len trimmed) 128)
          else Inr (Some trimmed))"

definition TaskMetadata_new ::
    "rstr option \<Rightarrow> rstr option \<Rightarrow> rstr option \<Rightarrow> rstr option \<Rightarrow> rstr option \<Rightarrow> attributes
      \<Rightarrow> task_metadata outcome" where
  "TaskMetadata_new src_event causation correlation council_contract out_contract profile =
     and_then (validate_optional_text council_contract ''task_metadata.council_contract_id'') (\<lambda>cc.
     and_then (validate_optional_text out_contract ''task_metadata.output_contract_id'') (\<lambda>oc.
     Inr \<lparr>tm_source_event_id = src_event, tm_causation_id = causation, tm_correlation_id = correlation,
          tm_council_contract_id = cc, tm_output_contract_id = oc, tm_execution_profile = profile\<rparr>))"

definition TaskMetadata_default :: task_metadata where
  "TaskMetadata_default = \<lparr>tm_source_event_id = None, tm_causation_id = None, tm_correlation_id = None,
     tm_council_contract_id = None, tm_output_contract_id = None, tm_execution_profile = []\<rparr>"

definition or_else :: "'a option \<Rightarrow> 'a option \<Rightarrow> 'a option" where
  "or_else a b = (case a of None \<Rightarrow> b | Some _ \<Rightarrow> a)"

definition TaskMetadata_with_trigger_envelope :: "task_metadata \<Rightarrow> event_envelope \<Rightarrow> task_metadata" where
  "TaskMetadata_with_trigger_envelope m e =
     m\<lparr>tm_source_event_id := or_else (tm_source_event_id m) (Some (env_event_id e)),
       tm_causation_id := or_else (tm_causation_id m)
         (or_else (env_causation_id e) (Some (env_event_id e))),
       tm_correlation_id := or_else (tm_correlation_id m)
         (or_else (env_correlation_id e) (Some (env_event_id e)))\<rparr>"

definition TaskMetadata_from_trigger_envelope :: "event_envelope \<Rightarrow> task_metadata" where
  "TaskMetadata_from_trigger_envelope e = TaskMetadata_with_trigger_envelope TaskMetadata_default e"

record task =
  task_id :: rstr
  task_specialty :: rstr
  task_description :: rstr
  task_constraints_of :: task_constraints
  task_attributes :: attributes
  task_external_context :: "external_context_bundle option"
  task_metadata_of :: task_metadata

text \<open>The first envelope decides: applying a second one changes nothing.\<close>

lemma with_trigger_envelope_once:
  "TaskMetadata_with_trigger_envelope (TaskMetadata_with_trigger_envelope m e) e' =
     TaskMetadata_with_trigger_envelope m e"
  by (simp add: TaskMetadata_with_trigger_envelope_def or_else_def split: option.split)

section \<open>Events\<close>

record task_dispatched_event =
  td_envelope :: event_envelope
  td_task_id :: rstr
  td_specialty :: rstr
  td_trigger_event_id :: "rstr option"

record task_completed_event =
  tce_envelope :: event_envelope
  tce_task_id :: rstr
  tce_specialty :: rstr
  tce_agent_id :: "rstr option"
  tce_duration :: duration_ms

record task_failed_event =
  tfe_envelope :: event_envelope
  tfe_task_id :: rstr
  tfe_specialty :: rstr
  tfe_error_kind :: rstr
  tfe_error_reason :: rstr

definition TaskFailedEvent_new ::
    "event_envelope \<Rightarrow> rstr \<Rightarrow> rstr \<Rightarrow> rstr \<Rightarrow> rstr \<Rightarrow> task_failed_event outcome" where
  "TaskFailedEvent_new envelope tid specialty kind reason =
     (if trim kind = [] then Inl (EmptyField ''task_failed.error_kind'')
      else if 4096 < str_len reason
      then Inl (FieldTooLong ''task_failed.error_reason'' (str_len reason) 4096)
      else Inr \<lparr>tfe_envelope = envelope, tfe_task_id = tid, tfe_specialty = specialty,
                tfe_error_kind = kind, tfe_error_reason = reason\<rparr>)"

record deliberation_completed_event =
  dce_envelope :: event_envelope
  dce_task_id :: rstr
  dce_specialty :: rstr
  dce_winner_proposal_id :: rstr
  dce_winner_score :: score
  dce_num_candidates :: "32 word"
  dce_duration :: duration_ms
  dce_external_context_bundle_id :: "rstr option"

record phase_changed_event =
  pce_envelope :: event_envelope
  pce_task_id :: rstr
  pce_from_phase :: rstr
  pce_to_phase :: rstr

definition PhaseChangedEvent_validate :: "rstr \<Rightarrow> string \<Rightarrow> rstr outcome" where
  "PhaseChangedEvent_validate raw field =
     (let trimmed = trim raw in
      if trimmed = [] then Inl (EmptyField field)
      else if 64 < str_len trimmed then Inl (FieldTooLong field (str_len trimmed) 64)
      else Inr trimmed)"

definition PhaseChangedEvent_new ::
    "event_envelope \<Rightarrow> rstr \<Rightarrow> rstr \<Rightarrow> rstr \<Rightarrow> phase_changed_event outcome" where
  "PhaseChangedEvent_new envelope tid from_phase to_phase =
     and_then (PhaseChangedEvent_validate from_phase ''phase_changed.from_phase'') (\<lambda>f.
     and_then (PhaseChangedEvent_validate to_phase ''phase_changed.to_phase'') (\<lambda>t.
     Inr \<lparr>pce_envelope = envelope, pce_task_id = tid, pce_from_phase = f, pce_to_phase = t\<rparr>))"

end
