(* ===== verification/Deliberations.thy ===== *)
theory Deliberations
  imports Council_Values "HOL-Library.Product_Lexorder" "HOL-Library.Multiset"
begin

text \<open>
  One deliberation of a council (\<open>entities/deliberation.rs\<close>): a state machine from proposing to
  completed, the ranking it ends with, the choice of the winner
  (\<open>usecases/winner_selection.rs\<close>) and the scoring policies (\<open>choreo-adapters/src/scoring.rs\<close>).
\<close>

section \<open>The state machine\<close>

datatype deliberation_phase = Proposing | Revising | Validating | Scoring | Completed_phase

fun DeliberationPhase_name :: "deliberation_phase \<Rightarrow> string" where
  "DeliberationPhase_name Proposing = ''Proposing''"
| "DeliberationPhase_name Revising = ''Revising''"
| "DeliberationPhase_name Validating = ''Validating''"
| "DeliberationPhase_name Scoring = ''Scoring''"
| "DeliberationPhase_name Completed_phase = ''Completed''"

fun DeliberationPhase_next :: "deliberation_phase \<Rightarrow> deliberation_phase option" where
  "DeliberationPhase_next Proposing = Some Revising"
| "DeliberationPhase_next Revising = Some Validating"
| "DeliberationPhase_next Validating = Some Scoring"
| "DeliberationPhase_next Scoring = Some Completed_phase"
| "DeliberationPhase_next Completed_phase = None"

record ranked_outcome =
  ro_proposal :: proposal
  ro_outcome :: validation_outcome
  ro_rank :: "32 word"

record deliberation =
  del_task_id :: rstr
  del_specialty :: rstr
  del_rounds_budget :: "32 word"
  del_phase :: deliberation_phase
  del_proposals :: "(rstr, proposal) btree_map"
  del_outcomes :: "(rstr, validation_outcome) btree_map"
  del_ranking :: "rstr list"
  del_started_at :: timestamp
  del_completed_at :: "timestamp option"

definition Deliberation_start :: "rstr \<Rightarrow> rstr \<Rightarrow> 32 word \<Rightarrow> timestamp \<Rightarrow> deliberation" where
  "Deliberation_start tid specialty rounds_budget now =
     \<lparr>del_task_id = tid, del_specialty = specialty, del_rounds_budget = rounds_budget, del_phase = Proposing,
      del_proposals = [], del_outcomes = [], del_ranking = [], del_started_at = now, del_completed_at = None\<rparr>"

definition require_phase :: "deliberation \<Rightarrow> deliberation_phase \<Rightarrow> unit outcome" where
  "require_phase d expected =
     (if del_phase d = expected then Inr ()
      else Inl (InvalidTransition (DeliberationPhase_name (del_phase d)) (DeliberationPhase_name expected)))"

definition Deliberation_add_proposal :: "deliberation \<Rightarrow> proposal \<Rightarrow> deliberation outcome" where
  "Deliberation_add_proposal d p =
     and_then (require_phase d Proposing) (\<lambda>_.
     if bt_contains_key (del_proposals d) (prop_id p) then Inl (AlreadyExists ''deliberation.proposal'')
     else Inr (d\<lparr>del_proposals := bt_insert (prop_id p) p (del_proposals d)\<rparr>))"

definition Deliberation_revise_proposal :: "deliberation \<Rightarrow> rstr \<Rightarrow> rstr \<Rightarrow> timestamp \<Rightarrow> deliberation outcome" where
  "Deliberation_revise_proposal d pid content now =
     and_then (require_phase d Revising) (\<lambda>_.
     and_then (ok_or (bt_get (del_proposals d) pid) (NotFound ''deliberation.proposal'')) (\<lambda>p.
     and_then (Proposal_revise p content now) (\<lambda>p'.
     Inr (d\<lparr>del_proposals := bt_insert pid p' (del_proposals d)\<rparr>))))"

definition Deliberation_attach_outcome ::
    "deliberation \<Rightarrow> rstr \<Rightarrow> validation_outcome \<Rightarrow> deliberation outcome" where
  "Deliberation_attach_outcome d pid v =
     and_then (require_phase d Validating) (\<lambda>_.
     if \<not> bt_contains_key (del_proposals d) pid then Inl (NotFound ''deliberation.proposal'')
     else if bt_contains_key (del_outcomes d) pid then Inl (AlreadyExists ''deliberation.outcome'')
     else Inr (d\<lparr>del_outcomes := bt_insert pid v (del_outcomes d)\<rparr>))"

definition Deliberation_advance :: "deliberation \<Rightarrow> deliberation outcome" where
  "Deliberation_advance d =
     and_then (ok_or (DeliberationPhase_next (del_phase d)) (InvalidTransition ''Completed'' ''Completed'')) (\<lambda>nxt.
     if del_phase d = Proposing \<and> nxt = Revising \<and> del_proposals d = []
     then Inl (InvariantViolated ''cannot leave Proposing without proposals'')
     else if del_phase d = Validating \<and> nxt = Scoring \<and> length (del_outcomes d) \<noteq> length (del_proposals d)
     then Inl (InvariantViolated ''every proposal must have an outcome before Scoring'')
     else Inr (d\<lparr>del_phase := nxt\<rparr>))"

definition materialize_ranked_tuples ::
    "deliberation \<Rightarrow> rstr list \<Rightarrow> (rstr \<times> proposal \<times> validation_outcome) list outcome" where
  "materialize_ranked_tuples d ranking =
     try_map (\<lambda>pid.
       and_then (ok_or (bt_get (del_proposals d) pid) (InvariantViolated ''missing proposal in ranking'')) (\<lambda>p.
       and_then (ok_or (bt_get (del_outcomes d) pid) (InvariantViolated ''missing outcome at Scoring'')) (\<lambda>v.
       Inr (pid, p, v)))) ranking"

definition u32_of_index :: "nat \<Rightarrow> 32 word" where
  "u32_of_index i = (if i < 2 ^ 32 then word_of_nat i else - 1)"

definition number_ranked :: "(rstr \<times> proposal \<times> validation_outcome) list \<Rightarrow> ranked_outcome list" where
  "number_ranked tuples =
     map (\<lambda>(i, _, p, v). \<lparr>ro_proposal = p, ro_outcome = v, ro_rank = u32_of_index i\<rparr>) (enumerate 0 tuples)"

text \<open>
  The comparison of \<open>sort_by\<close>: higher scores first, then smaller ids.  Scores that passed their
  constructor are compared as numbers, so the sort is the stable sort by this key.
\<close>

definition ranking_key :: "rstr \<times> proposal \<times> validation_outcome \<Rightarrow> rat \<times> rstr" where
  "ranking_key x = (- f64_value (vo_score (snd (snd x))), fst x)"

definition Deliberation_complete ::
    "deliberation \<Rightarrow> timestamp \<Rightarrow> (deliberation \<times> ranked_outcome list) outcome" where
  "Deliberation_complete d now =
     and_then (require_phase d Scoring) (\<lambda>_.
     and_then (materialize_ranked_tuples d (bt_keys (del_proposals d))) (\<lambda>tuples.
     let ranked = sort_key ranking_key tuples in
     Inr (d\<lparr>del_ranking := map fst ranked, del_phase := Completed_phase, del_completed_at := Some now\<rparr>,
          number_ranked ranked)))"

definition Deliberation_reprioritize ::
    "deliberation \<Rightarrow> rstr list \<Rightarrow> (deliberation \<times> ranked_outcome list) outcome" where
  "Deliberation_reprioritize d ranking =
     and_then (require_phase d Completed_phase) (\<lambda>_.
     if length ranking \<noteq> length (del_ranking d) \<or> bset_of (del_ranking d) \<noteq> bset_of ranking
     then Inl (InvariantViolated ''reprioritized ranking must contain every completed proposal exactly once'')
     else and_then (materialize_ranked_tuples d ranking) (\<lambda>tuples.
       Inr (d\<lparr>del_ranking := ranking\<rparr>, number_ranked tuples)))"

definition Deliberation_ranked_outcomes :: "deliberation \<Rightarrow> ranked_outcome list outcome" where
  "Deliberation_ranked_outcomes d =
     and_then (require_phase d Completed_phase) (\<lambda>_.
     map_ok number_ranked (materialize_ranked_tuples d (del_ranking d)))"

definition Deliberation_duration ::
    "(timestamp \<Rightarrow> timestamp \<Rightarrow> int) \<Rightarrow> deliberation \<Rightarrow> duration_ms option" where
  "Deliberation_duration whole_ms d =
     map_option (\<lambda>finish. let ms = whole_ms (del_started_at d) finish in
       if 0 \<le> ms \<and> ms < 2 ^ 64 then word_of_int ms else 0) (del_completed_at d)"

section \<open>Choosing the winner\<close>

definition prioritize_valid_outputs ::
    "deliberation \<Rightarrow> ranked_outcome list \<Rightarrow> (deliberation \<times> ranked_outcome list) outcome" where
  "prioritize_valid_outputs d ranked =
     Deliberation_reprioritize d (map (\<lambda>r. prop_id (ro_proposal r))
       (filter (\<lambda>r. ValidationOutcome_all_passed (ro_outcome r)) ranked @
        filter (\<lambda>r. \<not> ValidationOutcome_all_passed (ro_outcome r)) ranked))"

definition pick_winner :: "ranked_outcome list \<Rightarrow> task_constraints \<Rightarrow> ranked_outcome outcome" where
  "pick_winner ranked c =
     (case tc_output_contract c of
        Some contract \<Rightarrow>
          ok_or (find (\<lambda>r. ValidationOutcome_all_passed (ro_outcome r)) ranked)
            (NoValidProposal (oc_contract_id contract))
      | None \<Rightarrow> (case ranked of [] \<Rightarrow> Inl (EmptyCollection ''deliberation.ranked'') | r # _ \<Rightarrow> Inr r))"

section \<open>Scoring policies\<close>

definition passed_ratio :: "validator_report list \<Rightarrow> score outcome" where
  "passed_ratio reports =
     (if reports = [] then Inr Score_MIN
      else Score_new (count_ratio (length (filter vr_passed reports)) (length reports)))"

definition UniformScoring_score :: "validator_report list \<Rightarrow> score outcome" where
  "UniformScoring_score reports = passed_ratio reports"

definition JUDGE_SCORE_DETAIL_KEY :: rstr where
  "JUDGE_SCORE_DETAIL_KEY = lit ''judge.score''"

definition is_judge_report :: "validator_report \<Rightarrow> bool" where
  "is_judge_report r = (bt_get (vr_details r) JUDGE_SCORE_DETAIL_KEY \<noteq> None)"

text \<open>The first report with the key decides, also when its value is not a number.\<close>

definition judge_verdict :: "validator_report list \<Rightarrow> f64 option" where
  "judge_verdict reports =
     (case find is_judge_report reports of
        None \<Rightarrow> None
      | Some r \<Rightarrow> json_as_f64 (the (bt_get (vr_details r) JUDGE_SCORE_DETAIL_KEY)))"

definition JudgeAwareScoring_score :: "validator_report list \<Rightarrow> scoring_mode \<times> score outcome" where
  "JudgeAwareScoring_score reports =
     (case judge_verdict reports of
        Some verdict \<Rightarrow> (JudgeVerdict, Score_new (f64_clamp verdict (F64 0) (F64 1)))
      | None \<Rightarrow> (UniformFallback, passed_ratio reports))"

definition has_judge_verdict :: "ranked_outcome \<Rightarrow> bool" where
  "has_judge_verdict r = list_ex is_judge_report (vo_reports (ro_outcome r))"

definition structurally_valid :: "ranked_outcome \<Rightarrow> bool" where
  "structurally_valid r =
     list_all vr_passed (filter (\<lambda>v. \<not> is_judge_report v) (vo_reports (ro_outcome r)))"

definition min_id :: "rstr list \<Rightarrow> rstr option" where
  "min_id ids = (case ids of [] \<Rightarrow> None | i # is \<Rightarrow> Some (fold min is i))"

definition structural_baseline_winner :: "ranked_outcome list \<Rightarrow> rstr option" where
  "structural_baseline_winner ranked =
     or_else (min_id (map (\<lambda>r. prop_id (ro_proposal r)) (filter structurally_valid ranked)))
       (min_id (map (\<lambda>r. prop_id (ro_proposal r)) ranked))"

definition JudgeAwareScoring_discrimination :: "ranked_outcome list \<Rightarrow> discrimination option" where
  "JudgeAwareScoring_discrimination ranked =
     (if length ranked < 2 \<or> \<not> list_ex has_judge_verdict ranked then None
      else let top_score = vo_score (ro_outcome (hd ranked)) in
        if 1 < length (filter (\<lambda>r. vo_score (ro_outcome r) = top_score) ranked) then Some Tie
        else map_option (\<lambda>baseline. if prop_id (ro_proposal (hd ranked)) = baseline then Agreed else Reranked)
          (structural_baseline_winner ranked))"

section \<open>Reachable deliberations\<close>

inductive deliberation_step :: "deliberation \<Rightarrow> deliberation \<Rightarrow> bool" where
  propose: "\<lbrakk>Proposal_new pid author sp content attrs now = Inr p; Deliberation_add_proposal d p = Inr d'\<rbrakk>
    \<Longrightarrow> deliberation_step d d'"
| revise: "Deliberation_revise_proposal d pid content now = Inr d' \<Longrightarrow> deliberation_step d d'"
| attach: "\<lbrakk>Score_new v = Inr s; Deliberation_attach_outcome d pid \<lparr>vo_score = s, vo_reports = rs\<rparr> = Inr d'\<rbrakk>
    \<Longrightarrow> deliberation_step d d'"
| advance: "\<lbrakk>del_phase d \<noteq> Scoring; Deliberation_advance d = Inr d'\<rbrakk> \<Longrightarrow> deliberation_step d d'"
| complete: "Deliberation_complete d now = Inr (d', ranked) \<Longrightarrow> deliberation_step d d'"
| reprioritize: "Deliberation_reprioritize d ranking = Inr (d', ranked) \<Longrightarrow> deliberation_step d d'"

text \<open>
  \<open>advance\<close> in the scoring phase would complete a deliberation without a ranking; the only
  caller never does that, and completes instead.
\<close>

definition outcome_ok :: "validation_outcome \<Rightarrow> bool" where
  "outcome_ok v = (\<exists>x. Score_new x = Inr (vo_score v))"

definition deliberation_wf :: "deliberation \<Rightarrow> bool" where
  "deliberation_wf d =
     (bt_wf (del_proposals d) \<and> bt_wf (del_outcomes d) \<and>
      (\<forall>pid p. bt_get (del_proposals d) pid = Some p \<longrightarrow> prop_id p = pid \<and> trim (prop_content p) \<noteq> []) \<and>
      (\<forall>pid v. bt_get (del_outcomes d) pid = Some v \<longrightarrow> outcome_ok v) \<and>
      (del_phase d \<noteq> Proposing \<longrightarrow> del_proposals d \<noteq> []) \<and>
      set (bt_keys (del_outcomes d)) \<subseteq> set (bt_keys (del_proposals d)) \<and>
      (del_phase d \<in> {Proposing, Revising} \<longrightarrow> del_outcomes d = []) \<and>
      (del_phase d \<in> {Scoring, Completed_phase} \<longrightarrow> bt_keys (del_outcomes d) = bt_keys (del_proposals d)) \<and>
      (if del_phase d = Completed_phase
       then distinct (del_ranking d) \<and> set (del_ranking d) = set (bt_keys (del_proposals d))
       else del_ranking d = []) \<and>
      (del_completed_at d \<noteq> None \<longleftrightarrow> del_phase d = Completed_phase))"

lemma require_phase_Inr [result_simps]: "require_phase d ph = Inr u \<longleftrightarrow> del_phase d = ph"
  by (simp add: require_phase_def)

lemma materialize_Inr:
  "materialize_ranked_tuples d ids = Inr ts \<longleftrightarrow>
     list_all2 (\<lambda>pid t. \<exists>p v. bt_get (del_proposals d) pid = Some p \<and> bt_get (del_outcomes d) pid = Some v \<and>
       t = (pid, p, v)) ids ts"
  by (simp add: materialize_ranked_tuples_def result_simps) (auto intro!: arg_cong2 [where f = "\<lambda>P. list_all2 P ids"])

lemma bt_insert_not_Nil [simp]: "bt_insert k v m \<noteq> []"
  by (induction k v m rule: bt_insert.induct) simp_all

lemma bt_keys_cong: "bt_wf m \<Longrightarrow> bt_wf n \<Longrightarrow> set (bt_keys m) = set (bt_keys n) \<Longrightarrow> bt_keys m = bt_keys n"
  for m :: "('a::linorder, 'b) btree_map" and n :: "('a, 'c) btree_map"
  by (intro sorted_distinct_set_unique) (auto simp: bt_wf_def strict_sorted_iff)

lemma start_wf: "deliberation_wf (Deliberation_start tid sp n now)"
  by (simp add: Deliberation_start_def deliberation_wf_def)

lemma complete_tuples:
  assumes "deliberation_wf d" and "del_phase d \<in> {Scoring, Completed_phase}" and "set ids \<subseteq> set (bt_keys (del_proposals d))"
  obtains ts where "materialize_ranked_tuples d ids = Inr ts" and "map fst ts = ids"
    and "\<forall>(pid, p, v) \<in> set ts. bt_get (del_proposals d) pid = Some p \<and> bt_get (del_outcomes d) pid = Some v"
proof -
  have keys: "bt_keys (del_outcomes d) = bt_keys (del_proposals d)"
    using assms(1,2) by (auto simp: deliberation_wf_def)
  have "\<exists>p v. bt_get (del_proposals d) pid = Some p \<and> bt_get (del_outcomes d) pid = Some v" if "pid \<in> set ids" for pid
  proof -
    have "pid \<in> fst ` set (del_proposals d)" using that assms(3) by auto
    moreover from this have "pid \<in> fst ` set (del_outcomes d)" by (metis keys list.set_map)
    ultimately show ?thesis by (metis map_of_eq_None_iff not_Some_eq)
  qed
  then obtain f g where fg: "\<And>pid. pid \<in> set ids \<Longrightarrow>
      bt_get (del_proposals d) pid = Some (f pid) \<and> bt_get (del_outcomes d) pid = Some (g pid)" by metis
  have "materialize_ranked_tuples d ids = Inr (map (\<lambda>pid. (pid, f pid, g pid)) ids)"
    unfolding materialize_Inr using fg by (auto simp: list_all2_conv_all_nth)
  then show thesis by (rule that) (auto simp: o_def fg)
qed

lemma materialize_facts:
  assumes "materialize_ranked_tuples d ids = Inr ts"
  shows "map fst ts = ids"
    and "\<forall>(pid, p, v) \<in> set ts. bt_get (del_proposals d) pid = Some p \<and> bt_get (del_outcomes d) pid = Some v"
proof -
  have "map fst ts = ids \<and> (\<forall>(pid, p, v) \<in> set ts. bt_get (del_proposals d) pid = Some p \<and>
      bt_get (del_outcomes d) pid = Some v)"
    using assms unfolding materialize_Inr
    by (induction ids ts rule: list_all2_induct) auto
  then show "map fst ts = ids"
    "\<forall>(pid, p, v) \<in> set ts. bt_get (del_proposals d) pid = Some p \<and> bt_get (del_outcomes d) pid = Some v"
    by simp_all
qed

lemma deliberation_step_wf:
  assumes "deliberation_step d d'" and "deliberation_wf d"
  shows "deliberation_wf d'"
  using assms
proof (induction rule: deliberation_step.induct)
  case (propose pid author sp content attrs now p d d')
  then show ?case
    by (auto simp: Deliberation_add_proposal_def Proposal_new_def result_simps deliberation_wf_def split: if_splits)
next
  case (revise d pid content now d')
  then obtain p p' where p: "bt_get (del_proposals d) pid = Some p" "Proposal_revise p content now = Inr p'"
    and d': "del_phase d = Revising" "d' = d\<lparr>del_proposals := bt_insert pid p' (del_proposals d)\<rparr>"
    by (auto simp: Deliberation_revise_proposal_def result_simps)
  have "prop_id p' = prop_id p" "trim (prop_content p') \<noteq> []"
    using p(2) by (auto simp: Proposal_revise_def split: if_splits)
  moreover have "bt_insert pid p' (del_proposals d) \<noteq> []" by simp
  ultimately show ?case
    using revise.prems p(1) d' by (auto simp: deliberation_wf_def)
next
  case (attach v s d pid rs d')
  then have d': "del_phase d = Validating" "pid \<in> fst ` set (del_proposals d)"
      "d' = d\<lparr>del_outcomes := bt_insert pid \<lparr>vo_score = s, vo_reports = rs\<rparr> (del_outcomes d)\<rparr>"
    by (auto simp: Deliberation_attach_outcome_def result_simps bt_contains_iff split: if_splits)
  have "outcome_ok \<lparr>vo_score = s, vo_reports = rs\<rparr>" using attach.hyps(1) by (auto simp: outcome_ok_def)
  then show ?case using attach.prems d' by (auto simp: deliberation_wf_def)
next
  case (advance d d')
  then obtain nxt where n: "DeliberationPhase_next (del_phase d) = Some nxt" "d' = d\<lparr>del_phase := nxt\<rparr>"
    and g: "del_phase d = Proposing \<Longrightarrow> del_proposals d \<noteq> []"
      "del_phase d = Validating \<Longrightarrow> length (del_outcomes d) = length (del_proposals d)"
    by (cases "del_phase d") (auto simp: Deliberation_advance_def split: if_splits)
  have keys: "bt_keys (del_outcomes d) = bt_keys (del_proposals d)" if "del_phase d = Validating"
  proof (rule bt_keys_cong)
    show wf: "bt_wf (del_outcomes d)" "bt_wf (del_proposals d)" using advance.prems by (auto simp: deliberation_wf_def)
    have "card (set (bt_keys (del_outcomes d))) = card (set (bt_keys (del_proposals d)))"
      using g(2) [OF that] distinct_card [OF bt_wf_distinct [OF wf(1)]] distinct_card [OF bt_wf_distinct [OF wf(2)]]
      by simp
    then show "set (bt_keys (del_outcomes d)) = set (bt_keys (del_proposals d))"
      using advance.prems by (intro card_subset_eq) (auto simp: deliberation_wf_def)
  qed
  then show ?case using advance n g by (cases "del_phase d") (auto simp: deliberation_wf_def)
next
  case (complete d now d' ranked)
  then obtain ts where ph: "del_phase d = Scoring"
    and ts: "materialize_ranked_tuples d (bt_keys (del_proposals d)) = Inr ts"
    and d': "d' = d\<lparr>del_ranking := map fst (sort_key ranking_key ts), del_phase := Completed_phase,
      del_completed_at := Some now\<rparr>"
    by (auto simp: Deliberation_complete_def result_simps Let_def)
  have m: "mset (map fst (sort_key ranking_key ts)) = mset (bt_keys (del_proposals d))"
    unfolding materialize_facts(1) [OF ts, symmetric] by simp
  have "distinct (bt_keys (del_proposals d))"
    using complete.prems by (intro bt_wf_distinct) (simp add: deliberation_wf_def)
  then have "distinct (map fst (sort_key ranking_key ts)) \<and>
      set (map fst (sort_key ranking_key ts)) = set (bt_keys (del_proposals d))"
    using mset_eq_imp_distinct_iff [OF m] mset_eq_setD [OF m] by simp
  then show ?case using complete.prems ph by (auto simp: deliberation_wf_def d')
next
  case (reprioritize d ranking d' ranked)
  then have ph: "del_phase d = Completed_phase" and len: "length ranking = length (del_ranking d)"
    and sets: "set (del_ranking d) = set ranking" and d': "d' = d\<lparr>del_ranking := ranking\<rparr>"
    by (auto simp: Deliberation_reprioritize_def result_simps bset_of_eq_iff split: if_splits)
  have "distinct (del_ranking d)" using reprioritize.prems ph by (simp add: deliberation_wf_def)
  then have "distinct ranking" using len sets by (metis card_distinct distinct_card)
  then show ?case using reprioritize.prems ph sets by (auto simp: deliberation_wf_def d')
qed

inductive deliberation_reachable :: "deliberation \<Rightarrow> bool" where
  started: "deliberation_reachable (Deliberation_start tid sp n now)"
| stepped: "deliberation_reachable d \<Longrightarrow> deliberation_step d d' \<Longrightarrow> deliberation_reachable d'"

lemma reachable_deliberation_wf: "deliberation_reachable d \<Longrightarrow> deliberation_wf d"
  by (induction rule: deliberation_reachable.induct) (auto intro: start_wf deliberation_step_wf)

text \<open>
  The phase can also be moved to completed without a ranking: by \<open>advance\<close> in the scoring phase.
\<close>

lemma advance_from_scoring_unranked:
  assumes "deliberation_wf d" and "del_phase d = Scoring"
  shows "\<exists>d'. Deliberation_advance d = Inr d' \<and> del_phase d' = Completed_phase \<and> del_completed_at d' = None \<and>
    del_proposals d' \<noteq> [] \<and> Deliberation_ranked_outcomes d' = Inr []"
  using assms
  by (auto simp: Deliberation_advance_def deliberation_wf_def Deliberation_ranked_outcomes_def
      materialize_ranked_tuples_def number_ranked_def require_phase_def)

section \<open>What a ranking is\<close>

definition ranks_before :: "ranked_outcome \<Rightarrow> ranked_outcome \<Rightarrow> bool" where
  "ranks_before a b =
     (f64_value (vo_score (ro_outcome b)) < f64_value (vo_score (ro_outcome a)) \<or>
      f64_value (vo_score (ro_outcome b)) = f64_value (vo_score (ro_outcome a)) \<and>
      prop_id (ro_proposal a) < prop_id (ro_proposal b))"

lemma ranking_key_less:
  "ranking_key a < ranking_key b \<longleftrightarrow>
     f64_value (vo_score (snd (snd b))) < f64_value (vo_score (snd (snd a))) \<or>
     f64_value (vo_score (snd (snd b))) = f64_value (vo_score (snd (snd a))) \<and> fst a < fst b"
  by (auto simp: ranking_key_def)

lemma length_number_ranked [simp]: "length (number_ranked ts) = length ts"
  by (simp add: number_ranked_def)

lemma nth_number_ranked:
  "i < length ts \<Longrightarrow> number_ranked ts ! i =
     \<lparr>ro_proposal = fst (snd (ts ! i)), ro_outcome = snd (snd (ts ! i)), ro_rank = u32_of_index i\<rparr>"
  by (simp add: number_ranked_def nth_enumerate_eq split: prod.split)

lemma number_ranked_map:
  "map (\<lambda>r. (ro_proposal r, ro_outcome r)) (number_ranked ts) = map snd ts"
  by (rule nth_equalityI) (simp_all add: nth_number_ranked)

lemma materialize_of:
  assumes "\<forall>(pid, p, v) \<in> set ts. bt_get (del_proposals d) pid = Some p \<and> bt_get (del_outcomes d) pid = Some v"
  shows "materialize_ranked_tuples d (map fst ts) = Inr ts"
  using assms by (induction ts) (auto simp: materialize_ranked_tuples_def)

lemma ranked_outcomes_of:
  assumes "del_phase d = Completed_phase" and "del_ranking d = map fst ts"
    and "\<forall>(pid, p, v) \<in> set ts. bt_get (del_proposals d) pid = Some p \<and> bt_get (del_outcomes d) pid = Some v"
  shows "Deliberation_ranked_outcomes d = Inr (number_ranked ts)"
  by (simp add: Deliberation_ranked_outcomes_def require_phase_def assms(1,2) materialize_of [OF assms(3)])

text \<open>A ranked outcome pairs a proposal with the outcome stored under the same id.\<close>

lemma ranked_outcomes_get:
  assumes "Deliberation_ranked_outcomes d = Inr ranked" and "r \<in> set ranked"
  obtains pid where "bt_get (del_proposals d) pid = Some (ro_proposal r)" and "bt_get (del_outcomes d) pid = Some (ro_outcome r)"
proof -
  from assms(1) obtain ts where ts: "materialize_ranked_tuples d (del_ranking d) = Inr ts" "ranked = number_ranked ts"
    by (auto simp: Deliberation_ranked_outcomes_def result_simps)
  from assms(2) obtain i where i: "i < length ts" "r = number_ranked ts ! i"
    by (auto simp: ts(2) in_set_conv_nth)
  then have "bt_get (del_proposals d) (fst (ts ! i)) = Some (fst (snd (ts ! i)))"
    "bt_get (del_outcomes d) (fst (ts ! i)) = Some (snd (snd (ts ! i)))"
    using materialize_facts(2) [OF ts(1)] nth_mem [OF i(1)] by (auto simp: split_beta)
  with i show thesis by (intro that [of "fst (ts ! i)"]) (simp_all add: nth_number_ranked)
qed

text \<open>Completing: the tuples behind the ranking, in order.\<close>

lemma complete_ranked:
  assumes "deliberation_wf d" and "Deliberation_complete d now = Inr (d', ranked)"
  obtains ts where "ranked = number_ranked ts" and "sorted_wrt (\<lambda>a b. ranking_key a < ranking_key b) ts"
    and "map fst ts = del_ranking d'" and "set (map fst ts) = set (bt_keys (del_proposals d))"
    and "\<forall>(pid, p, v) \<in> set ts. bt_get (del_proposals d) pid = Some p \<and> bt_get (del_outcomes d) pid = Some v"
    and "d' = d\<lparr>del_ranking := map fst ts, del_phase := Completed_phase, del_completed_at := Some now\<rparr>"
proof -
  from assms(2) obtain us where us: "materialize_ranked_tuples d (bt_keys (del_proposals d)) = Inr us"
    and d': "d' = d\<lparr>del_ranking := map fst (sort_key ranking_key us), del_phase := Completed_phase,
      del_completed_at := Some now\<rparr>" and ranked: "ranked = number_ranked (sort_key ranking_key us)"
    by (auto simp: Deliberation_complete_def result_simps Let_def)
  let ?ts = "sort_key ranking_key us"
  have m: "mset (map fst ?ts) = mset (bt_keys (del_proposals d))"
    unfolding materialize_facts(1) [OF us, symmetric] by simp
  have "distinct (bt_keys (del_proposals d))"
    using assms(1) by (intro bt_wf_distinct) (simp add: deliberation_wf_def)
  then have "distinct (map fst ?ts)" using mset_eq_imp_distinct_iff [OF m] by simp
  then have "distinct (map ranking_key ?ts)"
    by (auto simp: distinct_map inj_on_def ranking_key_def)
  then have "sorted_wrt (<) (map ranking_key ?ts)" by (simp add: strict_sorted_iff)
  then have srt: "sorted_wrt (\<lambda>a b. ranking_key a < ranking_key b) ?ts" by (simp add: sorted_wrt_map)
  show thesis
    by (rule that [OF ranked srt]) (use d' mset_eq_setD [OF m] materialize_facts(2) [OF us] in auto)
qed

subsection \<open>An example deliberation\<close>

definition demo_proposal :: "string \<Rightarrow> proposal" where
  "demo_proposal pid = \<lparr>prop_id = lit pid, prop_author = lit ''agent'', prop_specialty = lit ''review'',
     prop_content = lit ''text'', prop_attributes = [], prop_created_at = 1, prop_updated_at = 1,
     prop_revision_count = 0\<rparr>"

definition demo_report :: "bool \<Rightarrow> validator_report" where
  "demo_report passed = \<lparr>vr_kind = lit ''shape'', vr_passed = passed, vr_summary = [], vr_details = []\<rparr>"

definition demo_outcome :: "rat \<Rightarrow> bool \<Rightarrow> validation_outcome" where
  "demo_outcome q passed = \<lparr>vo_score = F64 q, vo_reports = [demo_report passed]\<rparr>"

definition demo_contract :: output_contract where
  "demo_contract = \<lparr>oc_contract_id = lit ''plan'', oc_format = JsonObjectFormat, oc_fields = [], oc_json_schema = [],
     oc_evidence_grounding = None\<rparr>"

text \<open>Two proposals: \<open>a\<close> scores better but fails its contract, \<open>b\<close> passes.\<close>

definition demo_scoring :: deliberation where
  "demo_scoring = (Deliberation_start (lit ''t'') (lit ''review'') 0 0)\<lparr>del_phase := Scoring,
     del_proposals := [(lit ''a'', demo_proposal ''a''), (lit ''b'', demo_proposal ''b'')],
     del_outcomes := [(lit ''a'', demo_outcome 1 False), (lit ''b'', demo_outcome (1/2) True)]\<rparr>"

lemma demo_proposal_new:
  "Proposal_new (lit pid) (lit ''agent'') (lit ''review'') (lit ''text'') [] 1 = Inr (demo_proposal pid)"
proof -
  have "trim (lit ''text'') = lit ''text''" by (rule trim_id) (simp add: lit_def is_whitespace_def)+
  then show ?thesis by (simp add: Proposal_new_def demo_proposal_def) (simp add: lit_def)
qed

lemma demo_scoring_reachable: "deliberation_reachable demo_scoring"
proof -
  let ?d0 = "Deliberation_start (lit ''t'') (lit ''review'') 0 0"
  let ?ps = "[(lit ''a'', demo_proposal ''a''), (lit ''b'', demo_proposal ''b'')]"
  have ne: "lit ''a'' < lit ''b''" "lit ''a'' \<noteq> lit ''b''" by (simp_all add: lit_def)
  have "deliberation_step ?d0 (?d0\<lparr>del_proposals := [(lit ''a'', demo_proposal ''a'')]\<rparr>)"
    by (rule propose [OF demo_proposal_new]) (simp add: Deliberation_add_proposal_def require_phase_def
        Deliberation_start_def bt_contains_key_def demo_proposal_def)
  moreover have "deliberation_step (?d0\<lparr>del_proposals := [(lit ''a'', demo_proposal ''a'')]\<rparr>) (?d0\<lparr>del_proposals := ?ps\<rparr>)"
    by (rule propose [OF demo_proposal_new [of "''b''"]]) (simp add: Deliberation_add_proposal_def require_phase_def
        Deliberation_start_def bt_contains_key_def demo_proposal_def ne ne(2) [symmetric] less_not_sym)
  moreover have "deliberation_step (?d0\<lparr>del_proposals := ?ps\<rparr>) (?d0\<lparr>del_proposals := ?ps, del_phase := Revising\<rparr>)"
    by (rule advance) (simp_all add: Deliberation_advance_def Deliberation_start_def)
  moreover have "deliberation_step (?d0\<lparr>del_proposals := ?ps, del_phase := Revising\<rparr>)
      (?d0\<lparr>del_proposals := ?ps, del_phase := Validating\<rparr>)"
    by (rule advance) (simp_all add: Deliberation_advance_def Deliberation_start_def)
  moreover have score: "Score_new (F64 1) = Inr (F64 1)" "Score_new (F64 (1/2)) = Inr (F64 (1/2))"
    by (simp_all add: Score_new_def f64_le_def)
  have "deliberation_step (?d0\<lparr>del_proposals := ?ps, del_phase := Validating\<rparr>)
      (?d0\<lparr>del_proposals := ?ps, del_phase := Validating, del_outcomes := [(lit ''a'', demo_outcome 1 False)]\<rparr>)"
    by (rule attach [OF score(1), of _ "lit ''a''" "[demo_report False]"])
      (simp add: Deliberation_attach_outcome_def require_phase_def Deliberation_start_def bt_contains_key_def
        demo_outcome_def)
  moreover have "deliberation_step
      (?d0\<lparr>del_proposals := ?ps, del_phase := Validating, del_outcomes := [(lit ''a'', demo_outcome 1 False)]\<rparr>)
      (demo_scoring\<lparr>del_phase := Validating\<rparr>)"
    by (rule attach [OF score(2), of _ "lit ''b''" "[demo_report True]"])
      (simp add: Deliberation_attach_outcome_def require_phase_def Deliberation_start_def bt_contains_key_def
        demo_outcome_def demo_scoring_def ne ne(2) [symmetric] less_not_sym)
  moreover have "deliberation_step (demo_scoring\<lparr>del_phase := Validating\<rparr>) demo_scoring"
    by (rule advance) (simp_all add: Deliberation_advance_def demo_scoring_def)
  ultimately show ?thesis by (meson started stepped)
qed

lemma completed_facts:
  assumes wf: "deliberation_wf d" and c: "Deliberation_complete d now = Inr (d', ranked)"
  shows "sorted_wrt ranks_before ranked" and "length ranked = length (del_proposals d)"
    and "Deliberation_ranked_outcomes d' = Inr ranked"
    and "\<forall>i < length ranked. \<exists>pid. ro_rank (ranked ! i) = u32_of_index i \<and>
       bt_get (del_proposals d) pid = Some (ro_proposal (ranked ! i)) \<and>
       bt_get (del_outcomes d) pid = Some (ro_outcome (ranked ! i))"
    and "d' = d\<lparr>del_ranking := del_ranking d', del_phase := Completed_phase, del_completed_at := Some now\<rparr>"
proof -
  from complete_ranked [OF wf c] obtain ts where ts: "ranked = number_ranked ts"
    "sorted_wrt (\<lambda>a b. ranking_key a < ranking_key b) ts" "set (map fst ts) = set (bt_keys (del_proposals d))"
    and get: "\<forall>(pid, p, v) \<in> set ts. bt_get (del_proposals d) pid = Some p \<and> bt_get (del_outcomes d) pid = Some v"
    and d': "d' = d\<lparr>del_ranking := map fst ts, del_phase := Completed_phase, del_completed_at := Some now\<rparr>" .
  have nth_get: "bt_get (del_proposals d) (fst (ts ! i)) = Some (fst (snd (ts ! i))) \<and>
      bt_get (del_outcomes d) (fst (ts ! i)) = Some (snd (snd (ts ! i)))" if "i < length ts" for i
    using get nth_mem [OF that] by (cases "ts ! i") auto
  have ids: "prop_id (fst (snd (ts ! i))) = fst (ts ! i)" if "i < length ts" for i
    using nth_get [OF that] wf by (auto simp: deliberation_wf_def)
  show "sorted_wrt ranks_before ranked"
    using ts(2) by (auto simp: ts(1) sorted_wrt_iff_nth_less nth_number_ranked ranks_before_def ranking_key_less ids)
  show "length ranked = length (del_proposals d)"
  proof -
    have "distinct (map fst ts)"
      using deliberation_step_wf [OF deliberation_step.complete [OF c] wf] by (simp add: d' deliberation_wf_def)
    moreover have "distinct (bt_keys (del_proposals d))" using wf by (intro bt_wf_distinct) (simp add: deliberation_wf_def)
    ultimately show ?thesis using ts(1,3) by (metis distinct_card length_map length_number_ranked)
  qed
  show "Deliberation_ranked_outcomes d' = Inr ranked"
    unfolding ts(1) by (rule ranked_outcomes_of) (use get in \<open>auto simp: d'\<close>)
  show "\<forall>i < length ranked. \<exists>pid. ro_rank (ranked ! i) = u32_of_index i \<and>
       bt_get (del_proposals d) pid = Some (ro_proposal (ranked ! i)) \<and>
       bt_get (del_outcomes d) pid = Some (ro_outcome (ranked ! i))"
    using nth_get by (auto simp: ts(1) nth_number_ranked)
  show "d' = d\<lparr>del_ranking := del_ranking d', del_phase := Completed_phase, del_completed_at := Some now\<rparr>"
    by (simp add: d')
qed

text \<open>
  Completing a deliberation: a deliberation that has reached the scoring phase can always be
  completed; the ranking holds every proposal with its outcome exactly once, better scores
  strictly before worse ones and equal scores in the order of their ids, numbered from zero; and
  reading the ranking back later gives the same list.
\<close>

theorem completed_ranking_exact:
  assumes "deliberation_reachable d" and "del_phase d = Scoring"
  shows "\<exists>d' ranked. Deliberation_complete d now = Inr (d', ranked) \<and> sorted_wrt ranks_before ranked \<and>
    length ranked = length (del_proposals d) \<and>
    (\<forall>i < length ranked. \<exists>pid. ro_rank (ranked ! i) = u32_of_index i \<and>
       bt_get (del_proposals d) pid = Some (ro_proposal (ranked ! i)) \<and>
       bt_get (del_outcomes d) pid = Some (ro_outcome (ranked ! i))) \<and>
    Deliberation_ranked_outcomes d' = Inr ranked"
proof -
  note wf = reachable_deliberation_wf [OF assms(1)]
  obtain us where "materialize_ranked_tuples d (bt_keys (del_proposals d)) = Inr us"
    by (rule complete_tuples [OF wf, of "bt_keys (del_proposals d)"]) (use assms(2) in auto)
  then obtain d' ranked where c: "Deliberation_complete d now = Inr (d', ranked)"
    using assms(2) by (simp add: Deliberation_complete_def require_phase_def Let_def)
  from completed_facts [OF wf c] c show ?thesis by blast
qed

theorem completed_ranking_exact_witness:
  "\<exists>d' ranked. Deliberation_complete demo_scoring 9 = Inr (d', ranked) \<and> sorted_wrt ranks_before ranked \<and>
     length ranked = 2"
proof -
  have "del_phase demo_scoring = Scoring" "length (del_proposals demo_scoring) = 2" by (simp_all add: demo_scoring_def)
  with completed_ranking_exact [OF demo_scoring_reachable, of 9] show ?thesis by auto
qed

text \<open>Putting the valid ones first keeps the order among them, and never fails.\<close>

lemma prioritize_ranked:
  assumes "deliberation_wf d1" and "del_phase d1 = Completed_phase" and "del_ranking d1 = map fst ts"
    and "\<forall>(pid, p, v) \<in> set ts. bt_get (del_proposals d1) pid = Some p \<and> bt_get (del_outcomes d1) pid = Some v"
  defines "new \<equiv> filter (\<lambda>t. ValidationOutcome_all_passed (snd (snd t))) ts @
     filter (\<lambda>t. \<not> ValidationOutcome_all_passed (snd (snd t))) ts"
  shows "prioritize_valid_outputs d1 (number_ranked ts) = Inr (d1\<lparr>del_ranking := map fst new\<rparr>, number_ranked new)"
proof -
  have "prop_id (fst (snd t)) = fst t" if "t \<in> set ts" for t
    using that assms(1,4) by (cases t) (auto simp: deliberation_wf_def)
  then have ids: "map (\<lambda>x. prop_id (fst x)) (filter (\<lambda>x. P (snd x)) (map snd ts)) = map fst (filter (\<lambda>t. P (snd (snd t))) ts)" for P
    by (induction ts) auto
  have pairs: "map (\<lambda>r. prop_id (ro_proposal r)) (filter (\<lambda>r. P (ro_outcome r)) rs) =
      map (\<lambda>x. prop_id (fst x)) (filter (\<lambda>x. P (snd x)) (map (\<lambda>r. (ro_proposal r, ro_outcome r)) rs))" for P rs
    by (induction rs) auto
  have filt: "map (\<lambda>r. prop_id (ro_proposal r)) (filter (\<lambda>r. P (ro_outcome r)) (number_ranked ts)) =
      map fst (filter (\<lambda>t. P (snd (snd t))) ts)" for P
    unfolding pairs number_ranked_map by (rule ids)
  have ranking: "map (\<lambda>r. prop_id (ro_proposal r))
      (filter (\<lambda>r. ValidationOutcome_all_passed (ro_outcome r)) (number_ranked ts) @
       filter (\<lambda>r. \<not> ValidationOutcome_all_passed (ro_outcome r)) (number_ranked ts)) = map fst new"
    by (simp add: new_def filt [of ValidationOutcome_all_passed] filt [of "\<lambda>v. \<not> ValidationOutcome_all_passed v"])
  have "length (map fst new) = length (del_ranking d1)" "set (map fst new) = set (del_ranking d1)"
    using assms(3) by (auto simp: new_def sum_length_filter_compl)
  then have "length new = length (del_ranking d1)" "bset_of (del_ranking d1) = bset_of (map fst new)"
    by (simp_all only: bset_of_eq_iff length_map)
  moreover have "materialize_ranked_tuples d1 (map fst new) = Inr new"
    by (rule materialize_of) (use assms(4) in \<open>auto simp: new_def\<close>)
  ultimately show ?thesis
    unfolding prioritize_valid_outputs_def ranking
    by (simp add: Deliberation_reprioritize_def require_phase_def assms(2))
qed

lemma number_ranked_Bex:
  "(\<exists>r \<in> set (number_ranked ts). Q (ro_proposal r) (ro_outcome r)) \<longleftrightarrow> (\<exists>t \<in> set ts. Q (fst (snd t)) (snd (snd t)))"
proof -
  have "(\<lambda>r. (ro_proposal r, ro_outcome r)) ` set (number_ranked ts) = snd ` set ts"
    by (metis number_ranked_map list.set_map)
  then have "(\<exists>x \<in> (\<lambda>r. (ro_proposal r, ro_outcome r)) ` set (number_ranked ts). Q (fst x) (snd x)) \<longleftrightarrow>
      (\<exists>x \<in> snd ` set ts. Q (fst x) (snd x))" by simp
  then show ?thesis by (simp only: bex_simps fst_conv snd_conv)
qed

lemma find_number_ranked:
  "find (\<lambda>r. P (ro_outcome r)) (number_ranked ts) = None \<longleftrightarrow> (\<forall>t \<in> set ts. \<not> P (snd (snd t)))"
  using number_ranked_Bex [of ts "\<lambda>_. P"] by (auto simp: find_None_iff)

lemma prioritize_pick:
  assumes "deliberation_reachable d" and "Deliberation_complete d now = Inr (d1, ranked)"
    and "tc_output_contract c = Some contract"
  shows "\<exists>d2 ranked2. prioritize_valid_outputs d1 ranked = Inr (d2, ranked2) \<and>
    d2 = d1\<lparr>del_ranking := del_ranking d2\<rparr> \<and> Deliberation_ranked_outcomes d2 = Inr ranked2 \<and>
    mset (map (\<lambda>r. (ro_proposal r, ro_outcome r)) ranked2) = mset (map (\<lambda>r. (ro_proposal r, ro_outcome r)) ranked) \<and>
    (if \<exists>r \<in> set ranked. ValidationOutcome_all_passed (ro_outcome r)
     then \<exists>w rest. ranked2 = w # rest \<and> pick_winner ranked2 c = Inr w \<and>
       ValidationOutcome_all_passed (ro_outcome w) \<and>
       (\<forall>r \<in> set ranked. ValidationOutcome_all_passed (ro_outcome r) \<longrightarrow>
          ro_proposal r = ro_proposal w \<or> ranks_before w r)
     else pick_winner ranked2 c = Inl (NoValidProposal (oc_contract_id contract)))"
proof -
  let ?ok = "\<lambda>t. ValidationOutcome_all_passed (snd (snd t))"
  note wf = reachable_deliberation_wf [OF assms(1)]
  note wf1 = deliberation_step_wf [OF deliberation_step.complete [OF assms(2)] wf]
  from complete_ranked [OF wf assms(2)] obtain ts where ts: "ranked = number_ranked ts"
    "sorted_wrt (\<lambda>a b. ranking_key a < ranking_key b) ts" "map fst ts = del_ranking d1"
    and get: "\<forall>(pid, p, v) \<in> set ts. bt_get (del_proposals d) pid = Some p \<and> bt_get (del_outcomes d) pid = Some v"
    and d1: "d1 = d\<lparr>del_ranking := map fst ts, del_phase := Completed_phase, del_completed_at := Some now\<rparr>" .
  define R where "R = number_ranked (filter ?ok ts @ filter (\<lambda>t. \<not> ?ok t) ts)"
  define d2 where "d2 = d1\<lparr>del_ranking := map fst (filter ?ok ts @ filter (\<lambda>t. \<not> ?ok t) ts)\<rparr>"
  have pr: "prioritize_valid_outputs d1 ranked = Inr (d2, R)"
    unfolding ts(1) d2_def R_def by (rule prioritize_ranked [OF wf1 _ ts(3) [symmetric]]) (use get in \<open>simp_all add: d1\<close>)
  have read: "Deliberation_ranked_outcomes d2 = Inr R"
    unfolding R_def by (rule ranked_outcomes_of) (use get in \<open>auto simp: d2_def d1\<close>)
  have perm: "mset (map (\<lambda>r. (ro_proposal r, ro_outcome r)) R) = mset (map (\<lambda>r. (ro_proposal r, ro_outcome r)) ranked)"
  proof -
    have "mset (filter ?ok ts) + mset (filter (\<lambda>t. \<not> ?ok t) ts) = mset ts" by (induction ts) auto
    then show ?thesis unfolding R_def ts(1) number_ranked_map mset_map mset_append by (simp only:)
  qed
  have d2: "d2 = d1\<lparr>del_ranking := del_ranking d2\<rparr>" by (simp add: d2_def)
  have ids: "prop_id (fst (snd t)) = fst t" if "t \<in> set ts" for t
    using that get wf by (cases t) (auto simp: deliberation_wf_def)
  note mem = number_ranked_Bex [of ts, folded ts(1)]
  show ?thesis
  proof (cases "filter ?ok ts")
    case Nil
    then have none: "\<forall>t \<in> set ts. \<not> ?ok t" by (simp add: filter_empty_conv)
    then have "find (\<lambda>r. ValidationOutcome_all_passed (ro_outcome r)) R = None"
      by (simp add: R_def find_number_ranked)
    then have "pick_winner R c = Inl (NoValidProposal (oc_contract_id contract))"
      using assms(3) by (simp add: pick_winner_def)
    moreover have "\<not> (\<exists>r \<in> set ranked. ValidationOutcome_all_passed (ro_outcome r))"
      using none mem [of "\<lambda>p. ValidationOutcome_all_passed"] by blast
    ultimately show ?thesis using pr read perm d2 by (intro exI conjI) simp_all
  next
    case (Cons t us)
    have "R \<noteq> []" using Cons by (simp add: R_def number_ranked_def)
    then obtain w rest where R: "R = w # rest" by (cases R) auto
    have "w = R ! 0" by (simp add: R)
    then have w: "ro_proposal w = fst (snd t)" "ro_outcome w = snd (snd t)"
      using Cons by (simp_all add: R_def nth_number_ranked)
    have "t \<in> set (filter ?ok ts)" unfolding Cons by simp
    then have t: "t \<in> set ts" "?ok t" by simp_all
    have "sorted_wrt (\<lambda>a b. ranking_key a < ranking_key b) (t # us)"
      using sorted_wrt_filter [OF ts(2), of ?ok] Cons by simp
    then have first: "u = t \<or> ranking_key t < ranking_key u" if "u \<in> set ts" "?ok u" for u
    proof -
      have "u \<in> set (filter ?ok ts)" using that by simp
      then show ?thesis using \<open>sorted_wrt (\<lambda>a b. ranking_key a < ranking_key b) (t # us)\<close> unfolding Cons by auto
    qed
    have best: "ro_proposal r = ro_proposal w \<or> ranks_before w r"
      if r: "r \<in> set ranked" "ValidationOutcome_all_passed (ro_outcome r)" for r
    proof -
      from r(1) obtain k where k: "k < length ts" "r = number_ranked ts ! k" by (auto simp: ts(1) in_set_conv_nth)
      then have u: "ts ! k \<in> set ts" "?ok (ts ! k)" using r(2) by (auto simp: nth_number_ranked)
      from first [OF u] show ?thesis
        using k w ids [OF u(1)] ids [OF t(1)]
        by (auto simp: nth_number_ranked ranks_before_def ranking_key_less)
    qed
    have "\<exists>r \<in> set ranked. ValidationOutcome_all_passed (ro_outcome r)"
      using mem [of "\<lambda>p. ValidationOutcome_all_passed"] t by blast
    moreover have "ValidationOutcome_all_passed (ro_outcome w)" by (simp add: w t)
    moreover from this have "pick_winner R c = Inr w" by (simp add: R pick_winner_def assms(3))
    ultimately show ?thesis using pr read perm d2 R best by (intro exI [of _ d2] exI [of _ R] conjI) auto
  qed
qed

text \<open>
  The winner of a task with an output contract: the order in which candidates are returned
  puts those that passed every validator first and never fails to be built; the winner is the
  first of them, it passed every validator, and every other candidate that did ranks after it.
  The choice fails, naming the contract, exactly when no candidate passed.
\<close>

theorem winner_is_best_valid:
  assumes "deliberation_reachable d" and "Deliberation_complete d now = Inr (d1, ranked)"
    and "tc_output_contract c = Some contract"
  shows "\<exists>d2 ranked2. prioritize_valid_outputs d1 ranked = Inr (d2, ranked2) \<and>
    (if \<exists>r \<in> set ranked. ValidationOutcome_all_passed (ro_outcome r)
     then \<exists>w rest. ranked2 = w # rest \<and> pick_winner ranked2 c = Inr w \<and>
       ValidationOutcome_all_passed (ro_outcome w) \<and>
       (\<forall>r \<in> set ranked. ValidationOutcome_all_passed (ro_outcome r) \<longrightarrow>
          ro_proposal r = ro_proposal w \<or> ranks_before w r)
     else pick_winner ranked2 c = Inl (NoValidProposal (oc_contract_id contract)))"
  using prioritize_pick [OF assms] by blast

theorem winner_is_best_valid_witness:
  "\<exists>d1 ranked d2 ranked2 w. Deliberation_complete demo_scoring 9 = Inr (d1, ranked) \<and>
     prioritize_valid_outputs d1 ranked = Inr (d2, ranked2) \<and>
     pick_winner ranked2 (TaskConstraints_default\<lparr>tc_output_contract := Some demo_contract\<rparr>) = Inr w \<and>
     ValidationOutcome_all_passed (ro_outcome w)"
proof -
  let ?c = "TaskConstraints_default\<lparr>tc_output_contract := Some demo_contract\<rparr>"
  have "lit ''a'' \<noteq> lit ''b''" by (simp add: lit_def)
  then obtain d1 ranked where c: "Deliberation_complete demo_scoring 9 = Inr (d1, ranked)"
    and passes: "\<exists>r \<in> set ranked. ValidationOutcome_all_passed (ro_outcome r)"
    by (auto simp: Deliberation_complete_def require_phase_def materialize_ranked_tuples_def demo_scoring_def
        number_ranked_def ranking_key_def demo_outcome_def demo_report_def ValidationOutcome_all_passed_def)
  have "tc_output_contract ?c = Some demo_contract" by simp
  from winner_is_best_valid [OF demo_scoring_reachable c this] passes c show ?thesis by auto
qed

end
