(* ===== verification/Council_Scores.thy ===== *)
theory Council_Scores
  imports Deliberations
begin

text \<open>
  What the scoring policies of \<open>choreo-adapters/src/scoring.rs\<close> give: the rounding of the share of
  passed validators, when it is the best and the worst score, and that a verdict of a judge is
  always turned into a valid score.
\<close>

section \<open>Rounding\<close>

lemma bit_len_bounds: "0 < n \<Longrightarrow> 2 ^ (bit_len n - 1) \<le> n \<and> n < 2 ^ bit_len n"
proof (induction n rule: bit_len.induct)
  case (1 n)
  show ?case
  proof (cases "n = 1")
    case True
    then show ?thesis by (simp add: bit_len.simps)
  next
    case False
    then have pos: "0 < n div 2" using 1(2) by linarith
    from 1(1) [OF _ pos] 1(2) have ih: "2 ^ (bit_len (n div 2) - 1) \<le> n div 2" "n div 2 < 2 ^ bit_len (n div 2)" by auto
    obtain m where m: "bit_len (n div 2) = Suc m" using pos by (metis bit_len.simps gr0_conv_Suc less_numeral_extra(3))
    have len: "bit_len n = Suc (Suc m)" using 1(2) m by (subst bit_len.simps) simp
    show ?thesis using ih m by (simp add: len) linarith
  qed
qed

lemma bit_len_mono: assumes "0 < p" and "p \<le> t" shows "bit_len p \<le> bit_len t"
proof (rule ccontr)
  assume "\<not> bit_len p \<le> bit_len t"
  then have "bit_len t \<le> bit_len p - 1" by linarith
  then have "(2::nat) ^ bit_len t \<le> 2 ^ (bit_len p - 1)" by (rule power_increasing) simp
  then show False using bit_len_bounds [of p] bit_len_bounds [of t] assms by linarith
qed

text \<open>The scaled quotient that is rounded, and how far it is from zero and one.\<close>

lemma count_ratio_parts:
  assumes "0 < p" and "p \<le> t"
  obtains k m where "52 \<le> k" and "count_ratio p t = F64 (of_nat m / 2 ^ k)" and "t \<le> p * 2 ^ k"
    and "m = p * 2 ^ k div t \<or> m = Suc (p * 2 ^ k div t) \<and> t \<le> 2 * (p * 2 ^ k mod t)"
proof -
  define k0 where "k0 = 53 + bit_len t - bit_len p"
  define k where "k = (if p * 2 ^ k0 div t < 2 ^ 53 then k0 else k0 - 1)"
  have k0: "53 \<le> k0" using bit_len_mono [OF assms] by (simp add: k0_def)
  then have k: "52 \<le> k" by (auto simp: k_def)
  have "bit_len p \<noteq> 0" using assms(1) by (metis bit_len.simps nat.distinct(1) not_gr_zero)
  then have e: "(bit_len p - 1) + k0 = 52 + bit_len t" using bit_len_mono [OF assms] by (simp add: k0_def)
  have "t * 2 ^ 52 \<le> 2 ^ bit_len t * 2 ^ 52" using bit_len_bounds [of t] assms by simp
  also have "\<dots> = 2 ^ (bit_len p - 1) * 2 ^ k0" by (simp only: power_add [symmetric] e) (simp add: add.commute)
  also have "\<dots> \<le> p * 2 ^ k0" using bit_len_bounds [OF assms(1)] by simp
  finally have low: "t * 2 ^ 52 \<le> p * 2 ^ k0" .
  have "t \<le> p * 2 ^ k"
  proof (cases "k = k0")
    case True
    have "t \<le> t * 2 ^ 52" by simp
    then show ?thesis using low unfolding True by (rule le_trans)
  next
    case False
    then have "k0 = Suc k" using k0 by (simp add: k_def split: if_splits)
    then have "2 * (t * 2 ^ 51) \<le> 2 * (p * 2 ^ k)" using low by simp
    moreover have "t \<le> t * 2 ^ 51" by simp
    ultimately show ?thesis by linarith
  qed
  moreover define q r where "q = p * 2 ^ k div t" and "r = p * 2 ^ k mod t"
  moreover define m where "m = (if 2 * r < t \<or> (2 * r = t \<and> even q) then q else q + 1)"
  have "count_ratio p t = F64 (of_nat m / 2 ^ k)"
    using assms by (simp add: count_ratio_def Let_def m_def q_def r_def k_def k0_def)
  moreover have "m = q \<or> m = Suc q \<and> t \<le> 2 * r" by (auto simp: m_def)
  ultimately show thesis using that k by blast
qed

lemma count_ratio_bounds:
  assumes "p \<le> t" and "0 < t" and "t < 2 ^ 53"
  shows "\<exists>v. count_ratio p t = F64 v \<and> 0 \<le> v \<and> v \<le> 1 \<and> (v = 1 \<longleftrightarrow> p = t) \<and> (v = 0 \<longleftrightarrow> p = 0)"
proof (cases "p = 0")
  case True
  then show ?thesis using assms by (simp add: count_ratio_def)
next
  case False
  then have p: "0 < p" by simp
  obtain k m where k: "52 \<le> k" and c: "count_ratio p t = F64 (of_nat m / 2 ^ k)" and t: "t \<le> p * 2 ^ k"
    and m: "m = p * 2 ^ k div t \<or> m = Suc (p * 2 ^ k div t) \<and> t \<le> 2 * (p * 2 ^ k mod t)"
    by (rule count_ratio_parts [OF p assms(1)])
  have "0 < p * 2 ^ k div t" using t assms(2) by (simp add: div_greater_zero_iff)
  then have pos: "0 < m" using m by auto
  have upper: "m < 2 ^ k" if lt: "p < t"
  proof -
    have q: "p * 2 ^ k div t < 2 ^ k" using lt by (simp add: div_less_iff_less_mult assms(2))
    show ?thesis
    proof (rule ccontr)
      assume "\<not> m < 2 ^ k"
      with m q have mq: "Suc (p * 2 ^ k div t) = 2 ^ k" and r: "t \<le> 2 * (p * 2 ^ k mod t)" by auto
      have split: "p * 2 ^ k = (p * 2 ^ k div t) * t + p * 2 ^ k mod t" by simp
      have "2 ^ k * t = Suc (p * 2 ^ k div t) * t" by (simp only: mq)
      then have "2 ^ k * t = (p * 2 ^ k div t) * t + t" by simp
      moreover have "(t - p) * 2 ^ k = 2 ^ k * t - p * 2 ^ k" by (simp add: diff_mult_distrib mult.commute)
      moreover have "p * 2 ^ k \<le> 2 ^ k * t" using lt by (simp add: mult.commute)
      ultimately have rest: "p * 2 ^ k mod t + (t - p) * 2 ^ k = t" using split by linarith
      have "(2::nat) ^ 52 \<le> 2 ^ k" using k by (rule power_increasing) simp
      also have "\<dots> \<le> (t - p) * 2 ^ k" using lt by simp
      finally have "2 * 2 ^ 52 \<le> t" using rest r by linarith
      then show False using assms(3) by simp
    qed
  qed
  have eq: "m = 2 ^ k" if "p = t"
    using m that assms(2) by auto
  have real: "(of_nat m / 2 ^ k :: rat) < 1 \<longleftrightarrow> m < 2 ^ k" "(of_nat m / 2 ^ k :: rat) = 1 \<longleftrightarrow> m = 2 ^ k"
    by (auto simp: divide_less_eq)
  show ?thesis
    using c pos upper eq real assms(1) False by (cases "p = t") (auto simp: less_imp_le)
qed

section \<open>Scores\<close>

lemma Score_new_unit: "0 \<le> v \<Longrightarrow> v \<le> 1 \<Longrightarrow> Score_new (F64 v) = Inr (F64 v)"
  by (simp add: Score_new_def f64_le_def)

lemma clamp_scores: "v \<noteq> F64_NaN \<Longrightarrow> \<exists>s. Score_new (f64_clamp v (F64 0) (F64 1)) = Inr s"
  by (cases v) (auto simp: f64_clamp_def f64_lt_def f64_le_def Score_new_def Let_def)

text \<open>
  Scoring never fails and is exact at both ends: below \<open>2 ^ 53\<close> reports the share of passed
  validators gives a score, the score is the best one exactly when there are reports and all of
  them passed, and the worst one exactly when none passed; and a judge's verdict, whatever number
  it is (other than NaN, which JSON cannot hold), gives a score as well.
\<close>

theorem scoring_total_and_exact:
  assumes "length reports < 2 ^ 53"
  shows "\<exists>s. UniformScoring_score reports = Inr s \<and>
    (s = Score_MAX \<longleftrightarrow> reports \<noteq> [] \<and> list_all vr_passed reports) \<and>
    (s = Score_MIN \<longleftrightarrow> \<not> list_ex vr_passed reports) \<and>
    (judge_verdict reports \<noteq> Some F64_NaN \<longrightarrow> is_ok (snd (JudgeAwareScoring_score reports)))"
proof -
  let ?p = "length (filter vr_passed reports)" let ?t = "length reports"
  have all: "?p = ?t \<longleftrightarrow> list_all vr_passed reports"
    by (metis filter_id_conv length_filter_less list_all_iff nat_neq_iff)
  have none: "?p = 0 \<longleftrightarrow> \<not> list_ex vr_passed reports" by (auto simp: list_ex_iff filter_empty_conv)
  obtain s where s: "passed_ratio reports = Inr s"
    "s = Score_MAX \<longleftrightarrow> reports \<noteq> [] \<and> list_all vr_passed reports" "s = Score_MIN \<longleftrightarrow> \<not> list_ex vr_passed reports"
  proof (cases "reports = []")
    case True
    then show thesis by (intro that [of Score_MIN]) (simp_all add: passed_ratio_def Score_MIN_def Score_MAX_def)
  next
    case False
    then have "0 < ?t" by simp
    from count_ratio_bounds [OF length_filter_le this assms, of vr_passed] obtain v where
      v: "count_ratio ?p ?t = F64 v" "0 \<le> v" "v \<le> 1" "v = 1 \<longleftrightarrow> ?p = ?t" "v = 0 \<longleftrightarrow> ?p = 0" by blast
    show thesis
      by (rule that [of "F64 v"]) (use v False all none in \<open>simp_all add: passed_ratio_def Score_new_unit Score_MIN_def Score_MAX_def\<close>)
  qed
  moreover have "is_ok (snd (JudgeAwareScoring_score reports))" if "judge_verdict reports \<noteq> Some F64_NaN"
    using that s(1) clamp_scores by (cases "judge_verdict reports") (auto simp: JudgeAwareScoring_score_def is_ok_iff)
  ultimately show ?thesis by (auto simp: UniformScoring_score_def)
qed

theorem scoring_total_and_exact_witness:
  "UniformScoring_score [demo_report True, demo_report True, demo_report True] = Inr Score_MAX"
proof -
  have "length [demo_report True, demo_report True, demo_report True] < 2 ^ 53" by simp
  from scoring_total_and_exact [OF this] show ?thesis by (auto simp: demo_report_def)
qed

text \<open>
  Negative zero is a valid score that compares equal to zero and is not the same score, so a tie
  between the two is not reported as one.
\<close>

lemma negative_zero_score:
  "Score_new F64_NegZero = Inr F64_NegZero" "Score_le F64_NegZero Score_MIN" "Score_le Score_MIN F64_NegZero"
  "F64_NegZero \<noteq> Score_MIN"
  by (simp_all add: Score_new_def f64_le_def Score_le_def Score_MIN_def)

end
