(* ===== verification/Council_Registries.thy ===== *)
theory Council_Registries
  imports Council_Scores Ceremony_Driver
begin

text \<open>
  The in-memory registries of the council engine (\<open>choreo-adapters/src/memory\<close>): agents,
  councils, output contracts, deliberations and statistics.  The locale \<open>keyed_registry\<close> is the
  contract the three registries share: the first registration under a key stays until it is
  deleted, and a lookup returns exactly it.  Agents are values of any type with an id.
\<close>

section \<open>Registries\<close>

definition InMemoryAgentRegistry_insert ::
    "('a \<Rightarrow> rstr) \<Rightarrow> 'a \<Rightarrow> ((rstr, 'a) btree_map, unit) effect" where
  "InMemoryAgentRegistry_insert aid agent m =
     (if bt_contains_key m (aid agent) then (Inl (AlreadyExists ''agent''), m)
      else (Inr (), bt_insert (aid agent) agent m))"

definition InMemoryAgentRegistry_remove :: "rstr \<Rightarrow> ((rstr, 'a) btree_map, unit) effect" where
  "InMemoryAgentRegistry_remove k m =
     (map_ok (\<lambda>_. ()) (ok_or (bt_get m k) (NotFound ''agent'')), bt_remove k m)"

definition InMemoryAgentRegistry_resolve :: "rstr \<Rightarrow> ((rstr, 'a) btree_map, 'a) effect" where
  "InMemoryAgentRegistry_resolve k m = (ok_or (bt_get m k) (NotFound ''agent''), m)"

type_synonym council_map = "(rstr, council) btree_map"

definition InMemoryCouncilRegistry_register :: "council \<Rightarrow> (council_map, unit) effect" where
  "InMemoryCouncilRegistry_register c m =
     (if bt_contains_key m (council_specialty c) then (Inl (AlreadyExists ''council''), m)
      else (Inr (), bt_insert (council_specialty c) c m))"

definition InMemoryCouncilRegistry_replace :: "council \<Rightarrow> (council_map, unit) effect" where
  "InMemoryCouncilRegistry_replace c m =
     (if \<not> bt_contains_key m (council_specialty c) then (Inl (NotFound ''council''), m)
      else (Inr (), bt_insert (council_specialty c) c m))"

definition InMemoryCouncilRegistry_get :: "rstr \<Rightarrow> (council_map, council) effect" where
  "InMemoryCouncilRegistry_get k m = (ok_or (bt_get m k) (NotFound ''council''), m)"

definition InMemoryCouncilRegistry_list :: "(council_map, council list) effect" where
  "InMemoryCouncilRegistry_list m = (Inr (bt_values m), m)"

definition InMemoryCouncilRegistry_delete :: "rstr \<Rightarrow> (council_map, unit) effect" where
  "InMemoryCouncilRegistry_delete k m =
     (map_ok (\<lambda>_. ()) (ok_or (bt_get m k) (NotFound ''council'')), bt_remove k m)"

definition InMemoryCouncilRegistry_contains :: "rstr \<Rightarrow> (council_map, bool) effect" where
  "InMemoryCouncilRegistry_contains k m = (Inr (bt_contains_key m k), m)"

type_synonym contract_map = "(rstr, output_contract) btree_map"

definition InMemoryContractRegistry_register :: "output_contract \<Rightarrow> (contract_map, unit) effect" where
  "InMemoryContractRegistry_register c m =
     (if bt_contains_key m (oc_contract_id c) then (Inl (AlreadyExists ''contract''), m)
      else (Inr (), bt_insert (oc_contract_id c) c m))"

definition InMemoryContractRegistry_get :: "rstr \<Rightarrow> (contract_map, output_contract) effect" where
  "InMemoryContractRegistry_get k m = (ok_or (bt_get m k) (NotFound ''contract''), m)"

definition InMemoryContractRegistry_list :: "(contract_map, output_contract list) effect" where
  "InMemoryContractRegistry_list m = (Inr (bt_values m), m)"

definition InMemoryContractRegistry_delete :: "rstr \<Rightarrow> (contract_map, unit) effect" where
  "InMemoryContractRegistry_delete k m =
     (map_ok (\<lambda>_. ()) (ok_or (bt_get m k) (NotFound ''contract'')), bt_remove k m)"

definition InMemoryContractRegistry_contains :: "rstr \<Rightarrow> (contract_map, bool) effect" where
  "InMemoryContractRegistry_contains k m = (Inr (bt_contains_key m k), m)"

type_synonym deliberation_map = "(rstr, deliberation) btree_map"

definition InMemoryDeliberationRepository_save :: "deliberation \<Rightarrow> (deliberation_map, unit) effect" where
  "InMemoryDeliberationRepository_save d m = (Inr (), bt_insert (del_task_id d) d m)"

definition InMemoryDeliberationRepository_get :: "rstr \<Rightarrow> (deliberation_map, deliberation) effect" where
  "InMemoryDeliberationRepository_get k m = (ok_or (bt_get m k) (NotFound ''deliberation''), m)"

definition InMemoryDeliberationRepository_exists :: "rstr \<Rightarrow> (deliberation_map, bool) effect" where
  "InMemoryDeliberationRepository_exists k m = (Inr (bt_contains_key m k), m)"

definition InMemoryStatistics_record_deliberation :: "rstr \<Rightarrow> duration_ms \<Rightarrow> (statistics, unit) effect" where
  "InMemoryStatistics_record_deliberation sp dur s = (Inr (), Statistics_record_deliberation s sp dur)"

definition InMemoryStatistics_record_orchestration :: "duration_ms \<Rightarrow> (statistics, unit) effect" where
  "InMemoryStatistics_record_orchestration dur s = (Inr (), Statistics_record_orchestration s dur)"

definition InMemoryStatistics_snapshot :: "(statistics, statistics) effect" where
  "InMemoryStatistics_snapshot s = (Inr s, s)"

section \<open>The contract of a registry\<close>

locale keyed_registry =
  fixes key_of :: "'v \<Rightarrow> rstr"
    and what :: string
    and register :: "'v \<Rightarrow> ('s, unit) effect"
    and get :: "rstr \<Rightarrow> ('s, 'v) effect"
    and delete :: "rstr \<Rightarrow> ('s, unit) effect"
    and held :: "'s \<Rightarrow> rstr \<Rightarrow> 'v option"
  assumes register_free: "held s (key_of v) = None \<Longrightarrow>
      \<exists>s'. register v s = (Inr (), s') \<and> held s' = (held s)(key_of v \<mapsto> v)"
    and register_taken: "held s (key_of v) = Some u \<Longrightarrow> register v s = (Inl (AlreadyExists what), s)"
    and get_held: "get k s = (ok_or (held s k) (NotFound what), s)"
    and delete_held: "held s k = Some v \<Longrightarrow>
      \<exists>s'. delete k s = (Inr (), s') \<and> held s' = (held s)(k := None)"
    and delete_absent: "held s k = None \<Longrightarrow> fst (delete k s) = Inl (NotFound what) \<and> held (snd (delete k s)) = held s"
begin

inductive registry_step :: "'s \<Rightarrow> 's \<Rightarrow> bool" where
  registering: "registry_step s (snd (register v s))"
| deleting: "registry_step s (snd (delete k s))"

lemma register_Inr:
  "register v s = (Inr u, s') \<Longrightarrow> held s (key_of v) = None \<and> held s' = (held s)(key_of v \<mapsto> v)"
  using register_free [of s v] register_taken [of s v] by (cases "held s (key_of v)") auto

lemma delete_Inr: "delete k s = (Inr u, s') \<Longrightarrow> held s k \<noteq> None \<and> held s' = (held s)(k := None)"
  using delete_held [of s k] delete_absent [of s k] by (cases "held s k") auto

lemma registered_is_found: "register v s = (Inr u, s') \<Longrightarrow> get (key_of v) s' = (Inr v, s')"
  by (drule register_Inr) (simp add: get_held)

lemma keys_agree:
  assumes "registry_step\<^sup>*\<^sup>* s s'" and "\<And>k v. held s k = Some v \<Longrightarrow> key_of v = k" and "held s' k = Some v"
  shows "key_of v = k"
  using assms
proof (induction arbitrary: k v rule: rtranclp_induct)
  case base
  then show ?case by simp
next
  case (step s1 s2)
  have ih: "held s1 l = Some u \<Longrightarrow> key_of u = l" for l u using step.IH step.prems(1) by blast
  from step.hyps(2) show ?case
  proof cases
    case (registering v')
    then show ?thesis using ih step.prems(2) register_free [of s1 v'] register_taken [of s1 v']
      by (cases "held s1 (key_of v')") (auto split: if_splits)
  next
    case (deleting l)
    then show ?thesis using ih step.prems(2) delete_held [of s1 l] delete_absent [of s1 l]
      by (cases "held s1 l") (auto split: if_splits)
  qed
qed

text \<open>A value is replaced only after it has been deleted.\<close>

lemma first_registration_stays:
  assumes "held s k = Some v" and "registry_step s s'"
  shows "held s' k = Some v \<or> held s' k = None \<and> s' = snd (delete k s)"
  using assms(2)
proof cases
  case (registering v')
  then show ?thesis using assms(1) register_free [of s v'] register_taken [of s v']
    by (cases "held s (key_of v')") (auto split: if_splits)
next
  case (deleting l)
  then show ?thesis using assms(1) delete_held [of s l] delete_absent [of s l]
    by (cases "l = k"; cases "held s l") auto
qed

end

lemmas memory_registry_defs = InMemoryAgentRegistry_insert_def InMemoryAgentRegistry_remove_def
  InMemoryAgentRegistry_resolve_def InMemoryCouncilRegistry_register_def InMemoryCouncilRegistry_get_def
  InMemoryCouncilRegistry_delete_def InMemoryContractRegistry_register_def InMemoryContractRegistry_get_def
  InMemoryContractRegistry_delete_def

interpretation agents: keyed_registry aid "''agent''" "InMemoryAgentRegistry_insert aid"
    InMemoryAgentRegistry_resolve InMemoryAgentRegistry_remove bt_get for aid :: "'a \<Rightarrow> rstr"
  by unfold_locales (auto simp: memory_registry_defs bt_contains_key_def)

interpretation councils: keyed_registry council_specialty "''council''" InMemoryCouncilRegistry_register
    InMemoryCouncilRegistry_get InMemoryCouncilRegistry_delete bt_get
  by unfold_locales (auto simp: memory_registry_defs bt_contains_key_def)

interpretation contracts: keyed_registry oc_contract_id "''contract''" InMemoryContractRegistry_register
    InMemoryContractRegistry_get InMemoryContractRegistry_delete bt_get
  by unfold_locales (auto simp: memory_registry_defs bt_contains_key_def)

lemma replace_held:
  "InMemoryCouncilRegistry_replace c m = (Inr u, m') \<Longrightarrow>
     bt_get m (council_specialty c) \<noteq> None \<and> bt_get m' = (bt_get m)(council_specialty c \<mapsto> c)"
  by (auto simp: InMemoryCouncilRegistry_replace_def bt_contains_key_def split: if_splits)

lemma saved_is_found:
  "InMemoryDeliberationRepository_get (del_task_id d) (snd (InMemoryDeliberationRepository_save d m)) =
     (Inr d, snd (InMemoryDeliberationRepository_save d m))"
  by (simp add: InMemoryDeliberationRepository_get_def InMemoryDeliberationRepository_save_def)

end
