(* ===== verification/Council_Deliberation.thy ===== *)
theory Council_Deliberation
  imports Council_Registries
begin

text \<open>
  Running a deliberation (\<open>choreo-app/src/usecases/deliberate.rs\<close>): the seated agents propose,
  review their neighbour's proposal once per round, the validators judge every proposal, the
  deliberation is ranked, stored, counted, and its winner is chosen and published.  The locale
  \<open>council_environment\<close> says what the use case relies on; proved inside it are the shape of the
  deliberation a run ends with and what remains of a run that finds no valid proposal.
\<close>

section \<open>Ports\<close>

record draft_request =
  dr_task :: rstr
  dr_constraints :: task_constraints
  dr_diverse :: bool
  dr_external_context :: "external_context_bundle option"

record execution_outcome =
  eo_execution_id :: rstr
  eo_succeeded :: bool
  eo_duration :: duration_ms
  eo_output :: attributes

datatype council_message =
    PublishTaskDispatched task_dispatched_event
  | PublishTaskCompleted task_completed_event
  | PublishTaskFailed task_failed_event
  | PublishDeliberationCompleted deliberation_completed_event
  | PublishPhaseChanged phase_changed_event

text \<open>The calls of the metrics port that a deliberation makes.\<close>

datatype council_metric =
    ObserveDeliberationDuration rstr duration_ms
  | RecordDiscrimination rstr discrimination
  | RecordDeliberationOutcome rstr deliberation_outcome
  | ObserveWinnerScore rstr score

text \<open>
  Agents are values of type \<open>'a\<close>; what they write comes from outside.  A draft and a revision
  are their content, a critique is its feedback.  \<open>c_uuid\<close> draws a random identifier,
  \<open>c_instant\<close> reads the monotonic clock in nanoseconds, \<open>c_whole_ms\<close> and \<open>c_fmt\<close> are library
  code as in the driver.
\<close>

record ('w, 'a) council_ports =
  c_now :: "'w \<Rightarrow> timestamp"
  c_council :: "rstr \<Rightarrow> ('w, council) effect"
  c_resolve :: "rstr \<Rightarrow> ('w, 'a) effect"
  c_agent_id :: "'a \<Rightarrow> rstr"
  c_generate :: "'a \<Rightarrow> draft_request \<Rightarrow> ('w, rstr) effect"
  c_critique :: "'a \<Rightarrow> rstr \<Rightarrow> task_constraints \<Rightarrow> ('w, rstr) effect"
  c_revise :: "'a \<Rightarrow> rstr \<Rightarrow> rstr \<Rightarrow> ('w, rstr) effect"
  c_validators :: "(rstr \<Rightarrow> task_constraints \<Rightarrow> ('w, validator_report) effect) list"
  c_score :: "validator_report list \<Rightarrow> ('w, score) effect"
  c_discrimination :: "ranked_outcome list \<Rightarrow> discrimination option"
  c_save :: "deliberation \<Rightarrow> ('w, unit) effect"
  c_record_deliberation :: "rstr \<Rightarrow> duration_ms \<Rightarrow> ('w, unit) effect"
  c_metric :: "council_metric \<Rightarrow> 'w \<Rightarrow> 'w"
  c_publish :: "council_message \<Rightarrow> ('w, unit) effect"
  c_uuid :: "('w, rstr) effect"
  c_whole_ms :: "timestamp \<Rightarrow> timestamp \<Rightarrow> int"
  c_source :: rstr

type_synonym 'w observer = "rstr \<Rightarrow> deliberation_phase \<Rightarrow> timestamp \<Rightarrow> 'w \<Rightarrow> 'w"

definition NullObserver :: "'w observer" where
  "NullObserver tid phase emitted_at w = w"

record deliberate_output =
  do_deliberation :: deliberation
  do_winner_proposal_id :: rstr

section \<open>The use case\<close>

fun resolve_all :: "('w, 'a) council_ports \<Rightarrow> rstr list \<Rightarrow> ('w, 'a list) effect" where
  "resolve_all ports [] = eff_lift (Inr [])"
| "resolve_all ports (i # ids) =
     eff_bind (c_resolve ports i) (\<lambda>a. eff_bind (resolve_all ports ids) (\<lambda>as. eff_lift (Inr (a # as))))"

definition resolve_agents ::
    "('w, 'a) council_ports \<Rightarrow> council \<Rightarrow> task_constraints \<Rightarrow> ('w, 'a list) effect" where
  "resolve_agents ports council c =
     (let ids = council_agents council in
      resolve_all ports (case tc_num_agents c of None \<Rightarrow> ids
        | Some n \<Rightarrow> if unat n < length ids then take (unat n) ids else ids))"

definition new_proposal_id :: "('w, 'a) council_ports \<Rightarrow> ('w, rstr) effect" where
  "new_proposal_id ports = eff_bind (c_uuid ports) (\<lambda>u. eff_lift (ProposalId_new u))"

definition new_event_id :: "('w, 'a) council_ports \<Rightarrow> ('w, rstr) effect" where
  "new_event_id ports = eff_bind (c_uuid ports) (\<lambda>u. eff_lift (EventId_new u))"

text \<open>One turn of the loop: an agent drafts, and its draft joins the deliberation.\<close>

definition seed_proposal ::
    "('w, 'a) council_ports \<Rightarrow> task \<Rightarrow> timestamp \<Rightarrow> 'a \<Rightarrow> deliberation \<Rightarrow> ('w, deliberation \<times> rstr) effect" where
  "seed_proposal ports task now agent d =
     eff_bind (c_generate ports agent
       \<lparr>dr_task = task_description task, dr_constraints = task_constraints_of task, dr_diverse = True,
        dr_external_context = task_external_context task\<rparr>) (\<lambda>content.
     eff_bind (new_proposal_id ports) (\<lambda>pid.
     eff_lift (
       and_then (Proposal_new pid (c_agent_id ports agent) (task_specialty task) content
         (task_attributes task) now) (\<lambda>p.
       and_then (Deliberation_add_proposal d p) (\<lambda>d'. Inr (d', pid))))))"

fun seed_loop ::
    "('w, 'a) council_ports \<Rightarrow> task \<Rightarrow> timestamp \<Rightarrow> 'a list \<Rightarrow> deliberation
      \<Rightarrow> ('w, deliberation \<times> rstr list) effect" where
  "seed_loop ports task now [] d = eff_lift (Inr (d, []))"
| "seed_loop ports task now (a # as) d =
     eff_bind (seed_proposal ports task now a d) (\<lambda>(d', pid).
     eff_bind (seed_loop ports task now as d') (\<lambda>(d'', pids).
     eff_lift (Inr (d'', pid # pids))))"

definition seed_proposals ::
    "('w, 'a) council_ports \<Rightarrow> deliberation \<Rightarrow> 'a list \<Rightarrow> task \<Rightarrow> ('w, deliberation \<times> rstr list) effect" where
  "seed_proposals ports d agents task =
     eff_bind (eff_get (c_now ports)) (\<lambda>now. seed_loop ports task now agents d)"

text \<open>
  One review: the agent criticises and rewrites a peer's proposal.  In a round every agent
  reviews the proposal of the next one, the last agent that of the first.
\<close>

definition peer_review ::
    "('w, 'a) council_ports \<Rightarrow> task_constraints \<Rightarrow> 'a \<Rightarrow> rstr \<Rightarrow> deliberation \<Rightarrow> ('w, deliberation) effect" where
  "peer_review ports c agent peer d =
     eff_bind (eff_lift (ok_or (map_option prop_content (bt_get (del_proposals d) peer))
       (NotFound ''deliberation.proposal''))) (\<lambda>content.
     eff_bind (c_critique ports agent content c) (\<lambda>critique.
     eff_bind (c_revise ports agent content critique) (\<lambda>revision.
     eff_bind (eff_get (c_now ports)) (\<lambda>now.
     eff_lift (Deliberation_revise_proposal d peer revision now)))))"

fun review_pass ::
    "('w, 'a) council_ports \<Rightarrow> task_constraints \<Rightarrow> ('a \<times> rstr) list \<Rightarrow> deliberation
      \<Rightarrow> ('w, deliberation) effect" where
  "review_pass ports c [] d = eff_lift (Inr d)"
| "review_pass ports c ((a, peer) # rest) d =
     eff_bind (peer_review ports c a peer d) (\<lambda>d'. review_pass ports c rest d')"

definition review_pairs :: "'a list \<Rightarrow> rstr list \<Rightarrow> ('a \<times> rstr) list" where
  "review_pairs agents ids = map (\<lambda>(i, a). (a, ids ! ((i + 1) mod length agents))) (enumerate 0 agents)"

fun review_rounds ::
    "('w, 'a) council_ports \<Rightarrow> task_constraints \<Rightarrow> ('a \<times> rstr) list \<Rightarrow> nat \<Rightarrow> deliberation
      \<Rightarrow> ('w, deliberation) effect" where
  "review_rounds ports c pairs 0 d = eff_lift (Inr d)"
| "review_rounds ports c pairs (Suc n) d =
     eff_bind (review_pass ports c pairs d) (\<lambda>d'. review_rounds ports c pairs n d')"

definition run_peer_review_rounds ::
    "('w, 'a) council_ports \<Rightarrow> deliberation \<Rightarrow> 'a list \<Rightarrow> rstr list \<Rightarrow> task_constraints
      \<Rightarrow> ('w, deliberation) effect" where
  "run_peer_review_rounds ports d agents ids c =
     (if tc_rounds c = 0 \<or> length agents < 2 then eff_lift (Inr d)
      else if length ids \<noteq> length agents
      then eff_lift (Inl (InvariantViolated ''proposal count must match agent count before peer review''))
      else review_rounds ports c (review_pairs agents ids) (unat (tc_rounds c)) d)"

fun run_validators ::
    "(rstr \<Rightarrow> task_constraints \<Rightarrow> ('w, validator_report) effect) list \<Rightarrow> rstr \<Rightarrow> task_constraints
      \<Rightarrow> ('w, validator_report list) effect" where
  "run_validators [] content c = eff_lift (Inr [])"
| "run_validators (v # vs) content c =
     eff_bind (v content c) (\<lambda>r.
     eff_bind (run_validators vs content c) (\<lambda>rs. eff_lift (Inr (r # rs))))"

definition attach_validation ::
    "('w, 'a) council_ports \<Rightarrow> task_constraints \<Rightarrow> rstr \<Rightarrow> deliberation \<Rightarrow> ('w, deliberation) effect" where
  "attach_validation ports c pid d =
     eff_bind (eff_lift (ok_or (map_option prop_content (bt_get (del_proposals d) pid))
       (NotFound ''deliberation.proposal''))) (\<lambda>content.
     eff_bind (run_validators (c_validators ports) content c) (\<lambda>reports.
     eff_bind (c_score ports reports) (\<lambda>score.
     eff_lift (Deliberation_attach_outcome d pid \<lparr>vo_score = score, vo_reports = reports\<rparr>))))"

fun attach_loop ::
    "('w, 'a) council_ports \<Rightarrow> task_constraints \<Rightarrow> rstr list \<Rightarrow> deliberation \<Rightarrow> ('w, deliberation) effect" where
  "attach_loop ports c [] d = eff_lift (Inr d)"
| "attach_loop ports c (pid # pids) d =
     eff_bind (attach_validation ports c pid d) (\<lambda>d'. attach_loop ports c pids d')"

definition attach_validations ::
    "('w, 'a) council_ports \<Rightarrow> deliberation \<Rightarrow> task_constraints \<Rightarrow> ('w, deliberation) effect" where
  "attach_validations ports d c = attach_loop ports c (bt_keys (del_proposals d)) d"

definition advance_with_observer ::
    "('w, 'a) council_ports \<Rightarrow> 'w observer \<Rightarrow> deliberation \<Rightarrow> ('w, deliberation) effect" where
  "advance_with_observer ports observer d =
     eff_bind (eff_lift (Deliberation_advance d)) (\<lambda>d'.
     eff_bind (eff_do (\<lambda>w. observer (del_task_id d') (del_phase d') (c_now ports w) w)) (\<lambda>_.
     eff_lift (Inr d')))"

definition Deliberate_envelope ::
    "('w, 'a) council_ports \<Rightarrow> rstr \<Rightarrow> timestamp \<Rightarrow> task_metadata \<Rightarrow> ('w, event_envelope) effect" where
  "Deliberate_envelope ports src emitted_at m =
     eff_bind (new_event_id ports) (\<lambda>eid.
     eff_lift (EventEnvelope_new_with_causation eid emitted_at src (tm_correlation_id m) (tm_causation_id m)))"

definition u32_of_len :: "nat \<Rightarrow> 32 word" where
  "u32_of_len n = (if n < 2 ^ 32 then word_of_nat n else - 1)"

definition finalize_winner ::
    "('w, 'a) council_ports \<Rightarrow> deliberation \<Rightarrow> ranked_outcome list \<Rightarrow> task_constraints
      \<Rightarrow> ('w, ranked_outcome) effect" where
  "finalize_winner ports d ranked c =
     (case pick_winner ranked c of
        Inr winner \<Rightarrow> eff_lift (Inr winner)
      | Inl e \<Rightarrow>
          eff_bind (eff_do (c_metric ports (RecordDeliberationOutcome (del_specialty d) Deliberation_NoValidProposal)))
            (\<lambda>_. eff_lift (Inl e)))"

definition finalize ::
    "('w, 'a) council_ports \<Rightarrow> deliberation \<Rightarrow> ranked_outcome list \<Rightarrow> task \<Rightarrow> timestamp
      \<Rightarrow> discrimination option \<Rightarrow> ('w, deliberate_output) effect" where
  "finalize ports d ranked task completed_at discr =
     eff_bind (c_save ports d) (\<lambda>_.
     let duration = (case Deliberation_duration (c_whole_ms ports) d of None \<Rightarrow> 0 | Some x \<Rightarrow> x) in
     eff_bind (c_record_deliberation ports (del_specialty d) duration) (\<lambda>_.
     eff_bind (eff_do (c_metric ports (ObserveDeliberationDuration (del_specialty d) duration))) (\<lambda>_.
     eff_bind (case discr of None \<Rightarrow> eff_lift (Inr ())
       | Some r \<Rightarrow> eff_do (c_metric ports (RecordDiscrimination (del_specialty d) r))) (\<lambda>_.
     eff_bind (finalize_winner ports d ranked (task_constraints_of task)) (\<lambda>winner.
     eff_bind (eff_do (c_metric ports (RecordDeliberationOutcome (del_specialty d) Deliberation_Success))) (\<lambda>_.
     eff_bind (eff_do (c_metric ports (ObserveWinnerScore (del_specialty d) (vo_score (ro_outcome winner))))) (\<lambda>_.
     eff_bind (Deliberate_envelope ports (c_source ports) completed_at (task_metadata_of task)) (\<lambda>envelope.
     eff_bind (c_publish ports (PublishDeliberationCompleted
       \<lparr>dce_envelope = envelope, dce_task_id = del_task_id d, dce_specialty = del_specialty d,
        dce_winner_proposal_id = prop_id (ro_proposal winner), dce_winner_score = vo_score (ro_outcome winner),
        dce_num_candidates = u32_of_len (length ranked), dce_duration = duration,
        dce_external_context_bundle_id = map_option bundle_id (task_external_context task)\<rparr>)) (\<lambda>_.
     eff_lift (Inr \<lparr>do_deliberation = d, do_winner_proposal_id = prop_id (ro_proposal winner)\<rparr>))))))))))"

text \<open>
  The first half of a run, up to the deliberation in its scoring phase; the second half ranks,
  stores and publishes it.
\<close>

definition deliberate_to_scoring ::
    "('w, 'a) council_ports \<Rightarrow> 'w observer \<Rightarrow> task \<Rightarrow> ('w, deliberation) effect" where
  "deliberate_to_scoring ports observer task =
     eff_bind (eff_get (c_now ports)) (\<lambda>started_at.
     eff_bind (c_council ports (task_specialty task)) (\<lambda>council.
     eff_bind (resolve_agents ports council (task_constraints_of task)) (\<lambda>agents.
     if agents = [] then eff_lift (Inl (EmptyCollection ''deliberation.agents''))
     else
       let d0 = Deliberation_start (task_id task) (task_specialty task) (tc_rounds (task_constraints_of task)) started_at in
       eff_bind (eff_do (observer (del_task_id d0) (del_phase d0) started_at)) (\<lambda>_.
       eff_bind (seed_proposals ports d0 agents task) (\<lambda>(d1, ids).
       eff_bind (advance_with_observer ports observer d1) (\<lambda>d2.
       eff_bind (run_peer_review_rounds ports d2 agents ids (task_constraints_of task)) (\<lambda>d3.
       eff_bind (advance_with_observer ports observer d3) (\<lambda>d4.
       eff_bind (attach_validations ports d4 (task_constraints_of task)) (\<lambda>d5.
       advance_with_observer ports observer d5)))))))))"

definition DeliberateUseCase_execute_with_observer ::
    "('w, 'a) council_ports \<Rightarrow> 'w observer \<Rightarrow> task \<Rightarrow> ('w, deliberate_output) effect" where
  "DeliberateUseCase_execute_with_observer ports observer task =
     eff_bind (deliberate_to_scoring ports observer task) (\<lambda>d6.
     eff_bind (eff_get (c_now ports)) (\<lambda>completed_at.
     eff_bind (eff_lift (Deliberation_complete d6 completed_at)) (\<lambda>(d7, ranked).
     let discr = c_discrimination ports ranked in
     eff_bind (eff_do (observer (del_task_id d7) (del_phase d7) completed_at)) (\<lambda>_.
     eff_bind (if tc_output_contract (task_constraints_of task) \<noteq> None
       then eff_lift (prioritize_valid_outputs d7 ranked) else eff_lift (Inr (d7, ranked))) (\<lambda>(d8, ranked').
     finalize ports d8 ranked' task completed_at discr)))))"

definition DeliberateUseCase_execute ::
    "('w, 'a) council_ports \<Rightarrow> task \<Rightarrow> ('w, deliberate_output) effect" where
  "DeliberateUseCase_execute ports task = DeliberateUseCase_execute_with_observer ports NullObserver task"

section \<open>Seeding and reviewing\<close>

lemma mset_bt_insert_new: "k \<notin> fst ` set m \<Longrightarrow> mset (bt_insert k v m) = add_mset (k, v) (mset m)"
  by (induction k v m rule: bt_insert.induct) auto

lemma map_bt_insert_same:
  "bt_wf m \<Longrightarrow> bt_get m k = Some v \<Longrightarrow> f v' = f v \<Longrightarrow> map (\<lambda>(k, v). (k, f v)) (bt_insert k v' m) = map (\<lambda>(k, v). (k, f v)) m"
proof (induction k v' m rule: bt_insert.induct)
  case (2 k v' l u m)
  have "\<not> k < l" if "k \<noteq> l"
    using 2 that bt_get_Some_key [of m k] by (auto dest: less_asym)
  then show ?case using 2 by (auto split: if_splits)
qed simp

text \<open>Who wrote what, and how often each proposal was revised.\<close>

definition authors :: "deliberation \<Rightarrow> rstr list" where
  "authors d = map prop_author (bt_values (del_proposals d))"

definition revisions :: "deliberation \<Rightarrow> rstr \<Rightarrow> 32 word option" where
  "revisions d pid = map_option prop_revision_count (bt_get (del_proposals d) pid)"

text \<open>The identity of a deliberation: what none of its operations changes.\<close>

definition del_identity :: "deliberation \<Rightarrow> rstr \<times> rstr \<times> 32 word \<times> timestamp" where
  "del_identity d = (del_task_id d, del_specialty d, del_rounds_budget d, del_started_at d)"

lemma seed_proposal_facts:
  assumes "seed_proposal ports task now a d w = (Inr (d', pid), w')" and "deliberation_wf d"
  shows "deliberation_step d d'" and "del_phase d' = Proposing" and "del_identity d' = del_identity d"
    and "mset (authors d') = add_mset (c_agent_id ports a) (mset (authors d))"
    and "pid \<notin> set (bt_keys (del_proposals d))"
    and "set (bt_keys (del_proposals d')) = insert pid (set (bt_keys (del_proposals d)))"
    and "revisions d' = (revisions d)(pid \<mapsto> 0)"
proof -
  from assms(1) obtain content p where p: "Proposal_new pid (c_agent_id ports a) (task_specialty task) content
      (task_attributes task) now = Inr p" and add: "Deliberation_add_proposal d p = Inr d'"
    by (auto simp: seed_proposal_def eff_bind_Inr result_simps)
  show "deliberation_step d d'" by (rule propose [OF p add])
  have id: "prop_id p = pid" "prop_author p = c_agent_id ports a" "prop_revision_count p = 0"
    using p by (auto simp: Proposal_new_def split: if_splits)
  from add have d': "del_phase d = Proposing" "pid \<notin> fst ` set (del_proposals d)"
      "d' = d\<lparr>del_proposals := bt_insert pid p (del_proposals d)\<rparr>"
    by (auto simp: Deliberation_add_proposal_def result_simps bt_contains_iff id split: if_splits)
  show "del_phase d' = Proposing" "del_identity d' = del_identity d"
      "pid \<notin> set (bt_keys (del_proposals d))"
      "set (bt_keys (del_proposals d')) = insert pid (set (bt_keys (del_proposals d)))"
      "revisions d' = (revisions d)(pid \<mapsto> 0)"
    using d' by (auto simp: del_identity_def revisions_def id fun_eq_iff)
  show "mset (authors d') = add_mset (c_agent_id ports a) (mset (authors d))"
    using d'(2) by (simp add: authors_def d'(3) mset_bt_insert_new id)
qed

lemma seed_loop_facts:
  assumes "seed_loop ports task now as d w = (Inr (d', pids), w')" and "deliberation_reachable d"
    and "del_phase d = Proposing"
  shows "deliberation_reachable d' \<and> del_phase d' = Proposing \<and> del_identity d' = del_identity d \<and>
    mset (authors d') = mset (map (c_agent_id ports) as) + mset (authors d) \<and>
    length pids = length as \<and> distinct pids \<and> set pids \<inter> set (bt_keys (del_proposals d)) = {} \<and>
    set (bt_keys (del_proposals d')) = set pids \<union> set (bt_keys (del_proposals d)) \<and>
    (\<forall>pid. revisions d' pid = (if pid \<in> set pids then Some 0 else revisions d pid))"
  using assms
proof (induction as arbitrary: d pids w)
  case Nil
  then show ?case by simp
next
  case (Cons a as)
  from Cons.prems(1) obtain d1 pid w1 rest where one: "seed_proposal ports task now a d w = (Inr (d1, pid), w1)"
    and more: "seed_loop ports task now as d1 w1 = (Inr (d', rest), w')" and pids: "pids = pid # rest"
    by (auto simp: eff_bind_Inr)
  note f = seed_proposal_facts [OF one reachable_deliberation_wf [OF Cons.prems(2)]]
  from Cons.IH [OF more deliberation_reachable.stepped [OF Cons.prems(2) f(1)] f(2)] f(3-7)
  show ?case by (auto simp: pids)
qed

lemma peer_review_facts:
  assumes "peer_review ports c a peer d w = (Inr d', w')" and "deliberation_reachable d"
  shows "deliberation_reachable d'" and "del_phase d = Revising" and "del_phase d' = Revising"
    and "del_identity d' = del_identity d" and "authors d' = authors d"
    and "bt_keys (del_proposals d') = bt_keys (del_proposals d)"
    and "revisions d' = (revisions d)(peer := map_option sat_succ (revisions d peer))"
proof -
  from assms(1) obtain content now where rev: "Deliberation_revise_proposal d peer content now = Inr d'"
    by (auto simp: peer_review_def eff_bind_Inr)
  show "deliberation_reachable d'" by (rule deliberation_reachable.stepped [OF assms(2) revise [OF rev]])
  from rev obtain p p' where p: "bt_get (del_proposals d) peer = Some p" "Proposal_revise p content now = Inr p'"
    and d': "del_phase d = Revising" "d' = d\<lparr>del_proposals := bt_insert peer p' (del_proposals d)\<rparr>"
    by (auto simp: Deliberation_revise_proposal_def result_simps)
  have p': "prop_author p' = prop_author p" "prop_revision_count p' = sat_succ (prop_revision_count p)"
    using p(2) by (auto simp: Proposal_revise_def split: if_splits)
  have wf: "bt_wf (del_proposals d)" using reachable_deliberation_wf [OF assms(2)] by (simp add: deliberation_wf_def)
  have "map snd (map (\<lambda>(k, v). (k, prop_author v)) (bt_insert peer p' (del_proposals d))) =
      map snd (map (\<lambda>(k, v). (k, prop_author v)) (del_proposals d))"
    by (simp only: map_bt_insert_same [OF wf p(1), of prop_author, OF p'(1)])
  then show "authors d' = authors d" by (simp add: authors_def d' o_def case_prod_unfold)
  show "bt_keys (del_proposals d') = bt_keys (del_proposals d)"
    using wf bt_get_Some_key [OF p(1)] by (simp add: d' bt_keys_insert_existing)
  show "del_phase d = Revising" "del_phase d' = Revising" "del_identity d' = del_identity d"
    "revisions d' = (revisions d)(peer := map_option sat_succ (revisions d peer))"
    using d' p(1) p'(2) by (auto simp: del_identity_def revisions_def fun_eq_iff)
qed

text \<open>What a review keeps: everything but the contents and their revision counts.\<close>

definition reviewed_from :: "deliberation \<Rightarrow> deliberation \<Rightarrow> bool" where
  "reviewed_from d d' =
     (deliberation_reachable d' \<and> del_phase d' = del_phase d \<and> del_identity d' = del_identity d \<and>
      authors d' = authors d \<and> bt_keys (del_proposals d') = bt_keys (del_proposals d))"

lemma review_pass_facts:
  assumes "review_pass ports c pairs d w = (Inr d', w')" and "deliberation_reachable d"
    and "distinct (map snd pairs)"
  shows "reviewed_from d d' \<and>
    (\<forall>pid. revisions d' pid = (if pid \<in> set (map snd pairs) then map_option sat_succ (revisions d pid) else revisions d pid))"
  using assms
proof (induction pairs arbitrary: d w)
  case Nil
  then show ?case by (simp add: reviewed_from_def)
next
  case (Cons x pairs)
  obtain a peer where x: "x = (a, peer)" by (cases x)
  from Cons.prems(1) obtain d1 w1 where one: "peer_review ports c a peer d w = (Inr d1, w1)"
    and more: "review_pass ports c pairs d1 w1 = (Inr d', w')" by (auto simp: x eff_bind_Inr)
  note f = peer_review_facts [OF one Cons.prems(2)]
  have "distinct (map snd pairs)" "peer \<notin> set (map snd pairs)" using Cons.prems(3) by (auto simp: x)
  with Cons.IH [OF more f(1)] f(2-7) show ?case by (auto simp: x reviewed_from_def)
qed

lemma review_rounds_facts:
  assumes "review_rounds ports c pairs n d w = (Inr d', w')" and "deliberation_reachable d"
    and "distinct (map snd pairs)" and "set (map snd pairs) = set (bt_keys (del_proposals d))"
  shows "reviewed_from d d' \<and> (\<forall>pid. revisions d' pid = map_option (sat_succ ^^ n) (revisions d pid))"
  using assms
proof (induction n arbitrary: d w)
  case 0
  then show ?case by (simp add: reviewed_from_def option.map_id [unfolded id_def])
next
  case (Suc n)
  from Suc.prems(1) obtain d1 w1 where one: "review_pass ports c pairs d w = (Inr d1, w1)"
    and more: "review_rounds ports c pairs n d1 w1 = (Inr d', w')" by (auto simp: eff_bind_Inr)
  have f: "reviewed_from d d1" "\<forall>pid. revisions d1 pid = (if pid \<in> set (map snd pairs)
      then map_option sat_succ (revisions d pid) else revisions d pid)"
    using review_pass_facts [OF one Suc.prems(2,3)] by blast+
  have "revisions d1 pid = map_option sat_succ (revisions d pid)" for pid
  proof (cases "pid \<in> set (map snd pairs)")
    case True
    then show ?thesis using f(2) by simp
  next
    case False
    then have "bt_get (del_proposals d) pid = None" using Suc.prems(4) by (simp add: map_of_eq_None_iff)
    then show ?thesis using f(2) False by (simp add: revisions_def)
  qed
  moreover have "reviewed_from d1 d' \<and> (\<forall>pid. revisions d' pid = map_option (sat_succ ^^ n) (revisions d1 pid))"
    by (rule Suc.IH [OF more _ Suc.prems(3)]) (use f(1) Suc.prems(4) in \<open>simp_all only: reviewed_from_def\<close>)
  ultimately show ?case
    using f(1) by (auto simp: reviewed_from_def option.map_comp o_def funpow_swap1)
qed

lemma snd_review_pairs: "length ids = length agents \<Longrightarrow> map snd (review_pairs agents ids) = rotate1 ids"
  by (rule nth_equalityI) (simp_all add: review_pairs_def nth_enumerate_eq nth_rotate1)

lemma sat_succ_funpow: "n < 2 ^ 32 \<Longrightarrow> (sat_succ ^^ n) (0 :: 32 word) = word_of_nat n"
proof (induction n)
  case 0
  then show ?case by simp
next
  case (Suc n)
  have "unat (word_of_nat n :: 32 word) = n" using Suc.prems by (simp add: unat_of_nat)
  then have "unat (word_of_nat n :: 32 word) \<noteq> unat (- 1 :: 32 word)" using Suc.prems by (simp add: unat_minus_1)
  then have "(word_of_nat n :: 32 word) \<noteq> - 1" by metis
  then show ?case using Suc by (simp add: sat_succ_def)
qed

text \<open>The rounds: with at least two agents every proposal is revised once per round.\<close>

lemma review_facts:
  assumes "run_peer_review_rounds ports d agents ids c w = (Inr d', w')" and "deliberation_reachable d"
    and "distinct ids" and "set ids = set (bt_keys (del_proposals d))"
    and "\<forall>pid \<in> set ids. revisions d pid = Some 0"
  shows "reviewed_from d d'"
    and "\<forall>pid \<in> set ids. revisions d' pid = Some (if length agents < 2 then 0 else tc_rounds c)"
proof -
  have "reviewed_from d d' \<and>
      (\<forall>pid \<in> set ids. revisions d' pid = Some (if length agents < 2 then 0 else tc_rounds c))"
  proof (cases "tc_rounds c = 0 \<or> length agents < 2")
    case True
    then show ?thesis using assms by (auto simp: run_peer_review_rounds_def reviewed_from_def)
  next
    case False
    with assms(1) have len: "length ids = length agents"
      and run: "review_rounds ports c (review_pairs agents ids) (unat (tc_rounds c)) d w = (Inr d', w')"
      by (auto simp: run_peer_review_rounds_def split: if_splits)
    have "reviewed_from d d' \<and> (\<forall>pid. revisions d' pid = map_option (sat_succ ^^ unat (tc_rounds c)) (revisions d pid))"
      by (rule review_rounds_facts [OF run assms(2)]) (simp_all add: snd_review_pairs [OF len] assms(3,4))
    moreover have "(sat_succ ^^ unat (tc_rounds c)) 0 = tc_rounds c"
      using sat_succ_funpow [of "unat (tc_rounds c)"] unsigned_less [of "tc_rounds c"] by simp
    ultimately show ?thesis using assms(5) False by auto
  qed
  then show "reviewed_from d d'"
    "\<forall>pid \<in> set ids. revisions d' pid = Some (if length agents < 2 then 0 else tc_rounds c)" by simp_all
qed

section \<open>The ranking and its head\<close>

lemma mset_map_member:
  assumes "mset (map f xs) = mset (map f ys)" and "x \<in> set xs"
  obtains y where "y \<in> set ys" and "f y = f x"
proof -
  have "f x \<in> set (map f ys)" using mset_eq_setD [OF assms(1)] assms(2) by (metis imageI list.set_map)
  then show thesis using that by auto
qed

lemma ranked_pairs_distinct:
  fixes R :: "ranked_outcome list"
  assumes wf: "deliberation_wf d" and c: "Deliberation_complete d now = Inr (d', ranked)"
    and perm: "mset (map (\<lambda>r. (ro_proposal r, ro_outcome r)) R) = mset (map (\<lambda>r. (ro_proposal r, ro_outcome r)) ranked)"
  shows "distinct (map ro_proposal R)"
proof -
  let ?f = "\<lambda>r. (ro_proposal r, ro_outcome r)"
  note facts = completed_facts [OF wf c]
  have "distinct (map ?f ranked)"
    using facts(1) by (induction ranked) (auto simp: ranks_before_def)
  then have dist: "distinct (map ?f R)" using mset_eq_imp_distinct_iff [OF perm] by simp
  have outcome: "bt_get (del_outcomes d) (prop_id (ro_proposal r)) = Some (ro_outcome r)" if "r \<in> set R" for r
  proof -
    from mset_map_member [OF perm that] obtain q where q: "q \<in> set ranked" "?f q = ?f r" .
    then obtain i where i: "i < length ranked" "ranked ! i = q" by (auto simp: in_set_conv_nth)
    with facts(4) obtain pid where "bt_get (del_proposals d) pid = Some (ro_proposal q)"
      "bt_get (del_outcomes d) pid = Some (ro_outcome q)" by blast
    with wf q(2) show ?thesis by (auto simp: deliberation_wf_def)
  qed
  have "inj_on ro_proposal (set R)"
  proof (rule inj_onI)
    fix a b assume ab: "a \<in> set R" "b \<in> set R" "ro_proposal a = ro_proposal b"
    with outcome have "?f a = ?f b" by (metis option.inject)
    with dist ab show "a = b" by (auto simp: distinct_map inj_on_def)
  qed
  with dist show ?thesis by (simp add: distinct_map)
qed

text \<open>The head of the returned order, and when there is none to choose.\<close>

definition decided :: "task_constraints \<Rightarrow> ranked_outcome list \<Rightarrow> bool" where
  "decided c ranked =
     (case pick_winner ranked c of
        Inr winner \<Rightarrow> ranked \<noteq> [] \<and> hd ranked = winner \<and>
          (\<forall>r \<in> set (tl ranked). ranks_before winner r \<or>
             tc_output_contract c \<noteq> None \<and> \<not> ValidationOutcome_all_passed (ro_outcome r)) \<and>
          (tc_output_contract c \<noteq> None \<longrightarrow> ValidationOutcome_all_passed (ro_outcome winner))
      | Inl e \<Rightarrow> ranked \<noteq> [] \<and> (\<forall>r \<in> set ranked. \<not> ValidationOutcome_all_passed (ro_outcome r)) \<and>
          (\<exists>contract. tc_output_contract c = Some contract \<and> e = NoValidProposal (oc_contract_id contract)))"

lemma decided_without_contract:
  assumes "tc_output_contract c = None" and "sorted_wrt ranks_before ranked" and "ranked \<noteq> []"
  shows "decided c ranked"
  using assms by (cases ranked) (auto simp: decided_def pick_winner_def)

lemma decided_with_contract:
  assumes reach: "deliberation_reachable d" and complete: "Deliberation_complete d now = Inr (d1, ranked)"
    and contract: "tc_output_contract c = Some contract" and pr: "prioritize_valid_outputs d1 ranked = Inr (d2, R)"
  shows "decided c R" and "d2 = d1\<lparr>del_ranking := del_ranking d2\<rparr>" and "Deliberation_ranked_outcomes d2 = Inr R"
proof -
  let ?f = "\<lambda>r. (ro_proposal r, ro_outcome r)" and ?ok = "\<lambda>r. ValidationOutcome_all_passed (ro_outcome r)"
  note wf = reachable_deliberation_wf [OF reach]
  from prioritize_pick [OF reach complete contract]
  have "d2 = d1\<lparr>del_ranking := del_ranking d2\<rparr> \<and> Deliberation_ranked_outcomes d2 = Inr R \<and>
    mset (map ?f R) = mset (map ?f ranked) \<and>
    (if \<exists>r \<in> set ranked. ?ok r
     then \<exists>w rest. R = w # rest \<and> pick_winner R c = Inr w \<and> ?ok w \<and>
       (\<forall>r \<in> set ranked. ?ok r \<longrightarrow> ro_proposal r = ro_proposal w \<or> ranks_before w r)
     else pick_winner R c = Inl (NoValidProposal (oc_contract_id contract)))"
    by (elim exE conjE) (simp only: pr sum.inject prod.inject simp_thms)
  then have d2: "d2 = d1\<lparr>del_ranking := del_ranking d2\<rparr>" "Deliberation_ranked_outcomes d2 = Inr R"
    and perm: "mset (map ?f R) = mset (map ?f ranked)"
    and chosen: "if \<exists>r \<in> set ranked. ?ok r
     then \<exists>w rest. R = w # rest \<and> pick_winner R c = Inr w \<and> ?ok w \<and>
       (\<forall>r \<in> set ranked. ?ok r \<longrightarrow> ro_proposal r = ro_proposal w \<or> ranks_before w r)
     else pick_winner R c = Inl (NoValidProposal (oc_contract_id contract))" by blast+
  show "d2 = d1\<lparr>del_ranking := del_ranking d2\<rparr>" "Deliberation_ranked_outcomes d2 = Inr R" by (rule d2)+
  note dist = ranked_pairs_distinct [OF wf complete perm]
  have "length R = length ranked" using mset_eq_length [OF perm] by simp
  moreover have "del_proposals d \<noteq> []"
    using wf complete by (auto simp: deliberation_wf_def Deliberation_complete_def result_simps)
  ultimately have ne: "R \<noteq> []" using completed_facts(2) [OF wf complete] by auto
  show "decided c R"
  proof (cases "\<exists>r \<in> set ranked. ?ok r")
    case False
    have "\<not> ?ok r" if "r \<in> set R" for r
    proof -
      from mset_map_member [OF perm that] obtain q where "q \<in> set ranked" "?f q = ?f r" .
      with False show ?thesis by auto
    qed
    moreover have "pick_winner R c = Inl (NoValidProposal (oc_contract_id contract))" using chosen False by auto
    ultimately show ?thesis using contract ne by (simp add: decided_def)
  next
    case True
    with chosen obtain w rest where R: "R = w # rest" "pick_winner R c = Inr w" "?ok w"
      and best: "\<forall>r \<in> set ranked. ?ok r \<longrightarrow> ro_proposal r = ro_proposal w \<or> ranks_before w r" by auto
    have "ranks_before w r \<or> \<not> ?ok r" if "r \<in> set rest" for r
    proof -
      have "r \<in> set R" using that R(1) by simp
      from mset_map_member [OF perm this] obtain q where q: "q \<in> set ranked" "?f q = ?f r" .
      have "ro_proposal r \<noteq> ro_proposal w" using dist that R(1) by (metis distinct.simps(2) image_eqI list.set_map list.simps(9))
      with best q show ?thesis by (auto simp: ranks_before_def)
    qed
    then show ?thesis using R contract by (simp add: decided_def)
  qed
qed

section \<open>What a deliberation relies on\<close>

text \<open>
  The environment of the task \<open>tid\<close>: scores come from their constructor, in a sane registry an
  agent carries the id it is registered under, what is saved is stored, and nobody else stores a
  deliberation of this task before the run has ended.
\<close>

locale council_environment =
  fixes ports :: "('w, 'a) council_ports"
    and stored :: "'w \<Rightarrow> deliberation option"
    and tid :: rstr
    and sane :: "'w \<Rightarrow> bool"
  assumes scores: "c_score ports rs w = (Inr s, w') \<Longrightarrow> \<exists>v. Score_new v = Inr s"
    and resolves: "c_resolve ports i w = (Inr a, w') \<Longrightarrow> sane w \<Longrightarrow> c_agent_id ports a = i \<and> sane w'"
    and council_sane: "c_council ports sp w = (Inr council, w') \<Longrightarrow> sane w \<Longrightarrow> sane w'"
    and saves: "c_save ports d w = (Inr u, w') \<Longrightarrow> del_task_id d = tid \<Longrightarrow> stored w' = Some d"
    and record_keeps: "c_record_deliberation ports sp dur w = (r1, w') \<Longrightarrow> stored w' = stored w"
    and metric_keeps: "stored (c_metric ports m w) = stored w"
    and uuid_keeps: "c_uuid ports w = (r2, w') \<Longrightarrow> stored w' = stored w"
    and publish_keeps: "c_publish ports msg w = (r3, w') \<Longrightarrow> stored w' = stored w"

text \<open>The agents a council seats for a task: the first ones, in the order of their ids.\<close>

definition seated :: "council \<Rightarrow> task_constraints \<Rightarrow> rstr list" where
  "seated council c =
     (case tc_num_agents c of None \<Rightarrow> council_agents council | Some n \<Rightarrow> take (unat n) (council_agents council))"

lemma advance_facts:
  assumes "advance_with_observer ports observer d w = (Inr d', w')" and "deliberation_reachable d" and "del_phase d \<noteq> Scoring"
  shows "deliberation_reachable d'" and "DeliberationPhase_next (del_phase d) = Some (del_phase d')"
    and "d' = d\<lparr>del_phase := del_phase d'\<rparr>"
proof -
  have adv: "Deliberation_advance d = Inr d'" using assms(1) by (auto simp: advance_with_observer_def eff_bind_Inr)
  show "deliberation_reachable d'"
    by (rule deliberation_reachable.stepped [OF assms(2) deliberation_step.advance [OF assms(3) adv]])
  show "DeliberationPhase_next (del_phase d) = Some (del_phase d')" "d' = d\<lparr>del_phase := del_phase d'\<rparr>"
    using adv by (auto simp: Deliberation_advance_def result_simps split: if_splits)
qed

text \<open>Every outcome holds what the validators reported on the content its proposal has.\<close>

definition fully_reported :: "('w, 'a) council_ports \<Rightarrow> task_constraints \<Rightarrow> deliberation \<Rightarrow> bool" where
  "fully_reported ports c d =
     (\<forall>pid v. bt_get (del_outcomes d) pid = Some v \<longrightarrow>
        (\<exists>p w w'. bt_get (del_proposals d) pid = Some p \<and>
           run_validators (c_validators ports) (prop_content p) c w = (Inr (vo_reports v), w')))"

text \<open>
  What a run has built when it reaches the scoring phase: one proposal per seat, each revised
  once per round, and the reports of all validators on each.
\<close>

definition deliberated :: "('w, 'a) council_ports \<Rightarrow> task \<Rightarrow> rstr list \<Rightarrow> deliberation \<Rightarrow> bool" where
  "deliberated ports task seats d =
     (deliberation_reachable d \<and> del_task_id d = task_id task \<and> del_specialty d = task_specialty task \<and>
      mset (authors d) = mset seats \<and> seats \<noteq> [] \<and>
      (\<forall>pid p. bt_get (del_proposals d) pid = Some p \<longrightarrow>
         prop_revision_count p = (if length seats < 2 then 0 else tc_rounds (task_constraints_of task))) \<and>
      fully_reported ports (task_constraints_of task) d)"

lemma completed_run:
  assumes del: "deliberated ports task seats d" and complete: "Deliberation_complete d now = Inr (d1, ranked)"
    and order: "(if tc_output_contract (task_constraints_of task) \<noteq> None then prioritize_valid_outputs d1 ranked
      else Inr (d1, ranked)) = Inr (d2, R)"
  shows "deliberated ports task seats d2" and "del_phase d2 = Completed_phase"
    and "Deliberation_ranked_outcomes d2 = Inr R" and "decided (task_constraints_of task) R"
proof -
  have reach: "deliberation_reachable d" using del by (simp add: deliberated_def)
  note wf = reachable_deliberation_wf [OF reach]
  note facts = completed_facts [OF wf complete]
  have reach1: "deliberation_reachable d1"
    by (rule deliberation_reachable.stepped [OF reach deliberation_step.complete [OF complete]])
  have "del_proposals d \<noteq> []"
    using wf complete by (auto simp: deliberation_wf_def Deliberation_complete_def result_simps)
  then have ne: "ranked \<noteq> []" using facts(2) by auto
  have all: "deliberation_reachable d2 \<and> d2 = d1\<lparr>del_ranking := del_ranking d2\<rparr> \<and>
      Deliberation_ranked_outcomes d2 = Inr R \<and> decided (task_constraints_of task) R"
  proof (cases "tc_output_contract (task_constraints_of task)")
    case None
    then show ?thesis using order facts(1,3) reach1 ne decided_without_contract [OF None] by auto
  next
    case (Some contract)
    then have pr: "prioritize_valid_outputs d1 ranked = Inr (d2, R)" using order by simp
    then have "deliberation_reachable d2"
      unfolding prioritize_valid_outputs_def by (rule deliberation_reachable.stepped [OF reach1 deliberation_step.reprioritize])
    then show ?thesis using decided_with_contract [OF reach complete Some pr] by blast
  qed
  then show "Deliberation_ranked_outcomes d2 = Inr R" "decided (task_constraints_of task) R" by simp_all
  have d2: "d2 = d\<lparr>del_ranking := del_ranking d2, del_phase := Completed_phase, del_completed_at := Some now\<rparr>"
    using all facts(5) by (metis (no_types, lifting) deliberation.surjective deliberation.update_convs(4,7,9))
  show "del_phase d2 = Completed_phase" by (subst d2) simp
  have "del_proposals d2 = del_proposals d" "del_outcomes d2 = del_outcomes d" "del_task_id d2 = del_task_id d"
    "del_specialty d2 = del_specialty d" by (subst d2, simp)+
  with del all show "deliberated ports task seats d2"
    by (simp add: deliberated_def authors_def fully_reported_def)
qed

context council_environment
begin

lemma resolve_all_ids: "resolve_all ports ids w = (Inr as, w') \<Longrightarrow> sane w \<Longrightarrow> map (c_agent_id ports) as = ids"
  by (induction ids arbitrary: as w) (auto simp: eff_bind_Inr dest: resolves)

lemma resolve_agents_ids:
  "resolve_agents ports council c w = (Inr as, w') \<Longrightarrow> sane w \<Longrightarrow> map (c_agent_id ports) as = seated council c"
  by (auto simp: resolve_agents_def seated_def Let_def split: option.splits if_splits dest!: resolve_all_ids)

lemma attach_validation_facts:
  assumes "attach_validation ports c pid d w = (Inr d', w')" and "deliberation_reachable d"
    and "fully_reported ports c d"
  shows "deliberation_reachable d'" and "del_phase d' = Validating \<and> del_phase d = Validating"
    and "d' = d\<lparr>del_outcomes := del_outcomes d'\<rparr>" and "fully_reported ports c d'"
proof -
  from assms(1) obtain p rs s w1 w2 w3 where
      rs: "bt_get (del_proposals d) pid = Some p" "run_validators (c_validators ports) (prop_content p) c w1 = (Inr rs, w2)"
    and s: "c_score ports rs w2 = (Inr s, w3)"
    and att: "Deliberation_attach_outcome d pid \<lparr>vo_score = s, vo_reports = rs\<rparr> = Inr d'"
    by (auto simp: attach_validation_def eff_bind_Inr result_simps)
  from scores [OF s] obtain v where v: "Score_new v = Inr s" by blast
  show "deliberation_reachable d'"
    by (rule deliberation_reachable.stepped [OF assms(2) deliberation_step.attach [OF v att]])
  have d': "d' = d\<lparr>del_outcomes := bt_insert pid \<lparr>vo_score = s, vo_reports = rs\<rparr> (del_outcomes d)\<rparr>" "del_phase d = Validating"
    using att by (auto simp: Deliberation_attach_outcome_def result_simps split: if_splits)
  then show "del_phase d' = Validating \<and> del_phase d = Validating" "d' = d\<lparr>del_outcomes := del_outcomes d'\<rparr>"
    "fully_reported ports c d'"
    using assms(3) rs by (auto simp: fully_reported_def)
qed

lemma attach_loop_facts:
  assumes "attach_loop ports c pids d w = (Inr d', w')" and "deliberation_reachable d"
    and "fully_reported ports c d"
  shows "deliberation_reachable d' \<and> del_phase d' = del_phase d \<and> d' = d\<lparr>del_outcomes := del_outcomes d'\<rparr> \<and>
    fully_reported ports c d'"
  using assms
proof (induction pids arbitrary: d w)
  case Nil
  then show ?case by simp
next
  case (Cons pid pids)
  from Cons.prems(1) obtain d1 w1 where one: "attach_validation ports c pid d w = (Inr d1, w1)"
    and more: "attach_loop ports c pids d1 w1 = (Inr d', w')" by (auto simp: eff_bind_Inr)
  note f = attach_validation_facts [OF one Cons.prems(2,3)]
  have "d' = d1\<lparr>del_outcomes := del_outcomes d'\<rparr>" "deliberation_reachable d'" "del_phase d' = del_phase d1"
    "fully_reported ports c d'" using Cons.IH [OF more f(1,4)] by blast+
  moreover from this(1) f(3) have "d' = d\<lparr>del_outcomes := del_outcomes d'\<rparr>"
    by (metis deliberation.surjective deliberation.update_convs(6))
  ultimately show ?case using f(2) by simp
qed

lemma to_scoring_facts:
  assumes "deliberate_to_scoring ports observer task w = (Inr d, w')" and "sane w"
  obtains council w0 where "c_council ports (task_specialty task) w = (Inr council, w0)"
    and "deliberated ports task (seated council (task_constraints_of task)) d" and "del_phase d = Scoring"
proof -
  let ?c = "task_constraints_of task" 
  from assms(1) obtain council w0 agents d1 ids d2 d3 d4 d5 w1 w2 w3 w4 w5 w6 w7 now where
      council: "c_council ports (task_specialty task) w = (Inr council, w0)"
    and agents: "resolve_agents ports council ?c w0 = (Inr agents, w1)" "agents \<noteq> []"
    and seeds: "seed_loop ports task now agents (Deliberation_start (task_id task) (task_specialty task)
      (tc_rounds ?c) (c_now ports w)) w2 = (Inr (d1, ids), w3)"
    and a1: "advance_with_observer ports observer d1 w3 = (Inr d2, w4)"
    and rev: "run_peer_review_rounds ports d2 agents ids ?c w4 = (Inr d3, w5)"
    and a2: "advance_with_observer ports observer d3 w5 = (Inr d4, w6)"
    and att: "attach_loop ports ?c (bt_keys (del_proposals d4)) d4 w6 = (Inr d5, w7)"
    and a3: "advance_with_observer ports observer d5 w7 = (Inr d, w')"
    by (auto simp: deliberate_to_scoring_def eff_bind_Inr Let_def seed_proposals_def attach_validations_def
        split: if_splits)
  have ids_agents: "map (c_agent_id ports) agents = seated council ?c" 
    by (rule resolve_agents_ids [OF agents(1) council_sane [OF council assms(2)]])
  have s: "deliberation_reachable d1 \<and> del_phase d1 = Proposing \<and>
      del_identity d1 = (task_id task, task_specialty task, tc_rounds ?c, c_now ports w) \<and>
      mset (authors d1) = mset (map (c_agent_id ports) agents) \<and> distinct ids \<and>
      set (bt_keys (del_proposals d1)) = set ids \<and> (\<forall>pid \<in> set ids. revisions d1 pid = Some 0)"
    using seed_loop_facts [OF seeds deliberation_reachable.started]
    by (simp add: Deliberation_start_def del_identity_def authors_def)
  have d2: "deliberation_reachable d2" "d2 = d1\<lparr>del_phase := Revising\<rparr>"
    using advance_facts [OF a1] s by auto
  have r: "reviewed_from d2 d3" "\<forall>pid \<in> set ids. revisions d3 pid = Some (if length agents < 2 then 0 else tc_rounds ?c)"
    by (rule review_facts [OF rev d2(1)]; use s in \<open>simp add: d2(2) revisions_def\<close>)+
  then have d3: "deliberation_reachable d3" "del_phase d3 = Revising" by (simp_all add: reviewed_from_def d2)
  have d4: "deliberation_reachable d4" "d4 = d3\<lparr>del_phase := Validating\<rparr>"
    using advance_facts [OF a2 d3(1)] d3(2) by auto
  have "del_outcomes d4 = []"
    using reachable_deliberation_wf [OF d3(1)] d3(2) by (simp add: d4(2) deliberation_wf_def)
  then have "fully_reported ports ?c d4" by (simp add: fully_reported_def)
  from attach_loop_facts [OF att d4(1) this] have d5: "deliberation_reachable d5" "del_phase d5 = Validating"
      "d5 = d4\<lparr>del_outcomes := del_outcomes d5\<rparr>" "fully_reported ports ?c d5" using d4(2) by simp_all
  have d6: "deliberation_reachable d" "d = d5\<lparr>del_phase := Scoring\<rparr>"
    using advance_facts [OF a3 d5(1)] d5(2) by auto
  have props: "del_proposals d = del_proposals d3" "del_identity d = del_identity d3" "del_outcomes d = del_outcomes d5"
    using arg_cong [OF d5(3), of del_proposals] arg_cong [OF d5(3), of del_identity]
    by (simp_all add: d6(2) d4(2) del_identity_def)
  have "prop_revision_count p = (if length agents < 2 then 0 else tc_rounds ?c)"
    if "bt_get (del_proposals d) pid = Some p" for pid p
  proof -
    have keys: "set (bt_keys (del_proposals d3)) = set ids" using r(1) s d2(2) by (simp add: reviewed_from_def)
    have "pid \<in> set ids" using keys bt_get_Some_key [OF that] props(1) by auto
    with r(2) have "revisions d3 pid = Some (if length agents < 2 then 0 else tc_rounds ?c)" by blast
    with that show ?thesis by (simp add: revisions_def props(1))
  qed
  moreover have "length (seated council ?c) = length agents" using ids_agents by (metis length_map)
  moreover have "authors d = authors d3" by (simp add: authors_def props(1))
  then have "mset (authors d) = mset (seated council ?c)"
    using r(1) s ids_agents by (simp add: reviewed_from_def d2(2)) (simp add: authors_def)
  moreover have "del_identity d = del_identity d1" using props(2) r(1) d2(2) by (simp add: reviewed_from_def del_identity_def)
  then have "del_task_id d = task_id task" "del_specialty d = task_specialty task" using s by (simp_all add: del_identity_def)
  moreover have "fully_reported ports ?c d" using d5(4) by (simp add: fully_reported_def d6(2))
  moreover have "seated council ?c \<noteq> []" using agents(2) ids_agents by auto
  ultimately have "deliberated ports task (seated council ?c) d" using d6(1) by (auto simp: deliberated_def)
  with council show thesis by (rule that) (simp add: d6(2))
qed

lemma finalize_metrics_keep:
  "(case discr of None \<Rightarrow> eff_lift (Inr ()) | Some r \<Rightarrow> eff_do (c_metric ports (RecordDiscrimination sp r))) w = (r', w') \<Longrightarrow>
     stored w' = stored w"
  by (cases discr) (auto simp: metric_keeps eff_lift_def eff_do_def)

lemma envelope_keeps: "Deliberate_envelope ports src t m w = (r, w') \<Longrightarrow> stored w' = stored w"
  by (auto simp: Deliberate_envelope_def new_event_id_def eff_bind_split eff_lift_def dest: uuid_keeps)

lemma finalize_ok:
  assumes "finalize ports d ranked task t discr w = (Inr out, w')" and "del_task_id d = tid"
  obtains winner where "pick_winner ranked (task_constraints_of task) = Inr winner"
    and "out = \<lparr>do_deliberation = d, do_winner_proposal_id = prop_id (ro_proposal winner)\<rparr>" and "stored w' = Some d"
proof -
  from assms(1) obtain winner where win: "pick_winner ranked (task_constraints_of task) = Inr winner"
    by (cases "pick_winner ranked (task_constraints_of task)")
      (auto simp: finalize_def finalize_winner_def eff_bind_Inr Let_def)
  with assms(1) obtain u w1 dur u1 w2 u2 w3 envelope w4 msg u3 where
      save: "c_save ports d w = (Inr u, w1)" and rec: "c_record_deliberation ports (del_specialty d) dur w1 = (Inr u1, w2)"
    and met: "(case discr of None \<Rightarrow> eff_lift (Inr ()) | Some r \<Rightarrow> eff_do (c_metric ports (RecordDiscrimination (del_specialty d) r)))
      (c_metric ports (ObserveDeliberationDuration (del_specialty d) dur) w2) = (Inr u2, w3)"
    and env: "Deliberate_envelope ports (c_source ports) t (task_metadata_of task)
      (c_metric ports (ObserveWinnerScore (del_specialty d) (vo_score (ro_outcome winner)))
      (c_metric ports (RecordDeliberationOutcome (del_specialty d) Deliberation_Success) w3)) = (Inr envelope, w4)"
    and pub: "c_publish ports msg w4 = (Inr u3, w')"
    and out: "out = \<lparr>do_deliberation = d, do_winner_proposal_id = prop_id (ro_proposal winner)\<rparr>"
    by (auto simp: finalize_def finalize_winner_def eff_bind_Inr Let_def)
  have "stored w' = Some d"
    using saves [OF save assms(2)] record_keeps [OF rec] finalize_metrics_keep [OF met] envelope_keeps [OF env]
      publish_keeps [OF pub] by (simp add: metric_keeps)
  with win out show thesis by (rule that)
qed

text \<open>A run that ends well: what it returns is what is stored, and the winner heads the ranking.\<close>

lemma run_parts:
  assumes "deliberate_to_scoring ports observer task w = (Inr d, w1)" and "sane w" and "task_id task = tid"
    and "DeliberateUseCase_execute_with_observer ports observer task w = (r, w')"
  obtains seats d2 R council w0 w2 discr where "c_council ports (task_specialty task) w = (Inr council, w0)"
    and "seats = seated council (task_constraints_of task)"
    and "deliberated ports task seats d2" and "del_phase d2 = Completed_phase" and "del_task_id d2 = tid"
    and "Deliberation_ranked_outcomes d2 = Inr R" and "decided (task_constraints_of task) R"
    and "finalize ports d2 R task (c_now ports w1) discr w2 = (r, w')"
    and "w2 = observer tid Completed_phase (c_now ports w1) w1"
proof -
  let ?c = "task_constraints_of task"
  obtain council w0 where council: "c_council ports (task_specialty task) w = (Inr council, w0)"
    and del: "deliberated ports task (seated council ?c) d" and ph: "del_phase d = Scoring"
    by (rule to_scoring_facts [OF assms(1,2)])
  then have reach: "deliberation_reachable d" by (simp add: deliberated_def)
  note wf = reachable_deliberation_wf [OF reach]
  obtain us where "materialize_ranked_tuples d (bt_keys (del_proposals d)) = Inr us"
    by (rule complete_tuples [OF wf, of "bt_keys (del_proposals d)"]) (use ph in auto)
  then obtain d1 ranked where c: "Deliberation_complete d (c_now ports w1) = Inr (d1, ranked)"
    using ph by (simp add: Deliberation_complete_def require_phase_def Let_def)
  obtain d2 R where pr: "(if tc_output_contract ?c \<noteq> None then prioritize_valid_outputs d1 ranked
      else Inr (d1, ranked)) = Inr (d2, R)"
    using prioritize_pick [OF reach c] by (cases "tc_output_contract ?c") fastforce+
  note done' = completed_run [OF del c pr]
  have "finalize ports d2 R task (c_now ports w1) (c_discrimination ports ranked)
      (observer (del_task_id d1) (del_phase d1) (c_now ports w1) w1) = (r, w')"
    using assms(1,4) c pr
    by (auto simp: DeliberateUseCase_execute_with_observer_def eff_bind_def eff_lift_def eff_get_def eff_do_def Let_def
        split: if_splits)
  moreover have "del_task_id d2 = tid" using done'(1) assms(3) by (simp add: deliberated_def)
  moreover have "del_task_id d1 = tid" "del_phase d1 = Completed_phase"
    using completed_facts(5) [OF wf c] del assms(3) by (metis (no_types) deliberated_def deliberation.select_convs(1)
        deliberation.surjective deliberation.update_convs(4,7,9), metis (no_types) deliberation.select_convs(4)
        deliberation.surjective deliberation.update_convs(4,7,9))
  ultimately show thesis using that [OF council refl done'(1,2) _ done'(3,4)] by simp
qed

lemma deliberate_ok:
  assumes run: "DeliberateUseCase_execute_with_observer ports observer task w = (Inr out, w')" and "sane w" and "task_id task = tid"
  obtains council w0 d ranked winner where "c_council ports (task_specialty task) w = (Inr council, w0)"
    and "deliberated ports task (seated council (task_constraints_of task)) d" and "del_phase d = Completed_phase"
    and "stored w' = Some d" and "Deliberation_ranked_outcomes d = Inr ranked"
    and "decided (task_constraints_of task) ranked" and "pick_winner ranked (task_constraints_of task) = Inr winner"
    and "out = \<lparr>do_deliberation = d, do_winner_proposal_id = prop_id (ro_proposal winner)\<rparr>"
proof -
  obtain d6 w1 where d6: "deliberate_to_scoring ports observer task w = (Inr d6, w1)"
    using run by (auto simp: DeliberateUseCase_execute_with_observer_def eff_bind_Inr)
  show thesis
  proof (rule run_parts [OF d6 assms(2,3) run])
    fix seats d2 R council w0 w2 discr
    assume *: "c_council ports (task_specialty task) w = (Inr council, w0)"
      "seats = seated council (task_constraints_of task)" "deliberated ports task seats d2"
      "del_phase d2 = Completed_phase" "del_task_id d2 = tid" "Deliberation_ranked_outcomes d2 = Inr R"
      "decided (task_constraints_of task) R" and fin: "finalize ports d2 R task (c_now ports w1) discr w2 = (Inr out, w')"
    from finalize_ok [OF fin *(5)] obtain winner where "pick_winner R (task_constraints_of task) = Inr winner"
      "out = \<lparr>do_deliberation = d2, do_winner_proposal_id = prop_id (ro_proposal winner)\<rparr>" "stored w' = Some d2" .
    with * that show thesis by metis
  qed
qed

end

end
