(* ===== verification/Output_Validators.thy ===== *)
theory Output_Validators
  imports Council_Deliberation
begin

text \<open>
  The validators a council judges its proposals with (\<open>choreo-adapters/src/validators.rs\<close>) and
  the chain the service wires (\<open>choreo/src/compose.rs\<close>): non-empty content, a JSON object,
  required fields, closed value sets, an embedded JSON Schema, claims grounded in the evidence
  pack, claims supported by the evidence they cite, and a budget on the shape of the document.
  Reading and printing JSON belongs to \<open>serde_json\<close>, compiling and running a schema to
  \<open>jsonschema\<close>, and the support judge is a port: all three are arguments.
\<close>

section \<open>Library code\<close>

text \<open>
  \<open>jl_from_str\<close> is \<open>serde_json::from_str::<Value>\<close> with the displayed error, \<open>jl_to_string\<close> the
  \<open>Display\<close> of a \<open>Value\<close>, \<open>jl_compile\<close> is \<open>JSONSchema::compile\<close>; a compiled
  schema is its method \<open>validate\<close>, which yields errors with their paths and text displayed.
\<close>

record schema_error =
  se_instance_path :: rstr
  se_schema_path :: rstr
  se_reason :: rstr

record json_library =
  jl_from_str :: "rstr \<Rightarrow> rstr + json"
  jl_to_string :: "json \<Rightarrow> rstr"
  jl_compile :: "json \<Rightarrow> rstr + (json \<Rightarrow> schema_error list + unit)"

definition json_as_str :: "json \<Rightarrow> rstr option" where
  "json_as_str v = (case v of JString s \<Rightarrow> Some s | _ \<Rightarrow> None)"

definition json_as_array :: "json \<Rightarrow> json list option" where
  "json_as_array v = (case v of JArray vs \<Rightarrow> Some vs | _ \<Rightarrow> None)"

definition json_as_object :: "json \<Rightarrow> (rstr \<times> json) list option" where
  "json_as_object v = (case v of JObject m \<Rightarrow> Some m | _ \<Rightarrow> None)"

text \<open>\<open>json!({ .. })\<close>: the map of \<open>serde_json\<close> is ordered by key.\<close>

definition json_object :: "(string \<times> json) list \<Rightarrow> json" where
  "json_object ps = JObject (fold (\<lambda>(k, v). bt_insert (lit k) v) ps [])"

definition json_usize :: "nat \<Rightarrow> json" where
  "json_usize n = JNumber (PosInt (of_nat n))"

text \<open>\<open>str::strip_prefix\<close>, \<open>str::strip_suffix\<close>, \<open>join\<close>.\<close>

definition strip_prefix :: "rstr \<Rightarrow> rstr \<Rightarrow> rstr option" where
  "strip_prefix p s = (if take (length p) s = p then Some (drop (length p) s) else None)"

definition strip_suffix :: "rstr \<Rightarrow> rstr \<Rightarrow> rstr option" where
  "strip_suffix p s = map_option rev (strip_prefix (rev p) (rev s))"

fun join_text :: "rstr \<Rightarrow> rstr list \<Rightarrow> rstr" where
  "join_text sep [] = []"
| "join_text sep [s] = s"
| "join_text sep (s # t # ts) = s @ sep @ join_text sep (t # ts)"

section \<open>Reading a proposal\<close>

definition strip_markdown_fences :: "rstr \<Rightarrow> rstr" where
  "strip_markdown_fences content =
     (let trimmed = trim content in
      case strip_prefix (lit ''```'') trimmed of None \<Rightarrow> trimmed
      | Some rest \<Rightarrow> (case strip_suffix (lit ''```'') rest of None \<Rightarrow> trimmed
        | Some inner \<Rightarrow> (case split_once 10 inner of
            Some (info, body) \<Rightarrow> if 32 \<notin> set (trim info) then trim body else trim inner
          | None \<Rightarrow> trim inner)))"

fun value_type_name :: "json \<Rightarrow> string" where
  "value_type_name JNull = ''null''"
| "value_type_name (JBool _) = ''boolean''"
| "value_type_name (JNumber _) = ''number''"
| "value_type_name (JString _) = ''string''"
| "value_type_name (JArray _) = ''array''"
| "value_type_name (JObject _) = ''object''"

definition parse_json_object :: "json_library \<Rightarrow> rstr \<Rightarrow> rstr + (rstr \<times> json) list" where
  "parse_json_object lib content =
     (case jl_from_str lib (strip_markdown_fences content) of
        Inl err \<Rightarrow> Inl (lit ''proposal is not valid JSON: '' @ err)
      | Inr (JObject m) \<Rightarrow> Inr m
      | Inr other \<Rightarrow> Inl (lit ''proposal root must be a JSON object, got '' @ lit (value_type_name other)))"

definition attributes_of :: "json \<Rightarrow> attributes outcome" where
  "attributes_of value =
     (case value of JObject m \<Rightarrow> Attributes_new m
      | _ \<Rightarrow> Inl (InvariantViolated ''validator details must be JSON objects''))"

text \<open>A report whose details are built by \<open>attributes(json!({ .. }))?\<close>.\<close>

abbreviation report_with :: "string \<Rightarrow> bool \<Rightarrow> rstr \<Rightarrow> (string \<times> json) list \<Rightarrow> validator_report outcome" where
  "report_with kind passed summary ps \<equiv>
     and_then (attributes_of (json_object ps)) (\<lambda>details. ValidatorReport_new (lit kind) passed summary details)"

section \<open>Field validators\<close>

definition ContentNonEmpty_validate :: "rstr \<Rightarrow> task_constraints \<Rightarrow> validator_report outcome" where
  "ContentNonEmpty_validate content c =
     (let trimmed = trim content; passed = (trimmed \<noteq> []) in
      ValidatorReport_new (lit ''content-non-empty'') passed
        (if passed then lit ''len='' @ display_nat (str_len trimmed)
         else lit ''content is empty after trimming'') [])"

definition JsonObjectOutput_validate ::
    "json_library \<Rightarrow> rstr \<Rightarrow> task_constraints \<Rightarrow> validator_report outcome" where
  "JsonObjectOutput_validate lib content c =
     (if tc_output_contract c = None
      then ValidatorReport_new (lit ''output-json-object'') True (lit ''no structured output contract configured'') []
      else case parse_json_object lib content of
        Inr _ \<Rightarrow> ValidatorReport_new (lit ''output-json-object'') True (lit ''proposal is a valid JSON object'') []
      | Inl summary \<Rightarrow> report_with ''output-json-object'' False summary
          [(''expected_format'', JString (lit ''json_object''))])"

definition missing_fields :: "output_contract \<Rightarrow> (rstr \<times> json) list \<Rightarrow> rstr list" where
  "missing_fields contract object =
     map fst (filter (\<lambda>(name, _). \<not> bt_contains_key object name)
       (filter (\<lambda>(_, rule). ofr_required rule) (oc_fields contract)))"

definition RequiredFields_validate ::
    "json_library \<Rightarrow> rstr \<Rightarrow> task_constraints \<Rightarrow> validator_report outcome" where
  "RequiredFields_validate lib content c =
     (case tc_output_contract c of
        None \<Rightarrow> ValidatorReport_new (lit ''output-required-fields'') True
          (lit ''no structured output contract configured'') []
      | Some contract \<Rightarrow> (case parse_json_object lib content of
          Inl summary \<Rightarrow> report_with ''output-required-fields'' False summary
            [(''contract_id'', JString (oc_contract_id contract))]
        | Inr object \<Rightarrow>
            if missing_fields contract object = []
            then ValidatorReport_new (lit ''output-required-fields'') True (lit ''all required fields are present'') []
            else report_with ''output-required-fields'' False
              (lit ''missing required fields: '' @ join_text (lit '', '') (missing_fields contract object))
              [(''contract_id'', JString (oc_contract_id contract)),
               (''missing_fields'', JArray (map JString (missing_fields contract object)))]))"

text \<open>The body of the loop over the constrained fields: one violation or none per field.\<close>

definition allowed_value_violation :: "(rstr \<times> json) list \<Rightarrow> rstr \<Rightarrow> output_field_rule \<Rightarrow> json list" where
  "allowed_value_violation object name rule =
     (if ofr_allowed_string_values rule = [] then []
      else case bt_get object name of
        None \<Rightarrow> []
      | Some (JString actual) \<Rightarrow>
          if actual \<in> set (ofr_allowed_string_values rule) then []
          else [json_object [(''field'', JString name), (''actual'', JString actual),
                  (''allowed'', JArray (map JString (ofr_allowed_string_values rule)))]]
      | Some other \<Rightarrow>
          [json_object [(''field'', JString name), (''actual_type'', JString (lit (value_type_name other))),
             (''allowed'', JArray (map JString (ofr_allowed_string_values rule)))]])"

definition AllowedStringValues_validate ::
    "json_library \<Rightarrow> rstr \<Rightarrow> task_constraints \<Rightarrow> validator_report outcome" where
  "AllowedStringValues_validate lib content c =
     (case tc_output_contract c of
        None \<Rightarrow> ValidatorReport_new (lit ''output-allowed-string-values'') True
          (lit ''no structured output contract configured'') []
      | Some contract \<Rightarrow> (case parse_json_object lib content of
          Inl summary \<Rightarrow> report_with ''output-allowed-string-values'' False summary
            [(''contract_id'', JString (oc_contract_id contract))]
        | Inr object \<Rightarrow>
            (let violations = concat (map (\<lambda>(name, rule). allowed_value_violation object name rule) (oc_fields contract)) in
             if violations = []
             then ValidatorReport_new (lit ''output-allowed-string-values'') True
               (lit ''all constrained string fields satisfy their allowed value sets'') []
             else report_with ''output-allowed-string-values'' False
               (lit ''one or more constrained string fields violated the contract'')
               [(''contract_id'', JString (oc_contract_id contract)), (''violations'', JArray violations)])))"

section \<open>The embedded schema\<close>

definition MAX_REPORTED_VIOLATIONS :: nat where
  "MAX_REPORTED_VIOLATIONS = 16"

definition schema_violation :: "schema_error \<Rightarrow> json" where
  "schema_violation err =
     json_object [(''instance_path'', JString (se_instance_path err)),
       (''schema_path'', JString (se_schema_path err)), (''reason'', JString (se_reason err))]"

text \<open>The text of a member of a violation, empty when it has none.\<close>

definition violation_text :: "json \<Rightarrow> string \<Rightarrow> rstr" where
  "violation_text v key =
     (case Option.bind (json_as_object v) (\<lambda>m. Option.bind (bt_get m (lit key)) json_as_str) of
        None \<Rightarrow> [] | Some s \<Rightarrow> s)"

definition schema_summary :: "json list \<Rightarrow> rstr" where
  "schema_summary violations =
     (case violations of
        first # _ \<Rightarrow>
          (let path = violation_text first ''instance_path''; reason = violation_text first ''reason'' in
           if path = [] then lit ''schema violation: '' @ reason
           else lit ''schema violation at `'' @ path @ lit ''`: '' @ reason)
      | [] \<Rightarrow> lit ''schema validation failed'')"

definition JsonSchema_validate ::
    "json_library \<Rightarrow> rstr \<Rightarrow> task_constraints \<Rightarrow> validator_report outcome" where
  "JsonSchema_validate lib content c =
     (case tc_output_contract c of
        None \<Rightarrow> ValidatorReport_new (lit ''output-json-schema'') True
          (lit ''no structured output contract configured'') []
      | Some contract \<Rightarrow>
          (let failed = (\<lambda>summary more. report_with ''output-json-schema'' False summary
             ((''contract_id'', JString (oc_contract_id contract)) # more)) in
           if oc_json_schema contract = []
           then ValidatorReport_new (lit ''output-json-schema'') True (lit ''contract has no embedded JSON Schema'') []
           else case jl_from_str lib (oc_json_schema contract) of
             Inl err \<Rightarrow> failed (lit ''output_contract.json_schema is not valid JSON: '' @ err) []
           | Inr schema_value \<Rightarrow> (case jl_compile lib schema_value of
               Inl err \<Rightarrow> failed (lit ''output_contract.json_schema is not a valid JSON Schema: '' @ err) []
             | Inr compiled \<Rightarrow> (case jl_from_str lib (strip_markdown_fences content) of
                 Inl err \<Rightarrow> failed (lit ''proposal is not valid JSON: '' @ err) []
               | Inr inst \<Rightarrow>
                   (let violations = (case compiled inst of
                          Inr _ \<Rightarrow> []
                        | Inl errors \<Rightarrow> map schema_violation (take MAX_REPORTED_VIOLATIONS errors)) in
                    if violations = []
                    then ValidatorReport_new (lit ''output-json-schema'') True
                      (lit ''output satisfies the embedded JSON Schema'') []
                    else failed (schema_summary violations) [(''violations'', JArray violations)])))))"

section \<open>The shape budget\<close>

record BoundedEventShape =
  max_total_size_bytes :: nat
  max_depth :: nat
  max_object_keys :: nat
  max_array_len :: nat
  max_string_len :: nat

definition BoundedEventShape_new :: BoundedEventShape where
  "BoundedEventShape_new =
     \<lparr>max_total_size_bytes = 256 * 1024, max_depth = 32, max_object_keys = 256, max_array_len = 1024,
      max_string_len = 64 * 1024\<rparr>"

definition with_max_total_size_bytes :: "BoundedEventShape \<Rightarrow> nat \<Rightarrow> BoundedEventShape" where
  "with_max_total_size_bytes b bytes = b\<lparr>max_total_size_bytes := bytes\<rparr>"

definition with_max_depth :: "BoundedEventShape \<Rightarrow> nat \<Rightarrow> BoundedEventShape" where
  "with_max_depth b depth = b\<lparr>max_depth := depth\<rparr>"

definition with_max_object_keys :: "BoundedEventShape \<Rightarrow> nat \<Rightarrow> BoundedEventShape" where
  "with_max_object_keys b keys = b\<lparr>max_object_keys := keys\<rparr>"

definition with_max_array_len :: "BoundedEventShape \<Rightarrow> nat \<Rightarrow> BoundedEventShape" where
  "with_max_array_len b len = b\<lparr>max_array_len := len\<rparr>"

definition with_max_string_len :: "BoundedEventShape \<Rightarrow> nat \<Rightarrow> BoundedEventShape" where
  "with_max_string_len b len = b\<lparr>max_string_len := len\<rparr>"

record ShapeViolation =
  sv_kind :: string
  sv_path :: rstr
  sv_limit :: nat
  sv_actual :: nat

definition ShapeViolation_summary :: "ShapeViolation \<Rightarrow> rstr" where
  "ShapeViolation_summary v =
     lit (sv_kind v) @ lit '' at `'' @ sv_path v @ lit ''`: '' @ display_nat (sv_actual v) @
     lit '' exceeds limit '' @ display_nat (sv_limit v)"

text \<open>
  The recursive walk, with its two loops over the elements of an array and the members of an
  object; each stops at the first violation.  A nesting depth is far below \<open>usize::MAX\<close>.
\<close>

fun walk :: "BoundedEventShape \<Rightarrow> json \<Rightarrow> rstr \<Rightarrow> nat \<Rightarrow> ShapeViolation option"
  and walk_items :: "BoundedEventShape \<Rightarrow> json list \<Rightarrow> nat \<Rightarrow> rstr \<Rightarrow> nat \<Rightarrow> ShapeViolation option"
  and walk_members :: "BoundedEventShape \<Rightarrow> (rstr \<times> json) list \<Rightarrow> rstr \<Rightarrow> nat \<Rightarrow> ShapeViolation option" where
  "walk b v path depth =
     (if max_depth b < depth
      then Some \<lparr>sv_kind = ''max_depth'', sv_path = path, sv_limit = max_depth b, sv_actual = depth\<rparr>
      else case v of
        JNull \<Rightarrow> None
      | JBool _ \<Rightarrow> None
      | JNumber _ \<Rightarrow> None
      | JString s \<Rightarrow>
          if max_string_len b < str_len s
          then Some \<lparr>sv_kind = ''max_string_len'', sv_path = path, sv_limit = max_string_len b,
                 sv_actual = str_len s\<rparr>
          else None
      | JArray items \<Rightarrow>
          if max_array_len b < length items
          then Some \<lparr>sv_kind = ''max_array_len'', sv_path = path, sv_limit = max_array_len b,
                 sv_actual = length items\<rparr>
          else walk_items b items 0 path (depth + 1)
      | JObject m \<Rightarrow>
          if max_object_keys b < length m
          then Some \<lparr>sv_kind = ''max_object_keys'', sv_path = path, sv_limit = max_object_keys b,
                 sv_actual = length m\<rparr>
          else walk_members b m path (depth + 1))"
| "walk_items b [] i path depth = None"
| "walk_items b (item # items) i path depth =
     (case walk b item (path @ lit ''['' @ display_nat i @ lit '']'') depth of
        Some v \<Rightarrow> Some v | None \<Rightarrow> walk_items b items (i + 1) path depth)"
| "walk_members b [] path depth = None"
| "walk_members b ((key, child) # m) path depth =
     (case walk b child (path @ lit ''.'' @ key) depth of
        Some v \<Rightarrow> Some v | None \<Rightarrow> walk_members b m path depth)"

definition BoundedEventShape_validate ::
    "json_library \<Rightarrow> BoundedEventShape \<Rightarrow> rstr \<Rightarrow> task_constraints \<Rightarrow> validator_report outcome" where
  "BoundedEventShape_validate lib b content c =
     (case tc_output_contract c of
        None \<Rightarrow> ValidatorReport_new (lit ''output-bounded-event-shape'') True
          (lit ''no structured output contract configured'') []
      | Some contract \<Rightarrow>
          (let trimmed = trim content; total_bytes = str_len trimmed;
               report = (\<lambda>passed summary more. report_with ''output-bounded-event-shape'' passed summary
                 ((''contract_id'', JString (oc_contract_id contract)) # more)) in
           if max_total_size_bytes b < total_bytes
           then report False
             (lit ''proposal is '' @ display_nat total_bytes @ lit '' bytes; limit is '' @
              display_nat (max_total_size_bytes b) @ lit '' bytes'')
             [(''violation'', JString (lit ''max_total_size_bytes'')),
              (''limit'', json_usize (max_total_size_bytes b)), (''actual'', json_usize total_bytes)]
           else case jl_from_str lib (strip_markdown_fences trimmed) of
             Inl err \<Rightarrow> report False (lit ''proposal is not valid JSON: '' @ err) []
           | Inr inst \<Rightarrow> (case walk b inst (lit ''$'') 0 of
               Some v \<Rightarrow> report False (ShapeViolation_summary v)
                 [(''violation'', JString (lit (sv_kind v))), (''path'', JString (sv_path v)),
                  (''limit'', json_usize (sv_limit v)), (''actual'', json_usize (sv_actual v))]
             | None \<Rightarrow> report True (lit ''proposal satisfies the event-shape budget'') [])))"

section \<open>Claims and their evidence\<close>

definition CLAIM_TEXT_PREVIEW_LEN :: nat where
  "CLAIM_TEXT_PREVIEW_LEN = 80"

text \<open>\<open>str::is_char_boundary\<close> and the slice \<open>&raw[..end]\<close> at a boundary.\<close>

fun is_char_boundary :: "rstr \<Rightarrow> nat \<Rightarrow> bool" where
  "is_char_boundary [] n = (n = 0)"
| "is_char_boundary (c # s) n = (n = 0 \<or> utf8_width c \<le> n \<and> is_char_boundary s (n - utf8_width c))"

fun slice_to :: "rstr \<Rightarrow> nat \<Rightarrow> rstr" where
  "slice_to [] n = []"
| "slice_to (c # s) n = (if utf8_width c \<le> n then c # slice_to s (n - utf8_width c) else [])"

text \<open>The loop \<open>while !raw.is_char_boundary(end) { end -= 1; }\<close>; zero is a boundary.\<close>

fun last_boundary :: "rstr \<Rightarrow> nat \<Rightarrow> nat" where
  "last_boundary raw 0 = 0"
| "last_boundary raw (Suc n) = (if is_char_boundary raw (Suc n) then Suc n else last_boundary raw n)"

definition claim_text :: "json_library \<Rightarrow> (rstr \<times> json) list \<Rightarrow> rstr" where
  "claim_text lib claim =
     (case Option.bind (bt_get claim (lit ''text'')) json_as_str of
        None \<Rightarrow> jl_to_string lib (JObject claim) | Some s \<Rightarrow> s)"

definition claim_preview :: "json_library \<Rightarrow> (rstr \<times> json) list \<Rightarrow> rstr" where
  "claim_preview lib claim =
     (let raw = claim_text lib claim in
      if CLAIM_TEXT_PREVIEW_LEN < str_len raw
      then slice_to raw (last_boundary raw CLAIM_TEXT_PREVIEW_LEN) @ [8230]
      else raw)"

definition claim_violations ::
    "json_library \<Rightarrow> evidence_grounding_rule \<Rightarrow> nat \<Rightarrow> json \<Rightarrow> json list" where
  "claim_violations lib rule index claim =
     (case json_as_object claim of
        None \<Rightarrow> [json_object [(''claim_index'', json_usize index),
          (''problem'', JString (lit ''claim is not a JSON object'')),
          (''actual_type'', JString (lit (value_type_name claim)))]]
      | Some claim_object \<Rightarrow>
          (let violation = (\<lambda>problem more. json_object
                 ([(''claim_index'', json_usize index),
                   (''claim_preview'', JString (claim_preview lib claim_object)),
                   (''problem'', JString problem)] @ more)) in
           case Option.bind (bt_get claim_object (egr_refs_field rule)) json_as_array of
             None \<Rightarrow> [violation (lit ''refs field `'' @ egr_refs_field rule @ lit ''` is missing or not an array'') []]
           | Some refs \<Rightarrow>
               if refs = [] then [violation (lit ''claim cites no evidence'') []]
               else
                 (let malformed = filter (\<lambda>r. json_as_str r = None) refs;
                      orphans = filter (\<lambda>i. i \<notin> set (egr_allowed_refs rule)) (List.map_filter json_as_str refs) in
                  map (\<lambda>r. violation (lit ''evidence ref is not a string'')
                        [(''actual_type'', JString (lit (value_type_name r)))]) malformed @
                  (if orphans = [] then []
                   else [violation (lit ''evidence refs not present in the allowed pack'')
                     [(''orphan_refs'', JArray (map JString orphans))]]))))"

definition ClaimsEvidenceGrounded_validate ::
    "json_library \<Rightarrow> rstr \<Rightarrow> task_constraints \<Rightarrow> validator_report outcome" where
  "ClaimsEvidenceGrounded_validate lib content c =
     (case tc_output_contract c of
        None \<Rightarrow> ValidatorReport_new (lit ''claims-evidence-grounded'') True (lit ''no evidence grounding configured'') []
      | Some contract \<Rightarrow> (case oc_evidence_grounding contract of
          None \<Rightarrow> ValidatorReport_new (lit ''claims-evidence-grounded'') True (lit ''no evidence grounding configured'') []
        | Some rule \<Rightarrow>
            (let failed = (\<lambda>summary more. report_with ''claims-evidence-grounded'' False summary
               ((''contract_id'', JString (oc_contract_id contract)) # more)) in
             case parse_json_object lib content of
               Inl summary \<Rightarrow> failed summary []
             | Inr object \<Rightarrow>
                 (case Option.bind (bt_get object (egr_claims_field rule)) json_as_array of
                    None \<Rightarrow> failed (lit ''claims field `'' @ egr_claims_field rule @ lit ''` is missing or not an array'')
                      [(''claims_field'', JString (egr_claims_field rule))]
                  | Some claims \<Rightarrow>
                      (let violations = concat (map (\<lambda>(i, claim). claim_violations lib rule i claim)
                             (enumerate 0 claims)) in
                       if violations = []
                       then ValidatorReport_new (lit ''claims-evidence-grounded'') True
                         (lit ''all '' @ display_nat (length claims) @ lit '' claims grounded in the evidence pack ('' @
                          display_nat (length (egr_allowed_refs rule)) @ lit '' allowed refs)'') []
                       else failed
                         (display_nat (length violations) @ lit '' of '' @ display_nat (length claims) @
                          lit '' claims lack grounded evidence'')
                         [(''claims_field'', JString (egr_claims_field rule)),
                          (''refs_field'', JString (egr_refs_field rule)),
                          (''violations'', JArray violations)])))))"

section \<open>The support judge\<close>

definition MAX_JUDGED_CLAIMS :: nat where
  "MAX_JUDGED_CLAIMS = 64"

record evidence_excerpt =
  ee_reference :: rstr
  ee_body :: rstr

record support_verdict =
  sv_supported :: bool
  sv_confidence :: "8 word"
  sv_rationale :: rstr

type_synonym 'w support_judge = "rstr \<Rightarrow> evidence_excerpt list \<Rightarrow> ('w, support_verdict) effect"

definition cited_excerpts :: "(rstr \<times> json) list \<Rightarrow> rstr \<Rightarrow> semantic_support_rule \<Rightarrow> evidence_excerpt list" where
  "cited_excerpts claim refs_field support =
     (case Option.bind (bt_get claim refs_field) json_as_array of
        None \<Rightarrow> []
      | Some refs \<Rightarrow> List.map_filter (\<lambda>r. map_option (\<lambda>b. \<lparr>ee_reference = r, ee_body = b\<rparr>)
          (bt_get (ssr_bodies support) r)) (List.map_filter json_as_str refs))"

definition json_u8 :: "8 word \<Rightarrow> json" where
  "json_u8 w = JNumber (PosInt (of_nat (unat w)))"

definition verdict_record :: "json_library \<Rightarrow> nat \<Rightarrow> (rstr \<times> json) list \<Rightarrow> evidence_excerpt list \<Rightarrow> support_verdict \<Rightarrow> json" where
  "verdict_record lib index claim excerpts v =
     json_object [(''claim_index'', json_usize index),
       (''claim_preview'', JString (claim_preview lib claim)),
       (''refs'', JArray (map (\<lambda>e. JString (ee_reference e)) excerpts)),
       (''supported'', JBool (sv_supported v)), (''confidence'', json_u8 (sv_confidence v)),
       (''rationale'', JString (sv_rationale v))]"

definition verdict_accepted :: "semantic_support_rule \<Rightarrow> support_verdict \<Rightarrow> bool" where
  "verdict_accepted support v = (sv_supported v \<and> ssr_min_confidence support \<le> sv_confidence v)"

definition verdict_violation ::
    "json_library \<Rightarrow> semantic_support_rule \<Rightarrow> nat \<Rightarrow> (rstr \<times> json) list \<Rightarrow> support_verdict \<Rightarrow> json" where
  "verdict_violation lib support index claim v =
     json_object [(''claim_index'', json_usize index),
       (''claim_preview'', JString (claim_preview lib claim)),
       (''problem'', JString
          (if sv_supported v
           then lit ''supported but confidence '' @ display_nat (unat (sv_confidence v)) @
             lit '' is below min_confidence '' @ display_nat (unat (ssr_min_confidence support))
           else lit ''cited evidence does not support the claim''))]"

text \<open>The loop over the claims, from the claim with number \<open>index\<close> on.\<close>

fun judge_claims ::
    "json_library \<Rightarrow> 'w support_judge \<Rightarrow> json list \<Rightarrow> rstr \<Rightarrow> semantic_support_rule \<Rightarrow> nat
      \<Rightarrow> ('w, json list \<times> json list) effect" where
  "judge_claims lib judge [] refs_field support index = eff_lift (Inr ([], []))"
| "judge_claims lib judge (claim # claims) refs_field support index =
     (case json_as_object claim of
        None \<Rightarrow>
          eff_bind (judge_claims lib judge claims refs_field support (index + 1)) (\<lambda>(verdicts, violations).
          eff_lift (Inr (verdicts, json_object [(''claim_index'', json_usize index),
            (''problem'', JString (lit ''claim is not a JSON object'')),
            (''actual_type'', JString (lit (value_type_name claim)))] # violations)))
      | Some claim_object \<Rightarrow>
          (let excerpts = cited_excerpts claim_object refs_field support in
           if excerpts = []
           then
             eff_bind (judge_claims lib judge claims refs_field support (index + 1)) (\<lambda>(verdicts, violations).
             eff_lift (Inr (verdicts, json_object [(''claim_index'', json_usize index),
               (''claim_preview'', JString (claim_preview lib claim_object)),
               (''problem'', JString (lit ''claim cites no evidence with a judgeable body''))] # violations)))
           else
             eff_bind (judge (claim_text lib claim_object) excerpts) (\<lambda>verdict.
             eff_bind (judge_claims lib judge claims refs_field support (index + 1)) (\<lambda>(verdicts, violations).
             eff_lift (Inr
               (verdict_record lib index claim_object excerpts verdict # verdicts,
                (if verdict_accepted support verdict then []
                 else [verdict_violation lib support index claim_object verdict]) @ violations))))))"

definition ClaimsEvidenceSupported_validate ::
    "json_library \<Rightarrow> 'w support_judge option \<Rightarrow> rstr \<Rightarrow> task_constraints \<Rightarrow> ('w, validator_report) effect" where
  "ClaimsEvidenceSupported_validate lib judge_opt content c =
     (let unconfigured = eff_lift (ValidatorReport_new (lit ''claims-evidence-supported'') True
            (lit ''no semantic support configured'') []) in
      case Option.bind (tc_output_contract c) oc_evidence_grounding of
        None \<Rightarrow> unconfigured
      | Some rule \<Rightarrow> (case egr_semantic_support rule of
          None \<Rightarrow> unconfigured
        | Some support \<Rightarrow> (case judge_opt of
            None \<Rightarrow> eff_lift (Inl (InvariantViolated (''semantic support demanded by the contract but no '' @
              ''evidence-support judge is wired (set CHOREO_SUPPORT_JUDGE_ENABLED)'')))
          | Some judge \<Rightarrow>
              (let contract_id = (case tc_output_contract c of None \<Rightarrow> [] | Some contract \<Rightarrow> oc_contract_id contract);
                   failed = (\<lambda>summary more. eff_lift (report_with ''claims-evidence-supported'' False summary
                     ((''contract_id'', JString contract_id) # more))) in
               case parse_json_object lib content of
                 Inl summary \<Rightarrow> failed summary []
               | Inr object \<Rightarrow>
                   (case Option.bind (bt_get object (egr_claims_field rule)) json_as_array of
                      None \<Rightarrow> failed (lit ''claims field `'' @ egr_claims_field rule @ lit ''` is missing or not an array'')
                        [(''claims_field'', JString (egr_claims_field rule))]
                    | Some claims \<Rightarrow>
                        if MAX_JUDGED_CLAIMS < length claims
                        then failed (display_nat (length claims) @ lit '' claims exceed the judgeable limit of '' @
                          display_nat MAX_JUDGED_CLAIMS) []
                        else
                          eff_bind (judge_claims lib judge claims (egr_refs_field rule) support 0)
                            (\<lambda>(verdicts, violations).
                          eff_bind (eff_lift (attributes_of (json_object
                            [(''contract_id'', JString contract_id),
                             (''min_confidence'', json_u8 (ssr_min_confidence support)),
                             (''verdicts'', JArray verdicts), (''violations'', JArray violations)])))
                            (\<lambda>details.
                          eff_lift (
                            if violations = []
                            then ValidatorReport_new (lit ''claims-evidence-supported'') True
                              (lit ''all '' @ display_nat (length claims) @
                               lit '' claims semantically supported by their cited evidence (min_confidence '' @
                               display_nat (unat (ssr_min_confidence support)) @ lit '')'') details
                            else ValidatorReport_new (lit ''claims-evidence-supported'') False
                              (display_nat (length violations) @ lit '' of '' @ display_nat (length claims) @
                               lit '' claims lack semantic support from their cited evidence'') details))))))))"

section \<open>The chain of the service\<close>

definition validator_chain ::
    "json_library \<Rightarrow> 'w support_judge option \<Rightarrow> (rstr \<Rightarrow> task_constraints \<Rightarrow> ('w, validator_report) effect) list" where
  "validator_chain lib judge_opt =
     [\<lambda>content c. eff_lift (ContentNonEmpty_validate content c),
      \<lambda>content c. eff_lift (JsonObjectOutput_validate lib content c),
      \<lambda>content c. eff_lift (RequiredFields_validate lib content c),
      \<lambda>content c. eff_lift (AllowedStringValues_validate lib content c),
      \<lambda>content c. eff_lift (JsonSchema_validate lib content c),
      \<lambda>content c. eff_lift (ClaimsEvidenceGrounded_validate lib content c),
      ClaimsEvidenceSupported_validate lib judge_opt,
      \<lambda>content c. eff_lift (BoundedEventShape_validate lib BoundedEventShape_new content c)]"

end
