(* ===== verification/Step_Config.thy ===== *)
theory Step_Config
  imports Output_Validators
begin

text \<open>
  Reading the configuration of a deliberation step (\<open>choreo-adapters/src/ceremony\<close>, the files
  \<open>ceremony_step_config.rs\<close> and \<open>deliberation_step_config.rs\<close>): prompt, specialty, rounds, seats, the
  output contract of the step and the evidence its claims must be grounded in.  Every reader
  rejects what it does not understand.
\<close>

section \<open>Reading one value\<close>

definition json_is_null :: "json \<Rightarrow> bool" where
  "json_is_null v = (v = JNull)"

definition json_as_u64 :: "json \<Rightarrow> 64 word option" where
  "json_as_u64 v = (case v of JNumber (PosInt n) \<Rightarrow> Some n | _ \<Rightarrow> None)"

definition trimmed_nonempty :: "rstr \<Rightarrow> rstr option" where
  "trimmed_nonempty raw = (if trim raw = [] then None else Some (trim raw))"

definition string_array :: "json option \<Rightarrow> string \<Rightarrow> rstr list outcome" where
  "string_array value field =
     (case value of
        None \<Rightarrow> Inr []
      | Some v \<Rightarrow>
          if json_is_null v then Inr []
          else case json_as_array v of
            None \<Rightarrow> Inl (InvalidCharacters field)
          | Some items \<Rightarrow>
              try_map (\<lambda>item. ok_or (Option.bind (json_as_str item) trimmed_nonempty) (InvalidCharacters field)) items)"

definition required_string :: "json option \<Rightarrow> string \<Rightarrow> rstr outcome" where
  "required_string value field =
     and_then (ok_or value (EmptyField field)) (\<lambda>v.
     and_then (ok_or (json_as_str v) (InvalidCharacters field)) (\<lambda>raw.
     if trim raw = [] then Inl (EmptyField field) else Inr raw))"

definition optional_string :: "json option \<Rightarrow> rstr option" where
  "optional_string value = Option.bind (Option.bind value json_as_str) trimmed_nonempty"

definition optional_bool :: "json option \<Rightarrow> string \<Rightarrow> bool option outcome" where
  "optional_bool value field =
     (case value of
        None \<Rightarrow> Inr None
      | Some v \<Rightarrow> if json_is_null v then Inr None
          else map_ok Some (ok_or (json_as_bool v) (InvalidCharacters field)))"

definition optional_u32 :: "json option \<Rightarrow> string \<Rightarrow> 32 word option outcome" where
  "optional_u32 value field =
     (case value of
        None \<Rightarrow> Inr None
      | Some v \<Rightarrow>
          if json_is_null v then Inr None
          else and_then (ok_or (json_as_u64 v) (InvalidCharacters field)) (\<lambda>raw.
            if unat raw < 2 ^ 32 then Inr (Some (ucast raw))
            else Inl (OutOfRange field (u64_as_f64 (unat raw)) (F64 0) (F64 4294967295))))"

text \<open>The guard \<open>if !value.is_null() && !value.is_string()\<close> on an optional member.\<close>

definition ensure_string_or_null :: "json option \<Rightarrow> string \<Rightarrow> unit outcome" where
  "ensure_string_or_null value field =
     ensure (case value of None \<Rightarrow> True | Some v \<Rightarrow> json_is_null v \<or> json_as_str v \<noteq> None) (InvalidCharacters field)"

section \<open>The plain settings of a step\<close>

record step_config =
  cfg_attributes :: attributes
  cfg_handler_kind :: rstr

definition config_get :: "step_config \<Rightarrow> string \<Rightarrow> json option" where
  "config_get cfg key = bt_get (cfg_attributes cfg) (lit key)"

definition config_prompt :: "step_config \<Rightarrow> rstr outcome" where
  "config_prompt cfg =
     and_then (required_string (config_get cfg ''prompt'') ''ceremony_step.config.prompt'') TaskDescription_new"

definition config_specialty :: "step_config \<Rightarrow> rstr outcome" where
  "config_specialty cfg =
     Specialty_new (case optional_string (config_get cfg ''specialty'') of None \<Rightarrow> cfg_handler_kind cfg | Some s \<Rightarrow> s)"

definition config_rounds :: "step_config \<Rightarrow> 32 word outcome" where
  "config_rounds cfg =
     and_then (optional_u32 (config_get cfg ''rounds'') ''ceremony_step.config.rounds'') (\<lambda>opt.
     case opt of Some v \<Rightarrow> Rounds_new v | None \<Rightarrow> Inr Rounds_default)"

definition config_num_agents :: "step_config \<Rightarrow> 32 word option outcome" where
  "config_num_agents cfg =
     and_then (optional_u32 (config_get cfg ''num_agents'') ''ceremony_step.config.num_agents'') (\<lambda>opt.
     case opt of Some v \<Rightarrow> map_ok Some (NumAgents_new v) | None \<Rightarrow> Inr None)"

definition config_agent_kind :: "step_config \<Rightarrow> rstr outcome" where
  "config_agent_kind cfg =
     AgentKind_new (case optional_string (config_get cfg ''agent_kind'') of
         Some s \<Rightarrow> s
       | None \<Rightarrow> (case optional_string (config_get cfg ''agent.kind'') of Some s \<Rightarrow> s | None \<Rightarrow> lit ''noop''))"

definition config_participant_labels :: "step_config \<Rightarrow> rstr list outcome" where
  "config_participant_labels cfg =
     (case config_get cfg ''participants'' of
        None \<Rightarrow> Inr []
      | Some v \<Rightarrow>
          if json_is_null v then Inr []
          else case json_as_array v of
            None \<Rightarrow> Inl (InvalidCharacters ''ceremony_step.config.participants'')
          | Some items \<Rightarrow>
              try_map (\<lambda>item. ok_or (Option.bind (json_as_str item) trimmed_nonempty)
                (InvalidCharacters ''ceremony_step.config.participants'')) items)"

definition config_see_prior_steps :: "step_config \<Rightarrow> bool outcome" where
  "config_see_prior_steps cfg =
     map_ok (\<lambda>opt. case opt of None \<Rightarrow> True | Some b \<Rightarrow> b)
       (optional_bool (config_get cfg ''see_prior'') ''ceremony_step.config.see_prior'')"

section \<open>The output contract of a step\<close>

definition known_keys :: "string list \<Rightarrow> (rstr \<times> json) list \<Rightarrow> bool" where
  "known_keys known block = list_all (\<lambda>k. k \<in> lit ` set known) (map fst block)"

definition contract_format :: "json option \<Rightarrow> output_format outcome" where
  "contract_format value =
     (case optional_string value of
        None \<Rightarrow> Inr JsonObjectFormat
      | Some s \<Rightarrow> if s = lit ''json_object'' then Inr JsonObjectFormat
          else Inl (InvalidCharacters ''ceremony_step.config.output_contract.format''))"

text \<open>The loop that fills \<open>allowed\<close>; its map is built in key order from a map without duplicates.\<close>

fun collect_allowed :: "(rstr \<times> json) list \<Rightarrow> (rstr, rstr list) btree_map \<Rightarrow> (rstr, rstr list) btree_map outcome" where
  "collect_allowed [] allowed = Inr allowed"
| "collect_allowed ((name, values) # rest) allowed =
     and_then (string_array (Some values) ''ceremony_step.config.output_contract.allowed_values'') (\<lambda>vs.
     collect_allowed rest (bt_insert name vs allowed))"

definition contract_allowed :: "json option \<Rightarrow> (rstr, rstr list) btree_map outcome" where
  "contract_allowed value =
     (case value of
        None \<Rightarrow> Inr []
      | Some v \<Rightarrow>
          if json_is_null v then Inr []
          else case json_as_object v of
            None \<Rightarrow> Inl (InvalidCharacters ''ceremony_step.config.output_contract.allowed_values'')
          | Some m \<Rightarrow> collect_allowed m [])"

text \<open>The loop over the required names takes their allowed values out of \<open>allowed\<close>.\<close>

fun required_rules ::
    "rstr list \<Rightarrow> (rstr, rstr list) btree_map \<Rightarrow> (rstr, output_field_rule) btree_map
      \<Rightarrow> ((rstr, rstr list) btree_map \<times> (rstr, output_field_rule) btree_map) outcome" where
  "required_rules [] allowed rules = Inr (allowed, rules)"
| "required_rules (name # names) allowed rules =
     and_then (OutputFieldRule_new True (case bt_get allowed name of None \<Rightarrow> [] | Some vs \<Rightarrow> vs)) (\<lambda>rule.
     required_rules names (bt_remove name allowed) (bt_insert name rule rules))"

fun optional_rules ::
    "(rstr \<times> rstr list) list \<Rightarrow> (rstr, output_field_rule) btree_map \<Rightarrow> (rstr, output_field_rule) btree_map outcome" where
  "optional_rules [] rules = Inr rules"
| "optional_rules ((name, values) # rest) rules =
     and_then (OutputFieldRule_new False values) (\<lambda>rule. optional_rules rest (bt_insert name rule rules))"

definition contract_of_block :: "(rstr \<times> json) list \<Rightarrow> output_contract outcome" where
  "contract_of_block block =
     (let member = (\<lambda>k. bt_get block (lit k)) in
      and_then (required_string (member ''contract_id'') ''ceremony_step.config.output_contract.contract_id'') (\<lambda>contract_id.
      and_then (contract_format (member ''format'')) (\<lambda>format.
      and_then (string_array (member ''required_fields'') ''ceremony_step.config.output_contract.required_fields'') (\<lambda>required.
      and_then (contract_allowed (member ''allowed_values'')) (\<lambda>allowed.
      and_then (required_rules required allowed []) (\<lambda>(rest, rules).
      and_then (optional_rules rest rules) (\<lambda>all_rules.
      and_then (ensure_string_or_null (member ''json_schema'') ''ceremony_step.config.output_contract.json_schema'') (\<lambda>_.
      OutputContract_new_with_schema contract_id format all_rules
        (case optional_string (member ''json_schema'') of None \<Rightarrow> [] | Some s \<Rightarrow> s)))))))))"

definition config_output_contract :: "step_config \<Rightarrow> output_contract option outcome" where
  "config_output_contract cfg =
     (case config_get cfg ''output_contract'' of
        None \<Rightarrow> Inr None
      | Some v \<Rightarrow>
          if json_is_null v then Inr None
          else case json_as_object v of
            None \<Rightarrow> Inl (InvalidCharacters ''ceremony_step.config.output_contract'')
          | Some block \<Rightarrow>
              if \<not> known_keys [''contract_id'', ''format'', ''required_fields'', ''allowed_values'', ''json_schema'', ''evidence''] block
              then Inl (InvalidCharacters ''ceremony_step.config.output_contract'')
              else map_ok Some (contract_of_block block))"

section \<open>The evidence of a step\<close>

record semantic_support_spec =
  sss_min_confidence :: "8 word option"
  sss_bodies_context_key :: "rstr option"

record evidence_grounding_spec =
  egs_claims_field :: rstr
  egs_refs_field :: rstr
  egs_static_refs :: "rstr list"
  egs_context_key :: "rstr option"
  egs_semantic :: "semantic_support_spec option"

definition spec_min_confidence :: "json option \<Rightarrow> 8 word option outcome" where
  "spec_min_confidence value =
     (let field = ''ceremony_step.config.output_contract.evidence.semantic_support.min_confidence'' in
      case value of
        None \<Rightarrow> Inr None
      | Some v \<Rightarrow>
          if json_is_null v then Inr None
          else and_then (ok_or (json_as_u64 v) (InvalidCharacters field)) (\<lambda>raw.
            if 256 \<le> unat raw then Inl (OutOfRange field (u64_as_f64 (unat raw)) (F64 0) (F64 100))
            else if 100 < unat (ucast raw :: 8 word)
            then Inl (OutOfRange field (u64_as_f64 (unat (ucast raw :: 8 word))) (F64 0) (F64 100))
            else Inr (Some (ucast raw))))"

definition read_semantic_support_spec :: "json option \<Rightarrow> semantic_support_spec option outcome" where
  "read_semantic_support_spec value =
     (let field = ''ceremony_step.config.output_contract.evidence.semantic_support'' in
      case value of
        None \<Rightarrow> Inr None
      | Some v \<Rightarrow>
          if json_is_null v then Inr None
          else case json_as_object v of
            None \<Rightarrow> Inl (InvalidCharacters field)
          | Some block \<Rightarrow>
              if \<not> known_keys [''min_confidence'', ''bodies_from_context''] block then Inl (InvalidCharacters field)
              else
              and_then (spec_min_confidence (bt_get block (lit ''min_confidence''))) (\<lambda>min_confidence.
              and_then (ensure_string_or_null (bt_get block (lit ''bodies_from_context'')) (field @ ''.bodies_from_context'')) (\<lambda>_.
              Inr (Some \<lparr>sss_min_confidence = min_confidence,
                sss_bodies_context_key = optional_string (bt_get block (lit ''bodies_from_context''))\<rparr>))))"

definition spec_of_evidence :: "(rstr \<times> json) list \<Rightarrow> evidence_grounding_spec outcome" where
  "spec_of_evidence evidence =
     (let member = (\<lambda>k. bt_get evidence (lit k)); path = ''ceremony_step.config.output_contract.evidence'' in
      and_then (ensure_string_or_null (member ''claims_field'') (path @ ''.claims_field'')) (\<lambda>_.
      and_then (ensure_string_or_null (member ''refs_field'') (path @ ''.refs_field'')) (\<lambda>_.
      and_then (string_array (member ''allowed_refs'') (path @ ''.allowed_refs'')) (\<lambda>static_refs.
      and_then (ensure_string_or_null (member ''allowed_refs_from_context'') (path @ ''.allowed_refs_from_context'')) (\<lambda>_.
      let context_key = optional_string (member ''allowed_refs_from_context'') in
      if static_refs = [] \<and> context_key = None then Inl (EmptyField (path @ ''.allowed_refs''))
      else
      and_then (read_semantic_support_spec (member ''semantic_support'')) (\<lambda>semantic.
      Inr \<lparr>egs_claims_field = (case optional_string (member ''claims_field'') of None \<Rightarrow> lit ''claims'' | Some s \<Rightarrow> s),
           egs_refs_field = (case optional_string (member ''refs_field'') of None \<Rightarrow> lit ''evidence_refs'' | Some s \<Rightarrow> s),
           egs_static_refs = static_refs, egs_context_key = context_key, egs_semantic = semantic\<rparr>))))))"

definition config_evidence_grounding_spec :: "step_config \<Rightarrow> evidence_grounding_spec option outcome" where
  "config_evidence_grounding_spec cfg =
     (case Option.bind (config_get cfg ''output_contract'') json_as_object of
        None \<Rightarrow> Inr None
      | Some block \<Rightarrow> (case bt_get block (lit ''evidence'') of
          None \<Rightarrow> Inr None
        | Some v \<Rightarrow>
            if json_is_null v then Inr None
            else case json_as_object v of
              None \<Rightarrow> Inl (InvalidCharacters ''ceremony_step.config.output_contract.evidence'')
            | Some evidence \<Rightarrow>
                if \<not> known_keys [''claims_field'', ''refs_field'', ''allowed_refs'', ''allowed_refs_from_context'',
                    ''semantic_support''] evidence
                then Inl (InvalidCharacters ''ceremony_step.config.output_contract.evidence'')
                else map_ok Some (spec_of_evidence evidence)))"

section \<open>The configuration as a whole\<close>

definition context_item_ref :: "json \<Rightarrow> rstr outcome" where
  "context_item_ref item =
     (let e = InvalidCharacters ''ceremony_step.config.output_contract.evidence.allowed_refs_from_context'' in
      case item of
        JString reference \<Rightarrow> Inr reference
      | JObject entry \<Rightarrow> ok_or (Option.bind (bt_get entry (lit ''id'')) json_as_str) e
      | _ \<Rightarrow> Inl e)"

definition context_refs :: "ceremony_context \<Rightarrow> rstr \<Rightarrow> rstr list outcome" where
  "context_refs ctx key =
     (let field = ''ceremony_step.config.output_contract.evidence.allowed_refs_from_context'' in
      and_then (ok_or (bt_get ctx key) (EmptyField field)) (\<lambda>value.
      and_then (ok_or (json_as_array value) (InvalidCharacters field)) (\<lambda>items.
      try_map context_item_ref items)))"

definition context_item_body :: "json \<Rightarrow> (rstr \<times> rstr) outcome" where
  "context_item_body item =
     (let e = InvalidCharacters ''ceremony_step.config.output_contract.evidence.semantic_support.bodies_from_context'' in
      and_then (ok_or (json_as_object item) e) (\<lambda>entry.
      and_then (ok_or (Option.bind (bt_get entry (lit ''id'')) json_as_str) e) (\<lambda>i.
      and_then (ok_or (Option.bind (bt_get entry (lit ''text'')) json_as_str) e) (\<lambda>body.
      Inr (i, body)))))"

definition context_bodies :: "ceremony_context \<Rightarrow> rstr \<Rightarrow> (rstr \<times> rstr) list outcome" where
  "context_bodies ctx key =
     (let field = ''ceremony_step.config.output_contract.evidence.semantic_support.bodies_from_context'' in
      and_then (ok_or (bt_get ctx key) (EmptyField field)) (\<lambda>value.
      and_then (ok_or (json_as_array value) (InvalidCharacters field)) (\<lambda>items.
      try_map context_item_body items)))"

definition DEFAULT_SUPPORT_MIN_CONFIDENCE :: "8 word" where
  "DEFAULT_SUPPORT_MIN_CONFIDENCE = 70"

definition grounded_contract ::
    "ceremony_context \<Rightarrow> evidence_grounding_spec \<Rightarrow> output_contract \<Rightarrow> output_contract outcome" where
  "grounded_contract ctx spec contract =
     and_then (case egs_context_key spec of
         None \<Rightarrow> Inr (egs_static_refs spec)
       | Some key \<Rightarrow> map_ok (\<lambda>more. egs_static_refs spec @ more) (context_refs ctx key)) (\<lambda>refs.
     and_then (EvidenceGroundingRule_new (egs_claims_field spec) (egs_refs_field spec) refs) (\<lambda>rule.
     and_then (case egs_semantic spec of
         None \<Rightarrow> Inr rule
       | Some semantic \<Rightarrow>
           and_then (ok_or (case sss_bodies_context_key semantic of Some k \<Rightarrow> Some k | None \<Rightarrow> egs_context_key spec)
             (EmptyField ''ceremony_step.config.output_contract.evidence.semantic_support.bodies_from_context'')) (\<lambda>bodies_key.
           and_then (context_bodies ctx bodies_key) (\<lambda>bodies.
           and_then (SemanticSupportRule_new
             (case sss_min_confidence semantic of None \<Rightarrow> DEFAULT_SUPPORT_MIN_CONFIDENCE | Some m \<Rightarrow> m) bodies) (\<lambda>support.
           EvidenceGroundingRule_with_semantic_support rule support)))) (\<lambda>rule'.
     Inr (OutputContract_with_evidence_grounding contract rule'))))"

record deliberation_step_config =
  dsc_specialty :: rstr
  dsc_task_description :: rstr
  dsc_rounds :: "32 word"
  dsc_num_agents :: "32 word option"
  dsc_see_prior :: bool
  dsc_output_contract :: "output_contract option"

definition DeliberationStepConfig_from ::
    "step_config \<Rightarrow> ceremony_context \<Rightarrow> deliberation_step_config outcome" where
  "DeliberationStepConfig_from cfg ctx =
     and_then (config_output_contract cfg) (\<lambda>declared.
     and_then (config_evidence_grounding_spec cfg) (\<lambda>spec_opt.
     and_then (case spec_opt of
         None \<Rightarrow> Inr declared
       | Some spec \<Rightarrow>
           and_then (ok_or declared (EmptyField ''ceremony_step.config.output_contract'')) (\<lambda>contract.
           map_ok Some (grounded_contract ctx spec contract))) (\<lambda>contract_opt.
     and_then (config_prompt cfg) (\<lambda>prompt.
     and_then (config_specialty cfg) (\<lambda>specialty.
     and_then (config_rounds cfg) (\<lambda>rounds.
     and_then (config_num_agents cfg) (\<lambda>num_agents.
     and_then (config_see_prior_steps cfg) (\<lambda>see_prior.
     Inr \<lparr>dsc_specialty = specialty, dsc_task_description = prompt, dsc_rounds = rounds, dsc_num_agents = num_agents,
          dsc_see_prior = see_prior, dsc_output_contract = contract_opt\<rparr>))))))))"

end
