(* ===== verification/Council_Decisions.thy ===== *)
theory Council_Decisions
  imports Council_Deliberation
begin

text \<open>
  The use cases around a deliberation (\<open>choreo-app/src/usecases\<close>): deciding under an output
  contract (\<open>run_council_decision.rs\<close>), executing the winner (\<open>orchestrate.rs\<close>), dispatching the
  tasks a trigger event asks for (\<open>services/auto_dispatch.rs\<close>), and keeping councils and agents
  (\<open>create_council.rs\<close>, \<open>register_agent.rs\<close>, \<open>prepare_ceremony_participants_use_case.rs\<close> and
  their siblings).
\<close>

section \<open>Ports\<close>

record agent_descriptor =
  ad_id :: rstr
  ad_specialty :: rstr
  ad_kind :: rstr
  ad_attributes :: attributes

record ('w, 'a) engine_ports =
  e_council :: "('w, 'a) council_ports"
  e_register_council :: "council \<Rightarrow> ('w, unit) effect"
  e_list_councils :: "('w, council list) effect"
  e_delete_council :: "rstr \<Rightarrow> ('w, unit) effect"
  e_contract :: "rstr \<Rightarrow> ('w, output_contract) effect"
  e_get_deliberation :: "rstr \<Rightarrow> ('w, deliberation) effect"
  e_record_orchestration :: "duration_ms \<Rightarrow> ('w, unit) effect"
  e_execute :: "proposal \<Rightarrow> attributes \<Rightarrow> ('w, execution_outcome) effect"
  e_create_agent :: "agent_descriptor \<Rightarrow> ('w, 'a) effect"
  e_register_agent :: "'a \<Rightarrow> ('w, unit) effect"
  e_unregister_agent :: "rstr \<Rightarrow> ('w, unit) effect"
  e_instant :: "'w \<Rightarrow> nat"
  e_fmt :: "f64 \<Rightarrow> rstr"
  e_source :: rstr

text \<open>
  \<open>e_instant\<close> reads the monotonic clock in nanoseconds, \<open>e_fmt\<close> renders a floating-point number,
  and \<open>e_source\<close> is the name the orchestrator signs its events with.
\<close>

section \<open>Councils and agents\<close>

record create_council_input =
  cci_council_id :: rstr
  cci_specialty :: rstr
  cci_agents :: "rstr list"

definition CreateCouncilUseCase_execute ::
    "('w, 'a) engine_ports \<Rightarrow> create_council_input \<Rightarrow> ('w, council) effect" where
  "CreateCouncilUseCase_execute ports input =
     eff_bind (resolve_all (e_council ports) (cci_agents input)) (\<lambda>_.
     eff_bind (eff_get (c_now (e_council ports))) (\<lambda>now.
     eff_bind (eff_lift (Council_new (cci_council_id input) (cci_specialty input) (cci_agents input) now)) (\<lambda>council.
     eff_bind (e_register_council ports council) (\<lambda>_.
     eff_lift (Inr council)))))"

definition DeleteCouncilUseCase_execute :: "('w, 'a) engine_ports \<Rightarrow> rstr \<Rightarrow> ('w, unit) effect" where
  "DeleteCouncilUseCase_execute ports specialty = e_delete_council ports specialty"

definition ListCouncilsUseCase_execute :: "('w, 'a) engine_ports \<Rightarrow> ('w, council list) effect" where
  "ListCouncilsUseCase_execute ports = e_list_councils ports"

definition GetDeliberationUseCase_execute :: "('w, 'a) engine_ports \<Rightarrow> rstr \<Rightarrow> ('w, deliberation) effect" where
  "GetDeliberationUseCase_execute ports tid = e_get_deliberation ports tid"

definition RegisterAgentUseCase_execute :: "('w, 'a) engine_ports \<Rightarrow> agent_descriptor \<Rightarrow> ('w, rstr) effect" where
  "RegisterAgentUseCase_execute ports descriptor =
     eff_bind (e_create_agent ports descriptor) (\<lambda>agent.
     eff_bind (e_register_agent ports agent) (\<lambda>_. eff_lift (Inr (ad_id descriptor))))"

definition UnregisterAgentUseCase_execute :: "('w, 'a) engine_ports \<Rightarrow> rstr \<Rightarrow> ('w, unit) effect" where
  "UnregisterAgentUseCase_execute ports i = e_unregister_agent ports i"

text \<open>An \<open>AlreadyExists\<close> error counts as success; any other error ends the call.\<close>

definition tolerate_existing :: "('w, unit) effect \<Rightarrow> ('w, unit) effect" where
  "tolerate_existing m w =
     (case m w of (Inl (AlreadyExists _), w') \<Rightarrow> (Inr (), w') | (r, w') \<Rightarrow> (r, w'))"

fun prepare_agents ::
    "('w, 'a) engine_ports \<Rightarrow> agent_descriptor list \<Rightarrow> (rstr, rstr btree_set) btree_map
      \<Rightarrow> ('w, (rstr, rstr btree_set) btree_map) effect" where
  "prepare_agents ports [] councils = eff_lift (Inr councils)"
| "prepare_agents ports (p # ps) councils =
     eff_bind (e_create_agent ports p) (\<lambda>agent.
     eff_bind (tolerate_existing (e_register_agent ports agent)) (\<lambda>_.
     prepare_agents ports ps (bt_insert (ad_specialty p)
       (bset_insert (ad_id p) (case bt_get councils (ad_specialty p) of None \<Rightarrow> [] | Some s \<Rightarrow> s)) councils)))"

fun prepare_councils ::
    "('w, 'a) engine_ports \<Rightarrow> (rstr \<times> rstr btree_set) list \<Rightarrow> ('w, unit) effect" where
  "prepare_councils ports [] = eff_lift (Inr ())"
| "prepare_councils ports ((sp, ids) # rest) =
     eff_bind (eff_lift (CouncilId_new (lit ''ceremony-'' @ sp))) (\<lambda>cid.
     eff_bind (eff_get (c_now (e_council ports))) (\<lambda>now.
     eff_bind (eff_lift (Council_new cid sp ids now)) (\<lambda>council.
     eff_bind (tolerate_existing (e_register_council ports council)) (\<lambda>_.
     prepare_councils ports rest))))"

definition PrepareCeremonyParticipantsUseCase_execute ::
    "('w, 'a) engine_ports \<Rightarrow> agent_descriptor list \<Rightarrow> ('w, unit) effect" where
  "PrepareCeremonyParticipantsUseCase_execute ports participants =
     eff_bind (prepare_agents ports participants []) (\<lambda>councils. prepare_councils ports councils)"

section \<open>Deciding under a contract\<close>

record run_council_decision_input =
  rdi_council_selector :: council_selector
  rdi_contract_id :: rstr
  rdi_task_description :: rstr
  rdi_external_context :: "external_context_bundle option"
  rdi_validation_mode :: validation_mode
  rdi_metadata :: task_metadata

record run_council_decision_output =
  rdo_task_id :: rstr
  rdo_winner :: ranked_outcome
  rdo_candidates :: "ranked_outcome list"
  rdo_validation_mode :: validation_mode
  rdo_passed :: bool
  rdo_duration_ms :: duration_ms

definition elapsed_ms :: "nat \<Rightarrow> nat \<Rightarrow> duration_ms" where
  "elapsed_ms started now =
     (let ms = (now - started) div 1000000 in if ms < 2 ^ 64 then word_of_nat ms else - 1)"

fun resolve_specialty :: "('w, 'a) engine_ports \<Rightarrow> council_selector \<Rightarrow> ('w, rstr) effect" where
  "resolve_specialty ports (BySpecialty sp) = eff_lift (Inr sp)"
| "resolve_specialty ports (ById cid) =
     eff_bind (e_list_councils ports) (\<lambda>councils.
     eff_lift (ok_or (map_option council_specialty (find (\<lambda>c. council_id c = cid) councils)) (NotFound ''council'')))"

definition decision_passed ::
    "('w, 'a) engine_ports \<Rightarrow> run_council_decision_input \<Rightarrow> rstr \<Rightarrow> nat \<Rightarrow> deliberate_output
      \<Rightarrow> ('w, run_council_decision_output) effect" where
  "decision_passed ports input tid started out =
     eff_bind (eff_get (e_instant ports)) (\<lambda>now.
     eff_lift (
       and_then (Deliberation_ranked_outcomes (do_deliberation out)) (\<lambda>candidates.
       and_then (ok_or (find (\<lambda>c. prop_id (ro_proposal c) = do_winner_proposal_id out) candidates)
         (InvariantViolated ''winner proposal id not found in ranked outcomes'')) (\<lambda>winner.
       Inr \<lparr>rdo_task_id = tid, rdo_winner = winner, rdo_candidates = candidates,
            rdo_validation_mode = rdi_validation_mode input, rdo_passed = True,
            rdo_duration_ms = elapsed_ms started now\<rparr>))))"

definition decision_warned ::
    "('w, 'a) engine_ports \<Rightarrow> run_council_decision_input \<Rightarrow> rstr \<Rightarrow> nat
      \<Rightarrow> ('w, run_council_decision_output) effect" where
  "decision_warned ports input tid started =
     eff_bind (e_get_deliberation ports tid) (\<lambda>d.
     eff_bind (eff_lift (Deliberation_ranked_outcomes d)) (\<lambda>candidates.
     eff_bind (eff_lift (case candidates of [] \<Rightarrow> Inl (EmptyCollection ''deliberation.ranked'') | r # _ \<Rightarrow> Inr r)) (\<lambda>winner.
     eff_bind (eff_get (e_instant ports)) (\<lambda>now.
     eff_lift (Inr \<lparr>rdo_task_id = tid, rdo_winner = winner, rdo_candidates = candidates,
            rdo_validation_mode = rdi_validation_mode input, rdo_passed = False,
            rdo_duration_ms = elapsed_ms started now\<rparr>)))))"

definition decide_task ::
    "('w, 'a) engine_ports \<Rightarrow> run_council_decision_input \<Rightarrow> task \<Rightarrow> ('w, run_council_decision_output) effect" where
  "decide_task ports input task w =
     (let started = e_instant ports w in
      case DeliberateUseCase_execute (e_council ports) task w of
        (Inr out, w') \<Rightarrow> decision_passed ports input (task_id task) started out w'
      | (Inl (NoValidProposal contract_id), w') \<Rightarrow>
          if rdi_validation_mode input = Warn then decision_warned ports input (task_id task) started w'
          else (Inl (NoValidProposal contract_id), w')
      | (Inl e, w') \<Rightarrow> (Inl e, w'))"

definition RunCouncilDecisionUseCase_execute ::
    "('w, 'a) engine_ports \<Rightarrow> run_council_decision_input \<Rightarrow> ('w, run_council_decision_output) effect" where
  "RunCouncilDecisionUseCase_execute ports input =
     eff_bind (resolve_specialty ports (rdi_council_selector input)) (\<lambda>specialty.
     eff_bind (e_contract ports (rdi_contract_id input)) (\<lambda>contract.
     eff_bind (c_uuid (e_council ports)) (\<lambda>u.
     eff_bind (eff_lift (case TaskId_new u of Inr tid \<Rightarrow> Inr tid
       | Inl _ \<Rightarrow> Inl (InvariantViolated ''generated task id failed validation''))) (\<lambda>tid.
     decide_task ports input
       \<lparr>task_id = tid, task_specialty = specialty, task_description = rdi_task_description input,
        task_constraints_of = TaskConstraints_with_output_contract TaskConstraints_default contract,
        task_attributes = [], task_external_context = rdi_external_context input,
        task_metadata_of = rdi_metadata input\<rparr>))))"

section \<open>Executing the winner\<close>

record orchestrate_output =
  oo_deliberation :: deliberation
  oo_winner :: proposal
  oo_execution :: execution_outcome

fun deliberation_error_kind :: "domain_error \<Rightarrow> rstr" where
  "deliberation_error_kind (NoValidProposal _) = lit ''deliberation.no_valid_proposal''"
| "deliberation_error_kind _ = lit ''deliberation.error''"

definition merge_execution_options :: "attributes \<Rightarrow> attributes \<Rightarrow> attributes outcome" where
  "merge_execution_options profile explicit =
     Attributes_new (fold (\<lambda>(k, v) m. bt_insert k v m) explicit profile)"

text \<open>The envelope of an event, stamped with the clock's time and signed by the orchestrator.\<close>

definition Orchestrate_envelope :: "('w, 'a) engine_ports \<Rightarrow> task_metadata \<Rightarrow> ('w, event_envelope) effect" where
  "Orchestrate_envelope ports m =
     eff_bind (eff_get (c_now (e_council ports))) (\<lambda>now.
     Deliberate_envelope (e_council ports) (e_source ports) now m)"

definition announce_failure ::
    "('w, 'a) engine_ports \<Rightarrow> task \<Rightarrow> rstr \<Rightarrow> rstr \<Rightarrow> ('w, unit) effect" where
  "announce_failure ports task kind reason =
     eff_bind (Orchestrate_envelope ports (task_metadata_of task)) (\<lambda>envelope.
     eff_bind (eff_lift (TaskFailedEvent_new envelope (task_id task) (task_specialty task) kind reason)) (\<lambda>event.
     c_publish (e_council ports) (PublishTaskFailed event)))"

definition announce_dispatch :: "('w, 'a) engine_ports \<Rightarrow> task \<Rightarrow> ('w, unit) effect" where
  "announce_dispatch ports task =
     eff_bind (Orchestrate_envelope ports (task_metadata_of task)) (\<lambda>envelope.
     c_publish (e_council ports) (PublishTaskDispatched
       \<lparr>td_envelope = envelope, td_task_id = task_id task, td_specialty = task_specialty task,
        td_trigger_event_id = tm_source_event_id (task_metadata_of task)\<rparr>))"

definition announce_completion ::
    "('w, 'a) engine_ports \<Rightarrow> task \<Rightarrow> proposal \<Rightarrow> execution_outcome \<Rightarrow> ('w, unit) effect" where
  "announce_completion ports task winner execution =
     eff_bind (Orchestrate_envelope ports (task_metadata_of task)) (\<lambda>envelope.
     c_publish (e_council ports) (PublishTaskCompleted
       \<lparr>tce_envelope = envelope, tce_task_id = task_id task, tce_specialty = task_specialty task,
        tce_agent_id = Some (prop_author winner), tce_duration = eo_duration execution\<rparr>))"

definition execute_winner ::
    "('w, 'a) engine_ports \<Rightarrow> task \<Rightarrow> proposal \<Rightarrow> attributes \<Rightarrow> ('w, execution_outcome) effect" where
  "execute_winner ports task winner options w =
     (case e_execute ports winner options w of
        (Inr execution, w') \<Rightarrow>
          eff_bind (e_record_orchestration ports (eo_duration execution)) (\<lambda>_.
          eff_bind (if eo_succeeded execution then announce_completion ports task winner execution
            else announce_failure ports task (lit ''executor.unsuccessful'')
              (lit ''executor reported unsuccessful outcome'')) (\<lambda>_.
          eff_lift (Inr execution))) w'
      | (Inl err, w') \<Rightarrow>
          eff_bind (announce_failure ports task (lit ''executor.error'') (DomainError_to_string (e_fmt ports) err))
            (\<lambda>_. eff_lift (Inl err)) w')"

definition dispatch_winner ::
    "('w, 'a) engine_ports \<Rightarrow> task \<Rightarrow> attributes \<Rightarrow> deliberate_output \<Rightarrow> ('w, orchestrate_output) effect" where
  "dispatch_winner ports task options out =
     eff_bind (eff_lift (ok_or (bt_get (del_proposals (do_deliberation out)) (do_winner_proposal_id out))
       (NotFound ''winner proposal''))) (\<lambda>winner.
     eff_bind (announce_dispatch ports task) (\<lambda>_.
     eff_bind (eff_lift (merge_execution_options (tm_execution_profile (task_metadata_of task)) options)) (\<lambda>merged.
     eff_bind (execute_winner ports task winner merged) (\<lambda>execution.
     eff_lift (Inr \<lparr>oo_deliberation = do_deliberation out, oo_winner = winner, oo_execution = execution\<rparr>)))))"

definition OrchestrateUseCase_execute ::
    "('w, 'a) engine_ports \<Rightarrow> task \<Rightarrow> attributes \<Rightarrow> ('w, orchestrate_output) effect" where
  "OrchestrateUseCase_execute ports task options w =
     (case DeliberateUseCase_execute (e_council ports) task w of
        (Inr out, w') \<Rightarrow> dispatch_winner ports task options out w'
      | (Inl err, w') \<Rightarrow>
          eff_bind (announce_failure ports task (deliberation_error_kind err)
            (DomainError_to_string (e_fmt ports) err)) (\<lambda>_. eff_lift (Inl err)) w')"

section \<open>Dispatching a trigger\<close>

record trigger_event =
  te_envelope :: event_envelope
  te_kind :: rstr
  te_requested_specialties :: "rstr list"
  te_task_description_template :: "rstr option"
  te_constraints :: task_constraints
  te_payload :: attributes
  te_external_context :: "external_context_bundle option"

fun keep_first :: "rstr btree_set \<Rightarrow> rstr list \<Rightarrow> rstr list" where
  "keep_first seen [] = []"
| "keep_first seen (x # xs) = (if x \<in> set seen then keep_first seen xs else x # keep_first (bset_insert x seen) xs)"

definition TriggerEvent_new_with_context ::
    "event_envelope \<Rightarrow> rstr \<Rightarrow> rstr list \<Rightarrow> rstr option \<Rightarrow> task_constraints \<Rightarrow> attributes
      \<Rightarrow> external_context_bundle option \<Rightarrow> trigger_event outcome" where
  "TriggerEvent_new_with_context envelope kind specialties template c payload context =
     (let trimmed = trim kind; unique = keep_first [] specialties in
      if trimmed = [] then Inl (EmptyField ''trigger.kind'')
      else if 128 < str_len trimmed then Inl (FieldTooLong ''trigger.kind'' (str_len trimmed) 128)
      else if unique = [] then Inl (EmptyCollection ''trigger.requested_specialties'')
      else Inr \<lparr>te_envelope = envelope, te_kind = trimmed, te_requested_specialties = unique,
                te_task_description_template = template, te_constraints = c, te_payload = payload,
                te_external_context = context\<rparr>)"

definition AutoDispatchService_new :: "rstr \<Rightarrow> rstr outcome" where
  "AutoDispatchService_new text =
     (if trim text = [] then Inl (EmptyField ''auto_dispatch.default_description'') else Inr text)"

record auto_dispatch_outcome =
  ado_successes :: "(rstr \<times> deliberation) list"
  ado_failures :: "(rstr \<times> domain_error) list"

definition AutoDispatchOutcome_accepted :: "auto_dispatch_outcome \<Rightarrow> bool" where
  "AutoDispatchOutcome_accepted x = (ado_successes x \<noteq> [])"

definition AutoDispatchOutcome_dispatched_task_ids :: "auto_dispatch_outcome \<Rightarrow> rstr list" where
  "AutoDispatchOutcome_dispatched_task_ids x = map (\<lambda>(_, d). del_task_id d) (ado_successes x)"

definition build_task ::
    "('w, 'a) engine_ports \<Rightarrow> rstr \<Rightarrow> rstr \<Rightarrow> task_constraints \<Rightarrow> attributes \<Rightarrow> external_context_bundle option
      \<Rightarrow> task_metadata \<Rightarrow> ('w, task) effect" where
  "build_task ports specialty description c attrs context m =
     eff_bind (c_uuid (e_council ports)) (\<lambda>u.
     eff_lift (map_ok (\<lambda>tid. \<lparr>task_id = tid, task_specialty = specialty, task_description = description,
       task_constraints_of = c, task_attributes = attrs, task_external_context = context,
       task_metadata_of = m\<rparr>) (TaskId_new u)))"

fun dispatch_loop ::
    "('w, 'a) engine_ports \<Rightarrow> trigger_event \<Rightarrow> rstr \<Rightarrow> rstr list \<Rightarrow> auto_dispatch_outcome
      \<Rightarrow> ('w, auto_dispatch_outcome) effect" where
  "dispatch_loop ports event description [] acc = eff_lift (Inr acc)"
| "dispatch_loop ports event description (sp # sps) acc =
     eff_bind (build_task ports sp description (te_constraints event) (te_payload event) (te_external_context event)
       (TaskMetadata_from_trigger_envelope (te_envelope event))) (\<lambda>task w.
     case DeliberateUseCase_execute (e_council ports) task w of
       (Inr out, w') \<Rightarrow> dispatch_loop ports event description sps
         (acc\<lparr>ado_successes := ado_successes acc @ [(sp, do_deliberation out)]\<rparr>) w'
     | (Inl e, w') \<Rightarrow> dispatch_loop ports event description sps
         (acc\<lparr>ado_failures := ado_failures acc @ [(sp, e)]\<rparr>) w')"

definition AutoDispatchService_dispatch ::
    "('w, 'a) engine_ports \<Rightarrow> rstr \<Rightarrow> trigger_event \<Rightarrow> ('w, auto_dispatch_outcome) effect" where
  "AutoDispatchService_dispatch ports default_description event =
     eff_bind (eff_lift (TaskDescription_new
       (case te_task_description_template event of Some d \<Rightarrow> d | None \<Rightarrow> default_description))) (\<lambda>description.
     dispatch_loop ports event description (te_requested_specialties event) \<lparr>ado_successes = [], ado_failures = []\<rparr>)"

section \<open>Where the error of a missing valid proposal comes from\<close>

text \<open>
  Only the choice of the winner makes the error \<open>NoValidProposal\<close>; a port call that fails fails
  with another one.  \<open>plain\<close> says so of an effect.
\<close>

named_theorems plain_intros

definition plain :: "('w, 'b) effect \<Rightarrow> bool" where
  "plain m = (\<forall>w k. fst (m w) \<noteq> Inl (NoValidProposal k))"

lemma plain_bind [plain_intros]: "plain m \<Longrightarrow> (\<And>x. plain (f x)) \<Longrightarrow> plain (eff_bind m f)"
  by (auto simp: plain_def eff_bind_def split: prod.splits sum.splits) (metis fst_conv)+

lemma plain_lift [plain_intros]: "(\<And>k. r \<noteq> Inl (NoValidProposal k)) \<Longrightarrow> plain (eff_lift r)"
  by (simp add: plain_def eff_lift_def)

lemma plain_get [plain_intros]: "plain (eff_get f)" and plain_do [plain_intros]: "plain (eff_do g)"
  by (simp_all add: plain_def eff_get_def eff_do_def)

lemma plain_cases [plain_intros]:
  "(b \<Longrightarrow> plain m) \<Longrightarrow> (\<not> b \<Longrightarrow> plain n) \<Longrightarrow> plain (if b then m else n)"
  "(\<And>x y. plain (f x y)) \<Longrightarrow> plain (case p of (x, y) \<Rightarrow> f x y)"
  by (auto split: prod.split)

lemma plain_outcome:
  assumes "plain m"
  shows "m w \<noteq> (Inl (NoValidProposal k), w')"
  using assms by (metis fst_conv plain_def)

lemma checked_text_plain: "checked_text field n bad raw \<noteq> Inl (NoValidProposal k)"
  by (auto simp: checked_text_def Let_def split: option.splits)

lemma id_new_plain:
  "ProposalId_new raw \<noteq> Inl (NoValidProposal k)" "EventId_new raw \<noteq> Inl (NoValidProposal k)"
  by (simp_all add: ProposalId_new_def EventId_new_def validate_id_def checked_text_plain)

lemma deliberation_ops_plain:
  "Proposal_new pid author sp content attrs now \<noteq> Inl (NoValidProposal k)"
  "Deliberation_add_proposal d p \<noteq> Inl (NoValidProposal k)"
  "Deliberation_revise_proposal d pid content now \<noteq> Inl (NoValidProposal k)"
  "Deliberation_attach_outcome d pid v \<noteq> Inl (NoValidProposal k)"
  "Deliberation_advance d \<noteq> Inl (NoValidProposal k)"
  "EventEnvelope_new_with_causation eid t src cor cau \<noteq> Inl (NoValidProposal k)"
  by (auto simp: Proposal_new_def Deliberation_add_proposal_def Deliberation_revise_proposal_def Proposal_revise_def
      Deliberation_attach_outcome_def Deliberation_advance_def EventEnvelope_new_with_causation_def require_phase_def
      Let_def result_simps split: if_splits)

text \<open>
  The environment of a decision: reading a deliberation returns the stored one, no port call
  fails with \<open>NoValidProposal\<close>, and looking up councils and contracts leaves the registry sane.
\<close>

locale decision_environment =
  council_environment "e_council ports" stored tid sane
  for ports :: "('w, 'a) engine_ports" and stored :: "'w \<Rightarrow> deliberation option" and tid :: rstr and sane :: "'w \<Rightarrow> bool" +
  assumes gets: "e_get_deliberation ports tid w = (Inr d, w') \<Longrightarrow> stored w = Some d \<and> stored w' = Some d"
    and list_sane: "e_list_councils ports w = (Inr cs, w') \<Longrightarrow> sane w \<Longrightarrow> sane w'"
    and contract_sane: "e_contract ports k w = (Inr oc, w') \<Longrightarrow> sane w \<Longrightarrow> sane w'"
    and uuid_sane: "c_uuid (e_council ports) w = (Inr u, w') \<Longrightarrow> sane w \<Longrightarrow> sane w'"
    and council_plain: "plain (c_council (e_council ports) sp)"
    and resolve_plain: "plain (c_resolve (e_council ports) i)"
    and generate_plain: "plain (c_generate (e_council ports) a rq)"
    and critique_plain: "plain (c_critique (e_council ports) a content c)"
    and revise_plain: "plain (c_revise (e_council ports) a content feedback)"
    and validators_plain: "v \<in> set (c_validators (e_council ports)) \<Longrightarrow> plain (v content c)"
    and score_plain: "plain (c_score (e_council ports) rs)"
    and save_plain: "plain (c_save (e_council ports) dl)"
    and record_plain: "plain (c_record_deliberation (e_council ports) sp dur)"
    and uuid_plain: "plain (c_uuid (e_council ports))"
    and publish_plain: "plain (c_publish (e_council ports) msg)"
begin

lemmas port_plain = council_plain resolve_plain generate_plain critique_plain revise_plain score_plain save_plain
  record_plain uuid_plain publish_plain

lemma resolve_all_plain: "plain (resolve_all (e_council ports) ids)"
  by (induction ids) (auto intro!: plain_intros resolve_plain)

lemma seed_loop_plain: "plain (seed_loop (e_council ports) task now as d)"
  by (induction as arbitrary: d)
    (auto intro!: plain_intros port_plain simp: seed_proposal_def new_proposal_id_def id_new_plain result_simps
      deliberation_ops_plain)

lemma review_plain: "plain (review_pass (e_council ports) c pairs d)"
  by (induction pairs arbitrary: d)
    (auto intro!: plain_intros port_plain simp: peer_review_def result_simps deliberation_ops_plain)

lemma rounds_plain: "plain (review_rounds (e_council ports) c pairs n d)"
  by (induction n arbitrary: d) (auto intro!: plain_intros review_plain)

lemma run_validators_plain: "set vs \<subseteq> set (c_validators (e_council ports)) \<Longrightarrow> plain (run_validators vs content c)"
  by (induction vs) (auto intro!: plain_intros validators_plain)

lemma attach_plain: "plain (attach_loop (e_council ports) c pids d)"
  by (induction pids arbitrary: d)
    (auto intro!: plain_intros run_validators_plain port_plain simp: attach_validation_def result_simps
      deliberation_ops_plain)

lemma advance_plain: "plain (advance_with_observer (e_council ports) observer d)"
  by (auto intro!: plain_intros simp: advance_with_observer_def deliberation_ops_plain)

lemma envelope_plain: "plain (Deliberate_envelope (e_council ports) src t m)"
  by (auto intro!: plain_intros port_plain simp: Deliberate_envelope_def new_event_id_def id_new_plain
      deliberation_ops_plain)

lemma to_scoring_plain: "plain (deliberate_to_scoring (e_council ports) observer task)"
  unfolding deliberate_to_scoring_def resolve_agents_def seed_proposals_def run_peer_review_rounds_def
    attach_validations_def Let_def
  by (auto intro!: plain_intros port_plain resolve_all_plain seed_loop_plain rounds_plain attach_plain advance_plain)

lemma finalize_none:
  assumes fin: "finalize (e_council ports) d ranked task t discr w = (Inl (NoValidProposal k), w')" and tid: "del_task_id d = tid"
  shows "pick_winner ranked (task_constraints_of task) = Inl (NoValidProposal k)" and "stored w' = Some d"
proof -
  let ?sp = "del_specialty d"
  have "\<exists>e. pick_winner ranked (task_constraints_of task) = Inl e"
  proof (rule ccontr)
    assume "\<not> ?thesis"
    then obtain winner where "pick_winner ranked (task_constraints_of task) = Inr winner"
      by (cases "pick_winner ranked (task_constraints_of task)") auto
    then have "plain (finalize (e_council ports) d ranked task t discr)"
      by (auto intro!: plain_intros port_plain envelope_plain simp: finalize_def finalize_winner_def Let_def split: option.split)
    then show False using plain_outcome fin by metis
  qed
  then obtain e where e: "pick_winner ranked (task_constraints_of task) = Inl e" ..
  define dur where "dur = (case Deliberation_duration (c_whole_ms (e_council ports)) d of None \<Rightarrow> 0 | Some x \<Rightarrow> x)"
  define noting where "noting = (case discr of None \<Rightarrow> eff_lift (Inr ())
      | Some r \<Rightarrow> eff_do (c_metric (e_council ports) (RecordDiscrimination ?sp r)))"
  obtain u w1 where save: "c_save (e_council ports) d w = (Inr u, w1)"
    using fin plain_outcome [OF save_plain] by (auto simp: finalize_def eff_bind_split)
  obtain u1 w2 where rec: "c_record_deliberation (e_council ports) ?sp dur w1 = (Inr u1, w2)"
    using fin save plain_outcome [OF record_plain]
    by (auto simp: finalize_def eff_bind_split Let_def dur_def [symmetric])
  define w3 where "w3 = snd (noting (c_metric (e_council ports) (ObserveDeliberationDuration ?sp dur) w2))"
  have noting: "noting (c_metric (e_council ports) (ObserveDeliberationDuration ?sp dur) w2) = (Inr (), w3)"
    by (cases discr) (simp_all add: noting_def w3_def eff_lift_def eff_do_def)
  have "finalize (e_council ports) d ranked task t discr w =
      (Inl e, c_metric (e_council ports) (RecordDeliberationOutcome ?sp Deliberation_NoValidProposal) w3)"
    using save rec noting e
    by (simp add: finalize_def finalize_winner_def dur_def [symmetric] noting_def [symmetric] eff_bind_def eff_do_def
        eff_lift_def)
  with fin have eq: "e = NoValidProposal k"
    "w' = c_metric (e_council ports) (RecordDeliberationOutcome ?sp Deliberation_NoValidProposal) w3" by simp_all
  with e show "pick_winner ranked (task_constraints_of task) = Inl (NoValidProposal k)" by simp
  show "stored w' = Some d"
    using saves [OF save tid] record_keeps [OF rec] finalize_metrics_keep [OF noting [unfolded noting_def]]
    by (simp add: eq metric_keeps)
qed

lemma deliberate_none:
  assumes run: "DeliberateUseCase_execute (e_council ports) task w = (Inl (NoValidProposal k), w')"
    and "sane w" and "task_id task = tid"
  obtains d ranked where "stored w' = Some d" and "Deliberation_ranked_outcomes d = Inr ranked"
    and "decided (task_constraints_of task) ranked"
    and "pick_winner ranked (task_constraints_of task) = Inl (NoValidProposal k)"
proof -
  note run' = run [unfolded DeliberateUseCase_execute_def]
  have "\<exists>d6 w1. deliberate_to_scoring (e_council ports) NullObserver task w = (Inr d6, w1)"
    using run' plain_outcome [OF to_scoring_plain]
    by (auto simp: DeliberateUseCase_execute_with_observer_def eff_bind_split)
  then obtain d6 w1 where d6: "deliberate_to_scoring (e_council ports) NullObserver task w = (Inr d6, w1)" by blast
  show thesis
  proof (rule run_parts [OF d6 assms(2,3) run'])
    fix seats d2 R council w0 w2 discr
    assume "del_task_id d2 = tid" "Deliberation_ranked_outcomes d2 = Inr R" "decided (task_constraints_of task) R"
      and fin: "finalize (e_council ports) d2 R task (c_now (e_council ports) w1) discr w2 = (Inl (NoValidProposal k), w')"
    with finalize_none [OF fin] that show thesis by blast
  qed
qed

text \<open>A decision: the candidates are those of the stored deliberation, its winner is their head.\<close>

lemma decide_task_ok:
  assumes run: "decide_task ports input task w = (Inr out, w')" and sane: "sane w" and tid: "task_id task = tid"
    and contract: "tc_output_contract (task_constraints_of task) = Some contract"
  obtains d where "stored w' = Some d" and "Deliberation_ranked_outcomes d = Inr (rdo_candidates out)"
    and "decided (task_constraints_of task) (rdo_candidates out)" and "rdo_candidates out \<noteq> []"
    and "rdo_winner out = hd (rdo_candidates out)"
    and "rdo_passed out \<longleftrightarrow> (\<exists>r \<in> set (rdo_candidates out). ValidationOutcome_all_passed (ro_outcome r))"
    and "rdo_passed out \<or> rdi_validation_mode input = Warn" and "rdo_task_id out = tid"
    and "rdo_passed out \<longrightarrow> fully_reported (e_council ports) (task_constraints_of task) d"
proof (cases "DeliberateUseCase_execute (e_council ports) task w")
  case (Pair r w1)
  show thesis
  proof (cases r)
    case (Inr dout)
    note del = Pair [unfolded Inr DeliberateUseCase_execute_def]
    have pass: "decision_passed ports input tid (e_instant ports w) dout w1 = (Inr out, w')"
      using run Pair Inr tid by (simp add: decide_task_def)
    from deliberate_ok [OF del sane tid] obtain d ranked winner seats where d: "stored w1 = Some d"
        "Deliberation_ranked_outcomes d = Inr ranked" and all: "deliberated (e_council ports) task seats d"
      and dec: "decided (task_constraints_of task) ranked"
      and win: "pick_winner ranked (task_constraints_of task) = Inr winner"
      and dout: "dout = \<lparr>do_deliberation = d, do_winner_proposal_id = prop_id (ro_proposal winner)\<rparr>" by metis
    from dec win contract have hd: "ranked \<noteq> []" "hd ranked = winner" "ValidationOutcome_all_passed (ro_outcome winner)"
      by (simp_all add: decided_def)
    then have "find (\<lambda>c. prop_id (ro_proposal c) = prop_id (ro_proposal winner)) ranked = Some winner"
      by (cases ranked) auto
    with pass d dout have out: "rdo_candidates out = ranked" "rdo_winner out = winner" "rdo_passed out"
        "rdo_task_id out = tid" "w' = w1"
      by (auto simp: decision_passed_def eff_bind_def eff_get_def eff_lift_def)
    from hd have "\<exists>r \<in> set ranked. ValidationOutcome_all_passed (ro_outcome r)" by (metis list.set_sel(1))
    with that [of d] d dec hd out all show thesis by (simp add: deliberated_def)
  next
    case (Inl e)
    with run Pair obtain k where e: "e = NoValidProposal k" and warn: "rdi_validation_mode input = Warn"
      and dw: "decision_warned ports input tid (e_instant ports w) w1 = (Inr out, w')"
      by (cases e) (auto simp: decide_task_def tid split: if_splits)
    from deliberate_none [OF Pair [unfolded Inl e] sane tid] obtain d ranked where d: "stored w1 = Some d"
        "Deliberation_ranked_outcomes d = Inr ranked" and dec: "decided (task_constraints_of task) ranked"
      and none: "pick_winner ranked (task_constraints_of task) = Inl (NoValidProposal k)" .
    from dec none have all: "ranked \<noteq> []" "\<forall>r \<in> set ranked. \<not> ValidationOutcome_all_passed (ro_outcome r)"
      by (simp_all add: decided_def)
    from dw obtain d' w2 where get: "e_get_deliberation ports tid w1 = (Inr d', w2)"
      by (auto simp: decision_warned_def eff_bind_Inr)
    with gets d have d': "d' = d" "stored w2 = Some d" by auto
    from dw get d d' all have out: "rdo_candidates out = ranked" "rdo_winner out = hd ranked" "\<not> rdo_passed out"
        "rdo_task_id out = tid" "w' = w2"
      by (auto simp: decision_warned_def eff_bind_def eff_get_def eff_lift_def split: list.splits)
    with that [of d] d d' dec all warn show thesis by simp
  qed
qed

lemma decision_ok:
  assumes run: "RunCouncilDecisionUseCase_execute ports input w = (Inr out, w')" and sane: "sane w"
    and tid: "rdo_task_id out = tid"
  obtains d where "stored w' = Some d" and "Deliberation_ranked_outcomes d = Inr (rdo_candidates out)"
    and "rdo_candidates out \<noteq> []" and "rdo_winner out = hd (rdo_candidates out)"
    and "rdo_passed out \<longleftrightarrow> (\<exists>r \<in> set (rdo_candidates out). ValidationOutcome_all_passed (ro_outcome r))"
    and "rdo_passed out \<longrightarrow> ValidationOutcome_all_passed (ro_outcome (rdo_winner out)) \<and>
      (\<forall>r \<in> set (tl (rdo_candidates out)). ranks_before (rdo_winner out) r \<or> \<not> ValidationOutcome_all_passed (ro_outcome r))"
    and "rdo_passed out \<or> rdi_validation_mode input = Warn"
    and "\<exists>sp w1 contract w2 c. resolve_specialty ports (rdi_council_selector input) w = (Inr sp, w1) \<and>
      e_contract ports (rdi_contract_id input) w1 = (Inr contract, w2) \<and> tc_output_contract c = Some contract \<and>
      (rdo_passed out \<longrightarrow> fully_reported (e_council ports) c d)"
proof -
  from run obtain sp w1 contract w2 u w3 task where sp: "resolve_specialty ports (rdi_council_selector input) w = (Inr sp, w1)"
    and oc: "e_contract ports (rdi_contract_id input) w1 = (Inr contract, w2)"
    and u: "c_uuid (e_council ports) w2 = (Inr u, w3)" and dec: "decide_task ports input task w3 = (Inr out, w')"
    and c: "tc_output_contract (task_constraints_of task) = Some contract"
    by (fastforce simp: RunCouncilDecisionUseCase_execute_def eff_bind_Inr TaskConstraints_with_output_contract_def)
  have "sane w1" using sp sane list_sane by (cases "rdi_council_selector input") (auto simp: eff_bind_Inr)
  then have s: "sane w3" using contract_sane [OF oc] uuid_sane [OF u] by blast
  have "task_id task = tid" using dec tid
    by (auto simp: decide_task_def decision_passed_def decision_warned_def eff_bind_Inr result_simps Let_def
        split: prod.splits sum.splits domain_error.splits if_splits)
  from decide_task_ok [OF dec s this c] obtain d where d: "stored w' = Some d"
      "Deliberation_ranked_outcomes d = Inr (rdo_candidates out)" "decided (task_constraints_of task) (rdo_candidates out)"
      "rdo_candidates out \<noteq> []" "rdo_winner out = hd (rdo_candidates out)"
      "rdo_passed out \<longleftrightarrow> (\<exists>r \<in> set (rdo_candidates out). ValidationOutcome_all_passed (ro_outcome r))"
      "rdo_passed out \<or> rdi_validation_mode input = Warn"
      "rdo_passed out \<longrightarrow> fully_reported (e_council ports) (task_constraints_of task) d" .
  have "rdo_passed out \<longrightarrow> ValidationOutcome_all_passed (ro_outcome (rdo_winner out)) \<and>
      (\<forall>r \<in> set (tl (rdo_candidates out)). ranks_before (rdo_winner out) r \<or> \<not> ValidationOutcome_all_passed (ro_outcome r))"
    using d(3,5,6) c by (auto simp: decided_def split: sum.splits)
  moreover have "\<exists>sp w1 contract w2 c. resolve_specialty ports (rdi_council_selector input) w = (Inr sp, w1) \<and>
      e_contract ports (rdi_contract_id input) w1 = (Inr contract, w2) \<and> tc_output_contract c = Some contract \<and>
      (rdo_passed out \<longrightarrow> fully_reported (e_council ports) c d)"
    using sp oc c d(8) by blast
  ultimately show thesis using d that by blast
qed

end

end
