(* ===== verification/Council_Engine.thy ===== *)
theory Council_Engine
  imports Council_Decisions
begin

text \<open>
  The council engine on its in-memory registries, and what its use cases promise there.  What
  the engine does not contain (agents, validators, the executor, the message bus, clocks and
  identifiers) is a parameter: the record \<open>outside\<close>.  The locale \<open>announcing_environment\<close> is the
  contract of the message bus; the locales of the deliberation and of the decision are
  interpreted here on the registries.
\<close>

section \<open>The messages of an orchestration\<close>

text \<open>An observation of the world that an effect leaves as it is.\<close>

named_theorems keeps_intros

definition keeps :: "('w \<Rightarrow> 'o) \<Rightarrow> ('w, 'b) effect \<Rightarrow> bool" where
  "keeps obs m = (\<forall>w. obs (snd (m w)) = obs w)"

lemma keeps_bind [keeps_intros]: "keeps obs m \<Longrightarrow> (\<And>x. keeps obs (f x)) \<Longrightarrow> keeps obs (eff_bind m f)"
  by (auto simp: keeps_def eff_bind_def split: prod.splits sum.splits) (metis snd_conv)+

lemma keeps_lift [keeps_intros]: "keeps obs (eff_lift r)" and keeps_get [keeps_intros]: "keeps obs (eff_get g)"
  by (simp_all add: keeps_def eff_lift_def eff_get_def)

lemma keeps_do [keeps_intros]: "(\<And>w. obs (f w) = obs w) \<Longrightarrow> keeps obs (eff_do f)"
  by (simp add: keeps_def eff_do_def)

lemma keeps_cases [keeps_intros]:
  "(b \<Longrightarrow> keeps obs m) \<Longrightarrow> (\<not> b \<Longrightarrow> keeps obs n) \<Longrightarrow> keeps obs (if b then m else n)"
  "(\<And>x y. keeps obs (f x y)) \<Longrightarrow> keeps obs (case p of (x, y) \<Rightarrow> f x y)"
  by (auto split: prod.split)

lemma keepsD: "keeps obs m \<Longrightarrow> m w = (r, w') \<Longrightarrow> obs w' = obs w"
  by (metis keeps_def snd_conv)

datatype message_kind = KDispatched | KCompleted | KFailed | KDeliberated | KPhase

fun message_kind_of :: "council_message \<Rightarrow> message_kind" where
  "message_kind_of (PublishTaskDispatched _) = KDispatched"
| "message_kind_of (PublishTaskCompleted _) = KCompleted"
| "message_kind_of (PublishTaskFailed _) = KFailed"
| "message_kind_of (PublishDeliberationCompleted _) = KDeliberated"
| "message_kind_of (PublishPhaseChanged _) = KPhase"

fun message_task :: "council_message \<Rightarrow> rstr" where
  "message_task (PublishTaskDispatched e) = td_task_id e"
| "message_task (PublishTaskCompleted e) = tce_task_id e"
| "message_task (PublishTaskFailed e) = tfe_task_id e"
| "message_task (PublishDeliberationCompleted e) = dce_task_id e"
| "message_task (PublishPhaseChanged e) = pce_task_id e"

text \<open>
  One message of a kind about a task was published, or the call failed without doing so;
  \<open>announces\<close> says that this is all an effect publishes.
\<close>

definition announced ::
    "('w \<Rightarrow> council_message list) \<Rightarrow> rstr \<Rightarrow> message_kind \<Rightarrow> 'w \<Rightarrow> 'b outcome \<times> 'w \<Rightarrow> bool" where
  "announced published tid kind w x =
     (published (snd x) = published w \<and> \<not> is_ok (fst x) \<or>
      (\<exists>msg. published (snd x) = published w @ [msg] \<and> message_kind_of msg = kind \<and> message_task msg = tid))"

definition announces :: "('w \<Rightarrow> council_message list) \<Rightarrow> rstr \<Rightarrow> message_kind \<Rightarrow> ('w, 'b) effect \<Rightarrow> bool" where
  "announces published tid kind m = (\<forall>w. announced published tid kind w (m w))"

lemma announcesD: "announces published tid kind m \<Longrightarrow> m w = x \<Longrightarrow> announced published tid kind w x"
  by (auto simp: announces_def)

lemma announces_after:
  assumes "keeps published m" and "\<And>x. announces published tid k (f x)"
  shows "announces published tid k (eff_bind m f)"
  unfolding announces_def
proof
  fix w
  obtain r w1 where m: "m w = (r, w1)" by (cases "m w")
  note kept = keepsD [OF assms(1) m]
  show "announced published tid k w (eff_bind m f w)"
  proof (cases r)
    case (Inl e)
    then show ?thesis using m kept by (simp add: eff_bind_def announced_def)
  next
    case (Inr x)
    then show ?thesis using m kept announcesD [OF assms(2) [of x] refl, where w = w1] by (simp add: eff_bind_def announced_def)
  qed
qed

lemma announces_before:
  assumes "announces published tid k m" and "\<And>x. keeps published (f x)"
  shows "announces published tid k (eff_bind m f)"
  unfolding announces_def
proof
  fix w
  obtain r w1 where m: "m w = (r, w1)" by (cases "m w")
  note ann = announcesD [OF assms(1) m]
  show "announced published tid k w (eff_bind m f w)"
  proof (cases r)
    case (Inl e)
    then show ?thesis using m ann by (simp add: eff_bind_def announced_def)
  next
    case (Inr x)
    moreover have "published (snd (f x w1)) = published w1" using assms(2) [of x] by (simp add: keeps_def)
    ultimately show ?thesis using m ann by (simp add: eff_bind_def announced_def)
  qed
qed

text \<open>
  What the bus may have seen of an orchestration: the deliberation, the dispatch of its winner,
  and then one report of how the task ended; a failure may be reported earlier.
\<close>

definition orchestration_trace :: "message_kind list \<Rightarrow> bool" where
  "orchestration_trace ks = (ks \<in> set [[], [KDeliberated], [KFailed], [KDeliberated, KFailed], [KDeliberated, KDispatched],
     [KDeliberated, KDispatched, KCompleted], [KDeliberated, KDispatched, KFailed]])"

text \<open>
  \<open>published\<close> is what the bus carries about the task \<open>tid\<close>.  Publishing a message adds it; a
  call that fails may have delivered it all the same.  No other call publishes.
\<close>

locale announcing_environment =
  decision_environment ports stored tid sane
  for ports :: "('w, 'a) engine_ports" and stored :: "'w \<Rightarrow> deliberation option" and tid :: rstr and sane :: "'w \<Rightarrow> bool" +
  fixes published :: "'w \<Rightarrow> council_message list"
  assumes publishes: "c_publish (e_council ports) msg w = (Inr u, w') \<Longrightarrow> message_task msg = tid \<Longrightarrow>
      published w' = published w @ [msg]"
    and publish_fails: "c_publish (e_council ports) msg w = (Inl e, w') \<Longrightarrow> message_task msg = tid \<Longrightarrow>
      published w' = published w \<or> published w' = published w @ [msg]"
    and council_quiet: "keeps published (c_council (e_council ports) sp)"
    and resolve_quiet: "keeps published (c_resolve (e_council ports) i)"
    and generate_quiet: "keeps published (c_generate (e_council ports) a rq)"
    and critique_quiet: "keeps published (c_critique (e_council ports) a content c)"
    and revise_quiet: "keeps published (c_revise (e_council ports) a content feedback)"
    and validators_quiet: "v \<in> set (c_validators (e_council ports)) \<Longrightarrow> keeps published (v content c)"
    and score_quiet: "keeps published (c_score (e_council ports) rs)"
    and save_quiet: "keeps published (c_save (e_council ports) dl)"
    and record_quiet: "keeps published (c_record_deliberation (e_council ports) sp dur)"
    and metric_quiet: "published (c_metric (e_council ports) mt w) = published w"
    and uuid_quiet: "keeps published (c_uuid (e_council ports))"
    and execute_quiet: "keeps published (e_execute ports p opts)"
    and orchestration_quiet: "keeps published (e_record_orchestration ports dur)"
begin

lemmas port_quiet = council_quiet resolve_quiet generate_quiet critique_quiet revise_quiet score_quiet save_quiet
  record_quiet uuid_quiet execute_quiet orchestration_quiet

lemma resolve_all_quiet: "keeps published (resolve_all (e_council ports) ids)"
  by (induction ids) (auto intro!: keeps_intros port_quiet)

lemma seed_loop_quiet: "keeps published (seed_loop (e_council ports) task now as d)"
  by (induction as arbitrary: d) (auto intro!: keeps_intros port_quiet simp: seed_proposal_def new_proposal_id_def)

lemma review_quiet: "keeps published (review_pass (e_council ports) c pairs d)"
  by (induction pairs arbitrary: d) (auto intro!: keeps_intros port_quiet simp: peer_review_def)

lemma rounds_quiet: "keeps published (review_rounds (e_council ports) c pairs n d)"
  by (induction n arbitrary: d) (auto intro!: keeps_intros review_quiet)

lemma run_validators_quiet:
  "set vs \<subseteq> set (c_validators (e_council ports)) \<Longrightarrow> keeps published (run_validators vs content c)"
  by (induction vs) (auto intro!: keeps_intros validators_quiet)

lemma attach_quiet: "keeps published (attach_loop (e_council ports) c pids d)"
  by (induction pids arbitrary: d)
    (auto intro!: keeps_intros run_validators_quiet port_quiet simp: attach_validation_def)

lemma advance_quiet: "keeps published (advance_with_observer (e_council ports) NullObserver d)"
  by (auto intro!: keeps_intros simp: advance_with_observer_def NullObserver_def)

lemma envelope_quiet: "keeps published (Deliberate_envelope (e_council ports) src t m)"
  by (auto intro!: keeps_intros port_quiet simp: Deliberate_envelope_def new_event_id_def)

lemma orchestrate_envelope_quiet: "keeps published (Orchestrate_envelope ports m)"
  by (auto intro!: keeps_intros envelope_quiet simp: Orchestrate_envelope_def)

lemma to_scoring_quiet: "keeps published (deliberate_to_scoring (e_council ports) NullObserver task)"
  unfolding deliberate_to_scoring_def resolve_agents_def seed_proposals_def run_peer_review_rounds_def
    attach_validations_def Let_def NullObserver_def [abs_def, symmetric]
  by (auto intro!: keeps_intros port_quiet resolve_all_quiet seed_loop_quiet rounds_quiet attach_quiet advance_quiet
      simp: NullObserver_def)

lemma publish_announces:
  assumes "message_task msg = tid"
  shows "announces published tid (message_kind_of msg) (c_publish (e_council ports) msg)"
  unfolding announces_def
proof
  fix w
  obtain r w1 where m: "c_publish (e_council ports) msg w = (r, w1)" by (cases "c_publish (e_council ports) msg w")
  show "announced published tid (message_kind_of msg) w (c_publish (e_council ports) msg w)"
    using m publishes [OF _ assms, of w] publish_fails [OF _ assms, of w] assms
    by (cases r) (auto simp: announced_def)
qed

lemma finalize_announces:
  assumes "del_task_id d = tid"
  shows "announces published tid KDeliberated (finalize (e_council ports) d ranked task t discr)"
proof -
  have msg: "announces published tid KDeliberated (c_publish (e_council ports) (PublishDeliberationCompleted e))"
    if "dce_task_id e = tid" for e
    using publish_announces [of "PublishDeliberationCompleted e"] that by simp
  have win: "keeps published (finalize_winner (e_council ports) d ranked c)" for c
    by (auto simp: finalize_winner_def split: sum.split intro!: keeps_intros metric_quiet)
  have discr: "keeps published (case discr of None \<Rightarrow> eff_lift (Inr ())
      | Some r \<Rightarrow> eff_do (c_metric (e_council ports) (RecordDiscrimination (del_specialty d) r)))"
    by (auto split: option.split intro!: keeps_intros metric_quiet)
  show ?thesis
    unfolding finalize_def Let_def
    by ((rule announces_after,
        (rule save_quiet | rule record_quiet | rule envelope_quiet | rule win | rule discr | (rule keeps_do, rule metric_quiet)))+,
      rule announces_before, rule msg, simp add: assms, rule keeps_lift)
qed

lemma deliberate_announces:
  assumes run: "DeliberateUseCase_execute (e_council ports) task w = x" and "sane w" and "task_id task = tid"
  shows "announced published tid KDeliberated w x"
proof (cases "deliberate_to_scoring (e_council ports) NullObserver task w")
  case (Pair r6 w1)
  note run' = run [unfolded DeliberateUseCase_execute_def]
  have quiet: "published w1 = published w" by (rule keepsD [OF to_scoring_quiet Pair])
  show ?thesis
  proof (cases r6)
    case (Inl e)
    then show ?thesis
      using run' Pair quiet by (auto simp: DeliberateUseCase_execute_with_observer_def eff_bind_def announced_def)
  next
    case (Inr d6)
    obtain r w' where x: "x = (r, w')" by (cases x)
    show ?thesis
    proof (rule run_parts [OF Pair [unfolded Inr] assms(2,3) run' [unfolded x]])
      fix seats d2 R council w0 w2 discr
      assume d2: "del_task_id d2 = tid"
        and fin: "finalize (e_council ports) d2 R task (c_now (e_council ports) w1) discr w2 = (r, w')"
        and w2: "w2 = NullObserver tid Completed_phase (c_now (e_council ports) w1) w1"
      then show ?thesis using announcesD [OF finalize_announces [OF d2] fin] quiet
        by (simp add: NullObserver_def announced_def x)
    qed
  qed
qed

lemma announce_failure_announces:
  assumes "task_id task = tid"
  shows "announces published tid KFailed (announce_failure ports task kind reason)"
  unfolding announce_failure_def
proof (rule announces_after [OF orchestrate_envelope_quiet])
  fix x
  show "announces published tid KFailed (eff_bind (eff_lift (TaskFailedEvent_new x (task_id task) (task_specialty task) kind reason))
      (\<lambda>event. c_publish (e_council ports) (PublishTaskFailed event)))"
  proof (cases "TaskFailedEvent_new x (task_id task) (task_specialty task) kind reason")
    case (Inl e)
    then show ?thesis by (auto simp: announces_def announced_def eff_bind_def eff_lift_def)
  next
    case (Inr event)
    then have "message_task (PublishTaskFailed event) = tid" using assms by (auto simp: TaskFailedEvent_new_def split: if_splits)
    from publish_announces [OF this] Inr show ?thesis by (simp add: announces_def eff_bind_def eff_lift_def)
  qed
qed

lemma announce_dispatch_announces: "task_id task = tid \<Longrightarrow> announces published tid KDispatched (announce_dispatch ports task)"
  unfolding announce_dispatch_def
  using publish_announces [of "PublishTaskDispatched e" for e] by (auto intro!: announces_after orchestrate_envelope_quiet)

lemma announce_completion_announces:
  "task_id task = tid \<Longrightarrow> announces published tid KCompleted (announce_completion ports task winner execution)"
  unfolding announce_completion_def
  using publish_announces [of "PublishTaskCompleted e" for e] by (auto intro!: announces_after orchestrate_envelope_quiet)

lemma execute_winner_announces:
  assumes "execute_winner ports task winner opts w = (r, w')" and tid: "task_id task = tid"
  shows "published w' = published w \<and> \<not> is_ok r \<or>
    (\<exists>msg. published w' = published w @ [msg] \<and> message_task msg = tid \<and> message_kind_of msg \<in> {KCompleted, KFailed} \<and>
       (\<forall>ex. r = Inr ex \<longrightarrow> message_kind_of msg = (if eo_succeeded ex then KCompleted else KFailed)))"
proof -
  obtain s w1 where ex: "e_execute ports winner opts w = (s, w1)" by (cases "e_execute ports winner opts w")
  note quiet = keepsD [OF execute_quiet ex]
  show ?thesis
  proof (cases s)
    case (Inl err)
    let ?m = "eff_bind (announce_failure ports task (lit ''executor.error'') (DomainError_to_string (e_fmt ports) err))
      (\<lambda>_. eff_lift (Inl err :: execution_outcome outcome))"
    have run: "?m w1 = (r, w')" using assms(1) ex Inl by (simp add: execute_winner_def)
    have "announces published tid KFailed ?m"
      by (intro announces_before announce_failure_announces tid keeps_lift)
    from announcesD [OF this run] quiet show ?thesis
      using run by (auto simp: announced_def eff_bind_split eff_lift_def)
  next
    case (Inr x)
    let ?k = "if eo_succeeded x then KCompleted else KFailed"
    let ?m = "eff_bind (e_record_orchestration ports (eo_duration x)) (\<lambda>_.
          eff_bind (if eo_succeeded x then announce_completion ports task winner x
            else announce_failure ports task (lit ''executor.unsuccessful'')
              (lit ''executor reported unsuccessful outcome'')) (\<lambda>_. eff_lift (Inr x)))"
    have run: "?m w1 = (r, w')" using assms(1) ex Inr by (simp add: execute_winner_def)
    have "announces published tid ?k ?m"
      by (rule announces_after [OF orchestration_quiet], rule announces_before)
        (auto intro: announce_failure_announces announce_completion_announces tid keeps_lift)
    from announcesD [OF this run] quiet show ?thesis
      using run by (cases "eo_succeeded x") (auto simp: announced_def eff_bind_split eff_lift_def)
  qed
qed

lemma dispatch_winner_messages:
  assumes run: "dispatch_winner ports task options out w = (r, w')" and tid: "task_id task = tid"
  shows "\<exists>ms. published w' = published w @ ms \<and> (\<forall>m \<in> set ms. message_task m = tid) \<and>
    map message_kind_of ms \<in> set [[], [KDispatched], [KDispatched, KCompleted], [KDispatched, KFailed]] \<and>
    (\<forall>out. r = Inr out \<longrightarrow> map message_kind_of ms = [KDispatched, if eo_succeeded (oo_execution out) then KCompleted else KFailed])"
proof (cases "bt_get (del_proposals (do_deliberation out)) (do_winner_proposal_id out)")
  case None
  then show ?thesis using run by (auto simp: dispatch_winner_def eff_bind_def eff_lift_def)
next
  case (Some winner)
  obtain s2 w2 where dis: "announce_dispatch ports task w = (s2, w2)" by (cases "announce_dispatch ports task w")
  note second = announcesD [OF announce_dispatch_announces [OF tid] dis]
  show ?thesis
  proof (cases "is_ok s2 \<and> is_ok (merge_execution_options (tm_execution_profile (task_metadata_of task)) options)")
    case False
    then have "w' = w2" "\<not> is_ok r"
      using run Some dis by (auto simp: dispatch_winner_def eff_bind_def eff_lift_def not_ok_iff split: sum.splits)
    then show ?thesis using second
      by (auto simp: announced_def result_simps intro: exI [of _ "[]"] exI [of _ "[_]"])
  next
    case True
    then obtain u merged where ok: "s2 = Inr u" "merge_execution_options (tm_execution_profile (task_metadata_of task)) options = Inr merged"
      by (auto simp: result_simps)
    then obtain m2 where m2: "published w2 = published w @ [m2]" "message_kind_of m2 = KDispatched" "message_task m2 = tid"
      using second by (auto simp: announced_def)
    obtain s3 w3 where ex: "execute_winner ports task winner merged w2 = (s3, w3)" by (cases "execute_winner ports task winner merged w2")
    have w': "w' = w3" and r: "r = map_ok (\<lambda>x. \<lparr>oo_deliberation = do_deliberation out, oo_winner = winner, oo_execution = x\<rparr>) s3"
      using run Some dis ok ex by (auto simp: dispatch_winner_def eff_bind_def eff_lift_def map_ok_def split: sum.splits)
    from execute_winner_announces [OF ex tid] show ?thesis
    proof (elim disjE exE conjE)
      assume "published w3 = published w2" "\<not> is_ok s3"
      then show ?thesis using m2 w' r by (intro exI [of _ "[m2]"]) (auto simp: result_simps)
    next
      fix m3 assume "published w3 = published w2 @ [m3]" "message_task m3 = tid" "message_kind_of m3 \<in> {KCompleted, KFailed}"
        "\<forall>x. s3 = Inr x \<longrightarrow> message_kind_of m3 = (if eo_succeeded x then KCompleted else KFailed)"
      then show ?thesis using m2 w' r by (intro exI [of _ "[m2, m3]"]) (auto simp: result_simps)
    qed
  qed
qed

lemma orchestrate_messages:
  assumes run: "OrchestrateUseCase_execute ports task options w = (r, w')" and sane: "sane w" and tid: "task_id task = tid"
  shows "\<exists>ms. published w' = published w @ ms \<and> (\<forall>m \<in> set ms. message_task m = tid) \<and>
    orchestration_trace (map message_kind_of ms) \<and>
    (\<forall>out. r = Inr out \<longrightarrow> map message_kind_of ms =
       [KDeliberated, KDispatched, if eo_succeeded (oo_execution out) then KCompleted else KFailed])"
proof -
  obtain s w1 where del: "DeliberateUseCase_execute (e_council ports) task w = (s, w1)"
    by (cases "DeliberateUseCase_execute (e_council ports) task w")
  note first = deliberate_announces [OF del sane tid]
  show ?thesis
  proof (cases s)
    case (Inl err)
    let ?m = "eff_bind (announce_failure ports task (deliberation_error_kind err) (DomainError_to_string (e_fmt ports) err))
      (\<lambda>_. eff_lift (Inl err :: orchestrate_output outcome))"
    have run': "?m w1 = (r, w')" using run del Inl by (simp add: OrchestrateUseCase_execute_def)
    have "announces published tid KFailed ?m"
      by (intro announces_before announce_failure_announces tid keeps_lift)
    note second = announcesD [OF this run']
    have r: "\<not> is_ok r" using run' by (auto simp: eff_bind_split eff_lift_def)
    from first second show ?thesis
      unfolding announced_def fst_conv snd_conv
      by (elim disjE exE conjE) (use r in \<open>auto simp: orchestration_trace_def result_simps intro!: exI\<close>)
  next
    case (Inr out)
    then obtain m1 where m1: "published w1 = published w @ [m1]" "message_kind_of m1 = KDeliberated" "message_task m1 = tid"
      using first by (auto simp: announced_def)
    have run': "dispatch_winner ports task options out w1 = (r, w')" using run del Inr by (simp add: OrchestrateUseCase_execute_def)
    from dispatch_winner_messages [OF this tid] obtain ms where ms: "published w' = published w1 @ ms"
      "\<forall>m \<in> set ms. message_task m = tid" "map message_kind_of ms \<in> set [[], [KDispatched], [KDispatched, KCompleted], [KDispatched, KFailed]]"
      "\<forall>out. r = Inr out \<longrightarrow> map message_kind_of ms = [KDispatched, if eo_succeeded (oo_execution out) then KCompleted else KFailed]"
      by (elim exE conjE) (rule that)
    show ?thesis
    proof (intro exI [of _ "m1 # ms"] conjI)
      show "published w' = published w @ m1 # ms" using ms(1) m1(1) by simp
      show "\<forall>m \<in> set (m1 # ms). message_task m = tid" using ms(2) m1(3) by simp
      show "orchestration_trace (map message_kind_of (m1 # ms))" using ms(3) m1(2) by (auto simp: orchestration_trace_def)
      show "\<forall>out. r = Inr out \<longrightarrow> map message_kind_of (m1 # ms) =
          [KDeliberated, KDispatched, if eo_succeeded (oo_execution out) then KCompleted else KFailed]"
        using ms(4) m1(2) by simp
    qed
  qed
qed

end

end
