(* ===== verification/Validator_Verdicts.thy ===== *)
theory Validator_Verdicts
  imports Output_Validators
begin

text \<open>
  What the validators decide.  Each of them answers with a report under its own kind, whatever
  the proposal is, and passes exactly the proposals a short reference predicate describes; the
  walk of the shape budget is compared with a search through the values in document order.  Only
  the support gate can fail: when it has no judge, or when the judge fails.
\<close>

section \<open>Reports\<close>

text \<open>A validator answered with a report under its kind, and the report says \<open>passed\<close>.\<close>

definition answers :: "string \<Rightarrow> bool \<Rightarrow> validator_report outcome \<Rightarrow> bool" where
  "answers kind passed out = (\<exists>r. out = Inr r \<and> vr_kind r = lit kind \<and> vr_passed r = passed)"

definition plain_names :: "(string \<times> json) list \<Rightarrow> bool" where
  "plain_names ps = (length ps \<le> 1024 \<and> list_all (\<lambda>(k, v). trim (lit k) \<noteq> []) ps)"

lemma length_bt_insert_le: "length (bt_insert k v m) \<le> Suc (length m)"
  by (induction k v m rule: bt_insert.induct) auto

lemma json_object_fold:
  "length (fold (\<lambda>(k, v). bt_insert (lit k) v) ps m) \<le> length ps + length m"
  "fst ` set (fold (\<lambda>(k, v). bt_insert (lit k) v) ps m) = lit ` fst ` set ps \<union> fst ` set m"
proof (induction ps arbitrary: m)
  case (Cons p ps)
  obtain k v where p: "p = (k, v)" by fastforce
  { case 1
    show ?case using Cons.IH(1) [of "bt_insert (lit k) v m"] length_bt_insert_le [of "lit k" v m] by (simp add: p) }
  { case 2
    show ?case using Cons.IH(2) [of "bt_insert (lit k) v m"] by (simp add: p) }
qed simp_all

lemma attributes_of_json_object:
  assumes "plain_names ps"
  shows "attributes_of (json_object ps) = Inr (fold (\<lambda>(k, v). bt_insert (lit k) v) ps [])"
proof -
  let ?m = "fold (\<lambda>(k, v). bt_insert (lit k) v) ps []"
  have "length ?m \<le> MAX_ATTRIBUTES_KEYS"
    using json_object_fold(1) [of ps "[]"] assms by (simp add: plain_names_def MAX_ATTRIBUTES_KEYS_def)
  moreover have "\<forall>key \<in> fst ` set ?m. trim key \<noteq> []"
    using assms by (auto simp: json_object_fold(2) plain_names_def list_all_iff)
  ultimately show ?thesis by (simp add: attributes_of_def json_object_def Attributes_new_eq_Inr)
qed

lemma plain_names_simps [simp]:
  "plain_names []"
  "plain_names (p # ps) \<longleftrightarrow> trim (lit (fst p)) \<noteq> [] \<and> plain_names ps \<and> length ps < 1024"
  by (auto simp: plain_names_def)

lemma answers_new [simp]:
  "trim (lit kind) \<noteq> [] \<Longrightarrow> answers kind b (ValidatorReport_new (lit kind) b' s d) \<longleftrightarrow> b = b'"
  by (auto simp: answers_def ValidatorReport_new_def)

lemma answers_with [simp]:
  "trim (lit kind) \<noteq> [] \<Longrightarrow> plain_names ps \<Longrightarrow> answers kind b (report_with kind b' s ps) \<longleftrightarrow> b = b'"
  by (simp add: attributes_of_json_object)

lemma visible_name [simp]: "\<not> is_whitespace (of_char c) \<Longrightarrow> trim (lit (c # cs)) \<noteq> []"
  by (simp add: trim_eq_Nil_iff lit_def)

section \<open>What each validator decides\<close>

lemma ContentNonEmpty_exact:
  "answers ''content-non-empty'' (trim content \<noteq> []) (ContentNonEmpty_validate content c)"
  by (simp add: ContentNonEmpty_validate_def Let_def is_whitespace_def)

lemma parse_json_object_Inr:
  "parse_json_object lib content = Inr m \<longleftrightarrow> jl_from_str lib (strip_markdown_fences content) = Inr (JObject m)"
  by (auto simp: parse_json_object_def split: sum.splits json.splits)

definition is_object :: "json_library \<Rightarrow> rstr \<Rightarrow> bool" where
  "is_object lib content = (\<exists>m. jl_from_str lib (strip_markdown_fences content) = Inr (JObject m))"

lemma JsonObjectOutput_exact:
  assumes "tc_output_contract c = Some contract"
  shows "answers ''output-json-object'' (is_object lib content) (JsonObjectOutput_validate lib content c)"
proof (cases "parse_json_object lib content")
  case (Inl summary)
  then have "\<not> is_object lib content" using parse_json_object_Inr [of lib content] by (auto simp: is_object_def)
  with Inl show ?thesis by (simp add: JsonObjectOutput_validate_def assms is_whitespace_def)
next
  case (Inr m)
  then have "is_object lib content" using parse_json_object_Inr [of lib content] by (auto simp: is_object_def)
  with Inr show ?thesis by (simp add: JsonObjectOutput_validate_def assms is_whitespace_def)
qed

text \<open>The object has every required field.\<close>

definition fields_present :: "output_contract \<Rightarrow> (rstr \<times> json) list \<Rightarrow> bool" where
  "fields_present contract m =
     (\<forall>(name, rule) \<in> set (oc_fields contract). ofr_required rule \<longrightarrow> name \<in> fst ` set m)"

text \<open>Every constrained field the object has is one of the strings its rule allows.\<close>

definition values_allowed :: "output_contract \<Rightarrow> (rstr \<times> json) list \<Rightarrow> bool" where
  "values_allowed contract m =
     (\<forall>(name, rule) \<in> set (oc_fields contract). \<forall>v.
        ofr_allowed_string_values rule \<noteq> [] \<longrightarrow> bt_get m name = Some v \<longrightarrow>
        v \<in> JString ` set (ofr_allowed_string_values rule))"

lemma missing_fields_Nil: "missing_fields contract m = [] \<longleftrightarrow> fields_present contract m"
  by (auto simp: missing_fields_def fields_present_def filter_empty_conv bt_contains_iff)

lemma allowed_value_violation_Nil:
  "allowed_value_violation m name rule = [] \<longleftrightarrow>
     (\<forall>v. ofr_allowed_string_values rule \<noteq> [] \<longrightarrow> bt_get m name = Some v \<longrightarrow>
        v \<in> JString ` set (ofr_allowed_string_values rule))"
  by (auto simp: allowed_value_violation_def split: option.splits json.splits)

lemma RequiredFields_exact:
  assumes "tc_output_contract c = Some contract"
  shows "answers ''output-required-fields''
    (\<exists>m. jl_from_str lib (strip_markdown_fences content) = Inr (JObject m) \<and> fields_present contract m)
    (RequiredFields_validate lib content c)"
  unfolding parse_json_object_Inr [symmetric]
  by (cases "parse_json_object lib content")
    (simp_all add: RequiredFields_validate_def assms is_whitespace_def missing_fields_Nil)

lemma allowed_violations_Nil:
  "concat (map (\<lambda>(name, rule). allowed_value_violation m name rule) (oc_fields contract)) = [] \<longleftrightarrow>
     values_allowed contract m"
  by (force simp: values_allowed_def allowed_value_violation_Nil)

lemma AllowedStringValues_exact:
  assumes "tc_output_contract c = Some contract"
  shows "answers ''output-allowed-string-values''
    (\<exists>m. jl_from_str lib (strip_markdown_fences content) = Inr (JObject m) \<and> values_allowed contract m)
    (AllowedStringValues_validate lib content c)"
  unfolding parse_json_object_Inr [symmetric]
  by (cases "parse_json_object lib content")
    (simp_all add: AllowedStringValues_validate_def assms is_whitespace_def Let_def
      allowed_violations_Nil del: concat_eq_Nil_conv)

text \<open>The document satisfies the schema the contract embeds, if it embeds one.\<close>

definition schema_satisfied :: "json_library \<Rightarrow> output_contract \<Rightarrow> rstr \<Rightarrow> bool" where
  "schema_satisfied lib contract content =
     (oc_json_schema contract = [] \<or>
      (\<exists>schema compiled inst. jl_from_str lib (oc_json_schema contract) = Inr schema \<and>
         jl_compile lib schema = Inr compiled \<and> jl_from_str lib (strip_markdown_fences content) = Inr inst \<and>
         compiled inst \<in> {Inr (), Inl []}))"

lemma JsonSchema_exact:
  assumes "tc_output_contract c = Some contract"
  shows "answers ''output-json-schema'' (schema_satisfied lib contract content) (JsonSchema_validate lib content c)"
proof (cases "oc_json_schema contract = []")
  case True
  then show ?thesis by (simp add: JsonSchema_validate_def assms is_whitespace_def schema_satisfied_def Let_def)
next
  case schema: False
  note def = JsonSchema_validate_def assms is_whitespace_def schema_satisfied_def Let_def schema
  show ?thesis
  proof (cases "jl_from_str lib (oc_json_schema contract)")
    case (Inl err)
    then show ?thesis by (simp add: def)
  next
    case parsed: (Inr schema_value)
    show ?thesis
    proof (cases "jl_compile lib schema_value")
      case (Inl err)
      then show ?thesis by (simp add: def parsed)
    next
      case compiled: (Inr compiled)
      show ?thesis
      proof (cases "jl_from_str lib (strip_markdown_fences content)")
        case (Inl err)
        then show ?thesis by (simp add: def parsed compiled)
      next
        case inst: (Inr inst)
        show ?thesis
          by (cases "compiled inst")
            (simp_all add: def parsed compiled inst MAX_REPORTED_VIOLATIONS_def)
      qed
    qed
  qed
qed

section \<open>The shape budget against its reference\<close>

text \<open>
  The values of a document in document order (a container before its contents), each with its
  path and depth.
\<close>

fun json_nodes :: "json \<Rightarrow> rstr \<Rightarrow> nat \<Rightarrow> (json \<times> rstr \<times> nat) list"
  and item_nodes :: "json list \<Rightarrow> nat \<Rightarrow> rstr \<Rightarrow> nat \<Rightarrow> (json \<times> rstr \<times> nat) list"
  and member_nodes :: "(rstr \<times> json) list \<Rightarrow> rstr \<Rightarrow> nat \<Rightarrow> (json \<times> rstr \<times> nat) list" where
  "json_nodes v path depth =
     (v, path, depth) # (case v of
        JArray items \<Rightarrow> item_nodes items 0 path (depth + 1)
      | JObject m \<Rightarrow> member_nodes m path (depth + 1)
      | _ \<Rightarrow> [])"
| "item_nodes [] i path depth = []"
| "item_nodes (item # items) i path depth =
     json_nodes item (path @ lit ''['' @ display_nat i @ lit '']'') depth @ item_nodes items (i + 1) path depth"
| "member_nodes [] path depth = []"
| "member_nodes ((key, child) # m) path depth =
     json_nodes child (path @ lit ''.'' @ key) depth @ member_nodes m path depth"

text \<open>The size of one value, with the limit on it.\<close>

fun node_size :: "BoundedEventShape \<Rightarrow> json \<Rightarrow> (string \<times> nat \<times> nat) option" where
  "node_size b (JString s) = Some (''max_string_len'', max_string_len b, str_len s)"
| "node_size b (JArray items) = Some (''max_array_len'', max_array_len b, length items)"
| "node_size b (JObject m) = Some (''max_object_keys'', max_object_keys b, length m)"
| "node_size b _ = None"

definition node_violation :: "BoundedEventShape \<Rightarrow> json \<times> rstr \<times> nat \<Rightarrow> ShapeViolation option" where
  "node_violation b n =
     (case n of (v, path, depth) \<Rightarrow>
        if max_depth b < depth
        then Some \<lparr>sv_kind = ''max_depth'', sv_path = path, sv_limit = max_depth b, sv_actual = depth\<rparr>
        else case node_size b v of
          Some (kind, limit, actual) \<Rightarrow>
            if limit < actual then Some \<lparr>sv_kind = kind, sv_path = path, sv_limit = limit, sv_actual = actual\<rparr> else None
        | None \<Rightarrow> None)"

definition first_violation :: "BoundedEventShape \<Rightarrow> (json \<times> rstr \<times> nat) list \<Rightarrow> ShapeViolation option" where
  "first_violation b nodes = Option.bind (find (\<lambda>n. node_violation b n \<noteq> None) nodes) (node_violation b)"

lemma first_violation_simps [simp]:
  "first_violation b [] = None"
  "first_violation b (n # nodes) =
     (case node_violation b n of Some v \<Rightarrow> Some v | None \<Rightarrow> first_violation b nodes)"
  by (auto simp: first_violation_def split: option.splits)

lemma first_violation_append:
  "first_violation b (ms @ ns) =
     (case first_violation b ms of Some v \<Rightarrow> Some v | None \<Rightarrow> first_violation b ns)"
  by (induction ms) (auto split: option.splits)

lemma first_violation_None: "first_violation b nodes = None \<longleftrightarrow> (\<forall>n \<in> set nodes. node_violation b n = None)"
  by (induction nodes) (auto split: option.splits)

declare walk.simps [simp del]
declare json_nodes.simps [simp del]

lemma walk_is_first_violation:
  "walk b v path depth = first_violation b (json_nodes v path depth)"
  "walk_items b items i path depth = first_violation b (item_nodes items i path depth)"
  "walk_members b m path depth = first_violation b (member_nodes m path depth)"
proof (induction b v path depth and b items i path depth and b m path depth
    rule: walk_walk_items_walk_members.induct)
  case (1 b v path depth)
  show ?case
    using 1 by (cases v) (simp_all add: walk.simps json_nodes.simps node_violation_def)
qed (simp_all add: first_violation_append split: option.split)

text \<open>The same budget on the document as a whole: its height, and the size of every value in it.\<close>

fun json_height :: "json \<Rightarrow> nat" where
  "json_height (JArray items) = foldr max (map (\<lambda>v. Suc (json_height v)) items) 0"
| "json_height (JObject m) = foldr max (map (\<lambda>(k, v). Suc (json_height v)) m) 0"
| "json_height _ = 0"

fun json_values :: "json \<Rightarrow> json list" where
  "json_values (JArray items) = JArray items # concat (map json_values items)"
| "json_values (JObject m) = JObject m # concat (map (\<lambda>(k, v). json_values v) m)"
| "json_values v = [v]"

fun size_allowed :: "BoundedEventShape \<Rightarrow> json \<Rightarrow> bool" where
  "size_allowed b (JString s) = (str_len s \<le> max_string_len b)"
| "size_allowed b (JArray items) = (length items \<le> max_array_len b)"
| "size_allowed b (JObject m) = (length m \<le> max_object_keys b)"
| "size_allowed b _ = True"

definition within_budget :: "BoundedEventShape \<Rightarrow> json \<Rightarrow> bool" where
  "within_budget b v = (json_height v \<le> max_depth b \<and> (\<forall>x \<in> set (json_values v). size_allowed b x))"

lemma foldr_max_le: "foldr max ns (0 :: nat) \<le> k \<longleftrightarrow> (\<forall>n \<in> set ns. n \<le> k)"
  by (induction ns) auto

lemma foldr_max_le_add:
  "d \<le> k \<Longrightarrow> d + foldr max ns (0 :: nat) \<le> k \<longleftrightarrow> (\<forall>n \<in> set ns. d + n \<le> k)"
  using foldr_max_le [of ns "k - d"] by (auto simp: le_diff_conv2 add.commute)

lemma node_violation_None:
  "node_violation b (v, path, depth) = None \<longleftrightarrow> depth \<le> max_depth b \<and> size_allowed b v"
  by (cases v) (auto simp: node_violation_def)

lemma nodes_within:
  "(\<forall>n \<in> set (json_nodes v path d). node_violation b n = None) \<longleftrightarrow>
     d + json_height v \<le> max_depth b \<and> (\<forall>x \<in> set (json_values v). size_allowed b x)"
  "(\<forall>n \<in> set (item_nodes items i path d). node_violation b n = None) \<longleftrightarrow>
     (\<forall>v \<in> set items. d + json_height v \<le> max_depth b \<and> (\<forall>x \<in> set (json_values v). size_allowed b x))"
  "(\<forall>n \<in> set (member_nodes m path d). node_violation b n = None) \<longleftrightarrow>
     (\<forall>(k, v) \<in> set m. d + json_height v \<le> max_depth b \<and> (\<forall>x \<in> set (json_values v). size_allowed b x))"
proof (induction v path d and items i path d and m path d rule: json_nodes_item_nodes_member_nodes.induct)
  case (1 v path d)
  show ?case
  proof (cases v)
    case (JArray items)
    then show ?thesis
      using 1(1) [OF JArray] foldr_max_le_add [of d "max_depth b"]
      by (cases "d \<le> max_depth b") (auto simp: json_nodes.simps node_violation_None)
  next
    case (JObject m)
    then show ?thesis
      using 1(2) [OF JObject] foldr_max_le_add [of d "max_depth b"]
      by (cases "d \<le> max_depth b") (auto simp: json_nodes.simps node_violation_None split_beta)
  qed (auto simp: json_nodes.simps node_violation_None)
qed (auto simp: ball_Un)

lemma walk_None_iff: "walk b v path 0 = None \<longleftrightarrow> within_budget b v"
  using nodes_within(1) [of v path 0 b] by (simp add: walk_is_first_violation first_violation_None within_budget_def)

lemma BoundedEventShape_exact:
  assumes "tc_output_contract c = Some contract"
  shows "answers ''output-bounded-event-shape''
    (str_len (trim content) \<le> max_total_size_bytes b \<and>
      (\<exists>v. jl_from_str lib (strip_markdown_fences content) = Inr v \<and> within_budget b v))
    (BoundedEventShape_validate lib b content c)"
proof -
  have fences: "strip_markdown_fences (trim content) = strip_markdown_fences content"
    by (simp add: strip_markdown_fences_def)
  show ?thesis
  proof (cases "jl_from_str lib (strip_markdown_fences content)")
    case (Inl err)
    then show ?thesis by (simp add: BoundedEventShape_validate_def assms is_whitespace_def Let_def fences)
  next
    case (Inr v)
    then show ?thesis
      using walk_None_iff [of b v "lit ''$''"]
      by (cases "walk b v (lit ''$'') 0")
        (simp_all add: BoundedEventShape_validate_def assms is_whitespace_def Let_def fences)
  qed
qed

section \<open>Grounded claims\<close>

text \<open>A claim that cites evidence, and nothing but evidence of the pack.\<close>

definition claim_grounded :: "evidence_grounding_rule \<Rightarrow> json \<Rightarrow> bool" where
  "claim_grounded rule claim =
     (\<exists>m refs. claim = JObject m \<and> bt_get m (egr_refs_field rule) = Some (JArray refs) \<and> refs \<noteq> [] \<and>
        set refs \<subseteq> JString ` set (egr_allowed_refs rule))"

definition claims_of :: "json_library \<Rightarrow> evidence_grounding_rule \<Rightarrow> rstr \<Rightarrow> json list option" where
  "claims_of lib rule content =
     (case jl_from_str lib (strip_markdown_fences content) of
        Inr (JObject m) \<Rightarrow> Option.bind (bt_get m (egr_claims_field rule)) json_as_array
      | _ \<Rightarrow> None)"

lemma json_as_simps [simp]:
  "json_as_str v = Some s \<longleftrightarrow> v = JString s"
  "json_as_array v = Some vs \<longleftrightarrow> v = JArray vs"
  "json_as_object v = Some m \<longleftrightarrow> v = JObject m"
  "json_as_str (JString s) = Some s" "json_as_array (JArray vs) = Some vs" "json_as_object (JObject m) = Some m"
  by (auto simp: json_as_str_def json_as_array_def json_as_object_def split: json.splits)

lemma map_filter_mem: "y \<in> set (List.map_filter f xs) \<longleftrightarrow> (\<exists>x \<in> set xs. f x = Some y)"
  by (force simp: List.map_filter_def)

lemma refs_within:
  "filter (\<lambda>r. json_as_str r = None) refs = [] \<and>
   filter (\<lambda>i. i \<notin> set allowed) (List.map_filter json_as_str refs) = [] \<longleftrightarrow>
     set refs \<subseteq> JString ` set allowed"
proof -
  have "filter (\<lambda>i. i \<notin> set allowed) (List.map_filter json_as_str refs) = [] \<longleftrightarrow>
      (\<forall>r \<in> set refs. \<forall>i. r = JString i \<longrightarrow> i \<in> set allowed)"
    by (auto simp: filter_empty_conv map_filter_mem)
  moreover have "filter (\<lambda>r. json_as_str r = None) refs = [] \<longleftrightarrow> (\<forall>r \<in> set refs. \<exists>i. r = JString i)"
    by (auto simp: filter_empty_conv)
  ultimately show ?thesis by blast
qed

lemma claim_violations_Nil: "claim_violations lib rule i claim = [] \<longleftrightarrow> claim_grounded rule claim"
proof (cases "json_as_object claim")
  case None
  then have "\<not> claim_grounded rule claim" by (auto simp: claim_grounded_def)
  with None show ?thesis by (simp add: claim_violations_def)
next
  case (Some m)
  then have claim: "claim = JObject m" by simp
  show ?thesis
  proof (cases "Option.bind (bt_get m (egr_refs_field rule)) json_as_array")
    case None
    then have "\<not> claim_grounded rule claim" by (auto simp: claim_grounded_def claim)
    with None show ?thesis by (simp add: claim_violations_def claim Let_def)
  next
    case (Some refs)
    then have refs: "bt_get m (egr_refs_field rule) = Some (JArray refs)" by (auto simp: bind_eq_Some_conv)
    show ?thesis
      using refs_within [of refs "egr_allowed_refs rule"]
      by (simp add: claim_violations_def claim_grounded_def claim refs Let_def) blast
  qed
qed

lemma enumerate_violations_Nil:
  "concat (map (\<lambda>(i, claim). claim_violations lib rule i claim) (enumerate n claims)) = [] \<longleftrightarrow>
     (\<forall>claim \<in> set claims. claim_grounded rule claim)"
  by (induction claims arbitrary: n) (simp_all add: claim_violations_Nil del: concat_eq_Nil_conv)

definition claims_grounded :: "json_library \<Rightarrow> evidence_grounding_rule \<Rightarrow> rstr \<Rightarrow> bool" where
  "claims_grounded lib rule content =
     (\<exists>claims. claims_of lib rule content = Some claims \<and> (\<forall>claim \<in> set claims. claim_grounded rule claim))"

lemma claims_of_parse:
  "claims_of lib rule content =
     (case parse_json_object lib content of Inl _ \<Rightarrow> None
      | Inr m \<Rightarrow> Option.bind (bt_get m (egr_claims_field rule)) json_as_array)"
  by (auto simp: claims_of_def parse_json_object_def split: sum.splits json.splits)

lemma ClaimsEvidenceGrounded_exact:
  assumes "tc_output_contract c = Some contract" and "oc_evidence_grounding contract = Some rule"
  shows "answers ''claims-evidence-grounded'' (claims_grounded lib rule content)
    (ClaimsEvidenceGrounded_validate lib content c)"
proof (cases "parse_json_object lib content")
  case (Inl summary)
  then have "\<not> claims_grounded lib rule content" by (simp add: claims_grounded_def claims_of_parse)
  with Inl show ?thesis by (simp add: ClaimsEvidenceGrounded_validate_def assms is_whitespace_def Let_def)
next
  case parsed: (Inr m)
  show ?thesis
  proof (cases "Option.bind (bt_get m (egr_claims_field rule)) json_as_array")
    case None
    then have "\<not> claims_grounded lib rule content" by (simp add: claims_grounded_def claims_of_parse parsed)
    with parsed None show ?thesis by (simp add: ClaimsEvidenceGrounded_validate_def assms is_whitespace_def Let_def)
  next
    case (Some claims)
    then have "claims_grounded lib rule content \<longleftrightarrow> (\<forall>claim \<in> set claims. claim_grounded rule claim)"
      by (simp add: claims_grounded_def claims_of_parse parsed)
    with parsed Some show ?thesis
      by (simp add: ClaimsEvidenceGrounded_validate_def assms is_whitespace_def Let_def enumerate_violations_Nil
          del: concat_eq_Nil_conv)
  qed
qed

section \<open>Supported claims\<close>

text \<open>
  The judge was asked about the text of the claim and the evidence it cites, and its verdict is
  good enough.
\<close>

definition claim_supported ::
    "json_library \<Rightarrow> 'w support_judge \<Rightarrow> rstr \<Rightarrow> semantic_support_rule \<Rightarrow> json \<Rightarrow> support_verdict \<Rightarrow> bool" where
  "claim_supported lib judge refs_field support claim v =
     (\<exists>m w w'. claim = JObject m \<and> cited_excerpts m refs_field support \<noteq> [] \<and>
        judge (claim_text lib m) (cited_excerpts m refs_field support) w = (Inr v, w') \<and>
        sv_supported v \<and> ssr_min_confidence support \<le> sv_confidence v)"

lemma cited_excerpts_mem:
  "e \<in> set (cited_excerpts m refs_field support) \<Longrightarrow>
     bt_get (ssr_bodies support) (ee_reference e) = Some (ee_body e) \<and>
     (\<exists>refs. bt_get m refs_field = Some (JArray refs) \<and> JString (ee_reference e) \<in> set refs)"
  by (cases "Option.bind (bt_get m refs_field) json_as_array")
    (auto simp: cited_excerpts_def map_filter_mem bind_eq_Some_conv)

definition json_members :: "json \<Rightarrow> (rstr \<times> json) list" where
  "json_members v = (case v of JObject m \<Rightarrow> m | _ \<Rightarrow> [])"

definition verdict_records ::
    "json_library \<Rightarrow> rstr \<Rightarrow> semantic_support_rule \<Rightarrow> nat \<Rightarrow> json list \<Rightarrow> support_verdict list \<Rightarrow> json list" where
  "verdict_records lib refs_field support n claims vs =
     map (\<lambda>(i, claim, v). verdict_record lib i (json_members claim)
       (cited_excerpts (json_members claim) refs_field support) v) (enumerate n (zip claims vs))"

lemma judge_claims_clean:
  assumes "judge_claims lib judge claims refs_field support n w = (Inr (verdicts, []), w')"
  shows "\<exists>vs. list_all2 (claim_supported lib judge refs_field support) claims vs \<and>
    verdicts = verdict_records lib refs_field support n claims vs"
  using assms
proof (induction claims arbitrary: n w verdicts w')
  case Nil
  then show ?case by (simp add: verdict_records_def)
next
  case (Cons claim claims)
  show ?case
  proof (cases "json_as_object claim")
    case None
    then show ?thesis using Cons.prems by (auto simp: eff_bind_Inr)
  next
    case (Some m)
    then have claim: "claim = JObject m" by simp
    have cited: "cited_excerpts m refs_field support \<noteq> []"
      using Cons.prems by (auto simp: claim eff_bind_Inr Let_def)
    with Cons.prems obtain v w1 w2 vds vls where
        judged: "judge (claim_text lib m) (cited_excerpts m refs_field support) w = (Inr v, w1)"
      and rest: "judge_claims lib judge claims refs_field support (Suc n) w1 = (Inr (vds, vls), w2)"
      and vds: "verdicts = verdict_record lib n m (cited_excerpts m refs_field support) v # vds"
      and vls: "(if verdict_accepted support v then [] else [verdict_violation lib support n m v]) @ vls = []"
      by (auto simp: claim eff_bind_Inr Let_def)
    from vls have acc: "verdict_accepted support v" "vls = []" by (simp_all split: if_splits)
    from Cons.IH [OF rest [unfolded acc(2)]] obtain vs where
        "list_all2 (claim_supported lib judge refs_field support) claims vs"
        "vds = verdict_records lib refs_field support (Suc n) claims vs" by blast
    then have "list_all2 (claim_supported lib judge refs_field support) (claim # claims) (v # vs)"
      "verdicts = verdict_records lib refs_field support n (claim # claims) (v # vs)"
      using cited judged acc(1)
      by (auto simp: claim_supported_def claim verdict_accepted_def verdict_records_def vds json_members_def)
    then show ?thesis by blast
  qed
qed

text \<open>What a passed report of the support gate rests on.\<close>

lemma ClaimsEvidenceSupported_passed:
  assumes "Option.bind (tc_output_contract c) oc_evidence_grounding = Some rule"
    and "egr_semantic_support rule = Some support"
    and "ClaimsEvidenceSupported_validate lib judge_opt content c w = (Inr r, w')" and "vr_passed r"
  obtains judge claims vs where "judge_opt = Some judge" and "claims_of lib rule content = Some claims"
    and "length claims \<le> MAX_JUDGED_CLAIMS"
    and "list_all2 (claim_supported lib judge (egr_refs_field rule) support) claims vs"
    and "bt_get (vr_details r) (lit ''verdicts'') =
      Some (JArray (verdict_records lib (egr_refs_field rule) support 0 claims vs))"
proof -
  note def = ClaimsEvidenceSupported_validate_def assms(1,2) Let_def
  have refused: "and_then a (\<lambda>details. ValidatorReport_new k False s details) \<noteq> Inr r" for a k s
    using assms(4) by (auto simp: ValidatorReport_new_def result_simps)
  from assms(3) obtain judge where judge: "judge_opt = Some judge" by (cases judge_opt) (auto simp: def eff_lift_def)
  from assms(3) refused obtain m where m: "parse_json_object lib content = Inr m"
    by (cases "parse_json_object lib content") (auto simp: def judge eff_lift_def)
  from assms(3) refused obtain claims where
      claims: "Option.bind (bt_get m (egr_claims_field rule)) json_as_array = Some claims"
    by (cases "Option.bind (bt_get m (egr_claims_field rule)) json_as_array") (auto simp: def judge m eff_lift_def)
  from assms(3) refused have len: "length claims \<le> MAX_JUDGED_CLAIMS"
    by (cases "length claims \<le> MAX_JUDGED_CLAIMS") (auto simp: def judge m claims eff_lift_def)
  from assms(3,4) len obtain verdicts w1 cid where
      run: "judge_claims lib judge claims (egr_refs_field rule) support 0 w = (Inr (verdicts, []), w1)"
    and det: "attributes_of (json_object [(''contract_id'', JString cid),
        (''min_confidence'', json_u8 (ssr_min_confidence support)), (''verdicts'', JArray verdicts),
        (''violations'', JArray [])]) = Inr (vr_details r)"
    by (auto simp: def judge m claims eff_bind_Inr eff_lift_def ValidatorReport_new_def split: if_splits)
  from judge_claims_clean [OF run] obtain vs where
      vs: "list_all2 (claim_supported lib judge (egr_refs_field rule) support) claims vs"
        "verdicts = verdict_records lib (egr_refs_field rule) support 0 claims vs" by blast
  have "bt_get (vr_details r) (lit ''verdicts'') = Some (JArray verdicts)"
  proof -
    have "vr_details r = fold (\<lambda>(k, v). bt_insert (lit k) v) [(''contract_id'', JString cid),
        (''min_confidence'', json_u8 (ssr_min_confidence support)), (''verdicts'', JArray verdicts),
        (''violations'', JArray [])] []"
      using det by (subst (asm) attributes_of_json_object) (simp_all add: is_whitespace_def)
    then show ?thesis by (simp add: lit_def)
  qed
  with judge claims m len vs show thesis by (intro that) (auto simp: claims_of_parse)
qed

section \<open>Previews\<close>

lemma slice_to_boundary: "is_char_boundary s n \<Longrightarrow> str_len (slice_to s n) = n"
  by (induction s n rule: is_char_boundary.induct) (auto simp: str_len_def utf8_width_def split: if_splits)

lemma slice_to_prefix: "take (length (slice_to s n)) s = slice_to s n"
  by (induction s n rule: slice_to.induct) auto

lemma last_boundary: "is_char_boundary s (last_boundary s n)" "last_boundary s n \<le> n"
proof -
  have "is_char_boundary s 0" by (cases s) simp_all
  then show "is_char_boundary s (last_boundary s n)" "last_boundary s n \<le> n" by (induction n) simp_all
qed

lemma claim_preview_bound: "str_len (claim_preview lib m) \<le> CLAIM_TEXT_PREVIEW_LEN + 3"
proof -
  let ?raw = "claim_text lib m" and ?n = CLAIM_TEXT_PREVIEW_LEN
  have "str_len (slice_to ?raw (last_boundary ?raw ?n)) \<le> ?n"
    using slice_to_boundary [OF last_boundary(1)] last_boundary(2) by simp
  moreover have "str_len [8230] = 3" by (simp add: str_len_def utf8_width_def)
  ultimately show ?thesis by (simp add: claim_preview_def Let_def)
qed

section \<open>The chain\<close>

text \<open>The contract, said once: what a proposal must be to pass the validators that need no judge.\<close>

definition meets_contract :: "json_library \<Rightarrow> output_contract \<Rightarrow> rstr \<Rightarrow> bool" where
  "meets_contract lib contract content =
     (trim content \<noteq> [] \<and> str_len (trim content) \<le> 256 * 1024 \<and>
      (\<exists>m. jl_from_str lib (strip_markdown_fences content) = Inr (JObject m) \<and>
         fields_present contract m \<and> values_allowed contract m \<and> within_budget BoundedEventShape_new (JObject m)) \<and>
      schema_satisfied lib contract content \<and>
      (\<forall>rule. oc_evidence_grounding contract = Some rule \<longrightarrow> claims_grounded lib rule content))"

text \<open>If the contract asks for support, a judge accepted every claim of the proposal.\<close>

definition claims_backed :: "json_library \<Rightarrow> 'w support_judge option \<Rightarrow> output_contract \<Rightarrow> rstr \<Rightarrow> bool" where
  "claims_backed lib judge_opt contract content =
     (\<forall>rule support. oc_evidence_grounding contract = Some rule \<longrightarrow> egr_semantic_support rule = Some support \<longrightarrow>
        (\<exists>judge claims vs. judge_opt = Some judge \<and> claims_of lib rule content = Some claims \<and>
           length claims \<le> MAX_JUDGED_CLAIMS \<and>
           list_all2 (claim_supported lib judge (egr_refs_field rule) support) claims vs))"

lemma answersD: "answers kind b out \<Longrightarrow> out = Inr r \<Longrightarrow> vr_kind r = lit kind \<and> vr_passed r = b"
  by (auto simp: answers_def)

lemma ClaimsEvidenceGrounded_reports:
  assumes "tc_output_contract c = Some contract"
  shows "answers ''claims-evidence-grounded''
    (\<forall>rule. oc_evidence_grounding contract = Some rule \<longrightarrow> claims_grounded lib rule content)
    (ClaimsEvidenceGrounded_validate lib content c)"
proof (cases "oc_evidence_grounding contract")
  case None
  then show ?thesis by (simp add: ClaimsEvidenceGrounded_validate_def assms is_whitespace_def)
next
  case (Some rule)
  then show ?thesis using ClaimsEvidenceGrounded_exact [OF assms Some] by simp
qed

lemmas judgeless_exact = ContentNonEmpty_exact JsonObjectOutput_exact RequiredFields_exact AllowedStringValues_exact
  JsonSchema_exact ClaimsEvidenceGrounded_reports BoundedEventShape_exact

text \<open>The seven validators that need no judge, in their places around the support gate.\<close>

lemma chain_judgeless:
  assumes c: "tc_output_contract c = Some contract"
  obtains r1 r2 r3 r4 r5 r6 r8 where
    "ContentNonEmpty_validate content c = Inr r1" "JsonObjectOutput_validate lib content c = Inr r2"
    "RequiredFields_validate lib content c = Inr r3" "AllowedStringValues_validate lib content c = Inr r4"
    "JsonSchema_validate lib content c = Inr r5" "ClaimsEvidenceGrounded_validate lib content c = Inr r6"
    "BoundedEventShape_validate lib BoundedEventShape_new content c = Inr r8"
    "map vr_kind [r1, r2, r3, r4, r5, r6, r8] = map lit [''content-non-empty'', ''output-json-object'',
      ''output-required-fields'', ''output-allowed-string-values'', ''output-json-schema'',
      ''claims-evidence-grounded'', ''output-bounded-event-shape'']"
    "list_all vr_passed [r1, r2, r3, r4, r5, r6, r8] \<longleftrightarrow> meets_contract lib contract content"
proof -
  note ok = ContentNonEmpty_exact [of content c] JsonObjectOutput_exact [OF c, of lib content]
    RequiredFields_exact [OF c, of lib content] AllowedStringValues_exact [OF c, of lib content]
    JsonSchema_exact [OF c, of lib content] ClaimsEvidenceGrounded_reports [OF c, of lib content]
    BoundedEventShape_exact [OF c, of content BoundedEventShape_new lib]
  from ok obtain r1 r2 r3 r4 r5 r6 r8 where r:
    "ContentNonEmpty_validate content c = Inr r1" "JsonObjectOutput_validate lib content c = Inr r2"
    "RequiredFields_validate lib content c = Inr r3" "AllowedStringValues_validate lib content c = Inr r4"
    "JsonSchema_validate lib content c = Inr r5" "ClaimsEvidenceGrounded_validate lib content c = Inr r6"
    "BoundedEventShape_validate lib BoundedEventShape_new content c = Inr r8"
    unfolding answers_def by blast
  note d = answersD [OF ok(1) r(1)] answersD [OF ok(2) r(2)] answersD [OF ok(3) r(3)] answersD [OF ok(4) r(4)]
    answersD [OF ok(5) r(5)] answersD [OF ok(6) r(6)] answersD [OF ok(7) r(7)]
  have budget: "max_total_size_bytes BoundedEventShape_new = 256 * 1024" by (simp add: BoundedEventShape_new_def)
  have meets: "list_all vr_passed [r1, r2, r3, r4, r5, r6, r8] \<longleftrightarrow> meets_contract lib contract content"
    using d by (auto simp: meets_contract_def is_object_def budget)
  show thesis by (rule that [OF r _ meets]) (simp add: d)
qed

lemma chain_passed:
  assumes c: "tc_output_contract c = Some contract"
    and run: "run_validators (validator_chain lib judge_opt @ others) content c w = (Inr rs, w')" and "list_all vr_passed rs"
  shows "meets_contract lib contract content" and "claims_backed lib judge_opt contract content"
proof -
  obtain r1 r2 r3 r4 r5 r6 r8 where j:
    "ContentNonEmpty_validate content c = Inr r1" "JsonObjectOutput_validate lib content c = Inr r2"
    "RequiredFields_validate lib content c = Inr r3" "AllowedStringValues_validate lib content c = Inr r4"
    "JsonSchema_validate lib content c = Inr r5" "ClaimsEvidenceGrounded_validate lib content c = Inr r6"
    "BoundedEventShape_validate lib BoundedEventShape_new content c = Inr r8"
    and meets: "list_all vr_passed [r1, r2, r3, r4, r5, r6, r8] \<longleftrightarrow> meets_contract lib contract content"
    by (rule chain_judgeless [OF c, of content lib])
  from run obtain r7 w1 rs' where gate: "ClaimsEvidenceSupported_validate lib judge_opt content c w = (Inr r7, w1)"
    and rs: "rs = [r1, r2, r3, r4, r5, r6, r7, r8] @ rs'"
    by (auto simp: validator_chain_def eff_bind_Inr j)
  show "meets_contract lib contract content" using meets assms(3) by (simp add: rs)
  have "vr_passed r7" using assms(3) by (simp add: rs)
  show "claims_backed lib judge_opt contract content"
    unfolding claims_backed_def
  proof (intro allI impI)
    fix rule support
    assume "oc_evidence_grounding contract = Some rule" and s: "egr_semantic_support rule = Some support"
    then have g: "Option.bind (tc_output_contract c) oc_evidence_grounding = Some rule" by (simp add: c)
    obtain judge claims vs where "judge_opt = Some judge" "claims_of lib rule content = Some claims"
      "length claims \<le> MAX_JUDGED_CLAIMS" "list_all2 (claim_supported lib judge (egr_refs_field rule) support) claims vs"
      by (rule ClaimsEvidenceSupported_passed [OF g s gate \<open>vr_passed r7\<close>])
    then show "\<exists>judge claims vs. judge_opt = Some judge \<and> claims_of lib rule content = Some claims \<and>
        length claims \<le> MAX_JUDGED_CLAIMS \<and>
        list_all2 (claim_supported lib judge (egr_refs_field rule) support) claims vs" by blast
  qed
qed

lemma chain_without_judge:
  assumes "tc_output_contract c = Some contract"
    and "\<forall>rule. oc_evidence_grounding contract = Some rule \<longrightarrow> egr_semantic_support rule = None"
  shows "\<exists>rs. run_validators (validator_chain lib judge_opt) content c w = (Inr rs, w) \<and>
    map vr_kind rs = map lit [''content-non-empty'', ''output-json-object'', ''output-required-fields'',
      ''output-allowed-string-values'', ''output-json-schema'', ''claims-evidence-grounded'',
      ''claims-evidence-supported'', ''output-bounded-event-shape''] \<and>
    (list_all vr_passed rs \<longleftrightarrow> meets_contract lib contract content)"
proof -
  obtain r1 r2 r3 r4 r5 r6 r8 where j:
    "ContentNonEmpty_validate content c = Inr r1" "JsonObjectOutput_validate lib content c = Inr r2"
    "RequiredFields_validate lib content c = Inr r3" "AllowedStringValues_validate lib content c = Inr r4"
    "JsonSchema_validate lib content c = Inr r5" "ClaimsEvidenceGrounded_validate lib content c = Inr r6"
    "BoundedEventShape_validate lib BoundedEventShape_new content c = Inr r8"
    and kinds: "map vr_kind [r1, r2, r3, r4, r5, r6, r8] = map lit [''content-non-empty'', ''output-json-object'',
      ''output-required-fields'', ''output-allowed-string-values'', ''output-json-schema'',
      ''claims-evidence-grounded'', ''output-bounded-event-shape'']"
    and meets: "list_all vr_passed [r1, r2, r3, r4, r5, r6, r8] \<longleftrightarrow> meets_contract lib contract content"
    by (rule chain_judgeless [OF assms(1), of content lib])
  obtain r7 where r7: "ClaimsEvidenceSupported_validate lib judge_opt content c = eff_lift (Inr r7)"
      "vr_kind r7 = lit ''claims-evidence-supported''" "vr_passed r7"
    using assms by (cases "oc_evidence_grounding contract")
      (auto simp: ClaimsEvidenceSupported_validate_def ValidatorReport_new_def is_whitespace_def)
  show ?thesis
    by (rule exI [of _ "[r1, r2, r3, r4, r5, r6, r7, r8]"])
      (use kinds meets r7 in \<open>simp add: validator_chain_def j eff_bind_def eff_lift_def\<close>)
qed

section \<open>Properties\<close>

text \<open>An example: every text reads as the same document.\<close>

definition demo_library :: "json \<Rightarrow> json_library" where
  "demo_library v = \<lparr>jl_from_str = (\<lambda>s. Inr v), jl_to_string = (\<lambda>v. lit ''{}''), jl_compile = (\<lambda>v. Inl [])\<rparr>"

abbreviation demo_json :: json_library where
  "demo_json \<equiv> demo_library (JObject [])"

abbreviation demo_constraints :: task_constraints where
  "demo_constraints \<equiv> TaskConstraints_default\<lparr>tc_output_contract := Some demo_contract\<rparr>"

definition demo_claims :: json where
  "demo_claims = JObject [(lit ''claims'', JArray [JObject [(lit ''refs'', JArray [JString (lit ''ev'')]), (lit ''text'', JString (lit ''so''))]])]"

definition demo_support :: semantic_support_rule where
  "demo_support = \<lparr>ssr_min_confidence = 70, ssr_bodies = [(lit ''ev'', lit ''body'')]\<rparr>"

definition demo_grounding :: evidence_grounding_rule where
  "demo_grounding = \<lparr>egr_claims_field = lit ''claims'', egr_refs_field = lit ''refs'', egr_allowed_refs = [lit ''ev''],
     egr_semantic_support = Some demo_support\<rparr>"

definition demo_supported :: task_constraints where
  "demo_supported = TaskConstraints_default\<lparr>tc_output_contract :=
     Some (demo_contract\<lparr>oc_evidence_grounding := Some demo_grounding\<rparr>)\<rparr>"

definition demo_judge_port :: "nat support_judge" where
  "demo_judge_port text excerpts n = (Inr \<lparr>sv_supported = True, sv_confidence = 90, sv_rationale = []\<rparr>, n + 1)"

text \<open>
  C23. A contract that asks for no support judge: the chain of the service answers on every proposal,
  with one report per validator and without touching the outside world, and every report has
  passed exactly when the proposal meets the contract.
\<close>

theorem validator_chain_exact:
  assumes "tc_output_contract c = Some contract"
    and "\<forall>rule. oc_evidence_grounding contract = Some rule \<longrightarrow> egr_semantic_support rule = None"
  shows "\<exists>rs. run_validators (validator_chain lib judge_opt) content c w = (Inr rs, w) \<and>
    map vr_kind rs = map lit [''content-non-empty'', ''output-json-object'', ''output-required-fields'',
      ''output-allowed-string-values'', ''output-json-schema'', ''claims-evidence-grounded'',
      ''claims-evidence-supported'', ''output-bounded-event-shape''] \<and>
    (list_all vr_passed rs \<longleftrightarrow> meets_contract lib contract content)"
  by (rule chain_without_judge [OF assms])

theorem validator_chain_exact_witness:
  "\<exists>rs. run_validators (validator_chain demo_json None) (lit ''x'') demo_constraints () = (Inr rs, ()) \<and>
     length rs = 8 \<and> list_all vr_passed rs"
proof -
  have c: "tc_output_contract demo_constraints = Some demo_contract"
    "\<forall>rule. oc_evidence_grounding demo_contract = Some rule \<longrightarrow> egr_semantic_support rule = None"
    by (simp_all add: demo_contract_def)
  have x: "trim (lit ''x'') = lit ''x''" by (rule trim_id) (simp add: lit_def is_whitespace_def)
  have "str_len (lit ''x'') = 1" by (subst str_len_ascii) (simp_all add: lit_def)
  then have meets: "meets_contract demo_json demo_contract (lit ''x'')"
    by (simp add: meets_contract_def x demo_library_def demo_contract_def fields_present_def values_allowed_def
        schema_satisfied_def within_budget_def BoundedEventShape_new_def) (simp add: lit_def)
  from validator_chain_exact [OF c, of demo_json None "lit ''x''" "()"] obtain rs where
      rs: "run_validators (validator_chain demo_json None) (lit ''x'') demo_constraints () = (Inr rs, ())"
      "map vr_kind rs = map lit [''content-non-empty'', ''output-json-object'', ''output-required-fields'',
      ''output-allowed-string-values'', ''output-json-schema'', ''claims-evidence-grounded'',
      ''claims-evidence-supported'', ''output-bounded-event-shape'']"
      "list_all vr_passed rs \<longleftrightarrow> meets_contract demo_json demo_contract (lit ''x'')" by (elim exE conjE)
  have "length rs = 8" using arg_cong [OF rs(2), of length] by simp
  with meets rs(1,3) show ?thesis by simp
qed

text \<open>
  The walk of the shape budget against a search in document order: it returns the violation of
  the first value, a container before its contents, that is nested too deep or too big for its
  kind, with the path of that value; and from the root it returns nothing exactly when the height
  of the document and the sizes of all values in it are within the limits.
\<close>

theorem shape_walk_exact:
  "walk b v path depth = first_violation b (json_nodes v path depth) \<and>
   (walk b v path 0 = None \<longleftrightarrow> within_budget b v)"
  by (simp only: walk_None_iff simp_thms) (rule walk_is_first_violation)

text \<open>
  C24. The support gate fails closed.  When a contract asks for semantic support and no judge is wired,
  every proposal ends in an error of the step.  With a judge, a report that passed means that the
  proposal has at most 64 claims, that the judge was asked about every one of them with the
  evidence of the pack that the claim cites (at least one body), that it answered supported with
  at least the confidence the contract demands, and that all its verdicts are in the report.
\<close>

theorem support_gate_fails_closed:
  assumes "Option.bind (tc_output_contract c) oc_evidence_grounding = Some rule"
    and "egr_semantic_support rule = Some support"
  shows "(\<exists>reason. ClaimsEvidenceSupported_validate lib (None :: 'w support_judge option) content c w =
      (Inl (InvariantViolated reason), w)) \<and>
    (\<forall>(judge :: 'w support_judge) r w'.
      ClaimsEvidenceSupported_validate lib (Some judge) content c w = (Inr r, w') \<and> vr_passed r \<longrightarrow>
      (\<exists>claims vs. claims_of lib rule content = Some claims \<and> length claims \<le> 64 \<and>
        list_all2 (claim_supported lib judge (egr_refs_field rule) support) claims vs \<and>
        bt_get (vr_details r) (lit ''verdicts'') =
          Some (JArray (verdict_records lib (egr_refs_field rule) support 0 claims vs))))"
proof (intro conjI allI impI)
  show "\<exists>reason. ClaimsEvidenceSupported_validate lib (None :: 'w support_judge option) content c w =
      (Inl (InvariantViolated reason), w)"
    by (simp add: ClaimsEvidenceSupported_validate_def assms eff_lift_def)
next
  fix judge :: "'w support_judge" and r w'
  assume run: "ClaimsEvidenceSupported_validate lib (Some judge) content c w = (Inr r, w') \<and> vr_passed r"
  show "\<exists>claims vs. claims_of lib rule content = Some claims \<and> length claims \<le> 64 \<and>
      list_all2 (claim_supported lib judge (egr_refs_field rule) support) claims vs \<and>
      bt_get (vr_details r) (lit ''verdicts'') =
        Some (JArray (verdict_records lib (egr_refs_field rule) support 0 claims vs))"
    by (rule ClaimsEvidenceSupported_passed [OF assms run [THEN conjunct1] run [THEN conjunct2]])
      (auto simp: MAX_JUDGED_CLAIMS_def)
qed

lemma demo_supported_passes:
  "\<exists>r. ClaimsEvidenceSupported_validate (demo_library demo_claims) (Some demo_judge_port) content demo_supported 0 = (Inr r, 1) \<and> vr_passed r"
proof -
  let ?claim = "[(lit ''refs'', JArray [JString (lit ''ev'')]), (lit ''text'', JString (lit ''so''))]"
  have parsed: "parse_json_object (demo_library demo_claims) content = Inr [(lit ''claims'', JArray [JObject ?claim])]"
    by (simp add: parse_json_object_def demo_library_def demo_claims_def)
  have cited: "cited_excerpts ?claim (lit ''refs'') demo_support = [\<lparr>ee_reference = lit ''ev'', ee_body = lit ''body''\<rparr>]"
    by (simp add: cited_excerpts_def List.map_filter_def demo_support_def)
  have "\<exists>vd. judge_claims (demo_library demo_claims) demo_judge_port [JObject ?claim] (lit ''refs'') demo_support 0 0 = (Inr ([vd], []), 1)"
    using cited by (simp add: eff_bind_def eff_lift_def demo_judge_port_def verdict_accepted_def demo_support_def Let_def)
  then obtain vd where vd: "judge_claims (demo_library demo_claims) demo_judge_port [JObject ?claim] (lit ''refs'') demo_support 0 0 =
      (Inr ([vd], []), 1)" ..
  have g: "Option.bind (tc_output_contract demo_supported) oc_evidence_grounding = Some demo_grounding"
    by (simp add: demo_supported_def)
  show ?thesis
    using vd
    by (simp add: ClaimsEvidenceSupported_validate_def g demo_grounding_def parsed MAX_JUDGED_CLAIMS_def eff_bind_def eff_lift_def
        attributes_of_json_object is_whitespace_def ValidatorReport_new_def Let_def del: judge_claims.simps)
qed

theorem support_gate_fails_closed_witness:
  "(\<exists>reason. ClaimsEvidenceSupported_validate (demo_library demo_claims) (None :: nat support_judge option) [] demo_supported 0 =
      (Inl (InvariantViolated reason), 0)) \<and>
   (\<exists>r claims vs. ClaimsEvidenceSupported_validate (demo_library demo_claims) (Some demo_judge_port) [] demo_supported 0 = (Inr r, 1) \<and>
      claims_of (demo_library demo_claims) demo_grounding [] = Some claims \<and>
      list_all2 (claim_supported (demo_library demo_claims) demo_judge_port (lit ''refs'') demo_support) claims vs)"
proof -
  have c: "Option.bind (tc_output_contract demo_supported) oc_evidence_grounding = Some demo_grounding"
    "egr_semantic_support demo_grounding = Some demo_support" "egr_refs_field demo_grounding = lit ''refs''"
    by (simp_all add: demo_supported_def demo_grounding_def)
  obtain r where r: "ClaimsEvidenceSupported_validate (demo_library demo_claims) (Some demo_judge_port) [] demo_supported 0 = (Inr r, 1)"
    "vr_passed r" using demo_supported_passes by blast
  note closed = support_gate_fails_closed [OF c(1,2), of "demo_library demo_claims" "[]" "0 :: nat"]
  from closed r c(3) show ?thesis by fastforce
qed

text \<open>
  One claim may break the grounding rule several times, so the count in the summary of a failed
  report is not the number of claims that lack evidence.
\<close>

lemma one_claim_many_violations:
  "length (claim_violations lib rule i (JObject [(egr_refs_field rule, JArray (replicate n JNull))])) = max 1 n"
  by (cases n) (simp_all add: claim_violations_def Let_def List.map_filter_def)

end
