(* ===== verification/Council_Runs.thy ===== *)
theory Council_Runs
  imports Council_Engine Validator_Verdicts
begin

text \<open>
  The council engine in memory: the ports of its use cases over the registries of
  \<open>choreo-adapters/src/memory\<close> and the judge-aware scoring, with everything outside as a
  parameter.  The environments of the deliberation, of the decision and of the announcements
  are interpreted on these ports, and the properties of the engine are stated for them.
\<close>

section \<open>The world of the engine\<close>

text \<open>
  An error of a call to the outside: any but \<open>NoValidProposal\<close>, which only the choice of the
  winner constructs.
\<close>

typedef port_error = "{e :: domain_error. \<forall>k. e \<noteq> NoValidProposal k}"
  morphisms error_of Abs_port_error
  by (rule exI [of _ "NotFound ''agent''"]) simp

setup_lifting type_definition_port_error

type_synonym ('x, 'b) call = "'x \<Rightarrow> (port_error + 'b) \<times> 'x"

record ('a, 'x) outside =
  o_now :: "'x \<Rightarrow> timestamp"
  o_instant :: "'x \<Rightarrow> nat"
  o_uuid :: "('x, rstr) call"
  o_agent_id :: "'a \<Rightarrow> rstr"
  o_generate :: "'a \<Rightarrow> draft_request \<Rightarrow> ('x, rstr) call"
  o_critique :: "'a \<Rightarrow> rstr \<Rightarrow> task_constraints \<Rightarrow> ('x, rstr) call"
  o_revise :: "'a \<Rightarrow> rstr \<Rightarrow> rstr \<Rightarrow> ('x, rstr) call"
  o_json :: json_library
  o_support_judge :: "(rstr \<Rightarrow> evidence_excerpt list \<Rightarrow> ('x, support_verdict) call) option"
  o_validators :: "(rstr \<Rightarrow> task_constraints \<Rightarrow> ('x, validator_report) call) list"
  o_execute :: "proposal \<Rightarrow> attributes \<Rightarrow> ('x, execution_outcome) call"
  o_create_agent :: "agent_descriptor \<Rightarrow> ('x, 'a) call"
  o_publish :: "council_message \<Rightarrow> ('x, unit) call"
  o_whole_ms :: "timestamp \<Rightarrow> timestamp \<Rightarrow> int"
  o_fmt :: "f64 \<Rightarrow> rstr"
  o_source :: rstr

record ('a, 'x) council_world =
  cw_agents :: "(rstr, 'a) btree_map"
  cw_councils :: council_map
  cw_contracts :: contract_map
  cw_deliberations :: deliberation_map
  cw_statistics :: statistics
  cw_messages :: "council_message list"
  cw_metrics :: "council_metric list"
  cw_modes :: "scoring_mode list"
  cw_outside :: 'x

text \<open>An effect on a part of the world, as an effect on the world.\<close>

definition on_part :: "('w \<Rightarrow> 's) \<Rightarrow> ('s \<Rightarrow> 'w \<Rightarrow> 'w) \<Rightarrow> ('s, 'b) effect \<Rightarrow> ('w, 'b) effect" where
  "on_part part put m w = (let (r, s) = m (part w) in (r, put s w))"

definition calling :: "('x, 'b) call \<Rightarrow> (('a, 'x) council_world, 'b) effect" where
  "calling m = on_part cw_outside (\<lambda>x w. w\<lparr>cw_outside := x\<rparr>) (\<lambda>x. let (r, y) = m x in (map_sum error_of id r, y))"

definition on_agents :: "((rstr, 'a) btree_map, 'b) effect \<Rightarrow> (('a, 'x) council_world, 'b) effect" where
  "on_agents = on_part cw_agents (\<lambda>s w. w\<lparr>cw_agents := s\<rparr>)"

definition on_councils :: "(council_map, 'b) effect \<Rightarrow> (('a, 'x) council_world, 'b) effect" where
  "on_councils = on_part cw_councils (\<lambda>s w. w\<lparr>cw_councils := s\<rparr>)"

definition on_contracts :: "(contract_map, 'b) effect \<Rightarrow> (('a, 'x) council_world, 'b) effect" where
  "on_contracts = on_part cw_contracts (\<lambda>s w. w\<lparr>cw_contracts := s\<rparr>)"

definition on_deliberations :: "(deliberation_map, 'b) effect \<Rightarrow> (('a, 'x) council_world, 'b) effect" where
  "on_deliberations = on_part cw_deliberations (\<lambda>s w. w\<lparr>cw_deliberations := s\<rparr>)"

definition on_statistics :: "(statistics, 'b) effect \<Rightarrow> (('a, 'x) council_world, 'b) effect" where
  "on_statistics = on_part cw_statistics (\<lambda>s w. w\<lparr>cw_statistics := s\<rparr>)"

text \<open>The score of the judge-aware policy; the mode it used goes to the metrics.\<close>

definition judge_score :: "validator_report list \<Rightarrow> (('a, 'x) council_world, score) effect" where
  "judge_score reports w =
     (let (mode, r) = JudgeAwareScoring_score reports in (r, w\<lparr>cw_modes := cw_modes w @ [mode]\<rparr>))"

definition publish_message ::
    "('a, 'x) outside \<Rightarrow> council_message \<Rightarrow> (('a, 'x) council_world, unit) effect" where
  "publish_message out msg =
     eff_bind (calling (o_publish out msg)) (\<lambda>_. eff_do (\<lambda>w. w\<lparr>cw_messages := cw_messages w @ [msg]\<rparr>))"

text \<open>
  The validators of the service are its chain, and after it those that are code outside this
  model (the judge that scores proposals).
\<close>

definition support_judge_port :: "('a, 'x) outside \<Rightarrow> ('a, 'x) council_world support_judge option" where
  "support_judge_port out = map_option (\<lambda>j text excerpts. calling (j text excerpts)) (o_support_judge out)"

definition wired_validators ::
    "('a, 'x) outside \<Rightarrow> (rstr \<Rightarrow> task_constraints \<Rightarrow> (('a, 'x) council_world, validator_report) effect) list" where
  "wired_validators out =
     validator_chain (o_json out) (support_judge_port out) @
     map (\<lambda>v content c. calling (v content c)) (o_validators out)"

definition memory_council_ports :: "('a, 'x) outside \<Rightarrow> (('a, 'x) council_world, 'a) council_ports" where
  "memory_council_ports out =
     \<lparr>c_now = (\<lambda>w. o_now out (cw_outside w)),
      c_council = (\<lambda>sp. on_councils (InMemoryCouncilRegistry_get sp)),
      c_resolve = (\<lambda>i. on_agents (InMemoryAgentRegistry_resolve i)),
      c_agent_id = o_agent_id out,
      c_generate = (\<lambda>a rq. calling (o_generate out a rq)),
      c_critique = (\<lambda>a content c. calling (o_critique out a content c)),
      c_revise = (\<lambda>a content feedback. calling (o_revise out a content feedback)),
      c_validators = wired_validators out,
      c_score = judge_score,
      c_discrimination = JudgeAwareScoring_discrimination,
      c_save = (\<lambda>d. on_deliberations (InMemoryDeliberationRepository_save d)),
      c_record_deliberation = (\<lambda>sp dur. on_statistics (InMemoryStatistics_record_deliberation sp dur)),
      c_metric = (\<lambda>m w. w\<lparr>cw_metrics := cw_metrics w @ [m]\<rparr>),
      c_publish = publish_message out,
      c_uuid = calling (o_uuid out),
      c_whole_ms = o_whole_ms out,
      c_source = o_source out\<rparr>"

definition memory_engine_ports :: "('a, 'x) outside \<Rightarrow> (('a, 'x) council_world, 'a) engine_ports" where
  "memory_engine_ports out =
     \<lparr>e_council = memory_council_ports out,
      e_register_council = (\<lambda>c. on_councils (InMemoryCouncilRegistry_register c)),
      e_list_councils = on_councils InMemoryCouncilRegistry_list,
      e_delete_council = (\<lambda>sp. on_councils (InMemoryCouncilRegistry_delete sp)),
      e_contract = (\<lambda>k. on_contracts (InMemoryContractRegistry_get k)),
      e_get_deliberation = (\<lambda>k. on_deliberations (InMemoryDeliberationRepository_get k)),
      e_record_orchestration = (\<lambda>dur. on_statistics (InMemoryStatistics_record_orchestration dur)),
      e_execute = (\<lambda>p opts. calling (o_execute out p opts)),
      e_create_agent = (\<lambda>descriptor. calling (o_create_agent out descriptor)),
      e_register_agent = (\<lambda>a. on_agents (InMemoryAgentRegistry_insert (o_agent_id out) a)),
      e_unregister_agent = (\<lambda>i. on_agents (InMemoryAgentRegistry_remove i)),
      e_instant = (\<lambda>w. o_instant out (cw_outside w)),
      e_fmt = o_fmt out,
      e_source = o_source out\<rparr>"

section \<open>The environments\<close>

text \<open>In a sane registry every agent is found under its own id; registering keeps it sane.\<close>

definition agents_sane :: "('a, 'x) outside \<Rightarrow> ('a, 'x) council_world \<Rightarrow> bool" where
  "agents_sane out w = (\<forall>k a. bt_get (cw_agents w) k = Some a \<longrightarrow> o_agent_id out a = k)"

lemmas world_defs = memory_council_ports_def memory_engine_ports_def on_part_def calling_def on_agents_def
  on_councils_def on_contracts_def on_deliberations_def on_statistics_def

lemma error_of_plain: "error_of e \<noteq> NoValidProposal k"
  using error_of [of e] by blast

lemma calling_plain: "plain (calling m :: (('a, 'x) council_world, 'b) effect)"
  unfolding plain_def
proof (intro allI)
  fix w :: "('a, 'x) council_world" and k
  obtain r y where m: "m (cw_outside w) = (r, y)" by (cases "m (cw_outside w)")
  show "fst (calling m w :: 'b outcome \<times> ('a, 'x) council_world) \<noteq> Inl (NoValidProposal k)"
    by (cases r) (simp_all add: calling_def on_part_def m error_of_plain)
qed

lemma judge_score_facts:
  "plain (judge_score rs :: (('a, 'x) council_world, score) effect)"
  "judge_score rs w = (Inr s, w') \<Longrightarrow> \<exists>v. Score_new v = Inr s"
proof -
  have plain_new: "Score_new v \<noteq> Inl (NoValidProposal k)" for v k by (simp add: Score_new_def)
  show "plain (judge_score rs :: (('a, 'x) council_world, score) effect)"
    by (auto simp: plain_def judge_score_def JudgeAwareScoring_score_def passed_ratio_def plain_new split: option.split)
  have "Score_new (F64 0) = Inr Score_MIN" by (simp add: Score_new_def Score_MIN_def f64_le_def)
  then show "judge_score rs w = (Inr s, w') \<Longrightarrow> \<exists>v. Score_new v = Inr s"
    by (auto simp: judge_score_def JudgeAwareScoring_score_def passed_ratio_def split: option.splits if_splits)
qed

text \<open>The validators of the chain answer; only the support gate passes an error of its judge on.\<close>

lemma judgeless_total:
  "\<exists>r. ContentNonEmpty_validate content c = Inr r" "\<exists>r. JsonObjectOutput_validate lib content c = Inr r"
  "\<exists>r. RequiredFields_validate lib content c = Inr r" "\<exists>r. AllowedStringValues_validate lib content c = Inr r"
  "\<exists>r. JsonSchema_validate lib content c = Inr r" "\<exists>r. ClaimsEvidenceGrounded_validate lib content c = Inr r"
  "\<exists>r. BoundedEventShape_validate lib BoundedEventShape_new content c = Inr r"
proof -
  have "(\<exists>r. ContentNonEmpty_validate content c = Inr r) \<and> (\<exists>r. JsonObjectOutput_validate lib content c = Inr r) \<and>
    (\<exists>r. RequiredFields_validate lib content c = Inr r) \<and> (\<exists>r. AllowedStringValues_validate lib content c = Inr r) \<and>
    (\<exists>r. JsonSchema_validate lib content c = Inr r) \<and> (\<exists>r. ClaimsEvidenceGrounded_validate lib content c = Inr r) \<and>
    (\<exists>r. BoundedEventShape_validate lib BoundedEventShape_new content c = Inr r)"
  proof (cases "tc_output_contract c")
    case None
    then show ?thesis
      by (simp add: ContentNonEmpty_validate_def JsonObjectOutput_validate_def RequiredFields_validate_def
          AllowedStringValues_validate_def JsonSchema_validate_def ClaimsEvidenceGrounded_validate_def
          BoundedEventShape_validate_def ValidatorReport_new_def is_whitespace_def Let_def)
  next
    case (Some contract)
    then show ?thesis by (rule chain_judgeless [of c contract content lib]) blast
  qed
  then show "\<exists>r. ContentNonEmpty_validate content c = Inr r" "\<exists>r. JsonObjectOutput_validate lib content c = Inr r"
    "\<exists>r. RequiredFields_validate lib content c = Inr r" "\<exists>r. AllowedStringValues_validate lib content c = Inr r"
    "\<exists>r. JsonSchema_validate lib content c = Inr r" "\<exists>r. ClaimsEvidenceGrounded_validate lib content c = Inr r"
    "\<exists>r. BoundedEventShape_validate lib BoundedEventShape_new content c = Inr r" by blast+
qed

lemma judge_claims_plain:
  "(\<And>t es. plain (judge t es)) \<Longrightarrow> plain (judge_claims lib judge claims refs_field support n)"
  by (induction claims arbitrary: n) (auto intro!: plain_intros simp: Let_def split: option.split)

lemma report_plain:
  "ValidatorReport_new k b s d \<noteq> Inl (NoValidProposal i)" "attributes_of v \<noteq> Inl (NoValidProposal i)"
  by (auto simp: ValidatorReport_new_def attributes_of_def Attributes_new_def split: json.splits)

lemma support_gate_plain:
  assumes "\<And>judge t es. judge_opt = Some judge \<Longrightarrow> plain (judge t es)"
  shows "plain (ClaimsEvidenceSupported_validate lib judge_opt content c)"
  unfolding ClaimsEvidenceSupported_validate_def Let_def
  by (auto intro!: plain_intros judge_claims_plain assms simp: report_plain result_simps
      split: option.split sum.split if_splits)

lemma plain_total: "\<exists>x. r = Inr x \<Longrightarrow> plain (eff_lift r)"
  by (auto intro: plain_lift)

lemma wired_plain:
  assumes "v \<in> set (wired_validators out)"
  shows "plain (v content c)"
proof -
  have "plain (ClaimsEvidenceSupported_validate (o_json out) (support_judge_port out) content c)"
    by (rule support_gate_plain) (auto simp: support_judge_port_def calling_plain)
  then show ?thesis
    using assms by (auto simp: wired_validators_def validator_chain_def calling_plain judgeless_total [THEN plain_total])
qed

lemma registry_plain:
  "plain (on_councils (InMemoryCouncilRegistry_get sp) :: (('a, 'x) council_world, council) effect)"
  "plain (on_agents (InMemoryAgentRegistry_resolve i) :: (('a, 'x) council_world, 'a) effect)"
  "plain (on_deliberations (InMemoryDeliberationRepository_save d) :: (('a, 'x) council_world, unit) effect)"
  "plain (on_statistics (InMemoryStatistics_record_deliberation sp dur) :: (('a, 'x) council_world, unit) effect)"
  by (auto simp: plain_def world_defs InMemoryCouncilRegistry_get_def InMemoryAgentRegistry_resolve_def
      InMemoryDeliberationRepository_save_def InMemoryStatistics_record_deliberation_def result_simps)

lemma publish_plain: "plain (publish_message out msg)"
  unfolding publish_message_def by (intro plain_bind calling_plain plain_do)

text \<open>What the calls leave alone.\<close>

lemma part_frames:
  "on_statistics m1 w = (r1, w') \<Longrightarrow> cw_deliberations w' = cw_deliberations w"
  "on_councils m2 w = (r2, w') \<Longrightarrow> cw_agents w' = cw_agents w"
  "on_contracts m3 w = (r3, w') \<Longrightarrow> cw_agents w' = cw_agents w"
  "calling m4 w = (r4, w') \<Longrightarrow> cw_deliberations w' = cw_deliberations w"
  "calling m4 w = (r4, w') \<Longrightarrow> cw_agents w' = cw_agents w"
  "calling m4 w = (r4, w') \<Longrightarrow> cw_messages w' = cw_messages w"
  by (auto simp: calling_def on_statistics_def on_councils_def on_contracts_def on_part_def Let_def split: prod.splits)

lemma messages_kept:
  "keeps cw_messages (on_statistics m1)" "keeps cw_messages (on_councils m2)" "keeps cw_messages (on_contracts m3)"
  "keeps cw_messages (calling m4)" "keeps cw_messages (on_agents m5)" "keeps cw_messages (on_deliberations m6)"
  "keeps cw_messages (judge_score rs)"
  by (auto simp: keeps_def calling_def on_statistics_def on_councils_def on_contracts_def on_agents_def
      on_deliberations_def on_part_def judge_score_def Let_def split: prod.splits)

lemma judge_claims_keeps:
  "(\<And>t es. keeps obs (judge t es)) \<Longrightarrow> keeps obs (judge_claims lib judge claims refs_field support n)"
  by (induction claims arbitrary: n) (auto intro!: keeps_intros simp: Let_def split: option.split)

lemma support_gate_keeps:
  assumes "\<And>judge t es. judge_opt = Some judge \<Longrightarrow> keeps obs (judge t es)"
  shows "keeps obs (ClaimsEvidenceSupported_validate lib judge_opt content c)"
  unfolding ClaimsEvidenceSupported_validate_def Let_def
  by (auto intro!: keeps_intros judge_claims_keeps assms split: option.split sum.split)

lemma wired_quiet:
  assumes "v \<in> set (wired_validators out)"
  shows "keeps cw_messages (v content c)"
proof -
  have "keeps cw_messages (ClaimsEvidenceSupported_validate (o_json out) (support_judge_port out) content c)"
    by (rule support_gate_keeps) (auto simp: support_judge_port_def messages_kept)
  then show ?thesis
    using assms by (auto simp: wired_validators_def validator_chain_def messages_kept keeps_lift)
qed

lemma publish_frames:
  assumes "publish_message out msg w = (r, w')"
  shows "cw_deliberations w' = cw_deliberations w"
    and "cw_messages w' = (if is_ok r then cw_messages w @ [msg] else cw_messages w)"
proof -
  obtain s w1 where c: "calling (o_publish out msg) w = (s, w1)" by (cases "calling (o_publish out msg) w")
  from assms c have "w' = (if is_ok s then w1\<lparr>cw_messages := cw_messages w1 @ [msg]\<rparr> else w1)" "is_ok r = is_ok s"
    by (auto simp: publish_message_def eff_bind_def eff_do_def split: sum.splits)
  then show "cw_deliberations w' = cw_deliberations w"
    "cw_messages w' = (if is_ok r then cw_messages w @ [msg] else cw_messages w)"
    using part_frames(4,6) [OF c] by simp_all
qed

lemma resolve_sane:
  "on_agents (InMemoryAgentRegistry_resolve i) w = (Inr a, w') \<Longrightarrow> agents_sane out w \<Longrightarrow>
     o_agent_id out a = i \<and> agents_sane out w'"
  by (auto simp: on_agents_def on_part_def InMemoryAgentRegistry_resolve_def agents_sane_def result_simps)

lemma save_stores:
  "on_deliberations (InMemoryDeliberationRepository_save d) w = (Inr u, w') \<Longrightarrow>
     bt_get (cw_deliberations w') (del_task_id d) = Some d"
  by (auto simp: on_deliberations_def on_part_def InMemoryDeliberationRepository_save_def)

lemma get_stored:
  "on_deliberations (InMemoryDeliberationRepository_get k) w = (Inr d, w') \<Longrightarrow>
     bt_get (cw_deliberations w) k = Some d \<and> bt_get (cw_deliberations w') k = Some d"
  by (auto simp: on_deliberations_def on_part_def InMemoryDeliberationRepository_get_def result_simps)

lemmas port_fields = memory_council_ports_def memory_engine_ports_def

interpretation memory_council: announcing_environment "memory_engine_ports out"
    "\<lambda>w. bt_get (cw_deliberations w) tid" tid "agents_sane out" cw_messages
  for out :: "('a, 'x) outside" and tid :: rstr
  by unfold_locales
    (auto simp: port_fields agents_sane_def dest: judge_score_facts(2) part_frames publish_frames get_stored save_stores
      resolve_sane intro: calling_plain registry_plain judge_score_facts(1) publish_plain messages_kept wired_plain wired_quiet)

section \<open>An example\<close>

text \<open>
  Two agents named \<open>a\<close> and \<open>b\<close> sit in a council.  Their drafts are their names, a revision
  appends an exclamation mark.  Every text reads as the empty JSON object.
\<close>

definition demo_outside :: "(rstr, nat) outside" where
  "demo_outside =
     \<lparr>o_now = int, o_instant = (\<lambda>x. x), o_uuid = (\<lambda>x. (Inr (display_nat (x mod 10)), x + 1)), o_agent_id = (\<lambda>a. a),
      o_generate = (\<lambda>a rq x. (Inr a, x)), o_critique = (\<lambda>a content c x. (Inr content, x)),
      o_revise = (\<lambda>a content feedback x. (Inr (content @ lit ''!''), x)),
      o_json = demo_json, o_support_judge = None, o_validators = [],
      o_execute = (\<lambda>p opts x. (Inr \<lparr>eo_execution_id = lit ''x'', eo_succeeded = True, eo_duration = 5, eo_output = []\<rparr>, x)),
      o_create_agent = (\<lambda>d x. (Inr (ad_id d), x)), o_publish = (\<lambda>m x. (Inr (), x)),
      o_whole_ms = (\<lambda>a b. (b - a) div 1000000), o_fmt = (\<lambda>_. []), o_source = lit ''engine''\<rparr>"

definition demo_council_world :: "nat \<Rightarrow> (rstr, nat) council_world" where
  "demo_council_world n =
     \<lparr>cw_agents = [(lit ''a'', lit ''a''), (lit ''b'', lit ''b'')],
      cw_councils = [(lit ''review'', \<lparr>council_id = lit ''c'', council_specialty = lit ''review'',
        council_agents = [lit ''b''], council_created_at = 0\<rparr>)],
      cw_contracts = [(lit ''plan'', demo_contract)], cw_deliberations = [], cw_statistics = Statistics_new,
      cw_messages = [], cw_metrics = [], cw_modes = [], cw_outside = n\<rparr>"

definition demo_task_of :: "rstr \<Rightarrow> attributes \<Rightarrow> rstr \<Rightarrow> task" where
  "demo_task_of txt attrs tid = \<lparr>task_id = tid, task_specialty = lit ''review'', task_description = txt,
     task_constraints_of = TaskConstraints_default\<lparr>tc_output_contract := Some demo_contract\<rparr>, task_attributes = attrs,
     task_external_context = None, task_metadata_of = TaskMetadata_default\<rparr>"

abbreviation demo_task :: "rstr \<Rightarrow> task" where
  "demo_task \<equiv> demo_task_of (lit ''do'') []"

definition demo_decision :: run_council_decision_input where
  "demo_decision = \<lparr>rdi_council_selector = BySpecialty (lit ''review''), rdi_contract_id = lit ''plan'',
     rdi_task_description = lit ''do'', rdi_external_context = None, rdi_validation_mode = Strict,
     rdi_metadata = TaskMetadata_default\<rparr>"

definition demo_ports :: "((rstr, nat) council_world, rstr) council_ports" where
  "demo_ports = memory_council_ports demo_outside"

lemma demo_calls:
  "c_now demo_ports w = int (cw_outside w)"
  "c_council demo_ports sp w = (ok_or (bt_get (cw_councils w) sp) (NotFound ''council''), w)"
  "c_resolve demo_ports i w = (ok_or (bt_get (cw_agents w) i) (NotFound ''agent''), w)"
  "c_agent_id demo_ports a = a"
  "c_generate demo_ports a rq w = (Inr a, w)"
  "c_validators demo_ports = validator_chain demo_json None"
  "c_score demo_ports rs w = judge_score rs w"
  "c_save demo_ports d w = (Inr (), w\<lparr>cw_deliberations := bt_insert (del_task_id d) d (cw_deliberations w)\<rparr>)"
  "c_record_deliberation demo_ports sp dur w =
     (Inr (), w\<lparr>cw_statistics := Statistics_record_deliberation (cw_statistics w) sp dur\<rparr>)"
  "c_metric demo_ports m w = w\<lparr>cw_metrics := cw_metrics w @ [m]\<rparr>"
  "c_publish demo_ports msg w = (Inr (), w\<lparr>cw_messages := cw_messages w @ [msg]\<rparr>)"
  "c_uuid demo_ports w = (Inr (display_nat (cw_outside w mod 10)), w\<lparr>cw_outside := cw_outside w + 1\<rparr>)"
  "c_source demo_ports = lit ''engine''"
  by (simp_all add: demo_ports_def world_defs demo_outside_def InMemoryCouncilRegistry_get_def
      InMemoryAgentRegistry_resolve_def InMemoryDeliberationRepository_save_def
      InMemoryStatistics_record_deliberation_def publish_message_def eff_bind_def eff_do_def
      wired_validators_def support_judge_port_def)

lemma demo_text: "trim (lit ''b'') = lit ''b''" "trim (lit ''engine'') = lit ''engine''"
  by (rule trim_id; simp add: lit_def is_whitespace_def)+

lemma demo_source: "lit ''engine'' \<noteq> []" "str_len (lit ''engine'') = 6"
proof -
  show "lit ''engine'' \<noteq> []" by (simp add: lit_def)
  show "str_len (lit ''engine'') = 6" by (subst str_len_ascii) (simp_all add: lit_def)
qed

lemma small_number_ids: "n < 10 \<Longrightarrow> validate_id field (display_nat n) = Inr [48 + n]"
proof -
  assume "n < 10"
  then have d: "display_nat n = [48 + n]" by (subst display_nat.simps) simp
  moreover have "trim [48 + n] = [48 + n]" by (rule trim_id) (use \<open>n < 10\<close> in \<open>auto simp: is_whitespace_def\<close>)
  ultimately show ?thesis using \<open>n < 10\<close>
    by (simp add: validate_id_def checked_text_def str_len_ascii is_control_def)
qed

text \<open>What the chain reports on the draft of \<open>b\<close>.\<close>

definition demo_passed :: "string \<Rightarrow> string \<Rightarrow> attributes \<Rightarrow> validator_report" where
  "demo_passed kind summary details = \<lparr>vr_kind = lit kind, vr_passed = True, vr_summary = lit summary, vr_details = details\<rparr>"

definition demo_reports :: "validator_report list" where
  "demo_reports =
     [demo_passed ''content-non-empty'' ''len=1'' [],
      demo_passed ''output-json-object'' ''proposal is a valid JSON object'' [],
      demo_passed ''output-required-fields'' ''all required fields are present'' [],
      demo_passed ''output-allowed-string-values'' ''all constrained string fields satisfy their allowed value sets'' [],
      demo_passed ''output-json-schema'' ''contract has no embedded JSON Schema'' [],
      demo_passed ''claims-evidence-grounded'' ''no evidence grounding configured'' [],
      demo_passed ''claims-evidence-supported'' ''no semantic support configured'' [],
      demo_passed ''output-bounded-event-shape'' ''proposal satisfies the event-shape budget''
        [(lit ''contract_id'', JString (lit ''plan''))]]"

lemma demo_judgeless:
  "ContentNonEmpty_validate (lit ''b'') c = Inr (demo_passed ''content-non-empty'' ''len=1'' [])"
  "parse_json_object demo_json content = Inr []"
  "strip_markdown_fences (lit ''b'') = lit ''b''"
proof -
  have "str_len (lit ''b'') = 1" by (subst str_len_ascii) (simp_all add: lit_def)
  moreover have "display_nat 1 = lit ''1''" by (subst display_nat.simps) (simp add: lit_def)
  ultimately show "ContentNonEmpty_validate (lit ''b'') c = Inr (demo_passed ''content-non-empty'' ''len=1'' [])"
    by (simp add: ContentNonEmpty_validate_def demo_text ValidatorReport_new_def demo_passed_def is_whitespace_def)
      (simp add: lit_def)
  show "parse_json_object demo_json content = Inr []" by (simp add: parse_json_object_def demo_library_def)
  show "strip_markdown_fences (lit ''b'') = lit ''b''"
    by (simp add: strip_markdown_fences_def demo_text) (simp add: lit_def strip_prefix_def)
qed

lemma demo_shape:
  "BoundedEventShape_validate demo_json BoundedEventShape_new (lit ''b'') demo_constraints =
     Inr (demo_passed ''output-bounded-event-shape'' ''proposal satisfies the event-shape budget''
       [(lit ''contract_id'', JString (lit ''plan''))])"
proof -
  have "str_len (lit ''b'') = 1" by (subst str_len_ascii) (simp_all add: lit_def)
  then show ?thesis
    by (simp add: BoundedEventShape_validate_def demo_contract_def demo_text Let_def demo_judgeless(3) demo_library_def walk.simps
        attributes_of_json_object is_whitespace_def ValidatorReport_new_def demo_passed_def BoundedEventShape_new_def)
qed

lemma demo_checks:
  "JsonObjectOutput_validate demo_json content demo_constraints =
     Inr (demo_passed ''output-json-object'' ''proposal is a valid JSON object'' [])"
  "RequiredFields_validate demo_json content demo_constraints =
     Inr (demo_passed ''output-required-fields'' ''all required fields are present'' [])"
  "AllowedStringValues_validate demo_json content demo_constraints =
     Inr (demo_passed ''output-allowed-string-values'' ''all constrained string fields satisfy their allowed value sets'' [])"
  "JsonSchema_validate demo_json content demo_constraints =
     Inr (demo_passed ''output-json-schema'' ''contract has no embedded JSON Schema'' [])"
  "ClaimsEvidenceGrounded_validate demo_json content demo_constraints =
     Inr (demo_passed ''claims-evidence-grounded'' ''no evidence grounding configured'' [])"
  "ClaimsEvidenceSupported_validate demo_json None content demo_constraints =
     eff_lift (Inr (demo_passed ''claims-evidence-supported'' ''no semantic support configured'' []))"
  by (simp_all add: JsonObjectOutput_validate_def RequiredFields_validate_def AllowedStringValues_validate_def
      JsonSchema_validate_def ClaimsEvidenceGrounded_validate_def ClaimsEvidenceSupported_validate_def
      ValidatorReport_new_def is_whitespace_def demo_judgeless(2) demo_passed_def demo_contract_def missing_fields_def)

lemma demo_chain:
  "run_validators (validator_chain demo_json None) (lit ''b'') demo_constraints w = (Inr demo_reports, w)"
  "list_all vr_passed demo_reports" "demo_reports \<noteq> []" "length demo_reports = 8" "find is_judge_report demo_reports = None"
proof -
  show "run_validators (validator_chain demo_json None) (lit ''b'') demo_constraints w = (Inr demo_reports, w)"
    by (simp add: validator_chain_def demo_judgeless(1) demo_shape demo_checks eff_bind_def eff_lift_def demo_reports_def)
qed (simp_all add: demo_reports_def demo_passed_def is_judge_report_def JUDGE_SCORE_DETAIL_KEY_def lit_def)

text \<open>The deliberation of the example, started when the counter of identifiers stands at \<open>n\<close>.\<close>

definition demo_scored :: "attributes \<Rightarrow> rstr \<Rightarrow> nat \<Rightarrow> deliberation" where
  "demo_scored attrs tid n = (Deliberation_start tid (lit ''review'') 1 (int n))\<lparr>del_phase := Scoring,
     del_proposals := [([48 + n], \<lparr>prop_id = [48 + n], prop_author = lit ''b'', prop_specialty = lit ''review'',
       prop_content = lit ''b'', prop_attributes = attrs, prop_created_at = int n, prop_updated_at = int n,
       prop_revision_count = 0\<rparr>)],
     del_outcomes := [([48 + n], \<lparr>vo_score = F64 1, vo_reports = demo_reports\<rparr>)]\<rparr>"

definition demo_done :: "attributes \<Rightarrow> rstr \<Rightarrow> nat \<Rightarrow> deliberation" where
  "demo_done attrs tid n = (demo_scored attrs tid n)\<lparr>del_phase := Completed_phase, del_ranking := [[48 + n]],
     del_completed_at := Some (int (Suc n))\<rparr>"

definition demo_ranked :: "attributes \<Rightarrow> nat \<Rightarrow> ranked_outcome list" where
  "demo_ranked attrs n = number_ranked [([48 + n], snd (hd (del_proposals (demo_scored attrs [] n))),
     \<lparr>vo_score = F64 1, vo_reports = demo_reports\<rparr>)]"

lemma demo_judge: "judge_score demo_reports w = (Inr (F64 1), w\<lparr>cw_modes := cw_modes w @ [UniformFallback]\<rparr>)"
proof -
  have "filter vr_passed demo_reports = demo_reports" using demo_chain(2) by (simp add: filter_id_conv list_all_iff)
  then show ?thesis
    by (simp add: judge_score_def JudgeAwareScoring_score_def judge_verdict_def demo_chain
        passed_ratio_def count_ratio_def Score_new_def f64_le_def bit_len.simps)
qed

lemma demo_scores:
  "n < 9 \<Longrightarrow> deliberate_to_scoring demo_ports NullObserver (demo_task_of txt attrs tid) (demo_council_world n) =
     (Inr (demo_scored attrs tid n), (demo_council_world (Suc n))\<lparr>cw_modes := [UniformFallback]\<rparr>)"
  by (simp add: deliberate_to_scoring_def demo_calls eff_bind_def eff_get_def eff_lift_def eff_do_def
    demo_council_world_def demo_task_of_def resolve_agents_def TaskConstraints_default_def Let_def NullObserver_def
    seed_proposals_def seed_proposal_def new_proposal_id_def ProposalId_new_def small_number_ids Proposal_new_def demo_text
    Deliberation_add_proposal_def require_phase_def Deliberation_start_def bt_contains_key_def
    advance_with_observer_def Deliberation_advance_def run_peer_review_rounds_def attach_validations_def
    attach_validation_def Deliberation_attach_outcome_def demo_judge demo_scored_def Rounds_default_def
    lit_def demo_text(1) [unfolded lit_def, simplified]
    demo_chain(1) [unfolded lit_def TaskConstraints_default_def Rounds_default_def, simplified])

lemma demo_completes: "Deliberation_complete (demo_scored attrs tid n) (int (Suc n)) = Inr (demo_done attrs tid n, demo_ranked attrs n)"
  by (simp add: Deliberation_complete_def require_phase_def materialize_ranked_tuples_def demo_done_def demo_scored_def
      Deliberation_start_def Let_def demo_ranked_def)

lemma demo_prioritized: "prioritize_valid_outputs (demo_done attrs tid n) (demo_ranked attrs n) = Inr (demo_done attrs tid n, demo_ranked attrs n)"
  by (simp add: prioritize_valid_outputs_def demo_ranked_def number_ranked_def demo_chain(2)
      ValidationOutcome_all_passed_def Deliberation_reprioritize_def require_phase_def demo_done_def demo_scored_def
      materialize_ranked_tuples_def Deliberation_start_def)

lemma demo_finalizes:
  "n < 8 \<Longrightarrow> cw_outside w = Suc n \<Longrightarrow>
     \<exists>w'. finalize demo_ports (demo_done attrs tid n) (demo_ranked attrs n) (demo_task_of txt attrs tid) t discr w =
       (Inr \<lparr>do_deliberation = demo_done attrs tid n, do_winner_proposal_id = [48 + n]\<rparr>, w') \<and> cw_outside w' = Suc (Suc n)"
  by (cases discr)
    (simp_all add: finalize_def finalize_winner_def demo_calls eff_bind_def eff_lift_def eff_do_def pick_winner_def demo_task_of_def
      demo_ranked_def number_ranked_def demo_scored_def demo_chain(2) ValidationOutcome_all_passed_def
      Deliberate_envelope_def new_event_id_def EventId_new_def small_number_ids EventEnvelope_new_with_causation_def demo_text
      TaskConstraints_default_def Deliberation_start_def demo_source Let_def)

lemma demo_fields [simp]: "cw_outside (demo_council_world n) = n" "task_id (demo_task_of txt attrs tid) = tid"
  "tc_output_contract (task_constraints_of (demo_task_of txt attrs tid)) = Some demo_contract" "task_metadata_of (demo_task_of txt attrs tid) = TaskMetadata_default"
  "cw_contracts (demo_council_world n) = [(lit ''plan'', demo_contract)]"
  "(demo_council_world n)\<lparr>cw_outside := m\<rparr> = demo_council_world m"
  by (simp_all add: demo_council_world_def demo_task_of_def)

lemma demo_deliberates:
  "n < 8 \<Longrightarrow> \<exists>w'. DeliberateUseCase_execute demo_ports (demo_task_of txt attrs tid) (demo_council_world n) =
     (Inr \<lparr>do_deliberation = demo_done attrs tid n, do_winner_proposal_id = [48 + n]\<rparr>, w') \<and> cw_outside w' = Suc (Suc n)"
  using demo_finalizes [of n "(demo_council_world (Suc n))\<lparr>cw_modes := [UniformFallback]\<rparr>"]
  by (simp add: DeliberateUseCase_execute_def DeliberateUseCase_execute_with_observer_def demo_scores demo_completes
      demo_prioritized eff_bind_def eff_get_def eff_lift_def eff_do_def Let_def demo_calls NullObserver_def
      del: of_nat_Suc)

section \<open>Properties of the engine\<close>

lemma engine_council [simp]: "e_council (memory_engine_ports out) = memory_council_ports out"
  by (simp add: memory_engine_ports_def)

lemma council_found:
  "c_council (memory_council_ports out) sp w = (Inr council, w0) \<Longrightarrow> bt_get (cw_councils w) sp = Some council"
  by (auto simp: world_defs InMemoryCouncilRegistry_get_def result_simps)

text \<open>A candidate that passed every validator of the engine meets the contract it was judged by.\<close>

lemma passed_meets:
  assumes "fully_reported (memory_council_ports out) c d" and c: "tc_output_contract c = Some contract"
    and "Deliberation_ranked_outcomes d = Inr ranked" and "r \<in> set ranked" and "ValidationOutcome_all_passed (ro_outcome r)"
  shows "meets_contract (o_json out) contract (prop_content (ro_proposal r)) \<and>
    claims_backed (o_json out) (support_judge_port out) contract (prop_content (ro_proposal r))"
proof -
  obtain pid where p: "bt_get (del_proposals d) pid = Some (ro_proposal r)" "bt_get (del_outcomes d) pid = Some (ro_outcome r)"
    by (rule ranked_outcomes_get [OF assms(3,4)])
  with assms(1) obtain w w' where "run_validators (c_validators (memory_council_ports out)) (prop_content (ro_proposal r)) c w =
      (Inr (vo_reports (ro_outcome r)), w')" by (fastforce simp: fully_reported_def)
  then have run: "run_validators (wired_validators out) (prop_content (ro_proposal r)) c w =
      (Inr (vo_reports (ro_outcome r)), w')" by (simp add: memory_council_ports_def)
  show ?thesis
    using chain_passed [OF c run [unfolded wired_validators_def]] assms(5) by (simp add: ValidationOutcome_all_passed_def)
qed

text \<open>
  C18. A deliberation that ends well: it is stored under its task as returned and complete; the
  agents seated by the council (the first ones in order of id, up to the size asked for) wrote
  one proposal each; with two agents or more every proposal was revised once per round, otherwise
  never; the winner heads the stored ranking, passed every validator if the task has an output
  contract, and ranks before every other proposal except ones that failed the contract.
\<close>

theorem deliberation_exact:
  assumes "DeliberateUseCase_execute (memory_council_ports out) task w = (Inr res, w')" and "agents_sane out w"
  shows "\<exists>council seats winner rest. bt_get (cw_councils w) (task_specialty task) = Some council \<and>
    seats = seated council (task_constraints_of task) \<and>
    bt_get (cw_deliberations w') (task_id task) = Some (do_deliberation res) \<and>
    deliberation_reachable (do_deliberation res) \<and> del_phase (do_deliberation res) = Completed_phase \<and>
    mset (authors (do_deliberation res)) = mset seats \<and>
    (\<forall>pid p. bt_get (del_proposals (do_deliberation res)) pid = Some p \<longrightarrow>
       prop_revision_count p = (if length seats < 2 then 0 else tc_rounds (task_constraints_of task))) \<and>
    Deliberation_ranked_outcomes (do_deliberation res) = Inr (winner # rest) \<and>
    do_winner_proposal_id res = prop_id (ro_proposal winner) \<and>
    (tc_output_contract (task_constraints_of task) \<noteq> None \<longrightarrow> ValidationOutcome_all_passed (ro_outcome winner)) \<and>
    (\<forall>r \<in> set rest. ranks_before winner r \<or>
       tc_output_contract (task_constraints_of task) \<noteq> None \<and> \<not> ValidationOutcome_all_passed (ro_outcome r))"
proof -
  note run = assms(1) [unfolded DeliberateUseCase_execute_def]
  obtain council w0 d ranked winner where council: "c_council (memory_council_ports out) (task_specialty task) w = (Inr council, w0)"
    and del: "deliberated (memory_council_ports out) task (seated council (task_constraints_of task)) d"
      "del_phase d = Completed_phase" "bt_get (cw_deliberations w') (task_id task) = Some d"
    and ranked: "Deliberation_ranked_outcomes d = Inr ranked" "decided (task_constraints_of task) ranked"
      "pick_winner ranked (task_constraints_of task) = Inr winner"
    and res: "res = \<lparr>do_deliberation = d, do_winner_proposal_id = prop_id (ro_proposal winner)\<rparr>"
    by (rule memory_council.deliberate_ok [unfolded engine_council, OF run assms(2) refl])
  from ranked(2,3) obtain rest where rest: "ranked = winner # rest"
      "tc_output_contract (task_constraints_of task) \<noteq> None \<longrightarrow> ValidationOutcome_all_passed (ro_outcome winner)"
      "\<forall>r \<in> set rest. ranks_before winner r \<or>
         tc_output_contract (task_constraints_of task) \<noteq> None \<and> \<not> ValidationOutcome_all_passed (ro_outcome r)"
    by (cases ranked) (auto simp: decided_def)
  show ?thesis
    by (rule exI [of _ council], rule exI [of _ "seated council (task_constraints_of task)"], rule exI [of _ winner],
        rule exI [of _ rest])
      (use council_found [OF council] del ranked(1) res rest in \<open>simp add: deliberated_def\<close>)
qed

lemma demo_sane: "agents_sane demo_outside (demo_council_world n)"
  by (simp add: agents_sane_def demo_outside_def demo_council_world_def)

theorem deliberation_exact_witness:
  "\<exists>res w' winner rest. DeliberateUseCase_execute (memory_council_ports demo_outside) (demo_task (lit ''t'')) (demo_council_world 2) = (Inr res, w') \<and>
     Deliberation_ranked_outcomes (do_deliberation res) = Inr (winner # rest) \<and> ValidationOutcome_all_passed (ro_outcome winner)"
proof -
  obtain w' where run: "DeliberateUseCase_execute (memory_council_ports demo_outside) (demo_task (lit ''t'')) (demo_council_world 2) =
      (Inr \<lparr>do_deliberation = demo_done [] (lit ''t'') 2, do_winner_proposal_id = [48 + 2]\<rparr>, w')"
    using demo_deliberates [of 2 "lit ''do''" "[]"] by (auto simp: demo_ports_def)
  from deliberation_exact [OF run demo_sane] run show ?thesis by auto
qed

text \<open>
  The winner of a deliberation under an output contract meets the contract: its content is a JSON
  object with every required field, allowed values where the contract closes a set, a document
  that satisfies the embedded schema, claims that cite evidence of the pack only, and a size and
  shape within the budget; and if the contract asks for support, the wired judge accepted every
  claim against the evidence the claim cites.
\<close>

theorem winner_meets_contract:
  assumes "DeliberateUseCase_execute (memory_council_ports out) task w = (Inr res, w')" and "agents_sane out w"
    and "tc_output_contract (task_constraints_of task) = Some contract"
  shows "\<exists>p. bt_get (del_proposals (do_deliberation res)) (do_winner_proposal_id res) = Some p \<and>
    meets_contract (o_json out) contract (prop_content p) \<and>
    claims_backed (o_json out) (support_judge_port out) contract (prop_content p)"
proof -
  note run = assms(1) [unfolded DeliberateUseCase_execute_def]
  obtain council w0 d ranked winner where
      del: "deliberated (memory_council_ports out) task (seated council (task_constraints_of task)) d"
    and ranked: "Deliberation_ranked_outcomes d = Inr ranked" "decided (task_constraints_of task) ranked"
      "pick_winner ranked (task_constraints_of task) = Inr winner"
    and res: "res = \<lparr>do_deliberation = d, do_winner_proposal_id = prop_id (ro_proposal winner)\<rparr>"
    by (rule memory_council.deliberate_ok [unfolded engine_council, OF run assms(2) refl])
  from ranked(2,3) assms(3) have winner: "winner \<in> set ranked" "ValidationOutcome_all_passed (ro_outcome winner)"
    by (cases ranked; auto simp: decided_def)+
  obtain pid where pid: "bt_get (del_proposals d) pid = Some (ro_proposal winner)"
    by (rule ranked_outcomes_get [OF ranked(1) winner(1)])
  have "prop_id (ro_proposal winner) = pid"
    using reachable_deliberation_wf [of d] del pid by (auto simp: deliberated_def deliberation_wf_def)
  moreover have "fully_reported (memory_council_ports out) (task_constraints_of task) d"
    using del by (simp add: deliberated_def)
  ultimately show ?thesis
    using passed_meets [OF _ assms(3) ranked(1) winner] pid by (simp add: res)
qed

text \<open>
  C19. A decision of a council under a contract: the candidates are the ranking of the stored
  deliberation and the winner heads them.  The decision counts as passed exactly when some
  candidate passed every validator; then the winner did, and ranks before every other one that
  did.  A decision that did not pass is only returned in the warning mode.
\<close>

theorem council_decision_exact:
  assumes "RunCouncilDecisionUseCase_execute (memory_engine_ports out) input w = (Inr dec, w')" and "agents_sane out w"
  shows "\<exists>d. bt_get (cw_deliberations w') (rdo_task_id dec) = Some d \<and>
    Deliberation_ranked_outcomes d = Inr (rdo_candidates dec) \<and> rdo_candidates dec \<noteq> [] \<and>
    rdo_winner dec = hd (rdo_candidates dec) \<and>
    (rdo_passed dec \<longleftrightarrow> (\<exists>r \<in> set (rdo_candidates dec). ValidationOutcome_all_passed (ro_outcome r))) \<and>
    (rdo_passed dec \<longrightarrow> ValidationOutcome_all_passed (ro_outcome (rdo_winner dec)) \<and>
       (\<forall>r \<in> set (tl (rdo_candidates dec)). ranks_before (rdo_winner dec) r \<or>
          \<not> ValidationOutcome_all_passed (ro_outcome r))) \<and>
    (rdo_passed dec \<or> rdi_validation_mode input = Warn)"
  by (rule memory_council.decision_ok [OF assms refl]) (intro exI conjI)

lemma demo_decides:
  "\<exists>dec w'. RunCouncilDecisionUseCase_execute (memory_engine_ports demo_outside) demo_decision (demo_council_world 2) = (Inr dec, w') \<and>
     rdi_validation_mode demo_decision = Strict \<and> rdo_passed dec"
proof -
  have lookups: "e_contract (memory_engine_ports demo_outside) k w = (ok_or (bt_get (cw_contracts w) k) (NotFound ''contract''), w)" for k w
    by (simp add: world_defs InMemoryContractRegistry_get_def)
  have task: "\<lparr>task_id = [50], task_specialty = lit ''review'', task_description = lit ''do'',
        task_constraints_of = TaskConstraints_with_output_contract TaskConstraints_default demo_contract,
        task_attributes = [], task_external_context = None, task_metadata_of = TaskMetadata_default\<rparr> = demo_task [50]"
    by (simp add: demo_task_of_def TaskConstraints_with_output_contract_def)
  obtain w' where del: "DeliberateUseCase_execute demo_ports (demo_task [50]) (demo_council_world 3) =
      (Inr \<lparr>do_deliberation = demo_done [] [50] 3, do_winner_proposal_id = [48 + 3]\<rparr>, w')"
    using demo_deliberates [of 3 "lit ''do''" "[]"] by auto
  have ranked: "Deliberation_ranked_outcomes (demo_done [] [50] 3) = Inr (demo_ranked [] 3)"
    by (simp add: Deliberation_ranked_outcomes_def require_phase_def demo_done_def demo_scored_def materialize_ranked_tuples_def
        demo_ranked_def Deliberation_start_def)
  have found: "\<exists>r. find (\<lambda>c. prop_id (ro_proposal c) = [51]) (demo_ranked [] 3) = Some r"
    by (simp add: demo_ranked_def number_ranked_def demo_scored_def)
  show ?thesis
    using del ranked found
    by (auto simp add: RunCouncilDecisionUseCase_execute_def demo_decision_def eff_bind_def eff_lift_def eff_get_def lookups
        demo_ports_def [symmetric] demo_calls TaskId_new_def small_number_ids task decide_task_def
        decision_passed_def Let_def)
qed

theorem council_decision_exact_witness:
  "\<exists>dec w'. RunCouncilDecisionUseCase_execute (memory_engine_ports demo_outside) demo_decision (demo_council_world 2) = (Inr dec, w') \<and>
     rdo_passed dec \<and> ValidationOutcome_all_passed (ro_outcome (rdo_winner dec))"
proof -
  obtain dec w' where run: "RunCouncilDecisionUseCase_execute (memory_engine_ports demo_outside) demo_decision (demo_council_world 2) = (Inr dec, w')"
    and mode: "rdi_validation_mode demo_decision = Strict" using demo_decides by blast
  from council_decision_exact [OF run demo_sane] mode run show ?thesis by auto
qed

text \<open>The contract a decision asks for, in the registry it starts from.\<close>

lemma decision_contract:
  assumes "resolve_specialty (memory_engine_ports out) selector w = (Inr sp, w1)"
    and "e_contract (memory_engine_ports out) k w1 = (Inr contract, w2)"
  shows "bt_get (cw_contracts w) k = Some contract"
proof -
  have "cw_contracts w1 = cw_contracts w"
    using assms(1) by (cases selector) (auto simp: eff_bind_Inr world_defs Let_def split: prod.splits)
  then show ?thesis using assms(2) by (auto simp: world_defs InMemoryContractRegistry_get_def result_simps)
qed

text \<open>
  C20. A decision that counts as passed: the contract it names is registered, and the content of its
  winner meets that contract, claims included.
\<close>

theorem passed_decision_meets_contract:
  assumes "RunCouncilDecisionUseCase_execute (memory_engine_ports out) input w = (Inr dec, w')" and "agents_sane out w"
    and "rdo_passed dec"
  shows "\<exists>contract. bt_get (cw_contracts w) (rdi_contract_id input) = Some contract \<and>
    meets_contract (o_json out) contract (prop_content (ro_proposal (rdo_winner dec))) \<and>
    claims_backed (o_json out) (support_judge_port out) contract (prop_content (ro_proposal (rdo_winner dec)))"
proof (rule memory_council.decision_ok [OF assms(1,2) refl])
  fix d
  assume ranked: "Deliberation_ranked_outcomes d = Inr (rdo_candidates dec)" "rdo_candidates dec \<noteq> []"
      "rdo_winner dec = hd (rdo_candidates dec)"
    and best: "rdo_passed dec \<longrightarrow> ValidationOutcome_all_passed (ro_outcome (rdo_winner dec)) \<and>
      (\<forall>r \<in> set (tl (rdo_candidates dec)). ranks_before (rdo_winner dec) r \<or> \<not> ValidationOutcome_all_passed (ro_outcome r))"
    and "\<exists>sp w1 contract w2 c. resolve_specialty (memory_engine_ports out) (rdi_council_selector input) w = (Inr sp, w1) \<and>
      e_contract (memory_engine_ports out) (rdi_contract_id input) w1 = (Inr contract, w2) \<and>
      tc_output_contract c = Some contract \<and>
      (rdo_passed dec \<longrightarrow> fully_reported (e_council (memory_engine_ports out)) c d)"
  then obtain sp w1 contract w2 c where
      r: "resolve_specialty (memory_engine_ports out) (rdi_council_selector input) w = (Inr sp, w1)"
        "e_contract (memory_engine_ports out) (rdi_contract_id input) w1 = (Inr contract, w2)"
    and c: "tc_output_contract c = Some contract" and full: "fully_reported (memory_council_ports out) c d"
    using assms(3) by auto
  have "rdo_winner dec \<in> set (rdo_candidates dec)" using ranked(2,3) by simp
  from passed_meets [OF full c ranked(1) this] best assms(3) decision_contract [OF r] show ?thesis by blast
qed

theorem passed_decision_meets_contract_witness:
  "\<exists>dec w'. RunCouncilDecisionUseCase_execute (memory_engine_ports demo_outside) demo_decision (demo_council_world 2) = (Inr dec, w') \<and>
     rdo_passed dec \<and> meets_contract demo_json demo_contract (prop_content (ro_proposal (rdo_winner dec)))"
proof -
  obtain dec w' where run: "RunCouncilDecisionUseCase_execute (memory_engine_ports demo_outside) demo_decision (demo_council_world 2) = (Inr dec, w')"
    and passed: "rdo_passed dec" using demo_decides by blast
  have c: "bt_get (cw_contracts (demo_council_world 2)) (rdi_contract_id demo_decision) = Some demo_contract"
    "o_json demo_outside = demo_json" by (simp_all add: demo_outside_def demo_decision_def)
  from passed_decision_meets_contract [OF run demo_sane passed] run passed c show ?thesis by auto
qed

text \<open>
  C26. What the bus sees of an orchestration, whatever fails: messages about this task only, the
  deliberation before the dispatch and the dispatch before the completion, at most one report of
  the end and nothing after it.  An orchestration that returns an output reported, last, exactly
  what the executor said.
\<close>

theorem orchestration_messages_ordered:
  assumes "OrchestrateUseCase_execute (memory_engine_ports out) task options w = (r, w')" and "agents_sane out w"
  shows "\<exists>ms. cw_messages w' = cw_messages w @ ms \<and> (\<forall>m \<in> set ms. message_task m = task_id task) \<and>
    orchestration_trace (map message_kind_of ms) \<and>
    (\<forall>res. r = Inr res \<longrightarrow> map message_kind_of ms =
       [KDeliberated, KDispatched, if eo_succeeded (oo_execution res) then KCompleted else KFailed])"
  by (rule memory_council.orchestrate_messages [OF assms refl])

section \<open>Every task is reported\<close>

text \<open>
  The outside works: the bus accepts every message, identifiers are usable, the source has a
  usable name, and the texts of the executor's errors fit into an event.
\<close>

definition outside_works :: "('a, 'x) outside \<Rightarrow> bool" where
  "outside_works out =
     ((\<forall>m x. is_ok (fst (o_publish out m x))) \<and>
      (\<forall>x. \<exists>u x'. o_uuid out x = (Inr u, x') \<and> is_ok (EventId_new u)) \<and>
      trim (o_source out) \<noteq> [] \<and> str_len (trim (o_source out)) \<le> 256 \<and>
      (\<forall>p opts x e x'. o_execute out p opts x = (Inl e, x') \<longrightarrow>
         str_len (DomainError_to_string (o_fmt out) (error_of e)) \<le> 4096))"

lemma envelope_works:
  assumes "outside_works out"
  shows "is_ok (fst (Orchestrate_envelope (memory_engine_ports out) m w))"
proof -
  obtain u x' eid where "o_uuid out (cw_outside w) = (Inr u, x')" "EventId_new u = Inr eid"
    using assms by (metis is_ok_iff outside_works_def)
  then show ?thesis
    using assms by (simp add: Orchestrate_envelope_def Deliberate_envelope_def new_event_id_def world_defs eff_bind_def
        eff_get_def eff_lift_def EventEnvelope_new_with_causation_def outside_works_def Let_def)
qed

lemma publish_works:
  assumes "outside_works out"
  shows "is_ok (fst (publish_message out msg w))"
proof -
  obtain u x' where "o_publish out msg (cw_outside w) = (Inr u, x')"
    using assms by (metis is_ok_iff outside_works_def prod.collapse)
  then show ?thesis by (simp add: publish_message_def calling_def on_part_def eff_bind_def eff_do_def)
qed

lemma eff_bind_ok: "is_ok (fst (m w)) \<Longrightarrow> (\<And>x w'. is_ok (fst (f x w'))) \<Longrightarrow> is_ok (fst (eff_bind m f w))"
  by (auto simp: eff_bind_def result_simps split: prod.split sum.split)

lemma announcements_work:
  assumes "outside_works out"
  shows "is_ok (fst (announce_dispatch (memory_engine_ports out) task w))"
    and "is_ok (fst (announce_completion (memory_engine_ports out) task winner execution w))"
    and "str_len reason \<le> 4096 \<Longrightarrow> trim kind \<noteq> [] \<Longrightarrow> is_ok (fst (announce_failure (memory_engine_ports out) task kind reason w))"
  unfolding announce_dispatch_def announce_completion_def announce_failure_def
  by (intro eff_bind_ok envelope_works assms; simp add: TaskFailedEvent_new_def eff_lift_def memory_council_ports_def
      publish_works [OF assms])+

lemma ranked_in_proposals:
  assumes "deliberation_wf d" and "Deliberation_ranked_outcomes d = Inr ranked" and "r \<in> set ranked"
  shows "bt_get (del_proposals d) (prop_id (ro_proposal r)) = Some (ro_proposal r)"
proof -
  from assms(2) obtain ts where ts: "materialize_ranked_tuples d (del_ranking d) = Inr ts" "ranked = number_ranked ts"
    by (auto simp: Deliberation_ranked_outcomes_def result_simps)
  from assms(3) ts(2) obtain i where i: "i < length ts" "ro_proposal r = fst (snd (ts ! i))"
    by (auto simp: in_set_conv_nth nth_number_ranked)
  have "bt_get (del_proposals d) (fst (ts ! i)) = Some (fst (snd (ts ! i)))"
    using materialize_facts(2) [OF ts(1)] nth_mem [OF i(1)] by (cases "ts ! i") auto
  with assms(1) i(2) show ?thesis by (auto simp: deliberation_wf_def)
qed

lemma announced_ok: "announced published tid k w x \<Longrightarrow> is_ok (fst x) \<Longrightarrow>
    \<exists>msg. published (snd x) = published w @ [msg] \<and> message_kind_of msg = k \<and> message_task msg = tid"
  by (auto simp: announced_def)

lemma execute_winner_reported:
  assumes works: "outside_works out" and run: "execute_winner (memory_engine_ports out) task winner opts w = (r, w')"
  shows "\<exists>m. cw_messages w' = cw_messages w @ [m] \<and> message_kind_of m \<in> {KCompleted, KFailed} \<and> message_task m = task_id task"
proof -
  let ?ports = "memory_engine_ports out"
  obtain s w1 where ex: "e_execute ?ports winner opts w = (s, w1)" by (cases "e_execute ?ports winner opts w")
  note quiet = keepsD [OF memory_council.execute_quiet ex]
  have kinds: "trim (lit ''executor.error'') \<noteq> []" "trim (lit ''executor.unsuccessful'') \<noteq> []"
      "str_len (lit ''executor reported unsuccessful outcome'') \<le> 4096"
    by (auto simp: trim_eq_Nil_iff lit_def is_whitespace_def str_len_ascii)
  have fails: "\<exists>m. cw_messages (snd (announce_failure ?ports task kind reason v)) = cw_messages v @ [m] \<and>
      message_kind_of m = KFailed \<and> message_task m = task_id task"
    if "str_len reason \<le> 4096" "trim kind \<noteq> []" for kind reason v
    using announcesD [OF memory_council.announce_failure_announces [OF refl] refl]
      announcements_work(3) [OF works that] by (blast dest: announced_ok)
  show ?thesis
  proof (cases s)
    case (Inl err)
    obtain t x' where call: "o_execute out winner opts (cw_outside w) = (t, x')"
      by (cases "o_execute out winner opts (cw_outside w)")
    with ex Inl obtain e where "t = Inl e" "err = error_of e" by (cases t) (auto simp: world_defs)
    with call have short: "str_len (DomainError_to_string (e_fmt ?ports) err) \<le> 4096"
      using works unfolding outside_works_def by (simp add: memory_engine_ports_def) blast
    have "w' = snd (announce_failure ?ports task (lit ''executor.error'') (DomainError_to_string (e_fmt ?ports) err) w1)"
      using run ex Inl by (auto simp: execute_winner_def eff_bind_def eff_lift_def split: prod.splits sum.splits)
    then show ?thesis using fails [OF short kinds(1), of w1] quiet by auto
  next
    case (Inr x)
    obtain u w2 where rec: "e_record_orchestration ?ports (eo_duration x) w1 = (Inr u, w2)"
      by (simp add: world_defs InMemoryStatistics_record_orchestration_def)
    note quiet2 = keepsD [OF memory_council.orchestration_quiet rec]
    have w': "w' = snd ((if eo_succeeded x then announce_completion ?ports task winner x
        else announce_failure ?ports task (lit ''executor.unsuccessful'') (lit ''executor reported unsuccessful outcome'')) w2)"
      using run ex Inr rec by (auto simp: execute_winner_def eff_bind_def eff_lift_def split: prod.splits sum.splits)
    show ?thesis
    proof (cases "eo_succeeded x")
      case True
      have "\<exists>m. cw_messages (snd (announce_completion ?ports task winner x w2)) = cw_messages w2 @ [m] \<and>
          message_kind_of m = KCompleted \<and> message_task m = task_id task"
        using announcesD [OF memory_council.announce_completion_announces [OF refl] refl]
          announcements_work(2) [OF works] by (blast dest: announced_ok)
      then show ?thesis using True w' quiet quiet2 by auto
    next
      case False
      then show ?thesis using fails [OF kinds(3,2), of w2] w' quiet quiet2 by auto
    qed
  qed
qed

lemma winner_found:
  assumes "DeliberateUseCase_execute (memory_council_ports out) task w = (Inr res, w1)" and "agents_sane out w"
  shows "\<exists>winner. bt_get (del_proposals (do_deliberation res)) (do_winner_proposal_id res) = Some winner"
proof (rule memory_council.deliberate_ok [unfolded engine_council, OF assms(1) [unfolded DeliberateUseCase_execute_def] assms(2) refl])
  fix council w0 d ranked wn
  assume d: "deliberated (memory_council_ports out) task (seated council (task_constraints_of task)) d"
    "Deliberation_ranked_outcomes d = Inr ranked" "decided (task_constraints_of task) ranked"
    "pick_winner ranked (task_constraints_of task) = Inr wn"
    "res = \<lparr>do_deliberation = d, do_winner_proposal_id = prop_id (ro_proposal wn)\<rparr>"
  have "wn \<in> set ranked" using d(3,4) by (auto simp: decided_def)
  from ranked_in_proposals [OF reachable_deliberation_wf d(2) this] d(1,5) show ?thesis
    by (simp add: deliberated_def)
qed

lemma dispatch_winner_reported:
  assumes works: "outside_works out" and run: "dispatch_winner (memory_engine_ports out) task options res w = (r, w')"
    and "\<exists>winner. bt_get (del_proposals (do_deliberation res)) (do_winner_proposal_id res) = Some winner"
  shows "\<exists>ms m. cw_messages w' = cw_messages w @ ms @ [m] \<and> message_task m = task_id task \<and>
    (if is_ok (merge_execution_options (tm_execution_profile (task_metadata_of task)) options)
     then message_kind_of m \<in> {KCompleted, KFailed} else message_kind_of m = KDispatched \<and> \<not> is_ok r)"
proof -
  let ?ports = "memory_engine_ports out" and ?merge = "merge_execution_options (tm_execution_profile (task_metadata_of task)) options"
  from assms(3) obtain winner where winner: "bt_get (del_proposals (do_deliberation res)) (do_winner_proposal_id res) = Some winner" ..
  obtain u w2 where dis: "announce_dispatch ?ports task w = (Inr u, w2)"
    using announcements_work(1) [OF works, of task w] by (cases "announce_dispatch ?ports task w") (auto simp: result_simps)
  from announced_ok [OF announcesD [OF memory_council.announce_dispatch_announces [OF refl] dis]]
  obtain m2 where m2: "cw_messages w2 = cw_messages w @ [m2]" "message_kind_of m2 = KDispatched" "message_task m2 = task_id task" by auto
  show ?thesis
  proof (cases ?merge)
    case (Inl e)
    then have "w' = w2" "r = Inl e" using run winner dis by (simp_all add: dispatch_winner_def eff_bind_def eff_lift_def)
    then show ?thesis using m2 Inl by auto
  next
    case (Inr merged)
    obtain t w3 where ex: "execute_winner ?ports task winner merged w2 = (t, w3)"
      by (cases "execute_winner ?ports task winner merged w2")
    have "w' = w3" using run winner dis Inr ex
      by (auto simp: dispatch_winner_def eff_bind_def eff_lift_def split: sum.splits)
    then show ?thesis using execute_winner_reported [OF works ex] m2 Inr by auto
  qed
qed

text \<open>
  C25. Every orchestration is reported to its end: when the outside works and the text of an
  error of the deliberation fits into an event, the last message is about this task and says
  that it completed or failed.  One case is left out of the code: when the options of the
  execution cannot be merged, the last message is the dispatch and the task never ends for a
  listener.
\<close>

theorem orchestration_reported:
  assumes works: "outside_works out" and sane: "agents_sane out w"
    and run: "OrchestrateUseCase_execute (memory_engine_ports out) task options w = (r, w')"
    and short: "\<And>e w1. DeliberateUseCase_execute (memory_council_ports out) task w = (Inl e, w1) \<Longrightarrow>
      str_len (DomainError_to_string (o_fmt out) e) \<le> 4096"
  shows "\<exists>ms m. cw_messages w' = cw_messages w @ ms @ [m] \<and> message_task m = task_id task \<and>
    (if is_ok (fst (DeliberateUseCase_execute (memory_council_ports out) task w)) \<and>
        \<not> is_ok (merge_execution_options (tm_execution_profile (task_metadata_of task)) options)
     then message_kind_of m = KDispatched \<and> \<not> is_ok r
     else message_kind_of m \<in> {KCompleted, KFailed})"
proof -
  let ?ports = "memory_engine_ports out" and ?merge = "merge_execution_options (tm_execution_profile (task_metadata_of task)) options"
  obtain s w1 where del: "DeliberateUseCase_execute (memory_council_ports out) task w = (s, w1)"
    by (cases "DeliberateUseCase_execute (memory_council_ports out) task w")
  note first = memory_council.deliberate_announces [unfolded engine_council, OF del sane refl]
  show ?thesis
  proof (cases s)
    case (Inl err)
    have "trim (deliberation_error_kind err) \<noteq> []"
      by (cases err) (auto simp: trim_eq_Nil_iff lit_def is_whitespace_def)
    then have "is_ok (fst (announce_failure ?ports task (deliberation_error_kind err) (DomainError_to_string (o_fmt out) err) w1))"
      using announcements_work(3) [OF works] short del Inl by blast
    from announced_ok [OF announcesD [OF memory_council.announce_failure_announces [OF refl] refl] this]
    obtain m where m: "cw_messages (snd (announce_failure ?ports task (deliberation_error_kind err) (DomainError_to_string (o_fmt out) err) w1)) =
        cw_messages w1 @ [m]" "message_kind_of m = KFailed" "message_task m = task_id task" by blast
    have "w' = snd (announce_failure ?ports task (deliberation_error_kind err) (DomainError_to_string (o_fmt out) err) w1)"
      using run del Inl by (auto simp: OrchestrateUseCase_execute_def memory_engine_ports_def [of out] eff_bind_def eff_lift_def
          split: prod.splits sum.splits)
    with m first del Inl show ?thesis by (auto simp: announced_def)
  next
    case (Inr res)
    obtain m1 where m1: "cw_messages w1 = cw_messages w @ [m1]" using first Inr by (auto simp: announced_def)
    have "dispatch_winner ?ports task options res w1 = (r, w')"
      using run del Inr by (simp add: OrchestrateUseCase_execute_def)
    from dispatch_winner_reported [OF works this winner_found [OF del [unfolded Inr] sane]] obtain ms m where
      "cw_messages w' = cw_messages w1 @ ms @ [m]" "message_task m = task_id task"
      "if is_ok ?merge then message_kind_of m \<in> {KCompleted, KFailed} else message_kind_of m = KDispatched \<and> \<not> is_ok r" by blast
    with m1 del Inr show ?thesis by (intro exI [of _ "m1 # ms"] exI [of _ m]) (auto split: if_splits)
  qed
qed

lemma demo_works: "outside_works demo_outside"
  unfolding outside_works_def
proof (intro conjI allI impI)
  fix x
  show "\<exists>u x'. o_uuid demo_outside x = (Inr u, x') \<and> is_ok (EventId_new u)"
    by (simp add: demo_outside_def EventId_new_def small_number_ids)
qed (simp_all add: demo_outside_def demo_text demo_source)

theorem orchestration_messages_ordered_witness:
  "\<exists>r w' ms. OrchestrateUseCase_execute (memory_engine_ports demo_outside) (demo_task (lit ''t'')) [] (demo_council_world 2) = (r, w') \<and>
     cw_messages w' = ms \<and> orchestration_trace (map message_kind_of ms)"
proof -
  obtain r w' where run: "OrchestrateUseCase_execute (memory_engine_ports demo_outside) (demo_task (lit ''t'')) [] (demo_council_world 2) = (r, w')"
    by (cases "OrchestrateUseCase_execute (memory_engine_ports demo_outside) (demo_task (lit ''t'')) [] (demo_council_world 2)")
  have "cw_messages (demo_council_world 2) = []" by (simp add: demo_council_world_def)
  with orchestration_messages_ordered [OF run demo_sane] run show ?thesis by auto
qed

theorem orchestration_reported_witness:
  "\<exists>r w' ms m. OrchestrateUseCase_execute (memory_engine_ports demo_outside) (demo_task (lit ''t'')) [] (demo_council_world 2) = (r, w') \<and>
     cw_messages w' = ms @ [m] \<and> message_kind_of m \<in> {KCompleted, KFailed}"
proof -
  obtain r w' where run: "OrchestrateUseCase_execute (memory_engine_ports demo_outside) (demo_task (lit ''t'')) [] (demo_council_world 2) = (r, w')"
    by (cases "OrchestrateUseCase_execute (memory_engine_ports demo_outside) (demo_task (lit ''t'')) [] (demo_council_world 2)")
  have ok: "is_ok (merge_execution_options (tm_execution_profile (task_metadata_of (demo_task (lit ''t'')))) [])"
    by (simp add: merge_execution_options_def TaskMetadata_default_def Attributes_new_def)
  obtain res w1 where del: "DeliberateUseCase_execute (memory_council_ports demo_outside) (demo_task (lit ''t'')) (demo_council_world 2) = (Inr res, w1)"
    using demo_deliberates [of 2 "lit ''do''" "[]" "lit ''t''"] by (auto simp: demo_ports_def)
  have "cw_messages (demo_council_world 2) = []" by (simp add: demo_council_world_def)
  moreover have "str_len (DomainError_to_string (o_fmt demo_outside) e) \<le> 4096"
    if "DeliberateUseCase_execute (memory_council_ports demo_outside) (demo_task (lit ''t'')) (demo_council_world 2) = (Inl e, v)" for e v
    using that del by simp
  ultimately show ?thesis using orchestration_reported [OF demo_works demo_sane run] ok run by auto
qed

end
