(* ===== verification/Deliberating_Steps.thy ===== *)
theory Deliberating_Steps
  imports Step_Config Ceremony_Driver Council_Runs
begin

text \<open>
  A ceremony step done by a council (\<open>choreo-adapters/src/ceremony\<close>, the files
  \<open>deliberating_ceremony_step_handler.rs\<close> and \<open>ceremony_participant_plan_adapter.rs\<close>): the request of
  the driver becomes a task with a rendered description, the council deliberates, and the winning
  proposal becomes the output of the step.  This is where ceremonies and councils meet: shown is
  that the output of a step with a declared contract meets that contract.
\<close>

section \<open>The description of the task\<close>

definition MAX_RENDERED_CONTRIBUTION_LEN :: nat where
  "MAX_RENDERED_CONTRIBUTION_LEN = 4000"

definition truncate_text :: "rstr \<Rightarrow> nat \<Rightarrow> rstr" where
  "truncate_text s limit = (if length s \<le> limit then s else take limit s @ [8230])"

abbreviation rendered :: "rstr \<Rightarrow> rstr" where
  "rendered s \<equiv> truncate_text s MAX_RENDERED_CONTRIBUTION_LEN"

abbreviation newline :: rstr where
  "newline \<equiv> [10]"

definition render_brief :: "json_library \<Rightarrow> attributes \<Rightarrow> rstr" where
  "render_brief lib attributes =
     concat (map (\<lambda>(key, value).
       if json_as_bool value \<noteq> None then []
       else lit ''- '' @ key @ lit '': '' @
         rendered (case json_as_str value of Some s \<Rightarrow> s | None \<Rightarrow> jl_to_string lib value) @ newline) attributes)"

fun CeremonyInterventionStatus_as_label :: "ceremony_intervention_status \<Rightarrow> string" where
  "CeremonyInterventionStatus_as_label Open = ''open''"
| "CeremonyInterventionStatus_as_label Closed = ''closed''"

definition render_intervention_details :: "json_library \<Rightarrow> string \<Rightarrow> attributes \<Rightarrow> rstr" where
  "render_intervention_details lib label details =
     (if details = [] then []
      else lit ''    '' @ lit label @ lit '': '' @ rendered (jl_to_string lib (JObject details)) @ newline)"

definition render_response :: "json_library \<Rightarrow> ceremony_intervention_response \<Rightarrow> rstr" where
  "render_response lib r =
     lit ''  - '' @ resp_role_id r @ lit '' responded: '' @ rendered (content_message (resp_content r)) @ newline @
     render_intervention_details lib ''response details'' (content_details (resp_content r))"

definition render_intervention :: "json_library \<Rightarrow> ceremony_intervention \<Rightarrow> rstr" where
  "render_intervention lib i =
     lit ''- ['' @ lit (CeremonyInterventionStatus_as_label (int_status i)) @ lit ''] '' @
     lit (CeremonyInterventionKind_as_label (int_kind i)) @ lit '' requested by '' @ int_requested_by i @ lit '' for '' @
     (case int_target i of Table \<Rightarrow> lit ''the whole table'' | Roles rids \<Rightarrow> join_text (lit '', '') rids) @
     lit '': '' @ rendered (content_message (int_request i)) @ newline @
     render_intervention_details lib ''request details'' (content_details (int_request i)) @
     concat (map (render_response lib) (int_responses i))"

definition intervention_concerns :: "rstr option \<Rightarrow> ceremony_intervention \<Rightarrow> bool" where
  "intervention_concerns role i =
     (case role of None \<Rightarrow> True
      | Some rid \<Rightarrow> int_requested_by i = rid \<or> CeremonyInterventionTarget_accepts (int_target i) rid)"

definition render_interventions :: "json_library \<Rightarrow> ceremony_step_handler_request \<Rightarrow> rstr" where
  "render_interventions lib req =
     (let shown = filter (intervention_concerns (hreq_role_id req)) (hreq_interventions req) in
      if shown = [] then []
      else newline @ lit ''Live participant requests:'' @ newline @ concat (map (render_intervention lib) shown))"

definition render_contribution :: "ceremony_step_contribution \<Rightarrow> rstr" where
  "render_contribution c =
     lit ''- '' @ contrib_role_id c @ lit '' ('' @ contrib_step_id c @ lit ''): '' @
     rendered (case Option.bind (bt_get (contrib_output c) (lit ''winner_content'')) json_as_str of
         None \<Rightarrow> lit ''(no content recorded)'' | Some s \<Rightarrow> s) @ newline"

definition build_description ::
    "json_library \<Rightarrow> ceremony_step_handler_request \<Rightarrow> deliberation_step_config \<Rightarrow> rstr outcome" where
  "build_description lib req config =
     (let stage = lit '' in the \"'' @ hreq_definition_name req @ lit ''\" ceremony (current stage: '' @
            hreq_current_state req @ lit '').'' @ newline;
          opening = (case hreq_role_id req of
              Some role \<Rightarrow> lit ''You are acting as '' @ role @ stage
            | None \<Rightarrow> lit ''You are a participant'' @ stage);
          brief = render_brief lib (hreq_context req) in
      TaskDescription_new
        (opening @
         (if brief = [] then [] else newline @ lit ''Mission brief:'' @ newline @ brief) @
         (if dsc_see_prior config \<and> hreq_transcript req \<noteq> []
          then newline @ lit ''The meeting so far:'' @ newline @ concat (map render_contribution (hreq_transcript req))
          else []) @
         render_interventions lib req @
         newline @ lit ''Your task now: '' @ dsc_task_description config))"

section \<open>The task\<close>

definition task_text :: "ceremony_step_handler_request \<Rightarrow> rstr" where
  "task_text req =
     lit ''ceremony-'' @ hreq_instance_id req @ lit ''-'' @ hreq_step_id req @ lit ''-'' @
     display_nat (unat (hreq_attempt req))"

definition task_id_from :: "ceremony_step_handler_request \<Rightarrow> rstr outcome" where
  "task_id_from req = TaskId_new (task_text req)"

definition step_task_attributes ::
    "ceremony_step_handler_request \<Rightarrow> deliberation_step_config \<Rightarrow> (rstr, json) btree_map" where
  "step_task_attributes req config =
     fold (\<lambda>(k, v). bt_insert (lit k) v)
       [(''ceremony.instance_id'', JString (hreq_instance_id req)),
        (''ceremony.definition_name'', JString (hreq_definition_name req)),
        (''ceremony.definition_version'', JString (hreq_definition_version req)),
        (''ceremony.current_state'', JString (hreq_current_state req)),
        (''ceremony.step_id'', JString (hreq_step_id req)),
        (''ceremony.handler_kind'', JString (hreq_handler_kind req)),
        (''ceremony.deliberation_specialty'', JString (dsc_specialty config)),
        (''ceremony.attempt'', JNumber (PosInt (ucast (hreq_attempt req))))] (hreq_context req)"

definition task_from ::
    "json_library \<Rightarrow> ceremony_step_handler_request \<Rightarrow> deliberation_step_config \<Rightarrow> task outcome" where
  "task_from lib req config =
     (let constraints = \<lparr>tc_rubric = [], tc_rounds = dsc_rounds config, tc_num_agents = dsc_num_agents config,
            tc_deadline = None, tc_output_contract = dsc_output_contract config\<rparr> in
      and_then (task_id_from req) (\<lambda>tid.
      and_then (build_description lib req config) (\<lambda>description.
      and_then (Attributes_new (step_task_attributes req config)) (\<lambda>attrs.
      Inr \<lparr>task_id = tid,
           task_specialty = (case hreq_bound_specialty req of None \<Rightarrow> dsc_specialty config | Some s \<Rightarrow> s),
           task_description = description, task_constraints_of = constraints, task_attributes = attrs,
           task_external_context = None, task_metadata_of = TaskMetadata_default\<rparr>))))"

section \<open>The handler\<close>

definition output_attributes ::
    "ceremony_step_handler_request \<Rightarrow> rstr \<Rightarrow> rstr \<Rightarrow> nat \<Rightarrow> (rstr, json) btree_map" where
  "output_attributes req winner_id content candidates =
     fold (\<lambda>(k, v). bt_insert (lit k) v)
       [(''task_id'', JString (task_text req)), (''winner_proposal_id'', JString winner_id),
        (''winner_content'', JString content),
        (''candidates_total'', JNumber (PosInt (of_nat candidates)))] []"

definition DeliberationStepConfig_from_request :: "ceremony_step_handler_request \<Rightarrow> deliberation_step_config outcome" where
  "DeliberationStepConfig_from_request req =
     DeliberationStepConfig_from \<lparr>cfg_attributes = hreq_handler_config req, cfg_handler_kind = hreq_handler_kind req\<rparr>
       (hreq_context req)"

definition DeliberatingCeremonyStepHandler_execute ::
    "json_library \<Rightarrow> ('w, 'a) council_ports \<Rightarrow> ceremony_step_handler_request \<Rightarrow> ('w, step_result) effect" where
  "DeliberatingCeremonyStepHandler_execute lib ports req =
     eff_bind (eff_lift (DeliberationStepConfig_from_request req)) (\<lambda>config.
     eff_bind (eff_lift (task_from lib req config)) (\<lambda>task.
     eff_bind (DeliberateUseCase_execute ports task) (\<lambda>out.
     eff_bind (eff_lift (Deliberation_ranked_outcomes (do_deliberation out))) (\<lambda>ranked.
     eff_bind (eff_lift (ok_or (find (\<lambda>c. prop_id (ro_proposal c) = do_winner_proposal_id out) ranked)
       (InvariantViolated ''ceremony step winner proposal is missing from ranked outcomes''))) (\<lambda>winner.
     eff_lift (and_then (Attributes_new (output_attributes req (do_winner_proposal_id out)
       (prop_content (ro_proposal winner)) (length ranked))) StepResult_completed))))))"

section \<open>Who sits at the table\<close>

definition participant_attributes ::
    "ceremony_definition \<Rightarrow> ceremony_step \<Rightarrow> nat \<Rightarrow> rstr option \<Rightarrow> (rstr, json) btree_map" where
  "participant_attributes d step index label =
     fold (\<lambda>(k, v). bt_insert (lit k) v)
       ([(''ceremony.definition_name'', JString (def_name d)),
         (''ceremony.definition_version'', JString (def_version d)),
         (''ceremony.step_id'', JString (step_id step)),
         (''ceremony.handler_kind'', JString (step_handler_kind step)),
         (''ceremony.participant.index'', json_usize index)] @
        (case label of None \<Rightarrow> [] | Some l \<Rightarrow> [(''ceremony.participant.label'', JString l)]))
       (step_handler_config step)"

abbreviation step_config_of :: "ceremony_step \<Rightarrow> step_config" where
  "step_config_of step \<equiv> \<lparr>cfg_attributes = step_handler_config step, cfg_handler_kind = step_handler_kind step\<rparr>"

definition participant_count :: "step_config \<Rightarrow> rstr list \<Rightarrow> nat outcome" where
  "participant_count config labels =
     (if labels = [] then map_ok (\<lambda>n. case n of None \<Rightarrow> 1 | Some k \<Rightarrow> unat k) (config_num_agents config)
      else Inr (length labels))"

definition participant_at ::
    "ceremony_definition \<Rightarrow> ceremony_step \<Rightarrow> rstr \<Rightarrow> rstr \<Rightarrow> rstr list \<Rightarrow> nat \<Rightarrow> agent_descriptor outcome" where
  "participant_at d step specialty kind labels index =
     and_then (AgentId_new (lit ''agent-'' @ specialty @ lit ''-'' @ display_nat index)) (\<lambda>aid.
     and_then (Attributes_new (participant_attributes d step index
       (if index < length labels then Some (labels ! index) else None))) (\<lambda>attrs.
     Inr \<lparr>ad_id = aid, ad_specialty = specialty, ad_kind = kind, ad_attributes = attrs\<rparr>))"

definition participants_from_step :: "ceremony_definition \<Rightarrow> ceremony_step \<Rightarrow> agent_descriptor list outcome" where
  "participants_from_step d step =
     and_then (config_specialty (step_config_of step)) (\<lambda>specialty.
     and_then (config_agent_kind (step_config_of step)) (\<lambda>kind.
     and_then (config_participant_labels (step_config_of step)) (\<lambda>labels.
     and_then (participant_count (step_config_of step) labels) (\<lambda>count.
     try_map (participant_at d step specialty kind labels) [0..<count]))))"

text \<open>\<open>entry(id).or_insert(participant)\<close>: the first participant with an id stays.\<close>

definition entry_or_insert :: "agent_descriptor \<Rightarrow> (rstr, agent_descriptor) btree_map \<Rightarrow> (rstr, agent_descriptor) btree_map" where
  "entry_or_insert p m = (if bt_contains_key m (ad_id p) then m else bt_insert (ad_id p) p m)"

fun collect_participants ::
    "ceremony_definition \<Rightarrow> ceremony_step list \<Rightarrow> (rstr, agent_descriptor) btree_map
      \<Rightarrow> (rstr, agent_descriptor) btree_map outcome" where
  "collect_participants d [] m = Inr m"
| "collect_participants d (step # steps) m =
     and_then (participants_from_step d step) (\<lambda>ps. collect_participants d steps (fold entry_or_insert ps m))"

definition CeremonyParticipantPlanAdapter_from_definition :: "ceremony_definition \<Rightarrow> agent_descriptor list outcome" where
  "CeremonyParticipantPlanAdapter_from_definition d = map_ok bt_values (collect_participants d (bt_values (def_steps d)) [])"

section \<open>What a step returns\<close>

lemma output_attributes_get:
  "bt_get (output_attributes req i content n) (lit ''winner_content'') = Some (JString content)"
  "bt_get (output_attributes req i content n) (lit ''winner_proposal_id'') = Some (JString i)"
  "bt_get (output_attributes req i content n) (lit ''task_id'') = Some (JString (task_text req))"
  by (simp_all add: output_attributes_def lit_def)

lemma completed_result: "StepResult_completed out = Inr r \<longleftrightarrow> r = \<lparr>result_status = Completed, result_output = out, result_error_message = None\<rparr>"
  by (auto simp: StepResult_completed_def StepResult_new_def)

lemma task_from_Inr:
  assumes "task_from lib req config = Inr task"
  shows "task_id_from req = Inr (task_id task)" and "tc_output_contract (task_constraints_of task) = dsc_output_contract config"
    and "tc_rounds (task_constraints_of task) = dsc_rounds config"
    and "tc_num_agents (task_constraints_of task) = dsc_num_agents config"
    and "task_specialty task = (case hreq_bound_specialty req of None \<Rightarrow> dsc_specialty config | Some s \<Rightarrow> s)"
  using assms by (auto simp: task_from_def Let_def result_simps)

lemma handler_parts:
  assumes "DeliberatingCeremonyStepHandler_execute lib ports req w = (Inr r, w')"
  obtains config task out ranked winner where "DeliberationStepConfig_from_request req = Inr config"
    and "task_from lib req config = Inr task" and "DeliberateUseCase_execute ports task w = (Inr out, w')"
    and "Deliberation_ranked_outcomes (do_deliberation out) = Inr ranked" and "winner \<in> set ranked"
    and "prop_id (ro_proposal winner) = do_winner_proposal_id out" and "result_status r = Completed"
    and "result_output r = output_attributes req (do_winner_proposal_id out) (prop_content (ro_proposal winner)) (length ranked)"
  using assms
  by (auto simp: DeliberatingCeremonyStepHandler_execute_def eff_bind_Inr eff_lift_def result_simps completed_result
      Attributes_new_eq_Inr dest!: find_Some_set)

section \<open>Properties\<close>

text \<open>
  C21. A ceremony step that a council completed: its configuration was read in full, the
  deliberation is stored under the id derived from session, step and attempt, the content in the
  output is that of the proposal named there, and it meets the output contract the step declares,
  the grounding in the evidence of the session included.
\<close>

theorem step_output_meets_contract:
  assumes "DeliberatingCeremonyStepHandler_execute (o_json out) (memory_council_ports out) req w = (Inr r, w')"
    and "agents_sane out w"
  shows "\<exists>config tid d pid p. DeliberationStepConfig_from_request req = Inr config \<and> result_status r = Completed \<and>
    task_id_from req = Inr tid \<and> bt_get (cw_deliberations w') tid = Some d \<and> bt_get (del_proposals d) pid = Some p \<and>
    bt_get (result_output r) (lit ''winner_proposal_id'') = Some (JString pid) \<and>
    bt_get (result_output r) (lit ''winner_content'') = Some (JString (prop_content p)) \<and>
    (\<forall>contract. dsc_output_contract config = Some contract \<longrightarrow> meets_contract (o_json out) contract (prop_content p) \<and>
      claims_backed (o_json out) (support_judge_port out) contract (prop_content p))"
proof -
  obtain config task res ranked winner where config: "DeliberationStepConfig_from_request req = Inr config"
    and task: "task_from (o_json out) req config = Inr task"
    and run: "DeliberateUseCase_execute (memory_council_ports out) task w = (Inr res, w')"
    and ranked: "Deliberation_ranked_outcomes (do_deliberation res) = Inr ranked" "winner \<in> set ranked"
    and id: "prop_id (ro_proposal winner) = do_winner_proposal_id res" and r: "result_status r = Completed"
      "result_output r = output_attributes req (do_winner_proposal_id res) (prop_content (ro_proposal winner)) (length ranked)"
    by (rule handler_parts [OF assms(1)])
  note t = task_from_Inr [OF task]
  obtain council w0 d rs best where "c_council (memory_council_ports out) (task_specialty task) w = (Inr council, w0)"
    and del: "deliberated (memory_council_ports out) task (seated council (task_constraints_of task)) d"
    and "del_phase d = Completed_phase" and stored: "bt_get (cw_deliberations w') (task_id task) = Some d"
    and "Deliberation_ranked_outcomes d = Inr rs" and "decided (task_constraints_of task) rs"
    and "pick_winner rs (task_constraints_of task) = Inr best"
    and res: "res = \<lparr>do_deliberation = d, do_winner_proposal_id = prop_id (ro_proposal best)\<rparr>"
    by (rule memory_council.deliberate_ok [unfolded engine_council, OF run [unfolded DeliberateUseCase_execute_def] assms(2) refl])
  obtain pid where pid: "bt_get (del_proposals d) pid = Some (ro_proposal winner)"
    using ranked_outcomes_get [OF ranked] by (auto simp: res)
  have "prop_id (ro_proposal winner) = pid"
    using reachable_deliberation_wf [of d] del pid by (auto simp: deliberated_def deliberation_wf_def)
  then have win: "bt_get (del_proposals d) (do_winner_proposal_id res) = Some (ro_proposal winner)" using pid id by simp
  have "meets_contract (o_json out) contract (prop_content (ro_proposal winner)) \<and>
      claims_backed (o_json out) (support_judge_port out) contract (prop_content (ro_proposal winner))"
    if "dsc_output_contract config = Some contract" for contract
    using winner_meets_contract [OF run assms(2)] that t(2) win by (auto simp: res)
  with config r t(1) stored win show ?thesis by (intro exI conjI) (auto simp: output_attributes_get)
qed

text \<open>The first attempt at step \<open>s\<close> of session \<open>c\<close>, under a contract named \<open>plan\<close>.\<close>

definition demo_request :: ceremony_step_handler_request where
  "demo_request = \<lparr>hreq_instance_id = lit ''c'', hreq_definition_name = lit ''demo'', hreq_definition_version = lit ''1'',
     hreq_current_state = lit ''open'', hreq_step_id = lit ''s'', hreq_handler_kind = lit ''review'',
     hreq_handler_config = [(lit ''output_contract'', JObject [(lit ''contract_id'', JString (lit ''plan''))]),
       (lit ''prompt'', JString (lit ''do''))],
     hreq_context = [], hreq_attempt = 1, hreq_transcript = [], hreq_interventions = [], hreq_role_id = None,
     hreq_bound_specialty = None\<rparr>"

lemma demo_plain_texts:
  "trim (lit ''plan'') = lit ''plan''" "trim (lit ''do'') = lit ''do''" "trim (lit ''review'') = lit ''review''"
  "trim (lit ''ceremony-c-s-1'') = lit ''ceremony-c-s-1''"
  by (rule trim_id; simp add: lit_def is_whitespace_def)+

lemma str_len_lit: "\<forall>c \<in> set s. of_char c < (128 :: nat) \<Longrightarrow> str_len (lit s) = length s"
  by (subst str_len_ascii) (simp_all add: lit_def)

definition demo_step_config :: deliberation_step_config where
  "demo_step_config = \<lparr>dsc_specialty = lit ''review'', dsc_task_description = lit ''do'', dsc_rounds = 1, dsc_num_agents = None,
     dsc_see_prior = True, dsc_output_contract = Some demo_contract\<rparr>"

lemma demo_config: "DeliberationStepConfig_from_request demo_request = Inr demo_step_config"
proof -
  define cfg where "cfg = \<lparr>cfg_attributes = hreq_handler_config demo_request, cfg_handler_kind = lit ''review''\<rparr>"
  have get: "config_get cfg ''prompt'' = Some (JString (lit ''do''))"
    "config_get cfg ''output_contract'' = Some (JObject [(lit ''contract_id'', JString (lit ''plan''))])"
    "config_get cfg ''specialty'' = None" "config_get cfg ''rounds'' = None" "config_get cfg ''num_agents'' = None"
    "config_get cfg ''see_prior'' = None"
    by (simp_all add: config_get_def cfg_def demo_request_def lit_def)
  have kind: "cfg_handler_kind cfg = lit ''review''" by (simp add: cfg_def)
  have nil: "trim [] = []" by (rule trim_id) simp
  have len: "str_len (lit ''plan'') = 4" "str_len (lit ''do'') = 2" "str_len (lit ''review'') = 6"
    by (simp_all add: str_len_lit)
  have block: "contract_of_block [(lit ''contract_id'', JString (lit ''plan''))] = Inr demo_contract"
    by (simp add: contract_of_block_def Let_def required_string_def demo_plain_texts contract_format_def optional_string_def
        string_array_def contract_allowed_def ensure_string_or_null_def OutputContract_new_with_schema_def contract_text_def len
        normalize_optional_schema_def nil demo_contract_def) (simp add: lit_def)
  have "config_output_contract cfg = Inr (Some demo_contract)"
    by (simp add: config_output_contract_def get json_is_null_def known_keys_def block)
  moreover have "config_evidence_grounding_spec cfg = Inr None"
    by (simp add: config_evidence_grounding_spec_def get)
  moreover have "config_prompt cfg = Inr (lit ''do'')"
    by (simp add: config_prompt_def get required_string_def demo_plain_texts TaskDescription_new_def len) (simp add: lit_def)
  moreover have "config_specialty cfg = Inr (lit ''review'')"
    by (simp add: config_specialty_def get optional_string_def Specialty_new_def checked_text_eq_Inr canonical_text_def
        demo_plain_texts kind len) (simp add: lit_def is_control_def)
  ultimately have "DeliberationStepConfig_from cfg [] = Inr demo_step_config"
    by (simp add: DeliberationStepConfig_from_def config_rounds_def config_num_agents_def config_see_prior_steps_def get
        optional_u32_def optional_bool_def demo_step_config_def Rounds_default_def)
  then show ?thesis by (simp add: DeliberationStepConfig_from_request_def cfg_def demo_request_def)
qed

lemma demo_step_task: "\<exists>txt attrs. task_from lib demo_request demo_step_config = Inr (demo_task_of txt attrs (lit ''ceremony-c-s-1''))"
proof -
  have "display_nat 1 = lit ''1''" by (subst display_nat.simps) (simp add: lit_def)
  then have task_txt: "task_text demo_request = lit ''ceremony-c-s-1''" by (simp add: task_text_def demo_request_def lit_def)
  have "task_id_from demo_request = Inr (lit ''ceremony-c-s-1'')"
    by (simp add: task_id_from_def task_txt TaskId_new_def validate_id_def checked_text_def demo_plain_texts Let_def str_len_lit)
      (simp add: lit_def is_control_def)
  moreover have "\<exists>txt. build_description lib demo_request demo_step_config = Inr txt"
    by (simp add: build_description_def Let_def demo_request_def render_brief_def render_interventions_def TaskDescription_new_def
        demo_step_config_def trim_eq_Nil_iff str_len_lit) (simp add: lit_def is_whitespace_def str_len_def utf8_width_def)
  moreover have "\<exists>attrs. Attributes_new (step_task_attributes demo_request demo_step_config) = Inr attrs"
    by (simp add: step_task_attributes_def demo_request_def Attributes_new_eq_Inr MAX_ATTRIBUTES_KEYS_def lit_def)
      (simp add: trim_eq_Nil_iff is_whitespace_def)
  ultimately show ?thesis
    by (auto simp: task_from_def Let_def demo_task_of_def demo_step_config_def demo_request_def TaskConstraints_default_def
        Rounds_default_def)
qed

theorem step_output_meets_contract_witness:
  "\<exists>r w' content. DeliberatingCeremonyStepHandler_execute demo_json (memory_council_ports demo_outside) demo_request (demo_council_world 2) = (Inr r, w') \<and>
     bt_get (result_output r) (lit ''winner_content'') = Some (JString content) \<and>
     meets_contract demo_json demo_contract content"
proof -
  obtain descr attrs where task: "task_from demo_json demo_request demo_step_config = Inr (demo_task_of descr attrs (lit ''ceremony-c-s-1''))"
    using demo_step_task by blast
  obtain w' where run: "DeliberateUseCase_execute (memory_council_ports demo_outside) (demo_task_of descr attrs (lit ''ceremony-c-s-1'')) (demo_council_world 2) =
      (Inr \<lparr>do_deliberation = demo_done attrs (lit ''ceremony-c-s-1'') 2, do_winner_proposal_id = [48 + 2]\<rparr>, w')"
    using demo_deliberates [of 2 descr attrs "lit ''ceremony-c-s-1''"] by (auto simp: demo_ports_def)
  have ranked: "Deliberation_ranked_outcomes (demo_done attrs (lit ''ceremony-c-s-1'') 2) = Inr (demo_ranked attrs 2)"
    by (simp add: Deliberation_ranked_outcomes_def require_phase_def demo_done_def demo_scored_def materialize_ranked_tuples_def
        demo_ranked_def Deliberation_start_def)
  obtain winner where winner: "find (\<lambda>c. prop_id (ro_proposal c) = [50]) (demo_ranked attrs 2) = Some winner"
    by (simp add: demo_ranked_def number_ranked_def demo_scored_def)
  have json: "o_json demo_outside = demo_json" by (simp add: demo_outside_def)
  have "\<exists>attrs2. Attributes_new (output_attributes demo_request i content n) = Inr attrs2" for i content n
    by (simp add: output_attributes_def Attributes_new_eq_Inr MAX_ATTRIBUTES_KEYS_def lit_def)
      (simp add: trim_eq_Nil_iff is_whitespace_def)
  then obtain attrs2 where out: "Attributes_new (output_attributes demo_request [50] (prop_content (ro_proposal winner))
      (length (demo_ranked attrs 2))) = Inr attrs2" by blast
  obtain r where step: "DeliberatingCeremonyStepHandler_execute demo_json (memory_council_ports demo_outside) demo_request (demo_council_world 2) = (Inr r, w')"
    by (simp add: DeliberatingCeremonyStepHandler_execute_def demo_config eff_bind_def eff_lift_def task run ranked winner out
        ok_or_def StepResult_completed_def StepResult_new_def)
  show ?thesis
    using step_output_meets_contract [OF step [folded json] demo_sane] step
    by (auto simp: demo_config demo_step_config_def json)
qed

end
