(* ===== verification/Ceremony_Seats.thy ===== *)
theory Ceremony_Seats
  imports Deliberating_Steps
begin

text \<open>
  Seats for every step: the plan of participants that a definition implies
  (\<open>ceremony_participant_plan_adapter.rs\<close>), carried out on the registries
  (\<open>prepare_ceremony_participants_use_case.rs\<close>), leaves no step without a council to deliberate.
\<close>

section \<open>Names of seats\<close>

definition seat_id :: "rstr \<Rightarrow> nat \<Rightarrow> rstr" where
  "seat_id sp i = lit ''agent-'' @ sp @ lit ''-'' @ display_nat i"

text \<open>The name of a seat tells its specialty, also when the specialty contains hyphens.\<close>

lemma seat_id_inject: "seat_id sp i = seat_id sp' j \<longleftrightarrow> sp = sp' \<and> i = j"
proof
  assume "seat_id sp i = seat_id sp' j"
  then have "rev (sp @ 45 # display_nat i) = rev (sp' @ 45 # display_nat j)" by (simp add: seat_id_def lit_def)
  then have "rev (display_nat i) @ 45 # rev sp = rev (display_nat j) @ 45 # rev sp'" by simp
  moreover have "45 \<notin> set (display_nat n)" for n using display_nat_digits [of n] by (auto simp: is_ascii_digit_def)
  ultimately have "rev (display_nat i) = rev (display_nat j) \<and> rev sp = rev sp'" by (intro split_at_mark) auto
  then show "sp = sp' \<and> i = j" by simp
qed simp

lemma seat_id_trim [simp]: "trim (seat_id sp i) = seat_id sp i"
proof (rule trim_id)
  have "last (display_nat i) \<in> set (display_nat i)" by simp
  then have "is_ascii_digit (last (display_nat i))" using display_nat_digits by blast
  then show "seat_id sp i = [] \<or> \<not> is_whitespace (hd (seat_id sp i)) \<and> \<not> is_whitespace (last (seat_id sp i))"
    by (auto simp: seat_id_def lit_def is_whitespace_def is_ascii_digit_def)
qed

lemma seat_AgentId: "AgentId_new (seat_id sp i) = Inr aid \<Longrightarrow> aid = seat_id sp i"
  by (simp add: AgentId_new_def validate_id_def checked_text_eq_Inr)

section \<open>The plan\<close>

text \<open>A step asks for \<open>n\<close> seats of specialty \<open>sp\<close>.\<close>

definition step_seats :: "ceremony_step \<Rightarrow> rstr \<Rightarrow> nat \<Rightarrow> bool" where
  "step_seats step sp n =
     (\<exists>labels. config_specialty (step_config_of step) = Inr sp \<and>
       config_participant_labels (step_config_of step) = Inr labels \<and>
       participant_count (step_config_of step) labels = Inr n)"

text \<open>A participant sits under the name of a seat of its specialty.\<close>

definition seated_as :: "agent_descriptor \<Rightarrow> bool" where
  "seated_as p = (\<exists>i. ad_id p = seat_id (ad_specialty p) i)"

lemma participant_count_pos: "participant_count cfg labels = Inr n \<Longrightarrow> 0 < n"
  by (auto simp: participant_count_def config_num_agents_def NumAgents_new_def result_simps unat_gt_0
      split: if_splits option.splits)

lemma participants_from_step_seats:
  assumes "participants_from_step d step = Inr ps"
  obtains sp n where "step_seats step sp n" and "0 < n" and "map ad_id ps = map (seat_id sp) [0..<n]"
    and "\<forall>p \<in> set ps. ad_specialty p = sp"
proof -
  obtain sp kind labels n where parts: "config_specialty (step_config_of step) = Inr sp"
      "config_participant_labels (step_config_of step) = Inr labels"
      "participant_count (step_config_of step) labels = Inr n"
    and made: "try_map (participant_at d step sp kind labels) [0..<n] = Inr ps"
    using assms by (auto simp: participants_from_step_def Let_def result_simps)
  have one: "participant_at d step sp kind labels i = Inr p \<Longrightarrow> ad_id p = seat_id sp i \<and> ad_specialty p = sp" for i p
    by (auto simp: participant_at_def seat_id_def [symmetric] result_simps dest: seat_AgentId)
  from made have len: "length ps = n" and nth: "\<forall>i < n. participant_at d step sp kind labels i = Inr (ps ! i)"
    by (auto simp: try_map_eq_Inr list_all2_conv_all_nth)
  show thesis
  proof (rule that)
    show "step_seats step sp n" using parts by (auto simp: step_seats_def)
    show "0 < n" using parts(3) by (rule participant_count_pos)
    show "map ad_id ps = map (seat_id sp) [0..<n]" using len nth one by (intro nth_equalityI) auto
    show "\<forall>p \<in> set ps. ad_specialty p = sp" using len nth one by (metis in_set_conv_nth)
  qed
qed

text \<open>Plans under way: every participant under its own name.\<close>

definition plan_wf :: "(rstr, agent_descriptor) btree_map \<Rightarrow> bool" where
  "plan_wf m = (bt_wf m \<and> (\<forall>k p. bt_get m k = Some p \<longrightarrow> ad_id p = k \<and> seated_as p))"

lemma entry_or_insert_get:
  "bt_get (entry_or_insert p m) k = (if k = ad_id p \<and> bt_get m k = None then Some p else bt_get m k)"
  by (auto simp: entry_or_insert_def bt_contains_key_def split: option.splits)

lemma entry_or_insert_wf: "plan_wf m \<Longrightarrow> seated_as p \<Longrightarrow> plan_wf (entry_or_insert p m)"
  by (auto simp: plan_wf_def entry_or_insert_get split: if_splits) (simp add: entry_or_insert_def)

lemma entries_inserted:
  assumes "plan_wf m" and "\<forall>p \<in> set ps. seated_as p"
  shows "plan_wf (fold entry_or_insert ps m)"
    and "dom (bt_get (fold entry_or_insert ps m)) = dom (bt_get m) \<union> ad_id ` set ps"
  using assms
  by (induction ps arbitrary: m) (auto simp: entry_or_insert_wf entry_or_insert_get dom_def split: if_splits)

lemma collect_participants_seats:
  assumes "collect_participants d steps m = Inr m'" and "plan_wf m"
  shows "plan_wf m' \<and> dom (bt_get m) \<subseteq> dom (bt_get m') \<and>
    (\<forall>step \<in> set steps. \<exists>sp n. step_seats step sp n \<and> 0 < n \<and> (\<forall>i < n. seat_id sp i \<in> dom (bt_get m')))"
  using assms
proof (induction steps arbitrary: m)
  case (Cons step steps)
  then obtain ps where ps: "participants_from_step d step = Inr ps"
    and rest: "collect_participants d steps (fold entry_or_insert ps m) = Inr m'"
    by (auto simp: result_simps)
  obtain sp n where seats: "step_seats step sp n" "0 < n" "map ad_id ps = map (seat_id sp) [0..<n]"
    "\<forall>p \<in> set ps. ad_specialty p = sp"
    by (rule participants_from_step_seats [OF ps])
  then have ids: "ad_id ` set ps = seat_id sp ` {..<n}" by (metis atLeast_upt set_map)
  with seats(4) have "\<forall>p \<in> set ps. seated_as p" by (auto simp: seated_as_def)
  note in_plan = entries_inserted [OF Cons.prems(2) this]
  note c = Cons.IH [OF rest in_plan(1)]
  have "\<forall>i < n. seat_id sp i \<in> dom (bt_get m')"
  proof (intro allI impI)
    fix i assume "i < n"
    then have "seat_id sp i \<in> dom (bt_get (fold entry_or_insert ps m))" unfolding in_plan(2) ids by simp
    then show "seat_id sp i \<in> dom (bt_get m')" using c by (meson subsetD)
  qed
  with seats(1,2) have "\<exists>sp n. step_seats step sp n \<and> 0 < n \<and> (\<forall>i < n. seat_id sp i \<in> dom (bt_get m'))" by blast
  with c show ?case unfolding in_plan(2) by simp
qed simp

text \<open>The plan of a definition: distinct names, and all seats of all steps.\<close>

lemma plan_complete:
  assumes "CeremonyParticipantPlanAdapter_from_definition d = Inr ps"
  shows "distinct (map ad_id ps)"
    and "\<And>step. step \<in> set (bt_values (def_steps d)) \<Longrightarrow> \<exists>sp n. step_seats step sp n \<and> 0 < n \<and>
      (\<forall>i < n. \<exists>p \<in> set ps. ad_id p = seat_id sp i \<and> ad_specialty p = sp)"
proof -
  obtain m where m: "collect_participants d (bt_values (def_steps d)) [] = Inr m" and ps: "ps = bt_values m"
    using assms by (auto simp: CeremonyParticipantPlanAdapter_from_definition_def result_simps)
  have "plan_wf []" by (simp add: plan_wf_def)
  note c = collect_participants_seats [OF m this]
  then have wf: "bt_wf m" and own: "\<And>k p. (k, p) \<in> set m \<Longrightarrow> ad_id p = k \<and> seated_as p"
    by (auto simp: plan_wf_def bt_get_iff)
  then have "map ad_id ps = bt_keys m" by (auto simp: ps )
  with wf show "distinct (map ad_id ps)" by (simp add: bt_wf_distinct)
  fix step assume "step \<in> set (bt_values (def_steps d))"
  with c obtain sp n where "step_seats step sp n" "0 < n" and names: "\<forall>i < n. seat_id sp i \<in> dom (bt_get m)" by blast
  moreover have "\<exists>p \<in> set ps. ad_id p = seat_id sp i \<and> ad_specialty p = sp" if "i < n" for i
  proof -
    from names that obtain p where p: "(seat_id sp i, p) \<in> set m" by (auto simp: bt_get_iff [OF wf])
    with own [OF this] have "ad_id p = seat_id sp i" "ad_specialty p = sp" by (auto simp: seated_as_def seat_id_inject)
    with p show ?thesis by (force simp: ps)
  qed
  ultimately show "\<exists>sp n. step_seats step sp n \<and> 0 < n \<and>
      (\<forall>i < n. \<exists>p \<in> set ps. ad_id p = seat_id sp i \<and> ad_specialty p = sp)" by blast
qed

section \<open>Carrying it out\<close>

text \<open>The members gathered for a specialty.\<close>

definition gathered :: "(rstr, rstr btree_set) btree_map \<Rightarrow> rstr \<Rightarrow> rstr set" where
  "gathered cs sp = (case bt_get cs sp of None \<Rightarrow> {} | Some ids \<Rightarrow> set ids)"

text \<open>The factory builds agents that answer to the id they were described with.\<close>

definition factory_keeps_ids :: "('a, 'x) outside \<Rightarrow> bool" where
  "factory_keeps_ids out = (\<forall>p x a x'. o_create_agent out p x = (Inr a, x') \<longrightarrow> o_agent_id out a = ad_id p)"

lemma map_sum_Inr_iff: "map_sum f id r = Inr x \<longleftrightarrow> r = Inr x"
  by (cases r) simp_all

lemma agent_prepared:
  assumes "e_create_agent (memory_engine_ports out) p w = (Inr a, w1)"
    and "tolerate_existing (e_register_agent (memory_engine_ports out) a) w1 = (Inr u, w2)" and "factory_keeps_ids out"
  shows "cw_councils w2 = cw_councils w" and "dom (bt_get (cw_agents w2)) = insert (ad_id p) (dom (bt_get (cw_agents w)))"
proof -
  from assms(1,3) have "o_agent_id out a = ad_id p"
    by (auto simp: memory_engine_ports_def calling_def on_part_def factory_keeps_ids_def map_sum_Inr_iff split: prod.splits)
  with assms(1,2) show "cw_councils w2 = cw_councils w" "dom (bt_get (cw_agents w2)) = insert (ad_id p) (dom (bt_get (cw_agents w)))"
  by (auto simp: world_defs tolerate_existing_def InMemoryAgentRegistry_insert_def bt_contains_key_def
      split: prod.splits if_splits option.splits sum.splits)
qed

lemma agents_prepared:
  assumes "prepare_agents (memory_engine_ports out) ps cs w = (Inr cs', w')" and "factory_keeps_ids out"
  shows "cw_councils w' = cw_councils w \<and> (bt_wf cs \<longrightarrow> bt_wf cs') \<and>
    dom (bt_get (cw_agents w')) = dom (bt_get (cw_agents w)) \<union> ad_id ` set ps \<and>
    dom (bt_get cs') = dom (bt_get cs) \<union> ad_specialty ` set ps \<and>
    (\<forall>sp. gathered cs' sp = gathered cs sp \<union> {ad_id p |p. p \<in> set ps \<and> ad_specialty p = sp})"
  using assms(1)
proof (induction ps arbitrary: cs w)
  case (Cons p ps)
  let ?cs = "bt_insert (ad_specialty p) (bset_insert (ad_id p) (case bt_get cs (ad_specialty p) of None \<Rightarrow> [] | Some s \<Rightarrow> s)) cs"
  from Cons.prems obtain a w1 u w2 where one: "e_create_agent (memory_engine_ports out) p w = (Inr a, w1)"
      "tolerate_existing (e_register_agent (memory_engine_ports out) a) w1 = (Inr u, w2)"
    and rest: "prepare_agents (memory_engine_ports out) ps ?cs w2 = (Inr cs', w')"
    by (auto simp: eff_bind_Inr)
  have "gathered ?cs sp = (if sp = ad_specialty p then insert (ad_id p) (gathered cs sp) else gathered cs sp)" for sp
    by (auto simp: gathered_def split: option.splits)
  with Cons.IH [OF rest] agent_prepared [OF one assms(2)] show ?case by (auto split: if_splits)
qed (simp add: eff_lift_def)

text \<open>A council that exists stays as it is; a missing one is set up with the gathered members.\<close>

definition council_seated :: "council_map \<Rightarrow> council_map \<Rightarrow> rstr \<Rightarrow> rstr set \<Rightarrow> bool" where
  "council_seated before after sp members =
     (\<exists>c. bt_get after sp = Some c \<and>
       (bt_get before sp = Some c \<or> bt_get before sp = None \<and> set (council_agents c) = members))"

lemma council_prepared:
  assumes "Council_new cid sp ids now = Inr c"
    and "tolerate_existing (e_register_council (memory_engine_ports out) c) w = (Inr u, w1)"
  shows "cw_agents w1 = cw_agents w" and "council_seated (cw_councils w) (cw_councils w1) sp (set ids)"
    and "\<And>k. k \<noteq> sp \<Longrightarrow> bt_get (cw_councils w1) k = bt_get (cw_councils w) k"
  using assms Council_new_wf [OF assms(1)]
  by (auto simp: world_defs tolerate_existing_def InMemoryCouncilRegistry_register_def bt_contains_key_def Council_new_def Let_def
      council_seated_def split: prod.splits if_splits option.splits sum.splits)

lemma councils_prepared:
  assumes "prepare_councils (memory_engine_ports out) cs w = (Inr u, w')" and "distinct (map fst cs)"
  shows "cw_agents w' = cw_agents w \<and> (\<forall>(sp, ids) \<in> set cs. council_seated (cw_councils w) (cw_councils w') sp (set ids)) \<and>
    (\<forall>k. k \<notin> fst ` set cs \<longrightarrow> bt_get (cw_councils w') k = bt_get (cw_councils w) k)"
  using assms
proof (induction cs arbitrary: w)
  case (Cons e cs)
  obtain sp ids where e: "e = (sp, ids)" by (cases e)
  with Cons.prems obtain cid now c u1 w1 where new: "Council_new cid sp ids now = Inr c"
    and reg: "tolerate_existing (e_register_council (memory_engine_ports out) c) w = (Inr u1, w1)"
    and rest: "prepare_councils (memory_engine_ports out) cs w1 = (Inr u, w')"
    by (auto simp: eff_bind_Inr eff_lift_def eff_get_def)
  note one = council_prepared [OF new reg]
  from Cons.IH [OF rest] Cons.prems(2) e have more_cs: "cw_agents w' = cw_agents w1"
      "\<forall>(k, ids) \<in> set cs. council_seated (cw_councils w1) (cw_councils w') k (set ids)"
      "\<forall>k. k \<notin> fst ` set cs \<longrightarrow> bt_get (cw_councils w') k = bt_get (cw_councils w1) k" "sp \<notin> fst ` set cs"
    by auto
  have here: "council_seated (cw_councils w) (cw_councils w') sp (set ids)"
    using one(2) more_cs(3,4) by (simp add: council_seated_def)
  have "council_seated (cw_councils w) (cw_councils w') k (set l)" if "(k, l) \<in> set cs" for k l
  proof -
    from that more_cs(4) have "k \<noteq> sp" by force
    moreover from that more_cs(2) have "council_seated (cw_councils w1) (cw_councils w') k (set l)" by blast
    ultimately show ?thesis using one(3) by (simp add: council_seated_def)
  qed
  with here have "\<forall>(k, l) \<in> set (e # cs). council_seated (cw_councils w) (cw_councils w') k (set l)" by (auto simp: e)
  with more_cs one(1,3) e show ?case by auto
qed (simp add: eff_lift_def)

section \<open>Properties\<close>

text \<open>
  C22. A definition whose participants were prepared has a council for every step: each step asks
  for at least one seat, every seat it asks for has a registered agent under the name of the seat,
  and the registry has a council of the specialty of the step, which was there before and is
  unchanged, or consists of registered agents that include all these seats.
\<close>

theorem prepared_ceremony_seats_every_step:
  assumes "CeremonyParticipantPlanAdapter_from_definition d = Inr ps"
    and "PrepareCeremonyParticipantsUseCase_execute (memory_engine_ports out) ps w = (Inr u, w')"
    and "factory_keeps_ids out" and "step \<in> set (bt_values (def_steps d))"
  shows "\<exists>sp n council. step_seats step sp n \<and> 0 < n \<and> (\<forall>i < n. bt_get (cw_agents w') (seat_id sp i) \<noteq> None) \<and>
    bt_get (cw_councils w') sp = Some council \<and>
    (bt_get (cw_councils w) sp = Some council \<or>
     (\<forall>i < n. seat_id sp i \<in> set (council_agents council)) \<and>
     (\<forall>a \<in> set (council_agents council). bt_get (cw_agents w') a \<noteq> None))"
proof -
  obtain cs w1 where agents: "prepare_agents (memory_engine_ports out) ps [] w = (Inr cs, w1)"
    and councils: "prepare_councils (memory_engine_ports out) cs w1 = (Inr u, w')"
    using assms(2) by (auto simp: PrepareCeremonyParticipantsUseCase_execute_def eff_bind_Inr)
  note a = agents_prepared [OF agents assms(3)]
  then have wf: "bt_wf cs" and dom: "dom (bt_get cs) = ad_specialty ` set ps"
    and members: "\<And>sp. gathered cs sp = {ad_id p |p. p \<in> set ps \<and> ad_specialty p = sp}"
    by (auto simp: gathered_def)
  note c = councils_prepared [OF councils bt_wf_distinct [OF wf]]
  obtain sp n where seats: "step_seats step sp n" "0 < n"
    and planned: "\<forall>i < n. \<exists>p \<in> set ps. ad_id p = seat_id sp i \<and> ad_specialty p = sp"
    using plan_complete(2) [OF assms(1,4)] by blast
  then have "sp \<in> dom (bt_get cs)" unfolding dom by force
  then obtain ids where ids: "bt_get cs sp = Some ids" by blast
  with wf have "(sp, ids) \<in> set cs" by (simp add: bt_get_iff)
  with c have "council_seated (cw_councils w1) (cw_councils w') sp (set ids)" by blast
  then obtain council where council: "bt_get (cw_councils w') sp = Some council"
    "bt_get (cw_councils w) sp = Some council \<or> set (council_agents council) = gathered cs sp"
    using a ids by (auto simp: council_seated_def gathered_def)
  have reg: "bt_get (cw_agents w') (ad_id p) \<noteq> None" if "p \<in> set ps" for p
  proof -
    from that have "ad_id p \<in> dom (bt_get (cw_agents w1))" using a by simp
    moreover have "cw_agents w' = cw_agents w1" using c by simp
    ultimately show ?thesis by (auto simp: domIff)
  qed
  show ?thesis
  proof (intro exI conjI)
    show "\<forall>i < n. bt_get (cw_agents w') (seat_id sp i) \<noteq> None" using planned reg by metis
    show "bt_get (cw_councils w) sp = Some council \<or> (\<forall>i < n. seat_id sp i \<in> set (council_agents council)) \<and>
      (\<forall>a \<in> set (council_agents council). bt_get (cw_agents w') a \<noteq> None)"
    proof (cases "bt_get (cw_councils w) sp = Some council")
      case False
      with council(2) have m: "set (council_agents council) = {ad_id p |p. p \<in> set ps \<and> ad_specialty p = sp}"
        by (simp add: members)
      have "\<forall>i < n. seat_id sp i \<in> set (council_agents council)" unfolding m mem_Collect_eq using planned by metis
      moreover have "\<forall>a \<in> set (council_agents council). bt_get (cw_agents w') a \<noteq> None" unfolding m using reg by blast
      ultimately show ?thesis by simp
    qed simp
  qed (rule seats council)+
qed

text \<open>The one step of the example definition wants one seat of its handler kind.\<close>

definition demo_participant :: agent_descriptor where
  "demo_participant = \<lparr>ad_id = seat_id (lit ''echo'') 0, ad_specialty = lit ''echo'', ad_kind = lit ''noop'',
     ad_attributes = participant_attributes demo_definition demo_step 0 None\<rparr>"

lemma demo_seat_name: "seat_id (lit ''echo'') 0 = lit ''agent-echo-0''"
  by (simp add: seat_id_def display_nat.simps [of 0]) (simp add: lit_def)

lemma demo_seat_texts:
  "Specialty_new (lit ''echo'') = Inr (lit ''echo'')" "AgentKind_new (lit ''noop'') = Inr (lit ''noop'')"
  "AgentId_new (lit ''agent-echo-0'') = Inr (lit ''agent-echo-0'')"
  "CouncilId_new (lit ''ceremony-'' @ lit ''echo'') = Inr (lit ''ceremony-echo'')"
proof -
  have t: "trim (lit ''echo'') = lit ''echo''" "trim (lit ''noop'') = lit ''noop''"
    "trim (lit ''agent-echo-0'') = lit ''agent-echo-0''" "trim (lit ''ceremony-echo'') = lit ''ceremony-echo''"
    by (rule trim_id; simp add: lit_def is_whitespace_def)+
  have c: "lit ''ceremony-'' @ lit ''echo'' = lit ''ceremony-echo''" by (simp add: lit_def)
  show "Specialty_new (lit ''echo'') = Inr (lit ''echo'')" "AgentKind_new (lit ''noop'') = Inr (lit ''noop'')"
    "AgentId_new (lit ''agent-echo-0'') = Inr (lit ''agent-echo-0'')"
    "CouncilId_new (lit ''ceremony-'' @ lit ''echo'') = Inr (lit ''ceremony-echo'')"
    by (simp_all add: Specialty_new_def AgentKind_new_def AgentId_new_def CouncilId_new_def validate_id_def checked_text_eq_Inr
        canonical_text_def t c str_len_lit) (simp_all add: lit_def is_control_def)
qed

lemma demo_plan: "CeremonyParticipantPlanAdapter_from_definition demo_definition = Inr [demo_participant]"
proof -
  define cfg where "cfg = step_config_of demo_step"
  have get: "config_get cfg k = None" "cfg_handler_kind cfg = lit ''echo''" for k
    by (simp_all add: cfg_def config_get_def demo_step_def)
  have "Attributes_new (participant_attributes demo_definition demo_step 0 None) =
      Inr (participant_attributes demo_definition demo_step 0 None)"
    by (simp add: participant_attributes_def demo_defs Attributes_new_eq_Inr MAX_ATTRIBUTES_KEYS_def lit_def)
      (simp add: trim_eq_Nil_iff is_whitespace_def)
  then have one: "participant_at demo_definition demo_step (lit ''echo'') (lit ''noop'') [] 0 = Inr demo_participant"
    using demo_seat_texts(3) by (simp add: participant_at_def seat_id_def [symmetric] demo_seat_name demo_participant_def)
  have "participants_from_step demo_definition demo_step = Inr [demo_participant]"
    unfolding participants_from_step_def cfg_def [symmetric]
    by (simp add: config_specialty_def config_agent_kind_def config_participant_labels_def participant_count_def
        config_num_agents_def optional_u32_def optional_string_def get demo_seat_texts one)
  then show ?thesis
    by (simp add: CeremonyParticipantPlanAdapter_from_definition_def demo_definition_def entry_or_insert_def bt_contains_key_def)
qed

lemma demo_prepares:
  "\<exists>w'. PrepareCeremonyParticipantsUseCase_execute (memory_engine_ports demo_outside) [demo_participant] (demo_council_world 2) = (Inr (), w')"
proof -
  define ports where "ports = memory_engine_ports demo_outside"
  obtain w1 where agent: "e_create_agent ports demo_participant (demo_council_world 2) = (Inr (seat_id (lit ''echo'') 0), w1)"
    by (simp add: ports_def memory_engine_ports_def calling_def on_part_def demo_outside_def demo_participant_def)
  have "\<exists>w'. tolerate_existing (e_register_agent ports a) w = (Inr (), w')" for a w
    by (simp add: ports_def memory_engine_ports_def on_agents_def on_part_def tolerate_existing_def InMemoryAgentRegistry_insert_def)
  then obtain w2 where registered: "tolerate_existing (e_register_agent ports (seat_id (lit ''echo'') 0)) w1 = (Inr (), w2)" by blast
  have "\<exists>w'. tolerate_existing (e_register_council ports c) w = (Inr (), w')" for c w
    by (simp add: ports_def memory_engine_ports_def on_councils_def on_part_def tolerate_existing_def InMemoryCouncilRegistry_register_def)
  then obtain w3 where council: "tolerate_existing (e_register_council ports \<lparr>council_id = lit ''ceremony-echo'',
      council_specialty = lit ''echo'', council_agents = [seat_id (lit ''echo'') 0],
      council_created_at = c_now (e_council ports) w2\<rparr>) w2 = (Inr (), w3)" by blast
  have parts: "ad_specialty demo_participant = lit ''echo''" "ad_id demo_participant = seat_id (lit ''echo'') 0"
    by (simp_all add: demo_participant_def)
  have "PrepareCeremonyParticipantsUseCase_execute ports [demo_participant] (demo_council_world 2) = (Inr (), w3)"
    by (simp add: PrepareCeremonyParticipantsUseCase_execute_def eff_bind_def eff_lift_def eff_get_def agent registered parts
        demo_seat_texts Council_new_def Let_def bset_of_def bset_insert_def council)
  then show ?thesis by (auto simp: ports_def)
qed

theorem prepared_ceremony_seats_every_step_witness:
  "\<exists>sp n council w'. step_seats demo_step sp n \<and> 0 < n \<and>
     PrepareCeremonyParticipantsUseCase_execute (memory_engine_ports demo_outside) [demo_participant] (demo_council_world 2) = (Inr (), w') \<and>
     bt_get (cw_councils w') sp = Some council"
proof -
  obtain w' where run: "PrepareCeremonyParticipantsUseCase_execute (memory_engine_ports demo_outside) [demo_participant]
      (demo_council_world 2) = (Inr (), w')" using demo_prepares by blast
  have "factory_keeps_ids demo_outside" by (simp add: factory_keeps_ids_def demo_outside_def)
  moreover have "demo_step \<in> set (bt_values (def_steps demo_definition))" by (simp add: demo_definition_def)
  ultimately show ?thesis using prepared_ceremony_seats_every_step [OF demo_plan run] run by blast
qed

end
