(* ===== verification/Session_Views.thy ===== *)
theory Session_Views
  imports Ceremony_Sessions Ceremony_Driver
begin

text \<open>
  The read models (\<open>choreo-app/src/usecases\<close>): \<open>ceremony_instance_view.rs\<close>, what a session looks like
  to the people at its table, and \<open>ceremony_draft_view.rs\<close>, what the author of a draft is told.
  Shown is that the view of a session tells exactly which moves the session allows and what it
  waits for.
\<close>

section \<open>The view of a session\<close>

record ceremony_step_view =
  sv_step :: ceremony_step
  sv_record :: step_execution_record

record ceremony_guard_view =
  gv_name :: rstr
  gv_human :: bool
  gv_satisfied :: bool

record ceremony_transition_view =
  tv_transition :: ceremony_transition
  tv_enabled :: bool
  tv_guards :: "ceremony_guard_view list"

definition CeremonyTransitionView_waits_only_on_people :: "ceremony_transition_view \<Rightarrow> bool" where
  "CeremonyTransitionView_waits_only_on_people t =
     list_all gv_satisfied (filter (\<lambda>g. \<not> gv_human g) (tv_guards t))"

record ceremony_instance_view =
  iv_instance :: ceremony_instance
  iv_definition :: ceremony_definition
  iv_steps :: "ceremony_step_view list"
  iv_transitions :: "ceremony_transition_view list"
  iv_waiting_for_human :: "rstr list"
  iv_next_step_id :: "rstr option"
  iv_completed :: bool

text \<open>
  The steps are looked up one by one as the iterator is consumed: a step of the order that is not
  declared is a panic (\<open>None\<close>), a step without a record ends the projection with an error.
\<close>

fun project_steps ::
    "ceremony_instance \<Rightarrow> ceremony_definition \<Rightarrow> rstr list \<Rightarrow> ceremony_step_view list outcome option" where
  "project_steps i d [] = Some (Inr [])"
| "project_steps i d (sid # sids) =
     (case bt_get (def_steps d) sid of
        None \<Rightarrow> None
      | Some step \<Rightarrow>
          (case bt_get (inst_step_records i) (step_id step) of
             None \<Rightarrow> Some (Inl (NotFound ''ceremony_step_record''))
           | Some r \<Rightarrow> map_option (map_ok (Cons \<lparr>sv_step = step, sv_record = r\<rparr>)) (project_steps i d sids)))"

definition project_guard ::
    "ceremony_instance \<Rightarrow> ceremony_definition \<Rightarrow> rstr \<Rightarrow> ceremony_guard_view outcome" where
  "project_guard i d name =
     map_ok (\<lambda>guard. \<lparr>gv_name = name, gv_human = (guard_condition guard = HumanApproval),
         gv_satisfied = CeremonyGuard_is_satisfied guard (inst_step_records i) (inst_context i)\<rparr>)
       (ok_or (bt_get (def_guards d) name) (NotFound ''ceremony_transition.guard''))"

definition project_transition ::
    "ceremony_instance \<Rightarrow> ceremony_definition \<Rightarrow> ceremony_transition \<Rightarrow> ceremony_transition_view outcome" where
  "project_transition i d t =
     map_ok (\<lambda>guards. \<lparr>tv_transition = t,
         tv_enabled = CeremonyDefinition_guards_are_satisfied d t (inst_step_records i) (inst_context i),
         tv_guards = guards\<rparr>)
       (try_map (project_guard i d) (trans_required_guards t))"

definition waiting_for_human :: "ceremony_transition_view list \<Rightarrow> rstr list" where
  "waiting_for_human transitions =
     map gv_name (filter (\<lambda>g. gv_human g \<and> \<not> gv_satisfied g)
       (concat (map tv_guards (filter CeremonyTransitionView_waits_only_on_people transitions))))"

definition unfinished_step :: "ceremony_instance \<Rightarrow> ceremony_step \<Rightarrow> bool" where
  "unfinished_step i step =
     (case bt_get (inst_step_records i) (step_id step) of
        None \<Rightarrow> False
      | Some r \<Rightarrow> \<not> StepStatus_is_success (rec_status r))"

definition CeremonyInstanceView_project ::
    "ceremony_instance \<Rightarrow> ceremony_definition \<Rightarrow> ceremony_instance_view outcome option" where
  "CeremonyInstanceView_project i d =
     (case project_steps i d (def_step_order d) of
        None \<Rightarrow> None
      | Some (Inl e) \<Rightarrow> Some (Inl e)
      | Some (Inr steps) \<Rightarrow>
          (case try_map (project_transition i d) (CeremonyDefinition_available_transitions d (inst_current_state i)) of
             Inl e \<Rightarrow> Some (Inl e)
           | Inr transitions \<Rightarrow>
               (case CeremonyDefinition_steps_for_state d (inst_current_state i) of
                  None \<Rightarrow> None
                | Some here \<Rightarrow>
                    Some (Inr \<lparr>iv_instance = i, iv_definition = d, iv_steps = steps, iv_transitions = transitions,
                      iv_waiting_for_human = waiting_for_human transitions,
                      iv_next_step_id = map_option step_id (find (unfinished_step i) here),
                      iv_completed = CeremonyInstance_is_completed i d\<rparr>))))"

section \<open>The view of a draft\<close>

record ceremony_draft_summary =
  sum_states :: nat
  sum_initial_states :: nat
  sum_terminal_states :: nat
  sum_transitions :: nat
  sum_steps :: nat
  sum_guards :: nat
  sum_roles :: nat

fun CeremonyValidationLocus_to_string :: "ceremony_validation_locus \<Rightarrow> rstr" where
  "CeremonyValidationLocus_to_string Locus_Definition = lit ''the definition''"
| "CeremonyValidationLocus_to_string (Locus_Input n) = lit ''input `'' @ n @ lit ''`''"
| "CeremonyValidationLocus_to_string (Locus_Output n) = lit ''output `'' @ n @ lit ''`''"
| "CeremonyValidationLocus_to_string (Locus_State s) = lit ''state `'' @ s @ lit ''`''"
| "CeremonyValidationLocus_to_string (Locus_Transition src trigger) =
     lit ''transition `'' @ trigger @ lit ''` out of state `'' @ src @ lit ''`''"
| "CeremonyValidationLocus_to_string (Locus_Step s) = lit ''step `'' @ s @ lit ''`''"
| "CeremonyValidationLocus_to_string (Locus_Guard g) = lit ''guard `'' @ g @ lit ''`''"
| "CeremonyValidationLocus_to_string (Locus_Role r) = lit ''role `'' @ r @ lit ''`''"

definition describe_finding :: "(f64 \<Rightarrow> rstr) \<Rightarrow> ceremony_validation_finding \<Rightarrow> rstr" where
  "describe_finding fmt f =
     DomainError_to_string fmt (finding_defect f) @ [32, 8212, 32] @ lit ''at '' @
     CeremonyValidationLocus_to_string (finding_locus f)"

definition narrate ::
    "(f64 \<Rightarrow> rstr) \<Rightarrow> ceremony_definition_draft \<Rightarrow> ceremony_validation_report \<Rightarrow> ceremony_draft_summary \<Rightarrow> rstr list" where
  "narrate fmt draft report summary =
     (let errors = CeremonyValidationReport_errors report; warnings = CeremonyValidationReport_warnings report in
      [lit ''`'' @ draft_name draft @ lit ''` declares '' @ display_nat (sum_states summary) @ lit '' states, '' @
       display_nat (sum_transitions summary) @ lit '' transitions, '' @ display_nat (sum_steps summary) @ lit '' steps, '' @
       display_nat (sum_guards summary) @ lit '' guards and '' @ display_nat (sum_roles summary) @ lit '' roles.''] @
      (if errors = [] then [lit ''Nothing blocks publication.'']
       else (display_nat (length errors) @
         lit '' defect(s) block publication; the draft cannot be published or executed until every one is fixed.'') #
         map (describe_finding fmt) errors) @
      (if warnings = [] then []
       else (display_nat (length warnings) @
         lit '' warning(s) do not block publication but describe a ceremony that can stall.'') #
         map (describe_finding fmt) warnings))"

record ceremony_draft_view =
  dv_draft :: ceremony_definition_draft
  dv_report :: ceremony_validation_report
  dv_summary :: ceremony_draft_summary
  dv_narrative :: "rstr list"

definition CeremonyDraftView_project ::
    "(f64 \<Rightarrow> rstr) \<Rightarrow> ceremony_definition_draft \<Rightarrow> ceremony_validation_report \<Rightarrow> ceremony_draft_view" where
  "CeremonyDraftView_project fmt draft report =
     (let summary = \<lparr>sum_states = length (draft_states draft),
            sum_initial_states = length (filter CeremonyState_is_initial (draft_states draft)),
            sum_terminal_states = length (filter CeremonyState_is_terminal (draft_states draft)),
            sum_transitions = length (draft_transitions draft), sum_steps = length (draft_steps draft),
            sum_guards = length (draft_guards draft), sum_roles = length (draft_roles draft)\<rparr> in
      \<lparr>dv_draft = draft, dv_report = report, dv_summary = summary,
       dv_narrative = narrate fmt draft report summary\<rparr>)"

definition CeremonyDraftView_is_publishable :: "ceremony_draft_view \<Rightarrow> bool" where
  "CeremonyDraftView_is_publishable v = CeremonyValidationReport_is_valid (dv_report v)"

definition CeremonyDraftView_error_count :: "ceremony_draft_view \<Rightarrow> nat" where
  "CeremonyDraftView_error_count v = length (CeremonyValidationReport_errors (dv_report v))"

definition CeremonyDraftView_warning_count :: "ceremony_draft_view \<Rightarrow> nat" where
  "CeremonyDraftView_warning_count v = length (CeremonyValidationReport_warnings (dv_report v))"

section \<open>Reading through the ports\<close>

text \<open>The use cases that only ask a port; each takes the call it makes.\<close>

definition GetCeremonyDefinitionUseCase_execute ::
    "(rstr \<Rightarrow> rstr \<Rightarrow> ('w, ceremony_definition) effect) \<Rightarrow> rstr \<Rightarrow> rstr \<Rightarrow> ('w, ceremony_definition) effect" where
  "GetCeremonyDefinitionUseCase_execute repository_get name version = repository_get name version"

definition ListCeremonyDefinitionsUseCase_execute ::
    "('w, ceremony_definition list) effect \<Rightarrow> ('w, ceremony_definition list) effect" where
  "ListCeremonyDefinitionsUseCase_execute repository_list = repository_list"

definition GetCeremonyInstanceUseCase_execute ::
    "(rstr \<Rightarrow> ('w, ceremony_instance) effect) \<Rightarrow> rstr \<Rightarrow> ('w, ceremony_instance) effect" where
  "GetCeremonyInstanceUseCase_execute repository_get cid = repository_get cid"

definition ListCeremonyInstancesUseCase_execute ::
    "('w, ceremony_instance list) effect \<Rightarrow> ('w, ceremony_instance list) effect" where
  "ListCeremonyInstancesUseCase_execute repository_list = repository_list"

definition GetCeremonyTranscriptUseCase_execute ::
    "(rstr \<Rightarrow> ('w, ceremony_transcript) effect) \<Rightarrow> rstr \<Rightarrow> ('w, ceremony_transcript) effect" where
  "GetCeremonyTranscriptUseCase_execute store_transcript cid = store_transcript cid"

section \<open>What the view of a session tells\<close>

lemma wf_guard_known:
  assumes "definition_wf d" and "t \<in> set (def_transitions d)" and "g \<in> set (trans_required_guards t)"
  obtains guard where "bt_get (def_guards d) g = Some guard" and "guard_name guard = g"
proof -
  have "bt_contains_key (def_guards d) g"
    using assms by (auto simp: definition_wf_def parts_wf_def CeremonyDefinition_parts_def)
  then obtain guard where g: "bt_get (def_guards d) g = Some guard" by (auto simp: bt_contains_key_def)
  with assms(1) have "guard_name guard = g" by (auto simp: definition_wf_def keyed_by_def bt_get_iff)
  with g that show thesis by blast
qed

lemma project_steps_total:
  assumes "definition_wf d" and "inst_wf d ctx0 i" and "set sids \<subseteq> fst ` set (def_steps d)"
  shows "\<exists>vs. project_steps i d sids = Some (Inr vs) \<and> those (map (bt_get (def_steps d)) sids) = Some (map sv_step vs) \<and>
    (\<forall>v \<in> set vs. bt_get (inst_step_records i) (step_id (sv_step v)) = Some (sv_record v))"
  using assms(3)
proof (induction sids)
  case (Cons sid sids)
  then obtain step where step: "(sid, step) \<in> set (def_steps d)" by auto
  with assms(1) have get: "bt_get (def_steps d) sid = Some step" "step_id step = sid"
    by (auto simp: definition_wf_def keyed_by_def bt_get_iff)
  from assms(2) have "bt_keys (inst_step_records i) = bt_keys (def_steps d)" by (simp add: inst_wf_def steps_wf_def)
  then have "fst ` set (inst_step_records i) = fst ` set (def_steps d)" by (metis list.set_map)
  with step have "sid \<in> fst ` set (inst_step_records i)" by force
  then obtain r where "bt_get (inst_step_records i) sid = Some r"
    by (metis bt_contains_iff bt_contains_key_def option.exhaust)
  with get Cons show ?case by auto
qed simp

text \<open>What is shown of a transition, and of its guards.\<close>

lemma project_guard_known:
  "bt_get (def_guards d) g = Some guard \<Longrightarrow> project_guard i d g =
     Inr \<lparr>gv_name = g, gv_human = (guard_condition guard = HumanApproval),
       gv_satisfied = CeremonyGuard_is_satisfied guard (inst_step_records i) (inst_context i)\<rparr>"
  by (simp add: project_guard_def)

lemma project_transition_total:
  assumes "definition_wf d" and "t \<in> set (def_transitions d)"
  shows "\<exists>v. project_transition i d t = Inr v"
proof -
  have "\<forall>g \<in> set (trans_required_guards t). \<exists>v. project_guard i d g = Inr v"
    using wf_guard_known [OF assms] project_guard_known by metis
  then show ?thesis by (auto simp: project_transition_def result_simps dest!: try_map_total)
qed

text \<open>Whether the machine has done its part for a transition, said of the session.\<close>

definition machine_settled :: "ceremony_instance \<Rightarrow> ceremony_definition \<Rightarrow> ceremony_transition \<Rightarrow> bool" where
  "machine_settled i d t =
     (\<forall>g \<in> set (trans_required_guards t). \<forall>guard. bt_get (def_guards d) g = Some guard \<longrightarrow>
        guard_condition guard \<noteq> HumanApproval \<longrightarrow>
        CeremonyGuard_is_satisfied guard (inst_step_records i) (inst_context i))"

definition unapproved_human_guard :: "ceremony_instance \<Rightarrow> ceremony_definition \<Rightarrow> rstr \<Rightarrow> bool" where
  "unapproved_human_guard i d g =
     (\<exists>guard. bt_get (def_guards d) g = Some guard \<and> guard_condition guard = HumanApproval \<and>
        \<not> CeremonyContext_is_guard_approved (inst_context i) g)"

lemma transition_shown:
  assumes "definition_wf d" and "t \<in> set (def_transitions d)" and "project_transition i d t = Inr v"
  shows "tv_transition v = t"
    and "tv_enabled v = CeremonyDefinition_guards_are_satisfied d t (inst_step_records i) (inst_context i)"
    and "CeremonyTransitionView_waits_only_on_people v = machine_settled i d t"
    and "gv_name ` {g \<in> set (tv_guards v). gv_human g \<and> \<not> gv_satisfied g} =
      {g \<in> set (trans_required_guards t). unapproved_human_guard i d g}"
proof -
  obtain gs where gs: "try_map (project_guard i d) (trans_required_guards t) = Inr gs" and v: "tv_guards v = gs"
      "tv_transition v = t" "tv_enabled v = CeremonyDefinition_guards_are_satisfied d t (inst_step_records i) (inst_context i)"
    using assms(3) by (auto simp: project_transition_def result_simps)
  then show "tv_transition v = t"
    and "tv_enabled v = CeremonyDefinition_guards_are_satisfied d t (inst_step_records i) (inst_context i)" by simp_all
  define shown where "shown g guard = \<lparr>gv_name = g, gv_human = (guard_condition guard = HumanApproval),
       gv_satisfied = CeremonyGuard_is_satisfied guard (inst_step_records i) (inst_context i)\<rparr>" for g guard
  have set_gs: "set gs = {shown g guard |g guard. g \<in> set (trans_required_guards t) \<and> bt_get (def_guards d) g = Some guard}"
    (is "_ = ?V")
  proof (intro set_eqI iffI)
    fix x assume "x \<in> set gs"
    with gs obtain g where g: "g \<in> set (trans_required_guards t)" "project_guard i d g = Inr x"
      by (auto simp: try_map_members)
    from wf_guard_known [OF assms(1,2) g(1)] obtain guard where "bt_get (def_guards d) g = Some guard" by blast
    with g show "x \<in> ?V" by (auto simp: project_guard_known shown_def)
  next
    fix x assume "x \<in> ?V"
    then obtain g guard where g: "g \<in> set (trans_required_guards t)" "bt_get (def_guards d) g = Some guard" "x = shown g guard"
      by blast
    then have "project_guard i d g = Inr x" by (simp add: project_guard_known shown_def)
    with g(1) show "x \<in> set gs" by (auto simp: try_map_members [OF gs])
  qed
  show "CeremonyTransitionView_waits_only_on_people v = machine_settled i d t"
  proof -
    have "(\<forall>x \<in> set gs. \<not> gv_human x \<longrightarrow> gv_satisfied x) \<longleftrightarrow> (\<forall>g guard. g \<in> set (trans_required_guards t) \<longrightarrow>
        bt_get (def_guards d) g = Some guard \<longrightarrow> \<not> gv_human (shown g guard) \<longrightarrow> gv_satisfied (shown g guard))"
      unfolding set_gs by blast
    then show ?thesis
      by (auto simp: CeremonyTransitionView_waits_only_on_people_def v(1) list_all_iff machine_settled_def shown_def)
  qed
  have name: "guard_name guard = g" if "bt_get (def_guards d) g = Some guard" for g guard
    using that assms(1) by (auto simp: definition_wf_def keyed_by_def bt_get_iff)
  show "gv_name ` {g \<in> set (tv_guards v). gv_human g \<and> \<not> gv_satisfied g} =
      {g \<in> set (trans_required_guards t). unapproved_human_guard i d g}"
    unfolding v(1) set_gs
    by (force simp: unapproved_human_guard_def shown_def CeremonyGuard_is_satisfied.simps dest: name)
qed

text \<open>The whole view of a session that its definition allows.\<close>

lemma view_total:
  assumes "definition_wf d" and "inst_wf d ctx0 i"
  obtains v stps where "CeremonyInstanceView_project i d = Some (Inr v)"
    and "CeremonyDefinition_steps_in_declaration_order d = Some stps" and "map sv_step (iv_steps v) = stps"
    and "\<forall>s \<in> set (iv_steps v). bt_get (inst_step_records i) (step_id (sv_step s)) = Some (sv_record s)"
    and "try_map (project_transition i d) (CeremonyDefinition_available_transitions d (inst_current_state i)) = Inr (iv_transitions v)"
    and "iv_waiting_for_human v = waiting_for_human (iv_transitions v)"
    and "iv_next_step_id v = map_option step_id (find (unfinished_step i) (filter (\<lambda>s. step_state_id s = inst_current_state i) stps))"
    and "iv_completed v = CeremonyInstance_is_completed i d"
proof -
  have "set (def_step_order d) \<subseteq> fst ` set (def_steps d)" using assms(1) by (simp add: definition_wf_def)
  from project_steps_total [OF assms this] obtain vs where vs: "project_steps i d (def_step_order d) = Some (Inr vs)"
      "CeremonyDefinition_steps_in_declaration_order d = Some (map sv_step vs)"
      "\<forall>v \<in> set vs. bt_get (inst_step_records i) (step_id (sv_step v)) = Some (sv_record v)"
    by (auto simp: CeremonyDefinition_steps_in_declaration_order_def)
  have "\<exists>ts. try_map (project_transition i d) (CeremonyDefinition_available_transitions d (inst_current_state i)) = Inr ts"
    by (rule try_map_total)
      (use project_transition_total [OF assms(1)] in \<open>auto simp: CeremonyDefinition_available_transitions_def\<close>)
  then obtain ts where ts: "try_map (project_transition i d) (CeremonyDefinition_available_transitions d (inst_current_state i)) = Inr ts" ..
  show thesis
  proof (rule that)
    show "CeremonyInstanceView_project i d = Some (Inr \<lparr>iv_instance = i, iv_definition = d, iv_steps = vs, iv_transitions = ts,
        iv_waiting_for_human = waiting_for_human ts,
        iv_next_step_id = map_option step_id (find (unfinished_step i)
          (filter (\<lambda>s. step_state_id s = inst_current_state i) (map sv_step vs))),
        iv_completed = CeremonyInstance_is_completed i d\<rparr>)"
      using vs(1,2) ts by (simp add: CeremonyInstanceView_project_def CeremonyDefinition_steps_for_state_def)
  qed (use vs ts in simp_all)
qed

lemma apply_transition_ok_iff:
  assumes "definition_wf d" and "CeremonyInstance_matches_definition i d"
  shows "is_ok (CeremonyInstance_apply_transition i d trigger now) \<longleftrightarrow>
    (\<exists>t \<in> set (CeremonyDefinition_available_transitions d (inst_current_state i)). trans_trigger t = trigger \<and>
      CeremonyDefinition_guards_are_satisfied d t (inst_step_records i) (inst_context i))"
  (is "_ \<longleftrightarrow> ?R")
proof
  assume "is_ok (CeremonyInstance_apply_transition i d trigger now)"
  then obtain t where "CeremonyDefinition_transition_for_trigger d (inst_current_state i) trigger = Some t"
    and "CeremonyDefinition_guards_are_satisfied d t (inst_step_records i) (inst_context i)"
    by (auto simp: is_ok_iff CeremonyInstance_apply_transition_def CeremonyInstance_move_on_def result_simps split: if_splits)
  then show ?R using wf_transition_for_trigger [OF assms(1)] by (auto simp: CeremonyDefinition_available_transitions_def)
next
  assume ?R
  then obtain t where t: "t \<in> set (def_transitions d)" "trans_from t = inst_current_state i" "trans_trigger t = trigger"
    "CeremonyDefinition_guards_are_satisfied d t (inst_step_records i) (inst_context i)"
    by (auto simp: CeremonyDefinition_available_transitions_def)
  from wf_declared_transition_found [OF assms(1) t(1)] t(2,3)
  have tf: "CeremonyDefinition_transition_for_trigger d (inst_current_state i) trigger = Some t" by simp
  from wf_transition_for_trigger [OF assms(1) tf] t(4) tf assms(2)
  show "is_ok (CeremonyInstance_apply_transition i d trigger now)"
    by (simp add: is_ok_iff CeremonyInstance_apply_transition_def CeremonyInstance_move_on_def require_definition_def
        CeremonyInstance_is_terminal_def)
qed

text \<open>Giving several approvals one after the other.\<close>

fun approve_guards ::
    "ceremony_instance \<Rightarrow> ceremony_definition \<Rightarrow> rstr list \<Rightarrow> rstr \<Rightarrow> audit_actor_kind \<Rightarrow> timestamp \<Rightarrow> ceremony_instance outcome" where
  "approve_guards i d [] rid k now = Inr i"
| "approve_guards i d (n # ns) rid k now =
     and_then (CeremonyInstance_approve_guard i d n rid k now) (\<lambda>j. approve_guards j d ns rid k now)"

lemma approve_guard_facts:
  assumes "CeremonyInstance_approve_guard i d n rid k now = Inr j"
  shows "inst_step_records j = inst_step_records i" and "inst_current_state j = inst_current_state i"
    and "CeremonyInstance_matches_definition j d = CeremonyInstance_matches_definition i d"
    and "CeremonyContext_is_guard_approved (inst_context j) g \<longleftrightarrow> g = n \<or> CeremonyContext_is_guard_approved (inst_context i) g"
  using assms
  by (auto simp: CeremonyInstance_approve_guard_def result_simps CeremonyInstance_matches_definition_def
      CeremonyContext_with_guard_approval_def Attributes_new_eq_Inr CeremonyContext_is_guard_approved_def json_as_bool_def
      split: if_splits)

lemma approve_guards_facts:
  assumes "approve_guards i d ns rid k now = Inr j"
  shows "inst_step_records j = inst_step_records i \<and> inst_current_state j = inst_current_state i \<and>
    CeremonyInstance_matches_definition j d = CeremonyInstance_matches_definition i d \<and>
    (\<forall>g. CeremonyContext_is_guard_approved (inst_context j) g \<longleftrightarrow>
      g \<in> set ns \<or> CeremonyContext_is_guard_approved (inst_context i) g)"
  using assms
proof (induction ns arbitrary: i)
  case (Cons n ns)
  then obtain h where h: "CeremonyInstance_approve_guard i d n rid k now = Inr h" "approve_guards h d ns rid k now = Inr j"
    by (auto simp: result_simps)
  from Cons.IH [OF h(2)] approve_guard_facts [OF h(1)] show ?case by auto
qed simp

lemma approvals_unlock:
  assumes "definition_wf d" and "t \<in> set (def_transitions d)" and "machine_settled i d t"
    and "inst_step_records j = inst_step_records i"
    and "\<And>g. g \<in> set (trans_required_guards t) \<Longrightarrow> unapproved_human_guard i d g \<Longrightarrow> CeremonyContext_is_guard_approved (inst_context j) g"
    and "\<And>g. CeremonyContext_is_guard_approved (inst_context i) g \<Longrightarrow> CeremonyContext_is_guard_approved (inst_context j) g"
  shows "CeremonyDefinition_guards_are_satisfied d t (inst_step_records j) (inst_context j)"
  unfolding CeremonyDefinition_guards_are_satisfied_def list_all_iff
proof
  fix g assume g: "g \<in> set (trans_required_guards t)"
  then obtain guard where guard: "bt_get (def_guards d) g = Some guard" "guard_name guard = g"
    using wf_guard_known [OF assms(1,2)] by blast
  have "CeremonyGuard_is_satisfied guard (inst_step_records j) (inst_context j)"
  proof (cases "guard_condition guard = HumanApproval")
    case True
    then have "CeremonyContext_is_guard_approved (inst_context j) g"
      using assms(5) [OF g] assms(6) guard by (auto simp: unapproved_human_guard_def)
    with True guard(2) show ?thesis by (simp add: CeremonyGuard_is_satisfied.simps)
  next
    case False
    with assms(3) g guard have "CeremonyGuard_is_satisfied guard (inst_step_records i) (inst_context i)"
      by (auto simp: machine_settled_def)
    with False assms(4) show ?thesis by (auto simp: CeremonyGuard_is_satisfied.simps split: guard_condition.splits)
  qed
  with guard show "case bt_get (def_guards d) g of None \<Rightarrow> False
    | Some guard \<Rightarrow> CeremonyGuard_is_satisfied guard (inst_step_records j) (inst_context j)" by simp
qed

lemma waiting_shown:
  assumes "definition_wf d"
    and "try_map (project_transition i d) (CeremonyDefinition_available_transitions d sid) = Inr vs"
  shows "set (waiting_for_human vs) = {g. \<exists>t \<in> set (CeremonyDefinition_available_transitions d sid). machine_settled i d t \<and>
      g \<in> set (trans_required_guards t) \<and> unapproved_human_guard i d g}"
proof -
  have declared: "t \<in> set (def_transitions d)" if "t \<in> set (CeremonyDefinition_available_transitions d sid)" for t
    using that by (simp add: CeremonyDefinition_available_transitions_def)
  have "set (waiting_for_human vs) = (\<Union>v \<in> {v \<in> set vs. CeremonyTransitionView_waits_only_on_people v}.
      gv_name ` {g \<in> set (tv_guards v). gv_human g \<and> \<not> gv_satisfied g})"
    by (auto simp: waiting_for_human_def)
  also have "\<dots> = (\<Union>t \<in> {t \<in> set (CeremonyDefinition_available_transitions d sid). machine_settled i d t}.
      {g \<in> set (trans_required_guards t). unapproved_human_guard i d g})"
  proof (intro set_eqI iffI)
    fix x assume "x \<in> (\<Union>v \<in> {v \<in> set vs. CeremonyTransitionView_waits_only_on_people v}.
      gv_name ` {g \<in> set (tv_guards v). gv_human g \<and> \<not> gv_satisfied g})"
    then obtain v where v: "v \<in> set vs" "CeremonyTransitionView_waits_only_on_people v"
      "x \<in> gv_name ` {g \<in> set (tv_guards v). gv_human g \<and> \<not> gv_satisfied g}" by blast
    then obtain t where t: "t \<in> set (CeremonyDefinition_available_transitions d sid)" "project_transition i d t = Inr v"
      by (auto simp: try_map_members [OF assms(2)])
    from transition_shown [OF assms(1) declared [OF t(1)] t(2)] v t(1)
    show "x \<in> (\<Union>t \<in> {t \<in> set (CeremonyDefinition_available_transitions d sid). machine_settled i d t}.
      {g \<in> set (trans_required_guards t). unapproved_human_guard i d g})" by blast
  next
    fix x assume "x \<in> (\<Union>t \<in> {t \<in> set (CeremonyDefinition_available_transitions d sid). machine_settled i d t}.
      {g \<in> set (trans_required_guards t). unapproved_human_guard i d g})"
    then obtain t where t: "t \<in> set (CeremonyDefinition_available_transitions d sid)" "machine_settled i d t"
      "x \<in> {g \<in> set (trans_required_guards t). unapproved_human_guard i d g}" by blast
    obtain v where v: "project_transition i d t = Inr v" using project_transition_total [OF assms(1) declared [OF t(1)]] by blast
    then have "v \<in> set vs" using t(1) by (auto simp: try_map_members [OF assms(2)])
    with transition_shown [OF assms(1) declared [OF t(1)] v] t
    show "x \<in> (\<Union>v \<in> {v \<in> set vs. CeremonyTransitionView_waits_only_on_people v}.
      gv_name ` {g \<in> set (tv_guards v). gv_human g \<and> \<not> gv_satisfied g})" by blast
  qed
  finally show ?thesis by blast
qed

lemma enabled_shown:
  assumes "definition_wf d"
    and "try_map (project_transition i d) (CeremonyDefinition_available_transitions d sid) = Inr vs"
  shows "(\<exists>v \<in> set vs. tv_enabled v \<and> trans_trigger (tv_transition v) = trigger) \<longleftrightarrow>
    (\<exists>t \<in> set (CeremonyDefinition_available_transitions d sid). trans_trigger t = trigger \<and>
      CeremonyDefinition_guards_are_satisfied d t (inst_step_records i) (inst_context i))"
proof -
  have declared: "t \<in> set (def_transitions d)" if "t \<in> set (CeremonyDefinition_available_transitions d sid)" for t
    using that by (simp add: CeremonyDefinition_available_transitions_def)
  show ?thesis
  proof
    assume "\<exists>v \<in> set vs. tv_enabled v \<and> trans_trigger (tv_transition v) = trigger"
    then obtain v t where v: "tv_enabled v" "trans_trigger (tv_transition v) = trigger"
      and t: "t \<in> set (CeremonyDefinition_available_transitions d sid)" "project_transition i d t = Inr v"
      by (auto simp: try_map_members [OF assms(2)])
    with transition_shown(1,2) [OF assms(1) declared [OF t(1)] t(2)]
    show "\<exists>t \<in> set (CeremonyDefinition_available_transitions d sid). trans_trigger t = trigger \<and>
      CeremonyDefinition_guards_are_satisfied d t (inst_step_records i) (inst_context i)" by blast
  next
    assume "\<exists>t \<in> set (CeremonyDefinition_available_transitions d sid). trans_trigger t = trigger \<and>
      CeremonyDefinition_guards_are_satisfied d t (inst_step_records i) (inst_context i)"
    then obtain t where t: "t \<in> set (CeremonyDefinition_available_transitions d sid)" "trans_trigger t = trigger"
      "CeremonyDefinition_guards_are_satisfied d t (inst_step_records i) (inst_context i)" by blast
    obtain v where v: "project_transition i d t = Inr v" using project_transition_total [OF assms(1) declared [OF t(1)]] by blast
    then have "v \<in> set vs" using t(1) by (auto simp: try_map_members [OF assms(2)])
    with transition_shown(1,2) [OF assms(1) declared [OF t(1)] v] t
    show "\<exists>v \<in> set vs. tv_enabled v \<and> trans_trigger (tv_transition v) = trigger" by blast
  qed
qed

section \<open>Properties\<close>

text \<open>
  C13. The view of a session never fails and tells the truth about the next moves: a trigger can be
  applied exactly when the view shows a transition of that name as enabled; the guards reported as
  waiting for people are exactly the unapproved human guards of transitions whose other guards
  hold, and approving them enables each of these transitions; the next step is the first step of the
  current state that has not succeeded, and none is named exactly when all have.
\<close>

theorem session_view_exact:
  assumes "definition_wf d" and "session_reachable to_value d ctx0 i"
  shows "\<exists>v stps. CeremonyInstanceView_project i d = Some (Inr v) \<and>
    CeremonyDefinition_steps_in_declaration_order d = Some stps \<and> map sv_step (iv_steps v) = stps \<and>
    (\<forall>trigger now. is_ok (CeremonyInstance_apply_transition i d trigger now) \<longleftrightarrow>
      (\<exists>t \<in> set (iv_transitions v). tv_enabled t \<and> trans_trigger (tv_transition t) = trigger)) \<and>
    set (iv_waiting_for_human v) = {g. \<exists>t \<in> set (CeremonyDefinition_available_transitions d (inst_current_state i)).
      machine_settled i d t \<and> g \<in> set (trans_required_guards t) \<and> unapproved_human_guard i d g} \<and>
    (\<forall>rid k at_time now j. approve_guards i d (iv_waiting_for_human v) rid k at_time = Inr j \<longrightarrow>
      (\<forall>t \<in> set (CeremonyDefinition_available_transitions d (inst_current_state i)). machine_settled i d t \<longrightarrow>
        is_ok (CeremonyInstance_apply_transition j d (trans_trigger t) now))) \<and>
    iv_next_step_id v = map_option step_id (find (unfinished_step i)
      (filter (\<lambda>s. step_state_id s = inst_current_state i) stps)) \<and>
    iv_completed v = CeremonyInstance_is_completed i d"
proof -
  let ?open = "CeremonyDefinition_available_transitions d (inst_current_state i)"
  have wf: "inst_wf d ctx0 i" by (rule reachable_wf [OF assms(2,1)])
  then have matches: "CeremonyInstance_matches_definition i d" by (simp add: inst_wf_def)
  obtain v stps where v: "CeremonyInstanceView_project i d = Some (Inr v)"
    "CeremonyDefinition_steps_in_declaration_order d = Some stps" "map sv_step (iv_steps v) = stps"
    "\<forall>s \<in> set (iv_steps v). bt_get (inst_step_records i) (step_id (sv_step s)) = Some (sv_record s)"
    and ts: "try_map (project_transition i d) ?open = Inr (iv_transitions v)"
    and w: "iv_waiting_for_human v = waiting_for_human (iv_transitions v)"
    and nxt: "iv_next_step_id v = map_option step_id (find (unfinished_step i) (filter (\<lambda>s. step_state_id s = inst_current_state i) stps))"
    and completed: "iv_completed v = CeremonyInstance_is_completed i d"
    by (rule view_total [OF assms(1) wf])
  have declared: "t \<in> set (def_transitions d)" if "t \<in> set ?open" for t
    using that by (simp add: CeremonyDefinition_available_transitions_def)
  have enabled: "\<forall>trigger now. is_ok (CeremonyInstance_apply_transition i d trigger now) \<longleftrightarrow>
      (\<exists>t \<in> set (iv_transitions v). tv_enabled t \<and> trans_trigger (tv_transition t) = trigger)"
    unfolding apply_transition_ok_iff [OF assms(1) matches] enabled_shown [OF assms(1) ts] by blast
  have waiting: "set (iv_waiting_for_human v) = {g. \<exists>t \<in> set ?open. machine_settled i d t \<and>
      g \<in> set (trans_required_guards t) \<and> unapproved_human_guard i d g}"
    by (rule waiting_shown [OF assms(1) ts, folded w])
  have unlocks: "is_ok (CeremonyInstance_apply_transition j d (trans_trigger t) now)"
    if approved: "approve_guards i d (iv_waiting_for_human v) rid k at_time = Inr j" and t: "t \<in> set ?open" "machine_settled i d t"
    for rid k at_time now j t
  proof -
    note f = approve_guards_facts [OF approved]
    have "CeremonyDefinition_guards_are_satisfied d t (inst_step_records j) (inst_context j)"
      by (rule approvals_unlock [OF assms(1) declared [OF t(1)] t(2)]) (use f t waiting in auto)
    with f t(1) matches show ?thesis by (subst apply_transition_ok_iff [OF assms(1)]) auto
  qed
  from v enabled waiting unlocks nxt completed show ?thesis by blast
qed

lemma demo_step_order: "CeremonyDefinition_steps_in_declaration_order demo_definition = Some [demo_step]"
  by (simp add: CeremonyDefinition_steps_in_declaration_order_def demo_definition_def)

theorem session_view_exact_witness:
  "\<exists>v. CeremonyInstanceView_project demo_started demo_definition = Some (Inr v) \<and> map sv_step (iv_steps v) = [demo_step]"
  using session_view_exact [OF demo_wf demo_reachable(2)] demo_step_order by auto

end
