(* ===== verification/Trace_Contexts.thy ===== *)
theory Trace_Contexts
  imports Audit_Chain
begin

text \<open>
  The W3C \<open>traceparent\<close> header (\<open>value_objects/trace_context.rs\<close>): reading, writing and generating the
  ids that facts and messages carry.  Hexadecimal digits are ASCII, so a check of all bytes is a
  check of all code points.  Random UUIDs are arguments.
\<close>

section \<open>Reading and writing\<close>

definition TRACE_ID_HEX_LEN :: nat where
  "TRACE_ID_HEX_LEN = 32"

definition SPAN_ID_HEX_LEN :: nat where
  "SPAN_ID_HEX_LEN = 16"

definition FLAGS_HEX_LEN :: nat where
  "FLAGS_HEX_LEN = 2"

definition VERSION_HEX_LEN :: nat where
  "VERSION_HEX_LEN = 2"

definition VERSION :: rstr where
  "VERSION = lit ''00''"

definition is_ascii_hexdigit :: "nat \<Rightarrow> bool" where
  "is_ascii_hexdigit c = (is_ascii_digit c \<or> (97 \<le> c \<and> c \<le> 102) \<or> (65 \<le> c \<and> c \<le> 70))"

definition to_ascii_lowercase :: "rstr \<Rightarrow> rstr" where
  "to_ascii_lowercase s = map (\<lambda>c. if 65 \<le> c \<and> c \<le> 90 then c + 32 else c) s"

definition validate_hex :: "rstr \<Rightarrow> nat \<Rightarrow> string \<Rightarrow> unit outcome" where
  "validate_hex s expected_len field =
     (if str_len s \<noteq> expected_len then Inl (FieldTooLong field (str_len s) expected_len)
      else if \<not> list_all is_ascii_hexdigit s then Inl (InvalidCharacters field)
      else Inr ())"

definition validate_hex_nonzero :: "rstr \<Rightarrow> nat \<Rightarrow> string \<Rightarrow> unit outcome" where
  "validate_hex_nonzero s expected_len field =
     and_then (validate_hex s expected_len field) (\<lambda>_.
     if list_all (\<lambda>c. c = 48) s
     then Inl (InvariantViolated ''traceparent: trace_id and span_id must not be all zeros'')
     else Inr ())"

definition TraceContext_parse :: "rstr \<Rightarrow> trace_context outcome" where
  "TraceContext_parse header =
     (let parts = splitn 5 45 header in
      if length parts < 4 then Inl (InvalidCharacters ''traceparent'')
      else
        and_then (validate_hex (parts ! 0) VERSION_HEX_LEN ''traceparent.version'') (\<lambda>_.
        and_then (validate_hex_nonzero (parts ! 1) TRACE_ID_HEX_LEN ''traceparent.trace_id'') (\<lambda>_.
        and_then (validate_hex_nonzero (parts ! 2) SPAN_ID_HEX_LEN ''traceparent.span_id'') (\<lambda>_.
        and_then (validate_hex (parts ! 3) FLAGS_HEX_LEN ''traceparent.flags'') (\<lambda>_.
        Inr \<lparr>trace_id = to_ascii_lowercase (parts ! 1), trace_span_id = to_ascii_lowercase (parts ! 2),
             trace_flags = to_ascii_lowercase (parts ! 3)\<rparr>)))))"

definition TraceContext_new :: "rstr \<Rightarrow> rstr \<Rightarrow> rstr \<Rightarrow> trace_context outcome" where
  "TraceContext_new tid sid fl =
     (let tid = to_ascii_lowercase tid; sid = to_ascii_lowercase sid; fl = to_ascii_lowercase fl in
      and_then (validate_hex_nonzero tid TRACE_ID_HEX_LEN ''traceparent.trace_id'') (\<lambda>_.
      and_then (validate_hex_nonzero sid SPAN_ID_HEX_LEN ''traceparent.span_id'') (\<lambda>_.
      and_then (validate_hex fl FLAGS_HEX_LEN ''traceparent.flags'') (\<lambda>_.
      Inr \<lparr>trace_id = tid, trace_span_id = sid, trace_flags = fl\<rparr>))))"

definition hex_encode :: "bytes \<Rightarrow> rstr" where
  "hex_encode bs = concat (map (\<lambda>b. [hex_digit (drop_bit 4 b), hex_digit (and b 15)]) bs)"

text \<open>The arguments are the bytes of the two random UUIDs.\<close>

definition TraceContext_generate :: "bytes \<Rightarrow> bytes \<Rightarrow> trace_context" where
  "TraceContext_generate trace_uuid span_bytes =
     (let span = hex_encode (take 8 span_bytes) in
      \<lparr>trace_id = hex_encode trace_uuid,
       trace_span_id = (if list_all (\<lambda>c. c = 48) span then lit ''1'' @ drop 1 span else span),
       trace_flags = lit ''01''\<rparr>)"

definition TraceContext_to_header :: "trace_context \<Rightarrow> rstr" where
  "TraceContext_to_header t =
     VERSION @ lit ''-'' @ trace_id t @ lit ''-'' @ trace_span_id t @ lit ''-'' @ trace_flags t"

section \<open>Well-formed contexts\<close>

definition lower_hex :: "nat \<Rightarrow> bool" where
  "lower_hex c = (is_ascii_digit c \<or> (97 \<le> c \<and> c \<le> 102))"

text \<open>A field of lowercase hexadecimal digits, and one that is not all zeros.\<close>

definition hex_field :: "nat \<Rightarrow> rstr \<Rightarrow> bool" where
  "hex_field n s = (length s = n \<and> (\<forall>c \<in> set s. lower_hex c))"

definition id_field :: "nat \<Rightarrow> rstr \<Rightarrow> bool" where
  "id_field n s = (hex_field n s \<and> (\<exists>c \<in> set s. c \<noteq> 48))"

definition trace_wf :: "trace_context \<Rightarrow> bool" where
  "trace_wf t = (id_field 32 (trace_id t) \<and> id_field 16 (trace_span_id t) \<and> hex_field 2 (trace_flags t))"

lemmas hexlen_defs = TRACE_ID_HEX_LEN_def SPAN_ID_HEX_LEN_def FLAGS_HEX_LEN_def VERSION_HEX_LEN_def

lemma hexdigit_ascii: "list_all is_ascii_hexdigit s \<Longrightarrow> str_len s = length s"
  by (rule str_len_ascii) (auto simp: list_all_iff is_ascii_hexdigit_def is_ascii_digit_def)

lemma validate_hex_Inr:
  "validate_hex s n field = Inr u \<longleftrightarrow> length s = n \<and> list_all is_ascii_hexdigit s"
  by (auto simp: validate_hex_def hexdigit_ascii)

lemma validate_hex_nonzero_Inr:
  "validate_hex_nonzero s n field = Inr u \<longleftrightarrow> length s = n \<and> list_all is_ascii_hexdigit s \<and> (\<exists>c \<in> set s. c \<noteq> 48)"
  by (auto simp: validate_hex_nonzero_def result_simps validate_hex_Inr list_all_iff split: if_splits)

text \<open>Lowercasing hexadecimal digits gives a field, and leaves a field alone.\<close>

lemma lowercase_length [simp]: "length (to_ascii_lowercase s) = length s"
  by (simp add: to_ascii_lowercase_def)

lemma lowercase_hex: "list_all is_ascii_hexdigit s \<Longrightarrow> hex_field (length s) (to_ascii_lowercase s)"
  by (auto simp: list_all_iff is_ascii_hexdigit_def hex_field_def to_ascii_lowercase_def lower_hex_def is_ascii_digit_def)

lemma lowercase_id:
  "list_all is_ascii_hexdigit s \<Longrightarrow> \<exists>c \<in> set s. c \<noteq> 48 \<Longrightarrow> id_field (length s) (to_ascii_lowercase s)"
proof -
  assume hex: "list_all is_ascii_hexdigit s" and "\<exists>c \<in> set s. c \<noteq> 48"
  then obtain c where c: "c \<in> set s" "c \<noteq> 48" by blast
  let ?low = "if 65 \<le> c \<and> c \<le> 90 then c + 32 else c"
  have "?low \<in> set (to_ascii_lowercase s)" using c(1) by (auto simp: to_ascii_lowercase_def)
  moreover have "?low \<noteq> 48" using c(2) by simp
  ultimately show ?thesis using lowercase_hex [OF hex] by (auto simp: id_field_def)
qed

lemma lowercase_field: "hex_field n s \<Longrightarrow> to_ascii_lowercase s = s"
  by (auto simp: hex_field_def to_ascii_lowercase_def lower_hex_def is_ascii_digit_def intro!: map_idI)

lemma field_hexdigits: "hex_field n s \<Longrightarrow> length s = n \<and> list_all is_ascii_hexdigit s"
  by (auto simp: hex_field_def list_all_iff is_ascii_hexdigit_def lower_hex_def)

lemma field_no_dash: "hex_field n s \<Longrightarrow> 45 \<notin> set s"
  by (auto simp: hex_field_def lower_hex_def is_ascii_digit_def)

lemmas field_checks = validate_hex_Inr validate_hex_nonzero_Inr hexlen_defs result_simps

lemma TraceContext_parse_wf: "TraceContext_parse header = Inr t \<Longrightarrow> trace_wf t"
  using lowercase_id lowercase_hex
  by (auto simp: TraceContext_parse_def Let_def field_checks trace_wf_def split: if_splits) metis+

lemma lowercase_field_iff:
  "hex_field n (to_ascii_lowercase s) \<longleftrightarrow> length s = n \<and> list_all is_ascii_hexdigit (to_ascii_lowercase s)"
  by (auto simp: hex_field_def list_all_iff to_ascii_lowercase_def is_ascii_hexdigit_def lower_hex_def split: if_splits)

text \<open>The constructor accepts exactly the ids that are well-formed once in lower case.\<close>

lemma TraceContext_new_iff:
  "TraceContext_new tid sid fl = Inr t \<longleftrightarrow>
     t = \<lparr>trace_id = to_ascii_lowercase tid, trace_span_id = to_ascii_lowercase sid, trace_flags = to_ascii_lowercase fl\<rparr> \<and>
     trace_wf t"
  by (auto simp: TraceContext_new_def Let_def field_checks trace_wf_def id_field_def lowercase_field_iff)

section \<open>Round trips\<close>

lemma split_once_field: "hex_field n s \<Longrightarrow> split_once 45 (s @ 45 # rest) = Some (s, rest)"
proof -
  assume "hex_field n s"
  then have "\<And>c. c \<in> set s \<Longrightarrow> c \<noteq> 45" using field_no_dash by blast
  then show ?thesis by (simp add: split_once_def takeWhile_append2 [of s] dropWhile_append2 [of s])
qed

lemma parts_of_header:
  assumes "trace_wf t" and "future = [] \<or> hd future = 45"
  shows "\<exists>ignored. splitn 5 45 (TraceContext_to_header t @ future) =
    VERSION # trace_id t # trace_span_id t # trace_flags t # ignored"
proof -
  have "hex_field 2 VERSION" by (simp add: VERSION_def lit_def hex_field_def lower_hex_def is_ascii_digit_def)
  with assms(1) have fields: "hex_field 2 VERSION" "hex_field 32 (trace_id t)" "hex_field 16 (trace_span_id t)"
    "hex_field 2 (trace_flags t)" by (auto simp: trace_wf_def id_field_def)
  have dash: "lit ''-'' = [45]" by (simp add: lit_def)
  have five: "5 = Suc (Suc (Suc (Suc (Suc 0))))" by simp
  have "splitn 5 45 (TraceContext_to_header t @ future) =
      VERSION # trace_id t # trace_span_id t # splitn (Suc (Suc 0)) 45 (trace_flags t @ future)"
    by (simp add: five TraceContext_to_header_def dash split_once_field [OF fields(1)] split_once_field [OF fields(2)]
        split_once_field [OF fields(3)])
  moreover have "\<exists>ignored. splitn (Suc (Suc 0)) 45 (trace_flags t @ future) = trace_flags t # ignored"
  proof (cases future)
    case Nil
    then show ?thesis using field_no_dash [OF fields(4)] by (simp add: split_once_def)
  next
    case (Cons c rest)
    then show ?thesis using assms(2) split_once_field [OF fields(4)] by simp
  qed
  ultimately show ?thesis by auto
qed

lemma parse_header:
  assumes "trace_wf t" and "future = [] \<or> hd future = 45"
  shows "TraceContext_parse (TraceContext_to_header t @ future) = Inr t"
proof -
  have "hex_field 2 VERSION" by (simp add: VERSION_def lit_def hex_field_def lower_hex_def is_ascii_digit_def)
  moreover have f: "hex_field 32 (trace_id t)" "hex_field 16 (trace_span_id t)" "hex_field 2 (trace_flags t)"
    "\<exists>c \<in> set (trace_id t). c \<noteq> 48" "\<exists>c \<in> set (trace_span_id t). c \<noteq> 48"
    using assms(1) by (auto simp: trace_wf_def id_field_def)
  moreover obtain ignored where "splitn 5 45 (TraceContext_to_header t @ future) =
      VERSION # trace_id t # trace_span_id t # trace_flags t # ignored" using parts_of_header [OF assms] by blast
  ultimately show ?thesis
    by (simp add: TraceContext_parse_def Let_def field_checks field_hexdigits lowercase_field numeral_2_eq_2 numeral_3_eq_3)
qed

lemma header_length: "trace_wf t \<Longrightarrow> str_len (TraceContext_to_header t) = 55"
proof -
  have len: "str_len s = n" if "hex_field n s" for n s using field_hexdigits [OF that] hexdigit_ascii by blast
  assume "trace_wf t"
  then have "str_len (trace_id t) = 32" "str_len (trace_span_id t) = 16" "str_len (trace_flags t) = 2"
    by (auto simp: trace_wf_def id_field_def intro: len)
  moreover have "str_len (lit ''-'') = 1" "str_len VERSION = 2" by (simp_all add: VERSION_def lit_def str_len_def utf8_width_def)
  ultimately show ?thesis by (simp add: TraceContext_to_header_def)
qed

text \<open>The bytes of a random UUID: sixteen, with the version in the high half of the seventh.\<close>

definition uuid_v4 :: "bytes \<Rightarrow> bool" where
  "uuid_v4 bs = (length bs = 16 \<and> drop_bit 4 (bs ! 6) = 4)"

lemma hex_digit_lower: "unat n < 16 \<Longrightarrow> lower_hex (hex_digit n)"
  by (auto simp: hex_digit_def lower_hex_def is_ascii_digit_def)

lemma hex_encode_field: "hex_field (2 * length bs) (hex_encode bs)"
proof -
  have lt: "unat (drop_bit 4 b) < 16" "unat (and b 15) < 16" for b :: byte
    using unsigned_less [of b, where ?'a = nat] by (simp_all add: nibbles)
  show ?thesis by (induction bs) (auto simp: hex_field_def hex_encode_def hex_digit_lower lt)
qed

lemma TraceContext_generate_wf:
  assumes "uuid_v4 u" and "length v = 16"
  shows "trace_wf (TraceContext_generate u v)"
proof -
  let ?span = "hex_encode (take 8 v)"
  have span: "hex_field 16 ?span" using hex_encode_field [of "take 8 v"] assms(2) by simp
  have fresh: "hex_field 16 (lit ''1'' @ drop 1 ?span)"
    using span by (auto simp: hex_field_def lit_def lower_hex_def is_ascii_digit_def dest: in_set_dropD)
  have "id_field 16 (trace_span_id (TraceContext_generate u v))"
    using span fresh by (auto simp: id_field_def TraceContext_generate_def Let_def list_all_iff lit_def)
  moreover have "id_field 32 (trace_id (TraceContext_generate u v))"
  proof -
    have "u ! 6 \<in> set u" "hex_digit (drop_bit 4 (u ! 6)) = 52"
      using assms(1) by (auto simp: uuid_v4_def hex_digit_def)
    then have "52 \<in> set (hex_encode u)" by (force simp: hex_encode_def)
    moreover have "hex_field 32 (hex_encode u)" using hex_encode_field [of u] assms(1) by (simp add: uuid_v4_def)
    ultimately show ?thesis by (auto simp: id_field_def TraceContext_generate_def Let_def intro!: bexI [of _ 52])
  qed
  moreover have "hex_field 2 (trace_flags (TraceContext_generate u v))"
    by (simp add: TraceContext_generate_def Let_def hex_field_def lit_def lower_hex_def is_ascii_digit_def)
  ultimately show ?thesis by (simp add: trace_wf_def)
qed

section \<open>Properties\<close>

text \<open>
  C40. Trace contexts survive the wire: whatever header is accepted, the context read from it
  writes a header of 55 bytes that reads back as the same context, also when a later version
  appends further fields; and a generated context reads back as itself.
\<close>

theorem traceparent_roundtrip:
  "TraceContext_parse header = Inr t \<Longrightarrow> future = [] \<or> hd future = 45 \<Longrightarrow> uuid_v4 u \<Longrightarrow> uuid_v4 v \<Longrightarrow>
     TraceContext_parse (TraceContext_to_header t @ future) = Inr t \<and> str_len (TraceContext_to_header t) = 55 \<and>
     TraceContext_parse (TraceContext_to_header (TraceContext_generate u v)) = Inr (TraceContext_generate u v)"
  using parse_header [of _ "[]"] by (auto simp: parse_header header_length TraceContext_parse_wf TraceContext_generate_wf uuid_v4_def)

definition demo_uuid :: bytes where
  "demo_uuid = replicate 6 0 @ [64] @ replicate 9 0"

theorem traceparent_roundtrip_witness:
  "TraceContext_parse (TraceContext_to_header (TraceContext_generate demo_uuid demo_uuid) @ lit ''-later'') =
     Inr (TraceContext_generate demo_uuid demo_uuid)"
proof -
  have "demo_uuid ! 6 = 64" "length demo_uuid = 16" by (simp_all add: demo_uuid_def numeral_eq_Suc)
  then have u: "uuid_v4 demo_uuid" by (simp add: uuid_v4_def)
  then have "length demo_uuid = 16" by (simp add: uuid_v4_def)
  then have "TraceContext_parse (TraceContext_to_header (TraceContext_generate demo_uuid demo_uuid)) =
      Inr (TraceContext_generate demo_uuid demo_uuid)"
    using parse_header [of _ "[]"] TraceContext_generate_wf [OF u] by simp
  from traceparent_roundtrip [OF this _ u u] show ?thesis by (simp add: lit_def)
qed

end
