(* ===== verification/Definition_Documents.thy ===== *)
theory Definition_Documents
  imports Ceremony_Definition
begin

text \<open>
  Reading definitions from documents (\<open>choreo-adapters/src/yaml\<close>): each document struct with its
  conversion into the domain, the draft they add up to, and the sources of definitions.  The YAML
  reader and the file system are arguments.  Shown is that a published document grants exactly the
  permissions its roles list.
\<close>

section \<open>Splitting\<close>

text \<open>\<open>str::split\<close> at a character: at least one part.\<close>

fun split_all :: "nat \<Rightarrow> rstr \<Rightarrow> rstr list" where
  "split_all c [] = [[]]"
| "split_all c (x # xs) =
     (if x = c then [] # split_all c xs
      else case split_all c xs of [] \<Rightarrow> [[x]] | w # ws \<Rightarrow> (x # w) # ws)"

section \<open>The documents\<close>

record ceremony_state_document =
  sdoc_id :: rstr
  sdoc_initial :: bool
  sdoc_terminal :: bool

definition CeremonyStateDocument_into_domain :: "ceremony_state_document \<Rightarrow> ceremony_state outcome" where
  "CeremonyStateDocument_into_domain doc =
     (if sdoc_initial doc \<and> sdoc_terminal doc
      then Inl (InvariantViolated ''ceremony state cannot be both initial and terminal'')
      else map_ok (\<lambda>sid. \<lparr>state_id = sid,
          state_kind = (if sdoc_initial doc then Initial else if sdoc_terminal doc then Terminal else Intermediate)\<rparr>)
        (StateId_new (sdoc_id doc)))"

record ceremony_transition_document =
  tdoc_from :: rstr
  tdoc_to :: rstr
  tdoc_trigger :: rstr
  tdoc_guards :: "rstr list"

definition CeremonyTransitionDocument_into_domain :: "ceremony_transition_document \<Rightarrow> ceremony_transition outcome" where
  "CeremonyTransitionDocument_into_domain doc =
     and_then (StateId_new (tdoc_from doc)) (\<lambda>src.
     and_then (StateId_new (tdoc_to doc)) (\<lambda>dst.
     and_then (TransitionTrigger_new (tdoc_trigger doc)) (\<lambda>trigger.
     and_then (try_map GuardName_new (tdoc_guards doc)) (\<lambda>guards.
     CeremonyTransition_new src dst trigger guards))))"

record retry_policy_document =
  rpdoc_max_attempts :: "32 word"
  rpdoc_backoff_seconds :: "64 word"

definition RetryPolicyDocument_into_domain :: "retry_policy_document \<Rightarrow> retry_policy outcome" where
  "RetryPolicyDocument_into_domain doc =
     map_ok (\<lambda>attempts. \<lparr>max_attempts = attempts, backoff = sat_mul (rpdoc_backoff_seconds doc) 1000\<rparr>)
       (StepAttempt_new (rpdoc_max_attempts doc))"

definition RetryPoliciesDocument_default_policy :: "retry_policy_document option \<Rightarrow> retry_policy outcome" where
  "RetryPoliciesDocument_default_policy doc =
     (case doc of None \<Rightarrow> Inr RetryPolicy_single_attempt | Some p \<Rightarrow> RetryPolicyDocument_into_domain p)"

definition CeremonyTimeoutsDocument_default_step_timeout :: "64 word option \<Rightarrow> duration_ms option outcome" where
  "CeremonyTimeoutsDocument_default_step_timeout step_default =
     (case step_default of
        None \<Rightarrow> Inr None
      | Some seconds \<Rightarrow> if 0 < seconds then map_ok Some (StepTimeout_new (sat_mul seconds 1000)) else Inr None)"

record ceremony_step_document =
  stdoc_id :: rstr
  stdoc_state :: rstr
  stdoc_handler :: rstr
  stdoc_config :: "(rstr, json) btree_map"

definition CeremonyStepDocument_into_domain ::
    "ceremony_step_document \<Rightarrow> retry_policy \<Rightarrow> duration_ms option \<Rightarrow> ceremony_step outcome" where
  "CeremonyStepDocument_into_domain doc policy timeout =
     and_then (StepId_new (stdoc_id doc)) (\<lambda>sid.
     and_then (StateId_new (stdoc_state doc)) (\<lambda>state.
     and_then (StepHandlerKind_new (stdoc_handler doc)) (\<lambda>kind.
     and_then (Attributes_new (stdoc_config doc)) (\<lambda>config.
     Inr \<lparr>step_id = sid, step_state_id = state, step_handler_kind = kind, step_handler_config = config,
          step_retry_policy = policy, step_timeout = timeout\<rparr>))))"

record ceremony_guard_document =
  gdoc_type :: rstr
  gdoc_check :: rstr

definition parse_step_status_guard :: "rstr \<Rightarrow> guard_condition outcome" where
  "parse_step_status_guard check =
     (let parts = split_all 58 check in
      if length parts \<noteq> 3 \<or> parts ! 0 \<noteq> lit ''step_status''
      then Inl (InvariantViolated ''unsupported ceremony guard check'')
      else
        and_then (StepId_new (parts ! 1)) (\<lambda>sid.
        and_then (StepStatus_try_from (parts ! 2)) (\<lambda>status.
        Inr (StepStatus sid status))))"

definition CeremonyGuardDocument_into_condition :: "ceremony_guard_document \<Rightarrow> guard_condition outcome" where
  "CeremonyGuardDocument_into_condition doc =
     (if gdoc_type doc = lit ''human'' \<or> gdoc_check doc = lit ''manual_approval'' then Inr HumanApproval
      else if gdoc_check doc = lit ''all_steps_completed'' then Inr AllStepsCompleted
      else parse_step_status_guard (gdoc_check doc))"

definition CeremonyGuardDocument_into_domain :: "ceremony_guard_document \<Rightarrow> rstr \<Rightarrow> ceremony_guard outcome" where
  "CeremonyGuardDocument_into_domain doc name =
     and_then (CeremonyGuardDocument_into_condition doc) (\<lambda>condition.
     and_then (GuardName_new name) (\<lambda>n.
     Inr \<lparr>guard_name = n, guard_condition = condition\<rparr>))"

record ceremony_inputs_document =
  idoc_required :: "rstr list"
  idoc_optional :: "rstr list"

definition CeremonyInputsDocument_into_domain ::
    "ceremony_inputs_document \<Rightarrow> ceremony_input_definition list outcome" where
  "CeremonyInputsDocument_into_domain doc =
     and_then (try_map (\<lambda>name. map_ok (\<lambda>n. \<lparr>input_name = n, input_requirement = Required\<rparr>) (InputName_new name))
       (idoc_required doc)) (\<lambda>required.
     and_then (try_map (\<lambda>name. map_ok (\<lambda>n. \<lparr>input_name = n, input_requirement = Optional\<rparr>) (InputName_new name))
       (idoc_optional doc)) (\<lambda>opt.
     Inr (required @ opt)))"

record ceremony_role_document =
  rdoc_id :: rstr
  rdoc_allowed_actions :: "rstr list"

definition speculative_role_action :: "rstr \<Rightarrow> role_action outcome" where
  "speculative_role_action raw =
     (case StepId_new raw of
        Inr sid \<Rightarrow> Inr (Act_Step sid)
      | Inl _ \<Rightarrow> map_ok Act_Transition (TransitionTrigger_new raw))"

definition to_role_action :: "rstr \<Rightarrow> rstr btree_set \<Rightarrow> rstr btree_set \<Rightarrow> role_action outcome" where
  "to_role_action raw step_ids transition_triggers =
     (case (list_ex (\<lambda>s. s = raw) step_ids, list_ex (\<lambda>t. t = raw) transition_triggers, RoleAction_from_capability_label raw) of
        (True, False, None) \<Rightarrow> map_ok Act_Step (StepId_new raw)
      | (False, True, None) \<Rightarrow> map_ok Act_Transition (TransitionTrigger_new raw)
      | (False, False, Some capability) \<Rightarrow> Inr capability
      | (False, False, None) \<Rightarrow> speculative_role_action raw
      | _ \<Rightarrow> Inl (InvariantViolated ''ceremony role action is ambiguous''))"

definition CeremonyRoleDocument_into_domain ::
    "ceremony_role_document \<Rightarrow> rstr btree_set \<Rightarrow> rstr btree_set \<Rightarrow> ceremony_role outcome" where
  "CeremonyRoleDocument_into_domain doc step_ids transition_triggers =
     and_then (RoleId_new (rdoc_id doc)) (\<lambda>rid.
     and_then (try_map (\<lambda>action. to_role_action action step_ids transition_triggers) (rdoc_allowed_actions doc)) (\<lambda>actions.
     CeremonyRole_new rid actions))"

record ceremony_definition_document =
  doc_version :: rstr
  doc_name :: rstr
  doc_description :: "rstr option"
  doc_inputs :: ceremony_inputs_document
  doc_outputs :: "(rstr, json) btree_map"
  doc_states :: "ceremony_state_document list"
  doc_transitions :: "ceremony_transition_document list"
  doc_steps :: "ceremony_step_document list"
  doc_guards :: "(rstr, ceremony_guard_document) btree_map"
  doc_roles :: "ceremony_role_document list"
  doc_step_default :: "64 word option"
  doc_retry_default :: "retry_policy_document option"

definition CeremonyDefinitionDocument_into_draft :: "ceremony_definition_document \<Rightarrow> ceremony_definition_draft outcome" where
  "CeremonyDefinitionDocument_into_draft doc =
     and_then (RetryPoliciesDocument_default_policy (doc_retry_default doc)) (\<lambda>policy.
     and_then (CeremonyTimeoutsDocument_default_step_timeout (doc_step_default doc)) (\<lambda>timeout.
     and_then (try_map (\<lambda>step. CeremonyStepDocument_into_domain step policy timeout) (doc_steps doc)) (\<lambda>steps.
     and_then (try_map CeremonyTransitionDocument_into_domain (doc_transitions doc)) (\<lambda>transitions.
     and_then (try_map (\<lambda>(name, guard). CeremonyGuardDocument_into_domain guard name) (doc_guards doc)) (\<lambda>guards.
     and_then (try_map (\<lambda>role. CeremonyRoleDocument_into_domain role (bset_of (map step_id steps))
       (bset_of (map trans_trigger transitions))) (doc_roles doc)) (\<lambda>roles.
     and_then (CeremonyName_new (doc_name doc)) (\<lambda>name.
     and_then (CeremonyVersion_new (doc_version doc)) (\<lambda>version.
     and_then (case doc_description doc of None \<Rightarrow> Inr None | Some text \<Rightarrow> map_ok Some (CeremonyDescription_new text)) (\<lambda>description.
     and_then (CeremonyInputsDocument_into_domain (doc_inputs doc)) (\<lambda>inputs.
     and_then (try_map (\<lambda>n. map_ok (\<lambda>k. \<lparr>output_name = k\<rparr>) (OutputName_new n)) (bt_keys (doc_outputs doc))) (\<lambda>outputs.
     and_then (try_map CeremonyStateDocument_into_domain (doc_states doc)) (\<lambda>states.
     Inr \<lparr>draft_name = name, draft_version = version, draft_description = description, draft_inputs = inputs,
          draft_outputs = outputs, draft_states = states, draft_transitions = transitions, draft_steps = steps,
          draft_guards = guards, draft_roles = roles\<rparr>))))))))))))"

section \<open>Reading\<close>

text \<open>\<open>from_str\<close> is the YAML reader, \<open>read_to_string\<close> the file system; both may fail.\<close>

definition CeremonyDefinitionYaml_parse_draft_str ::
    "(rstr \<Rightarrow> ceremony_definition_document option) \<Rightarrow> rstr \<Rightarrow> ceremony_definition_draft outcome" where
  "CeremonyDefinitionYaml_parse_draft_str from_str raw =
     and_then (ok_or (from_str raw) (InvariantViolated ''invalid ceremony yaml'')) CeremonyDefinitionDocument_into_draft"

definition CeremonyDefinitionYaml_parse_str ::
    "(rstr \<Rightarrow> ceremony_definition_document option) \<Rightarrow> rstr \<Rightarrow> ceremony_definition outcome" where
  "CeremonyDefinitionYaml_parse_str from_str raw =
     and_then (CeremonyDefinitionYaml_parse_draft_str from_str raw) CeremonyDefinitionDraft_publish"

text \<open>A path is the list of its components; \<open>PathBuf\<close> compares component by component.\<close>

type_synonym path_buf = "rstr list"

definition CeremonyDefinitionYaml_parse_path ::
    "(rstr \<Rightarrow> ceremony_definition_document option) \<Rightarrow> (path_buf \<Rightarrow> rstr option) \<Rightarrow> path_buf \<Rightarrow> ceremony_definition outcome" where
  "CeremonyDefinitionYaml_parse_path from_str read_to_string path =
     and_then (ok_or (read_to_string path) (InvariantViolated ''failed to read ceremony yaml''))
       (CeremonyDefinitionYaml_parse_str from_str)"

text \<open>\<open>Path::extension\<close>: what follows the last dot of the file name, unless nothing precedes it.\<close>

definition path_extension :: "path_buf \<Rightarrow> rstr option" where
  "path_extension path =
     (if path = [] \<or> last path = lit ''..'' \<or> 46 \<notin> set (last path) then None
      else let ext = rev (takeWhile (\<lambda>c. c \<noteq> 46) (rev (last path))) in
        if length (last path) = Suc (length ext) then None else Some ext)"

definition is_yaml_path :: "path_buf \<Rightarrow> bool" where
  "is_yaml_path path = (case path_extension path of None \<Rightarrow> False | Some ext \<Rightarrow> ext = lit ''yaml'' \<or> ext = lit ''yml'')"

definition FileSystemCeremonyDefinitionSource_new :: "path_buf list \<Rightarrow> path_buf list" where
  "FileSystemCeremonyDefinitionSource_new paths = sort paths"

text \<open>The directory listing is \<open>None\<close> when it fails, and so is an entry that cannot be read.\<close>

definition FileSystemCeremonyDefinitionSource_from_directory :: "path_buf option list option \<Rightarrow> path_buf list outcome" where
  "FileSystemCeremonyDefinitionSource_from_directory listing =
     and_then (ok_or listing (InvariantViolated ''failed to read ceremony yaml directory'')) (\<lambda>entries.
     map_ok (\<lambda>paths. FileSystemCeremonyDefinitionSource_new (filter is_yaml_path paths))
       (try_map (\<lambda>entry. ok_or entry (InvariantViolated ''failed to read ceremony yaml directory entry'')) entries))"

definition FileSystemCeremonyDefinitionSource_load ::
    "(rstr \<Rightarrow> ceremony_definition_document option) \<Rightarrow> (path_buf \<Rightarrow> rstr option) \<Rightarrow> path_buf list
      \<Rightarrow> ceremony_definition list outcome" where
  "FileSystemCeremonyDefinitionSource_load from_str read_to_string paths =
     try_map (CeremonyDefinitionYaml_parse_path from_str read_to_string) paths"

section \<open>Guard checks\<close>

lemma split_all_mark: "c \<notin> set s \<Longrightarrow> split_all c (s @ c # t) = s # split_all c t"
  by (induction s) auto

lemma split_all_plain: "c \<notin> set s \<Longrightarrow> split_all c s = [s]"
  by (induction s) auto

fun status_text :: "step_status \<Rightarrow> string" where
  "status_text Pending = ''PENDING''"
| "status_text InProgress = ''IN_PROGRESS''"
| "status_text Completed = ''COMPLETED''"
| "status_text Failed = ''FAILED''"
| "status_text WaitingForHuman = ''WAITING_FOR_HUMAN''"
| "status_text Cancelled = ''CANCELLED''"

text \<open>Every guard on the status of a step can be written, and reads back as itself.\<close>

lemma step_status_check_reads:
  assumes "StepId_new sid = Inr sid"
  shows "parse_step_status_guard (lit ''step_status'' @ 58 # sid @ 58 # lit (status_text status)) = Inr (StepStatus sid status)"
proof -
  have "58 \<notin> set sid"
  proof
    assume "58 \<in> set sid"
    moreover have "\<forall>c \<in> set sid. \<not> not_identifier_char c"
      using assms unfolding StepId_new_def checked_text_eq_Inr canonical_text_def by metis
    ultimately show False by (force simp: not_identifier_char_def is_ascii_lowercase_def is_ascii_digit_def)
  qed
  moreover have "58 \<notin> set (lit ''step_status'')" "58 \<notin> set (lit (status_text status))"
    by (simp add: lit_def) (cases status; simp add: lit_def)
  moreover have "StepStatus_try_from (lit (status_text status)) = Inr status"
    by (cases status) (simp_all add: StepStatus_try_from_def lit_def)
  ultimately show ?thesis using assms
    by (simp add: parse_step_status_guard_def split_all_mark split_all_plain numeral_2_eq_2)
qed

section \<open>What a document grants\<close>

text \<open>What a listed action means in the published definition.\<close>

fun grants :: "ceremony_definition \<Rightarrow> rstr \<Rightarrow> role_action \<Rightarrow> bool" where
  "grants d raw (Act_Step sid) \<longleftrightarrow> trim raw = sid \<and> bt_contains_key (def_steps d) sid"
| "grants d raw (Act_Transition t) \<longleftrightarrow>
     trim raw = t \<and> t \<in> trans_trigger ` set (def_transitions d) \<and> \<not> bt_contains_key (def_steps d) t"
| "grants d raw Act_RequestIntervention \<longleftrightarrow> raw = lit ''request_intervention''"
| "grants d raw Act_RespondToIntervention \<longleftrightarrow> raw = lit ''respond_to_intervention''"

lemma StepId_new_Inr: "StepId_new raw = Inr s \<longleftrightarrow> s = trim raw \<and> canonical_text None not_identifier_char (trim raw)"
  by (simp add: StepId_new_def checked_text_eq_Inr)

lemma TransitionTrigger_new_Inr:
  "TransitionTrigger_new raw = Inr s \<longleftrightarrow> s = trim raw \<and> canonical_text None is_control (trim raw)"
  by (simp add: TransitionTrigger_new_def checked_text_eq_Inr)

text \<open>Labels of capabilities are texts without surrounding space.\<close>

lemma capability_trimmed: "RoleAction_from_capability_label raw = Some a \<Longrightarrow> trim raw = raw"
  by (auto simp: RoleAction_from_capability_label_def split: if_splits)
    (rule trim_id; simp add: lit_def is_whitespace_def)+

lemma no_capability:
  "RoleAction_from_capability_label raw = None \<longleftrightarrow> raw \<noteq> lit ''request_intervention'' \<and> raw \<noteq> lit ''respond_to_intervention''"
  by (simp add: RoleAction_from_capability_label_def)

text \<open>
  Reading one action, against sets of ids without surrounding space: where the result is declared,
  it is what the label means.
\<close>

lemma to_role_action_meaning:
  assumes "to_role_action raw sids trs = Inr a"
    and "\<And>s. s \<in> set sids \<Longrightarrow> trim s = s \<and> canonical_text None not_identifier_char s"
    and "\<And>t. t \<in> set trs \<Longrightarrow> trim t = t"
    and "\<And>s. a = Act_Step s \<Longrightarrow> s \<in> set sids" and "\<And>t. a = Act_Transition t \<Longrightarrow> t \<in> set trs"
  shows "a = b \<longleftrightarrow> (case b of Act_Step s \<Rightarrow> trim raw = s \<and> s \<in> set sids
    | Act_Transition t \<Rightarrow> trim raw = t \<and> t \<in> set trs \<and> t \<notin> set sids
    | Act_RequestIntervention \<Rightarrow> raw = lit ''request_intervention''
    | Act_RespondToIntervention \<Rightarrow> raw = lit ''respond_to_intervention'')"
proof (cases "raw \<in> set sids")
  case True
  then have "raw \<notin> set trs" "RoleAction_from_capability_label raw = None" and a: "a = Act_Step raw"
    using assms(1,2) by (auto simp: to_role_action_def list_ex_iff StepId_new_Inr result_simps split: bool.splits option.splits)
  then have "raw \<noteq> lit ''request_intervention''" "raw \<noteq> lit ''respond_to_intervention''"
    by (simp_all add: no_capability)
  with a True assms(2) [OF True] show ?thesis by (cases b) auto
next
  case no_step: False
  show ?thesis
  proof (cases "raw \<in> set trs")
    case True
    then have "RoleAction_from_capability_label raw = None" and a: "a = Act_Transition raw"
      using assms(1,3) no_step
      by (auto simp: to_role_action_def list_ex_iff TransitionTrigger_new_Inr result_simps split: bool.splits option.splits)
    then have "raw \<noteq> lit ''request_intervention''" "raw \<noteq> lit ''respond_to_intervention''"
      by (simp_all add: no_capability)
    with a True no_step assms(3) [OF True] show ?thesis by (cases b) auto
  next
    case no_trigger: False
    show ?thesis
    proof (cases "RoleAction_from_capability_label raw")
      case (Some capability)
      then have "a = capability" using assms(1) no_step no_trigger by (simp add: to_role_action_def list_ex_iff)
      moreover have "trim raw = raw" using Some by (rule capability_trimmed)
      ultimately show ?thesis using Some no_step no_trigger
        by (cases b) (auto simp: RoleAction_from_capability_label_def lit_def split: if_splits)
    next
      case None
      then have spec: "speculative_role_action raw = Inr a" and raw: "raw \<noteq> lit ''request_intervention''" "raw \<noteq> lit ''respond_to_intervention''"
        using assms(1) no_step no_trigger None by (auto simp: to_role_action_def list_ex_iff no_capability)
      show ?thesis
      proof (cases "canonical_text None not_identifier_char (trim raw)")
        case True
        then have "a = Act_Step (trim raw)" using spec StepId_new_Inr [of raw "trim raw"] by (simp add: speculative_role_action_def)
        with assms(4) raw show ?thesis by (cases b) auto
      next
        case False
        then have "\<nexists>s. StepId_new raw = Inr s" by (simp add: StepId_new_Inr)
        then have a: "a = Act_Transition (trim raw)"
          using spec by (auto simp: speculative_role_action_def TransitionTrigger_new_Inr result_simps split: sum.splits)
        moreover have "trim raw \<notin> set sids" using False assms(2) by blast
        ultimately show ?thesis using assms(5) raw by (cases b) auto
      qed
    qed
  qed
qed

text \<open>What publishing keeps of the draft.\<close>

lemma publish_parts:
  assumes "CeremonyDefinitionDraft_publish draft = Inr d"
  shows "definition_wf d" and "def_transitions d = draft_transitions draft"
    and "collect_roles (draft_roles draft) = Inr (def_roles d)"
    and "bt_contains_key (def_steps d) sid \<longleftrightarrow> sid \<in> step_id ` set (draft_steps draft)"
proof -
  note new = assms [unfolded CeremonyDefinitionDraft_publish_def]
  show "definition_wf d" by (rule CeremonyDefinition_new_wf(1) [OF new])
  show "def_transitions d = draft_transitions draft" "collect_roles (draft_roles draft) = Inr (def_roles d)"
    using new by (auto simp: CeremonyDefinition_new_def result_simps Let_def)
  show "bt_contains_key (def_steps d) sid \<longleftrightarrow> sid \<in> step_id ` set (draft_steps draft)"
    using steps.collected_get [OF CeremonyDefinition_new_wf(3) [OF new]] by (auto simp: bt_contains_key_def)
qed

text \<open>What reading a document keeps of its steps, transitions and roles.\<close>

lemma into_draft_parts:
  assumes "CeremonyDefinitionDocument_into_draft doc = Inr draft"
  obtains policy timeout where "try_map (\<lambda>step. CeremonyStepDocument_into_domain step policy timeout) (doc_steps doc) = Inr (draft_steps draft)"
    and "try_map CeremonyTransitionDocument_into_domain (doc_transitions doc) = Inr (draft_transitions draft)"
    and "try_map (\<lambda>role. CeremonyRoleDocument_into_domain role (bset_of (map step_id (draft_steps draft)))
       (bset_of (map trans_trigger (draft_transitions draft)))) (doc_roles doc) = Inr (draft_roles draft)"
  using assms by (auto simp: CeremonyDefinitionDocument_into_draft_def result_simps)

lemma draft_texts:
  assumes "CeremonyDefinitionDocument_into_draft doc = Inr draft"
  shows "s \<in> step_id ` set (draft_steps draft) \<Longrightarrow> trim s = s \<and> canonical_text None not_identifier_char s"
    and "t \<in> trans_trigger ` set (draft_transitions draft) \<Longrightarrow> trim t = t"
proof -
  obtain policy timeout where steps: "try_map (\<lambda>step. CeremonyStepDocument_into_domain step policy timeout) (doc_steps doc) = Inr (draft_steps draft)"
    and transitions: "try_map CeremonyTransitionDocument_into_domain (doc_transitions doc) = Inr (draft_transitions draft)"
    and "try_map (\<lambda>role. CeremonyRoleDocument_into_domain role (bset_of (map step_id (draft_steps draft)))
       (bset_of (map trans_trigger (draft_transitions draft)))) (doc_roles doc) = Inr (draft_roles draft)"
    by (rule into_draft_parts [OF assms])
  show "trim s = s \<and> canonical_text None not_identifier_char s" if "s \<in> step_id ` set (draft_steps draft)"
    using that try_map_members [OF steps]
    by (fastforce simp: CeremonyStepDocument_into_domain_def result_simps StepId_new_Inr)
  show "trim t = t" if "t \<in> trans_trigger ` set (draft_transitions draft)"
    using that try_map_members [OF transitions]
    by (fastforce simp: CeremonyTransitionDocument_into_domain_def CeremonyTransition_new_def result_simps TransitionTrigger_new_Inr)
qed

text \<open>Roles of the document and roles of the definition.\<close>

lemma published_roles:
  assumes "CeremonyDefinitionDocument_into_draft doc = Inr draft" and "CeremonyDefinitionDraft_publish draft = Inr d"
  shows "bt_get (def_roles d) rid = Some role \<longleftrightarrow> role_id role = rid \<and> (\<exists>r \<in> set (doc_roles doc).
    CeremonyRoleDocument_into_domain r (bset_of (map step_id (draft_steps draft)))
      (bset_of (map trans_trigger (draft_transitions draft))) = Inr role)"
proof -
  obtain policy timeout where "try_map (\<lambda>step. CeremonyStepDocument_into_domain step policy timeout) (doc_steps doc) = Inr (draft_steps draft)"
    and "try_map CeremonyTransitionDocument_into_domain (doc_transitions doc) = Inr (draft_transitions draft)"
    and roles: "try_map (\<lambda>role. CeremonyRoleDocument_into_domain role (bset_of (map step_id (draft_steps draft)))
       (bset_of (map trans_trigger (draft_transitions draft)))) (doc_roles doc) = Inr (draft_roles draft)"
    by (rule into_draft_parts [OF assms(1)])
  have "role \<in> set (draft_roles draft) \<longleftrightarrow> (\<exists>r \<in> set (doc_roles doc). CeremonyRoleDocument_into_domain r
      (bset_of (map step_id (draft_steps draft))) (bset_of (map trans_trigger (draft_transitions draft))) = Inr role)"
    using try_map_members [OF roles] by blast
  then show ?thesis using roles.collected_get [OF publish_parts(3) [OF assms(2)]] by blast
qed

text \<open>In the published definition every action of a role is declared.\<close>

lemma published_actions_declared:
  assumes "definition_wf d" and "bt_get (def_roles d) rid = Some role" and "a \<in> set (role_allowed_actions role)"
  shows "a = Act_Step s \<Longrightarrow> bt_contains_key (def_steps d) s"
    and "a = Act_Transition t \<Longrightarrow> t \<in> trans_trigger ` set (def_transitions d)"
proof -
  have "role \<in> snd ` set (def_roles d)" using assms(1,2) by (force simp: definition_wf_def bt_get_iff)
  with assms(1,3) show "a = Act_Step s \<Longrightarrow> bt_contains_key (def_steps d) s"
    and "a = Act_Transition t \<Longrightarrow> t \<in> trans_trigger ` set (def_transitions d)"
    by (fastforce simp: definition_wf_def parts_wf_def CeremonyDefinition_parts_def)+
qed

section \<open>Properties\<close>

text \<open>
  C34. A published document grants exactly the permissions its roles list: the definition has a role
  of some id exactly when a role document has it, and that role may do an action exactly when the
  document lists a label that means it: the id of a declared step, the trigger of a declared
  transition that is not also a step, or the label of a capability.
\<close>

theorem published_document_permissions:
  assumes "CeremonyDefinitionYaml_parse_str from_str raw = Inr d" and "from_str raw = Some doc"
  shows "fst ` set (def_roles d) = (\<lambda>r. trim (rdoc_id r)) ` set (doc_roles doc) \<and>
    (\<forall>r \<in> set (doc_roles doc). \<forall>a. CeremonyDefinition_role_allows d (trim (rdoc_id r)) a \<longleftrightarrow>
      (\<exists>label \<in> set (rdoc_allowed_actions r). grants d label a))"
proof -
  obtain draft where draft: "CeremonyDefinitionDocument_into_draft doc = Inr draft" and d: "CeremonyDefinitionDraft_publish draft = Inr d"
    using assms by (auto simp: CeremonyDefinitionYaml_parse_str_def CeremonyDefinitionYaml_parse_draft_str_def result_simps)
  note roles = published_roles [OF draft d]
  note wf = publish_parts(1) [OF d]
  let ?sids = "bset_of (map step_id (draft_steps draft))" and ?trs = "bset_of (map trans_trigger (draft_transitions draft))"
  have id: "role_id role = trim (rdoc_id r)" if "CeremonyRoleDocument_into_domain r ?sids ?trs = Inr role" for r role
    using that by (auto simp: CeremonyRoleDocument_into_domain_def CeremonyRole_new_def RoleId_new_def checked_text_eq_Inr
        result_simps Let_def split: if_splits)
  obtain policy timeout where "try_map (\<lambda>step. CeremonyStepDocument_into_domain step policy timeout) (doc_steps doc) = Inr (draft_steps draft)"
    and "try_map CeremonyTransitionDocument_into_domain (doc_transitions doc) = Inr (draft_transitions draft)"
    and all_roles: "try_map (\<lambda>role. CeremonyRoleDocument_into_domain role ?sids ?trs) (doc_roles doc) = Inr (draft_roles draft)"
    by (rule into_draft_parts [OF draft])
  have keys: "fst ` set (def_roles d) = (\<lambda>r. trim (rdoc_id r)) ` set (doc_roles doc)"
  proof (intro set_eqI iffI)
    fix k assume "k \<in> fst ` set (def_roles d)"
    then obtain role where "bt_get (def_roles d) k = Some role" using wf by (auto simp: definition_wf_def bt_get_iff)
    then show "k \<in> (\<lambda>r. trim (rdoc_id r)) ` set (doc_roles doc)" unfolding roles using id by force
  next
    fix k assume "k \<in> (\<lambda>r. trim (rdoc_id r)) ` set (doc_roles doc)"
    then obtain r where r: "r \<in> set (doc_roles doc)" "k = trim (rdoc_id r)" by blast
    from try_map_image [OF all_roles r(1)] obtain role where "CeremonyRoleDocument_into_domain r ?sids ?trs = Inr role" by blast
    with r id have "bt_get (def_roles d) k = Some role" unfolding roles by blast
    then show "k \<in> fst ` set (def_roles d)" by (rule bt_get_Some_key)
  qed
  have "CeremonyDefinition_role_allows d (trim (rdoc_id r)) a \<longleftrightarrow> (\<exists>label \<in> set (rdoc_allowed_actions r). grants d label a)"
    if r: "r \<in> set (doc_roles doc)" for r a
  proof -
    from try_map_image [OF all_roles r] obtain role where role: "CeremonyRoleDocument_into_domain r ?sids ?trs = Inr role" by blast
    with r id have get: "bt_get (def_roles d) (trim (rdoc_id r)) = Some role" unfolding roles by blast
    from role obtain actions where actions: "try_map (\<lambda>action. to_role_action action ?sids ?trs) (rdoc_allowed_actions r) = Inr actions"
      and set_actions: "set (role_allowed_actions role) = set actions"
      by (auto simp: CeremonyRoleDocument_into_domain_def CeremonyRole_new_def result_simps Let_def split: if_splits)
    have meaning: "b = a \<longleftrightarrow> grants d label a" if l: "to_role_action label ?sids ?trs = Inr b" and b: "b \<in> set actions" for label b
    proof -
      note decl = published_actions_declared [OF wf get, of b, unfolded set_actions, OF b]
      have "b = a \<longleftrightarrow> (case a of Act_Step s \<Rightarrow> trim label = s \<and> s \<in> set ?sids
        | Act_Transition t \<Rightarrow> trim label = t \<and> t \<in> set ?trs \<and> t \<notin> set ?sids
        | Act_RequestIntervention \<Rightarrow> label = lit ''request_intervention''
        | Act_RespondToIntervention \<Rightarrow> label = lit ''respond_to_intervention'')"
        by (rule to_role_action_meaning [OF l])
          (use draft_texts [OF draft] decl publish_parts(2,4) [OF d] in auto)
      then show ?thesis by (cases a) (simp_all add: publish_parts(2,4) [OF d])
    qed
    show ?thesis
      using try_map_members [OF actions] try_map_image [OF actions] meaning
      by (auto simp: CeremonyDefinition_role_allows_def get CeremonyRole_allows_def set_actions) metis+
  qed
  with keys show ?thesis by blast
qed

text \<open>The example definition as a document.\<close>

definition demo_document :: ceremony_definition_document where
  "demo_document =
     \<lparr>doc_version = CeremonyVersion_v1, doc_name = lit ''demo'', doc_description = None,
      doc_inputs = \<lparr>idoc_required = [], idoc_optional = []\<rparr>, doc_outputs = [],
      doc_states = [\<lparr>sdoc_id = lit ''open'', sdoc_initial = True, sdoc_terminal = False\<rparr>,
        \<lparr>sdoc_id = lit ''shut'', sdoc_initial = False, sdoc_terminal = True\<rparr>],
      doc_transitions = [\<lparr>tdoc_from = lit ''open'', tdoc_to = lit ''shut'', tdoc_trigger = lit ''finish'', tdoc_guards = [lit ''ok'']\<rparr>],
      doc_steps = [\<lparr>stdoc_id = lit ''plan'', stdoc_state = lit ''open'', stdoc_handler = lit ''echo'', stdoc_config = []\<rparr>],
      doc_guards = [(lit ''ok'', \<lparr>gdoc_type = lit ''human'', gdoc_check = []\<rparr>)],
      doc_roles = [\<lparr>rdoc_id = lit ''host'', rdoc_allowed_actions = [lit ''plan'', lit ''finish'', lit ''request_intervention'',
        lit ''respond_to_intervention'']\<rparr>],
      doc_step_default = None, doc_retry_default = Some \<lparr>rpdoc_max_attempts = 2, rpdoc_backoff_seconds = 0\<rparr>\<rparr>"

lemma demo_texts:
  "trim (lit ''open'') = lit ''open''" "trim (lit ''shut'') = lit ''shut''" "trim (lit ''finish'') = lit ''finish''"
  "trim (lit ''ok'') = lit ''ok''" "trim (lit ''plan'') = lit ''plan''" "trim (lit ''echo'') = lit ''echo''"
  "trim (lit ''host'') = lit ''host''" "trim (lit ''demo'') = lit ''demo''" "trim CeremonyVersion_v1 = CeremonyVersion_v1"
  by (rule trim_id; simp add: lit_def CeremonyVersion_v1_def is_whitespace_def)+

lemma demo_document_ids:
  "StateId_new (lit ''open'') = Inr (lit ''open'')" "StateId_new (lit ''shut'') = Inr (lit ''shut'')"
  "TransitionTrigger_new (lit ''finish'') = Inr (lit ''finish'')" "GuardName_new (lit ''ok'') = Inr (lit ''ok'')"
  "StepId_new (lit ''plan'') = Inr (lit ''plan'')" "StepHandlerKind_new (lit ''echo'') = Inr (lit ''echo'')"
  "RoleId_new (lit ''host'') = Inr (lit ''host'')" "CeremonyName_new (lit ''demo'') = Inr (lit ''demo'')"
  "CeremonyVersion_new CeremonyVersion_v1 = Inr CeremonyVersion_v1"
  by (simp_all add: StateId_new_def TransitionTrigger_new_def GuardName_new_def StepId_new_def StepHandlerKind_new_def RoleId_new_def
      CeremonyName_new_def CeremonyVersion_new_def checked_text_eq_Inr canonical_text_def demo_texts)
    (simp_all add: lit_def CeremonyVersion_v1_def is_control_def not_identifier_char_def not_handler_kind_char_def not_version_char_def
      is_ascii_lowercase_def is_ascii_digit_def is_ascii_alphanumeric_def str_len_def utf8_width_def)

lemma demo_role_read:
  "CeremonyRoleDocument_into_domain \<lparr>rdoc_id = lit ''host'', rdoc_allowed_actions = [lit ''plan'', lit ''finish'',
     lit ''request_intervention'', lit ''respond_to_intervention'']\<rparr> [lit ''plan''] [lit ''finish''] = Inr demo_role"
proof -
  have "to_role_action (lit ''plan'') [lit ''plan''] [lit ''finish''] = Inr (Act_Step (lit ''plan''))"
    "to_role_action (lit ''finish'') [lit ''plan''] [lit ''finish''] = Inr (Act_Transition (lit ''finish''))"
    "to_role_action (lit ''request_intervention'') [lit ''plan''] [lit ''finish''] = Inr Act_RequestIntervention"
    "to_role_action (lit ''respond_to_intervention'') [lit ''plan''] [lit ''finish''] = Inr Act_RespondToIntervention"
    using demo_document_ids(3,5) by (simp_all add: to_role_action_def RoleAction_from_capability_label_def lit_def)
  then show ?thesis
    by (simp add: CeremonyRoleDocument_into_domain_def demo_document_ids CeremonyRole_new_def demo_role_def bset_of_def bset_insert_def
        less_eq_role_action_def)
qed

lemma demo_draft:
  "CeremonyDefinitionDocument_into_draft demo_document =
     Inr \<lparr>draft_name = lit ''demo'', draft_version = CeremonyVersion_v1, draft_description = None, draft_inputs = [],
       draft_outputs = [], draft_states = demo_states, draft_transitions = [demo_transition], draft_steps = [demo_step],
       draft_guards = [demo_guard], draft_roles = [demo_role]\<rparr>"
proof -
  have policy: "RetryPoliciesDocument_default_policy (Some \<lparr>rpdoc_max_attempts = 2, rpdoc_backoff_seconds = 0\<rparr>) =
      Inr \<lparr>max_attempts = 2, backoff = 0\<rparr>"
    by (simp add: RetryPoliciesDocument_default_policy_def RetryPolicyDocument_into_domain_def StepAttempt_new_def sat_mul_def)
  have step: "CeremonyStepDocument_into_domain \<lparr>stdoc_id = lit ''plan'', stdoc_state = lit ''open'', stdoc_handler = lit ''echo'',
      stdoc_config = []\<rparr> \<lparr>max_attempts = 2, backoff = 0\<rparr> None = Inr demo_step"
    by (simp add: CeremonyStepDocument_into_domain_def demo_document_ids Attributes_new_def MAX_ATTRIBUTES_KEYS_def demo_step_def)
  have transition: "CeremonyTransitionDocument_into_domain \<lparr>tdoc_from = lit ''open'', tdoc_to = lit ''shut'', tdoc_trigger = lit ''finish'',
      tdoc_guards = [lit ''ok'']\<rparr> = Inr demo_transition"
    by (simp add: CeremonyTransitionDocument_into_domain_def demo_document_ids CeremonyTransition_new_def demo_transition_def bset_of_def bset_insert_def)
  have guard: "CeremonyGuardDocument_into_domain \<lparr>gdoc_type = lit ''human'', gdoc_check = []\<rparr> (lit ''ok'') = Inr demo_guard"
    by (simp add: CeremonyGuardDocument_into_domain_def CeremonyGuardDocument_into_condition_def demo_document_ids demo_guard_def)
  have sets: "bset_of [step_id demo_step] = [lit ''plan'']" "bset_of [trans_trigger demo_transition] = [lit ''finish'']"
    by (simp_all add: bset_of_def bset_insert_def demo_step_def demo_transition_def)
  show ?thesis
    by (simp add: CeremonyDefinitionDocument_into_draft_def demo_document_def policy CeremonyTimeoutsDocument_default_step_timeout_def
        step transition guard sets demo_role_read demo_document_ids CeremonyInputsDocument_into_domain_def CeremonyStateDocument_into_domain_def
        demo_states_def)
qed

theorem published_document_permissions_witness:
  "CeremonyDefinitionYaml_parse_str (\<lambda>_. Some demo_document) [] = Inr demo_definition \<and>
   (CeremonyDefinition_role_allows demo_definition (lit ''host'') (Act_Step (lit ''plan'')) \<longleftrightarrow>
     (\<exists>label \<in> {lit ''plan'', lit ''finish'', lit ''request_intervention'', lit ''respond_to_intervention''}.
       grants demo_definition label (Act_Step (lit ''plan''))))"
proof -
  have parse: "CeremonyDefinitionYaml_parse_str (\<lambda>_. Some demo_document) [] = Inr demo_definition"
    by (simp add: CeremonyDefinitionYaml_parse_str_def CeremonyDefinitionYaml_parse_draft_str_def demo_draft
        CeremonyDefinitionDraft_publish_def demo_new)
  let ?r = "\<lparr>rdoc_id = lit ''host'', rdoc_allowed_actions = [lit ''plan'', lit ''finish'', lit ''request_intervention'',
        lit ''respond_to_intervention'']\<rparr>"
  have "?r \<in> set (doc_roles demo_document)" by (simp add: demo_document_def)
  with published_document_permissions [OF parse refl]
  have "CeremonyDefinition_role_allows demo_definition (trim (rdoc_id ?r)) (Act_Step (lit ''plan'')) \<longleftrightarrow>
      (\<exists>label \<in> set (rdoc_allowed_actions ?r). grants demo_definition label (Act_Step (lit ''plan'')))" by blast
  with parse show ?thesis by (simp add: demo_texts del: grants.simps)
qed

end
