(* ===== verification/Model_Providers.thy ===== *)
theory Model_Providers
  imports Council_Decisions
begin

text \<open>
  Talking to model providers (\<open>choreo-adapters/src/agents\<close>: \<open>prompts.rs\<close>, \<open>openai_compat.rs\<close>,
  \<open>instrument.rs\<close>, \<open>endpoint.rs\<close>; \<open>choreo-core/src/value_objects\<close>: \<open>llm_error_kind.rs\<close>,
  \<open>token_usage.rs\<close>): the prompts, the request and the response of a chat completion, the metrics
  around a call.  The HTTP client, the clock and the pretty printer of JSON are arguments.
\<close>

section \<open>Failures and usage\<close>

datatype llm_error_kind =
    Unauthorized
  | RateLimited
  | BadRequest
  | UpstreamError
  | MalformedBody
  | EmptyContent
  | Timeout
  | Transport

definition LlmErrorKind_from_status :: "nat \<Rightarrow> llm_error_kind" where
  "LlmErrorKind_from_status status =
     (if status = 401 \<or> status = 403 then Unauthorized
      else if status = 429 then RateLimited
      else if 400 \<le> status \<and> status \<le> 499 then BadRequest
      else UpstreamError)"

fun LlmErrorKind_as_label :: "llm_error_kind \<Rightarrow> string" where
  "LlmErrorKind_as_label Unauthorized = ''unauthorized''"
| "LlmErrorKind_as_label RateLimited = ''rate_limited''"
| "LlmErrorKind_as_label BadRequest = ''bad_request''"
| "LlmErrorKind_as_label UpstreamError = ''upstream_error''"
| "LlmErrorKind_as_label MalformedBody = ''malformed_body''"
| "LlmErrorKind_as_label EmptyContent = ''empty_content''"
| "LlmErrorKind_as_label Timeout = ''timeout''"
| "LlmErrorKind_as_label Transport = ''transport''"

record token_usage =
  usage_prompt :: "32 word"
  usage_completion :: "32 word"

section \<open>The world of a call\<close>

text \<open>The calls of the metrics port around providers and judges, in the order they are made.\<close>

datatype provider_metric =
    IncProviderInFlight string
  | DecProviderInFlight string
  | ObserveProviderRequest string string duration_ms
  | RecordProviderError string llm_error_kind
  | RecordProviderTokens string token_usage
  | ObserveJudgeLatency rstr duration_ms
  | RecordJudgeError rstr llm_error_kind
  | RecordJudgeTokens rstr token_usage
  | ObserveJudgeScore rstr score

record 'x provider_world =
  pw_metrics :: "provider_metric list"
  pw_outside :: 'x

definition pw_record :: "provider_metric \<Rightarrow> 'x provider_world \<Rightarrow> 'x provider_world" where
  "pw_record m w = w\<lparr>pw_metrics := pw_metrics w @ [m]\<rparr>"

text \<open>\<open>Instant::elapsed().as_millis() as u64\<close>, instants in nanoseconds.\<close>

definition elapsed_millis :: "nat \<Rightarrow> nat \<Rightarrow> duration_ms" where
  "elapsed_millis started now = of_nat ((now - started) div 1000000)"

text \<open>
  A request either fails, with or without a timeout, or has a response with a status; the body is
  \<open>None\<close> when it does not decode.
\<close>

datatype 'b http_reply = Http_Failed bool | Http_Response nat "'b option"

definition status_is_success :: "nat \<Rightarrow> bool" where
  "status_is_success status = (200 \<le> status \<and> status < 300)"

section \<open>Chat completions\<close>

record error_strings =
  es_unauthorized :: string
  es_rate_limited :: string
  es_bad_request :: string
  es_upstream_error :: string
  es_malformed_body :: string
  es_no_choices :: string
  es_missing_content :: string
  es_empty_content :: string

record chat_message =
  cm_role :: string
  cm_content :: rstr

record chat_request =
  cr_model :: rstr
  cr_max_tokens :: "32 word"
  cr_messages :: "chat_message list"

record chat_usage =
  cu_prompt_tokens :: "32 word"
  cu_completion_tokens :: "32 word"

record chat_response_message =
  crm_content :: "rstr option"
  crm_reasoning :: "rstr option"

record chat_response =
  cres_choices :: "chat_response_message option list"
  cres_usage :: "chat_usage option"

definition nonblank :: "rstr option \<Rightarrow> rstr option" where
  "nonblank content = (case content of None \<Rightarrow> None | Some c \<Rightarrow> if trim c = [] then None else Some c)"

definition extract_text :: "chat_response \<Rightarrow> error_strings \<Rightarrow> rstr outcome" where
  "extract_text resp errs =
     (case cres_choices resp of
        [] \<Rightarrow> Inl (InvariantViolated (es_no_choices errs))
      | None # _ \<Rightarrow> Inl (InvariantViolated (es_missing_content errs))
      | Some message # _ \<Rightarrow>
          (case nonblank (crm_content message) of
             Some text \<Rightarrow> Inr text
           | None \<Rightarrow>
               (case nonblank (crm_reasoning message) of
                  Some reasoning \<Rightarrow> Inr reasoning
                | None \<Rightarrow> Inl (InvariantViolated (es_empty_content errs)))))"

definition classify_error :: "nat \<Rightarrow> error_strings \<Rightarrow> domain_error" where
  "classify_error status errs =
     InvariantViolated
       (if status = 401 \<or> status = 403 then es_unauthorized errs
        else if status = 429 then es_rate_limited errs
        else if 400 \<le> status \<and> status \<le> 499 then es_bad_request errs
        else es_upstream_error errs)"

definition trim_end_slashes :: "rstr \<Rightarrow> rstr" where
  "trim_end_slashes s = rev (dropWhile (\<lambda>c. c = 47) (rev s))"

definition completions_url :: "rstr \<Rightarrow> rstr" where
  "completions_url endpoint = trim_end_slashes endpoint @ lit ''/v1/chat/completions''"

definition chat_body :: "rstr \<Rightarrow> 32 word \<Rightarrow> rstr \<Rightarrow> rstr \<Rightarrow> chat_request" where
  "chat_body model max_tokens system user =
     \<lparr>cr_model = model, cr_max_tokens = max_tokens,
      cr_messages = [\<lparr>cm_role = ''system'', cm_content = system\<rparr>, \<lparr>cm_role = ''user'', cm_content = user\<rparr>]\<rparr>"

text \<open>
  The client: sends a body to a URL with headers.  \<open>'b\<close> is the body, \<open>'r\<close> the decoded response.
\<close>

type_synonym ('x, 'b, 'r) http_post = "rstr \<Rightarrow> (string \<times> rstr) list \<Rightarrow> 'b \<Rightarrow> 'x \<Rightarrow> 'r http_reply \<times> 'x"

text \<open>
  The exchange that the chat agents and both judges make: send, check the status, decode, take
  the text, account for failures with \<open>on_error\<close> and for tokens with \<open>on_tokens\<close>.
\<close>

definition exchange ::
    "('x, 'b, 'r) http_post \<Rightarrow> (llm_error_kind \<Rightarrow> provider_metric) \<Rightarrow> (token_usage \<Rightarrow> provider_metric)
      \<Rightarrow> string \<Rightarrow> (nat \<Rightarrow> domain_error) \<Rightarrow> string \<Rightarrow> ('r \<Rightarrow> rstr outcome) \<Rightarrow> ('r \<Rightarrow> token_usage option)
      \<Rightarrow> rstr \<Rightarrow> (string \<times> rstr) list \<Rightarrow> 'b \<Rightarrow> ('x provider_world, rstr) effect" where
  "exchange post on_error on_tokens failed classify malformed extract usage url headers body w =
     (case post url headers body (pw_outside w) of (reply, x) \<Rightarrow>
        let w1 = w\<lparr>pw_outside := x\<rparr> in
        (case reply of
           Http_Failed timed_out \<Rightarrow>
             (Inl (InvariantViolated failed), pw_record (on_error (if timed_out then Timeout else Transport)) w1)
         | Http_Response status parsed \<Rightarrow>
             if \<not> status_is_success status
             then (Inl (classify status), pw_record (on_error (LlmErrorKind_from_status status)) w1)
             else (case parsed of
                 None \<Rightarrow> (Inl (InvariantViolated malformed), pw_record (on_error MalformedBody) w1)
               | Some resp \<Rightarrow>
                   (case extract resp of
                      Inl e \<Rightarrow> (Inl e, pw_record (on_error EmptyContent) w1)
                    | Inr text \<Rightarrow>
                        (Inr text, case usage resp of None \<Rightarrow> w1 | Some u \<Rightarrow> pw_record (on_tokens u) w1)))))"

definition chat_usage_of :: "chat_response \<Rightarrow> token_usage option" where
  "chat_usage_of resp =
     map_option (\<lambda>u. \<lparr>usage_prompt = cu_prompt_tokens u, usage_completion = cu_completion_tokens u\<rparr>) (cres_usage resp)"

text \<open>The guard around a provider call: counted in when made, timed and counted out when dropped.\<close>

definition with_call_guard ::
    "('x \<Rightarrow> nat) \<Rightarrow> string \<Rightarrow> string \<Rightarrow> ('x provider_world, 'a) effect \<Rightarrow> ('x provider_world, 'a) effect" where
  "with_call_guard instant provider operation m w =
     (let w1 = pw_record (IncProviderInFlight provider) w; started = instant (pw_outside w1) in
      case m w1 of (r, w2) \<Rightarrow>
        (r, pw_record (DecProviderInFlight provider)
          (pw_record (ObserveProviderRequest provider operation (elapsed_millis started (instant (pw_outside w2)))) w2)))"

definition bearer_auth :: "rstr \<Rightarrow> string \<times> rstr" where
  "bearer_auth token = (''authorization'', lit ''Bearer '' @ token)"

section \<open>Endpoints\<close>

text \<open>\<open>scheme\<close> is \<open>Url::parse\<close> followed by the scheme of the URL.\<close>

definition validate_provider_endpoint :: "(rstr \<Rightarrow> rstr option) \<Rightarrow> string \<Rightarrow> rstr \<Rightarrow> rstr outcome" where
  "validate_provider_endpoint scheme field raw =
     (let value = trim raw in
      if value = [] then Inl (EmptyField field)
      else case scheme value of
        None \<Rightarrow> Inl (InvariantViolated ''provider endpoint must be a valid absolute URL'')
      | Some s \<Rightarrow>
          if \<not> (s = lit ''http'' \<or> s = lit ''https'')
          then Inl (InvariantViolated ''provider endpoint scheme must be http or https'')
          else Inr value)"

section \<open>Prompts\<close>

fun text_lines :: "rstr list \<Rightarrow> rstr" where
  "text_lines [] = []"
| "text_lines [l] = l"
| "text_lines (l # m # ls) = l @ 10 # text_lines (m # ls)"

text \<open>The pretty printer of the three values that prompts show; \<open>None\<close> when it fails.\<close>

record pretty_printer =
  pp_rubric :: "rubric \<Rightarrow> rstr option"
  pp_bundle :: "external_context_bundle \<Rightarrow> rstr option"
  pp_contract :: "output_contract \<Rightarrow> rstr option"

definition or_unrepresentable :: "rstr option \<Rightarrow> rstr" where
  "or_unrepresentable t = (case t of Some s \<Rightarrow> s | None \<Rightarrow> lit ''(unrepresentable)'')"

definition who_you_are :: "rstr \<Rightarrow> rstr \<Rightarrow> rstr list" where
  "who_you_are aid specialty =
     [lit ''You are a specialist agent in the Underpass Choreographer.'',
      lit ''Your agent id is \"'' @ aid @ lit ''\". Your specialty is \"'' @ specialty @ lit ''\".'', []]"

definition system_prompt_generate :: "rstr \<Rightarrow> rstr \<Rightarrow> rstr" where
  "system_prompt_generate aid specialty =
     text_lines (who_you_are aid specialty @
       [lit ''Role:'',
        lit ''- Propose a solution to the task, within your specialty.'',
        lit ''- Keep the proposal concrete, concise, and self-contained.'',
        lit ''- Do not claim capabilities you lack, do not invent facts.'',
        [],
        lit ''Output contract:'',
        lit ''- Answer only with the proposal body. No preamble, no signature.''])"

definition system_prompt_critique :: "rstr \<Rightarrow> rstr \<Rightarrow> rstr" where
  "system_prompt_critique aid specialty =
     text_lines (who_you_are aid specialty @
       [lit ''Role:'',
        lit ''- Critique a peer'' @ [39] @ lit ''s proposal for this task.'',
        lit ''- Flag concrete weaknesses; do not restate the proposal.'',
        lit ''- Prioritise critique that the peer can act on in a revision.'',
        [],
        lit ''Output contract:'',
        lit ''- Answer only with the critique body. No preamble.''])"

definition system_prompt_revise :: "rstr \<Rightarrow> rstr \<Rightarrow> rstr" where
  "system_prompt_revise aid specialty =
     text_lines (who_you_are aid specialty @
       [lit ''Role:'',
        lit ''- Revise your own proposal in response to the supplied critique.'',
        lit ''- Address the concrete points raised; keep what already works.'',
        [],
        lit ''Output contract:'',
        lit ''- Answer only with the revised proposal body. No preamble.'',
        lit ''- If the previous proposal is a JSON object, answer only with a revised JSON object.'',
        lit ''- Do not wrap JSON in markdown fences, and do not add prose outside the JSON object.''])"

definition serialize_rubric :: "pretty_printer \<Rightarrow> task_constraints \<Rightarrow> rstr" where
  "serialize_rubric pp c = (if tc_rubric c = [] then lit ''(empty)'' else or_unrepresentable (pp_rubric pp (tc_rubric c)))"

definition serialize_external_context :: "pretty_printer \<Rightarrow> external_context_bundle option \<Rightarrow> rstr option" where
  "serialize_external_context pp bundle = map_option (\<lambda>b. or_unrepresentable (pp_bundle pp b)) bundle"

definition serialize_output_contract :: "pretty_printer \<Rightarrow> output_contract option \<Rightarrow> rstr option" where
  "serialize_output_contract pp contract = map_option (\<lambda>c. or_unrepresentable (pp_contract pp c)) contract"

definition user_prompt_generate :: "pretty_printer \<Rightarrow> draft_request \<Rightarrow> rstr" where
  "user_prompt_generate pp request =
     text_lines ([lit ''Task:'', dr_task request, [], lit ''Rubric (opaque constraints to apply):'',
         serialize_rubric pp (dr_constraints request)] @
       (case serialize_external_context pp (dr_external_context request) of
          None \<Rightarrow> []
        | Some context \<Rightarrow> [[], lit ''External context bundle (typed, caller-supplied evidence):'', context]) @
       (case serialize_output_contract pp (tc_output_contract (dr_constraints request)) of
          None \<Rightarrow> []
        | Some contract \<Rightarrow> [[], lit ''Structured output contract:'', contract, [],
            lit ''Answer only with a JSON object that satisfies this contract. Do not wrap the object in markdown code fences.'']) @
       [[], if dr_diverse request
            then lit ''You are one of several peers; propose a distinctive angle rather than a safest-seeming default.''
            else lit ''Propose the option you judge best on the merits.'',
        [], lit ''Produce your proposal now.''])"

definition user_prompt_critique :: "pretty_printer \<Rightarrow> rstr \<Rightarrow> task_constraints \<Rightarrow> rstr" where
  "user_prompt_critique pp peer_content c =
     text_lines ([lit ''Peer proposal to critique:'', lit ''---'', peer_content, lit ''---'', [],
         lit ''Rubric (opaque constraints to apply):'', serialize_rubric pp c] @
       (case serialize_output_contract pp (tc_output_contract c) of
          None \<Rightarrow> []
        | Some contract \<Rightarrow> [[], lit ''Structured output contract to enforce while critiquing:'', contract, [],
            lit ''In your critique, explicitly tell the peer to keep the revision as a JSON object only, '' @
            lit ''preserve required fields, remove fields not allowed by the contract, and avoid markdown fences.'']) @
       [[], lit ''Critique it now.''])"

definition user_prompt_revise :: "rstr \<Rightarrow> rstr \<Rightarrow> rstr" where
  "user_prompt_revise own_content feedback =
     text_lines [lit ''Your previous proposal:'', lit ''---'', own_content, lit ''---'', [],
       lit ''Critique to address:'', lit ''---'', feedback, lit ''---'', [],
       lit ''Formatting rule:'',
       lit ''If the previous proposal is JSON, produce only the revised JSON object. '' @
       lit ''Do not include analysis, markdown, or text before or after the JSON.'', [],
       lit ''Produce the revised proposal now.'']"

section \<open>What an exchange accounts for\<close>

text \<open>
  The metrics of one exchange: one failure of the kind that fits, or nothing, or the tokens; and a
  text that is not blank exactly when it did not fail.
\<close>

definition accounted ::
    "(llm_error_kind \<Rightarrow> provider_metric) \<Rightarrow> (token_usage \<Rightarrow> provider_metric) \<Rightarrow> rstr outcome \<Rightarrow> provider_metric list \<Rightarrow> bool" where
  "accounted on_error on_tokens r entries =
     (case r of
        Inl _ \<Rightarrow> (\<exists>kind. entries = [on_error kind])
      | Inr text \<Rightarrow> trim text \<noteq> [] \<and> (entries = [] \<or> (\<exists>u. entries = [on_tokens u])))"

lemma exchange_accounted:
  assumes "exchange post on_error on_tokens failed classify malformed extract usage url headers body w = (r, w')"
    and "\<And>resp text. extract resp = Inr text \<Longrightarrow> trim text \<noteq> []"
  shows "\<exists>entries. pw_metrics w' = pw_metrics w @ entries \<and> accounted on_error on_tokens r entries"
  using assms
  by (auto simp: exchange_def Let_def pw_record_def accounted_def split: prod.splits http_reply.splits if_splits option.splits sum.splits)

lemma nonblank_text: "nonblank t = Some s \<Longrightarrow> trim s \<noteq> []"
  by (auto simp: nonblank_def split: option.splits if_splits)

lemma extract_text_nonblank: "extract_text resp errs = Inr text \<Longrightarrow> trim text \<noteq> []"
  by (auto simp: extract_text_def nonblank_text split: list.splits option.splits)

end
