(* ===== verification/Provider_Agents.thy ===== *)
theory Provider_Agents
  imports Model_Providers Step_Config
begin

text \<open>
  The agents behind a council (\<open>choreo-adapters/src/agents\<close>: \<open>vllm.rs\<close>, \<open>openai.rs\<close>, \<open>anthropic.rs\<close>,
  \<open>factory.rs\<close>; \<open>choreo-adapters/src/noop\<close>): their configurations, the calls they make, and the factory
  that builds them from descriptors.  All provider features are compiled in.
\<close>

section \<open>What the agents rely on\<close>

text \<open>
  The request and the response of the Messages API, and the libraries: parsing of URLs and PEM
  bundles, construction of clients (a timeout in seconds and an identity), the monotonic clock, the
  requests, the pretty printer, and \<open>Duration\<close> values in seconds.
\<close>

record system_block =
  sb_text :: rstr
  sb_ephemeral :: bool

record messages_request =
  mr_model :: rstr
  mr_max_tokens :: "32 word"
  mr_system :: "system_block list"
  mr_messages :: "chat_message list"

record content_block =
  cb_type :: rstr
  cb_text :: "rstr option"

record anthropic_usage =
  au_input_tokens :: "32 word"
  au_output_tokens :: "32 word"

record messages_response =
  mres_content :: "content_block list"
  mres_usage :: "anthropic_usage option"

record 'x provider_library =
  hl_scheme :: "rstr \<Rightarrow> rstr option"
  hl_identity_ok :: "bytes \<Rightarrow> bool"
  hl_build_ok :: "nat \<Rightarrow> bytes option \<Rightarrow> bool"
  hl_instant :: "'x \<Rightarrow> nat"
  hl_chat :: "('x, chat_request, chat_response) http_post"
  hl_messages :: "('x, messages_request, messages_response) http_post"
  hl_pretty :: pretty_printer

definition nonempty_trimmed :: "string \<Rightarrow> rstr \<Rightarrow> rstr outcome" where
  "nonempty_trimmed field raw = (if trim raw = [] then Inl (EmptyField field) else Inr (trim raw))"

section \<open>vLLM\<close>

definition VLLM_ERRORS :: error_strings where
  "VLLM_ERRORS = \<lparr>es_unauthorized = ''vllm: unauthorized'', es_rate_limited = ''vllm: rate-limited'',
     es_bad_request = ''vllm: bad request'', es_upstream_error = ''vllm: upstream error'',
     es_malformed_body = ''vllm: malformed response body'', es_no_choices = ''vllm: no choices in response'',
     es_missing_content = ''vllm: choice has no message.content'', es_empty_content = ''vllm: empty text content''\<rparr>"

definition VllmBearerToken_new :: "rstr \<Rightarrow> rstr outcome" where
  "VllmBearerToken_new raw = nonempty_trimmed ''vllm.bearer_token'' raw"

definition VllmClientIdentity_from_cert_and_key :: "bytes \<Rightarrow> bytes \<Rightarrow> bytes outcome" where
  "VllmClientIdentity_from_cert_and_key cert_pem key_pem =
     (if cert_pem = [] then Inl (EmptyField ''vllm.client_cert_pem'')
      else if key_pem = [] then Inl (EmptyField ''vllm.client_key_pem'')
      else Inr (cert_pem @ (if last cert_pem = 10 then [] else [10]) @ key_pem))"

record vllm_config =
  vc_endpoint :: rstr
  vc_model :: rstr
  vc_bearer :: "rstr option"
  vc_client_identity :: "bytes option"
  vc_max_tokens :: "32 word"
  vc_timeout :: nat

definition VllmConfig_new :: "rstr \<Rightarrow> vllm_config outcome" where
  "VllmConfig_new model =
     map_ok (\<lambda>m. \<lparr>vc_endpoint = lit ''http://vllm-server:8000'', vc_model = m, vc_bearer = None, vc_client_identity = None,
       vc_max_tokens = 1024, vc_timeout = 30\<rparr>) (nonempty_trimmed ''vllm.model'' model)"

definition VllmConfig_with_endpoint :: "(rstr \<Rightarrow> rstr option) \<Rightarrow> vllm_config \<Rightarrow> rstr \<Rightarrow> vllm_config outcome" where
  "VllmConfig_with_endpoint scheme c endpoint =
     map_ok (\<lambda>e. c\<lparr>vc_endpoint := e\<rparr>) (validate_provider_endpoint scheme ''vllm.endpoint'' endpoint)"

definition VllmConfig_with_model :: "vllm_config \<Rightarrow> rstr \<Rightarrow> vllm_config outcome" where
  "VllmConfig_with_model c model = map_ok (\<lambda>m. c\<lparr>vc_model := m\<rparr>) (nonempty_trimmed ''vllm.model'' model)"

definition VllmConfig_with_max_tokens :: "vllm_config \<Rightarrow> 32 word \<Rightarrow> vllm_config outcome" where
  "VllmConfig_with_max_tokens c n = (if n = 0 then Inl (MustBeNonZero ''vllm.max_tokens'') else Inr (c\<lparr>vc_max_tokens := n\<rparr>))"

definition VllmAgent_complete ::
    "'x provider_library \<Rightarrow> vllm_config \<Rightarrow> rstr \<Rightarrow> rstr \<Rightarrow> string \<Rightarrow> ('x provider_world, rstr) effect" where
  "VllmAgent_complete lib c system user operation =
     with_call_guard (hl_instant lib) ''vllm'' operation
       (exchange (hl_chat lib) (RecordProviderError ''vllm'') (RecordProviderTokens ''vllm'') ''vllm: request failed''
         (\<lambda>status. classify_error status VLLM_ERRORS) (es_malformed_body VLLM_ERRORS) (\<lambda>resp. extract_text resp VLLM_ERRORS)
         chat_usage_of (completions_url (vc_endpoint c)) (case vc_bearer c of None \<Rightarrow> [] | Some token \<Rightarrow> [bearer_auth token])
         (chat_body (vc_model c) (vc_max_tokens c) system user))"

section \<open>OpenAI\<close>

definition OPENAI_ERRORS :: error_strings where
  "OPENAI_ERRORS = \<lparr>es_unauthorized = ''openai: unauthorized'', es_rate_limited = ''openai: rate-limited'',
     es_bad_request = ''openai: bad request'', es_upstream_error = ''openai: upstream error'',
     es_malformed_body = ''openai: malformed response body'', es_no_choices = ''openai: no choices in response'',
     es_missing_content = ''openai: choice has no message.content'', es_empty_content = ''openai: empty text content''\<rparr>"

definition OpenAiApiKey_new :: "rstr \<Rightarrow> rstr outcome" where
  "OpenAiApiKey_new raw = nonempty_trimmed ''openai.api_key'' raw"

record openai_config =
  oc_api_key :: rstr
  oc_endpoint :: rstr
  oc_model :: rstr
  oc_max_tokens :: "32 word"
  oc_timeout :: nat

definition OpenAiConfig_new :: "rstr \<Rightarrow> openai_config" where
  "OpenAiConfig_new key = \<lparr>oc_api_key = key, oc_endpoint = lit ''https://api.openai.com'', oc_model = lit ''gpt-4o-mini'',
     oc_max_tokens = 1024, oc_timeout = 30\<rparr>"

definition OpenAiConfig_with_endpoint :: "(rstr \<Rightarrow> rstr option) \<Rightarrow> openai_config \<Rightarrow> rstr \<Rightarrow> openai_config outcome" where
  "OpenAiConfig_with_endpoint scheme c endpoint =
     map_ok (\<lambda>e. c\<lparr>oc_endpoint := e\<rparr>) (validate_provider_endpoint scheme ''openai.endpoint'' endpoint)"

definition OpenAiConfig_with_model :: "openai_config \<Rightarrow> rstr \<Rightarrow> openai_config outcome" where
  "OpenAiConfig_with_model c model = map_ok (\<lambda>m. c\<lparr>oc_model := m\<rparr>) (nonempty_trimmed ''openai.model'' model)"

definition OpenAiConfig_with_max_tokens :: "openai_config \<Rightarrow> 32 word \<Rightarrow> openai_config outcome" where
  "OpenAiConfig_with_max_tokens c n = (if n = 0 then Inl (MustBeNonZero ''openai.max_tokens'') else Inr (c\<lparr>oc_max_tokens := n\<rparr>))"

definition OpenAiAgent_complete ::
    "'x provider_library \<Rightarrow> openai_config \<Rightarrow> rstr \<Rightarrow> rstr \<Rightarrow> string \<Rightarrow> ('x provider_world, rstr) effect" where
  "OpenAiAgent_complete lib c system user operation =
     with_call_guard (hl_instant lib) ''openai'' operation
       (exchange (hl_chat lib) (RecordProviderError ''openai'') (RecordProviderTokens ''openai'') ''openai: request failed''
         (\<lambda>status. classify_error status OPENAI_ERRORS) (es_malformed_body OPENAI_ERRORS) (\<lambda>resp. extract_text resp OPENAI_ERRORS)
         chat_usage_of (completions_url (oc_endpoint c)) [bearer_auth (oc_api_key c)]
         (chat_body (oc_model c) (oc_max_tokens c) system user))"

section \<open>Anthropic\<close>

definition AnthropicApiKey_new :: "rstr \<Rightarrow> rstr outcome" where
  "AnthropicApiKey_new raw = nonempty_trimmed ''anthropic.api_key'' raw"

record anthropic_config =
  ac_api_key :: rstr
  ac_endpoint :: rstr
  ac_model :: rstr
  ac_max_tokens :: "32 word"
  ac_timeout :: nat

definition AnthropicConfig_new :: "rstr \<Rightarrow> anthropic_config" where
  "AnthropicConfig_new key = \<lparr>ac_api_key = key, ac_endpoint = lit ''https://api.anthropic.com'',
     ac_model = lit ''claude-haiku-4-5-20251001'', ac_max_tokens = 1024, ac_timeout = 30\<rparr>"

definition AnthropicConfig_with_endpoint :: "(rstr \<Rightarrow> rstr option) \<Rightarrow> anthropic_config \<Rightarrow> rstr \<Rightarrow> anthropic_config outcome" where
  "AnthropicConfig_with_endpoint scheme c endpoint =
     map_ok (\<lambda>e. c\<lparr>ac_endpoint := e\<rparr>) (validate_provider_endpoint scheme ''anthropic.endpoint'' endpoint)"

definition AnthropicConfig_with_model :: "anthropic_config \<Rightarrow> rstr \<Rightarrow> anthropic_config outcome" where
  "AnthropicConfig_with_model c model = map_ok (\<lambda>m. c\<lparr>ac_model := m\<rparr>) (nonempty_trimmed ''anthropic.model'' model)"

definition AnthropicConfig_with_max_tokens :: "anthropic_config \<Rightarrow> 32 word \<Rightarrow> anthropic_config outcome" where
  "AnthropicConfig_with_max_tokens c n =
     (if n = 0 then Inl (MustBeNonZero ''anthropic.max_tokens'') else Inr (c\<lparr>ac_max_tokens := n\<rparr>))"

definition anthropic_extract_text :: "messages_response \<Rightarrow> rstr outcome" where
  "anthropic_extract_text resp =
     (let combined = List.map_filter cb_text (filter (\<lambda>b. cb_type b = lit ''text'') (mres_content resp)) in
      if combined = [] then Inl (InvariantViolated ''anthropic: no text content in response'')
      else let joined = text_lines combined in
        if trim joined = [] then Inl (InvariantViolated ''anthropic: empty text content'') else Inr joined)"

definition anthropic_classify_error :: "nat \<Rightarrow> domain_error" where
  "anthropic_classify_error status =
     InvariantViolated
       (if status = 401 \<or> status = 403 then ''anthropic: unauthorized''
        else if status = 429 then ''anthropic: rate-limited''
        else if 400 \<le> status \<and> status \<le> 499 then ''anthropic: bad request''
        else ''anthropic: upstream error'')"

definition AnthropicAgent_complete ::
    "'x provider_library \<Rightarrow> anthropic_config \<Rightarrow> rstr \<Rightarrow> rstr \<Rightarrow> string \<Rightarrow> ('x provider_world, rstr) effect" where
  "AnthropicAgent_complete lib c system user operation =
     with_call_guard (hl_instant lib) ''anthropic'' operation
       (exchange (hl_messages lib) (RecordProviderError ''anthropic'') (RecordProviderTokens ''anthropic'')
         ''anthropic: request failed'' anthropic_classify_error ''anthropic: malformed response body'' anthropic_extract_text
         (\<lambda>resp. map_option (\<lambda>u. \<lparr>usage_prompt = au_input_tokens u, usage_completion = au_output_tokens u\<rparr>) (mres_usage resp))
         (trim_end_slashes (ac_endpoint c) @ lit ''/v1/messages'')
         [(''x-api-key'', ac_api_key c), (''anthropic-version'', lit ''2023-06-01'')]
         \<lparr>mr_model = ac_model c, mr_max_tokens = ac_max_tokens c, mr_system = [\<lparr>sb_text = system, sb_ephemeral = True\<rparr>],
          mr_messages = [\<lparr>cm_role = ''user'', cm_content = user\<rparr>]\<rparr>)"

section \<open>Agents\<close>

datatype provider_agent =
    NoopAgent rstr rstr
  | VllmAgent rstr rstr vllm_config
  | OpenAiAgent rstr rstr openai_config
  | AnthropicAgent rstr rstr anthropic_config

fun agent_id :: "provider_agent \<Rightarrow> rstr" where
  "agent_id (NoopAgent i _) = i"
| "agent_id (VllmAgent i _ _) = i"
| "agent_id (OpenAiAgent i _ _) = i"
| "agent_id (AnthropicAgent i _ _) = i"

fun agent_specialty :: "provider_agent \<Rightarrow> rstr" where
  "agent_specialty (NoopAgent _ s) = s"
| "agent_specialty (VllmAgent _ s _) = s"
| "agent_specialty (OpenAiAgent _ s _) = s"
| "agent_specialty (AnthropicAgent _ s _) = s"

text \<open>The completion call of an agent that has a provider.\<close>

fun agent_complete ::
    "'x provider_library \<Rightarrow> provider_agent \<Rightarrow> rstr \<Rightarrow> rstr \<Rightarrow> string \<Rightarrow> ('x provider_world, rstr) effect" where
  "agent_complete lib (NoopAgent _ _) system user operation = eff_lift (Inr [])"
| "agent_complete lib (VllmAgent _ _ c) system user operation = VllmAgent_complete lib c system user operation"
| "agent_complete lib (OpenAiAgent _ _ c) system user operation = OpenAiAgent_complete lib c system user operation"
| "agent_complete lib (AnthropicAgent _ _ c) system user operation = AnthropicAgent_complete lib c system user operation"

definition NoopAgent_generate :: "rstr \<Rightarrow> draft_request \<Rightarrow> rstr" where
  "NoopAgent_generate i request = lit ''noop-proposal['' @ i @ lit ''] for task: '' @ dr_task request"

definition NoopAgent_critique :: "rstr \<Rightarrow> rstr \<Rightarrow> rstr" where
  "NoopAgent_critique i peer_content =
     lit ''noop-critique['' @ i @ lit ''] on peer content of length '' @ display_nat (str_len peer_content)"

definition NoopAgent_revise :: "rstr \<Rightarrow> rstr \<Rightarrow> rstr" where
  "NoopAgent_revise i own_content = own_content @ lit ''[revised-by:'' @ i @ lit '']''"

definition agent_generate ::
    "'x provider_library \<Rightarrow> provider_agent \<Rightarrow> draft_request \<Rightarrow> ('x provider_world, rstr) effect" where
  "agent_generate lib a request =
     (case a of
        NoopAgent i _ \<Rightarrow> eff_lift (Inr (NoopAgent_generate i request))
      | _ \<Rightarrow> agent_complete lib a (system_prompt_generate (agent_id a) (agent_specialty a))
          (user_prompt_generate (hl_pretty lib) request) ''generate'')"

definition agent_critique ::
    "'x provider_library \<Rightarrow> provider_agent \<Rightarrow> rstr \<Rightarrow> task_constraints \<Rightarrow> ('x provider_world, rstr) effect" where
  "agent_critique lib a peer_content c =
     (case a of
        NoopAgent i _ \<Rightarrow> eff_lift (Inr (NoopAgent_critique i peer_content))
      | _ \<Rightarrow> agent_complete lib a (system_prompt_critique (agent_id a) (agent_specialty a))
          (user_prompt_critique (hl_pretty lib) peer_content c) ''critique'')"

definition agent_revise ::
    "'x provider_library \<Rightarrow> provider_agent \<Rightarrow> rstr \<Rightarrow> rstr \<Rightarrow> ('x provider_world, rstr) effect" where
  "agent_revise lib a own_content feedback =
     (case a of
        NoopAgent i _ \<Rightarrow> eff_lift (Inr (NoopAgent_revise i own_content))
      | _ \<Rightarrow> agent_complete lib a (system_prompt_revise (agent_id a) (agent_specialty a))
          (user_prompt_revise own_content feedback) ''revise'')"

definition VllmAgent_new :: "'x provider_library \<Rightarrow> rstr \<Rightarrow> rstr \<Rightarrow> vllm_config \<Rightarrow> provider_agent outcome" where
  "VllmAgent_new lib i sp c =
     and_then (case vc_client_identity c of None \<Rightarrow> Inr ()
       | Some pem \<Rightarrow> ensure (hl_identity_ok lib pem) (InvariantViolated ''vllm: client identity PEM is malformed'')) (\<lambda>_.
     and_then (ensure (hl_build_ok lib (vc_timeout c) (vc_client_identity c))
       (InvariantViolated ''vllm: failed to build http client'')) (\<lambda>_.
     Inr (VllmAgent i sp c)))"

definition OpenAiAgent_new :: "'x provider_library \<Rightarrow> rstr \<Rightarrow> rstr \<Rightarrow> openai_config \<Rightarrow> provider_agent outcome" where
  "OpenAiAgent_new lib i sp c =
     and_then (ensure (hl_build_ok lib (oc_timeout c) None) (InvariantViolated ''openai: failed to build http client'')) (\<lambda>_.
     Inr (OpenAiAgent i sp c))"

definition AnthropicAgent_new :: "'x provider_library \<Rightarrow> rstr \<Rightarrow> rstr \<Rightarrow> anthropic_config \<Rightarrow> provider_agent outcome" where
  "AnthropicAgent_new lib i sp c =
     and_then (ensure (hl_build_ok lib (ac_timeout c) None) (InvariantViolated ''anthropic: failed to build http client'')) (\<lambda>_.
     Inr (AnthropicAgent i sp c))"

section \<open>The factory\<close>

record dispatching_agent_factory =
  daf_anthropic :: "anthropic_config option"
  daf_openai :: "openai_config option"
  daf_vllm :: "vllm_config option"

definition DispatchingAgentFactory_new :: dispatching_agent_factory where
  "DispatchingAgentFactory_new = \<lparr>daf_anthropic = None, daf_openai = None, daf_vllm = None\<rparr>"

definition DispatchingAgentFactory_supported_kinds :: "dispatching_agent_factory \<Rightarrow> rstr list" where
  "DispatchingAgentFactory_supported_kinds f =
     [lit ''noop''] @ (if daf_anthropic f \<noteq> None then [lit ''anthropic''] else []) @
     (if daf_openai f \<noteq> None then [lit ''openai''] else []) @ (if daf_vllm f \<noteq> None then [lit ''vllm''] else [])"

definition attr_string :: "attributes \<Rightarrow> string \<Rightarrow> rstr option outcome" where
  "attr_string attrs key =
     (case bt_get attrs (lit key) of
        None \<Rightarrow> Inr None
      | Some v \<Rightarrow>
          if json_is_null v then Inr None
          else map_ok trimmed_nonempty
            (ok_or (json_as_str v) (InvariantViolated ''agent factory: descriptor override must be a string'')))"

definition json_whole_u32 :: "json \<Rightarrow> 32 word option" where
  "json_whole_u32 v =
     (case Option.bind (json_as_u64 v) (\<lambda>n. if unat n < 2 ^ 32 then Some (ucast n) else None) of
        Some n \<Rightarrow> Some n
      | None \<Rightarrow> Option.bind (json_as_f64 v) (\<lambda>x.
          if f64_is_finite x \<and> f64_le (F64 0) x \<and> f64_value x = of_int (floor (f64_value x)) \<and> f64_le x (F64 4294967295)
          then Some (of_int (floor (f64_value x))) else None))"

definition attr_u32 :: "attributes \<Rightarrow> string \<Rightarrow> 32 word option outcome" where
  "attr_u32 attrs key =
     (case bt_get attrs (lit key) of
        None \<Rightarrow> Inr None
      | Some v \<Rightarrow>
          if json_is_null v then Inr None
          else map_ok Some (ok_or (json_whole_u32 v)
            (InvariantViolated ''agent factory: provider numeric override must be a non-negative u32'')))"

text \<open>\<open>if let Some(v) = v { config = config.with(v)? }\<close>.\<close>

definition override_with :: "'a option \<Rightarrow> ('c \<Rightarrow> 'a \<Rightarrow> 'c outcome) \<Rightarrow> 'c \<Rightarrow> 'c outcome" where
  "override_with v set_it c = (case v of None \<Rightarrow> Inr c | Some x \<Rightarrow> set_it c x)"

definition apply_anthropic_attributes ::
    "(rstr \<Rightarrow> rstr option) \<Rightarrow> anthropic_config \<Rightarrow> attributes \<Rightarrow> anthropic_config outcome" where
  "apply_anthropic_attributes scheme c attrs =
     and_then (attr_string attrs ''provider.model'') (\<lambda>model.
     and_then (override_with model AnthropicConfig_with_model c) (\<lambda>c1.
     and_then (attr_string attrs ''provider.endpoint'') (\<lambda>endpoint.
     and_then (override_with endpoint (AnthropicConfig_with_endpoint scheme) c1) (\<lambda>c2.
     and_then (attr_u32 attrs ''provider.max_tokens'') (\<lambda>tokens.
     override_with tokens AnthropicConfig_with_max_tokens c2)))))"

definition apply_openai_attributes ::
    "(rstr \<Rightarrow> rstr option) \<Rightarrow> openai_config \<Rightarrow> attributes \<Rightarrow> openai_config outcome" where
  "apply_openai_attributes scheme c attrs =
     and_then (attr_string attrs ''provider.model'') (\<lambda>model.
     and_then (override_with model OpenAiConfig_with_model c) (\<lambda>c1.
     and_then (attr_string attrs ''provider.endpoint'') (\<lambda>endpoint.
     and_then (override_with endpoint (OpenAiConfig_with_endpoint scheme) c1) (\<lambda>c2.
     and_then (attr_u32 attrs ''provider.max_tokens'') (\<lambda>tokens.
     override_with tokens OpenAiConfig_with_max_tokens c2)))))"

definition apply_vllm_attributes ::
    "(rstr \<Rightarrow> rstr option) \<Rightarrow> vllm_config \<Rightarrow> attributes \<Rightarrow> vllm_config outcome" where
  "apply_vllm_attributes scheme c attrs =
     and_then (attr_string attrs ''provider.model'') (\<lambda>model.
     and_then (override_with model VllmConfig_with_model c) (\<lambda>c1.
     and_then (attr_string attrs ''provider.endpoint'') (\<lambda>endpoint.
     and_then (override_with endpoint (VllmConfig_with_endpoint scheme) c1) (\<lambda>c2.
     and_then (attr_u32 attrs ''provider.max_tokens'') (\<lambda>tokens.
     and_then (override_with tokens VllmConfig_with_max_tokens c2) (\<lambda>c3.
     and_then (attr_u32 attrs ''provider.timeout_secs'') (\<lambda>timeout.
     override_with timeout (\<lambda>c t. if t = 0 then Inl (MustBeNonZero ''vllm.timeout_secs'')
       else Inr (c\<lparr>vc_timeout := unat t\<rparr>)) c3)))))))"

definition DispatchingAgentFactory_create ::
    "'x provider_library \<Rightarrow> dispatching_agent_factory \<Rightarrow> agent_descriptor \<Rightarrow> provider_agent outcome" where
  "DispatchingAgentFactory_create lib f d =
     (if ad_kind d = lit ''noop'' then Inr (NoopAgent (ad_id d) (ad_specialty d))
      else if ad_kind d = lit ''anthropic'' then
        and_then (ok_or (daf_anthropic f) (InvariantViolated ''agent factory: anthropic kind requested but not configured'')) (\<lambda>base.
        and_then (apply_anthropic_attributes (hl_scheme lib) base (ad_attributes d)) (\<lambda>c.
        AnthropicAgent_new lib (ad_id d) (ad_specialty d) c))
      else if ad_kind d = lit ''openai'' then
        and_then (ok_or (daf_openai f) (InvariantViolated ''agent factory: openai kind requested but not configured'')) (\<lambda>base.
        and_then (apply_openai_attributes (hl_scheme lib) base (ad_attributes d)) (\<lambda>c.
        OpenAiAgent_new lib (ad_id d) (ad_specialty d) c))
      else if ad_kind d = lit ''vllm'' then
        and_then (ok_or (daf_vllm f) (InvariantViolated ''agent factory: vllm kind requested but not configured'')) (\<lambda>base.
        and_then (apply_vllm_attributes (hl_scheme lib) base (ad_attributes d)) (\<lambda>c.
        VllmAgent_new lib (ad_id d) (ad_specialty d) c))
      else Inl (InvariantViolated ''agent factory: unsupported agent kind''))"

text \<open>
  The environment maps a name to its value if that is set and valid text.  \<open>str::parse\<close> of an
  unsigned integer takes an optional plus sign and at least one decimal digit, and fails on
  overflow.
\<close>

type_synonym environment = "string \<Rightarrow> rstr option"

definition env_nonempty :: "environment \<Rightarrow> string \<Rightarrow> rstr option" where
  "env_nonempty env key = Option.bind (env key) trimmed_nonempty"

definition parse_unsigned :: "nat \<Rightarrow> rstr \<Rightarrow> nat option" where
  "parse_unsigned bits s =
     (let digits = (case s of c # rest \<Rightarrow> if c = 43 then rest else s | [] \<Rightarrow> []) in
      if digits = [] \<or> list_ex (\<lambda>c. \<not> is_ascii_digit c) digits then None
      else if decimal_value digits < 2 ^ bits then Some (decimal_value digits) else None)"

definition env_u32 :: "environment \<Rightarrow> string \<Rightarrow> string \<Rightarrow> 32 word option outcome" where
  "env_u32 env key field =
     (case env_nonempty env key of
        None \<Rightarrow> Inr None
      | Some raw \<Rightarrow> map_ok (\<lambda>n. Some (of_nat n)) (ok_or (parse_unsigned 32 raw) (InvariantViolated field)))"

definition env_duration_secs :: "environment \<Rightarrow> string \<Rightarrow> string \<Rightarrow> nat option outcome" where
  "env_duration_secs env key field =
     (case env_nonempty env key of
        None \<Rightarrow> Inr None
      | Some raw \<Rightarrow>
          and_then (ok_or (parse_unsigned 64 raw) (InvariantViolated field)) (\<lambda>secs.
          if secs = 0 then Inl (MustBeNonZero field) else Inr (Some secs)))"

definition load_anthropic_from_env ::
    "(rstr \<Rightarrow> rstr option) \<Rightarrow> environment \<Rightarrow> anthropic_config option outcome" where
  "load_anthropic_from_env scheme env =
     (case env_nonempty env ''CHOREO_ANTHROPIC_API_KEY'' of
        None \<Rightarrow> Inr None
      | Some raw \<Rightarrow>
          and_then (AnthropicApiKey_new raw) (\<lambda>key.
          and_then (override_with (env_nonempty env ''CHOREO_ANTHROPIC_MODEL'') AnthropicConfig_with_model (AnthropicConfig_new key)) (\<lambda>c1.
          and_then (override_with (env_nonempty env ''CHOREO_ANTHROPIC_ENDPOINT'') (AnthropicConfig_with_endpoint scheme) c1) (\<lambda>c2.
          and_then (env_u32 env ''CHOREO_ANTHROPIC_MAX_TOKENS'' ''anthropic.max_tokens'') (\<lambda>tokens.
          map_ok Some (override_with tokens AnthropicConfig_with_max_tokens c2))))))"

definition load_openai_from_env ::
    "(rstr \<Rightarrow> rstr option) \<Rightarrow> environment \<Rightarrow> openai_config option outcome" where
  "load_openai_from_env scheme env =
     (case env_nonempty env ''CHOREO_OPENAI_API_KEY'' of
        None \<Rightarrow> Inr None
      | Some raw \<Rightarrow>
          and_then (OpenAiApiKey_new raw) (\<lambda>key.
          and_then (override_with (env_nonempty env ''CHOREO_OPENAI_MODEL'') OpenAiConfig_with_model (OpenAiConfig_new key)) (\<lambda>c1.
          and_then (override_with (env_nonempty env ''CHOREO_OPENAI_ENDPOINT'') (OpenAiConfig_with_endpoint scheme) c1) (\<lambda>c2.
          and_then (env_u32 env ''CHOREO_OPENAI_MAX_TOKENS'' ''openai.max_tokens'') (\<lambda>tokens.
          map_ok Some (override_with tokens OpenAiConfig_with_max_tokens c2))))))"

definition load_vllm_from_env ::
    "(rstr \<Rightarrow> rstr option) \<Rightarrow> environment \<Rightarrow> vllm_config option outcome" where
  "load_vllm_from_env scheme env =
     (case env_nonempty env ''CHOREO_VLLM_MODEL'' of
        None \<Rightarrow> Inr None
      | Some model \<Rightarrow>
          (case env_nonempty env ''CHOREO_VLLM_ENDPOINT'' of
             None \<Rightarrow> Inr None
           | Some endpoint \<Rightarrow>
               and_then (VllmConfig_new model) (\<lambda>c0.
               and_then (VllmConfig_with_endpoint scheme c0 endpoint) (\<lambda>c1.
               and_then (override_with (env_nonempty env ''CHOREO_VLLM_BEARER_TOKEN'')
                 (\<lambda>c raw. map_ok (\<lambda>t. c\<lparr>vc_bearer := Some t\<rparr>) (VllmBearerToken_new raw)) c1) (\<lambda>c2.
               and_then (env_u32 env ''CHOREO_VLLM_MAX_TOKENS'' ''vllm.max_tokens'') (\<lambda>tokens.
               and_then (override_with tokens VllmConfig_with_max_tokens c2) (\<lambda>c3.
               and_then (env_duration_secs env ''CHOREO_VLLM_TIMEOUT_SECS'' ''vllm.timeout_secs'') (\<lambda>timeout.
               map_ok Some (override_with timeout (\<lambda>c t. Inr (c\<lparr>vc_timeout := t\<rparr>)) c3)))))))))"

definition DispatchingAgentFactory_from_env ::
    "(rstr \<Rightarrow> rstr option) \<Rightarrow> environment \<Rightarrow> dispatching_agent_factory outcome" where
  "DispatchingAgentFactory_from_env scheme env =
     and_then (load_anthropic_from_env scheme env) (\<lambda>anthropic.
     and_then (load_openai_from_env scheme env) (\<lambda>openai.
     and_then (load_vllm_from_env scheme env) (\<lambda>vllm.
     Inr (DispatchingAgentFactory_new\<lparr>daf_anthropic := anthropic, daf_openai := openai, daf_vllm := vllm\<rparr>))))"

definition NoopAgentFactory_create :: "agent_descriptor \<Rightarrow> provider_agent outcome" where
  "NoopAgentFactory_create d =
     (if ad_kind d \<noteq> lit ''noop'' then Inl (InvariantViolated ''noop agent factory only accepts kind=\"noop\"'')
      else Inr (NoopAgent (ad_id d) (ad_specialty d)))"

section \<open>Calls and their metrics\<close>

text \<open>What a log of metrics says of a provider: calls in flight, calls timed, failures.\<close>

fun in_flight :: "string \<Rightarrow> provider_metric list \<Rightarrow> int" where
  "in_flight p [] = 0"
| "in_flight p (m # ms) = (if m = IncProviderInFlight p then 1 else if m = DecProviderInFlight p then - 1 else 0) + in_flight p ms"

definition failures :: "string \<Rightarrow> provider_metric list \<Rightarrow> nat" where
  "failures p ms = length (filter (\<lambda>m. \<exists>kind. m = RecordProviderError p kind) ms)"

definition timed :: "string \<Rightarrow> provider_metric list \<Rightarrow> nat" where
  "timed p ms = length (filter (\<lambda>m. \<exists>operation d. m = ObserveProviderRequest p operation d) ms)"

lemma in_flight_append [simp]: "in_flight p (ms @ ns) = in_flight p ms + in_flight p ns"
  by (induction ms) auto

lemma failures_append [simp]: "failures p (ms @ ns) = failures p ms + failures p ns"
  by (simp add: failures_def)

lemma timed_append [simp]: "timed p (ms @ ns) = timed p ms + timed p ns"
  by (simp add: timed_def)

text \<open>
  The contract of a completion call: it is bracketed by the guard, and what happens in between is
  accounted for.
\<close>

locale provider_call =
  fixes complete :: "rstr \<Rightarrow> rstr \<Rightarrow> string \<Rightarrow> ('x provider_world, rstr) effect"
    and provider :: string
  assumes bracketed: "complete system user operation w = (r, w') \<Longrightarrow>
    \<exists>entries d. pw_metrics w' = pw_metrics w @ IncProviderInFlight provider # entries @
        [ObserveProviderRequest provider operation d, DecProviderInFlight provider] \<and>
      accounted (RecordProviderError provider) (RecordProviderTokens provider) r entries"
begin

lemma call_counted:
  assumes "complete system user operation w = (r, w')"
  shows "in_flight p (pw_metrics w') = in_flight p (pw_metrics w)"
    and "failures p (pw_metrics w') = failures p (pw_metrics w) + (if p = provider \<and> \<not> is_ok r then 1 else 0)"
    and "timed p (pw_metrics w') = timed p (pw_metrics w) + (if p = provider then 1 else 0)"
    and "r = Inr text \<Longrightarrow> trim text \<noteq> []"
proof -
  obtain entries d where e: "pw_metrics w' = pw_metrics w @ IncProviderInFlight provider # entries @
        [ObserveProviderRequest provider operation d, DecProviderInFlight provider]"
    and acc: "accounted (RecordProviderError provider) (RecordProviderTokens provider) r entries"
    using bracketed [OF assms] by blast
  show "in_flight p (pw_metrics w') = in_flight p (pw_metrics w)"
    and "failures p (pw_metrics w') = failures p (pw_metrics w) + (if p = provider \<and> \<not> is_ok r then 1 else 0)"
    and "timed p (pw_metrics w') = timed p (pw_metrics w) + (if p = provider then 1 else 0)"
    and "r = Inr text \<Longrightarrow> trim text \<noteq> []"
    using acc by (auto simp: e accounted_def failures_def timed_def is_ok_iff split: sum.splits)
qed

end

lemma guarded_bracketed:
  assumes "with_call_guard instant provider operation m w = (r, w')"
    and "\<And>v r v'. m v = (r, v') \<Longrightarrow> \<exists>entries. pw_metrics v' = pw_metrics v @ entries \<and> accounted oe ot r entries"
  shows "\<exists>entries d. pw_metrics w' = pw_metrics w @ IncProviderInFlight provider # entries @
      [ObserveProviderRequest provider operation d, DecProviderInFlight provider] \<and> accounted oe ot r entries"
proof -
  obtain v where v: "m (pw_record (IncProviderInFlight provider) w) = (r, v)"
    using assms(1) by (auto simp: with_call_guard_def Let_def split: prod.splits)
  from assms(2) [OF v] obtain entries where "pw_metrics v = pw_metrics w @ IncProviderInFlight provider # entries"
    and "accounted oe ot r entries" by (auto simp: pw_record_def)
  with assms(1) v show ?thesis by (auto simp: with_call_guard_def Let_def pw_record_def)
qed

lemma anthropic_text_nonblank: "anthropic_extract_text resp = Inr text \<Longrightarrow> trim text \<noteq> []"
  by (auto simp: anthropic_extract_text_def Let_def split: if_splits)

interpretation vllm: provider_call "VllmAgent_complete lib c" "''vllm''" for lib c
  by unfold_locales
    (unfold VllmAgent_complete_def, erule guarded_bracketed, erule exchange_accounted, erule extract_text_nonblank)

interpretation openai: provider_call "OpenAiAgent_complete lib c" "''openai''" for lib c
  by unfold_locales
    (unfold OpenAiAgent_complete_def, erule guarded_bracketed, erule exchange_accounted, erule extract_text_nonblank)

interpretation anthropic: provider_call "AnthropicAgent_complete lib c" "''anthropic''" for lib c
  by unfold_locales
    (unfold AnthropicAgent_complete_def, erule guarded_bracketed, erule exchange_accounted, erule anthropic_text_nonblank)

text \<open>The calls a deliberation makes to its agents, one after the other.\<close>

datatype agent_request = Generate draft_request | Critique rstr task_constraints | Revise rstr rstr

fun agent_call :: "'x provider_library \<Rightarrow> provider_agent \<Rightarrow> agent_request \<Rightarrow> ('x provider_world, rstr) effect" where
  "agent_call lib a (Generate request) = agent_generate lib a request"
| "agent_call lib a (Critique content c) = agent_critique lib a content c"
| "agent_call lib a (Revise content feedback) = agent_revise lib a content feedback"

fun agent_calls ::
    "'x provider_library \<Rightarrow> (provider_agent \<times> agent_request) list \<Rightarrow> 'x provider_world \<Rightarrow> rstr outcome list \<times> 'x provider_world" where
  "agent_calls lib [] w = ([], w)"
| "agent_calls lib ((a, c) # cs) w =
     (let (r, w1) = agent_call lib a c w; (rs, w2) = agent_calls lib cs w1 in (r # rs, w2))"

fun agent_provider :: "provider_agent \<Rightarrow> string option" where
  "agent_provider (NoopAgent _ _) = None"
| "agent_provider (VllmAgent _ _ _) = Some ''vllm''"
| "agent_provider (OpenAiAgent _ _ _) = Some ''openai''"
| "agent_provider (AnthropicAgent _ _ _) = Some ''anthropic''"

lemma noop_texts:
  "trim (NoopAgent_generate i request) \<noteq> []" "trim (NoopAgent_critique i content) \<noteq> []" "trim (NoopAgent_revise i content) \<noteq> []"
  by (auto simp: trim_eq_Nil_iff NoopAgent_generate_def NoopAgent_critique_def NoopAgent_revise_def lit_def is_whitespace_def)

lemma agent_call_counted:
  assumes "agent_call lib a c w = (r, w')"
  shows "in_flight p (pw_metrics w') = in_flight p (pw_metrics w) \<and>
    failures p (pw_metrics w') = failures p (pw_metrics w) + (if agent_provider a = Some p \<and> \<not> is_ok r then 1 else 0) \<and>
    timed p (pw_metrics w') = timed p (pw_metrics w) + (if agent_provider a = Some p then 1 else 0) \<and>
    (\<forall>text. r = Inr text \<longrightarrow> trim text \<noteq> [])"
proof (cases a)
  case (NoopAgent i sp)
  with assms show ?thesis
    by (cases c) (auto simp: agent_generate_def agent_critique_def agent_revise_def eff_lift_def noop_texts)
next
  case (VllmAgent i sp cfg)
  then obtain system user operation where "VllmAgent_complete lib cfg system user operation w = (r, w')"
    using assms by (cases c) (auto simp: agent_generate_def agent_critique_def agent_revise_def)
  from vllm.call_counted [OF this] VllmAgent show ?thesis by auto
next
  case (OpenAiAgent i sp cfg)
  then obtain system user operation where "OpenAiAgent_complete lib cfg system user operation w = (r, w')"
    using assms by (cases c) (auto simp: agent_generate_def agent_critique_def agent_revise_def)
  from openai.call_counted [OF this] OpenAiAgent show ?thesis by auto
next
  case (AnthropicAgent i sp cfg)
  then obtain system user operation where "AnthropicAgent_complete lib cfg system user operation w = (r, w')"
    using assms by (cases c) (auto simp: agent_generate_def agent_critique_def agent_revise_def)
  from anthropic.call_counted [OF this] AnthropicAgent show ?thesis by auto
qed

section \<open>What the factory builds\<close>

text \<open>The key or token an agent presents, and where the factory has it from.\<close>

fun agent_credential :: "provider_agent \<Rightarrow> rstr option" where
  "agent_credential (NoopAgent _ _) = None"
| "agent_credential (VllmAgent _ _ c) = vc_bearer c"
| "agent_credential (OpenAiAgent _ _ c) = Some (oc_api_key c)"
| "agent_credential (AnthropicAgent _ _ c) = Some (ac_api_key c)"

definition factory_credential :: "dispatching_agent_factory \<Rightarrow> rstr \<Rightarrow> rstr option" where
  "factory_credential f kind =
     (if kind = lit ''anthropic'' then map_option ac_api_key (daf_anthropic f)
      else if kind = lit ''openai'' then map_option oc_api_key (daf_openai f)
      else if kind = lit ''vllm'' then Option.bind (daf_vllm f) vc_bearer
      else None)"

lemma override_keeps:
  assumes "override_with v set_it c = Inr c'" and "\<And>c x c'. set_it c x = Inr c' \<Longrightarrow> field c' = field c"
  shows "field c' = field c"
  using assms by (auto simp: override_with_def split: option.splits)

lemma anthropic_overrides_keep_key: "apply_anthropic_attributes scheme c attrs = Inr c' \<Longrightarrow> ac_api_key c' = ac_api_key c"
  by (auto simp: apply_anthropic_attributes_def result_simps AnthropicConfig_with_model_def AnthropicConfig_with_endpoint_def
      AnthropicConfig_with_max_tokens_def override_with_def split: option.splits if_splits)

lemma openai_overrides_keep_key: "apply_openai_attributes scheme c attrs = Inr c' \<Longrightarrow> oc_api_key c' = oc_api_key c"
  by (auto simp: apply_openai_attributes_def result_simps OpenAiConfig_with_model_def OpenAiConfig_with_endpoint_def
      OpenAiConfig_with_max_tokens_def override_with_def split: option.splits if_splits)

lemma vllm_setters_keep_token:
  "VllmConfig_with_model c m = Inr c' \<Longrightarrow> vc_bearer c' = vc_bearer c"
  "VllmConfig_with_endpoint scheme c e = Inr c' \<Longrightarrow> vc_bearer c' = vc_bearer c"
  "VllmConfig_with_max_tokens c n = Inr c' \<Longrightarrow> vc_bearer c' = vc_bearer c"
  by (auto simp: VllmConfig_with_model_def VllmConfig_with_endpoint_def VllmConfig_with_max_tokens_def result_simps split: if_splits)

lemma vllm_overrides_keep_token:
  assumes "apply_vllm_attributes scheme c attrs = Inr c'"
  shows "vc_bearer c' = vc_bearer c"
proof -
  let ?timeout = "\<lambda>c t. if t = (0 :: 32 word) then Inl (MustBeNonZero ''vllm.timeout_secs'') else Inr (c\<lparr>vc_timeout := unat t\<rparr>)"
  obtain m e n t c1 c2 c3 where
      1: "override_with m VllmConfig_with_model c = Inr c1" and
      2: "override_with e (VllmConfig_with_endpoint scheme) c1 = Inr c2" and
      3: "override_with n VllmConfig_with_max_tokens c2 = Inr c3" and
      4: "override_with t ?timeout c3 = Inr c'"
    using assms unfolding apply_vllm_attributes_def and_then_eq_Inr by blast
  have "vc_bearer c1 = vc_bearer c" by (rule override_keeps [OF 1]) (rule vllm_setters_keep_token)
  moreover have "vc_bearer c2 = vc_bearer c1" by (rule override_keeps [OF 2]) (rule vllm_setters_keep_token)
  moreover have "vc_bearer c3 = vc_bearer c2" by (rule override_keeps [OF 3]) (rule vllm_setters_keep_token)
  moreover have "vc_bearer c' = vc_bearer c3" by (rule override_keeps [OF 4]) (auto split: if_splits)
  ultimately show ?thesis by simp
qed

lemma kinds_distinct:
  "lit ''anthropic'' \<noteq> lit ''noop''" "lit ''openai'' \<noteq> lit ''noop''" "lit ''vllm'' \<noteq> lit ''noop''"
  "lit ''openai'' \<noteq> lit ''anthropic''" "lit ''vllm'' \<noteq> lit ''anthropic''" "lit ''vllm'' \<noteq> lit ''openai''"
  by (simp_all add: lit_def)

lemma factory_builds:
  assumes "DispatchingAgentFactory_create lib f d = Inr a"
  shows "agent_id a = ad_id d \<and> agent_specialty a = ad_specialty d \<and>
    ad_kind d = (case agent_provider a of None \<Rightarrow> lit ''noop'' | Some p \<Rightarrow> lit p) \<and>
    ad_kind d \<in> set (DispatchingAgentFactory_supported_kinds f) \<and>
    agent_credential a = factory_credential f (ad_kind d)"
  using assms kinds_distinct
  by (auto simp: DispatchingAgentFactory_create_def DispatchingAgentFactory_supported_kinds_def factory_credential_def
      AnthropicAgent_new_def OpenAiAgent_new_def VllmAgent_new_def result_simps anthropic_overrides_keep_key
      openai_overrides_keep_key vllm_overrides_keep_token split: if_splits)

text \<open>Which kinds the environment enables.\<close>

lemma factory_from_env_kinds:
  assumes "DispatchingAgentFactory_from_env scheme env = Inr f"
  shows "daf_anthropic f \<noteq> None \<longleftrightarrow> env_nonempty env ''CHOREO_ANTHROPIC_API_KEY'' \<noteq> None"
    and "daf_openai f \<noteq> None \<longleftrightarrow> env_nonempty env ''CHOREO_OPENAI_API_KEY'' \<noteq> None"
    and "daf_vllm f \<noteq> None \<longleftrightarrow>
      env_nonempty env ''CHOREO_VLLM_MODEL'' \<noteq> None \<and> env_nonempty env ''CHOREO_VLLM_ENDPOINT'' \<noteq> None"
  using assms
  by (auto simp: DispatchingAgentFactory_from_env_def result_simps load_anthropic_from_env_def load_openai_from_env_def
      load_vllm_from_env_def split: option.splits)

section \<open>Properties\<close>

text \<open>
  C35. The metrics of model providers are exact over any sequence of calls to any agents: nothing
  stays in flight, every call of an agent with a provider is timed once, the failures recorded for
  a provider are the calls that failed, and a call that succeeds never returns a blank text.
\<close>

theorem provider_calls_accounted:
  assumes "agent_calls lib cs w = (rs, w')"
  shows "length rs = length cs \<and> in_flight p (pw_metrics w') = in_flight p (pw_metrics w) \<and>
    failures p (pw_metrics w') = failures p (pw_metrics w) +
      length (filter (\<lambda>((a, c), r). agent_provider a = Some p \<and> \<not> is_ok r) (zip cs rs)) \<and>
    timed p (pw_metrics w') = timed p (pw_metrics w) + length (filter (\<lambda>(a, c). agent_provider a = Some p) cs) \<and>
    (\<forall>text. Inr text \<in> set rs \<longrightarrow> trim text \<noteq> [])"
  using assms
proof (induction cs arbitrary: w rs)
  case (Cons e cs)
  obtain a c where e: "e = (a, c)" by (cases e)
  obtain r w1 rs' where r: "agent_call lib a c w = (r, w1)" and rs: "agent_calls lib cs w1 = (rs', w')" "rs = r # rs'"
    using Cons.prems by (auto simp: e Let_def split: prod.splits)
  from agent_call_counted [OF r, of p] Cons.IH [OF rs(1)] show ?case by (auto simp: e rs(2))
qed simp

text \<open>An agent of each kind; the provider refuses every request.\<close>

definition demo_library :: "nat provider_library" where
  "demo_library = \<lparr>hl_scheme = (\<lambda>_. Some (lit ''http'')), hl_identity_ok = (\<lambda>_. True), hl_build_ok = (\<lambda>_ _. True), hl_instant = (\<lambda>x. x),
     hl_chat = (\<lambda>url headers body x. (Http_Response 429 None, Suc x)), hl_messages = (\<lambda>url headers body x. (Http_Failed True, Suc x)),
     hl_pretty = \<lparr>pp_rubric = (\<lambda>_. None), pp_bundle = (\<lambda>_. None), pp_contract = (\<lambda>_. None)\<rparr>\<rparr>"

definition demo_calls :: "(provider_agent \<times> agent_request) list" where
  "demo_calls = [(NoopAgent (lit ''n'') (lit ''review''), Revise [] []),
     (OpenAiAgent (lit ''o'') (lit ''review'') (OpenAiConfig_new (lit ''k'')), Revise [] [])]"

theorem provider_calls_accounted_witness:
  "\<exists>rs w'. agent_calls demo_library demo_calls \<lparr>pw_metrics = [], pw_outside = 0\<rparr> = (rs, w') \<and>
     in_flight ''openai'' (pw_metrics w') = 0 \<and> timed ''openai'' (pw_metrics w') = 1"
proof -
  obtain rs w' where run: "agent_calls demo_library demo_calls \<lparr>pw_metrics = [], pw_outside = 0\<rparr> = (rs, w')"
    by (meson surj_pair)
  from provider_calls_accounted [OF run, of "''openai''"] run show ?thesis
    by (auto simp: demo_calls_def timed_def failures_def)
qed

text \<open>
  C36. The factory builds the agent a descriptor asks for: of its id and specialty, of the named
  kind, which is one the factory reports as supported, and with the credential of the factory,
  which nothing in the descriptor can change.  A factory from the environment supports a provider
  exactly when its required variables are not blank.
\<close>

theorem factory_builds_described_agent:
  "(DispatchingAgentFactory_create lib f d = Inr a \<longrightarrow>
      agent_id a = ad_id d \<and> agent_specialty a = ad_specialty d \<and>
      ad_kind d = (case agent_provider a of None \<Rightarrow> lit ''noop'' | Some p \<Rightarrow> lit p) \<and>
      ad_kind d \<in> set (DispatchingAgentFactory_supported_kinds f) \<and>
      agent_credential a = factory_credential f (ad_kind d)) \<and>
   (DispatchingAgentFactory_from_env scheme env = Inr f \<longrightarrow>
      (lit ''openai'' \<in> set (DispatchingAgentFactory_supported_kinds f) \<longleftrightarrow> env_nonempty env ''CHOREO_OPENAI_API_KEY'' \<noteq> None) \<and>
      (lit ''anthropic'' \<in> set (DispatchingAgentFactory_supported_kinds f) \<longleftrightarrow> env_nonempty env ''CHOREO_ANTHROPIC_API_KEY'' \<noteq> None) \<and>
      (lit ''vllm'' \<in> set (DispatchingAgentFactory_supported_kinds f) \<longleftrightarrow>
        env_nonempty env ''CHOREO_VLLM_MODEL'' \<noteq> None \<and> env_nonempty env ''CHOREO_VLLM_ENDPOINT'' \<noteq> None))"
proof -
  have "lit ''openai'' \<in> set (DispatchingAgentFactory_supported_kinds f) \<longleftrightarrow> daf_openai f \<noteq> None"
    "lit ''anthropic'' \<in> set (DispatchingAgentFactory_supported_kinds f) \<longleftrightarrow> daf_anthropic f \<noteq> None"
    "lit ''vllm'' \<in> set (DispatchingAgentFactory_supported_kinds f) \<longleftrightarrow> daf_vllm f \<noteq> None"
    using kinds_distinct by (auto simp: DispatchingAgentFactory_supported_kinds_def)
  then show ?thesis using factory_builds [of lib f d a] factory_from_env_kinds [of scheme env f] by (intro conjI impI) blast+
qed

theorem factory_builds_described_agent_witness:
  "agent_credential (OpenAiAgent (lit ''o'') (lit ''review'') (OpenAiConfig_new (lit ''k''))) = Some (lit ''k'') \<and>
   DispatchingAgentFactory_create demo_library (DispatchingAgentFactory_new\<lparr>daf_openai := Some (OpenAiConfig_new (lit ''k''))\<rparr>)
     \<lparr>ad_id = lit ''o'', ad_specialty = lit ''review'', ad_kind = lit ''openai'', ad_attributes = []\<rparr> =
     Inr (OpenAiAgent (lit ''o'') (lit ''review'') (OpenAiConfig_new (lit ''k'')))"
proof -
  let ?f = "DispatchingAgentFactory_new\<lparr>daf_openai := Some (OpenAiConfig_new (lit ''k''))\<rparr>"
  have made: "DispatchingAgentFactory_create demo_library ?f
     \<lparr>ad_id = lit ''o'', ad_specialty = lit ''review'', ad_kind = lit ''openai'', ad_attributes = []\<rparr> =
     Inr (OpenAiAgent (lit ''o'') (lit ''review'') (OpenAiConfig_new (lit ''k'')))"
    using kinds_distinct
    by (simp add: DispatchingAgentFactory_create_def apply_openai_attributes_def attr_string_def attr_u32_def override_with_def
        OpenAiAgent_new_def demo_library_def)
  from factory_builds_described_agent [THEN conjunct1, rule_format, OF made] made show ?thesis
    using kinds_distinct by (simp add: factory_credential_def OpenAiConfig_new_def)
qed

end
