(* ===== verification/Redb_Keys.thy ===== *)
theory Redb_Keys
  imports Ceremony_Store
begin

text \<open>
  The keys of the embedded store (\<open>choreo-adapters/src/redb/keys.rs\<close>).  A record of a ceremony is
  filed under the bytes of the id, a zero byte and a big-endian ordinal.  The order of such keys is
  shown to be the order of ids, then of ordinals, so that a scan of a range returns the records of
  one ceremony in the order they were written, and a scan of the table the ceremonies in the order
  of their ids.
\<close>

section \<open>Keys\<close>

definition SEPARATOR :: byte where
  "SEPARATOR = 0"

definition ORDINAL_BYTES :: nat where
  "ORDINAL_BYTES = 8"

definition scoped :: "rstr \<Rightarrow> 64 word \<Rightarrow> bytes" where
  "scoped ceremony_id ordinal = as_bytes ceremony_id @ [SEPARATOR] @ be_bytes 8 (unat ordinal)"

definition scope_range :: "rstr \<Rightarrow> bytes \<times> bytes" where
  "scope_range ceremony_id = (scoped ceremony_id 0, scoped ceremony_id (- 1))"

definition ceremony_of :: "bytes \<Rightarrow> bytes option" where
  "ceremony_of key =
     (if length key < ORDINAL_BYTES + 1 then None else Some (take (length key - (ORDINAL_BYTES + 1)) key))"

text \<open>The length of the name is cast to sixteen bits.\<close>

definition published_key :: "rstr \<Rightarrow> rstr \<Rightarrow> bytes" where
  "published_key name version =
     be_bytes 2 (length (as_bytes name) mod 2 ^ 16) @ as_bytes name @ as_bytes version"

section \<open>Lexicographic order\<close>

lemma append_less_iff:
  fixes x y u v :: "'a::linorder list"
  assumes "length x = length y"
  shows "x @ u < y @ v \<longleftrightarrow> x < y \<or> x = y \<and> u < v"
  using assms by (induction x y rule: list_induct2) auto

lemma map_strict_mono:
  fixes f :: "'a::linorder \<Rightarrow> 'b::linorder"
  assumes "\<And>a b. \<lbrakk>a \<in> set x \<union> set y; b \<in> set x \<union> set y; a < b\<rbrakk> \<Longrightarrow> f a < f b" and "x < y"
  shows "map f x < map f y"
  using assms
proof (induction x arbitrary: y)
  case Nil
  then show ?case by (cases y) auto
next
  case (Cons a x)
  then obtain b z where y: "y = b # z" by (cases y) auto
  show ?case
  proof (cases "a < b")
    case True
    then show ?thesis using Cons.prems(1) [of a b] y by auto
  next
    case False
    then have "a = b" "x < z" using Cons.prems(2) y by auto
    moreover have "map f x < map f z" using Cons.prems(1) y \<open>x < z\<close> by (intro Cons.IH) auto
    ultimately show ?thesis using y by simp
  qed
qed

lemma word_of_nat_byte_less: "\<lbrakk>a < b; b < 256\<rbrakk> \<Longrightarrow> (word_of_nat a :: byte) < word_of_nat b"
  by (simp add: word_less_nat_alt unat_of_nat)

lemma be_bytes_less: "\<lbrakk>m < n; n < 256 ^ k\<rbrakk> \<Longrightarrow> be_bytes k m < be_bytes k n"
proof (induction k arbitrary: m n)
  case 0
  then show ?case by simp
next
  case (Suc k)
  have bound: "n div 256 < 256 ^ k" using Suc.prems(2) by (simp add: less_mult_imp_div_less mult.commute)
  consider "m div 256 < n div 256" | "m div 256 = n div 256" "m mod 256 < n mod 256"
    using Suc.prems(1) by (metis div_le_mono less_imp_le le_neq_implies_less mod_div_trivial mod_div_mult_eq add_less_cancel_right)
  then show ?case
  proof cases
    case 1
    from Suc.IH [OF this bound] show ?thesis by (simp add: append_less_iff)
  next
    case 2
    then have "(word_of_nat (m mod 256) :: byte) < word_of_nat (n mod 256)" by (intro word_of_nat_byte_less) simp_all
    with 2(1) show ?thesis by (simp add: append_less_iff)
  qed
qed

section \<open>The order of texts is the order of their bytes\<close>

lemma base_64_less:
  fixes c d :: nat
  assumes "c < d"
  shows "c div 64 < d div 64 \<or> c div 64 = d div 64 \<and> c mod 64 < d mod 64"
proof (cases "c div 64 = d div 64")
  case True
  with assms show ?thesis by (metis add_less_cancel_left mult_div_mod_eq)
next
  case False
  then show ?thesis using div_le_mono [of c d 64] assms by linarith
qed

lemma utf8_char_less:
  assumes "c < d" and "scalar d"
  shows "utf8_char c @ x < utf8_char d @ y"
proof -
  have 1: "c div 64 < d div 64 \<or> c div 64 = d div 64 \<and> c mod 64 < d mod 64" by (rule base_64_less) fact
  have 2: "c div 4096 < d div 4096 \<or> c div 4096 = d div 4096 \<and> c div 64 mod 64 < d div 64 mod 64" if "c div 64 < d div 64"
    using base_64_less [OF that] by (simp add: div_mult2_eq [symmetric])
  have 3: "c div 262144 < d div 262144 \<or> c div 262144 = d div 262144 \<and> c div 4096 mod 64 < d div 4096 mod 64" if "c div 4096 < d div 4096"
    using base_64_less [OF that] by (simp add: div_mult2_eq [symmetric])
  have eq: "c div 64 = d div 64 \<Longrightarrow> c div 4096 = d div 4096" "c div 4096 = d div 4096 \<Longrightarrow> c div 262144 = d div 262144"
    using div_mult2_eq [of c 64 64] div_mult2_eq [of d 64 64] div_mult2_eq [of c 4096 64] div_mult2_eq [of d 4096 64] by simp_all
  consider "d < 128" | "128 \<le> d" "d < 2048" | "2048 \<le> d" "d < 65536" | "65536 \<le> d" by linarith
  then show ?thesis
  proof cases
    case 1
    then show ?thesis using assms(1) by (simp add: utf8_char_def)
  next
    case 2
    then show ?thesis using assms(1) 1 by (cases "c < 128") (auto simp: utf8_char_def)
  next
    case 3
    have "192 + c div 64 < 224 + d div 4096" if "c < 2048" using that less_mult_imp_div_less [of c 32 64] by simp
    with 3 show ?thesis using assms(1) 1 2 eq(1) by (cases "c < 2048") (auto simp: utf8_char_def)
  next
    case 4
    have "192 + c div 64 < 240 + d div 262144" if "c < 2048" using that less_mult_imp_div_less [of c 32 64] by simp
    moreover have "224 + c div 4096 < 240 + d div 262144" if "c < 65536" using that less_mult_imp_div_less [of c 16 4096] by simp
    ultimately have "utf8_char c @ x < utf8_char d @ y" if "c < 65536" using that 4 by (simp add: utf8_char_def)
    moreover have "utf8_char c @ x < utf8_char d @ y" if "65536 \<le> c" using that 4 1 2 3 eq by (auto simp: utf8_char_def)
    ultimately show ?thesis by linarith
  qed
qed

text \<open>The texts of identifiers: scalar values, none of them the separator.\<close>

definition key_text :: "rstr \<Rightarrow> bool" where
  "key_text s = (list_all scalar s \<and> 0 \<notin> set s)"

lemma ceremony_id_key_text: "\<lbrakk>CeremonyId_new raw = Inr s; list_all scalar raw\<rbrakk> \<Longrightarrow> key_text s"
  using set_trim [of raw] by (auto simp: CeremonyId_new_def checked_text_eq_Inr canonical_text_def key_text_def list_all_iff is_control_def)

lemma utf8_positive: "\<lbrakk>c \<noteq> 0; b \<in> set (utf8_char c)\<rbrakk> \<Longrightarrow> 0 < b"
  by (auto simp: utf8_char_def split: if_splits)

lemma utf8_text_less:
  assumes "s < t" and "list_all scalar t" and "0 \<notin> set t" and "x = [] \<or> hd x = 0"
  shows "concat (map utf8_char s) @ x < concat (map utf8_char t) @ y"
  using assms(1-3)
proof (induction s arbitrary: t)
  case Nil
  then obtain c r where t: "t = c # r" by (cases t) auto
  then obtain b u where u: "utf8_char c = b # u" by (cases "utf8_char c") auto
  then have "0 < b" using utf8_positive [of c b] Nil t by auto
  then show ?case using assms(4) by (cases x) (auto simp: t u)
next
  case (Cons c s)
  then obtain d r where t: "t = d # r" by (cases t) auto
  show ?case
  proof (cases "c < d")
    case True
    then show ?thesis using utf8_char_less [OF True] Cons.prems(2) by (simp add: t)
  next
    case False
    then have "c = d" "s < r" using Cons.prems(1) t by auto
    then show ?thesis using Cons.IH [of r] Cons.prems(2,3) by (simp add: t append_less_iff)
  qed
qed

lemma text_bytes_bound: "list_all scalar s \<Longrightarrow> b \<in> set (concat (map utf8_char s)) \<Longrightarrow> b < 256"
  by (auto simp: list_all_iff dest: utf8_char_bound)

lemma map_of_nat_unat [simp]: "map (word_of_nat \<circ> unat) (x :: bytes) = x"
  by (simp add: map_idI)

lemma as_bytes_append_less:
  assumes "s < t" and "key_text s" and "key_text t" and "x = [] \<or> hd x = 0"
  shows "as_bytes s @ x < as_bytes t @ y"
proof -
  let ?m = "\<lambda>u v. concat (map utf8_char u) @ map unat (v :: bytes)"
  have "?m s x < ?m t y" using assms by (intro utf8_text_less; cases x) (auto simp: key_text_def)
  moreover have "a < 256" if "a \<in> set (?m s x) \<union> set (?m t y)" for a
    using that assms(2,3) unsigned_less [where 'b = 8 and 'a = nat] by (auto simp: key_text_def intro: text_bytes_bound simp del: set_concat)
  ultimately have "map (word_of_nat :: nat \<Rightarrow> byte) (?m s x) < map word_of_nat (?m t y)"
    by (intro map_strict_mono word_of_nat_byte_less) auto
  then show ?thesis by (simp add: as_bytes_def)
qed

lemma as_bytes_less_iff: "\<lbrakk>key_text s; key_text t\<rbrakk> \<Longrightarrow> as_bytes s < as_bytes t \<longleftrightarrow> s < t"
  using as_bytes_append_less [of s t "[]" "[]"] as_bytes_append_less [of t s "[]" "[]"] by (cases s t rule: linorder_cases) auto

lemma as_bytes_eq_iff: "\<lbrakk>key_text s; key_text t\<rbrakk> \<Longrightarrow> as_bytes s = as_bytes t \<longleftrightarrow> s = t"
  using as_bytes_inj by (auto simp: key_text_def)

section \<open>The order of keys\<close>

lemma scoped_ordinal_less: "scoped s m < scoped s n \<longleftrightarrow> m < n"
proof -
  have "scoped s m < scoped s n" if "m < n" for m n
    using be_bytes_less [of "unat m" "unat n" 8] that unsigned_less [of n, where 'a = nat]
    by (simp add: scoped_def append_less_iff word_less_nat_alt)
  then show ?thesis by (metis linorder_neqE not_less_iff_gr_or_eq)
qed

lemma scoped_id_less: "\<lbrakk>s < t; key_text s; key_text t\<rbrakk> \<Longrightarrow> scoped s m < scoped t n"
  unfolding scoped_def by (rule as_bytes_append_less) (auto simp: SEPARATOR_def)

lemma scoped_less_iff:
  assumes "key_text s" and "key_text t"
  shows "scoped s m < scoped t n \<longleftrightarrow> s < t \<or> s = t \<and> m < n"
  using scoped_id_less [of s t m n] scoped_id_less [of t s n m] scoped_ordinal_less [of s m n] assms
  by (cases s t rule: linorder_cases) auto

lemma scoped_eq_iff: "\<lbrakk>key_text s; key_text t\<rbrakk> \<Longrightarrow> scoped s m = scoped t n \<longleftrightarrow> s = t \<and> m = n"
  using scoped_less_iff [of s t m n] scoped_less_iff [of t s n m] by (metis linorder_neqE order.strict_iff_not order_refl)

text \<open>A range covers the records of its ceremony and no other.\<close>

lemma in_scope_range:
  assumes "key_text s" and "key_text t"
  shows "fst (scope_range s) \<le> scoped t n \<and> scoped t n \<le> snd (scope_range s) \<longleftrightarrow> t = s"
proof -
  have "scoped t n < scoped s 0 \<longleftrightarrow> t < s" "scoped s (- 1) < scoped t n \<longleftrightarrow> s < t"
    using scoped_less_iff [OF assms(2,1), of n 0] scoped_less_iff [OF assms, of "- 1" n] by (auto simp: not_less)
  then show ?thesis by (auto simp: scope_range_def not_less [symmetric])
qed

lemma ceremony_of_scoped [simp]: "ceremony_of (scoped s n) = Some (as_bytes s)"
  by (simp add: ceremony_of_def scoped_def ORDINAL_BYTES_def)

end
