(* ===== verification/Redb_Store.thy ===== *)
theory Redb_Store
  imports Redb_Keys Definition_Publications
begin

text \<open>
  The embedded store (\<open>choreo-adapters/src/redb/ceremony_store.rs\<close>), which keeps sessions, journals,
  outbox and publications in four tables of one redb file.  The engine is a parameter: a record of
  its calls, each of which may fail.  A database \<open>'d\<close> is what the file and the process hold, a
  transaction \<open>'t\<close> is what its holder sees.  The encoded form \<open>'b\<close> of a row and the functions of
  serde\_json that write and read it are parameters as well.  A transaction that is dropped leaves no
  trace.  \<open>None\<close> from \<open>claim\<close> is the panic of adding the lease to an instant outside the calendar.
\<close>

section \<open>The engine\<close>

datatype redb_table = CEREMONIES | JOURNAL | OUTBOX | PUBLICATIONS

record ('d, 't, 'b) redb_engine =
  rd_spawn_blocking :: "'d \<Rightarrow> 'd \<times> bool"
  rd_begin_write :: "'d \<Rightarrow> 'd \<times> 't option"
  rd_begin_read :: "'d \<Rightarrow> 'd \<times> 't option"
  rd_open_table :: "redb_table \<Rightarrow> 't \<Rightarrow> bool"
  rd_get :: "redb_table \<Rightarrow> bytes \<Rightarrow> 't \<Rightarrow> 'b option option"
  rd_range :: "redb_table \<Rightarrow> (bytes \<times> bytes) option \<Rightarrow> 't \<Rightarrow> (bytes \<times> 'b) option list option"
  rd_insert :: "redb_table \<Rightarrow> bytes \<Rightarrow> 'b \<Rightarrow> 't \<Rightarrow> 't option"
  rd_commit :: "'t \<Rightarrow> 'd \<Rightarrow> 'd \<times> bool"

text \<open>The rows: \<open>StoredCeremony\<close> and \<open>StoredPublication\<close>; \<open>StoredOutboxMessage\<close> has the fields of the one in memory.\<close>

record durable_ceremony =
  dc_revision :: ceremony_revision
  dc_instance :: ceremony_instance

record durable_publication =
  dp_definition :: ceremony_definition
  dp_digest :: digest

record 'b row_codec =
  rc_ceremony :: "durable_ceremony \<Rightarrow> 'b option"
  rc_ceremony_from :: "'b \<Rightarrow> durable_ceremony option"
  rc_record :: "audit_record \<Rightarrow> 'b option"
  rc_record_from :: "'b \<Rightarrow> audit_record option"
  rc_message :: "stored_outbox_message \<Rightarrow> 'b option"
  rc_message_from :: "'b \<Rightarrow> stored_outbox_message option"
  rc_publication :: "durable_publication \<Rightarrow> 'b option"
  rc_publication_from :: "'b \<Rightarrow> durable_publication option"

definition store_failure :: domain_error where
  "store_failure = InvariantViolated ''redb: persistence backend failed''"

definition encoding_failure :: domain_error where
  "encoding_failure = InvariantViolated ''redb: stored record could not be encoded or decoded''"

definition join_failure :: domain_error where
  "join_failure = InvariantViolated ''redb: storage task did not complete''"

definition encode :: "('x \<Rightarrow> 'b option) \<Rightarrow> 'x \<Rightarrow> 'b outcome" where
  "encode to_vec value = ok_or (to_vec value) encoding_failure"

definition decode :: "('b \<Rightarrow> 'x option) \<Rightarrow> 'b \<Rightarrow> 'x outcome" where
  "decode from_slice bytes = ok_or (from_slice bytes) encoding_failure"

section \<open>Transactions\<close>

definition blocking :: "('d, 't, 'b) redb_engine \<Rightarrow> ('d \<Rightarrow> 'd \<times> 'r outcome) \<Rightarrow> 'd \<Rightarrow> 'd \<times> 'r outcome" where
  "blocking e work d =
     (case rd_spawn_blocking e d of (d1, completed) \<Rightarrow> if completed then work d1 else (d1, Inl join_failure))"

text \<open>
  The frame of a port call that writes: begin, work on the transaction, and commit what the work
  returned unless it asks to drop the transaction.
\<close>

definition with_write ::
    "('d, 't, 'b) redb_engine \<Rightarrow> ('t \<Rightarrow> ('t \<times> 'r \<times> bool) outcome) \<Rightarrow> 'd \<Rightarrow> 'd \<times> 'r outcome" where
  "with_write e work d =
     (case rd_begin_write e d of
        (d1, None) \<Rightarrow> (d1, Inl store_failure)
      | (d1, Some t) \<Rightarrow>
          (case work t of
             Inl err \<Rightarrow> (d1, Inl err)
           | Inr (t', r, keep) \<Rightarrow>
               if \<not> keep then (d1, Inr r)
               else case rd_commit e t' d1 of (d2, ok) \<Rightarrow> (d2, if ok then Inr r else Inl store_failure)))"

definition with_read :: "('d, 't, 'b) redb_engine \<Rightarrow> ('t \<Rightarrow> 'r outcome) \<Rightarrow> 'd \<Rightarrow> 'd \<times> 'r outcome" where
  "with_read e work d =
     (case rd_begin_read e d of
        (d1, None) \<Rightarrow> (d1, Inl store_failure)
      | (d1, Some t) \<Rightarrow> (d1, work t))"

definition open_tbl :: "('d, 't, 'b) redb_engine \<Rightarrow> redb_table \<Rightarrow> 't \<Rightarrow> unit outcome" where
  "open_tbl e tbl t = ensure (rd_open_table e tbl t) store_failure"

definition insert_row :: "('d, 't, 'b) redb_engine \<Rightarrow> redb_table \<Rightarrow> bytes \<Rightarrow> 'b \<Rightarrow> 't \<Rightarrow> 't outcome" where
  "insert_row e tbl key row t = ok_or (rd_insert e tbl key row t) store_failure"

text \<open>\<open>get(..).map_err(..)?.map(decode).transpose()?\<close>\<close>

definition read_row ::
    "('d, 't, 'b) redb_engine \<Rightarrow> redb_table \<Rightarrow> ('b \<Rightarrow> 'x option) \<Rightarrow> bytes \<Rightarrow> 't \<Rightarrow> 'x option outcome" where
  "read_row e tbl from_slice key t =
     and_then (ok_or (rd_get e tbl key t) store_failure) (\<lambda>found.
     case found of None \<Rightarrow> Inr None | Some row \<Rightarrow> map_ok Some (decode from_slice row))"

text \<open>A loop over a range that decodes every entry.\<close>

definition scan_rows ::
    "('d, 't, 'b) redb_engine \<Rightarrow> redb_table \<Rightarrow> (bytes \<times> bytes) option \<Rightarrow> ('b \<Rightarrow> 'x option) \<Rightarrow> 't \<Rightarrow> (bytes \<times> 'x) list outcome" where
  "scan_rows e tbl keys from_slice t =
     and_then (ok_or (rd_range e tbl keys t) store_failure) (try_map (\<lambda>entry.
       and_then (ok_or entry store_failure) (\<lambda>(key, row). map_ok (Pair key) (decode from_slice row))))"

definition RedbCeremonyStore_open ::
    "('d, 't, 'b) redb_engine \<Rightarrow> ('p \<Rightarrow> 'd option) \<Rightarrow> 'p \<Rightarrow> 'd outcome" where
  "RedbCeremonyStore_open e create path =
     and_then (ok_or (create path) store_failure) (\<lambda>d.
     case with_write e (\<lambda>t.
         and_then (open_tbl e CEREMONIES t) (\<lambda>_. and_then (open_tbl e JOURNAL t) (\<lambda>_.
         and_then (open_tbl e OUTBOX t) (\<lambda>_. and_then (open_tbl e PUBLICATIONS t) (\<lambda>_. Inr (t, (), True)))))) d
     of (d', r) \<Rightarrow> map_ok (\<lambda>_. d') r)"

section \<open>Unit of work\<close>

definition journal_of :: "('d, 't, 'b) redb_engine \<Rightarrow> 'b row_codec \<Rightarrow> rstr \<Rightarrow> 't \<Rightarrow> audit_record list outcome" where
  "journal_of e c ceremony_id t = map_ok (map snd) (scan_rows e JOURNAL (Some (scope_range ceremony_id)) (rc_record_from c) t)"

text \<open>\<open>pop\<close> of a vector of records.\<close>

definition pop_last :: "'a list \<Rightarrow> 'a option" where
  "pop_last xs = (if xs = [] then None else Some (last xs))"

fun seal_onto ::
    "(bytes \<Rightarrow> digest) \<Rightarrow> (timestamp \<Rightarrow> rstr option) \<Rightarrow> audit_record option \<Rightarrow> audit_fact \<Rightarrow> audit_record outcome" where
  "seal_onto sha256 rfc3339 None f = AuditRecord_first sha256 rfc3339 f"
| "seal_onto sha256 rfc3339 (Some previous) f = AuditRecord_following sha256 rfc3339 f previous"

definition append_record ::
    "('d, 't, 'b) redb_engine \<Rightarrow> 'b row_codec \<Rightarrow> rstr \<Rightarrow> audit_record \<Rightarrow> 't \<Rightarrow> 't outcome" where
  "append_record e c ceremony_id r t =
     and_then (encode (rc_record c) r) (\<lambda>row. insert_row e JOURNAL (scoped ceremony_id (arec_sequence r)) row t)"

fun append_records ::
    "('d, 't, 'b) redb_engine \<Rightarrow> 'b row_codec \<Rightarrow> (bytes \<Rightarrow> digest) \<Rightarrow> (timestamp \<Rightarrow> rstr option) \<Rightarrow> rstr
      \<Rightarrow> audit_record option \<Rightarrow> audit_fact list \<Rightarrow> 't \<Rightarrow> (audit_record list \<times> 't) outcome" where
  "append_records e c sha256 rfc3339 ceremony_id head [] t = Inr ([], t)"
| "append_records e c sha256 rfc3339 ceremony_id head (f # fs) t =
     and_then (seal_onto sha256 rfc3339 head f) (\<lambda>r.
     and_then (append_record e c ceremony_id r t) (\<lambda>t1.
     map_ok (\<lambda>(sealed, t2). (r # sealed, t2)) (append_records e c sha256 rfc3339 ceremony_id (Some r) fs t1)))"

fun enqueue_messages ::
    "('d, 't, 'b) redb_engine \<Rightarrow> 'b row_codec \<Rightarrow> rstr \<Rightarrow> 64 word \<Rightarrow> outbox_message list \<Rightarrow> 't \<Rightarrow> 't outcome" where
  "enqueue_messages e c ceremony_id ordinal [] t = Inr t"
| "enqueue_messages e c ceremony_id ordinal (m # ms) t =
     and_then (encode (rc_message c) (StoredOutboxMessage_new m)) (\<lambda>row.
     and_then (insert_row e OUTBOX (scoped ceremony_id ordinal) row t) (\<lambda>t1.
     enqueue_messages e c ceremony_id (ordinal + 1) ms t1))"

definition stored_row :: "('d, 't, 'b) redb_engine \<Rightarrow> 'b row_codec \<Rightarrow> rstr \<Rightarrow> 't \<Rightarrow> durable_ceremony option outcome" where
  "stored_row e c ceremony_id t =
     and_then (open_tbl e CEREMONIES t) (\<lambda>_. read_row e CEREMONIES (rc_ceremony_from c) (as_bytes ceremony_id) t)"

text \<open>What a commit writes once its expected revision matched: records, then messages and the session.\<close>

definition settle_commit ::
    "('d, 't, 'b) redb_engine \<Rightarrow> 'b row_codec \<Rightarrow> ceremony_commit \<Rightarrow> audit_record list \<Rightarrow> 't \<Rightarrow> ('t \<times> commit_outcome \<times> bool) outcome" where
  "settle_commit e c commit sealed t =
     (let ceremony_id = inst_id (commit_instance commit);
          revision = ExpectedRevision_resulting_revision (commit_expected_revision commit) in
      and_then (open_tbl e OUTBOX t) (\<lambda>_.
      and_then (ok_or (rd_range e OUTBOX (Some (scope_range ceremony_id)) t) store_failure) (\<lambda>enqueued.
      and_then (enqueue_messages e c ceremony_id (word_of_nat (length enqueued)) (commit_messages commit) t) (\<lambda>t1.
      and_then (and_then (encode (rc_ceremony c) \<lparr>dc_revision = revision, dc_instance = commit_instance commit\<rparr>) (\<lambda>row.
        insert_row e CEREMONIES (as_bytes ceremony_id) row t1)) (\<lambda>t2.
      Inr (t2, Committed revision sealed, True))))))"

definition write_commit ::
    "('d, 't, 'b) redb_engine \<Rightarrow> 'b row_codec \<Rightarrow> (bytes \<Rightarrow> digest) \<Rightarrow> (timestamp \<Rightarrow> rstr option)
      \<Rightarrow> ceremony_commit \<Rightarrow> 't \<Rightarrow> ('t \<times> commit_outcome \<times> bool) outcome" where
  "write_commit e c sha256 rfc3339 commit t =
     and_then (open_tbl e JOURNAL t) (\<lambda>_.
     and_then (journal_of e c (inst_id (commit_instance commit)) t) (\<lambda>journal.
     and_then (append_records e c sha256 rfc3339 (inst_id (commit_instance commit)) (pop_last journal) (commit_facts commit) t)
       (\<lambda>(sealed, t1). settle_commit e c commit sealed t1)))"

definition commit_work ::
    "('d, 't, 'b) redb_engine \<Rightarrow> 'b row_codec \<Rightarrow> (bytes \<Rightarrow> digest) \<Rightarrow> (timestamp \<Rightarrow> rstr option)
      \<Rightarrow> ceremony_commit \<Rightarrow> 't \<Rightarrow> ('t \<times> commit_outcome \<times> bool) outcome" where
  "commit_work e c sha256 rfc3339 commit t =
     and_then (stored_row e c (inst_id (commit_instance commit)) t) (\<lambda>stored.
     let expected = commit_expected_revision commit; stored_revision = map_option dc_revision stored in
     if \<not> ExpectedRevision_matches expected stored_revision
     then Inr (t, CommitConflict expected stored_revision, False)
     else write_commit e c sha256 rfc3339 commit t)"

definition redb_commit ::
    "('d, 't, 'b) redb_engine \<Rightarrow> 'b row_codec \<Rightarrow> (bytes \<Rightarrow> digest) \<Rightarrow> (timestamp \<Rightarrow> rstr option)
      \<Rightarrow> ceremony_commit \<Rightarrow> 'd \<Rightarrow> 'd \<times> commit_outcome outcome" where
  "redb_commit e c sha256 rfc3339 commit = blocking e (with_write e (commit_work e c sha256 rfc3339 commit))"

definition redb_revision :: "('d, 't, 'b) redb_engine \<Rightarrow> 'b row_codec \<Rightarrow> rstr \<Rightarrow> 'd \<Rightarrow> 'd \<times> ceremony_revision option outcome" where
  "redb_revision e c ceremony_id =
     blocking e (with_read e (\<lambda>t. map_ok (map_option dc_revision) (stored_row e c ceremony_id t)))"

section \<open>Audit journal\<close>

definition redb_append ::
    "('d, 't, 'b) redb_engine \<Rightarrow> 'b row_codec \<Rightarrow> (bytes \<Rightarrow> digest) \<Rightarrow> (timestamp \<Rightarrow> rstr option)
      \<Rightarrow> audit_fact \<Rightarrow> 'd \<Rightarrow> 'd \<times> audit_record outcome" where
  "redb_append e c sha256 rfc3339 f = blocking e (with_write e (\<lambda>t.
     and_then (open_tbl e JOURNAL t) (\<lambda>_.
     and_then (journal_of e c (fact_ceremony_id f) t) (\<lambda>journal.
     and_then (seal_onto sha256 rfc3339 (pop_last journal) f) (\<lambda>r.
     and_then (append_record e c (fact_ceremony_id f) r t) (\<lambda>t1. Inr (t1, r, True)))))))"

definition redb_records :: "('d, 't, 'b) redb_engine \<Rightarrow> 'b row_codec \<Rightarrow> rstr \<Rightarrow> 'd \<Rightarrow> 'd \<times> audit_record list outcome" where
  "redb_records e c ceremony_id =
     blocking e (with_read e (\<lambda>t. and_then (open_tbl e JOURNAL t) (\<lambda>_. journal_of e c ceremony_id t)))"

definition redb_head :: "('d, 't, 'b) redb_engine \<Rightarrow> 'b row_codec \<Rightarrow> rstr \<Rightarrow> 'd \<Rightarrow> 'd \<times> audit_record option outcome" where
  "redb_head e c ceremony_id d = (case redb_records e c ceremony_id d of (d', r) \<Rightarrow> (d', map_ok pop_last r))"

section \<open>Outbox\<close>

definition read_outbox :: "('d, 't, 'b) redb_engine \<Rightarrow> 'b row_codec \<Rightarrow> 't \<Rightarrow> (bytes \<times> stored_outbox_message) list outcome" where
  "read_outbox e c t = scan_rows e OUTBOX None (rc_message_from c) t"

fun write_messages ::
    "('d, 't, 'b) redb_engine \<Rightarrow> 'b row_codec \<Rightarrow> (bytes \<times> stored_outbox_message) list \<Rightarrow> 't \<Rightarrow> 't outcome" where
  "write_messages e c [] t = Inr t"
| "write_messages e c ((key, m) # ms) t =
     and_then (encode (rc_message c) m) (\<lambda>row. and_then (insert_row e OUTBOX key row t) (write_messages e c ms))"

text \<open>
  The first loop of \<open>claim\<close>: of every ceremony the first message that is not delivered decides, and
  it is taken if it is claimable and the limit is not reached.
\<close>

fun take_claimable ::
    "nat \<Rightarrow> timestamp \<Rightarrow> bytes option \<Rightarrow> nat \<Rightarrow> (bytes \<times> stored_outbox_message) list
      \<Rightarrow> (bytes \<times> stored_outbox_message) list" where
  "take_claimable limit now decided n [] = []"
| "take_claimable limit now decided n ((key, stored) # entries) =
     (let ceremony = (case ceremony_of key of None \<Rightarrow> [] | Some c \<Rightarrow> c) in
      if decided = Some ceremony then take_claimable limit now decided n entries
      else if so_delivered stored then take_claimable limit now decided n entries
      else if \<not> StoredOutboxMessage_is_claimable stored now \<or> limit \<le> n
      then take_claimable limit now (Some ceremony) n entries
      else (key, stored) # take_claimable limit now (Some ceremony) (Suc n) entries)"

definition redb_claim ::
    "('d, 't, 'b) redb_engine \<Rightarrow> 'b row_codec \<Rightarrow> (timestamp \<Rightarrow> nat \<Rightarrow> timestamp option) \<Rightarrow> nat \<Rightarrow> timestamp \<Rightarrow> duration_ms
      \<Rightarrow> 'd \<Rightarrow> ('d \<times> claimed_outbox_message list outcome) option" where
  "redb_claim e c checked_add limit now lease d =
     (case checked_add now (unat lease) of
        None \<Rightarrow> None
      | Some lease_until \<Rightarrow> Some (blocking e (with_write e (\<lambda>t.
          and_then (open_tbl e OUTBOX t) (\<lambda>_.
          and_then (read_outbox e c t) (\<lambda>entries.
          let taken = take_claimable limit now None 0 entries;
              marked = map (\<lambda>(key, m). (key, m\<lparr>so_claimed_until := Some lease_until\<rparr>)) taken in
          and_then (write_messages e c marked t) (\<lambda>t1.
          Inr (t1, map (\<lambda>(key, m). \<lparr>claimed_message = so_message m, claimed_attempt = so_attempt m\<rparr>) marked, True)))))) d))"

text \<open>\<open>change\<close> says what becomes of a message, or leaves it alone.\<close>

definition update_messages ::
    "('d, 't, 'b) redb_engine \<Rightarrow> 'b row_codec \<Rightarrow> (stored_outbox_message \<Rightarrow> stored_outbox_message option) \<Rightarrow> 'd \<Rightarrow> 'd \<times> unit outcome" where
  "update_messages e c change = blocking e (with_write e (\<lambda>t.
     and_then (open_tbl e OUTBOX t) (\<lambda>_.
     and_then (read_outbox e c t) (\<lambda>entries.
     and_then (write_messages e c (List.map_filter (\<lambda>(key, m). map_option (Pair key) (change m)) entries) t) (\<lambda>t1.
     Inr (t1, (), True))))))"

definition redb_mark_delivered :: "('d, 't, 'b) redb_engine \<Rightarrow> 'b row_codec \<Rightarrow> rstr list \<Rightarrow> 'd \<Rightarrow> 'd \<times> unit outcome" where
  "redb_mark_delivered e c event_ids = update_messages e c (\<lambda>m.
     if om_event_id (so_message m) \<in> set event_ids then Some (m\<lparr>so_delivered := True, so_claimed_until := None\<rparr>) else None)"

definition redb_mark_failed :: "('d, 't, 'b) redb_engine \<Rightarrow> 'b row_codec \<Rightarrow> rstr \<Rightarrow> 'd \<Rightarrow> 'd \<times> unit outcome" where
  "redb_mark_failed e c event_id = update_messages e c (\<lambda>m.
     if om_event_id (so_message m) = event_id
     then Some (m\<lparr>so_attempt := OutboxAttempt_next (so_attempt m), so_claimed_until := None\<rparr>) else None)"

definition redb_quarantine :: "('d, 't, 'b) redb_engine \<Rightarrow> 'b row_codec \<Rightarrow> rstr \<Rightarrow> rstr \<Rightarrow> 'd \<Rightarrow> 'd \<times> unit outcome" where
  "redb_quarantine e c event_id reason = update_messages e c (\<lambda>m.
     if om_event_id (so_message m) = event_id
     then Some (m\<lparr>so_quarantine := Some reason, so_claimed_until := None\<rparr>) else None)"

definition redb_quarantined :: "('d, 't, 'b) redb_engine \<Rightarrow> 'b row_codec \<Rightarrow> 'd \<Rightarrow> 'd \<times> claimed_outbox_message list outcome" where
  "redb_quarantined e c = blocking e (with_read e (\<lambda>t.
     and_then (open_tbl e OUTBOX t) (\<lambda>_.
     map_ok (\<lambda>entries. map (\<lambda>(key, m). \<lparr>claimed_message = so_message m, claimed_attempt = so_attempt m\<rparr>)
         (filter (\<lambda>(key, m). so_quarantine m \<noteq> None) entries))
       (read_outbox e c t))))"

section \<open>Instance repository\<close>

definition redb_save :: "('d, 't, 'b) redb_engine \<Rightarrow> 'b row_codec \<Rightarrow> ceremony_instance \<Rightarrow> 'd \<Rightarrow> 'd \<times> unit outcome" where
  "redb_save e c i = blocking e (with_write e (\<lambda>t.
     and_then (stored_row e c (inst_id i) t) (\<lambda>stored.
     let revision = (case stored of None \<Rightarrow> CeremonyRevision_INITIAL | Some s \<Rightarrow> CeremonyRevision_next (dc_revision s)) in
     and_then (and_then (encode (rc_ceremony c) \<lparr>dc_revision = revision, dc_instance = i\<rparr>) (\<lambda>row.
       insert_row e CEREMONIES (as_bytes (inst_id i)) row t)) (\<lambda>t1. Inr (t1, (), True)))))"

definition stored_instance :: "('d, 't, 'b) redb_engine \<Rightarrow> 'b row_codec \<Rightarrow> rstr \<Rightarrow> 'd \<Rightarrow> 'd \<times> ceremony_instance option outcome" where
  "stored_instance e c ceremony_id =
     blocking e (with_read e (\<lambda>t. map_ok (map_option dc_instance) (stored_row e c ceremony_id t)))"

definition redb_get :: "('d, 't, 'b) redb_engine \<Rightarrow> 'b row_codec \<Rightarrow> rstr \<Rightarrow> 'd \<Rightarrow> 'd \<times> ceremony_instance outcome" where
  "redb_get e c ceremony_id d =
     (case stored_instance e c ceremony_id d of (d', r) \<Rightarrow> (d', and_then r (\<lambda>found. ok_or found (NotFound ''ceremony_instance''))))"

definition redb_list :: "('d, 't, 'b) redb_engine \<Rightarrow> 'b row_codec \<Rightarrow> 'd \<Rightarrow> 'd \<times> ceremony_instance list outcome" where
  "redb_list e c = blocking e (with_read e (\<lambda>t.
     and_then (open_tbl e CEREMONIES t) (\<lambda>_. map_ok (map (\<lambda>(key, s). dc_instance s)) (scan_rows e CEREMONIES None (rc_ceremony_from c) t))))"

definition redb_exists :: "('d, 't, 'b) redb_engine \<Rightarrow> 'b row_codec \<Rightarrow> rstr \<Rightarrow> 'd \<Rightarrow> 'd \<times> bool outcome" where
  "redb_exists e c ceremony_id d =
     (case stored_instance e c ceremony_id d of (d', r) \<Rightarrow> (d', map_ok (\<lambda>found. found \<noteq> None) r))"

section \<open>Published definitions\<close>

definition StoredPublication_seal :: "published_ceremony_definition \<Rightarrow> durable_publication" where
  "StoredPublication_seal p = \<lparr>dp_definition = pub_definition p, dp_digest = pub_digest p\<rparr>"

definition StoredPublication_restore ::
    "(bytes \<Rightarrow> digest) \<Rightarrow> (ceremony_definition \<Rightarrow> bytes option) \<Rightarrow> durable_publication \<Rightarrow> published_ceremony_definition outcome" where
  "StoredPublication_restore sha256 to_vec p = PublishedCeremonyDefinition_seal sha256 to_vec (dp_definition p)"

definition redb_publish ::
    "('d, 't, 'b) redb_engine \<Rightarrow> 'b row_codec \<Rightarrow> (bytes \<Rightarrow> digest) \<Rightarrow> (ceremony_definition \<Rightarrow> bytes option)
      \<Rightarrow> published_ceremony_definition \<Rightarrow> 'd \<Rightarrow> 'd \<times> publication_outcome outcome" where
  "redb_publish e c sha256 to_vec p = blocking e (with_write e (\<lambda>t.
     let key = published_key (def_name (pub_definition p)) (def_version (pub_definition p)) in
     and_then (open_tbl e PUBLICATIONS t) (\<lambda>_.
     and_then (read_row e PUBLICATIONS (rc_publication_from c) key t) (\<lambda>occupant.
     case occupant of
       Some o1 \<Rightarrow>
         if dp_digest o1 = pub_digest p
         then map_ok (\<lambda>restored. (t, AlreadyPublished restored, True)) (StoredPublication_restore sha256 to_vec o1)
         else Inr (t, VersionOccupied (dp_digest o1) (pub_digest p), False)
     | None \<Rightarrow>
         and_then (encode (rc_publication c) (StoredPublication_seal p)) (\<lambda>row.
         and_then (insert_row e PUBLICATIONS key row t) (\<lambda>t1. Inr (t1, Published p, True)))))))"

definition redb_published ::
    "('d, 't, 'b) redb_engine \<Rightarrow> 'b row_codec \<Rightarrow> (bytes \<Rightarrow> digest) \<Rightarrow> (ceremony_definition \<Rightarrow> bytes option)
      \<Rightarrow> rstr \<Rightarrow> rstr \<Rightarrow> 'd \<Rightarrow> 'd \<times> published_ceremony_definition option outcome" where
  "redb_published e c sha256 to_vec name version = blocking e (with_read e (\<lambda>t.
     and_then (open_tbl e PUBLICATIONS t) (\<lambda>_.
     and_then (read_row e PUBLICATIONS (rc_publication_from c) (published_key name version) t) (\<lambda>stored.
     case stored of None \<Rightarrow> Inr None | Some p \<Rightarrow> map_ok Some (StoredPublication_restore sha256 to_vec p)))))"

definition redb_catalogue ::
    "('d, 't, 'b) redb_engine \<Rightarrow> 'b row_codec \<Rightarrow> (bytes \<Rightarrow> digest) \<Rightarrow> (ceremony_definition \<Rightarrow> bytes option)
      \<Rightarrow> 'd \<Rightarrow> 'd \<times> published_ceremony_definition list outcome" where
  "redb_catalogue e c sha256 to_vec = blocking e (with_read e (\<lambda>t.
     and_then (open_tbl e PUBLICATIONS t) (\<lambda>_.
     and_then (ok_or (rd_range e PUBLICATIONS None t) store_failure) (try_map (\<lambda>entry.
       and_then (ok_or entry store_failure) (\<lambda>(key, row).
       and_then (decode (rc_publication_from c) row) (StoredPublication_restore sha256 to_vec)))))))"

end
