(* ===== verification/Redb_Rows.thy ===== *)
theory Redb_Rows
  imports Redb_Store
begin

text \<open>
  How the store in memory is laid out in the tables of the embedded one: a row per session under the
  bytes of its id, and a row per journal record and per message under a scoped key.  The layout of a
  store is an ordered table; each change of the store is a few insertions into it.
\<close>

section \<open>Ordered tables\<close>

lemma bt_wf_set_eqI:
  assumes "bt_wf m" and "bt_wf n" and "set m = set n"
  shows "m = n"
proof (rule bt_wf_eqI [OF assms(1,2)], rule ext)
  fix k
  have "bt_get m k = Some v \<longleftrightarrow> bt_get n k = Some v" for v using assms by (simp add: bt_get_iff)
  then show "bt_get m k = bt_get n k" by (metis not_Some_eq)
qed

lemma bt_insert_twice: "bt_wf m \<Longrightarrow> bt_insert k v (bt_insert k w m) = bt_insert k v m"
  by (rule bt_wf_set_eqI) (auto simp: set_bt_insert)

lemma bt_insert_existing:
  "\<lbrakk>bt_wf m; k \<in> fst ` set m\<rbrakk> \<Longrightarrow> bt_insert k v m = map (\<lambda>(l, w). (l, if l = k then v else w)) m"
proof (induction k v m rule: bt_insert.induct)
  case (2 k v l w m)
  have "map (\<lambda>(l, w). (l, if l = k then v else w)) m = m" if "k \<notin> fst ` set m"
    using that by (intro map_idI) force
  with 2 show ?case by (cases "k = l") (force split: if_splits)+
qed simp

text \<open>Insertion of a list of rows whose keys are already there.\<close>

definition overwrite :: "(bytes \<times> 'x) list \<Rightarrow> (bytes \<times> 'x) list \<Rightarrow> (bytes \<times> 'x) list" where
  "overwrite ws m = map (\<lambda>(k, x). (k, case map_of ws k of None \<Rightarrow> x | Some y \<Rightarrow> y)) m"

lemma overwrite_Nil [simp]: "overwrite [] m = m"
  by (simp add: overwrite_def case_prod_unfold)

lemma bt_keys_overwrite [simp]: "bt_keys (overwrite ws m) = bt_keys m"
  by (simp add: overwrite_def case_prod_unfold comp_def)

lemma overwrite_Cons:
  assumes "bt_wf m" and "k \<in> fst ` set m" and "k \<notin> fst ` set ws"
  shows "overwrite ((k, x) # ws) m = overwrite ws (bt_insert k x m)"
proof -
  have "map_of ws k = None" using assms(3) by (simp add: map_of_eq_None_iff)
  then show ?thesis unfolding bt_insert_existing [OF assms(1,2)] overwrite_def by (auto split: option.splits)
qed

text \<open>A table of encoded rows against the table of what they mean.\<close>

definition rows_hold :: "('b \<Rightarrow> 'x option) \<Rightarrow> (bytes \<times> 'b) list \<Rightarrow> (bytes \<times> 'x) list \<Rightarrow> bool" where
  "rows_hold from_slice = list_all2 (\<lambda>(k, row) (l, x). k = l \<and> from_slice row = Some x)"

lemma rows_hold_insert: "\<lbrakk>rows_hold f m n; f row = Some x\<rbrakk> \<Longrightarrow> rows_hold f (bt_insert k row m) (bt_insert k x n)"
  unfolding rows_hold_def by (induction m n rule: list_all2_induct) (auto split: prod.splits)

lemma rows_hold_filter: "rows_hold f m n \<Longrightarrow> rows_hold f (filter (\<lambda>(k, row). P k) m) (filter (\<lambda>(k, x). P k) n)"
  unfolding rows_hold_def by (induction m n rule: list_all2_induct) auto

lemma rows_hold_get: "rows_hold f m n \<Longrightarrow> rel_option (\<lambda>row x. f row = Some x) (bt_get m k) (bt_get n k)"
  unfolding rows_hold_def by (induction m n rule: list_all2_induct) auto

section \<open>Scoped rows\<close>

definition row_key :: "rstr \<Rightarrow> nat \<Rightarrow> bytes" where
  "row_key cid i = scoped cid (word_of_nat i)"

lemma word_of_nat_less: "\<lbrakk>m < n; n < 2 ^ 64\<rbrakk> \<Longrightarrow> (word_of_nat m :: 64 word) < word_of_nat n"
  by (simp add: word_less_nat_alt unat_of_nat)

lemma word_of_nat_eq: "\<lbrakk>m < 2 ^ 64; n < 2 ^ 64\<rbrakk> \<Longrightarrow> (word_of_nat m :: 64 word) = word_of_nat n \<longleftrightarrow> m = n"
  using word_of_nat_less [of m n] word_of_nat_less [of n m] by (cases m n rule: linorder_cases) auto

lemma row_key_ordinal_less: "\<lbrakk>m < n; n < 2 ^ 64\<rbrakk> \<Longrightarrow> row_key cid m < row_key cid n"
  unfolding row_key_def scoped_ordinal_less by (rule word_of_nat_less)

lemma row_key_id_less: "\<lbrakk>s < t; key_text s; key_text t\<rbrakk> \<Longrightarrow> row_key s m < row_key t n"
  unfolding row_key_def by (rule scoped_id_less)

lemma row_key_eq:
  "\<lbrakk>key_text s; key_text t; m < 2 ^ 64; n < 2 ^ 64\<rbrakk> \<Longrightarrow> row_key s m = row_key t n \<longleftrightarrow> s = t \<and> m = n"
  unfolding row_key_def by (simp only: scoped_eq_iff word_of_nat_eq)

definition scoped_rows :: "nat \<Rightarrow> (stored_ceremony \<Rightarrow> 'x list) \<Rightarrow> ceremony_store \<Rightarrow> (bytes \<times> 'x) list" where
  "scoped_rows first f s = concat (map (\<lambda>(cid, st). map (\<lambda>(i, x). (row_key cid i, x)) (enumerate first (f st))) s)"

lemma scoped_rows_Nil [simp]: "scoped_rows first f [] = []"
  and scoped_rows_Cons: "scoped_rows first f ((cid, st) # s) =
    map (\<lambda>(i, x). (row_key cid i, x)) (enumerate first (f st)) @ scoped_rows first f s"
  by (simp_all add: scoped_rows_def)

definition rows_fit :: "nat \<Rightarrow> (stored_ceremony \<Rightarrow> 'x list) \<Rightarrow> ceremony_store \<Rightarrow> bool" where
  "rows_fit first f s =
     (bt_wf s \<and> (\<forall>(cid, st) \<in> set s. key_text cid \<and> first + length (f st) \<le> 2 ^ 64))"

lemma in_block:
  "(k, x) \<in> set (map (\<lambda>(i, x). (row_key cid i, x)) (enumerate first xs)) \<longleftrightarrow>
     (\<exists>i < length xs. k = row_key cid (first + i) \<and> x = xs ! i)"
proof (induction xs arbitrary: first)
  case (Cons a xs)
  show ?case unfolding enumerate_simps list.map list.set insert_iff Cons.IH
    by (auto simp: less_Suc_eq_0_disj)
qed simp

lemma in_scoped_rows:
  "(k, x) \<in> set (scoped_rows first f s) \<longleftrightarrow>
     (\<exists>cid st. (cid, st) \<in> set s \<and> (\<exists>i < length (f st). k = row_key cid (first + i) \<and> x = f st ! i))"
proof (induction s)
  case (Cons p s)
  obtain cid st where p: "p = (cid, st)" by (cases p)
  show ?case unfolding p scoped_rows_Cons set_append Un_iff in_block Cons.IH by (simp; blast)
qed simp

lemma block_sorted:
  assumes "first + length xs \<le> 2 ^ 64"
  shows "bt_wf (map (\<lambda>(i, x). (row_key cid i, x)) (enumerate first xs))"
  using assms
proof (induction xs arbitrary: first)
  case (Cons a xs)
  have "row_key cid first < k" if "(k, x) \<in> set (map (\<lambda>(i, x). (row_key cid i, x)) (enumerate (Suc first) xs))" for k x
    using that Cons.prems unfolding in_block by (auto intro!: row_key_ordinal_less)
  then have "\<forall>l \<in> set (bt_keys (map (\<lambda>(i, x). (row_key cid i, x)) (enumerate (Suc first) xs))). row_key cid first < l"
    by force
  moreover have "bt_wf (map (\<lambda>(i, x). (row_key cid i, x)) (enumerate (Suc first) xs))" using Cons by simp
  ultimately show ?case by (simp del: set_map)
qed simp

lemma bt_wf_append:
  "bt_wf (m @ n) \<longleftrightarrow> bt_wf m \<and> bt_wf n \<and> (\<forall>k \<in> fst ` set m. \<forall>l \<in> fst ` set n. k < l)"
  by (auto simp: bt_wf_def sorted_wrt_append)

lemma bt_wf_scoped_rows: "rows_fit first f s \<Longrightarrow> bt_wf (scoped_rows first f s)"
proof (induction s)
  case (Cons p s)
  obtain cid st where p: "p = (cid, st)" by (cases p)
  have key: "key_text cid" and fit: "rows_fit first f s" and later: "\<forall>(cid', st') \<in> set s. cid < cid' \<and> key_text cid'"
    using Cons.prems by (auto simp: rows_fit_def p)
  have "row_key cid i < k" if k: "(k, x) \<in> set (scoped_rows first f s)" for i k x
  proof -
    obtain cid' st' j where "(cid', st') \<in> set s" "k = row_key cid' (first + j)" using k unfolding in_scoped_rows by blast
    then show ?thesis using later key by (auto intro: row_key_id_less)
  qed
  then have "\<forall>k \<in> fst ` set (map (\<lambda>(i, x). (row_key cid i, x)) (enumerate first (f st))).
      \<forall>l \<in> fst ` set (scoped_rows first f s). k < l" by fastforce
  moreover have "bt_wf (map (\<lambda>(i, x). (row_key cid i, x)) (enumerate first (f st)))"
    using Cons.prems by (intro block_sorted) (auto simp: rows_fit_def p)
  ultimately show ?case using Cons.IH [OF fit] unfolding p scoped_rows_Cons bt_wf_append by blast
qed simp

lemma rows_fit_insert:
  "\<lbrakk>rows_fit first f s; key_text cid; first + length (f st) \<le> 2 ^ 64\<rbrakk> \<Longrightarrow> rows_fit first f (bt_insert cid st s)"
  by (auto simp: rows_fit_def set_bt_insert)

text \<open>What a session holds, whether or not it has an entry.\<close>

lemma entry_in: "bt_wf s \<Longrightarrow> (cid, st) \<in> set s \<Longrightarrow> entry_or_default s cid = st"
  by (simp add: entry_or_default_def flip: bt_get_iff)

lemma entry_out: "bt_wf s \<Longrightarrow> cid \<notin> fst ` set s \<Longrightarrow> entry_or_default s cid = StoredCeremony_default"
  by (auto simp: entry_or_default_def map_of_eq_None_iff [symmetric] split: option.splits)

lemma entry_insert [simp]: "entry_or_default (bt_insert cid st s) cid' = (if cid' = cid then st else entry_or_default s cid')"
  by (simp add: entry_or_default_def)

text \<open>A change of one session that leaves its list alone, and one that appends to it.\<close>

lemma in_insert_rows:
  assumes wf: "bt_wf s"
  shows "(k, x) \<in> set (scoped_rows first f (bt_insert cid st s)) \<longleftrightarrow>
    (\<exists>i < length (f st). k = row_key cid (first + i) \<and> x = f st ! i) \<or>
    (\<exists>cid' st'. (cid', st') \<in> set s \<and> cid' \<noteq> cid \<and> (\<exists>i < length (f st'). k = row_key cid' (first + i) \<and> x = f st' ! i))"
  unfolding in_scoped_rows set_bt_insert [OF wf] by auto

lemma keyed_split:
  assumes "\<And>v. (k, v) \<in> S \<longleftrightarrow> v = w"
  shows "(\<exists>c v. (c, v) \<in> S \<and> P c v) \<longleftrightarrow> P k w \<or> (\<exists>c v. (c, v) \<in> S \<and> c \<noteq> k \<and> P c v)"
proof
  assume "\<exists>c v. (c, v) \<in> S \<and> P c v"
  then obtain c v where "(c, v) \<in> S" "P c v" by blast
  then show "P k w \<or> (\<exists>c v. (c, v) \<in> S \<and> c \<noteq> k \<and> P c v)" using assms [of v] by (cases "c = k") auto
next
  have "(k, w) \<in> S" using assms by simp
  then show "P k w \<or> (\<exists>c v. (c, v) \<in> S \<and> c \<noteq> k \<and> P c v) \<Longrightarrow> \<exists>c v. (c, v) \<in> S \<and> P c v" by blast
qed

lemma in_rows_split:
  assumes wf: "bt_wf s" and d: "f StoredCeremony_default = []"
  shows "(k, x) \<in> set (scoped_rows first f s) \<longleftrightarrow>
    (\<exists>i < length (f (entry_or_default s cid)). k = row_key cid (first + i) \<and> x = f (entry_or_default s cid) ! i) \<or>
    (\<exists>cid' st'. (cid', st') \<in> set s \<and> cid' \<noteq> cid \<and> (\<exists>i < length (f st'). k = row_key cid' (first + i) \<and> x = f st' ! i))"
proof (cases "bt_get s cid")
  case None
  then have "\<forall>st. (cid, st) \<notin> set s" by (metis bt_get_iff [OF wf] option.distinct(1))
  moreover have "f (entry_or_default s cid) = []" using None d by (simp add: entry_or_default_def)
  ultimately show ?thesis unfolding in_scoped_rows by (simp, blast)
next
  case (Some st)
  then have only: "(cid, st') \<in> set s \<longleftrightarrow> st' = st" for st' by (auto simp: bt_get_iff [OF wf, symmetric])
  have "entry_or_default s cid = st" using Some by (simp add: entry_or_default_def)
  then show ?thesis unfolding in_scoped_rows by (simp only:) (rule keyed_split [OF only])
qed

lemma rows_fit_unchanged:
  assumes fit: "rows_fit first f s" and "key_text cid" and "f st = f (entry_or_default s cid)"
    and d: "f StoredCeremony_default = []" "first \<le> 2 ^ 64"
  shows "rows_fit first f (bt_insert cid st s)"
proof (rule rows_fit_insert [OF fit assms(2)])
  show "first + length (f st) \<le> 2 ^ 64"
  proof (cases "bt_get s cid")
    case None
    then show ?thesis using assms(3) d by (simp add: entry_or_default_def)
  next
    case (Some st')
    moreover have "(cid, st') \<in> set s" using Some fit by (simp add: rows_fit_def bt_get_iff [symmetric])
    ultimately show ?thesis using assms(3) fit by (auto simp: rows_fit_def entry_or_default_def)
  qed
qed

lemma scoped_rows_unchanged:
  assumes fit: "rows_fit first f s" and key: "key_text cid" and st: "f st = f (entry_or_default s cid)"
    and d: "f StoredCeremony_default = []" "first \<le> 2 ^ 64"
  shows "scoped_rows first f (bt_insert cid st s) = scoped_rows first f s"
proof (rule bt_wf_set_eqI)
  have wf: "bt_wf s" using fit by (simp add: rows_fit_def)
  show "bt_wf (scoped_rows first f (bt_insert cid st s))" using rows_fit_unchanged [OF assms] by (rule bt_wf_scoped_rows)
  show "bt_wf (scoped_rows first f s)" using fit by (rule bt_wf_scoped_rows)
  have "(k, x) \<in> set (scoped_rows first f (bt_insert cid st s)) \<longleftrightarrow> (k, x) \<in> set (scoped_rows first f s)" for k x
    unfolding in_insert_rows [OF wf] in_rows_split [of s f k x first cid, OF wf d(1)] st ..
  then show "set (scoped_rows first f (bt_insert cid st s)) = set (scoped_rows first f s)" by auto
qed

lemma scoped_rows_append:
  assumes fit: "rows_fit first f s" and key: "key_text cid" and st: "f st = f (entry_or_default s cid) @ [x]"
    and d: "f StoredCeremony_default = []" and len: "first + length (f st) \<le> 2 ^ 64"
  shows "scoped_rows first f (bt_insert cid st s) =
    bt_insert (row_key cid (first + length (f (entry_or_default s cid)))) x (scoped_rows first f s)"
    (is "_ = bt_insert ?k x _")
proof (rule bt_wf_set_eqI)
  have wf: "bt_wf s" using fit by (simp add: rows_fit_def)
  show "bt_wf (scoped_rows first f (bt_insert cid st s))" using fit key len by (intro bt_wf_scoped_rows rows_fit_insert)
  show "bt_wf (bt_insert ?k x (scoped_rows first f s))" using fit by (intro bt_wf_insert bt_wf_scoped_rows)
  have fresh: "(?k, y) \<notin> set (scoped_rows first f s)" for y
  proof
    assume "(?k, y) \<in> set (scoped_rows first f s)"
    then obtain cid' st' i where i: "(cid', st') \<in> set s" "i < length (f st')" "?k = row_key cid' (first + i)"
      unfolding in_scoped_rows by blast
    moreover have "key_text cid'" "first + length (f st') \<le> 2 ^ 64" using i(1) fit by (auto simp: rows_fit_def)
    ultimately have "cid' = cid" "i = length (f (entry_or_default s cid))" using row_key_eq [OF key, of cid'] len by (auto simp: st)
    moreover have "entry_or_default s cid = st'" using i(1) \<open>cid' = cid\<close> wf by (simp add: entry_or_default_def flip: bt_get_iff)
    ultimately show False using i(2) by simp
  qed
  have "(k, y) \<in> set (scoped_rows first f (bt_insert cid st s)) \<longleftrightarrow> (k, y) = (?k, x) \<or> (k, y) \<in> set (scoped_rows first f s)" for k y
    unfolding in_insert_rows [OF wf] in_rows_split [of s f k y first cid, OF wf d] st
    by (auto simp: nth_append less_Suc_eq)
  then show "set (scoped_rows first f (bt_insert cid st s)) = set (bt_insert ?k x (scoped_rows first f s))"
    using fresh by (auto simp: set_bt_insert bt_wf_scoped_rows [OF fit])
qed

text \<open>The rows of one ceremony are a range of the table.\<close>

definition in_range :: "(bytes \<times> bytes) option \<Rightarrow> bytes \<Rightarrow> bool" where
  "in_range limits k = (case limits of None \<Rightarrow> True | Some (lo, hi) \<Rightarrow> lo \<le> k \<and> k \<le> hi)"

lemma in_range_row: "\<lbrakk>key_text cid; key_text cid'\<rbrakk> \<Longrightarrow> in_range (Some (scope_range cid)) (row_key cid' i) \<longleftrightarrow> cid' = cid"
  using in_scope_range [of cid cid' "word_of_nat i"] by (auto simp: in_range_def row_key_def split: prod.splits)

lemma range_of_rows:
  assumes "rows_fit first f s" and key: "key_text cid" and d: "f StoredCeremony_default = []"
  shows "map snd (filter (\<lambda>(k, x). in_range (Some (scope_range cid)) k) (scoped_rows first f s)) = f (entry_or_default s cid)"
  using assms(1)
proof (induction s)
  case Nil
  then show ?case by (simp add: entry_or_default_def d)
next
  case (Cons p s)
  obtain cid' st where p: "p = (cid', st)" by (cases p)
  have fit: "rows_fit first f s" and key': "key_text cid'" and fresh: "cid' \<notin> fst ` set s"
    using Cons.prems by (auto simp: rows_fit_def p)
  have block: "filter (\<lambda>(k, x). in_range (Some (scope_range cid)) k) (map (\<lambda>(i, x). (row_key cid' i, x)) (enumerate first (f st))) =
      (if cid' = cid then map (\<lambda>(i, x). (row_key cid' i, x)) (enumerate first (f st)) else [])"
    using in_range_row [OF key key'] by (auto simp: filter_map comp_def case_prod_unfold)
  have snds: "map snd (map (\<lambda>(i, x). (row_key cid' i, x)) (enumerate first (f st))) = f st"
    by (simp add: comp_def case_prod_unfold)
  have "entry_or_default s cid = StoredCeremony_default" if "cid' = cid"
    using fresh that by (auto simp: entry_or_default_def map_of_eq_None_iff split: option.splits dest!: bt_get_Some_key)
  then show ?case using Cons.IH [OF fit] snds
    unfolding p scoped_rows_Cons filter_append block by (auto simp: d entry_or_default_def)
qed

section \<open>Rows of sessions\<close>

definition ceremony_row :: "stored_ceremony \<Rightarrow> durable_ceremony option" where
  "ceremony_row st =
     (case (st_revision st, st_instance st) of
        (Some r, Some i) \<Rightarrow> Some \<lparr>dc_revision = r, dc_instance = i\<rparr>
      | _ \<Rightarrow> None)"

fun ceremony_rows :: "ceremony_store \<Rightarrow> (bytes \<times> durable_ceremony) list" where
  "ceremony_rows [] = []"
| "ceremony_rows ((cid, st) # s) =
     (case ceremony_row st of None \<Rightarrow> ceremony_rows s | Some row \<Rightarrow> (as_bytes cid, row) # ceremony_rows s)"

lemma in_ceremony_rows:
  "(k, x) \<in> set (ceremony_rows s) \<longleftrightarrow> (\<exists>cid st. (cid, st) \<in> set s \<and> k = as_bytes cid \<and> ceremony_row st = Some x)"
  by (induction s rule: ceremony_rows.induct) (auto split: option.splits)

lemma bt_wf_ceremony_rows:
  "\<lbrakk>bt_wf s; \<forall>cid \<in> fst ` set s. key_text cid\<rbrakk> \<Longrightarrow> bt_wf (ceremony_rows s)"
proof (induction s rule: ceremony_rows.induct)
  case (2 cid st s)
  have "as_bytes cid < k" if row: "(k, x) \<in> set (ceremony_rows s)" for k x
  proof -
    obtain cid' st' where "(cid', st') \<in> set s" "k = as_bytes cid'" using row unfolding in_ceremony_rows by blast
    moreover from this have "cid < cid'" "key_text cid" "key_text cid'" using "2.prems" by auto
    ultimately show ?thesis by (simp add: as_bytes_less_iff)
  qed
  with 2 show ?case by (auto split: option.splits)
qed simp

lemma get_ceremony_rows:
  assumes wf: "bt_wf s" and keys: "\<forall>cid \<in> fst ` set s. key_text cid" and key: "key_text cid"
  shows "bt_get (ceremony_rows s) (as_bytes cid) = ceremony_row (entry_or_default s cid)"
proof -
  have "bt_get (ceremony_rows s) (as_bytes cid) = Some x \<longleftrightarrow> ceremony_row (entry_or_default s cid) = Some x" for x
  proof -
    have "bt_get (ceremony_rows s) (as_bytes cid) = Some x \<longleftrightarrow> (\<exists>st. bt_get s cid = Some st \<and> ceremony_row st = Some x)"
      using keys key as_bytes_eq_iff unfolding bt_get_iff [OF bt_wf_ceremony_rows [OF wf keys]] in_ceremony_rows bt_get_iff [OF wf]
      by force
    then show ?thesis by (auto simp: entry_or_default_def StoredCeremony_default_def ceremony_row_def split: option.splits)
  qed
  then show ?thesis by (metis not_Some_eq)
qed

lemma ceremony_rows_insert:
  assumes wf: "bt_wf s" and keys: "\<forall>cid \<in> fst ` set s. key_text cid" and key: "key_text cid" and row: "ceremony_row st = Some x"
  shows "ceremony_rows (bt_insert cid st s) = bt_insert (as_bytes cid) x (ceremony_rows s)"
proof (rule bt_wf_set_eqI)
  have keys': "\<forall>cid' \<in> fst ` set (bt_insert cid st s). key_text cid'" using keys key by simp
  show "bt_wf (ceremony_rows (bt_insert cid st s))" using wf keys' by (intro bt_wf_ceremony_rows bt_wf_insert)
  show wf': "bt_wf (bt_insert (as_bytes cid) x (ceremony_rows s))" using wf keys by (intro bt_wf_insert bt_wf_ceremony_rows)
  show "set (ceremony_rows (bt_insert cid st s)) = set (bt_insert (as_bytes cid) x (ceremony_rows s))"
    unfolding set_bt_insert [OF bt_wf_ceremony_rows [OF wf keys]]
    using keys key row by (fastforce simp: in_ceremony_rows set_bt_insert [OF wf] as_bytes_eq_iff)
qed

lemma ceremony_rows_unchanged:
  assumes wf: "bt_wf s" and keys: "\<forall>cid \<in> fst ` set s. key_text cid" and key: "key_text cid"
    and row: "ceremony_row st = ceremony_row (entry_or_default s cid)"
  shows "ceremony_rows (bt_insert cid st s) = ceremony_rows s"
proof (rule bt_wf_set_eqI)
  have keys': "\<forall>cid' \<in> fst ` set (bt_insert cid st s). key_text cid'" using keys key by simp
  show "bt_wf (ceremony_rows (bt_insert cid st s))" using wf keys' by (intro bt_wf_ceremony_rows bt_wf_insert)
  show "bt_wf (ceremony_rows s)" using wf keys by (rule bt_wf_ceremony_rows)
  have row': "ceremony_row st = Some x \<longleftrightarrow> (\<exists>st'. (cid, st') \<in> set s \<and> ceremony_row st' = Some x)" for x
    unfolding row by (auto simp: entry_or_default_def StoredCeremony_default_def ceremony_row_def bt_get_iff [OF wf, symmetric] split: option.splits)
  have "(k, x) \<in> set (ceremony_rows (bt_insert cid st s)) \<longleftrightarrow>
      k = as_bytes cid \<and> ceremony_row st = Some x \<or> (\<exists>c v. (c, v) \<in> set s \<and> c \<noteq> cid \<and> k = as_bytes c \<and> ceremony_row v = Some x)" for k x
    unfolding in_ceremony_rows set_bt_insert [OF wf] by auto
  then have "(k, x) \<in> set (ceremony_rows (bt_insert cid st s)) \<longleftrightarrow> (k, x) \<in> set (ceremony_rows s)" for k x
    unfolding row' in_ceremony_rows by blast
  then show "set (ceremony_rows (bt_insert cid st s)) = set (ceremony_rows s)" by auto
qed

end
