(* ===== verification/Redb_Laws.thy ===== *)
theory Redb_Laws
  imports Redb_Rows
begin

text \<open>
  What the embedded store relies on: a redb table is an ordered map, a transaction sees the tables
  as they were when it began and its own insertions, a commit takes effect as a whole or not at all,
  and a row that serde_json keeps exactly decodes to what was encoded.  Every call may fail.  The locale \<open>redb_database\<close>
  states these laws; \<open>attempts\<close> is the shape of every step under them: the result that was meant, or
  one of three failures, which a reliable engine never causes.
\<close>

section \<open>Failures\<close>

definition redb_failures :: "domain_error set" where
  "redb_failures = {store_failure, encoding_failure, join_failure}"

definition redb_reliable :: "('d, 't, 'b) redb_engine \<Rightarrow> 'b row_codec \<Rightarrow> bool" where
  "redb_reliable e c =
     ((\<forall>d. snd (rd_spawn_blocking e d)) \<and> (\<forall>d. snd (rd_begin_write e d) \<noteq> None) \<and> (\<forall>d. snd (rd_begin_read e d) \<noteq> None) \<and>
      (\<forall>tbl t. rd_open_table e tbl t) \<and> (\<forall>tbl k t. rd_get e tbl k t \<noteq> None) \<and>
      (\<forall>tbl limits t. \<exists>entries. rd_range e tbl limits t = Some entries \<and> None \<notin> set entries) \<and>
      (\<forall>tbl k row t. rd_insert e tbl k row t \<noteq> None) \<and> (\<forall>t d. snd (rd_commit e t d)) \<and>
      (\<forall>x. rc_ceremony c x \<noteq> None) \<and> (\<forall>x. rc_record c x \<noteq> None) \<and> (\<forall>x. rc_message c x \<noteq> None) \<and>
      (\<forall>x. rc_publication c x \<noteq> None))"

lemma reliableD:
  assumes "redb_reliable e c"
  shows "snd (rd_spawn_blocking e d)" "snd (rd_begin_write e d) \<noteq> None" "snd (rd_begin_read e d) \<noteq> None" "rd_open_table e tbl t"
    "rd_get e tbl k t \<noteq> None" "\<exists>entries. rd_range e tbl limits t = Some entries \<and> None \<notin> set entries"
    "rd_insert e tbl k row t \<noteq> None" "snd (rd_commit e t d)" "rc_ceremony c x \<noteq> None" "rc_record c y \<noteq> None" "rc_message c z \<noteq> None"
  using assms by (simp_all add: redb_reliable_def)

lemma reliable_publication: "redb_reliable e c \<Longrightarrow> rc_publication c p \<noteq> None"
  by (simp add: redb_reliable_def)

definition attempts :: "bool \<Rightarrow> ('r outcome \<Rightarrow> bool) \<Rightarrow> 'r outcome \<Rightarrow> bool" where
  "attempts reliable P x = (P x \<or> \<not> reliable \<and> x \<in> Inl ` redb_failures)"

abbreviation succeeds :: "bool \<Rightarrow> ('r \<Rightarrow> bool) \<Rightarrow> 'r outcome \<Rightarrow> bool" where
  "succeeds reliable Q \<equiv> attempts reliable (\<lambda>x. \<exists>v. x = Inr v \<and> Q v)"

lemma attempts_bind:
  assumes "succeeds rl Q x" and "\<And>v. Q v \<Longrightarrow> attempts rl P (g v)"
  shows "attempts rl P (and_then x g)"
proof (cases x)
  case (Inr v)
  then show ?thesis using assms by (auto simp: attempts_def)
qed (use assms(1) in \<open>auto simp: attempts_def\<close>)

lemma attempts_return: "P x \<Longrightarrow> attempts rl P x"
  by (simp add: attempts_def)

lemma attempts_mono: "\<lbrakk>attempts rl P x; \<And>y. P y \<Longrightarrow> P' y\<rbrakk> \<Longrightarrow> attempts rl P' x"
  by (auto simp: attempts_def)

lemma succeeds_map: "\<lbrakk>succeeds rl Q x; \<And>v. Q v \<Longrightarrow> Q' (g v)\<rbrakk> \<Longrightarrow> succeeds rl Q' (map_ok g x)"
  by (auto simp: attempts_def)

lemma ok_or_attempts: "\<lbrakk>err \<in> redb_failures; x = None \<Longrightarrow> \<not> rl; \<And>v. x = Some v \<Longrightarrow> Q v\<rbrakk> \<Longrightarrow> succeeds rl Q (ok_or x err)"
  by (cases x) (auto simp: attempts_def)

lemma failures_in [simp]: "store_failure \<in> redb_failures" "encoding_failure \<in> redb_failures" "join_failure \<in> redb_failures"
  by (simp_all add: redb_failures_def)

text \<open>The outcome of a port call against what the store in memory does.\<close>

definition simulated :: "bool \<Rightarrow> ('d \<Rightarrow> 's \<Rightarrow> bool) \<Rightarrow> 's \<Rightarrow> 's \<times> 'r outcome \<Rightarrow> 'd \<times> 'r outcome \<Rightarrow> bool" where
  "simulated reliable rep s answer x =
     (snd x = snd answer \<and> rep (fst x) (fst answer) \<or>
      \<not> reliable \<and> snd x \<in> Inl ` redb_failures \<and> (rep (fst x) s \<or> rep (fst x) (fst answer)))"

lemma simulated_map:
  assumes "simulated rl rep s (s', r) x" and "\<And>err. g (Inl err) = Inl err"
  shows "simulated rl rep s (s', g r) (case x of (d', r) \<Rightarrow> (d', g r))"
  using assms by (cases x) (auto simp: simulated_def)

section \<open>Values that the encoding keeps\<close>

text \<open>
  Rows are written with \<open>serde_json::to_vec\<close> and read with \<open>serde_json::from_slice\<close>, both with the
  default features: a float is read back only approximately (\<open>float_roundtrip\<close> is not enabled), and
  reading refuses a text nested more than 128 levels deep.  Texts, integers and booleans are kept.  A
  row adds fewer than sixteen levels to the values it holds, so values without floats that nest at most
  \<open>ROW_JSON_DEPTH\<close> levels deep are read back as they were.  Records of the journal hold no such values.
\<close>

definition ROW_JSON_DEPTH :: nat where
  "ROW_JSON_DEPTH = 100"

definition number_exact :: "json_number \<Rightarrow> bool" where
  "number_exact v = (case v of PosInt w \<Rightarrow> True | NegInt i \<Rightarrow> - (2 ^ 63) \<le> i \<and> i < 0 | Float x \<Rightarrow> False)"

fun json_exact :: "nat \<Rightarrow> json \<Rightarrow> bool" where
  "json_exact depth (JNumber v) = number_exact v"
| "json_exact depth (JArray vs) = (0 < depth \<and> list_all (json_exact (depth - 1)) vs)"
| "json_exact depth (JObject m) = (0 < depth \<and> bt_wf m \<and> list_all (\<lambda>(k, v). json_exact (depth - 1) v) m)"
| "json_exact depth v = True"

definition attributes_exact :: "attributes \<Rightarrow> bool" where
  "attributes_exact attrs = json_exact ROW_JSON_DEPTH (JObject attrs)"

definition content_exact :: "ceremony_intervention_content \<Rightarrow> bool" where
  "content_exact content = attributes_exact (content_details content)"

definition bundle_exact :: "external_context_bundle \<Rightarrow> bool" where
  "bundle_exact b =
     (pred_option (\<lambda>x. attributes_exact (summary_attributes x)) (bundle_summary b) \<and>
      list_all (\<lambda>x. attributes_exact (item_attributes x)) (bundle_items b) \<and>
      list_all (\<lambda>x. attributes_exact (reference_attributes x)) (bundle_references b) \<and> attributes_exact (bundle_metadata b))"

definition response_exact :: "ceremony_intervention_response \<Rightarrow> bool" where
  "response_exact r =
     (content_exact (resp_content r) \<and> pred_option (\<lambda>pack. bundle_exact (pack_bundle pack)) (resp_evidence_pack r))"

definition instance_exact :: "ceremony_instance \<Rightarrow> bool" where
  "instance_exact i =
     (attributes_exact (inst_context i) \<and>
      list_all (\<lambda>(sid, r). attributes_exact (rec_output r)) (inst_step_records i) \<and>
      list_all (\<lambda>v. content_exact (int_request v) \<and> list_all response_exact (int_responses v)) (inst_interventions i))"

definition message_exact :: "outbox_message \<Rightarrow> bool" where
  "message_exact m = json_exact ROW_JSON_DEPTH (om_payload m)"

definition definition_exact :: "ceremony_definition \<Rightarrow> bool" where
  "definition_exact d = list_all (\<lambda>(sid, step). attributes_exact (step_handler_config step)) (def_steps d)"

section \<open>The laws\<close>

locale redb_database =
  fixes e :: "('d, 't, 'b) redb_engine" and c :: "'b row_codec"
    and db :: "'d \<Rightarrow> redb_table \<Rightarrow> (bytes, 'b) btree_map" and tx :: "'t \<Rightarrow> redb_table \<Rightarrow> (bytes, 'b) btree_map"
  assumes spawn_keeps: "db (fst (rd_spawn_blocking e d)) = db d"
    and write_begins: "rd_begin_write e d = (d', begun) \<Longrightarrow> db d' = db d \<and> (\<forall>t. begun = Some t \<longrightarrow> tx t = db d)"
    and read_begins: "rd_begin_read e d = (d', begun) \<Longrightarrow> db d' = db d \<and> (\<forall>t. begun = Some t \<longrightarrow> tx t = db d)"
    and get_reads: "rd_get e tbl k t = Some found \<Longrightarrow> found = bt_get (tx t tbl) k"
    and range_reads: "rd_range e tbl limits t = Some entries \<Longrightarrow>
      list_all2 (\<lambda>entry row. entry = None \<or> entry = Some row) entries (filter (\<lambda>(k, row). in_range limits k) (tx t tbl))"
    and insert_writes: "rd_insert e tbl k row t = Some t' \<Longrightarrow> tx t' = (tx t)(tbl := bt_insert k row (tx t tbl))"
    and commit_atomic: "rd_commit e t d = (d', kept) \<Longrightarrow> db d' = tx t \<or> \<not> kept \<and> db d' = db d"
    and ceremony_codec: "\<lbrakk>instance_exact (dc_instance x); rc_ceremony c x = Some row\<rbrakk> \<Longrightarrow> rc_ceremony_from c row = Some x"
    and record_codec: "rc_record c y = Some row \<Longrightarrow> rc_record_from c row = Some y"
    and message_codec: "\<lbrakk>message_exact (so_message z); rc_message c z = Some row\<rbrakk> \<Longrightarrow> rc_message_from c row = Some z"
begin

lemma open_tbl_attempts: "succeeds (redb_reliable e c) (\<lambda>_. True) (open_tbl e tbl t)"
  using reliableD(4) [of e c tbl t] by (auto simp: attempts_def open_tbl_def ensure_def)

lemma decode_holds: "f row = Some x \<Longrightarrow> decode f row = Inr x"
  by (simp add: decode_def)

lemma read_row_attempts:
  assumes "rows_hold f (tx t tbl) table"
  shows "succeeds (redb_reliable e c) (\<lambda>found. found = bt_get table k) (read_row e tbl f k t)"
  unfolding read_row_def
proof (rule attempts_bind [where Q = "\<lambda>found. found = bt_get (tx t tbl) k"])
  show "succeeds (redb_reliable e c) (\<lambda>found. found = bt_get (tx t tbl) k) (ok_or (rd_get e tbl k t) store_failure)"
    using get_reads reliableD(5) [of e c tbl k t] by (intro ok_or_attempts) auto
  fix found assume "found = bt_get (tx t tbl) k"
  with rows_hold_get [OF assms, of k] show "succeeds (redb_reliable e c) (\<lambda>found. found = bt_get table k)
      (case found of None \<Rightarrow> Inr None | Some row \<Rightarrow> map_ok Some (decode f row))"
    by (auto simp: attempts_def decode_def option_rel_Some1 split: option.splits)
qed

lemma try_map_attempts:
  assumes "list_all2 (\<lambda>x y. succeeds rl (\<lambda>v. v = y) (g x)) xs ys"
  shows "succeeds rl (\<lambda>vs. vs = ys) (try_map g xs)"
  using assms
proof (induction xs ys rule: list_all2_induct)
  case (Cons x xs y ys)
  show ?case unfolding try_map.simps
    by (rule attempts_bind [OF Cons.hyps(1)]) (rule succeeds_map [OF Cons.IH], simp)
qed (simp add: attempts_def)

lemma scan_attempts:
  assumes table: "rows_hold f (tx t tbl) table"
    and h: "\<And>k row x. \<lbrakk>(k, x) \<in> set table; f row = Some x\<rbrakk> \<Longrightarrow> succeeds (redb_reliable e c) (\<lambda>v. v = y (k, x)) (h (k, row))"
  shows "succeeds (redb_reliable e c) (\<lambda>vs. vs = map y (filter (\<lambda>(k, x). in_range limits k) table))
    (and_then (ok_or (rd_range e tbl limits t) store_failure) (try_map (\<lambda>entry. and_then (ok_or entry store_failure) h)))"
proof (rule attempts_bind [where Q = "\<lambda>entries. rd_range e tbl limits t = Some entries"])
  show "succeeds (redb_reliable e c) (\<lambda>entries. rd_range e tbl limits t = Some entries) (ok_or (rd_range e tbl limits t) store_failure)"
    using reliableD(6) [of e c tbl limits t] by (intro ok_or_attempts) auto
  fix entries assume range: "rd_range e tbl limits t = Some entries"
  have entry: "succeeds (redb_reliable e c) (\<lambda>v. v = y (k, x)) (and_then (ok_or entry store_failure) h)"
    if "entry = None \<or> entry = Some (k, row)" "entry \<in> set entries" "f row = Some x" "(k, x) \<in> set table" for entry k row x
  proof (cases entry)
    case None
    then show ?thesis using that(2) range reliableD(6) [of e c tbl limits t] by (auto simp: attempts_def)
  next
    case (Some p)
    then show ?thesis using that h by simp
  qed
  have "list_all2 (\<lambda>entry (k, x). \<exists>row. (entry = None \<or> entry = Some (k, row)) \<and> f row = Some x) entries
      (filter (\<lambda>(k, x). in_range limits k) table)"
    by (rule list_all2_trans [OF _ range_reads [OF range] rows_hold_filter [OF table, of "in_range limits", unfolded rows_hold_def]]) auto
  then have "list_all2 (\<lambda>entry z. succeeds (redb_reliable e c) (\<lambda>v. v = y z) (and_then (ok_or entry store_failure) h)) entries
      (filter (\<lambda>(k, x). in_range limits k) table)"
    by (rule list.rel_mono_strong) (use entry in fastforce)
  then show "succeeds (redb_reliable e c) (\<lambda>vs. vs = map y (filter (\<lambda>(k, x). in_range limits k) table))
      (try_map (\<lambda>entry. and_then (ok_or entry store_failure) h) entries)"
    by (intro try_map_attempts) (simp add: list_all2_map2)
qed

lemma scan_rows_attempts:
  assumes "rows_hold f (tx t tbl) table"
  shows "succeeds (redb_reliable e c) (\<lambda>entries. entries = filter (\<lambda>(k, x). in_range limits k) table) (scan_rows e tbl limits f t)"
  using scan_attempts [OF assms, of "\<lambda>p. p" "\<lambda>(key, row). map_ok (Pair key) (decode f row)" limits]
  by (simp add: scan_rows_def decode_def attempts_def)

lemma insert_row_attempts:
  assumes "rows_hold f (tx t tbl) table" and "f row = Some x"
  shows "succeeds (redb_reliable e c) (\<lambda>t'. rows_hold f (tx t' tbl) (bt_insert k x table) \<and> (\<forall>tbl'. tbl' \<noteq> tbl \<longrightarrow> tx t' tbl' = tx t tbl'))
    (insert_row e tbl k row t)"
  unfolding insert_row_def using rows_hold_insert [OF assms] insert_writes reliableD(7) [of e c tbl k row t]
  by (intro ok_or_attempts) auto

lemma encode_attempts:
  assumes "\<And>row. to_vec x = Some row \<Longrightarrow> from_slice row = Some x" and "redb_reliable e c \<Longrightarrow> to_vec x \<noteq> None"
  shows "succeeds (redb_reliable e c) (\<lambda>row. from_slice row = Some x) (encode to_vec x)"
  unfolding encode_def using assms by (intro ok_or_attempts) auto

lemmas encode_ceremony = encode_attempts [where to_vec = "rc_ceremony c" and from_slice = "rc_ceremony_from c"]
  and encode_record = encode_attempts [where to_vec = "rc_record c" and from_slice = "rc_record_from c"]
  and encode_message = encode_attempts [where to_vec = "rc_message c" and from_slice = "rc_message_from c"]

lemma write_frame:
  assumes "rep d s" and rep: "\<And>d d'. db d = db d' \<Longrightarrow> rep d = rep d'"
    and work: "\<And>t. tx t = db d \<Longrightarrow> attempts (redb_reliable e c) (\<lambda>x. case x of
        Inl err \<Rightarrow> r' = Inl err \<and> rep d s'
      | Inr (t', r, keep) \<Rightarrow> r' = Inr r \<and> (if keep then \<forall>d'. db d' = tx t' \<longrightarrow> rep d' s' else rep d s')) (work t)"
  shows "simulated (redb_reliable e c) rep s (s', r') (blocking e (with_write e work) d)"
proof -
  obtain d1 completed where spawn: "rd_spawn_blocking e d = (d1, completed)" by (cases "rd_spawn_blocking e d")
  have d1: "db d1 = db d" using spawn_keeps [of d] by (simp add: spawn)
  obtain d2 begun where began: "rd_begin_write e d1 = (d2, begun)" by (cases "rd_begin_write e d1")
  have d2: "db d2 = db d" "\<forall>t. begun = Some t \<longrightarrow> tx t = db d" using write_begins [OF began] d1 by auto
  note reps = rep [OF d1] rep [OF d2(1)]
  have join: "redb_reliable e c \<Longrightarrow> completed" "redb_reliable e c \<Longrightarrow> begun \<noteq> None"
    using reliableD(1) [of e c d] reliableD(2) [of e c d1] by (simp_all add: spawn began)
  show ?thesis
  proof (cases "completed \<and> begun \<noteq> None")
    case False
    then show ?thesis using join reps assms(1)
      by (auto simp: simulated_def blocking_def with_write_def spawn began split: option.splits if_splits)
  next
    case True
    then obtain t where t: "begun = Some t" "tx t = db d" using d2(2) by auto
    have run: "blocking e (with_write e work) d = (case work t of
        Inl err \<Rightarrow> (d2, Inl err)
      | Inr (t', r, keep) \<Rightarrow> if \<not> keep then (d2, Inr r)
          else case rd_commit e t' d2 of (d3, ok) \<Rightarrow> (d3, if ok then Inr r else Inl store_failure))"
      using True t(1) by (simp add: blocking_def with_write_def spawn began)
    show ?thesis
    proof (cases "work t")
      case (Inl err)
      then show ?thesis using work [OF t(2)] assms(1) reps by (auto simp: run simulated_def attempts_def)
    next
      case (Inr y)
      obtain t' r keep where y: "y = (t', r, keep)" by (cases y)
      obtain d3 ok where commit: "rd_commit e t' d2 = (d3, ok)" by (cases "rd_commit e t' d2")
      have post: "r' = Inr r \<and> (if keep then \<forall>d'. db d' = tx t' \<longrightarrow> rep d' s' else rep d s')"
        using work [OF t(2)] Inr y by (auto simp: attempts_def)
      have "redb_reliable e c \<Longrightarrow> ok" using reliableD(8) [of e c t' d2] commit by simp
      moreover have "rep d3 s' \<or> \<not> ok \<and> rep d3 s" if keep
        using commit_atomic [OF commit] post that rep [of d3 d] d2(1) assms(1) by auto
      ultimately show ?thesis using post reps by (auto simp: run Inr y commit simulated_def)
    qed
  qed
qed

lemma read_frame:
  assumes "rep d s" and rep: "\<And>d d'. db d = db d' \<Longrightarrow> rep d = rep d'"
    and work: "\<And>t. tx t = db d \<Longrightarrow> attempts (redb_reliable e c) (\<lambda>x. x = r') (work t)"
  shows "simulated (redb_reliable e c) rep s (s, r') (blocking e (with_read e work) d)"
proof -
  obtain d1 completed where spawn: "rd_spawn_blocking e d = (d1, completed)" by (cases "rd_spawn_blocking e d")
  have d1: "db d1 = db d" using spawn_keeps [of d] by (simp add: spawn)
  obtain d2 begun where began: "rd_begin_read e d1 = (d2, begun)" by (cases "rd_begin_read e d1")
  have d2: "db d2 = db d" "\<forall>t. begun = Some t \<longrightarrow> tx t = db d" using read_begins [OF began] d1 by auto
  note reps = rep [OF d1] rep [OF d2(1)]
  have join: "redb_reliable e c \<Longrightarrow> completed" "redb_reliable e c \<Longrightarrow> begun \<noteq> None"
    using reliableD(1) [of e c d] reliableD(3) [of e c d1] by (simp_all add: spawn began)
  show ?thesis using join reps assms(1) work d2(2)
    by (cases begun) (auto simp: simulated_def blocking_def with_read_def spawn began attempts_def split: if_splits)
qed

end

end
