(* ===== verification/Redb_Refinement.thy ===== *)
theory Redb_Refinement
  imports Redb_Laws
begin

text \<open>
  The embedded store refines the one in memory: when its tables represent a store, each port call
  returns what the store in memory returns and leaves tables that represent its result, or reports
  one of three failures of the engine and has taken effect as a whole or not at all.
\<close>

section \<open>Representation\<close>

definition numbered :: "audit_record list \<Rightarrow> bool" where
  "numbered j = (\<forall>i < length j. arec_sequence (j ! i) = word_of_nat (Suc i))"

definition store_ok :: "ceremony_store \<Rightarrow> bool" where
  "store_ok s =
     (rows_fit 1 st_journal s \<and> rows_fit 0 st_outbox s \<and>
      (\<forall>(cid, st) \<in> set s. (st_revision st = None \<longleftrightarrow> st_instance st = None) \<and> numbered (st_journal st) \<and>
         list_all (\<lambda>z. message_exact (so_message z)) (st_outbox st)))"

definition represents :: "'b row_codec \<Rightarrow> (redb_table \<Rightarrow> (bytes, 'b) btree_map) \<Rightarrow> ceremony_store \<Rightarrow> bool" where
  "represents c rows s =
     (store_ok s \<and> rows_hold (rc_ceremony_from c) (rows CEREMONIES) (ceremony_rows s) \<and>
      rows_hold (rc_record_from c) (rows JOURNAL) (scoped_rows 1 st_journal s) \<and>
      rows_hold (rc_message_from c) (rows OUTBOX) (scoped_rows 0 st_outbox s))"

lemma store_okD:
  assumes "store_ok s"
  shows "bt_wf s" "\<forall>cid \<in> fst ` set s. key_text cid" "rows_fit 1 st_journal s" "rows_fit 0 st_outbox s"
  using assms by (auto simp: store_ok_def rows_fit_def)

text \<open>The entry of a session, whether it is there or not.\<close>

definition entry_ok :: "stored_ceremony \<Rightarrow> bool" where
  "entry_ok st = (Suc (length (st_journal st)) \<le> 2 ^ 64 \<and> length (st_outbox st) \<le> 2 ^ 64 \<and>
     (st_revision st = None \<longleftrightarrow> st_instance st = None) \<and> numbered (st_journal st) \<and>
     list_all (\<lambda>z. message_exact (so_message z)) (st_outbox st))"

lemma default_fields [simp]:
  "st_journal StoredCeremony_default = []" "st_outbox StoredCeremony_default = []"
  "st_revision StoredCeremony_default = None" "st_instance StoredCeremony_default = None"
  by (simp_all add: StoredCeremony_default_def)

lemma store_ok_iff:
  "store_ok s \<longleftrightarrow> bt_wf s \<and> (\<forall>(cid, st) \<in> set s. key_text cid \<and> entry_ok st)"
  unfolding store_ok_def rows_fit_def entry_ok_def by fastforce

lemma entry_ok_entry: "store_ok s \<Longrightarrow> entry_ok (entry_or_default s cid)"
proof (cases "bt_get s cid")
  case None
  then show ?thesis by (simp add: entry_or_default_def entry_ok_def numbered_def)
next
  case (Some st)
  assume "store_ok s"
  moreover from this have "(cid, st) \<in> set s" using Some by (simp add: store_ok_iff bt_get_iff)
  ultimately show ?thesis using Some by (auto simp: store_ok_iff entry_or_default_def simp del: map_of_eq_Some_iff)
qed

lemma store_ok_insert: "\<lbrakk>store_ok s; key_text cid; entry_ok st\<rbrakk> \<Longrightarrow> store_ok (bt_insert cid st s)"
  by (auto simp: store_ok_iff set_bt_insert)

lemma entry_row:
  assumes "store_ok s"
  shows "map_option dc_revision (ceremony_row (entry_or_default s cid)) = st_revision (entry_or_default s cid)"
    and "map_option dc_instance (ceremony_row (entry_or_default s cid)) = st_instance (entry_or_default s cid)"
  using entry_ok_entry [OF assms, of cid] by (auto simp: entry_ok_def ceremony_row_def split: option.splits)

lemma scoped_rows_cong: "f a = f b \<Longrightarrow> scoped_rows first f (bt_insert cid a s) = scoped_rows first f (bt_insert cid b s)"
proof (induction s)
  case (Cons p s)
  then show ?case by (cases p) (auto simp: scoped_rows_Cons)
qed (simp add: scoped_rows_Cons)

lemma ceremony_rows_cong: "ceremony_row a = ceremony_row b \<Longrightarrow> ceremony_rows (bt_insert cid a s) = ceremony_rows (bt_insert cid b s)"
proof (induction s)
  case (Cons p s)
  then show ?case by (cases p) (auto split: option.splits)
qed simp

text \<open>An entry that is only touched changes no row.\<close>

lemma represents_touch:
  assumes "represents c rows s" and key: "key_text cid"
  shows "represents c rows (bt_insert cid (entry_or_default s cid) s)"
proof -
  have ok: "store_ok s" using assms by (simp add: represents_def)
  note d = store_okD [OF ok]
  show ?thesis
    using assms store_ok_insert [OF ok key entry_ok_entry [OF ok]]
      scoped_rows_unchanged [OF d(3) key refl] scoped_rows_unchanged [OF d(4) key refl] ceremony_rows_unchanged [OF d(1,2) key refl]
    by (simp add: represents_def)
qed

lemma entry_store_instance: "store_instance s cid = st_instance (entry_or_default s cid)"
  and entry_store_revision: "store_revision s cid = st_revision (entry_or_default s cid)"
  and entry_store_records: "store_records s cid = st_journal (entry_or_default s cid)"
  and entry_store_head: "store_head s cid = pop_last (st_journal (entry_or_default s cid))"
  by (auto simp: store_instance_def store_revision_def store_records_def store_head_def entry_or_default_def pop_last_def split: option.splits)

lemmas entry_reads = entry_store_instance entry_store_revision entry_store_records entry_store_head

section \<open>Sealing\<close>

lemma seal_onto_next: "seal_onto sha rfc (pop_last j) f = seal_next sha rfc j f"
  by (simp add: pop_last_def seal_next_def)

lemma sat_succ_word_of_nat: "Suc n < 2 ^ 64 \<Longrightarrow> sat_succ (word_of_nat n :: 64 word) = word_of_nat (Suc n)"
  by (simp add: word_unat_eq_iff unat_sat_succ unat_of_nat del: of_nat_Suc)

lemma seal_next_sequence:
  assumes "seal_next sha rfc j f = Inr r" and "numbered j" and "Suc (length j) < 2 ^ 64"
  shows "arec_sequence r = word_of_nat (Suc (length j))"
proof (cases "j = []")
  case True
  then show ?thesis using assms(1) by (auto simp: seal_next_def AuditRecord_first_def AuditSequence_FIRST_def dest: seal_Inr)
next
  case False
  have "arec_sequence (last j) = word_of_nat (length j)"
    using assms(2) False Suc_pred [of "length j"] unfolding numbered_def by (metis One_nat_def last_conv_nth length_greater_0_conv lessI)
  moreover have "arec_sequence r = AuditSequence_next (arec_sequence (last j))"
    using assms(1) False by (auto simp: seal_next_def AuditRecord_following_def dest: seal_Inr split: if_splits)
  ultimately show ?thesis using sat_succ_word_of_nat [OF assms(3)] by (simp add: AuditSequence_next_def)
qed

lemma numbered_snoc: "\<lbrakk>numbered j; arec_sequence r = word_of_nat (Suc (length j))\<rbrakk> \<Longrightarrow> numbered (j @ [r])"
  by (auto simp: numbered_def nth_append less_Suc_eq)

lemma row_key_Suc: "scoped cid (word_of_nat (Suc n)) = row_key cid (1 + n)"
  by (simp add: row_key_def)

lemma list_all_map_new: "list_all (\<lambda>z. message_exact (so_message z)) (map StoredOutboxMessage_new ms) = list_all message_exact ms"
  by (simp add: list.pred_map comp_def StoredOutboxMessage_new_def)

text \<open>A session with another journal or outbox.\<close>

abbreviation with_journal :: "ceremony_store \<Rightarrow> rstr \<Rightarrow> audit_record list \<Rightarrow> ceremony_store" where
  "with_journal s cid j \<equiv> bt_insert cid ((entry_or_default s cid)\<lparr>st_journal := j\<rparr>) s"

abbreviation with_outbox :: "ceremony_store \<Rightarrow> rstr \<Rightarrow> stored_outbox_message list \<Rightarrow> ceremony_store" where
  "with_outbox s cid os \<equiv> bt_insert cid ((entry_or_default s cid)\<lparr>st_outbox := os\<rparr>) s"

lemma journal_rows_snoc:
  assumes ok: "store_ok s" and key: "key_text cid" and "Suc (length j) < 2 ^ 64"
  shows "scoped_rows 1 st_journal (with_journal s cid (j @ [r])) =
    bt_insert (row_key cid (1 + length j)) r (scoped_rows 1 st_journal (with_journal s cid j))"
proof -
  have fit: "rows_fit 1 st_journal (with_journal s cid j)" using store_okD(3) [OF ok] key assms(3) by (intro rows_fit_insert) auto
  have "scoped_rows 1 st_journal (bt_insert cid ((entry_or_default s cid)\<lparr>st_journal := j @ [r]\<rparr>) (with_journal s cid j)) =
      bt_insert (row_key cid (1 + length (st_journal (entry_or_default (with_journal s cid j) cid)))) r (scoped_rows 1 st_journal (with_journal s cid j))"
    using assms(3) by (intro scoped_rows_append [OF fit key]) auto
  then show ?thesis by (simp add: bt_insert_twice store_okD(1) [OF ok])
qed

lemma outbox_rows_snoc:
  assumes ok: "store_ok s" and key: "key_text cid" and "length os < 2 ^ 64"
  shows "scoped_rows 0 st_outbox (with_outbox s cid (os @ [m])) =
    bt_insert (row_key cid (length os)) m (scoped_rows 0 st_outbox (with_outbox s cid os))"
proof -
  have fit: "rows_fit 0 st_outbox (with_outbox s cid os)" using store_okD(4) [OF ok] key assms(3) by (intro rows_fit_insert) auto
  have "scoped_rows 0 st_outbox (bt_insert cid ((entry_or_default s cid)\<lparr>st_outbox := os @ [m]\<rparr>) (with_outbox s cid os)) =
      bt_insert (row_key cid (0 + length (st_outbox (entry_or_default (with_outbox s cid os) cid)))) m (scoped_rows 0 st_outbox (with_outbox s cid os))"
    using assms(3) by (intro scoped_rows_append [OF fit key]) auto
  then show ?thesis by (simp add: bt_insert_twice store_okD(1) [OF ok])
qed

context redb_database
begin

lemma append_record_attempts:
  assumes "rows_hold (rc_record_from c) (tx t JOURNAL) (scoped_rows 1 st_journal (with_journal s cid j))"
    and ok: "store_ok s" and key: "key_text cid" and len: "Suc (length j) < 2 ^ 64"
    and r: "arec_sequence r = word_of_nat (Suc (length j))"
  shows "succeeds (redb_reliable e c) (\<lambda>t'. rows_hold (rc_record_from c) (tx t' JOURNAL) (scoped_rows 1 st_journal (with_journal s cid (j @ [r]))) \<and>
      (\<forall>tbl. tbl \<noteq> JOURNAL \<longrightarrow> tx t' tbl = tx t tbl)) (append_record e c cid r t)"
  unfolding append_record_def
proof (rule attempts_bind [OF encode_record [of r]])
  show "rc_record c r = Some row \<Longrightarrow> rc_record_from c row = Some r" for row by (rule record_codec)
  show "redb_reliable e c \<Longrightarrow> rc_record c r \<noteq> None" by (rule reliableD)
  fix row assume "rc_record_from c row = Some r"
  from insert_row_attempts [OF assms(1) this, of "scoped cid (arec_sequence r)"]
  show "succeeds (redb_reliable e c) (\<lambda>t'. rows_hold (rc_record_from c) (tx t' JOURNAL) (scoped_rows 1 st_journal (with_journal s cid (j @ [r]))) \<and>
      (\<forall>tbl. tbl \<noteq> JOURNAL \<longrightarrow> tx t' tbl = tx t tbl)) (insert_row e JOURNAL (scoped cid (arec_sequence r)) row t)"
    unfolding journal_rows_snoc [OF ok key len] r row_key_Suc .
qed

lemma append_records_attempts:
  assumes "rows_hold (rc_record_from c) (tx t JOURNAL) (scoped_rows 1 st_journal (with_journal s cid j))"
    and ok: "store_ok s" and key: "key_text cid" and "Suc (length j + length fs) \<le> 2 ^ 64" and "numbered j"
  shows "attempts (redb_reliable e c) (\<lambda>x. case seal_facts sha rfc j fs of
      Inl err \<Rightarrow> x = Inl err
    | Inr (k, sealed) \<Rightarrow> \<exists>t'. x = Inr (sealed, t') \<and> numbered k \<and>
        rows_hold (rc_record_from c) (tx t' JOURNAL) (scoped_rows 1 st_journal (with_journal s cid k)) \<and>
        (\<forall>tbl. tbl \<noteq> JOURNAL \<longrightarrow> tx t' tbl = tx t tbl))
    (append_records e c sha rfc cid (pop_last j) fs t)"
  using assms(1,4,5)
proof (induction fs arbitrary: j t)
  case Nil
  then show ?case by (intro attempts_return) simp
next
  case (Cons f fs)
  show ?case
  proof (cases "seal_next sha rfc j f")
    case (Inl err)
    then show ?thesis by (intro attempts_return) (simp add: seal_onto_next)
  next
    case (Inr r)
    have len: "Suc (length j) < 2 ^ 64" using Cons.prems(2) by simp
    have r: "arec_sequence r = word_of_nat (Suc (length j))" using seal_next_sequence [OF Inr Cons.prems(3) len] .
    have "pop_last (j @ [r]) = Some r" by (simp add: pop_last_def)
    moreover have "attempts (redb_reliable e c) (\<lambda>x. case seal_facts sha rfc j (f # fs) of
          Inl err \<Rightarrow> x = Inl err
        | Inr (k, sealed) \<Rightarrow> \<exists>t'. x = Inr (sealed, t') \<and> numbered k \<and>
            rows_hold (rc_record_from c) (tx t' JOURNAL) (scoped_rows 1 st_journal (with_journal s cid k)) \<and>
            (\<forall>tbl. tbl \<noteq> JOURNAL \<longrightarrow> tx t' tbl = tx t tbl))
        (and_then (append_record e c cid r t) (\<lambda>t1.
          map_ok (\<lambda>(sealed, t2). (r # sealed, t2)) (append_records e c sha rfc cid (pop_last (j @ [r])) fs t1)))"
    proof (rule attempts_bind [OF append_record_attempts [OF Cons.prems(1) ok key len r]])
      fix t1 assume t1: "rows_hold (rc_record_from c) (tx t1 JOURNAL) (scoped_rows 1 st_journal (with_journal s cid (j @ [r]))) \<and>
        (\<forall>tbl. tbl \<noteq> JOURNAL \<longrightarrow> tx t1 tbl = tx t tbl)"
      have "Suc (length (j @ [r]) + length fs) \<le> 2 ^ 64" using Cons.prems(2) by simp
      from Cons.IH [OF conjunct1 [OF t1] this numbered_snoc [OF Cons.prems(3) r]] t1 Inr
      show "attempts (redb_reliable e c) (\<lambda>x. case seal_facts sha rfc j (f # fs) of
          Inl err \<Rightarrow> x = Inl err
        | Inr (k, sealed) \<Rightarrow> \<exists>t'. x = Inr (sealed, t') \<and> numbered k \<and>
            rows_hold (rc_record_from c) (tx t' JOURNAL) (scoped_rows 1 st_journal (with_journal s cid k)) \<and>
            (\<forall>tbl. tbl \<noteq> JOURNAL \<longrightarrow> tx t' tbl = tx t tbl))
        (map_ok (\<lambda>(sealed, t2). (r # sealed, t2)) (append_records e c sha rfc cid (pop_last (j @ [r])) fs t1))"
        by (cases "seal_facts sha rfc (j @ [r]) fs") (auto simp: attempts_def)
    qed
    ultimately show ?thesis using Inr by (simp add: seal_onto_next)
  qed
qed

lemma enqueue_attempts:
  assumes "rows_hold (rc_message_from c) (tx t OUTBOX) (scoped_rows 0 st_outbox (with_outbox s cid os))"
    and ok: "store_ok s" and key: "key_text cid" and "length os + length ms \<le> 2 ^ 64" and "list_all message_exact ms"
  shows "succeeds (redb_reliable e c) (\<lambda>t'.
      rows_hold (rc_message_from c) (tx t' OUTBOX) (scoped_rows 0 st_outbox (with_outbox s cid (os @ map StoredOutboxMessage_new ms))) \<and>
      (\<forall>tbl. tbl \<noteq> OUTBOX \<longrightarrow> tx t' tbl = tx t tbl)) (enqueue_messages e c cid (word_of_nat (length os)) ms t)"
  using assms(1,4,5)
proof (induction ms arbitrary: os t)
  case Nil
  then show ?case by (intro attempts_return) simp
next
  case (Cons m ms)
  let ?m = "StoredOutboxMessage_new m"
  have len: "length os < 2 ^ 64" and m: "message_exact (so_message ?m)" using Cons.prems(2,3) by (simp_all add: StoredOutboxMessage_new_def)
  have ordinal: "word_of_nat (length os) + 1 = (word_of_nat (length (os @ [?m])) :: 64 word)" by (simp add: add.commute)
  show ?case unfolding enqueue_messages.simps ordinal
  proof (rule attempts_bind [OF encode_message [of ?m]])
    show "rc_message c ?m = Some row \<Longrightarrow> rc_message_from c row = Some ?m" for row by (rule message_codec [OF m])
    show "redb_reliable e c \<Longrightarrow> rc_message c ?m \<noteq> None" by (rule reliableD)
    fix row assume row: "rc_message_from c row = Some ?m"
    show "succeeds (redb_reliable e c) (\<lambda>t'.
        rows_hold (rc_message_from c) (tx t' OUTBOX) (scoped_rows 0 st_outbox (with_outbox s cid (os @ map StoredOutboxMessage_new (m # ms)))) \<and>
        (\<forall>tbl. tbl \<noteq> OUTBOX \<longrightarrow> tx t' tbl = tx t tbl))
      (and_then (insert_row e OUTBOX (scoped cid (word_of_nat (length os))) row t) (enqueue_messages e c cid (word_of_nat (length (os @ [?m]))) ms))"
    proof (rule attempts_bind [OF insert_row_attempts [OF Cons.prems(1) row]])
      fix t1 assume t1: "rows_hold (rc_message_from c) (tx t1 OUTBOX) (bt_insert (scoped cid (word_of_nat (length os))) ?m
          (scoped_rows 0 st_outbox (with_outbox s cid os))) \<and> (\<forall>tbl'. tbl' \<noteq> OUTBOX \<longrightarrow> tx t1 tbl' = tx t tbl')"
      then have "rows_hold (rc_message_from c) (tx t1 OUTBOX) (scoped_rows 0 st_outbox (with_outbox s cid (os @ [?m])))"
        unfolding outbox_rows_snoc [OF ok key len] row_key_def by blast
      then have "succeeds (redb_reliable e c) (\<lambda>t'.
          rows_hold (rc_message_from c) (tx t' OUTBOX) (scoped_rows 0 st_outbox (with_outbox s cid ((os @ [?m]) @ map StoredOutboxMessage_new ms))) \<and>
          (\<forall>tbl. tbl \<noteq> OUTBOX \<longrightarrow> tx t' tbl = tx t1 tbl)) (enqueue_messages e c cid (word_of_nat (length (os @ [?m]))) ms t1)"
        using Cons.prems(2,3) by (intro Cons.IH) auto
      then show "succeeds (redb_reliable e c) (\<lambda>t'.
          rows_hold (rc_message_from c) (tx t' OUTBOX) (scoped_rows 0 st_outbox (with_outbox s cid (os @ map StoredOutboxMessage_new (m # ms)))) \<and>
          (\<forall>tbl. tbl \<noteq> OUTBOX \<longrightarrow> tx t' tbl = tx t tbl)) (enqueue_messages e c cid (word_of_nat (length (os @ [?m]))) ms t1)"
        by (rule attempts_mono) (use t1 in auto)
    qed
  qed
qed

lemma journal_of_attempts:
  assumes "represents c (tx t) s" and key: "key_text cid"
  shows "succeeds (redb_reliable e c) (\<lambda>j. j = st_journal (entry_or_default s cid)) (journal_of e c cid t)"
proof -
  have "rows_hold (rc_record_from c) (tx t JOURNAL) (scoped_rows 1 st_journal s)" and "store_ok s" using assms(1) by (simp_all add: represents_def)
  then show ?thesis unfolding journal_of_def
    using range_of_rows [OF store_okD(3) [of s] key] by (intro succeeds_map [OF scan_rows_attempts]) auto
qed

lemma stored_row_attempts:
  assumes "represents c (tx t) s" and key: "key_text cid"
  shows "succeeds (redb_reliable e c) (\<lambda>found. found = ceremony_row (entry_or_default s cid)) (stored_row e c cid t)"
  unfolding stored_row_def
proof (rule attempts_bind [OF open_tbl_attempts])
  have "rows_hold (rc_ceremony_from c) (tx t CEREMONIES) (ceremony_rows s)" and "store_ok s" using assms(1) by (simp_all add: represents_def)
  then show "succeeds (redb_reliable e c) (\<lambda>found. found = ceremony_row (entry_or_default s cid))
      (read_row e CEREMONIES (rc_ceremony_from c) (as_bytes cid) t)"
    using read_row_attempts [of "rc_ceremony_from c" t CEREMONIES "ceremony_rows s" "as_bytes cid"]
    by (simp add: get_ceremony_rows [OF store_okD(1,2) key])
qed

lemma write_row_attempts:
  assumes "rows_hold (rc_ceremony_from c) (tx t CEREMONIES) table" and x: "instance_exact (dc_instance x)"
  shows "succeeds (redb_reliable e c) (\<lambda>t'. rows_hold (rc_ceremony_from c) (tx t' CEREMONIES) (bt_insert k x table) \<and>
      (\<forall>tbl. tbl \<noteq> CEREMONIES \<longrightarrow> tx t' tbl = tx t tbl))
    (and_then (encode (rc_ceremony c) x) (\<lambda>row. insert_row e CEREMONIES k row t))"
proof (rule attempts_bind [OF encode_ceremony [of x]])
  show "rc_ceremony c x = Some row \<Longrightarrow> rc_ceremony_from c row = Some x" for row by (rule ceremony_codec [OF x])
  show "redb_reliable e c \<Longrightarrow> rc_ceremony c x \<noteq> None" by (rule reliableD)
qed (rule insert_row_attempts [OF assms(1)])

lemma range_count_attempts:
  assumes "rows_hold f (tx t tbl) table"
  shows "succeeds (redb_reliable e c) (\<lambda>entries. length entries = length (filter (\<lambda>(k, x). in_range limits k) table))
    (ok_or (rd_range e tbl limits t) store_failure)"
proof (rule ok_or_attempts)
  show "rd_range e tbl limits t = None \<Longrightarrow> \<not> redb_reliable e c" using reliableD(6) [of e c tbl limits t] by auto
  show "rd_range e tbl limits t = Some entries \<Longrightarrow> length entries = length (filter (\<lambda>(k, x). in_range limits k) table)" for entries
    using list_all2_lengthD [OF range_reads [of tbl limits t entries]] list_all2_lengthD [OF rows_hold_filter [OF assms, of "in_range limits", unfolded rows_hold_def]]
    by simp
qed simp

text \<open>What a commit leaves: the session with its new journal, outbox, revision and instance.\<close>

lemma settle_commit_attempts:
  fixes m :: ceremony_commit
  defines "cid \<equiv> inst_id (commit_instance m)" and "revision \<equiv> ExpectedRevision_resulting_revision (commit_expected_revision m)"
  assumes ok: "store_ok s" and key: "key_text cid" and new: "entry_ok new"
    and "st_revision new = Some revision" "st_instance new = Some (commit_instance m)"
      "st_outbox new = st_outbox (entry_or_default s cid) @ map StoredOutboxMessage_new (commit_messages m)"
    and "rows_hold (rc_ceremony_from c) (tx t CEREMONIES) (ceremony_rows s)" "rows_hold (rc_message_from c) (tx t OUTBOX) (scoped_rows 0 st_outbox s)"
      "rows_hold (rc_record_from c) (tx t JOURNAL) (scoped_rows 1 st_journal (with_journal s cid (st_journal new)))"
    and exact: "instance_exact (commit_instance m)" "list_all message_exact (commit_messages m)"
  shows "succeeds (redb_reliable e c) (\<lambda>(t', r, keep). keep \<and> r = Committed revision sealed \<and> represents c (tx t') (bt_insert cid new s))
    (settle_commit e c m sealed t)"
  unfolding settle_commit_def Let_def cid_def [symmetric] revision_def [symmetric]
proof (rule attempts_bind [OF open_tbl_attempts], rule attempts_bind [OF range_count_attempts [OF assms(10)]])
  note wf = store_okD [OF ok]
  fix enqueued :: "(bytes \<times> 'b) option list"
  assume "length enqueued = length (filter (\<lambda>(k, x). in_range (Some (scope_range cid)) k) (scoped_rows 0 st_outbox s))"
  also have "\<dots> = length (st_outbox (entry_or_default s cid))" using range_of_rows [OF wf(4) key] by (metis default_fields(2) length_map)
  finally have count: "length enqueued = length (st_outbox (entry_or_default s cid))" .
  have start: "rows_hold (rc_message_from c) (tx t OUTBOX) (scoped_rows 0 st_outbox (with_outbox s cid (st_outbox (entry_or_default s cid))))"
    using assms(10) scoped_rows_unchanged [OF wf(4) key refl] by simp
  have "length (st_outbox (entry_or_default s cid)) + length (commit_messages m) \<le> 2 ^ 64" using new assms(8) by (simp add: entry_ok_def)
  note enqueue = enqueue_attempts [OF start ok key this exact(2)]
  show "succeeds (redb_reliable e c) (\<lambda>(t', r, keep). keep \<and> r = Committed revision sealed \<and> represents c (tx t') (bt_insert cid new s))
     (and_then (enqueue_messages e c cid (word_of_nat (length enqueued)) (commit_messages m) t) (\<lambda>t1.
      and_then (and_then (encode (rc_ceremony c) \<lparr>dc_revision = revision, dc_instance = commit_instance m\<rparr>) (\<lambda>row.
        insert_row e CEREMONIES (as_bytes cid) row t1)) (\<lambda>t2. Inr (t2, Committed revision sealed, True))))"
    unfolding count
  proof (rule attempts_bind [OF enqueue], rule attempts_bind [OF write_row_attempts])
    fix t1 assume t1: "rows_hold (rc_message_from c) (tx t1 OUTBOX) (scoped_rows 0 st_outbox
        (with_outbox s cid (st_outbox (entry_or_default s cid) @ map StoredOutboxMessage_new (commit_messages m)))) \<and>
        (\<forall>tbl. tbl \<noteq> OUTBOX \<longrightarrow> tx t1 tbl = tx t tbl)"
    then show "rows_hold (rc_ceremony_from c) (tx t1 CEREMONIES) (ceremony_rows s)" using assms(9) by simp
    show "instance_exact (dc_instance \<lparr>dc_revision = revision, dc_instance = commit_instance m\<rparr>)" using exact(1) by simp
    fix t2 assume t2: "rows_hold (rc_ceremony_from c) (tx t2 CEREMONIES) (bt_insert (as_bytes cid) \<lparr>dc_revision = revision, dc_instance = commit_instance m\<rparr>
        (ceremony_rows s)) \<and> (\<forall>tbl. tbl \<noteq> CEREMONIES \<longrightarrow> tx t2 tbl = tx t1 tbl)"
    have "ceremony_rows (bt_insert cid new s) = bt_insert (as_bytes cid) \<lparr>dc_revision = revision, dc_instance = commit_instance m\<rparr> (ceremony_rows s)"
      using assms(6,7) by (intro ceremony_rows_insert [OF wf(1,2) key]) (simp add: ceremony_row_def)
    moreover have "scoped_rows 0 st_outbox (bt_insert cid new s) = scoped_rows 0 st_outbox
        (with_outbox s cid (st_outbox (entry_or_default s cid) @ map StoredOutboxMessage_new (commit_messages m)))"
      using assms(8) by (intro scoped_rows_cong) simp
    moreover have "scoped_rows 1 st_journal (bt_insert cid new s) = scoped_rows 1 st_journal (with_journal s cid (st_journal new))"
      by (intro scoped_rows_cong) simp
    ultimately show "succeeds (redb_reliable e c) (\<lambda>(t', r, keep). keep \<and> r = Committed revision sealed \<and>
        represents c (tx t') (bt_insert cid new s)) (Inr (t2, Committed revision sealed, True))"
      using t1 t2 assms(11) store_ok_insert [OF ok key new] by (intro attempts_return) (simp add: represents_def)
  qed
qed

lemma write_commit_attempts:
  fixes m :: ceremony_commit
  defines "cid \<equiv> inst_id (commit_instance m)"
  assumes rows: "represents c (tx t) s" and key: "key_text cid"
    and fits: "Suc (length (st_journal (entry_or_default s cid)) + length (commit_facts m)) \<le> 2 ^ 64"
      "length (st_outbox (entry_or_default s cid)) + length (commit_messages m) \<le> 2 ^ 64"
    and exact: "instance_exact (commit_instance m)" "list_all message_exact (commit_messages m)"
    and matches: "ExpectedRevision_matches (commit_expected_revision m) (st_revision (entry_or_default s cid))"
    and answer: "store_commit sha rfc m s = (s', r')"
  shows "attempts (redb_reliable e c) (\<lambda>x. case x of Inl err \<Rightarrow> r' = Inl err
      | Inr (t', r, keep) \<Rightarrow> keep \<and> r' = Inr r \<and> represents c (tx t') s') (write_commit e c sha rfc m t)"
    (is "attempts _ ?P _")
  unfolding write_commit_def cid_def [symmetric]
proof (rule attempts_bind [OF open_tbl_attempts], rule attempts_bind [OF journal_of_attempts [OF rows key]])
  let ?st = "entry_or_default s cid" and ?revision = "ExpectedRevision_resulting_revision (commit_expected_revision m)"
  have ok: "store_ok s" and tables: "rows_hold (rc_ceremony_from c) (tx t CEREMONIES) (ceremony_rows s)"
      "rows_hold (rc_record_from c) (tx t JOURNAL) (scoped_rows 1 st_journal s)" "rows_hold (rc_message_from c) (tx t OUTBOX) (scoped_rows 0 st_outbox s)"
    using rows by (simp_all add: represents_def)
  have st: "entry_ok ?st" using ok by (rule entry_ok_entry)
  then have numbered: "numbered (st_journal ?st)" by (simp add: entry_ok_def)
  have journal: "rows_hold (rc_record_from c) (tx t JOURNAL) (scoped_rows 1 st_journal (with_journal s cid (st_journal ?st)))"
    using tables(2) scoped_rows_unchanged [OF store_okD(3) [OF ok] key refl] by simp
  fix j assume j: "j = st_journal ?st"
  note sealing = append_records_attempts [OF journal ok key fits(1) numbered, of sha rfc, folded j]
  show "attempts (redb_reliable e c) ?P (and_then (append_records e c sha rfc cid (pop_last j) (commit_facts m) t)
      (\<lambda>(sealed, t1). settle_commit e c m sealed t1))"
  proof (cases "seal_facts sha rfc j (commit_facts m)")
    case (Inl err)
    then show ?thesis using sealing answer matches by (auto simp: attempts_def store_commit_def Let_def j cid_def)
  next
    case (Inr p)
    obtain k sealed where p: "p = (k, sealed)" by (cases p)
    define new where "new = ?st\<lparr>st_revision := Some ?revision, st_instance := Some (commit_instance m), st_journal := k,
      st_outbox := st_outbox ?st @ map StoredOutboxMessage_new (commit_messages m)\<rparr>"
    have s': "s' = bt_insert cid new s" "r' = Inr (Committed ?revision sealed)"
      using answer matches Inr by (simp_all add: store_commit_def Let_def p j new_def cid_def)
    have k: "length k = length j + length (commit_facts m)"
      using seal_facts_records [of sha rfc j "commit_facts m" k sealed] Inr p by (auto dest: list_all2_lengthD)
    have sealed: "succeeds (redb_reliable e c) (\<lambda>(sealed', t1). sealed' = sealed \<and> numbered k \<and>
          rows_hold (rc_record_from c) (tx t1 JOURNAL) (scoped_rows 1 st_journal (with_journal s cid k)) \<and>
          (\<forall>tbl. tbl \<noteq> JOURNAL \<longrightarrow> tx t1 tbl = tx t tbl)) (append_records e c sha rfc cid (pop_last j) (commit_facts m) t)"
      by (rule attempts_mono [OF sealing]) (simp add: Inr p)
    show ?thesis
    proof (rule attempts_bind [OF sealed], clarify)
      fix t1 assume "numbered k" and t1: "rows_hold (rc_record_from c) (tx t1 JOURNAL) (scoped_rows 1 st_journal (with_journal s cid k))"
        "\<forall>tbl. tbl \<noteq> JOURNAL \<longrightarrow> tx t1 tbl = tx t tbl"
      then have "entry_ok new" using fits k st exact(2) by (simp add: entry_ok_def new_def j list_all_map_new)
      then have "succeeds (redb_reliable e c) (\<lambda>(t', r, keep). keep \<and> r = Committed ?revision sealed \<and> represents c (tx t') (bt_insert cid new s))
          (settle_commit e c m sealed t1)"
        using ok key t1 tables exact unfolding cid_def by (intro settle_commit_attempts) (simp_all add: new_def cid_def)
      then show "attempts (redb_reliable e c) ?P (settle_commit e c m sealed t1)"
        by (rule attempts_mono) (auto simp: s')
    qed
  qed
qed

lemma commit_simulated:
  fixes m :: ceremony_commit
  defines "cid \<equiv> inst_id (commit_instance m)"
  assumes rep: "represents c (db d) s" and key: "key_text cid"
    and "Suc (length (st_journal (entry_or_default s cid)) + length (commit_facts m)) \<le> 2 ^ 64"
      "length (st_outbox (entry_or_default s cid)) + length (commit_messages m) \<le> 2 ^ 64"
    and exact: "instance_exact (commit_instance m)" "list_all message_exact (commit_messages m)"
  shows "simulated (redb_reliable e c) (\<lambda>d. represents c (db d)) s (store_commit sha rfc m s) (redb_commit e c sha rfc m d)"
proof -
  obtain s' r' where answer: "store_commit sha rfc m s = (s', r')" by (cases "store_commit sha rfc m s")
  have ok: "store_ok s" using rep by (simp add: represents_def)
  show ?thesis unfolding answer redb_commit_def
  proof (rule write_frame)
    fix t assume t: "tx t = db d"
    then have rows: "represents c (tx t) s" using rep by simp
    show "attempts (redb_reliable e c) (\<lambda>x. case x of Inl err \<Rightarrow> r' = Inl err \<and> represents c (db d) s'
        | Inr (t', r, keep) \<Rightarrow> r' = Inr r \<and> (if keep then \<forall>d'. db d' = tx t' \<longrightarrow> represents c (db d') s' else represents c (db d) s'))
      (commit_work e c sha rfc m t)"
      unfolding commit_work_def Let_def cid_def [symmetric]
    proof (rule attempts_bind [OF stored_row_attempts [OF rows key]])
      fix found assume found: "found = ceremony_row (entry_or_default s cid)"
      note touched = represents_touch [OF rep key]
      show "attempts (redb_reliable e c) (\<lambda>x. case x of Inl err \<Rightarrow> r' = Inl err \<and> represents c (db d) s'
          | Inr (t', r, keep) \<Rightarrow> r' = Inr r \<and> (if keep then \<forall>d'. db d' = tx t' \<longrightarrow> represents c (db d') s' else represents c (db d) s'))
        (if \<not> ExpectedRevision_matches (commit_expected_revision m) (map_option dc_revision found)
         then Inr (t, CommitConflict (commit_expected_revision m) (map_option dc_revision found), False)
         else write_commit e c sha rfc m t)"
      proof (cases "ExpectedRevision_matches (commit_expected_revision m) (map_option dc_revision found)")
        case True
        then have matches: "ExpectedRevision_matches (commit_expected_revision m) (st_revision (entry_or_default s cid))"
          by (simp add: found entry_row [OF ok])
        show ?thesis
        proof (simp only: True not_True_eq_False if_False, rule attempts_mono)
          show "attempts (redb_reliable e c) (\<lambda>x. case x of Inl err \<Rightarrow> r' = Inl err
              | Inr (t', r, keep) \<Rightarrow> keep \<and> r' = Inr r \<and> represents c (tx t') s') (write_commit e c sha rfc m t)"
            using rows key assms(4,5) exact matches answer unfolding cid_def by (rule write_commit_attempts)
          fix x assume "case x of Inl err \<Rightarrow> r' = Inl err | Inr (t', r, keep) \<Rightarrow> keep \<and> r' = Inr r \<and> represents c (tx t') s'"
          moreover have "represents c (db d) s'" if "r' = Inl err" for err
            using that answer matches touched by (auto simp: store_commit_def Let_def cid_def split: sum.splits prod.splits)
          ultimately show "case x of Inl err \<Rightarrow> r' = Inl err \<and> represents c (db d) s'
            | Inr (t', r, keep) \<Rightarrow> r' = Inr r \<and> (if keep then \<forall>d'. db d' = tx t' \<longrightarrow> represents c (db d') s' else represents c (db d) s')"
            by (auto split: sum.splits)
        qed
      next
        case False
        then show ?thesis using touched answer
          by (intro attempts_return) (auto simp: found entry_row [OF ok] store_commit_def Let_def cid_def)
      qed
    qed
  qed (use rep in auto)
qed

end

end
