(* ===== verification/Redb_Ports.thy ===== *)
theory Redb_Ports
  imports Redb_Refinement
begin

text \<open>
  The remaining ports of the embedded store against the store in memory: the outbox with its scans
  across ceremonies, and the instance repository.
\<close>

section \<open>Stores that differ in their outboxes\<close>

definition same_layout :: "ceremony_store \<Rightarrow> ceremony_store \<Rightarrow> bool" where
  "same_layout =
     list_all2 (\<lambda>(cid, st) (cid', st'). cid = cid' \<and> (\<exists>os. st' = st\<lparr>st_outbox := os\<rparr> \<and> map so_message os = map so_message (st_outbox st)))"

lemma same_layout_rows:
  assumes "same_layout s s'"
  shows "ceremony_rows s' = ceremony_rows s" and "scoped_rows 1 st_journal s' = scoped_rows 1 st_journal s" and "bt_keys s' = bt_keys s"
  using assms unfolding same_layout_def
  by (induction s s' rule: list_all2_induct) (auto simp: ceremony_row_def scoped_rows_Cons split: option.splits)

lemma exact_messages: "list_all (\<lambda>z. message_exact (so_message z)) os = list_all message_exact (map so_message os)"
  by (simp add: list.pred_map comp_def)

lemma same_layout_ok:
  assumes "same_layout s s'" and "store_ok s"
  shows "store_ok s'"
proof -
  have "\<forall>(cid, st) \<in> set s'. key_text cid \<and> entry_ok st" if "\<forall>(cid, st) \<in> set s. key_text cid \<and> entry_ok st"
    using assms(1) that unfolding same_layout_def by (induction s s' rule: list_all2_induct) (auto simp: entry_ok_def exact_messages dest: map_eq_imp_length_eq)
  moreover have "bt_wf s' = bt_wf s" using same_layout_rows(3) [OF assms(1)] by (simp add: bt_wf_def)
  ultimately show ?thesis using assms(2) by (auto simp: store_ok_iff)
qed

lemma represents_outbox:
  assumes "represents c rows s" and "same_layout s s'"
    and "rows_hold (rc_message_from c) (rows' OUTBOX) (scoped_rows 0 st_outbox s')" and "\<And>tbl. tbl \<noteq> OUTBOX \<Longrightarrow> rows' tbl = rows tbl"
  shows "represents c rows' s'"
  using assms same_layout_ok [OF assms(2)] same_layout_rows [OF assms(2)] by (simp add: represents_def)

lemma map_outbox_layout: "(\<And>m. so_message (g m) = so_message m) \<Longrightarrow> same_layout s (map_outbox g s)"
  by (induction s) (auto simp: same_layout_def map_outbox_def)

lemma claim_head_Cons:
  "claim_head now until (m # ms) =
     (if so_delivered m then map_option (\<lambda>(os, msg). (m # os, msg)) (claim_head now until ms)
      else if \<not> StoredOutboxMessage_is_claimable m now then None
      else Some (m\<lparr>so_claimed_until := Some until\<rparr> # ms, \<lparr>claimed_message = so_message m, claimed_attempt = so_attempt m\<rparr>))"
  by (auto simp: claim_head_def split: option.splits)

lemma claim_head_messages: "claim_head now until os = Some (os', m) \<Longrightarrow> map so_message os' = map so_message os"
proof (induction os arbitrary: os')
  case (Cons z os)
  then show ?case by (auto simp: claim_head_Cons split: if_splits)
qed (simp add: claim_head_def)

lemma claim_loop_layout: "claim_loop limit now until n s = (s', claimed) \<Longrightarrow> same_layout s s'"
proof (induction s arbitrary: n s' claimed)
  case (Cons p s)
  obtain cid st where p: "p = (cid, st)" by (cases p)
  have self: "\<exists>os. st = st\<lparr>st_outbox := os\<rparr> \<and> map so_message os = map so_message (st_outbox st)" for st :: stored_ceremony
    by (rule exI [of _ "st_outbox st"]) simp
  have refl: "same_layout s s" for s by (induction s) (auto simp: same_layout_def self)
  show ?case
  proof (cases "limit \<le> n")
    case True
    then show ?thesis using Cons.prems refl by (simp add: p)
  next
    case False
    show ?thesis
    proof (cases "claim_head now until (st_outbox st)")
      case None
      then obtain s1 where "claim_loop limit now until n s = (s1, claimed)" "s' = (cid, st) # s1"
        using Cons.prems False by (auto simp: p split: prod.splits)
      then show ?thesis using Cons.IH self by (auto simp: p same_layout_def)
    next
      case (Some q)
      then obtain os m s1 rest where "q = (os, m)" "claim_loop limit now until (Suc n) s = (s1, rest)" "s' = (cid, st\<lparr>st_outbox := os\<rparr>) # s1"
        using Cons.prems False by (cases q) (auto simp: p split: prod.splits)
      then show ?thesis using Cons.IH claim_head_messages Some by (fastforce simp: p same_layout_def)
    qed
  qed
qed (simp add: same_layout_def)

lemma scoped_rows_map_outbox: "scoped_rows 0 st_outbox (map_outbox g s) = map (\<lambda>(k, m). (k, g m)) (scoped_rows 0 st_outbox s)"
proof -
  have "enumerate first (map g xs) = map (\<lambda>(i, x). (i, g x)) (enumerate first xs)" for first xs
    by (induction xs arbitrary: first) auto
  then show ?thesis by (induction s) (auto simp: map_outbox_def scoped_rows_Cons)
qed

section \<open>Overwriting rows\<close>

lemma overwrite_append: "overwrite ws (m @ n) = overwrite ws m @ overwrite ws n"
  by (simp add: overwrite_def)

lemma overwrite_cong: "(\<And>k. k \<in> fst ` set m \<Longrightarrow> map_of ws k = map_of vs k) \<Longrightarrow> overwrite ws m = overwrite vs m"
  unfolding overwrite_def by (intro map_cong refl) (force split: prod.splits)

lemma overwrite_apart: "(\<And>k. k \<in> fst ` set m \<Longrightarrow> k \<notin> fst ` set ws) \<Longrightarrow> overwrite ws m = m"
  using overwrite_cong [of m ws "[]"] by (simp add: map_of_eq_None_iff)

lemma map_filter_keys:
  "fst ` set (List.map_filter (\<lambda>(key, m). map_option (Pair key) (change m)) table) \<subseteq> fst ` set table"
  by (force simp: List.map_filter_def)

lemma map_filter_distinct:
  "distinct (bt_keys table) \<Longrightarrow> distinct (map fst (List.map_filter (\<lambda>(key, m). map_option (Pair key) (change m)) table))"
proof (induction table)
  case (Cons p table)
  then show ?case using map_filter_keys [of change table] by (cases p; cases "change (snd p)") (auto simp: List.map_filter_simps)
qed (simp add: List.map_filter_simps)

lemma overwrite_filter:
  assumes "distinct (bt_keys table)"
  shows "overwrite (List.map_filter (\<lambda>(key, m). map_option (Pair key) (change m)) table) table =
    map (\<lambda>(k, m). (k, case change m of None \<Rightarrow> m | Some m' \<Rightarrow> m')) table"
  using assms
proof (induction table)
  case (Cons p table)
  obtain k m where p: "p = (k, m)" by (cases p)
  let ?ws = "List.map_filter (\<lambda>(key, m). map_option (Pair key) (change m)) table"
  have "map_of ?ws k = None" using map_filter_keys [of change table] Cons.prems p by (auto simp: map_of_eq_None_iff)
  moreover have "overwrite ((k, m') # ?ws) table = overwrite ?ws table" for m'
    using Cons.prems p by (intro overwrite_cong) auto
  ultimately show ?case using Cons by (cases "change m") (auto simp: p List.map_filter_simps overwrite_def)
qed (simp add: overwrite_def List.map_filter_simps)

section \<open>Claiming\<close>

definition block :: "rstr \<Rightarrow> nat \<Rightarrow> 'x list \<Rightarrow> (bytes \<times> 'x) list" where
  "block cid first xs = map (\<lambda>(i, x). (row_key cid i, x)) (enumerate first xs)"

lemma block_simps [simp]: "block cid first [] = []" "block cid first (x # xs) = (row_key cid first, x) # block cid (Suc first) xs"
  by (simp_all add: block_def)

lemma rows_block: "scoped_rows first f ((cid, st) # s) = block cid first (f st) @ scoped_rows first f s"
  by (simp add: block_def scoped_rows_Cons)

lemma ceremony_of_row [simp]: "ceremony_of (row_key cid i) = Some (as_bytes cid)"
  by (simp add: row_key_def)

lemma take_decided: "take_claimable limit now (Some (as_bytes cid)) n (block cid first xs @ rest) = take_claimable limit now (Some (as_bytes cid)) n rest"
  by (induction xs arbitrary: first) auto

lemma take_exhausted: "limit \<le> n \<Longrightarrow> take_claimable limit now decided n entries = []"
  by (induction limit now decided n entries rule: take_claimable.induct) (auto simp: Let_def)

abbreviation claim_of :: "bytes \<times> stored_outbox_message \<Rightarrow> claimed_outbox_message" where
  "claim_of \<equiv> \<lambda>(key, m). \<lparr>claimed_message = so_message m, claimed_attempt = so_attempt m\<rparr>"

abbreviation mark_until :: "timestamp \<Rightarrow> bytes \<times> stored_outbox_message \<Rightarrow> bytes \<times> stored_outbox_message" where
  "mark_until until \<equiv> \<lambda>(key, m). (key, m\<lparr>so_claimed_until := Some until\<rparr>)"

text \<open>The messages of one ceremony, as the scan meets them.\<close>

lemma take_block_none:
  assumes "claim_head now until xs = None" and "decided \<noteq> Some (as_bytes cid)"
  shows "\<exists>decided' \<in> {decided, Some (as_bytes cid)}.
    take_claimable limit now decided n (block cid first xs @ rest) = take_claimable limit now decided' n rest"
  using assms(1)
proof (induction xs arbitrary: first)
  case (Cons m xs)
  show ?case
  proof (cases "so_delivered m")
    case True
    with Cons.prems have "claim_head now until xs = None" by (simp add: claim_head_Cons)
    with Cons.IH True assms(2) show ?thesis by (simp add: Let_def)
  next
    case False
    with Cons.prems have "\<not> StoredOutboxMessage_is_claimable m now" by (auto simp: claim_head_Cons split: if_splits)
    with False assms(2) show ?thesis by (simp add: Let_def take_decided)
  qed
qed simp

lemma take_block_some:
  assumes "claim_head now until xs = Some (xs', msg)" and "decided \<noteq> Some (as_bytes cid)" and "n < limit" and "first + length xs \<le> 2 ^ 64"
  shows "\<exists>k m. take_claimable limit now decided n (block cid first xs @ rest) =
      (k, m) # take_claimable limit now (Some (as_bytes cid)) (Suc n) rest \<and>
    k \<in> fst ` set (block cid first xs) \<and> msg = claim_of (k, m) \<and> block cid first xs' = overwrite [mark_until until (k, m)] (block cid first xs)"
  using assms(1,4)
proof (induction xs arbitrary: first xs')
  case (Cons m xs)
  have fresh: "row_key cid first \<notin> fst ` set (block cid (Suc first) xs)"
    using block_sorted [OF Cons.prems(2), of cid] by (auto simp: block_def)
  show ?case
  proof (cases "so_delivered m")
    case True
    with Cons.prems obtain ys where ys: "claim_head now until xs = Some (ys, msg)" "xs' = m # ys" by (auto simp: claim_head_Cons)
    have "Suc first + length xs \<le> 2 ^ 64" using Cons.prems(2) by simp
    from Cons.IH [OF ys(1) this] obtain k x where
      "take_claimable limit now decided n (block cid (Suc first) xs @ rest) = (k, x) # take_claimable limit now (Some (as_bytes cid)) (Suc n) rest"
      "k \<in> fst ` set (block cid (Suc first) xs)" "msg = claim_of (k, x)"
      "block cid (Suc first) ys = overwrite [mark_until until (k, x)] (block cid (Suc first) xs)" by auto
    then show ?thesis using True assms(2) fresh ys(2) by (auto simp: Let_def overwrite_def)
  next
    case False
    with Cons.prems have claimable: "StoredOutboxMessage_is_claimable m now" and out: "xs' = m\<lparr>so_claimed_until := Some until\<rparr> # xs"
        "msg = \<lparr>claimed_message = so_message m, claimed_attempt = so_attempt m\<rparr>"
      by (auto simp: claim_head_Cons split: if_splits)
    have "overwrite [(row_key cid first, x)] (block cid (Suc first) xs) = block cid (Suc first) xs" for x
      using fresh by (intro overwrite_apart) force
    then show ?thesis using False claimable out assms(2,3)
      by (intro exI [of _ "row_key cid first"] exI [of _ m]) (auto simp: Let_def take_decided overwrite_def)
  qed
qed (simp add: claim_head_def)

lemma claim_rows:
  assumes "rows_fit 0 st_outbox s" and "\<forall>cid \<in> fst ` set s. decided \<noteq> Some (as_bytes cid)"
    and "claim_loop limit now until n s = (s', claimed)" and "taken = take_claimable limit now decided n (scoped_rows 0 st_outbox s)"
  shows "claimed = map claim_of taken \<and> scoped_rows 0 st_outbox s' = overwrite (map (mark_until until) taken) (scoped_rows 0 st_outbox s) \<and>
    fst ` set taken \<subseteq> fst ` set (scoped_rows 0 st_outbox s) \<and> distinct (map fst taken)"
  using assms
proof (induction s arbitrary: decided n s' claimed taken)
  case (Cons p s)
  obtain cid st where p: "p = (cid, st)" by (cases p)
  let ?rows = "scoped_rows 0 st_outbox s" and ?block = "block cid 0 (st_outbox st)"
  have fit: "rows_fit 0 st_outbox s" and keys: "cid \<notin> fst ` set s" "key_text cid" "\<forall>cid \<in> fst ` set s. key_text cid"
      and len: "0 + length (st_outbox st) \<le> 2 ^ 64"
    using Cons.prems(1) by (auto simp: rows_fit_def p)
  have "bt_wf (?block @ ?rows)" using bt_wf_scoped_rows [OF Cons.prems(1)] by (simp add: p rows_block)
  then have disjoint: "fst ` set ?block \<inter> fst ` set ?rows = {}" by (fastforce simp: bt_wf_append)
  have other: "\<forall>cid' \<in> fst ` set s. Some (as_bytes cid) \<noteq> Some (as_bytes cid')" using keys as_bytes_eq_iff by blast
  have apart: "overwrite (map (mark_until until) T) ?block = ?block" if "fst ` set T \<subseteq> fst ` set ?rows" for T
    using that disjoint by (intro overwrite_apart) (force split: prod.splits)
  show ?case
  proof (cases "limit \<le> n")
    case True
    then show ?thesis using Cons.prems(3,4) take_exhausted [OF True] by (auto simp: p)
  next
    case False
    show ?thesis
    proof (cases "claim_head now until (st_outbox st)")
      case None
      obtain s1 where s1: "claim_loop limit now until n s = (s1, claimed)" "s' = (cid, st) # s1"
        using Cons.prems(3) False None by (auto simp: p split: prod.splits)
      obtain decided' where d: "decided' \<in> {decided, Some (as_bytes cid)}" "taken = take_claimable limit now decided' n ?rows"
        using take_block_none [OF None, of decided cid limit n 0 ?rows] Cons.prems(2,4) by (auto simp: p rows_block)
      have "\<forall>cid' \<in> fst ` set s. decided' \<noteq> Some (as_bytes cid')" using d(1) other Cons.prems(2) by (auto simp: p)
      from Cons.IH [OF fit this s1(1) d(2)] apart [of taken] show ?thesis by (auto simp: p s1(2) rows_block overwrite_append)
    next
      case (Some q)
      obtain os msg where q: "q = (os, msg)" by (cases q)
      obtain s1 rest where s1: "claim_loop limit now until (Suc n) s = (s1, rest)" "s' = (cid, st\<lparr>st_outbox := os\<rparr>) # s1" "claimed = msg # rest"
        using Cons.prems(3) False Some by (auto simp: p q split: prod.splits)
      define T where "T = take_claimable limit now (Some (as_bytes cid)) (Suc n) ?rows"
      obtain k m where km: "taken = (k, m) # T" "k \<in> fst ` set ?block" "msg = claim_of (k, m)" "block cid 0 os = overwrite [mark_until until (k, m)] ?block"
        using take_block_some [OF Some [unfolded q] _ _ len, of decided cid n limit ?rows] False Cons.prems(2,4) by (auto simp: p rows_block T_def)
      from Cons.IH [OF fit other s1(1) T_def] have ih: "rest = map claim_of T" "scoped_rows 0 st_outbox s1 = overwrite (map (mark_until until) T) ?rows"
        "fst ` set T \<subseteq> fst ` set ?rows" "distinct (map fst T)" by auto
      have "map_of (map (mark_until until) T) k' = None" if "k' \<in> fst ` set ?block" for k'
        using that ih(3) disjoint by (force simp: map_of_eq_None_iff split: prod.splits)
      then have "overwrite (map (mark_until until) taken) ?block = overwrite [mark_until until (k, m)] ?block"
        by (intro overwrite_cong) (auto simp: km(1))
      moreover have "overwrite (map (mark_until until) taken) ?rows = overwrite (map (mark_until until) T) ?rows"
        using km(2) disjoint by (intro overwrite_cong) (auto simp: km(1))
      ultimately show ?thesis using ih km disjoint by (auto simp: p s1 rows_block overwrite_append)
    qed
  qed
qed (simp add: overwrite_def)

section \<open>The ports\<close>

lemma take_claimable_subset: "set (take_claimable limit now decided n entries) \<subseteq> set entries"
  by (induction limit now decided n entries rule: take_claimable.induct) (auto simp: Let_def)

text \<open>Every message kept in the table is read back as it was written.\<close>

lemma exact_rows: "store_ok s \<Longrightarrow> list_all (\<lambda>(k, m). message_exact (so_message m)) (scoped_rows 0 st_outbox s)"
proof -
  have "list_all (\<lambda>(k, m). message_exact (so_message m)) (scoped_rows 0 st_outbox s)" if "\<forall>(cid, st) \<in> set s. entry_ok st"
    using that
  proof (induction s)
    case (Cons p s)
    have "list_all (\<lambda>(k, m). message_exact (so_message m)) (block cid first os) = list_all (\<lambda>m. message_exact (so_message m)) os" for cid first os
      by (induction os arbitrary: first) auto
    with Cons show ?case by (cases p) (auto simp: rows_block entry_ok_def)
  qed simp
  then show "store_ok s \<Longrightarrow> ?thesis" by (auto simp: store_ok_iff)
qed

lemma store_list_rows: "store_ok s \<Longrightarrow> store_list s = map (\<lambda>(key, x). dc_instance x) (ceremony_rows s)"
proof -
  have "List.map_filter st_instance (bt_values s) = map (\<lambda>(key, x). dc_instance x) (ceremony_rows s)" if "\<forall>(cid, st) \<in> set s. entry_ok st"
    using that by (induction s rule: ceremony_rows.induct)
      (auto simp: List.map_filter_simps ceremony_row_def entry_ok_def split: option.splits)
  then show "store_ok s \<Longrightarrow> ?thesis" by (auto simp: store_list_def store_ok_iff)
qed

lemma quarantined_rows:
  "store_quarantined s = map claim_of (filter (\<lambda>(key, m). so_quarantine m \<noteq> None) (scoped_rows 0 st_outbox s))"
proof -
  have "map snd (block cid first xs) = xs" for cid first and xs :: "stored_outbox_message list"
    by (induction xs arbitrary: first) auto
  then have "concat (map st_outbox (bt_values s)) = map snd (scoped_rows 0 st_outbox s)"
    by (induction s) (auto simp: rows_block)
  then show ?thesis by (simp add: store_quarantined_def filter_map comp_def case_prod_unfold)
qed

context redb_database
begin

lemma append_simulated:
  assumes rep: "represents c (db d) s" and key: "key_text (fact_ceremony_id f)"
    and len: "Suc (length (st_journal (entry_or_default s (fact_ceremony_id f)))) < 2 ^ 64"
  shows "simulated (redb_reliable e c) (\<lambda>d. represents c (db d)) s (store_append sha rfc f s) (redb_append e c sha rfc f d)"
proof -
  let ?cid = "fact_ceremony_id f"
  let ?st = "entry_or_default s ?cid"
  have ok: "store_ok s" using rep by (simp add: represents_def)
  have st: "entry_ok ?st" using ok by (rule entry_ok_entry)
  obtain s' r' where answer: "store_append sha rfc f s = (s', r')" by (cases "store_append sha rfc f s")
  show ?thesis unfolding answer redb_append_def
  proof (rule write_frame)
    fix t assume t: "tx t = db d"
    then have rows: "represents c (tx t) s" using rep by simp
    then have journal: "rows_hold (rc_record_from c) (tx t JOURNAL) (scoped_rows 1 st_journal (with_journal s ?cid (st_journal ?st)))"
      using scoped_rows_unchanged [OF store_okD(3) [OF ok] key refl] by (simp add: represents_def)
    let ?P = "\<lambda>x. case x of Inl err \<Rightarrow> r' = Inl err \<and> represents c (db d) s'
        | Inr (t', r, keep) \<Rightarrow> r' = Inr r \<and> (if keep then \<forall>d'. db d' = tx t' \<longrightarrow> represents c (db d') s' else represents c (db d) s')"
    show "attempts (redb_reliable e c) ?P (and_then (open_tbl e JOURNAL t) (\<lambda>_. and_then (journal_of e c ?cid t) (\<lambda>journal.
        and_then (seal_onto sha rfc (pop_last journal) f) (\<lambda>r. and_then (append_record e c ?cid r t) (\<lambda>t1. Inr (t1, r, True))))))"
    proof (rule attempts_bind [OF open_tbl_attempts], rule attempts_bind [OF journal_of_attempts [OF rows key]])
      fix j assume j: "j = st_journal ?st"
      show "attempts (redb_reliable e c) ?P (and_then (seal_onto sha rfc (pop_last j) f) (\<lambda>r. and_then (append_record e c ?cid r t) (\<lambda>t1. Inr (t1, r, True))))"
      proof (cases "seal_next sha rfc j f")
        case (Inl err)
        have "s' = bt_insert ?cid ?st s" "r' = Inl err" using answer Inl by (auto simp: store_append_def Let_def j)
        then show ?thesis using Inl represents_touch [OF rep key] by (intro attempts_return) (simp add: seal_onto_next)
      next
        case (Inr r)
        have num: "numbered j" "Suc (length j) < 2 ^ 64" using st len by (simp_all add: entry_ok_def j)
        note r = seal_next_sequence [OF Inr num]
        have s': "s' = with_journal s ?cid (j @ [r])" "r' = Inr r" using answer Inr by (auto simp: store_append_def Let_def j)
        have "entry_ok (?st\<lparr>st_journal := j @ [r]\<rparr>)" using st num numbered_snoc [OF num(1) r] by (simp add: entry_ok_def)
        then have ok': "store_ok s'" using store_ok_insert [OF ok key] by (simp add: s')
        show ?thesis unfolding seal_onto_next Inr and_then_Inr
        proof (rule attempts_bind [OF append_record_attempts [OF journal [folded j] ok key num(2) r]])
          fix t1 assume t1: "rows_hold (rc_record_from c) (tx t1 JOURNAL) (scoped_rows 1 st_journal (with_journal s ?cid (j @ [r]))) \<and>
            (\<forall>tbl. tbl \<noteq> JOURNAL \<longrightarrow> tx t1 tbl = tx t tbl)"
          have "ceremony_rows s' = ceremony_rows s"
            unfolding s' by (rule ceremony_rows_unchanged [OF store_okD(1,2) [OF ok] key]) (simp add: ceremony_row_def)
          moreover have "scoped_rows 0 st_outbox s' = scoped_rows 0 st_outbox s"
            unfolding s' by (rule scoped_rows_unchanged [OF store_okD(4) [OF ok] key]) simp_all
          ultimately show "attempts (redb_reliable e c) ?P (Inr (t1, r, True))"
            using t1 rows ok' s' by (intro attempts_return) (simp add: represents_def)
        qed
      qed
    qed
  qed (use rep in auto)
qed

lemma save_simulated:
  assumes rep: "represents c (db d) s" and key: "key_text (inst_id i)" and exact: "instance_exact i"
  shows "simulated (redb_reliable e c) (\<lambda>d. represents c (db d)) s (store_save i s, Inr ()) (redb_save e c i d)"
proof -
  have ok: "store_ok s" using rep by (simp add: represents_def)
  note wf = store_okD [OF ok]
  let ?st = "entry_or_default s (inst_id i)"
  show ?thesis unfolding redb_save_def
  proof (rule write_frame)
    fix t assume t: "tx t = db d"
    then have rows: "represents c (tx t) s" using rep by simp
    let ?P = "\<lambda>x :: ('t \<times> unit \<times> bool) outcome. case x of Inl err \<Rightarrow> (Inr () :: unit outcome) = Inl err \<and> represents c (db d) (store_save i s)
        | Inr (t', r, keep) \<Rightarrow> (Inr () :: unit outcome) = Inr r \<and> (if keep then \<forall>d'. db d' = tx t' \<longrightarrow> represents c (db d') (store_save i s) else represents c (db d) (store_save i s))"
    show "attempts (redb_reliable e c) ?P (and_then (stored_row e c (inst_id i) t) (\<lambda>stored.
        let revision = (case stored of None \<Rightarrow> CeremonyRevision_INITIAL | Some s \<Rightarrow> CeremonyRevision_next (dc_revision s)) in
        and_then (and_then (encode (rc_ceremony c) \<lparr>dc_revision = revision, dc_instance = i\<rparr>) (\<lambda>row.
          insert_row e CEREMONIES (as_bytes (inst_id i)) row t)) (\<lambda>t1. Inr (t1, (), True))))"
      unfolding Let_def
    proof (rule attempts_bind [OF stored_row_attempts [OF rows key]], rule attempts_bind [OF write_row_attempts])
      show "rows_hold (rc_ceremony_from c) (tx t CEREMONIES) (ceremony_rows s)" using rows by (simp add: represents_def)
      show "instance_exact (dc_instance \<lparr>dc_revision = r, dc_instance = i\<rparr>)" for r using exact by simp
      fix stored t1 assume stored: "stored = ceremony_row ?st"
      let ?r = "case stored of None \<Rightarrow> CeremonyRevision_INITIAL | Some s \<Rightarrow> CeremonyRevision_next (dc_revision s)"
      assume t1: "rows_hold (rc_ceremony_from c) (tx t1 CEREMONIES) (bt_insert (as_bytes (inst_id i)) \<lparr>dc_revision = ?r, dc_instance = i\<rparr> (ceremony_rows s)) \<and>
          (\<forall>tbl. tbl \<noteq> CEREMONIES \<longrightarrow> tx t1 tbl = tx t tbl)"
      have r: "?r = (case st_revision ?st of None \<Rightarrow> CeremonyRevision_INITIAL | Some r \<Rightarrow> CeremonyRevision_next r)"
        using entry_row(1) [OF ok, of "inst_id i"] by (auto simp: stored split: option.splits)
      let ?new = "?st\<lparr>st_revision := Some ?r, st_instance := Some i\<rparr>"
      have s': "store_save i s = bt_insert (inst_id i) ?new s" by (simp add: store_save_def Let_def r)
      have "entry_ok ?new" using entry_ok_entry [OF ok, of "inst_id i"] by (simp add: entry_ok_def)
      then have "store_ok (store_save i s)" unfolding s' by (rule store_ok_insert [OF ok key])
      moreover have "ceremony_rows (store_save i s) = bt_insert (as_bytes (inst_id i)) \<lparr>dc_revision = ?r, dc_instance = i\<rparr> (ceremony_rows s)"
        unfolding s' by (rule ceremony_rows_insert [OF wf(1,2) key]) (simp add: ceremony_row_def)
      moreover have "scoped_rows 1 st_journal (store_save i s) = scoped_rows 1 st_journal s" "scoped_rows 0 st_outbox (store_save i s) = scoped_rows 0 st_outbox s"
        unfolding s' using scoped_rows_unchanged [OF wf(3) key] scoped_rows_unchanged [OF wf(4) key] by simp_all
      ultimately show "attempts (redb_reliable e c) ?P (Inr (t1, (), True))"
        using t1 rows by (intro attempts_return) (simp add: represents_def)
    qed
  qed (use rep in auto)
qed

lemma write_messages_attempts:
  assumes "rows_hold (rc_message_from c) (tx t OUTBOX) table" and "bt_wf table" and "distinct (map fst ws)" and "fst ` set ws \<subseteq> fst ` set table"
    and "list_all (\<lambda>(k, m). message_exact (so_message m)) ws"
  shows "succeeds (redb_reliable e c) (\<lambda>t'. rows_hold (rc_message_from c) (tx t' OUTBOX) (overwrite ws table) \<and>
      (\<forall>tbl. tbl \<noteq> OUTBOX \<longrightarrow> tx t' tbl = tx t tbl)) (write_messages e c ws t)"
  using assms
proof (induction ws arbitrary: t table)
  case Nil
  then show ?case by (intro attempts_return) simp
next
  case (Cons p ws)
  obtain k m where p: "p = (k, m)" by (cases p)
  have over: "overwrite (p # ws) table = overwrite ws (bt_insert k m table)"
    unfolding p using Cons.prems by (intro overwrite_Cons) (auto simp: p)
  have m: "message_exact (so_message m)" using Cons.prems(5) by (simp add: p)
  show ?case unfolding p write_messages.simps over [unfolded p]
  proof (rule attempts_bind [OF encode_message [of m]])
    show "rc_message c m = Some row \<Longrightarrow> rc_message_from c row = Some m" for row by (rule message_codec [OF m])
    show "redb_reliable e c \<Longrightarrow> rc_message c m \<noteq> None" by (rule reliableD)
    fix row assume "rc_message_from c row = Some m"
    note insert = insert_row_attempts [OF Cons.prems(1) this, of k]
    show "succeeds (redb_reliable e c) (\<lambda>t'. rows_hold (rc_message_from c) (tx t' OUTBOX) (overwrite ws (bt_insert k m table)) \<and>
        (\<forall>tbl. tbl \<noteq> OUTBOX \<longrightarrow> tx t' tbl = tx t tbl)) (and_then (insert_row e OUTBOX k row t) (write_messages e c ws))"
    proof (rule attempts_bind [OF insert])
      fix t1 assume t1: "rows_hold (rc_message_from c) (tx t1 OUTBOX) (bt_insert k m table) \<and> (\<forall>tbl'. tbl' \<noteq> OUTBOX \<longrightarrow> tx t1 tbl' = tx t tbl')"
      have "succeeds (redb_reliable e c) (\<lambda>t'. rows_hold (rc_message_from c) (tx t' OUTBOX) (overwrite ws (bt_insert k m table)) \<and>
          (\<forall>tbl. tbl \<noteq> OUTBOX \<longrightarrow> tx t' tbl = tx t1 tbl)) (write_messages e c ws t1)"
        using t1 Cons.prems by (intro Cons.IH) (auto simp: p)
      then show "succeeds (redb_reliable e c) (\<lambda>t'. rows_hold (rc_message_from c) (tx t' OUTBOX) (overwrite ws (bt_insert k m table)) \<and>
          (\<forall>tbl. tbl \<noteq> OUTBOX \<longrightarrow> tx t' tbl = tx t tbl)) (write_messages e c ws t1)"
        by (rule attempts_mono) (use t1 in auto)
    qed
  qed
qed

lemma read_outbox_attempts:
  assumes "represents c (tx t) s"
  shows "succeeds (redb_reliable e c) (\<lambda>entries. entries = scoped_rows 0 st_outbox s) (read_outbox e c t)"
  unfolding read_outbox_def using scan_rows_attempts [of "rc_message_from c" t OUTBOX "scoped_rows 0 st_outbox s" None] assms
  by (simp add: represents_def in_range_def case_prod_unfold)

text \<open>A scan of the outbox that writes rows back over their keys.\<close>

lemma outbox_write_attempts:
  assumes rows: "represents c (tx t) s" and same: "same_layout s s'"
    and over: "scoped_rows 0 st_outbox s' = overwrite (ws (scoped_rows 0 st_outbox s)) (scoped_rows 0 st_outbox s)"
    and "distinct (map fst (ws (scoped_rows 0 st_outbox s)))" "fst ` set (ws (scoped_rows 0 st_outbox s)) \<subseteq> fst ` set (scoped_rows 0 st_outbox s)"
    and exact: "list_all (\<lambda>(k, m). message_exact (so_message m)) (ws (scoped_rows 0 st_outbox s))"
    and r: "g (scoped_rows 0 st_outbox s) = r"
  shows "attempts (redb_reliable e c) (\<lambda>x. case x of Inl err \<Rightarrow> Inr r = Inl err \<and> represents c (db d) s'
      | Inr (t', r', keep) \<Rightarrow> Inr r = Inr r' \<and> (if keep then \<forall>d'. db d' = tx t' \<longrightarrow> represents c (db d') s' else represents c (db d) s'))
    (and_then (open_tbl e OUTBOX t) (\<lambda>_. and_then (read_outbox e c t) (\<lambda>entries.
      and_then (write_messages e c (ws entries) t) (\<lambda>t1. Inr (t1, g entries, True)))))"
    (is "attempts _ ?P _")
proof (rule attempts_bind [OF open_tbl_attempts], rule attempts_bind [OF read_outbox_attempts [OF rows]])
  fix entries assume entries: "entries = scoped_rows 0 st_outbox s"
  have table: "rows_hold (rc_message_from c) (tx t OUTBOX) (scoped_rows 0 st_outbox s)" "bt_wf (scoped_rows 0 st_outbox s)"
    using rows bt_wf_scoped_rows [OF store_okD(4)] by (auto simp: represents_def)
  show "attempts (redb_reliable e c) ?P (and_then (write_messages e c (ws entries) t) (\<lambda>t1. Inr (t1, g entries, True)))"
    unfolding entries
  proof (rule attempts_bind [OF write_messages_attempts [OF table assms(4,5) exact]])
    fix t1 assume t1: "rows_hold (rc_message_from c) (tx t1 OUTBOX) (overwrite (ws (scoped_rows 0 st_outbox s)) (scoped_rows 0 st_outbox s)) \<and>
      (\<forall>tbl. tbl \<noteq> OUTBOX \<longrightarrow> tx t1 tbl = tx t tbl)"
    then have "represents c (tx t1) s'" using over by (intro represents_outbox [OF rows same]) simp_all
    then show "attempts (redb_reliable e c) ?P (Inr (t1, g (scoped_rows 0 st_outbox s), True))" using r by (intro attempts_return) simp
  qed
qed

lemma update_simulated:
  assumes rep: "represents c (db d) s" and g: "\<And>m. g m = (case change m of None \<Rightarrow> m | Some m' \<Rightarrow> m')"
    and keeps: "\<And>m m'. change m = Some m' \<Longrightarrow> so_message m' = so_message m"
  shows "simulated (redb_reliable e c) (\<lambda>d. represents c (db d)) s (map_outbox g s, Inr ()) (update_messages e c change d)"
  unfolding update_messages_def
proof (rule write_frame)
  fix t assume "tx t = db d"
  then have rows: "represents c (tx t) s" using rep by simp
  let ?ws = "List.map_filter (\<lambda>(key, m). map_option (Pair key) (change m))"
  have wf: "bt_wf (scoped_rows 0 st_outbox s)" using rows bt_wf_scoped_rows [OF store_okD(4)] by (auto simp: represents_def)
  have same: "so_message (g m) = so_message m" for m using keeps by (simp add: g split: option.splits)
  have exact: "list_all (\<lambda>(k, m). message_exact (so_message m)) (scoped_rows 0 st_outbox s)" using rep exact_rows by (simp add: represents_def)
  show "attempts (redb_reliable e c) (\<lambda>x. case x of Inl err \<Rightarrow> Inr () = Inl err \<and> represents c (db d) (map_outbox g s)
      | Inr (t', r', keep) \<Rightarrow> Inr () = Inr r' \<and>
          (if keep then \<forall>d'. db d' = tx t' \<longrightarrow> represents c (db d') (map_outbox g s) else represents c (db d) (map_outbox g s)))
    (and_then (open_tbl e OUTBOX t) (\<lambda>_. and_then (read_outbox e c t) (\<lambda>entries.
      and_then (write_messages e c (?ws entries) t) (\<lambda>t1. Inr (t1, (), True)))))"
  proof (rule outbox_write_attempts [OF rows map_outbox_layout [OF same], where g = "\<lambda>_. ()"])
    show "scoped_rows 0 st_outbox (map_outbox g s) = overwrite (?ws (scoped_rows 0 st_outbox s)) (scoped_rows 0 st_outbox s)"
      unfolding scoped_rows_map_outbox overwrite_filter [OF bt_wf_distinct [OF wf]] g ..
    show "list_all (\<lambda>(k, m). message_exact (so_message m)) (?ws (scoped_rows 0 st_outbox s))"
      using exact keeps by (auto simp: list_all_iff List.map_filter_def)
  qed (simp_all only: map_filter_keys map_filter_distinct [OF bt_wf_distinct [OF wf]])
qed (use rep in auto)

lemma claim_simulated:
  assumes rep: "represents c (db d) s"
  shows "rel_option (\<lambda>(s', claimed) x. simulated (redb_reliable e c) (\<lambda>d. represents c (db d)) s (s', Inr claimed) x)
    (store_claim checked_add limit now lease s) (redb_claim e c checked_add limit now lease d)"
proof (cases "checked_add now (unat lease)")
  case None
  then show ?thesis by (simp add: store_claim_def redb_claim_def)
next
  case (Some until)
  obtain s' claimed where loop: "claim_loop limit now until 0 s = (s', claimed)" by (cases "claim_loop limit now until 0 s")
  have ok: "store_ok s" using rep by (simp add: represents_def)
  define ws where "ws entries = map (mark_until until) (take_claimable limit now None 0 entries)" for entries
  note claim = claim_rows [OF store_okD(4) [OF ok] _ loop refl, where decided = None]
  have rows': "scoped_rows 0 st_outbox s' = overwrite (ws (scoped_rows 0 st_outbox s)) (scoped_rows 0 st_outbox s)"
    and sub: "distinct (map fst (ws (scoped_rows 0 st_outbox s)))" "fst ` set (ws (scoped_rows 0 st_outbox s)) \<subseteq> fst ` set (scoped_rows 0 st_outbox s)"
    and claimed: "map claim_of (ws (scoped_rows 0 st_outbox s)) = claimed"
    using claim by (auto simp: ws_def comp_def case_prod_unfold image_image)
  have exact: "list_all (\<lambda>(k, m). message_exact (so_message m)) (ws (scoped_rows 0 st_outbox s))"
    using exact_rows [OF ok] take_claimable_subset [of limit now None 0 "scoped_rows 0 st_outbox s"] by (fastforce simp: ws_def list_all_iff)
  have "simulated (redb_reliable e c) (\<lambda>d. represents c (db d)) s (s', Inr claimed) (blocking e (with_write e (\<lambda>t.
      and_then (open_tbl e OUTBOX t) (\<lambda>_. and_then (read_outbox e c t) (\<lambda>entries.
      and_then (write_messages e c (ws entries) t) (\<lambda>t1. Inr (t1, map claim_of (ws entries), True)))))) d)"
  proof (rule write_frame)
    fix t assume "tx t = db d"
    then have rows: "represents c (tx t) s" using rep by simp
    show "attempts (redb_reliable e c) (\<lambda>x. case x of Inl err \<Rightarrow> Inr claimed = Inl err \<and> represents c (db d) s'
        | Inr (t', r', keep) \<Rightarrow> Inr claimed = Inr r' \<and> (if keep then \<forall>d'. db d' = tx t' \<longrightarrow> represents c (db d') s' else represents c (db d) s'))
      (and_then (open_tbl e OUTBOX t) (\<lambda>_. and_then (read_outbox e c t) (\<lambda>entries.
        and_then (write_messages e c (ws entries) t) (\<lambda>t1. Inr (t1, map claim_of (ws entries), True)))))"
      by (rule outbox_write_attempts [where ws = ws and g = "\<lambda>entries. map claim_of (ws entries)" and s = s and s' = s' and r = claimed,
            OF rows claim_loop_layout [OF loop] rows' sub exact claimed])
  qed (use rep in auto)
  then show ?thesis using Some loop by (simp add: store_claim_def redb_claim_def ws_def Let_def)
qed

lemma read_simulated:
  assumes rep: "represents c (db d) s" and "\<And>t. represents c (tx t) s \<Longrightarrow> succeeds (redb_reliable e c) (\<lambda>v. v = r) (work t)"
  shows "simulated (redb_reliable e c) (\<lambda>d. represents c (db d)) s (s, Inr r) (blocking e (with_read e work) d)"
proof (rule read_frame)
  fix t assume "tx t = db d"
  then have "represents c (tx t) s" using rep by simp
  from assms(2) [OF this] show "attempts (redb_reliable e c) (\<lambda>x. x = Inr r) (work t)" by simp
qed (use rep in auto)

lemma reads_simulated:
  assumes rep: "represents c (db d) s" and key: "key_text cid"
  shows "simulated (redb_reliable e c) (\<lambda>d. represents c (db d)) s (s, Inr (store_revision s cid)) (redb_revision e c cid d)"
    and "simulated (redb_reliable e c) (\<lambda>d. represents c (db d)) s (s, Inr (store_records s cid)) (redb_records e c cid d)"
    and "simulated (redb_reliable e c) (\<lambda>d. represents c (db d)) s (s, Inr (store_instance s cid)) (stored_instance e c cid d)"
proof -
  have ok: "store_ok s" using rep by (simp add: represents_def)
  show "simulated (redb_reliable e c) (\<lambda>d. represents c (db d)) s (s, Inr (store_revision s cid)) (redb_revision e c cid d)"
    unfolding redb_revision_def
    by (rule read_simulated [OF rep], rule succeeds_map [OF stored_row_attempts [OF _ key]]) (auto simp: entry_reads entry_row [OF ok])
  show "simulated (redb_reliable e c) (\<lambda>d. represents c (db d)) s (s, Inr (store_instance s cid)) (stored_instance e c cid d)"
    unfolding stored_instance_def
    by (rule read_simulated [OF rep], rule succeeds_map [OF stored_row_attempts [OF _ key]]) (auto simp: entry_reads entry_row [OF ok])
  show "simulated (redb_reliable e c) (\<lambda>d. represents c (db d)) s (s, Inr (store_records s cid)) (redb_records e c cid d)"
    unfolding redb_records_def entry_reads
    by (rule read_simulated [OF rep], rule attempts_bind [OF open_tbl_attempts], rule journal_of_attempts [OF _ key])
qed

lemma list_simulated:
  assumes rep: "represents c (db d) s"
  shows "simulated (redb_reliable e c) (\<lambda>d. represents c (db d)) s (s, Inr (store_list s)) (redb_list e c d)"
  unfolding redb_list_def
proof (rule read_simulated [OF rep], rule attempts_bind [OF open_tbl_attempts], rule succeeds_map)
  fix t assume "represents c (tx t) s"
  then show "succeeds (redb_reliable e c) (\<lambda>entries. entries = filter (\<lambda>(k, x). in_range None k) (ceremony_rows s))
      (scan_rows e CEREMONIES None (rc_ceremony_from c) t)"
    by (intro scan_rows_attempts) (simp add: represents_def)
  show "entries = filter (\<lambda>(k, x). in_range None k) (ceremony_rows s) \<Longrightarrow> map (\<lambda>(key, x). dc_instance x) entries = store_list s" for entries
    using rep store_list_rows by (simp add: in_range_def case_prod_unfold represents_def)
qed

lemma quarantined_simulated:
  assumes rep: "represents c (db d) s"
  shows "simulated (redb_reliable e c) (\<lambda>d. represents c (db d)) s (s, Inr (store_quarantined s)) (redb_quarantined e c d)"
  unfolding redb_quarantined_def
  by (rule read_simulated [OF rep], rule attempts_bind [OF open_tbl_attempts], rule succeeds_map [OF read_outbox_attempts])
    (auto simp: quarantined_rows)

end

end
