(* ===== verification/Redb_Publications.thy ===== *)
theory Redb_Publications
  imports Redb_Ports
begin

text \<open>
  The published definitions of the embedded store against the catalogue in memory.  A publication is
  filed under the length of its name, the name and the version; that is one key per name and version
  as long as the length fits into sixteen bits, which the limits of names ensure.  The catalogue
  lists the same definitions, in the order of these keys.
\<close>

section \<open>Keys\<close>

definition publication_text :: "rstr \<times> rstr \<Rightarrow> bool" where
  "publication_text nv = (list_all scalar (fst nv) \<and> list_all scalar (snd nv) \<and> length (as_bytes (fst nv)) < 2 ^ 16)"

lemma published_key_inj:
  assumes "publication_text (n, v)" and "publication_text (m, w)"
  shows "published_key n v = published_key m w \<longleftrightarrow> n = m \<and> v = w"
proof
  assume eq: "published_key n v = published_key m w"
  have len: "length (as_bytes n) mod 2 ^ 16 = length (as_bytes n)" "length (as_bytes m) mod 2 ^ 16 = length (as_bytes m)"
    using assms by (simp_all add: publication_text_def)
  have "be_bytes 2 (length (as_bytes n)) = be_bytes 2 (length (as_bytes m))" and rest: "as_bytes n @ as_bytes v = as_bytes m @ as_bytes w"
    using eq unfolding published_key_def len by (auto simp: append_eq_append_conv)
  then have "length (as_bytes n) = length (as_bytes m)" using assms by (intro be_bytes_inj [of 2]) (simp_all add: publication_text_def)
  then have "as_bytes n = as_bytes m" "as_bytes v = as_bytes w" using rest by (simp_all add: append_eq_append_conv)
  then show "n = m \<and> v = w" using assms as_bytes_inj by (simp add: publication_text_def)
qed simp

lemma ceremony_name_publication_text:
  assumes "CeremonyName_new raw = Inr n" and "list_all scalar raw" and "list_all scalar v"
  shows "publication_text (n, v)"
proof -
  have n: "n = trim raw" "str_len n \<le> 128" using assms(1) by (auto simp: CeremonyName_new_def checked_text_eq_Inr canonical_text_def)
  have "length (as_bytes s) = str_len s" for s by (induction s) (simp_all add: as_bytes_def str_len_def length_utf8_char)
  then show ?thesis using n assms(2,3) set_trim [of raw] by (auto simp: publication_text_def list_all_iff)
qed

section \<open>Representation\<close>

text \<open>
  The table against the catalogue.  Every publication of the catalogue is the seal of its definition,
  so restoring a row yields the publication.
\<close>

definition catalogue_ok ::
    "(bytes \<Rightarrow> digest) \<Rightarrow> (ceremony_definition \<Rightarrow> bytes option) \<Rightarrow> publications \<Rightarrow> bool" where
  "catalogue_ok sha256 to_vec pubs =
     (bt_wf pubs \<and> (\<forall>(nv, p) \<in> set pubs. publication_key p = nv \<and> publication_text nv \<and>
        PublishedCeremonyDefinition_seal sha256 to_vec (pub_definition p) = Inr p))"

definition represents_catalogue ::
    "'b row_codec \<Rightarrow> (bytes \<Rightarrow> digest) \<Rightarrow> (ceremony_definition \<Rightarrow> bytes option) \<Rightarrow> (redb_table \<Rightarrow> (bytes, 'b) btree_map) \<Rightarrow> publications \<Rightarrow> bool" where
  "represents_catalogue c sha256 to_vec rows pubs =
     (catalogue_ok sha256 to_vec pubs \<and>
      (\<exists>table. bt_wf table \<and> rows_hold (rc_publication_from c) (rows PUBLICATIONS) table \<and>
        set table = (\<lambda>((n, v), p). (published_key n v, StoredPublication_seal p)) ` set pubs))"

lemma get_catalogue:
  assumes ok: "catalogue_ok sha vec pubs" and wf: "bt_wf table" and nv: "publication_text (n, v)"
    and rows: "set table = (\<lambda>((n, v), p). (published_key n v, StoredPublication_seal p)) ` set pubs"
  shows "bt_get table (published_key n v) = map_option StoredPublication_seal (bt_get pubs (n, v))"
proof -
  have "bt_get table (published_key n v) = Some x \<longleftrightarrow> map_option StoredPublication_seal (bt_get pubs (n, v)) = Some x" for x
  proof -
    have "bt_get table (published_key n v) = Some x \<longleftrightarrow>
        (\<exists>m w p. ((m, w), p) \<in> set pubs \<and> published_key n v = published_key m w \<and> x = StoredPublication_seal p)"
      unfolding bt_get_iff [OF wf] rows by (auto simp: image_iff split: prod.splits) blast+
    also have "\<dots> \<longleftrightarrow> (\<exists>p. ((n, v), p) \<in> set pubs \<and> x = StoredPublication_seal p)"
      using ok published_key_inj [OF nv] by (fastforce simp: catalogue_ok_def)
    also have "\<dots> \<longleftrightarrow> map_option StoredPublication_seal (bt_get pubs (n, v)) = Some x"
      using ok by (auto simp: catalogue_ok_def bt_get_iff [symmetric] simp del: map_of_eq_Some_iff)
    finally show ?thesis .
  qed
  then show ?thesis by (metis not_Some_eq)
qed

lemma restore_seal:
  "PublishedCeremonyDefinition_seal sha vec (pub_definition p) = Inr p \<Longrightarrow> StoredPublication_restore sha vec (StoredPublication_seal p) = Inr p"
  by (simp add: StoredPublication_restore_def StoredPublication_seal_def)

section \<open>The port\<close>

locale redb_catalogue_database = redb_database +
  assumes publication_codec: "\<lbrakk>definition_exact (dp_definition p); rc_publication c p = Some row\<rbrakk> \<Longrightarrow> rc_publication_from c row = Some p"
begin

lemma publication_row_attempts:
  assumes "represents_catalogue c sha vec (tx t) pubs" and "publication_text (n, v)"
  shows "succeeds (redb_reliable e c) (\<lambda>found. found = map_option StoredPublication_seal (bt_get pubs (n, v)))
    (read_row e PUBLICATIONS (rc_publication_from c) (published_key n v) t)"
proof -
  obtain table where ok: "catalogue_ok sha vec pubs" "bt_wf table" "rows_hold (rc_publication_from c) (tx t PUBLICATIONS) table"
      "set table = (\<lambda>((n, v), p). (published_key n v, StoredPublication_seal p)) ` set pubs"
    using assms(1) by (auto simp: represents_catalogue_def)
  from read_row_attempts [OF ok(3), of "published_key n v"] show ?thesis by (simp add: get_catalogue [OF ok(1,2) assms(2) ok(4)])
qed

text \<open>A new publication is a new row.\<close>

lemma publication_insert_attempts:
  assumes rows: "represents_catalogue c sha vec (tx t) pubs" and new: "bt_get pubs (publication_key p) = None"
    and key: "publication_text (publication_key p)" and p: "PublishedCeremonyDefinition_seal sha vec (pub_definition p) = Inr p"
    and row: "rc_publication_from c row = Some (StoredPublication_seal p)"
  shows "succeeds (redb_reliable e c) (\<lambda>t'. represents_catalogue c sha vec (tx t') (bt_insert (publication_key p) p pubs))
    (insert_row e PUBLICATIONS (published_key (def_name (pub_definition p)) (def_version (pub_definition p))) row t)"
proof -
  let ?k = "published_key (def_name (pub_definition p)) (def_version (pub_definition p))"
  obtain table where ok: "catalogue_ok sha vec pubs" "bt_wf table" "rows_hold (rc_publication_from c) (tx t PUBLICATIONS) table"
      "set table = (\<lambda>((n, v), p). (published_key n v, StoredPublication_seal p)) ` set pubs"
    using rows by (auto simp: represents_catalogue_def)
  have wf: "bt_wf pubs" using ok(1) by (simp add: catalogue_ok_def)
  have nv: "publication_text (def_name (pub_definition p), def_version (pub_definition p))" using key by (simp add: publication_key_def)
  have "bt_get table ?k = None" using get_catalogue [OF ok(1,2) nv ok(4)] new by (simp add: publication_key_def)
  then have fresh: "q \<in> set table \<Longrightarrow> fst q \<noteq> ?k" for q using bt_get_iff [OF ok(2)] by (metis option.distinct(1) prod.collapse)
  have fresh': "q \<in> set pubs \<Longrightarrow> fst q \<noteq> publication_key p" for q using new bt_get_iff [OF wf] by (metis option.distinct(1) prod.collapse)
  have "catalogue_ok sha vec (bt_insert (publication_key p) p pubs)"
    using ok(1) key p by (auto simp: catalogue_ok_def set_bt_insert [OF wf])
  moreover have "set (bt_insert ?k (StoredPublication_seal p) table) =
      (\<lambda>((n, v), p). (published_key n v, StoredPublication_seal p)) ` set (bt_insert (publication_key p) p pubs)"
  proof -
    have "{q \<in> set table. fst q \<noteq> ?k} = set table" "{q \<in> set pubs. fst q \<noteq> publication_key p} = set pubs" using fresh fresh' by auto
    then show ?thesis unfolding set_bt_insert [OF ok(2)] set_bt_insert [OF wf] by (simp add: ok(4) publication_key_def)
  qed
  ultimately show ?thesis
    using bt_wf_insert [OF ok(2)] unfolding represents_catalogue_def
    by (intro attempts_mono [OF insert_row_attempts [OF ok(3) row, of ?k]]) blast
qed

lemma publish_simulated:
  assumes rep: "represents_catalogue c sha vec (db d) pubs" and key: "publication_text (publication_key p)"
    and p: "PublishedCeremonyDefinition_seal sha vec (pub_definition p) = Inr p" and exact: "definition_exact (pub_definition p)"
  shows "simulated (redb_reliable e c) (\<lambda>d. represents_catalogue c sha vec (db d)) pubs (publications_publish p pubs)
    (redb_publish e c sha vec p d)"
proof -
  obtain pubs' r' where answer: "publications_publish p pubs = (pubs', r')" by (cases "publications_publish p pubs")
  have nv: "publication_text (def_name (pub_definition p), def_version (pub_definition p))" using key by (simp add: publication_key_def)
  have sealed: "PublishedCeremonyDefinition_seal sha vec (pub_definition q) = Inr q" if "bt_get pubs nv = Some q" for nv q
    using rep that by (auto simp: represents_catalogue_def catalogue_ok_def bt_get_iff)
  show ?thesis unfolding answer redb_publish_def Let_def
  proof (rule write_frame)
    fix t assume "tx t = db d"
    then have rows: "represents_catalogue c sha vec (tx t) pubs" using rep by simp
    let ?P = "\<lambda>x. case x of Inl err \<Rightarrow> r' = Inl err \<and> represents_catalogue c sha vec (db d) pubs'
        | Inr (t', r, keep) \<Rightarrow> r' = Inr r \<and> (if keep then \<forall>d'. db d' = tx t' \<longrightarrow> represents_catalogue c sha vec (db d') pubs'
            else represents_catalogue c sha vec (db d) pubs')"
    let ?k = "published_key (def_name (pub_definition p)) (def_version (pub_definition p))"
    show "attempts (redb_reliable e c) ?P (and_then (open_tbl e PUBLICATIONS t) (\<lambda>_.
       and_then (read_row e PUBLICATIONS (rc_publication_from c) ?k t) (\<lambda>occupant. case occupant of
         None \<Rightarrow> and_then (encode (rc_publication c) (StoredPublication_seal p)) (\<lambda>row.
           and_then (insert_row e PUBLICATIONS ?k row t) (\<lambda>t1. Inr (t1, Published p, True)))
       | Some o1 \<Rightarrow> if dp_digest o1 = pub_digest p
           then map_ok (\<lambda>restored. (t, AlreadyPublished restored, True)) (StoredPublication_restore sha vec o1)
           else Inr (t, VersionOccupied (dp_digest o1) (pub_digest p), False))))"
    proof (rule attempts_bind [OF open_tbl_attempts], rule attempts_bind [OF publication_row_attempts [OF rows nv]])
      fix occupant assume occ: "occupant = map_option StoredPublication_seal (bt_get pubs (def_name (pub_definition p), def_version (pub_definition p)))"
      show "attempts (redb_reliable e c) ?P (case occupant of
           None \<Rightarrow> and_then (encode (rc_publication c) (StoredPublication_seal p)) (\<lambda>row.
             and_then (insert_row e PUBLICATIONS ?k row t) (\<lambda>t1. Inr (t1, Published p, True)))
         | Some o1 \<Rightarrow> if dp_digest o1 = pub_digest p
             then map_ok (\<lambda>restored. (t, AlreadyPublished restored, True)) (StoredPublication_restore sha vec o1)
             else Inr (t, VersionOccupied (dp_digest o1) (pub_digest p), False))"
      proof (cases "bt_get pubs (publication_key p)")
        case (Some q)
        then have q: "occupant = Some (StoredPublication_seal q)" "dp_digest (StoredPublication_seal q) = pub_digest q"
          by (simp_all add: occ publication_key_def StoredPublication_seal_def)
        have "pubs' = pubs" "r' = Inr (if pub_digest q = pub_digest p then AlreadyPublished q else VersionOccupied (pub_digest q) (pub_digest p))"
          using answer Some by (auto simp: publications_publish_def split: if_splits)
        then show ?thesis unfolding q(1) option.case q(2) using rep rows restore_seal [OF sealed [OF Some]]
          by (intro attempts_return) (simp add: \<open>tx t = db d\<close>)
      next
        case None
        then have "occupant = None" by (simp add: occ publication_key_def)
        have out: "pubs' = bt_insert (publication_key p) p pubs" "r' = Inr (Published p)"
          using answer None by (auto simp: publications_publish_def)
        show ?thesis unfolding \<open>occupant = None\<close> option.case
        proof (rule attempts_bind [OF encode_attempts [where from_slice = "rc_publication_from c"]])
          show "rc_publication c (StoredPublication_seal p) = Some row \<Longrightarrow> rc_publication_from c row = Some (StoredPublication_seal p)" for row
            by (rule publication_codec) (simp_all add: exact StoredPublication_seal_def)
          show "redb_reliable e c \<Longrightarrow> rc_publication c (StoredPublication_seal p) \<noteq> None" by (rule reliable_publication)
          fix row assume row: "rc_publication_from c row = Some (StoredPublication_seal p)"
          show "attempts (redb_reliable e c) ?P (and_then (insert_row e PUBLICATIONS ?k row t) (\<lambda>t1. Inr (t1, Published p, True)))"
            by (rule attempts_bind [OF publication_insert_attempts [OF rows None key p row]]) (intro attempts_return, simp add: out)
        qed
      qed
    qed
  qed (use rep in auto)
qed

lemma published_simulated:
  assumes rep: "represents_catalogue c sha vec (db d) pubs" and nv: "publication_text (n, v)"
  shows "simulated (redb_reliable e c) (\<lambda>d. represents_catalogue c sha vec (db d)) pubs (pubs, publications_published pubs n v)
    (redb_published e c sha vec n v d)"
  unfolding redb_published_def
proof (rule read_frame)
  fix t assume "tx t = db d"
  then have rows: "represents_catalogue c sha vec (tx t) pubs" using rep by simp
  have sealed: "PublishedCeremonyDefinition_seal sha vec (pub_definition q) = Inr q" if "bt_get pubs nv = Some q" for nv q
    using rep that by (auto simp: represents_catalogue_def catalogue_ok_def bt_get_iff)
  show "attempts (redb_reliable e c) (\<lambda>x. x = publications_published pubs n v) (and_then (open_tbl e PUBLICATIONS t) (\<lambda>_.
      and_then (read_row e PUBLICATIONS (rc_publication_from c) (published_key n v) t) (\<lambda>stored.
      case stored of None \<Rightarrow> Inr None | Some p \<Rightarrow> map_ok Some (StoredPublication_restore sha vec p))))"
    by (rule attempts_bind [OF open_tbl_attempts], rule attempts_bind [OF publication_row_attempts [OF rows nv]], rule attempts_return)
      (auto simp: publications_published_def restore_seal sealed split: option.splits)
qed (use rep in auto)

lemma catalogue_simulated:
  assumes rep: "represents_catalogue c sha vec (db d) pubs"
  shows "\<exists>listed. set listed = set (publications_catalogue pubs) \<and>
    simulated (redb_reliable e c) (\<lambda>d. represents_catalogue c sha vec (db d)) pubs (pubs, Inr listed) (redb_catalogue e c sha vec d)"
proof -
  obtain table where ok: "catalogue_ok sha vec pubs" "rows_hold (rc_publication_from c) (db d PUBLICATIONS) table"
      "set table = (\<lambda>((n, v), p). (published_key n v, StoredPublication_seal p)) ` set pubs"
    using rep by (auto simp: represents_catalogue_def)
  let ?restored = "\<lambda>(k, row). \<lparr>pub_definition = dp_definition row, pub_digest = dp_digest row\<rparr>"
  have restored: "StoredPublication_restore sha vec row = Inr (?restored (k, row))" if "(k, row) \<in> set table" for k row
    using that ok(1) restore_seal unfolding ok(3) catalogue_ok_def by (fastforce simp: StoredPublication_seal_def)
  have "set (map ?restored table) = set (publications_catalogue pubs)"
    unfolding set_map ok(3) publications_catalogue_def by (force simp: StoredPublication_seal_def image_image)
  moreover have "simulated (redb_reliable e c) (\<lambda>d. represents_catalogue c sha vec (db d)) pubs (pubs, Inr (map ?restored table)) (redb_catalogue e c sha vec d)"
    unfolding redb_catalogue_def
  proof (rule read_frame)
    fix t assume "tx t = db d"
    then have "rows_hold (rc_publication_from c) (tx t PUBLICATIONS) table" using ok(2) by simp
    from scan_attempts [OF this, of ?restored "\<lambda>(key, row). and_then (decode (rc_publication_from c) row) (StoredPublication_restore sha vec)" None] restored
    have "succeeds (redb_reliable e c) (\<lambda>vs. vs = map ?restored table) (and_then (ok_or (rd_range e PUBLICATIONS None t) store_failure)
        (try_map (\<lambda>entry. and_then (ok_or entry store_failure) (\<lambda>(key, row). and_then (decode (rc_publication_from c) row) (StoredPublication_restore sha vec)))))"
      by (simp add: in_range_def attempts_def decode_def case_prod_unfold)
    then show "attempts (redb_reliable e c) (\<lambda>x. x = Inr (map ?restored table)) (and_then (open_tbl e PUBLICATIONS t) (\<lambda>_.
        and_then (ok_or (rd_range e PUBLICATIONS None t) store_failure) (try_map (\<lambda>entry.
        and_then (ok_or entry store_failure) (\<lambda>(key, row). and_then (decode (rc_publication_from c) row) (StoredPublication_restore sha vec))))))"
      by (intro attempts_bind [OF open_tbl_attempts]) simp
  qed (use rep in auto)
  ultimately show ?thesis by blast
qed

end

end
