(* ===== verification/Redb_Runs.thy ===== *)
theory Redb_Runs
  imports Redb_Publications
begin

text \<open>
  Sequences of port calls on the embedded store and on the store in memory, and the embedded store
  over an engine that keeps its tables as ordered lists and never fails.
\<close>

section \<open>Calls\<close>

datatype store_call =
    Commit_Call ceremony_commit
  | Revision_Call rstr
  | Append_Call audit_fact
  | Head_Call rstr
  | Records_Call rstr
  | Claim_Call nat timestamp duration_ms
  | Delivered_Call "rstr list"
  | Failed_Call rstr
  | Quarantine_Call rstr rstr
  | Quarantined_Call
  | Save_Call ceremony_instance
  | Get_Call rstr
  | List_Call
  | Exists_Call rstr

datatype store_reply =
    R_Commit commit_outcome
  | R_Revision "ceremony_revision option"
  | R_Record audit_record
  | R_Head "audit_record option"
  | R_Records "audit_record list"
  | R_Claimed "claimed_outbox_message list"
  | R_Done
  | R_Instance ceremony_instance
  | R_Instances "ceremony_instance list"
  | R_Exists bool

definition reply_as :: "('r \<Rightarrow> 'q) \<Rightarrow> 's \<times> 'r outcome \<Rightarrow> 's \<times> 'q outcome" where
  "reply_as h x = (case x of (s, r) \<Rightarrow> (s, map_ok h r))"

fun redb_call ::
    "('d, 't, 'b) redb_engine \<Rightarrow> 'b row_codec \<Rightarrow> (bytes \<Rightarrow> digest) \<Rightarrow> (timestamp \<Rightarrow> rstr option) \<Rightarrow> (timestamp \<Rightarrow> nat \<Rightarrow> timestamp option)
      \<Rightarrow> store_call \<Rightarrow> 'd \<Rightarrow> ('d \<times> store_reply outcome) option" where
  "redb_call e c sha256 rfc3339 checked_add (Commit_Call m) d = Some (reply_as R_Commit (redb_commit e c sha256 rfc3339 m d))"
| "redb_call e c sha256 rfc3339 checked_add (Revision_Call cid) d = Some (reply_as R_Revision (redb_revision e c cid d))"
| "redb_call e c sha256 rfc3339 checked_add (Append_Call f) d = Some (reply_as R_Record (redb_append e c sha256 rfc3339 f d))"
| "redb_call e c sha256 rfc3339 checked_add (Head_Call cid) d = Some (reply_as R_Head (redb_head e c cid d))"
| "redb_call e c sha256 rfc3339 checked_add (Records_Call cid) d = Some (reply_as R_Records (redb_records e c cid d))"
| "redb_call e c sha256 rfc3339 checked_add (Claim_Call limit now lease) d =
     map_option (reply_as R_Claimed) (redb_claim e c checked_add limit now lease d)"
| "redb_call e c sha256 rfc3339 checked_add (Delivered_Call ids) d = Some (reply_as (\<lambda>_. R_Done) (redb_mark_delivered e c ids d))"
| "redb_call e c sha256 rfc3339 checked_add (Failed_Call i) d = Some (reply_as (\<lambda>_. R_Done) (redb_mark_failed e c i d))"
| "redb_call e c sha256 rfc3339 checked_add (Quarantine_Call i reason) d = Some (reply_as (\<lambda>_. R_Done) (redb_quarantine e c i reason d))"
| "redb_call e c sha256 rfc3339 checked_add Quarantined_Call d = Some (reply_as R_Claimed (redb_quarantined e c d))"
| "redb_call e c sha256 rfc3339 checked_add (Save_Call i) d = Some (reply_as (\<lambda>_. R_Done) (redb_save e c i d))"
| "redb_call e c sha256 rfc3339 checked_add (Get_Call cid) d = Some (reply_as R_Instance (redb_get e c cid d))"
| "redb_call e c sha256 rfc3339 checked_add List_Call d = Some (reply_as R_Instances (redb_list e c d))"
| "redb_call e c sha256 rfc3339 checked_add (Exists_Call cid) d = Some (reply_as R_Exists (redb_exists e c cid d))"

fun memory_call ::
    "(bytes \<Rightarrow> digest) \<Rightarrow> (timestamp \<Rightarrow> rstr option) \<Rightarrow> (timestamp \<Rightarrow> nat \<Rightarrow> timestamp option)
      \<Rightarrow> store_call \<Rightarrow> ceremony_store \<Rightarrow> (ceremony_store \<times> store_reply outcome) option" where
  "memory_call sha256 rfc3339 checked_add (Commit_Call m) s = Some (reply_as R_Commit (store_commit sha256 rfc3339 m s))"
| "memory_call sha256 rfc3339 checked_add (Revision_Call cid) s = Some (s, Inr (R_Revision (store_revision s cid)))"
| "memory_call sha256 rfc3339 checked_add (Append_Call f) s = Some (reply_as R_Record (store_append sha256 rfc3339 f s))"
| "memory_call sha256 rfc3339 checked_add (Head_Call cid) s = Some (s, Inr (R_Head (store_head s cid)))"
| "memory_call sha256 rfc3339 checked_add (Records_Call cid) s = Some (s, Inr (R_Records (store_records s cid)))"
| "memory_call sha256 rfc3339 checked_add (Claim_Call limit now lease) s =
     map_option (\<lambda>(s', claimed). (s', Inr (R_Claimed claimed))) (store_claim checked_add limit now lease s)"
| "memory_call sha256 rfc3339 checked_add (Delivered_Call ids) s = Some (store_mark_delivered ids s, Inr R_Done)"
| "memory_call sha256 rfc3339 checked_add (Failed_Call i) s = Some (store_mark_failed i s, Inr R_Done)"
| "memory_call sha256 rfc3339 checked_add (Quarantine_Call i reason) s = Some (store_quarantine i reason s, Inr R_Done)"
| "memory_call sha256 rfc3339 checked_add Quarantined_Call s = Some (s, Inr (R_Claimed (store_quarantined s)))"
| "memory_call sha256 rfc3339 checked_add (Save_Call i) s = Some (store_save i s, Inr R_Done)"
| "memory_call sha256 rfc3339 checked_add (Get_Call cid) s = Some (s, map_ok R_Instance (store_get s cid))"
| "memory_call sha256 rfc3339 checked_add List_Call s = Some (s, Inr (R_Instances (store_list s)))"
| "memory_call sha256 rfc3339 checked_add (Exists_Call cid) s = Some (s, Inr (R_Exists (store_exists s cid)))"

text \<open>
  The ids in a call are texts without the separator, as every \<open>CeremonyId\<close> is, and the values it
  writes are ones that the encoding keeps; a call adds at most so many rows.
\<close>

fun call_ok :: "store_call \<Rightarrow> bool" where
  "call_ok (Commit_Call m) =
     (key_text (inst_id (commit_instance m)) \<and> instance_exact (commit_instance m) \<and> list_all message_exact (commit_messages m))"
| "call_ok (Revision_Call cid) = key_text cid"
| "call_ok (Append_Call f) = key_text (fact_ceremony_id f)"
| "call_ok (Head_Call cid) = key_text cid"
| "call_ok (Records_Call cid) = key_text cid"
| "call_ok (Save_Call i) = (key_text (inst_id i) \<and> instance_exact i)"
| "call_ok (Get_Call cid) = key_text cid"
| "call_ok (Exists_Call cid) = key_text cid"
| "call_ok _ = True"

fun call_size :: "store_call \<Rightarrow> nat" where
  "call_size (Commit_Call m) = length (commit_facts m) + length (commit_messages m)"
| "call_size (Append_Call f) = 1"
| "call_size _ = 0"

text \<open>A sequence of calls; it stops at a panic.\<close>

fun run_calls :: "('c \<Rightarrow> 's \<Rightarrow> ('s \<times> 'r) option) \<Rightarrow> 'c list \<Rightarrow> 's \<Rightarrow> ('s \<times> 'r list) option" where
  "run_calls f [] s = Some (s, [])"
| "run_calls f (c # cs) s =
     (case f c s of None \<Rightarrow> None | Some (s1, r) \<Rightarrow> map_option (\<lambda>(s2, rs). (s2, r # rs)) (run_calls f cs s1))"

text \<open>
  Replies that the store in memory explains: each call is answered as that store answers it, or it
  reports a failure of the engine and has taken effect as a whole or not at all.
\<close>

inductive explained ::
    "(bytes \<Rightarrow> digest) \<Rightarrow> (timestamp \<Rightarrow> rstr option) \<Rightarrow> (timestamp \<Rightarrow> nat \<Rightarrow> timestamp option)
      \<Rightarrow> store_call list \<Rightarrow> store_reply outcome list \<Rightarrow> ceremony_store \<Rightarrow> ceremony_store \<Rightarrow> bool"
  for sha256 rfc3339 checked_add where
  explained_Nil: "explained sha256 rfc3339 checked_add [] [] s s"
| explained_Answered: "\<lbrakk>memory_call sha256 rfc3339 checked_add call s = Some (s1, r);
    explained sha256 rfc3339 checked_add calls rs s1 s'\<rbrakk> \<Longrightarrow> explained sha256 rfc3339 checked_add (call # calls) (r # rs) s s'"
| explained_Failed: "\<lbrakk>memory_call sha256 rfc3339 checked_add call s = Some (s1, r); err \<in> redb_failures; s2 \<in> {s, s1};
    explained sha256 rfc3339 checked_add calls rs s2 s'\<rbrakk> \<Longrightarrow> explained sha256 rfc3339 checked_add (call # calls) (Inl err # rs) s s'"

section \<open>Sizes\<close>

definition bounded :: "nat \<Rightarrow> ceremony_store \<Rightarrow> bool" where
  "bounded n s = (\<forall>cid. length (st_journal (entry_or_default s cid)) \<le> n \<and> length (st_outbox (entry_or_default s cid)) \<le> n)"

lemma bounded_mono: "bounded n s \<Longrightarrow> n \<le> m \<Longrightarrow> bounded m s"
  unfolding bounded_def by (meson le_trans)

lemma bounded_insert:
  "\<lbrakk>bounded n s; n \<le> m; length (st_journal st) \<le> m; length (st_outbox st) \<le> m\<rbrakk> \<Longrightarrow> bounded m (bt_insert cid st s)"
  using bounded_mono [of n s m] by (auto simp: bounded_def)

lemma same_layout_entry:
  assumes "same_layout s s'"
  shows "st_journal (entry_or_default s' cid) = st_journal (entry_or_default s cid) \<and>
    length (st_outbox (entry_or_default s' cid)) = length (st_outbox (entry_or_default s cid))"
  using assms unfolding same_layout_def
  by (induction s s' rule: list_all2_induct) (auto simp: entry_or_default_def dest: map_eq_imp_length_eq)

lemma bounded_same: "same_layout s s' \<Longrightarrow> bounded n s \<Longrightarrow> bounded n s'"
  using same_layout_entry [of s s'] by (simp add: bounded_def)

lemma memory_call_bounded:
  assumes "memory_call sha rfc add call s = Some (s', r)" and "bounded n s"
  shows "bounded (n + call_size call) s'"
proof -
  have entry: "length (st_journal (entry_or_default s cid)) \<le> n" "length (st_outbox (entry_or_default s cid)) \<le> n" for cid
    using assms(2) by (auto simp: bounded_def)
  note more = bounded_mono [OF assms(2)]
  show ?thesis
  proof (cases call)
    case (Commit_Call m)
    let ?cid = "inst_id (commit_instance m)"
    have sealed: "length k = length (st_journal (entry_or_default s ?cid)) + length (commit_facts m)"
      if "seal_facts sha rfc (st_journal (entry_or_default s ?cid)) (commit_facts m) = Inr (k, sealed)" for k sealed
      using seal_facts_records [OF that] by (auto dest: list_all2_lengthD)
    show ?thesis using assms(1) entry [of ?cid] sealed unfolding Commit_Call
      by (auto simp: reply_as_def store_commit_def Let_def split: prod.splits if_splits sum.splits intro!: bounded_insert [OF assms(2)])
  next
    case (Append_Call f)
    show ?thesis using assms(1) entry [of "fact_ceremony_id f"] unfolding Append_Call
      by (auto simp: reply_as_def store_append_def Let_def split: prod.splits sum.splits intro!: bounded_insert [OF assms(2)])
  next
    case (Claim_Call limit now lease)
    then obtain until claimed where "claim_loop limit now until 0 s = (s', claimed)"
      using assms(1) by (auto simp: store_claim_def split: option.splits)
    then show ?thesis using bounded_same [OF claim_loop_layout more] by (simp add: Claim_Call)
  next
    case (Save_Call i)
    show ?thesis using assms(1) entry [of "inst_id i"] unfolding Save_Call
      by (auto simp: store_save_def Let_def intro!: bounded_insert [OF assms(2)])
  qed (use assms(1) bounded_same [OF map_outbox_layout assms(2)] assms(2) in
      \<open>auto simp: store_mark_delivered_def store_mark_failed_def store_quarantine_def\<close>)
qed

section \<open>Simulation of every call\<close>

lemma simulated_reply:
  "simulated rl rep s answer x \<Longrightarrow> simulated rl rep s (reply_as h answer) (reply_as h x)"
  by (auto simp: simulated_def reply_as_def split: prod.splits)

lemma simulated_reply_ok: "simulated rl rep s (s', Inr v) x \<Longrightarrow> simulated rl rep s (s', Inr (h v)) (reply_as h x)"
  using simulated_reply [of rl rep s "(s', Inr v)" x h] by (simp add: reply_as_def)

context redb_database
begin

lemma derived_reads_simulated:
  assumes rep: "represents c (db d) s" and key: "key_text cid"
  shows "simulated (redb_reliable e c) (\<lambda>d. represents c (db d)) s (s, Inr (store_head s cid)) (redb_head e c cid d)"
    and "simulated (redb_reliable e c) (\<lambda>d. represents c (db d)) s (s, store_get s cid) (redb_get e c cid d)"
    and "simulated (redb_reliable e c) (\<lambda>d. represents c (db d)) s (s, Inr (store_exists s cid)) (redb_exists e c cid d)"
  using simulated_map [OF reads_simulated(2) [OF rep key], of "map_ok pop_last"]
    simulated_map [OF reads_simulated(3) [OF rep key], of "\<lambda>r. and_then r (\<lambda>found. ok_or found (NotFound ''ceremony_instance''))"]
    simulated_map [OF reads_simulated(3) [OF rep key], of "map_ok (\<lambda>found. found \<noteq> None)"]
  by (simp_all add: redb_head_def redb_get_def redb_exists_def store_get_def store_exists_def entry_reads)

lemma call_simulated:
  assumes rep: "represents c (db d) s" and ok: "call_ok call" and n: "bounded n s" "Suc (n + call_size call) < 2 ^ 64"
  shows "rel_option (simulated (redb_reliable e c) (\<lambda>d. represents c (db d)) s) (memory_call sha rfc add call s) (redb_call e c sha rfc add call d)"
proof -
  have entry: "length (st_journal (entry_or_default s cid)) \<le> n" "length (st_outbox (entry_or_default s cid)) \<le> n" for cid
    using n(1) by (auto simp: bounded_def)
  show ?thesis
  proof (cases call)
    case (Commit_Call m)
    have "Suc (length (st_journal (entry_or_default s (inst_id (commit_instance m)))) + length (commit_facts m)) \<le> 2 ^ 64"
      "length (st_outbox (entry_or_default s (inst_id (commit_instance m)))) + length (commit_messages m) \<le> 2 ^ 64"
      using entry [of "inst_id (commit_instance m)"] n(2) by (simp_all add: Commit_Call)
    then show ?thesis using simulated_reply [OF commit_simulated [OF rep], where h = R_Commit] ok by (simp add: Commit_Call)
  next
    case (Append_Call f)
    have "Suc (length (st_journal (entry_or_default s (fact_ceremony_id f)))) < 2 ^ 64"
      using entry [of "fact_ceremony_id f"] n(2) by (simp add: Append_Call)
    then show ?thesis using simulated_reply [OF append_simulated [OF rep]] ok by (simp add: Append_Call)
  next
    case (Claim_Call limit now lease)
    show ?thesis using claim_simulated [OF rep, of add limit now lease] simulated_reply_ok
      by (auto simp: Claim_Call rel_option_iff split: option.splits)
  next
    case (Delivered_Call ids)
    show ?thesis unfolding Delivered_Call memory_call.simps redb_call.simps store_mark_delivered_def redb_mark_delivered_def option.rel_inject
      by (rule simulated_reply_ok [where h = "\<lambda>_. R_Done", OF update_simulated [OF rep]]) (auto split: if_splits)
  next
    case (Failed_Call i)
    show ?thesis unfolding Failed_Call memory_call.simps redb_call.simps store_mark_failed_def redb_mark_failed_def option.rel_inject
      by (rule simulated_reply_ok [where h = "\<lambda>_. R_Done", OF update_simulated [OF rep]]) (auto split: if_splits)
  next
    case (Quarantine_Call i reason)
    show ?thesis unfolding Quarantine_Call memory_call.simps redb_call.simps store_quarantine_def redb_quarantine_def option.rel_inject
      by (rule simulated_reply_ok [where h = "\<lambda>_. R_Done", OF update_simulated [OF rep]]) (auto split: if_splits)
  next
    case (Get_Call cid)
    then show ?thesis using simulated_reply [OF derived_reads_simulated(2) [OF rep], where h = R_Instance] ok by (simp add: reply_as_def)
  qed (use ok in \<open>simp_all add: simulated_reply_ok save_simulated [OF rep] reads_simulated [OF rep] derived_reads_simulated [OF rep]
      list_simulated [OF rep] quarantined_simulated [OF rep] simulated_reply_ok [OF save_simulated [OF rep], where h = "\<lambda>_. R_Done"]\<close>)
qed

lemma calls_explained:
  assumes "represents c (db d) s" and "list_all call_ok calls" and "bounded n s" "Suc (n + sum_list (map call_size calls)) < 2 ^ 64"
    and "run_calls (redb_call e c sha rfc add) calls d = Some (d', replies)"
  shows "\<exists>s'. explained sha rfc add calls replies s s' \<and> represents c (db d') s' \<and>
    (redb_reliable e c \<longrightarrow> run_calls (memory_call sha rfc add) calls s = Some (s', replies))"
  using assms
proof (induction calls arbitrary: d s n replies)
  case Nil
  then show ?case by (auto intro: explained_Nil)
next
  case (Cons call calls)
  obtain d1 r rs where d1: "redb_call e c sha rfc add call d = Some (d1, r)" "run_calls (redb_call e c sha rfc add) calls d1 = Some (d', rs)" "replies = r # rs"
    using Cons.prems(5) by (auto split: option.splits)
  have "rel_option (simulated (redb_reliable e c) (\<lambda>d. represents c (db d)) s) (memory_call sha rfc add call s) (redb_call e c sha rfc add call d)"
    using Cons.prems(2,4) by (intro call_simulated [OF Cons.prems(1) _ Cons.prems(3)]) auto
  then obtain s1 r1 where s1: "memory_call sha rfc add call s = Some (s1, r1)"
      "simulated (redb_reliable e c) (\<lambda>d. represents c (db d)) s (s1, r1) (d1, r)"
    using d1(1) by (auto simp: option_rel_Some2)
  have bounded: "bounded (n + call_size call) s1" "bounded (n + call_size call) s"
    using memory_call_bounded [OF s1(1) Cons.prems(3)] bounded_mono [OF Cons.prems(3)] by auto
  note ih = Cons.IH [where n = "n + call_size call", OF _ _ _ _ d1(2)]
  consider "r = r1" "represents c (db d1) s1"
    | err s2 where "\<not> redb_reliable e c" "r = Inl err" "err \<in> redb_failures" "s2 \<in> {s, s1}" "represents c (db d1) s2"
    using s1(2) by (auto simp: simulated_def)
  then show ?case
  proof cases
    case 1
    obtain s' where "explained sha rfc add calls rs s1 s'" "represents c (db d') s'"
        "redb_reliable e c \<longrightarrow> run_calls (memory_call sha rfc add) calls s1 = Some (s', rs)"
      using ih [OF 1(2) _ bounded(1)] Cons.prems(2,4) by (auto simp: add.assoc)
    then show ?thesis using 1 s1(1) d1(3) by (auto intro: explained_Answered)
  next
    case 2
    have "bounded (n + call_size call) s2" using bounded 2(4) by auto
    then obtain s' where "explained sha rfc add calls rs s2 s'" "represents c (db d') s'"
      using ih [OF 2(5)] Cons.prems(2,4) by (auto simp: add.assoc)
    then show ?thesis using 2 s1(1) d1(3) explained_Failed [OF s1(1) 2(3,4)] by auto
  qed
qed

end

section \<open>An engine that keeps ordered lists\<close>

datatype redb_row = Row_Ceremony durable_ceremony | Row_Record audit_record | Row_Message stored_outbox_message | Row_Publication durable_publication

type_synonym row_tables = "redb_table \<Rightarrow> (bytes, redb_row) btree_map"

definition list_engine :: "(row_tables, row_tables, redb_row) redb_engine" where
  "list_engine =
     \<lparr>rd_spawn_blocking = (\<lambda>d. (d, True)), rd_begin_write = (\<lambda>d. (d, Some d)), rd_begin_read = (\<lambda>d. (d, Some d)),
      rd_open_table = (\<lambda>tbl t. True), rd_get = (\<lambda>tbl k t. Some (bt_get (t tbl) k)),
      rd_range = (\<lambda>tbl limits t. Some (map Some (filter (\<lambda>(k, row). in_range limits k) (t tbl)))),
      rd_insert = (\<lambda>tbl k row t. Some (t(tbl := bt_insert k row (t tbl)))), rd_commit = (\<lambda>t d. (t, True))\<rparr>"

text \<open>Rows that are read back only when they hold values that the encoding keeps.\<close>

definition plain_rows :: "redb_row row_codec" where
  "plain_rows =
     \<lparr>rc_ceremony = (\<lambda>x. Some (Row_Ceremony x)), 
      rc_ceremony_from = (\<lambda>row. case row of Row_Ceremony x \<Rightarrow> if instance_exact (dc_instance x) then Some x else None | _ \<Rightarrow> None),
      rc_record = (\<lambda>x. Some (Row_Record x)), rc_record_from = (\<lambda>row. case row of Row_Record x \<Rightarrow> Some x | _ \<Rightarrow> None),
      rc_message = (\<lambda>x. Some (Row_Message x)), 
      rc_message_from = (\<lambda>row. case row of Row_Message z \<Rightarrow> if message_exact (so_message z) then Some z else None | _ \<Rightarrow> None),
      rc_publication = (\<lambda>x. Some (Row_Publication x)), 
      rc_publication_from = (\<lambda>row. case row of Row_Publication p \<Rightarrow> if definition_exact (dp_definition p) then Some p else None | _ \<Rightarrow> None)\<rparr>"

interpretation listed: redb_catalogue_database list_engine plain_rows "\<lambda>d. d" "\<lambda>t. t"
  by unfold_locales (auto simp: list_engine_def plain_rows_def list_all2_map1 list.rel_refl)

lemma list_engine_reliable: "redb_reliable list_engine plain_rows"
  by (simp add: redb_reliable_def list_engine_def plain_rows_def)

section \<open>Properties\<close>

text \<open>
  C16. The embedded store refines the store in memory.  Whatever calls are made on an empty database,
  their replies are those of the store in memory, except that a call may report a failure of the
  engine and then has taken effect as a whole or not at all; the tables represent the store reached
  in memory.  Over an engine that does not fail the replies are exactly those of the store in memory.
  Assumed are the laws of redb, that the encoding keeps values without floats that nest at most 100
  levels deep, that the sessions and messages written hold no other values, and that fewer rows are
  written than a 64-bit ordinal can number.
\<close>

theorem redb_refines_memory:
  assumes "redb_database e c db tx" and "\<And>tbl. db d tbl = []"
    and "list_all call_ok calls" and "Suc (sum_list (map call_size calls)) < 2 ^ 64"
    and "run_calls (redb_call e c sha256 rfc3339 checked_add) calls d = Some (d', replies)"
  shows "\<exists>s. explained sha256 rfc3339 checked_add calls replies [] s \<and> represents c (db d') s \<and>
    (redb_reliable e c \<longrightarrow> run_calls (memory_call sha256 rfc3339 checked_add) calls [] = Some (s, replies))"
proof -
  have "represents c (db d) []" using assms(2) by (simp add: represents_def store_ok_iff rows_hold_def)
  moreover have "bounded 0 []" by (simp add: bounded_def entry_or_default_def)
  ultimately show ?thesis using redb_database.calls_explained [OF assms(1) _ assms(3) _ _ assms(5)] assms(4) by simp
qed

lemma opened_fields: "CeremonyInstance_open iid d ctx now bound = Some i \<Longrightarrow> inst_id i = iid \<and> inst_interventions i = []"
  by (auto simp: CeremonyInstance_open_def split: option.splits)

definition demo_store_calls :: "store_call list" where
  "demo_store_calls = [Append_Call demo_fact, Exists_Call (lit ''s''), Records_Call (fact_ceremony_id demo_fact), Save_Call demo_opened, Get_Call (lit ''c1'')]"

theorem redb_refines_memory_witness:
  "map_option snd (run_calls (redb_call list_engine plain_rows demo_sha demo_rfc (\<lambda>_ _. None)) demo_store_calls (\<lambda>_. [])) =
   Some [Inr (R_Record demo_first), Inr (R_Exists False), Inr (R_Records [demo_first]), Inr R_Done, Inr (R_Instance demo_opened)]"
proof -
  let ?run = "run_calls (redb_call list_engine plain_rows demo_sha demo_rfc (\<lambda>_ _. None)) demo_store_calls (\<lambda>_. [])"
  have "?run \<noteq> None" by (simp add: demo_store_calls_def split: prod.splits)
  then obtain d replies where run: "?run = Some (d, replies)" by auto
  have id: "inst_id demo_opened = lit ''c1''" "inst_interventions demo_opened = []"
    using opened_fields [OF demo_open_eq] by simp_all
  obtain s where memory: "run_calls (memory_call demo_sha demo_rfc (\<lambda>_ _. None)) demo_store_calls [] = Some (s,
      [Inr (R_Record demo_first), Inr (R_Exists False), Inr (R_Records [demo_first]), Inr R_Done, Inr (R_Instance demo_opened)])"
    using demo_first_eq by (simp add: demo_store_calls_def store_append_def Let_def seal_next_def entry_or_default_def reply_as_def id
        store_exists_def store_instance_def store_records_def store_save_def store_get_def demo_fact_def lit_def)
  have "instance_exact demo_opened"
    by (simp add: instance_exact_def id attributes_exact_def ROW_JSON_DEPTH_def StepExecutionRecord_pending_def)
  then have ok: "list_all call_ok demo_store_calls" by (simp add: demo_store_calls_def demo_fact_def key_text_def lit_def scalar_def id)
  have size: "Suc (sum_list (map call_size demo_store_calls)) < 2 ^ 64" by (simp add: demo_store_calls_def)
  from redb_refines_memory [OF listed.redb_database_axioms _ ok size run] list_engine_reliable run memory show ?thesis by auto
qed

end
