(* ===== verification/Spec2Isabelle.thy ===== *)
theory Spec2Isabelle
  imports Outbox_Order Driver_Runs Definition_Diff Ceremony_Seats
    Session_Views Trace_Contexts Definition_Documents Provider_Agents Redb_Runs
begin

text \<open>
  A verification library for the Underpass choreographer, a Rust engine that runs ceremonies:
  sessions that follow a published definition of states, steps, roles, guards and transitions,
  and that leave a tamper-evident record of who did what.  Beside it stands a council engine:
  agents propose, review each other, are judged and ranked, and the winner is executed.

  \<^bold>\<open>The program.\<close>  Four layers under \<open>src/crates\<close>.
  \<^item> \<open>choreo-core\<close> is the domain: validated value objects, the definition of a ceremony with its
    static analysis, the session aggregate \<open>CeremonyInstance\<close>, audit records and their chain,
    commits with optimistic revisions, outbox messages, and the ports.
  \<^item> \<open>choreo-app\<close> has the services and use cases: the session journal that loads a session with its
    revision and commits it with its facts, the derivation of those facts, the requests that
    change a session, the driver that runs a whole ceremony, the recorder that tells the session
    memory what happened, and the publisher that drains the outbox.
  \<^item> \<open>choreo-adapters\<close> implements the ports; the in-memory store is the reference implementation
    of the transactional one.
  \<^item> The remaining crates wire these to gRPC, MCP and the command line.

  \<^bold>\<open>The theories\<close>, in import order, and the sources each one translates:
  \<^item> \<open>Prelude\<close>: results and early returns (\<open>outcome\<close>, \<open>and_then\<close>), saturating words, ordered maps and
    sets (\<open>BTreeMap\<close>, \<open>BTreeSet\<close>) as sorted lists, list updates.
  \<^item> \<open>Rust_Text\<close>: strings as code-point lists with the functions of \<open>str\<close> and \<open>char\<close>; the error
    enum of \<open>error.rs\<close>; decimal display.
  \<^item> \<open>Text_Newtypes\<close>: every text newtype; the locale \<open>text_newtype\<close> gives their common laws.
  \<^item> \<open>Step_Records\<close>: durations, retry policies, leases, step results and execution records.
  \<^item> \<open>Ceremony_Parts\<close>: states, steps, roles, guards, transitions, decision records, reasons.
  \<^item> \<open>Interventions\<close>: external context, evidence packs and agenda items; the locale
    \<open>agenda_operation\<close> is the contract of what may happen to an item.
  \<^item> \<open>Digests\<close>: UTF-8 and big-endian bytes, hexadecimal digests.
  \<^item> \<open>Ceremony_Analysis\<close>: \<open>ceremony_definition_analysis.rs\<close>, all collectors and both graph loops.
  \<^item> \<open>Ceremony_Definition\<close>: \<open>CeremonyDefinition\<close>, drafts and their publication; the locale
    \<open>keyed_collector\<close> covers the indexing of parts by id.
  \<^item> \<open>Ceremony_Instance\<close>: \<open>ceremony_instance.rs\<close>, the aggregate with every operation, and the
    sealing of published definitions.
  \<^item> \<open>Session_Invariant\<close>, \<open>Session_Operations\<close>: the session invariant \<open>inst_wf\<close>, the order
    \<open>inst_extends\<close> of growing history, and the locales \<open>session_operation\<close> and
    \<open>active_session_operation\<close>, interpreted on every operation that changes a session.
  \<^item> \<open>Ceremony_Sessions\<close>: the step relation \<open>session_step\<close> with one rule per operation, the
    reachable sessions, and the properties of runs.
  \<^item> \<open>Audit_Chain\<close>: \<open>audit_record.rs\<close> and \<open>audit_chain.rs\<close>; the canonical form is modelled byte by byte
    and shown to determine the sealed content.
  \<^item> \<open>Ceremony_Store\<close>: \<open>memory/ceremony_store.rs\<close> with the commit, revision and outbox value objects.
  \<^item> \<open>Session_Journal\<close>: \<open>services/session_journal.rs\<close> over the locale \<open>session_store\<close>, which is
    interpreted on the in-memory store; the step relation \<open>store_step\<close> of interleaved port calls.
  \<^item> \<open>Store_Interleavings\<close>: what commits guarantee to concurrent callers.
  \<^item> \<open>Outbox_Publishing\<close>: \<open>publish_outbox_use_case.rs\<close> over the locale \<open>outbox_port\<close>, interpreted on
    the in-memory store.
  \<^item> \<open>Outbox_Order\<close>: the delivery protocol \<open>outbox_step\<close>, where event ids may repeat, and delivery in commit
    order of messages whose ids do not.
  \<^item> \<open>Session_Facts\<close>: \<open>services/session_facts.rs\<close>, the audit facts of each operation and their ids.
  \<^item> \<open>Definition_Publications\<close>: the in-memory repository, catalogue and audit journal, and the use
    cases that publish, resolve, mount and start; the locale \<open>publication_catalogue\<close>.
  \<^item> \<open>Definition_Diff\<close>: \<open>ceremony_definition_diff.rs\<close>, what changed between two definitions and whether a
    running session can go on under the later one.
  \<^item> \<open>Session_Memory\<close>: the memory value objects and \<open>memory/session_memory.rs\<close> with its search.
  \<^item> \<open>Memory_Projection\<close>: \<open>session_memory_projection.rs\<close> and \<open>session_memory_recorder.rs\<close>.
  \<^item> \<open>Session_Use_Cases\<close>: the eleven use cases that change a session, over a record of ports; the
    locale \<open>recorded_change\<close>, interpreted on each of them.
  \<^item> \<open>Ceremony_System\<close>: all of these together as one step relation \<open>system_step\<close>, one rule per port
    call, and the refinement of the relation by the use cases on the in-memory store.
  \<^item> \<open>Ceremony_Driver\<close>: \<open>run_ceremony_use_case.rs\<close>, \<open>run_ceremony_step_use_case.rs\<close>, transcripts and
    handler requests; the locale \<open>driver_environment\<close> of what the driver relies on.
  \<^item> \<open>Driver_Runs\<close>: the driver on the in-memory store.
  \<^item> \<open>Output_Contracts\<close>, \<open>Council_Values\<close>: \<open>output_contract.rs\<close>; scores, tasks, proposals, reports,
    councils, statistics and the events about tasks.
  \<^item> \<open>Deliberations\<close>: \<open>entities/deliberation.rs\<close> as the step relation \<open>deliberation_step\<close>,
    \<open>winner_selection.rs\<close> and \<open>choreo-adapters/src/scoring.rs\<close>; \<open>Council_Scores\<close>: floating-point scoring.
  \<^item> \<open>Council_Registries\<close>: the in-memory registries of agents, councils, contracts, deliberations and
    statistics; the locale \<open>keyed_registry\<close>, interpreted on the first three.
  \<^item> \<open>Council_Deliberation\<close>: \<open>deliberate.rs\<close> over the locale \<open>council_environment\<close>.
  \<^item> \<open>Council_Decisions\<close>: \<open>run_council_decision.rs\<close>, \<open>orchestrate.rs\<close>, \<open>auto_dispatch.rs\<close> and the use cases
    that keep councils and agents; the locale \<open>decision_environment\<close>.
  \<^item> \<open>Council_Engine\<close>: the locale \<open>announcing_environment\<close> of the message bus and the order of messages.
  \<^item> \<open>Output_Validators\<close>: \<open>choreo-adapters/src/validators.rs\<close>, the eight validators, and the chain
    that \<open>choreo/src/compose.rs\<close> wires; \<open>Validator_Verdicts\<close>: what each of them decides.
  \<^item> \<open>Council_Runs\<close>: the engine on its in-memory registries and with this chain, where the three
    environments are interpreted.
  \<^item> \<open>Step_Config\<close>: \<open>ceremony_step_config.rs\<close> and \<open>deliberation_step_config.rs\<close>, what a step says about its
    council, its output contract and the evidence it must be grounded in.
  \<^item> \<open>Deliberating_Steps\<close>: the handler that runs a deliberation as a step of a ceremony, and the plan of
    participants of a definition; here ceremonies and councils meet.  \<open>Ceremony_Seats\<close>: the plan carried
    out on the registries.
  \<^item> \<open>Session_Views\<close>: \<open>ceremony_instance_view.rs\<close>, \<open>ceremony_draft_view.rs\<close> and the reading use cases.
  \<^item> \<open>Trace_Contexts\<close>: \<open>trace_context.rs\<close>, the \<open>traceparent\<close> header.
  \<^item> \<open>Definition_Documents\<close>: \<open>choreo-adapters/src/yaml\<close>, the documents definitions are written in.
  \<^item> \<open>Model_Providers\<close>: \<open>openai_compat.rs\<close>, \<open>instrument.rs\<close>, \<open>endpoint.rs\<close> and \<open>prompts.rs\<close> of
    \<open>choreo-adapters/src/agents\<close>, one exchange with a model provider and what it leaves in the metrics.
  \<^item> \<open>Provider_Agents\<close>: \<open>vllm.rs\<close>, \<open>openai.rs\<close>, \<open>anthropic.rs\<close> and \<open>factory.rs\<close>; the locale
    \<open>provider_call\<close>, interpreted on the three providers.
  \<^item> \<open>Redb_Keys\<close>, \<open>Redb_Store\<close>: \<open>choreo-adapters/src/redb\<close>, the embedded store and its keys, over an engine
    that may fail; \<open>Redb_Rows\<close>: how a store in memory is laid out in tables; \<open>Redb_Laws\<close>: the locale
    \<open>redb_database\<close> of what the store relies on, with the values that its encoding keeps (no floats,
    at most 100 levels of nesting); \<open>Redb_Refinement\<close>, \<open>Redb_Ports\<close>, \<open>Redb_Publications\<close>:
    each port call against the one in memory; \<open>Redb_Runs\<close>: sequences of calls, and an engine of ordered lists
    on which the locale is interpreted.

  \<^bold>\<open>How code becomes definitions.\<close>  A struct is a record whose fields carry a short prefix, an
  enum is a datatype, a newtype is the type it wraps.  \<open>Result\<close> is \<open>outcome\<close>, with the error
  on the left and every early return a branch.  A panic is \<open>None\<close> in an outer option.  Integers
  keep their width (\<open>u32\<close>, \<open>u64\<close> as words; \<open>usize\<close> lengths as \<open>nat\<close>), saturation is written out.
  An instant is an integer number of nanoseconds.  A method that mutates \<open>self\<close> returns the new
  value; a port call returns the new store with its result, also when it fails.  Async code is
  sequential between awaits on ports; concurrency is the interleaving of port calls in the step
  relations, since every call of the in-memory store holds its lock throughout.

  \<^bold>\<open>Parameters.\<close>  Code outside the repository is an argument: \<open>sha256\<close> (the sha2 crate), \<open>rfc3339\<close>
  and \<open>checked_add\<close> (the time crate), \<open>to_vec\<close> and \<open>to_value\<close> (serde\_json), the transport of the
  outbox, the clock, the step handlers and the evidence sources; for the councils the agents, the
  executor, the message bus, the random identifiers, the support judge, and the reading of JSON and
  of JSON Schema; the YAML reader, the file system, the HTTP client, the URL parser, the
  environment and the redb engine with the encoding of its rows.  No property assumes more of them than its statement says; in particular
  nothing assumes SHA-256 to be collision free, and tamper evidence is stated as: agreement, or two
  records in hand whose sealed bytes collide.

  \<^bold>\<open>What is shown.\<close>
  \<^item> Definitions: the analysis finds an error exactly when the parts are ill-formed, its graph loops
    end and are exact, its warnings are exact, publication agrees with the report, and a
    constructed definition never panics.  A diff is empty exactly when nothing but names and
    orders differ, and one that strands nobody keeps running sessions going, except where a
    transition exchanges one guard for another.
  \<^item> Sessions: every reachable session satisfies the invariant; history only grows; a finished
    session can only be explained; leases, idempotency keys and human guards are respected;
    exactly when steps may start and reasons be given; the
    view of a session tells exactly its possible moves and what it waits for.
  \<^item> Audit: what \<open>verify\<close> means, that journals grow intact, and tamper evidence.
  \<^item> Store: journals stay intact under all interleavings, commits are all or nothing, and no
    update is lost below the largest 64-bit revision, where revisions saturate.  The embedded store
    answers as the one in memory does, or reports a failure and took effect as a whole or not at all,
    as long as it is given no floats and no values nested deeper than its encoding can read.
  \<^item> Outbox: what a claim hands out, that a round settles and counts what it claimed, and that
    messages of a ceremony are delivered in commit order.  All of this goes by event id, which nothing
    in the code keeps unique: \<open>shared_id_retires_refused\<close> shows how a refused message is lost.
  \<^item> System: under any interleaving of requests every stored session of a published definition is
    one that definition allows, no session changes without a record, failed requests change
    nothing, and a session keeps the definition it was started with.
  \<^item> Driver: a run that ends well completed the session it returns, and the safety limit stops
    no ceremony without cycles.
  \<^item> Facts and memory: event ids identify attempts at steps, which session ids can be opened,
    which decisions reach the memory, what it knew at a moment, and that its search for reasons
    ends with a shortest chain.
  \<^item> Councils: the ranking is complete, exact and can be read back; scoring is total and exact; a
    deliberation that ends well is stored, has one proposal per seat revised once per round, and
    its winner heads the ranking; when a decision under a contract counts as passed; which messages
    an orchestration sends, in which order, and that every task is reported to its end.
  \<^item> Contracts: the chain of validators passes exactly the proposals that meet the contract, the
    support gate fails closed, the shape walk finds the first violation in document order, and the
    winner of a passed decision meets the contract the decision names; the output of a ceremony
    step meets the contract the step declares, and prepared participants leave no step without
    a council.
  \<^item> Documents: a published document grants exactly the permissions it lists.
  \<^item> Agents: the metrics of providers are exact over any calls, and the factory builds what is
    described with credentials no description can change.
  \<^item> Text and digests: identifiers, digests and trace contexts survive their text form; leases last exactly as
    long as asked.

  \<^bold>\<open>Termination.\<close>  All functions are total.  The worklist of the analysis recurs on the set of
  states not yet visited and the fixpoint on the states not yet marked; the search of the memory
  recurs on the entries not yet seen.  The driver's loop is bounded in the source by the number of
  states and transitions plus one; that bound is the argument of \<open>run_loop\<close>, and
  \<open>run_limit_never_stops_acyclic\<close> shows when it makes no difference.

  \<^bold>\<open>Not modelled.\<close>  Serialisation and deserialisation (the derived \<open>Deserialize\<close> of newtypes skips
  validation), \<open>Debug\<close> and \<open>Display\<close> except where texts are built from it, the SQL
  stores, transports, the judges of model providers, configuration and binaries.

  \<^bold>\<open>Plan.\<close>  Next are the judges of the model providers and the diagrams of definitions.
\<close>

end
